(* ===== verification/Prelude.thy ===== *)
theory Prelude
  imports Main "HOL-Library.Word"
begin

unbundle bit_operations_syntax

text \<open>
  Shared vocabulary of the development: the names of the machine integer types the server uses,
  the result type in which every throw, failed assertion and fatal dereference of the C++ code is
  a value, size_t subtraction with its wrap-around, and the generic lemmas on lists and words that
  the component theories import. The collections \<open>hps_defs\<close> (unfolding rules of small
  operations) and \<open>hps_inv\<close> (what an operation keeps of its component's invariant) are filled by
  the components.
\<close>

named_theorems hps_defs "unfolding rules of the small operations"
named_theorems hps_inv "operations keep the invariant of their component"

section \<open>Machine integers\<close>

type_synonym u8 = "8 word"
type_synonym u16 = "16 word"
type_synonym u32 = "32 word"
type_synonym u64 = "64 word"

text \<open>Signed integers are kept as their two's complement bit pattern and read with \<open>sint\<close>.\<close>

type_synonym i8 = "8 word"
type_synonym i16 = "16 word"
type_synonym i32 = "32 word"
type_synonym i64 = "64 word"

text \<open>
  Subtraction of two size_t values: object sizes and positions are modelled as \<open>nat\<close>, and a
  difference that would be negative wraps modulo \<open>2 ^ 64\<close>, as size_t does.
\<close>

definition size_sub :: "nat \<Rightarrow> nat \<Rightarrow> nat" where
  "size_sub a b = (if b \<le> a then a - b else 2 ^ 64 + a - b)"

lemma size_sub_le [simp]: "b \<le> a \<Longrightarrow> size_sub a b = a - b"
  by (simp add: size_sub_def)

lemma size_sub_add [simp]: "size_sub (a + b) a = b" "size_sub (a + b) b = a"
  by simp_all

section \<open>Results\<close>

text \<open>
  A computation that may throw or crash returns \<open>Inl e\<close> with the failure or \<open>Inr x\<close> with its
  value. \<open>rbind\<close> is the sequencing of two such computations: the first failure wins, as an
  exception leaves the enclosing function.
\<close>

type_synonym ('e, 'a) result = "'e + 'a"

definition rbind :: "('e, 'a) result \<Rightarrow> ('a \<Rightarrow> ('e, 'b) result) \<Rightarrow> ('e, 'b) result" where
  "rbind r f = (case r of Inl e \<Rightarrow> Inl e | Inr x \<Rightarrow> f x)"

lemma rbind_simps [simp]:
  "rbind (Inl e) f = Inl e"
  "rbind (Inr x) f = f x"
  by (simp_all add: rbind_def)

lemma rbind_Inr [simp]: "rbind r Inr = r"
  by (cases r) simp_all

lemma rbind_assoc: "rbind (rbind r f) g = rbind r (\<lambda>x. rbind (f x) g)"
  by (cases r) simp_all

lemma rbind_eq_Inr_iff: "rbind r f = Inr y \<longleftrightarrow> (\<exists>x. r = Inr x \<and> f x = Inr y)"
  by (cases r) simp_all

lemma rbind_eq_Inl_iff: "rbind r f = Inl e \<longleftrightarrow> r = Inl e \<or> (\<exists>x. r = Inr x \<and> f x = Inl e)"
  by (cases r) simp_all

section \<open>Lists\<close>

text \<open>
  \<open>splice_at xs i ys\<close> is \<open>xs\<close> with the elements from index \<open>i\<close> replaced by \<open>ys\<close>: what memcpy does to
  the block that holds the target.
\<close>

definition splice_at :: "'a list \<Rightarrow> nat \<Rightarrow> 'a list \<Rightarrow> 'a list" where
  "splice_at xs i ys = take i xs @ ys @ drop (i + length ys) xs"

lemma splice_at_Nil [simp]: "splice_at xs i [] = xs"
  by (simp add: splice_at_def)

lemma length_splice_at [simp]:
  "i + length ys \<le> length xs \<Longrightarrow> length (splice_at xs i ys) = length xs"
  by (simp add: splice_at_def)

lemma splice_at_append_left:
  "i + length zs \<le> length xs \<Longrightarrow> splice_at (xs @ ys) i zs = splice_at xs i zs @ ys"
  by (simp add: splice_at_def)

lemma splice_at_append_right:
  "length xs \<le> i \<Longrightarrow> splice_at (xs @ ys) i zs = xs @ splice_at ys (i - length xs) zs"
  by (simp add: splice_at_def)

lemma splice_at_splice_at:
  assumes "i + length ys \<le> length xs"
  shows "splice_at (splice_at xs i ys) (i + length ys) zs = splice_at xs i (ys @ zs)"
  using assms by (simp add: splice_at_def ac_simps)

lemma take_drop_splice_at:
  "i + length ys \<le> length xs \<Longrightarrow> take (length ys) (drop i (splice_at xs i ys)) = ys"
  by (simp add: splice_at_def)

lemma take_splice_at: "i \<le> length xs \<Longrightarrow> take i (splice_at xs i ys) = take i xs"
  by (simp add: splice_at_def)

lemma drop_splice_at:
  "i + length ys \<le> length xs \<Longrightarrow> drop (i + length ys) (splice_at xs i ys) = drop (i + length ys) xs"
  by (simp add: splice_at_def)

lemma take_add_drop: "take (m + n) (drop i xs) = take m (drop i xs) @ take n (drop (i + m) xs)"
  by (simp add: take_add add.commute)

text \<open>Blocks of one width: indexing the concatenation by block and offset.\<close>

lemma length_concat_blocks:
  "\<forall>x \<in> set xs. length x = b \<Longrightarrow> length (concat xs) = length xs * b"
  by (induction xs) auto

lemma drop_concat_blocks:
  "\<forall>x \<in> set xs. length x = b \<Longrightarrow> k \<le> length xs \<Longrightarrow> drop (k * b) (concat xs) = concat (drop k xs)"
proof (induction xs arbitrary: k)
  case Nil
  then show ?case by simp
next
  case (Cons x xs)
  then show ?case by (cases k) simp_all
qed

lemma concat_update_block:
  assumes "\<forall>x \<in> set xs. length x = b" "k < length xs" "off + length ys \<le> b"
  shows "concat (xs[k := splice_at (xs ! k) off ys]) = splice_at (concat xs) (k * b + off) ys"
  using assms
proof (induction xs arbitrary: k)
  case Nil
  then show ?case by simp
next
  case (Cons x xs)
  show ?case
  proof (cases k)
    case 0
    with Cons.prems show ?thesis by (simp add: splice_at_append_left)
  next
    case (Suc j)
    with Cons show ?thesis by (simp add: splice_at_append_right add.assoc)
  qed
qed

lemma take_drop_block:
  assumes "\<forall>x \<in> set xs. length x = b" "k < length xs" "off + n \<le> b"
  shows "take n (drop off (xs ! k)) = take n (drop (k * b + off) (concat xs))"
proof -
  from assms have "drop (k * b) (concat xs) = concat (drop k xs)"
    by (simp add: drop_concat_blocks)
  also have "\<dots> = xs ! k @ concat (drop (Suc k) xs)"
    using assms(2) by (simp flip: Cons_nth_drop_Suc)
  finally have *: "drop off (drop (k * b) (concat xs)) = drop off (xs ! k @ concat (drop (Suc k) xs))"
    by simp
  from assms have "length (xs ! k) = b" by simp
  with assms(3) have "take n (drop off (xs ! k @ concat (drop (Suc k) xs))) = take n (drop off (xs ! k))"
    by simp
  with * show ?thesis by (simp add: add.commute)
qed

lemma unat_add_lt: "unat a + unat b < 2 ^ LENGTH('a) \<Longrightarrow> unat (a + b) = unat a + unat b" for a b :: "'a::len word"
  by (simp add: unat_word_ariths)

end
