(* ===== verification/Endian.thy ===== *)
theory Endian
  imports Prelude
begin

unbundle bit_operations_syntax

text \<open>
  Byte order, after \<open>src/endian.hpp\<close>: the bytes of an integer in memory, the byte swap templates,
  and the two conditional swaps. The build targets x86-64, so the host order \<open>BYTE_ORDER\<close> is little
  endian, and the object representation of an integer lists its least significant byte first.
\<close>

datatype byte_order = LITTLE_ENDIAN | BIG_ENDIAN

definition BYTE_ORDER :: byte_order where
  "BYTE_ORDER = LITTLE_ENDIAN"

section \<open>Object representation\<close>

definition bytes_of :: "'a::len word \<Rightarrow> u8 list" where
  "bytes_of w = map (\<lambda>i. ucast (drop_bit (8 * i) w)) [0..<LENGTH('a) div 8]"

fun word_of_bytes :: "u8 list \<Rightarrow> 'a::len word" where
  "word_of_bytes [] = 0"
| "word_of_bytes (b # bs) = ucast b OR push_bit 8 (word_of_bytes bs)"

lemma length_bytes_of [simp]: "length (bytes_of (w :: 'a::len word)) = LENGTH('a) div 8"
  by (simp add: bytes_of_def)

lemma bit_word_of_bytes:
  "bit (word_of_bytes bs :: 'a::len word) n \<longleftrightarrow>
     n < LENGTH('a) \<and> n div 8 < length bs \<and> bit (bs ! (n div 8)) (n mod 8)"
proof (induction bs arbitrary: n)
  case Nil
  then show ?case by simp
next
  case (Cons b bs)
  show ?case
  proof (cases "n < 8")
    case True
    then show ?thesis by (auto simp: bit_or_iff bit_push_bit_iff bit_ucast_iff)
  next
    case False
    then obtain m where n: "n = 8 + m" using le_Suc_ex not_less by blast
    have nb: "\<not> bit b (8 + m)" using bit_imp_le_length [of b "8 + m"] by auto
    have d: "(8 + m) div 8 = Suc (m div 8)" by simp
    show ?thesis using Cons.IH [of m] nb
      by (auto simp: n d bit_or_iff bit_push_bit_iff bit_ucast_iff possible_bit_word)
  qed
qed

lemma bit_bytes_of:
  fixes w :: "'a::len word"
  assumes "i < LENGTH('a) div 8" "n < 8"
  shows "bit (bytes_of w ! i) n = bit w (8 * i + n)"
  using assms by (simp add: bytes_of_def bit_ucast_iff bit_drop_bit_eq)

lemma word_of_bytes_of_bytes:
  assumes "8 dvd LENGTH('a::len)"
  shows "word_of_bytes (bytes_of w) = (w :: 'a word)"
proof (rule bit_eqI)
  fix n assume "possible_bit TYPE('a word) n"
  then have n: "n < LENGTH('a)" by (simp add: possible_bit_word)
  have "n div 8 < LENGTH('a) div 8" using n assms by (auto elim!: dvdE)
  then show "bit (word_of_bytes (bytes_of w) :: 'a word) n = bit w n"
    using n by (simp add: bit_word_of_bytes bit_bytes_of)
qed

lemma bytes_of_word_of_bytes:
  assumes "length bs = LENGTH('a::len) div 8"
  shows "bytes_of (word_of_bytes bs :: 'a word) = bs"
proof (rule nth_equalityI)
  show "length (bytes_of (word_of_bytes bs :: 'a word)) = length bs"
    using assms by simp
next
  fix i assume "i < length (bytes_of (word_of_bytes bs :: 'a word))"
  then have i: "i < LENGTH('a) div 8" by simp
  show "bytes_of (word_of_bytes bs :: 'a word) ! i = bs ! i"
  proof (rule bit_word_eqI)
    fix n assume "n < LENGTH(8)"
    then have n: "n < 8" by simp
    from i n have "8 * i + n < LENGTH('a)" by linarith
    with i n assms show "bit (bytes_of (word_of_bytes bs :: 'a word) ! i) n = bit (bs ! i) n"
      by (simp add: bit_bytes_of bit_word_of_bytes)
  qed
qed

section \<open>Byte swaps\<close>

text \<open>
  The template \<open>byteswap\<close> selects bswap_16, bswap_32 or bswap_64 by the size of its argument; all
  three reverse the order of the bytes.
\<close>

definition byteswap :: "'a::len word \<Rightarrow> 'a word" where
  "byteswap value = word_of_bytes (rev (bytes_of value))"

definition byteswapOnLittleEndian :: "'a::len word \<Rightarrow> 'a word" where
  "byteswapOnLittleEndian t = (if BYTE_ORDER = BIG_ENDIAN then t else byteswap t)"

definition byteswapOnBigEndian :: "'a::len word \<Rightarrow> 'a word" where
  "byteswapOnBigEndian t = (if BYTE_ORDER = BIG_ENDIAN then byteswap t else t)"

lemma bytes_of_byteswap [simp]: "bytes_of (byteswap w) = rev (bytes_of w)"
  by (simp add: byteswap_def bytes_of_word_of_bytes)

lemma byteswap_byteswap:
  assumes "8 dvd LENGTH('a::len)"
  shows "byteswap (byteswap w) = (w :: 'a word)"
  using assms by (simp add: byteswap_def [of "byteswap w"] word_of_bytes_of_bytes)

lemma byteswapOnLittleEndian_idem:
  assumes "8 dvd LENGTH('a::len)"
  shows "byteswapOnLittleEndian (byteswapOnLittleEndian w) = (w :: 'a word)"
  using assms by (simp add: byteswapOnLittleEndian_def BYTE_ORDER_def byteswap_byteswap)

text \<open>
  \<open>wire_bytes e w\<close> is the order in which a fixed-width integer stands in a buffer of byte order \<open>e\<close>:
  most significant byte first for big endian, least significant first for little endian.
\<close>

definition wire_bytes :: "byte_order \<Rightarrow> 'a::len word \<Rightarrow> u8 list" where
  "wire_bytes e w = (if e = LITTLE_ENDIAN then bytes_of w else rev (bytes_of w))"

lemma length_wire_bytes [simp]: "length (wire_bytes e (w :: 'a::len word)) = LENGTH('a) div 8"
  by (simp add: wire_bytes_def)

end
