(* ===== verification/ByteArray.thy ===== *)
theory ByteArray
  imports Endian
begin

text \<open>
  The storage layer of \<open>src/bytearray.cc\<close>: a growable byte buffer kept as a chain of blocks of one
  size, with a cursor that is both a position and a pointer to the block that holds it. The chain
  that starts at m_root is the list \<open>m_nodes\<close>, and a Node pointer into it is an index (\<open>None\<close> for
  NULL). A dereference of NULL, an out_of_range exception, a division by a zero block size, a
  negative count handed to an output stream and a loop that makes no progress are the failures of
  \<open>ba_error\<close>.

  The abstract view is the flat list of the m_size bytes; \<open>ba_inv\<close> is the representation invariant.
  The last section packs what the codecs rely on as the locale \<open>byte_cursor\<close>, interpreted on this
  implementation.
\<close>

section \<open>Data\<close>

datatype ba_error = OutOfRange string | NullDeref | DivByZero | BadCount | Endless

record node =
  n_ptr :: "u8 list"
  n_size :: nat

text \<open>
  \<open>m_fresh k i\<close> is byte \<open>i\<close> of what \<open>new char[s]\<close> leaves in the \<open>k\<close>-th block the object allocates:
  the memory is not initialised, so it is an arbitrary function, and \<open>m_allocs\<close> counts allocations.
\<close>

record bytearray =
  m_baseSize :: nat
  m_position :: nat
  m_capacity :: nat
  m_size :: nat
  m_endian :: byte_order
  m_nodes :: "node list"
  m_cur :: "nat option"
  m_fresh :: "nat \<Rightarrow> nat \<Rightarrow> u8"
  m_allocs :: nat

definition Node :: "(nat \<Rightarrow> u8) \<Rightarrow> nat \<Rightarrow> node" where
  "Node junk s = \<lparr>n_ptr = map junk [0..<s], n_size = s\<rparr>"

definition ByteArray :: "(nat \<Rightarrow> nat \<Rightarrow> u8) \<Rightarrow> nat \<Rightarrow> bytearray" where
  "ByteArray fresh base_size =
     \<lparr>m_baseSize = base_size, m_position = 0, m_capacity = base_size, m_size = 0,
      m_endian = BIG_ENDIAN, m_nodes = [Node (fresh 0) base_size], m_cur = Some 0,
      m_fresh = fresh, m_allocs = 1\<rparr>"

definition isLittleEndian :: "bytearray \<Rightarrow> bool" where
  "isLittleEndian ba \<longleftrightarrow> m_endian ba = LITTLE_ENDIAN"

definition setIsLittleEndian :: "bytearray \<Rightarrow> bool \<Rightarrow> bytearray" where
  "setIsLittleEndian ba val =
     (if val then ba\<lparr>m_endian := LITTLE_ENDIAN\<rparr> else ba\<lparr>m_endian := BIG_ENDIAN\<rparr>)"

definition getReadSize :: "bytearray \<Rightarrow> nat" where
  "getReadSize ba = size_sub (m_size ba) (m_position ba)"

definition getCapacity :: "bytearray \<Rightarrow> nat" where
  "getCapacity ba = size_sub (m_capacity ba) (m_position ba)"

section \<open>Pointers into the chain\<close>

definition node_next :: "node list \<Rightarrow> nat \<Rightarrow> nat option" where
  "node_next ns k = (if Suc k < length ns then Some (Suc k) else None)"

definition mem_store :: "node list \<Rightarrow> nat \<Rightarrow> nat \<Rightarrow> u8 list \<Rightarrow> node list" where
  "mem_store ns k off bs = ns[k := (ns ! k)\<lparr>n_ptr := splice_at (n_ptr (ns ! k)) off bs\<rparr>]"

definition mem_load :: "node list \<Rightarrow> nat \<Rightarrow> nat \<Rightarrow> nat \<Rightarrow> u8 list" where
  "mem_load ns k off n = take n (drop off (n_ptr (ns ! k)))"

lemma length_mem_store [simp]: "length (mem_store ns k off bs) = length ns"
  by (simp add: mem_store_def)

lemma n_size_mem_store [simp]: "k < length ns \<Longrightarrow> n_size (mem_store ns k off bs ! j) = n_size (ns ! j)"
  by (cases "j = k") (simp_all add: mem_store_def)

lemma node_next_lt: "node_next ns k = Some j \<Longrightarrow> j = Suc k \<and> Suc k < length ns"
  by (simp add: node_next_def split: if_splits)

section \<open>Growing and clearing\<close>

text \<open>
  \<open>ceil(1.0 * size / m_baseSize)\<close> is the exact ceiling as long as \<open>sz\<close> is below \<open>2 ^ 53\<close>, which every
  allocatable size is.
\<close>

definition addCapacity :: "bytearray \<Rightarrow> nat \<Rightarrow> bytearray" where
  "addCapacity ba sz =
     (if sz = 0 then ba
      else let old_cap = getCapacity ba in
        if sz \<le> old_cap then ba
        else let need = sz - old_cap;
                 count = (need + m_baseSize ba - 1) div m_baseSize ba;
                 new = map (\<lambda>i. Node (m_fresh ba (m_allocs ba + i)) (m_baseSize ba)) [0..<count];
                 first = (if 0 < count then Some (length (m_nodes ba)) else None)
             in ba\<lparr>m_nodes := m_nodes ba @ new,
                   m_allocs := m_allocs ba + count,
                   m_capacity := m_capacity ba + count * m_baseSize ba,
                   m_cur := (if old_cap = 0 then first else m_cur ba)\<rparr>)"

definition ba_clear :: "bytearray \<Rightarrow> bytearray" where
  "ba_clear ba = ba\<lparr>m_position := 0, m_size := 0, m_capacity := m_baseSize ba,
                    m_nodes := take 1 (m_nodes ba), m_cur := Some 0\<rparr>"

section \<open>Writing\<close>

text \<open>
  The loop of ByteArray::write. \<open>npos\<close> and \<open>ncap\<close> are the offset in the current block and the room
  left in it, \<open>bpos\<close> the offset in the source buffer, \<open>sz\<close> what is left to copy.
\<close>

function write_loop ::
  "node list \<Rightarrow> nat \<Rightarrow> nat \<Rightarrow> nat \<Rightarrow> u8 list \<Rightarrow> nat \<Rightarrow> nat \<Rightarrow> nat
     \<Rightarrow> (ba_error, node list \<times> nat option \<times> nat) result" where
  "write_loop ns k npos ncap buf bpos sz pos =
     (if sz = 0 then Inr (ns, Some k, pos)
      else if sz \<le> ncap then
        Inr (mem_store ns k npos (take sz (drop bpos buf)),
             (if n_size (ns ! k) = npos + sz then node_next ns k else Some k), pos + sz)
      else (case node_next ns k of
              None \<Rightarrow> Inl NullDeref
            | Some k' \<Rightarrow>
                write_loop (mem_store ns k npos (take ncap (drop bpos buf))) k' 0 (n_size (ns ! k'))
                  buf (bpos + ncap) (sz - ncap) (pos + ncap)))"
  by pat_completeness auto
termination
  by (relation "measure (\<lambda>(ns, k, _). length ns - k)") (auto dest: node_next_lt)

declare write_loop.simps [simp del]

definition ba_write :: "bytearray \<Rightarrow> u8 list \<Rightarrow> (ba_error, bytearray) result" where
  "ba_write ba buf =
     (if length buf = 0 then Inr ba
      else if m_baseSize ba = 0 then Inl DivByZero
      else let ba1 = addCapacity ba (length buf);
               npos = m_position ba1 mod m_baseSize ba1
           in (case m_cur ba1 of
                 None \<Rightarrow> Inl NullDeref
               | Some k \<Rightarrow>
                   rbind (write_loop (m_nodes ba1) k npos (size_sub (n_size (m_nodes ba1 ! k)) npos)
                            buf 0 (length buf) (m_position ba1))
                     (\<lambda>(ns, cur, pos).
                        Inr (ba1\<lparr>m_nodes := ns, m_cur := cur, m_position := pos,
                                 m_size := (if pos > m_size ba1 then pos else m_size ba1)\<rparr>))))"

section \<open>Reading\<close>

text \<open>The loop shared by both overloads of ByteArray::read: the bytes read, the block and position after.\<close>

function read_loop ::
  "node list \<Rightarrow> nat \<Rightarrow> nat \<Rightarrow> nat \<Rightarrow> nat \<Rightarrow> nat \<Rightarrow> (ba_error, u8 list \<times> nat option \<times> nat) result" where
  "read_loop ns k npos ncap sz pos =
     (if sz = 0 then Inr ([], Some k, pos)
      else if sz \<le> ncap then
        Inr (mem_load ns k npos sz,
             (if n_size (ns ! k) = npos + sz then node_next ns k else Some k), pos + sz)
      else (case node_next ns k of
              None \<Rightarrow> Inl NullDeref
            | Some k' \<Rightarrow>
                rbind (read_loop ns k' 0 (n_size (ns ! k')) (sz - ncap) (pos + ncap))
                  (\<lambda>(bs, cur, p). Inr (mem_load ns k npos ncap @ bs, cur, p))))"
  by pat_completeness auto
termination
  by (relation "measure (\<lambda>(ns, k, _). length ns - k)") (auto dest: node_next_lt)

declare read_loop.simps [simp del]

definition ba_read :: "bytearray \<Rightarrow> nat \<Rightarrow> (ba_error, u8 list \<times> bytearray) result" where
  "ba_read ba sz =
     (if sz > getReadSize ba then Inl (OutOfRange ''not enough len'')
      else if m_baseSize ba = 0 then Inl DivByZero
      else let npos = m_position ba mod m_baseSize ba in
        (case m_cur ba of
           None \<Rightarrow> Inl NullDeref
         | Some k \<Rightarrow>
             rbind (read_loop (m_nodes ba) k npos (size_sub (n_size (m_nodes ba ! k)) npos) sz (m_position ba))
               (\<lambda>(bs, cur, pos). Inr (bs, ba\<lparr>m_cur := cur, m_position := pos\<rparr>))))"

text \<open>The const overload reads at a given position, but starts from the block of the cursor.\<close>

definition ba_read_at :: "bytearray \<Rightarrow> nat \<Rightarrow> nat \<Rightarrow> (ba_error, u8 list) result" where
  "ba_read_at ba sz position =
     (if sz > size_sub (m_size ba) position then Inl (OutOfRange ''not enough len'')
      else if m_baseSize ba = 0 then Inl DivByZero
      else let npos = position mod m_baseSize ba in
        (case m_cur ba of
           None \<Rightarrow> Inl NullDeref
         | Some k \<Rightarrow>
             rbind (read_loop (m_nodes ba) k npos (size_sub (n_size (m_nodes ba ! k)) npos) sz position)
               (\<lambda>(bs, cur, pos). Inr bs)))"

section \<open>Moving the cursor\<close>

text \<open>The loop of setPosition: from block \<open>k\<close>, walk on while \<open>v\<close> is beyond the block.\<close>

function seek_loop :: "node list \<Rightarrow> nat \<Rightarrow> nat \<Rightarrow> (ba_error, nat option) result" where
  "seek_loop ns k v =
     (if v > n_size (ns ! k) then
        (case node_next ns k of
           None \<Rightarrow> Inl NullDeref
         | Some k' \<Rightarrow> seek_loop ns k' (v - n_size (ns ! k)))
      else if v = n_size (ns ! k) then Inr (node_next ns k)
      else Inr (Some k))"
  by pat_completeness auto
termination
  by (relation "measure (\<lambda>(ns, k, _). length ns - k)") (auto dest: node_next_lt)

declare seek_loop.simps [simp del]

definition setPosition :: "bytearray \<Rightarrow> nat \<Rightarrow> (ba_error, bytearray) result" where
  "setPosition ba v =
     (if v > m_capacity ba then Inl (OutOfRange ''set_position out of range'')
      else rbind (seek_loop (m_nodes ba) 0 v)
             (\<lambda>cur. Inr (ba\<lparr>m_position := v, m_size := (if v > m_size ba then v else m_size ba),
                            m_cur := cur\<rparr>)))"

section \<open>Scatter and gather buffers\<close>

text \<open>An iovec names a block, an offset in it and a length.\<close>

record iovec =
  iov_node :: nat
  iov_off :: nat
  iov_len :: nat

definition iov :: "nat \<Rightarrow> nat \<Rightarrow> nat \<Rightarrow> iovec" where
  "iov k off len = \<lparr>iov_node = k, iov_off = off, iov_len = len\<rparr>"

function iov_loop :: "node list \<Rightarrow> nat \<Rightarrow> nat \<Rightarrow> nat \<Rightarrow> nat \<Rightarrow> (ba_error, iovec list) result" where
  "iov_loop ns k npos ncap len =
     (if len = 0 then Inr []
      else if len \<le> ncap then Inr [iov k npos len]
      else (case node_next ns k of
              None \<Rightarrow> Inl NullDeref
            | Some k' \<Rightarrow> rbind (iov_loop ns k' 0 (n_size (ns ! k')) (len - ncap))
                           (\<lambda>vs. Inr (iov k npos ncap # vs))))"
  by pat_completeness auto
termination
  by (relation "measure (\<lambda>(ns, k, _). length ns - k)") (auto dest: node_next_lt)

declare iov_loop.simps [simp del]

definition iov_start :: "bytearray \<Rightarrow> nat option \<Rightarrow> nat \<Rightarrow> nat \<Rightarrow> (ba_error, iovec list) result" where
  "iov_start ba cur npos len =
     (case cur of
        None \<Rightarrow> Inl NullDeref
      | Some k \<Rightarrow> iov_loop (m_nodes ba) k npos (size_sub (n_size (m_nodes ba ! k)) npos) len)"

definition getReadBuffers :: "bytearray \<Rightarrow> nat \<Rightarrow> (ba_error, nat \<times> iovec list) result" where
  "getReadBuffers ba len0 =
     (let len = (if len0 > getReadSize ba then getReadSize ba else len0) in
      if len = 0 then Inr (0, [])
      else if m_baseSize ba = 0 then Inl DivByZero
      else rbind (iov_start ba (m_cur ba) (m_position ba mod m_baseSize ba) len) (\<lambda>vs. Inr (len, vs)))"

text \<open>\<open>count\<close> steps along the chain from the root.\<close>

definition chain_at :: "node list \<Rightarrow> nat \<Rightarrow> nat option" where
  "chain_at ns count = (if count < length ns then Some count else None)"

definition getReadBuffers_at :: "bytearray \<Rightarrow> nat \<Rightarrow> nat \<Rightarrow> (ba_error, nat \<times> iovec list) result" where
  "getReadBuffers_at ba len0 position =
     (let len = (if len0 > getReadSize ba then getReadSize ba else len0) in
      if len = 0 then Inr (0, [])
      else if m_baseSize ba = 0 then Inl DivByZero
      else rbind (iov_start ba (chain_at (m_nodes ba) (position div m_baseSize ba))
                    (position mod m_baseSize ba) len) (\<lambda>vs. Inr (len, vs)))"

definition getWriteBuffers :: "bytearray \<Rightarrow> nat \<Rightarrow> (ba_error, nat \<times> iovec list \<times> bytearray) result" where
  "getWriteBuffers ba len =
     (if len = 0 then Inr (0, [], ba)
      else if m_baseSize ba = 0 then Inl DivByZero
      else let ba1 = addCapacity ba len in
        rbind (iov_start ba1 (m_cur ba1) (m_position ba1 mod m_baseSize ba1) len)
          (\<lambda>vs. Inr (len, vs, ba1)))"

text \<open>What a gathering send takes from the blocks, and what a scattering receive puts into them.\<close>

definition iov_bytes :: "node list \<Rightarrow> iovec list \<Rightarrow> u8 list" where
  "iov_bytes ns vs = concat (map (\<lambda>v. mem_load ns (iov_node v) (iov_off v) (iov_len v)) vs)"

fun iov_fill :: "node list \<Rightarrow> iovec list \<Rightarrow> u8 list \<Rightarrow> node list" where
  "iov_fill ns [] bs = ns"
| "iov_fill ns (v # vs) bs =
     iov_fill (mem_store ns (iov_node v) (iov_off v) (take (iov_len v) bs)) vs (drop (iov_len v) bs)"

section \<open>Whole contents\<close>

definition ba_toString :: "bytearray \<Rightarrow> (ba_error, u8 list) result" where
  "ba_toString ba =
     (if getReadSize ba = 0 then Inr [] else ba_read_at ba (getReadSize ba) (m_position ba))"

text \<open>
  The loop of writeToFile, with its int64_t arithmetic: \<open>out\<close> is what the stream received. A negative
  count passed to ostream::write is \<open>BadCount\<close>.
\<close>

function file_loop :: "nat \<Rightarrow> node list \<Rightarrow> nat option \<Rightarrow> int \<Rightarrow> int \<Rightarrow> (ba_error, u8 list) result" where
  "file_loop base ns cur pos read_size =
     (if read_size \<le> 0 then Inr []
      else (case cur of
              None \<Rightarrow> Inl NullDeref
            | Some k \<Rightarrow>
                let diff = pos mod int base;
                    len = (if read_size > int base then int base else read_size) - diff
                in if len < 0 then Inl BadCount
                   else if k < length ns then
                     rbind (file_loop base ns (node_next ns k) (pos + len) (read_size - len))
                       (\<lambda>bs. Inr (mem_load ns k (nat diff) (nat len) @ bs))
                   else Inl NullDeref))"
  by pat_completeness auto
termination
  by (relation "measure (\<lambda>(base, ns, cur, _). case cur of None \<Rightarrow> 0 | Some k \<Rightarrow> Suc (length ns - k))")
    (auto simp: node_next_def)

declare file_loop.simps [simp del]

text \<open>\<open>opened\<close> tells whether the file could be opened; the result is \<open>None\<close> where the code returns false.\<close>

definition writeToFile :: "bool \<Rightarrow> bytearray \<Rightarrow> (ba_error, u8 list option) result" where
  "writeToFile opened ba =
     (if \<not> opened then Inr None
      else if m_baseSize ba = 0 \<and> getReadSize ba > 0 then Inl DivByZero
      else rbind (file_loop (m_baseSize ba) (m_nodes ba) (m_cur ba) (int (m_position ba)) (int (getReadSize ba)))
             (\<lambda>bs. Inr (Some bs)))"

function fill_loop :: "bytearray \<Rightarrow> nat \<Rightarrow> u8 list \<Rightarrow> (ba_error, bytearray) result" where
  "fill_loop ba base bs =
     (if base = 0 then Inl Endless
      else if length bs < base then ba_write ba bs
      else rbind (ba_write ba (take base bs)) (\<lambda>ba'. fill_loop ba' base (drop base bs)))"
  by pat_completeness auto
termination
  by (relation "measure (\<lambda>(ba, base, bs). length bs)") auto

declare fill_loop.simps [simp del]

definition readFromFile :: "u8 list option \<Rightarrow> bytearray \<Rightarrow> (ba_error, bool \<times> bytearray) result" where
  "readFromFile file ba =
     (case file of
        None \<Rightarrow> Inr (False, ba)
      | Some bs \<Rightarrow> rbind (fill_loop ba (m_baseSize ba) bs) (\<lambda>ba'. Inr (True, ba')))"


section \<open>Representation invariant\<close>

definition wf_nodes :: "nat \<Rightarrow> node list \<Rightarrow> bool" where
  "wf_nodes b ns \<longleftrightarrow> (\<forall>n \<in> set ns. n_size n = b \<and> length (n_ptr n) = b)"

definition flat :: "node list \<Rightarrow> u8 list" where
  "flat ns = concat (map n_ptr ns)"

definition cur_at :: "nat \<Rightarrow> nat \<Rightarrow> nat \<Rightarrow> nat option" where
  "cur_at b n pos = (if pos < n * b then Some (pos div b) else None)"

definition ba_inv :: "bytearray \<Rightarrow> bool" where
  "ba_inv ba \<longleftrightarrow>
     0 < m_baseSize ba \<and> m_nodes ba \<noteq> [] \<and> wf_nodes (m_baseSize ba) (m_nodes ba) \<and>
     m_capacity ba = length (m_nodes ba) * m_baseSize ba \<and>
     m_position ba \<le> m_size ba \<and> m_size ba \<le> m_capacity ba \<and>
     m_cur ba = cur_at (m_baseSize ba) (length (m_nodes ba)) (m_position ba)"

definition ba_data :: "bytearray \<Rightarrow> u8 list" where
  "ba_data ba = take (m_size ba) (flat (m_nodes ba))"

lemma wf_nodes_nth: "wf_nodes b ns \<Longrightarrow> k < length ns \<Longrightarrow> n_size (ns ! k) = b \<and> length (n_ptr (ns ! k)) = b"
  by (simp add: wf_nodes_def)

lemma wf_nodes_ptrs: "wf_nodes b ns \<Longrightarrow> \<forall>x \<in> set (map n_ptr ns). length x = b"
  by (auto simp: wf_nodes_def)

lemma wf_nodes_append [simp]: "wf_nodes b (xs @ ys) \<longleftrightarrow> wf_nodes b xs \<and> wf_nodes b ys"
  by (auto simp: wf_nodes_def)

lemma flat_append [simp]: "flat (xs @ ys) = flat xs @ flat ys"
  by (simp add: flat_def)

lemma length_flat: "wf_nodes b ns \<Longrightarrow> length (flat ns) = length ns * b"
  using length_concat_blocks [OF wf_nodes_ptrs] by (simp add: flat_def)

lemma wf_mem_store:
  assumes "wf_nodes b ns" "k < length ns" "off + length bs \<le> b"
  shows "wf_nodes b (mem_store ns k off bs)"
  unfolding wf_nodes_def
proof
  fix n assume "n \<in> set (mem_store ns k off bs)"
  then have "n = (ns ! k)\<lparr>n_ptr := splice_at (n_ptr (ns ! k)) off bs\<rparr> \<or> n \<in> set ns"
    by (auto simp: mem_store_def dest: set_update_subset_insert [THEN subsetD])
  then show "n_size n = b \<and> length (n_ptr n) = b"
    using assms wf_nodes_nth [OF assms(1,2)] by (auto simp: wf_nodes_def)
qed

lemma flat_mem_store:
  assumes "wf_nodes b ns" "k < length ns" "off + length bs \<le> b"
  shows "flat (mem_store ns k off bs) = splice_at (flat ns) (k * b + off) bs"
  using concat_update_block [OF wf_nodes_ptrs [OF assms(1)], of k off bs] assms(2,3)
  by (simp add: flat_def mem_store_def map_update)

lemma mem_load_flat:
  assumes "wf_nodes b ns" "k < length ns" "off + n \<le> b"
  shows "mem_load ns k off n = take n (drop (k * b + off) (flat ns))"
  using take_drop_block [OF wf_nodes_ptrs [OF assms(1)], of k off n] assms(2,3)
  by (simp add: mem_load_def flat_def)

lemma cur_at_step:
  assumes "k < length ns" "off + n \<le> b" "0 < n"
  shows "(if b = off + n then node_next ns k else Some k) = cur_at b (length ns) (k * b + off + n)"
proof (cases "b = off + n")
  case True
  have eq: "k * b + off + n = Suc k * b" using True by simp
  have "Suc k * b < length ns * b \<longleftrightarrow> Suc k < length ns" using assms True by (metis add_gr_0 mult_less_cancel2)
  then show ?thesis using True assms unfolding cur_at_def eq node_next_def by simp
next
  case False
  have lt: "off + n < b" using False assms by simp
  have "k * b + (off + n) < Suc k * b" using lt by simp
  also have "\<dots> \<le> length ns * b" using assms(1) by (intro mult_le_mono1) simp
  finally have "k * b + off + n < length ns * b" by simp
  moreover have "(k * b + (off + n)) div b = k" using lt by simp
  ultimately show ?thesis using False by (simp add: cur_at_def add.assoc)
qed

lemma cur_at_Some:
  assumes "0 < b" "pos < n * b"
  shows "cur_at b n pos = Some (pos div b)" "pos div b < n" "pos mod b < b"
    "pos div b * b + pos mod b = pos"
  using assms by (simp_all add: cur_at_def less_mult_imp_div_less)

text \<open>A block that is not the last one needed has a successor.\<close>

lemma next_block:
  assumes "off \<le> b" "b - off < n" "k * b + off + n \<le> m * b"
  shows "Suc k < m"
proof -
  have "Suc k * b < k * b + off + n" using assms(1,2) by simp
  then have "Suc k * b < m * b" using assms(3) by (rule less_le_trans)
  then show ?thesis using mult_less_cancel2 by blast
qed

section \<open>The loops\<close>

lemma write_loop_ok:
  assumes "wf_nodes b ns" "k < length ns" "npos < b" "ncap = b - npos" "0 < n"
    "bpos + n \<le> length buf" "pos = k * b + npos" "pos + n \<le> length ns * b"
  shows "\<exists>ns'. write_loop ns k npos ncap buf bpos n pos = Inr (ns', cur_at b (length ns) (pos + n), pos + n)
    \<and> wf_nodes b ns' \<and> length ns' = length ns
    \<and> flat ns' = splice_at (flat ns) pos (take n (drop bpos buf))"
  using assms
proof (induction ns k npos ncap buf bpos n pos rule: write_loop.induct)
  case (1 ns k npos ncap buf bpos n pos)
  note wf = "1.prems"(1) and k = "1.prems"(2)
  show ?case
  proof (cases "n \<le> ncap")
    case True
    let ?ns = "mem_store ns k npos (take n (drop bpos buf))"
    have len: "npos + length (take n (drop bpos buf)) \<le> b" using True "1.prems" by simp
    have "n_size (ns ! k) = b" using wf_nodes_nth [OF wf k] by simp
    then have "write_loop ns k npos ncap buf bpos n pos = Inr (?ns, cur_at b (length ns) (pos + n), pos + n)"
      using True "1.prems" cur_at_step [of k ns npos n b]
      by (simp add: write_loop.simps [of ns] add.assoc)
    then show ?thesis
      using wf_mem_store [OF wf k len] flat_mem_store [OF wf k len] "1.prems" by simp
  next
    case False
    let ?ns = "mem_store ns k npos (take ncap (drop bpos buf))"
    have sk: "Suc k < length ns"
      using next_block [of npos b n k "length ns"] False "1.prems" by simp
    then have nx: "node_next ns k = Some (Suc k)" by (simp add: node_next_def)
    have len: "npos + length (take ncap (drop bpos buf)) \<le> b" using "1.prems" by simp
    have nb: "n_size (ns ! Suc k) = b" using wf_nodes_nth [OF wf sk] by simp
    have pos': "pos + ncap = Suc k * b" using "1.prems" by simp
    have "\<exists>ns'. write_loop ?ns (Suc k) 0 (n_size (ns ! Suc k)) buf (bpos + ncap) (n - ncap) (pos + ncap)
        = Inr (ns', cur_at b (length ?ns) (pos + ncap + (n - ncap)), pos + ncap + (n - ncap))
        \<and> wf_nodes b ns' \<and> length ns' = length ?ns
        \<and> flat ns' = splice_at (flat ?ns) (pos + ncap) (take (n - ncap) (drop (bpos + ncap) buf))"
      using False "1.prems" sk nb pos' wf_mem_store [OF wf k len]
      by (intro "1.IH" [OF _ _ nx]) simp_all
    then obtain ns' where ns': "write_loop ?ns (Suc k) 0 (n_size (ns ! Suc k)) buf (bpos + ncap) (n - ncap) (pos + ncap)
        = Inr (ns', cur_at b (length ns) (pos + n), pos + n)"
      "wf_nodes b ns'" "length ns' = length ns"
      "flat ns' = splice_at (flat ?ns) (pos + ncap) (take (n - ncap) (drop (bpos + ncap) buf))"
      using False by auto
    have "flat ?ns = splice_at (flat ns) pos (take ncap (drop bpos buf))"
      using flat_mem_store [OF wf k len] "1.prems" by simp
    then have "flat ns' = splice_at (flat ns) pos (take ncap (drop bpos buf) @ take (n - ncap) (drop (bpos + ncap) buf))"
      using ns'(4) False "1.prems" length_flat [OF wf]
        splice_at_splice_at [of pos "take ncap (drop bpos buf)" "flat ns"] by simp
    also have "take ncap (drop bpos buf) @ take (n - ncap) (drop (bpos + ncap) buf) = take n (drop bpos buf)"
      using False take_add_drop [of ncap "n - ncap" bpos buf] by simp
    finally show ?thesis using ns' False "1.prems" nx by (auto simp: write_loop.simps [of ns k])
  qed
qed

lemma read_loop_ok:
  assumes "wf_nodes b ns" "k < length ns" "npos < b" "ncap = b - npos" "0 < n"
    "pos = k * b + npos" "pos + n \<le> length ns * b"
  shows "read_loop ns k npos ncap n p = Inr (take n (drop pos (flat ns)), cur_at b (length ns) (pos + n), p + n)"
  using assms
proof (induction ns k npos ncap n p arbitrary: pos rule: read_loop.induct)
  case (1 ns k npos ncap n p)
  note wf = "1.prems"(1) and k = "1.prems"(2)
  show ?case
  proof (cases "n \<le> ncap")
    case True
    have "n_size (ns ! k) = b" using wf_nodes_nth [OF wf k] by simp
    moreover have "mem_load ns k npos n = take n (drop pos (flat ns))"
      using mem_load_flat [OF wf k, of npos n] True "1.prems" by simp
    ultimately show ?thesis
      using True "1.prems" cur_at_step [of k ns npos n b]
      by (simp add: read_loop.simps [of ns] add.assoc)
  next
    case False
    have sk: "Suc k < length ns"
      using next_block [of npos b n k "length ns"] False "1.prems" by simp
    then have nx: "node_next ns k = Some (Suc k)" by (simp add: node_next_def)
    have nb: "n_size (ns ! Suc k) = b" using wf_nodes_nth [OF wf sk] by simp
    have pos': "pos + ncap = Suc k * b" using "1.prems" by simp
    have "read_loop ns (Suc k) 0 (n_size (ns ! Suc k)) (n - ncap) (p + ncap)
        = Inr (take (n - ncap) (drop (pos + ncap) (flat ns)), cur_at b (length ns) (pos + ncap + (n - ncap)),
               p + ncap + (n - ncap))"
      using False "1.prems" sk nb pos' wf by (intro "1.IH" [OF _ _ nx]) simp_all
    moreover have "mem_load ns k npos ncap = take ncap (drop pos (flat ns))"
      using mem_load_flat [OF wf k, of npos ncap] "1.prems" by simp
    ultimately show ?thesis using False "1.prems" nx take_add_drop [of ncap "n - ncap" pos "flat ns"]
      by (simp add: read_loop.simps [of ns k] ac_simps)
  qed
qed


lemma iov_loop_read:
  assumes "wf_nodes b ns" "k < length ns" "npos < b" "ncap = b - npos"
    "pos = k * b + npos" "pos + n \<le> length ns * b"
  shows "\<exists>vs. iov_loop ns k npos ncap n = Inr vs \<and> iov_bytes ns vs = take n (drop pos (flat ns))"
  using assms
proof (induction ns k npos ncap n arbitrary: pos rule: iov_loop.induct)
  case (1 ns k npos ncap n)
  note wf = "1.prems"(1) and k = "1.prems"(2)
  show ?case
  proof (cases "n \<le> ncap")
    case True
    then show ?thesis using mem_load_flat [OF wf k, of npos n] "1.prems"
      by (auto simp: iov_loop.simps [of ns k] iov_bytes_def iov_def)
  next
    case False
    have sk: "Suc k < length ns" using next_block [of npos b n k "length ns"] False "1.prems" by simp
    then have nx: "node_next ns k = Some (Suc k)" by (simp add: node_next_def)
    have "\<exists>vs. iov_loop ns (Suc k) 0 (n_size (ns ! Suc k)) (n - ncap) = Inr vs
        \<and> iov_bytes ns vs = take (n - ncap) (drop (Suc k * b) (flat ns))"
      using False "1.prems" sk wf_nodes_nth [OF wf sk] by (intro "1.IH" [OF _ _ nx]) simp_all
    moreover have "Suc k * b = pos + ncap" using "1.prems" by simp
    moreover have "mem_load ns k npos ncap = take ncap (drop pos (flat ns))"
      using mem_load_flat [OF wf k, of npos ncap] "1.prems" by simp
    ultimately show ?thesis using False nx take_add_drop [of ncap "n - ncap" pos "flat ns"]
      by (auto simp: iov_loop.simps [of ns k] iov_bytes_def iov_def)
  qed
qed

text \<open>
  A receive may fill only a prefix of the buffers; the blocks it writes to may have changed since the
  buffers were taken, as long as the shape of the chain is the same.
\<close>

lemma iov_loop_fill:
  assumes "wf_nodes b ns" "k < length ns" "npos < b" "ncap = b - npos"
    "pos = k * b + npos" "pos + n \<le> length ns * b" "iov_loop ns k npos ncap n = Inr vs"
    "wf_nodes b ms" "length ms = length ns" "length bs \<le> n"
  shows "flat (iov_fill ms vs bs) = splice_at (flat ms) pos bs \<and> wf_nodes b (iov_fill ms vs bs)
     \<and> length (iov_fill ms vs bs) = length ns"
  using assms
proof (induction ns k npos ncap n arbitrary: pos vs ms bs rule: iov_loop.induct)
  case (1 ns k npos ncap n)
  note wf = "1.prems"(1) and k = "1.prems"(2) and wm = "1.prems"(8) and lm = "1.prems"(9)
  have km: "k < length ms" using k lm by simp
  show ?case
  proof (cases "n \<le> ncap")
    case True
    show ?thesis
    proof (cases "n = 0")
      case True
      then show ?thesis using "1.prems" by (simp add: iov_loop.simps [of ns k])
    next
      case False
      then show ?thesis
        using True "1.prems" wf_mem_store [OF wm km, of npos bs] flat_mem_store [OF wm km, of npos bs]
        by (auto simp: iov_loop.simps [of ns k] iov_def)
    qed
  next
    case False
    have sk: "Suc k < length ns" using next_block [of npos b n k "length ns"] False "1.prems" by simp
    then have nx: "node_next ns k = Some (Suc k)" by (simp add: node_next_def)
    obtain ws where ws: "iov_loop ns (Suc k) 0 (n_size (ns ! Suc k)) (n - ncap) = Inr ws"
      and vs: "vs = iov k npos ncap # ws"
      using "1.prems"(7) False nx by (auto simp: iov_loop.simps [of ns k] rbind_eq_Inr_iff)
    let ?ms = "mem_store ms k npos (take ncap bs)"
    have len: "npos + length (take ncap bs) \<le> b" using "1.prems" by simp
    have "flat (iov_fill ?ms ws (drop ncap bs)) = splice_at (flat ?ms) (Suc k * b) (drop ncap bs)
        \<and> wf_nodes b (iov_fill ?ms ws (drop ncap bs)) \<and> length (iov_fill ?ms ws (drop ncap bs)) = length ns"
      using False "1.prems" sk wf_nodes_nth [OF wf sk] ws wf_mem_store [OF wm km len]
      by (intro "1.IH" [OF _ _ nx]) simp_all
    moreover have "flat ?ms = splice_at (flat ms) pos (take ncap bs)"
      using flat_mem_store [OF wm km len] "1.prems" by simp
    moreover have "Suc k * b = pos + ncap" using "1.prems" by simp
    moreover have "splice_at (splice_at (flat ms) pos (take ncap bs)) (pos + ncap) (drop ncap bs)
        = splice_at (flat ms) pos bs"
    proof (cases "ncap \<le> length bs")
      case True
      have "pos + ncap \<le> length (flat ms)" using False "1.prems" length_flat [OF wm] by simp
      with True show ?thesis
        using splice_at_splice_at [of pos "take ncap bs" "flat ms" "drop ncap bs"] by (simp add: min_absorb2)
    qed simp
    ultimately show ?thesis using vs by (simp add: iov_def)
  qed
qed

lemma seek_loop_ok:
  assumes "wf_nodes b ns" "k < length ns" "0 < b" "k * b + v \<le> length ns * b"
  shows "seek_loop ns k v = Inr (cur_at b (length ns) (k * b + v))"
  using assms
proof (induction ns k v rule: seek_loop.induct)
  case (1 ns k v)
  note wf = "1.prems"(1) and k = "1.prems"(2)
  have nb: "n_size (ns ! k) = b" using wf_nodes_nth [OF wf k] by simp
  show ?case
  proof (cases "b < v")
    case True
    have sk: "Suc k < length ns" using next_block [of 0 b v k "length ns"] True "1.prems" by simp
    then have nx: "node_next ns k = Some (Suc k)" by (simp add: node_next_def)
    have "seek_loop ns (Suc k) (v - n_size (ns ! k)) = Inr (cur_at b (length ns) (Suc k * b + (v - n_size (ns ! k))))"
      using True "1.prems" sk nb by (intro "1.IH" [OF _ nx]) simp_all
    then show ?thesis using True nb nx by (simp add: seek_loop.simps [of ns k] ac_simps)
  next
    case False
    show ?thesis
    proof (cases "v = 0")
      case True
      then show ?thesis using "1.prems" nb by (simp add: seek_loop.simps [of ns k] cur_at_def)
    next
      case v: False
      with False show ?thesis using "1.prems" nb cur_at_step [of k ns 0 v b]
        by (auto simp: seek_loop.simps [of ns k])
    qed
  qed
qed

section \<open>Every operation keeps the invariant and does what the flat view says\<close>

lemma ba_inv_ByteArray: "0 < base \<Longrightarrow> ba_inv (ByteArray fresh base) \<and> ba_data (ByteArray fresh base) = []"
  by (simp add: ba_inv_def ByteArray_def Node_def wf_nodes_def cur_at_def ba_data_def)

lemma addCapacity_ok:
  assumes inv: "ba_inv ba"
  shows "ba_inv (addCapacity ba n)" "ba_data (addCapacity ba n) = ba_data ba"
    "m_position (addCapacity ba n) = m_position ba" "m_size (addCapacity ba n) = m_size ba"
    "m_baseSize (addCapacity ba n) = m_baseSize ba" "m_endian (addCapacity ba n) = m_endian ba"
    "m_position ba + n \<le> m_capacity (addCapacity ba n)"
proof -
  let ?b = "m_baseSize ba" and ?cap = "getCapacity ba"
  define count where "count = (n - ?cap + ?b - 1) div ?b"
  define new where "new = map (\<lambda>i. Node (m_fresh ba (m_allocs ba + i)) ?b) [0..<count]"
  have b: "0 < ?b" and pc: "m_position ba \<le> m_capacity ba" using inv by (auto simp: ba_inv_def)
  have cap: "?cap = m_capacity ba - m_position ba" using pc by (simp add: getCapacity_def)
  have wn: "wf_nodes ?b new" by (auto simp: new_def wf_nodes_def Node_def)
  have ln: "length new = count" by (simp add: new_def)
  have all: "ba_inv (addCapacity ba n) \<and> ba_data (addCapacity ba n) = ba_data ba
    \<and> m_position (addCapacity ba n) = m_position ba \<and> m_size (addCapacity ba n) = m_size ba
    \<and> m_baseSize (addCapacity ba n) = ?b \<and> m_endian (addCapacity ba n) = m_endian ba
    \<and> m_position ba + n \<le> m_capacity (addCapacity ba n)"
  proof (cases "n \<le> ?cap")
    case True
    then have "addCapacity ba n = ba" by (simp add: addCapacity_def)
    then show ?thesis using True inv cap pc by simp
  next
    case False
    have "n - ?cap \<le> count * ?b"
    proof -
      have "n - ?cap + ?b - 1 < Suc count * ?b"
        unfolding count_def using b by (metis dividend_less_div_times mult_Suc)
      then show ?thesis by simp
    qed
    then have c0: "0 < count" and big: "m_position ba + n \<le> m_capacity ba + count * ?b"
      using False cap pc by (auto intro: ccontr)
    have cur: "(if ?cap = 0 then Some (length (m_nodes ba)) else m_cur ba)
        = cur_at ?b (length (m_nodes ba) + count) (m_position ba)"
    proof (cases "?cap = 0")
      case True
      then have "m_position ba = length (m_nodes ba) * ?b" using cap inv by (simp add: ba_inv_def)
      then show ?thesis using True b c0 by (simp add: cur_at_def)
    next
      case False
      then have "m_position ba < length (m_nodes ba) * ?b" using cap inv by (simp add: ba_inv_def)
      then show ?thesis using False inv by (simp add: ba_inv_def cur_at_def distrib_right)
    qed
    have eq: "addCapacity ba n = ba\<lparr>m_nodes := m_nodes ba @ new, m_allocs := m_allocs ba + count,
        m_capacity := m_capacity ba + count * ?b,
        m_cur := cur_at ?b (length (m_nodes ba) + count) (m_position ba)\<rparr>"
      unfolding addCapacity_def Let_def count_def [symmetric] new_def [symmetric] cur [symmetric]
      using False c0 by auto
    have "m_size ba \<le> length (flat (m_nodes ba))"
      using inv length_flat [of ?b "m_nodes ba"] by (simp add: ba_inv_def)
    then show ?thesis unfolding eq using inv big wn ln by (auto simp: ba_inv_def ba_data_def distrib_right)
  qed
  then show "ba_inv (addCapacity ba n)" "ba_data (addCapacity ba n) = ba_data ba"
    "m_position (addCapacity ba n) = m_position ba" "m_size (addCapacity ba n) = m_size ba"
    "m_baseSize (addCapacity ba n) = m_baseSize ba" "m_endian (addCapacity ba n) = m_endian ba"
    "m_position ba + n \<le> m_capacity (addCapacity ba n)" by blast+
qed


text \<open>The flat view of ByteArray::write: it overwrites from the cursor and never fails.\<close>

definition overwrite :: "u8 list \<Rightarrow> nat \<Rightarrow> u8 list \<Rightarrow> u8 list" where
  "overwrite xs i ys = take i xs @ ys @ drop (i + length ys) xs"

lemma length_overwrite: "i \<le> length xs \<Longrightarrow> length (overwrite xs i ys) = max (length xs) (i + length ys)"
  by (simp add: overwrite_def max_def)

lemma take_splice_overwrite:
  assumes "p \<le> sz" "sz \<le> length xs" "p + length ys \<le> length xs"
  shows "take (max sz (p + length ys)) (splice_at xs p ys) = overwrite (take sz xs) p ys"
proof (cases "p + length ys \<le> sz")
  case True
  with assms show ?thesis
    by (simp add: splice_at_def overwrite_def max_absorb1 min_absorb1 take_drop)
next
  case False
  with assms show ?thesis by (simp add: splice_at_def overwrite_def max_absorb2 min_absorb1)
qed

lemma length_ba_data: "ba_inv ba \<Longrightarrow> length (ba_data ba) = m_size ba"
  using length_flat [of "m_baseSize ba" "m_nodes ba"] by (simp add: ba_inv_def ba_data_def)

lemma ba_write_ok:
  assumes inv: "ba_inv ba"
  shows "\<exists>ba'. ba_write ba buf = Inr ba' \<and> ba_inv ba' \<and> m_position ba' = m_position ba + length buf
    \<and> ba_data ba' = overwrite (ba_data ba) (m_position ba) buf
    \<and> m_endian ba' = m_endian ba \<and> m_baseSize ba' = m_baseSize ba"
proof (cases "buf = []")
  case True
  then show ?thesis using inv length_ba_data [OF inv]
    by (simp add: ba_write_def overwrite_def)
next
  case False
  define ba1 where "ba1 = addCapacity ba (length buf)"
  let ?b = "m_baseSize ba1" and ?p = "m_position ba1" and ?ns = "m_nodes ba1"
  note ac = addCapacity_ok [OF inv, of "length buf", folded ba1_def]
  have inv1: "ba_inv ba1" by (rule ac)
  then have wf: "wf_nodes ?b ?ns" and b: "0 < ?b" and cap: "m_capacity ba1 = length ?ns * ?b"
    and sz: "?p \<le> m_size ba1" "m_size ba1 \<le> length ?ns * ?b"
    and cur: "m_cur ba1 = cur_at ?b (length ?ns) ?p" by (auto simp: ba_inv_def)
  have room: "?p + length buf \<le> length ?ns * ?b" using ac(3,7) cap by simp
  then have lt: "?p < length ?ns * ?b" using False by (cases buf) simp_all
  note c = cur_at_Some [OF b lt]
  obtain ns' where w: "write_loop ?ns (?p div ?b) (?p mod ?b) (?b - ?p mod ?b) buf 0 (length buf) ?p
      = Inr (ns', cur_at ?b (length ?ns) (?p + length buf), ?p + length buf)"
    and ns': "wf_nodes ?b ns'" "length ns' = length ?ns" "flat ns' = splice_at (flat ?ns) ?p buf"
    using write_loop_ok [OF wf c(2) c(3) refl, of "length buf" 0 buf ?p] False c(4) room by auto
  have nsz: "n_size (?ns ! (?p div ?b)) = ?b" using wf_nodes_nth [OF wf c(2)] by simp
  define ba2 where "ba2 = ba1\<lparr>m_nodes := ns', m_cur := cur_at ?b (length ?ns) (?p + length buf),
      m_position := ?p + length buf, m_size := max (m_size ba1) (?p + length buf)\<rparr>"
  have bn0: "m_baseSize ba \<noteq> 0" using inv by (simp add: ba_inv_def)
  have mx: "(if m_size ba1 < ?p + length buf then ?p + length buf else m_size ba1)
      = max (m_size ba1) (?p + length buf)" by (simp add: max_def)
  have "ba_write ba buf = Inr ba2"
    unfolding ba_write_def Let_def ba1_def [symmetric]
    using False cur c(1) nsz w bn0 c(3) by (simp add: ba2_def mx)
  moreover have "ba_inv ba2" using inv1 ns' room by (auto simp: ba2_def ba_inv_def)
  moreover have "ba_data ba2 = overwrite (ba_data ba) (m_position ba) buf"
    using take_splice_overwrite [of ?p "m_size ba1" "flat ?ns" buf] sz room length_flat [OF wf] ac ns'(3)
    by (simp add: ba2_def ba_data_def)
  ultimately show ?thesis using ac by (simp add: ba2_def)
qed

lemma ba_read_ok:
  assumes inv: "ba_inv ba" and n: "0 < n" "m_position ba + n \<le> m_size ba"
  shows "\<exists>ba'. ba_read ba n = Inr (take n (drop (m_position ba) (ba_data ba)), ba') \<and> ba_inv ba'
    \<and> m_position ba' = m_position ba + n \<and> ba_data ba' = ba_data ba
    \<and> m_endian ba' = m_endian ba \<and> m_baseSize ba' = m_baseSize ba"
proof -
  let ?b = "m_baseSize ba" and ?p = "m_position ba" and ?ns = "m_nodes ba"
  have wf: "wf_nodes ?b ?ns" and b: "0 < ?b" and room: "?p + n \<le> length ?ns * ?b"
    and cur: "m_cur ba = cur_at ?b (length ?ns) ?p"
    using inv n by (auto simp: ba_inv_def)
  have lt: "?p < length ?ns * ?b" using n room by simp
  note c = cur_at_Some [OF b lt]
  have "read_loop ?ns (?p div ?b) (?p mod ?b) (?b - ?p mod ?b) n ?p
      = Inr (take n (drop ?p (flat ?ns)), cur_at ?b (length ?ns) (?p + n), ?p + n)"
    using read_loop_ok [OF wf c(2) c(3) refl n(1) c(4) [symmetric] room] by simp
  moreover have "n_size (?ns ! (?p div ?b)) = ?b" using wf_nodes_nth [OF wf c(2)] by simp
  moreover have "getReadSize ba = m_size ba - ?p" using n by (simp add: getReadSize_def)
  moreover have "take n (drop ?p (flat ?ns)) = take n (drop ?p (ba_data ba))"
    using n by (simp add: ba_data_def drop_take min_def)
  ultimately have "ba_read ba n = Inr (take n (drop ?p (ba_data ba)),
      ba\<lparr>m_cur := cur_at ?b (length ?ns) (?p + n), m_position := ?p + n\<rparr>)"
    using n cur c b by (simp add: ba_read_def Let_def)
  then show ?thesis using inv n by (auto simp: ba_inv_def ba_data_def)
qed

lemma setPosition_ok:
  assumes inv: "ba_inv ba" and v: "v \<le> m_capacity ba"
  shows "\<exists>ba'. setPosition ba v = Inr ba' \<and> ba_inv ba' \<and> m_position ba' = v
    \<and> m_size ba' = max (m_size ba) v \<and> m_nodes ba' = m_nodes ba
    \<and> m_endian ba' = m_endian ba \<and> m_baseSize ba' = m_baseSize ba"
proof -
  have "seek_loop (m_nodes ba) 0 v = Inr (cur_at (m_baseSize ba) (length (m_nodes ba)) (0 * m_baseSize ba + v))"
    using inv v by (intro seek_loop_ok) (auto simp: ba_inv_def)
  then show ?thesis using inv v by (auto simp: setPosition_def ba_inv_def max_def)
qed


lemma setPosition_data:
  assumes "ba_inv ba" "v \<le> m_size ba"
  shows "\<exists>ba'. setPosition ba v = Inr ba' \<and> ba_inv ba' \<and> m_position ba' = v \<and> ba_data ba' = ba_data ba
    \<and> m_endian ba' = m_endian ba \<and> m_baseSize ba' = m_baseSize ba"
  using setPosition_ok [of ba v] assms by (auto simp: ba_inv_def ba_data_def max_absorb1)

lemma ba_clear_ok:
  assumes "ba_inv ba"
  shows "ba_inv (ba_clear ba)" "ba_data (ba_clear ba) = []"
  using assms by (cases "m_nodes ba"; simp add: ba_inv_def ba_clear_def ba_data_def wf_nodes_def cur_at_def)+

lemma ba_toString_ok:
  assumes inv: "ba_inv ba"
  shows "ba_toString ba = Inr (drop (m_position ba) (ba_data ba))"
proof (cases "getReadSize ba = 0")
  case True
  then show ?thesis using inv length_ba_data [OF inv] by (simp add: ba_toString_def getReadSize_def ba_inv_def)
next
  case False
  let ?n = "getReadSize ba"
  have n: "?n = m_size ba - m_position ba" "m_position ba \<le> m_size ba"
    using inv by (simp_all add: getReadSize_def ba_inv_def)
  then obtain ba' where "ba_read ba ?n = Inr (take ?n (drop (m_position ba) (ba_data ba)), ba')"
    using ba_read_ok [OF inv, of ?n] False by auto
  then have "ba_read_at ba ?n (m_position ba) = Inr (take ?n (drop (m_position ba) (ba_data ba)))"
    by (auto simp: ba_read_def ba_read_at_def getReadSize_def Let_def rbind_eq_Inr_iff
        split: if_splits option.splits)
  then show ?thesis using False n length_ba_data [OF inv] by (simp add: ba_toString_def)
qed

subsection \<open>Buffers\<close>

lemma iov_start_read:
  assumes inv: "ba_inv ba" and "p + n \<le> m_capacity ba" "0 < n"
  shows "\<exists>vs. iov_start ba (chain_at (m_nodes ba) (p div m_baseSize ba)) (p mod m_baseSize ba) n = Inr vs
    \<and> iov_bytes (m_nodes ba) vs = take n (drop p (flat (m_nodes ba)))"
proof -
  let ?b = "m_baseSize ba" and ?ns = "m_nodes ba"
  have wf: "wf_nodes ?b ?ns" and b: "0 < ?b" and room: "p + n \<le> length ?ns * ?b"
    using inv assms by (auto simp: ba_inv_def)
  then have lt: "p < length ?ns * ?b" using assms by simp
  note c = cur_at_Some [OF b lt]
  show ?thesis
    using iov_loop_read [OF wf c(2) c(3) refl c(4) [symmetric] room] wf_nodes_nth [OF wf c(2)] c(2,3)
    by (simp add: iov_start_def chain_at_def)
qed

lemma cur_is_chain_at: "ba_inv ba \<Longrightarrow> m_cur ba = chain_at (m_nodes ba) (m_position ba div m_baseSize ba)"
  by (auto simp: ba_inv_def cur_at_def chain_at_def less_mult_imp_div_less div_less_iff_less_mult)

lemma getReadBuffers_ok:
  assumes inv: "ba_inv ba"
  shows "\<exists>vs. getReadBuffers ba len = Inr (min len (getReadSize ba), vs)
    \<and> iov_bytes (m_nodes ba) vs = take len (drop (m_position ba) (ba_data ba))"
proof -
  let ?n = "min len (getReadSize ba)"
  have r: "getReadSize ba = m_size ba - m_position ba" and le: "m_position ba \<le> m_size ba" "m_size ba \<le> m_capacity ba"
    using inv by (simp_all add: getReadSize_def ba_inv_def)
  have sel: "(if getReadSize ba < len then getReadSize ba else len) = ?n" by simp
  have flat_eq: "take ?n (drop (m_position ba) (flat (m_nodes ba))) = take len (drop (m_position ba) (ba_data ba))"
    using r le by (simp add: ba_data_def drop_take min_def)
  show ?thesis
  proof (cases "?n = 0")
    case True
    then show ?thesis using flat_eq by (auto simp: getReadBuffers_def sel Let_def iov_bytes_def)
  next
    case False
    have "m_position ba + ?n \<le> m_capacity ba" using r le by linarith
    then obtain vs where "iov_start ba (m_cur ba) (m_position ba mod m_baseSize ba) ?n = Inr vs"
      "iov_bytes (m_nodes ba) vs = take ?n (drop (m_position ba) (flat (m_nodes ba)))"
      using iov_start_read [OF inv, of "m_position ba" ?n] False cur_is_chain_at [OF inv] by auto
    then show ?thesis using False flat_eq inv
      unfolding getReadBuffers_def sel Let_def by (auto simp: ba_inv_def)
  qed
qed

text \<open>
  Receiving into the write buffers and moving the cursor, as SocketStream::read does, has the effect
  of writing the received bytes.
\<close>

lemma getWriteBuffers_ok:
  assumes inv: "ba_inv ba" and n: "0 < n" "length bs \<le> n"
  shows "\<exists>vs ba1 ba2. getWriteBuffers ba n = Inr (n, vs, ba1) \<and> ba_inv ba1 \<and> ba_data ba1 = ba_data ba
    \<and> m_position ba1 = m_position ba
    \<and> setPosition (ba1\<lparr>m_nodes := iov_fill (m_nodes ba1) vs bs\<rparr>) (m_position ba1 + length bs) = Inr ba2
    \<and> ba_inv ba2 \<and> m_position ba2 = m_position ba + length bs
    \<and> ba_data ba2 = overwrite (ba_data ba) (m_position ba) bs"
proof -
  define ba1 where "ba1 = addCapacity ba n"
  let ?b = "m_baseSize ba1" and ?p = "m_position ba1" and ?ns = "m_nodes ba1"
  note ac = addCapacity_ok [OF inv, of n, folded ba1_def]
  have inv1: "ba_inv ba1" by (rule ac)
  then have wf: "wf_nodes ?b ?ns" and b: "0 < ?b" and cap: "m_capacity ba1 = length ?ns * ?b"
    and sz: "?p \<le> m_size ba1" "m_size ba1 \<le> length ?ns * ?b"
    and cur: "m_cur ba1 = cur_at ?b (length ?ns) ?p" by (auto simp: ba_inv_def)
  have room: "?p + n \<le> length ?ns * ?b" using ac(3,7) cap by simp
  then have lt: "?p < length ?ns * ?b" using n by simp
  note c = cur_at_Some [OF b lt]
  obtain vs where vs: "iov_loop ?ns (?p div ?b) (?p mod ?b) (?b - ?p mod ?b) n = Inr vs"
    using iov_loop_read [OF wf c(2) c(3) refl c(4) [symmetric] room] by auto
  let ?ms = "iov_fill ?ns vs bs"
  let ?baf = "ba1\<lparr>m_nodes := ?ms\<rparr>"
  have fill: "flat ?ms = splice_at (flat ?ns) ?p bs" "wf_nodes ?b ?ms" "length ?ms = length ?ns"
    using iov_loop_fill [OF wf c(2) c(3) refl c(4) [symmetric] room vs wf refl n(2)] by auto
  have nsz: "n_size (?ns ! (?p div ?b)) = ?b" using wf_nodes_nth [OF wf c(2)] by simp
  have g: "getWriteBuffers ba n = Inr (n, vs, ba1)"
    using n inv cur c vs nsz unfolding getWriteBuffers_def Let_def ba1_def [symmetric]
    by (simp add: iov_start_def ba_inv_def)
  have "?ms \<noteq> []" using fill(3) inv1 by (auto simp: ba_inv_def)
  then have "ba_inv ?baf" using inv1 fill by (simp add: ba_inv_def)
  moreover have "?p + length bs \<le> m_capacity ?baf" using room n cap by simp
  ultimately obtain ba2 where ba2: "setPosition ?baf (?p + length bs) = Inr ba2" "ba_inv ba2"
    "m_position ba2 = ?p + length bs" "m_size ba2 = max (m_size ba1) (?p + length bs)" "m_nodes ba2 = ?ms"
    using setPosition_ok [of ?baf "?p + length bs"] by auto
  have "ba_data ba2 = overwrite (ba_data ba) (m_position ba) bs"
    using take_splice_overwrite [of ?p "m_size ba1" "flat ?ns" bs] sz room n length_flat [OF wf] ac ba2 fill(1)
    by (simp add: ba_data_def)
  then show ?thesis using g inv1 ac ba2 by auto
qed

subsection \<open>Files\<close>

lemma file_loop_step:
  assumes "0 < r" "k < length ns" "pos mod int b = int d"
    "(if r > int b then int b else r) - int d = int len"
  shows "file_loop b ns (Some k) pos r =
    rbind (file_loop b ns (node_next ns k) (pos + int len) (r - int len)) (\<lambda>bs. Inr (mem_load ns k d len @ bs))"
  using assms by (simp add: file_loop.simps [of b ns "Some k"] Let_def)

lemma node_next_cur_at: "k < length ns \<Longrightarrow> 0 < b \<Longrightarrow> node_next ns k = cur_at b (length ns) (Suc k * b)"
  using cur_at_step [of k ns 0 b b] by (simp add: add.commute)

lemma file_loop_aligned:
  assumes "wf_nodes b ns" "0 < b" "k * b + r \<le> length ns * b"
  shows "file_loop b ns (cur_at b (length ns) (k * b)) (int (k * b)) (int r) = Inr (take r (drop (k * b) (flat ns)))"
  using assms
proof (induction "length ns - k" arbitrary: k r)
  case 0
  then have "length ns * b \<le> k * b" by (intro mult_le_mono1) simp
  with 0(4) have "r = 0" by linarith
  then show ?case by (simp add: file_loop.simps)
next
  case (Suc m)
  show ?case
  proof (cases "r = 0")
    case True
    then show ?thesis by (simp add: file_loop.simps)
  next
    case r: False
    have k: "k < length ns" using Suc.hyps(2) by simp
    have cur: "cur_at b (length ns) (k * b) = Some k" using k Suc.prems(2) by (simp add: cur_at_def)
    define len where "len = min r b"
    have load: "mem_load ns k 0 len = take len (drop (k * b) (flat ns))"
      using mem_load_flat [OF Suc.prems(1) k, of 0 len] by (simp add: len_def)
    have rest: "file_loop b ns (node_next ns k) (int (k * b) + int len) (int r - int len)
        = Inr (take (r - len) (drop (k * b + len) (flat ns)))"
    proof (cases "r \<le> b")
      case True
      then show ?thesis by (simp add: len_def min_def file_loop.simps [of b ns "node_next ns k"])
    next
      case False
      then have eq: "int (k * b) + int len = int (Suc k * b)" "int r - int len = int (r - b)" "k * b + len = Suc k * b"
        by (simp_all add: len_def)
      have "file_loop b ns (cur_at b (length ns) (Suc k * b)) (int (Suc k * b)) (int (r - b))
          = Inr (take (r - b) (drop (Suc k * b) (flat ns)))"
        using Suc False by (intro Suc.hyps(1)) simp_all
      then show ?thesis using False unfolding eq node_next_cur_at [OF k Suc.prems(2)] by (simp add: len_def)
    qed
    have "file_loop b ns (Some k) (int (k * b)) (int r) =
        rbind (file_loop b ns (node_next ns k) (int (k * b) + int len) (int r - int len))
          (\<lambda>bs. Inr (mem_load ns k 0 len @ bs))"
      using r by (intro file_loop_step k) (simp_all add: len_def)
    moreover have "len + (r - len) = r" by (simp add: len_def)
    ultimately show ?thesis
      using take_add_drop [of len "r - len" "k * b" "flat ns"] by (simp only: cur rest load rbind_simps)
  qed
qed

lemma file_loop_off:
  assumes wf: "wf_nodes b ns" and k: "k < length ns" and d: "0 < d" "d < b"
    and r: "b \<le> r" "k * b + d + r \<le> length ns * b"
  shows "file_loop b ns (Some k) (int (k * b + d)) (int r) = Inr (take r (drop (k * b + d) (flat ns)))"
proof -
  define len where "len = b - d"
  have load: "mem_load ns k d len = take len (drop (k * b + d) (flat ns))"
    using mem_load_flat [OF wf k, of d len] d by (simp add: len_def)
  have eq: "int (k * b + d) + int len = int (Suc k * b)" "int r - int len = int (r - len)" "k * b + d + len = Suc k * b"
    using d r by (simp_all add: len_def)
  have rest: "file_loop b ns (node_next ns k) (int (k * b + d) + int len) (int r - int len)
      = Inr (take (r - len) (drop (k * b + d + len) (flat ns)))"
    unfolding eq node_next_cur_at [OF k order.strict_trans [OF d]]
    using wf d r by (intro file_loop_aligned) (auto simp: len_def)
  have "file_loop b ns (Some k) (int (k * b + d)) (int r) =
      rbind (file_loop b ns (node_next ns k) (int (k * b + d) + int len) (int r - int len))
        (\<lambda>bs. Inr (mem_load ns k d len @ bs))"
    using d r by (intro file_loop_step k) (simp_all add: len_def flip: of_nat_mod)
  moreover have "len + (r - len) = r" using r by (simp add: len_def)
  ultimately show ?thesis
    using take_add_drop [of len "r - len" "k * b + d" "flat ns"] by (simp only: rest load rbind_simps)
qed

text \<open>Off a block boundary with less than a block to write, the loop ends in a failure.\<close>

lemma file_loop_stuck:
  assumes "0 < d" "d < int b" "pos mod int b = d"
  shows "file_loop b ns cur pos d = Inl NullDeref"
  using assms
proof (induction b ns cur pos d rule: file_loop.induct)
  case (1 base ns cur pos rs)
  then show ?case by (cases cur) (auto simp: file_loop.simps [of base ns] Let_def)
qed

lemma file_loop_short:
  assumes d: "0 < d" "d < b" and r: "0 < r" "r < b" and pos: "pos mod b = d" and k: "k < length ns"
  shows "\<exists>e. file_loop b ns (Some k) (int pos) (int r) = Inl e"
proof -
  have m: "int pos mod int b = int d" using pos by (simp flip: of_nat_mod)
  consider "r < d" | "r = d" | "d < r" by linarith
  then show ?thesis
  proof cases
    case 1
    then show ?thesis using r m by (simp add: file_loop.simps [of b ns "Some k"] Let_def)
  next
    case 2
    then show ?thesis using file_loop_stuck [of "int d" b "int pos" ns "Some k"] d m by auto
  next
    case 3
    have "(int pos + int (r - d)) mod int b = int r"
    proof -
      have "(pos + (r - d)) mod b = (pos mod b + (r - d)) mod b" by (simp add: mod_add_left_eq)
      also have "\<dots> = r" using pos 3 r by simp
      finally show ?thesis by (simp flip: of_nat_add of_nat_mod)
    qed
    then have "\<exists>e. file_loop b ns (node_next ns k) (int pos + int (r - d)) (int r - int (r - d)) = Inl e"
      using 3 d by (cases "node_next ns k") (auto simp: file_loop.simps [of b ns] Let_def)
    moreover have "file_loop b ns (Some k) (int pos) (int r) =
        rbind (file_loop b ns (node_next ns k) (int pos + int (r - d)) (int r - int (r - d)))
          (\<lambda>bs. Inr (mem_load ns k d (r - d) @ bs))"
      using 3 r m by (intro file_loop_step k) simp_all
    ultimately show ?thesis by auto
  qed
qed


lemma writeToFile_ok:
  assumes inv: "ba_inv ba" and al: "m_position ba mod m_baseSize ba = 0 \<or> m_baseSize ba \<le> getReadSize ba"
  shows "writeToFile True ba = Inr (Some (drop (m_position ba) (ba_data ba)))"
proof -
  let ?b = "m_baseSize ba" and ?p = "m_position ba" and ?ns = "m_nodes ba" and ?r = "getReadSize ba"
  have wf: "wf_nodes ?b ?ns" and b: "0 < ?b" and r: "?r = m_size ba - ?p" and le: "?p \<le> m_size ba"
    and room: "?p + ?r \<le> length ?ns * ?b" and cur: "m_cur ba = cur_at ?b (length ?ns) ?p"
    using inv by (auto simp: ba_inv_def getReadSize_def)
  have pd: "?p div ?b * ?b + ?p mod ?b = ?p" by simp
  have "file_loop ?b ?ns (m_cur ba) (int ?p) (int ?r) = Inr (take ?r (drop ?p (flat ?ns)))"
  proof (cases "?p mod ?b = 0")
    case True
    then have "?p = ?p div ?b * ?b" by auto
    then show ?thesis using file_loop_aligned [OF wf b, of "?p div ?b" ?r] room cur by simp
  next
    case False
    then have ge: "?b \<le> ?r" using al by simp
    then have lt: "?p < length ?ns * ?b" using room b by linarith
    note c = cur_at_Some [OF b lt]
    show ?thesis using file_loop_off [OF wf c(2), of "?p mod ?b" ?r] False ge room c cur by simp
  qed
  moreover have "take ?r (drop ?p (flat ?ns)) = drop ?p (ba_data ba)"
    using r by (simp add: ba_data_def drop_take)
  ultimately show ?thesis using b by (simp add: writeToFile_def)
qed

lemma writeToFile_short_fails:
  assumes inv: "ba_inv ba" and "0 < m_position ba mod m_baseSize ba" "0 < getReadSize ba" "getReadSize ba < m_baseSize ba"
  shows "\<exists>e. writeToFile True ba = Inl e"
proof -
  let ?b = "m_baseSize ba" and ?p = "m_position ba" and ?ns = "m_nodes ba" and ?r = "getReadSize ba"
  have b: "0 < ?b" and lt: "?p < length ?ns * ?b" and cur: "m_cur ba = cur_at ?b (length ?ns) ?p"
    using inv assms by (auto simp: ba_inv_def getReadSize_def)
  note c = cur_at_Some [OF b lt]
  obtain e where "file_loop ?b ?ns (Some (?p div ?b)) (int ?p) (int ?r) = Inl e"
    using file_loop_short [of "?p mod ?b" ?b ?r ?p "?p div ?b" ?ns] assms c by auto
  then show ?thesis using b cur c(1) by (auto simp: writeToFile_def)
qed

lemma overwrite_append:
  assumes "i \<le> length xs"
  shows "overwrite (overwrite xs i ys) (i + length ys) zs = overwrite xs i (ys @ zs)"
proof -
  have "take (i + length ys) (take i xs @ ys @ drop (i + length ys) xs) = take i xs @ ys"
    using assms by (simp add: min_def)
  moreover have "drop (i + length ys + length zs) (take i xs @ ys @ drop (i + length ys) xs)
      = drop (i + length ys + length zs) xs"
    using assms by (simp add: min_def add.commute add.left_commute)
  ultimately show ?thesis by (simp add: overwrite_def add.assoc)
qed

lemma fill_loop_ok:
  assumes "ba_inv ba" "0 < base"
  shows "\<exists>ba'. fill_loop ba base bs = Inr ba' \<and> ba_inv ba' \<and> m_position ba' = m_position ba + length bs
    \<and> ba_data ba' = overwrite (ba_data ba) (m_position ba) bs"
  using assms
proof (induction ba base bs rule: fill_loop.induct)
  case (1 ba base bs)
  show ?case
  proof (cases "length bs < base")
    case True
    then show ?thesis using ba_write_ok [OF "1.prems"(1), of bs] "1.prems"
      by (auto simp: fill_loop.simps [of ba base bs])
  next
    case False
    obtain ba1 where ba1: "ba_write ba (take base bs) = Inr ba1" "ba_inv ba1"
      "m_position ba1 = m_position ba + base"
      "ba_data ba1 = overwrite (ba_data ba) (m_position ba) (take base bs)"
      using ba_write_ok [OF "1.prems"(1), of "take base bs"] False by auto
    obtain ba2 where "fill_loop ba1 base (drop base bs) = Inr ba2" "ba_inv ba2"
      "m_position ba2 = m_position ba1 + length (drop base bs)"
      "ba_data ba2 = overwrite (ba_data ba1) (m_position ba1) (drop base bs)"
      using "1.IH" [of ba1] False "1.prems" ba1 by auto
    then show ?thesis
      using ba1 False "1.prems" length_ba_data [OF "1.prems"(1)]
        overwrite_append [of "m_position ba" "ba_data ba" "take base bs" "drop base bs"]
      by (auto simp: fill_loop.simps [of ba base bs] ba_inv_def)
  qed
qed

section \<open>The contract the codecs use\<close>

text \<open>
  A byte cursor: a sequence of bytes with a position in it. \<open>put\<close> overwrites from the position and
  never fails, \<open>get\<close> returns the next bytes when at least one is asked for and enough are there, and
  \<open>seek\<close> moves the position. The clients only need that what was put comes back.
\<close>

locale byte_cursor =
  fixes inv :: "'s \<Rightarrow> bool"
    and contents :: "'s \<Rightarrow> u8 list"
    and position :: "'s \<Rightarrow> nat"
    and put :: "'s \<Rightarrow> u8 list \<Rightarrow> ('e, 's) result"
    and get :: "'s \<Rightarrow> nat \<Rightarrow> ('e, u8 list \<times> 's) result"
    and seek :: "'s \<Rightarrow> nat \<Rightarrow> ('e, 's) result"
  assumes in_range: "inv s \<Longrightarrow> position s \<le> length (contents s)"
    and put_ok: "inv s \<Longrightarrow> \<exists>s'. put s bs = Inr s' \<and> inv s' \<and> position s' = position s + length bs
      \<and> contents s' = overwrite (contents s) (position s) bs"
    and get_ok: "inv s \<Longrightarrow> 0 < n \<Longrightarrow> position s + n \<le> length (contents s) \<Longrightarrow>
      \<exists>s'. get s n = Inr (take n (drop (position s) (contents s)), s') \<and> inv s'
        \<and> position s' = position s + n \<and> contents s' = contents s"
    and seek_ok: "inv s \<Longrightarrow> p \<le> length (contents s) \<Longrightarrow>
      \<exists>s'. seek s p = Inr s' \<and> inv s' \<and> position s' = p \<and> contents s' = contents s"
begin

text \<open>\<open>holds s bs rest\<close>: the bytes \<open>bs\<close> stand at the cursor of \<open>s\<close>, followed by \<open>rest\<close>.\<close>

definition holds :: "'s \<Rightarrow> u8 list \<Rightarrow> u8 list \<Rightarrow> bool" where
  "holds s bs rest \<longleftrightarrow> inv s \<and> drop (position s) (contents s) = bs @ rest"

lemma holds_get:
  assumes "holds s (xs @ ys) rest" "xs \<noteq> []"
  shows "\<exists>s'. get s (length xs) = Inr (xs, s') \<and> holds s' ys rest \<and> position s' = position s + length xs"
proof -
  have s: "inv s" "drop (position s) (contents s) = xs @ ys @ rest" using assms(1) by (simp_all add: holds_def)
  then have "length (contents s) - position s = length xs + length ys + length rest"
    by (metis add.assoc length_append length_drop)
  then have "position s + length xs \<le> length (contents s)" using in_range [OF s(1)] by linarith
  then obtain s' where s': "get s (length xs) = Inr (take (length xs) (drop (position s) (contents s)), s')"
    "inv s'" "position s' = position s + length xs" "contents s' = contents s"
    using get_ok [OF s(1), of "length xs"] assms(2) by auto
  have "drop (position s + length xs) (contents s) = ys @ rest"
    using s(2) by (metis append_eq_conv_conj drop_drop add.commute)
  then show ?thesis using s s' by (auto simp: holds_def)
qed

lemma put_holds:
  assumes "inv s" "put s bs = Inr s1" "seek s1 (position s) = Inr s2"
  shows "holds s2 bs (drop (position s + length bs) (contents s))"
proof -
  have s1: "inv s1" "contents s1 = overwrite (contents s) (position s) bs"
    using put_ok [OF assms(1), of bs] assms(2) by auto
  have "position s \<le> length (contents s1)"
    using in_range [OF assms(1)] s1(2) by (simp add: length_overwrite)
  then have "inv s2" "position s2 = position s" "contents s2 = contents s1"
    using seek_ok [OF s1(1), of "position s"] assms(3) by auto
  then show ?thesis using s1(2) in_range [OF assms(1)] by (simp add: holds_def overwrite_def)
qed

lemma put_put:
  assumes "inv s" "put s xs = Inr s1"
  shows "inv s1 \<and> (\<exists>s2. put s1 ys = Inr s2 \<and> inv s2 \<and> position s2 = position s + length (xs @ ys)
    \<and> contents s2 = overwrite (contents s) (position s) (xs @ ys))"
proof -
  have s1: "inv s1" "position s1 = position s + length xs" "contents s1 = overwrite (contents s) (position s) xs"
    using put_ok [OF assms(1), of xs] assms(2) by auto
  show ?thesis
    using put_ok [OF s1(1), of ys] s1 overwrite_append [OF in_range [OF assms(1)], of xs ys] by auto
qed

end

interpretation ba: byte_cursor ba_inv ba_data m_position ba_write ba_read setPosition
proof unfold_locales
  fix s bs
  assume inv: "ba_inv s"
  show "m_position s \<le> length (ba_data s)" using inv length_ba_data [OF inv] by (simp add: ba_inv_def)
  show "\<exists>s'. ba_write s bs = Inr s' \<and> ba_inv s' \<and> m_position s' = m_position s + length bs
    \<and> ba_data s' = overwrite (ba_data s) (m_position s) bs"
    using ba_write_ok [OF inv, of bs] by blast
next
  fix s :: bytearray and n :: nat
  assume inv: "ba_inv s" and n: "0 < n" "m_position s + n \<le> length (ba_data s)"
  show "\<exists>s'. ba_read s n = Inr (take n (drop (m_position s) (ba_data s)), s') \<and> ba_inv s'
    \<and> m_position s' = m_position s + n \<and> ba_data s' = ba_data s"
    using ba_read_ok [OF inv n(1)] n length_ba_data [OF inv] by simp blast
next
  fix s :: bytearray and p :: nat
  assume inv: "ba_inv s" and "p \<le> length (ba_data s)"
  then show "\<exists>s'. setPosition s p = Inr s' \<and> ba_inv s' \<and> m_position s' = p \<and> ba_data s' = ba_data s"
    using setPosition_data [OF inv, of p] length_ba_data [OF inv] by auto
qed


section \<open>The abstract buffer\<close>

text \<open>
  What the class promises: a byte string and a cursor into it. The calls below are those a client
  makes; \<open>spec_exec\<close> is undefined where the contract is silent (a read of nothing, a seek past the
  data, whose result depends on how much memory happens to be allocated).
\<close>

datatype ba_op = Write "u8 list" | Read nat | Seek nat | Clear | ToString | FromFile "u8 list"

datatype ba_out = Done | Bytes "u8 list" | Failed

fun spec_exec :: "u8 list \<times> nat \<Rightarrow> ba_op \<Rightarrow> (ba_out \<times> u8 list \<times> nat) option" where
  "spec_exec (d, p) (Write bs) = Some (Done, overwrite d p bs, p + length bs)"
| "spec_exec (d, p) (Read n) =
     (if n = 0 then None
      else if p + n \<le> length d then Some (Bytes (take n (drop p d)), d, p + n)
      else Some (Failed, d, p))"
| "spec_exec (d, p) (Seek v) = (if v \<le> length d then Some (Done, d, v) else None)"
| "spec_exec (d, p) Clear = Some (Done, [], 0)"
| "spec_exec (d, p) ToString = Some (Bytes (drop p d), d, p)"
| "spec_exec (d, p) (FromFile bs) = Some (Done, overwrite d p bs, p + length bs)"

definition outcome :: "bytearray \<Rightarrow> (ba_error, ba_out \<times> bytearray) result \<Rightarrow> ba_out \<times> bytearray" where
  "outcome ba r = (case r of Inl e \<Rightarrow> (Failed, ba) | Inr x \<Rightarrow> x)"

fun ba_exec :: "bytearray \<Rightarrow> ba_op \<Rightarrow> ba_out \<times> bytearray" where
  "ba_exec ba (Write bs) = outcome ba (rbind (ba_write ba bs) (\<lambda>b. Inr (Done, b)))"
| "ba_exec ba (Read n) = outcome ba (rbind (ba_read ba n) (\<lambda>(bs, b). Inr (Bytes bs, b)))"
| "ba_exec ba (Seek v) = outcome ba (rbind (setPosition ba v) (\<lambda>b. Inr (Done, b)))"
| "ba_exec ba Clear = (Done, ba_clear ba)"
| "ba_exec ba ToString = outcome ba (rbind (ba_toString ba) (\<lambda>bs. Inr (Bytes bs, ba)))"
| "ba_exec ba (FromFile bs) = outcome ba (rbind (readFromFile (Some bs) ba) (\<lambda>(ok, b). Inr (Done, b)))"

fun spec_run :: "u8 list \<times> nat \<Rightarrow> ba_op list \<Rightarrow> ba_out list option" where
  "spec_run s [] = Some []"
| "spec_run s (c # cs) =
     (case spec_exec s c of
        None \<Rightarrow> None
      | Some (out, s') \<Rightarrow> (case spec_run s' cs of None \<Rightarrow> None | Some outs \<Rightarrow> Some (out # outs)))"

fun ba_run :: "bytearray \<Rightarrow> ba_op list \<Rightarrow> ba_out list" where
  "ba_run ba [] = []"
| "ba_run ba (c # cs) = (case ba_exec ba c of (out, ba') \<Rightarrow> out # ba_run ba' cs)"

lemma ba_exec_refines:
  assumes inv: "ba_inv ba" and "spec_exec (ba_data ba, m_position ba) c = Some (out, d, p)"
  shows "\<exists>ba'. ba_exec ba c = (out, ba') \<and> ba_inv ba' \<and> ba_data ba' = d \<and> m_position ba' = p"
proof (cases c)
  case (Write bs)
  then show ?thesis using assms ba.put_ok [OF inv, of bs] by (auto simp: outcome_def)
next
  case (Read n)
  show ?thesis
  proof (cases "m_position ba + n \<le> length (ba_data ba)")
    case True
    then show ?thesis using Read assms ba.get_ok [OF inv, of n] by (auto simp: outcome_def split: if_splits)
  next
    case False
    then have "m_size ba - m_position ba < n" using ba.in_range [OF inv] length_ba_data [OF inv] by linarith
    then have "n > getReadSize ba" using inv by (simp add: getReadSize_def size_sub_def ba_inv_def)
    then show ?thesis using Read assms False by (auto simp: outcome_def ba_read_def split: if_splits)
  qed
next
  case (Seek v)
  then show ?thesis using assms ba.seek_ok [OF inv, of v] by (auto simp: outcome_def split: if_splits)
next
  case Clear
  then show ?thesis using assms ba_clear_ok [OF inv] by (auto simp: ba_clear_def)
next
  case ToString
  then show ?thesis using assms ba_toString_ok [OF inv] by (auto simp: outcome_def)
next
  case (FromFile bs)
  have "0 < m_baseSize ba" using inv by (simp add: ba_inv_def)
  then show ?thesis using FromFile assms fill_loop_ok [OF inv, of "m_baseSize ba" bs]
    by (auto simp: outcome_def readFromFile_def)
qed



text \<open>The buffers getReadBuffers returns hold exactly the bytes from the cursor on, at most the length
  asked for, however they are spread over the blocks.\<close>

theorem getReadBuffers_bytes:
  assumes "ba_inv ba"
  shows "\<exists>vs. getReadBuffers ba len = Inr (min len (getReadSize ba), vs)
    \<and> iov_bytes (m_nodes ba) vs = take len (drop (m_position ba) (ba_data ba))"
  using assms by (rule getReadBuffers_ok)

theorem getReadBuffers_bytes_witness:
  "\<exists>ba1 ba2 vs. ba_write (ByteArray (\<lambda>_ _. 0) 2) [1, 2, 3, 4, 5] = Inr ba1 \<and> setPosition ba1 1 = Inr ba2
    \<and> ba_inv ba2 \<and> getReadBuffers ba2 3 = Inr (3, vs) \<and> iov_bytes (m_nodes ba2) vs = [2, 3, 4]"
proof -
  have e: "ba_inv (ByteArray (\<lambda>_ _. 0) 2)" "ba_data (ByteArray (\<lambda>_ _. 0) 2) = []" "m_position (ByteArray (\<lambda>_ _. 0) 2) = 0"
    using ba_inv_ByteArray [of 2 "\<lambda>_ _. 0"] by (simp_all add: ByteArray_def)
  obtain ba1 where ba1: "ba_write (ByteArray (\<lambda>_ _. 0) 2) [1, 2, 3, 4, 5] = Inr ba1" "ba_inv ba1" "ba_data ba1 = [1, 2, 3, 4, 5]"
    using ba.put_ok [OF e(1), of "[1, 2, 3, 4, 5]"] e by (auto simp: overwrite_def)
  obtain ba2 where ba2: "setPosition ba1 1 = Inr ba2" "ba_inv ba2" "m_position ba2 = 1" "ba_data ba2 = [1, 2, 3, 4, 5]"
    using ba.seek_ok [OF ba1(2), of 1] ba1(3) by auto
  have "getReadSize ba2 = 4" using ba2 length_ba_data [OF ba2(2)] by (simp add: getReadSize_def size_sub_def)
  then show ?thesis using getReadBuffers_bytes [OF ba2(2), of 3] ba1(1) ba2 by auto
qed

text \<open>C4: A scattering receive through getWriteBuffers followed by setPosition is a write: after filling
  the buffers with \<open>bs\<close> and moving the cursor behind them, the contents are those \<open>write(bs)\<close> leaves.\<close>

theorem getWriteBuffers_write:
  assumes "ba_inv ba" and "0 < n" and "length bs \<le> n"
  shows "\<exists>vs ba1 ba2 ba3. getWriteBuffers ba n = Inr (n, vs, ba1)
    \<and> setPosition (ba1\<lparr>m_nodes := iov_fill (m_nodes ba1) vs bs\<rparr>) (m_position ba1 + length bs) = Inr ba2
    \<and> ba_write ba bs = Inr ba3 \<and> ba_inv ba2 \<and> ba_data ba2 = ba_data ba3 \<and> m_position ba2 = m_position ba3"
  using getWriteBuffers_ok [OF assms] ba.put_ok [OF assms(1), of bs] by metis

theorem getWriteBuffers_write_witness:
  "\<exists>vs ba1 ba2 ba3. getWriteBuffers (ByteArray (\<lambda>_ _. 0) 2) 5 = Inr (5, vs, ba1)
    \<and> setPosition (ba1\<lparr>m_nodes := iov_fill (m_nodes ba1) vs [7, 8, 9]\<rparr>) (m_position ba1 + length [7, 8, 9 :: u8]) = Inr ba2
    \<and> ba_write (ByteArray (\<lambda>_ _. 0) 2) [7, 8, 9] = Inr ba3 \<and> ba_inv ba2 \<and> ba_data ba2 = ba_data ba3
    \<and> m_position ba2 = m_position ba3"
  using getWriteBuffers_write [of "ByteArray (\<lambda>_ _. 0) 2" 5 "[7, 8, 9]"] ba_inv_ByteArray [of 2 "\<lambda>_ _. 0"]
  by simp

text \<open>writeToFile stores exactly the unread bytes when the cursor stands on a block boundary or at
  least a block is left to read; off a boundary with less than a block left it never succeeds.\<close>

theorem writeToFile_cases:
  assumes "ba_inv ba"
  shows "(m_position ba mod m_baseSize ba = 0 \<or> m_baseSize ba \<le> getReadSize ba
      \<longrightarrow> writeToFile True ba = Inr (Some (drop (m_position ba) (ba_data ba))))
    \<and> (0 < m_position ba mod m_baseSize ba \<and> 0 < getReadSize ba \<and> getReadSize ba < m_baseSize ba
      \<longrightarrow> (\<exists>e. writeToFile True ba = Inl e))"
  using writeToFile_ok [OF assms] writeToFile_short_fails [OF assms] by blast

theorem writeToFile_cases_witness:
  "ba_inv (ByteArray (\<lambda>_ _. 0) 2) \<and> writeToFile True (ByteArray (\<lambda>_ _. 0) 2) = Inr (Some [])"
  using writeToFile_cases [of "ByteArray (\<lambda>_ _. 0) 2"] ba_inv_ByteArray [of 2 "\<lambda>_ _. 0"]
  by (simp add: ByteArray_def)

end
