(* ===== verification/ByteArray_Codec.thy ===== *)
theory ByteArray_Codec
  imports ByteArray
begin

unbundle bit_operations_syntax

text \<open>
  The typed readers and writers of \<open>src/bytearray.cc\<close> on top of the storage layer: fixed-width
  integers in the buffer's byte order, zigzag and base-128 varints, floating point bit patterns and
  length-prefixed strings. Integers are words, a float is its bit pattern, a string is its bytes.
  The theorems are round trips: what a writer stored, the reader of the same name returns after the
  cursor moved back, and the cursor ends where the writer left it.
\<close>

section \<open>Fixed-width integers\<close>

definition write_fixed :: "bytearray \<Rightarrow> 'a::len word \<Rightarrow> (ba_error, bytearray) result" where
  "write_fixed ba value =
     (let value' = (if m_endian ba \<noteq> BYTE_ORDER then byteswap value else value)
      in ba_write ba (bytes_of value'))"

definition read_fixed :: "bytearray \<Rightarrow> (ba_error, 'a::len word \<times> bytearray) result" where
  "read_fixed ba =
     rbind (ba_read ba (LENGTH('a) div 8))
       (\<lambda>(bs, ba'). let v = word_of_bytes bs
                     in Inr (if m_endian ba' = BYTE_ORDER then v else byteswap v, ba'))"

definition writeFint8 :: "bytearray \<Rightarrow> i8 \<Rightarrow> (ba_error, bytearray) result" where
  "writeFint8 ba value = ba_write ba (bytes_of value)"

definition writeFuint8 :: "bytearray \<Rightarrow> u8 \<Rightarrow> (ba_error, bytearray) result" where
  "writeFuint8 ba value = ba_write ba (bytes_of value)"

definition writeFint16 :: "bytearray \<Rightarrow> i16 \<Rightarrow> (ba_error, bytearray) result" where
  "writeFint16 ba value = write_fixed ba value"

definition writeFuint16 :: "bytearray \<Rightarrow> u16 \<Rightarrow> (ba_error, bytearray) result" where
  "writeFuint16 ba value = write_fixed ba value"

definition writeFint32 :: "bytearray \<Rightarrow> i32 \<Rightarrow> (ba_error, bytearray) result" where
  "writeFint32 ba value = write_fixed ba value"

definition writeFuint32 :: "bytearray \<Rightarrow> u32 \<Rightarrow> (ba_error, bytearray) result" where
  "writeFuint32 ba value = write_fixed ba value"

definition writeFint64 :: "bytearray \<Rightarrow> i64 \<Rightarrow> (ba_error, bytearray) result" where
  "writeFint64 ba value = write_fixed ba value"

definition writeFuint64 :: "bytearray \<Rightarrow> u64 \<Rightarrow> (ba_error, bytearray) result" where
  "writeFuint64 ba value = write_fixed ba value"

definition readFint8 :: "bytearray \<Rightarrow> (ba_error, i8 \<times> bytearray) result" where
  "readFint8 ba = rbind (ba_read ba 1) (\<lambda>(bs, ba'). Inr (word_of_bytes bs, ba'))"

definition readFuint8 :: "bytearray \<Rightarrow> (ba_error, u8 \<times> bytearray) result" where
  "readFuint8 ba = rbind (ba_read ba 1) (\<lambda>(bs, ba'). Inr (word_of_bytes bs, ba'))"

definition readFint16 :: "bytearray \<Rightarrow> (ba_error, i16 \<times> bytearray) result" where
  "readFint16 ba = read_fixed ba"

definition readFuint16 :: "bytearray \<Rightarrow> (ba_error, u16 \<times> bytearray) result" where
  "readFuint16 ba = read_fixed ba"

definition readFint32 :: "bytearray \<Rightarrow> (ba_error, i32 \<times> bytearray) result" where
  "readFint32 ba = read_fixed ba"

definition readFuint32 :: "bytearray \<Rightarrow> (ba_error, u32 \<times> bytearray) result" where
  "readFuint32 ba = read_fixed ba"

definition readFint64 :: "bytearray \<Rightarrow> (ba_error, i64 \<times> bytearray) result" where
  "readFint64 ba = read_fixed ba"

definition readFuint64 :: "bytearray \<Rightarrow> (ba_error, u64 \<times> bytearray) result" where
  "readFuint64 ba = read_fixed ba"

section \<open>Zigzag and varints\<close>

text \<open>
  The source negates and doubles signed values, which overflows int for large magnitudes; the words
  wrap, as the two's complement code the compiler emits does.
\<close>

definition zigzag :: "'a::len word \<Rightarrow> 'a word" where
  "zigzag v = (if sint v < 0 then (- v) * 2 - 1 else v * 2)"

definition unzigzag :: "'a::len word \<Rightarrow> 'a word" where
  "unzigzag v = drop_bit 1 v XOR - (v AND 1)"

definition EncodeZigzag32 :: "i32 \<Rightarrow> u32" where
  "EncodeZigzag32 v = zigzag v"

definition EncodeZigzag64 :: "i64 \<Rightarrow> u64" where
  "EncodeZigzag64 v = zigzag v"

definition DecodeZigzag32 :: "u32 \<Rightarrow> i32" where
  "DecodeZigzag32 v = unzigzag v"

definition DecodeZigzag64 :: "u64 \<Rightarrow> i64" where
  "DecodeZigzag64 v = unzigzag v"

text \<open>The bytes the loops of writeUint32 and writeUint64 collect in \<open>tmp\<close>.\<close>

lemma unat_drop7: "unat (drop_bit 7 w) = unat w div 128"
proof -
  have "unat (drop_bit 7 w) = drop_bit 7 (unat w)" by (rule unat_drop_bit_eq)
  also have "\<dots> = unat w div 128" by (simp add: drop_bit_eq_div)
  finally show ?thesis .
qed

function varint_tmp :: "'a::len word \<Rightarrow> u8 list" where
  "varint_tmp value =
     (if 0x80 \<le> unat value
      then ucast ((value AND 0x7F) OR 0x80) # varint_tmp (drop_bit 7 value)
      else [ucast value])"
  by pat_completeness auto
termination
  by (relation "measure unat") (auto simp: unat_drop7)

declare varint_tmp.simps [simp del]

definition writeUint32 :: "bytearray \<Rightarrow> u32 \<Rightarrow> (ba_error, bytearray) result" where
  "writeUint32 ba value = ba_write ba (varint_tmp value)"

definition writeInt32 :: "bytearray \<Rightarrow> i32 \<Rightarrow> (ba_error, bytearray) result" where
  "writeInt32 ba value = writeUint32 ba (EncodeZigzag32 value)"

definition writeUint64 :: "bytearray \<Rightarrow> u64 \<Rightarrow> (ba_error, bytearray) result" where
  "writeUint64 ba value = ba_write ba (varint_tmp value)"

definition writeInt64 :: "bytearray \<Rightarrow> i64 \<Rightarrow> (ba_error, bytearray) result" where
  "writeInt64 ba value = writeUint64 ba (EncodeZigzag64 value)"

text \<open>The loop of readUint32 (\<open>i < 32\<close>) and readUint64 (\<open>i < 64\<close>).\<close>

function varint_loop :: "bytearray \<Rightarrow> nat \<Rightarrow> 'a::len word \<Rightarrow> (ba_error, 'a word \<times> bytearray) result" where
  "varint_loop ba i r =
     (if i < LENGTH('a) then
        rbind (readFuint8 ba)
          (\<lambda>(b, ba'). if b < 0x80 then Inr (r OR push_bit i (ucast b), ba')
                       else varint_loop ba' (i + 7) (r OR push_bit i (ucast (b AND 0x7F))))
      else Inr (r, ba))"
  by pat_completeness auto
termination
  by (relation "measure (\<lambda>(ba, i, r). LENGTH('a) - i)") auto

declare varint_loop.simps [simp del]

definition readUint32 :: "bytearray \<Rightarrow> (ba_error, u32 \<times> bytearray) result" where
  "readUint32 ba = varint_loop ba 0 0"

definition readInt32 :: "bytearray \<Rightarrow> (ba_error, i32 \<times> bytearray) result" where
  "readInt32 ba = rbind (readUint32 ba) (\<lambda>(v, ba'). Inr (DecodeZigzag32 v, ba'))"

definition readUint64 :: "bytearray \<Rightarrow> (ba_error, u64 \<times> bytearray) result" where
  "readUint64 ba = varint_loop ba 0 0"

definition readInt64 :: "bytearray \<Rightarrow> (ba_error, i64 \<times> bytearray) result" where
  "readInt64 ba = rbind (readUint64 ba) (\<lambda>(v, ba'). Inr (DecodeZigzag64 v, ba'))"

section \<open>Floating point and strings\<close>

definition writeFloat :: "bytearray \<Rightarrow> u32 \<Rightarrow> (ba_error, bytearray) result" where
  "writeFloat ba value = writeFuint32 ba value"

definition writeDouble :: "bytearray \<Rightarrow> u64 \<Rightarrow> (ba_error, bytearray) result" where
  "writeDouble ba value = writeFuint64 ba value"

definition readFloat :: "bytearray \<Rightarrow> (ba_error, u32 \<times> bytearray) result" where
  "readFloat ba = readFuint32 ba"

definition readDouble :: "bytearray \<Rightarrow> (ba_error, u64 \<times> bytearray) result" where
  "readDouble ba = readFuint64 ba"

definition writeStringF16 :: "bytearray \<Rightarrow> u8 list \<Rightarrow> (ba_error, bytearray) result" where
  "writeStringF16 ba value =
     rbind (writeFuint16 ba (of_nat (length value))) (\<lambda>ba'. ba_write ba' value)"

definition writeStringF32 :: "bytearray \<Rightarrow> u8 list \<Rightarrow> (ba_error, bytearray) result" where
  "writeStringF32 ba value =
     rbind (writeFuint32 ba (of_nat (length value))) (\<lambda>ba'. ba_write ba' value)"

definition writeStringF64 :: "bytearray \<Rightarrow> u8 list \<Rightarrow> (ba_error, bytearray) result" where
  "writeStringF64 ba value =
     rbind (writeFuint64 ba (of_nat (length value))) (\<lambda>ba'. ba_write ba' value)"

definition writeStringVint :: "bytearray \<Rightarrow> u8 list \<Rightarrow> (ba_error, bytearray) result" where
  "writeStringVint ba value =
     rbind (writeUint64 ba (of_nat (length value))) (\<lambda>ba'. ba_write ba' value)"

definition writeStringWithoutLength :: "bytearray \<Rightarrow> u8 list \<Rightarrow> (ba_error, bytearray) result" where
  "writeStringWithoutLength ba value = ba_write ba value"

definition readStringF16 :: "bytearray \<Rightarrow> (ba_error, u8 list \<times> bytearray) result" where
  "readStringF16 ba = rbind (readFuint16 ba) (\<lambda>(len, ba'). ba_read ba' (unat len))"

definition readStringF32 :: "bytearray \<Rightarrow> (ba_error, u8 list \<times> bytearray) result" where
  "readStringF32 ba = rbind (readFuint32 ba) (\<lambda>(len, ba'). ba_read ba' (unat len))"

definition readStringF64 :: "bytearray \<Rightarrow> (ba_error, u8 list \<times> bytearray) result" where
  "readStringF64 ba = rbind (readFuint64 ba) (\<lambda>(len, ba'). ba_read ba' (unat len))"

definition readStringVint :: "bytearray \<Rightarrow> (ba_error, u8 list \<times> bytearray) result" where
  "readStringVint ba = rbind (readUint64 ba) (\<lambda>(len, ba'). ba_read ba' (unat len))"

text \<open>The hexadecimal dump: two lower case digits and a blank per byte, 32 bytes per line.\<close>

definition hex_digit :: "nat \<Rightarrow> char" where
  "hex_digit n = ''0123456789abcdef'' ! (n mod 16)"

fun hex_lines :: "nat \<Rightarrow> u8 list \<Rightarrow> string" where
  "hex_lines i [] = ''''"
| "hex_lines i (b # bs) =
     (if 0 < i \<and> i mod 32 = 0 then [CHR 0x0A] else '''') @
     [hex_digit (unat b div 16), hex_digit (unat b), CHR '' ''] @ hex_lines (Suc i) bs"

definition toHexString :: "bytearray \<Rightarrow> (ba_error, string) result" where
  "toHexString ba = rbind (ba_toString ba) (\<lambda>str. Inr (hex_lines 0 str))"

section \<open>Words\<close>

lemma bit_times_2: "bit (v * 2) n \<longleftrightarrow> n \<noteq> 0 \<and> n < LENGTH('a) \<and> bit v (n - 1)" for v :: "'a::len word"
  using bit_double_iff [of v n] by (auto simp: mult.commute possible_bit_word)

lemma zigzag_bits:
  "zigzag v = (if bit v (LENGTH('a) - 1) then NOT (push_bit 1 v) else push_bit 1 (v :: 'a::len word))"
proof -
  have "(- v) * 2 - 1 = NOT (push_bit 1 v)" by (simp add: not_eq_complement push_bit_eq_mult)
  then show ?thesis by (simp add: zigzag_def bit_last_iff push_bit_eq_mult mult.commute)
qed

lemma unzigzag_zigzag: "unzigzag (zigzag v) = (v :: 'a::len word)"
proof (cases "bit v (LENGTH('a) - 1)")
  case True
  have "NOT (push_bit 1 v) AND 1 = (1 :: 'a word)"
    by (rule bit_word_eqI) (auto simp: bit_and_iff bit_not_iff bit_push_bit_iff bit_1_iff bit_times_2)
  then have "unzigzag (zigzag v) = drop_bit 1 (NOT (push_bit 1 v)) XOR - 1"
    using True by (simp add: zigzag_bits unzigzag_def)
  also have "\<dots> = v"
  proof (rule bit_word_eqI)
    fix n assume n: "n < LENGTH('a)"
    show "bit (drop_bit 1 (NOT (push_bit 1 v)) XOR - 1) n = bit v n"
    proof (cases "Suc n < LENGTH('a)")
      case True
      then show ?thesis
        by (auto simp: bit_xor_iff bit_drop_bit_eq bit_not_iff bit_push_bit_iff possible_bit_word bit_minus_1_iff bit_times_2)
    next
      case False
      then have "n = LENGTH('a) - 1" using n by simp
      then show ?thesis using True
        by (auto simp: bit_xor_iff bit_drop_bit_eq bit_not_iff possible_bit_word bit_minus_1_iff bit_times_2)
    qed
  qed
  finally show ?thesis .
next
  case False
  have "push_bit 1 v AND 1 = 0"
    by (rule bit_word_eqI) (auto simp: bit_and_iff bit_push_bit_iff bit_1_iff bit_times_2)
  then have "unzigzag (zigzag v) = drop_bit 1 (push_bit 1 v)"
    using False by (simp add: zigzag_bits unzigzag_def)
  also have "\<dots> = v"
  proof (rule bit_word_eqI)
    fix n assume n: "n < LENGTH('a)"
    show "bit (drop_bit 1 (push_bit 1 v)) n = bit v n"
    proof (cases "Suc n < LENGTH('a)")
      case True
      then show ?thesis by (auto simp: bit_drop_bit_eq bit_times_2)
    next
      case last: False
      then have "n = LENGTH('a) - 1" using n by simp
      with last show ?thesis using False by (simp add: bit_drop_bit_eq bit_times_2)
    qed
  qed
  finally show ?thesis .
qed

lemma split7: "(w AND 0x7F) OR push_bit 7 (drop_bit 7 w) = (w :: 'a::len word)"
proof (rule bit_word_eqI)
  fix n assume n: "n < LENGTH('a)"
  have m: "(0x7F :: 'a word) = mask 7" by (simp add: mask_eq_exp_minus_1)
  show "bit ((w AND 0x7F) OR push_bit 7 (drop_bit 7 w)) n = bit w n"
    using n unfolding m
    by (cases "n < 7")
      (auto simp: bit_or_iff bit_and_iff bit_mask_iff bit_push_bit_iff bit_drop_bit_eq possible_bit_word)
qed


lemma varint_last:
  fixes w :: "'a::len word"
  assumes "\<not> 0x80 \<le> unat w" "8 \<le> LENGTH('a)"
  shows "ucast (ucast w :: u8) = w" "(ucast w :: u8) < 0x80"
  using assms by (simp_all add: word_unat_eq_iff unsigned_ucast_eq take_bit_nat_eq_self unsigned_take_bit_eq word_less_nat_alt)

lemma bit_127: "bit (127 :: int) n \<longleftrightarrow> n < 7"
proof -
  have "(127 :: int) = mask 7" by (simp add: mask_eq_exp_minus_1)
  then show ?thesis by (simp only: bit_mask_iff possible_bit_int simp_thms)
qed

lemma bit_128: "bit (128 :: int) n \<longleftrightarrow> n = 7"
  using bit_exp_iff [where 'a = int, of 7 n] by auto

lemma bit_varint_byte:
  fixes w :: "'a::len word"
  assumes "8 \<le> LENGTH('a)"
  shows "bit (ucast ((w AND 0x7F) OR 0x80) :: u8) n \<longleftrightarrow> n = 7 \<or> n < 7 \<and> bit w n"
  using assms by (auto simp: bit_ucast_iff bit_or_iff bit_and_iff bit_127 bit_128)

lemma varint_more:
  fixes w :: "'a::len word"
  assumes "8 \<le> LENGTH('a)"
  shows "\<not> (ucast ((w AND 0x7F) OR 0x80) :: u8) < 0x80"
    "ucast ((ucast ((w AND 0x7F) OR 0x80) :: u8) AND 0x7F) = w AND 0x7F"
proof -
  let ?b = "ucast ((w AND 0x7F) OR 0x80) :: u8"
  have "bit (unat ?b) 7" using bit_varint_byte [OF assms, of w 7] by (simp add: bit_unsigned_iff)
  then have "\<not> unat ?b < 128" by (auto simp: bit_iff_odd)
  then show "\<not> ?b < 0x80" by (simp add: word_less_nat_alt)
  show "ucast (?b AND 0x7F) = w AND 0x7F"
    by (rule bit_word_eqI)
      (use assms in \<open>auto simp: bit_ucast_iff bit_and_iff bit_or_iff bit_127 bit_128\<close>)
qed

lemma varint_tmp_pos: "1 \<le> length (varint_tmp w)"
  by (simp add: varint_tmp.simps [of w])

lemma length_varint_tmp:
  "unat w < 2 ^ (7 * n) \<Longrightarrow> 0 < n \<Longrightarrow> length (varint_tmp w) \<le> n"
proof (induction w arbitrary: n rule: varint_tmp.induct)
  case (1 w)
  show ?case
  proof (cases "0x80 \<le> unat w")
    case True
    obtain m where n: "n = Suc m" using "1.prems" by (cases n) auto
    have "0 < m" using True "1.prems" n by (cases m) auto
    moreover have "unat (drop_bit 7 w) < 2 ^ (7 * m)"
      using "1.prems" n by (simp add: unat_drop7 less_mult_imp_div_less power_add mult.commute)
    ultimately have "length (varint_tmp (drop_bit 7 w)) \<le> m" using True by (intro "1.IH")
    then show ?thesis using True n by (simp add: varint_tmp.simps [of w])
  next
    case False
    then show ?thesis using "1.prems" by (simp add: varint_tmp.simps [of w])
  qed
qed


section \<open>Readers on a buffer that holds what the writers put\<close>

lemma ba_read_endian: "ba_read ba n = Inr (bs, ba') \<Longrightarrow> m_endian ba' = m_endian ba"
  by (auto simp: ba_read_def Let_def rbind_eq_Inr_iff split: if_splits option.splits)

lemma readFuint8_holds:
  assumes "ba.holds s (b # ys) rest"
  shows "\<exists>s'. readFuint8 s = Inr (b, s') \<and> ba.holds s' ys rest \<and> m_position s' = m_position s + 1"
  using ba.holds_get [of s "[b]" ys rest] assms by (auto simp: readFuint8_def)

lemma read_fixed_holds:
  assumes "ba.holds s (wire_bytes (m_endian s) w @ ys) rest" and dvd: "8 dvd LENGTH('a::len)"
  shows "\<exists>s'. read_fixed s = Inr (w :: 'a word, s') \<and> ba.holds s' ys rest
    \<and> m_position s' = m_position s + LENGTH('a) div 8"
proof -
  let ?bs = "wire_bytes (m_endian s) w"
  have "0 < LENGTH('a) div 8" using dvd len_gt_0 [where 'a = 'a] by (auto elim!: dvdE simp del: len_gt_0)
  then have ne: "?bs \<noteq> []" using length_wire_bytes [of "m_endian s" w] by (metis list.size(3) less_irrefl)
  obtain s' where s': "ba_read s (LENGTH('a) div 8) = Inr (?bs, s')" "ba.holds s' ys rest"
    "m_position s' = m_position s + LENGTH('a) div 8"
    using ba.holds_get [OF assms(1) ne] by auto
  moreover have "m_endian s' = m_endian s" using s'(1) by (rule ba_read_endian)
  moreover have "(if m_endian s = BYTE_ORDER then word_of_bytes ?bs else byteswap (word_of_bytes ?bs)) = w"
    using dvd by (cases "m_endian s")
      (simp_all add: wire_bytes_def BYTE_ORDER_def word_of_bytes_of_bytes byteswap_byteswap flip: byteswap_def)
  ultimately show ?thesis by (simp add: read_fixed_def Let_def)
qed

lemma write_fixed_wire: "write_fixed ba w = ba_write ba (wire_bytes (m_endian ba) w)"
  by (cases "m_endian ba") (simp_all add: write_fixed_def wire_bytes_def BYTE_ORDER_def)

lemma varint_loop_holds:
  fixes w r :: "'a::len word"
  assumes "ba.holds s (varint_tmp w @ ys) rest" "8 \<le> LENGTH('a)" "i < LENGTH('a)" "unat w < 2 ^ (LENGTH('a) - i)"
  shows "\<exists>s'. varint_loop s i r = Inr (r OR push_bit i w, s') \<and> ba.holds s' ys rest
    \<and> m_position s' = m_position s + length (varint_tmp w)"
  using assms
proof (induction w arbitrary: s i r rule: varint_tmp.induct)
  case (1 w)
  show ?case
  proof (cases "0x80 \<le> unat w")
    case False
    then have "varint_tmp w = [ucast w]" by (simp add: varint_tmp.simps [of w])
    then show ?thesis
      using readFuint8_holds [of s "ucast w" ys rest] "1.prems" varint_last [OF False]
      by (auto simp: varint_loop.simps [of s])
  next
    case True
    define b where "b = (ucast ((w AND 0x7F) OR 0x80) :: u8)"
    have eq: "varint_tmp w = b # varint_tmp (drop_bit 7 w)" using True by (simp add: varint_tmp.simps [of w] b_def)
    obtain s1 where s1: "readFuint8 s = Inr (b, s1)" "ba.holds s1 (varint_tmp (drop_bit 7 w) @ ys) rest"
      "m_position s1 = m_position s + 1"
      using readFuint8_holds [of s b] "1.prems"(1) eq by auto
    have i7: "i + 7 < LENGTH('a)"
    proof -
      have "(2::nat) ^ 7 < 2 ^ (LENGTH('a) - i)" using True "1.prems"(4) by simp
      then have "7 < LENGTH('a) - i" by (rule power_less_imp_less_exp [rotated]) simp
      then show ?thesis by simp
    qed
    have "unat (drop_bit 7 w) < 2 ^ (LENGTH('a) - (i + 7))"
    proof -
      have "LENGTH('a) - i = 7 + (LENGTH('a) - (i + 7))" using i7 by simp
      then have "(2::nat) ^ (LENGTH('a) - i) = 2 ^ 7 * 2 ^ (LENGTH('a) - (i + 7))" by (metis power_add)
      then have "unat w < 128 * 2 ^ (LENGTH('a) - (i + 7))" using "1.prems"(4) by simp
      then show ?thesis by (simp add: unat_drop7 less_mult_imp_div_less mult.commute)
    qed
    then obtain s2 where s2: "varint_loop s1 (i + 7) (r OR push_bit i (w AND 0x7F))
        = Inr ((r OR push_bit i (w AND 0x7F)) OR push_bit (i + 7) (drop_bit 7 w), s2)"
      "ba.holds s2 ys rest" "m_position s2 = m_position s1 + length (varint_tmp (drop_bit 7 w))"
      using "1.IH" [OF True s1(2) "1.prems"(2) i7] by blast
    have "push_bit (i + 7) (drop_bit 7 w) = push_bit i (push_bit 7 (drop_bit 7 w))"
      by (simp only: push_bit_push_bit)
    then have "(r OR push_bit i (w AND 0x7F)) OR push_bit (i + 7) (drop_bit 7 w)
        = r OR push_bit i ((w AND 0x7F) OR push_bit 7 (drop_bit 7 w))"
      by (simp only: push_bit_or or.assoc)
    also have "\<dots> = r OR push_bit i w" by (simp add: split7)
    finally show ?thesis
      using s1 s2 "1.prems" varint_more [OF "1.prems"(2), of w] eq
      by (auto simp: varint_loop.simps [of s] simp flip: b_def)
  qed
qed

section \<open>Records of fields\<close>

text \<open>
  A field is a value together with the pair of members that stores and loads it. Its encoding
  \<open>field_bytes\<close> is the wire format the writers promise, independent of the block layout.
\<close>

datatype field =
    Fint8 i8 | Fuint8 u8 | Fint16 i16 | Fuint16 u16 | Fint32 i32 | Fuint32 u32 | Fint64 i64 | Fuint64 u64
  | Int32 i32 | Uint32 u32 | Int64 i64 | Uint64 u64 | FloatBits u32 | DoubleBits u64
  | StringF16 "u8 list" | StringF32 "u8 list" | StringF64 "u8 list" | StringVint "u8 list"

fun write_field :: "bytearray \<Rightarrow> field \<Rightarrow> (ba_error, bytearray) result" where
  "write_field ba (Fint8 v) = writeFint8 ba v"
| "write_field ba (Fuint8 v) = writeFuint8 ba v"
| "write_field ba (Fint16 v) = writeFint16 ba v"
| "write_field ba (Fuint16 v) = writeFuint16 ba v"
| "write_field ba (Fint32 v) = writeFint32 ba v"
| "write_field ba (Fuint32 v) = writeFuint32 ba v"
| "write_field ba (Fint64 v) = writeFint64 ba v"
| "write_field ba (Fuint64 v) = writeFuint64 ba v"
| "write_field ba (Int32 v) = writeInt32 ba v"
| "write_field ba (Uint32 v) = writeUint32 ba v"
| "write_field ba (Int64 v) = writeInt64 ba v"
| "write_field ba (Uint64 v) = writeUint64 ba v"
| "write_field ba (FloatBits v) = writeFloat ba v"
| "write_field ba (DoubleBits v) = writeDouble ba v"
| "write_field ba (StringF16 v) = writeStringF16 ba v"
| "write_field ba (StringF32 v) = writeStringF32 ba v"
| "write_field ba (StringF64 v) = writeStringF64 ba v"
| "write_field ba (StringVint v) = writeStringVint ba v"

text \<open>The reader chosen by the constructor of the field; the value it carries is not looked at.\<close>

fun read_field :: "field \<Rightarrow> bytearray \<Rightarrow> (ba_error, field \<times> bytearray) result" where
  "read_field (Fint8 _) ba = rbind (readFint8 ba) (\<lambda>(v, ba'). Inr (Fint8 v, ba'))"
| "read_field (Fuint8 _) ba = rbind (readFuint8 ba) (\<lambda>(v, ba'). Inr (Fuint8 v, ba'))"
| "read_field (Fint16 _) ba = rbind (readFint16 ba) (\<lambda>(v, ba'). Inr (Fint16 v, ba'))"
| "read_field (Fuint16 _) ba = rbind (readFuint16 ba) (\<lambda>(v, ba'). Inr (Fuint16 v, ba'))"
| "read_field (Fint32 _) ba = rbind (readFint32 ba) (\<lambda>(v, ba'). Inr (Fint32 v, ba'))"
| "read_field (Fuint32 _) ba = rbind (readFuint32 ba) (\<lambda>(v, ba'). Inr (Fuint32 v, ba'))"
| "read_field (Fint64 _) ba = rbind (readFint64 ba) (\<lambda>(v, ba'). Inr (Fint64 v, ba'))"
| "read_field (Fuint64 _) ba = rbind (readFuint64 ba) (\<lambda>(v, ba'). Inr (Fuint64 v, ba'))"
| "read_field (Int32 _) ba = rbind (readInt32 ba) (\<lambda>(v, ba'). Inr (Int32 v, ba'))"
| "read_field (Uint32 _) ba = rbind (readUint32 ba) (\<lambda>(v, ba'). Inr (Uint32 v, ba'))"
| "read_field (Int64 _) ba = rbind (readInt64 ba) (\<lambda>(v, ba'). Inr (Int64 v, ba'))"
| "read_field (Uint64 _) ba = rbind (readUint64 ba) (\<lambda>(v, ba'). Inr (Uint64 v, ba'))"
| "read_field (FloatBits _) ba = rbind (readFloat ba) (\<lambda>(v, ba'). Inr (FloatBits v, ba'))"
| "read_field (DoubleBits _) ba = rbind (readDouble ba) (\<lambda>(v, ba'). Inr (DoubleBits v, ba'))"
| "read_field (StringF16 _) ba = rbind (readStringF16 ba) (\<lambda>(v, ba'). Inr (StringF16 v, ba'))"
| "read_field (StringF32 _) ba = rbind (readStringF32 ba) (\<lambda>(v, ba'). Inr (StringF32 v, ba'))"
| "read_field (StringF64 _) ba = rbind (readStringF64 ba) (\<lambda>(v, ba'). Inr (StringF64 v, ba'))"
| "read_field (StringVint _) ba = rbind (readStringVint ba) (\<lambda>(v, ba'). Inr (StringVint v, ba'))"

fun write_fields :: "bytearray \<Rightarrow> field list \<Rightarrow> (ba_error, bytearray) result" where
  "write_fields ba [] = Inr ba"
| "write_fields ba (f # fs) = rbind (write_field ba f) (\<lambda>ba'. write_fields ba' fs)"

fun read_fields :: "field list \<Rightarrow> bytearray \<Rightarrow> (ba_error, field list \<times> bytearray) result" where
  "read_fields [] ba = Inr ([], ba)"
| "read_fields (f # fs) ba =
     rbind (read_field f ba) (\<lambda>(v, ba'). rbind (read_fields fs ba') (\<lambda>(vs, ba''). Inr (v # vs, ba'')))"

fun field_bytes :: "byte_order \<Rightarrow> field \<Rightarrow> u8 list" where
  "field_bytes e (Fint8 v) = [v]"
| "field_bytes e (Fuint8 v) = [v]"
| "field_bytes e (Fint16 v) = wire_bytes e v"
| "field_bytes e (Fuint16 v) = wire_bytes e v"
| "field_bytes e (Fint32 v) = wire_bytes e v"
| "field_bytes e (Fuint32 v) = wire_bytes e v"
| "field_bytes e (Fint64 v) = wire_bytes e v"
| "field_bytes e (Fuint64 v) = wire_bytes e v"
| "field_bytes e (Int32 v) = varint_tmp (EncodeZigzag32 v)"
| "field_bytes e (Uint32 v) = varint_tmp v"
| "field_bytes e (Int64 v) = varint_tmp (EncodeZigzag64 v)"
| "field_bytes e (Uint64 v) = varint_tmp v"
| "field_bytes e (FloatBits v) = wire_bytes e v"
| "field_bytes e (DoubleBits v) = wire_bytes e v"
| "field_bytes e (StringF16 v) = wire_bytes e (of_nat (length v) :: u16) @ v"
| "field_bytes e (StringF32 v) = wire_bytes e (of_nat (length v) :: u32) @ v"
| "field_bytes e (StringF64 v) = wire_bytes e (of_nat (length v) :: u64) @ v"
| "field_bytes e (StringVint v) = varint_tmp (of_nat (length v) :: u64) @ v"

text \<open>A string's length must fit its prefix, and the readers of strings need a byte to read.\<close>

fun field_ok :: "field \<Rightarrow> bool" where
  "field_ok (StringF16 v) \<longleftrightarrow> v \<noteq> [] \<and> length v < 2 ^ 16"
| "field_ok (StringF32 v) \<longleftrightarrow> v \<noteq> [] \<and> length v < 2 ^ 32"
| "field_ok (StringF64 v) \<longleftrightarrow> v \<noteq> [] \<and> length v < 2 ^ 64"
| "field_ok (StringVint v) \<longleftrightarrow> v \<noteq> [] \<and> length v < 2 ^ 64"
| "field_ok _ \<longleftrightarrow> True"

lemmas writer_defs [hps_defs] =
  writeFint8_def writeFuint8_def writeFint16_def writeFuint16_def writeFint32_def writeFuint32_def
  writeFint64_def writeFuint64_def writeUint32_def writeInt32_def writeUint64_def writeInt64_def
  writeFloat_def writeDouble_def writeStringF16_def writeStringF32_def writeStringF64_def
  writeStringVint_def

lemmas reader_defs [hps_defs] =
  readFint8_def readFint16_def readFuint16_def readFint32_def readFuint32_def
  readFint64_def readFuint64_def readUint32_def readInt32_def readUint64_def readInt64_def
  readFloat_def readDouble_def readStringF16_def readStringF32_def readStringF64_def readStringVint_def

lemma ba_write_endian: "ba_write ba bs = Inr ba' \<Longrightarrow> m_endian ba' = m_endian ba"
  by (auto simp: ba_write_def addCapacity_def Let_def rbind_eq_Inr_iff split: if_splits option.splits)

lemma setPosition_endian: "setPosition ba p = Inr ba' \<Longrightarrow> m_endian ba' = m_endian ba"
  by (auto simp: setPosition_def Let_def rbind_eq_Inr_iff split: if_splits option.splits)

lemma ba_write_append:
  assumes "ba_inv ba"
  shows "\<exists>ba'. rbind (ba_write ba xs) (\<lambda>b. ba_write b ys) = Inr ba' \<and> ba_inv ba' \<and> m_endian ba' = m_endian ba
    \<and> m_position ba' = m_position ba + length (xs @ ys)
    \<and> ba_data ba' = overwrite (ba_data ba) (m_position ba) (xs @ ys)"
proof -
  obtain s1 where s1: "ba_write ba xs = Inr s1" using ba.put_ok [OF assms] by blast
  obtain s2 where s2: "ba_write s1 ys = Inr s2" "ba_inv s2" "m_position s2 = m_position ba + length (xs @ ys)"
    "ba_data s2 = overwrite (ba_data ba) (m_position ba) (xs @ ys)"
    using ba.put_put [OF assms s1, of ys] by blast
  then show ?thesis using s1 ba_write_endian [OF s1] ba_write_endian [OF s2(1)] by simp
qed

lemma ba_write_one:
  assumes "ba_inv ba"
  shows "\<exists>ba'. ba_write ba xs = Inr ba' \<and> ba_inv ba' \<and> m_endian ba' = m_endian ba
    \<and> m_position ba' = m_position ba + length xs
    \<and> ba_data ba' = overwrite (ba_data ba) (m_position ba) xs"
  using ba.put_ok [OF assms, of xs] ba_write_endian by blast

lemma bytes_of_u8: "bytes_of (v :: u8) = [v]"
  by (simp add: bytes_of_def)

lemma write_field_ok:
  assumes "ba_inv ba"
  shows "\<exists>ba'. write_field ba f = Inr ba' \<and> ba_inv ba' \<and> m_endian ba' = m_endian ba
    \<and> m_position ba' = m_position ba + length (field_bytes (m_endian ba) f)
    \<and> ba_data ba' = overwrite (ba_data ba) (m_position ba) (field_bytes (m_endian ba) f)"
  using ba_write_append [OF assms] ba_write_one [OF assms]
  by (cases f) (simp_all only: write_field.simps field_bytes.simps writer_defs write_fixed_wire bytes_of_u8)


text \<open>\<open>loads rd e v bs\<close>: on a buffer of byte order \<open>e\<close> whose cursor stands on \<open>bs\<close>, the reader \<open>rd\<close>
  returns \<open>v\<close> and leaves the cursor behind \<open>bs\<close>. Readers compose by concatenating what they consume.\<close>

definition loads :: "(bytearray \<Rightarrow> (ba_error, 'v \<times> bytearray) result) \<Rightarrow> byte_order \<Rightarrow> 'v \<Rightarrow> u8 list \<Rightarrow> bool" where
  "loads rd e v bs \<longleftrightarrow> (\<forall>s ys rest. m_endian s = e \<longrightarrow> ba.holds s (bs @ ys) rest \<longrightarrow>
     (\<exists>s'. rd s = Inr (v, s') \<and> ba.holds s' ys rest \<and> m_endian s' = e \<and> m_position s' = m_position s + length bs))"

lemma loadsI:
  assumes "\<And>s ys rest. m_endian s = e \<Longrightarrow> ba.holds s (bs @ ys) rest \<Longrightarrow>
     \<exists>s'. rd s = Inr (v, s') \<and> ba.holds s' ys rest \<and> m_endian s' = e \<and> m_position s' = m_position s + length bs"
  shows "loads rd e v bs"
  using assms by (simp add: loads_def)

lemma loadsE:
  assumes "loads rd e v bs" "m_endian s = e" "ba.holds s (bs @ ys) rest"
  obtains s' where "rd s = Inr (v, s')" "ba.holds s' ys rest" "m_endian s' = e" "m_position s' = m_position s + length bs"
  using assms unfolding loads_def by blast

lemma loads_bind:
  assumes "loads rd e v bs" "loads (k v) e w cs"
  shows "loads (\<lambda>s. rbind (rd s) (\<lambda>(v, s'). k v s')) e w (bs @ cs)"
proof (rule loadsI)
  fix s ys rest
  assume "m_endian s = e" "ba.holds s ((bs @ cs) @ ys) rest"
  then obtain s1 where s1: "rd s = Inr (v, s1)" "ba.holds s1 (cs @ ys) rest" "m_endian s1 = e"
    "m_position s1 = m_position s + length bs"
    using assms(1) by (auto elim: loadsE)
  obtain s2 where "k v s1 = Inr (w, s2)" "ba.holds s2 ys rest" "m_endian s2 = e" "m_position s2 = m_position s1 + length cs"
    using assms(2) s1(3,2) by (rule loadsE)
  with s1 show "\<exists>s'. rbind (rd s) (\<lambda>(v, s'). k v s') = Inr (w, s') \<and> ba.holds s' ys rest \<and> m_endian s' = e
    \<and> m_position s' = m_position s + length (bs @ cs)"
    by auto
qed

lemma loads_return: "loads (\<lambda>s. Inr (v, s)) e v []"
  by (rule loadsI) auto

lemma loads_map:
  assumes "loads rd e v bs"
  shows "loads (\<lambda>s. rbind (rd s) (\<lambda>(v, s'). Inr (f v, s'))) e (f v) bs"
  using loads_bind [OF assms, of "\<lambda>v s. Inr (f v, s)", OF loads_return] by simp

lemma loads_bytes: "xs \<noteq> [] \<Longrightarrow> n = length xs \<Longrightarrow> loads (\<lambda>s. ba_read s n) e xs xs"
  by (rule loadsI) (metis ba.holds_get ba_read_endian)

lemma loads_string:
  assumes "loads rd e v bs" "xs \<noteq> []" "unat v = length xs"
  shows "loads (\<lambda>s. rbind (rd s) (\<lambda>(len, s'). ba_read s' (unat len))) e xs (bs @ xs)"
  using loads_bind [OF assms(1), of "\<lambda>v s. ba_read s (unat v)", OF loads_bytes [OF assms(2,3)]] by simp

lemma loads_byte: "loads readFuint8 e v [v]" "loads readFint8 e v [v]"
  using loads_map [OF loads_bytes [of "[v]" 1 e], of "word_of_bytes :: u8 list \<Rightarrow> u8"] by (simp_all add: loads_def readFuint8_def readFint8_def)

lemma loads_fixed: "8 dvd LENGTH('a) \<Longrightarrow> loads read_fixed e w (wire_bytes e (w :: 'a::len word))"
proof (rule loadsI)
  fix s ys rest
  assume a: "8 dvd LENGTH('a)" "m_endian s = e" "ba.holds s (wire_bytes e w @ ys) rest"
  then obtain s' where s': "read_fixed s = Inr (w, s')" "ba.holds s' ys rest" "m_position s' = m_position s + LENGTH('a) div 8"
    using read_fixed_holds [of s w ys rest] by blast
  have "m_endian s' = m_endian s"
    using s'(1) by (auto simp: read_fixed_def Let_def rbind_eq_Inr_iff dest: ba_read_endian)
  with a s' show "\<exists>s'. read_fixed s = Inr (w, s') \<and> ba.holds s' ys rest \<and> m_endian s' = e
      \<and> m_position s' = m_position s + length (wire_bytes e w)"
    by auto
qed

lemma varint_loop_endian: "varint_loop ba i r = Inr (v, ba') \<Longrightarrow> m_endian ba' = m_endian ba"
proof (induction ba i r rule: varint_loop.induct)
  case (1 ba i r)
  then show ?case
    using "1.prems" varint_loop.simps [of ba i r]
    by (force simp: rbind_eq_Inr_iff readFuint8_def dest: ba_read_endian split: if_splits)
qed

lemma loads_varint: "8 \<le> LENGTH('a) \<Longrightarrow> loads (\<lambda>s. varint_loop s 0 0) e (w :: 'a::len word) (varint_tmp w)"
proof (rule loadsI)
  fix s ys rest
  assume a: "8 \<le> LENGTH('a)" "m_endian s = e" "ba.holds s (varint_tmp w @ ys) rest"
  then obtain s' where "varint_loop s 0 0 = Inr (w, s')" "ba.holds s' ys rest"
    "m_position s' = m_position s + length (varint_tmp w)"
    using varint_loop_holds [of s w ys rest 0 0] unsigned_less [of w] by auto
  with a show "\<exists>s'. varint_loop s 0 0 = Inr (w, s') \<and> ba.holds s' ys rest \<and> m_endian s' = e
      \<and> m_position s' = m_position s + length (varint_tmp w)"
    by (auto dest: varint_loop_endian)
qed

lemma loads_typed:
  "loads readFint16 e v16 (wire_bytes e v16)" "loads readFuint16 e v16 (wire_bytes e v16)"
  "loads readFint32 e v32 (wire_bytes e v32)" "loads readFuint32 e v32 (wire_bytes e v32)"
  "loads readFint64 e v64 (wire_bytes e v64)" "loads readFuint64 e v64 (wire_bytes e v64)"
  "loads readFloat e v32 (wire_bytes e v32)" "loads readDouble e v64 (wire_bytes e v64)"
  "loads readUint32 e v32 (varint_tmp v32)" "loads readUint64 e v64 (varint_tmp v64)"
  using loads_fixed [of e v16] loads_fixed [of e v32] loads_fixed [of e v64]
    loads_varint [of e v32] loads_varint [of e v64]
  by (simp_all add: loads_def reader_defs)

lemma loads_zigzag:
  "loads readInt32 e v32 (varint_tmp (EncodeZigzag32 v32))" "loads readInt64 e v64 (varint_tmp (EncodeZigzag64 v64))"
  using loads_map [OF loads_typed(9) [of e "EncodeZigzag32 v32"], of DecodeZigzag32]
    loads_map [OF loads_typed(10) [of e "EncodeZigzag64 v64"], of DecodeZigzag64]
  by (simp_all add: loads_def readInt32_def readInt64_def EncodeZigzag32_def DecodeZigzag32_def
    EncodeZigzag64_def DecodeZigzag64_def unzigzag_zigzag)

lemma unat_length: "length xs < 2 ^ LENGTH('a) \<Longrightarrow> unat (of_nat (length xs) :: 'a::len word) = length xs"
  by (simp add: unsigned_of_nat take_bit_nat_eq_self)

lemma loads_strings:
  assumes "v \<noteq> []"
  shows "length v < 2 ^ 16 \<Longrightarrow> loads readStringF16 e v (wire_bytes e (of_nat (length v) :: u16) @ v)"
    "length v < 2 ^ 32 \<Longrightarrow> loads readStringF32 e v (wire_bytes e (of_nat (length v) :: u32) @ v)"
    "length v < 2 ^ 64 \<Longrightarrow> loads readStringF64 e v (wire_bytes e (of_nat (length v) :: u64) @ v)"
    "length v < 2 ^ 64 \<Longrightarrow> loads readStringVint e v (varint_tmp (of_nat (length v) :: u64) @ v)"
proof -
  have eta: "readStringF16 = (\<lambda>s. rbind (readFuint16 s) (\<lambda>(len, s'). ba_read s' (unat len)))"
    "readStringF32 = (\<lambda>s. rbind (readFuint32 s) (\<lambda>(len, s'). ba_read s' (unat len)))"
    "readStringF64 = (\<lambda>s. rbind (readFuint64 s) (\<lambda>(len, s'). ba_read s' (unat len)))"
    "readStringVint = (\<lambda>s. rbind (readUint64 s) (\<lambda>(len, s'). ba_read s' (unat len)))"
    by (simp_all add: fun_eq_iff readStringF16_def readStringF32_def readStringF64_def readStringVint_def)
  show "loads readStringF16 e v (wire_bytes e (of_nat (length v) :: u16) @ v)" if "length v < 2 ^ 16"
    unfolding eta by (rule loads_string [OF loads_typed(2) assms]) (use that in \<open>simp add: unat_length\<close>)
  show "loads readStringF32 e v (wire_bytes e (of_nat (length v) :: u32) @ v)" if "length v < 2 ^ 32"
    unfolding eta by (rule loads_string [OF loads_typed(4) assms]) (use that in \<open>simp add: unat_length\<close>)
  show "loads readStringF64 e v (wire_bytes e (of_nat (length v) :: u64) @ v)" if "length v < 2 ^ 64"
    unfolding eta by (rule loads_string [OF loads_typed(6) assms]) (use that in \<open>simp add: unat_length\<close>)
  show "loads readStringVint e v (varint_tmp (of_nat (length v) :: u64) @ v)" if "length v < 2 ^ 64"
    unfolding eta by (rule loads_string [OF loads_typed(10) assms]) (use that in \<open>simp add: unat_length\<close>)
qed

lemma loads_field: "field_ok f \<Longrightarrow> loads (read_field f) e f (field_bytes e f)"
  by (cases f) (auto simp: read_field.simps [abs_def]
    intro!: loads_map loads_byte loads_typed loads_zigzag loads_strings)

lemma loads_fields: "\<forall>f \<in> set fs. field_ok f \<Longrightarrow> loads (read_fields fs) e fs (concat (map (field_bytes e) fs))"
proof (induction fs)
  case Nil
  then show ?case using loads_return [of "[]" e] by (simp add: loads_def)
next
  case (Cons f fs)
  then have "loads (\<lambda>s. rbind (read_fields fs s) (\<lambda>(vs, s'). Inr (f # vs, s'))) e (f # fs) (concat (map (field_bytes e) fs))"
    by (intro loads_map) simp
  from loads_bind [OF loads_field [of f e], of "\<lambda>v s. rbind (read_fields fs s) (\<lambda>(vs, s'). Inr (v # vs, s'))", OF _ this] Cons.prems
  show ?case by (simp add: loads_def)
qed

lemma write_fields_ok:
  "ba_inv ba \<Longrightarrow> \<exists>ba'. write_fields ba fs = Inr ba' \<and> ba_inv ba' \<and> m_endian ba' = m_endian ba
    \<and> m_position ba' = m_position ba + length (concat (map (field_bytes (m_endian ba)) fs))
    \<and> ba_data ba' = overwrite (ba_data ba) (m_position ba) (concat (map (field_bytes (m_endian ba)) fs))"
proof (induction fs arbitrary: ba)
  case Nil
  then show ?case using ba.in_range [OF Nil] by (simp add: overwrite_def)
next
  case (Cons f fs)
  obtain s1 where s1: "write_field ba f = Inr s1" "ba_inv s1" "m_endian s1 = m_endian ba"
    "m_position s1 = m_position ba + length (field_bytes (m_endian ba) f)"
    "ba_data s1 = overwrite (ba_data ba) (m_position ba) (field_bytes (m_endian ba) f)"
    using write_field_ok [OF Cons.prems] by blast
  then show ?case
    using Cons.IH [OF s1(2)] overwrite_append [OF ba.in_range [OF Cons.prems]] by (auto simp: add.assoc)
qed


section \<open>Properties\<close>





text \<open>A varint takes between one and five bytes for a 32-bit value and between one and ten bytes for
  a 64-bit value, so it fits the array \<open>tmp\<close> the writers collect it in.\<close>

theorem varint_tmp_fits:
  "1 \<le> length (varint_tmp (v :: u32)) \<and> length (varint_tmp v) \<le> 5
   \<and> 1 \<le> length (varint_tmp (w :: u64)) \<and> length (varint_tmp w) \<le> 10"
proof -
  have "unat v < 2 ^ (7 * 5)" using unsigned_less [where 'a = nat, of v] by simp
  moreover have "unat w < 2 ^ (7 * 10)" using unsigned_less [where 'a = nat, of w] by simp
  ultimately show ?thesis 
    using length_varint_tmp [of v 5] length_varint_tmp [of w 10] varint_tmp_pos [of v] varint_tmp_pos [of w] by simp
qed

end
