(* ===== verification/FdManager.thy ===== *)
theory FdManager
  imports Prelude
begin

unbundle bit_operations_syntax

text \<open>
  The table of file descriptors behind the system call hooks (\<open>src/fd_manager.h\<close>,
  \<open>src/fd_manager.cc\<close>). The table owns one context per descriptor, so a null pointer in m_datas is \<open>None\<close>
  and an update through the pointer the table hands out is an update of the entry. The kernel is a
  parameter: \<open>sys\<close> collects the system calls the code makes on an abstract kernel state.
\<close>

section \<open>System calls\<close>

text \<open>The commands of fcntl the hook distinguishes; any other one is \<open>F_OTHER\<close> with its number.\<close>

datatype fcntl_cmd = F_SETFL | F_GETFL | F_DUPFD | F_DUPFD_CLOEXEC | F_SETFD | F_SETOWN | F_SETSIG | F_SETLEASE
  | F_NOTIFY | F_SETPIPE_SZ | F_GETFD | F_GETOWN | F_GETSIG | F_GETLEASE | F_GETPIPE_SZ
  | F_SETLK | F_SETLKW | F_GETLK | F_GETOWN_EX | F_SETOWN_EX | F_OTHER int

abbreviation O_NONBLOCK :: i32 where "O_NONBLOCK \<equiv> 0x800"

text \<open>
  \<open>sys_fstat\<close> is \<open>None\<close> when fstat fails and otherwise tells whether the descriptor is a socket; the last
  argument of \<open>sys_fcntl\<close> is \<open>None\<close> when the call passes no argument.
\<close>

record 'k sys =
  sys_fstat :: "int \<Rightarrow> 'k \<Rightarrow> bool option"
  sys_fcntl :: "int \<Rightarrow> fcntl_cmd \<Rightarrow> i32 option \<Rightarrow> 'k \<Rightarrow> i32 \<times> 'k"
  sys_fionbio :: "int \<Rightarrow> bool \<Rightarrow> 'k \<Rightarrow> i32 \<times> 'k"
  sys_setsockopt :: "int \<Rightarrow> int \<Rightarrow> int \<Rightarrow> 'k \<Rightarrow> i32 \<times> 'k"
  sys_socket :: "'k \<Rightarrow> int \<times> 'k"
  sys_close :: "int \<Rightarrow> 'k \<Rightarrow> i32 \<times> 'k"

section \<open>State\<close>

abbreviation SO_RCVTIMEO :: int where "SO_RCVTIMEO \<equiv> 20"
abbreviation SO_SNDTIMEO :: int where "SO_SNDTIMEO \<equiv> 21"

record fd_ctx =
  m_isInit :: bool
  m_isSocket :: bool
  m_sysNonblock :: bool
  m_userNonblock :: bool
  m_isClosed :: bool
  m_fd :: int
  m_recvTimeout :: u64
  m_sendTimeout :: u64

type_synonym fd_manager = "fd_ctx option list"

datatype fd_error = FdBadIndex

section \<open>Operations\<close>

definition FdCtx_init :: "'k sys \<Rightarrow> fd_ctx \<Rightarrow> 'k \<Rightarrow> bool \<times> fd_ctx \<times> 'k" where
  "FdCtx_init sys c k =
     (if m_isInit c then (True, c, k)
      else let c1 = c\<lparr>m_recvTimeout := - 1, m_sendTimeout := - 1\<rparr>;
               c2 = (case sys_fstat sys (m_fd c1) k of
                       None \<Rightarrow> c1\<lparr>m_isInit := False, m_isSocket := False\<rparr>
                     | Some is_sock \<Rightarrow> c1\<lparr>m_isInit := True, m_isSocket := is_sock\<rparr>);
               (c3, k3) =
                 (if m_isSocket c2 then
                    let (flags, k1) = sys_fcntl sys (m_fd c2) F_GETFL (Some 0) k;
                        k2 = (if flags AND O_NONBLOCK = 0
                              then snd (sys_fcntl sys (m_fd c2) F_SETFL (Some (flags OR O_NONBLOCK)) k1) else k1)
                    in (c2\<lparr>m_sysNonblock := True\<rparr>, k2)
                  else (c2\<lparr>m_sysNonblock := False\<rparr>, k))
           in (m_isInit c3, c3\<lparr>m_userNonblock := False, m_isClosed := False\<rparr>, k3))"

definition FdCtx :: "'k sys \<Rightarrow> int \<Rightarrow> 'k \<Rightarrow> fd_ctx \<times> 'k" where
  "FdCtx sys fd k =
     snd (FdCtx_init sys \<lparr>m_isInit = False, m_isSocket = False, m_sysNonblock = False, m_userNonblock = False,
                          m_isClosed = False, m_fd = fd, m_recvTimeout = - 1, m_sendTimeout = - 1\<rparr> k)"

definition setTimeout :: "int \<Rightarrow> u64 \<Rightarrow> fd_ctx \<Rightarrow> fd_ctx" where
  "setTimeout type v c = (if type = SO_RCVTIMEO then c\<lparr>m_recvTimeout := v\<rparr> else c\<lparr>m_sendTimeout := v\<rparr>)"

definition getTimeout :: "int \<Rightarrow> fd_ctx \<Rightarrow> u64" where
  "getTimeout type c = (if type = SO_RCVTIMEO then m_recvTimeout c else m_sendTimeout c)"

definition FdManager :: fd_manager where
  "FdManager = replicate 64 None"

text \<open>std::vector::resize, which also shrinks.\<close>

definition fd_resize :: "nat \<Rightarrow> fd_manager \<Rightarrow> fd_manager" where
  "fd_resize n fds = take n fds @ replicate (n - length fds) None"

text \<open>The part of get under the write lock.\<close>

definition fd_create :: "'k sys \<Rightarrow> int \<Rightarrow> fd_manager \<Rightarrow> 'k \<Rightarrow> (fd_error, fd_ctx option \<times> fd_manager \<times> 'k) result" where
  "fd_create sys fd fds k =
     (let (ctx, k1) = FdCtx sys fd k;
          fds1 = (if fd \<ge> int (length fds) then fd_resize (nat (fd * 3 div 2)) fds else fds)
      in if fd < 0 \<or> nat fd \<ge> length fds1 then Inl FdBadIndex
         else Inr (Some ctx, fds1[nat fd := Some ctx], k1))"

definition get_fd :: "'k sys \<Rightarrow> int \<Rightarrow> bool \<Rightarrow> fd_manager \<Rightarrow> 'k \<Rightarrow> (fd_error, fd_ctx option \<times> fd_manager \<times> 'k) result" where
  "get_fd sys fd auto_create fds k =
     (if fd = - 1 then Inr (None, fds, k)
      else if int (length fds) \<le> fd then
        (if \<not> auto_create then Inr (None, fds, k) else fd_create sys fd fds k)
      else if fd < 0 then Inl FdBadIndex
      else if fds ! nat fd \<noteq> None \<or> \<not> auto_create then Inr (fds ! nat fd, fds, k)
      else fd_create sys fd fds k)"

definition del_fd :: "int \<Rightarrow> fd_manager \<Rightarrow> (fd_error, fd_manager) result" where
  "del_fd fd fds =
     (if int (length fds) \<le> fd then Inr fds
      else if fd < 0 then Inl FdBadIndex
      else Inr (fds[nat fd := None]))"

section \<open>Laws\<close>

text \<open>
  What the manual page promises about the file status flags: \<open>nonblock k fd\<close> reads the O_NONBLOCK bit of
  the open description. F_SETFL on a socket succeeds and sets the bit as the argument has it, F_GETFL
  changes nothing and returns the bit, FIONBIO sets it, and no other call of the hooks touches it.
\<close>

definition flags_law :: "'k sys \<Rightarrow> ('k \<Rightarrow> int \<Rightarrow> bool) \<Rightarrow> bool" where
  "flags_law sys nonblock \<longleftrightarrow>
     (\<forall>fd arg k. fst (sys_fcntl sys fd F_GETFL arg k) AND O_NONBLOCK = (if nonblock k fd then O_NONBLOCK else 0)
        \<and> nonblock (snd (sys_fcntl sys fd F_GETFL arg k)) = nonblock k)
     \<and> (\<forall>fd arg k. nonblock (snd (sys_fcntl sys fd F_SETFL (Some arg) k)) = (nonblock k)(fd := (arg AND O_NONBLOCK \<noteq> 0)))
     \<and> (\<forall>fd b k. nonblock (snd (sys_fionbio sys fd b k)) = (nonblock k)(fd := b))
     \<and> (\<forall>fd lvl opt k. nonblock (snd (sys_setsockopt sys fd lvl opt k)) = nonblock k)
     \<and> (\<forall>fd k fd'. fd' \<noteq> fd \<longrightarrow> nonblock (snd (sys_close sys fd k)) fd' = nonblock k fd')
     \<and> (\<forall>k fd'. fd' \<noteq> fst (sys_socket sys k) \<longrightarrow> nonblock (snd (sys_socket sys k)) fd' = nonblock k fd')"

text \<open>
  The table invariant: entry \<open>i\<close> is the context of descriptor \<open>i\<close>, it is not marked closed, and the
  system-nonblocking mark is set exactly for sockets.
\<close>

definition fd_ctx_ok :: "int \<Rightarrow> fd_ctx \<Rightarrow> bool" where
  "fd_ctx_ok fd c \<longleftrightarrow> m_fd c = fd \<and> \<not> m_isClosed c \<and> m_sysNonblock c = m_isSocket c"

definition fd_inv :: "fd_manager \<Rightarrow> bool" where
  "fd_inv fds \<longleftrightarrow> 64 \<le> length fds \<and> (\<forall>i < length fds. \<forall>c. fds ! i = Some c \<longrightarrow> fd_ctx_ok (int i) c)"

text \<open>Every socket of the table is nonblocking in the kernel.\<close>

definition sockets_nonblock :: "('k \<Rightarrow> int \<Rightarrow> bool) \<Rightarrow> fd_manager \<Rightarrow> 'k \<Rightarrow> bool" where
  "sockets_nonblock nonblock fds k \<longleftrightarrow>
     (\<forall>i < length fds. \<forall>c. fds ! i = Some c \<longrightarrow> m_isSocket c \<longrightarrow> nonblock k (int i))"

definition fd_lookup :: "int \<Rightarrow> fd_manager \<Rightarrow> fd_ctx option" where
  "fd_lookup fd fds = (if 0 \<le> fd \<and> nat fd < length fds then fds ! nat fd else None)"

lemma nonblock_or: "(x OR O_NONBLOCK) AND O_NONBLOCK \<noteq> 0" for x :: i32
  using bit_and_iff [of "x OR O_NONBLOCK" O_NONBLOCK 11] by (auto simp: bit_or_iff)

lemma FdCtx_ok:
  assumes "flags_law sys nonblock" "FdCtx sys fd k = (c, k')"
  shows "fd_ctx_ok fd c" "m_isSocket c \<longleftrightarrow> sys_fstat sys fd k = Some True" "m_userNonblock c = False"
    "m_recvTimeout c = - 1" "m_sendTimeout c = - 1"
    "m_isSocket c \<Longrightarrow> nonblock k' fd" "fd' \<noteq> fd \<Longrightarrow> nonblock k' fd' = nonblock k fd'"
proof -
  note law = assms(1) [unfolded flags_law_def]
  show "fd_ctx_ok fd c" "m_isSocket c \<longleftrightarrow> sys_fstat sys fd k = Some True" "m_userNonblock c = False"
    "m_recvTimeout c = - 1" "m_sendTimeout c = - 1"
    using assms(2) by (auto simp: FdCtx_def FdCtx_init_def fd_ctx_ok_def Let_def split: option.splits prod.splits if_splits)
  obtain flags k1 where g: "sys_fcntl sys fd F_GETFL (Some 0) k = (flags, k1)" by fastforce
  have n: "flags AND O_NONBLOCK = (if nonblock k fd then O_NONBLOCK else 0)" "nonblock k1 = nonblock k"
    using law g by (metis fst_conv, metis snd_conv)
  have s: "nonblock (snd (sys_fcntl sys fd F_SETFL (Some (flags OR O_NONBLOCK)) k1)) = (nonblock k)(fd := True)"
    using law n(2) nonblock_or [of flags] by simp
  show "nonblock k' fd" if "m_isSocket c"
    using that assms(2) n s by (auto simp: FdCtx_def FdCtx_init_def g Let_def split: option.splits if_splits prod.splits)
  show "nonblock k' fd' = nonblock k fd'" if "fd' \<noteq> fd"
    using that assms(2) n s by (auto simp: FdCtx_def FdCtx_init_def g Let_def split: option.splits if_splits prod.splits)
qed

lemma fd_inv_FdManager: "fd_inv FdManager" "sockets_nonblock nonblock FdManager k"
  by (simp_all add: fd_inv_def FdManager_def sockets_nonblock_def)

lemma length_fd_resize: "length fds \<le> n \<Longrightarrow> length (fd_resize n fds) = n"
  by (simp add: fd_resize_def)

lemma fd_resize_nth: "length fds \<le> n \<Longrightarrow> i < n \<Longrightarrow> fd_resize n fds ! i = (if i < length fds then fds ! i else None)"
  by (simp add: fd_resize_def nth_append)

lemma fd_lookup_iff: "fd_lookup fd fds = Some c \<longleftrightarrow> 0 \<le> fd \<and> nat fd < length fds \<and> fds ! nat fd = Some c"
  by (auto simp: fd_lookup_def)

lemma fd_inv_lookup: "fd_inv fds \<Longrightarrow> fd_lookup fd fds = Some c \<Longrightarrow> fd_ctx_ok fd c"
  by (auto simp: fd_inv_def fd_lookup_iff)

lemma sockets_nonblock_lookup:
  "sockets_nonblock nonblock fds k \<longleftrightarrow> (\<forall>fd c. fd_lookup fd fds = Some c \<longrightarrow> m_isSocket c \<longrightarrow> nonblock k fd)"
  unfolding sockets_nonblock_def fd_lookup_iff by (metis int_nat_eq nat_int of_nat_0_le_iff)

lemma fd_inv_set:
  assumes "fd_inv fds" "0 \<le> fd" "\<And>c. x = Some c \<Longrightarrow> fd_ctx_ok fd c"
  shows "fd_inv (fds[nat fd := x])"
proof -
  have "fd_ctx_ok (int i) c" if "i < length fds" "fds[nat fd := x] ! i = Some c" for i c
    using assms that by (cases "nat fd = i") (auto simp: fd_inv_def)
  then show ?thesis using assms(1) by (simp add: fd_inv_def)
qed

lemma fd_lookup_set:
  "0 \<le> fd \<Longrightarrow> nat fd < length fds \<Longrightarrow> fd_lookup fd' (fds[nat fd := x]) = (if fd' = fd then x else fd_lookup fd' fds)"
  by (auto simp: fd_lookup_def nth_list_update eq_nat_nat_iff)

text \<open>get hands out the context of the table and creates one only where asked to.\<close>

lemma get_fd_plain:
  assumes "- 1 \<le> fd"
  shows "get_fd sys fd False fds k = Inr (fd_lookup fd fds, fds, k)"
  using assms by (auto simp: get_fd_def fd_lookup_def)

lemma grow_enough: "64 \<le> length fds \<Longrightarrow> int (length fds) \<le> fd \<Longrightarrow> nat fd < nat (fd * 3 div 2)"
  by linarith

lemma fd_create_ok:
  assumes "fd_inv fds" "0 \<le> fd" "flags_law sys nonblock" "fd_lookup fd fds = None"
  shows "\<exists>c fds' k'. fd_create sys fd fds k = Inr (Some c, fds', k') \<and> fd_inv fds' \<and> fd_ctx_ok fd c
    \<and> (m_isSocket c \<longrightarrow> nonblock k' fd) \<and> (\<forall>fd'. fd' \<noteq> fd \<longrightarrow> nonblock k' fd' = nonblock k fd')
    \<and> (\<forall>fd'. fd_lookup fd' fds' = (if fd' = fd then Some c else fd_lookup fd' fds))
    \<and> (m_isSocket c \<longleftrightarrow> sys_fstat sys fd k = Some True) \<and> \<not> m_userNonblock c
    \<and> m_recvTimeout c = - 1 \<and> m_sendTimeout c = - 1"
proof -
  obtain c k' where c: "FdCtx sys fd k = (c, k')" by fastforce
  define fds1 where "fds1 = (if fd \<ge> int (length fds) then fd_resize (nat (fd * 3 div 2)) fds else fds)"
  have inv: "fd_inv fds1 \<and> nat fd < length fds1 \<and> (\<forall>fd'. fd_lookup fd' fds1 = fd_lookup fd' fds)"
  proof (cases "int (length fds) \<le> fd")
    case True
    have g: "nat fd < nat (fd * 3 div 2)" using assms(1) True by (intro grow_enough [of fds]) (auto simp: fd_inv_def)
    then have len: "length fds \<le> nat (fd * 3 div 2)" using True by linarith
    have f: "fds1 = fd_resize (nat (fd * 3 div 2)) fds" using True by (simp add: fds1_def)
    have "fd_inv fds1" using assms(1) len by (auto simp: f fd_inv_def fd_resize_nth length_fd_resize split: if_splits)
    moreover have "fd_lookup fd' fds1 = fd_lookup fd' fds" for fd'
      using len by (auto simp: f fd_lookup_def fd_resize_nth length_fd_resize)
    ultimately show ?thesis using g len by (simp add: f length_fd_resize)
  qed (use assms(1,2) in \<open>auto simp: fds1_def\<close>)
  have "fd_create sys fd fds k = Inr (Some c, fds1[nat fd := Some c], k')"
    using c inv assms(2) by (simp add: fd_create_def Let_def fds1_def)
  moreover have "fd_inv (fds1[nat fd := Some c])"
    by (rule fd_inv_set) (use inv FdCtx_ok(1) [OF assms(3) c] assms(2) in auto)
  ultimately show ?thesis
    using inv FdCtx_ok [OF assms(3) c] assms(2) by (auto simp: fd_lookup_set)
qed

lemma get_fd_create:
  assumes "fd_inv fds" "sockets_nonblock nonblock fds k" "0 \<le> fd" "flags_law sys nonblock"
  shows "\<exists>c fds' k'. get_fd sys fd True fds k = Inr (Some c, fds', k') \<and> fd_inv fds' \<and> sockets_nonblock nonblock fds' k'
    \<and> (\<forall>fd'. fd_lookup fd' fds' = (if fd' = fd then Some c else fd_lookup fd' fds))
    \<and> (fd_lookup fd fds \<noteq> None \<longrightarrow> fd_lookup fd fds = Some c)
    \<and> (fd_lookup fd fds = None \<longrightarrow> (m_isSocket c \<longleftrightarrow> sys_fstat sys fd k = Some True))"
proof (cases "fd_lookup fd fds")
  case None
  then have "get_fd sys fd True fds k = fd_create sys fd fds k"
    using assms(3) by (auto simp: get_fd_def fd_lookup_def split: if_splits)
  then show ?thesis using fd_create_ok [OF assms(1,3,4) None, of k] assms(2) None
    by (fastforce simp: sockets_nonblock_lookup split: if_splits)
next
  case (Some c)
  then have "get_fd sys fd True fds k = Inr (Some c, fds, k)"
    by (auto simp: get_fd_def fd_lookup_iff)
  then show ?thesis using Some assms(1,2) by auto
qed

lemma del_fd_ok:
  assumes "fd_inv fds" "0 \<le> fd"
  shows "\<exists>fds'. del_fd fd fds = Inr fds' \<and> fd_inv fds' \<and> (\<forall>fd'. fd_lookup fd' fds' = (if fd' = fd then None else fd_lookup fd' fds))"
proof (cases "int (length fds) \<le> fd")
  case True
  then show ?thesis using assms by (auto simp: del_fd_def fd_lookup_def)
next
  case False
  moreover have "fd_inv (fds[nat fd := None])" by (rule fd_inv_set [OF assms]) simp
  ultimately show ?thesis using assms(2) by (auto simp: del_fd_def fd_lookup_set)
qed

lemma timeout_roundtrip:
  assumes "type \<in> {SO_RCVTIMEO, SO_SNDTIMEO}" "type' \<in> {SO_RCVTIMEO, SO_SNDTIMEO}"
  shows "getTimeout type' (setTimeout type v c) = (if type' = type then v else getTimeout type' c)"
  using assms by (auto simp: getTimeout_def setTimeout_def)

end
