(* ===== verification/Fiber.thy ===== *)
theory Fiber
  imports Prelude
begin

text \<open>
  Fibers (\<open>src/fiber.h\<close>, \<open>src/fiber.cc\<close>). Fiber objects live in a store; the thread-local variables of
  \<open>fiber.cc\<close> and \<open>scheduler.cc\<close> are a record per thread. A saved context is named by the fiber whose flow
  of control it resumes: swapcontext stores the running flow in the first context and continues with
  the flow found in the second. A failed ASSERT and a null dereference are errors. The address of a
  new object is an argument.
\<close>

section \<open>State\<close>

type_synonym fptr = nat

datatype State = INIT | HOLD | EXEC | TERMINATED | READY | EXCEPT

record 'c fiber =
  m_id :: u64
  m_stacksize :: u32
  m_state :: State
  m_ctx :: fptr
  m_stack :: bool
  fiber_cb :: "'c option"
  m_joinSchedule :: bool

record 'c fibers =
  s_fiber_id :: u64
  s_fiber_count :: u64
  fiber_at :: "fptr \<Rightarrow> 'c fiber"

record tls =
  t_fiber :: "fptr option"
  t_threadFiber :: "fptr option"
  t_scheduler_fiber :: "fptr option"
  cpu :: fptr

datatype fiber_error = Assert string | NullFiber

type_synonym 'c fiber_op = "'c fibers \<times> tls \<Rightarrow> (fiber_error, 'c fibers \<times> tls) result"

definition upd_fiber :: "fptr \<Rightarrow> ('c fiber \<Rightarrow> 'c fiber) \<Rightarrow> 'c fibers \<Rightarrow> 'c fibers" where
  "upd_fiber f g fs = fs\<lparr>fiber_at := (fiber_at fs)(f := g (fiber_at fs f))\<rparr>"

lemma upd_fiber_simps [simp]:
  "fiber_at (upd_fiber f g fs) x = (if x = f then g (fiber_at fs f) else fiber_at fs x)"
  "s_fiber_id (upd_fiber f g fs) = s_fiber_id fs" "s_fiber_count (upd_fiber f g fs) = s_fiber_count fs"
  by (simp_all add: upd_fiber_def)

section \<open>Operations\<close>

definition GetFiberId :: "'c fibers \<times> tls \<Rightarrow> u64" where
  "GetFiberId w = (case t_fiber (snd w) of Some f \<Rightarrow> m_id (fiber_at (fst w) f) | None \<Rightarrow> 0)"

definition TotalFibers :: "'c fibers \<Rightarrow> u64" where
  "TotalFibers fs = s_fiber_count fs"

definition SetThis :: "fptr option \<Rightarrow> tls \<Rightarrow> tls" where
  "SetThis f t = t\<lparr>t_fiber := f\<rparr>"

definition setUseCaller :: "fptr \<Rightarrow> bool \<Rightarrow> 'c fibers \<Rightarrow> 'c fibers" where
  "setUseCaller f join_schedule fs = upd_fiber f (\<lambda>x. x\<lparr>m_joinSchedule := True\<rparr>) fs"

text \<open>The constructor of a fiber with a stack; \<open>default_size\<close> is the configured stack size.\<close>

definition Fiber :: "u32 \<Rightarrow> fptr \<Rightarrow> 'c option \<Rightarrow> u32 \<Rightarrow> bool \<Rightarrow> 'c fibers \<Rightarrow> 'c fibers" where
  "Fiber default_size a cb stacksize join_schedule fs =
     fs\<lparr>s_fiber_id := s_fiber_id fs + 1, s_fiber_count := s_fiber_count fs + 1,
        fiber_at := (fiber_at fs)(a :=
          \<lparr>m_id = s_fiber_id fs + 1, m_stacksize = (if stacksize \<noteq> 0 then stacksize else default_size),
           m_state = INIT, m_ctx = a, m_stack = True, fiber_cb = cb, m_joinSchedule = join_schedule\<rparr>)\<rparr>"

text \<open>The private constructor: the fiber of the thread that is already running.\<close>

definition Fiber_main :: "fptr \<Rightarrow> 'c fibers \<times> tls \<Rightarrow> 'c fibers \<times> tls" where
  "Fiber_main a w =
     (let (fs, t) = w in
      (fs\<lparr>s_fiber_count := s_fiber_count fs + 1,
          fiber_at := (fiber_at fs)(a :=
            \<lparr>m_id = 0, m_stacksize = 0, m_state = EXEC, m_ctx = cpu t, m_stack = False,
             fiber_cb = None, m_joinSchedule = False\<rparr>)\<rparr>,
       SetThis (Some a) t))"

definition GetThis :: "fptr \<Rightarrow> 'c fibers \<times> tls \<Rightarrow> fptr \<times> 'c fibers \<times> tls" where
  "GetThis a w =
     (case t_fiber (snd w) of
        Some f \<Rightarrow> (f, w)
      | None \<Rightarrow> let (fs, t) = Fiber_main a w in (a, fs, t\<lparr>t_threadFiber := Some a\<rparr>))"

definition idle_state :: "State \<Rightarrow> bool" where
  "idle_state s \<longleftrightarrow> s = TERMINATED \<or> s = EXCEPT \<or> s = INIT"

definition reset :: "fptr \<Rightarrow> 'c option \<Rightarrow> bool \<Rightarrow> 'c fibers \<Rightarrow> (fiber_error, 'c fibers) result" where
  "reset f cb join_schedule fs =
     (if \<not> m_stack (fiber_at fs f) then Inl (Assert ''m_stack'')
      else if \<not> idle_state (m_state (fiber_at fs f)) then Inl (Assert ''m_state'')
      else Inr (upd_fiber f (\<lambda>x. x\<lparr>fiber_cb := cb, m_ctx := f, m_joinSchedule := join_schedule, m_state := INIT\<rparr>) fs))"

definition swapcontext :: "fptr \<Rightarrow> fptr \<Rightarrow> 'c fibers \<times> tls \<Rightarrow> 'c fibers \<times> tls" where
  "swapcontext oucp ucp w =
     (let (fs, t) = w; fs' = upd_fiber oucp (\<lambda>x. x\<lparr>m_ctx := cpu t\<rparr>) fs
      in (fs', t\<lparr>cpu := m_ctx (fiber_at fs' ucp)\<rparr>))"

text \<open>The fiber a fiber is entered from and goes back to.\<close>

definition caller_fiber :: "fptr \<Rightarrow> 'c fibers \<times> tls \<Rightarrow> fptr option" where
  "caller_fiber f w = (if m_joinSchedule (fiber_at (fst w) f) then t_scheduler_fiber (snd w) else t_threadFiber (snd w))"

definition fiber_call :: "fptr \<Rightarrow> 'c fiber_op" where
  "fiber_call f w =
     (let (fs, t) = w;
          w1 = (upd_fiber f (\<lambda>x. x\<lparr>m_state := EXEC\<rparr>) fs, SetThis (Some f) t)
      in (case caller_fiber f w1 of
            None \<Rightarrow> Inl NullFiber
          | Some m \<Rightarrow> Inr (swapcontext m f w1)))"

definition fiber_back :: "fptr \<Rightarrow> 'c fiber_op" where
  "fiber_back f w =
     (case caller_fiber f w of
        None \<Rightarrow> Inl NullFiber
      | Some m \<Rightarrow> Inr (swapcontext f m (fst w, SetThis (Some m) (snd w))))"

definition YieldToReady :: "fptr \<Rightarrow> 'c fiber_op" where
  "YieldToReady a w =
     (let (cur, fs, t) = GetThis a w in
      if m_state (fiber_at fs cur) \<noteq> EXEC then Inl (Assert ''EXEC'')
      else fiber_back cur (upd_fiber cur (\<lambda>x. x\<lparr>m_state := READY\<rparr>) fs, t))"

definition YieldToHold :: "fptr \<Rightarrow> 'c fiber_op" where
  "YieldToHold a w =
     (let (cur, fs, t) = GetThis a w in
      if m_state (fiber_at fs cur) \<noteq> EXEC then Inl (Assert ''EXEC'')
      else fiber_back cur (fs, t))"

text \<open>The end of MainFunc, after the callback returned (\<open>threw\<close> false) or an exception was caught.\<close>

definition MainFunc_end :: "fptr \<Rightarrow> bool \<Rightarrow> 'c fiber_op" where
  "MainFunc_end a threw w =
     (let (cur, fs, t) = GetThis a w;
          fs1 = (if threw then upd_fiber cur (\<lambda>x. x\<lparr>m_state := EXCEPT\<rparr>) fs
                 else upd_fiber cur (\<lambda>x. x\<lparr>fiber_cb := None, m_state := TERMINATED\<rparr>) fs)
      in fiber_back cur (fs1, t))"

definition Fiber_destroy :: "fptr \<Rightarrow> 'c fiber_op" where
  "Fiber_destroy f w =
     (let (fs, t) = w; fs1 = fs\<lparr>s_fiber_count := s_fiber_count fs - 1\<rparr>; x = fiber_at fs f in
      if m_stack x then (if idle_state (m_state x) then Inr (fs1, t) else Inl (Assert ''m_state''))
      else if fiber_cb x \<noteq> None then Inl (Assert ''!m_cb'')
      else if m_state x \<noteq> EXEC then Inl (Assert ''EXEC'')
      else Inr (fs1, if t_fiber t = Some f then SetThis None t else t))"

lemmas fiber_op_defs [hps_defs] =
  fiber_call_def fiber_back_def YieldToReady_def YieldToHold_def MainFunc_end_def caller_fiber_def swapcontext_def
  GetThis_def SetThis_def setUseCaller_def Fiber_def reset_def

section \<open>Switching\<close>

text \<open>\<open>in_fiber f m w\<close>: the thread executes fiber \<open>f\<close>, entered from \<open>m\<close>, whose own flow is saved in its context.\<close>

definition in_fiber :: "fptr \<Rightarrow> fptr \<Rightarrow> 'c fibers \<times> tls \<Rightarrow> bool" where
  "in_fiber f m w \<longleftrightarrow> f \<noteq> m \<and> t_fiber (snd w) = Some f \<and> cpu (snd w) = f \<and> caller_fiber f w = Some m
     \<and> m_ctx (fiber_at (fst w) m) = m \<and> m_state (fiber_at (fst w) f) = EXEC"

lemma call_in_fiber:
  assumes "cpu t = m" "f \<noteq> m" "caller_fiber f (fs, t) = Some m" "m_ctx (fiber_at fs f) = f"
  shows "\<exists>fs'. fiber_call f (fs, t) = Inr (fs', t\<lparr>t_fiber := Some f, cpu := f\<rparr>)
    \<and> in_fiber f m (fs', t\<lparr>t_fiber := Some f, cpu := f\<rparr>)
    \<and> fiber_at fs' f = fiber_at fs f\<lparr>m_state := EXEC\<rparr> \<and> (\<forall>g. g \<noteq> f \<and> g \<noteq> m \<longrightarrow> fiber_at fs' g = fiber_at fs g)
    \<and> fiber_at fs' m = fiber_at fs m\<lparr>m_ctx := m\<rparr>"
proof -
  let ?fs1 = "upd_fiber f (\<lambda>x. x\<lparr>m_state := EXEC\<rparr>) fs"
  let ?fs' = "upd_fiber m (\<lambda>x. x\<lparr>m_ctx := m\<rparr>) ?fs1"
  let ?t = "t\<lparr>t_fiber := Some f, cpu := f\<rparr>"
  have c: "caller_fiber f (?fs1, SetThis (Some f) t) = Some m" "caller_fiber f (?fs', ?t) = Some m"
    using assms(2,3) by (auto simp: caller_fiber_def SetThis_def split: if_splits)
  have "fiber_call f (fs, t) = Inr (swapcontext m f (?fs1, SetThis (Some f) t))"
    unfolding fiber_call_def Let_def prod.case c(1) by simp
  also have "swapcontext m f (?fs1, SetThis (Some f) t) = (?fs', ?t)"
    using assms(1,2,4) by (simp add: swapcontext_def SetThis_def Let_def)
  finally show ?thesis using assms(2) c(2) by (auto simp: in_fiber_def)
qed

lemma back_in_fiber:
  assumes "in_fiber f m (fs, t)"
  shows "\<exists>fs'. fiber_back f (fs, t) = Inr (fs', t\<lparr>t_fiber := Some m, cpu := m\<rparr>)
    \<and> fiber_at fs' f = fiber_at fs f\<lparr>m_ctx := f\<rparr> \<and> (\<forall>g. g \<noteq> f \<longrightarrow> fiber_at fs' g = fiber_at fs g)"
  using assms by (auto simp: fiber_back_def in_fiber_def swapcontext_def SetThis_def Let_def)

text \<open>The ways a running fiber leaves the processor.\<close>

datatype leave = ToHold | ToReady | Finish | Throw

fun leave_op :: "fptr \<Rightarrow> leave \<Rightarrow> 'c fiber_op" where
  "leave_op a ToHold w = YieldToHold a w"
| "leave_op a ToReady w = YieldToReady a w"
| "leave_op a Finish w = MainFunc_end a False w"
| "leave_op a Throw w = MainFunc_end a True w"

fun left_fiber :: "leave \<Rightarrow> 'c fiber \<Rightarrow> 'c fiber" where
  "left_fiber ToHold x = x"
| "left_fiber ToReady x = x\<lparr>m_state := READY\<rparr>"
| "left_fiber Finish x = x\<lparr>fiber_cb := None, m_state := TERMINATED\<rparr>"
| "left_fiber Throw x = x\<lparr>m_state := EXCEPT\<rparr>"

lemma left_fiber_frame [simp]:
  "m_joinSchedule (left_fiber l x) = m_joinSchedule x" "m_ctx (left_fiber l x) = m_ctx x" "m_stack (left_fiber l x) = m_stack x"
  by (cases l; simp)+

lemma back_after:
  assumes "in_fiber f m (fs, t)" "m_joinSchedule (g (fiber_at fs f)) = m_joinSchedule (fiber_at fs f)"
  shows "\<exists>fs'. fiber_back f (upd_fiber f g fs, t) = Inr (fs', t\<lparr>t_fiber := Some m, cpu := m\<rparr>)
    \<and> fiber_at fs' f = g (fiber_at fs f)\<lparr>m_ctx := f\<rparr> \<and> (\<forall>h. h \<noteq> f \<longrightarrow> fiber_at fs' h = fiber_at fs h)"
  using assms by (auto simp: fiber_back_def in_fiber_def caller_fiber_def swapcontext_def SetThis_def Let_def split: if_splits)

lemma upd_fiber_id: "upd_fiber f (\<lambda>x. x) fs = fs"
  by (simp add: upd_fiber_def)

lemma leave_in_fiber:
  assumes "in_fiber f m (fs, t)"
  shows "\<exists>fs'. leave_op a l (fs, t) = Inr (fs', t\<lparr>t_fiber := Some m, cpu := m\<rparr>)
    \<and> fiber_at fs' f = (left_fiber l (fiber_at fs f))\<lparr>m_ctx := f\<rparr> \<and> (\<forall>h. h \<noteq> f \<longrightarrow> fiber_at fs' h = fiber_at fs h)"
proof -
  have cur: "GetThis a (fs, t) = (f, fs, t)" "m_state (fiber_at fs f) = EXEC"
    using assms by (simp_all add: in_fiber_def GetThis_def)
  have "leave_op a l (fs, t) = fiber_back f (upd_fiber f (left_fiber l) fs, t)"
    by (cases l) (simp_all add: cur YieldToHold_def YieldToReady_def MainFunc_end_def upd_fiber_def fun_upd_idem)
  then show ?thesis using back_after [OF assms, of "left_fiber l"] by simp
qed

text \<open>Entering a fiber and leaving it returns to the caller. When the thread's flow is that of the
  scheduling (or main) fiber \<open>m\<close> and a fiber \<open>f\<close> whose context is intact is called, then, however \<open>f\<close>
  leaves (yields, ends, throws), the thread is back in the flow of \<open>m\<close> with \<open>m\<close> current, the context
  of \<open>f\<close> holds its own flow so that it can be called again, no other fiber changes, and the state of
  \<open>f\<close> is EXEC, READY, TERMINATED or EXCEPT accordingly; no ASSERT fails.\<close>

theorem fiber_switch_roundtrip:
  assumes "cpu t = m" and "f \<noteq> m" and "caller_fiber f (fs, t) = Some m" and "m_ctx (fiber_at fs f) = f"
    and "m_ctx (fiber_at fs m) = m"
  shows "\<exists>fs1 t1 fs2 t2. fiber_call f (fs, t) = Inr (fs1, t1) \<and> m_state (fiber_at fs1 f) = EXEC \<and> cpu t1 = f
    \<and> leave_op a l (fs1, t1) = Inr (fs2, t2) \<and> cpu t2 = m \<and> t_fiber t2 = Some m \<and> m_ctx (fiber_at fs2 f) = f
    \<and> m_state (fiber_at fs2 f) = (case l of ToHold \<Rightarrow> EXEC | ToReady \<Rightarrow> READY | Finish \<Rightarrow> TERMINATED | Throw \<Rightarrow> EXCEPT)
    \<and> (\<forall>g. g \<noteq> f \<longrightarrow> fiber_at fs2 g = fiber_at fs g)"
proof -
  obtain fs1 where fs1: "fiber_call f (fs, t) = Inr (fs1, t\<lparr>t_fiber := Some f, cpu := f\<rparr>)"
    "in_fiber f m (fs1, t\<lparr>t_fiber := Some f, cpu := f\<rparr>)" "fiber_at fs1 f = fiber_at fs f\<lparr>m_state := EXEC\<rparr>"
    "\<forall>g. g \<noteq> f \<and> g \<noteq> m \<longrightarrow> fiber_at fs1 g = fiber_at fs g" "fiber_at fs1 m = fiber_at fs m\<lparr>m_ctx := m\<rparr>"
    using call_in_fiber [OF assms(1-4)] by blast
  obtain fs2 where fs2: "leave_op a l (fs1, t\<lparr>t_fiber := Some f, cpu := f\<rparr>) = Inr (fs2, t\<lparr>t_fiber := Some m, cpu := m\<rparr>)"
    "fiber_at fs2 f = (left_fiber l (fiber_at fs1 f))\<lparr>m_ctx := f\<rparr>" "\<forall>h. h \<noteq> f \<longrightarrow> fiber_at fs2 h = fiber_at fs1 h"
    using leave_in_fiber [OF fs1(2), of a l] by auto
  have "fiber_at fs1 m = fiber_at fs m" using fs1(5) assms(5) by simp
  then have "\<forall>g. g \<noteq> f \<longrightarrow> fiber_at fs2 g = fiber_at fs g" using fs1(4) fs2(3) by metis
  moreover have "m_state (fiber_at fs2 f) = (case l of ToHold \<Rightarrow> EXEC | ToReady \<Rightarrow> READY | Finish \<Rightarrow> TERMINATED | Throw \<Rightarrow> EXCEPT)"
    using fs1(3) fs2(2) by (cases l) simp_all
  ultimately show ?thesis using fs1 fs2 by auto
qed

text \<open>A thread whose main fiber is at address 0, and a fiber with a stack at address 1.\<close>

theorem fiber_switch_roundtrip_witness:
  "\<exists>(fs :: nat fibers) t fs1 t1 fs2 t2. GetThis 0 (\<lparr>s_fiber_id = 0, s_fiber_count = 0, fiber_at = (\<lambda>_. undefined)\<rparr>,
        \<lparr>t_fiber = None, t_threadFiber = None, t_scheduler_fiber = None, cpu = 0\<rparr>) = (0, fs, t)
    \<and> fiber_call 1 (Fiber 128 1 (Some 7) 0 False fs, t) = Inr (fs1, t1)
    \<and> leave_op 9 ToReady (fs1, t1) = Inr (fs2, t2) \<and> cpu t2 = 0 \<and> m_state (fiber_at fs2 1) = READY"
proof -
  define w where "w = (\<lparr>s_fiber_id = 0, s_fiber_count = 0, fiber_at = (\<lambda>_. undefined)\<rparr> :: nat fibers,
    \<lparr>t_fiber = None, t_threadFiber = None, t_scheduler_fiber = None, cpu = 0\<rparr>)"
  obtain fs t where w: "GetThis 0 w = (0, fs, t)" "cpu t = 0" "t_threadFiber t = Some 0" "m_ctx (fiber_at fs 0) = 0"
    by (simp add: GetThis_def Fiber_main_def w_def SetThis_def)
  let ?fs = "Fiber 128 1 (Some 7) 0 False fs"
  have "caller_fiber 1 (?fs, t) = Some 0" "m_ctx (fiber_at ?fs 1) = 1" "m_ctx (fiber_at ?fs 0) = 0"
    using w by (simp_all add: caller_fiber_def Fiber_def)
  from fiber_switch_roundtrip [OF w(2) _ this, of 9 ToReady] w(1) show ?thesis
    unfolding w_def by fastforce
qed

end
