(* ===== verification/Scheduler.thy ===== *)
theory Scheduler
  imports Fiber
begin

text \<open>
  The fiber scheduler (\<open>src/scheduler.h\<close>, \<open>src/scheduler.cc\<close>). The members of the class are a record;
  each thread that executes Scheduler::run is a worker with a program counter into that function, so
  that steps of different threads interleave: the critical section that takes a task, entering the
  fiber, the fiber leaving the processor, and the statements after the call are separate steps. What a
  user's fiber does between entering and leaving is unknown to the scheduler: any way of leaving is
  possible. tickle is virtual; the model counts its calls. The two counters are atomics and are
  integers here, so that an underflow would show as a negative number.
\<close>

section \<open>State\<close>

text \<open>A callback is the user's, or one of the member functions the scheduler binds itself.\<close>

datatype 'c job = User 'c | IdleLoop | RunLoop

record 'c task =
  tk_fiber :: "fptr option"
  tk_cb :: "'c job option"
  tk_thread :: int

record 'c scheduler =
  m_tasks :: "'c task list"
  m_threads :: "int list"
  m_threadIds :: "int list"
  m_threadCount :: nat
  m_activeThreadCount :: int
  m_idleThreadCount :: int
  m_stopping :: bool
  m_autoStop :: bool
  m_rootThread :: int
  m_rootFiber :: "fptr option"
  tickles :: nat

definition Task :: "fptr option \<Rightarrow> 'c job option \<Rightarrow> int \<Rightarrow> 'c task" where
  "Task f cb thr = \<lparr>tk_fiber = f, tk_cb = cb, tk_thread = thr\<rparr>"

definition Task_reset :: "'c task" where
  "Task_reset = \<lparr>tk_fiber = None, tk_cb = None, tk_thread = - 1\<rparr>"

section \<open>Members\<close>

definition tickle :: "'c scheduler \<Rightarrow> 'c scheduler" where
  "tickle s = s\<lparr>tickles := tickles s + 1\<rparr>"

definition stopping :: "'c scheduler \<Rightarrow> bool" where
  "stopping s \<longleftrightarrow> m_autoStop s \<and> m_stopping s \<and> m_tasks s = [] \<and> m_activeThreadCount s = 0"

definition hasIdleThreads :: "'c scheduler \<Rightarrow> bool" where
  "hasIdleThreads s \<longleftrightarrow> m_idleThreadCount s > 0"

definition scheduleNoLock :: "'c task \<Rightarrow> 'c scheduler \<Rightarrow> bool \<times> 'c scheduler" where
  "scheduleNoLock ft s =
     (m_tasks s = [],
      if tk_fiber ft \<noteq> None \<or> tk_cb ft \<noteq> None then s\<lparr>m_tasks := m_tasks s @ [ft]\<rparr> else s)"

definition schedule :: "'c task \<Rightarrow> 'c scheduler \<Rightarrow> 'c scheduler" where
  "schedule ft s = (let (need_tickle, s1) = scheduleNoLock ft s in if need_tickle then tickle s1 else s1)"

fun schedule_loop :: "'c task list \<Rightarrow> bool \<Rightarrow> 'c scheduler \<Rightarrow> bool \<times> 'c scheduler" where
  "schedule_loop [] need_tickle s = (need_tickle, s)"
| "schedule_loop (ft # fts) need_tickle s =
     (let (n, s1) = scheduleNoLock ft s in schedule_loop fts (n \<or> need_tickle) s1)"

definition schedule_range :: "'c task list \<Rightarrow> 'c scheduler \<Rightarrow> 'c scheduler" where
  "schedule_range fts s =
     (let (need_tickle, s1) = schedule_loop fts False s in if need_tickle then tickle s1 else s1)"

text \<open>The constructor; with \<open>use_mainThread\<close> the root fiber is created at address \<open>a\<close>.\<close>

definition Scheduler ::
  "u32 \<Rightarrow> nat \<Rightarrow> bool \<Rightarrow> int \<Rightarrow> fptr \<Rightarrow> fptr \<Rightarrow> bool \<Rightarrow> 'c job fibers \<times> tls
     \<Rightarrow> (fiber_error, 'c scheduler \<times> 'c job fibers \<times> tls) result" where
  "Scheduler stack_size threads use_mainThread tid a_main a has_scheduler w =
     (let s = \<lparr>m_tasks = [], m_threads = [], m_threadIds = [], m_threadCount = threads, m_activeThreadCount = 0,
               m_idleThreadCount = 0, m_stopping = True, m_autoStop = False, m_rootThread = - 1,
               m_rootFiber = None, tickles = 0\<rparr>
      in if threads = 0 then Inl (Assert ''threads > 0'')
         else if use_mainThread then
           (let (_, fs, t) = GetThis a_main w in
            if has_scheduler then Inl (Assert ''GetThis() == nullptr'')
            else Inr (s\<lparr>m_threadCount := threads - 1, m_rootFiber := Some a, m_rootThread := tid, m_threadIds := [tid]\<rparr>,
                      Fiber stack_size a (Some RunLoop) 0 False fs, t\<lparr>t_scheduler_fiber := Some a\<rparr>))
         else Inr (s, w))"

text \<open>\<open>ids\<close> are the ids of the threads the loop creates.\<close>

definition start :: "int list \<Rightarrow> 'c scheduler \<Rightarrow> (fiber_error, 'c scheduler) result" where
  "start ids s =
     (if \<not> m_stopping s then Inr s
      else if m_threads s \<noteq> [] then Inl (Assert ''m_threads.empty()'')
      else Inr (s\<lparr>m_stopping := False, m_threads := take (m_threadCount s) ids,
                  m_threadIds := m_threadIds s @ take (m_threadCount s) ids\<rparr>))"

text \<open>
  stop up to the joins: \<open>root_state\<close> is the state of the root fiber, \<open>current\<close> whether the calling
  thread's scheduler is this one. The first result tells whether stop returned early, the second
  whether it enters the root fiber.
\<close>

definition stop :: "State \<Rightarrow> bool \<Rightarrow> 'c scheduler \<Rightarrow> (fiber_error, bool \<times> bool \<times> 'c scheduler) result" where
  "stop root_state current s =
     (let s1 = s\<lparr>m_autoStop := True\<rparr>;
          only_root = (m_rootFiber s1 \<noteq> None \<and> m_threadCount s1 = 0 \<and> (root_state = TERMINATED \<or> root_state = INIT));
          s2 = (if only_root then s1\<lparr>m_stopping := True\<rparr> else s1)
      in if only_root \<and> stopping s2 then Inr (True, False, s2)
         else if m_rootThread s2 \<noteq> - 1 \<and> \<not> current then Inl (Assert ''GetThis() == this'')
         else if m_rootThread s2 = - 1 \<and> current then Inl (Assert ''GetThis() != this'')
         else let s3 = (tickle ^^ m_threadCount s2) (s2\<lparr>m_stopping := True\<rparr>);
                  s4 = (if m_rootFiber s3 \<noteq> None then tickle s3 else s3)
              in Inr (False, m_rootFiber s4 \<noteq> None \<and> \<not> stopping s4, s4))"

definition switchTo :: "bool \<Rightarrow> bool \<Rightarrow> int \<Rightarrow> int \<Rightarrow> fptr \<Rightarrow> 'c scheduler \<times> 'c job fibers \<times> tls
    \<Rightarrow> (fiber_error, 'c scheduler \<times> 'c job fibers \<times> tls) result" where
  "switchTo has_current current_is_this tid thread a w =
     (let (s, fs, t) = w in
      if \<not> has_current then Inl (Assert ''GetThis() != nullptr'')
      else if current_is_this \<and> (thread = - 1 \<or> thread = tid) then Inr w
      else let (f, w1) = GetThis a (fs, t);
               s1 = schedule (Task (Some f) None thread) s
           in rbind (YieldToHold a w1) (\<lambda>w2. Inr (s1, w2)))"

section \<open>The run loop\<close>

text \<open>
  The scan of the task list in the critical section: whether a task for another thread or a task
  behind the taken one was seen, the task taken, and the list that is left.
\<close>

fun scan :: "int \<Rightarrow> 'c job fibers \<Rightarrow> 'c task list \<Rightarrow> (fiber_error, bool \<times> 'c task option \<times> 'c task list) result" where
  "scan tid fs [] = Inr (False, None, [])"
| "scan tid fs (it # ts) =
     (if tk_thread it \<noteq> - 1 \<and> tk_thread it \<noteq> tid then
        rbind (scan tid fs ts) (\<lambda>(tm, r, rest). Inr (True, r, it # rest))
      else if tk_fiber it = None \<and> tk_cb it = None then Inl (Assert ''it->fiber || it->cb'')
      else if (case tk_fiber it of Some f \<Rightarrow> m_state (fiber_at fs f) = EXEC | None \<Rightarrow> False) then
        rbind (scan tid fs ts) (\<lambda>(tm, r, rest). Inr (tm, r, it # rest))
      else Inr (ts \<noteq> [], Some it, ts))"

datatype 'c pc =
    Spawned | Top | Dispatch "'c task" bool
  | InTask fptr | LeftTask fptr | SettleTask fptr
  | InCb | LeftCb | SettleCb
  | InIdle | LeftIdle
  | Done

record 'c worker =
  w_tls :: tls
  w_idle :: fptr
  w_task_fiber :: "fptr option"
  w_pc :: "'c pc"

record 'c world =
  fibs :: "'c job fibers"
  sched :: "'c scheduler"
  workers :: "int \<Rightarrow> 'c worker"

definition set_worker :: "int \<Rightarrow> 'c worker \<Rightarrow> 'c world \<Rightarrow> 'c world" where
  "set_worker tid x w = w\<lparr>workers := (workers w)(tid := x)\<rparr>"

text \<open>Entering a fiber from the run loop of thread \<open>tid\<close>, which then is at \<open>pc\<close>.\<close>

definition enter :: "int \<Rightarrow> fptr \<Rightarrow> 'c worker \<Rightarrow> 'c pc \<Rightarrow> 'c world \<Rightarrow> (fiber_error, 'c world) result" where
  "enter tid f x pc w =
     rbind (fiber_call f (fibs w, w_tls x))
       (\<lambda>(fs, t). Inr (set_worker tid (x\<lparr>w_tls := t, w_pc := pc\<rparr>) (w\<lparr>fibs := fs\<rparr>)))"

definition run_enter :: "u32 \<Rightarrow> fptr \<Rightarrow> fptr \<Rightarrow> int \<Rightarrow> 'c world \<Rightarrow> 'c world" where
  "run_enter stack_size a_main a_idle tid w =
     (let x = workers w tid;
          (fs, t) = (if tid \<noteq> m_rootThread (sched w)
                     then let (f, fs1, t1) = GetThis a_main (fibs w, w_tls x) in (fs1, t1\<lparr>t_scheduler_fiber := Some f\<rparr>)
                     else (fibs w, w_tls x))
      in set_worker tid (x\<lparr>w_tls := t, w_idle := a_idle, w_task_fiber := None, w_pc := Top\<rparr>)
           (w\<lparr>fibs := Fiber stack_size a_idle (Some IdleLoop) 0 True fs\<rparr>))"

definition run_pick :: "int \<Rightarrow> 'c world \<Rightarrow> (fiber_error, 'c world) result" where
  "run_pick tid w =
     rbind (scan tid (fibs w) (m_tasks (sched w)))
       (\<lambda>(tickle_me, r, rest).
          let s = sched w;
              s1 = (case r of None \<Rightarrow> s
                    | Some k \<Rightarrow> s\<lparr>m_tasks := rest, m_activeThreadCount := m_activeThreadCount s + 1\<rparr>);
              s2 = (if tickle_me then tickle s1 else s1);
              k = (case r of None \<Rightarrow> Task_reset | Some k \<Rightarrow> k)
          in Inr (set_worker tid ((workers w tid)\<lparr>w_pc := Dispatch k (r \<noteq> None)\<rparr>) (w\<lparr>sched := s2\<rparr>)))"

definition live :: "State \<Rightarrow> bool" where
  "live s \<longleftrightarrow> s \<noteq> TERMINATED \<and> s \<noteq> EXCEPT"

text \<open>\<open>a\<close> is the address of a fiber the branch for callbacks creates.\<close>

definition run_dispatch :: "u32 \<Rightarrow> fptr \<Rightarrow> int \<Rightarrow> 'c task \<Rightarrow> bool \<Rightarrow> 'c world \<Rightarrow> (fiber_error, 'c world) result" where
  "run_dispatch stack_size a tid task is_active w =
     (let x = workers w tid; s = sched w in
      if (case tk_fiber task of Some f \<Rightarrow> live (m_state (fiber_at (fibs w) f)) | None \<Rightarrow> False) then
        (let f = the (tk_fiber task) in enter tid f x (InTask f) (w\<lparr>fibs := setUseCaller f True (fibs w)\<rparr>))
      else if tk_cb task \<noteq> None then
        rbind (case w_task_fiber x of
                 Some g \<Rightarrow> rbind (reset g (tk_cb task) True (fibs w)) (\<lambda>fs. Inr (g, fs))
               | None \<Rightarrow> Inr (a, Fiber stack_size a (tk_cb task) 0 True (fibs w)))
          (\<lambda>(g, fs). enter tid g (x\<lparr>w_task_fiber := Some g\<rparr>) InCb (w\<lparr>fibs := fs\<rparr>))
      else if is_active then
        Inr (set_worker tid (x\<lparr>w_pc := Top\<rparr>) (w\<lparr>sched := s\<lparr>m_activeThreadCount := m_activeThreadCount s - 1\<rparr>\<rparr>))
      else if m_state (fiber_at (fibs w) (w_idle x)) = TERMINATED then
        Inr (set_worker tid (x\<lparr>w_pc := Done\<rparr>) w)
      else enter tid (w_idle x) x InIdle (w\<lparr>sched := s\<lparr>m_idleThreadCount := m_idleThreadCount s + 1\<rparr>\<rparr>))"

text \<open>The running fiber leaves the processor; the flow of the run loop goes on at \<open>pc\<close>.\<close>

definition run_leave :: "leave \<Rightarrow> 'c pc \<Rightarrow> int \<Rightarrow> 'c world \<Rightarrow> (fiber_error, 'c world) result" where
  "run_leave l pc tid w =
     rbind (leave_op 0 l (fibs w, w_tls (workers w tid)))
       (\<lambda>(fs, t). Inr (set_worker tid ((workers w tid)\<lparr>w_tls := t, w_pc := pc\<rparr>) (w\<lparr>fibs := fs\<rparr>)))"

text \<open>One round of Scheduler::idle, the body of the idle fiber: it returns once the scheduler may stop.\<close>

definition idle :: "int \<Rightarrow> 'c world \<Rightarrow> (fiber_error, 'c world) result" where
  "idle tid w = (if \<not> stopping (sched w) then run_leave ToHold LeftIdle tid w else run_leave Finish LeftIdle tid w)"

definition dec_active :: "'c scheduler \<Rightarrow> 'c scheduler" where
  "dec_active s = s\<lparr>m_activeThreadCount := m_activeThreadCount s - 1\<rparr>"

text \<open>The statements after the call of a task's fiber, the decrement and the rest.\<close>

definition run_after_task :: "int \<Rightarrow> fptr \<Rightarrow> 'c world \<Rightarrow> 'c world" where
  "run_after_task tid f w =
     set_worker tid ((workers w tid)\<lparr>w_pc := SettleTask f\<rparr>) (w\<lparr>sched := dec_active (sched w)\<rparr>)"

definition run_settle_task :: "int \<Rightarrow> fptr \<Rightarrow> 'c world \<Rightarrow> 'c world" where
  "run_settle_task tid f w =
     (let st = m_state (fiber_at (fibs w) f);
          w1 = (if st = READY then w\<lparr>sched := schedule (Task (Some f) None (- 1)) (sched w)\<rparr>
                else if live st then w\<lparr>fibs := upd_fiber f (\<lambda>x. x\<lparr>m_state := HOLD\<rparr>) (fibs w)\<rparr>
                else w)
      in set_worker tid ((workers w1 tid)\<lparr>w_pc := Top\<rparr>) w1)"

definition run_after_cb :: "int \<Rightarrow> 'c world \<Rightarrow> 'c world" where
  "run_after_cb tid w =
     set_worker tid ((workers w tid)\<lparr>w_pc := SettleCb\<rparr>) (w\<lparr>sched := dec_active (sched w)\<rparr>)"

definition run_settle_cb :: "int \<Rightarrow> 'c world \<Rightarrow> (fiber_error, 'c world) result" where
  "run_settle_cb tid w =
     (let x = workers w tid in
      case w_task_fiber x of
        None \<Rightarrow> Inl NullFiber
      | Some g \<Rightarrow>
          let st = m_state (fiber_at (fibs w) g) in
          if st = READY then
            Inr (set_worker tid (x\<lparr>w_task_fiber := None, w_pc := Top\<rparr>)
                   (w\<lparr>sched := schedule (Task (Some g) None (- 1)) (sched w)\<rparr>))
          else if st = EXCEPT \<or> st = TERMINATED then
            rbind (reset g None False (fibs w)) (\<lambda>fs. Inr (set_worker tid (x\<lparr>w_pc := Top\<rparr>) (w\<lparr>fibs := fs\<rparr>)))
          else
            Inr (set_worker tid (x\<lparr>w_task_fiber := None, w_pc := Top\<rparr>)
                   (w\<lparr>fibs := upd_fiber g (\<lambda>y. y\<lparr>m_state := HOLD\<rparr>) (fibs w)\<rparr>)))"

definition run_after_idle :: "int \<Rightarrow> 'c world \<Rightarrow> 'c world" where
  "run_after_idle tid w =
     (let x = workers w tid; s = sched w; f = w_idle x;
          fs = (if live (m_state (fiber_at (fibs w) f)) then upd_fiber f (\<lambda>y. y\<lparr>m_state := HOLD\<rparr>) (fibs w) else fibs w)
      in set_worker tid (x\<lparr>w_pc := Top\<rparr>) (w\<lparr>fibs := fs, sched := s\<lparr>m_idleThreadCount := m_idleThreadCount s - 1\<rparr>\<rparr>))"

section \<open>Interleavings\<close>

definition queued :: "'c task list \<Rightarrow> fptr list" where
  "queued ts = List.map_filter tk_fiber ts"

definition run_of :: "'c worker \<Rightarrow> fptr option" where
  "run_of x = (case w_pc x of
      InTask f \<Rightarrow> Some f | LeftTask f \<Rightarrow> Some f | SettleTask f \<Rightarrow> Some f
    | InCb \<Rightarrow> w_task_fiber x | LeftCb \<Rightarrow> w_task_fiber x | SettleCb \<Rightarrow> w_task_fiber x
    | _ \<Rightarrow> None)"

definition opt_list :: "'a option \<Rightarrow> 'a list" where
  "opt_list r = (case r of None \<Rightarrow> [] | Some y \<Rightarrow> [y])"

text \<open>The fibers a worker refers to: its scheduling, idle and task fiber, and the fiber of the task in hand.\<close>

definition claims :: "'c worker \<Rightarrow> fptr list" where
  "claims x = (case w_pc x of
      Spawned \<Rightarrow> [] | Done \<Rightarrow> []
    | pc \<Rightarrow> opt_list (t_scheduler_fiber (w_tls x)) @ [w_idle x] @ opt_list (w_task_fiber x) @
        (case pc of InTask f \<Rightarrow> [f] | LeftTask f \<Rightarrow> [f] | SettleTask f \<Rightarrow> [f]
         | Dispatch k b \<Rightarrow> opt_list (tk_fiber k) | _ \<Rightarrow> []))"

definition fresh :: "fptr \<Rightarrow> 'c world \<Rightarrow> bool" where
  "fresh a w \<longleftrightarrow> a \<notin> set (queued (m_tasks (sched w))) \<and> (\<forall>t. a \<notin> set (claims (workers w t)))"

text \<open>
  What clients must respect: a fiber is scheduled only while it is not waiting in the queue already, and
  only if no worker refers to it or it is running (it schedules itself, or an event does, before it
  holds); and a fiber that has been scheduled while running goes to hold next.
\<close>

definition may_schedule :: "'c task \<Rightarrow> 'c world \<Rightarrow> bool" where
  "may_schedule ft w \<longleftrightarrow> (case tk_fiber ft of None \<Rightarrow> True | Some f \<Rightarrow>
     f \<notin> set (queued (m_tasks (sched w))) \<and>
     (\<forall>t. f \<in> set (claims (workers w t)) \<longrightarrow> run_of (workers w t) = Some f \<and> m_state (fiber_at (fibs w) f) = EXEC))"

definition may_leave :: "leave \<Rightarrow> fptr option \<Rightarrow> 'c world \<Rightarrow> bool" where
  "may_leave l f w \<longleftrightarrow> l = ToHold \<or> (case f of None \<Rightarrow> True | Some g \<Rightarrow> g \<notin> set (queued (m_tasks (sched w))))"

text \<open>A thread that starts run: a pool thread gets its main fiber at \<open>a_main\<close>, the root thread is in its root fiber.\<close>

definition may_enter :: "fptr \<Rightarrow> fptr \<Rightarrow> int \<Rightarrow> 'c world \<Rightarrow> bool" where
  "may_enter a_main a_idle t w \<longleftrightarrow> fresh a_main w \<and> fresh a_idle w \<and> a_main \<noteq> a_idle \<and> cpu (w_tls (workers w t)) = a_main
     \<and> (if t \<noteq> m_rootThread (sched w) then t_fiber (w_tls (workers w t)) = None
        else t_scheduler_fiber (w_tls (workers w t)) = Some a_main)"

inductive step :: "u32 \<Rightarrow> 'c world \<Rightarrow> 'c world \<Rightarrow> bool" for ss :: u32 where
  s_enter: "w_pc (workers w t) = Spawned \<Longrightarrow> may_enter a_main a_idle t w \<Longrightarrow> step ss w (run_enter ss a_main a_idle t w)"
| s_pick: "w_pc (workers w t) = Top \<Longrightarrow> run_pick t w = Inr w' \<Longrightarrow> step ss w w'"
| s_dispatch: "w_pc (workers w t) = Dispatch k act \<Longrightarrow> fresh a w \<Longrightarrow> run_dispatch ss a t k act w = Inr w' \<Longrightarrow> step ss w w'"
| s_leave_task: "w_pc (workers w t) = InTask f \<Longrightarrow> may_leave l (Some f) w \<Longrightarrow> run_leave l (LeftTask f) t w = Inr w' \<Longrightarrow> step ss w w'"
| s_after_task: "w_pc (workers w t) = LeftTask f \<Longrightarrow> step ss w (run_after_task t f w)"
| s_settle_task: "w_pc (workers w t) = SettleTask f \<Longrightarrow> step ss w (run_settle_task t f w)"
| s_leave_cb: "w_pc (workers w t) = InCb \<Longrightarrow> may_leave l (w_task_fiber (workers w t)) w \<Longrightarrow> run_leave l LeftCb t w = Inr w' \<Longrightarrow> step ss w w'"
| s_after_cb: "w_pc (workers w t) = LeftCb \<Longrightarrow> step ss w (run_after_cb t w)"
| s_settle_cb: "w_pc (workers w t) = SettleCb \<Longrightarrow> run_settle_cb t w = Inr w' \<Longrightarrow> step ss w w'"
| s_idle: "w_pc (workers w t) = InIdle \<Longrightarrow> idle t w = Inr w' \<Longrightarrow> step ss w w'"
| s_after_idle: "w_pc (workers w t) = LeftIdle \<Longrightarrow> step ss w (run_after_idle t w)"
| s_schedule: "may_schedule ft w \<Longrightarrow> step ss w (w\<lparr>sched := schedule ft (sched w)\<rparr>)"
| s_new: "fresh a w \<Longrightarrow> step ss w (w\<lparr>fibs := Fiber ss a cb sz join (fibs w)\<rparr>)"
| s_stop: "step ss w (w\<lparr>sched := (sched w)\<lparr>m_autoStop := True, m_stopping := True\<rparr>\<rparr>)"

inductive reach :: "u32 \<Rightarrow> 'c world \<Rightarrow> 'c world \<Rightarrow> bool" for ss :: u32 and w0 where
  r_start: "reach ss w0 w0"
| r_step: "reach ss w0 w \<Longrightarrow> step ss w w' \<Longrightarrow> reach ss w0 w'"

section \<open>Invariant\<close>

definition left_state :: "State \<Rightarrow> bool" where
  "left_state st \<longleftrightarrow> st = EXEC \<or> st = READY \<or> st = TERMINATED \<or> st = EXCEPT"

definition runs_in :: "'c job fibers \<Rightarrow> 'c worker \<Rightarrow> fptr \<Rightarrow> bool" where
  "runs_in fs x f \<longleftrightarrow> t_fiber (w_tls x) = Some f \<and> cpu (w_tls x) = f \<and> m_state (fiber_at fs f) = EXEC \<and> m_joinSchedule (fiber_at fs f)"

definition at_loop :: "'c worker \<Rightarrow> bool" where
  "at_loop x \<longleftrightarrow> Some (cpu (w_tls x)) = t_scheduler_fiber (w_tls x)"

definition idle_ok :: "'c job fibers \<Rightarrow> 'c worker \<Rightarrow> bool" where
  "idle_ok fs x \<longleftrightarrow> m_joinSchedule (fiber_at fs (w_idle x)) \<and>
     (w_pc x \<noteq> InIdle \<and> w_pc x \<noteq> LeftIdle \<longrightarrow> m_state (fiber_at fs (w_idle x)) \<in> {INIT, HOLD, TERMINATED})"

definition spare_ok :: "'c job fibers \<Rightarrow> 'c worker \<Rightarrow> bool" where
  "spare_ok fs x \<longleftrightarrow> (case w_task_fiber x of None \<Rightarrow> True | Some g \<Rightarrow>
     m_stack (fiber_at fs g) \<and> (w_pc x \<in> {InCb, LeftCb, SettleCb} \<or> m_state (fiber_at fs g) = INIT))"

definition pc_ok :: "'c job fibers \<Rightarrow> 'c worker \<Rightarrow> bool" where
  "pc_ok fs x \<longleftrightarrow> (case w_pc x of
      Top \<Rightarrow> at_loop x
    | Dispatch k act \<Rightarrow> at_loop x \<and> (act = (tk_fiber k \<noteq> None \<or> tk_cb k \<noteq> None))
    | InTask f \<Rightarrow> runs_in fs x f
    | LeftTask f \<Rightarrow> at_loop x \<and> left_state (m_state (fiber_at fs f))
    | SettleTask f \<Rightarrow> at_loop x \<and> left_state (m_state (fiber_at fs f))
    | InCb \<Rightarrow> (\<exists>g. w_task_fiber x = Some g \<and> runs_in fs x g)
    | LeftCb \<Rightarrow> at_loop x \<and> (\<exists>g. w_task_fiber x = Some g \<and> left_state (m_state (fiber_at fs g)))
    | SettleCb \<Rightarrow> at_loop x \<and> (\<exists>g. w_task_fiber x = Some g \<and> left_state (m_state (fiber_at fs g)))
    | InIdle \<Rightarrow> runs_in fs x (w_idle x)
    | LeftIdle \<Rightarrow> at_loop x \<and> m_state (fiber_at fs (w_idle x)) \<in> {EXEC, TERMINATED}
    | Spawned \<Rightarrow> True | Done \<Rightarrow> True)"

definition worker_ok :: "'c job fibers \<Rightarrow> 'c worker \<Rightarrow> bool" where
  "worker_ok fs x \<longleftrightarrow> w_pc x = Spawned \<or> w_pc x = Done
     \<or> t_scheduler_fiber (w_tls x) \<noteq> None \<and> idle_ok fs x \<and> spare_ok fs x \<and> pc_ok fs x"

definition is_busy :: "'c worker \<Rightarrow> bool" where
  "is_busy x = (case w_pc x of Dispatch k b \<Rightarrow> b | InTask f \<Rightarrow> True | LeftTask f \<Rightarrow> True | InCb \<Rightarrow> True | LeftCb \<Rightarrow> True | _ \<Rightarrow> False)"

definition is_idle :: "'c worker \<Rightarrow> bool" where
  "is_idle x \<longleftrightarrow> w_pc x = InIdle \<or> w_pc x = LeftIdle"

definition own_inv :: "'c job fibers \<Rightarrow> 'c task list \<Rightarrow> (int \<Rightarrow> 'c worker) \<Rightarrow> bool" where
  "own_inv fs ts ws \<longleftrightarrow>
     (\<forall>t. distinct (claims (ws t)) \<and> worker_ok fs (ws t)) \<and>
     (\<forall>t u. t \<noteq> u \<longrightarrow> set (claims (ws t)) \<inter> set (claims (ws u)) = {}) \<and>
     distinct (queued ts) \<and>
     (\<forall>f \<in> set (queued ts). \<forall>t. f \<in> set (claims (ws t)) \<longrightarrow> run_of (ws t) = Some f \<and> m_state (fiber_at fs f) = EXEC) \<and>
     (\<forall>f. m_ctx (fiber_at fs f) = f) \<and>
     (\<forall>k \<in> set ts. tk_fiber k \<noteq> None \<or> tk_cb k \<noteq> None)"

definition count_inv :: "'c scheduler \<Rightarrow> (int \<Rightarrow> 'c worker) \<Rightarrow> bool" where
  "count_inv s ws \<longleftrightarrow> finite {t. w_pc (ws t) \<noteq> Spawned \<and> w_pc (ws t) \<noteq> Done}
     \<and> m_activeThreadCount s = int (card {t. is_busy (ws t)})
     \<and> m_idleThreadCount s = int (card {t. is_idle (ws t)})"

definition sched_inv :: "'c world \<Rightarrow> bool" where
  "sched_inv w \<longleftrightarrow> own_inv (fibs w) (m_tasks (sched w)) (workers w) \<and> count_inv (sched w) (workers w)"


section \<open>Effects of the steps\<close>

lemma set_worker_simps [simp]:
  "fibs (set_worker t x w) = fibs w" "sched (set_worker t x w) = sched w" "workers (set_worker t x w) = (workers w)(t := x)"
  by (simp_all add: set_worker_def)

lemma set_opt_list [simp]: "set (opt_list r) = set_option r" "opt_list None = []" "opt_list (Some y) = [y]"
  by (auto simp: opt_list_def split: option.splits)

lemma queued_simps [simp]:
  "queued [] = []" "queued (xs @ ys) = queued xs @ queued ys" "queued (k # ts) = opt_list (tk_fiber k) @ queued ts"
  by (simp_all add: queued_def map_filter_def opt_list_def split: option.split)

text \<open>A task thread \<open>tid\<close> passes over: it is pinned to another thread, or its fiber is executing.\<close>

definition skipped :: "int \<Rightarrow> 'c job fibers \<Rightarrow> 'c task \<Rightarrow> bool" where
  "skipped tid fs k \<longleftrightarrow> tk_thread k \<noteq> - 1 \<and> tk_thread k \<noteq> tid
     \<or> (case tk_fiber k of Some f \<Rightarrow> m_state (fiber_at fs f) = EXEC | None \<Rightarrow> False)"

lemma scan_cons:
  assumes "tk_fiber k \<noteq> None \<or> tk_cb k \<noteq> None"
  shows "scan tid fs (k # ts) = (if skipped tid fs k
    then rbind (scan tid fs ts) (\<lambda>(tm, r, rest). Inr (tk_thread k \<noteq> - 1 \<and> tk_thread k \<noteq> tid \<or> tm, r, k # rest))
    else Inr (ts \<noteq> [], Some k, ts))"
  using assms by (auto simp: skipped_def)

declare scan.simps(2) [simp del]

lemma scan_ok:
  assumes "\<forall>k \<in> set ts. tk_fiber k \<noteq> None \<or> tk_cb k \<noteq> None"
  shows "\<exists>tm r rest. scan tid fs ts = Inr (tm, r, rest) \<and>
    (case r of None \<Rightarrow> rest = ts \<and> (\<forall>k \<in> set ts. skipped tid fs k)
     | Some k \<Rightarrow> \<exists>xs ys. ts = xs @ k # ys \<and> rest = xs @ ys \<and> \<not> skipped tid fs k \<and> (\<forall>j \<in> set xs. skipped tid fs j))"
  using assms
proof (induction ts)
  case (Cons k ts)
  obtain tm r rest where IH: "scan tid fs ts = Inr (tm, r, rest)"
    "case r of None \<Rightarrow> rest = ts \<and> (\<forall>k \<in> set ts. skipped tid fs k)
     | Some k \<Rightarrow> \<exists>xs ys. ts = xs @ k # ys \<and> rest = xs @ ys \<and> \<not> skipped tid fs k \<and> (\<forall>j \<in> set xs. skipped tid fs j)"
    using Cons by auto
  have sc: "scan tid fs (k # ts) = (if skipped tid fs k
    then Inr (tk_thread k \<noteq> - 1 \<and> tk_thread k \<noteq> tid \<or> tm, r, k # rest) else Inr (ts \<noteq> [], Some k, ts))"
    using Cons.prems IH(1) scan_cons [of k tid fs ts] by simp
  show ?case
  proof (cases "skipped tid fs k")
    case True
    show ?thesis
    proof (cases r)
      case None
      then show ?thesis using IH(2) sc True by simp
    next
      case (Some j)
      then obtain xs ys where "ts = xs @ j # ys" "rest = xs @ ys" "\<not> skipped tid fs j" "\<forall>i \<in> set xs. skipped tid fs i"
        using IH(2) by auto
      then have "\<exists>us vs. k # ts = us @ j # vs \<and> k # rest = us @ vs \<and> \<not> skipped tid fs j \<and> (\<forall>i \<in> set us. skipped tid fs i)"
        using True by (intro exI [of _ "k # xs"] exI [of _ ys]) simp
      then show ?thesis using sc Some True by simp
    qed
  next
    case False
    have "\<exists>xs ys. k # ts = xs @ k # ys \<and> ts = xs @ ys \<and> \<not> skipped tid fs k \<and> (\<forall>j \<in> set xs. skipped tid fs j)"
      by (rule exI [of _ "[]"], rule exI [of _ ts]) (simp add: False)
    then show ?thesis using sc False by simp
  qed
qed auto

lemma enter_ok:
  assumes "t_scheduler_fiber (w_tls x) = Some m" "cpu (w_tls x) = m" "f \<noteq> m" "m_joinSchedule (fiber_at (fibs w) f)"
    "\<forall>g. m_ctx (fiber_at (fibs w) g) = g"
  shows "\<exists>fs'. enter tid f x pc w = Inr (set_worker tid (x\<lparr>w_tls := (w_tls x)\<lparr>t_fiber := Some f, cpu := f\<rparr>, w_pc := pc\<rparr>) (w\<lparr>fibs := fs'\<rparr>))
    \<and> fiber_at fs' = (fiber_at (fibs w))(f := fiber_at (fibs w) f\<lparr>m_state := EXEC\<rparr>)"
proof -
  have "caller_fiber f (fibs w, w_tls x) = Some m" using assms by (simp add: caller_fiber_def)
  then obtain fs' where fs': "fiber_call f (fibs w, w_tls x) = Inr (fs', (w_tls x)\<lparr>t_fiber := Some f, cpu := f\<rparr>)"
    "fiber_at fs' f = fiber_at (fibs w) f\<lparr>m_state := EXEC\<rparr>"
    "\<forall>g. g \<noteq> f \<and> g \<noteq> m \<longrightarrow> fiber_at fs' g = fiber_at (fibs w) g" "fiber_at fs' m = fiber_at (fibs w) m\<lparr>m_ctx := m\<rparr>"
    using call_in_fiber [of "w_tls x" m f "fibs w"] assms by blast
  have "fiber_at (fibs w) m\<lparr>m_ctx := m\<rparr> = fiber_at (fibs w) m" using assms(5) by simp
  then have "fiber_at fs' = (fiber_at (fibs w))(f := fiber_at (fibs w) f\<lparr>m_state := EXEC\<rparr>)"
    using fs' by (auto simp: fun_eq_iff)
  then show ?thesis using fs'(1) by (auto simp: enter_def)
qed

lemma run_leave_ok:
  assumes "t_scheduler_fiber (w_tls (workers w tid)) = Some m" "runs_in (fibs w) (workers w tid) f" "f \<noteq> m"
    "\<forall>g. m_ctx (fiber_at (fibs w) g) = g"
  shows "\<exists>fs'. run_leave l pc tid w = Inr (set_worker tid ((workers w tid)\<lparr>w_tls := (w_tls (workers w tid))\<lparr>t_fiber := Some m, cpu := m\<rparr>, w_pc := pc\<rparr>) (w\<lparr>fibs := fs'\<rparr>))
    \<and> fiber_at fs' = (fiber_at (fibs w))(f := left_fiber l (fiber_at (fibs w) f))"
proof -
  have "in_fiber f m (fibs w, w_tls (workers w tid))"
    using assms by (simp add: in_fiber_def runs_in_def caller_fiber_def)
  then obtain fs' where fs': "leave_op 0 l (fibs w, w_tls (workers w tid)) = Inr (fs', (w_tls (workers w tid))\<lparr>t_fiber := Some m, cpu := m\<rparr>)"
    "fiber_at fs' f = (left_fiber l (fiber_at (fibs w) f))\<lparr>m_ctx := f\<rparr>" "\<forall>h. h \<noteq> f \<longrightarrow> fiber_at fs' h = fiber_at (fibs w) h"
    using leave_in_fiber [of f m "fibs w" _ 0 l] by blast
  have "(left_fiber l (fiber_at (fibs w) f))\<lparr>m_ctx := f\<rparr> = left_fiber l (fiber_at (fibs w) f)"
    using assms(4) left_fiber_frame(2) [of l "fiber_at (fibs w) f"] by (metis fiber.surjective fiber.update_convs(4))
  then have "fiber_at fs' = (fiber_at (fibs w))(f := left_fiber l (fiber_at (fibs w) f))" using fs' by (auto simp: fun_eq_iff)
  then show ?thesis using fs'(1) by (auto simp: run_leave_def)
qed

section \<open>Ownership\<close>

lemma worker_ok_cong:
  assumes "\<And>f. f \<in> set (claims x) \<Longrightarrow> fiber_at fs' f = fiber_at fs f"
  shows "worker_ok fs' x = worker_ok fs x"
proof (cases "w_pc x = Spawned \<or> w_pc x = Done")
  case False
  then have "fiber_at fs' (w_idle x) = fiber_at fs (w_idle x)"
    "\<And>g. w_task_fiber x = Some g \<Longrightarrow> fiber_at fs' g = fiber_at fs g"
    "\<And>g. w_pc x = InTask g \<or> w_pc x = LeftTask g \<or> w_pc x = SettleTask g \<Longrightarrow> fiber_at fs' g = fiber_at fs g"
    by (auto intro!: assms simp: claims_def split: pc.splits)
  then have "idle_ok fs' x = idle_ok fs x" "spare_ok fs' x = spare_ok fs x" "pc_ok fs' x = pc_ok fs x"
    by (auto simp: idle_ok_def spare_ok_def pc_ok_def runs_in_def split: option.splits pc.splits)
  then show ?thesis by (simp add: worker_ok_def)
qed (auto simp: worker_ok_def)

lemma own_inv_step:
  assumes inv: "own_inv fs ts ws"
    and frame: "\<And>g. g \<notin> set (claims (ws t)) \<Longrightarrow> g \<notin> set (claims x') \<Longrightarrow> fiber_at fs' g = fiber_at fs g"
    and new: "\<And>g. g \<in> set (claims x') \<Longrightarrow> g \<in> set (claims (ws t)) \<or> (\<forall>u. g \<notin> set (claims (ws u)))"
    and x': "distinct (claims x')" "worker_ok fs' x'"
    and ctx: "\<And>g. m_ctx (fiber_at fs' g) = g"
    and q: "distinct (queued ts')" "\<And>g. g \<in> set (queued ts') \<Longrightarrow> g \<in> set (queued ts) \<or> g \<in> set (claims (ws t))"
    and own: "\<And>g. g \<in> set (queued ts') \<Longrightarrow> g \<in> set (claims x') \<Longrightarrow> run_of x' = Some g \<and> m_state (fiber_at fs' g) = EXEC"
    and wf: "\<And>k. k \<in> set ts' \<Longrightarrow> tk_fiber k \<noteq> None \<or> tk_cb k \<noteq> None"
  shows "own_inv fs' ts' (ws(t := x'))"
proof -
  have disj: "g \<notin> set (claims (ws t)) \<and> g \<notin> set (claims x')" if "u \<noteq> t" "g \<in> set (claims (ws u))" for u g
    using inv that new [of g] unfolding own_inv_def by blast
  have ok: "worker_ok fs' (ws u)" if "u \<noteq> t" for u
  proof -
    have "worker_ok fs (ws u)" using inv by (simp add: own_inv_def)
    then show ?thesis using worker_ok_cong [of "ws u" fs' fs] frame disj [OF that] by blast
  qed
  have qu: "run_of (ws u) = Some g \<and> m_state (fiber_at fs' g) = EXEC"
    if "u \<noteq> t" "g \<in> set (queued ts')" "g \<in> set (claims (ws u))" for u g
  proof -
    have "g \<in> set (queued ts)" "fiber_at fs' g = fiber_at fs g" using disj [OF that(1,3)] q(2) [OF that(2)] frame by auto
    then show ?thesis using inv that by (auto simp: own_inv_def)
  qed
  have "set (claims (ws u)) \<inter> set (claims x') = {}" if "u \<noteq> t" for u using disj [OF that] by blast
  then show ?thesis using inv x' ctx q(1) own wf ok qu unfolding own_inv_def by (auto simp: Int_commute)
qed

lemma card_update:
  assumes "finite {u. P (ws u)}"
  shows "int (card {u. P ((ws(t := x')) u)}) = int (card {u. P (ws u)}) + of_bool (P x') - of_bool (P (ws t))"
proof -
  let ?A = "{u. P (ws u)}"
  have "{u. P ((ws(t := x')) u)} = (if P x' then insert t (?A - {t}) else ?A - {t})" by auto
  moreover have "P (ws t) \<Longrightarrow> Suc 0 \<le> card ?A" using assms by (auto simp: Suc_le_eq card_gt_0_iff)
  ultimately show ?thesis using assms by (auto simp: card_Diff_singleton_if of_nat_diff card.insert_remove)
qed

lemma count_step:
  assumes "count_inv s ws"
    "m_activeThreadCount s' = m_activeThreadCount s + of_bool (is_busy x') - of_bool (is_busy (ws t))"
    "m_idleThreadCount s' = m_idleThreadCount s + of_bool (is_idle x') - of_bool (is_idle (ws t))"
  shows "count_inv s' (ws(t := x'))"
proof -
  let ?F = "{u. w_pc (ws u) \<noteq> Spawned \<and> w_pc (ws u) \<noteq> Done}"
  have fin: "finite ?F" using assms(1) by (simp add: count_inv_def)
  have "{u. is_busy (ws u)} \<subseteq> ?F" "{u. is_idle (ws u)} \<subseteq> ?F" by (auto simp: is_busy_def is_idle_def split: pc.splits)
  then have "finite {u. is_busy (ws u)}" "finite {u. is_idle (ws u)}" using fin finite_subset by auto
  moreover have "{u. w_pc ((ws(t := x')) u) \<noteq> Spawned \<and> w_pc ((ws(t := x')) u) \<noteq> Done} \<subseteq> insert t ?F" by auto
  then have "finite {u. w_pc ((ws(t := x')) u) \<noteq> Spawned \<and> w_pc ((ws(t := x')) u) \<noteq> Done}"
    using fin finite_subset by blast
  ultimately show ?thesis using assms card_update [of is_busy ws t x'] card_update [of is_idle ws t x']
    by (simp add: count_inv_def)
qed

lemma schedule_simps [simp]:
  "m_tasks (schedule ft s) = (if tk_fiber ft \<noteq> None \<or> tk_cb ft \<noteq> None then m_tasks s @ [ft] else m_tasks s)"
  "m_activeThreadCount (schedule ft s) = m_activeThreadCount s" "m_idleThreadCount (schedule ft s) = m_idleThreadCount s"
  by (simp_all add: schedule_def scheduleNoLock_def tickle_def)

lemma sched_invD:
  assumes "sched_inv w"
  shows "own_inv (fibs w) (m_tasks (sched w)) (workers w)" "count_inv (sched w) (workers w)"
    "distinct (claims (workers w t))" "worker_ok (fibs w) (workers w t)" "\<And>f. m_ctx (fiber_at (fibs w) f) = f"
    "distinct (queued (m_tasks (sched w)))"
    "\<And>f. f \<in> set (queued (m_tasks (sched w))) \<Longrightarrow> f \<in> set (claims (workers w t)) \<Longrightarrow>
      run_of (workers w t) = Some f \<and> m_state (fiber_at (fibs w) f) = EXEC"
    "\<forall>k \<in> set (m_tasks (sched w)). tk_fiber k \<noteq> None \<or> tk_cb k \<noteq> None"
  using assms by (simp_all add: sched_inv_def own_inv_def)

text \<open>A step of one worker that touches only fibers it refers to.\<close>

lemma worker_step:
  assumes inv: "sched_inv w" and w': "w' = w\<lparr>fibs := fs', sched := s', workers := (workers w)(t := x')\<rparr>"
    and frame: "\<And>g. g \<notin> set (claims (workers w t)) \<Longrightarrow> g \<notin> set (claims x') \<Longrightarrow> fiber_at fs' g = fiber_at (fibs w) g"
    and new: "\<And>g. g \<in> set (claims x') \<Longrightarrow> g \<in> set (claims (workers w t)) \<or> (\<forall>u. g \<notin> set (claims (workers w u)))"
    and x': "distinct (claims x')" "worker_ok fs' x'"
    and ctx: "\<And>g. m_ctx (fiber_at fs' g) = g"
    and q: "distinct (queued (m_tasks s'))"
      "\<And>g. g \<in> set (queued (m_tasks s')) \<Longrightarrow> g \<in> set (queued (m_tasks (sched w))) \<or> g \<in> set (claims (workers w t))"
    and own: "\<And>g. g \<in> set (queued (m_tasks s')) \<Longrightarrow> g \<in> set (claims x') \<Longrightarrow> run_of x' = Some g \<and> m_state (fiber_at fs' g) = EXEC"
    and wf: "\<And>k. k \<in> set (m_tasks s') \<Longrightarrow> tk_fiber k \<noteq> None \<or> tk_cb k \<noteq> None"
    and counts: "m_activeThreadCount s' = m_activeThreadCount (sched w) + of_bool (is_busy x') - of_bool (is_busy (workers w t))"
      "m_idleThreadCount s' = m_idleThreadCount (sched w) + of_bool (is_idle x') - of_bool (is_idle (workers w t))"
  shows "sched_inv w'"
proof -
  have "own_inv fs' (m_tasks s') ((workers w)(t := x'))"
    by (rule own_inv_step [OF sched_invD(1) [OF inv]]) (fact frame new x' ctx q own wf)+
  moreover have "count_inv s' ((workers w)(t := x'))"
    by (rule count_step [OF sched_invD(2) [OF inv]]) (fact counts)+
  ultimately show ?thesis by (simp add: sched_inv_def w')
qed

section \<open>Every step keeps the invariant and fails no ASSERT\<close>

lemma pick_ok:
  assumes inv: "sched_inv w" and pc: "w_pc (workers w t) = Top"
  shows "\<exists>w'. run_pick t w = Inr w' \<and> sched_inv w'"
proof -
  note d = sched_invD [OF inv]
  have cl0: "distinct (claims (workers w t))" "worker_ok (fibs w) (workers w t)" using d(3,4) by blast+
  obtain tm r rest where sc: "scan t (fibs w) (m_tasks (sched w)) = Inr (tm, r, rest)"
    "case r of None \<Rightarrow> rest = m_tasks (sched w) \<and> (\<forall>k \<in> set (m_tasks (sched w)). skipped t (fibs w) k)
     | Some k \<Rightarrow> \<exists>xs ys. m_tasks (sched w) = xs @ k # ys \<and> rest = xs @ ys \<and> \<not> skipped t (fibs w) k
         \<and> (\<forall>j \<in> set xs. skipped t (fibs w) j)"
    using scan_ok [OF d(8)] by blast
  define k where "k = (case r of None \<Rightarrow> Task_reset | Some k \<Rightarrow> k)"
  define s' where "s' = (if tm then tickle else id) (case r of None \<Rightarrow> sched w
    | Some k \<Rightarrow> (sched w)\<lparr>m_tasks := rest, m_activeThreadCount := m_activeThreadCount (sched w) + 1\<rparr>)"
  define x' where "x' = (workers w t)\<lparr>w_pc := Dispatch k (r \<noteq> None)\<rparr>"
  have run: "run_pick t w = Inr (w\<lparr>fibs := fibs w, sched := s', workers := (workers w)(t := x')\<rparr>)"
    by (simp add: run_pick_def sc(1) s'_def x'_def k_def set_worker_def Let_def)
  have rest: "m_tasks s' = rest" using sc(2) by (auto simp: s'_def tickle_def split: option.splits)
  have sub: "set rest \<subseteq> set (m_tasks (sched w))" "distinct (queued rest)"
    "set (queued rest) \<subseteq> set (queued (m_tasks (sched w)))"
    using sc(2) d(6) by (auto split: option.splits)
  have kf: "f \<in> set (queued (m_tasks (sched w))) \<and> f \<notin> set (queued rest) \<and> (\<forall>u. f \<notin> set (claims (workers w u)))"
    if f: "tk_fiber k = Some f" for f
  proof -
    obtain k' xs ys where k': "r = Some k'" "m_tasks (sched w) = xs @ k' # ys" "rest = xs @ ys" "\<not> skipped t (fibs w) k'"
      using f sc(2) by (auto simp: k_def Task_reset_def split: option.splits)
    then have f': "tk_fiber k' = Some f" using f by (simp add: k_def)
    then have "m_state (fiber_at (fibs w) f) \<noteq> EXEC" using k'(4) by (simp add: skipped_def)
    moreover have "f \<in> set (queued (m_tasks (sched w)))" using k'(2) f' by simp
    ultimately have "f \<notin> set (claims (workers w u))" for u using sched_invD(7) [OF inv] by blast
    then show ?thesis using d(6) k'(2,3) f' by simp
  qed
  have cl: "claims x' = claims (workers w t) @ opt_list (tk_fiber k)" using pc by (simp add: claims_def x'_def)
  have ro: "run_of (workers w t) = None" using pc by (simp add: run_of_def)
  have act: "(r \<noteq> None) = (tk_fiber k \<noteq> None \<or> tk_cb k \<noteq> None)"
    using sc(2) d(8) by (auto simp: k_def Task_reset_def split: option.splits)
  have "worker_ok (fibs w) x'"
    using cl0(2) pc act by (auto simp: worker_ok_def x'_def idle_ok_def spare_ok_def pc_ok_def at_loop_def split: option.splits)
  moreover have "distinct (claims x')" using cl0(1) kf cl by (cases "tk_fiber k") auto
  moreover have "m_activeThreadCount s' = m_activeThreadCount (sched w) + of_bool (is_busy x') - of_bool (is_busy (workers w t))"
    "m_idleThreadCount s' = m_idleThreadCount (sched w) + of_bool (is_idle x') - of_bool (is_idle (workers w t))"
    using pc by (auto simp: s'_def x'_def is_busy_def is_idle_def tickle_def split: option.splits)
  moreover have "g \<notin> set (claims x')" if "g \<in> set (queued rest)" for g
    using that sub(3) kf cl ro sched_invD(7) [OF inv, of g t] by (cases "tk_fiber k") auto
  ultimately have "sched_inv (w\<lparr>fibs := fibs w, sched := s', workers := (workers w)(t := x')\<rparr>)"
    using pc rest sub kf cl d(5,8) by (intro worker_step [OF inv refl]) auto
  then show ?thesis using run by blast
qed

lemma unclaimed_queue:
  assumes "sched_inv w" "run_of (workers w t) = None" "g \<in> set (queued (m_tasks (sched w)))"
  shows "g \<notin> set (claims (workers w t))"
  using sched_invD(7) [OF assms(1), of g t] assms(2,3) by auto

lemmas worker_defs = worker_ok_def idle_ok_def spare_ok_def pc_ok_def at_loop_def runs_in_def left_state_def

lemma dispatch_task_ok:
  assumes inv: "sched_inv w" and pc: "w_pc (workers w t) = Dispatch k act" and f: "tk_fiber k = Some f"
    and live: "live (m_state (fiber_at (fibs w) f))"
  shows "\<exists>w'. run_dispatch ss a t k act w = Inr w' \<and> sched_inv w'"
proof -
  note d = sched_invD [OF inv]
  define x where "x = workers w t"
  obtain m where m: "t_scheduler_fiber (w_tls x) = Some m" "cpu (w_tls x) = m" "worker_ok (fibs w) x" and act: "act"
    using d(4) [of t] pc f by (auto simp: worker_defs x_def)
  have cl: "claims x = m # w_idle x # opt_list (w_task_fiber x) @ [f]" using pc f m by (simp add: claims_def x_def)
  then have ne: "f \<noteq> m" "w_idle x \<noteq> f" "w_task_fiber x \<noteq> Some f" using d(3) [of t] by (auto simp: x_def)
  define w1 where "w1 = w\<lparr>fibs := setUseCaller f True (fibs w)\<rparr>"
  have ctx: "\<forall>g. m_ctx (fiber_at (fibs w1) g) = g" using d(5) by (simp add: w1_def setUseCaller_def)
  obtain fs' where fs': "enter t f x (InTask f) w1 = Inr (set_worker t (x\<lparr>w_tls := (w_tls x)\<lparr>t_fiber := Some f, cpu := f\<rparr>, w_pc := InTask f\<rparr>) (w1\<lparr>fibs := fs'\<rparr>))"
    "fiber_at fs' = (fiber_at (fibs w1))(f := fiber_at (fibs w1) f\<lparr>m_state := EXEC\<rparr>)"
    using enter_ok [OF m(1,2) ne(1) _ ctx, of t "InTask f"] by (auto simp: w1_def setUseCaller_def)
  define x' where "x' = x\<lparr>w_tls := (w_tls x)\<lparr>t_fiber := Some f, cpu := f\<rparr>, w_pc := InTask f\<rparr>"
  have fs'_at: "fiber_at fs' g = (if g = f then fiber_at (fibs w) f\<lparr>m_joinSchedule := True, m_state := EXEC\<rparr> else fiber_at (fibs w) g)" for g
    using fs'(2) by (simp add: w1_def setUseCaller_def)
  have run: "run_dispatch ss a t k act w = Inr (w\<lparr>fibs := fs', sched := sched w, workers := (workers w)(t := x')\<rparr>)"
    using fs'(1) f live by (simp add: run_dispatch_def x'_def w1_def set_worker_def Let_def flip: x_def)
  have cl': "claims x' = claims x" using cl m by (simp add: claims_def x'_def)
  have "worker_ok fs' x'" using m(3) ne pc f m(1) by (auto simp: worker_defs x'_def fs'_at split: option.splits) (auto simp: x_def)
  moreover have "run_of (workers w t) = None" using pc by (simp add: run_of_def)
  note unclaimed_queue [OF inv this]
  ultimately have "sched_inv (w\<lparr>fibs := fs', sched := sched w, workers := (workers w)(t := x')\<rparr>)"
    using pc d(3) [of t] d(5,6,8) cl' cl act
    by (intro worker_step [OF inv refl]) (auto simp: x_def fs'_at x'_def is_busy_def is_idle_def)
  then show ?thesis using run by blast
qed

lemma dispatch_cb_ok:
  assumes inv: "sched_inv w" and pc: "w_pc (workers w t) = Dispatch k act" and fresh: "fresh a w"
    and nf: "\<not> (case tk_fiber k of Some f \<Rightarrow> live (m_state (fiber_at (fibs w) f)) | None \<Rightarrow> False)" and cb: "tk_cb k \<noteq> None"
  shows "\<exists>w'. run_dispatch ss a t k act w = Inr w' \<and> sched_inv w'"
proof -
  note d = sched_invD [OF inv]
  define x where "x = workers w t"
  obtain m where m: "t_scheduler_fiber (w_tls x) = Some m" "cpu (w_tls x) = m" "worker_ok (fibs w) x" and act: "act"
    using d(4) [of t] pc cb by (auto simp: worker_defs x_def)
  have cl: "claims x = m # w_idle x # opt_list (w_task_fiber x) @ opt_list (tk_fiber k)" using pc m by (simp add: claims_def x_def)
  have "a \<notin> set (claims x)" using fresh by (simp add: fresh_def x_def)
  then have fa: "a \<noteq> m" "a \<noteq> w_idle x" using cl by auto
  define g where "g = (case w_task_fiber x of Some g \<Rightarrow> g | None \<Rightarrow> a)"
  define fs1 where "fs1 = (case w_task_fiber x of
      Some g \<Rightarrow> upd_fiber g (\<lambda>y. y\<lparr>fiber_cb := tk_cb k, m_ctx := g, m_joinSchedule := True, m_state := INIT\<rparr>) (fibs w)
    | None \<Rightarrow> Fiber ss a (tk_cb k) 0 True (fibs w))"
  have prep: "(case w_task_fiber x of
                 Some g \<Rightarrow> rbind (reset g (tk_cb k) True (fibs w)) (\<lambda>fs. Inr (g, fs))
               | None \<Rightarrow> Inr (a, Fiber ss a (tk_cb k) 0 True (fibs w))) = Inr (g, fs1)"
    using m(3) pc by (auto simp: g_def fs1_def reset_def idle_state_def worker_ok_def spare_ok_def x_def split: option.splits)
  have ne: "g \<noteq> m" "w_idle x \<noteq> g" "\<And>h. h \<noteq> g \<Longrightarrow> fiber_at fs1 h = fiber_at (fibs w) h"
    "m_joinSchedule (fiber_at fs1 g)" "m_stack (fiber_at fs1 g)" "\<forall>h. m_ctx (fiber_at fs1 h) = h"
    "g \<in> set (claims x) \<or> (\<forall>u. g \<notin> set (claims (workers w u)))" "g \<notin> set (queued (m_tasks (sched w)))"
    using d(3) [of t] cl d(5) fresh fa m(3) pc unclaimed_queue [OF inv, of t]
    by (auto simp: g_def fs1_def x_def fresh_def Fiber_def worker_ok_def spare_ok_def run_of_def split: option.splits)
  define x' where "x' = x\<lparr>w_task_fiber := Some g, w_tls := (w_tls x)\<lparr>t_fiber := Some g, cpu := g\<rparr>, w_pc := InCb\<rparr>"
  obtain fs' where fs': "enter t g (x\<lparr>w_task_fiber := Some g\<rparr>) InCb (w\<lparr>fibs := fs1\<rparr>) = Inr (set_worker t x' (w\<lparr>fibs := fs'\<rparr>))"
    "fiber_at fs' = (fiber_at fs1)(g := fiber_at fs1 g\<lparr>m_state := EXEC\<rparr>)"
    using enter_ok [of "x\<lparr>w_task_fiber := Some g\<rparr>" m g "w\<lparr>fibs := fs1\<rparr>" t InCb] m(1,2) ne by (auto simp: x'_def)
  have run: "run_dispatch ss a t k act w = Inr (w\<lparr>fibs := fs', sched := sched w, workers := (workers w)(t := x')\<rparr>)"
    using nf cb fs'(1) prep by (simp add: run_dispatch_def set_worker_def Let_def flip: x_def)
  have cl': "claims x' = [m, w_idle x, g]" using m by (simp add: claims_def x'_def)
  have "worker_ok fs' x'" using m(1,3) ne pc by (auto simp: worker_defs x'_def fs'(2) x_def split: option.splits)
  moreover have "distinct (claims x')" using cl' ne(1,2) d(3) [of t] cl by (auto simp: x_def)
  moreover have "run_of (workers w t) = None" using pc by (simp add: run_of_def)
  note unclaimed_queue [OF inv this]
  ultimately have "sched_inv (w\<lparr>fibs := fs', sched := sched w, workers := (workers w)(t := x')\<rparr>)"
    using pc d(5,6,8) cl' cl act ne
    by (intro worker_step [OF inv refl]) (auto simp: fs'(2) is_busy_def is_idle_def x'_def x_def)
  then show ?thesis using run by blast
qed

lemma dispatch_rest_ok:
  assumes inv: "sched_inv w" and pc: "w_pc (workers w t) = Dispatch k act"
    and nf: "\<not> (case tk_fiber k of Some f \<Rightarrow> live (m_state (fiber_at (fibs w) f)) | None \<Rightarrow> False)" and cb: "tk_cb k = None"
  shows "\<exists>w'. run_dispatch ss a t k act w = Inr w' \<and> sched_inv w'"
proof -
  note d = sched_invD [OF inv]
  define x where "x = workers w t"
  obtain m where m: "t_scheduler_fiber (w_tls x) = Some m" "cpu (w_tls x) = m" "worker_ok (fibs w) x"
    and act: "act = (tk_fiber k \<noteq> None)"
    using d(4) [of t] pc cb by (auto simp: worker_defs x_def)
  have cl: "claims x = m # w_idle x # opt_list (w_task_fiber x) @ opt_list (tk_fiber k)" using pc m by (simp add: claims_def x_def)
  have "run_of (workers w t) = None" using pc by (simp add: run_of_def)
  note free = unclaimed_queue [OF inv this]
  consider "act" | "\<not> act" "m_state (fiber_at (fibs w) (w_idle x)) = TERMINATED"
    | "\<not> act" "m_state (fiber_at (fibs w) (w_idle x)) \<noteq> TERMINATED" by blast
  then show ?thesis
  proof cases
    case 1
    let ?x' = "x\<lparr>w_pc := Top\<rparr>" and ?s' = "(sched w)\<lparr>m_activeThreadCount := m_activeThreadCount (sched w) - 1\<rparr>"
    have "run_dispatch ss a t k act w = Inr (w\<lparr>fibs := fibs w, sched := ?s', workers := (workers w)(t := ?x')\<rparr>)"
      using 1 nf cb by (simp add: run_dispatch_def set_worker_def Let_def x_def)
    moreover have "claims ?x' = m # w_idle x # opt_list (w_task_fiber x)" using m by (simp add: claims_def)
    then have "sched_inv (w\<lparr>fibs := fibs w, sched := ?s', workers := (workers w)(t := ?x')\<rparr>)"
      using 1 pc d(3) [of t] d(5,6,8) cl free m
      by (intro worker_step [OF inv refl]) (auto simp: x_def is_busy_def is_idle_def worker_defs split: option.splits)
    ultimately show ?thesis by blast
  next
    case 2
    let ?x' = "x\<lparr>w_pc := Done\<rparr>"
    have "run_dispatch ss a t k act w = Inr (w\<lparr>fibs := fibs w, sched := sched w, workers := (workers w)(t := ?x')\<rparr>)"
      using 2 nf cb by (simp add: run_dispatch_def set_worker_def Let_def x_def)
    moreover have "claims ?x' = []" by (simp add: claims_def)
    then have "sched_inv (w\<lparr>fibs := fibs w, sched := sched w, workers := (workers w)(t := ?x')\<rparr>)"
      using 2 pc d(5,6,8) by (intro worker_step [OF inv refl]) (auto simp: x_def is_busy_def is_idle_def worker_ok_def)
    ultimately show ?thesis by blast
  next
    case 3
    then have kf: "tk_fiber k = None" using act by simp
    let ?s' = "(sched w)\<lparr>m_idleThreadCount := m_idleThreadCount (sched w) + 1\<rparr>"
    have ne: "w_idle x \<noteq> m" "m_joinSchedule (fiber_at (fibs w) (w_idle x))"
      using d(3) [of t] cl m(3) pc by (auto simp: x_def worker_ok_def idle_ok_def)
    define x' where "x' = x\<lparr>w_tls := (w_tls x)\<lparr>t_fiber := Some (w_idle x), cpu := w_idle x\<rparr>, w_pc := InIdle\<rparr>"
    obtain fs' where fs': "enter t (w_idle x) x InIdle (w\<lparr>sched := ?s'\<rparr>) = Inr (set_worker t x' (w\<lparr>sched := ?s', fibs := fs'\<rparr>))"
      "fiber_at fs' = (fiber_at (fibs w))(w_idle x := fiber_at (fibs w) (w_idle x)\<lparr>m_state := EXEC\<rparr>)"
      using enter_ok [of x m "w_idle x" "w\<lparr>sched := ?s'\<rparr>" t InIdle] m(1,2) ne d(5) by (auto simp: x'_def)
    have run: "run_dispatch ss a t k act w = Inr (w\<lparr>fibs := fs', sched := ?s', workers := (workers w)(t := x')\<rparr>)"
      using 3 nf cb fs'(1) by (simp add: run_dispatch_def set_worker_def Let_def flip: x_def)
    have cl': "claims x' = claims x" using m cl kf by (simp add: claims_def x'_def)
    have "worker_ok fs' x'" using m(1,3) ne pc d(3) [of t] cl
      by (auto simp: worker_defs x'_def fs'(2) x_def split: option.splits)
    then have "sched_inv (w\<lparr>fibs := fs', sched := ?s', workers := (workers w)(t := x')\<rparr>)"
      using 3 pc d(3) [of t] d(5,6,8) cl' cl free
      by (intro worker_step [OF inv refl]) (auto simp: fs'(2) is_busy_def is_idle_def x'_def x_def)
    then show ?thesis using run by blast
  qed
qed

lemma dispatch_ok:
  assumes "sched_inv w" "w_pc (workers w t) = Dispatch k act" "fresh a w"
  shows "\<exists>w'. run_dispatch ss a t k act w = Inr w' \<and> sched_inv w'"
proof (cases "case tk_fiber k of Some f \<Rightarrow> live (m_state (fiber_at (fibs w) f)) | None \<Rightarrow> False")
  case True
  then obtain f where "tk_fiber k = Some f" "live (m_state (fiber_at (fibs w) f))" by (auto split: option.splits)
  then show ?thesis using dispatch_task_ok [OF assms(1,2)] by blast
next
  case False
  then show ?thesis using dispatch_cb_ok [OF assms(1,2,3) False] dispatch_rest_ok [OF assms(1,2) False]
    by (cases "tk_cb k = None") blast+
qed

lemma left_fiber_state: "m_state (fiber_at fs f) = EXEC \<Longrightarrow> left_state (m_state (left_fiber l (fiber_at fs f)))"
  "l \<noteq> ToHold \<Longrightarrow> m_state (left_fiber l y) \<noteq> EXEC" "left_fiber ToHold y = y"
  by (cases l; simp add: left_state_def)+

text \<open>The fiber in hand leaves: the worker moves from a pc inside the fiber to the pc behind the call.\<close>

lemma leave_ok:
  assumes inv: "sched_inv w" and f: "runs_in (fibs w) (workers w t) f" "run_of (workers w t) = Some f \<or> f = w_idle (workers w t)"
    and may: "may_leave l (Some f) w" and sf: "t_scheduler_fiber (w_tls (workers w t)) = Some m"
    and pcs: "w_pc (workers w t) = InTask f \<and> pc' = LeftTask f \<or> w_pc (workers w t) = InCb \<and> pc' = LeftCb \<and> w_task_fiber (workers w t) = Some f
      \<or> w_pc (workers w t) = InIdle \<and> pc' = LeftIdle \<and> f = w_idle (workers w t) \<and> l \<in> {ToHold, Finish}"
  shows "\<exists>w'. run_leave l pc' t w = Inr w' \<and> sched_inv w'"
proof -
  note d = sched_invD [OF inv]
  define x where "x = workers w t"
  have cl: "set (claims x) = {m, w_idle x} \<union> set_option (w_task_fiber x) \<union> set_option (run_of x)" "m \<noteq> f"
    and di: "distinct (claims x)" and ok: "worker_ok (fibs w) x"
    using d(3) [of t] d(4) [of t] sf pcs by (auto simp: claims_def x_def run_of_def)
  define x' where "x' = x\<lparr>w_tls := (w_tls x)\<lparr>t_fiber := Some m, cpu := m\<rparr>, w_pc := pc'\<rparr>"
  obtain fs' where run: "run_leave l pc' t w = Inr (set_worker t x' (w\<lparr>fibs := fs'\<rparr>))"
    and fs': "fiber_at fs' = (fiber_at (fibs w))(f := left_fiber l (fiber_at (fibs w) f))"
    using run_leave_ok [OF sf f(1), of l pc'] cl(2) d(5) by (auto simp: x'_def x_def)
  have cl': "claims x' = claims x" and ro: "run_of x' = run_of x" and cnt: "is_busy x' = is_busy x" "is_idle x' = is_idle x"
    using pcs sf by (auto simp: claims_def x'_def x_def run_of_def is_busy_def is_idle_def)
  have st: "left_state (m_state (fiber_at fs' f))" "m_stack (fiber_at fs' f) = m_stack (fiber_at (fibs w) f)"
    "m_joinSchedule (fiber_at fs' f) = m_joinSchedule (fiber_at (fibs w) f)"
    using f(1) left_fiber_state(1) by (auto simp: fs' runs_in_def)
  have other: "g \<noteq> f \<Longrightarrow> fiber_at fs' g = fiber_at (fibs w) g" for g by (simp add: fs')
  have ok3: "idle_ok (fibs w) x" "spare_ok (fibs w) x" using ok pcs by (auto simp: worker_ok_def x_def)
  have dif: "w_pc x \<noteq> InIdle \<Longrightarrow> w_idle x \<noteq> f" "w_pc x \<noteq> InCb \<Longrightarrow> w_task_fiber x \<noteq> Some f"
    using di pcs sf by (auto simp: claims_def x_def)
  have "m_joinSchedule (fiber_at fs' (w_idle x))" using ok3(1) st(3) other by (cases "w_idle x = f") (simp_all add: idle_ok_def)
  moreover have "m_state (fiber_at fs' (w_idle x)) \<in> {INIT, HOLD, TERMINATED}" if "pc' \<noteq> LeftIdle"
  proof -
    have "w_pc x \<noteq> InIdle" "w_pc x \<noteq> LeftIdle" using pcs that by (auto simp: x_def)
    then show ?thesis using ok3(1) other dif(1) by (simp add: idle_ok_def)
  qed
  ultimately have i': "idle_ok fs' x'" by (simp add: idle_ok_def x'_def)
  have "m_stack (fiber_at fs' g)" if "w_task_fiber x = Some g" for g
    using ok3(2) that st(2) other by (cases "g = f") (simp_all add: spare_ok_def)
  moreover have "pc' = LeftCb \<or> m_state (fiber_at fs' g) = INIT" if g: "w_task_fiber x = Some g" for g
  proof (cases "w_pc x = InCb")
    case False
    then have "g \<noteq> f" "w_pc x \<notin> {InCb, LeftCb, SettleCb}" using dif(2) g pcs by (auto simp: x_def)
    then show ?thesis using ok3(2) g other by (simp add: spare_ok_def)
  qed (use pcs in \<open>auto simp: x_def\<close>)
  ultimately have s': "spare_ok fs' x'" by (auto simp: spare_ok_def x'_def split: option.splits)
  have "l \<in> {ToHold, Finish} \<Longrightarrow> m_state (fiber_at fs' f) \<in> {EXEC, TERMINATED}" using f(1) by (auto simp: fs' runs_in_def)
  then have "pc_ok fs' x'" using pcs st(1) sf by (elim disjE conjE) (simp_all add: pc_ok_def x'_def x_def at_loop_def)
  then have "worker_ok fs' x'" using i' s' sf by (simp add: worker_ok_def x'_def x_def)
  moreover have "run_of x = Some g \<and> m_state (fiber_at fs' g) = EXEC"
    if "g \<in> set (queued (m_tasks (sched w)))" "g \<in> set (claims x)" for g
  proof -
    have "run_of x = Some g" "m_state (fiber_at (fibs w) g) = EXEC" using d(7) [of g t] that by (auto simp: x_def)
    then show ?thesis using may that by (auto simp: fs' may_leave_def)
  qed
  moreover have "f \<in> set (claims x)" using f(2) cl(1) by (auto simp: x_def)
  moreover have "w_pc (workers w t) \<noteq> Spawned" "w_pc (workers w t) \<noteq> Done" using pcs by auto
  moreover have "m_ctx (fiber_at fs' g) = g" for g using d(5) by (simp add: fs')
  ultimately have "sched_inv (w\<lparr>fibs := fs', sched := sched w, workers := (workers w)(t := x')\<rparr>)"
    using d(6,8) di cl' ro cnt other
    by (intro worker_step [OF inv refl]) (simp_all add: x_def, metis)
  then show ?thesis using run by (simp add: set_worker_def)
qed

text \<open>A worker at the loop level that has just left the fiber \<open>f\<close> in hand.\<close>

lemma left_worker:
  assumes inv: "sched_inv w" and pcs: "w_pc (workers w t) = LeftTask f \<or> w_pc (workers w t) = SettleTask f
      \<or> (w_pc (workers w t) = LeftCb \<or> w_pc (workers w t) = SettleCb) \<and> w_task_fiber (workers w t) = Some f"
  shows "\<exists>m. t_scheduler_fiber (w_tls (workers w t)) = Some m" "at_loop (workers w t)" "run_of (workers w t) = Some f"
    "left_state (m_state (fiber_at (fibs w) f))" "w_idle (workers w t) \<noteq> f" "t_scheduler_fiber (w_tls (workers w t)) \<noteq> Some f"
    "f \<in> set (claims (workers w t))" "m_state (fiber_at (fibs w) f) \<noteq> EXEC \<Longrightarrow> f \<notin> set (queued (m_tasks (sched w)))"
proof -
  have ok: "worker_ok (fibs w) (workers w t)" and di: "distinct (claims (workers w t))"
    using sched_invD(3,4) [OF inv] by blast+
  show "\<exists>m. t_scheduler_fiber (w_tls (workers w t)) = Some m" "at_loop (workers w t)"
    "left_state (m_state (fiber_at (fibs w) f))"
    using ok pcs by (auto simp: worker_ok_def pc_ok_def)
  show "run_of (workers w t) = Some f" using pcs by (auto simp: run_of_def)
  show "w_idle (workers w t) \<noteq> f" "t_scheduler_fiber (w_tls (workers w t)) \<noteq> Some f" using di pcs by (auto simp: claims_def)
  show "f \<in> set (claims (workers w t))" using pcs by (auto simp: claims_def)
  then show "f \<notin> set (queued (m_tasks (sched w)))" if "m_state (fiber_at (fibs w) f) \<noteq> EXEC"
    using sched_invD(7) [OF inv, of f t] that by auto
qed

lemma same_claims_step:
  assumes inv: "sched_inv w" and x': "claims x' = claims (workers w t)" "run_of x' = run_of (workers w t)" "worker_ok (fibs w) x'"
    and act: "w_pc (workers w t) \<noteq> Spawned" "w_pc (workers w t) \<noteq> Done" and tasks: "m_tasks s' = m_tasks (sched w)"
    and counts: "m_activeThreadCount s' = m_activeThreadCount (sched w) + of_bool (is_busy x') - of_bool (is_busy (workers w t))"
      "m_idleThreadCount s' = m_idleThreadCount (sched w) + of_bool (is_idle x') - of_bool (is_idle (workers w t))"
  shows "sched_inv (w\<lparr>sched := s', workers := (workers w)(t := x')\<rparr>)"
proof -
  have "sched_inv (w\<lparr>fibs := fibs w, sched := s', workers := (workers w)(t := x')\<rparr>)"
    using sched_invD(3,5,6,7,8) [OF inv] assms by (intro worker_step [OF inv refl]) simp_all
  then show ?thesis by simp
qed

lemma after_task_ok:
  assumes inv: "sched_inv w" and pc: "w_pc (workers w t) = LeftTask f"
  shows "sched_inv (run_after_task t f w)"
proof -
  have "worker_ok (fibs w) (workers w t)" using sched_invD(4) [OF inv] .
  then have "worker_ok (fibs w) ((workers w t)\<lparr>w_pc := SettleTask f\<rparr>)"
    using pc by (auto simp: worker_ok_def idle_ok_def spare_ok_def pc_ok_def at_loop_def split: option.splits)
  then have "sched_inv (w\<lparr>sched := dec_active (sched w), workers := (workers w)(t := (workers w t)\<lparr>w_pc := SettleTask f\<rparr>)\<rparr>)"
    using pc by (intro same_claims_step [OF inv]) (simp_all add: claims_def run_of_def is_busy_def is_idle_def dec_active_def)
  then show ?thesis by (simp add: run_after_task_def set_worker_def)
qed

lemma after_cb_ok:
  assumes inv: "sched_inv w" and pc: "w_pc (workers w t) = LeftCb"
  shows "sched_inv (run_after_cb t w)"
proof -
  have "worker_ok (fibs w) (workers w t)" using sched_invD(4) [OF inv] .
  then have "worker_ok (fibs w) ((workers w t)\<lparr>w_pc := SettleCb\<rparr>)"
    using pc by (auto simp: worker_ok_def idle_ok_def spare_ok_def pc_ok_def at_loop_def split: option.splits)
  then have "sched_inv (w\<lparr>sched := dec_active (sched w), workers := (workers w)(t := (workers w t)\<lparr>w_pc := SettleCb\<rparr>)\<rparr>)"
    using pc by (intro same_claims_step [OF inv]) (simp_all add: claims_def run_of_def is_busy_def is_idle_def dec_active_def)
  then show ?thesis by (simp add: run_after_cb_def set_worker_def)
qed

text \<open>The worker lets go of the fiber \<open>f\<close>, which goes to the queue or to hold.\<close>

lemma release_ok:
  assumes inv: "sched_inv w" and pcs: "w_pc (workers w t) = SettleTask f \<and> x' = (workers w t)\<lparr>w_pc := Top\<rparr>
      \<or> w_pc (workers w t) = SettleCb \<and> w_task_fiber (workers w t) = Some f \<and> x' = (workers w t)\<lparr>w_task_fiber := None, w_pc := Top\<rparr>"
    and fs': "\<And>g. g \<noteq> f \<Longrightarrow> fiber_at fs' g = fiber_at (fibs w) g" "\<And>g. m_ctx (fiber_at fs' g) = g"
    and s': "m_tasks s' = m_tasks (sched w) \<or> m_state (fiber_at (fibs w) f) \<noteq> EXEC \<and> m_tasks s' = m_tasks (sched w) @ [Task (Some f) None (- 1)]"
      "m_activeThreadCount s' = m_activeThreadCount (sched w)" "m_idleThreadCount s' = m_idleThreadCount (sched w)"
  shows "sched_inv (w\<lparr>fibs := fs', sched := s', workers := (workers w)(t := x')\<rparr>)"
proof -
  note d = sched_invD [OF inv]
  have l: "\<exists>m. t_scheduler_fiber (w_tls (workers w t)) = Some m" "at_loop (workers w t)" "run_of (workers w t) = Some f"
    "w_idle (workers w t) \<noteq> f" "t_scheduler_fiber (w_tls (workers w t)) \<noteq> Some f" "f \<in> set (claims (workers w t))"
    "m_state (fiber_at (fibs w) f) \<noteq> EXEC \<Longrightarrow> f \<notin> set (queued (m_tasks (sched w)))"
    using left_worker [OF inv, of t f] pcs by auto
  have ok: "worker_ok (fibs w) (workers w t)" and di: "distinct (claims (workers w t))" using d(3,4) by blast+
  obtain m where m: "t_scheduler_fiber (w_tls (workers w t)) = Some m" using l(1) by blast
  have cl': "claims x' = m # w_idle (workers w t) # opt_list (w_task_fiber x')" "f \<notin> set (claims x')"
    "set (claims x') \<subseteq> set (claims (workers w t))" "distinct (claims x')"
    using pcs di m l(4,5) by (auto simp: claims_def)
  have ok3: "idle_ok (fibs w) (workers w t)" "spare_ok (fibs w) (workers w t)" "w_pc x' = Top" "w_idle x' = w_idle (workers w t)" "w_tls x' = w_tls (workers w t)"
    using ok pcs by (auto simp: worker_ok_def)
  have pc2: "w_pc (workers w t) \<noteq> InIdle" "w_pc (workers w t) \<noteq> LeftIdle" using pcs by auto
  have "idle_ok fs' x'" using ok3(1,3,4) l(4) fs'(1) pc2 by (simp add: idle_ok_def)
  moreover have "m_stack (fiber_at fs' g) \<and> m_state (fiber_at fs' g) = INIT" if "w_task_fiber x' = Some g" for g
  proof -
    have "w_task_fiber (workers w t) = Some g" "w_pc (workers w t) = SettleTask f" "g \<noteq> f"
      using pcs that cl'(1,2) by auto
    then show ?thesis using ok3(2) fs'(1) by (simp add: spare_ok_def)
  qed
  then have "spare_ok fs' x'" by (simp add: spare_ok_def split: option.splits)
  ultimately have ok': "worker_ok fs' x'" using ok3(3,5) m l(2) by (simp add: worker_ok_def pc_ok_def at_loop_def)
  have q: "distinct (queued (m_tasks s'))" "\<And>g. g \<in> set (queued (m_tasks s')) \<Longrightarrow> g \<in> set (queued (m_tasks (sched w))) \<or> g = f"
    "\<And>k. k \<in> set (m_tasks s') \<Longrightarrow> tk_fiber k \<noteq> None \<or> tk_cb k \<noteq> None"
    using s'(1) d(6,8) l(7) by (auto simp: Task_def)
  have own: "g \<notin> set (claims x')" if "g \<in> set (queued (m_tasks s'))" for g
    using q(2) [OF that] cl'(2,3) d(7) [of g t] l(3) by auto
  have cnt: "is_busy x' = is_busy (workers w t)" "is_idle x' = is_idle (workers w t)"
    using pcs by (auto simp: is_busy_def is_idle_def)
  have act: "w_pc (workers w t) \<noteq> Spawned" "w_pc (workers w t) \<noteq> Done" using pcs by auto
  show ?thesis
  proof (rule worker_step [OF inv refl])
    show "fiber_at fs' g = fiber_at (fibs w) g" if "g \<notin> set (claims (workers w t))" for g
      using that l(6) by (intro fs'(1)) auto
    show "g \<in> set (claims (workers w t)) \<or> (\<forall>u. g \<notin> set (claims (workers w u)))" if "g \<in> set (claims x')" for g
      using that cl'(3) by blast
    show "g \<in> set (queued (m_tasks (sched w))) \<or> g \<in> set (claims (workers w t))" if "g \<in> set (queued (m_tasks s'))" for g
      using q(2) [OF that] l(6) by blast
    show "run_of x' = Some g \<and> m_state (fiber_at fs' g) = EXEC" if "g \<in> set (queued (m_tasks s'))" "g \<in> set (claims x')" for g
      using own that by blast
  qed (fact cl'(4) ok' fs'(2) q(1,3) | simp add: cnt s'(2,3))+
qed

lemma settle_task_ok:
  assumes inv: "sched_inv w" and pc: "w_pc (workers w t) = SettleTask f"
  shows "sched_inv (run_settle_task t f w)"
proof -
  let ?x' = "(workers w t)\<lparr>w_pc := Top\<rparr>" and ?st = "m_state (fiber_at (fibs w) f)"
  let ?s' = "if ?st = READY then schedule (Task (Some f) None (- 1)) (sched w) else sched w"
  let ?fs' = "if ?st \<noteq> READY \<and> live ?st then upd_fiber f (\<lambda>x. x\<lparr>m_state := HOLD\<rparr>) (fibs w) else fibs w"
  have "run_settle_task t f w = w\<lparr>fibs := ?fs', sched := ?s', workers := (workers w)(t := ?x')\<rparr>"
    by (auto simp: run_settle_task_def set_worker_def Let_def)
  moreover have "sched_inv (w\<lparr>fibs := ?fs', sched := ?s', workers := (workers w)(t := ?x')\<rparr>)"
    by (rule release_ok [OF inv, of t f]) (use pc sched_invD(5) [OF inv] in \<open>auto simp: Task_def\<close>)
  ultimately show ?thesis by simp
qed

lemma settle_cb_ok:
  assumes inv: "sched_inv w" and pc: "w_pc (workers w t) = SettleCb"
  shows "\<exists>w'. run_settle_cb t w = Inr w' \<and> sched_inv w'"
proof -
  note d = sched_invD [OF inv]
  have ok: "worker_ok (fibs w) (workers w t)" and di: "distinct (claims (workers w t))" using d(3,4) by blast+
  obtain g where g: "w_task_fiber (workers w t) = Some g" using ok pc by (auto simp: worker_ok_def pc_ok_def)
  note l = left_worker [OF inv, of t g]
  let ?st = "m_state (fiber_at (fibs w) g)"
  show ?thesis
  proof (cases "?st = EXCEPT \<or> ?st = TERMINATED")
    case False
    let ?x' = "(workers w t)\<lparr>w_task_fiber := None, w_pc := Top\<rparr>"
    let ?s' = "if ?st = READY then schedule (Task (Some g) None (- 1)) (sched w) else sched w"
    let ?fs' = "if ?st \<noteq> READY then upd_fiber g (\<lambda>x. x\<lparr>m_state := HOLD\<rparr>) (fibs w) else fibs w"
    have "run_settle_cb t w = Inr (w\<lparr>fibs := ?fs', sched := ?s', workers := (workers w)(t := ?x')\<rparr>)"
      using False g by (auto simp: run_settle_cb_def set_worker_def Let_def)
    moreover have "sched_inv (w\<lparr>fibs := ?fs', sched := ?s', workers := (workers w)(t := ?x')\<rparr>)"
      by (rule release_ok [OF inv, of t g]) (use pc g d(5) in \<open>auto simp: Task_def\<close>)
    ultimately show ?thesis by blast
  next
    case True
    have st: "m_stack (fiber_at (fibs w) g)" using ok pc g by (auto simp: worker_ok_def spare_ok_def)
    let ?x' = "(workers w t)\<lparr>w_pc := Top\<rparr>"
    let ?fs' = "upd_fiber g (\<lambda>x. x\<lparr>fiber_cb := None, m_ctx := g, m_joinSchedule := False, m_state := INIT\<rparr>) (fibs w)"
    have run: "run_settle_cb t w = Inr (w\<lparr>fibs := ?fs', sched := sched w, workers := (workers w)(t := ?x')\<rparr>)"
      using True g st by (auto simp: run_settle_cb_def reset_def idle_state_def set_worker_def Let_def)
    have cl': "claims ?x' = claims (workers w t)" using pc by (simp add: claims_def)
    have nq: "h \<notin> set (claims (workers w t))" if "h \<in> set (queued (m_tasks (sched w)))" for h
      using d(7) [of h t] that True l(3) pc g by auto
    have "worker_ok ?fs' ?x'" using ok pc g l(2,5) st
      by (auto simp: worker_ok_def idle_ok_def spare_ok_def pc_ok_def at_loop_def split: option.splits)
    then have "sched_inv (w\<lparr>fibs := ?fs', sched := sched w, workers := (workers w)(t := ?x')\<rparr>)"
      using cl' di d(5,6,8) nq pc g l(7) by (intro worker_step [OF inv refl]) (auto simp: is_busy_def is_idle_def)
    then show ?thesis using run by blast
  qed
qed

lemma leave_task_ok:
  assumes inv: "sched_inv w" and pc: "w_pc (workers w t) = InTask f" and may: "may_leave l (Some f) w"
  shows "\<exists>w'. run_leave l (LeftTask f) t w = Inr w' \<and> sched_inv w'"
proof -
  obtain m where "t_scheduler_fiber (w_tls (workers w t)) = Some m" "runs_in (fibs w) (workers w t) f"
    using sched_invD(4) [OF inv, of t] pc by (auto simp: worker_ok_def pc_ok_def)
  then show ?thesis using pc may by (intro leave_ok [OF inv, of t f]) (simp_all add: run_of_def)
qed

lemma leave_cb_ok:
  assumes inv: "sched_inv w" and pc: "w_pc (workers w t) = InCb" and may: "may_leave l (w_task_fiber (workers w t)) w"
  shows "\<exists>w'. run_leave l LeftCb t w = Inr w' \<and> sched_inv w'"
proof -
  obtain m g where "t_scheduler_fiber (w_tls (workers w t)) = Some m" "w_task_fiber (workers w t) = Some g"
    "runs_in (fibs w) (workers w t) g"
    using sched_invD(4) [OF inv, of t] pc by (auto simp: worker_ok_def pc_ok_def)
  then show ?thesis using pc may by (intro leave_ok [OF inv, of t g]) (simp_all add: run_of_def)
qed

lemma idle_step_ok:
  assumes inv: "sched_inv w" and pc: "w_pc (workers w t) = InIdle"
  shows "\<exists>w'. idle t w = Inr w' \<and> sched_inv w'"
proof -
  have ok: "worker_ok (fibs w) (workers w t)" using sched_invD(4) [OF inv] .
  obtain m where m: "t_scheduler_fiber (w_tls (workers w t)) = Some m" "runs_in (fibs w) (workers w t) (w_idle (workers w t))"
    using ok pc by (auto simp: worker_ok_def pc_ok_def)
  have "w_idle (workers w t) \<in> set (claims (workers w t))" "run_of (workers w t) = None"
    using pc by (simp_all add: claims_def run_of_def)
  then have "w_idle (workers w t) \<notin> set (queued (m_tasks (sched w)))" using unclaimed_queue [OF inv] by blast
  then have "\<exists>w'. run_leave l LeftIdle t w = Inr w' \<and> sched_inv w'" if "l \<in> {ToHold, Finish}" for l
    using pc m that by (intro leave_ok [OF inv, of t "w_idle (workers w t)"]) (simp_all add: may_leave_def)
  then show ?thesis by (simp add: idle_def)
qed

lemma after_idle_ok:
  assumes inv: "sched_inv w" and pc: "w_pc (workers w t) = LeftIdle"
  shows "sched_inv (run_after_idle t w)"
proof -
  note d = sched_invD [OF inv]
  let ?x = "workers w t"
  let ?x' = "?x\<lparr>w_pc := Top\<rparr>" and ?s' = "(sched w)\<lparr>m_idleThreadCount := m_idleThreadCount (sched w) - 1\<rparr>"
  let ?f = "w_idle ?x"
  let ?fs' = "if live (m_state (fiber_at (fibs w) ?f)) then upd_fiber ?f (\<lambda>y. y\<lparr>m_state := HOLD\<rparr>) (fibs w) else fibs w"
  have ok: "worker_ok (fibs w) ?x" and di: "distinct (claims ?x)" using d(3,4) by blast+
  have cl': "claims ?x' = claims ?x" "?f \<in> set (claims ?x)" "w_task_fiber ?x \<noteq> Some ?f" using pc di by (auto simp: claims_def)
  have "run_of ?x = None" using pc by (simp add: run_of_def)
  note nq = unclaimed_queue [OF inv this]
  have st: "m_state (fiber_at (fibs w) ?f) \<in> {EXEC, TERMINATED}" "idle_ok (fibs w) ?x" "spare_ok (fibs w) ?x" "at_loop ?x"
    "t_scheduler_fiber (w_tls ?x) \<noteq> None"
    using ok pc by (auto simp: worker_ok_def pc_ok_def)
  have "idle_ok ?fs' ?x'" using st(1,2) by (auto simp: idle_ok_def live_def)
  moreover have "spare_ok ?fs' ?x'" using st(3) cl'(3) pc by (auto simp: spare_ok_def split: option.splits)
  ultimately have ok': "worker_ok ?fs' ?x'" using st(4,5) by (simp add: worker_ok_def pc_ok_def at_loop_def)
  have "sched_inv (w\<lparr>fibs := ?fs', sched := ?s', workers := (workers w)(t := ?x')\<rparr>)"
  proof (rule worker_step [OF inv refl])
    show "fiber_at ?fs' g = fiber_at (fibs w) g" if "g \<notin> set (claims ?x)" for g using that cl'(2) by auto
    show "run_of ?x' = Some g \<and> m_state (fiber_at ?fs' g) = EXEC" if "g \<in> set (queued (m_tasks ?s'))" "g \<in> set (claims ?x')" for g
      using nq that cl'(1) by auto
    show "worker_ok ?fs' ?x'" by (fact ok')
    show "m_ctx (fiber_at ?fs' g) = g" for g using d(5) by simp
  qed (use pc di cl'(1) d(6,8) in \<open>simp_all add: is_busy_def is_idle_def\<close>)
  then show ?thesis by (simp add: run_after_idle_def set_worker_def Let_def)
qed

lemma client_schedule_ok:
  assumes inv: "sched_inv w" and may: "may_schedule ft w"
  shows "sched_inv (w\<lparr>sched := schedule ft (sched w)\<rparr>)"
proof -
  have "own_inv (fibs w) (m_tasks (schedule ft (sched w))) (workers w)"
    using sched_invD(1) [OF inv] may by (auto simp: own_inv_def may_schedule_def split: option.splits)
  moreover have "count_inv (schedule ft (sched w)) (workers w)"
    using sched_invD(2) [OF inv] by (simp add: count_inv_def)
  ultimately show ?thesis by (simp add: sched_inv_def)
qed

lemma client_new_ok:
  assumes inv: "sched_inv w" and fr: "fresh a w"
  shows "sched_inv (w\<lparr>fibs := Fiber ss a cb sz join (fibs w)\<rparr>)"
proof -
  let ?fs' = "Fiber ss a cb sz join (fibs w)"
  have other: "g \<noteq> a \<Longrightarrow> fiber_at ?fs' g = fiber_at (fibs w) g" "m_ctx (fiber_at ?fs' g) = g" for g
    using sched_invD(5) [OF inv] by (simp_all add: Fiber_def)
  have "worker_ok ?fs' (workers w t)" for t
    using worker_ok_cong [of "workers w t" ?fs' "fibs w"] sched_invD(4) [OF inv, of t] fr other(1)
    by (metis fresh_def)
  then have "own_inv ?fs' (m_tasks (sched w)) (workers w)"
    using sched_invD(1) [OF inv] fr other unfolding own_inv_def fresh_def by metis
  then show ?thesis using sched_invD(2) [OF inv] by (simp add: sched_inv_def)
qed

lemma enter_run_ok:
  assumes inv: "sched_inv w" and pc: "w_pc (workers w t) = Spawned" and may: "may_enter a_main a_idle t w"
  shows "sched_inv (run_enter ss a_main a_idle t w)"
proof -
  note d = sched_invD [OF inv]
  define x where "x = workers w t"
  define fs1 where "fs1 = (if t \<noteq> m_rootThread (sched w) then fst (Fiber_main a_main (fibs w, w_tls x)) else fibs w)"
  define tl where "tl = (if t \<noteq> m_rootThread (sched w)
    then (w_tls x)\<lparr>t_fiber := Some a_main, t_threadFiber := Some a_main, t_scheduler_fiber := Some a_main\<rparr> else w_tls x)"
  define fs' where "fs' = Fiber ss a_idle (Some IdleLoop) 0 True fs1"
  define x' where "x' = x\<lparr>w_tls := tl, w_idle := a_idle, w_task_fiber := None, w_pc := Top\<rparr>"
  have m: "cpu (w_tls x) = a_main" "a_main \<noteq> a_idle" "fresh a_main w" "fresh a_idle w"
    "t \<noteq> m_rootThread (sched w) \<Longrightarrow> t_fiber (w_tls x) = None"
    "t = m_rootThread (sched w) \<Longrightarrow> t_scheduler_fiber (w_tls x) = Some a_main"
    using may by (simp_all add: may_enter_def x_def split: if_splits)
  have run: "run_enter ss a_main a_idle t w = w\<lparr>fibs := fs', sched := sched w, workers := (workers w)(t := x')\<rparr>"
    using m(5) by (auto simp: run_enter_def GetThis_def Fiber_main_def SetThis_def fs'_def fs1_def tl_def x'_def set_worker_def Let_def simp flip: x_def)
  have tl: "t_scheduler_fiber tl = Some a_main" "cpu tl = a_main" using m(1,6) by (auto simp: tl_def)
  have cl': "claims x' = [a_main, a_idle]" using tl by (simp add: claims_def x'_def)
  have fs1: "fiber_at fs1 g = fiber_at (fibs w) g \<or> g = a_main" "m_ctx (fiber_at fs1 g) = g" for g
    using d(5) m(1) by (auto simp: fs1_def Fiber_main_def)
  have "worker_ok fs' x'" using tl by (auto simp: worker_ok_def idle_ok_def spare_ok_def pc_ok_def at_loop_def x'_def fs'_def Fiber_def)
  moreover have "fiber_at fs' g = fiber_at (fibs w) g" if "g \<notin> set (claims x')" for g
    using that fs1(1) [of g] cl' by (auto simp: fs'_def Fiber_def)
  moreover have "m_ctx (fiber_at fs' g) = g" for g using fs1(2) by (simp add: fs'_def Fiber_def)
  moreover have "g \<notin> set (claims x') \<and> g \<notin> set (claims x)" if "g \<in> set (queued (m_tasks (sched w)))" for g
    using that m(3,4) cl' pc by (auto simp: fresh_def claims_def x_def)
  ultimately show ?thesis unfolding run using m(2,3,4) cl' d(6,8) pc
    by (intro worker_step [OF inv refl]) (auto simp: fresh_def is_busy_def is_idle_def x'_def x_def)
qed

lemma step_inv: "step ss w w' \<Longrightarrow> sched_inv w \<Longrightarrow> sched_inv w'"
proof (induction rule: step.induct)
  case (s_stop w)
  then show ?case by (simp add: sched_inv_def count_inv_def)
next
  case (s_dispatch w t k act a w')
  then show ?case using dispatch_ok [of w t k act a ss] by auto
qed (auto intro: enter_run_ok after_task_ok settle_task_ok after_cb_ok after_idle_ok client_schedule_ok client_new_ok
      dest: pick_ok leave_task_ok leave_cb_ok settle_cb_ok idle_step_ok)

lemma reach_inv: "reach ss w0 w \<Longrightarrow> sched_inv w0 \<Longrightarrow> sched_inv w"
  by (induction rule: reach.induct) (auto intro: step_inv)

section \<open>Properties\<close>

text \<open>Before any thread entered run and before anything was scheduled.\<close>

definition initial :: "'c world \<Rightarrow> bool" where
  "initial w \<longleftrightarrow> (\<forall>t. w_pc (workers w t) = Spawned) \<and> m_tasks (sched w) = [] \<and> m_activeThreadCount (sched w) = 0
     \<and> m_idleThreadCount (sched w) = 0 \<and> (\<forall>f. m_ctx (fiber_at (fibs w) f) = f)"

lemma initial_inv: "initial w \<Longrightarrow> sched_inv w"
  by (simp add: initial_def sched_inv_def own_inv_def count_inv_def claims_def worker_ok_def is_busy_def is_idle_def)

text \<open>A scheduler of one pool thread, thread 7; its main fiber will be at address 1.\<close>

definition boot :: "nat world" where
  "boot = \<lparr>fibs = \<lparr>s_fiber_id = 0, s_fiber_count = 0, fiber_at = (\<lambda>f. \<lparr>m_id = 0, m_stacksize = 0, m_state = INIT,
             m_ctx = f, m_stack = False, fiber_cb = None, m_joinSchedule = False\<rparr>)\<rparr>,
           sched = \<lparr>m_tasks = [], m_threads = [7], m_threadIds = [7], m_threadCount = 1, m_activeThreadCount = 0,
             m_idleThreadCount = 0, m_stopping = False, m_autoStop = False, m_rootThread = - 1, m_rootFiber = None, tickles = 0\<rparr>,
           workers = (\<lambda>t. \<lparr>w_tls = \<lparr>t_fiber = None, t_threadFiber = None, t_scheduler_fiber = None, cpu = 1\<rparr>,
             w_idle = 0, w_task_fiber = None, w_pc = Spawned\<rparr>)\<rparr>"

lemma initial_boot: "initial boot"
  by (simp add: initial_def boot_def)

text \<open>Thread 7 enters run, a callback is scheduled, taken and started in a fiber at address 3.\<close>

lemma boot_run:
  "\<exists>w. reach 128 boot w \<and> w_pc (workers w 7) = InCb \<and> run_of (workers w 7) = Some 3"
proof -
  define w1 where "w1 = run_enter 128 1 2 7 boot"
  have "step 128 boot w1" unfolding w1_def
    by (rule s_enter) (simp_all add: boot_def may_enter_def fresh_def claims_def)
  then have r1: "reach 128 boot w1" by (rule r_step [OF r_start])
  define k where "k = Task None (Some (User (0::nat))) (- 1)"
  define w2 where "w2 = w1\<lparr>sched := schedule k (sched w1)\<rparr>"
  have "step 128 w1 w2" unfolding w2_def by (rule s_schedule) (simp add: may_schedule_def k_def Task_def)
  then have r2: "reach 128 boot w2" by (rule r_step [OF r1])
  have w1: "m_tasks (sched w1) = []" "w_pc (workers w1 7) = Top" "w_task_fiber (workers w1 7) = None"
    by (simp_all add: w1_def run_enter_def GetThis_def Fiber_main_def SetThis_def Let_def boot_def)
  have t2: "m_tasks (sched w2) = [k]" by (simp add: w2_def w1 k_def Task_def)
  have "scan 7 (fibs w2) [k] = Inr (False, Some k, [])" by (simp add: k_def Task_def scan.simps)
  then have p: "run_pick 7 w2 = Inr (set_worker 7 ((workers w2 7)\<lparr>w_pc := Dispatch k True\<rparr>)
      (w2\<lparr>sched := (sched w2)\<lparr>m_tasks := [], m_activeThreadCount := m_activeThreadCount (sched w2) + 1\<rparr>\<rparr>))"
    by (simp add: run_pick_def t2 Let_def)
  define w3 where "w3 = set_worker 7 ((workers w2 7)\<lparr>w_pc := Dispatch k True\<rparr>)
      (w2\<lparr>sched := (sched w2)\<lparr>m_tasks := [], m_activeThreadCount := m_activeThreadCount (sched w2) + 1\<rparr>\<rparr>)"
  have "step 128 w2 w3" using p by (intro s_pick [of w2 7]) (simp_all add: w2_def w1 w3_def)
  then have r3: "reach 128 boot w3" by (rule r_step [OF r2])
  have pc3: "w_pc (workers w3 7) = Dispatch k True" by (simp add: w3_def)
  have fr: "fresh 3 w3"
    by (auto simp: fresh_def w3_def claims_def w2_def w1_def run_enter_def GetThis_def Fiber_main_def SetThis_def Let_def boot_def
      opt_list_def k_def Task_def)
  have "sched_inv w3" using reach_inv [OF r3] initial_boot initial_inv by blast
  obtain w4 where w4: "run_dispatch 128 3 7 k True w3 = Inr w4" using dispatch_ok [OF \<open>sched_inv w3\<close> pc3 fr] by blast
  have "step 128 w3 w4" using pc3 fr w4 by (rule s_dispatch)
  then have "reach 128 boot w4" by (rule r_step [OF r3])
  moreover have "w_task_fiber (workers w3 7) = None" by (simp add: w3_def w2_def w1)
  then have "w_pc (workers w4 7) = InCb \<and> w_task_fiber (workers w4 7) = Some 3"
    using w4 by (auto simp: run_dispatch_def k_def Task_def enter_def Let_def rbind_eq_Inr_iff)
  ultimately show ?thesis by (auto simp: run_of_def)
qed





text \<open>The counters are exact. m_activeThreadCount is the number of workers that took a task and have not
  yet decremented it, m_idleThreadCount the number of workers in their idle fiber; neither is ever
  negative, so the atomics never wrap; and stopping is only true when no worker has a task.\<close>

theorem counters_exact:
  assumes "initial w0" and "reach ss w0 w"
  shows "m_activeThreadCount (sched w) = int (card {t. is_busy (workers w t)})
    \<and> m_idleThreadCount (sched w) = int (card {t. is_idle (workers w t)})
    \<and> (stopping (sched w) \<longrightarrow> m_tasks (sched w) = [] \<and> (\<forall>t. \<not> is_busy (workers w t)))"
proof -
  have inv: "count_inv (sched w) (workers w)" using sched_invD(2) reach_inv [OF assms(2)] initial_inv [OF assms(1)] by blast
  have "{t. is_busy (workers w t)} \<subseteq> {t. w_pc (workers w t) \<noteq> Spawned \<and> w_pc (workers w t) \<noteq> Done}"
    by (auto simp: is_busy_def split: pc.splits)
  then have "finite {t. is_busy (workers w t)}" using inv finite_subset by (auto simp: count_inv_def)
  then show ?thesis using inv by (auto simp: count_inv_def stopping_def)
qed

theorem counters_exact_witness:
  "\<exists>w. reach 128 boot w \<and> is_busy (workers w 7) \<and> m_activeThreadCount (sched w) = int (card {t. is_busy (workers w t)})"
proof -
  obtain w where w: "reach 128 boot w" "w_pc (workers w 7) = InCb" using boot_run by blast
  then show ?thesis using counters_exact [OF initial_boot w(1)] by (auto simp: is_busy_def)
qed

text \<open>The scan takes the first task the thread may run and keeps the order of the others: every task in
  front of it is pinned to another thread or has an executing fiber, and when nothing is taken that
  holds for the whole queue.\<close>

theorem scan_takes_first:
  assumes "\<forall>k \<in> set ts. tk_fiber k \<noteq> None \<or> tk_cb k \<noteq> None"
  shows "\<exists>tm r rest. scan tid fs ts = Inr (tm, r, rest) \<and>
    (case r of None \<Rightarrow> rest = ts \<and> (\<forall>k \<in> set ts. skipped tid fs k)
     | Some k \<Rightarrow> \<exists>xs ys. ts = xs @ k # ys \<and> rest = xs @ ys \<and> \<not> skipped tid fs k \<and> (\<forall>j \<in> set xs. skipped tid fs j))"
  using assms by (rule scan_ok)

theorem scan_takes_first_witness:
  "\<exists>tm r rest. scan 7 (fibs boot) [Task None (Some (User 0)) 5, Task None (Some (User 1)) 7] = Inr (tm, r, rest)
    \<and> r = Some (Task None (Some (User (1::nat))) 7)"
proof -
  let ?ts = "[Task None (Some (User 0)) 5, Task None (Some (User (1::nat))) 7]"
  obtain tm r rest where s: "scan 7 (fibs boot) ?ts = Inr (tm, r, rest)"
    "case r of None \<Rightarrow> rest = ?ts \<and> (\<forall>k \<in> set ?ts. skipped 7 (fibs boot) k)
     | Some k \<Rightarrow> \<exists>xs ys. ?ts = xs @ k # ys \<and> rest = xs @ ys \<and> \<not> skipped 7 (fibs boot) k \<and> (\<forall>j \<in> set xs. skipped 7 (fibs boot) j)"
    using scan_takes_first [of ?ts 7 "fibs boot"] by (auto simp: Task_def)
  have "r = Some (Task None (Some (User 1)) 7)"
    using s(2) by (auto simp: skipped_def Task_def Cons_eq_append_conv split: option.splits)
  then show ?thesis using s(1) by blast
qed

end
