(* ===== verification/StdContainers.thy ===== *)
theory StdContainers
  imports Prelude
begin

text \<open>
  The ordered containers of the C++ library the sources use: \<open>std::set\<close> and \<open>std::map\<close> with a
  comparator. A container is the list of its elements in iteration order; insertion, lookup and
  erasure only use the comparator, as the library does, so two keys neither of which is less than
  the other are the same key. The locale \<open>strict_weak\<close> is what the library requires of a comparator;
  the container laws are proved from it once, for every comparator of the program.
\<close>

section \<open>Operations\<close>

definition equivalent :: "('a \<Rightarrow> 'a \<Rightarrow> bool) \<Rightarrow> 'a \<Rightarrow> 'a \<Rightarrow> bool" where
  "equivalent lt x y \<longleftrightarrow> \<not> lt x y \<and> \<not> lt y x"

fun set_insert :: "('a \<Rightarrow> 'a \<Rightarrow> bool) \<Rightarrow> 'a \<Rightarrow> 'a list \<Rightarrow> 'a list" where
  "set_insert lt x [] = [x]"
| "set_insert lt x (y # ys) =
     (if lt x y then x # y # ys else if lt y x then y # set_insert lt x ys else y # ys)"

definition set_find :: "('a \<Rightarrow> 'a \<Rightarrow> bool) \<Rightarrow> 'a \<Rightarrow> 'a list \<Rightarrow> 'a option" where
  "set_find lt x ys = find (equivalent lt x) ys"

text \<open>The number of elements in front of the iterator \<open>lower_bound(x)\<close> returns.\<close>

definition lower_bound :: "('a \<Rightarrow> 'a \<Rightarrow> bool) \<Rightarrow> 'a \<Rightarrow> 'a list \<Rightarrow> nat" where
  "lower_bound lt x ys = length (takeWhile (\<lambda>y. lt y x) ys)"

text \<open>\<open>m[k] = v\<close>: an equivalent key that is present stays, and only its value changes.\<close>

fun map_assign :: "('k \<Rightarrow> 'k \<Rightarrow> bool) \<Rightarrow> 'k \<Rightarrow> 'v \<Rightarrow> ('k \<times> 'v) list \<Rightarrow> ('k \<times> 'v) list" where
  "map_assign lt k v [] = [(k, v)]"
| "map_assign lt k v ((k', v') # m) =
     (if lt k k' then (k, v) # (k', v') # m
      else if lt k' k then (k', v') # map_assign lt k v m else (k', v) # m)"

text \<open>\<open>m.insert(k, v)\<close>: nothing changes when an equivalent key is present.\<close>

fun map_insert :: "('k \<Rightarrow> 'k \<Rightarrow> bool) \<Rightarrow> 'k \<Rightarrow> 'v \<Rightarrow> ('k \<times> 'v) list \<Rightarrow> ('k \<times> 'v) list" where
  "map_insert lt k v [] = [(k, v)]"
| "map_insert lt k v ((k', v') # m) =
     (if lt k k' then (k, v) # (k', v') # m
      else if lt k' k then (k', v') # map_insert lt k v m else (k', v') # m)"

fun map_find :: "('k \<Rightarrow> 'k \<Rightarrow> bool) \<Rightarrow> 'k \<Rightarrow> ('k \<times> 'v) list \<Rightarrow> 'v option" where
  "map_find lt k [] = None"
| "map_find lt k ((k', v') # m) = (if equivalent lt k k' then Some v' else map_find lt k m)"

definition map_erase :: "('k \<Rightarrow> 'k \<Rightarrow> bool) \<Rightarrow> 'k \<Rightarrow> ('k \<times> 'v) list \<Rightarrow> ('k \<times> 'v) list" where
  "map_erase lt k m = filter (\<lambda>(k', v). \<not> equivalent lt k k') m"

definition set_ok :: "('a \<Rightarrow> 'a \<Rightarrow> bool) \<Rightarrow> 'a list \<Rightarrow> bool" where
  "set_ok lt xs \<longleftrightarrow> sorted_wrt lt xs"

definition map_ok :: "('k \<Rightarrow> 'k \<Rightarrow> bool) \<Rightarrow> ('k \<times> 'v) list \<Rightarrow> bool" where
  "map_ok lt m \<longleftrightarrow> sorted_wrt lt (map fst m)"

lemma map_ok_simps [simp]: "map_ok lt []" "map_ok lt ((k, v) # m) \<longleftrightarrow> (\<forall>x \<in> fst ` set m. lt k x) \<and> map_ok lt m"
  by (auto simp: map_ok_def)

lemma set_ok_simps [simp]: "set_ok lt []" "set_ok lt (x # xs) \<longleftrightarrow> (\<forall>y \<in> set xs. lt x y) \<and> set_ok lt xs"
  by (auto simp: set_ok_def)

section \<open>Comparators\<close>

locale strict_weak =
  fixes lt :: "'a \<Rightarrow> 'a \<Rightarrow> bool"
  assumes irrefl: "\<not> lt x x"
    and trans: "lt x y \<Longrightarrow> lt y z \<Longrightarrow> lt x z"
    and negtrans: "lt x z \<Longrightarrow> lt x y \<or> lt y z"
begin

lemma asym: "lt x y \<Longrightarrow> \<not> lt y x"
  using irrefl trans by blast

lemma equivalent_refl [simp]: "equivalent lt x x"
  by (simp add: equivalent_def irrefl)

lemma equivalent_sym: "equivalent lt x y \<Longrightarrow> equivalent lt y x"
  by (simp add: equivalent_def)

lemma equivalent_trans: "equivalent lt x y \<Longrightarrow> equivalent lt y z \<Longrightarrow> equivalent lt x z"
  unfolding equivalent_def using negtrans by blast

lemma equivalent_cong:
  assumes "equivalent lt x y"
  shows "lt x z \<longleftrightarrow> lt y z" "lt z x \<longleftrightarrow> lt z y"
  using assms unfolding equivalent_def using negtrans by blast+

lemma map_assign_keys: "fst ` set (map_assign lt k v m) \<subseteq> insert k (fst ` set m)"
proof (induction m)
  case (Cons p m)
  then show ?case by (cases p) (simp, blast)
qed simp

lemma map_assign_ok: "map_ok lt m \<Longrightarrow> map_ok lt (map_assign lt k v m)"
proof (induction m)
  case (Cons p m)
  obtain k' v' where p: "p = (k', v')" by (cases p)
  show ?case
  proof (cases "lt k' k")
    case True
    then show ?thesis using Cons p asym map_assign_keys [of k v m] by (auto dest!: subsetD)
  next
    case False
    then show ?thesis using Cons p trans by fastforce
  qed
qed simp

lemma map_find_greater: "\<forall>x \<in> fst ` set m. lt k x \<Longrightarrow> map_find lt k m = None"
  by (induction m) (auto simp: equivalent_def)

lemma map_find_assign:
  assumes "map_ok lt m"
  shows "map_find lt k' (map_assign lt k v m) = (if equivalent lt k' k then Some v else map_find lt k' m)"
  using assms
proof (induction m)
  case (Cons p m)
  obtain kp vp where p: "p = (kp, vp)" by (cases p)
  show ?case
  proof (cases "equivalent lt k kp")
    case True
    then have "\<not> lt k kp" "\<not> lt kp k" by (simp_all add: equivalent_def)
    moreover have "equivalent lt k' kp \<longleftrightarrow> equivalent lt k' k"
      using True equivalent_sym equivalent_trans by blast
    ultimately show ?thesis by (simp add: p)
  next
    case False
    show ?thesis
    proof (cases "lt k kp")
      case True
      have "map_find lt k' ((kp, vp) # m) = None" if "equivalent lt k' k"
      proof -
        have "\<forall>x \<in> fst ` set ((kp, vp) # m). lt k' x"
          using Cons.prems True trans equivalent_cong(1) [OF that] by (auto simp: p)
        then show ?thesis by (rule map_find_greater)
      qed
      then show ?thesis using True by (auto simp: p)
    next
      case gt: False
      with False have lt: "lt kp k" by (auto simp: equivalent_def)
      then have "\<not> (equivalent lt k' kp \<and> equivalent lt k' k)"
        using False equivalent_sym equivalent_trans by blast
      then show ?thesis using gt lt Cons by (auto simp: p)
    qed
  qed
qed simp

lemma map_insert_assign:
  "map_ok lt m \<Longrightarrow> map_insert lt k v m = (if map_find lt k m = None then map_assign lt k v m else m)"
proof (induction m)
  case (Cons p m)
  obtain kp vp where p: "p = (kp, vp)" by (cases p)
  have "map_find lt k m = None" if "lt k kp"
    using Cons.prems that trans by (intro map_find_greater) (auto simp: p)
  then show ?case using Cons by (auto simp: p equivalent_def)
qed simp

lemma map_insert_ok: "map_ok lt m \<Longrightarrow> map_ok lt (map_insert lt k v m)"
  by (simp add: map_insert_assign map_assign_ok)

lemma map_erase_ok: "map_ok lt m \<Longrightarrow> map_ok lt (map_erase lt k m)"
  by (induction m) (auto simp: map_erase_def)

lemma map_find_erase:
  "map_find lt k' (map_erase lt k m) = (if equivalent lt k' k then None else map_find lt k' m)"
proof (induction m)
  case (Cons p m)
  obtain kp vp where p: "p = (kp, vp)" by (cases p)
  have "equivalent lt k' kp \<and> equivalent lt k kp \<longrightarrow> equivalent lt k' k"
    "equivalent lt k' k \<longrightarrow> (equivalent lt k' kp \<longleftrightarrow> equivalent lt k kp)"
    using equivalent_sym equivalent_trans by blast+
  then show ?case using Cons by (auto simp: p map_erase_def)
qed (simp add: map_erase_def)

lemma set_insert_keys: "set (set_insert lt x ys) \<subseteq> insert x (set ys)"
  by (induction ys) auto

lemma set_insert_ok: "set_ok lt ys \<Longrightarrow> set_ok lt (set_insert lt x ys)"
proof (induction ys)
  case (Cons y ys)
  show ?case
  proof (cases "lt y x")
    case True
    then show ?thesis using Cons asym [OF True] set_insert_keys [of x ys] by (auto dest!: subsetD)
  next
    case False
    then show ?thesis using Cons.prems by (auto intro: trans)
  qed
qed simp

lemma set_ok_distinct: "set_ok lt xs \<Longrightarrow> distinct xs"
  by (induction xs) (auto simp: irrefl)

end

text \<open>A comparator under which only equal keys are equivalent.\<close>

locale strict_total = strict_weak +
  assumes total: "lt x y \<or> x = y \<or> lt y x"
begin

lemma equivalent_eq [simp]: "equivalent lt x y \<longleftrightarrow> x = y"
  using total by (auto simp: equivalent_def irrefl)

lemma set_set_insert: "set (set_insert lt x ys) = insert x (set ys)"
proof (induction ys)
  case (Cons y ys)
  then show ?case using total [of x y] by auto
qed simp

lemma set_find_iff: "set_find lt x ys = (if x \<in> set ys then Some x else None)"
  by (induction ys) (auto simp: set_find_def)

lemma set_insert_first:
  assumes "set_ok lt ys" "hd (set_insert lt x ys) = x"
  shows "\<forall>y \<in> set ys. y = x \<or> lt x y"
  using assms total [of x "hd ys"] trans by (cases ys) (auto split: if_splits)

end

section \<open>Maps filled from a list\<close>

lemma map_find_append: "map_find lt k (xs @ ys) = (case map_find lt k xs of Some v \<Rightarrow> Some v | None \<Rightarrow> map_find lt k ys)"
  by (induction xs) auto

lemma map_find_None: "map_find lt k m = None \<longleftrightarrow> (\<forall>x \<in> fst ` set m. \<not> equivalent lt k x)"
  by (induction m) (auto split: if_splits)

context strict_weak
begin

lemma map_find_rev: "map_ok lt m \<Longrightarrow> map_find lt k (rev m) = map_find lt k m"
proof (induction m)
  case (Cons p m)
  obtain kp vp where p: "p = (kp, vp)" by (cases p)
  have "map_find lt k m = None" if "equivalent lt k kp"
    using that Cons.prems equivalent_cong(1) [OF that] by (auto simp: p map_find_None equivalent_def)
  then show ?case using Cons by (auto simp: p map_find_append split: option.splits)
qed simp

lemma map_find_fold:
  "map_ok lt m \<Longrightarrow> map_find lt k (fold (\<lambda>(a, v). map_assign lt a v) ls m)
     = (case map_find lt k (rev ls) of Some v \<Rightarrow> Some v | None \<Rightarrow> map_find lt k m)"
proof (induction ls arbitrary: m)
  case (Cons p ls)
  obtain kp vp where p: "p = (kp, vp)" by (cases p)
  show ?case using Cons.IH [OF map_assign_ok [OF Cons.prems]] Cons.prems
    by (auto simp: p map_find_append map_find_assign split: option.splits)
qed simp

end

end
