(* ===== verification/Timer.thy ===== *)
theory Timer
  imports StdContainers
begin

text \<open>
  Timers (\<open>src/timer.h\<close>, \<open>src/timer.cc\<close>). A timer is an object behind a shared pointer; the manager keeps
  the pointers in a \<open>std::set\<close> ordered by deadline and then by address. The model keeps the objects in
  an explicit store, so that mutating a timer while it sits in the set is visible, and the set as the
  list of pointers in iteration order. Times are 64-bit milliseconds that wrap. GetCurrentMS and the
  address of a new object are arguments; the result of an operation tells whether it called the
  virtual function onTimerInsertedAtFront. Erasing the end iterator is the error \<open>EraseEnd\<close>.
\<close>

section \<open>State\<close>

type_synonym ptr = nat

record 'c timer =
  m_recurring :: bool
  m_ms :: u64
  m_next :: u64
  m_cb :: "'c option"

record 'c timer_manager =
  heap :: "ptr \<Rightarrow> 'c timer"
  m_timers :: "ptr list"
  m_tickled :: bool
  m_previouseTime :: u64

datatype tm_error = EraseEnd

text \<open>The callbacks a timer is given: a plain one, or OnTimer bound to a weak reference and a callback.\<close>

datatype 'k callback = Plain 'k | BindOnTimer nat 'k

definition Comparator :: "(ptr \<Rightarrow> 'c timer) \<Rightarrow> ptr option \<Rightarrow> ptr option \<Rightarrow> bool" where
  "Comparator h lhs rhs =
     (case lhs of
        None \<Rightarrow> (case rhs of None \<Rightarrow> False | Some r \<Rightarrow> True)
      | Some l \<Rightarrow>
          (case rhs of
             None \<Rightarrow> False
           | Some r \<Rightarrow>
               if m_next (h l) < m_next (h r) then True
               else if m_next (h r) < m_next (h l) then False
               else l < r))"

definition timer_less :: "(ptr \<Rightarrow> 'c timer) \<Rightarrow> ptr \<Rightarrow> ptr \<Rightarrow> bool" where
  "timer_less h p q = Comparator h (Some p) (Some q)"

definition Timer :: "u64 \<Rightarrow> u64 \<Rightarrow> 'c option \<Rightarrow> bool \<Rightarrow> 'c timer" where
  "Timer now ms cb recurring = \<lparr>m_recurring = recurring, m_ms = ms, m_next = now + ms, m_cb = cb\<rparr>"

definition Timer_at :: "u64 \<Rightarrow> 'c timer" where
  "Timer_at next = \<lparr>m_recurring = False, m_ms = 0, m_next = next, m_cb = None\<rparr>"

definition TimerManager :: "u64 \<Rightarrow> 'c timer_manager" where
  "TimerManager now = \<lparr>heap = (\<lambda>_. Timer_at 0), m_timers = [], m_tickled = False, m_previouseTime = now\<rparr>"

section \<open>Operations\<close>

definition addTimer_ptr :: "'c timer_manager \<Rightarrow> ptr \<Rightarrow> bool \<times> 'c timer_manager" where
  "addTimer_ptr st val =
     (let ts = set_insert (timer_less (heap st)) val (m_timers st);
          at_front = (equivalent (timer_less (heap st)) val (hd ts) \<and> \<not> m_tickled st)
      in (at_front, st\<lparr>m_timers := ts, m_tickled := (if at_front then True else m_tickled st)\<rparr>))"

definition addTimer :: "u64 \<Rightarrow> ptr \<Rightarrow> u64 \<Rightarrow> 'c option \<Rightarrow> bool \<Rightarrow> 'c timer_manager \<Rightarrow> bool \<times> 'c timer_manager" where
  "addTimer now a ms cb recurring st =
     addTimer_ptr (st\<lparr>heap := (heap st)(a := Timer now ms cb recurring)\<rparr>) a"

definition OnTimer :: "(nat \<Rightarrow> bool) \<Rightarrow> nat \<Rightarrow> 'k \<Rightarrow> 'k list" where
  "OnTimer alive weak_cond cb = (if alive weak_cond then [cb] else [])"

fun run_callback :: "(nat \<Rightarrow> bool) \<Rightarrow> 'k callback \<Rightarrow> 'k list" where
  "run_callback alive (Plain k) = [k]"
| "run_callback alive (BindOnTimer w k) = OnTimer alive w k"

definition addConditionTimer ::
  "u64 \<Rightarrow> ptr \<Rightarrow> u64 \<Rightarrow> 'k \<Rightarrow> nat \<Rightarrow> bool \<Rightarrow> 'k callback timer_manager \<Rightarrow> bool \<times> 'k callback timer_manager" where
  "addConditionTimer now a ms cb weak_cond recurring st =
     addTimer now a ms (Some (BindOnTimer weak_cond cb)) recurring st"

definition cancel :: "ptr \<Rightarrow> 'c timer_manager \<Rightarrow> (tm_error, bool \<times> 'c timer_manager) result" where
  "cancel p st =
     (if m_cb (heap st p) \<noteq> None then
        let st1 = st\<lparr>heap := (heap st)(p := heap st p\<lparr>m_cb := None\<rparr>)\<rparr> in
        (case set_find (timer_less (heap st1)) p (m_timers st1) of
           None \<Rightarrow> Inl EraseEnd
         | Some it \<Rightarrow> Inr (True, st1\<lparr>m_timers := remove1 it (m_timers st1)\<rparr>))
      else Inr (False, st))"

definition refresh :: "u64 \<Rightarrow> ptr \<Rightarrow> 'c timer_manager \<Rightarrow> bool \<times> 'c timer_manager" where
  "refresh now p st =
     (if m_cb (heap st p) = None then (False, st)
      else case set_find (timer_less (heap st)) p (m_timers st) of
        None \<Rightarrow> (False, st)
      | Some it \<Rightarrow>
          let ts = remove1 it (m_timers st);
              h = (heap st)(p := heap st p\<lparr>m_next := now + m_ms (heap st p)\<rparr>)
          in (True, st\<lparr>heap := h, m_timers := set_insert (timer_less h) p ts\<rparr>))"

text \<open>The first component is the return value, the second whether onTimerInsertedAtFront was called.\<close>

definition reset :: "u64 \<Rightarrow> ptr \<Rightarrow> u64 \<Rightarrow> bool \<Rightarrow> 'c timer_manager \<Rightarrow> bool \<times> bool \<times> 'c timer_manager" where
  "reset now p ms from_now st =
     (if ms = m_ms (heap st p) \<and> \<not> from_now then (True, False, st)
      else if m_cb (heap st p) = None then (False, False, st)
      else case set_find (timer_less (heap st)) p (m_timers st) of
        None \<Rightarrow> (False, False, st)
      | Some it \<Rightarrow>
          let start = (if from_now then now else m_next (heap st p) - m_ms (heap st p));
              h = (heap st)(p := heap st p\<lparr>m_ms := ms, m_next := start + ms\<rparr>)
          in (True, addTimer_ptr (st\<lparr>heap := h, m_timers := remove1 it (m_timers st)\<rparr>) p))"

definition getNextTimer :: "u64 \<Rightarrow> 'c timer_manager \<Rightarrow> u64 \<times> 'c timer_manager" where
  "getNextTimer now st =
     (let st1 = st\<lparr>m_tickled := False\<rparr> in
      if m_timers st1 = [] then (- 1, st1)
      else let next = heap st1 (hd (m_timers st1)) in
        if now \<ge> m_next next then (0, st1) else (m_next next - now, st1))"

definition hasTimer :: "'c timer_manager \<Rightarrow> bool" where
  "hasTimer st \<longleftrightarrow> m_timers st \<noteq> []"

definition detectClockRollover :: "u64 \<Rightarrow> 'c timer_manager \<Rightarrow> bool \<times> 'c timer_manager" where
  "detectClockRollover now_ms st =
     (now_ms < m_previouseTime st \<and> now_ms < m_previouseTime st - 60 * 60 * 1000,
      st\<lparr>m_previouseTime := now_ms\<rparr>)"

text \<open>The last loop of listExpiredCb: collect the callback, re-arm a recurring timer, disarm the others.\<close>

fun fire :: "u64 \<Rightarrow> ptr list \<Rightarrow> 'c timer_manager \<Rightarrow> 'c option list \<times> 'c timer_manager" where
  "fire now_ms [] st = ([], st)"
| "fire now_ms (p # ps) st =
     (let t = heap st p;
          st1 = (if m_recurring t
                 then let h = (heap st)(p := t\<lparr>m_next := now_ms + m_ms t\<rparr>)
                      in st\<lparr>heap := h, m_timers := set_insert (timer_less h) p (m_timers st)\<rparr>
                 else st\<lparr>heap := (heap st)(p := t\<lparr>m_cb := None\<rparr>)\<rparr>);
          (cbs, st2) = fire now_ms ps st1
      in (m_cb t # cbs, st2))"

text \<open>\<open>a\<close> is the address of the temporary timer listExpiredCb allocates to search for the current time.\<close>

definition listExpiredCb :: "u64 \<Rightarrow> ptr \<Rightarrow> 'c timer_manager \<Rightarrow> 'c option list \<times> 'c timer_manager" where
  "listExpiredCb now_ms a st =
     (if m_timers st = [] then ([], st)
      else let (rollover, st1) = detectClockRollover now_ms st in
        if \<not> rollover \<and> m_next (heap st1 (hd (m_timers st1))) > now_ms then ([], st1)
        else let h = (heap st1)(a := Timer_at now_ms);
                 lb = (if rollover then length (m_timers st1) else lower_bound (timer_less h) a (m_timers st1));
                 it = lb + length (takeWhile (\<lambda>p. m_next (h p) = now_ms) (drop lb (m_timers st1)))
             in fire now_ms (take it (m_timers st1)) (st1\<lparr>m_timers := drop it (m_timers st1)\<rparr>))"

section \<open>The comparator and the set\<close>

lemma timer_less_iff:
  "timer_less h p q \<longleftrightarrow> m_next (h p) < m_next (h q) \<or> m_next (h p) = m_next (h q) \<and> p < q"
  by (auto simp: timer_less_def Comparator_def)

interpretation tl: strict_total "timer_less h" for h :: "ptr \<Rightarrow> 'c timer"
  by unfold_locales (auto simp: timer_less_iff)

lemma timer_less_cong: "m_next (h p) = m_next (h' p) \<Longrightarrow> m_next (h q) = m_next (h' q) \<Longrightarrow> timer_less h p q = timer_less h' p q"
  by (simp add: timer_less_iff)

lemma set_ok_cong:
  assumes "\<forall>p \<in> set ts. m_next (h p) = m_next (h' p)"
  shows "set_ok (timer_less h) ts = set_ok (timer_less h') ts"
  using assms by (induction ts) (auto simp: timer_less_iff)

lemma set_ok_filter: "set_ok lt ts \<Longrightarrow> set_ok lt (filter P ts)"
  by (induction ts) auto

lemma set_ok_remove1: "set_ok (timer_less h) ts \<Longrightarrow> set_ok (timer_less h) (remove1 p ts)"
  using tl.set_ok_distinct by (fastforce simp: distinct_remove1_removeAll removeAll_filter_not_eq set_ok_filter)

lemma set_ok_append:
  "set_ok lt (xs @ ys) \<longleftrightarrow> set_ok lt xs \<and> set_ok lt ys \<and> (\<forall>x \<in> set xs. \<forall>y \<in> set ys. lt x y)"
  by (auto simp: set_ok_def sorted_wrt_append)

text \<open>In a well-formed set the deadlines never decrease along the list.\<close>

lemma head_earliest: "set_ok (timer_less h) ts \<Longrightarrow> p \<in> set ts \<Longrightarrow> m_next (h (hd ts)) \<le> m_next (h p)"
  by (cases ts) (auto simp: timer_less_iff)

lemma takeWhile_due:
  "set_ok (timer_less h) ts \<Longrightarrow> takeWhile (\<lambda>p. m_next (h p) \<le> now) ts = filter (\<lambda>p. m_next (h p) \<le> now) ts"
proof (induction ts)
  case (Cons p ts)
  then have "m_next (h p) \<le> m_next (h q)" if "q \<in> set ts" for q
    using that by (auto simp: timer_less_iff)
  then have "filter (\<lambda>p. m_next (h p) \<le> now) ts = []" if "\<not> m_next (h p) \<le> now"
    using that by (force simp: filter_empty_conv dest: order_trans)
  then show ?case using Cons by auto
qed simp

section \<open>Invariant\<close>

text \<open>The set is ordered by the current deadlines, and a timer is armed exactly while it is in the set.\<close>

definition tm_inv :: "'c timer_manager \<Rightarrow> bool" where
  "tm_inv st \<longleftrightarrow> set_ok (timer_less (heap st)) (m_timers st)
     \<and> (\<forall>p. m_cb (heap st p) \<noteq> None \<longleftrightarrow> p \<in> set (m_timers st))"

lemma armed_iff: "tm_inv st \<Longrightarrow> m_cb (heap st p) = None \<longleftrightarrow> p \<notin> set (m_timers st)"
  unfolding tm_inv_def by blast

lemma tm_inv_TimerManager: "tm_inv (TimerManager now)"
  by (simp add: tm_inv_def TimerManager_def Timer_at_def)

lemma addTimer_ptr_inv:
  assumes "set_ok (timer_less (heap st)) (m_timers st)"
    and "\<And>q. m_cb (heap st q) \<noteq> None \<longleftrightarrow> q \<in> insert p (set (m_timers st))"
  shows "tm_inv (snd (addTimer_ptr st p))"
  using assms tl.set_insert_ok [OF assms(1), of p]
  by (simp add: tm_inv_def addTimer_ptr_def Let_def tl.set_set_insert)

lemma addTimer_inv:
  assumes "tm_inv st" "a \<notin> set (m_timers st)" "cb \<noteq> None"
  shows "tm_inv (snd (addTimer now a ms cb recurring st))"
  unfolding addTimer_def
proof (rule addTimer_ptr_inv)
  let ?st = "st\<lparr>heap := (heap st)(a := Timer now ms cb recurring)\<rparr>"
  show "set_ok (timer_less (heap ?st)) (m_timers ?st)"
    using assms set_ok_cong [of "m_timers st" "heap st" "heap ?st"] by (auto simp: tm_inv_def)
  show "m_cb (heap ?st q) \<noteq> None \<longleftrightarrow> q \<in> insert a (set (m_timers ?st))" for q
    using assms by (auto simp: tm_inv_def Timer_def)
qed

lemma cancel_ok:
  assumes "tm_inv st"
  shows "\<exists>st'. cancel p st = Inr (p \<in> set (m_timers st), st') \<and> tm_inv st'
    \<and> m_timers st' = remove1 p (m_timers st) \<and> m_cb (heap st' p) = None
    \<and> (\<forall>q. q \<noteq> p \<longrightarrow> heap st' q = heap st q) \<and> m_next (heap st' p) = m_next (heap st p)
    \<and> m_tickled st' = m_tickled st \<and> m_previouseTime st' = m_previouseTime st"
proof (cases "p \<in> set (m_timers st)")
  case True
  let ?h = "(heap st)(p := heap st p\<lparr>m_cb := None\<rparr>)"
  have d: "distinct (m_timers st)" using assms tl.set_ok_distinct by (auto simp: tm_inv_def)
  have "set_ok (timer_less (heap st)) (remove1 p (m_timers st))"
    using assms by (simp add: tm_inv_def set_ok_remove1)
  then have "set_ok (timer_less ?h) (remove1 p (m_timers st))"
    using set_ok_cong [of "remove1 p (m_timers st)" ?h "heap st"] by simp
  then show ?thesis using True assms d by (auto simp: cancel_def Let_def tl.set_find_iff tm_inv_def)
next
  case False
  then have "m_cb (heap st p) = None" using assms by (auto simp: tm_inv_def)
  then show ?thesis using False assms by (simp add: cancel_def remove1_idem)
qed

lemma rearm_ok:
  assumes "tm_inv st" "p \<in> set (m_timers st)"
    and h_def: "h = (heap st)(p := heap st p\<lparr>m_ms := ms, m_next := t\<rparr>)"
  shows "set_ok (timer_less h) (remove1 p (m_timers st))"
    "\<And>q. m_cb (h q) \<noteq> None \<longleftrightarrow> q \<in> insert p (set (remove1 p (m_timers st)))"
proof -
  have d: "distinct (m_timers st)" using assms(1) tl.set_ok_distinct by (auto simp: tm_inv_def)
  have "set_ok (timer_less (heap st)) (remove1 p (m_timers st))"
    using assms(1) by (simp add: tm_inv_def set_ok_remove1)
  then show "set_ok (timer_less h) (remove1 p (m_timers st))"
    using set_ok_cong [of "remove1 p (m_timers st)" "heap st" h] d by (auto simp: h_def)
  show "\<And>q. m_cb (h q) \<noteq> None \<longleftrightarrow> q \<in> insert p (set (remove1 p (m_timers st)))"
    using assms(1,2) d by (auto simp: h_def tm_inv_def)
qed

lemma refresh_ok:
  assumes "tm_inv st"
  shows "fst (refresh now p st) = (p \<in> set (m_timers st))" "tm_inv (snd (refresh now p st))"
    "set (m_timers (snd (refresh now p st))) = set (m_timers st)"
    "p \<in> set (m_timers st) \<Longrightarrow> heap (snd (refresh now p st)) = (heap st)(p := heap st p\<lparr>m_next := now + m_ms (heap st p)\<rparr>)"
    "p \<notin> set (m_timers st) \<Longrightarrow> snd (refresh now p st) = st"
    "m_tickled (snd (refresh now p st)) = m_tickled st" "m_previouseTime (snd (refresh now p st)) = m_previouseTime st"
proof -
  let ?h = "(heap st)(p := heap st p\<lparr>m_next := now + m_ms (heap st p)\<rparr>)"
  have d: "distinct (m_timers st)" using assms tl.set_ok_distinct by (auto simp: tm_inv_def)
  have cb: "m_cb (heap st p) = None \<longleftrightarrow> p \<notin> set (m_timers st)" using assms by (rule armed_iff)
  have h: "?h = (heap st)(p := heap st p\<lparr>m_ms := m_ms (heap st p), m_next := now + m_ms (heap st p)\<rparr>)" by simp
  show "fst (refresh now p st) = (p \<in> set (m_timers st))"
    "p \<in> set (m_timers st) \<Longrightarrow> heap (snd (refresh now p st)) = ?h"
    "p \<notin> set (m_timers st) \<Longrightarrow> snd (refresh now p st) = st"
    "m_tickled (snd (refresh now p st)) = m_tickled st" "m_previouseTime (snd (refresh now p st)) = m_previouseTime st"
    "set (m_timers (snd (refresh now p st))) = set (m_timers st)"
    using cb d by (auto simp: refresh_def Let_def tl.set_find_iff tl.set_set_insert)
  show "tm_inv (snd (refresh now p st))"
  proof (cases "p \<in> set (m_timers st)")
    case True
    note r = rearm_ok [OF assms True h]
    show ?thesis
      using True cb r(2) tl.set_insert_ok [OF r(1), of p]
      by (auto simp: refresh_def Let_def tl.set_find_iff tl.set_set_insert tm_inv_def)
  next
    case False
    then show ?thesis using assms cb by (simp add: refresh_def)
  qed
qed

lemma reset_cases:
  assumes "tm_inv st"
  shows "reset now p ms from_now st =
    (if ms = m_ms (heap st p) \<and> \<not> from_now then (True, False, st)
     else if p \<notin> set (m_timers st) then (False, False, st)
     else (True, addTimer_ptr (st\<lparr>heap := (heap st)(p := heap st p\<lparr>m_ms := ms,
              m_next := (if from_now then now else m_next (heap st p) - m_ms (heap st p)) + ms\<rparr>),
            m_timers := remove1 p (m_timers st)\<rparr>) p))"
proof -
  have "m_cb (heap st p) = None \<longleftrightarrow> p \<notin> set (m_timers st)" using assms by (rule armed_iff)
  then show ?thesis by (simp add: reset_def Let_def tl.set_find_iff)
qed

lemma reset_inv:
  assumes "tm_inv st"
  shows "tm_inv (snd (snd (reset now p ms from_now st)))"
proof -
  define t where "t = (if from_now then now else m_next (heap st p) - m_ms (heap st p)) + ms"
  let ?st = "st\<lparr>heap := (heap st)(p := heap st p\<lparr>m_ms := ms, m_next := t\<rparr>), m_timers := remove1 p (m_timers st)\<rparr>"
  have "tm_inv (snd (addTimer_ptr ?st p))" if "p \<in> set (m_timers st)"
  proof (rule addTimer_ptr_inv)
    show "set_ok (timer_less (heap ?st)) (m_timers ?st)"
      using rearm_ok(1) [OF assms that refl, where ms = ms and t = t] by simp
    show "m_cb (heap ?st q) \<noteq> None \<longleftrightarrow> q \<in> insert p (set (m_timers ?st))" for q
      using rearm_ok(2) [OF assms that refl, where ms = ms and t = t] by simp
  qed
  then show ?thesis using assms by (simp add: reset_cases t_def)
qed

section \<open>Expiry\<close>

lemma take_filter_drop:
  assumes "take n xs = filter P xs"
  shows "drop n xs = filter (\<lambda>x. \<not> P x) xs"
proof -
  have eq: "filter Q xs = filter Q (take n xs) @ filter Q (drop n xs)" for Q
    by (metis append_take_drop_id filter_append)
  have "filter P (drop n xs) = []" using eq [of P] assms by simp
  then have "filter (\<lambda>x. \<not> P x) (drop n xs) = drop n xs" by (simp add: filter_empty_conv)
  then show ?thesis using eq [of "\<lambda>x. \<not> P x"] assms by simp
qed

lemma expired_prefix:
  assumes "set_ok (timer_less h0) ts" "a \<notin> set ts" and h: "h = h0(a := Timer_at now)"
  defines "lb \<equiv> lower_bound (timer_less h) a ts"
  shows "take (lb + length (takeWhile (\<lambda>p. m_next (h p) = now) (drop lb ts))) ts = filter (\<lambda>p. m_next (h0 p) \<le> now) ts"
  using assms(1,2) unfolding lb_def
proof (induction ts)
  case (Cons p ts)
  have p: "h p = h0 p" "h a = Timer_at now" using Cons.prems h by auto
  have later: "m_next (h0 p) \<le> m_next (h0 q)" if "q \<in> set ts" for q
    using Cons.prems that by (auto simp: timer_less_iff)
  consider "timer_less h p a" | "\<not> timer_less h p a" "m_next (h0 p) = now" | "\<not> timer_less h p a" "m_next (h0 p) > now"
    using p by (force simp: timer_less_iff Timer_at_def)
  then show ?case
  proof cases
    case 1
    then have "m_next (h0 p) \<le> now" using p by (auto simp: timer_less_iff Timer_at_def)
    then show ?thesis using 1 Cons by (simp add: lower_bound_def)
  next
    case 2
    have "takeWhile (\<lambda>q. m_next (h q) = now) ts = takeWhile (\<lambda>q. m_next (h0 q) \<le> now) ts"
      by (rule takeWhile_cong) (use later 2 h Cons.prems in force)+
    also have "\<dots> = filter (\<lambda>q. m_next (h0 q) \<le> now) ts" using Cons.prems by (simp add: takeWhile_due)
    finally show ?thesis using 2 p takeWhile_eq_take [of "\<lambda>q. m_next (h q) = now" ts]
      by (simp add: lower_bound_def)
  next
    case 3
    then have "filter (\<lambda>q. m_next (h0 q) \<le> now) (p # ts) = []" using later by (force simp: filter_empty_conv)
    then show ?thesis using 3 p by (simp add: lower_bound_def)
  qed
qed (simp add: lower_bound_def)

text \<open>What firing does to one timer object.\<close>

definition fired :: "u64 \<Rightarrow> 'c timer \<Rightarrow> 'c timer" where
  "fired now t = (if m_recurring t then t\<lparr>m_next := now + m_ms t\<rparr> else t\<lparr>m_cb := None\<rparr>)"

lemma fire_ok:
  assumes "set_ok (timer_less (heap st)) (m_timers st)" "distinct ps" "set ps \<inter> set (m_timers st) = {}"
    "fire now ps st = (cbs, st')"
  shows "cbs = map (\<lambda>p. m_cb (heap st p)) ps \<and> set_ok (timer_less (heap st')) (m_timers st')
    \<and> set (m_timers st') = set (m_timers st) \<union> {p \<in> set ps. m_recurring (heap st p)}
    \<and> heap st' = (\<lambda>q. if q \<in> set ps then fired now (heap st q) else heap st q)
    \<and> m_tickled st' = m_tickled st \<and> m_previouseTime st' = m_previouseTime st"
  using assms
proof (induction ps arbitrary: st cbs)
  case (Cons p ps)
  define h where "h = (heap st)(p := fired now (heap st p))"
  define st1 where "st1 = st\<lparr>heap := h, m_timers := (if m_recurring (heap st p) then set_insert (timer_less h) p (m_timers st) else m_timers st)\<rparr>"
  obtain cbs' where c: "fire now ps st1 = (cbs', st')" "cbs = m_cb (heap st p) # cbs'"
    using Cons.prems(4) by (auto simp: Let_def st1_def h_def fired_def split: prod.splits if_splits)
  have ok: "set_ok (timer_less h) (m_timers st)"
    using Cons.prems(1,3) set_ok_cong [of "m_timers st" "heap st" h] by (auto simp: h_def)
  have "set_ok (timer_less (heap st1)) (m_timers st1)" using ok by (simp add: st1_def tl.set_insert_ok)
  moreover have ts: "set (m_timers st1) = set (m_timers st) \<union> (if m_recurring (heap st p) then {p} else {})"
    by (simp add: st1_def tl.set_set_insert)
  moreover have "set ps \<inter> set (m_timers st1) = {}" using Cons.prems(2,3) ts by auto
  ultimately have IH: "cbs' = map (\<lambda>p. m_cb (heap st1 p)) ps" "set_ok (timer_less (heap st')) (m_timers st')"
    "set (m_timers st') = set (m_timers st1) \<union> {p \<in> set ps. m_recurring (heap st1 p)}"
    "heap st' = (\<lambda>q. if q \<in> set ps then fired now (heap st1 q) else heap st1 q)"
    "m_tickled st' = m_tickled st1 \<and> m_previouseTime st' = m_previouseTime st1"
    using Cons.IH [of st1 cbs'] Cons.prems(2) c(1) by (blast dest: distinct.simps(2) [THEN iffD1])+
  have same: "heap st1 q = heap st q" if "q \<in> set ps" for q using that Cons.prems(2) by (auto simp: st1_def h_def)
  have heap1: "heap st1 q = (if q = p then fired now (heap st q) else heap st q)" for q by (simp add: st1_def h_def)
  have "heap st' = (\<lambda>q. if q \<in> set (p # ps) then fired now (heap st q) else heap st q)"
    using IH(4) heap1 Cons.prems(2) by (auto simp: fun_eq_iff)
  moreover have "set (m_timers st') = set (m_timers st) \<union> {q \<in> set (p # ps). m_recurring (heap st q)}"
    using IH(3) ts same by auto
  moreover have "cbs = map (\<lambda>p. m_cb (heap st p)) (p # ps)" using IH(1) c(2) same by simp
  ultimately show ?case using IH(2,5) by (simp add: st1_def)
qed simp

text \<open>The timers that are due: all of them when the clock went back by more than an hour.\<close>

definition due :: "u64 \<Rightarrow> 'c timer_manager \<Rightarrow> ptr list" where
  "due now st = (if fst (detectClockRollover now st) then m_timers st
     else filter (\<lambda>p. m_next (heap st p) \<le> now) (m_timers st))"

lemma listExpiredCb_ok:
  assumes inv: "tm_inv st" and a: "a \<notin> set (m_timers st)" and ex: "listExpiredCb now a st = (cbs, st')"
  shows "cbs = map (\<lambda>p. m_cb (heap st p)) (due now st) \<and> tm_inv st'
    \<and> set (m_timers st') = {p \<in> set (m_timers st). p \<in> set (due now st) \<longrightarrow> m_recurring (heap st p)}
    \<and> heap st' = (\<lambda>q. if q \<in> set (due now st) then fired now (heap st q) else heap st q)
    \<and> m_tickled st' = m_tickled st"
proof -
  have ok: "set_ok (timer_less (heap st)) (m_timers st)" using inv by (simp add: tm_inv_def)
  define P where "P = (\<lambda>p. fst (detectClockRollover now st) \<or> m_next (heap st p) \<le> now)"
  have due: "due now st = filter P (m_timers st)" by (simp add: due_def P_def)
  let ?st1 = "snd (detectClockRollover now st)"
  have st1: "heap ?st1 = heap st" "m_timers ?st1 = m_timers st" "m_tickled ?st1 = m_tickled st"
    by (simp_all add: detectClockRollover_def)
  show ?thesis
  proof (cases "filter P (m_timers st) = []")
    case True
    then have "cbs = [] \<and> (st' = st \<or> st' = ?st1)"
      using ex by (cases "m_timers st") (auto simp: listExpiredCb_def P_def Let_def st1 case_prod_unfold split: if_splits)
    then show ?thesis using True inv st1 by (auto simp: due tm_inv_def)
  next
    case False
    then have ne: "m_timers st \<noteq> []" by auto
    have front: "\<not> (\<not> fst (detectClockRollover now st) \<and> m_next (heap st (hd (m_timers st))) > now)"
      using False head_earliest [OF ok] by (force simp: P_def filter_empty_conv)
    let ?h = "(heap st)(a := Timer_at now)"
    obtain n where n: "take n (m_timers st) = filter P (m_timers st)"
      "fire now (take n (m_timers st)) (?st1\<lparr>m_timers := drop n (m_timers st)\<rparr>) = (cbs, st')"
    proof (cases "fst (detectClockRollover now st)")
      case True
      then show thesis using that [of "length (m_timers st)"] ex ne
        by (auto simp: listExpiredCb_def Let_def st1 P_def case_prod_unfold)
    next
      case False
      then show thesis using that expired_prefix [OF ok a refl, of now] ex ne front
        by (auto simp: listExpiredCb_def Let_def st1 P_def case_prod_unfold)
    qed
    have rest: "drop n (m_timers st) = filter (\<lambda>p. \<not> P p) (m_timers st)" using n(1) by (rule take_filter_drop)
    define st2 where "st2 = ?st1\<lparr>m_timers := filter (\<lambda>p. \<not> P p) (m_timers st)\<rparr>"
    have st2: "heap st2 = heap st" "m_timers st2 = filter (\<lambda>p. \<not> P p) (m_timers st)" "m_tickled st2 = m_tickled st"
      by (simp_all add: st2_def detectClockRollover_def)
    have fire: "fire now (filter P (m_timers st)) st2 = (cbs, st')" using n rest by (simp add: st2_def)
    have *: "cbs = map (\<lambda>p. m_cb (heap st p)) (filter P (m_timers st))" "set_ok (timer_less (heap st')) (m_timers st')"
      "set (m_timers st') = set (filter (\<lambda>p. \<not> P p) (m_timers st)) \<union> {p \<in> set (filter P (m_timers st)). m_recurring (heap st p)}"
      "heap st' = (\<lambda>q. if q \<in> set (filter P (m_timers st)) then fired now (heap st q) else heap st q)"
      "m_tickled st' = m_tickled st"
      using fire_ok [OF _ _ _ fire, unfolded st2] ok tl.set_ok_distinct [OF ok] by (auto simp: set_ok_filter)
    have "m_cb (heap st' q) \<noteq> None \<longleftrightarrow> q \<in> set (m_timers st')" for q
      using inv *(3,4) by (auto simp: tm_inv_def fired_def)
    then show ?thesis using * by (auto simp: due tm_inv_def)
  qed
qed

section \<open>Runs\<close>

text \<open>The calls clients make, with the address of an object the call allocates.\<close>

datatype 'c tm_call =
    AddTimer ptr u64 'c bool
  | Cancel ptr
  | Refresh ptr
  | Reset ptr u64 bool
  | NextTimer
  | ListExpired ptr

text \<open>One call at time \<open>now\<close>; the flag tells whether it called onTimerInsertedAtFront.\<close>

fun tm_exec :: "u64 \<Rightarrow> 'c tm_call \<Rightarrow> 'c timer_manager \<Rightarrow> (tm_error, bool \<times> 'c timer_manager) result" where
  "tm_exec now (AddTimer a ms cb recurring) st = Inr (addTimer now a ms (Some cb) recurring st)"
| "tm_exec now (Cancel p) st = rbind (cancel p st) (\<lambda>(r, st'). Inr (False, st'))"
| "tm_exec now (Refresh p) st = Inr (False, snd (refresh now p st))"
| "tm_exec now (Reset p ms from_now) st = Inr (snd (reset now p ms from_now st))"
| "tm_exec now NextTimer st = Inr (False, snd (getNextTimer now st))"
| "tm_exec now (ListExpired a) st = Inr (False, snd (listExpiredCb now a st))"

text \<open>An allocated address is not that of a timer the set still holds a reference to.\<close>

fun call_ok :: "'c tm_call \<Rightarrow> 'c timer_manager \<Rightarrow> bool" where
  "call_ok (AddTimer a ms cb recurring) st \<longleftrightarrow> a \<notin> set (m_timers st)"
| "call_ok (ListExpired a) st \<longleftrightarrow> a \<notin> set (m_timers st)"
| "call_ok _ st \<longleftrightarrow> True"

inductive tm_run :: "'c timer_manager \<Rightarrow> (u64 \<times> 'c tm_call \<times> bool) list \<Rightarrow> 'c timer_manager \<Rightarrow> bool" where
  tm_run_nil: "tm_run st [] st"
| tm_run_step: "call_ok c st \<Longrightarrow> tm_exec now c st = Inr (b, st1) \<Longrightarrow> tm_run st1 tr st'
    \<Longrightarrow> tm_run st ((now, c, b) # tr) st'"

lemma addTimer_ptr_frame:
  "heap (snd (addTimer_ptr st p)) = heap st" "set (m_timers (snd (addTimer_ptr st p))) = insert p (set (m_timers st))"
  "m_previouseTime (snd (addTimer_ptr st p)) = m_previouseTime st"
  by (simp_all add: addTimer_ptr_def Let_def tl.set_set_insert)

lemma tm_exec_inv:
  assumes "tm_inv st" "call_ok c st"
  shows "\<exists>b st'. tm_exec now c st = Inr (b, st') \<and> tm_inv st'"
proof (cases c)
  case (AddTimer a ms cb recurring)
  then show ?thesis using assms addTimer_inv [of st a "Some cb" now ms recurring] by (cases "addTimer now a ms (Some cb) recurring st") simp
next
  case (Cancel p)
  then show ?thesis using cancel_ok [OF assms(1), of p] by auto
next
  case (Reset p ms from_now)
  then show ?thesis using reset_inv [OF assms(1), of now p ms from_now] by (cases "snd (reset now p ms from_now st)") simp
next
  case (ListExpired a)
  then show ?thesis using assms listExpiredCb_ok [OF assms(1), of a now] by (cases "listExpiredCb now a st") auto
next
  case NextTimer
  then show ?thesis using assms by (auto simp: getNextTimer_def Let_def tm_inv_def)
qed (auto simp: refresh_ok [OF assms(1)])

lemma tm_run_inv: "tm_run st tr st' \<Longrightarrow> tm_inv st \<Longrightarrow> tm_inv st'"
proof (induction rule: tm_run.induct)
  case (tm_run_step c st now b st1 tr st')
  then show ?case using tm_exec_inv [of st c now] by auto
qed

text \<open>A disarmed timer stays disarmed until its address is handed to addTimer again.\<close>

lemma tm_exec_disarmed:
  assumes "tm_inv st" "call_ok c st" "p \<notin> set (m_timers st)" "\<And>ms cb r. c \<noteq> AddTimer p ms cb r"
    "tm_exec now c st = Inr (b, st')"
  shows "p \<notin> set (m_timers st')"
proof (cases c)
  case (AddTimer a ms cb recurring)
  then have "p \<noteq> a" using assms(4) by auto
  moreover have "st' = snd (addTimer_ptr (st\<lparr>heap := (heap st)(a := Timer now ms (Some cb) recurring)\<rparr>) a)"
    using AddTimer assms(5) by (auto simp: addTimer_def)
  ultimately show ?thesis using assms(3) by (simp add: addTimer_ptr_frame)
next
  case (Cancel q)
  then show ?thesis using cancel_ok [OF assms(1), of q] assms(3,5) by (auto dest: notin_set_remove1)
next
  case (Refresh q)
  then show ?thesis using refresh_ok(3) [OF assms(1), of now q] assms(3,5) by auto
next
  case (Reset q ms from_now)
  then show ?thesis using assms(1,3,5)
    by (auto simp: reset_cases addTimer_ptr_frame dest: notin_set_remove1 split: if_splits
      dest!: arg_cong [where f = snd])
next
  case NextTimer
  then show ?thesis using assms(3,5) by (auto simp: getNextTimer_def Let_def split: if_splits)
next
  case (ListExpired a)
  then show ?thesis using listExpiredCb_ok [OF assms(1), of a now] assms(2,3,5)
    by (cases "listExpiredCb now a st") auto
qed

lemma tm_run_disarmed:
  "tm_run st tr st' \<Longrightarrow> tm_inv st \<Longrightarrow> p \<notin> set (m_timers st) \<Longrightarrow> \<forall>(t, c, b) \<in> set tr. \<forall>ms cb r. c \<noteq> AddTimer p ms cb r
    \<Longrightarrow> p \<notin> set (m_timers st') \<and> tm_inv st'"
proof (induction rule: tm_run.induct)
  case (tm_run_step c st now b st1 tr st')
  have "tm_inv st1" using tm_exec_inv [of st c now] tm_run_step by auto
  moreover have "p \<notin> set (m_timers st1)"
    using tm_run_step.hyps tm_run_step.prems by (intro tm_exec_disarmed [of st c p now b st1]) auto
  ultimately show ?case using tm_run_step by simp
qed simp

section \<open>Wake-ups\<close>

text \<open>
  With a clock that never goes back and periods of at most \<open>B\<close> milliseconds that do not overflow it,
  every deadline is a past time plus the period of its timer.
\<close>

definition clk_inv :: "nat \<Rightarrow> u64 \<Rightarrow> 'c timer_manager \<Rightarrow> bool" where
  "clk_inv B now st \<longleftrightarrow> tm_inv st \<and> m_previouseTime st \<le> now
     \<and> (\<forall>p \<in> set (m_timers st). unat (m_ms (heap st p)) \<le> B
          \<and> (\<exists>s \<le> unat now. unat (m_next (heap st p)) = s + unat (m_ms (heap st p))))"

fun ms_ok :: "nat \<Rightarrow> 'c tm_call \<Rightarrow> bool" where
  "ms_ok B (AddTimer a ms cb recurring) \<longleftrightarrow> unat ms \<le> B"
| "ms_ok B (Reset p ms from_now) \<longleftrightarrow> unat ms \<le> B"
| "ms_ok B _ \<longleftrightarrow> True"

fun clock_ok :: "nat \<Rightarrow> u64 \<Rightarrow> (u64 \<times> 'c tm_call \<times> bool) list \<Rightarrow> bool" where
  "clock_ok B now [] \<longleftrightarrow> True"
| "clock_ok B now ((t, c, b) # tr) \<longleftrightarrow> now \<le> t \<and> unat t + B < 2 ^ 64 \<and> ms_ok B c \<and> clock_ok B t tr"

fun end_time :: "u64 \<Rightarrow> (u64 \<times> 'c tm_call \<times> bool) list \<Rightarrow> u64" where
  "end_time now [] = now"
| "end_time now ((t, c, b) # tr) = end_time t tr"

lemma addTimer_ptr_later:
  assumes "set_ok (timer_less (heap st)) (m_timers st)" "\<not> m_tickled st" "\<not> fst (addTimer_ptr st p)"
  shows "\<exists>q \<in> set (m_timers st). m_next (heap st q) \<le> m_next (heap st p)" "\<not> m_tickled (snd (addTimer_ptr st p))"
proof -
  let ?ts = "set_insert (timer_less (heap st)) p (m_timers st)"
  have ne: "hd ?ts \<noteq> p" using assms(2,3) by (simp add: addTimer_ptr_def Let_def)
  have "?ts \<noteq> []" using tl.set_set_insert [of "heap st" p "m_timers st"] by auto
  then have "hd ?ts \<in> insert p (set (m_timers st))" using tl.set_set_insert [of "heap st" p "m_timers st"] by (metis hd_in_set)
  moreover have "m_next (heap st (hd ?ts)) \<le> m_next (heap st p)"
    using head_earliest [OF tl.set_insert_ok [OF assms(1)], of p p] by (simp add: tl.set_set_insert)
  ultimately show "\<exists>q \<in> set (m_timers st). m_next (heap st q) \<le> m_next (heap st p)" using ne by auto
  show "\<not> m_tickled (snd (addTimer_ptr st p))" using assms(2,3) by (simp add: addTimer_ptr_def Let_def)
qed

lemma rearmed_clock:
  assumes "clk_inv B t0 st" "p \<in> set (m_timers st)" "t0 \<le> now" "unat now + B < 2 ^ 64" "unat ms \<le> B"
  shows "\<exists>s \<le> unat now. unat ((if from_now then now else m_next (heap st p) - m_ms (heap st p)) + ms) = s + unat ms"
proof (cases from_now)
  case True
  then show ?thesis using assms(4,5) by (auto simp: unat_add_lt)
next
  case False
  obtain s where s: "s \<le> unat t0" "unat (m_next (heap st p)) = s + unat (m_ms (heap st p))"
    using assms(1,2) by (auto simp: clk_inv_def)
  then have "m_ms (heap st p) \<le> m_next (heap st p)" by (simp add: word_le_nat_alt)
  then have d: "unat (m_next (heap st p) - m_ms (heap st p)) = s" using s(2) by (simp add: unat_sub)
  moreover have "s \<le> unat now" using s(1) assms(3) by (simp add: word_le_nat_alt)
  ultimately show ?thesis using False assms(4,5) by (auto simp: unat_add_lt)
qed

lemma clk_invI:
  assumes "tm_inv st'" "m_previouseTime st' \<le> now" "clk_inv B t0 st" "t0 \<le> now"
    and "\<And>p. p \<in> set (m_timers st') \<Longrightarrow>
      p \<in> set (m_timers st) \<and> m_next (heap st' p) = m_next (heap st p) \<and> m_ms (heap st' p) = m_ms (heap st p)
      \<or> unat (m_ms (heap st' p)) \<le> B \<and> (\<exists>s \<le> unat now. unat (m_next (heap st' p)) = s + unat (m_ms (heap st' p)))"
  shows "clk_inv B now st'"
proof -
  have "unat t0 \<le> unat now" using assms(4) by (simp add: word_le_nat_alt)
  then show ?thesis using assms(1,2,3,5) unfolding clk_inv_def by (metis order_trans)
qed

lemma fire_prev: "m_previouseTime (snd (fire now ps st)) = m_previouseTime st"
  by (induction ps arbitrary: st) (auto simp: Let_def case_prod_unfold)

lemma listExpiredCb_prev: "m_previouseTime (snd (listExpiredCb now a st)) = (if m_timers st = [] then m_previouseTime st else now)"
  by (auto simp: listExpiredCb_def detectClockRollover_def Let_def fire_prev)

lemma tm_exec_clk:
  assumes inv: "clk_inv B t0 st" and t: "t0 \<le> now" "unat now + B < 2 ^ 64" and c: "call_ok c st" "ms_ok B c"
    and ex: "tm_exec now c st = Inr (b, st')"
  shows "clk_inv B now st'"
proof (rule clk_invI [OF _ _ inv t(1)])
  have tm: "tm_inv st" and prev: "m_previouseTime st \<le> now" using inv t(1) by (auto simp: clk_inv_def)
  show "tm_inv st'" using tm_exec_inv [OF tm c(1), of now] ex by auto
  have ms: "unat (m_ms (heap st p)) \<le> B" if "p \<in> set (m_timers st)" for p using inv that by (auto simp: clk_inv_def)
  let ?goal = "\<lambda>p. p \<in> set (m_timers st') \<longrightarrow>
      p \<in> set (m_timers st) \<and> m_next (heap st' p) = m_next (heap st p) \<and> m_ms (heap st' p) = m_ms (heap st p)
      \<or> unat (m_ms (heap st' p)) \<le> B \<and> (\<exists>s \<le> unat now. unat (m_next (heap st' p)) = s + unat (m_ms (heap st' p)))"
  have "m_previouseTime st' \<le> now \<and> ?goal p" for p
  proof (cases c)
    case (AddTimer a ms cb recurring)
    then have "st' = snd (addTimer_ptr (st\<lparr>heap := (heap st)(a := Timer now ms (Some cb) recurring)\<rparr>) a)"
      using ex by (auto simp: addTimer_def)
    then show ?thesis using prev t c AddTimer by (auto simp: addTimer_ptr_frame Timer_def unat_add_lt)
  next
    case (Cancel q)
    have d: "distinct (m_timers st)" using tm tl.set_ok_distinct by (auto simp: tm_inv_def)
    then show ?thesis using Cancel cancel_ok [OF tm, of q] ex prev by (auto simp: d)
  next
    case (Refresh q)
    then show ?thesis using refresh_ok [OF tm, where now = now and p = q] ex prev ms [of q] t(2)
      by (cases "q \<in> set (m_timers st)") (auto simp: unat_add_lt)
  next
    case (Reset q ms from_now)
    show ?thesis
    proof (cases "ms = m_ms (heap st q) \<and> \<not> from_now \<or> q \<notin> set (m_timers st)")
      case True
      then have "st' = st" using ex Reset tm by (auto simp: reset_cases split: if_splits)
      then show ?thesis using prev by simp
    next
      case False
      define tn where "tn = (if from_now then now else m_next (heap st q) - m_ms (heap st q)) + ms"
      have "st' = snd (addTimer_ptr (st\<lparr>heap := (heap st)(q := heap st q\<lparr>m_ms := ms, m_next := tn\<rparr>),
          m_timers := remove1 q (m_timers st)\<rparr>) q)"
        using ex Reset False tm by (auto simp: reset_cases tn_def)
      moreover have "\<exists>s \<le> unat now. unat tn = s + unat ms"
        using rearmed_clock [OF inv _ t, where p = q and ms = ms and from_now = from_now] False c(2) Reset by (simp add: tn_def)
      ultimately show ?thesis using prev c(2) Reset by (auto simp: addTimer_ptr_frame dest: notin_set_remove1)
    qed
  next
    case NextTimer
    then show ?thesis using ex prev by (auto simp: getNextTimer_def Let_def split: if_splits)
  next
    case (ListExpired a)
    obtain cbs where le: "listExpiredCb now a st = (cbs, st')" using ex ListExpired by (cases "listExpiredCb now a st") auto
    have a: "a \<notin> set (m_timers st)" using c(1) ListExpired by simp
    have "m_previouseTime st' \<le> now" using listExpiredCb_prev [of now a st] le prev by (auto split: if_splits)
    then show ?thesis using listExpiredCb_ok [OF tm a le] ms [of p] t(2)
      by (auto simp: fired_def unat_add_lt)
  qed
  then show "m_previouseTime st' \<le> now" "\<And>p. p \<in> set (m_timers st') \<Longrightarrow>
      p \<in> set (m_timers st) \<and> m_next (heap st' p) = m_next (heap st p) \<and> m_ms (heap st' p) = m_ms (heap st p)
      \<or> unat (m_ms (heap st' p)) \<le> B \<and> (\<exists>s \<le> unat now. unat (m_next (heap st' p)) = s + unat (m_ms (heap st' p)))"
    by blast+
qed

text \<open>Without an announcement no deadline moves in front of a bound \<open>D\<close> on all deadlines.\<close>

lemma tm_exec_quiet:
  assumes inv: "clk_inv B t0 st" and t: "t0 \<le> now" "unat now + B < 2 ^ 64" and c: "call_ok c st" "ms_ok B c" "c \<noteq> NextTimer"
    and ex: "tm_exec now c st = Inr (False, st')" and D: "\<And>p. p \<in> set (m_timers st) \<Longrightarrow> D \<le> unat (m_next (heap st p))"
    and tick: "\<not> m_tickled st"
  shows "\<not> m_tickled st' \<and> (p \<in> set (m_timers st') \<longrightarrow> D \<le> unat (m_next (heap st' p)))"
proof -
  have tm: "tm_inv st" and prev: "m_previouseTime st \<le> now" using inv t(1) by (auto simp: clk_inv_def)
  have ok: "set_ok (timer_less (heap st)) (m_timers st)" using tm by (simp add: tm_inv_def)
  have next_le: "unat (m_next (heap st q)) \<le> unat (now + m_ms (heap st q))" if q: "q \<in> set (m_timers st)" for q
    using inv q t by (auto simp: clk_inv_def unat_add_lt word_le_nat_alt)
  have front: "\<not> m_tickled (snd (addTimer_ptr s q)) \<and> (p \<in> insert q (set (m_timers s)) \<longrightarrow> D \<le> unat (m_next (heap s p)))"
    if s: "set_ok (timer_less (heap s)) (m_timers s)" "\<not> m_tickled s" "\<not> fst (addTimer_ptr s q)"
      "\<And>r. r \<in> set (m_timers s) \<Longrightarrow> D \<le> unat (m_next (heap s r))" for s q
    using addTimer_ptr_later [OF s(1-3)] s(4) by (auto simp: word_le_nat_alt intro: order_trans)
  show ?thesis
  proof (cases c)
    case (AddTimer a ms cb recurring)
    define s where "s = st\<lparr>heap := (heap st)(a := Timer now ms (Some cb) recurring)\<rparr>"
    have "addTimer_ptr s a = (False, st')" using ex AddTimer by (simp add: addTimer_def s_def)
    moreover have "set_ok (timer_less (heap s)) (m_timers s)"
      using ok set_ok_cong [of "m_timers st" "heap st" "heap s"] c(1) AddTimer by (auto simp: s_def)
    moreover have "D \<le> unat (m_next (heap s r))" if "r \<in> set (m_timers s)" for r
      using that D c(1) AddTimer by (auto simp: s_def)
    ultimately show ?thesis using front [of s a] tick addTimer_ptr_frame [of s a] by (simp add: s_def)
  next
    case (Cancel q)
    then show ?thesis 
      using cancel_ok [OF tm, of q] ex D [of p] tick set_remove1_subset [of q "m_timers st"] by (cases "p = q") auto
  next
    case (Refresh q)
    then show ?thesis using refresh_ok [OF tm, where now = now and p = q] ex D tick next_le
      by (cases "q \<in> set (m_timers st)") (auto intro: order_trans)
  next
    case (Reset q ms from_now)
    show ?thesis
    proof (cases "ms = m_ms (heap st q) \<and> \<not> from_now \<or> q \<notin> set (m_timers st)")
      case True
      then have "st' = st" using ex Reset tm by (auto simp: reset_cases split: if_splits)
      then show ?thesis using tick D by simp
    next
      case False
      define tn where "tn = (if from_now then now else m_next (heap st q) - m_ms (heap st q)) + ms"
      define s where "s = st\<lparr>heap := (heap st)(q := heap st q\<lparr>m_ms := ms, m_next := tn\<rparr>),
          m_timers := remove1 q (m_timers st)\<rparr>"
      have "addTimer_ptr s q = (False, st')" using ex Reset False tm by (auto simp: reset_cases tn_def s_def)
      moreover have "set_ok (timer_less (heap s)) (m_timers s)"
        using rearm_ok(1) [OF tm _ refl, where p = q and ms = ms and t = tn] False by (simp add: s_def)
      moreover have "D \<le> unat (m_next (heap s r))" if "r \<in> set (m_timers s)" for r
        using that D tl.set_ok_distinct [OF ok] by (auto simp: s_def)
      ultimately show ?thesis using front [of s q] tick addTimer_ptr_frame [of s q] by (simp add: s_def)
    qed
  next
    case (ListExpired a)
    obtain cbs where le: "listExpiredCb now a st = (cbs, st')" using ex ListExpired by (cases "listExpiredCb now a st") auto
    have a: "a \<notin> set (m_timers st)" using c(1) ListExpired by simp
    then show ?thesis using listExpiredCb_ok [OF tm a le] tick D next_le
      by (auto simp: fired_def intro: order_trans)
  qed (use c in simp)
qed

lemma tm_run_clk:
  "tm_run st tr st' \<Longrightarrow> clk_inv B t0 st \<Longrightarrow> clock_ok B t0 tr \<Longrightarrow> clk_inv B (end_time t0 tr) st'"
proof (induction arbitrary: t0 rule: tm_run.induct)
  case (tm_run_step c st now b st1 tr st')
  then have "clk_inv B now st1" using tm_exec_clk [of B t0 st now c b st1] by simp
  then show ?case using tm_run_step by simp
qed simp

lemma tm_run_quiet:
  "tm_run st tr st' \<Longrightarrow> clk_inv B t0 st \<Longrightarrow> clock_ok B t0 tr \<Longrightarrow> \<forall>(t, c, b) \<in> set tr. c \<noteq> NextTimer \<and> \<not> b
   \<Longrightarrow> \<not> m_tickled st \<Longrightarrow> \<forall>p \<in> set (m_timers st). D \<le> unat (m_next (heap st p))
   \<Longrightarrow> \<forall>p \<in> set (m_timers st'). D \<le> unat (m_next (heap st' p))"
proof (induction arbitrary: t0 rule: tm_run.induct)
  case (tm_run_step c st now b st1 tr st')
  have b: "c \<noteq> NextTimer" "\<not> b" "now \<ge> t0" "unat now + B < 2 ^ 64" "ms_ok B c" using tm_run_step.prems by auto
  have "clk_inv B now st1" using tm_exec_clk [of B t0 st now c b st1] tm_run_step by simp
  moreover have "\<not> m_tickled st1 \<and> (p \<in> set (m_timers st1) \<longrightarrow> D \<le> unat (m_next (heap st1 p)))" for p
    using tm_exec_quiet [OF tm_run_step.prems(1) b(3,4) tm_run_step.hyps(1) b(5,1), of st1 D p] tm_run_step b(2) by simp
  ultimately show ?case using tm_run_step by simp
qed simp

section \<open>Properties\<close>

text \<open>C5: Every run of the timer manager from its constructor keeps the set ordered by deadline and a
  timer armed exactly while it is in the set; hence Timer::cancel never erases the end iterator, and
  every call a client can make next succeeds.\<close>

theorem timers_never_corrupt:
  assumes "tm_run (TimerManager t0) tr st" and "call_ok c st"
  shows "tm_inv st \<and> (\<exists>b st'. tm_exec now c st = Inr (b, st') \<and> tm_inv st')"
  using tm_exec_inv [of st c now] tm_run_inv [OF assms(1) tm_inv_TimerManager] assms(2) by blast

theorem timers_never_corrupt_witness:
  "\<exists>st :: nat timer_manager. tm_run (TimerManager 0) [(5, AddTimer 1 10 0 True, True)] st \<and> tm_inv st
    \<and> (\<exists>b st'. tm_exec 6 (Cancel 1) st = Inr (b, st') \<and> tm_inv st')"
proof -
  obtain st :: "nat timer_manager" where st: "tm_exec 5 (AddTimer 1 10 0 True) (TimerManager 0) = Inr (True, st)"
    by (simp add: addTimer_def addTimer_ptr_def TimerManager_def Let_def)
  have "tm_run (TimerManager 0) [(5, AddTimer 1 10 0 True, True)] st"
    by (rule tm_run_step [OF _ st tm_run_nil]) (simp add: TimerManager_def)
  then show ?thesis using timers_never_corrupt [of 0 _ st "Cancel 1" 6] by auto
qed

text \<open>C6: listExpiredCb returns exactly the callbacks of the timers that are due, earliest first: those
  whose deadline is not after now, or all of them after the clock went back by more than an hour. The
  recurring ones stay, due again one period from now, the others leave the set, and every timer that
  was not due is left alone. The address of the search object does not matter.\<close>

theorem listExpiredCb_exact:
  assumes "tm_inv st" and "a \<notin> set (m_timers st)" and "listExpiredCb now a st = (cbs, st')"
    and "D = (if now < m_previouseTime st \<and> now < m_previouseTime st - 3600000 then m_timers st
              else filter (\<lambda>p. m_next (heap st p) \<le> now) (m_timers st))"
  shows "cbs = map (\<lambda>p. m_cb (heap st p)) D \<and> None \<notin> set cbs
    \<and> sorted (map (\<lambda>p. m_next (heap st p)) D)
    \<and> set (m_timers st') = (set (m_timers st) - set D) \<union> {p \<in> set D. m_recurring (heap st p)}
    \<and> (\<forall>p \<in> set D. m_recurring (heap st p) \<longrightarrow> m_next (heap st' p) = now + m_ms (heap st p))
    \<and> (\<forall>p. p \<notin> set D \<longrightarrow> heap st' p = heap st p) \<and> tm_inv st'"
proof -
  have D: "due now st = D" using assms(4) by (simp add: due_def detectClockRollover_def)
  have sub: "set D \<subseteq> set (m_timers st)" using assms(4) by auto
  have "set_ok (timer_less (heap st)) D" using assms(1,4) by (simp add: tm_inv_def set_ok_filter)
  then have "sorted (map (\<lambda>p. m_next (heap st p)) D)" by (induction D) (auto simp: timer_less_iff)
  moreover have "None \<notin> set (map (\<lambda>p. m_cb (heap st p)) D)" using sub armed_iff [OF assms(1)] by force
  moreover note listExpiredCb_ok [OF assms(1-3), unfolded D]
  ultimately show ?thesis using sub by (auto simp: fired_def)
qed

theorem listExpiredCb_exact_witness:
  fixes st :: "nat timer_manager"
  defines "st \<equiv> snd (addTimer 0 2 7 (Some 20) False (snd (addTimer 0 1 5 (Some 10) True (TimerManager 0))))"
  shows "fst (listExpiredCb 5 9 st) = [Some 10] \<and> set (m_timers (snd (listExpiredCb 5 9 st))) = {1, 2}"
proof -
  have inv: "tm_inv st" unfolding st_def
    by (intro addTimer_inv tm_inv_TimerManager) (simp_all add: addTimer_def addTimer_ptr_def TimerManager_def Let_def)
  have st: "m_timers st = [1, 2]" "m_previouseTime st = 0" "m_next (heap st 1) = 5" "m_next (heap st 2) = 7"
    "m_cb (heap st 1) = Some 10" "m_recurring (heap st 1)"
    by (simp_all add: st_def addTimer_def addTimer_ptr_def TimerManager_def Let_def Timer_def timer_less_iff)
  have eq: "listExpiredCb 5 9 st = (fst (listExpiredCb 5 9 st), snd (listExpiredCb 5 9 st))" by simp
  have D: "[1] = (if 5 < m_previouseTime st \<and> 5 < m_previouseTime st - 3600000 then m_timers st
      else filter (\<lambda>p. m_next (heap st p) \<le> 5) (m_timers st))"
    using st by simp
  have "9 \<notin> set (m_timers st)" by (simp add: st)
  note ex = listExpiredCb_exact [OF inv this eq D]
  have "fst (listExpiredCb 5 9 st) = map (\<lambda>p. m_cb (heap st p)) [1]" using ex by (rule conjunct1)
  moreover have "set (m_timers (snd (listExpiredCb 5 9 st)))
      = (set (m_timers st) - set [1]) \<union> {p \<in> set [1]. m_recurring (heap st p)}"
    using ex by (elim conjE)
  moreover have "{p \<in> set [1]. m_recurring (heap st p)} = {1}" using st(6) by auto
  ultimately show ?thesis using st(1,5) by auto
qed

text \<open>getNextTimer returns the time left until the earliest deadline, zero when one has passed, and the
  largest 64-bit number when there is no timer; it re-enables the announcement of a new front.\<close>

theorem getNextTimer_earliest:
  assumes "tm_inv st" and "getNextTimer now st = (d, st')"
  shows "(m_timers st = [] \<longrightarrow> d = - 1)
    \<and> (m_timers st \<noteq> [] \<longrightarrow> unat d = Min ((\<lambda>p. unat (m_next (heap st p)) - unat now) ` set (m_timers st)))
    \<and> \<not> m_tickled st' \<and> m_timers st' = m_timers st \<and> heap st' = heap st"
proof -
  have "unat d = Min ((\<lambda>p. unat (m_next (heap st p)) - unat now) ` set (m_timers st))" if ne: "m_timers st \<noteq> []"
  proof -
    let ?f = "\<lambda>p. unat (m_next (heap st p)) - unat now"
    have "?f (hd (m_timers st)) \<le> ?f p" if "p \<in> set (m_timers st)" for p
      using head_earliest [of "heap st" "m_timers st" p] assms(1) that
      by (simp add: tm_inv_def word_le_nat_alt diff_le_mono)
    then have "Min (?f ` set (m_timers st)) = ?f (hd (m_timers st))" using ne by (intro Min_eqI) auto
    moreover have "unat d = ?f (hd (m_timers st))"
      using assms(2) ne by (auto simp: getNextTimer_def Let_def word_le_nat_alt unat_sub split: if_splits)
    ultimately show ?thesis by simp
  qed
  then show ?thesis using assms(2) by (auto simp: getNextTimer_def Let_def split: if_splits)
qed

theorem getNextTimer_earliest_witness:
  fixes st :: "nat timer_manager"
  defines "st \<equiv> snd (addTimer 0 2 7 (Some 20) False (TimerManager 0))"
  shows "unat (fst (getNextTimer 3 st)) = 4"
proof -
  have inv: "tm_inv st" unfolding st_def by (intro addTimer_inv tm_inv_TimerManager) (simp_all add: TimerManager_def)
  have "m_timers st = [2]" "m_next (heap st 2) = 7"
    by (simp_all add: st_def addTimer_def addTimer_ptr_def TimerManager_def Let_def Timer_def)
  then show ?thesis using getNextTimer_earliest [OF inv, of 3 "fst (getNextTimer 3 st)" "snd (getNextTimer 3 st)"]
    by simp
qed

text \<open>C7: A cancelled timer never fires. After cancel succeeded, whatever calls follow (refresh and reset of
  that timer included), as long as no new timer is created at its address, it is not in the set and
  no call of listExpiredCb counts it among the due timers.\<close>

theorem cancelled_never_fires:
  assumes "tm_inv st" and "cancel p st = Inr (True, st1)" and "tm_run st1 tr st2"
    and "\<forall>(t, c, b) \<in> set tr. \<forall>ms cb r. c \<noteq> AddTimer p ms cb r"
  shows "p \<notin> set (m_timers st2) \<and> m_cb (heap st2 p) = None \<and> p \<notin> set (due now st2)
    \<and> fst (refresh now p st2) = False"
proof -
  have "tm_inv st1" "m_timers st1 = remove1 p (m_timers st)" using cancel_ok [OF assms(1), of p] assms(2) by auto
  moreover have "distinct (m_timers st)" using assms(1) tl.set_ok_distinct by (auto simp: tm_inv_def)
  ultimately have "p \<notin> set (m_timers st2)" "tm_inv st2" using tm_run_disarmed [OF assms(3) _ _ assms(4)] by simp_all
  then show ?thesis using armed_iff [of st2 p] refresh_ok(1) [of st2 now p] by (auto simp: due_def)
qed

theorem cancelled_never_fires_witness:
  fixes st :: "nat timer_manager"
  defines "st \<equiv> snd (addTimer 0 2 7 (Some 20) False (TimerManager 0))"
  shows "\<exists>st1. cancel 2 st = Inr (True, st1) \<and> 2 \<notin> set (due 100 st1)"
proof -
  have inv: "tm_inv st" unfolding st_def by (intro addTimer_inv tm_inv_TimerManager) (simp_all add: TimerManager_def)
  have "m_timers st = [2]" by (simp add: st_def addTimer_def addTimer_ptr_def TimerManager_def Let_def)
  then obtain st1 where "cancel 2 st = Inr (True, st1)" using cancel_ok [OF inv, of 2] by auto
  then show ?thesis using cancelled_never_fires [OF inv _ tm_run_nil, of 2 st1 100] by auto
qed

text \<open>C8: No wake-up is lost. Suppose the clock never goes back, periods are at most \<open>B\<close> and adding them to a
  time does not overflow, and a waiter has just obtained \<open>d > 0\<close> from getNextTimer. Whatever calls other
  threads make then, as long as none of them announced a new front, no timer of the set is due before
  the waiter wakes up by itself \<open>d\<close> milliseconds later.\<close>

theorem no_lost_wakeup:
  assumes "tm_run (TimerManager t0) tr1 st" and "clock_ok B t0 tr1"
    and "getNextTimer now st = (d, st1)" and "0 < d" and "end_time t0 tr1 \<le> now"
    and "tm_run st1 tr2 st2" and "clock_ok B now tr2"
    and "\<forall>(t, c, b) \<in> set tr2. c \<noteq> NextTimer \<and> \<not> b"
  shows "\<forall>p \<in> set (m_timers st2). unat now + unat d \<le> unat (m_next (heap st2 p))"
proof -
  have "clk_inv B t0 (TimerManager t0 :: 'a timer_manager)"
    using tm_inv_TimerManager by (auto simp: clk_inv_def) (auto simp: TimerManager_def)
  then have clk: "clk_inv B (end_time t0 tr1) st" using tm_run_clk assms(1,2) by blast
  have st1: "m_timers st1 = m_timers st" "heap st1 = heap st" "\<not> m_tickled st1" "m_previouseTime st1 = m_previouseTime st"
    using assms(3) by (auto simp: getNextTimer_def Let_def split: if_splits)
  have clk1: "clk_inv B now st1"
    by (rule clk_invI [OF _ _ clk assms(5)]) (use clk st1 assms(5) in \<open>auto simp: clk_inv_def tm_inv_def\<close>)
  have "unat now + unat d \<le> unat (m_next (heap st1 p))" if p: "p \<in> set (m_timers st1)" for p
  proof -
    have "m_next (heap st (hd (m_timers st))) \<le> m_next (heap st p)"
      using clk p st1 by (intro head_earliest) (auto simp: clk_inv_def tm_inv_def)
    moreover have "unat now + unat d = unat (m_next (heap st (hd (m_timers st))))"
      using assms(3,4) p st1(1) by (auto simp: getNextTimer_def Let_def word_le_nat_alt unat_sub split: if_splits)
    ultimately show ?thesis using st1(2) by (simp add: word_le_nat_alt)
  qed
  then show ?thesis using tm_run_quiet [OF assms(6) clk1 assms(7,8) st1(3)] by blast
qed

theorem no_lost_wakeup_witness:
  fixes st :: "nat timer_manager"
  defines "st \<equiv> snd (addTimer 0 2 7 (Some 20) False (TimerManager 0))"
  shows "\<exists>st1 st2. getNextTimer 3 st = (4, st1) \<and> tm_run st1 [(4, AddTimer 5 30 21 False, False)] st2
    \<and> (\<forall>p \<in> set (m_timers st2). 7 \<le> unat (m_next (heap st2 p)))"
proof -
  have st: "st = \<lparr>heap = (\<lambda>_. Timer_at 0)(2 := Timer 0 7 (Some 20) False), m_timers = [2], m_tickled = True, m_previouseTime = 0\<rparr>"
    by (simp add: st_def addTimer_def addTimer_ptr_def TimerManager_def Let_def)
  have run1: "tm_run (TimerManager 0) [(0, AddTimer 2 7 20 False, True)] st"
    by (rule tm_run_step [OF _ _ tm_run_nil])
      (simp_all add: st TimerManager_def addTimer_def addTimer_ptr_def Let_def)
  define st1 where "st1 = st\<lparr>m_tickled := False\<rparr>"
  have nx: "getNextTimer 3 st = (4, st1)" by (simp add: getNextTimer_def st st1_def Timer_def Let_def)
  define st2 where "st2 = snd (addTimer 4 5 30 (Some 21) False st1)"
  have run2: "tm_run st1 [(4, AddTimer 5 30 21 False, False)] st2"
    by (rule tm_run_step [OF _ _ tm_run_nil])
      (simp_all add: st2_def st1_def st addTimer_def addTimer_ptr_def Let_def timer_less_iff Timer_def)
  show ?thesis using no_lost_wakeup [OF run1 _ nx _ _ run2, of 30] nx run2 by (simp; blast)
qed

end
