(* ===== verification/IOManager.thy ===== *)
theory IOManager
  imports Scheduler Timer
begin

unbundle bit_operations_syntax

text \<open>
  The epoll loop (\<open>src/iomanager.h\<close>, \<open>src/iomanager.cc\<close>): one context per file descriptor with the waiting
  reader and writer, the count of pending events, and the idle fiber that waits for events and timers.
  The kernel is a parameter: \<open>ctl\<close> is epoll_ctl on an abstract kernel state and returns whether it
  failed. An event context names a scheduler by a number; number 0 is this manager's own scheduler,
  and what is handed to another one is recorded in \<open>io_other\<close>.
\<close>

section \<open>State\<close>

type_synonym events = u32

abbreviation NONE :: events where "NONE \<equiv> 0"
abbreviation READ :: events where "READ \<equiv> 1"
abbreviation WRITE :: events where "WRITE \<equiv> 4"
abbreviation EPOLLIN :: events where "EPOLLIN \<equiv> 1"
abbreviation EPOLLOUT :: events where "EPOLLOUT \<equiv> 4"
abbreviation EPOLLERR :: events where "EPOLLERR \<equiv> 8"
abbreviation EPOLLHUP :: events where "EPOLLHUP \<equiv> 0x10"
abbreviation EPOLLET :: events where "EPOLLET \<equiv> 0x80000000"

datatype epoll_op = EPOLL_CTL_ADD | EPOLL_CTL_MOD | EPOLL_CTL_DEL

record 'c event_context =
  ec_scheduler :: "nat option"
  ec_fiber :: "fptr option"
  ec_cb :: "'c job option"

record 'c fd_context =
  fc_read :: "'c event_context"
  fc_write :: "'c event_context"
  fc_fd :: int
  fc_events :: events

record ('c, 'k) io_manager =
  io_sched :: "'c scheduler"
  io_timers :: "'c job timer_manager"
  io_other :: "(nat \<times> 'c task) list"
  m_pendingEventCount :: int
  m_fdContexts :: "'c fd_context list"
  io_kernel :: 'k

datatype io_error = IoAssert string | NullScheduler | BadIndex

type_synonym 'k epoll_ctl = "epoll_op \<Rightarrow> int \<Rightarrow> events \<Rightarrow> 'k \<Rightarrow> bool \<times> 'k"

section \<open>Contexts\<close>

definition getContext :: "events \<Rightarrow> 'c fd_context \<Rightarrow> (io_error, 'c event_context) result" where
  "getContext event ctx =
     (if event = READ then Inr (fc_read ctx)
      else if event = WRITE then Inr (fc_write ctx)
      else Inl (IoAssert ''getContext''))"

definition putContext :: "events \<Rightarrow> 'c event_context \<Rightarrow> 'c fd_context \<Rightarrow> 'c fd_context" where
  "putContext event ec ctx = (if event = READ then ctx\<lparr>fc_read := ec\<rparr> else ctx\<lparr>fc_write := ec\<rparr>)"

definition resetContext :: "'c event_context \<Rightarrow> 'c event_context" where
  "resetContext ec = \<lparr>ec_scheduler = None, ec_fiber = None, ec_cb = None\<rparr>"

definition FdContext :: "int \<Rightarrow> 'c fd_context" where
  "FdContext fd =
     \<lparr>fc_read = \<lparr>ec_scheduler = None, ec_fiber = None, ec_cb = None\<rparr>,
      fc_write = \<lparr>ec_scheduler = None, ec_fiber = None, ec_cb = None\<rparr>, fc_fd = fd, fc_events = NONE\<rparr>"

text \<open>\<open>resize\<close> also drops contexts when the new size is smaller.\<close>

definition contextResize :: "nat \<Rightarrow> ('c, 'k) io_manager \<Rightarrow> ('c, 'k) io_manager" where
  "contextResize sz io =
     io\<lparr>m_fdContexts := take sz (m_fdContexts io) @ map (\<lambda>i. FdContext (int i)) [length (m_fdContexts io)..<sz]\<rparr>"

text \<open>\<open>ctx.scheduler->schedule(task)\<close>.\<close>

definition schedule_on :: "nat option \<Rightarrow> 'c task \<Rightarrow> ('c, 'k) io_manager \<Rightarrow> (io_error, ('c, 'k) io_manager) result" where
  "schedule_on sid task io =
     (case sid of
        None \<Rightarrow> Inl NullScheduler
      | Some i \<Rightarrow> Inr (if i = 0 then io\<lparr>io_sched := schedule task (io_sched io)\<rparr>
                       else io\<lparr>io_other := io_other io @ [(i, task)]\<rparr>))"

definition put_ctx :: "nat \<Rightarrow> 'c fd_context \<Rightarrow> ('c, 'k) io_manager \<Rightarrow> ('c, 'k) io_manager" where
  "put_ctx i ctx io = io\<lparr>m_fdContexts := (m_fdContexts io)[i := ctx]\<rparr>"

definition triggerEvent :: "nat \<Rightarrow> events \<Rightarrow> ('c, 'k) io_manager \<Rightarrow> (io_error, ('c, 'k) io_manager) result" where
  "triggerEvent i event io =
     (let ctx = m_fdContexts io ! i in
      if fc_events ctx AND event = 0 then Inl (IoAssert ''events & event'')
      else rbind (getContext event ctx) (\<lambda>ec.
        let task = (if ec_cb ec \<noteq> None then Task None (ec_cb ec) (- 1) else Task (ec_fiber ec) None (- 1));
            ec' = (if ec_cb ec \<noteq> None then ec\<lparr>ec_cb := None, ec_scheduler := None\<rparr>
                   else ec\<lparr>ec_fiber := None, ec_scheduler := None\<rparr>);
            ctx' = putContext event ec' (ctx\<lparr>fc_events := fc_events ctx AND NOT event\<rparr>)
        in schedule_on (ec_scheduler ec) task (put_ctx i ctx' io)))"

section \<open>Registering and cancelling events\<close>

definition dec_pending :: "('c, 'k) io_manager \<Rightarrow> ('c, 'k) io_manager" where
  "dec_pending io = io\<lparr>m_pendingEventCount := m_pendingEventCount io - 1\<rparr>"

text \<open>
  The part of addEvent after the context has been found. \<open>cur_sched\<close> is Scheduler::GetThis(),
  \<open>cur_fiber\<close> and \<open>cur_state\<close> the current fiber and its state.
\<close>

definition addEvent_at ::
  "'k epoll_ctl \<Rightarrow> nat option \<Rightarrow> fptr \<Rightarrow> State \<Rightarrow> nat \<Rightarrow> events \<Rightarrow> 'c job option \<Rightarrow> ('c, 'k) io_manager
     \<Rightarrow> (io_error, int \<times> ('c, 'k) io_manager) result" where
  "addEvent_at ctl cur_sched cur_fiber cur_state i event cb io =
     (let ctx = m_fdContexts io ! i in
      if fc_events ctx AND event \<noteq> 0 then Inl (IoAssert ''!(fd_ctx->events & event)'')
      else let op = (if fc_events ctx \<noteq> 0 then EPOLL_CTL_MOD else EPOLL_CTL_ADD);
               (failed, k) = ctl op (int i) (EPOLLET OR fc_events ctx OR event) (io_kernel io);
               io1 = io\<lparr>io_kernel := k\<rparr>
           in if failed then Inr (- 1, io1)
              else let io2 = io1\<lparr>m_pendingEventCount := m_pendingEventCount io1 + 1\<rparr>;
                       ctx1 = ctx\<lparr>fc_events := fc_events ctx OR event\<rparr>
                   in rbind (getContext event ctx1) (\<lambda>ec.
                     if ec_scheduler ec \<noteq> None \<or> ec_fiber ec \<noteq> None \<or> ec_cb ec \<noteq> None
                     then Inl (IoAssert ''event_ctx'')
                     else if cb \<noteq> None then
                       Inr (0, put_ctx i (putContext event (ec\<lparr>ec_scheduler := cur_sched, ec_cb := cb\<rparr>) ctx1) io2)
                     else if cur_state \<noteq> EXEC then Inl (IoAssert ''state'')
                     else Inr (0, put_ctx i (putContext event
                                 (ec\<lparr>ec_scheduler := cur_sched, ec_fiber := Some cur_fiber\<rparr>) ctx1) io2)))"

definition addEvent ::
  "'k epoll_ctl \<Rightarrow> nat option \<Rightarrow> fptr \<Rightarrow> State \<Rightarrow> int \<Rightarrow> events \<Rightarrow> 'c job option \<Rightarrow> ('c, 'k) io_manager
     \<Rightarrow> (io_error, int \<times> ('c, 'k) io_manager) result" where
  "addEvent ctl cur_sched cur_fiber cur_state fd event cb io =
     (let io1 = (if int (length (m_fdContexts io)) > fd then io else contextResize (nat (fd * 3 div 2)) io)
      in if fd < 0 \<or> nat fd \<ge> length (m_fdContexts io1) then Inl BadIndex
         else addEvent_at ctl cur_sched cur_fiber cur_state (nat fd) event cb io1)"

text \<open>What delEvent and cancelEvent share: the guards and the call of epoll_ctl.\<close>

definition unregister ::
  "'k epoll_ctl \<Rightarrow> int \<Rightarrow> events \<Rightarrow> ('c, 'k) io_manager
     \<Rightarrow> (nat \<Rightarrow> events \<Rightarrow> ('c, 'k) io_manager \<Rightarrow> (io_error, bool \<times> ('c, 'k) io_manager) result)
     \<Rightarrow> (io_error, bool \<times> ('c, 'k) io_manager) result" where
  "unregister ctl fd event io k =
     (if int (length (m_fdContexts io)) \<le> fd then Inr (False, io)
      else if fd < 0 then Inl BadIndex
      else let ctx = m_fdContexts io ! nat fd in
        if fc_events ctx AND event = 0 then Inr (False, io)
        else let new_events = fc_events ctx AND NOT event;
                 op = (if new_events \<noteq> 0 then EPOLL_CTL_MOD else EPOLL_CTL_DEL);
                 (failed, kn) = ctl op fd (EPOLLET OR new_events) (io_kernel io);
                 io1 = io\<lparr>io_kernel := kn\<rparr>
             in if failed then Inr (False, io1) else k (nat fd) new_events io1)"

definition delEvent :: "'k epoll_ctl \<Rightarrow> int \<Rightarrow> events \<Rightarrow> ('c, 'k) io_manager \<Rightarrow> (io_error, bool \<times> ('c, 'k) io_manager) result" where
  "delEvent ctl fd event io =
     unregister ctl fd event io (\<lambda>i new_events io1.
       let io2 = dec_pending io1;
           ctx = (m_fdContexts io2 ! i)\<lparr>fc_events := new_events\<rparr>
       in rbind (getContext event ctx) (\<lambda>ec. Inr (True, put_ctx i (putContext event (resetContext ec) ctx) io2)))"

definition cancelEvent :: "'k epoll_ctl \<Rightarrow> int \<Rightarrow> events \<Rightarrow> ('c, 'k) io_manager \<Rightarrow> (io_error, bool \<times> ('c, 'k) io_manager) result" where
  "cancelEvent ctl fd event io =
     unregister ctl fd event io (\<lambda>i new_events io1.
       rbind (triggerEvent i event io1) (\<lambda>io2. Inr (True, dec_pending io2)))"

text \<open>Trigger \<open>event\<close> where \<open>evs\<close> has it, and count it down.\<close>

definition trigger_if :: "events \<Rightarrow> nat \<Rightarrow> events \<Rightarrow> ('c, 'k) io_manager \<Rightarrow> (io_error, ('c, 'k) io_manager) result" where
  "trigger_if evs i event io =
     (if evs AND event \<noteq> 0 then rbind (triggerEvent i event io) (\<lambda>io1. Inr (dec_pending io1)) else Inr io)"

definition cancelAll :: "'k epoll_ctl \<Rightarrow> int \<Rightarrow> ('c, 'k) io_manager \<Rightarrow> (io_error, bool \<times> ('c, 'k) io_manager) result" where
  "cancelAll ctl fd io =
     (if int (length (m_fdContexts io)) \<le> fd then Inr (False, io)
      else if fd < 0 then Inl BadIndex
      else let i = nat fd in
        if fc_events (m_fdContexts io ! i) = 0 then Inr (False, io)
        else let (failed, kn) = ctl EPOLL_CTL_DEL fd 0 (io_kernel io);
                 io1 = io\<lparr>io_kernel := kn\<rparr>
             in if failed then Inr (False, io1)
                else rbind (trigger_if (fc_events (m_fdContexts io1 ! i)) i READ io1) (\<lambda>io2.
                     rbind (trigger_if (fc_events (m_fdContexts io2 ! i)) i WRITE io2) (\<lambda>io3.
                       if fc_events (m_fdContexts io3 ! i) \<noteq> 0 then Inl (IoAssert ''fd_ctx->events == 0'')
                       else Inr (True, io3))))"

section \<open>The idle loop\<close>

text \<open>\<open>wrote\<close> is what write on the pipe returned.\<close>

definition io_tickle :: "int \<Rightarrow> ('c, 'k) io_manager \<Rightarrow> (io_error, bool) result" where
  "io_tickle wrote io =
     (if \<not> hasIdleThreads (io_sched io) then Inr False
      else if wrote \<noteq> 1 then Inl (IoAssert ''rt == 1'') else Inr True)"

definition io_stopping :: "u64 \<Rightarrow> ('c, 'k) io_manager \<Rightarrow> bool \<times> u64 \<times> ('c, 'k) io_manager" where
  "io_stopping now io =
     (let (timeout, tm) = getNextTimer now (io_timers io)
      in (timeout = - 1 \<and> m_pendingEventCount io = 0 \<and> stopping (io_sched io), timeout, io\<lparr>io_timers := tm\<rparr>))"

text \<open>The argument of epoll_wait: the casts to int keep the low 32 bits, read as a signed number.\<close>

definition MAX_TIMEOUT :: int where
  "MAX_TIMEOUT = 3000"

definition wait_timeout :: "u64 \<Rightarrow> int" where
  "wait_timeout next_timeout =
     (let t = (if next_timeout \<noteq> - 1
               then (if sint (ucast next_timeout :: i32) > MAX_TIMEOUT then 3000 else next_timeout)
               else 3000)
      in sint (ucast t :: i32))"

text \<open>One entry of the array epoll_wait filled: the body of the for loop for a descriptor other than the pipe.\<close>

definition real_events :: "events \<Rightarrow> events \<Rightarrow> events" where
  "real_events registered reported =
     (let ev = (if reported AND (EPOLLERR OR EPOLLHUP) \<noteq> 0
                then reported OR ((EPOLLIN OR EPOLLOUT) AND registered) else reported)
      in (if ev AND EPOLLIN \<noteq> 0 then READ else NONE) OR (if ev AND EPOLLOUT \<noteq> 0 then WRITE else NONE))"

definition process_event :: "'k epoll_ctl \<Rightarrow> nat \<times> events \<Rightarrow> ('c, 'k) io_manager \<Rightarrow> (io_error, ('c, 'k) io_manager) result" where
  "process_event ctl e io =
     (let (i, reported) = e;
          ctx = m_fdContexts io ! i;
          real = real_events (fc_events ctx) reported
      in if fc_events ctx AND real = NONE then Inr io
         else let left_events = fc_events ctx AND NOT real;
                  op = (if left_events \<noteq> 0 then EPOLL_CTL_MOD else EPOLL_CTL_DEL);
                  (failed, kn) = ctl op (fc_fd ctx) (EPOLLET OR left_events) (io_kernel io);
                  io1 = io\<lparr>io_kernel := kn\<rparr>
              in if failed then Inr io1
                 else rbind (trigger_if real i READ io1) (\<lambda>io2. trigger_if real i WRITE io2))"

fun process_events :: "'k epoll_ctl \<Rightarrow> (nat \<times> events) list \<Rightarrow> ('c, 'k) io_manager \<Rightarrow> (io_error, ('c, 'k) io_manager) result" where
  "process_events ctl [] io = Inr io"
| "process_events ctl (e # es) io = rbind (process_event ctl e io) (process_events ctl es)"

text \<open>
  One round of IOManager::idle: \<open>None\<close> when the loop is left; otherwise the timeout passed to
  epoll_wait and the state when the fiber goes back. \<open>es\<close> are the events epoll_wait reported (none when
  it failed), \<open>now\<close> and \<open>now'\<close> the clock before and after the wait.
\<close>

definition io_idle_round ::
  "'k epoll_ctl \<Rightarrow> u64 \<Rightarrow> u64 \<Rightarrow> ptr \<Rightarrow> (nat \<times> events) list \<Rightarrow> ('c, 'k) io_manager
     \<Rightarrow> (io_error, (int \<times> ('c, 'k) io_manager) option) result" where
  "io_idle_round ctl now now' a es io =
     (let (stop, next_timeout, io1) = io_stopping now io in
      if stop then Inr None
      else let (cbs, tm) = listExpiredCb now' a (io_timers io1);
               io2 = io1\<lparr>io_timers := tm\<rparr>;
               io3 = (if cbs = [] then io2
                      else io2\<lparr>io_sched := schedule_range (map (\<lambda>cb. Task None cb (- 1)) cbs) (io_sched io2)\<rparr>)
           in rbind (process_events ctl es io3) (\<lambda>io4. Inr (Some (wait_timeout next_timeout, io4))))"

text \<open>The constructor, after the pipe has been set up: 32 contexts, no pending event. \<open>s\<close> is the base scheduler.\<close>

definition IOManager :: "'c scheduler \<Rightarrow> u64 \<Rightarrow> 'k \<Rightarrow> ('c, 'k) io_manager" where
  "IOManager s now k =
     contextResize 32 \<lparr>io_sched = s, io_timers = TimerManager now, io_other = [], m_pendingEventCount = 0,
                       m_fdContexts = [], io_kernel = k\<rparr>"

section \<open>Invariant\<close>

definition no_waiter :: "'c event_context" where
  "no_waiter = \<lparr>ec_scheduler = None, ec_fiber = None, ec_cb = None\<rparr>"

text \<open>A registered event has a scheduler and exactly one of a fiber and a callback, the others nothing.\<close>

definition waiter_ok :: "bool \<Rightarrow> 'c event_context \<Rightarrow> bool" where
  "waiter_ok registered ec \<longleftrightarrow>
     (if registered then ec_scheduler ec \<noteq> None \<and> (ec_fiber ec = None) \<noteq> (ec_cb ec = None) else ec = no_waiter)"

definition ctx_ok :: "'c fd_context \<Rightarrow> bool" where
  "ctx_ok ctx \<longleftrightarrow> fc_events ctx \<in> {0, 1, 4, 5} \<and> waiter_ok (fc_events ctx AND READ \<noteq> 0) (fc_read ctx)
     \<and> waiter_ok (fc_events ctx AND WRITE \<noteq> 0) (fc_write ctx)"

definition pending :: "'c fd_context \<Rightarrow> int" where
  "pending ctx = of_bool (fc_events ctx AND READ \<noteq> 0) + of_bool (fc_events ctx AND WRITE \<noteq> 0)"

definition ctxs_ok :: "'c fd_context list \<Rightarrow> bool" where
  "ctxs_ok cs \<longleftrightarrow> (\<forall>i < length cs. ctx_ok (cs ! i) \<and> fc_fd (cs ! i) = int i)"

definition io_inv :: "('c, 'k) io_manager \<Rightarrow> bool" where
  "io_inv io \<longleftrightarrow> ctxs_ok (m_fdContexts io) \<and> m_pendingEventCount io = sum_list (map pending (m_fdContexts io))"

text \<open>What triggering hands to the scheduler, and the context afterwards.\<close>

definition waiter :: "'c event_context \<Rightarrow> 'c task" where
  "waiter ec = (if ec_cb ec \<noteq> None then Task None (ec_cb ec) (- 1) else Task (ec_fiber ec) None (- 1))"

definition cleared :: "events \<Rightarrow> 'c fd_context \<Rightarrow> 'c fd_context" where
  "cleared event ctx = putContext event no_waiter (ctx\<lparr>fc_events := fc_events ctx AND NOT event\<rparr>)"

definition ctx_of :: "events \<Rightarrow> 'c fd_context \<Rightarrow> 'c event_context" where
  "ctx_of event ctx = (if event = READ then fc_read ctx else fc_write ctx)"

definition is_event :: "events \<Rightarrow> bool" where
  "is_event e \<longleftrightarrow> e = READ \<or> e = WRITE"

lemma sum_list_set:
  "i < length xs \<Longrightarrow> sum_list (map f (xs[i := x])) = sum_list (map f xs) + f x - (f (xs ! i) :: int)"
  by (induction xs arbitrary: i) (auto split: nat.splits)

lemma pending_nonneg: "0 \<le> pending ctx"
  by (simp add: pending_def)

lemma getContext_event: "is_event e \<Longrightarrow> getContext e ctx = Inr (ctx_of e ctx)"
  by (auto simp: is_event_def getContext_def ctx_of_def)

lemma events_bits:
  assumes "ev \<in> {0, 1, 4, 5 :: events}" "is_event e"
  shows "ev AND NOT e \<in> {0, 1, 4, 5}" "(ev AND NOT e) AND e = 0" "ev OR e \<in> {0, 1, 4, 5}" "(ev OR e) AND e \<noteq> 0"
    "is_event d \<Longrightarrow> d \<noteq> e \<Longrightarrow> (ev AND NOT e) AND d = ev AND d" "is_event d \<Longrightarrow> d \<noteq> e \<Longrightarrow> (ev OR e) AND d = ev AND d"
  using assms by (auto simp: is_event_def)

lemma cleared_ok:
  assumes "ctx_ok ctx" "is_event e" "fc_events ctx AND e \<noteq> 0"
  shows "ctx_ok (cleared e ctx)" "pending (cleared e ctx) = pending ctx - 1" "fc_fd (cleared e ctx) = fc_fd ctx"
    "fc_events (cleared e ctx) = fc_events ctx AND NOT e" "is_event d \<Longrightarrow> d \<noteq> e \<Longrightarrow> ctx_of d (cleared e ctx) = ctx_of d ctx"
proof -
  have ev: "fc_events ctx \<in> {0, 1, 4, 5}" using assms(1) by (simp add: ctx_ok_def)
  note bits = events_bits [OF ev assms(2)]
  have e: "e = READ \<or> e = WRITE" using assms(2) by (simp add: is_event_def)
  show "fc_fd (cleared e ctx) = fc_fd ctx" "fc_events (cleared e ctx) = fc_events ctx AND NOT e"
    by (simp_all add: cleared_def putContext_def)
  show "ctx_of d (cleared e ctx) = ctx_of d ctx" if "is_event d" "d \<noteq> e"
    using that e by (auto simp: cleared_def putContext_def ctx_of_def is_event_def)
  have rw: "is_event READ" "is_event WRITE" "(READ :: events) \<noteq> WRITE" by (simp_all add: is_event_def)
  show "ctx_ok (cleared e ctx)"
    using e assms(1) bits(1,2) bits(5) [OF rw(1)] bits(5) [OF rw(2)]
    by (elim disjE) (simp_all add: ctx_ok_def cleared_def putContext_def waiter_ok_def)
  show "pending (cleared e ctx) = pending ctx - 1"
    using e assms(3) bits(2) bits(5) [OF rw(1)] bits(5) [OF rw(2)]
    by (elim disjE) (simp_all add: pending_def cleared_def putContext_def)
qed

lemma triggerEvent_ok:
  assumes "ctx_ok (m_fdContexts io ! i)" "is_event e" "fc_events (m_fdContexts io ! i) AND e \<noteq> 0"
  shows "\<exists>sid. ec_scheduler (ctx_of e (m_fdContexts io ! i)) = Some sid \<and>
    triggerEvent i e io = Inr (let io1 = put_ctx i (cleared e (m_fdContexts io ! i)) io; k = waiter (ctx_of e (m_fdContexts io ! i))
      in if sid = 0 then io1\<lparr>io_sched := schedule k (io_sched io1)\<rparr> else io1\<lparr>io_other := io_other io1 @ [(sid, k)]\<rparr>)"
proof -
  let ?ctx = "m_fdContexts io ! i"
  have w: "waiter_ok True (ctx_of e ?ctx)" using assms by (auto simp: ctx_ok_def is_event_def ctx_of_def)
  then obtain sid where sid: "ec_scheduler (ctx_of e ?ctx) = Some sid" by (auto simp: waiter_ok_def)
  have "(if ec_cb (ctx_of e ?ctx) \<noteq> None then (ctx_of e ?ctx)\<lparr>ec_cb := None, ec_scheduler := None\<rparr>
      else (ctx_of e ?ctx)\<lparr>ec_fiber := None, ec_scheduler := None\<rparr>) = no_waiter"
    using w by (auto simp: waiter_ok_def no_waiter_def)
  then show ?thesis using assms(2,3) sid
    by (simp add: triggerEvent_def getContext_event schedule_on_def cleared_def waiter_def Let_def)
qed

text \<open>The effect of a trigger on everything but the queues it appends to.\<close>

lemma triggerEvent_frame:
  assumes "ctx_ok (m_fdContexts io ! i)" "is_event e" "fc_events (m_fdContexts io ! i) AND e \<noteq> 0"
  shows "\<exists>io'. triggerEvent i e io = Inr io' \<and> m_fdContexts io' = (m_fdContexts io)[i := cleared e (m_fdContexts io ! i)]
    \<and> m_pendingEventCount io' = m_pendingEventCount io \<and> io_kernel io' = io_kernel io \<and> io_timers io' = io_timers io"
  using triggerEvent_ok [OF assms] by (auto simp: Let_def put_ctx_def)

lemma ctxs_ok_set: "ctxs_ok cs \<Longrightarrow> ctx_ok c \<Longrightarrow> fc_fd c = int i \<Longrightarrow> ctxs_ok (cs[i := c])"
  unfolding ctxs_ok_def by (metis length_list_update nth_list_update_eq nth_list_update_neq)

lemma trigger_dec_inv:
  assumes "io_inv io" "i < length (m_fdContexts io)" "is_event e" "fc_events (m_fdContexts io ! i) AND e \<noteq> 0"
  shows "\<exists>io'. triggerEvent i e io = Inr io' \<and> io_inv (dec_pending io')
    \<and> m_fdContexts io' = (m_fdContexts io)[i := cleared e (m_fdContexts io ! i)] \<and> io_kernel io' = io_kernel io"
proof -
  have ok: "ctx_ok (m_fdContexts io ! i)" "fc_fd (m_fdContexts io ! i) = int i"
    using assms(1,2) by (simp_all add: io_inv_def ctxs_ok_def)
  obtain io' where io': "triggerEvent i e io = Inr io'" "m_fdContexts io' = (m_fdContexts io)[i := cleared e (m_fdContexts io ! i)]"
    "m_pendingEventCount io' = m_pendingEventCount io" "io_kernel io' = io_kernel io"
    using triggerEvent_frame [OF ok(1) assms(3,4)] by blast
  have "ctxs_ok (m_fdContexts io')" using io'(2) assms(1) cleared_ok [OF ok(1) assms(3,4)] ok(2)
    by (simp add: io_inv_def ctxs_ok_set)
  moreover have "m_pendingEventCount io' - 1 = sum_list (map pending (m_fdContexts io'))"
    using io'(2,3) assms(1,2) cleared_ok(2) [OF ok(1) assms(3,4)] by (simp add: io_inv_def sum_list_set)
  ultimately show ?thesis using io' by (auto simp: io_inv_def dec_pending_def)
qed

section \<open>Agreement with the kernel\<close>

text \<open>
  What the manual page of epoll_ctl promises: a call that fails changes nothing, a call that succeeds
  sets or removes the entry of the descriptor. \<open>interest\<close> reads the interest list off the kernel state.
\<close>

definition epoll_law :: "'k epoll_ctl \<Rightarrow> ('k \<Rightarrow> int \<Rightarrow> events option) \<Rightarrow> bool" where
  "epoll_law ctl interest \<longleftrightarrow> (\<forall>op fd ev k. interest (snd (ctl op fd ev k)) =
     (if fst (ctl op fd ev k) then interest k
      else (interest k)(fd := (if op = EPOLL_CTL_DEL then None else Some ev))))"

definition interest_of :: "'c fd_context list \<Rightarrow> int \<Rightarrow> events option" where
  "interest_of cs fd =
     (if 0 \<le> fd \<and> nat fd < length cs \<and> fc_events (cs ! nat fd) \<noteq> 0 then Some (EPOLLET OR fc_events (cs ! nat fd)) else None)"

definition io_ok :: "('k \<Rightarrow> int \<Rightarrow> events option) \<Rightarrow> ('c, 'k) io_manager \<Rightarrow> bool" where
  "io_ok interest io \<longleftrightarrow> io_inv io \<and> interest (io_kernel io) = interest_of (m_fdContexts io)"

lemma interest_of_set:
  assumes "i < length cs"
  shows "interest_of (cs[i := c]) = (interest_of cs)(int i := (if fc_events c \<noteq> 0 then Some (EPOLLET OR fc_events c) else None))"
proof
  fix fd
  show "interest_of (cs[i := c]) fd = ((interest_of cs)(int i := (if fc_events c \<noteq> 0 then Some (EPOLLET OR fc_events c) else None))) fd"
    using assms by (cases "fd = int i") (auto simp: interest_of_def nth_list_update)
qed

lemma epoll_lawD:
  assumes "epoll_law ctl interest" "ctl op fd ev k = (failed, k')"
  shows "interest k' = (if failed then interest k else (interest k)(fd := (if op = EPOLL_CTL_DEL then None else Some ev)))"
  using assms unfolding epoll_law_def by (metis fst_conv snd_conv)

lemma io_inv_ctx: "io_inv io \<Longrightarrow> i < length (m_fdContexts io) \<Longrightarrow> ctx_ok (m_fdContexts io ! i) \<and> fc_fd (m_fdContexts io ! i) = int i"
  by (simp add: io_inv_def ctxs_ok_def)

lemma io_inv_kernel [simp]: "io_inv (io\<lparr>io_kernel := k\<rparr>) = io_inv io"
  by (simp add: io_inv_def)

lemma dec_pending_simps [simp]: "m_fdContexts (dec_pending io) = m_fdContexts io" "io_kernel (dec_pending io) = io_kernel io"
  by (simp_all add: dec_pending_def)

lemma trigger_if_inv:
  assumes "io_inv io" "i < length (m_fdContexts io)" "is_event e" "evs AND e \<noteq> 0 \<Longrightarrow> fc_events (m_fdContexts io ! i) AND e \<noteq> 0"
  shows "\<exists>io'. trigger_if evs i e io = Inr io' \<and> io_inv io' \<and> io_kernel io' = io_kernel io
    \<and> m_fdContexts io' = (if evs AND e \<noteq> 0 then (m_fdContexts io)[i := cleared e (m_fdContexts io ! i)] else m_fdContexts io)"
  using trigger_dec_inv [OF assms(1-3)] assms(1,4) by (auto simp: trigger_if_def)

text \<open>Unregistering one event: both callers leave the context cleared.\<close>

lemma unregister_ok:
  assumes ok: "io_ok interest io" and law: "epoll_law ctl interest" and fd: "0 \<le> fd" and e: "is_event e"
    and k: "\<And>io1. io_inv io1 \<Longrightarrow> nat fd < length (m_fdContexts io1) \<Longrightarrow> fc_events (m_fdContexts io1 ! nat fd) AND e \<noteq> 0 \<Longrightarrow>
      \<exists>io'. k (nat fd) (fc_events (m_fdContexts io1 ! nat fd) AND NOT e) io1 = Inr (True, io') \<and> io_inv io'
        \<and> m_fdContexts io' = (m_fdContexts io1)[nat fd := cleared e (m_fdContexts io1 ! nat fd)] \<and> io_kernel io' = io_kernel io1"
  shows "\<exists>r io'. unregister ctl fd e io k = Inr (r, io') \<and> io_ok interest io'
    \<and> (r \<longrightarrow> nat fd < length (m_fdContexts io) \<and> fc_events (m_fdContexts io ! nat fd) AND e \<noteq> 0
         \<and> m_fdContexts io' = (m_fdContexts io)[nat fd := cleared e (m_fdContexts io ! nat fd)])
    \<and> (\<not> r \<longrightarrow> m_fdContexts io' = m_fdContexts io)"
proof -
  let ?ctx = "m_fdContexts io ! nat fd" and ?new = "fc_events (m_fdContexts io ! nat fd) AND NOT e"
  let ?op = "if ?new \<noteq> 0 then EPOLL_CTL_MOD else EPOLL_CTL_DEL"
  obtain failed kn where ctl: "ctl ?op fd (EPOLLET OR ?new) (io_kernel io) = (failed, kn)" by fastforce
  have inv: "io_inv io" using ok by (simp add: io_ok_def)
  note kn = epoll_lawD [OF law ctl]
  show ?thesis
  proof (cases "int (length (m_fdContexts io)) \<le> fd \<or> fc_events ?ctx AND e = 0")
    case True
    then have "unregister ctl fd e io k = Inr (False, io)" using fd by (auto simp: unregister_def Let_def)
    then show ?thesis using ok by auto
  next
    case False
    then have i: "nat fd < length (m_fdContexts io)" "fc_events ?ctx AND e \<noteq> 0" using fd by auto
    have u: "unregister ctl fd e io k = (if failed then Inr (False, io\<lparr>io_kernel := kn\<rparr>) else k (nat fd) ?new (io\<lparr>io_kernel := kn\<rparr>))"
      using False fd ctl by (simp add: unregister_def Let_def)
    show ?thesis
    proof (cases failed)
      case True
      then show ?thesis using u ok kn by (auto simp: io_ok_def)
    next
      case False
      obtain io' where io': "k (nat fd) ?new (io\<lparr>io_kernel := kn\<rparr>) = Inr (True, io')" "io_inv io'"
        "m_fdContexts io' = (m_fdContexts io)[nat fd := cleared e ?ctx]" "io_kernel io' = kn"
        using k [of "io\<lparr>io_kernel := kn\<rparr>"] i inv by auto
      have "fc_events (cleared e ?ctx) = ?new" using cleared_ok(4) io_inv_ctx [OF inv i(1)] e i(2) by blast
      then have "interest (io_kernel io') = interest_of (m_fdContexts io')"
        using kn False io'(3,4) i(1) fd ok interest_of_set [OF i(1), of "cleared e ?ctx"] by (simp add: io_ok_def)
      then show ?thesis using u False io' i by (auto simp: io_ok_def)
    qed
  qed
qed

lemma delEvent_ok:
  assumes "io_ok interest io" "epoll_law ctl interest" "0 \<le> fd" "is_event e"
  shows "\<exists>r io'. delEvent ctl fd e io = Inr (r, io') \<and> io_ok interest io'
    \<and> (r \<longrightarrow> nat fd < length (m_fdContexts io) \<and> fc_events (m_fdContexts io ! nat fd) AND e \<noteq> 0
         \<and> m_fdContexts io' = (m_fdContexts io)[nat fd := cleared e (m_fdContexts io ! nat fd)])
    \<and> (\<not> r \<longrightarrow> m_fdContexts io' = m_fdContexts io)"
  unfolding delEvent_def
proof (rule unregister_ok [OF assms])
  fix io1 :: "('b, 'a) io_manager"
  assume inv: "io_inv io1" and i: "nat fd < length (m_fdContexts io1)" "fc_events (m_fdContexts io1 ! nat fd) AND e \<noteq> 0"
  let ?ctx = "m_fdContexts io1 ! nat fd"
  let ?io' = "put_ctx (nat fd) (cleared e ?ctx) (dec_pending io1)"
  have c: "ctx_ok ?ctx" "fc_fd ?ctx = int (nat fd)" using io_inv_ctx [OF inv i(1)] by simp_all
  have "io_inv ?io'"
    using inv i(1) cleared_ok(1-3) [OF c(1) assms(4) i(2)] c(2)
    by (simp add: io_inv_def put_ctx_def dec_pending_def sum_list_set ctxs_ok_set)
  moreover have "putContext e (resetContext (ctx_of e (?ctx\<lparr>fc_events := fc_events ?ctx AND NOT e\<rparr>))) (?ctx\<lparr>fc_events := fc_events ?ctx AND NOT e\<rparr>) = cleared e ?ctx"
    by (simp add: cleared_def resetContext_def no_waiter_def)
  ultimately show "\<exists>io'. (let io2 = dec_pending io1; ctx = (m_fdContexts io2 ! nat fd)\<lparr>fc_events := fc_events ?ctx AND NOT e\<rparr>
      in rbind (getContext e ctx) (\<lambda>ec. Inr (True, put_ctx (nat fd) (putContext e (resetContext ec) ctx) io2))) = Inr (True, io')
    \<and> io_inv io' \<and> m_fdContexts io' = (m_fdContexts io1)[nat fd := cleared e ?ctx] \<and> io_kernel io' = io_kernel io1"
    by (simp add: Let_def getContext_event [OF assms(4)]) (simp add: put_ctx_def)
qed

lemma cancelEvent_ok:
  assumes "io_ok interest io" "epoll_law ctl interest" "0 \<le> fd" "is_event e"
  shows "\<exists>r io'. cancelEvent ctl fd e io = Inr (r, io') \<and> io_ok interest io'
    \<and> (r \<longrightarrow> nat fd < length (m_fdContexts io) \<and> fc_events (m_fdContexts io ! nat fd) AND e \<noteq> 0
         \<and> m_fdContexts io' = (m_fdContexts io)[nat fd := cleared e (m_fdContexts io ! nat fd)])
    \<and> (\<not> r \<longrightarrow> m_fdContexts io' = m_fdContexts io)"
  unfolding cancelEvent_def
proof (rule unregister_ok [OF assms])
  fix io1 :: "('b, 'a) io_manager"
  assume "io_inv io1" and "nat fd < length (m_fdContexts io1)" "fc_events (m_fdContexts io1 ! nat fd) AND e \<noteq> 0"
  then show "\<exists>io'. rbind (triggerEvent (nat fd) e io1) (\<lambda>io2. Inr (True, dec_pending io2)) = Inr (True, io')
    \<and> io_inv io' \<and> m_fdContexts io' = (m_fdContexts io1)[nat fd := cleared e (m_fdContexts io1 ! nat fd)] \<and> io_kernel io' = io_kernel io1"
    using trigger_dec_inv [of io1 "nat fd" e] assms(4) by auto
qed

lemma is_event_rw [simp]: "is_event READ" "is_event WRITE"
  by (simp_all add: is_event_def)

lemma not_both:
  assumes "real \<in> {0, 1, 4, 5 :: events}" "ev \<in> {0, 1, 4, 5}"
  shows "(let ev1 = (if real AND READ \<noteq> 0 then ev AND NOT READ else ev)
          in if real AND WRITE \<noteq> 0 then ev1 AND NOT WRITE else ev1) = ev AND NOT real"
  using assms by (auto simp: Let_def)

lemma trigger_both:
  assumes inv: "io_inv io" and i: "i < length (m_fdContexts io)" and real: "real \<in> {0, 1, 4, 5}"
    and sub: "\<And>e. is_event e \<Longrightarrow> real AND e \<noteq> 0 \<Longrightarrow> fc_events (m_fdContexts io ! i) AND e \<noteq> 0"
  shows "\<exists>io' c. rbind (trigger_if real i READ io) (\<lambda>io2. trigger_if real i WRITE io2) = Inr io' \<and> io_inv io'
    \<and> io_kernel io' = io_kernel io \<and> m_fdContexts io' = (m_fdContexts io)[i := c]
    \<and> fc_events c = fc_events (m_fdContexts io ! i) AND NOT real"
proof -
  let ?ctx = "m_fdContexts io ! i"
  have ok: "ctx_ok ?ctx" "fc_events ?ctx \<in> {0, 1, 4, 5}" using io_inv_ctx [OF inv i] by (simp_all add: ctx_ok_def)
  define c1 where "c1 = (if real AND READ \<noteq> 0 then cleared READ ?ctx else ?ctx)"
  obtain io1 where io1: "trigger_if real i READ io = Inr io1" "io_inv io1" "io_kernel io1 = io_kernel io"
    "m_fdContexts io1 = (m_fdContexts io)[i := c1]"
    using trigger_if_inv [OF inv i, of READ real] sub [of READ] i by (auto simp: c1_def split: if_splits)
  have at: "m_fdContexts io1 ! i = c1" "i < length (m_fdContexts io1)" using io1(4) i by simp_all
  have ev1: "fc_events c1 = (if real AND READ \<noteq> 0 then fc_events ?ctx AND NOT READ else fc_events ?ctx)"
    using cleared_ok(4) [OF ok(1), of READ] sub [of READ] by (simp add: c1_def)
  have w: "fc_events c1 AND WRITE = fc_events ?ctx AND WRITE"
    using events_bits(5) [OF ok(2), of READ WRITE] by (simp add: ev1)
  define c2 where "c2 = (if real AND WRITE \<noteq> 0 then cleared WRITE c1 else c1)"
  obtain io2 where io2: "trigger_if real i WRITE io1 = Inr io2" "io_inv io2" "io_kernel io2 = io_kernel io1"
    "m_fdContexts io2 = (m_fdContexts io1)[i := c2]"
    using trigger_if_inv [OF io1(2) at(2), of WRITE real] sub [of WRITE] w at by (auto simp: c2_def split: if_splits)
  have "ctx_ok c1" using io_inv_ctx [OF io1(2) at(2)] at(1) by simp
  then have "fc_events c2 = (if real AND WRITE \<noteq> 0 then fc_events c1 AND NOT WRITE else fc_events c1)"
    using cleared_ok(4) [of c1 WRITE] sub [of WRITE] w by (simp add: c2_def)
  also have "\<dots> = fc_events ?ctx AND NOT real" using not_both [OF real ok(2)] unfolding Let_def ev1 .
  finally have "fc_events c2 = fc_events ?ctx AND NOT real" .
  then show ?thesis using io1 io2 by auto
qed

lemma bit_READ: "(x AND READ = 0) = (\<not> bit x 0)" and bit_WRITE: "(x AND WRITE = 0) = (\<not> bit x 2)" for x :: events
  using and_exp_eq_0_iff_not_bit [of x 0] and_exp_eq_0_iff_not_bit [of x 2] by simp_all

lemma real_events_sub:
  assumes "\<And>e. is_event e \<Longrightarrow> reported AND e \<noteq> 0 \<Longrightarrow> registered AND e \<noteq> 0"
  shows "real_events registered reported \<in> {0, 1, 4, 5}"
    "is_event e \<Longrightarrow> real_events registered reported AND e \<noteq> 0 \<Longrightarrow> registered AND e \<noteq> 0"
proof -
  define ev where "ev = (if reported AND (EPOLLERR OR EPOLLHUP) \<noteq> 0 then reported OR ((EPOLLIN OR EPOLLOUT) AND registered) else reported)"
  have r: "real_events registered reported = (if ev AND READ \<noteq> 0 then READ else NONE) OR (if ev AND WRITE \<noteq> 0 then WRITE else NONE)"
    by (simp add: real_events_def ev_def Let_def)
  show "real_events registered reported \<in> {0, 1, 4, 5}" by (simp add: r)
  have "bit ev 0 \<Longrightarrow> bit registered 0" "bit ev 2 \<Longrightarrow> bit registered 2"
    using assms [of READ] assms [of WRITE]
    by (auto simp: bit_READ bit_WRITE ev_def bit_or_iff bit_and_iff split: if_splits)
  then show "registered AND e \<noteq> 0" if "is_event e" "real_events registered reported AND e \<noteq> 0"
    using that unfolding r is_event_def by (auto simp: bit_READ bit_WRITE split: if_splits)
qed

lemma process_event_ok:
  assumes ok: "io_ok interest io" and law: "epoll_law ctl interest" and i: "i < length (m_fdContexts io)"
    and rep: "\<And>e. is_event e \<Longrightarrow> reported AND e \<noteq> 0 \<Longrightarrow> fc_events (m_fdContexts io ! i) AND e \<noteq> 0"
  shows "\<exists>io'. process_event ctl (i, reported) io = Inr io' \<and> io_ok interest io' \<and> length (m_fdContexts io') = length (m_fdContexts io)
    \<and> (\<forall>j. j \<noteq> i \<longrightarrow> m_fdContexts io' ! j = m_fdContexts io ! j)"
proof -
  let ?ctx = "m_fdContexts io ! i"
  have inv: "io_inv io" using ok by (simp add: io_ok_def)
  have c: "ctx_ok ?ctx" "fc_fd ?ctx = int i" using io_inv_ctx [OF inv i] by simp_all
  define real where "real = real_events (fc_events ?ctx) reported"
  have rs: "real \<in> {0, 1, 4, 5}" "\<And>e. is_event e \<Longrightarrow> real AND e \<noteq> 0 \<Longrightarrow> fc_events ?ctx AND e \<noteq> 0"
    using real_events_sub(1) [of reported "fc_events ?ctx"] real_events_sub(2) [of reported "fc_events ?ctx"] rep
    unfolding real_def by blast+
  define left where "left = fc_events ?ctx AND NOT real"
  obtain failed kn where ctl: "ctl (if left \<noteq> 0 then EPOLL_CTL_MOD else EPOLL_CTL_DEL) (int i) (EPOLLET OR left) (io_kernel io) = (failed, kn)"
    by fastforce
  note kn = epoll_lawD [OF law ctl]
  have p: "process_event ctl (i, reported) io = (if fc_events ?ctx AND real = NONE then Inr io
      else if failed then Inr (io\<lparr>io_kernel := kn\<rparr>)
      else rbind (trigger_if real i READ (io\<lparr>io_kernel := kn\<rparr>)) (\<lambda>io2. trigger_if real i WRITE io2))"
    using ctl c(2) by (simp add: process_event_def Let_def real_def left_def)
  show ?thesis
  proof (cases "fc_events ?ctx AND real = NONE \<or> failed")
    case True
    then show ?thesis using p ok kn by (auto simp: io_ok_def)
  next
    case False
    obtain io' c where io': "rbind (trigger_if real i READ (io\<lparr>io_kernel := kn\<rparr>)) (\<lambda>io2. trigger_if real i WRITE io2) = Inr io'"
      "io_inv io'" "io_kernel io' = kn" "m_fdContexts io' = (m_fdContexts io)[i := c]" "fc_events c = left"
      using trigger_both [of "io\<lparr>io_kernel := kn\<rparr>" i real] inv i rs by (auto simp: left_def)
    have "interest kn = interest_of (m_fdContexts io')"
      using kn False io'(4,5) interest_of_set [OF i, of c] ok by (simp add: io_ok_def)
    then show ?thesis using p False io' by (auto simp: io_ok_def)
  qed
qed

lemma FdContext_ok: "ctx_ok (FdContext fd)" "fc_events (FdContext fd) = 0" "fc_fd (FdContext fd) = fd"
  by (simp_all add: FdContext_def ctx_ok_def waiter_ok_def no_waiter_def)

lemma contextResize_ok:
  assumes "io_ok interest io" "length (m_fdContexts io) \<le> sz"
  shows "io_ok interest (contextResize sz io)" "length (m_fdContexts (contextResize sz io)) = sz"
    "\<And>j. j < length (m_fdContexts io) \<Longrightarrow> m_fdContexts (contextResize sz io) ! j = m_fdContexts io ! j"
    "\<And>j. length (m_fdContexts io) \<le> j \<Longrightarrow> j < sz \<Longrightarrow> m_fdContexts (contextResize sz io) ! j = FdContext (int j)"
proof -
  let ?cs = "m_fdContexts io"
  have cs: "m_fdContexts (contextResize sz io) = ?cs @ map (\<lambda>i. FdContext (int i)) [length ?cs..<sz]"
    using assms(2) by (simp add: contextResize_def)
  show len: "length (m_fdContexts (contextResize sz io)) = sz" using cs assms(2) by simp
  show a: "\<And>j. j < length ?cs \<Longrightarrow> m_fdContexts (contextResize sz io) ! j = ?cs ! j" using cs by (simp add: nth_append)
  show b: "\<And>j. length ?cs \<le> j \<Longrightarrow> j < sz \<Longrightarrow> m_fdContexts (contextResize sz io) ! j = FdContext (int j)"
    using cs assms(2) by (simp add: nth_append)
  have "ctxs_ok (m_fdContexts (contextResize sz io))"
    unfolding ctxs_ok_def len
  proof (intro allI impI)
    fix j assume j: "j < sz"
    show "ctx_ok (m_fdContexts (contextResize sz io) ! j) \<and> fc_fd (m_fdContexts (contextResize sz io) ! j) = int j"
      using a [of j] b [of j] j assms(1) by (cases "j < length ?cs") (auto simp: io_ok_def io_inv_def ctxs_ok_def FdContext_ok)
  qed
  moreover have "sum_list (map pending (map (\<lambda>i. FdContext (int i)) [length ?cs..<sz])) = 0"
    by (simp add: pending_def o_def FdContext_ok)
  moreover have "interest_of (m_fdContexts (contextResize sz io)) fd = interest_of ?cs fd" for fd
  proof (cases "nat fd < length ?cs")
    case True
    then show ?thesis using a [OF True] len assms(2) by (simp add: interest_of_def)
  next
    case False
    then show ?thesis using b [of "nat fd"] len by (auto simp: interest_of_def FdContext_ok)
  qed
  ultimately show "io_ok interest (contextResize sz io)"
    using assms(1) cs by (simp add: io_ok_def io_inv_def contextResize_def fun_eq_iff)
qed

lemma armed_ok:
  assumes "ctx_ok ctx" "is_event e" "fc_events ctx AND e = 0" "waiter_ok True ec"
  defines "ctx' \<equiv> putContext e ec (ctx\<lparr>fc_events := fc_events ctx OR e\<rparr>)"
  shows "ctx_ok ctx'" "pending ctx' = pending ctx + 1" "fc_fd ctx' = fc_fd ctx" "fc_events ctx' = fc_events ctx OR e"
    "ctx_of e ctx' = ec"
proof -
  have ev: "fc_events ctx \<in> {0, 1, 4, 5}" using assms(1) by (simp add: ctx_ok_def)
  have e: "e = READ \<or> e = WRITE" using assms(2) by (simp add: is_event_def)
  show "fc_fd ctx' = fc_fd ctx" "fc_events ctx' = fc_events ctx OR e" "ctx_of e ctx' = ec"
    using e by (auto simp: ctx'_def putContext_def ctx_of_def)
  note bits = events_bits(3,4) [OF ev assms(2)] events_bits(6) [OF ev assms(2), of READ] events_bits(6) [OF ev assms(2), of WRITE]
  show "ctx_ok ctx'" using e assms(1,4) bits
    by (elim disjE) (simp_all add: ctx'_def ctx_ok_def putContext_def waiter_ok_def)
  show "pending ctx' = pending ctx + 1" using e assms(3) bits
    by (elim disjE) (simp_all add: ctx'_def pending_def putContext_def)
qed

lemma addEvent_at_ok:
  assumes ok: "io_ok interest io" and law: "epoll_law ctl interest" and i: "i < length (m_fdContexts io)" and e: "is_event e"
    and free: "fc_events (m_fdContexts io ! i) AND e = 0" and cur: "cur_sched \<noteq> None" "cb \<noteq> None \<or> cur_state = EXEC"
  shows "\<exists>r io'. addEvent_at ctl cur_sched f cur_state i e cb io = Inr (r, io') \<and> io_ok interest io'
    \<and> length (m_fdContexts io') = length (m_fdContexts io)
    \<and> (r = 0 \<and> fc_events (m_fdContexts io' ! i) AND e \<noteq> 0
         \<and> waiter (ctx_of e (m_fdContexts io' ! i)) = (if cb \<noteq> None then Task None cb (- 1) else Task (Some f) None (- 1))
       \<or> r = - 1 \<and> m_fdContexts io' = m_fdContexts io)"
proof -
  let ?ctx = "m_fdContexts io ! i"
  have inv: "io_inv io" using ok by (simp add: io_ok_def)
  have c: "ctx_ok ?ctx" "fc_fd ?ctx = int i" using io_inv_ctx [OF inv i] by simp_all
  let ?op = "if fc_events ?ctx \<noteq> 0 then EPOLL_CTL_MOD else EPOLL_CTL_ADD"
  obtain failed kn where ctl: "ctl ?op (int i) (EPOLLET OR fc_events ?ctx OR e) (io_kernel io) = (failed, kn)" by fastforce
  note kn = epoll_lawD [OF law ctl]
  have old: "ctx_of e ?ctx = no_waiter" using c(1) e free by (auto simp: ctx_ok_def is_event_def ctx_of_def waiter_ok_def)
  define ec where "ec = \<lparr>ec_scheduler = cur_sched, ec_fiber = (if cb \<noteq> None then None else Some f), ec_cb = cb\<rparr>"
  define c' where "c' = putContext e ec (?ctx\<lparr>fc_events := fc_events ?ctx OR e\<rparr>)"
  have w: "waiter_ok True ec" using cur(1) by (auto simp: ec_def waiter_ok_def)
  note a = armed_ok [OF c(1) e free w, folded c'_def]
  have g: "getContext e (?ctx\<lparr>fc_events := fc_events ?ctx OR e\<rparr>) = Inr no_waiter"
    using old by (simp add: getContext_event [OF e] ctx_of_def split: if_splits)
  let ?io' = "put_ctx i c' (io\<lparr>io_kernel := kn, m_pendingEventCount := m_pendingEventCount io + 1\<rparr>)"
  have run: "addEvent_at ctl cur_sched f cur_state i e cb io = (if failed then Inr (- 1, io\<lparr>io_kernel := kn\<rparr>) else Inr (0, ?io'))"
    using free ctl g cur(2) by (auto simp: addEvent_at_def Let_def no_waiter_def ec_def c'_def)
  show ?thesis
  proof (cases failed)
    case True
    then show ?thesis using run kn ok by (auto simp: io_ok_def)
  next
    case False
    have "io_inv ?io'" using inv i a(1-3) c(2) by (simp add: io_inv_def put_ctx_def sum_list_set ctxs_ok_set)
    moreover have bit: "fc_events c' AND e \<noteq> 0" using a(4) events_bits(4) [of "fc_events ?ctx" e] c(1) e by (simp add: ctx_ok_def)
    then have "fc_events c' \<noteq> 0" by auto
    then have "interest kn = interest_of ((m_fdContexts io)[i := c'])"
      using kn False ok interest_of_set [OF i, of c'] a(4) by (auto simp: io_ok_def or.assoc)
    ultimately have "io_ok interest ?io'" by (simp add: io_ok_def put_ctx_def)
    moreover have "waiter (ctx_of e c') = (if cb \<noteq> None then Task None cb (- 1) else Task (Some f) None (- 1))"
      using a(5) by (simp add: waiter_def ec_def)
    ultimately show ?thesis using run False i bit by (auto simp: put_ctx_def)
  qed
qed

lemma addEvent_ok:
  assumes ok: "io_ok interest io" and law: "epoll_law ctl interest" and fd: "0 \<le> fd" and e: "is_event e"
    and size: "32 \<le> length (m_fdContexts io)"
    and free: "nat fd < length (m_fdContexts io) \<Longrightarrow> fc_events (m_fdContexts io ! nat fd) AND e = 0"
    and cur: "cur_sched \<noteq> None" "cb \<noteq> None \<or> cur_state = EXEC"
  shows "\<exists>r io'. addEvent ctl cur_sched f cur_state fd e cb io = Inr (r, io') \<and> io_ok interest io'
    \<and> length (m_fdContexts io) \<le> length (m_fdContexts io')
    \<and> (r = 0 \<and> nat fd < length (m_fdContexts io') \<and> fc_events (m_fdContexts io' ! nat fd) AND e \<noteq> 0
         \<and> waiter (ctx_of e (m_fdContexts io' ! nat fd)) = (if cb \<noteq> None then Task None cb (- 1) else Task (Some f) None (- 1))
       \<or> r = - 1)"
proof -
  define io1 where "io1 = (if int (length (m_fdContexts io)) > fd then io else contextResize (nat (fd * 3 div 2)) io)"
  have io1: "io_ok interest io1 \<and> length (m_fdContexts io) \<le> length (m_fdContexts io1) \<and> nat fd < length (m_fdContexts io1)
    \<and> fc_events (m_fdContexts io1 ! nat fd) AND e = 0"
  proof (cases "int (length (m_fdContexts io)) > fd")
    case True
    then show ?thesis using ok free fd by (simp add: io1_def)
  next
    case False
    then have sz: "length (m_fdContexts io) \<le> nat (fd * 3 div 2)" "nat fd < nat (fd * 3 div 2)" "length (m_fdContexts io) \<le> nat fd"
      using fd size by linarith+
    then show ?thesis using False contextResize_ok [OF ok sz(1)] by (simp add: io1_def FdContext_ok)
  qed
  have "addEvent ctl cur_sched f cur_state fd e cb io = addEvent_at ctl cur_sched f cur_state (nat fd) e cb io1"
    using fd io1 by (simp add: addEvent_def io1_def Let_def)
  then show ?thesis
    using addEvent_at_ok [of interest io1 ctl "nat fd" e cur_sched cb cur_state f] io1 law e cur by auto
qed

lemma cancelAll_ok:
  assumes ok: "io_ok interest io" and law: "epoll_law ctl interest" and fd: "0 \<le> fd"
  shows "\<exists>r io'. cancelAll ctl fd io = Inr (r, io') \<and> io_ok interest io' \<and> length (m_fdContexts io') = length (m_fdContexts io)
    \<and> (r \<longrightarrow> fc_events (m_fdContexts io' ! nat fd) = 0) \<and> (\<not> r \<longrightarrow> m_fdContexts io' = m_fdContexts io)"
proof -
  let ?i = "nat fd" and ?ctx = "m_fdContexts io ! nat fd"
  obtain failed kn where ctl: "ctl EPOLL_CTL_DEL fd 0 (io_kernel io) = (failed, kn)" by fastforce
  note kn = epoll_lawD [OF law ctl]
  have inv: "io_inv io" using ok by (simp add: io_ok_def)
  show ?thesis
  proof (cases "int (length (m_fdContexts io)) \<le> fd \<or> fc_events ?ctx = 0 \<or> failed")
    case True
    then show ?thesis using fd ok ctl kn by (auto simp: cancelAll_def Let_def io_ok_def)
  next
    case False
    then have i: "?i < length (m_fdContexts io)" using fd by auto
    let ?io1 = "io\<lparr>io_kernel := kn\<rparr>"
    have ev: "fc_events ?ctx \<in> {0, 1, 4, 5}" using io_inv_ctx [OF inv i] by (simp add: ctx_ok_def)
    obtain io2 where io2: "trigger_if (fc_events ?ctx) ?i READ ?io1 = Inr io2" "io_inv io2" "io_kernel io2 = kn"
      "m_fdContexts io2 = (if fc_events ?ctx AND READ \<noteq> 0 then (m_fdContexts io)[?i := cleared READ ?ctx] else m_fdContexts io)"
      using trigger_if_inv [of ?io1 ?i READ "fc_events ?ctx"] inv i by auto
    let ?c2 = "m_fdContexts io2 ! ?i"
    have i2: "?i < length (m_fdContexts io2)" using io2(4) i by simp
    have ev2: "fc_events ?c2 \<in> {0, 4}"
      using io2(4) i ev cleared_ok(4) [of ?ctx READ] io_inv_ctx [OF inv i] by (auto split: if_splits)
    obtain io3 where io3: "trigger_if (fc_events ?c2) ?i WRITE io2 = Inr io3" "io_inv io3" "io_kernel io3 = io_kernel io2"
      "m_fdContexts io3 = (if fc_events ?c2 AND WRITE \<noteq> 0 then (m_fdContexts io2)[?i := cleared WRITE ?c2] else m_fdContexts io2)"
      using trigger_if_inv [OF io2(2) i2, of WRITE "fc_events ?c2"] by auto
    have ev3: "fc_events (m_fdContexts io3 ! ?i) = 0"
      using io3(4) i2 ev2 cleared_ok(4) [of ?c2 WRITE] io_inv_ctx [OF io2(2) i2] by (auto split: if_splits)
    have run: "cancelAll ctl fd io = Inr (True, io3)"
      using False fd ctl io2(1) io3(1) ev3 by (simp add: cancelAll_def Let_def)
    have cs3: "m_fdContexts io3 = (m_fdContexts io)[?i := m_fdContexts io3 ! ?i]"
      using io2(4) io3(4) i by (auto simp: list_eq_iff_nth_eq nth_list_update)
    have "interest (io_kernel io3) = interest_of (m_fdContexts io3)"
      using kn False io2(3) io3(3) ok fd ev3 interest_of_set [OF i, of "m_fdContexts io3 ! ?i"] cs3
      by (simp add: io_ok_def)
    moreover have "length (m_fdContexts io3) = length (m_fdContexts io)" using io2(4) io3(4) by simp
    ultimately show ?thesis using run io3(2) ev3 by (auto simp: io_ok_def)
  qed
qed

section \<open>Properties\<close>

text \<open>The calls that change the contexts: the four of the interface, and an event the idle fiber handles.\<close>

datatype 'c io_call =
    Add nat fptr State int events "'c job option"
  | Del int events
  | CancelEv int events
  | CancelFd int
  | Ready nat events

fun io_exec :: "'k epoll_ctl \<Rightarrow> 'c io_call \<Rightarrow> ('c, 'k) io_manager \<Rightarrow> (io_error, ('c, 'k) io_manager) result" where
  "io_exec ctl (Add sid f st fd e cb) io = rbind (addEvent ctl (Some sid) f st fd e cb io) (\<lambda>(r, io'). Inr io')"
| "io_exec ctl (Del fd e) io = rbind (delEvent ctl fd e io) (\<lambda>(r, io'). Inr io')"
| "io_exec ctl (CancelEv fd e) io = rbind (cancelEvent ctl fd e io) (\<lambda>(r, io'). Inr io')"
| "io_exec ctl (CancelFd fd) io = rbind (cancelAll ctl fd io) (\<lambda>(r, io'). Inr io')"
| "io_exec ctl (Ready i reported) io = process_event ctl (i, reported) io"

definition registered :: "int \<Rightarrow> events \<Rightarrow> ('c, 'k) io_manager \<Rightarrow> bool" where
  "registered fd e io \<longleftrightarrow> 0 \<le> fd \<and> nat fd < length (m_fdContexts io) \<and> fc_events (m_fdContexts io ! nat fd) AND e \<noteq> 0"

text \<open>
  An event is not added twice, and a fiber that waits is the running one; the kernel reports only
  readiness of registered events besides error and hang-up.
\<close>

fun io_call_ok :: "'c io_call \<Rightarrow> ('c, 'k) io_manager \<Rightarrow> bool" where
  "io_call_ok (Add sid f st fd e cb) io \<longleftrightarrow> 0 \<le> fd \<and> is_event e \<and> \<not> registered fd e io \<and> (cb \<noteq> None \<or> st = EXEC)"
| "io_call_ok (Del fd e) io \<longleftrightarrow> 0 \<le> fd \<and> is_event e"
| "io_call_ok (CancelEv fd e) io \<longleftrightarrow> 0 \<le> fd \<and> is_event e"
| "io_call_ok (CancelFd fd) io \<longleftrightarrow> 0 \<le> fd"
| "io_call_ok (Ready i reported) io \<longleftrightarrow> i < length (m_fdContexts io)
     \<and> (reported AND READ \<noteq> 0 \<longrightarrow> registered (int i) READ io) \<and> (reported AND WRITE \<noteq> 0 \<longrightarrow> registered (int i) WRITE io)"

lemma io_exec_ok:
  assumes "io_ok interest io" "32 \<le> length (m_fdContexts io)" "epoll_law ctl interest" "io_call_ok c io"
  shows "\<exists>io'. io_exec ctl c io = Inr io' \<and> io_ok interest io' \<and> 32 \<le> length (m_fdContexts io')"
proof (cases c)
  case (Add sid f st fd e cb)
  then obtain r io' where "addEvent ctl (Some sid) f st fd e cb io = Inr (r, io')" "io_ok interest io'"
    "length (m_fdContexts io) \<le> length (m_fdContexts io')"
    using addEvent_ok [OF assms(1,3), of fd e "Some sid" cb st f] assms(2,4) by (auto simp: registered_def)
  then show ?thesis using Add assms(2) by auto
next
  case (Del fd e)
  then obtain r io' where "delEvent ctl fd e io = Inr (r, io')" "io_ok interest io'" "length (m_fdContexts io') = length (m_fdContexts io)"
    using delEvent_ok [OF assms(1,3), of fd e] assms(4) by (metis io_call_ok.simps(2) length_list_update)
  then show ?thesis using Del assms(2) by auto
next
  case (CancelEv fd e)
  then obtain r io' where "cancelEvent ctl fd e io = Inr (r, io')" "io_ok interest io'" "length (m_fdContexts io') = length (m_fdContexts io)"
    using cancelEvent_ok [OF assms(1,3), of fd e] assms(4) by (metis io_call_ok.simps(3) length_list_update)
  then show ?thesis using CancelEv assms(2) by auto
next
  case (CancelFd fd)
  then show ?thesis using cancelAll_ok [OF assms(1,3), of fd] assms(2,4) by auto
next
  case (Ready i reported)
  then have "i < length (m_fdContexts io)" "\<And>e. is_event e \<Longrightarrow> reported AND e \<noteq> 0 \<Longrightarrow> fc_events (m_fdContexts io ! i) AND e \<noteq> 0"
    using assms(4) by (auto simp: is_event_def registered_def)
  then obtain io' where "process_event ctl (i, reported) io = Inr io'" "io_ok interest io'" "length (m_fdContexts io') = length (m_fdContexts io)"
    using process_event_ok [OF assms(1,3), of i reported] by blast
  then show ?thesis using Ready assms(2) by simp
qed

lemma IOManager_ok: "interest k = (\<lambda>_. None) \<Longrightarrow> io_ok interest (IOManager s now k) \<and> length (m_fdContexts (IOManager s now k)) = 32"
proof -
  assume k: "interest k = (\<lambda>_. None)"
  let ?io = "\<lparr>io_sched = s, io_timers = TimerManager now, io_other = [], m_pendingEventCount = 0, m_fdContexts = [], io_kernel = k\<rparr>"
  have "io_ok interest ?io" using k by (simp add: io_ok_def io_inv_def ctxs_ok_def interest_of_def fun_eq_iff)
  then show ?thesis using contextResize_ok(1,2) [of interest ?io 32] by (simp add: IOManager_def)
qed

inductive io_reach :: "'k epoll_ctl \<Rightarrow> ('c, 'k) io_manager \<Rightarrow> ('c, 'k) io_manager \<Rightarrow> bool" for ctl io0 where
  io_start: "io_reach ctl io0 io0"
| io_next: "io_reach ctl io0 io \<Longrightarrow> io_call_ok c io \<Longrightarrow> io_exec ctl c io = Inr io' \<Longrightarrow> io_reach ctl io0 io'"

lemma io_reach_ok:
  "io_reach ctl io0 io \<Longrightarrow> io_ok interest io0 \<Longrightarrow> 32 \<le> length (m_fdContexts io0) \<Longrightarrow> epoll_law ctl interest
    \<Longrightarrow> io_ok interest io \<and> 32 \<le> length (m_fdContexts io)"
proof (induction rule: io_reach.induct)
  case (io_next io c io')
  then show ?case using io_exec_ok [of interest io ctl c] by auto
qed simp

text \<open>A kernel for examples: the interest list as a function, every call succeeds.\<close>

definition table_ctl :: "(int \<Rightarrow> events option) epoll_ctl" where
  "table_ctl op fd ev k = (False, k(fd := (if op = EPOLL_CTL_DEL then None else Some ev)))"

lemma table_law: "epoll_law table_ctl (\<lambda>k. k)"
  by (simp add: epoll_law_def table_ctl_def)

definition blank_scheduler :: "nat scheduler" where
  "blank_scheduler = \<lparr>m_tasks = [], m_threads = [], m_threadIds = [], m_threadCount = 1, m_activeThreadCount = 0,
     m_idleThreadCount = 0, m_stopping = True, m_autoStop = True, m_rootThread = - 1, m_rootFiber = None, tickles = 0\<rparr>"



lemma waiter_present:
  assumes "ctx_ok ctx" "is_event e" "fc_events ctx AND e \<noteq> 0"
  shows "tk_fiber (waiter (ctx_of e ctx)) \<noteq> None \<or> tk_cb (waiter (ctx_of e ctx)) \<noteq> None"
  using assms by (auto simp: ctx_ok_def is_event_def ctx_of_def waiter_ok_def waiter_def Task_def)

lemma trigger_if_ok:
  assumes "is_event e" "m_fdContexts io ! i = ctx" "ctx_ok ctx"
    and "real AND e \<noteq> 0 \<Longrightarrow> fc_events ctx AND e \<noteq> 0 \<and> ec_scheduler (ctx_of e ctx) = Some 0"
  shows "\<exists>io'. trigger_if real i e io = Inr io'
      \<and> m_fdContexts io' = (if real AND e \<noteq> 0 then (m_fdContexts io)[i := cleared e ctx] else m_fdContexts io)
      \<and> m_tasks (io_sched io') = m_tasks (io_sched io) @ (if real AND e \<noteq> 0 then [waiter (ctx_of e ctx)] else [])
      \<and> m_pendingEventCount io' = m_pendingEventCount io - of_bool (real AND e \<noteq> 0)"
proof (cases "real AND e = 0")
  case False
  then show ?thesis using triggerEvent_ok [of io i e] assms waiter_present [OF assms(3,1)]
    by (auto simp: trigger_if_def put_ctx_def dec_pending_def Let_def)
qed (simp add: trigger_if_def)

text \<open>C12: A handled event resumes its waiters exactly once. When the kernel reports readiness of registered
  events and accepts the new mask, the waiting reader and then the waiting writer are handed to their
  scheduler (here the manager's own), their slots are emptied, and m_pendingEventCount drops by the
  number of events that fired; a second report of the same events does nothing.\<close>

theorem ready_event_fires_once:
  assumes "io_inv io" and "i < length (m_fdContexts io)"
    and "ctx = m_fdContexts io ! i" and "real = real_events (fc_events ctx) reported" and "real \<noteq> 0"
    and "\<forall>e. is_event e \<longrightarrow> reported AND e \<noteq> 0 \<longrightarrow> fc_events ctx AND e \<noteq> 0"
    and "\<forall>e. is_event e \<longrightarrow> fc_events ctx AND e \<noteq> 0 \<longrightarrow> ec_scheduler (ctx_of e ctx) = Some 0"
    and "\<forall>op fd ev k. ctl op fd ev k = (False, f op fd ev k)"
  shows "\<exists>io'. process_event ctl (i, reported) io = Inr io'
    \<and> m_tasks (io_sched io') = m_tasks (io_sched io) @ (if real AND READ \<noteq> 0 then [waiter (fc_read ctx)] else [])
        @ (if real AND WRITE \<noteq> 0 then [waiter (fc_write ctx)] else [])
    \<and> fc_events (m_fdContexts io' ! i) = fc_events ctx AND NOT real
    \<and> m_pendingEventCount io' = m_pendingEventCount io - of_bool (real AND READ \<noteq> 0) - of_bool (real AND WRITE \<noteq> 0)
    \<and> process_event ctl (i, real) io' = Inr io'"
proof -
  have c: "ctx_ok ctx" "fc_events ctx \<in> {0, 1, 4, 5}" using io_inv_ctx [OF assms(1,2)] assms(3) by (simp_all add: ctx_ok_def)
  have rs: "real \<in> {0, 1, 4, 5}" "\<And>e. is_event e \<Longrightarrow> real AND e \<noteq> 0 \<Longrightarrow> fc_events ctx AND e \<noteq> 0"
    using real_events_sub(1) [of reported "fc_events ctx"] real_events_sub(2) [of reported "fc_events ctx"] assms(4,6) by blast+
  have ne: "fc_events ctx AND real \<noteq> 0" using rs(1) assms(5) c(2) rs(2) [of READ] rs(2) [of WRITE] by auto
  define left where "left = fc_events ctx AND NOT real"
  define io1 where "io1 = io\<lparr>io_kernel := f (if left \<noteq> 0 then EPOLL_CTL_MOD else EPOLL_CTL_DEL) (fc_fd ctx) (EPOLLET OR left) (io_kernel io)\<rparr>"
  have p: "process_event ctl (i, reported) io = rbind (trigger_if real i READ io1) (\<lambda>io2. trigger_if real i WRITE io2)"
    using ne assms(3,4,8) by (simp add: process_event_def Let_def io1_def left_def)
  have fire: "\<exists>io'. trigger_if real i e io2 = Inr io' \<and> m_fdContexts io' = (if real AND e \<noteq> 0 then (m_fdContexts io2)[i := cleared e c2] else m_fdContexts io2)
      \<and> m_tasks (io_sched io') = m_tasks (io_sched io2) @ (if real AND e \<noteq> 0 then [waiter (ctx_of e ctx)] else [])
      \<and> m_pendingEventCount io' = m_pendingEventCount io2 - of_bool (real AND e \<noteq> 0)"
    if "is_event e" "m_fdContexts io2 ! i = c2" "ctx_ok c2" "ctx_of e c2 = ctx_of e ctx" "fc_events c2 AND e = fc_events ctx AND e" for e io2 c2
    using trigger_if_ok [OF that(1-3), of real] rs(2) [OF that(1)] assms(7) that by metis
  obtain io2 where io2: "trigger_if real i READ io1 = Inr io2"
    "m_fdContexts io2 = (if real AND READ \<noteq> 0 then (m_fdContexts io)[i := cleared READ ctx] else m_fdContexts io)"
    "m_tasks (io_sched io2) = m_tasks (io_sched io) @ (if real AND READ \<noteq> 0 then [waiter (fc_read ctx)] else [])"
    "m_pendingEventCount io2 = m_pendingEventCount io - of_bool (real AND READ \<noteq> 0)"
    using fire [of READ io1 ctx] c assms(3) by (auto simp: io1_def ctx_of_def)
  define c2 where "c2 = m_fdContexts io2 ! i"
  have c2: "c2 = (if real AND READ \<noteq> 0 then cleared READ ctx else ctx)" using io2(2) assms(2,3) by (simp add: c2_def)
  have cl: "real AND READ \<noteq> 0 \<Longrightarrow> ctx_ok (cleared READ ctx) \<and> fc_events (cleared READ ctx) = fc_events ctx AND NOT READ \<and> fc_write (cleared READ ctx) = fc_write ctx"
    using cleared_ok(1,4) [OF c(1), of READ] rs(2) [of READ] by (simp add: cleared_def putContext_def)
  have c2': "ctx_ok c2" "fc_write c2 = fc_write ctx" "fc_events c2 AND WRITE = fc_events ctx AND WRITE"
    using c2 c cl events_bits(5) [OF c(2), of READ WRITE] by auto
  obtain io3 where io3: "trigger_if real i WRITE io2 = Inr io3"
    "m_fdContexts io3 = (if real AND WRITE \<noteq> 0 then (m_fdContexts io2)[i := cleared WRITE c2] else m_fdContexts io2)"
    "m_tasks (io_sched io3) = m_tasks (io_sched io2) @ (if real AND WRITE \<noteq> 0 then [waiter (fc_write ctx)] else [])"
    "m_pendingEventCount io3 = m_pendingEventCount io2 - of_bool (real AND WRITE \<noteq> 0)"
    using fire [of WRITE io2 c2] c2' by (auto simp: c2_def ctx_of_def)
  have len: "i < length (m_fdContexts io2)" using io2(2) assms(2) by simp
  have "fc_events (m_fdContexts io3 ! i) = (if real AND WRITE \<noteq> 0 then fc_events c2 AND NOT WRITE else fc_events c2)"
    using io3(2) len cleared_ok(4) [OF c2'(1), of WRITE] rs(2) [of WRITE] c2'(3) by (simp add: c2_def)
  also have "\<dots> = left"
    using not_both [OF rs(1) c(2)] cl unfolding Let_def left_def c2 by auto
  finally have ev3: "fc_events (m_fdContexts io3 ! i) = left" .
  have "left AND real_events left real = 0" using rs(1) c(2) by (auto simp: left_def real_events_def Let_def)
  then have "process_event ctl (i, real) io3 = Inr io3" using ev3 by (simp add: process_event_def Let_def)
  then show ?thesis using p io2 io3 ev3 left_def by auto
qed

definition reader_ctx :: "nat fd_context" where
  "reader_ctx = \<lparr>fc_read = \<lparr>ec_scheduler = Some 0, ec_fiber = Some 5, ec_cb = None\<rparr>, fc_write = no_waiter, fc_fd = 0, fc_events = READ\<rparr>"

definition reader_io :: "(nat, int \<Rightarrow> events option) io_manager" where
  "reader_io = \<lparr>io_sched = blank_scheduler, io_timers = TimerManager 0, io_other = [], m_pendingEventCount = 1,
     m_fdContexts = [reader_ctx], io_kernel = (\<lambda>_. None)\<rparr>"

lemma reader_inv: "io_inv reader_io"
  by (simp add: io_inv_def reader_io_def ctxs_ok_def reader_ctx_def ctx_ok_def waiter_ok_def no_waiter_def pending_def)

theorem ready_event_fires_once_witness:
  "\<exists>io'. process_event table_ctl (0, EPOLLIN) reader_io = Inr io'
    \<and> m_tasks (io_sched io') = [Task (Some 5) None (- 1)] \<and> m_pendingEventCount io' = 0"
proof -
  have c: "m_fdContexts reader_io ! 0 = reader_ctx" "0 < length (m_fdContexts reader_io)" by (simp_all add: reader_io_def)
  have real: "real_events (fc_events reader_ctx) EPOLLIN = READ" by (simp add: real_events_def reader_ctx_def)
  have ok: "\<forall>e. is_event e \<longrightarrow> EPOLLIN AND e \<noteq> 0 \<longrightarrow> fc_events reader_ctx AND e \<noteq> 0"
    "\<forall>e. is_event e \<longrightarrow> fc_events reader_ctx AND e \<noteq> 0 \<longrightarrow> ec_scheduler (ctx_of e reader_ctx) = Some 0"
    by (auto simp: is_event_def reader_ctx_def ctx_of_def)
  have ctl: "\<forall>op fd ev k. table_ctl op fd ev k = (False, snd (table_ctl op fd ev k))" by (simp add: table_ctl_def)
  have "waiter (fc_read reader_ctx) = Task (Some 5) None (- 1)" "m_tasks (io_sched reader_io) = []" "m_pendingEventCount reader_io = 1"
    by (simp_all add: waiter_def reader_ctx_def reader_io_def blank_scheduler_def)
  then show ?thesis
    using ready_event_fires_once [OF reader_inv c(2) c(1) [symmetric] real [symmetric] _ ok, of table_ctl "\<lambda>op fd ev k. snd (table_ctl op fd ev k)"] ctl
    by auto
qed

text \<open>The idle fiber may only trigger what is registered. It checks that some reported event is still
  registered and then triggers all reported ones: when read and write readiness were reported and
  one of the two was unregistered by another thread before the context was locked, the ASSERT in
  triggerEvent fails.\<close>

theorem idle_trigger_race:
  assumes "io_inv io" and "i < length (m_fdContexts io)" and "fc_events (m_fdContexts io ! i) = WRITE"
    and "ctl EPOLL_CTL_DEL (int i) EPOLLET (io_kernel io) = (False, k)"
  shows "process_event ctl (i, EPOLLIN OR EPOLLOUT) io = Inl (IoAssert ''events & event'')"
proof -
  have "fc_fd (m_fdContexts io ! i) = int i" using io_inv_ctx [OF assms(1,2)] by simp
  then show ?thesis using assms(3,4)
    by (simp add: process_event_def real_events_def trigger_if_def triggerEvent_def Let_def)
qed

definition writer_ctx :: "nat fd_context" where
  "writer_ctx = \<lparr>fc_read = no_waiter, fc_write = \<lparr>ec_scheduler = Some 0, ec_fiber = Some 5, ec_cb = None\<rparr>, fc_fd = 0, fc_events = WRITE\<rparr>"

theorem idle_trigger_race_witness:
  "process_event table_ctl (0, EPOLLIN OR EPOLLOUT) (reader_io\<lparr>m_fdContexts := [writer_ctx]\<rparr>) = Inl (IoAssert ''events & event'')"
  by (rule idle_trigger_race)
    (simp_all add: io_inv_def reader_io_def ctxs_ok_def writer_ctx_def ctx_ok_def waiter_ok_def no_waiter_def pending_def table_ctl_def)

text \<open>The time the idle fiber waits: between zero and three seconds, never longer than the next timer,
  for every timeout below \<open>2 ^ 31\<close> milliseconds and when there is no timer; a timeout whose bit 31 is
  set is cut to a negative number, for which epoll_wait blocks until an event arrives.\<close>

theorem wait_timeout_bounds:
  "(unat t < 2 ^ 31 \<longrightarrow> 0 \<le> wait_timeout t \<and> wait_timeout t \<le> 3000 \<and> wait_timeout t \<le> int (unat t))
   \<and> wait_timeout (- 1) = 3000
   \<and> (t \<noteq> - 1 \<and> bit t 31 \<longrightarrow> wait_timeout t < 0)"
proof -
  have neg: "sint (ucast t :: i32) < 0" if "bit t 31"
    using that bit_last_iff [of "ucast t :: i32"] by (simp add: bit_ucast_iff)
  have pos: "sint (ucast t :: i32) = int (unat t)" if "unat t < 2 ^ 31"
  proof -
    have u: "uint t = int (unat t)" by simp
    have "int (unat t) < int (2 ^ 31)" using that by (simp only: of_nat_less_iff)
    then have lt: "uint t < 2 ^ 31" by simp
    then have "take_bit 32 (uint t) = uint t" by (simp add: take_bit_int_eq_self)
    then have "uint (ucast t :: i32) = int (unat t)" by (simp add: unsigned_ucast_eq)
    moreover have "signed_take_bit 31 (uint t) = uint t"
      by (rule signed_take_bit_int_eq_self) (use lt unsigned_greater_eq [where 'a = int, of t] in linarith)+
    ultimately show ?thesis by (simp add: sint_uint)
  qed
  show ?thesis using neg pos by (auto simp: wait_timeout_def MAX_TIMEOUT_def Let_def)
qed

theorem wait_timeout_bounds_witness:
  "unat (5 :: u64) < 2 ^ 31 \<and> 0 \<le> wait_timeout 5 \<and> wait_timeout 5 \<le> 5 \<and> wait_timeout 0x80000000 < 0"
  using wait_timeout_bounds [of 5] wait_timeout_bounds [of "0x80000000"] by (simp add: bit_numeral_rec)

lemma io_idle_no_events: "\<exists>r. io_idle_round ctl now now' a [] io = Inr r"
  by (auto simp: io_idle_round_def Let_def split: prod.splits)

text \<open>C13: The idle loop ends only when nothing can happen any more: a round leaves the loop exactly when there
  is no timer, no event is registered on any descriptor, and the scheduler has been told to stop, has
  no task and no active worker.\<close>

theorem idle_exit_iff:
  assumes "io_inv io" and "tm_inv (io_timers io)" and "\<forall>p \<in> set (m_timers (io_timers io)). unat (m_next (heap (io_timers io) p)) < 2 ^ 64 - 1"
    and "io_idle_round ctl now now' a es io = Inr r"
  shows "r = None \<longleftrightarrow> m_timers (io_timers io) = [] \<and> (\<forall>ctx \<in> set (m_fdContexts io). fc_events ctx = 0)
    \<and> m_autoStop (io_sched io) \<and> m_stopping (io_sched io) \<and> m_tasks (io_sched io) = [] \<and> m_activeThreadCount (io_sched io) = 0"
proof -
  have "fst (getNextTimer now (io_timers io)) = - 1 \<longleftrightarrow> m_timers (io_timers io) = []"
  proof (cases "m_timers (io_timers io)")
    case (Cons p ps)
    have "unat (m_next (heap (io_timers io) p) - now) \<le> unat (m_next (heap (io_timers io) p))"
      if "\<not> now \<ge> m_next (heap (io_timers io) p)"
      using that by (simp add: unat_sub)
    moreover have "unat (- 1 :: u64) = 2 ^ 64 - 1" by (simp add: unsigned_minus_1_eq_mask mask_eq_exp_minus_1)
    then have "unat (m_next (heap (io_timers io) p)) < unat (- 1 :: u64)" using assms(3) Cons by simp
    ultimately show ?thesis using Cons by (auto simp: getNextTimer_def Let_def)
  qed (simp add: getNextTimer_def)
  moreover have "m_pendingEventCount io = 0 \<longleftrightarrow> (\<forall>ctx \<in> set (m_fdContexts io). fc_events ctx = 0)"
  proof -
    have "\<forall>ctx \<in> set (m_fdContexts io). fc_events ctx \<in> {0, 1, 4, 5}"
      using io_inv_ctx [OF assms(1)] unfolding ctx_ok_def by (metis in_set_conv_nth)
    then have p: "\<forall>ctx \<in> set (m_fdContexts io). pending ctx = 0 \<longleftrightarrow> fc_events ctx = 0" by (auto simp: pending_def)
    have "sum_list (map pending (m_fdContexts io)) = 0 \<longleftrightarrow> (\<forall>n \<in> set (map pending (m_fdContexts io)). n = 0)"
      by (rule sum_list_nonneg_eq_0_iff) (auto simp: pending_nonneg)
    then show ?thesis using assms(1) p by (simp add: io_inv_def)
  qed
  moreover have "r = None \<longleftrightarrow> fst (io_stopping now io)"
    using assms(4) by (cases "fst (io_stopping now io)")
      (auto simp: io_idle_round_def rbind_eq_Inr_iff case_prod_unfold Let_def)
  ultimately show ?thesis by (auto simp: io_stopping_def stopping_def case_prod_unfold Let_def)
qed

theorem idle_exit_iff_witness:
  "io_idle_round table_ctl 0 0 1 [] (IOManager blank_scheduler 0 (\<lambda>_. None)) = Inr None"
proof -
  let ?io = "IOManager blank_scheduler 0 (\<lambda>_. None) :: (nat, int \<Rightarrow> events option) io_manager"
  have io: "io_inv ?io" using IOManager_ok [of "\<lambda>k. k" "\<lambda>_. None" blank_scheduler 0] by (simp add: io_ok_def)
  have tm: "io_timers ?io = TimerManager 0" "io_sched ?io = blank_scheduler" by (simp_all add: IOManager_def contextResize_def)
  have ev: "\<forall>ctx \<in> set (m_fdContexts ?io). fc_events ctx = 0" by (auto simp: IOManager_def contextResize_def FdContext_ok)
  obtain r where r: "io_idle_round table_ctl 0 0 1 [] ?io = Inr r" using io_idle_no_events by blast
  have "r = None"
    using idle_exit_iff [OF io _ _ r] tm ev tm_inv_TimerManager by (auto simp: TimerManager_def blank_scheduler_def)
  then show ?thesis using r by simp
qed

text \<open>addEvent looks up the size under the read lock and resizes under the write lock without looking
  again. When another thread has grown the table further in between, the resize shrinks it, and the
  contexts above, with their registered events, are lost.\<close>

theorem resize_race_loses_context:
  assumes "io_inv io" and "fd1 < fd2" and "fd2 < length (m_fdContexts io)" and "fd1 * 3 div 2 \<le> fd2"
    and "fc_events (m_fdContexts io ! fd2) \<noteq> 0"
  shows "let io' = contextResize (fd1 * 3 div 2) io in
    delEvent ctl (int fd2) READ io' = Inr (False, io') \<and> cancelAll ctl (int fd2) io' = Inr (False, io')
    \<and> m_pendingEventCount io' = m_pendingEventCount io \<and> m_pendingEventCount io' > sum_list (map pending (m_fdContexts io'))"
proof -
  let ?cs = "m_fdContexts io" and ?n = "fd1 * 3 div 2"
  have cs': "m_fdContexts (contextResize ?n io) = take ?n ?cs" using assms(3,4) by (simp add: contextResize_def)
  have split: "sum_list (map pending ?cs) = sum_list (map pending (take ?n ?cs)) + sum_list (map pending (drop ?n ?cs))"
    by (metis append_take_drop_id map_append sum_list_append)
  have "?cs ! fd2 = drop ?n ?cs ! (fd2 - ?n)" "fd2 - ?n < length (drop ?n ?cs)" using assms(3,4) by simp_all
  then have "?cs ! fd2 \<in> set (drop ?n ?cs)" by (metis nth_mem)
  moreover have "0 < pending (?cs ! fd2)"
    using io_inv_ctx [OF assms(1,3)] assms(5) by (auto simp: ctx_ok_def pending_def)
  moreover have "pending (?cs ! fd2) \<le> sum_list (map pending (drop ?n ?cs))" if "?cs ! fd2 \<in> set (drop ?n ?cs)"
    by (rule member_le_sum_list) (use that in \<open>auto simp: pending_nonneg\<close>)
  ultimately have "0 < sum_list (map pending (drop ?n ?cs))" by fastforce
  moreover have "m_pendingEventCount io = sum_list (map pending ?cs)" using assms(1) by (simp add: io_inv_def)
  moreover have "m_pendingEventCount (contextResize ?n io) = m_pendingEventCount io" by (simp add: contextResize_def)
  ultimately have "m_pendingEventCount (contextResize ?n io) > sum_list (map pending (m_fdContexts (contextResize ?n io)))"
    using split cs' by simp
  moreover have "delEvent ctl (int fd2) READ (contextResize ?n io) = Inr (False, contextResize ?n io)"
    "cancelAll ctl (int fd2) (contextResize ?n io) = Inr (False, contextResize ?n io)"
    using cs' assms(4) by (simp_all add: delEvent_def unregister_def cancelAll_def min_def)
  ultimately show ?thesis by (simp add: contextResize_def Let_def)
qed

theorem resize_race_loses_context_witness:
  "cancelAll table_ctl 2 (contextResize 1 (reader_io\<lparr>m_fdContexts := [FdContext 0, FdContext 1, reader_ctx\<lparr>fc_fd := 2\<rparr>]\<rparr>))
    = Inr (False, contextResize 1 (reader_io\<lparr>m_fdContexts := [FdContext 0, FdContext 1, reader_ctx\<lparr>fc_fd := 2\<rparr>]\<rparr>))"
proof -
  let ?io = "reader_io\<lparr>m_fdContexts := [FdContext 0, FdContext 1, reader_ctx\<lparr>fc_fd := 2\<rparr>]\<rparr>"
  have "io_inv ?io"
    by (auto simp: io_inv_def reader_io_def ctxs_ok_def FdContext_def reader_ctx_def ctx_ok_def waiter_ok_def no_waiter_def
      pending_def less_Suc_eq numeral_3_eq_3 nth_Cons')
  then show ?thesis using resize_race_loses_context [of ?io 1 2 table_ctl] by (simp add: Let_def reader_ctx_def)
qed

end
