(* ===== verification/Hook.thy ===== *)
theory Hook
  imports FdManager IOManager "HOL-Library.Signed_Division"
begin

unbundle bit_operations_syntax

text \<open>
  The system call hooks (\<open>src/hook.cc\<close>): blocking calls on sockets become nonblocking calls that
  suspend the fiber until the descriptor is ready or a timer expires. A hooked call is cut at its
  suspension points: a function runs from one to the next and returns a phase, the code between
  YieldToHold and the resumption belongs to other fibers. Results of the original functions are
  arguments (return value and errno), as are the clock, the address of a new timer and the current
  fiber. A timer_info object is named by a number; it is alive while the call that owns it runs.
\<close>

section \<open>State\<close>

datatype 'u hook_job = UserJob 'u | ScheduleFiber fptr | TimedOut nat int events

type_synonym ('u, 'k) hio = "('u hook_job callback, 'k) io_manager"

record ('u, 'k) hook_state =
  hs_io :: "('u, 'k) hio"
  hs_fds :: fd_manager
  hs_tinfo :: "nat \<Rightarrow> int option"
  hs_errno :: int

datatype hook_error = HookIo io_error | HookFd fd_error | HookTimer tm_error | NoIOManager

abbreviation EINTR :: int where "EINTR \<equiv> 4"
abbreviation EBADF :: int where "EBADF \<equiv> 9"
abbreviation EAGAIN :: int where "EAGAIN \<equiv> 11"
abbreviation ETIMEDOUT :: int where "ETIMEDOUT \<equiv> 110"
abbreviation EINPROGRESS :: int where "EINPROGRESS \<equiv> 115"
abbreviation SOL_SOCKET :: int where "SOL_SOCKET \<equiv> 1"

definition lift_err :: "('e \<Rightarrow> 'f) \<Rightarrow> ('e, 'a) result \<Rightarrow> ('f, 'a) result" where
  "lift_err f r = (case r of Inl e \<Rightarrow> Inl (f e) | Inr x \<Rightarrow> Inr x)"

lemma lift_err_simps [simp]: "lift_err f (Inl e) = Inl (f e)" "lift_err f (Inr x) = Inr x"
  by (simp_all add: lift_err_def)

section \<open>Timers of the hooks\<close>

text \<open>
  IOManager overrides onTimerInsertedAtFront with tickle; \<open>wrote\<close> is what write on its pipe returns.
\<close>

definition iom_addTimer ::
  "int \<Rightarrow> u64 \<Rightarrow> ptr \<Rightarrow> u64 \<Rightarrow> 'u hook_job callback \<Rightarrow> ('u, 'k) hio \<Rightarrow> (io_error, ('u, 'k) hio) result" where
  "iom_addTimer wrote now a ms cb io =
     (let (front, tm) = addTimer now a ms (Some (User cb)) False (io_timers io);
          io1 = io\<lparr>io_timers := tm\<rparr>
      in if front then rbind (io_tickle wrote io1) (\<lambda>_. Inr io1) else Inr io1)"

text \<open>The condition timer both do_io and connect_with_timeout start, and its callback.\<close>

definition arm_timeout ::
  "int \<Rightarrow> u64 \<Rightarrow> ptr \<Rightarrow> u64 \<Rightarrow> nat \<Rightarrow> int \<Rightarrow> events \<Rightarrow> ('u, 'k) hook_state
     \<Rightarrow> (hook_error, ptr option \<times> ('u, 'k) hook_state) result" where
  "arm_timeout wrote now a to t fd event st =
     (if to \<noteq> - 1
      then rbind (lift_err HookIo (iom_addTimer wrote now a to (BindOnTimer t (TimedOut t fd event)) (hs_io st)))
             (\<lambda>io. Inr (Some a, st\<lparr>hs_io := io\<rparr>))
      else Inr (None, st))"

definition disarm :: "ptr option \<Rightarrow> ('u, 'k) hook_state \<Rightarrow> (hook_error, ('u, 'k) hook_state) result" where
  "disarm timer st =
     (case timer of
        None \<Rightarrow> Inr st
      | Some p \<Rightarrow> rbind (lift_err HookTimer (cancel p (io_timers (hs_io st))))
                    (\<lambda>(_, tm). Inr (st\<lparr>hs_io := hs_io st\<lparr>io_timers := tm\<rparr>\<rparr>)))"

definition timeout_cb :: "'k epoll_ctl \<Rightarrow> nat \<Rightarrow> int \<Rightarrow> events \<Rightarrow> ('u, 'k) hook_state \<Rightarrow> (hook_error, ('u, 'k) hook_state) result" where
  "timeout_cb ctl t fd event st =
     (case hs_tinfo st t of
        None \<Rightarrow> Inr st
      | Some cancelled \<Rightarrow>
          if cancelled \<noteq> 0 then Inr st
          else let st1 = st\<lparr>hs_tinfo := (hs_tinfo st)(t \<mapsto> ETIMEDOUT)\<rparr>
               in rbind (lift_err HookIo (cancelEvent ctl fd event (hs_io st1))) (\<lambda>(_, io). Inr (st1\<lparr>hs_io := io\<rparr>)))"

text \<open>What a worker does with a callback a timer handed to the scheduler.\<close>

fun run_hook_job :: "'k epoll_ctl \<Rightarrow> 'u hook_job \<Rightarrow> ('u, 'k) hook_state \<Rightarrow> (hook_error, ('u, 'k) hook_state) result" where
  "run_hook_job ctl (UserJob u) st = Inr st"
| "run_hook_job ctl (ScheduleFiber f) st =
     Inr (st\<lparr>hs_io := hs_io st\<lparr>io_sched := schedule (Task (Some f) None (- 1)) (io_sched (hs_io st))\<rparr>\<rparr>)"
| "run_hook_job ctl (TimedOut t fd event) st = timeout_cb ctl t fd event st"

fun run_hook_jobs :: "'k epoll_ctl \<Rightarrow> 'u hook_job list \<Rightarrow> ('u, 'k) hook_state \<Rightarrow> (hook_error, ('u, 'k) hook_state) result" where
  "run_hook_jobs ctl [] st = Inr st"
| "run_hook_jobs ctl (j # js) st = rbind (run_hook_job ctl j st) (run_hook_jobs ctl js)"

definition run_timer_cb :: "'k epoll_ctl \<Rightarrow> 'u hook_job callback \<Rightarrow> ('u, 'k) hook_state \<Rightarrow> (hook_error, ('u, 'k) hook_state) result" where
  "run_timer_cb ctl cb st = run_hook_jobs ctl (run_callback (\<lambda>t. hs_tinfo st t \<noteq> None) cb) st"

section \<open>do_io\<close>

datatype io_phase =
    Direct
  | Returned int
  | Calling u64 nat
  | Suspended "ptr option" u64 nat

text \<open>Up to the label retry. \<open>t\<close> names the timer_info object that is allocated.\<close>

definition do_io_enter :: "'k sys \<Rightarrow> bool \<Rightarrow> int \<Rightarrow> int \<Rightarrow> nat \<Rightarrow> ('u, 'k) hook_state \<Rightarrow> (hook_error, io_phase \<times> ('u, 'k) hook_state) result" where
  "do_io_enter sys hook_enable fd timeout_so t st =
     (if \<not> hook_enable then Inr (Direct, st)
      else rbind (lift_err HookFd (get_fd sys fd False (hs_fds st) (io_kernel (hs_io st)))) (\<lambda>(ctx, _, _).
        case ctx of
          None \<Rightarrow> Inr (Direct, st)
        | Some c \<Rightarrow>
            if m_isClosed c then Inr (Returned (- 1), st\<lparr>hs_errno := EBADF\<rparr>)
            else if \<not> m_isSocket c \<or> m_userNonblock c then Inr (Direct, st)
            else Inr (Calling (getTimeout timeout_so c) t, st\<lparr>hs_tinfo := (hs_tinfo st)(t \<mapsto> 0)\<rparr>)))"

text \<open>
  The calls of the original function from retry on. \<open>rs\<close> are their results with errno, in order; the
  loop repeats an interrupted call, so the result is \<open>None\<close> when all of \<open>rs\<close> were interrupted.
\<close>

fun skip_eintr :: "(int \<times> int) list \<Rightarrow> (int \<times> int) option" where
  "skip_eintr [] = None"
| "skip_eintr ((n, e) # rs) = (if n = - 1 \<and> e = EINTR then skip_eintr rs else Some (n, e))"

definition drop_tinfo :: "nat \<Rightarrow> ('u, 'k) hook_state \<Rightarrow> ('u, 'k) hook_state" where
  "drop_tinfo t st = st\<lparr>hs_tinfo := (hs_tinfo st)(t := None)\<rparr>"

definition do_io_wait ::
  "'k epoll_ctl \<Rightarrow> int \<Rightarrow> u64 \<Rightarrow> ptr \<Rightarrow> bool \<Rightarrow> fptr \<Rightarrow> int \<Rightarrow> events \<Rightarrow> u64 \<Rightarrow> nat \<Rightarrow> ('u, 'k) hook_state
     \<Rightarrow> (hook_error, io_phase \<times> ('u, 'k) hook_state) result" where
  "do_io_wait ctl wrote now a has_iom f fd event to t st =
     (if \<not> has_iom then Inl NoIOManager
      else rbind (arm_timeout wrote now a to t fd event st) (\<lambda>(timer, st1).
        rbind (lift_err HookIo (addEvent ctl (Some 0) f EXEC fd event None (hs_io st1))) (\<lambda>(rt, io).
          let st2 = st1\<lparr>hs_io := io\<rparr> in
          if rt \<noteq> 0 then rbind (disarm timer st2) (\<lambda>st3. Inr (Returned (- 1), drop_tinfo t st3))
          else Inr (Suspended timer to t, st2))))"

definition do_io_try ::
  "'k epoll_ctl \<Rightarrow> int \<Rightarrow> u64 \<Rightarrow> ptr \<Rightarrow> bool \<Rightarrow> fptr \<Rightarrow> int \<Rightarrow> events \<Rightarrow> u64 \<Rightarrow> nat \<Rightarrow> (int \<times> int) list \<Rightarrow> ('u, 'k) hook_state
     \<Rightarrow> (hook_error, io_phase \<times> ('u, 'k) hook_state) result option" where
  "do_io_try ctl wrote now a has_iom f fd event to t rs st =
     (case skip_eintr rs of
        None \<Rightarrow> None
      | Some (n, e) \<Rightarrow>
          let st1 = (if n = - 1 then st\<lparr>hs_errno := e\<rparr> else st) in
          Some (if n = - 1 \<and> e = EAGAIN then do_io_wait ctl wrote now a has_iom f fd event to t st1
                else Inr (Returned n, drop_tinfo t st1)))"

text \<open>After YieldToHold returned.\<close>

definition do_io_resume :: "ptr option \<Rightarrow> u64 \<Rightarrow> nat \<Rightarrow> ('u, 'k) hook_state \<Rightarrow> (hook_error, io_phase \<times> ('u, 'k) hook_state) result" where
  "do_io_resume timer to t st =
     rbind (disarm timer st) (\<lambda>st1.
       case hs_tinfo st1 t of
         Some c \<Rightarrow> if c \<noteq> 0 then Inr (Returned (- 1), drop_tinfo t (st1\<lparr>hs_errno := c\<rparr>)) else Inr (Calling to t, st1)
       | None \<Rightarrow> Inr (Calling to t, st1))"

section \<open>connect_with_timeout\<close>

text \<open>Up to the suspension: \<open>n\<close> and \<open>e\<close> are the result and errno of connect_f. \<open>Calling\<close> goes on with getsockopt.\<close>

definition connect_enter ::
  "'k sys \<Rightarrow> 'k epoll_ctl \<Rightarrow> int \<Rightarrow> u64 \<Rightarrow> ptr \<Rightarrow> bool \<Rightarrow> fptr \<Rightarrow> bool \<Rightarrow> int \<Rightarrow> u64 \<Rightarrow> nat \<Rightarrow> int \<Rightarrow> int
     \<Rightarrow> ('u, 'k) hook_state \<Rightarrow> (hook_error, io_phase \<times> ('u, 'k) hook_state) result" where
  "connect_enter sys ctl wrote now a has_iom f hook_enable fd timeout_ms t n e st =
     (if \<not> hook_enable then Inr (Direct, st)
      else rbind (lift_err HookFd (get_fd sys fd False (hs_fds st) (io_kernel (hs_io st)))) (\<lambda>(ctx, _, _).
        case ctx of
          None \<Rightarrow> Inr (Returned (- 1), st\<lparr>hs_errno := EBADF\<rparr>)
        | Some c \<Rightarrow>
            if m_isClosed c then Inr (Returned (- 1), st\<lparr>hs_errno := EBADF\<rparr>)
            else if \<not> m_isSocket c then Inr (Direct, st)
            else if m_userNonblock c then Inr (Direct, st)
            else let st1 = (if n = - 1 then st\<lparr>hs_errno := e\<rparr> else st) in
              if n = 0 then Inr (Returned 0, st1)
              else if n \<noteq> - 1 \<or> e \<noteq> EINPROGRESS then Inr (Returned n, st1)
              else if \<not> has_iom then Inl NoIOManager
              else rbind (arm_timeout wrote now a timeout_ms t fd WRITE (st1\<lparr>hs_tinfo := (hs_tinfo st1)(t \<mapsto> 0)\<rparr>)) (\<lambda>(timer, st2).
                rbind (lift_err HookIo (addEvent ctl (Some 0) f EXEC fd WRITE None (hs_io st2))) (\<lambda>(rt, io).
                  let st3 = st2\<lparr>hs_io := io\<rparr> in
                  if rt = 0 then Inr (Suspended timer timeout_ms t, st3)
                  else rbind (disarm timer st3) (\<lambda>st4. Inr (Calling timeout_ms t, st4))))))"

definition connect_resume :: "ptr option \<Rightarrow> u64 \<Rightarrow> nat \<Rightarrow> ('u, 'k) hook_state \<Rightarrow> (hook_error, io_phase \<times> ('u, 'k) hook_state) result" where
  "connect_resume timer to t st =
     rbind (disarm timer st) (\<lambda>st1.
       case hs_tinfo st1 t of
         Some c \<Rightarrow> if c \<noteq> 0 then Inr (Returned (- 1), drop_tinfo t (st1\<lparr>hs_errno := c\<rparr>)) else Inr (Calling to t, st1)
       | None \<Rightarrow> Inr (Calling to t, st1))"

text \<open>The end: \<open>rc\<close> and \<open>err\<close> are what getsockopt(SO_ERROR) returned and stored, \<open>e\<close> its errno.\<close>

definition connect_finish :: "int \<Rightarrow> int \<Rightarrow> int \<Rightarrow> nat \<Rightarrow> ('u, 'k) hook_state \<Rightarrow> io_phase \<times> ('u, 'k) hook_state" where
  "connect_finish rc e err t st =
     (let st1 = drop_tinfo t st in
      if rc = - 1 then (Returned (- 1), st1\<lparr>hs_errno := e\<rparr>)
      else if err = 0 then (Returned 0, st1)
      else (Returned (- 1), st1\<lparr>hs_errno := err\<rparr>))"

section \<open>Sleeping\<close>

text \<open>
  The three sleeping calls start a timer that schedules the current fiber and yield. \<open>None\<close> is the call of
  the original function; the products are computed in the C types of the parameters.
\<close>

definition sleep_for ::
  "int \<Rightarrow> u64 \<Rightarrow> ptr \<Rightarrow> bool \<Rightarrow> fptr \<Rightarrow> bool \<Rightarrow> u64 \<Rightarrow> ('u, 'k) hook_state
     \<Rightarrow> (hook_error, ('u, 'k) hook_state option) result" where
  "sleep_for wrote now a has_iom f hook_enable ms st =
     (if \<not> hook_enable then Inr None
      else if \<not> has_iom then Inl NoIOManager
      else rbind (lift_err HookIo (iom_addTimer wrote now a ms (Plain (ScheduleFiber f)) (hs_io st)))
             (\<lambda>io. Inr (Some (st\<lparr>hs_io := io\<rparr>))))"

definition sleep_ms :: "u32 \<Rightarrow> u64" where
  "sleep_ms seconds = ucast (seconds * 1000)"

definition usleep_ms :: "u32 \<Rightarrow> u64" where
  "usleep_ms usec = ucast (usec div 1000)"

text \<open>\<open>tv_sec\<close> and \<open>tv_nsec\<close> are 64-bit; the sum is stored in an int and then converted to uint64_t.\<close>

definition nanosleep_ms :: "i64 \<Rightarrow> i64 \<Rightarrow> u64" where
  "nanosleep_ms tv_sec tv_nsec = scast (ucast (tv_sec * 1000 + word_of_int ((sint tv_nsec sdiv 1000) sdiv 1000)) :: i32)"

definition sleep :: "int \<Rightarrow> u64 \<Rightarrow> ptr \<Rightarrow> bool \<Rightarrow> fptr \<Rightarrow> bool \<Rightarrow> u32 \<Rightarrow> ('u, 'k) hook_state \<Rightarrow> (hook_error, ('u, 'k) hook_state option) result" where
  "sleep wrote now a has_iom f hook_enable seconds st = sleep_for wrote now a has_iom f hook_enable (sleep_ms seconds) st"

definition usleep :: "int \<Rightarrow> u64 \<Rightarrow> ptr \<Rightarrow> bool \<Rightarrow> fptr \<Rightarrow> bool \<Rightarrow> u32 \<Rightarrow> ('u, 'k) hook_state \<Rightarrow> (hook_error, ('u, 'k) hook_state option) result" where
  "usleep wrote now a has_iom f hook_enable usec st = sleep_for wrote now a has_iom f hook_enable (usleep_ms usec) st"

definition nanosleep :: "int \<Rightarrow> u64 \<Rightarrow> ptr \<Rightarrow> bool \<Rightarrow> fptr \<Rightarrow> bool \<Rightarrow> i64 \<Rightarrow> i64 \<Rightarrow> ('u, 'k) hook_state \<Rightarrow> (hook_error, ('u, 'k) hook_state option) result" where
  "nanosleep wrote now a has_iom f hook_enable tv_sec tv_nsec st =
     sleep_for wrote now a has_iom f hook_enable (nanosleep_ms tv_sec tv_nsec) st"

section \<open>The hooked functions\<close>

text \<open>Which event and which timeout the input and output functions hand to do_io.\<close>

datatype io_fun = Accept | Read | Readv | Recv | Recvfrom | Recvmsg | Write | Writev | Send | Sendto | Sendmsg

fun io_args :: "io_fun \<Rightarrow> events \<times> int" where
  "io_args Accept = (READ, SO_RCVTIMEO)"
| "io_args Read = (READ, SO_RCVTIMEO)"
| "io_args Readv = (READ, SO_RCVTIMEO)"
| "io_args Recv = (READ, SO_RCVTIMEO)"
| "io_args Recvfrom = (READ, SO_RCVTIMEO)"
| "io_args Recvmsg = (READ, SO_RCVTIMEO)"
| "io_args Write = (WRITE, SO_SNDTIMEO)"
| "io_args Writev = (WRITE, SO_SNDTIMEO)"
| "io_args Send = (WRITE, SO_SNDTIMEO)"
| "io_args Sendto = (WRITE, SO_SNDTIMEO)"
| "io_args Sendmsg = (WRITE, SO_SNDTIMEO)"

definition hook_kernel :: "'k \<Rightarrow> ('u, 'k) hook_state \<Rightarrow> ('u, 'k) hook_state" where
  "hook_kernel k st = st\<lparr>hs_io := hs_io st\<lparr>io_kernel := k\<rparr>\<rparr>"

text \<open>Creating the context of a new descriptor: FdMgr::GetInstance()->get(fd, true).\<close>

definition track_fd :: "'k sys \<Rightarrow> int \<Rightarrow> ('u, 'k) hook_state \<Rightarrow> (hook_error, ('u, 'k) hook_state) result" where
  "track_fd sys fd st =
     rbind (lift_err HookFd (get_fd sys fd True (hs_fds st) (io_kernel (hs_io st))))
       (\<lambda>(_, fds, k). Inr (hook_kernel k (st\<lparr>hs_fds := fds\<rparr>)))"

definition socket :: "'k sys \<Rightarrow> bool \<Rightarrow> ('u, 'k) hook_state \<Rightarrow> (hook_error, int \<times> ('u, 'k) hook_state) result" where
  "socket sys hook_enable st =
     (let (fd, k) = sys_socket sys (io_kernel (hs_io st)); st1 = hook_kernel k st in
      if \<not> hook_enable then Inr (fd, st1)
      else if fd = - 1 then Inr (fd, st1)
      else rbind (track_fd sys fd st1) (\<lambda>st2. Inr (fd, st2)))"

text \<open>The end of accept, \<open>fd\<close> being the result of do_io.\<close>

definition accept_done :: "'k sys \<Rightarrow> int \<Rightarrow> ('u, 'k) hook_state \<Rightarrow> (hook_error, int \<times> ('u, 'k) hook_state) result" where
  "accept_done sys fd st = (if fd \<ge> 0 then rbind (track_fd sys fd st) (\<lambda>st1. Inr (fd, st1)) else Inr (fd, st))"

definition close_fd :: "'k sys \<Rightarrow> 'k epoll_ctl \<Rightarrow> bool \<Rightarrow> bool \<Rightarrow> int \<Rightarrow> ('u, 'k) hook_state \<Rightarrow> (hook_error, i32 \<times> ('u, 'k) hook_state) result" where
  "close_fd sys ctl has_iom hook_enable fd st =
     (let fin = (\<lambda>st1. let (r, k) = sys_close sys fd (io_kernel (hs_io st1)) in Inr (r, hook_kernel k st1)) in
      if \<not> hook_enable then fin st
      else rbind (lift_err HookFd (get_fd sys fd False (hs_fds st) (io_kernel (hs_io st)))) (\<lambda>(ctx, _, _).
        if ctx \<noteq> None then
          rbind (if has_iom then rbind (lift_err HookIo (cancelAll ctl fd (hs_io st))) (\<lambda>(_, io). Inr (st\<lparr>hs_io := io\<rparr>)) else Inr st)
            (\<lambda>st1. rbind (lift_err HookFd (del_fd fd (hs_fds st1))) (\<lambda>fds. fin (st1\<lparr>hs_fds := fds\<rparr>)))
        else fin st))"

definition pass_fcntl :: "'k sys \<Rightarrow> int \<Rightarrow> fcntl_cmd \<Rightarrow> i32 option \<Rightarrow> ('u, 'k) hook_state \<Rightarrow> (hook_error, i32 \<times> ('u, 'k) hook_state) result" where
  "pass_fcntl sys fd cmd arg st =
     (let (r, k) = sys_fcntl sys fd cmd arg (io_kernel (hs_io st)) in Inr (r, hook_kernel k st))"

definition with_arg :: "fcntl_cmd \<Rightarrow> bool" where
  "with_arg cmd \<longleftrightarrow> cmd \<in> {F_DUPFD, F_DUPFD_CLOEXEC, F_SETFD, F_SETOWN, F_SETSIG, F_SETLEASE, F_NOTIFY, F_SETPIPE_SZ,
     F_SETLK, F_SETLKW, F_GETLK, F_GETOWN_EX, F_SETOWN_EX}"

text \<open>Pointer arguments are passed on as they are, like integers; the default case passes no argument.\<close>

definition fcntl :: "'k sys \<Rightarrow> int \<Rightarrow> fcntl_cmd \<Rightarrow> i32 \<Rightarrow> ('u, 'k) hook_state \<Rightarrow> (hook_error, i32 \<times> ('u, 'k) hook_state) result" where
  "fcntl sys fd cmd arg st =
     (if cmd = F_SETFL then
        rbind (lift_err HookFd (get_fd sys fd False (hs_fds st) (io_kernel (hs_io st)))) (\<lambda>(ctx, _, _).
          case ctx of
            None \<Rightarrow> pass_fcntl sys fd cmd (Some arg) st
          | Some c \<Rightarrow>
              if m_isClosed c \<or> \<not> m_isSocket c then pass_fcntl sys fd cmd (Some arg) st
              else let c1 = c\<lparr>m_userNonblock := (arg AND O_NONBLOCK \<noteq> 0)\<rparr>;
                       arg1 = (if m_sysNonblock c1 then arg OR O_NONBLOCK else arg AND NOT O_NONBLOCK)
                   in pass_fcntl sys fd cmd (Some arg1) (st\<lparr>hs_fds := (hs_fds st)[nat fd := Some c1]\<rparr>))
      else if cmd = F_GETFL then
        rbind (pass_fcntl sys fd cmd None st) (\<lambda>(r, st1).
          rbind (lift_err HookFd (get_fd sys fd False (hs_fds st1) (io_kernel (hs_io st1)))) (\<lambda>(ctx, _, _).
            case ctx of
              None \<Rightarrow> Inr (r, st1)
            | Some c \<Rightarrow>
                if m_isClosed c \<or> \<not> m_isSocket c then Inr (r, st1)
                else if m_userNonblock c then Inr (r OR O_NONBLOCK, st1)
                else Inr (r AND NOT O_NONBLOCK, st1)))
      else if with_arg cmd then pass_fcntl sys fd cmd (Some arg) st
      else pass_fcntl sys fd cmd None st)"

text \<open>The request FIONBIO; \<open>v\<close> is the int the argument points to. Other requests are passed on unchanged.\<close>

definition ioctl_fionbio :: "'k sys \<Rightarrow> int \<Rightarrow> i32 \<Rightarrow> ('u, 'k) hook_state \<Rightarrow> (hook_error, i32 \<times> ('u, 'k) hook_state) result" where
  "ioctl_fionbio sys fd v st =
     (let pass = (\<lambda>st1. let (r, k) = sys_fionbio sys fd (v \<noteq> 0) (io_kernel (hs_io st1)) in Inr (r, hook_kernel k st1)) in
      rbind (lift_err HookFd (get_fd sys fd False (hs_fds st) (io_kernel (hs_io st)))) (\<lambda>(ctx, _, _).
        case ctx of
          None \<Rightarrow> pass st
        | Some c \<Rightarrow>
            if m_isClosed c \<or> \<not> m_isSocket c then pass st
            else pass (st\<lparr>hs_fds := (hs_fds st)[nat fd := Some (c\<lparr>m_userNonblock := (v \<noteq> 0)\<rparr>)]\<rparr>)))"

text \<open>\<open>tv_sec\<close> and \<open>tv_usec\<close> are the timeval behind optval, which the code reads only for the two timeouts.\<close>

definition timeval_ms :: "i64 \<Rightarrow> i64 \<Rightarrow> u64" where
  "timeval_ms tv_sec tv_usec = tv_sec * 1000 + word_of_int (sint tv_usec sdiv 1000)"

definition setsockopt ::
  "'k sys \<Rightarrow> bool \<Rightarrow> int \<Rightarrow> int \<Rightarrow> int \<Rightarrow> i64 \<Rightarrow> i64 \<Rightarrow> ('u, 'k) hook_state \<Rightarrow> (hook_error, i32 \<times> ('u, 'k) hook_state) result" where
  "setsockopt sys hook_enable fd level optname tv_sec tv_usec st =
     (let pass = (\<lambda>st1. let (r, k) = sys_setsockopt sys fd level optname (io_kernel (hs_io st1)) in Inr (r, hook_kernel k st1)) in
      if \<not> hook_enable then pass st
      else if level = SOL_SOCKET \<and> (optname = SO_RCVTIMEO \<or> optname = SO_SNDTIMEO) then
        rbind (lift_err HookFd (get_fd sys fd False (hs_fds st) (io_kernel (hs_io st)))) (\<lambda>(ctx, _, _).
          case ctx of
            None \<Rightarrow> pass st
          | Some c \<Rightarrow> pass (st\<lparr>hs_fds := (hs_fds st)[nat fd := Some (setTimeout optname (timeval_ms tv_sec tv_usec) c)]\<rparr>))
      else pass st)"

section \<open>Flags: what the user sees and what the kernel has\<close>

lemma hook_kernel_simps [simp]:
  "hs_fds (hook_kernel k st) = hs_fds st" "io_kernel (hs_io (hook_kernel k st)) = k"
  "m_fdContexts (hs_io (hook_kernel k st)) = m_fdContexts (hs_io st)" "hs_tinfo (hook_kernel k st) = hs_tinfo st"
  by (simp_all add: hook_kernel_def)

lemma O_NONBLOCK_set: "(r OR O_NONBLOCK) AND O_NONBLOCK = O_NONBLOCK" "(r AND NOT O_NONBLOCK) AND O_NONBLOCK = 0" for r :: i32
  by (rule bit_word_eqI; auto simp: bit_simps)+

text \<open>The state of the hooks is sound: the table is well-formed and its sockets are nonblocking in the kernel.\<close>

definition hook_ok :: "('k \<Rightarrow> int \<Rightarrow> bool) \<Rightarrow> ('u, 'k) hook_state \<Rightarrow> bool" where
  "hook_ok nonblock st \<longleftrightarrow> fd_inv (hs_fds st) \<and> sockets_nonblock nonblock (hs_fds st) (io_kernel (hs_io st))"

lemma hook_okI:
  assumes "hook_ok nonblock st" "0 \<le> fd" "fd_inv fds"
    and "\<And>fd'. fd' \<noteq> fd \<Longrightarrow> fd_lookup fd' fds = fd_lookup fd' (hs_fds st) \<and> nonblock k fd' = nonblock (io_kernel (hs_io st)) fd'"
    and "\<And>c. fd_lookup fd fds = Some c \<Longrightarrow> m_isSocket c \<Longrightarrow> nonblock k fd"
  shows "hook_ok nonblock (hook_kernel k (st\<lparr>hs_fds := fds\<rparr>))"
  using assms unfolding hook_ok_def sockets_nonblock_lookup by (auto, metis)

lemma track_fd_ok:
  assumes "hook_ok nonblock st" "flags_law sys nonblock" "0 \<le> fd"
  shows "\<exists>st'. track_fd sys fd st = Inr st' \<and> hook_ok nonblock st' \<and> hs_io st' = hs_io st\<lparr>io_kernel := io_kernel (hs_io st')\<rparr>
    \<and> fd_lookup fd (hs_fds st') \<noteq> None"
  using get_fd_create [of "hs_fds st" nonblock "io_kernel (hs_io st)" fd sys] assms
  by (auto simp: track_fd_def hook_ok_def hook_kernel_def)

lemma triggerEvent_kernel: "triggerEvent i e io = Inr io' \<Longrightarrow> io_kernel io' = io_kernel io"
  by (auto simp: triggerEvent_def Let_def rbind_eq_Inr_iff schedule_on_def put_ctx_def split: if_splits option.splits)

lemma trigger_if_kernel: "trigger_if evs i e io = Inr io' \<Longrightarrow> io_kernel io' = io_kernel io"
  by (auto simp: trigger_if_def rbind_eq_Inr_iff triggerEvent_kernel split: if_splits)

text \<open>epoll_ctl does not touch the file status flags.\<close>

definition ctl_neutral :: "('k \<Rightarrow> int \<Rightarrow> bool) \<Rightarrow> 'k epoll_ctl \<Rightarrow> bool" where
  "ctl_neutral nonblock ctl \<longleftrightarrow> (\<forall>op fd ev k. nonblock (snd (ctl op fd ev k)) = nonblock k)"

lemma cancelAll_kernel:
  assumes "cancelAll ctl fd io = Inr (r, io')" "ctl_neutral nonblock ctl"
  shows "nonblock (io_kernel io') = nonblock (io_kernel io)"
proof -
  obtain failed kn where c: "ctl EPOLL_CTL_DEL fd 0 (io_kernel io) = (failed, kn)" by fastforce
  then have "nonblock kn = nonblock (io_kernel io)" using assms(2) unfolding ctl_neutral_def by (metis snd_conv)
  then show ?thesis using assms(1) c
    by (auto simp: cancelAll_def Let_def rbind_eq_Inr_iff split: if_splits dest!: trigger_if_kernel)
qed

text \<open>The calls that change flags, timeouts or the table.\<close>

datatype hook_call = Socket | Accepted int | Close int | SetFl int i32 | GetFl int | SetTimeo int int i64 i64

fun hook_exec :: "'k sys \<Rightarrow> 'k epoll_ctl \<Rightarrow> bool \<Rightarrow> hook_call \<Rightarrow> ('u, 'k) hook_state \<Rightarrow> (hook_error, int \<times> ('u, 'k) hook_state) result" where
  "hook_exec sys ctl has_iom Socket st = socket sys True st"
| "hook_exec sys ctl has_iom (Accepted fd) st = accept_done sys fd st"
| "hook_exec sys ctl has_iom (Close fd) st = rbind (close_fd sys ctl has_iom True fd st) (\<lambda>(r, st'). Inr (sint r, st'))"
| "hook_exec sys ctl has_iom (SetFl fd arg) st = rbind (fcntl sys fd F_SETFL arg st) (\<lambda>(r, st'). Inr (sint r, st'))"
| "hook_exec sys ctl has_iom (GetFl fd) st = rbind (fcntl sys fd F_GETFL 0 st) (\<lambda>(r, st'). Inr (sint r, st'))"
| "hook_exec sys ctl has_iom (SetTimeo fd opt s us) st = rbind (setsockopt sys True fd SOL_SOCKET opt s us st) (\<lambda>(r, st'). Inr (sint r, st'))"

text \<open>
  Descriptors passed in are not negative, and the kernel never hands out a descriptor that is in use:
  while every close goes through the hook, those of the table are in use.
\<close>

fun hook_call_ok :: "'k sys \<Rightarrow> hook_call \<Rightarrow> ('u, 'k) hook_state \<Rightarrow> bool" where
  "hook_call_ok sys Socket st \<longleftrightarrow> fd_lookup (fst (sys_socket sys (io_kernel (hs_io st)))) (hs_fds st) = None"
| "hook_call_ok sys (Accepted fd) st \<longleftrightarrow> fd_lookup fd (hs_fds st) = None"
| "hook_call_ok sys (Close fd) st \<longleftrightarrow> 0 \<le> fd"
| "hook_call_ok sys (SetFl fd arg) st \<longleftrightarrow> 0 \<le> fd"
| "hook_call_ok sys (GetFl fd) st \<longleftrightarrow> 0 \<le> fd"
| "hook_call_ok sys (SetTimeo fd opt s us) st \<longleftrightarrow> 0 \<le> fd"

text \<open>socket(2) returns -1 or a descriptor.\<close>

definition socket_law :: "'k sys \<Rightarrow> bool" where
  "socket_law sys \<longleftrightarrow> (\<forall>k. - 1 \<le> fst (sys_socket sys k))"

inductive hook_reach :: "'k sys \<Rightarrow> 'k epoll_ctl \<Rightarrow> ('u, 'k) hook_state \<Rightarrow> ('u, 'k) hook_state \<Rightarrow> bool" for sys ctl st0 where
  hook_start: "hook_reach sys ctl st0 st0"
| hook_next: "hook_reach sys ctl st0 st \<Longrightarrow> hook_call_ok sys c st \<Longrightarrow> hook_exec sys ctl has_iom c st = Inr (r, st') \<Longrightarrow> hook_reach sys ctl st0 st'"

lemma socket_hook_ok:
  assumes "hook_ok nonblock st" "flags_law sys nonblock" "socket_law sys" "fd_lookup (fst (sys_socket sys (io_kernel (hs_io st)))) (hs_fds st) = None"
  shows "\<exists>fd st'. socket sys True st = Inr (fd, st') \<and> hook_ok nonblock st'"
proof -
  obtain fd k where s: "sys_socket sys (io_kernel (hs_io st)) = (fd, k)" by fastforce
  have n: "nonblock k fd' = nonblock (io_kernel (hs_io st)) fd'" if "fd' \<noteq> fd" for fd'
    using assms(2) s that unfolding flags_law_def by (metis fst_conv snd_conv)
  have ok: "hook_ok nonblock (hook_kernel k st)"
    using assms(1,4) n s unfolding hook_ok_def sockets_nonblock_lookup
    by (metis fst_conv hook_kernel_simps(1,2) option.distinct(1))
  have "fd = - 1 \<or> 0 \<le> fd" using assms(3) s unfolding socket_law_def by (smt (verit, best) fst_conv)
  then show ?thesis using ok track_fd_ok [OF ok assms(2), of fd] s by (auto simp: socket_def Let_def)
qed

lemma close_hook_ok:
  assumes "hook_ok nonblock st" "flags_law sys nonblock" "0 \<le> fd" "ctl_neutral nonblock ctl"
    and "close_fd sys ctl has_iom True fd st = Inr (r, st')"
  shows "hook_ok nonblock st'" "fd_lookup fd (hs_fds st') = None"
proof -
  have cl: "nonblock (snd (sys_close sys fd k)) fd' = nonblock k fd'" if "fd' \<noteq> fd" for k fd'
    using assms(2) that unfolding flags_law_def by blast
  define io where "io = (if fd_lookup fd (hs_fds st) \<noteq> None \<and> has_iom then case cancelAll ctl fd (hs_io st) of Inr (_, io) \<Rightarrow> io | _ \<Rightarrow> hs_io st else hs_io st)"
  obtain fds where d: "del_fd fd (hs_fds st) = Inr fds" "fd_inv fds" "\<And>fd'. fd_lookup fd' fds = (if fd' = fd then None else fd_lookup fd' (hs_fds st))"
    using del_fd_ok [of "hs_fds st" fd] assms(1,3) by (auto simp: hook_ok_def)
  have io: "nonblock (io_kernel io) = nonblock (io_kernel (hs_io st))"
    using cancelAll_kernel [of ctl fd "hs_io st" _ _ nonblock] assms(4) by (auto simp: io_def split: sum.splits)
  have st': "io_kernel (hs_io st') = snd (sys_close sys fd (io_kernel io))"
    "hs_fds st' = (if fd_lookup fd (hs_fds st) \<noteq> None then fds else hs_fds st)"
    using assms(3,5) d(1) by (cases "cancelAll ctl fd (hs_io st)"; auto simp: close_fd_def Let_def get_fd_plain io_def case_prod_unfold
        split: if_splits)+
  have k: "nonblock (io_kernel (hs_io st')) fd' = nonblock (io_kernel (hs_io st)) fd'" if "fd' \<noteq> fd" for fd'
    using that cl io by (simp add: st'(1))
  have l: "fd_lookup fd' (hs_fds st') = (if fd' = fd then None else fd_lookup fd' (hs_fds st))" for fd'
    using d(3) by (simp add: st'(2))
  show "fd_lookup fd (hs_fds st') = None" by (simp add: l)
  have "fd_inv (hs_fds st')" using d(2) assms(1) by (simp add: st'(2) hook_ok_def)
  then show "hook_ok nonblock st'" using assms(1) k l by (auto simp: hook_ok_def sockets_nonblock_lookup split: if_splits)
qed

lemma fcntl_setfl_eq:
  assumes "hook_ok nonblock st" "0 \<le> fd"
  shows "fd_lookup fd (hs_fds st) = Some c \<Longrightarrow> m_isSocket c \<Longrightarrow> fcntl sys fd F_SETFL arg st =
      (let (r, k) = sys_fcntl sys fd F_SETFL (Some (arg OR O_NONBLOCK)) (io_kernel (hs_io st))
       in Inr (r, hook_kernel k (st\<lparr>hs_fds := (hs_fds st)[nat fd := Some (c\<lparr>m_userNonblock := (arg AND O_NONBLOCK \<noteq> 0)\<rparr>)]\<rparr>)))"
    and "\<nexists>c. fd_lookup fd (hs_fds st) = Some c \<and> m_isSocket c \<Longrightarrow> fcntl sys fd F_SETFL arg st =
      (let (r, k) = sys_fcntl sys fd F_SETFL (Some arg) (io_kernel (hs_io st)) in Inr (r, hook_kernel k st))"
  using assms fd_inv_lookup [of "hs_fds st" fd]
  by (auto simp: fcntl_def get_fd_plain pass_fcntl_def hook_ok_def fd_ctx_ok_def Let_def split: option.splits)

lemma fcntl_setfl:
  assumes "hook_ok nonblock st" "flags_law sys nonblock" "0 \<le> fd" "fcntl sys fd F_SETFL arg st = Inr (r, st')"
  shows "hook_ok nonblock st'"
    "fd_lookup fd (hs_fds st) = Some c \<Longrightarrow> m_isSocket c \<Longrightarrow>
       fd_lookup fd (hs_fds st') = Some (c\<lparr>m_userNonblock := (arg AND O_NONBLOCK \<noteq> 0)\<rparr>)"
proof -
  have s: "nonblock (snd (sys_fcntl sys fd F_SETFL (Some a) k)) = (nonblock k)(fd := (a AND O_NONBLOCK \<noteq> 0))" for a k
    using assms(2) unfolding flags_law_def by blast
  note eq = fcntl_setfl_eq [OF assms(1,3), where sys = sys and arg = arg]
  show "fd_lookup fd (hs_fds st') = Some (c\<lparr>m_userNonblock := (arg AND O_NONBLOCK \<noteq> 0)\<rparr>)"
    if c: "fd_lookup fd (hs_fds st) = Some c" "m_isSocket c" for c
    using eq(1) [OF c] assms(3,4) c(1) by (auto simp: fd_lookup_set fd_lookup_iff split: prod.splits)
  show "hook_ok nonblock st'"
  proof (cases "\<exists>c. fd_lookup fd (hs_fds st) = Some c \<and> m_isSocket c")
    case True
    then obtain c where c: "fd_lookup fd (hs_fds st) = Some c" "m_isSocket c" by blast
    have ok: "fd_ctx_ok fd c" using fd_inv_lookup [OF _ c(1)] assms(1) by (simp add: hook_ok_def)
    let ?c = "c\<lparr>m_userNonblock := (arg AND O_NONBLOCK \<noteq> 0)\<rparr>"
    let ?k = "snd (sys_fcntl sys fd F_SETFL (Some (arg OR O_NONBLOCK)) (io_kernel (hs_io st)))"
    have st': "st' = hook_kernel ?k (st\<lparr>hs_fds := (hs_fds st)[nat fd := Some ?c]\<rparr>)"
      using eq(1) [OF c] assms(4) by (auto split: prod.splits)
    have "nonblock ?k = (nonblock (io_kernel (hs_io st)))(fd := True)" using s [of "arg OR O_NONBLOCK"] by (simp add: O_NONBLOCK_set)
    moreover have "fd_inv ((hs_fds st)[nat fd := Some ?c])"
      by (rule fd_inv_set) (use assms(1,3) ok in \<open>auto simp: hook_ok_def fd_ctx_ok_def\<close>)
    ultimately show ?thesis
      unfolding st' using assms(1,3) c(1) by (intro hook_okI [where fd = fd]) (auto simp: fd_lookup_set fd_lookup_iff)
  next
    case False
    then have st': "st' = hook_kernel (snd (sys_fcntl sys fd F_SETFL (Some arg) (io_kernel (hs_io st)))) (st\<lparr>hs_fds := hs_fds st\<rparr>)"
      using eq(2) assms(4) by (auto split: prod.splits)
    show ?thesis unfolding st'
      using assms(1,3) False s [of arg] by (intro hook_okI [where fd = fd]) (auto simp: hook_ok_def)
  qed
qed

lemma fcntl_getfl:
  assumes "hook_ok nonblock st" "flags_law sys nonblock" "0 \<le> fd"
  shows "\<exists>r st'. fcntl sys fd F_GETFL arg st = Inr (r, st') \<and> hook_ok nonblock st' \<and> hs_fds st' = hs_fds st
    \<and> (\<forall>c. fd_lookup fd (hs_fds st) = Some c \<longrightarrow> m_isSocket c \<longrightarrow> r AND O_NONBLOCK = (if m_userNonblock c then O_NONBLOCK else 0))
    \<and> (fd_lookup fd (hs_fds st) = None \<longrightarrow> r AND O_NONBLOCK = (if nonblock (io_kernel (hs_io st)) fd then O_NONBLOCK else 0))"
proof -
  obtain r k where g: "sys_fcntl sys fd F_GETFL None (io_kernel (hs_io st)) = (r, k)" by fastforce
  have n: "r AND O_NONBLOCK = (if nonblock (io_kernel (hs_io st)) fd then O_NONBLOCK else 0)" "nonblock k = nonblock (io_kernel (hs_io st))"
    using assms(2) g unfolding flags_law_def by (metis fst_conv, metis snd_conv)
  have "hook_ok nonblock (hook_kernel k st)" using assms(1) n(2) by (simp add: hook_ok_def sockets_nonblock_def)
  then show ?thesis using assms(1,3) n(1) g fd_inv_lookup [of "hs_fds st" fd]
    by (cases "fd_lookup fd (hs_fds st)")
      (auto simp: fcntl_def pass_fcntl_def get_fd_plain O_NONBLOCK_set O_NONBLOCK_set(2) [simplified] hook_ok_def fd_ctx_ok_def Let_def)
qed

lemma setsockopt_hook_ok:
  assumes "hook_ok nonblock st" "flags_law sys nonblock" "0 \<le> fd"
  shows "\<exists>r st'. setsockopt sys True fd level opt tv_s tv_us st = Inr (r, st') \<and> hook_ok nonblock st'"
proof -
  have k: "nonblock (snd (sys_setsockopt sys fd level opt k)) = nonblock k" for k
    using assms(2) unfolding flags_law_def by blast
  have keep: "hook_ok nonblock (hook_kernel (snd (sys_setsockopt sys fd level opt (io_kernel (hs_io st)))) st)"
    using assms(1) k by (simp add: hook_ok_def sockets_nonblock_def)
  have upd: "hook_ok nonblock (hook_kernel (snd (sys_setsockopt sys fd level opt (io_kernel (hs_io st))))
      (st\<lparr>hs_fds := (hs_fds st)[nat fd := Some (setTimeout opt v c)]\<rparr>))" if c: "fd_lookup fd (hs_fds st) = Some c" for c v
  proof (rule hook_okI [OF assms(1,3)])
    show "fd_inv ((hs_fds st)[nat fd := Some (setTimeout opt v c)])"
      by (rule fd_inv_set) (use assms(1,3) fd_inv_lookup [of "hs_fds st" fd c] c in \<open>auto simp: hook_ok_def fd_ctx_ok_def setTimeout_def\<close>)
    show "nonblock (snd (sys_setsockopt sys fd level opt (io_kernel (hs_io st)))) fd"
      if "fd_lookup fd ((hs_fds st)[nat fd := Some (setTimeout opt v c)]) = Some c'" "m_isSocket c'" for c'
      using that assms(1,3) c k by (auto simp: fd_lookup_set fd_lookup_iff hook_ok_def sockets_nonblock_lookup setTimeout_def split: if_splits)
  qed (use assms(3) c k in \<open>auto simp: fd_lookup_set fd_lookup_iff\<close>)
  show ?thesis using keep upd assms(3)
    by (cases "fd_lookup fd (hs_fds st)") (auto simp: setsockopt_def get_fd_plain Let_def case_prod_unfold)
qed

lemma hook_exec_ok:
  assumes "hook_ok nonblock st" "flags_law sys nonblock" "socket_law sys" "ctl_neutral nonblock ctl"
    and "hook_call_ok sys c st" "hook_exec sys ctl has_iom c st = Inr (r, st')"
  shows "hook_ok nonblock st'"
proof (cases c)
  case Socket
  then show ?thesis using socket_hook_ok [OF assms(1-3)] assms(5,6) by auto
next
  case (Accepted fd)
  then show ?thesis using track_fd_ok [OF assms(1,2), of fd] assms(1,6) by (auto simp: accept_done_def split: if_splits)
next
  case (Close fd)
  then obtain r1 where "close_fd sys ctl has_iom True fd st = Inr (r1, st')" "0 \<le> fd"
    using assms(5,6) by (auto simp: rbind_eq_Inr_iff)
  then show ?thesis using close_hook_ok(1) [OF assms(1,2) _ assms(4)] by blast
next
  case (SetFl fd arg)
  then obtain r1 where "fcntl sys fd F_SETFL arg st = Inr (r1, st')" "0 \<le> fd"
    using assms(5,6) by (auto simp: rbind_eq_Inr_iff)
  then show ?thesis using fcntl_setfl(1) [OF assms(1,2)] by blast
next
  case (GetFl fd)
  then show ?thesis using fcntl_getfl [OF assms(1,2), of fd 0] assms(5,6) by auto
next
  case (SetTimeo fd opt a b)
  then show ?thesis using setsockopt_hook_ok [OF assms(1,2), of fd SOL_SOCKET opt a b] assms(5,6) by auto
qed

lemma hook_reach_ok:
  assumes "hook_reach sys ctl st0 st" "hook_ok nonblock st0" "flags_law sys nonblock" "socket_law sys"
    and "ctl_neutral nonblock ctl"
  shows "hook_ok nonblock st"
  using assms(1,2)
proof (induction rule: hook_reach.induct)
  case (hook_next st c has_iom r st')
  then show ?case using hook_exec_ok [OF _ assms(3,4) _ hook_next.hyps(2,3)] assms(5) by blast
qed

text \<open>A kernel for examples: interest list, nonblocking bits, and the number of the next descriptor.\<close>

type_synonym demo_kernel = "(int \<Rightarrow> events option) \<times> (int \<Rightarrow> bool) \<times> int"

definition demo_fcntl :: "int \<Rightarrow> fcntl_cmd \<Rightarrow> i32 option \<Rightarrow> demo_kernel \<Rightarrow> i32 \<times> demo_kernel" where
  "demo_fcntl fd cmd arg k =
     (if cmd = F_GETFL then (if fst (snd k) fd then O_NONBLOCK else 0, k)
      else if cmd = F_SETFL then (0, fst k, (fst (snd k))(fd := (the arg AND O_NONBLOCK \<noteq> 0)), snd (snd k))
      else (0, k))"

definition demo_sys :: "demo_kernel sys" where
  "demo_sys =
     \<lparr>sys_fstat = (\<lambda>fd k. Some True), sys_fcntl = demo_fcntl,
      sys_fionbio = (\<lambda>fd b k. (0, fst k, (fst (snd k))(fd := b), snd (snd k))),
      sys_setsockopt = (\<lambda>fd lvl opt k. (0, k)),
      sys_socket = (\<lambda>k. (max 3 (snd (snd k)), fst k, (fst (snd k))(max 3 (snd (snd k)) := False), max 3 (snd (snd k)) + 1)),
      sys_close = (\<lambda>fd k. (0, k))\<rparr>"

definition demo_ctl :: "demo_kernel epoll_ctl" where
  "demo_ctl op fd ev k = (False, (fst k)(fd := (if op = EPOLL_CTL_DEL then None else Some ev)), snd k)"

definition demo_state :: "(nat, demo_kernel) hook_state" where
  "demo_state =
     \<lparr>hs_io = IOManager \<lparr>m_tasks = [], m_threads = [], m_threadIds = [], m_threadCount = 1, m_activeThreadCount = 0,
                        m_idleThreadCount = 0, m_stopping = False, m_autoStop = False, m_rootThread = - 1, m_rootFiber = None, tickles = 0\<rparr>
                0 (\<lambda>_. None, \<lambda>_. False, 3),
      hs_fds = FdManager, hs_tinfo = (\<lambda>_. None), hs_errno = 0\<rparr>"

lemma demo_laws: "flags_law demo_sys (\<lambda>k. fst (snd k))" "socket_law demo_sys"
  "epoll_law demo_ctl fst" "ctl_neutral (\<lambda>k. fst (snd k)) demo_ctl"
  by (auto simp: ctl_neutral_def flags_law_def socket_law_def epoll_law_def demo_sys_def demo_fcntl_def demo_ctl_def)


lemma demo_socket:
  "\<exists>st c. socket demo_sys True demo_state = Inr (3, st) \<and> fd_lookup 3 (hs_fds st) = Some c \<and> m_isSocket c"
  by (simp add: socket_def track_fd_def get_fd_def fd_create_def FdCtx_def FdCtx_init_def demo_sys_def demo_fcntl_def demo_state_def
      IOManager_def contextResize_def FdManager_def fd_lookup_def nth_list_update hook_kernel_def)


text \<open>The hook of ioctl lets the kernel's bit go. Clearing FIONBIO on a hooked socket records the wish of
  the user and passes the request on, so that the kernel socket becomes blocking although its context
  still says it is nonblocking; do_io then calls the original function, which blocks the whole thread.\<close>

theorem ioctl_clears_nonblock:
  assumes "flags_law sys nonblock" and "hook_ok nonblock st" and "fd_lookup fd (hs_fds st) = Some c" and "m_isSocket c"
  shows "\<exists>r st1 c1. ioctl_fionbio sys fd 0 st = Inr (r, st1) \<and> \<not> nonblock (io_kernel (hs_io st1)) fd
    \<and> fd_lookup fd (hs_fds st1) = Some c1 \<and> m_sysNonblock c1 \<and> \<not> m_userNonblock c1
    \<and> do_io_enter sys True fd so t st1 = Inr (Calling (getTimeout so c) t, st1\<lparr>hs_tinfo := (hs_tinfo st1)(t \<mapsto> 0)\<rparr>)"
proof -
  have fd: "0 \<le> fd" "nat fd < length (hs_fds st)" using assms(3) by (simp_all add: fd_lookup_iff)
  have ok: "fd_ctx_ok fd c" using fd_inv_lookup [OF _ assms(3)] assms(2) by (simp add: hook_ok_def)
  have k: "\<not> nonblock (snd (sys_fionbio sys fd False k)) fd" for k using assms(1) by (simp add: flags_law_def)
  let ?c = "c\<lparr>m_userNonblock := False\<rparr>"
  obtain r k where r: "sys_fionbio sys fd False (io_kernel (hs_io st)) = (r, k)" by fastforce
  define st1 where "st1 = hook_kernel k (st\<lparr>hs_fds := (hs_fds st)[nat fd := Some ?c]\<rparr>)"
  have "ioctl_fionbio sys fd 0 st = Inr (r, st1)"
    using assms(3,4) ok fd r by (simp add: ioctl_fionbio_def get_fd_plain fd_ctx_ok_def st1_def Let_def)
  moreover have l: "fd_lookup fd (hs_fds st1) = Some ?c" using fd by (simp add: st1_def fd_lookup_set)
  moreover have "do_io_enter sys True fd so t st1 = Inr (Calling (getTimeout so c) t, st1\<lparr>hs_tinfo := (hs_tinfo st1)(t \<mapsto> 0)\<rparr>)"
    using l ok assms(4) fd by (simp add: do_io_enter_def get_fd_plain fd_ctx_ok_def getTimeout_def)
  moreover have "\<not> nonblock (io_kernel (hs_io st1)) fd" using k [of "io_kernel (hs_io st)"] r by (simp add: st1_def)
  ultimately show ?thesis using ok assms(4) by (auto simp: fd_ctx_ok_def)
qed

theorem ioctl_clears_nonblock_witness:
  "\<exists>st r st1. socket demo_sys True demo_state = Inr (3, st) \<and> ioctl_fionbio demo_sys 3 0 st = Inr (r, st1)
    \<and> \<not> fst (snd (io_kernel (hs_io st1))) 3"
proof -
  obtain st c where st: "socket demo_sys True demo_state = Inr (3, st)" "fd_lookup 3 (hs_fds st) = Some c" "m_isSocket c"
    using demo_socket by blast
  have "hook_ok (\<lambda>k. fst (snd k)) demo_state" using fd_inv_FdManager by (simp add: hook_ok_def demo_state_def)
  then have "hook_ok (\<lambda>k. fst (snd k)) st"
    using socket_hook_ok [OF _ demo_laws(1,2), of demo_state] st(1)
    by (auto simp: demo_state_def FdManager_def fd_lookup_def)
  then show ?thesis using ioctl_clears_nonblock [OF demo_laws(1) _ st(2,3)] st(1) by blast
qed

end
