(* ===== verification/HookWait.thy ===== *)
theory HookWait
  imports Hook
begin

unbundle bit_operations_syntax

text \<open>
  Waiting in the hooks, across \<open>src/hook.cc\<close>, \<open>src/iomanager.cc\<close> and \<open>src/timer.cc\<close>: a suspended fiber is
  either registered for its event or has been handed to the scheduler, never both and never twice;
  a timeout ends the wait with ETIMEDOUT; a sleeping fiber is scheduled when its time has come.
\<close>

section \<open>Waiters are conserved\<close>

text \<open>How often a fiber was handed to a scheduler, and for how many events it is registered.\<close>

definition resumptions :: "fptr \<Rightarrow> ('c, 'k) io_manager \<Rightarrow> nat" where
  "resumptions f io = length (filter (\<lambda>t. tk_fiber t = Some f) (m_tasks (io_sched io) @ map snd (io_other io)))"

definition slot_count :: "fptr \<Rightarrow> 'c fd_context \<Rightarrow> nat" where
  "slot_count f ctx = of_bool (ec_fiber (fc_read ctx) = Some f) + of_bool (ec_fiber (fc_write ctx) = Some f)"

definition slots :: "fptr \<Rightarrow> ('c, 'k) io_manager \<Rightarrow> nat" where
  "slots f io = sum_list (map (slot_count f) (m_fdContexts io))"

definition tally :: "fptr \<Rightarrow> ('c, 'k) io_manager \<Rightarrow> nat" where
  "tally f io = resumptions f io + slots f io"

lemma sum_list_set_nat:
  "i < length xs \<Longrightarrow> sum_list (map f (xs[i := x])) + f (xs ! i) = sum_list (map f xs) + (f x :: nat)"
  by (induction xs arbitrary: i) (auto split: nat.splits)

lemma slots_put:
  "i < length (m_fdContexts io) \<Longrightarrow> slots f (put_ctx i c io) + slot_count f (m_fdContexts io ! i) = slots f io + slot_count f c"
  by (simp add: slots_def put_ctx_def sum_list_set_nat)

lemma resumptions_put [simp]: "resumptions f (put_ctx i c io) = resumptions f io"
  by (simp add: resumptions_def put_ctx_def)

lemma tally_simps [simp]: "tally f (dec_pending io) = tally f io" "tally f (io\<lparr>io_kernel := k\<rparr>) = tally f io"
    "tally f (io\<lparr>io_timers := tm\<rparr>) = tally f io"
  by (simp_all add: tally_def resumptions_def slots_def dec_pending_def)

lemma slot_count_cleared:
  assumes "ctx_ok ctx" "is_event e" "fc_events ctx AND e \<noteq> 0"
  shows "slot_count f (cleared e ctx) + of_bool (tk_fiber (waiter (ctx_of e ctx)) = Some f) = slot_count f ctx"
  using assms by (auto simp: is_event_def slot_count_def cleared_def putContext_def no_waiter_def waiter_def ctx_of_def
      Task_def ctx_ok_def waiter_ok_def)

lemma triggerEvent_tally:
  assumes "io_inv io" "i < length (m_fdContexts io)" "is_event e" "fc_events (m_fdContexts io ! i) AND e \<noteq> 0"
    and "triggerEvent i e io = Inr io'"
  shows "tally f io' = tally f io"
proof -
  let ?ctx = "m_fdContexts io ! i" and ?w = "waiter (ctx_of e (m_fdContexts io ! i))"
  have ok: "ctx_ok ?ctx" using io_inv_ctx assms(1,2) by blast
  let ?io1 = "put_ctx i (cleared e ?ctx) io"
  obtain sid where io': "io' = (if sid = 0 then ?io1\<lparr>io_sched := schedule ?w (io_sched ?io1)\<rparr> else ?io1\<lparr>io_other := io_other ?io1 @ [(sid, ?w)]\<rparr>)"
    using triggerEvent_ok [OF ok assms(3,4)] assms(5) by (auto simp: Let_def)
  have "tk_fiber ?w \<noteq> None \<or> tk_cb ?w \<noteq> None" using waiter_present [OF ok assms(3,4)] .
  then have "resumptions f io' = resumptions f io + of_bool (tk_fiber ?w = Some f)"
    by (auto simp: io' resumptions_def schedule_simps put_ctx_def)
  moreover have "slots f io' = slots f ?io1" by (simp add: io' slots_def)
  moreover have "slots f ?io1 + of_bool (tk_fiber ?w = Some f) = slots f io"
    using slots_put [OF assms(2), of f "cleared e ?ctx"] slot_count_cleared [OF ok assms(3,4), of f] by linarith
  ultimately show ?thesis by (simp add: tally_def)
qed

text \<open>A trigger that succeeds had its event registered; it keeps the invariant and the tally.\<close>

lemma trigger_if_tally:
  assumes "io_inv io" "i < length (m_fdContexts io)" "is_event e" "trigger_if evs i e io = Inr io'"
  shows "io_inv io' \<and> length (m_fdContexts io') = length (m_fdContexts io) \<and> tally f io' = tally f io"
proof (cases "evs AND e = 0")
  case True
  then show ?thesis using assms by (simp add: trigger_if_def)
next
  case False
  then obtain io1 where io1: "triggerEvent i e io = Inr io1" "io' = dec_pending io1"
    using assms(4) by (auto simp: trigger_if_def rbind_eq_Inr_iff)
  then have reg: "fc_events (m_fdContexts io ! i) AND e \<noteq> 0" by (auto simp: triggerEvent_def Let_def split: if_splits)
  show ?thesis using trigger_dec_inv [OF assms(1-3) reg] triggerEvent_tally [OF assms(1-3) reg io1(1), of f] io1 by auto
qed

lemma cancelEvent_tally:
  assumes "io_inv io" "0 \<le> fd" "is_event e" "cancelEvent ctl fd e io = Inr (r, io')"
  shows "tally f io' = tally f io"
proof (cases "int (length (m_fdContexts io)) \<le> fd \<or> fc_events (m_fdContexts io ! nat fd) AND e = 0")
  case True
  then show ?thesis using assms(2,4) by (auto simp: cancelEvent_def unregister_def Let_def split: if_splits)
next
  case False
  then have i: "nat fd < length (m_fdContexts io)" "fc_events (m_fdContexts io ! nat fd) AND e \<noteq> 0" using assms(2) by auto
  define new where "new = fc_events (m_fdContexts io ! nat fd) AND NOT e"
  obtain failed kn where ctl: "ctl (if new \<noteq> 0 then EPOLL_CTL_MOD else EPOLL_CTL_DEL) fd (EPOLLET OR new) (io_kernel io) = (failed, kn)"
    by fastforce
  have "cancelEvent ctl fd e io = (if failed then Inr (False, io\<lparr>io_kernel := kn\<rparr>)
      else rbind (triggerEvent (nat fd) e (io\<lparr>io_kernel := kn\<rparr>)) (\<lambda>io2. Inr (True, dec_pending io2)))"
    using False assms(2) ctl by (auto simp: cancelEvent_def unregister_def Let_def new_def)
  then have run: "(if failed then Inr (False, io\<lparr>io_kernel := kn\<rparr>)
      else rbind (triggerEvent (nat fd) e (io\<lparr>io_kernel := kn\<rparr>)) (\<lambda>io2. Inr (True, dec_pending io2))) = Inr (r, io')"
    using assms(4) by simp
  then show ?thesis using assms(1,3) i triggerEvent_tally [of "io\<lparr>io_kernel := kn\<rparr>" "nat fd" e _ f]
    by (auto simp: rbind_eq_Inr_iff split: if_splits)
qed

lemma cancelAll_tally:
  assumes "io_inv io" "0 \<le> fd" "cancelAll ctl fd io = Inr (r, io')"
  shows "tally f io' = tally f io"
proof (cases "int (length (m_fdContexts io)) \<le> fd \<or> fc_events (m_fdContexts io ! nat fd) = 0")
  case True
  then show ?thesis using assms by (auto simp: cancelAll_def Let_def split: if_splits)
next
  case False
  then have i: "nat fd < length (m_fdContexts io)" using assms(2) by auto
  obtain failed kn where ctl: "ctl EPOLL_CTL_DEL fd 0 (io_kernel io) = (failed, kn)" by fastforce
  show ?thesis
  proof (cases failed)
    case True
    then show ?thesis using False assms(2,3) ctl by (auto simp: cancelAll_def Let_def)
  next
    case ok: False
    obtain io2 where io2: "trigger_if (fc_events (m_fdContexts io ! nat fd)) (nat fd) READ (io\<lparr>io_kernel := kn\<rparr>) = Inr io2"
      "trigger_if (fc_events (m_fdContexts io2 ! nat fd)) (nat fd) WRITE io2 = Inr io'"
      using False ok assms(2,3) ctl by (auto simp: cancelAll_def Let_def rbind_eq_Inr_iff split: if_splits)
    then show ?thesis using trigger_if_tally [OF _ _ _ io2(1), of f] trigger_if_tally [OF _ _ _ io2(2), of f] assms(1) i by simp
  qed
qed

lemma process_event_tally:
  assumes "io_inv io" "i < length (m_fdContexts io)" "process_event ctl (i, reported) io = Inr io'"
  shows "tally f io' = tally f io"
proof -
  let ?ctx = "m_fdContexts io ! i"
  define real where "real = real_events (fc_events ?ctx) reported"
  define left where "left = fc_events ?ctx AND NOT real"
  obtain failed kn where ctl: "ctl (if left \<noteq> 0 then EPOLL_CTL_MOD else EPOLL_CTL_DEL) (fc_fd ?ctx) (EPOLLET OR left) (io_kernel io) = (failed, kn)"
    by fastforce
  have run: "process_event ctl (i, reported) io = (if fc_events ?ctx AND real = 0 then Inr io else if failed then Inr (io\<lparr>io_kernel := kn\<rparr>)
      else rbind (trigger_if real i READ (io\<lparr>io_kernel := kn\<rparr>)) (\<lambda>io2. trigger_if real i WRITE io2))"
    using ctl by (simp add: process_event_def Let_def real_def left_def)
  show ?thesis
  proof (cases "fc_events ?ctx AND real = 0 \<or> failed")
    case True
    then show ?thesis using run assms(3) by (auto split: if_splits)
  next
    case False
    then have "rbind (trigger_if real i READ (io\<lparr>io_kernel := kn\<rparr>)) (\<lambda>io2. trigger_if real i WRITE io2) = Inr io'"
      using run assms(3) by simp
    then obtain io2 where io2: "trigger_if real i READ (io\<lparr>io_kernel := kn\<rparr>) = Inr io2" "trigger_if real i WRITE io2 = Inr io'"
      by (auto simp: rbind_eq_Inr_iff)
    then show ?thesis using trigger_if_tally [OF _ _ _ io2(1), of f] trigger_if_tally [OF _ _ _ io2(2), of f] assms(1,2) by simp
  qed
qed

lemma addEvent_at_tally:
  assumes "i < length (m_fdContexts io)" "is_event e" "addEvent_at ctl cur g st i e cb io = Inr (r, io')"
  shows "tally f io' = tally f io + of_bool (r = 0 \<and> cb = None \<and> g = f)" "r = 0 \<or> r = - 1"
proof -
  let ?ctx = "m_fdContexts io ! i"
  let ?op = "if fc_events ?ctx \<noteq> 0 then EPOLL_CTL_MOD else EPOLL_CTL_ADD"
  obtain failed kn where ctl: "ctl ?op (int i) (EPOLLET OR fc_events ?ctx OR e) (io_kernel io) = (failed, kn)" by fastforce
  have "(tally f io' = tally f io + of_bool (r = 0 \<and> cb = None \<and> g = f)) \<and> (r = 0 \<or> r = - 1)"
  proof (cases failed)
    case True
    then show ?thesis using assms(3) ctl by (auto simp: addEvent_at_def Let_def split: if_splits)
  next
    case False
    let ?c = "?ctx\<lparr>fc_events := fc_events ?ctx OR e\<rparr>"
    let ?io1 = "io\<lparr>io_kernel := kn, m_pendingEventCount := m_pendingEventCount io + 1\<rparr>"
    let ?ec = "\<lparr>ec_scheduler = cur, ec_fiber = (if cb = None then Some g else None), ec_cb = cb\<rparr>"
    have old: "ctx_of e ?ctx = no_waiter"
      using False ctl assms(2,3) by (auto simp: addEvent_at_def Let_def getContext_event ctx_of_def no_waiter_def split: if_splits)
    then have "getContext e ?c = Inr no_waiter" using assms(2) by (auto simp: getContext_event ctx_of_def)
    then have r: "r = 0" and io': "io' = put_ctx i (putContext e ?ec ?c) ?io1"
      using False ctl assms(3) by (auto simp: addEvent_at_def Let_def no_waiter_def split: if_splits)
    have "slot_count f (putContext e ?ec ?c) = slot_count f ?ctx + of_bool (cb = None \<and> g = f)"
      using old assms(2) by (auto simp: is_event_def ctx_of_def putContext_def slot_count_def no_waiter_def)
    moreover have "slots f ?io1 = slots f io" "resumptions f ?io1 = resumptions f io" by (simp_all add: slots_def resumptions_def)
    ultimately show ?thesis using slots_put [of i ?io1 f "putContext e ?ec ?c"] assms(1) r
      by (simp add: tally_def io')
  qed
  then show "tally f io' = tally f io + of_bool (r = 0 \<and> cb = None \<and> g = f)" "r = 0 \<or> r = - 1" by blast+
qed

lemma slots_resize: "length (m_fdContexts io) \<le> sz \<Longrightarrow> slots f (contextResize sz io) = slots f io"
  by (simp add: slots_def contextResize_def slot_count_def FdContext_def comp_def)

lemma addEvent_tally:
  assumes "32 \<le> length (m_fdContexts io)" "is_event e" "addEvent ctl cur g st fd e cb io = Inr (r, io')"
  shows "tally f io' = tally f io + of_bool (r = 0 \<and> cb = None \<and> g = f)" "r = 0 \<or> r = - 1"
proof -
  define io1 where "io1 = (if int (length (m_fdContexts io)) > fd then io else contextResize (nat (fd * 3 div 2)) io)"
  have run: "addEvent_at ctl cur g st (nat fd) e cb io1 = Inr (r, io')" "nat fd < length (m_fdContexts io1)"
    using assms(3) by (auto simp: addEvent_def io1_def Let_def split: if_splits)
  have "tally f io1 = tally f io"
    using assms(1) slots_resize [of io "nat (fd * 3 div 2)" f] by (simp add: io1_def tally_def resumptions_def contextResize_def)
  then show "tally f io' = tally f io + of_bool (r = 0 \<and> cb = None \<and> g = f)" "r = 0 \<or> r = - 1"
    using addEvent_at_tally [OF run(2) assms(2) run(1)] by simp_all
qed

text \<open>
  What other fibers and the idle fiber do meanwhile: any call but removing an event, which drops its
  waiter, and but registering \<open>f\<close>, which only \<open>f\<close> does.
\<close>

fun by_others :: "fptr \<Rightarrow> 'c io_call \<Rightarrow> bool" where
  "by_others f (Add sid g st fd e cb) \<longleftrightarrow> cb \<noteq> None \<or> g \<noteq> f"
| "by_others f (Del fd e) \<longleftrightarrow> False"
| "by_others f (CancelEv fd e) \<longleftrightarrow> True"
| "by_others f (CancelFd fd) \<longleftrightarrow> True"
| "by_others f (Ready i reported) \<longleftrightarrow> True"

inductive meanwhile :: "'k epoll_ctl \<Rightarrow> fptr \<Rightarrow> ('c, 'k) io_manager \<Rightarrow> ('c, 'k) io_manager \<Rightarrow> bool" for ctl f io0 where
  meanwhile_start: "meanwhile ctl f io0 io0"
| meanwhile_step: "meanwhile ctl f io0 io \<Longrightarrow> io_call_ok c io \<Longrightarrow> by_others f c \<Longrightarrow> io_exec ctl c io = Inr io' \<Longrightarrow> meanwhile ctl f io0 io'"

lemma io_exec_tally:
  assumes "io_inv io" "32 \<le> length (m_fdContexts io)" "io_call_ok c io" "by_others f c" "io_exec ctl c io = Inr io'"
  shows "tally f io' = tally f io"
proof (cases c)
  case (Add sid g st fd e cb)
  then obtain r where r: "addEvent ctl (Some sid) g st fd e cb io = Inr (r, io')" using assms(5) by (auto simp: rbind_eq_Inr_iff)
  have "is_event e" using Add assms(3) by simp
  then show ?thesis using addEvent_tally(1) [OF assms(2) _ r, of f] Add assms(4) by auto
next
  case (Del fd e)
  then show ?thesis using assms(4) by simp
next
  case (CancelEv fd e)
  then obtain r where "cancelEvent ctl fd e io = Inr (r, io')" using assms(5) by (auto simp: rbind_eq_Inr_iff)
  then show ?thesis using cancelEvent_tally [OF assms(1)] CancelEv assms(3) by auto
next
  case (CancelFd fd)
  then obtain r where "cancelAll ctl fd io = Inr (r, io')" using assms(5) by (auto simp: rbind_eq_Inr_iff)
  then show ?thesis using cancelAll_tally [OF assms(1)] CancelFd assms(3) by auto
next
  case (Ready i reported)
  then show ?thesis using process_event_tally [OF assms(1)] assms(3,5) by auto
qed

lemma meanwhile_tally:
  assumes "meanwhile ctl f io0 io" "io_ok interest io0" "32 \<le> length (m_fdContexts io0)" "epoll_law ctl interest"
  shows "io_ok interest io \<and> 32 \<le> length (m_fdContexts io) \<and> tally f io = tally f io0"
  using assms(1)
proof (induction rule: meanwhile.induct)
  case (meanwhile_step io c io')
  then show ?case
    using io_exec_ok [of interest io ctl c] io_exec_tally [of io c f ctl io'] assms(4) by (auto simp: io_ok_def)
qed (use assms(2,3) in simp)

lemma arm_timeout_frame:
  assumes "arm_timeout wrote now a to t fd e st = Inr (timer, st1)"
  shows "timer = (if to \<noteq> - 1 then Some a else None)" "tally f (hs_io st1) = tally f (hs_io st)"
    "m_fdContexts (hs_io st1) = m_fdContexts (hs_io st)" "io_kernel (hs_io st1) = io_kernel (hs_io st)"
    "m_pendingEventCount (hs_io st1) = m_pendingEventCount (hs_io st)" "io_sched (hs_io st1) = io_sched (hs_io st)"
    "hs_tinfo st1 = hs_tinfo st" "hs_fds st1 = hs_fds st" "hs_errno st1 = hs_errno st"
  using assms by (auto simp: arm_timeout_def iom_addTimer_def Let_def rbind_eq_Inr_iff lift_err_def
      split: if_splits prod.splits sum.splits)

lemma addEvent_legal:
  assumes "addEvent ctl cur g st fd e cb io = Inr (r, io')"
  shows "0 \<le> fd" "nat fd < length (m_fdContexts io) \<Longrightarrow> fc_events (m_fdContexts io ! nat fd) AND e = 0"
  using assms by (auto simp: addEvent_def addEvent_at_def Let_def split: if_splits)

lemma addEvent_at_frame:
  assumes "addEvent_at ctl cur g st i e cb io = Inr (r, io')"
  shows "io_timers io' = io_timers io \<and> io_sched io' = io_sched io \<and> io_other io' = io_other io"
  using assms by (auto simp: addEvent_at_def put_ctx_def getContext_def Let_def case_prod_unfold split: if_splits)

lemma addEvent_frame:
  assumes "addEvent ctl cur g st fd e cb io = Inr (r, io')"
  shows "io_timers io' = io_timers io \<and> io_sched io' = io_sched io \<and> io_other io' = io_other io"
  using assms addEvent_at_frame [of ctl cur g st "nat fd" e cb _ r io']
  by (auto simp: addEvent_def contextResize_def Let_def split: if_splits)

text \<open>The state in which do_io suspends the fiber.\<close>

lemma do_io_wait_suspended:
  assumes law: "epoll_law ctl interest" and ok: "io_ok interest (hs_io st)" and len: "32 \<le> length (m_fdContexts (hs_io st))"
    and e: "is_event event" and w: "do_io_wait ctl wrote now a has_iom f fd event to t st = Inr (Suspended timer to t, st1)"
  shows "\<exists>st'. arm_timeout wrote now a to t fd event st = Inr (timer, st') \<and> io_timers (hs_io st1) = io_timers (hs_io st')
      \<and> hs_tinfo st1 = hs_tinfo st"
    "io_ok interest (hs_io st1)" "32 \<le> length (m_fdContexts (hs_io st1))" "tally g (hs_io st1) = tally g (hs_io st) + of_bool (f = g)"
    "0 \<le> fd" "nat fd < length (m_fdContexts (hs_io st1))" "fc_events (m_fdContexts (hs_io st1) ! nat fd) AND event \<noteq> 0"
    "resumptions g (hs_io st1) = resumptions g (hs_io st)" "waiter (ctx_of event (m_fdContexts (hs_io st1) ! nat fd)) = Task (Some f) None (- 1)"
proof -
  obtain timer' st' where arm: "arm_timeout wrote now a to t fd event st = Inr (timer', st')"
    using w by (auto simp: do_io_wait_def rbind_eq_Inr_iff split: if_splits)
  note fr = arm_timeout_frame [OF arm]
  obtain io1 where add: "addEvent ctl (Some 0) f EXEC fd event None (hs_io st') = Inr (0, io1)" "hs_io st1 = io1" "timer' = timer" "hs_tinfo st1 = hs_tinfo st'"
    using w arm by (auto simp: do_io_wait_def rbind_eq_Inr_iff Let_def lift_err_def split: if_splits sum.splits prod.splits)
  have ok': "io_ok interest (hs_io st')" using ok fr(3-5) by (simp add: io_ok_def io_inv_def)
  have len': "32 \<le> length (m_fdContexts (hs_io st'))" using len fr(3) by simp
  note a = addEvent_ok [OF ok' law addEvent_legal(1) [OF add(1)] e len' addEvent_legal(2) [OF add(1)], of "Some 0" None EXEC f]
  show "io_ok interest (hs_io st1)" "32 \<le> length (m_fdContexts (hs_io st1))" "nat fd < length (m_fdContexts (hs_io st1))"
    "fc_events (m_fdContexts (hs_io st1) ! nat fd) AND event \<noteq> 0"
    "waiter (ctx_of event (m_fdContexts (hs_io st1) ! nat fd)) = Task (Some f) None (- 1)"
    using a add len' by auto
  show "0 \<le> fd" using addEvent_legal(1) [OF add(1)] .
  show "tally g (hs_io st1) = tally g (hs_io st) + of_bool (f = g)"
    using addEvent_tally(1) [OF len' e add(1), of g] fr(2) add(2) by simp
  have "io_timers io1 = io_timers (hs_io st')" "io_sched io1 = io_sched (hs_io st')" "io_other io1 = io_other (hs_io st')"
    using addEvent_frame [OF add(1)] by simp_all
  moreover have "io_other (hs_io st') = io_other (hs_io st)"
    using arm by (auto simp: arm_timeout_def iom_addTimer_def Let_def rbind_eq_Inr_iff lift_err_def split: if_splits prod.splits sum.splits)
  ultimately show "resumptions g (hs_io st1) = resumptions g (hs_io st)"
    "\<exists>st'. arm_timeout wrote now a to t fd event st = Inr (timer, st') \<and> io_timers (hs_io st1) = io_timers (hs_io st') \<and> hs_tinfo st1 = hs_tinfo st"
    using fr(6,7) add(2-4) arm by (auto simp: resumptions_def)
qed

text \<open>C14: A wait ends at most once. After do_io has registered the fiber and suspended it, whatever other
  fibers register or cancel and whatever events and timeouts the idle fiber handles, the fiber is
  either still registered for exactly its one event and nobody has resumed it, or it is registered
  for none and was handed to the scheduler exactly once: readiness and timeout never both resume it.\<close>

theorem wait_resumes_once:
  assumes "epoll_law ctl interest" and "io_ok interest (hs_io st)" and "32 \<le> length (m_fdContexts (hs_io st))" and "is_event event"
    and "slots f (hs_io st) = 0" and "resumptions f (hs_io st) = 0"
    and "do_io_wait ctl wrote now a has_iom f fd event to t st = Inr (Suspended timer to t, st1)"
    and "meanwhile ctl f (hs_io st1) io"
  shows "slots f io = 1 \<and> resumptions f io = 0 \<or> slots f io = 0 \<and> resumptions f io = 1"
proof -
  note w = do_io_wait_suspended [OF assms(1-4,7)]
  have "tally f io = 1" using meanwhile_tally [OF assms(8) w(2,3) assms(1)] w(4) [of f] assms(5,6) by (simp add: tally_def)
  then show ?thesis by (auto simp: tally_def)
qed

lemma demo_io_ok: "io_ok fst (hs_io demo_state)" "length (m_fdContexts (hs_io demo_state)) = 32"
  "tm_inv (io_timers (hs_io demo_state))" "m_timers (io_timers (hs_io demo_state)) = []" "tally f (hs_io demo_state) = 0"
  using IOManager_ok [of fst "(\<lambda>_. None, \<lambda>_. False, 3)"] tm_inv_TimerManager [of 0]
  by (auto simp: demo_state_def IOManager_def contextResize_def TimerManager_def tally_def resumptions_def slots_def
      slot_count_def FdContext_def comp_def)

lemma demo_wait: "\<exists>st1. do_io_wait demo_ctl 1 0 7 True 5 4 READ 100 0 demo_state = Inr (Suspended (Some 7) 100 0, st1)"
  by (simp add: do_io_wait_def arm_timeout_def iom_addTimer_def io_tickle_def addTimer_def addTimer_ptr_def addEvent_def addEvent_at_def
      demo_ctl_def demo_state_def IOManager_def contextResize_def TimerManager_def FdContext_def getContext_def Let_def nth_append
      del: upt.simps upt_rec_numeral)

theorem wait_resumes_once_witness:
  "\<exists>st1 io. do_io_wait demo_ctl 1 0 7 True 5 4 READ 100 0 demo_state = Inr (Suspended (Some 7) 100 0, st1)
    \<and> io_exec demo_ctl (CancelEv 4 READ) (hs_io st1) = Inr io
    \<and> (slots 5 io = 1 \<and> resumptions 5 io = 0 \<or> slots 5 io = 0 \<and> resumptions 5 io = 1)"
proof -
  obtain st1 where w: "do_io_wait demo_ctl 1 0 7 True 5 4 READ 100 0 demo_state = Inr (Suspended (Some 7) 100 0, st1)"
    using demo_wait by blast
  have t: "slots 5 (hs_io demo_state) = 0" "resumptions 5 (hs_io demo_state) = 0" using demo_io_ok(5) [of 5] by (simp_all add: tally_def)
  note once = wait_resumes_once [OF demo_laws(3) demo_io_ok(1) _ _ t w]
  have "io_ok fst (hs_io st1)" using do_io_wait_suspended(2) [OF demo_laws(3) demo_io_ok(1) _ _ w] demo_io_ok(2) by simp
  then obtain r io where io: "cancelEvent demo_ctl 4 READ (hs_io st1) = Inr (r, io)"
    using cancelEvent_ok [OF _ demo_laws(3), of "hs_io st1" 4 READ] by auto
  then have "meanwhile demo_ctl 5 (hs_io st1) io" by (intro meanwhile_step [OF meanwhile_start, of "CancelEv 4 READ"]) simp_all
  then show ?thesis using once demo_io_ok(2) w io by auto
qed

section \<open>Timeouts and sleeping\<close>

text \<open>A timer the hooks start is in the set with its deadline until it is due.\<close>

lemma iom_addTimer_armed:
  assumes "tm_inv (io_timers io)" "a \<notin> set (m_timers (io_timers io))" "iom_addTimer wrote now a ms cb io = Inr io1"
  shows "tm_inv (io_timers io1)" "set (m_timers (io_timers io1)) = insert a (set (m_timers (io_timers io)))"
    "heap (io_timers io1) a = Timer now ms (Some (User cb)) False"
    "m_previouseTime (io_timers io1) = m_previouseTime (io_timers io)" "\<exists>tm. io1 = io\<lparr>io_timers := tm\<rparr>"
proof -
  have tm: "io1 = io\<lparr>io_timers := snd (addTimer now a ms (Some (User cb)) False (io_timers io))\<rparr>"
    using assms(3) by (auto simp: iom_addTimer_def Let_def case_prod_unfold rbind_eq_Inr_iff split: if_splits)
  show "tm_inv (io_timers io1)" using addTimer_inv [OF assms(1,2)] by (simp add: tm)
  show "set (m_timers (io_timers io1)) = insert a (set (m_timers (io_timers io)))"
    "heap (io_timers io1) a = Timer now ms (Some (User cb)) False" "m_previouseTime (io_timers io1) = m_previouseTime (io_timers io)"
    by (simp_all add: tm addTimer_def addTimer_ptr_def Let_def tl.set_set_insert)
  show "\<exists>tm. io1 = io\<lparr>io_timers := tm\<rparr>" using tm by blast
qed

lemma due_iff:
  assumes "m_previouseTime st \<le> now'" "p \<in> set (m_timers st)"
  shows "p \<in> set (due now' st) \<longleftrightarrow> m_next (heap st p) \<le> now'"
  using assms by (auto simp: due_def detectClockRollover_def)

lemma iom_addTimer_due:
  assumes "tm_inv (io_timers io)" "a \<notin> set (m_timers (io_timers io))" "iom_addTimer wrote now a ms cb io = Inr io1"
    and "a' \<notin> set (m_timers (io_timers io1))" "listExpiredCb now' a' (io_timers io1) = (cbs, tm)"
    and "m_previouseTime (io_timers io) \<le> now'"
  shows "a \<in> set (due now' (io_timers io1)) \<longleftrightarrow> now + ms \<le> now'"
    "now + ms \<le> now' \<Longrightarrow> Some (User cb) \<in> set cbs \<and> tm_inv tm \<and> a \<notin> set (m_timers tm)"
proof -
  note r = iom_addTimer_armed [OF assms(1-3)]
  show d: "a \<in> set (due now' (io_timers io1)) \<longleftrightarrow> now + ms \<le> now'"
    using due_iff [of "io_timers io1" now' a] r assms(6) by (simp add: Timer_def)
  have l: "cbs = map (\<lambda>p. m_cb (heap (io_timers io1) p)) (due now' (io_timers io1))" "tm_inv tm"
    "set (m_timers tm) = {p \<in> set (m_timers (io_timers io1)). p \<in> set (due now' (io_timers io1)) \<longrightarrow> m_recurring (heap (io_timers io1) p)}"
    using listExpiredCb_ok [OF r(1) assms(4,5)] by blast+
  show "Some (User cb) \<in> set cbs \<and> tm_inv tm \<and> a \<notin> set (m_timers tm)" if "now + ms \<le> now'"
  proof -
    have a: "a \<in> set (due now' (io_timers io1))" using d that by simp
    then have "m_cb (heap (io_timers io1) a) \<in> set cbs" unfolding l(1) by (simp only: set_map image_eqI)
    then show ?thesis using a l(2,3) r(3) by (simp add: Timer_def)
  qed
qed

lemma timer_sum: "unat now + unat ms < 2 ^ 64 \<Longrightarrow> now + ms \<le> now' \<longleftrightarrow> unat now + unat ms \<le> unat now'" for now :: u64
  using unat_add_lt [of now ms] by (simp add: word_le_nat_alt)

lemma cancelEvent_resumes:
  assumes "io_inv io" "0 \<le> fd" "nat fd < length (m_fdContexts io)" "is_event e" "fc_events (m_fdContexts io ! nat fd) AND e \<noteq> 0"
    and "waiter (ctx_of e (m_fdContexts io ! nat fd)) = Task (Some f) None (- 1)" "\<forall>op fd ev k. \<not> fst (ctl op fd ev k)"
  shows "\<exists>io2. cancelEvent ctl fd e io = Inr (True, io2) \<and> resumptions f io2 = resumptions f io + 1 \<and> io_timers io2 = io_timers io"
proof -
  let ?c = "m_fdContexts io ! nat fd"
  define new where "new = fc_events ?c AND NOT e"
  obtain failed kn where ctl: "ctl (if new \<noteq> 0 then EPOLL_CTL_MOD else EPOLL_CTL_DEL) fd (EPOLLET OR new) (io_kernel io) = (failed, kn)"
    by fastforce
  then have nf: "\<not> failed" using assms(7) by (metis fst_conv)
  let ?iok = "io\<lparr>io_kernel := kn\<rparr>"
  have "\<not> int (length (m_fdContexts io)) \<le> fd" using assms(2,3) by linarith
  then have run: "cancelEvent ctl fd e io = rbind (triggerEvent (nat fd) e ?iok) (\<lambda>io2. Inr (True, dec_pending io2))"
    using assms(2,5) ctl nf by (simp add: cancelEvent_def unregister_def Let_def new_def)
  have cok: "ctx_ok ?c" using io_inv_ctx [OF assms(1,3)] by simp
  obtain sid where "triggerEvent (nat fd) e ?iok = Inr (let io1 = put_ctx (nat fd) (cleared e ?c) ?iok; k = Task (Some f) None (- 1)
    in if sid = 0 then io1\<lparr>io_sched := schedule k (io_sched io1)\<rparr> else io1\<lparr>io_other := io_other io1 @ [(sid, k)]\<rparr>)"
    using triggerEvent_ok [of ?iok "nat fd" e] cok assms(4-6) by auto
  then show ?thesis using run by (auto simp: Let_def resumptions_def put_ctx_def dec_pending_def Task_def)
qed


text \<open>do_io allocates its timer_info before the first call.\<close>

definition demo_calling :: "(nat, demo_kernel) hook_state" where
  "demo_calling = demo_state\<lparr>hs_tinfo := (\<lambda>_. None)(0 \<mapsto> 0)\<rparr>"

lemma demo_calling_wait: "\<exists>st1. do_io_wait demo_ctl 1 0 7 True 5 4 READ 100 0 demo_calling = Inr (Suspended (Some 7) 100 0, st1)"
  by (simp add: demo_calling_def do_io_wait_def arm_timeout_def iom_addTimer_def io_tickle_def addTimer_def addTimer_ptr_def addEvent_def addEvent_at_def
      demo_ctl_def demo_state_def IOManager_def contextResize_def TimerManager_def FdContext_def getContext_def Let_def nth_append
      del: upt.simps upt_rec_numeral)


text \<open>C17: A sleeping fiber is woken on time. The timer sleep starts is due exactly from the moment
  \<open>seconds\<close> seconds later; when it is due, the callbacks of listExpiredCb contain one that hands the
  fiber to the scheduler, once. This holds for durations whose milliseconds fit the 32 bits in which
  the product is computed.\<close>

theorem sleep_wakes:
  assumes "tm_inv (io_timers (hs_io st))" and "a \<notin> set (m_timers (io_timers (hs_io st)))"
    and "sleep wrote now a True f True seconds st = Inr (Some st1)" and "unat seconds * 1000 < 2 ^ 32"
    and "unat now + unat seconds * 1000 < 2 ^ 64" and "m_previouseTime (io_timers (hs_io st)) \<le> now'"
    and "a' \<notin> set (m_timers (io_timers (hs_io st1)))" and "listExpiredCb now' a' (io_timers (hs_io st1)) = (cbs, tm)"
  shows "(a \<in> set (due now' (io_timers (hs_io st1))) \<longleftrightarrow> unat now + unat seconds * 1000 \<le> unat now')
    \<and> (unat now + unat seconds * 1000 \<le> unat now' \<longrightarrow>
        (\<exists>cb st2. Some (User cb) \<in> set cbs \<and> run_timer_cb ctl cb (st1\<lparr>hs_io := hs_io st1\<lparr>io_timers := tm\<rparr>\<rparr>) = Inr st2
           \<and> resumptions f (hs_io st2) = resumptions f (hs_io st) + 1))"
proof -
  obtain io1 where io1: "iom_addTimer wrote now a (sleep_ms seconds) (Plain (ScheduleFiber f)) (hs_io st) = Inr io1" "hs_io st1 = io1"
    using assms(3) by (auto simp: sleep_def sleep_for_def rbind_eq_Inr_iff lift_err_def split: sum.splits)
  have ms: "unat (sleep_ms seconds) = unat seconds * 1000"
    using assms(4) by (simp add: sleep_ms_def unsigned_ucast_eq unat_word_ariths take_bit_nat_eq_self)
  have le: "now + sleep_ms seconds \<le> now' \<longleftrightarrow> unat now + unat seconds * 1000 \<le> unat now'"
    using timer_sum [of now "sleep_ms seconds" now'] assms(5) ms by simp
  note d = iom_addTimer_due [OF assms(1,2) io1(1) _ _ assms(6), of a' cbs tm]
  have same: "resumptions f (hs_io st1) = resumptions f (hs_io st)"
    using iom_addTimer_armed(5) [OF assms(1,2) io1(1)] io1(2) by (auto simp: resumptions_def)
  let ?st = "st1\<lparr>hs_io := hs_io st1\<lparr>io_timers := tm\<rparr>\<rparr>"
  have "\<exists>st2. run_timer_cb ctl (Plain (ScheduleFiber f)) ?st = Inr st2 \<and> resumptions f (hs_io st2) = resumptions f (hs_io st) + 1"
    using same by (auto simp: run_timer_cb_def resumptions_def Task_def)
  then show ?thesis using d assms(7,8) io1(2) le by blast
qed

lemma demo_sleep: "\<exists>st1. sleep 1 0 7 True 5 True 2 demo_state = Inr (Some st1) \<and> m_timers (io_timers (hs_io st1)) = [7]"
  by (simp add: sleep_def sleep_for_def iom_addTimer_def io_tickle_def addTimer_def addTimer_ptr_def Let_def
      demo_state_def IOManager_def contextResize_def TimerManager_def del: upt.simps upt_rec_numeral)

theorem sleep_wakes_witness:
  "\<exists>st1. sleep 1 0 7 True 5 True 2 demo_state = Inr (Some st1) \<and> 7 \<notin> set (due 1999 (io_timers (hs_io st1)))
     \<and> 7 \<in> set (due 2000 (io_timers (hs_io st1)))"
proof -
  have p: "m_previouseTime (io_timers (hs_io demo_state)) = 0" by (simp add: demo_state_def IOManager_def contextResize_def TimerManager_def)
  obtain st1 where s: "sleep 1 0 7 True 5 True 2 demo_state = Inr (Some st1)" "m_timers (io_timers (hs_io st1)) = [7]"
    using demo_sleep by blast
  obtain c1 tm1 where l1: "listExpiredCb 1999 0 (io_timers (hs_io st1)) = (c1, tm1)" by fastforce
  obtain c2 tm2 where l2: "listExpiredCb 2000 0 (io_timers (hs_io st1)) = (c2, tm2)" by fastforce
  have n: "7 \<notin> set (m_timers (io_timers (hs_io demo_state)))" "0 \<notin> set (m_timers (io_timers (hs_io st1)))" using demo_io_ok(4) s(2) by simp_all
  show ?thesis
    using sleep_wakes [OF demo_io_ok(3) n(1) s(1) _ _ _ n(2) l1] sleep_wakes [OF demo_io_ok(3) n(1) s(1) _ _ _ n(2) l2] s(1) p by simp
qed

text \<open>The durations the hooks compute. sleep multiplies in 32 bits, so that it waits the wrapped number
  of milliseconds from 4294968 seconds on (4294968 seconds last 704 milliseconds); usleep rounds down
  to whole milliseconds and does not wait at all below one.\<close>

theorem sleep_durations:
  "unat (sleep_ms s) = unat s * 1000 mod 2 ^ 32 \<and> unat (usleep_ms u) = unat u div 1000
    \<and> unat (sleep_ms 4294968) = 704 \<and> usleep_ms 999 = 0"
proof -
  have a: "unat (sleep_ms s) = unat s * 1000 mod 2 ^ 32" for s
    by (simp add: sleep_ms_def unsigned_ucast_eq unat_word_ariths take_bit_eq_mod mod_mod_cancel)
  have "unat u div 1000 < 2 ^ 64" using unsigned_less [where ?'a = nat, of u] by simp
  then have b: "unat (usleep_ms u) = unat u div 1000"
    by (simp add: usleep_ms_def unsigned_ucast_eq unat_div take_bit_nat_eq_self)
  show ?thesis using a [of s] b a [of 4294968] by (simp add: usleep_ms_def)
qed

end
