(* ===== verification/StringUtil.thy ===== *)
theory StringUtil
  imports Prelude "HOL-Library.Char_ord"
begin

unbundle bit_operations_syntax

text \<open>
  Strings (\<open>src/util.cc\<close>, class StringUtil): percent-encoding with its two tables, and trimming. A string
  is the list of its bytes. UrlEncode and UrlDecode copy lazily: a result string is allocated at the
  first byte that changes, with the bytes before it copied; the loops keep it as an option.
\<close>

section \<open>Tables\<close>

definition uri_chars :: "nat list" where
  "uri_chars =
     [0, 0, 0, 0, 0, 0, 0, 0, 0, 0, 0, 0, 0, 0, 0, 0, 0, 0, 0, 0, 0, 0, 0, 0, 0, 0, 0, 0, 0, 0, 0, 0,
      0, 0, 0, 0, 0, 0, 0, 0, 0, 0, 0, 0, 0, 1, 1, 0, 1, 1, 1, 1, 1, 1, 1, 1, 1, 1, 0, 0, 0, 1, 0, 0,
      0, 1, 1, 1, 1, 1, 1, 1, 1, 1, 1, 1, 1, 1, 1, 1, 1, 1, 1, 1, 1, 1, 1, 1, 1, 1, 1, 0, 0, 0, 0, 1,
      0, 1, 1, 1, 1, 1, 1, 1, 1, 1, 1, 1, 1, 1, 1, 1, 1, 1, 1, 1, 1, 1, 1, 1, 1, 1, 1, 0, 0, 0, 1, 0,
      0, 0, 0, 0, 0, 0, 0, 0, 0, 0, 0, 0, 0, 0, 0, 0, 0, 0, 0, 0, 0, 0, 0, 0, 0, 0, 0, 0, 0, 0, 0, 0,
      0, 0, 0, 0, 0, 0, 0, 0, 0, 0, 0, 0, 0, 0, 0, 0, 0, 0, 0, 0, 0, 0, 0, 0, 0, 0, 0, 0, 0, 0, 0, 0,
      0, 0, 0, 0, 0, 0, 0, 0, 0, 0, 0, 0, 0, 0, 0, 0, 0, 0, 0, 0, 0, 0, 0, 0, 0, 0, 0, 0, 0, 0, 0, 0,
      0, 0, 0, 0, 0, 0, 0, 0, 0, 0, 0, 0, 0, 0, 0, 0, 0, 0, 0, 0, 0, 0, 0, 0, 0, 0, 0, 0, 0, 0, 0, 0]"

definition xdigit_chars :: "nat list" where
  "xdigit_chars =
     [0, 0, 0, 0, 0, 0, 0, 0, 0, 0, 0, 0, 0, 0, 0, 0, 0, 0, 0, 0, 0, 0, 0, 0, 0, 0, 0, 0, 0, 0, 0, 0,
      0, 0, 0, 0, 0, 0, 0, 0, 0, 0, 0, 0, 0, 0, 0, 0, 0, 1, 2, 3, 4, 5, 6, 7, 8, 9, 0, 0, 0, 0, 0, 0,
      0, 10, 11, 12, 13, 14, 15, 0, 0, 0, 0, 0, 0, 0, 0, 0, 0, 0, 0, 0, 0, 0, 0, 0, 0, 0, 0, 0, 0, 0, 0, 0,
      0, 10, 11, 12, 13, 14, 15, 0, 0, 0, 0, 0, 0, 0, 0, 0, 0, 0, 0, 0, 0, 0, 0, 0, 0, 0, 0, 0, 0, 0, 0, 0,
      0, 0, 0, 0, 0, 0, 0, 0, 0, 0, 0, 0, 0, 0, 0, 0, 0, 0, 0, 0, 0, 0, 0, 0, 0, 0, 0, 0, 0, 0, 0, 0,
      0, 0, 0, 0, 0, 0, 0, 0, 0, 0, 0, 0, 0, 0, 0, 0, 0, 0, 0, 0, 0, 0, 0, 0, 0, 0, 0, 0, 0, 0, 0, 0,
      0, 0, 0, 0, 0, 0, 0, 0, 0, 0, 0, 0, 0, 0, 0, 0, 0, 0, 0, 0, 0, 0, 0, 0, 0, 0, 0, 0, 0, 0, 0, 0,
      0, 0, 0, 0, 0, 0, 0, 0, 0, 0, 0, 0, 0, 0, 0, 0, 0, 0, 0, 0, 0, 0, 0, 0, 0, 0, 0, 0, 0, 0, 0, 0]"

definition CHAR_IS_UNRESERVED :: "char \<Rightarrow> bool" where
  "CHAR_IS_UNRESERVED c \<longleftrightarrow> uri_chars ! of_char c \<noteq> 0"

text \<open>isxdigit of the C library, in the C locale.\<close>

definition isxdigit :: "char \<Rightarrow> bool" where
  "isxdigit c \<longleftrightarrow> CHR ''0'' \<le> c \<and> c \<le> CHR ''9'' \<or> CHR ''A'' \<le> c \<and> c \<le> CHR ''F'' \<or> CHR ''a'' \<le> c \<and> c \<le> CHR ''f''"

section \<open>Percent-encoding\<close>

definition hexdigits :: string where
  "hexdigits = ''0123456789ABCDEF''"

text \<open>What the body of the loop appends for a byte that is not unreserved.\<close>

definition escape :: "bool \<Rightarrow> char \<Rightarrow> string" where
  "escape space_as_plus c =
     (if c = CHR '' '' \<and> space_as_plus then ''+''
      else [CHR ''%'', hexdigits ! drop_bit 4 (of_char c), hexdigits ! (of_char c AND 15)])"

text \<open>The allocated string, or what it stands for while nothing has changed.\<close>

definition settled :: "string \<Rightarrow> string option \<Rightarrow> string" where
  "settled before ss = (case ss of None \<Rightarrow> before | Some s \<Rightarrow> s)"

definition kept :: "string option \<Rightarrow> char \<Rightarrow> string option" where
  "kept ss c = (case ss of None \<Rightarrow> None | Some s \<Rightarrow> Some (s @ [c]))"

text \<open>\<open>before\<close> are the bytes from the start of the string to the current one, \<open>ss\<close> the allocated result.\<close>

fun encode_loop :: "bool \<Rightarrow> string \<Rightarrow> string option \<Rightarrow> string \<Rightarrow> string option" where
  "encode_loop space_as_plus before ss [] = ss"
| "encode_loop space_as_plus before ss (c # cs) =
     encode_loop space_as_plus (before @ [c])
       (if \<not> CHAR_IS_UNRESERVED c
        then Some (settled before ss @ escape space_as_plus c)
        else kept ss c) cs"

definition UrlEncode :: "string \<Rightarrow> bool \<Rightarrow> string" where
  "UrlEncode str space_as_plus = settled str (encode_loop space_as_plus [] None str)"

definition unescape :: "char \<Rightarrow> char \<Rightarrow> char" where
  "unescape h l = char_of (push_bit 4 (xdigit_chars ! of_char h) OR xdigit_chars ! of_char l)"

definition appended :: "string \<Rightarrow> string option \<Rightarrow> char \<Rightarrow> string option" where
  "appended before ss c = Some (settled before ss @ [c])"

fun decode_loop :: "bool \<Rightarrow> string \<Rightarrow> string option \<Rightarrow> string \<Rightarrow> string option" where
  "decode_loop space_as_plus before ss [] = ss"
| "decode_loop space_as_plus before ss (c # cs) =
     (if c = CHR ''+'' \<and> space_as_plus then
        decode_loop space_as_plus (before @ [c]) (appended before ss (CHR '' '')) cs
      else (case cs of
        h # l # cs' \<Rightarrow>
          if c = CHR ''%'' \<and> isxdigit h \<and> isxdigit l
          then decode_loop space_as_plus (before @ [c, h, l]) (appended before ss (unescape h l)) cs'
          else decode_loop space_as_plus (before @ [c]) (kept ss c) cs
      | _ \<Rightarrow> decode_loop space_as_plus (before @ [c]) (kept ss c) cs))"

definition UrlDecode :: "string \<Rightarrow> bool \<Rightarrow> string" where
  "UrlDecode str space_as_plus = settled str (decode_loop space_as_plus [] None str)"

section \<open>Trimming\<close>

text \<open>find_first_not_of, find_last_not_of and substr of std::string; npos is \<open>None\<close>.\<close>

definition find_first_not_of :: "string \<Rightarrow> string \<Rightarrow> nat option" where
  "find_first_not_of str delimit =
     (let n = length (takeWhile (\<lambda>c. c \<in> set delimit) str) in if n < length str then Some n else None)"

definition find_last_not_of :: "string \<Rightarrow> string \<Rightarrow> nat option" where
  "find_last_not_of str delimit =
     (let n = length (takeWhile (\<lambda>c. c \<in> set delimit) (rev str)) in if n < length str then Some (length str - 1 - n) else None)"

definition substr :: "string \<Rightarrow> nat \<Rightarrow> nat \<Rightarrow> string" where
  "substr str pos n = take n (drop pos str)"

definition Trim :: "string \<Rightarrow> string \<Rightarrow> string" where
  "Trim str delimit =
     (case find_first_not_of str delimit of
        None \<Rightarrow> []
      | Some begin_pos \<Rightarrow>
          (case find_last_not_of str delimit of
             None \<Rightarrow> substr str begin_pos (size_sub 0 begin_pos)
           | Some end_pos \<Rightarrow> substr str begin_pos (size_sub end_pos begin_pos + 1)))"

definition TrimLeft :: "string \<Rightarrow> string \<Rightarrow> string" where
  "TrimLeft str delimit =
     (case find_first_not_of str delimit of None \<Rightarrow> [] | Some begin_pos \<Rightarrow> drop begin_pos str)"

definition TrimRight :: "string \<Rightarrow> string \<Rightarrow> string" where
  "TrimRight str delimit =
     (case find_last_not_of str delimit of None \<Rightarrow> [] | Some end_pos \<Rightarrow> substr str 0 end_pos)"

section \<open>Percent-encoding against a reference\<close>

definition url_encoded :: "bool \<Rightarrow> string \<Rightarrow> string" where
  "url_encoded p s = concat (map (\<lambda>c. if CHAR_IS_UNRESERVED c then [c] else escape p c) s)"

fun url_decoded :: "bool \<Rightarrow> string \<Rightarrow> string" where
  "url_decoded p [] = []"
| "url_decoded p (c # cs) =
     (if c = CHR ''+'' \<and> p then CHR '' '' # url_decoded p cs
      else (case cs of
        h # l # cs' \<Rightarrow> if c = CHR ''%'' \<and> isxdigit h \<and> isxdigit l then unescape h l # url_decoded p cs' else c # url_decoded p cs
      | _ \<Rightarrow> c # url_decoded p cs))"

lemma settled_simps [simp]: "settled b None = b" "settled b (Some s) = s"
  by (simp_all add: settled_def)

lemma settled_kept [simp]: "settled (b @ [c]) (kept ss c) = settled b ss @ [c]"
  by (simp add: settled_def kept_def split: option.splits)

lemma settled_appended [simp]: "settled b' (appended b ss c) = settled b ss @ [c]"
  by (simp add: appended_def)

lemma encode_loop_eq: "settled (before @ cs) (encode_loop p before ss cs) = settled before ss @ url_encoded p cs"
proof (induction cs arbitrary: before ss)
  case (Cons c cs)
  show ?case
    using Cons.IH [of "before @ [c]" "kept ss c"] Cons.IH [of "before @ [c]" "Some (settled before ss @ escape p c)"]
    by (cases "CHAR_IS_UNRESERVED c") (simp_all add: url_encoded_def)
qed (simp add: url_encoded_def settled_def split: option.splits)

lemma UrlEncode_eq: "UrlEncode s p = url_encoded p s"
  using encode_loop_eq [where before = "[]" and ss = None and cs = s and p = p] by (simp add: UrlEncode_def)

text \<open>The lazily copied result, once allocated or not, is the decoded prefix.\<close>

lemma decode_loop_eq: "settled (before @ cs) (decode_loop p before ss cs) = settled before ss @ url_decoded p cs"
proof (induction p before ss cs rule: decode_loop.induct)
  case (2 p before ss c cs)
  note eqs = decode_loop.simps(2) [of p before ss c cs] url_decoded.simps(2) [of p c cs]
  show ?case
    unfolding eqs using 2 by (cases cs rule: remdups_adj.cases) (simp_all del: decode_loop.simps(2) url_decoded.simps(2))
qed (simp add: settled_def split: option.splits)

lemma UrlDecode_eq: "UrlDecode s p = url_decoded p s"
  using decode_loop_eq [where before = "[]" and ss = None and cs = s and p = p] by (simp add: UrlDecode_def)

text \<open>Sixteen hexadecimal digits, and the two bytes the decoder treats specially are always escaped.\<close>

lemma hexdigits_ok:
  assumes "n < 16"
  shows "isxdigit (hexdigits ! n)" "xdigit_chars ! of_char (hexdigits ! n) = n"
proof -
  have "\<forall>n \<in> set [0..<16]. isxdigit (hexdigits ! n) \<and> xdigit_chars ! of_char (hexdigits ! n) = n" by code_simp
  then show "isxdigit (hexdigits ! n)" "xdigit_chars ! of_char (hexdigits ! n) = n" using assms by simp_all
qed

lemma specials_reserved: "\<not> CHAR_IS_UNRESERVED (CHR ''%'')" "\<not> CHAR_IS_UNRESERVED (CHR ''+'')" "\<not> CHAR_IS_UNRESERVED (CHR '' '')"
  by (simp_all add: CHAR_IS_UNRESERVED_def uri_chars_def)

lemma nibbles:
  fixes n :: nat
  assumes "n < 256"
  shows "drop_bit 4 n < 16" "n AND 15 < 16" "push_bit 4 (drop_bit 4 n) OR (n AND 15) = n"
proof -
  have m: "n AND 15 = take_bit 4 n" using take_bit_eq_mask [of 4 n] by (simp add: mask_eq_exp_minus_1)
  show "drop_bit 4 n < 16" using assms by (simp add: drop_bit_eq_div)
  show "n AND 15 < 16" by (simp add: m take_bit_eq_mod)
  show "push_bit 4 (drop_bit 4 n) OR (n AND 15) = n"
    unfolding m by (rule bit_eqI) (auto simp: bit_simps)
qed

lemma unescape_digits: "unescape (hexdigits ! drop_bit 4 (of_char c)) (hexdigits ! (of_char c AND 15)) = c"
  using nibbles [of "of_char c"] by (simp add: unescape_def hexdigits_ok)

lemma decoded_plain: "c \<noteq> CHR ''%'' \<Longrightarrow> \<not> (c = CHR ''+'' \<and> p) \<Longrightarrow> url_decoded p (c # cs) = c # url_decoded p cs"
  by (simp split: list.splits)

lemma decoded_escape: "p \<longrightarrow> q \<Longrightarrow> url_decoded q (escape p c @ cs) = c # url_decoded q cs"
  using nibbles(1,2) [of "of_char c"] by (auto simp: escape_def hexdigits_ok unescape_digits)

lemma url_decoded_encoded:
  assumes "p \<longrightarrow> q"
  shows "url_decoded q (url_encoded p s) = s"
proof (induction s)
  case (Cons c s)
  show ?case
  proof (cases "CHAR_IS_UNRESERVED c")
    case True
    then have "c \<noteq> CHR ''%''" "c \<noteq> CHR ''+''" using specials_reserved by auto
    then show ?thesis using True Cons decoded_plain [of c q "url_encoded p s"] by (simp add: url_encoded_def)
  next
    case False
    then show ?thesis using Cons decoded_escape [OF assms, of c "url_encoded p s"] by (simp add: url_encoded_def)
  qed
qed (simp add: url_encoded_def)

text \<open>C18: Percent-encoding loses nothing: decoding what UrlEncode wrote gives the string back, for every
  byte string and every choice of the space convention, as long as a decoder that is to read plus
  signs as spaces is told so whenever the encoder wrote them.\<close>

theorem url_roundtrip:
  assumes "p \<longrightarrow> q"
  shows "UrlDecode (UrlEncode s p) q = s"
  using url_decoded_encoded [OF assms] by (simp add: UrlEncode_eq UrlDecode_eq)

theorem url_roundtrip_witness:
  "UrlEncode ''a b+c'' True = ''a+b%2Bc'' \<and> UrlDecode (UrlEncode ''a b+c'' True) True = ''a b+c''"
proof
  show "UrlEncode ''a b+c'' True = ''a+b%2Bc''" by code_simp
  show "UrlDecode (UrlEncode ''a b+c'' True) True = ''a b+c''" by (rule url_roundtrip) simp
qed

section \<open>Trimming against a reference\<close>

definition stripped_left :: "string \<Rightarrow> string \<Rightarrow> string" where
  "stripped_left d s = dropWhile (\<lambda>c. c \<in> set d) s"

definition stripped_right :: "string \<Rightarrow> string \<Rightarrow> string" where
  "stripped_right d s = rev (dropWhile (\<lambda>c. c \<in> set d) (rev s))"

lemma dropWhile_drop: "dropWhile P xs = drop (length (takeWhile P xs)) xs"
  by (metis append_eq_conv_conj takeWhile_dropWhile_id)

lemma takeWhile_all: "length (takeWhile P xs) < length xs \<longleftrightarrow> \<not> (\<forall>x \<in> set xs. P x)"
  by (induction xs) auto

lemma stripped_right_take: "stripped_right d s = take (length s - length (takeWhile (\<lambda>c. c \<in> set d) (rev s))) s"
  by (simp add: stripped_right_def dropWhile_drop rev_drop)

lemma dropWhile_append_last: "\<not> P x \<Longrightarrow> dropWhile P (xs @ x # ys) = dropWhile P (xs @ [x]) @ ys"
  by (induction xs) auto

text \<open>A string with a byte outside the delimiters splits at the first and at the last such byte.\<close>

lemma strip_split:
  assumes "\<not> set s \<subseteq> set d"
  obtains x ys where "stripped_right d s = ys @ [x]" "x \<notin> set d"
proof -
  have ne: "dropWhile (\<lambda>c. c \<in> set d) (rev s) \<noteq> []" using assms by auto
  then have "hd (dropWhile (\<lambda>c. c \<in> set d) (rev s)) \<notin> set d" by (rule hd_dropWhile)
  with ne show thesis
    by (intro that [of "rev (tl (dropWhile (\<lambda>c. c \<in> set d) (rev s)))" "hd (dropWhile (\<lambda>c. c \<in> set d) (rev s))"])
      (simp_all add: stripped_right_def flip: rev.simps(2))
qed

lemma strip_both:
  fixes s d :: string
  assumes "\<not> set s \<subseteq> set d"
  defines "m \<equiv> length (takeWhile (\<lambda>c. c \<in> set d) s)" and "n \<equiv> length (takeWhile (\<lambda>c. c \<in> set d) (rev s))"
  shows "m < length s" "n < length s" "m \<le> length s - 1 - n"
    "stripped_right d (stripped_left d s) = take (length s - n - m) (drop m s)"
proof -
  let ?P = "\<lambda>c. c \<in> set d"
  show mn: "m < length s" "n < length s"
    using assms(1) takeWhile_all [of ?P s] takeWhile_all [of ?P "rev s"] by (auto simp: m_def n_def)
  have r: "stripped_right d s = take (length s - n) s" by (simp add: stripped_right_take n_def)
  obtain x ys where x: "stripped_right d s = ys @ [x]" "x \<notin> set d" using strip_split [OF assms(1)] .
  have s: "s = ys @ x # drop (length s - n) s" using x(1) r by (metis append.assoc append_Cons append_Nil append_take_drop_id)
  have len: "length ys + 1 = length s - n" using arg_cong [OF x(1), of length] r mn(2) by simp
  have le: "m \<le> length ys"
  proof (rule ccontr)
    assume "\<not> m \<le> length ys"
    then have "length ys < length (takeWhile ?P s)" by (simp add: m_def)
    then have "s ! length ys \<in> set d" using set_takeWhileD [of "takeWhile ?P s ! length ys" ?P s] takeWhile_nth [of "length ys" ?P s] nth_mem by metis
    then show False using x(2) s by (metis nth_append_length)
  qed
  then show "m \<le> length s - 1 - n" using len by linarith
  have "rev s = rev (drop m s) @ rev (take m s)" by (metis append_take_drop_id rev_append)
  moreover have "x \<in> set (drop m s)" using s le by (metis drop_append diff_is_0_eq drop0 in_set_conv_decomp)
  ultimately have "takeWhile ?P (rev (drop m s)) = takeWhile ?P (rev s)" using x(2) by (metis (no_types, lifting) set_rev takeWhile_append1)
  then show "stripped_right d (stripped_left d s) = take (length s - n - m) (drop m s)"
    by (simp add: stripped_right_take stripped_left_def dropWhile_drop m_def n_def add.commute)
qed

text \<open>Trimming. Trim and TrimLeft remove exactly the delimiters at the ends they are named after.
  TrimRight removes one byte too many: whenever a byte is left after removing the delimiters on the
  right, its last one is lost as well, because substr is given the index of the last kept byte as length.\<close>

theorem trim_results:
  "TrimLeft s d = stripped_left d s \<and> Trim s d = stripped_right d (stripped_left d s)
   \<and> TrimRight s d = butlast (stripped_right d s)"
proof (cases "set s \<subseteq> set d")
  case True
  have a: "takeWhile (\<lambda>c. c \<in> set d) s = s" and b: "takeWhile (\<lambda>c. c \<in> set d) (rev s) = rev s"
    using True by (auto simp: takeWhile_eq_all_conv)
  show ?thesis
    by (simp add: TrimLeft_def Trim_def TrimRight_def find_first_not_of_def find_last_not_of_def stripped_left_def stripped_right_def
        dropWhile_drop a b)
next
  case False
  define m where "m = length (takeWhile (\<lambda>c. c \<in> set d) s)"
  define n where "n = length (takeWhile (\<lambda>c. c \<in> set d) (rev s))"
  note b = strip_both [OF False, folded m_def n_def]
  have ff: "find_first_not_of s d = Some m" "find_last_not_of s d = Some (length s - 1 - n)"
    using b(1,2) by (simp_all add: find_first_not_of_def find_last_not_of_def m_def n_def)
  have l: "stripped_left d s = drop m s" by (simp add: stripped_left_def dropWhile_drop m_def)
  have r: "stripped_right d s = take (length s - n) s" by (simp add: stripped_right_take n_def)
  have "length s - 1 - n - m + 1 = length s - n - m" using b(1-3) by linarith
  then show ?thesis using ff l r b(3,4)
    by (simp add: TrimLeft_def Trim_def TrimRight_def substr_def butlast_take)
qed

end
