(* ===== verification/CText.thy ===== *)
theory CText
  imports Prelude
begin

text \<open>
  Text as the C and C++ libraries produce it, shared by the addresses and the HTTP messages: the
  part of a string that c_str shows, numbers printed in a base as an output stream prints them,
  and lists of words joined and split at a separator, with the lemmas that reading undoes printing.
\<close>

definition c_str :: "string \<Rightarrow> string" where
  "c_str s = takeWhile (\<lambda>c. c \<noteq> CHR 0x00) s"

lemma c_str_append: "CHR 0x00 \<notin> set a \<Longrightarrow> c_str (a @ b) = a @ c_str b"
  unfolding c_str_def by (rule takeWhile_append2) auto

lemma c_str_zero: "CHR 0x00 \<notin> set (c_str s)"
  by (auto simp: c_str_def dest: set_takeWhileD)

text \<open>Bytes as characters.\<close>

definition char_of_byte :: "u8 \<Rightarrow> char" where
  "char_of_byte b = char_of (unat b)"

definition byte_of_char :: "char \<Rightarrow> u8" where
  "byte_of_char c = of_char c"

abbreviation chars :: "u8 list \<Rightarrow> string" where
  "chars \<equiv> map char_of_byte"

abbreviation bytes :: "string \<Rightarrow> u8 list" where
  "bytes \<equiv> map byte_of_char"

lemma char_of_byte_of_char [simp]: "char_of_byte (byte_of_char c) = c"
proof -
  have "(of_char c :: u8) = word_of_nat (of_char c)" by (simp add: of_char_def horner_sum_simps)
  then have "unat (of_char c :: u8) = of_char c" by (simp add: unat_of_nat)
  then show ?thesis by (simp add: char_of_byte_def byte_of_char_def)
qed

lemma char_of_byte_comp [simp]: "char_of_byte \<circ> byte_of_char = id"
  by (simp add: fun_eq_iff)

lemma chars_bytes: "chars (bytes s) = s"
  by simp

section \<open>Numbers\<close>

definition digit_char :: "nat \<Rightarrow> char" where
  "digit_char n = (if n < 10 then char_of (48 + n) else char_of (87 + n))"

fun num_string :: "nat \<Rightarrow> nat \<Rightarrow> string" where
  "num_string b n = (if n < b \<or> b < 2 then [digit_char n] else num_string b (n div b) @ [digit_char (n mod b)])"

declare num_string.simps [simp del]

abbreviation dec_string :: "nat \<Rightarrow> string" where
  "dec_string \<equiv> num_string 10"

abbreviation hex_string :: "nat \<Rightarrow> string" where
  "hex_string \<equiv> num_string 16"

definition digit_value :: "char \<Rightarrow> nat" where
  "digit_value c = (if of_char c < (58 :: nat) then of_char c - 48 else of_char c - 87)"

definition num_value :: "nat \<Rightarrow> string \<Rightarrow> nat" where
  "num_value b s = foldl (\<lambda>v c. v * b + digit_value c) 0 s"

lemma of_char_digit: "n < 16 \<Longrightarrow> of_char (digit_char n) = (if n < 10 then 48 + n else 87 + n)"
  by (simp add: digit_char_def of_char_of)

lemma digit_value_char [simp]: "n < 16 \<Longrightarrow> digit_value (digit_char n) = n"
  by (simp add: digit_value_def of_char_digit)

lemma num_value_string: "2 \<le> b \<Longrightarrow> b \<le> 16 \<Longrightarrow> num_value b (num_string b n) = n"
proof (induction b n rule: num_string.induct)
  case (1 b n)
  have m: "n mod b < 16" using 1(2,3) mod_less_divisor [of b n] by linarith
  show ?case
  proof (cases "n < b")
    case True
    then show ?thesis using 1(3) by (simp add: num_string.simps [of b n] num_value_def)
  next
    case False
    then have "num_value b (num_string b (n div b)) = n div b" using 1 by simp
    then show ?thesis using False 1(2) m by (simp add: num_string.simps [of b n] num_value_def)
  qed
qed

lemma num_string_inject [simp]: "2 \<le> b \<Longrightarrow> b \<le> 16 \<Longrightarrow> num_string b m = num_string b n \<longleftrightarrow> m = n"
  by (metis num_value_string)

lemma num_string_not_Nil [simp]: "num_string b n \<noteq> []"
  by (simp add: num_string.simps)

text \<open>A separator is not a digit.\<close>

lemma num_string_digits: "2 \<le> b \<Longrightarrow> b \<le> 16 \<Longrightarrow> c \<in> set (num_string b n) \<Longrightarrow> \<exists>d < 16. c = digit_char d"
proof (induction b n rule: num_string.induct)
  case (1 b n)
  have "n mod b < 16" using 1(2,3) mod_less_divisor [of b n] by linarith
  moreover have "\<exists>d < 16. digit_char n = digit_char d" if "n < b" using that 1(3) by (intro exI [of _ n]) simp
  ultimately show ?case using 1 by (auto simp: num_string.simps [of b n] split: if_splits)
qed

lemma separator_not_digit:
  assumes "2 \<le> b" "b \<le> 16" "of_char c < (48 :: nat) \<or> of_char c \<in> {58..<97 :: nat}"
  shows "c \<notin> set (num_string b n)"
proof
  assume "c \<in> set (num_string b n)"
  then obtain d where "d < 16" "c = digit_char d" using num_string_digits assms by blast
  then show False using assms(3) by (auto simp: of_char_digit split: if_splits)
qed

section \<open>Words joined at a separator\<close>

fun join :: "'a \<Rightarrow> 'a list list \<Rightarrow> 'a list" where
  "join c [] = []"
| "join c [w] = w"
| "join c (w # ws) = w @ c # join c ws"

fun split_on :: "'a \<Rightarrow> 'a list \<Rightarrow> 'a list list" where
  "split_on c [] = [[]]"
| "split_on c (x # xs) = (if x = c then [] # split_on c xs else (x # hd (split_on c xs)) # tl (split_on c xs))"

lemma split_on_not_Nil [simp]: "split_on c xs \<noteq> []"
  by (cases xs) simp_all

lemma split_on_word: "c \<notin> set w \<Longrightarrow> split_on c (w @ c # xs) = w # split_on c xs"
  by (induction w) auto

lemma split_on_last: "c \<notin> set w \<Longrightarrow> split_on c w = [w]"
  by (induction w) auto

lemma split_on_join: "ws \<noteq> [] \<Longrightarrow> \<forall>w \<in> set ws. c \<notin> set w \<Longrightarrow> split_on c (join c ws) = ws"
  by (induction c ws rule: join.induct) (auto simp: split_on_word split_on_last)

lemma join_append: "us \<noteq> [] \<Longrightarrow> ws \<noteq> [] \<Longrightarrow> join c (us @ ws) = join c us @ c # join c ws"
proof (induction c us rule: join.induct)
  case (2 c w)
  then show ?case by (cases ws) simp_all
qed auto

end
