(* ===== verification/Http.thy ===== *)
theory Http
  imports StringUtil StdContainers CText "HOL-Library.List_Lexorder"
begin

unbundle bit_operations_syntax

text \<open>
  HTTP messages (\<open>src/http/http.h\<close>, \<open>src/http/http.cc\<close>): the tables of methods and status codes,
  header maps with case-insensitive keys, lazily parsed query, form and cookie parameters, and the
  text a request or response is sent as. Functions of the C library on strings stop at the first zero byte.
\<close>

section \<open>Methods and status codes\<close>

datatype HttpMethod = DELETE | GET | HEAD | POST | PUT | CONNECT | OPTIONS | TRACE | COPY | LOCK | MKCOL | MOVE | PROPFIND |
  PROPPATCH | SEARCH | UNLOCK | BIND | REBIND | UNBIND | ACL | REPORT | MKACTIVITY | CHECKOUT | MERGE | MSEARCH
  | NOTIFY | SUBSCRIBE | UNSUBSCRIBE | PATCH | PURGE | MKCALENDAR | LINK | UNLINK | SOURCE
  | INVALID_METHOD

fun method_num :: "HttpMethod \<Rightarrow> nat" where
  "method_num DELETE = 0"
| "method_num GET = 1"
| "method_num HEAD = 2"
| "method_num POST = 3"
| "method_num PUT = 4"
| "method_num CONNECT = 5"
| "method_num OPTIONS = 6"
| "method_num TRACE = 7"
| "method_num COPY = 8"
| "method_num LOCK = 9"
| "method_num MKCOL = 10"
| "method_num MOVE = 11"
| "method_num PROPFIND = 12"
| "method_num PROPPATCH = 13"
| "method_num SEARCH = 14"
| "method_num UNLOCK = 15"
| "method_num BIND = 16"
| "method_num REBIND = 17"
| "method_num UNBIND = 18"
| "method_num ACL = 19"
| "method_num REPORT = 20"
| "method_num MKACTIVITY = 21"
| "method_num CHECKOUT = 22"
| "method_num MERGE = 23"
| "method_num MSEARCH = 24"
| "method_num NOTIFY = 25"
| "method_num SUBSCRIBE = 26"
| "method_num UNSUBSCRIBE = 27"
| "method_num PATCH = 28"
| "method_num PURGE = 29"
| "method_num MKCALENDAR = 30"
| "method_num LINK = 31"
| "method_num UNLINK = 32"
| "method_num SOURCE = 33"
| "method_num INVALID_METHOD = 34"

text \<open>The third column of HTTP_METHOD_MAP as the preprocessor turns it into a string, in its order.\<close>

definition HTTP_METHOD_MAP :: "(HttpMethod \<times> string) list" where
  "HTTP_METHOD_MAP =
     [(DELETE, ''DELETE''),
      (GET, ''GET''),
      (HEAD, ''HEAD''),
      (POST, ''POST''),
      (PUT, ''PUT''),
      (CONNECT, ''CONNECT''),
      (OPTIONS, ''OPTIONS''),
      (TRACE, ''TRACE''),
      (COPY, ''COPY''),
      (LOCK, ''LOCK''),
      (MKCOL, ''MKCOL''),
      (MOVE, ''MOVE''),
      (PROPFIND, ''PROPFIND''),
      (PROPPATCH, ''PROPPATCH''),
      (SEARCH, ''SEARCH''),
      (UNLOCK, ''UNLOCK''),
      (BIND, ''BIND''),
      (REBIND, ''REBIND''),
      (UNBIND, ''UNBIND''),
      (ACL, ''ACL''),
      (REPORT, ''REPORT''),
      (MKACTIVITY, ''MKACTIVITY''),
      (CHECKOUT, ''CHECKOUT''),
      (MERGE, ''MERGE''),
      (MSEARCH, ''M - SEARCH''),
      (NOTIFY, ''NOTIFY''),
      (SUBSCRIBE, ''SUBSCRIBE''),
      (UNSUBSCRIBE, ''UNSUBSCRIBE''),
      (PATCH, ''PATCH''),
      (PURGE, ''PURGE''),
      (MKCALENDAR, ''MKCALENDAR''),
      (LINK, ''LINK''),
      (UNLINK, ''UNLINK''),
      (SOURCE, ''SOURCE'')]"

text \<open>A status is the number of the enumeration; parsers store any number in it.\<close>

type_synonym HttpStatus = u32

definition HTTP_STATUS_MAP :: "(HttpStatus \<times> string) list" where
  "HTTP_STATUS_MAP =
     [(100, ''Continue''),
      (101, ''Switching Protocols''),
      (102, ''Processing''),
      (200, ''OK''),
      (201, ''Created''),
      (202, ''Accepted''),
      (203, ''Non - Authoritative Information''),
      (204, ''No Content''),
      (205, ''Reset Content''),
      (206, ''Partial Content''),
      (207, ''Multi - Status''),
      (208, ''Already Reported''),
      (226, ''IM Used''),
      (300, ''Multiple Choices''),
      (301, ''Moved Permanently''),
      (302, ''Found''),
      (303, ''See Other''),
      (304, ''Not Modified''),
      (305, ''Use Proxy''),
      (307, ''Temporary Redirect''),
      (308, ''Permanent Redirect''),
      (400, ''Bad Request''),
      (401, ''Unauthorized''),
      (402, ''Payment Required''),
      (403, ''Forbidden''),
      (404, ''Not Found''),
      (405, ''Method Not Allowed''),
      (406, ''Not Acceptable''),
      (407, ''Proxy Authentication Required''),
      (408, ''Request Timeout''),
      (409, ''Conflict''),
      (410, ''Gone''),
      (411, ''Length Required''),
      (412, ''Precondition Failed''),
      (413, ''Payload Too Large''),
      (414, ''URI Too Long''),
      (415, ''Unsupported Media Type''),
      (416, ''Range Not Satisfiable''),
      (417, ''Expectation Failed''),
      (421, ''Misdirected Request''),
      (422, ''Unprocessable Entity''),
      (423, ''Locked''),
      (424, ''Failed Dependency''),
      (426, ''Upgrade Required''),
      (428, ''Precondition Required''),
      (429, ''Too Many Requests''),
      (431, ''Request Header Fields Too Large''),
      (451, ''Unavailable For Legal Reasons''),
      (500, ''Internal Server Error''),
      (501, ''Not Implemented''),
      (502, ''Bad Gateway''),
      (503, ''Service Unavailable''),
      (504, ''Gateway Timeout''),
      (505, ''HTTP Version Not Supported''),
      (506, ''Variant Also Negotiates''),
      (507, ''Insufficient Storage''),
      (508, ''Loop Detected''),
      (510, ''Not Extended''),
      (511, ''Network Authentication Required'')]"

section \<open>Functions of the C library\<close>

definition tolower :: "char \<Rightarrow> int" where
  "tolower c = (if CHR ''A'' \<le> c \<and> c \<le> CHR ''Z'' then of_char c + 32 else of_char c)"

text \<open>On strings without zero bytes; the end of a string compares as a zero byte.\<close>

fun casecmp :: "string \<Rightarrow> string \<Rightarrow> int" where
  "casecmp [] [] = 0"
| "casecmp [] (y # ys) = 0 - tolower y"
| "casecmp (x # xs) [] = tolower x"
| "casecmp (x # xs) (y # ys) = (if tolower x \<noteq> tolower y then tolower x - tolower y else casecmp xs ys)"

definition strcasecmp :: "string \<Rightarrow> string \<Rightarrow> int" where
  "strcasecmp a b = casecmp (c_str a) (c_str b)"

text \<open>\<open>strcasestr(h, n) != nullptr\<close>, for a string \<open>n\<close> without zero bytes.\<close>

fun case_prefix :: "string \<Rightarrow> string \<Rightarrow> bool" where
  "case_prefix [] h = True"
| "case_prefix (x # xs) [] = False"
| "case_prefix (x # xs) (y # ys) = (tolower x = tolower y \<and> case_prefix xs ys)"

fun casestr :: "string \<Rightarrow> string \<Rightarrow> bool" where
  "casestr [] n = case_prefix n []"
| "casestr (x # xs) n = (case_prefix n (x # xs) \<or> casestr xs n)"

definition strcasestr :: "string \<Rightarrow> string \<Rightarrow> bool" where
  "strcasestr h n = casestr (c_str h) n"

section \<open>Conversions\<close>

definition StringToHttpMethod :: "string \<Rightarrow> HttpMethod" where
  "StringToHttpMethod m =
     (case find (\<lambda>(name, str). str = c_str m) HTTP_METHOD_MAP of Some (name, str) \<Rightarrow> name | None \<Rightarrow> INVALID_METHOD)"

text \<open>\<open>strncmp(str, m, strlen(str)) == 0\<close>: the method name is a prefix of the bytes at \<open>m\<close>.\<close>

definition CharsToHttpMethod :: "string \<Rightarrow> HttpMethod" where
  "CharsToHttpMethod m =
     (case find (\<lambda>(name, str). take (length str) (c_str m) = str) HTTP_METHOD_MAP of Some (name, str) \<Rightarrow> name | None \<Rightarrow> INVALID_METHOD)"

definition HttpMethodToString :: "HttpMethod \<Rightarrow> string" where
  "HttpMethodToString m =
     (let idx = method_num m in if idx \<ge> length HTTP_METHOD_MAP then ''<unknown>'' else snd (HTTP_METHOD_MAP ! idx))"

definition HttpStatusToString :: "HttpStatus \<Rightarrow> string" where
  "HttpStatusToString s = (case map_of HTTP_STATUS_MAP s of Some msg \<Rightarrow> msg | None \<Rightarrow> ''<unknown>'')"

section \<open>Header maps\<close>

definition CaseInsensitiveLess :: "string \<Rightarrow> string \<Rightarrow> bool" where
  "CaseInsensitiveLess lhs rhs \<longleftrightarrow> strcasecmp lhs rhs < 0"

type_synonym MapType = "(string \<times> string) list"

text \<open>\<open>cast\<close> is boost::lexical_cast to the target type, \<open>None\<close> when it throws.\<close>

definition checkGetAs :: "(string \<Rightarrow> 'a option) \<Rightarrow> MapType \<Rightarrow> string \<Rightarrow> 'a \<Rightarrow> bool \<times> 'a" where
  "checkGetAs cast m key def =
     (case map_find CaseInsensitiveLess key m of
        None \<Rightarrow> (False, def)
      | Some v \<Rightarrow> (case cast v of Some x \<Rightarrow> (True, x) | None \<Rightarrow> (False, def)))"

definition getAs :: "(string \<Rightarrow> 'a option) \<Rightarrow> MapType \<Rightarrow> string \<Rightarrow> 'a \<Rightarrow> 'a" where
  "getAs cast m key def =
     (case map_find CaseInsensitiveLess key m of
        None \<Rightarrow> def
      | Some v \<Rightarrow> (case cast v of Some x \<Rightarrow> x | None \<Rightarrow> def))"

section \<open>Requests\<close>

record HttpRequest =
  rq_method :: HttpMethod
  rq_version :: u8
  rq_close :: bool
  rq_websocket :: bool
  rq_parserParamFlag :: u8
  rq_path :: string
  rq_query :: string
  rq_fragment :: string
  rq_body :: string
  rq_headers :: MapType
  rq_params :: MapType
  rq_cookies :: MapType

definition new_HttpRequest :: "u8 \<Rightarrow> bool \<Rightarrow> HttpRequest" where
  "new_HttpRequest version close =
     \<lparr>rq_method = GET, rq_version = version, rq_close = close, rq_websocket = False, rq_parserParamFlag = 0,
      rq_path = ''/'', rq_query = [], rq_fragment = [], rq_body = [], rq_headers = [], rq_params = [], rq_cookies = []\<rparr>"

definition map_get :: "MapType \<Rightarrow> string \<Rightarrow> string \<Rightarrow> string" where
  "map_get m key def = (case map_find CaseInsensitiveLess key m of None \<Rightarrow> def | Some v \<Rightarrow> v)"

definition rq_getHeader :: "string \<Rightarrow> string \<Rightarrow> HttpRequest \<Rightarrow> string" where
  "rq_getHeader key def rq = map_get (rq_headers rq) key def"

definition rq_setHeader :: "string \<Rightarrow> string \<Rightarrow> HttpRequest \<Rightarrow> HttpRequest" where
  "rq_setHeader key val rq = rq\<lparr>rq_headers := map_assign CaseInsensitiveLess key val (rq_headers rq)\<rparr>"

definition rq_setParam :: "string \<Rightarrow> string \<Rightarrow> HttpRequest \<Rightarrow> HttpRequest" where
  "rq_setParam key val rq = rq\<lparr>rq_params := map_assign CaseInsensitiveLess key val (rq_params rq)\<rparr>"

definition rq_setCookie :: "string \<Rightarrow> string \<Rightarrow> HttpRequest \<Rightarrow> HttpRequest" where
  "rq_setCookie key val rq = rq\<lparr>rq_cookies := map_assign CaseInsensitiveLess key val (rq_cookies rq)\<rparr>"

definition rq_delHeader :: "string \<Rightarrow> HttpRequest \<Rightarrow> HttpRequest" where
  "rq_delHeader key rq = rq\<lparr>rq_headers := map_erase CaseInsensitiveLess key (rq_headers rq)\<rparr>"

definition rq_delParam :: "string \<Rightarrow> HttpRequest \<Rightarrow> HttpRequest" where
  "rq_delParam key rq = rq\<lparr>rq_params := map_erase CaseInsensitiveLess key (rq_params rq)\<rparr>"

definition rq_delCookie :: "string \<Rightarrow> HttpRequest \<Rightarrow> HttpRequest" where
  "rq_delCookie key rq = rq\<lparr>rq_cookies := map_erase CaseInsensitiveLess key (rq_cookies rq)\<rparr>"

definition rq_hasHeader :: "string \<Rightarrow> HttpRequest \<Rightarrow> string option" where
  "rq_hasHeader key rq = map_find CaseInsensitiveLess key (rq_headers rq)"

text \<open>std::string::find of a byte from a position; npos is \<open>None\<close>.\<close>

definition str_find :: "char \<Rightarrow> string \<Rightarrow> nat \<Rightarrow> nat option" where
  "str_find c str pos =
     (let n = length (takeWhile (\<lambda>x. x \<noteq> c) (drop pos str)) in if pos + n < length str then Some (pos + n) else None)"

lemma str_find_bounds: "str_find c str pos = Some i \<Longrightarrow> pos \<le> i \<and> i < length str"
  by (auto simp: str_find_def Let_def split: if_splits)

text \<open>
  The macro PARSE_PARAM: the key runs from the current position to the next equals sign, the value
  from there to the next separator. UrlDecode is called with its default, plus signs are blanks.
\<close>

function parse_param :: "(string \<Rightarrow> string) \<Rightarrow> char \<Rightarrow> string \<Rightarrow> nat \<Rightarrow> MapType \<Rightarrow> MapType" where
  "parse_param trim flag str pos m =
     (case str_find (CHR ''='') str pos of
        None \<Rightarrow> m
      | Some key \<Rightarrow>
          let last = pos; sep = str_find flag str key;
              val = (case sep of None \<Rightarrow> drop (key + 1) str | Some p \<Rightarrow> substr str (key + 1) (p - key - 1));
              m' = map_insert CaseInsensitiveLess (trim (substr str last (key - last))) (UrlDecode val True) m
          in (case sep of None \<Rightarrow> m' | Some p \<Rightarrow> parse_param trim flag str (p + 1) m'))"
  by pat_completeness auto
termination
  by (relation "measure (\<lambda>(_, _, str, pos, _). length str - pos)") (auto dest!: str_find_bounds str_find_bounds [OF sym])

declare parse_param.simps [simp del]

definition initQueryParam :: "HttpRequest \<Rightarrow> HttpRequest" where
  "initQueryParam rq =
     (if rq_parserParamFlag rq AND 1 \<noteq> 0 then rq
      else rq\<lparr>rq_params := parse_param (\<lambda>s. s) (CHR ''&'') (rq_query rq) 0 (rq_params rq),
              rq_parserParamFlag := rq_parserParamFlag rq OR 1\<rparr>)"

definition initBodyParam :: "HttpRequest \<Rightarrow> HttpRequest" where
  "initBodyParam rq =
     (if rq_parserParamFlag rq AND 2 \<noteq> 0 then rq
      else if \<not> strcasestr (rq_getHeader ''content-type'' [] rq) ''application/x-www-form-urlencoded''
      then rq\<lparr>rq_parserParamFlag := rq_parserParamFlag rq OR 2\<rparr>
      else rq\<lparr>rq_params := parse_param (\<lambda>s. s) (CHR ''&'') (rq_body rq) 0 (rq_params rq),
              rq_parserParamFlag := rq_parserParamFlag rq OR 2\<rparr>)"

definition initCookies :: "HttpRequest \<Rightarrow> HttpRequest" where
  "initCookies rq =
     (if rq_parserParamFlag rq AND 4 \<noteq> 0 then rq
      else let cookie = rq_getHeader ''cookie'' [] rq in
        if cookie = [] then rq\<lparr>rq_parserParamFlag := rq_parserParamFlag rq OR 4\<rparr>
        else rq\<lparr>rq_cookies := parse_param (\<lambda>s. Trim s [CHR '' '', CHR 0x09, CHR 0x0D, CHR 0x0A]) (CHR '';'') cookie 0 (rq_cookies rq),
                rq_parserParamFlag := rq_parserParamFlag rq OR 4\<rparr>)"

definition initParam :: "HttpRequest \<Rightarrow> HttpRequest" where
  "initParam rq = initCookies (initBodyParam (initQueryParam rq))"

definition getParam :: "string \<Rightarrow> string \<Rightarrow> HttpRequest \<Rightarrow> string \<times> HttpRequest" where
  "getParam key def rq = (let rq1 = initBodyParam (initQueryParam rq) in (map_get (rq_params rq1) key def, rq1))"

definition getCookie :: "string \<Rightarrow> string \<Rightarrow> HttpRequest \<Rightarrow> string \<times> HttpRequest" where
  "getCookie key def rq = (let rq1 = initCookies rq in (map_get (rq_cookies rq1) key def, rq1))"

definition hasParam :: "string \<Rightarrow> HttpRequest \<Rightarrow> string option \<times> HttpRequest" where
  "hasParam key rq =
     (let rq1 = initBodyParam (initQueryParam rq) in (map_find CaseInsensitiveLess key (rq_params rq1), rq1))"

definition hasCookie :: "string \<Rightarrow> HttpRequest \<Rightarrow> string option \<times> HttpRequest" where
  "hasCookie key rq = (let rq1 = initCookies rq in (map_find CaseInsensitiveLess key (rq_cookies rq1), rq1))"

definition rq_init :: "HttpRequest \<Rightarrow> HttpRequest" where
  "rq_init rq =
     (let conn = rq_getHeader ''connection'' [] rq in
      if conn \<noteq> [] then rq\<lparr>rq_close := (strcasecmp conn ''keep-alive'' \<noteq> 0)\<rparr> else rq)"

section \<open>Text of messages\<close>

definition CRLF :: string where
  "CRLF = [CHR 0x0D, CHR 0x0A]"

definition version_text :: "u8 \<Rightarrow> string" where
  "version_text v = dec_string (unat (drop_bit 4 v)) @ ''.'' @ dec_string (unat (v AND 0x0F))"

text \<open>A header line, and the lines a header map contributes.\<close>

definition header_line :: "string \<times> string \<Rightarrow> string" where
  "header_line h = fst h @ '': '' @ snd h @ CRLF"

definition printed_headers :: "bool \<Rightarrow> MapType \<Rightarrow> (string \<times> string) list" where
  "printed_headers websocket m = filter (\<lambda>(k, v). \<not> (\<not> websocket \<and> strcasecmp k ''connection'' = 0)) m"

definition connection_header :: "bool \<Rightarrow> bool \<Rightarrow> (string \<times> string) list" where
  "connection_header websocket close =
     (if \<not> websocket then [(''connection'', if close then ''close'' else ''keep-alive'')] else [])"

text \<open>The headers of a request and of a response, in the order they are printed before the body.\<close>

definition length_header :: "string \<Rightarrow> (string \<times> string) list" where
  "length_header body = (if body \<noteq> [] then [(''content-length'', dec_string (length body))] else [])"

definition rq_lines :: "HttpRequest \<Rightarrow> (string \<times> string) list" where
  "rq_lines rq =
     connection_header (rq_websocket rq) (rq_close rq) @ printed_headers (rq_websocket rq) (rq_headers rq) @ length_header (rq_body rq)"

definition rq_dump :: "HttpRequest \<Rightarrow> string" where
  "rq_dump rq =
     HttpMethodToString (rq_method rq) @ '' '' @ rq_path rq
     @ (if rq_query rq = [] then [] else ''?'') @ rq_query rq
     @ (if rq_fragment rq = [] then [] else ''#'') @ rq_fragment rq
     @ '' HTTP/'' @ version_text (rq_version rq) @ CRLF
     @ concat (map header_line (rq_lines rq)) @ CRLF @ rq_body rq"

section \<open>Responses\<close>

record HttpResponse =
  rs_status :: HttpStatus
  rs_version :: u8
  rs_close :: bool
  rs_websocket :: bool
  rs_body :: string
  rs_reason :: string
  rs_headers :: MapType
  rs_cookies :: "string list"

definition new_HttpResponse :: "u8 \<Rightarrow> bool \<Rightarrow> HttpResponse" where
  "new_HttpResponse version close =
     \<lparr>rs_status = 200, rs_version = version, rs_close = close, rs_websocket = False, rs_body = [], rs_reason = [],
      rs_headers = [], rs_cookies = []\<rparr>"

definition createResponse :: "HttpRequest \<Rightarrow> HttpResponse" where
  "createResponse rq = new_HttpResponse (rq_version rq) (rq_close rq)"

definition rs_getHeader :: "string \<Rightarrow> string \<Rightarrow> HttpResponse \<Rightarrow> string" where
  "rs_getHeader key def rs = map_get (rs_headers rs) key def"

definition rs_setHeader :: "string \<Rightarrow> string \<Rightarrow> HttpResponse \<Rightarrow> HttpResponse" where
  "rs_setHeader key val rs = rs\<lparr>rs_headers := map_assign CaseInsensitiveLess key val (rs_headers rs)\<rparr>"

definition rs_delHeader :: "string \<Rightarrow> HttpResponse \<Rightarrow> HttpResponse" where
  "rs_delHeader key rs = rs\<lparr>rs_headers := map_erase CaseInsensitiveLess key (rs_headers rs)\<rparr>"

definition setRedirect :: "string \<Rightarrow> HttpResponse \<Rightarrow> HttpResponse" where
  "setRedirect uri rs = rs_setHeader ''Location'' uri (rs\<lparr>rs_status := 302\<rparr>)"

text \<open>\<open>time2str\<close> is Time2Str with the format the code passes.\<close>

definition rs_setCookie ::
  "(int \<Rightarrow> string) \<Rightarrow> string \<Rightarrow> string \<Rightarrow> int \<Rightarrow> string \<Rightarrow> string \<Rightarrow> bool \<Rightarrow> HttpResponse \<Rightarrow> HttpResponse" where
  "rs_setCookie time2str key val expired path domain secure rs =
     rs\<lparr>rs_cookies := rs_cookies rs @
       [key @ ''='' @ val
        @ (if expired > 0 then '';expires='' @ time2str expired @ '' GMT'' else [])
        @ (if domain \<noteq> [] then '';domain='' @ domain else [])
        @ (if path \<noteq> [] then '';path='' @ path else [])
        @ (if secure then '';secure'' else [])]\<rparr>"

definition rs_lines :: "HttpResponse \<Rightarrow> (string \<times> string) list" where
  "rs_lines rs =
     printed_headers (rs_websocket rs) (rs_headers rs) @ map (\<lambda>c. (''Set-Cookie'', c)) (rs_cookies rs)
     @ connection_header (rs_websocket rs) (rs_close rs) @ length_header (rs_body rs)"

definition rs_dump :: "HttpResponse \<Rightarrow> string" where
  "rs_dump rs =
     ''HTTP/'' @ version_text (rs_version rs) @ '' '' @ dec_string (unat (rs_status rs)) @ '' ''
     @ (if rs_reason rs = [] then HttpStatusToString (rs_status rs) else rs_reason rs) @ CRLF
     @ concat (map header_line (rs_lines rs)) @ CRLF @ rs_body rs"

section \<open>Methods: properties\<close>

text \<open>No name of the table is the beginning of another one.\<close>

lemma methods_prefix_free:
  assumes "(n, a) \<in> set HTTP_METHOD_MAP" "(n', b) \<in> set HTTP_METHOD_MAP" "take (length b) a = b"
  shows "n = n' \<and> a = b"
proof -
  have "list_all (\<lambda>(n, a). list_all (\<lambda>(n', b). take (length b) a = b \<longrightarrow> n = n' \<and> a = b) HTTP_METHOD_MAP) HTTP_METHOD_MAP"
    by code_simp
  then show ?thesis using assms by (fastforce simp: list_all_iff)
qed

lemma method_entry:
  assumes "m \<noteq> INVALID_METHOD"
  shows "(m, HttpMethodToString m) \<in> set HTTP_METHOD_MAP" "CHR 0x00 \<notin> set (HttpMethodToString m)"
proof -
  have "list_all (\<lambda>i. \<forall>m \<in> {fst (HTTP_METHOD_MAP ! i)}. method_num m = i) [0..<34]" by code_simp
  then have n: "i < 34 \<Longrightarrow> method_num (fst (HTTP_METHOD_MAP ! i)) = i" for i by (auto simp: list_all_iff)
  have len: "length HTTP_METHOD_MAP = 34" by (simp add: HTTP_METHOD_MAP_def)
  have lt: "method_num m < 34" using assms by (cases m) simp_all
  have inj: "method_num a = method_num b \<Longrightarrow> a = b" for a b by (cases a; cases b) simp_all
  have "fst (HTTP_METHOD_MAP ! method_num m) = m" using inj [OF n [OF lt]] .
  then have "HTTP_METHOD_MAP ! method_num m = (m, snd (HTTP_METHOD_MAP ! method_num m))" by (simp add: prod_eq_iff)
  then show e: "(m, HttpMethodToString m) \<in> set HTTP_METHOD_MAP"
    using lt len nth_mem [of "method_num m" HTTP_METHOD_MAP] by (simp add: HttpMethodToString_def)
  have "list_all (\<lambda>(n, a). CHR 0x00 \<notin> set a) HTTP_METHOD_MAP" by code_simp
  then show "CHR 0x00 \<notin> set (HttpMethodToString m)" using e by (fastforce simp: list_all_iff)
qed

lemma find_unique:
  assumes "x \<in> set xs" "P x" "\<And>y. y \<in> set xs \<Longrightarrow> P y \<Longrightarrow> y = x"
  shows "find P xs = Some x"
  using assms
proof (induction xs)
  case (Cons y ys)
  show ?case
  proof (cases "P y")
    case True
    then show ?thesis using Cons.prems(3) [of y] by simp
  next
    case False
    then have "x \<in> set ys" using Cons.prems(1,2) by (metis set_ConsD)
    then have "find P ys = Some x" using Cons.prems(2,3) by (intro Cons.IH) simp_all
    then show ?thesis using False by simp
  qed
qed simp

lemma take_prefix_cases:
  assumes "take (length b) (a @ c) = b"
  shows "take (length b) a = b \<or> take (length a) b = a"
proof (cases "length b \<le> length a")
  case True
  then show ?thesis using assms by simp
next
  case False
  then have "b = a @ take (length b - length a) c" using assms by simp
  then show ?thesis by (metis append_eq_conv_conj)
qed

text \<open>Method names. Every method is recognised again from its own name, also by CharsToHttpMethod
  when more bytes follow; but the name of M-SEARCH in the table has blanks around its hyphen, so the
  name the standard gives it is not recognised, and CharsToHttpMethod takes any longer word that
  starts with a method name for that method.\<close>

theorem http_methods_recognised:
  "(m \<noteq> INVALID_METHOD \<longrightarrow> StringToHttpMethod (HttpMethodToString m) = m
      \<and> CharsToHttpMethod (HttpMethodToString m @ rest) = m)
   \<and> HttpMethodToString INVALID_METHOD = ''<unknown>''
   \<and> StringToHttpMethod ''M-SEARCH'' = INVALID_METHOD \<and> CharsToHttpMethod ''GETAWAY'' = GET"
proof -
  have fixed: "HttpMethodToString INVALID_METHOD = ''<unknown>''" "StringToHttpMethod ''M-SEARCH'' = INVALID_METHOD"
    "CharsToHttpMethod ''GETAWAY'' = GET" by code_simp+
  have "StringToHttpMethod (HttpMethodToString m) = m \<and> CharsToHttpMethod (HttpMethodToString m @ rest) = m" if "m \<noteq> INVALID_METHOD"
  proof -
    let ?s = "HttpMethodToString m"
    note e = method_entry [OF that]
    have "find (\<lambda>(name, str). str = c_str ?s) HTTP_METHOD_MAP = Some (m, ?s)"
    proof (rule find_unique)
      have c: "c_str ?s = ?s" using c_str_append [OF e(2), of "[]"] by (simp add: c_str_def)
      then show "(case (m, ?s) of (name, str) \<Rightarrow> str = c_str ?s)" by simp
      fix y assume y: "y \<in> set HTTP_METHOD_MAP" "case y of (name, str) \<Rightarrow> str = c_str ?s"
      obtain n b where b: "y = (n, b)" by (cases y)
      then show "y = (m, ?s)" using methods_prefix_free [OF e(1), of n b] y c by simp
    qed (rule e(1))
    moreover have "find (\<lambda>(name, str). take (length str) (c_str (?s @ rest)) = str) HTTP_METHOD_MAP = Some (m, ?s)"
    proof (rule find_unique)
      show "(case (m, ?s) of (name, str) \<Rightarrow> take (length str) (c_str (?s @ rest)) = str)" using c_str_append [OF e(2)] by simp
      fix y assume y: "y \<in> set HTTP_METHOD_MAP" "case y of (name, str) \<Rightarrow> take (length str) (c_str (?s @ rest)) = str"
      obtain n b where b: "y = (n, b)" by (cases y)
      then have "take (length b) ?s = b \<or> take (length ?s) b = ?s" using y(2) c_str_append [OF e(2)] take_prefix_cases by simp
      then show "y = (m, ?s)" using methods_prefix_free [OF e(1), of n b] methods_prefix_free [OF _ e(1), of n b] y(1) b by auto
    qed (rule e(1))
    ultimately show ?thesis by (simp add: StringToHttpMethod_def CharsToHttpMethod_def)
  qed
  then show ?thesis using fixed by blast
qed

theorem http_methods_recognised_witness:
  "StringToHttpMethod (HttpMethodToString POST) = POST \<and> CharsToHttpMethod ''POST /'' = POST"
  using http_methods_recognised [of POST "'' /''"] by (simp add: HttpMethodToString_def HTTP_METHOD_MAP_def)

section \<open>Case-insensitive keys\<close>

text \<open>Comparing ignoring case is comparing the folded strings lexicographically.\<close>

definition fold_case :: "string \<Rightarrow> int list" where
  "fold_case s = map tolower (c_str s)"

lemma tolower_pos: "CHR 0x00 \<noteq> c \<Longrightarrow> 0 < tolower c"
proof -
  assume "CHR 0x00 \<noteq> c"
  moreover have "of_char (CHR 0x00) = (0 :: int)" by simp
  ultimately have "of_char c \<noteq> (0 :: int)" by (metis of_char_eq_iff)
  moreover have "0 \<le> (of_char c :: int)" by (metis of_nat_0_le_iff of_nat_of_char)
  ultimately show ?thesis by (simp add: tolower_def)
qed

lemma casecmp_less:
  "CHR 0x00 \<notin> set xs \<Longrightarrow> CHR 0x00 \<notin> set ys \<Longrightarrow> casecmp xs ys < 0 \<longleftrightarrow> map tolower xs < map tolower ys"
proof (induction xs ys rule: casecmp.induct)
  case (2 y ys)
  then show ?case using tolower_pos [of y] by auto
next
  case (3 x xs)
  then show ?case using tolower_pos [of x] by auto
qed auto

lemma CaseInsensitiveLess_iff: "CaseInsensitiveLess a b \<longleftrightarrow> fold_case a < fold_case b"
  by (simp add: CaseInsensitiveLess_def strcasecmp_def casecmp_less c_str_zero fold_case_def)

lemma casecmp_eq:
  "CHR 0x00 \<notin> set xs \<Longrightarrow> CHR 0x00 \<notin> set ys \<Longrightarrow> casecmp xs ys = 0 \<longleftrightarrow> map tolower xs = map tolower ys"
proof (induction xs ys rule: casecmp.induct)
  case (2 y ys)
  then show ?case using tolower_pos [of y] by auto
next
  case (3 x xs)
  then show ?case using tolower_pos [of x] by auto
qed auto

lemma strcasecmp_eq: "strcasecmp a b = 0 \<longleftrightarrow> fold_case a = fold_case b"
  by (simp add: strcasecmp_def casecmp_eq c_str_zero fold_case_def)

interpretation ci: strict_weak CaseInsensitiveLess
  by unfold_locales (auto simp: CaseInsensitiveLess_iff)

lemma ci_equivalent: "equivalent CaseInsensitiveLess a b \<longleftrightarrow> fold_case a = fold_case b"
  by (auto simp: equivalent_def CaseInsensitiveLess_iff)

text \<open>Header maps ignore case. On a well-formed map, which every setter and eraser keeps, a header that
  was set is found under every spelling of its name with the value last set, other headers are
  untouched, and an erased header is gone; headers and hasHeader agree. (The same functions serve
  responses, parameters and cookies.)\<close>

theorem headers_ignore_case:
  assumes "map_ok CaseInsensitiveLess (rq_headers rq)"
  shows "map_ok CaseInsensitiveLess (rq_headers (rq_setHeader k v rq)) \<and> map_ok CaseInsensitiveLess (rq_headers (rq_delHeader k rq))
    \<and> rq_getHeader k' d (rq_setHeader k v rq) = (if fold_case k' = fold_case k then v else rq_getHeader k' d rq)
    \<and> rq_getHeader k' d (rq_delHeader k rq) = (if fold_case k' = fold_case k then d else rq_getHeader k' d rq)
    \<and> rq_getHeader k' d rq = (case rq_hasHeader k' rq of Some x \<Rightarrow> x | None \<Rightarrow> d)"
  using ci.map_assign_ok [OF assms, of k v] ci.map_erase_ok [OF assms, of k] ci.map_find_assign [OF assms, of k' k v] ci.map_find_erase [of k' k "rq_headers rq"]
  by (simp add: rq_getHeader_def rq_setHeader_def rq_delHeader_def rq_hasHeader_def map_get_def ci_equivalent)

theorem headers_ignore_case_witness:
  "rq_getHeader ''CONTENT-type'' [] (rq_setHeader ''Content-Type'' ''text/html'' (new_HttpRequest 0x11 True)) = ''text/html''"
proof -
  have "map_ok CaseInsensitiveLess (rq_headers (new_HttpRequest 0x11 True))" by (simp add: new_HttpRequest_def)
  moreover have "fold_case ''CONTENT-type'' = fold_case ''Content-Type''" by code_simp
  ultimately show ?thesis
    using headers_ignore_case [of "new_HttpRequest 0x11 True" "''Content-Type''" "''text/html''" "''CONTENT-type''" "[]"] by simp
qed

section \<open>Parameters\<close>

text \<open>The parser on what is left of the string.\<close>

function parse_rest :: "(string \<Rightarrow> string) \<Rightarrow> char \<Rightarrow> string \<Rightarrow> MapType \<Rightarrow> MapType" where
  "parse_rest trim flag s m =
     (if CHR ''='' \<notin> set s then m
      else let k = takeWhile (\<lambda>c. c \<noteq> CHR ''='') s; r = drop (length k + 1) s; v = takeWhile (\<lambda>c. c \<noteq> flag) r;
               m' = map_insert CaseInsensitiveLess (trim k) (UrlDecode v True) m
           in if flag \<notin> set r then m' else parse_rest trim flag (drop (length v + 1) r) m')"
  by pat_completeness auto
termination
  by (relation "measure (\<lambda>(_, _, s, _). length s)") (auto simp: Let_def dest: length_pos_if_in_set)

declare parse_rest.simps [simp del]

lemma str_find_iff:
  assumes "pos \<le> length s"
  shows "str_find c s pos = (if c \<in> set (drop pos s) then Some (pos + length (takeWhile (\<lambda>x. x \<noteq> c) (drop pos s))) else None)"
proof -
  have "length (takeWhile (\<lambda>x. x \<noteq> c) (drop pos s)) < length (drop pos s) \<longleftrightarrow> c \<in> set (drop pos s)"
    using takeWhile_all [of "\<lambda>x. x \<noteq> c" "drop pos s"] by auto
  then show ?thesis using assms by (auto simp: str_find_def Let_def)
qed

lemma takeWhile_take: "takeWhile P xs = take (length (takeWhile P xs)) xs"
  by (metis takeWhile_eq_take length_takeWhile_le)

text \<open>One round of the loop, in terms of the rest of the string.\<close>

lemma parse_param_round:
  fixes str pos flag
  assumes flag: "flag \<noteq> CHR ''=''" and pos: "pos \<le> length str" and eq: "CHR ''='' \<in> set (drop pos str)"
  defines "k \<equiv> takeWhile (\<lambda>c. c \<noteq> CHR ''='') (drop pos str)"
  defines "r \<equiv> drop (length k + 1) (drop pos str)"
  defines "v \<equiv> takeWhile (\<lambda>c. c \<noteq> flag) r"
  shows "r = drop (pos + length k + 1) str"
    "parse_param trim flag str pos m = (let m' = map_insert CaseInsensitiveLess (trim k) (UrlDecode v True) m
       in if flag \<in> set r then parse_param trim flag str (pos + length k + 1 + length v + 1) m' else m')"
proof -
  let ?s = "drop pos str" and ?key = "pos + length k"
  have kl: "length k < length ?s" using eq takeWhile_all [of "\<lambda>c. c \<noteq> CHR ''=''" ?s] by (auto simp: k_def)
  have "?s ! length k = CHR ''=''" using kl nth_length_takeWhile [of "\<lambda>c. c \<noteq> CHR ''=''" ?s] by (simp add: k_def)
  then have "drop (length k) ?s = CHR ''='' # r" using kl by (simp add: r_def Cons_nth_drop_Suc [symmetric])
  then have at: "drop ?key str = CHR ''='' # r" by (simp add: add.commute)
  show r: "r = drop (?key + 1) str" by (simp add: r_def add.commute)
  have f1: "str_find (CHR ''='') str pos = Some ?key" using eq pos by (simp add: str_find_iff k_def)
  have f2: "str_find flag str ?key = (if flag \<in> set r then Some (?key + 1 + length v) else None)"
    using kl pos flag by (subst str_find_iff) (auto simp: at v_def)
  have tw: "v = (if flag \<in> set r then take (length v) r else r)"
    unfolding v_def using takeWhile_take [of "\<lambda>c. c \<noteq> flag" r] takeWhile_eq_all_conv [of "\<lambda>c. c \<noteq> flag" r] by auto
  have val: "(case str_find flag str ?key of None \<Rightarrow> drop (?key + 1) str | Some p \<Rightarrow> substr str (?key + 1) (p - ?key - 1)) = v"
    using tw by (simp add: f2 substr_def r [simplified, symmetric] split: if_splits)
  have keyv: "substr str pos (?key - pos) = k" by (simp add: substr_def k_def takeWhile_take [of _ ?s, symmetric])
  show "parse_param trim flag str pos m = (let m' = map_insert CaseInsensitiveLess (trim k) (UrlDecode v True) m
       in if flag \<in> set r then parse_param trim flag str (?key + 1 + length v + 1) m' else m')"
    unfolding parse_param.simps [of trim flag str pos m] f1 option.case Let_def keyv val by (simp add: f2)
qed

lemma parse_param_rest:
  assumes "flag \<noteq> CHR ''=''" "pos \<le> length str"
  shows "parse_param trim flag str pos m = parse_rest trim flag (drop pos str) m"
  using assms(2)
proof (induction "length str - pos" arbitrary: pos m rule: less_induct)
  case less
  let ?s = "drop pos str"
  show ?case
  proof (cases "CHR ''='' \<in> set ?s")
    case False
    then show ?thesis
      using less.prems by (simp add: parse_param.simps [of trim flag str pos m] parse_rest.simps [of trim flag ?s m] str_find_iff)
  next
    case True
    define k where "k = takeWhile (\<lambda>c. c \<noteq> CHR ''='') ?s"
    define r where "r = drop (length k + 1) ?s"
    define v where "v = takeWhile (\<lambda>c. c \<noteq> flag) r"
    define m' where "m' = map_insert CaseInsensitiveLess (trim k) (UrlDecode v True) m"
    let ?next = "pos + length k + 1 + length v + 1"
    note p = parse_param_round(1) [OF assms(1) less.prems True, folded k_def, folded r_def]
      parse_param_round(2) [OF assms(1) less.prems True, of trim m, folded k_def, folded r_def, folded v_def, folded m'_def]
    have q: "parse_rest trim flag ?s m = (if flag \<notin> set r then m' else parse_rest trim flag (drop (length v + 1) r) m')"
      unfolding m'_def v_def r_def k_def parse_rest.simps [of trim flag ?s m] using True by (simp only: Let_def not_True_eq_False if_False)
    show ?thesis
    proof (cases "flag \<in> set r")
      case in_r: True
      then have "length v < length r" using takeWhile_all [of "\<lambda>c. c \<noteq> flag" r] by (auto simp: v_def)
      then have "?next \<le> length str" using p(1) by simp
      then have "parse_param trim flag str ?next m' = parse_rest trim flag (drop ?next str) m'"
        using less.hyps [of ?next m'] less.prems by simp
      moreover have "drop (length v + 1) r = drop ?next str" by (subst p(1)) (simp add: add.commute add.left_commute)
      ultimately show ?thesis using in_r p(2) q unfolding Let_def m'_def by simp
    qed (use p(2) q in \<open>simp add: Let_def\<close>)
  qed
qed

text \<open>A query string as a client writes it.\<close>

fun query_string :: "(string \<times> string) list \<Rightarrow> string" where
  "query_string [] = []"
| "query_string ((k, v) # kvs) = k @ ''='' @ UrlEncode v True @ (if kvs = [] then [] else CHR ''&'' # query_string kvs)"

fun first_value :: "string \<Rightarrow> (string \<times> string) list \<Rightarrow> string option" where
  "first_value key [] = None"
| "first_value key ((k, v) # kvs) = (if fold_case key = fold_case k then Some v else first_value key kvs)"

lemma no_ampersand: "CHR ''&'' \<notin> set (UrlEncode v p)"
proof -
  have hex: "hexdigits ! n \<noteq> CHR ''&''" if "n < 16" for n
    using that nth_mem [of n hexdigits] by (auto simp: hexdigits_def)
  have "CHR ''&'' \<notin> set (escape p c)" for c
    using hex [OF nibbles(1) [OF nat_of_char_less_256 [of c]]] hex [OF nibbles(2) [OF nat_of_char_less_256 [of c]]]
    by (auto simp: escape_def)
  moreover have "\<not> CHAR_IS_UNRESERVED (CHR ''&'')" by (simp add: CHAR_IS_UNRESERVED_def uri_chars_def)
  ultimately show ?thesis by (auto simp: UrlEncode_eq url_encoded_def split: if_splits)
qed

lemma takeWhile_stop: "c \<notin> set a \<Longrightarrow> takeWhile (\<lambda>x. x \<noteq> c) (a @ c # b) = a"
  by (induction a) auto

lemma parse_query:
  "\<forall>(k, v) \<in> set kvs. CHR ''='' \<notin> set k \<Longrightarrow>
   parse_rest (\<lambda>s. s) (CHR ''&'') (query_string kvs) m = fold (\<lambda>(k, v). map_insert CaseInsensitiveLess k v) kvs m"
proof (induction kvs arbitrary: m)
  case Nil
  then show ?case by (simp add: parse_rest.simps)
next
  case (Cons p kvs)
  obtain k v where p: "p = (k, v)" by (cases p)
  let ?r = "UrlEncode v True @ (if kvs = [] then [] else CHR ''&'' # query_string kvs)"
  have k: "takeWhile (\<lambda>c. c \<noteq> CHR ''='') (k @ CHR ''='' # ?r) = k" using Cons.prems p by (intro takeWhile_stop) simp
  have q: "query_string (p # kvs) = k @ CHR ''='' # ?r" by (simp add: p)
  have v: "takeWhile (\<lambda>c. c \<noteq> CHR ''&'') (UrlEncode v True) = UrlEncode v True"
    "takeWhile (\<lambda>c. c \<noteq> CHR ''&'') (UrlEncode v True @ CHR ''&'' # query_string kvs) = UrlEncode v True"
    using no_ampersand [of v True] takeWhile_stop [of "CHR ''&''" "UrlEncode v True"] by (auto simp: takeWhile_eq_all_conv)
  have amp: "CHR ''&'' \<in> set ?r \<longleftrightarrow> kvs \<noteq> []" using no_ampersand [of v True] by auto
  have "parse_rest (\<lambda>s. s) (CHR ''&'') (query_string (p # kvs)) m =
    (if kvs = [] then map_insert CaseInsensitiveLess k v m
     else parse_rest (\<lambda>s. s) (CHR ''&'') (query_string kvs) (map_insert CaseInsensitiveLess k v m))"
    unfolding q parse_rest.simps [of _ _ "k @ CHR ''='' # ?r"] Let_def k using amp by (simp add: UrlEncode_eq UrlDecode_eq url_decoded_encoded v [unfolded UrlEncode_eq])
  then show ?case using Cons p by (simp add: case_prod_unfold)
qed

lemma fold_inserts:
  "map_ok CaseInsensitiveLess m \<Longrightarrow> map_find CaseInsensitiveLess key (fold (\<lambda>(k, v). map_insert CaseInsensitiveLess k v) kvs m)
     = (case map_find CaseInsensitiveLess key m of Some x \<Rightarrow> Some x | None \<Rightarrow> first_value key kvs)"
proof (induction kvs arbitrary: m)
  case (Cons p kvs)
  obtain k v where p: "p = (k, v)" by (cases p)
  have same: "map_find CaseInsensitiveLess key m = map_find CaseInsensitiveLess k m" if "fold_case key = fold_case k"
    using that by (induction m) (auto simp: ci_equivalent)
  have f: "map_find CaseInsensitiveLess key (map_insert CaseInsensitiveLess k v m) =
      (case map_find CaseInsensitiveLess key m of Some x \<Rightarrow> Some x | None \<Rightarrow> if fold_case key = fold_case k then Some v else None)"
    using ci.map_insert_assign [OF Cons.prems, of k v] ci.map_find_assign [OF Cons.prems, of key k v] same
    by (auto simp: ci_equivalent split: option.splits)
  have "map_find CaseInsensitiveLess key (fold (\<lambda>(k, v). map_insert CaseInsensitiveLess k v) kvs (map_insert CaseInsensitiveLess k v m))
      = (case map_find CaseInsensitiveLess key (map_insert CaseInsensitiveLess k v m) of Some x \<Rightarrow> Some x | None \<Rightarrow> first_value key kvs)"
    by (rule Cons.IH) (rule ci.map_insert_ok [OF Cons.prems])
  then show ?case by (simp add: p f split: option.splits)
qed (simp split: option.splits)

text \<open>C19: Query parameters. For a query string written from any list of keys without equals signs and of
  percent-encoded values, getParam returns the value of the first pair whose key matches ignoring
  case, and its default when there is none; the parsing happens once, later calls change nothing.\<close>

theorem query_params_roundtrip:
  assumes "\<forall>(k, v) \<in> set kvs. CHR ''='' \<notin> set k" and "rq_query rq = query_string kvs" and "rq_parserParamFlag rq = 0"
    and "rq_params rq = []" and "\<not> strcasestr (rq_getHeader ''content-type'' [] rq) ''application/x-www-form-urlencoded''"
    and "getParam key def rq = (val, rq1)"
  shows "val = (case first_value key kvs of Some v \<Rightarrow> v | None \<Rightarrow> def) \<and> snd (getParam key' def' rq1) = rq1"
proof -
  let ?m = "parse_param (\<lambda>s. s) (CHR ''&'') (rq_query rq) 0 []"
  have m: "?m = fold (\<lambda>(k, v). map_insert CaseInsensitiveLess k v) kvs []"
    using parse_param_rest [of "CHR ''&''" 0 "rq_query rq"] parse_query [OF assms(1), of "[]"] assms(2) by simp
  have i1: "initQueryParam rq = rq\<lparr>rq_params := ?m, rq_parserParamFlag := 1\<rparr>" using assms(3,4) by (simp add: initQueryParam_def)
  have i2: "initBodyParam (initQueryParam rq) = rq\<lparr>rq_params := ?m, rq_parserParamFlag := 3\<rparr>"
    using assms(5) by (simp add: i1 initBodyParam_def rq_getHeader_def)
  have "val = map_get ?m key def" "rq1 = rq\<lparr>rq_params := ?m, rq_parserParamFlag := 3\<rparr>" using assms(6) by (auto simp: getParam_def i2)
  then show ?thesis
    using fold_inserts [of "[]" key kvs] m by (simp add: map_get_def getParam_def initQueryParam_def initBodyParam_def)
qed

theorem query_params_roundtrip_witness:
  "fst (getParam ''B'' [] ((new_HttpRequest 0x11 True)\<lparr>rq_query := ''a=1&b=x%26y''\<rparr>)) = ''x&y''"
proof -
  have q: "query_string [(''a'', ''1''), (''b'', ''x&y'')] = ''a=1&b=x%26y''" by code_simp
  have "first_value ''B'' [(''a'', ''1''), (''b'', ''x&y'')] = Some ''x&y''" by code_simp
  moreover have "\<not> strcasestr [] ''application/x-www-form-urlencoded''" by code_simp
  ultimately show ?thesis
    using query_params_roundtrip [where kvs = "[(''a'', ''1''), (''b'', ''x&y'')]" and key = "''B''" and def = "[]"
        and rq = "(new_HttpRequest 0x11 True)\<lparr>rq_query := ''a=1&b=x%26y''\<rparr>", OF _ _ _ _ _ surjective_pairing] q
    by (simp add: new_HttpRequest_def rq_getHeader_def map_get_def)
qed

section \<open>Printed headers\<close>

definition named :: "string \<Rightarrow> (string \<times> string) list \<Rightarrow> (string \<times> string) list" where
  "named name hs = filter (\<lambda>(k, v). strcasecmp k name = 0) hs"

text \<open>The headers of a printed response. Unless it is a websocket response, exactly one header named
  connection is printed, whatever the header map contains, and it says what isClose says. A body adds
  its length in bytes as content-length; but a content-length the header map has is printed too, so
  that a response whose map contains one carries two.\<close>

theorem response_headers:
  assumes "\<not> rs_websocket rs"
  shows "named ''connection'' (rs_lines rs) = [(''connection'', if rs_close rs then ''close'' else ''keep-alive'')]
    \<and> named ''content-length'' (rs_lines rs) = named ''content-length'' (rs_headers rs)
        @ (if rs_body rs = [] then [] else [(''content-length'', dec_string (length (rs_body rs)))])"
proof -
  have c: "strcasecmp ''connection'' ''connection'' = 0" "strcasecmp ''Set-Cookie'' ''connection'' \<noteq> 0" "strcasecmp ''content-length'' ''connection'' \<noteq> 0"
    "strcasecmp ''connection'' ''content-length'' \<noteq> 0" "strcasecmp ''Set-Cookie'' ''content-length'' \<noteq> 0" "strcasecmp ''content-length'' ''content-length'' = 0"
    by code_simp+
  have d: "\<not> (strcasecmp k ''content-length'' = 0 \<and> strcasecmp k ''connection'' = 0)" for k
    using c(3) by (simp add: strcasecmp_eq)
  have "named ''connection'' (printed_headers False (rs_headers rs)) = []"
    by (auto simp: named_def printed_headers_def filter_empty_conv)
  moreover have "named ''content-length'' (printed_headers False (rs_headers rs)) = named ''content-length'' (rs_headers rs)"
    unfolding named_def printed_headers_def filter_filter by (rule filter_cong) (use d in auto)
  moreover have "named n (a @ b) = named n a @ named n b" for n a b by (simp add: named_def)
  moreover have "named n (map (\<lambda>x. (''Set-Cookie'', x)) cs) = []" if "strcasecmp ''Set-Cookie'' n \<noteq> 0" for n cs
    using that by (simp add: named_def filter_empty_conv)
  ultimately show ?thesis using assms c
    by (simp add: rs_lines_def connection_header_def length_header_def) (simp add: named_def)
qed

theorem response_headers_witness:
  "named ''connection'' (rs_lines (rs_setHeader ''Connection'' ''upgrade'' (new_HttpResponse 0x11 False))) = [(''connection'', ''keep-alive'')]"
  using response_headers [of "rs_setHeader ''Connection'' ''upgrade'' (new_HttpResponse 0x11 False)"]
  by (simp add: rs_setHeader_def new_HttpResponse_def)

end
