(* ===== verification/Servlet.thy ===== *)
theory Servlet
  imports Http
begin

text \<open>
  Servlets (\<open>src/http/servlet.h\<close>, \<open>src/http/servlet.cc\<close>) and the request loop of the server
  (\<open>src/http/http_server.cc\<close>): the dispatcher with its exact and its pattern table, and the loop that
  answers the requests of one connection. fnmatch is a parameter, true when the pattern matches;
  \<open>run\<close> gives the effect of servlets written by users.
\<close>

section \<open>Servlets\<close>

datatype 'h servlet = FunctionServlet 'h | UserServlet 'h | NotFoundServlet string

text \<open>A creator that holds one servlet pointer, and one that makes a new object of its class for every request.\<close>

datatype 'h creator = HoldServletCreator "'h servlet option" | ServletCreator "'h servlet"

fun creator_get :: "'h creator \<Rightarrow> 'h servlet option" where
  "creator_get (HoldServletCreator s) = s"
| "creator_get (ServletCreator s) = Some s"

definition not_found_content :: "string \<Rightarrow> string" where
  "not_found_content name =
     ''<html><head><title>404 Not Found'' @ ''</title></head><body><center><h1>404 Not Found</h1></center>''
     @ ''<hr><center>'' @ name @ ''</center></body></html>''"

definition not_found_handle :: "string \<Rightarrow> HttpResponse \<Rightarrow> HttpResponse" where
  "not_found_handle name rs =
     (rs_setHeader ''Content-Type'' ''text/html'' (rs_setHeader ''Server'' ''HPS/1.0.0'' (rs\<lparr>rs_status := 404\<rparr>)))
       \<lparr>rs_body := not_found_content name\<rparr>"

fun servlet_handle :: "('h \<Rightarrow> HttpRequest \<Rightarrow> HttpResponse \<Rightarrow> HttpResponse) \<Rightarrow> 'h servlet \<Rightarrow> HttpRequest \<Rightarrow> HttpResponse \<Rightarrow> HttpResponse" where
  "servlet_handle run (FunctionServlet cb) rq rs = run cb rq rs"
| "servlet_handle run (UserServlet h) rq rs = run h rq rs"
| "servlet_handle run (NotFoundServlet name) rq rs = not_found_handle name rs"

section \<open>The dispatcher\<close>

record 'h dispatch =
  m_datas :: "string \<rightharpoonup> 'h creator"
  m_globs :: "(string \<times> 'h creator) list"
  m_default :: "'h servlet option"

definition ServletDispatch :: "'h dispatch" where
  "ServletDispatch = \<lparr>m_datas = (\<lambda>_. None), m_globs = [], m_default = Some (NotFoundServlet ''HPS/1.0'')\<rparr>"

text \<open>The loop that erases the entry of a pattern.\<close>

fun erase_glob :: "string \<Rightarrow> (string \<times> 'h creator) list \<Rightarrow> (string \<times> 'h creator) list" where
  "erase_glob uri [] = []"
| "erase_glob uri (g # gs) = (if fst g = uri then gs else g # erase_glob uri gs)"

definition addServletCreator :: "string \<Rightarrow> 'h creator \<Rightarrow> 'h dispatch \<Rightarrow> 'h dispatch" where
  "addServletCreator uri c d = d\<lparr>m_datas := (m_datas d)(uri \<mapsto> c)\<rparr>"

definition addServlet :: "string \<Rightarrow> 'h servlet option \<Rightarrow> 'h dispatch \<Rightarrow> 'h dispatch" where
  "addServlet uri slt d = d\<lparr>m_datas := (m_datas d)(uri \<mapsto> HoldServletCreator slt)\<rparr>"

definition addServlet_cb :: "string \<Rightarrow> 'h \<Rightarrow> 'h dispatch \<Rightarrow> 'h dispatch" where
  "addServlet_cb uri cb d = d\<lparr>m_datas := (m_datas d)(uri \<mapsto> HoldServletCreator (Some (FunctionServlet cb)))\<rparr>"

definition addGlobServletCreator :: "string \<Rightarrow> 'h creator \<Rightarrow> 'h dispatch \<Rightarrow> 'h dispatch" where
  "addGlobServletCreator uri c d = d\<lparr>m_globs := erase_glob uri (m_globs d) @ [(uri, c)]\<rparr>"

definition addGlobServlet :: "string \<Rightarrow> 'h servlet option \<Rightarrow> 'h dispatch \<Rightarrow> 'h dispatch" where
  "addGlobServlet uri slt d = d\<lparr>m_globs := erase_glob uri (m_globs d) @ [(uri, HoldServletCreator slt)]\<rparr>"

definition addGlobServlet_cb :: "string \<Rightarrow> 'h \<Rightarrow> 'h dispatch \<Rightarrow> 'h dispatch" where
  "addGlobServlet_cb uri cb d = addGlobServlet uri (Some (FunctionServlet cb)) d"

definition delServlet :: "string \<Rightarrow> 'h dispatch \<Rightarrow> 'h dispatch" where
  "delServlet uri d = d\<lparr>m_datas := (m_datas d)(uri := None)\<rparr>"

definition delGlobServlet :: "string \<Rightarrow> 'h dispatch \<Rightarrow> 'h dispatch" where
  "delGlobServlet uri d = d\<lparr>m_globs := erase_glob uri (m_globs d)\<rparr>"

definition getServlet :: "string \<Rightarrow> 'h dispatch \<Rightarrow> 'h servlet option" where
  "getServlet uri d = Option.bind (m_datas d uri) creator_get"

definition getGlobServlet :: "string \<Rightarrow> 'h dispatch \<Rightarrow> 'h servlet option" where
  "getGlobServlet uri d = Option.bind (find (\<lambda>g. fst g = uri) (m_globs d)) (\<lambda>g. creator_get (snd g))"

definition getMatchedServlet :: "(string \<Rightarrow> string \<Rightarrow> bool) \<Rightarrow> string \<Rightarrow> 'h dispatch \<Rightarrow> 'h servlet option" where
  "getMatchedServlet fnmatch uri d =
     (case m_datas d uri of
        Some c \<Rightarrow> creator_get c
      | None \<Rightarrow> (case find (\<lambda>g. fnmatch (c_str (fst g)) (c_str uri)) (m_globs d) of
                  Some g \<Rightarrow> creator_get (snd g)
                | None \<Rightarrow> m_default d))"

definition dispatch_handle ::
  "(string \<Rightarrow> string \<Rightarrow> bool) \<Rightarrow> ('h \<Rightarrow> HttpRequest \<Rightarrow> HttpResponse \<Rightarrow> HttpResponse) \<Rightarrow> 'h dispatch \<Rightarrow> HttpRequest \<Rightarrow> HttpResponse \<Rightarrow> HttpResponse" where
  "dispatch_handle fnmatch run d rq rs =
     (case getMatchedServlet fnmatch (rq_path rq) d of None \<Rightarrow> rs | Some slt \<Rightarrow> servlet_handle run slt rq rs)"

definition listAllServletCreator :: "'h dispatch \<Rightarrow> (string \<rightharpoonup> 'h creator) \<Rightarrow> (string \<rightharpoonup> 'h creator)" where
  "listAllServletCreator d infos = infos ++ m_datas d"

definition listAllGlobServletCreator :: "'h dispatch \<Rightarrow> (string \<rightharpoonup> 'h creator) \<Rightarrow> (string \<rightharpoonup> 'h creator)" where
  "listAllGlobServletCreator d infos = fold (\<lambda>(uri, c) m. m(uri \<mapsto> c)) (m_globs d) infos"

section \<open>The connection loop\<close>

text \<open>
  HttpServer::handleClient. \<open>reqs\<close> is what the calls of recvRequest return, in order (\<open>None\<close> for a null
  pointer); the result is the responses sent and whether the session was closed, which it is not
  while the loop waits for another request.
\<close>

definition answer ::
  "(string \<Rightarrow> string \<Rightarrow> bool) \<Rightarrow> ('h \<Rightarrow> HttpRequest \<Rightarrow> HttpResponse \<Rightarrow> HttpResponse) \<Rightarrow> 'h dispatch \<Rightarrow> string \<Rightarrow> bool \<Rightarrow> HttpRequest \<Rightarrow> HttpResponse" where
  "answer fnmatch run d name keepalive rq =
     dispatch_handle fnmatch run d rq
       (rs_setHeader ''Server'' name (new_HttpResponse (rq_version rq) (rq_close rq \<or> \<not> keepalive)))"

fun handleClient ::
  "(string \<Rightarrow> string \<Rightarrow> bool) \<Rightarrow> ('h \<Rightarrow> HttpRequest \<Rightarrow> HttpResponse \<Rightarrow> HttpResponse) \<Rightarrow> 'h dispatch \<Rightarrow> string \<Rightarrow> bool
     \<Rightarrow> HttpRequest option list \<Rightarrow> HttpResponse list \<times> bool" where
  "handleClient fnmatch run d name keepalive [] = ([], False)"
| "handleClient fnmatch run d name keepalive (None # reqs) = ([], True)"
| "handleClient fnmatch run d name keepalive (Some rq # reqs) =
     (let rs = answer fnmatch run d name keepalive rq in
      if \<not> keepalive \<or> rq_close rq then ([rs], True)
      else let (rss, closed) = handleClient fnmatch run d name keepalive reqs in (rs # rss, closed))"

text \<open>HttpServer::setName also makes the default servlet print the name.\<close>

definition server_setName :: "string \<Rightarrow> 'h dispatch \<Rightarrow> 'h dispatch" where
  "server_setName v d = d\<lparr>m_default := Some (NotFoundServlet v)\<rparr>"

section \<open>What the dispatcher promises\<close>

text \<open>Registrations as a history, oldest first.\<close>

datatype 'h registration =
    Exact string "'h creator"
  | Glob string "'h creator"
  | DelExact string
  | DelGlob string

fun register :: "'h registration \<Rightarrow> 'h dispatch \<Rightarrow> 'h dispatch" where
  "register (Exact uri c) d = addServletCreator uri c d"
| "register (Glob uri c) d = addGlobServletCreator uri c d"
| "register (DelExact uri) d = delServlet uri d"
| "register (DelGlob uri) d = delGlobServlet uri d"

fun about_exact :: "string \<Rightarrow> 'h registration \<Rightarrow> bool" where
  "about_exact uri (Exact u c) \<longleftrightarrow> u = uri"
| "about_exact uri (DelExact u) \<longleftrightarrow> u = uri"
| "about_exact uri (Glob u c) \<longleftrightarrow> False"
| "about_exact uri (DelGlob u) \<longleftrightarrow> False"

fun about_glob :: "string \<Rightarrow> 'h registration \<Rightarrow> bool" where
  "about_glob uri (Glob u c) \<longleftrightarrow> u = uri"
| "about_glob uri (DelGlob u) \<longleftrightarrow> u = uri"
| "about_glob uri (Exact u c) \<longleftrightarrow> False"
| "about_glob uri (DelExact u) \<longleftrightarrow> False"

text \<open>The creator of the last registration about the path, and the patterns whose registration is the last about them.\<close>

definition live_exact :: "'h registration list \<Rightarrow> string \<Rightarrow> 'h creator option" where
  "live_exact ops uri = (case find (about_exact uri) (rev ops) of Some (Exact u c) \<Rightarrow> Some c | _ \<Rightarrow> None)"

fun live_globs :: "'h registration list \<Rightarrow> (string \<times> 'h creator) list" where
  "live_globs [] = []"
| "live_globs (Glob u c # ops) = (if \<exists>p \<in> set ops. about_glob u p then live_globs ops else (u, c) # live_globs ops)"
| "live_globs (_ # ops) = live_globs ops"

lemma erase_glob_filter: "distinct (map fst gs) \<Longrightarrow> erase_glob uri gs = filter (\<lambda>g. fst g \<noteq> uri) gs"
proof (induction gs)
  case (Cons g gs)
  have "filter (\<lambda>g. fst g \<noteq> uri) gs = gs" if "fst g = uri"
    unfolding filter_id_conv using Cons.prems that by (metis distinct.simps(2) imageI image_set list.simps(9))
  then show ?case using Cons by simp
qed simp

lemma live_globs_keys: "(u, c) \<in> set (live_globs ops) \<Longrightarrow> \<exists>p \<in> set ops. about_glob u p"
  by (induction ops rule: live_globs.induct) (auto split: if_splits)

lemma live_globs_distinct: "distinct (map fst (live_globs ops))"
proof (induction ops rule: live_globs.induct)
  case (2 u c ops)
  then show ?case using live_globs_keys [of u _ ops] by auto
qed auto

lemma live_globs_snoc:
  "live_globs (ops @ [p]) = filter (\<lambda>g. \<not> about_glob (fst g) p) (live_globs ops) @ (case p of Glob u c \<Rightarrow> [(u, c)] | _ \<Rightarrow> [])"
proof (induction ops rule: live_globs.induct)
  case 1
  then show ?case by (cases p) simp_all
qed auto

lemma live_exact_snoc: "live_exact (ops @ [p]) uri = (if about_exact uri p then (case p of Exact u c \<Rightarrow> Some c | _ \<Rightarrow> None) else live_exact ops uri)"
  by (cases p) (simp_all add: live_exact_def)

lemma register_history:
  "m_datas (fold register ops ServletDispatch) = live_exact ops \<and> m_globs (fold register ops ServletDispatch) = live_globs ops
   \<and> m_default (fold register ops ServletDispatch) = Some (NotFoundServlet ''HPS/1.0'')"
proof (induction ops rule: rev_induct)
  case Nil
  then show ?case by (simp add: ServletDispatch_def live_exact_def fun_eq_iff)
next
  case (snoc p ops)
  let ?d = "fold register ops ServletDispatch"
  have e: "erase_glob u (live_globs ops) = filter (\<lambda>g. u \<noteq> fst g) (live_globs ops)" for u
    using live_globs_distinct [of ops] by (auto simp: erase_glob_filter intro: filter_cong)
  show ?case using snoc
    by (cases p) (auto simp: addServletCreator_def addGlobServletCreator_def delServlet_def delGlobServlet_def e fun_eq_iff
        live_exact_snoc live_globs_snoc intro: filter_cong)
qed

text \<open>C20: The dispatcher. After any history of registrations and removals a path is served by the creator
  last registered for it unless that was removed since; otherwise by the first matching pattern among
  those still registered, in the order in which each was last registered; otherwise by the default
  servlet, which answers 404 with its page.\<close>

theorem dispatch_follows_history:
  "getMatchedServlet fnmatch uri (fold register ops ServletDispatch) =
     (case live_exact ops uri of
        Some c \<Rightarrow> creator_get c
      | None \<Rightarrow> (case find (\<lambda>g. fnmatch (c_str (fst g)) (c_str uri)) (live_globs ops) of
                  Some g \<Rightarrow> creator_get (snd g)
                | None \<Rightarrow> Some (NotFoundServlet ''HPS/1.0'')))
   \<and> rs_status (servlet_handle run (NotFoundServlet n) rq rs) = 404 \<and> rs_body (servlet_handle run (NotFoundServlet n) rq rs) = not_found_content n"
proof -
  have "m_datas (fold register ops ServletDispatch) = live_exact ops"
    and "m_globs (fold register ops ServletDispatch) = live_globs ops"
    and "m_default (fold register ops ServletDispatch) = Some (NotFoundServlet ''HPS/1.0'')"
    using register_history [of ops] by auto
  then show ?thesis unfolding getMatchedServlet_def by (simp only: servlet_handle.simps not_found_handle_def rs_setHeader_def) simp
qed

text \<open>A servlet that leaves the close flag alone, as those of the server do.\<close>

lemma answer_close:
  assumes "\<And>h rq rs. rs_close (run h rq rs) = rs_close rs"
  shows "rs_close (answer fnmatch run d name keepalive rq) \<longleftrightarrow> rq_close rq \<or> \<not> keepalive"
proof -
  have "rs_close (servlet_handle run slt rq rs) = rs_close rs" for slt rs
    by (cases slt) (simp_all add: assms not_found_handle_def rs_setHeader_def)
  then show ?thesis
    by (simp add: answer_def dispatch_handle_def rs_setHeader_def new_HttpResponse_def split: option.splits)
qed

definition stays_open :: "bool \<Rightarrow> HttpRequest option \<Rightarrow> bool" where
  "stays_open keepalive r \<longleftrightarrow> (case r of None \<Rightarrow> False | Some rq \<Rightarrow> keepalive \<and> \<not> rq_close rq)"

text \<open>The request at which the loop ends, when one was read.\<close>

fun final_request :: "HttpRequest option list \<Rightarrow> HttpRequest list" where
  "final_request (Some rq # reqs) = [rq]"
| "final_request reqs = []"

text \<open>The connection loop. The server answers in order the requests that keep the connection open, and
  the one after them if one could be read; then it closes the session, and it closes only then. With
  servlets that leave the close flag of a response alone, the responses before the last say
  keep-alive, and exactly the one after which the session is closed says close.\<close>

theorem server_announces_close:
  assumes "\<And>h rq rs. rs_close (run h rq rs) = rs_close rs" and "handleClient fnmatch run d name keepalive reqs = (rss, closed)"
    and "opened = takeWhile (stays_open keepalive) reqs" and "rest = dropWhile (stays_open keepalive) reqs"
  shows "rss = map (answer fnmatch run d name keepalive) (map the opened @ final_request rest)
    \<and> (closed \<longleftrightarrow> rest \<noteq> []) \<and> map rs_close rss = replicate (length opened) False @ map (\<lambda>_. True) (final_request rest)"
  using assms(2-4)
proof (induction reqs arbitrary: rss opened)
  case (Cons r reqs)
  note close = answer_close [of run, OF assms(1)]
  consider "r = None" | rq where "r = Some rq" "stays_open keepalive r" | rq where "r = Some rq" "\<not> stays_open keepalive r"
    by (cases r) auto
  then show ?case
  proof cases
    case 1
    then show ?thesis using Cons.prems by (simp add: stays_open_def)
  next
    case 2
    then have k: "keepalive" "\<not> rq_close rq" by (auto simp: stays_open_def)
    obtain rss' where r: "handleClient fnmatch run d name keepalive reqs = (rss', closed)"
        "rss = answer fnmatch run d name keepalive rq # rss'"
      using Cons.prems(1) 2(1) k by (auto simp: Let_def split: prod.splits)
    have split: "opened = r # takeWhile (stays_open keepalive) reqs" "rest = dropWhile (stays_open keepalive) reqs"
      using Cons.prems(2,3) 2 by simp_all
    note ih = Cons.IH [OF r(1) refl split(2)]
    have "map rs_close rss = False # map rs_close rss'" using r(2) close k by simp
    then have "map rs_close rss = replicate (length opened) False @ map (\<lambda>_. True) (final_request rest)"
      unfolding conjunct2 [OF conjunct2 [OF ih]] split(1) by simp
    moreover have "rss = map (answer fnmatch run d name keepalive) (map the opened @ final_request rest)"
      unfolding r(2) conjunct1 [OF ih] split(1) 2(1) by simp
    ultimately show ?thesis using conjunct1 [OF conjunct2 [OF ih]] by blast
  next
    case 3
    then have "\<not> keepalive \<or> rq_close rq" by (auto simp: stays_open_def)
    then show ?thesis using Cons.prems 3 close by (auto simp: Let_def)
  qed
qed simp

theorem server_announces_close_witness:
  "map rs_close (fst (handleClient (\<lambda>p u. p = u) (\<lambda>h rq rs. rs) ServletDispatch ''s'' True
      [Some (new_HttpRequest 0x11 False), Some (new_HttpRequest 0x11 True)])) = [False, True]"
  using conjunct2 [OF conjunct2 [OF server_announces_close [of "\<lambda>h rq rs. rs" "\<lambda>p u. p = u" ServletDispatch "''s''" True
      "[Some (new_HttpRequest 0x11 False), Some (new_HttpRequest 0x11 True)]", OF refl surjective_pairing refl refl]]]
  by (rule trans) (simp add: stays_open_def new_HttpRequest_def)

end
