(* ===== verification/Streams.thy ===== *)
theory Streams
  imports ByteArray
begin

text \<open>
  Streams (\<open>src/stream.cc\<close>, \<open>src/streams/socket_stream.cc\<close>): the loops that transfer a fixed number of
  bytes, over the reads and writes of a socket, with plain buffers and with byte arrays. The calls of
  the kernel are parameters: \<open>recv\<close> asks for at most so many bytes and returns its result and the
  bytes it stored, \<open>send\<close> offers bytes. What they promise is \<open>source_ok\<close> and \<open>sink_ok\<close>: a positive
  result is the number of bytes moved, in order, and any other result moves none. The locale
  \<open>transfer\<close> is the contract of one step of a loop.
\<close>

section \<open>Integers of the calls\<close>

text \<open>Conversions to int and int64_t.\<close>

definition to_int :: "int \<Rightarrow> int" where
  "to_int x = sint (word_of_int x :: i32)"

definition to_int64 :: "int \<Rightarrow> int" where
  "to_int64 x = sint (word_of_int x :: i64)"

section \<open>Sockets as streams\<close>

type_synonym 'k recv = "nat \<Rightarrow> 'k \<Rightarrow> int \<times> u8 list \<times> 'k"
type_synonym 'k send = "u8 list \<Rightarrow> 'k \<Rightarrow> int \<times> 'k"

text \<open>SocketStream::read and write on a buffer; \<open>connected\<close> is SocketStream::isConnected.\<close>

definition ss_read :: "('k \<Rightarrow> bool) \<Rightarrow> 'k recv \<Rightarrow> 'k recv" where
  "ss_read connected recv len k =
     (if \<not> connected k then (-1, [], k)
      else case recv len k of (rt, bs, k') \<Rightarrow> (to_int rt, bs, k'))"

definition ss_write :: "('k \<Rightarrow> bool) \<Rightarrow> 'k send \<Rightarrow> 'k send" where
  "ss_write connected send bs k =
     (if \<not> connected k then (-1, k)
      else case send bs k of (rt, k') \<Rightarrow> (to_int rt, k'))"

text \<open>The variants on a byte array go through its scatter and gather buffers and move its cursor.\<close>

definition ss_read_ba :: "('k \<Rightarrow> bool) \<Rightarrow> 'k recv \<Rightarrow> nat \<Rightarrow> bytearray \<times> 'k \<Rightarrow> (ba_error, int \<times> bytearray \<times> 'k) result" where
  "ss_read_ba connected recv len s =
     (case s of (ba, k) \<Rightarrow>
      if \<not> connected k then Inr (-1, ba, k)
      else rbind (getWriteBuffers ba len) (\<lambda>(n, iovs, ba1).
        case recv (sum_list (map iov_len iovs)) k of (r, bs, k') \<Rightarrow>
          let rt = to_int r; ba2 = ba1\<lparr>m_nodes := iov_fill (m_nodes ba1) iovs bs\<rparr> in
          if rt > 0 then rbind (setPosition ba2 (m_position ba2 + nat rt)) (\<lambda>ba3. Inr (rt, ba3, k'))
          else Inr (rt, ba2, k')))"

definition ss_write_ba :: "('k \<Rightarrow> bool) \<Rightarrow> 'k send \<Rightarrow> nat \<Rightarrow> bytearray \<times> 'k \<Rightarrow> (ba_error, int \<times> bytearray \<times> 'k) result" where
  "ss_write_ba connected send len s =
     (case s of (ba, k) \<Rightarrow>
      if \<not> connected k then Inr (-1, ba, k)
      else rbind (getReadBuffers ba len) (\<lambda>(n, iovs).
        case send (iov_bytes (m_nodes ba) iovs) k of (r, k') \<Rightarrow>
          let rt = to_int r in
          if rt > 0 then rbind (setPosition ba (m_position ba + nat rt)) (\<lambda>ba3. Inr (rt, ba3, k'))
          else Inr (rt, ba, k')))"

section \<open>The loops\<close>

text \<open>
  The loop shared by the four functions: \<open>step\<close> is one call of read or write for \<open>left\<close> bytes with what the
  body does with a positive result; \<open>Some len\<close> is the early return.
\<close>

function fix_loop :: "('s \<Rightarrow> nat \<Rightarrow> ('e, int \<times> 's) result) \<Rightarrow> 's \<Rightarrow> int \<Rightarrow> ('e, int option \<times> 's) result" where
  "fix_loop step s left =
     (if left > 0 then
        (case step s (nat left) of
           Inl e \<Rightarrow> Inl e
         | Inr (len, s') \<Rightarrow> if len \<le> 0 then Inr (Some len, s') else fix_loop step s' (left - len))
      else Inr (None, s))"
  by pat_completeness auto
termination
  by (relation "measure (\<lambda>(step, s, left). nat left)") auto

declare fix_loop.simps [simp del]

definition fix_return :: "nat \<Rightarrow> int option \<Rightarrow> int" where
  "fix_return len r = (case r of Some x \<Rightarrow> to_int x | None \<Rightarrow> to_int (int len))"

text \<open>One call of read at \<open>buffer + offset\<close>, and of write.\<close>

definition read_step :: "'k recv \<Rightarrow> u8 list \<times> nat \<times> 'k \<Rightarrow> nat \<Rightarrow> (ba_error, int \<times> u8 list \<times> nat \<times> 'k) result" where
  "read_step read s left =
     (case s of (buffer, offset, k) \<Rightarrow>
      case read left k of (len, bs, k') \<Rightarrow>
        Inr (len, splice_at buffer offset bs, (if len \<le> 0 then offset else offset + nat len), k'))"

definition write_step :: "'k send \<Rightarrow> u8 list \<Rightarrow> nat \<times> 'k \<Rightarrow> nat \<Rightarrow> (ba_error, int \<times> nat \<times> 'k) result" where
  "write_step write buffer s left =
     (case s of (offset, k) \<Rightarrow>
      case write (take left (drop offset buffer)) k of (len, k') \<Rightarrow>
        Inr (len, (if len \<le> 0 then offset else offset + nat len), k'))"

definition readFixSize :: "'k recv \<Rightarrow> u8 list \<Rightarrow> nat \<Rightarrow> 'k \<Rightarrow> (ba_error, int \<times> u8 list \<times> 'k) result" where
  "readFixSize read buffer len k =
     rbind (fix_loop (read_step read) (buffer, 0, k) (to_int64 (int len)))
       (\<lambda>(r, buffer', offset, k'). Inr (fix_return len r, buffer', k'))"

definition readFixSize_ba ::
  "(nat \<Rightarrow> bytearray \<times> 'k \<Rightarrow> (ba_error, int \<times> bytearray \<times> 'k) result) \<Rightarrow> bytearray \<Rightarrow> nat \<Rightarrow> 'k \<Rightarrow> (ba_error, int \<times> bytearray \<times> 'k) result" where
  "readFixSize_ba read ba len k =
     rbind (fix_loop (\<lambda>s left. read left s) (ba, k) (to_int64 (int len))) (\<lambda>(r, ba', k'). Inr (fix_return len r, ba', k'))"

definition writeFixSize :: "'k send \<Rightarrow> u8 list \<Rightarrow> nat \<Rightarrow> 'k \<Rightarrow> (ba_error, int \<times> 'k) result" where
  "writeFixSize write buffer len k =
     rbind (fix_loop (write_step write buffer) (0, k) (to_int64 (int len))) (\<lambda>(r, offset, k'). Inr (fix_return len r, k'))"

definition writeFixSize_ba ::
  "(nat \<Rightarrow> bytearray \<times> 'k \<Rightarrow> (ba_error, int \<times> bytearray \<times> 'k) result) \<Rightarrow> bytearray \<Rightarrow> nat \<Rightarrow> 'k \<Rightarrow> (ba_error, int \<times> bytearray \<times> 'k) result" where
  "writeFixSize_ba write ba len k =
     rbind (fix_loop (\<lambda>s left. write left s) (ba, k) (to_int64 (int len))) (\<lambda>(r, ba', k'). Inr (fix_return len r, ba', k'))"

section \<open>What the calls promise\<close>

text \<open>\<open>pending\<close> is the bytes the peer sends, as far as they were not received yet.\<close>

definition source_ok :: "'k recv \<Rightarrow> ('k \<Rightarrow> u8 list) \<Rightarrow> bool" where
  "source_ok recv pending \<longleftrightarrow>
     (\<forall>n k r bs k'. recv n k = (r, bs, k') \<longrightarrow>
        (if 0 < r then r = int (length bs) \<and> length bs \<le> n \<and> r < 2 ^ 31 \<and> pending k = bs @ pending k'
         else -1 \<le> r \<and> bs = [] \<and> pending k' = pending k))"

text \<open>\<open>sent\<close> is the bytes the peer was sent so far.\<close>

definition sink_ok :: "'k send \<Rightarrow> ('k \<Rightarrow> u8 list) \<Rightarrow> bool" where
  "sink_ok send sent \<longleftrightarrow>
     (\<forall>bs k r k'. send bs k = (r, k') \<longrightarrow>
        (if 0 < r then nat r \<le> length bs \<and> r < 2 ^ 31 \<and> sent k' = sent k @ take (nat r) bs
         else -1 \<le> r \<and> sent k' = sent k))"

lemma to_int_id: "- (2 ^ 31) \<le> x \<Longrightarrow> x < 2 ^ 31 \<Longrightarrow> to_int x = x"
  unfolding to_int_def by (simp add: signed_of_int signed_of_nat signed_take_bit_int_eq_self)

lemma to_int64_id: "n < 2 ^ 63 \<Longrightarrow> to_int64 (int n) = int n"
  unfolding to_int64_def by (simp add: signed_of_int signed_of_nat signed_take_bit_int_eq_self)

lemma ss_read_source: "source_ok recv pending \<Longrightarrow> source_ok (ss_read connected recv) pending"
  unfolding source_ok_def ss_read_def
  by (auto split: prod.splits if_splits) (force simp: to_int_id)+

lemma ss_write_sink: "sink_ok send sent \<Longrightarrow> sink_ok (ss_write connected send) sent"
  unfolding sink_ok_def ss_write_def
  by (auto split: prod.splits if_splits) (force simp: to_int_id)+

lemma source_okD:
  assumes "source_ok recv pending" "recv n k = (r, bs, k')"
  shows "0 < r \<Longrightarrow> r = int (length bs) \<and> length bs \<le> n \<and> to_int r = r \<and> pending k = bs @ pending k'"
    and "r \<le> 0 \<Longrightarrow> to_int r = r \<and> -1 \<le> r \<and> bs = [] \<and> pending k' = pending k"
proof -
  have *: "if 0 < r then r = int (length bs) \<and> length bs \<le> n \<and> r < 2 ^ 31 \<and> pending k = bs @ pending k'
      else -1 \<le> r \<and> bs = [] \<and> pending k' = pending k"
    using assms unfolding source_ok_def by blast
  show "0 < r \<Longrightarrow> r = int (length bs) \<and> length bs \<le> n \<and> to_int r = r \<and> pending k = bs @ pending k'"
    using * to_int_id [of r] by simp
  show "r \<le> 0 \<Longrightarrow> to_int r = r \<and> -1 \<le> r \<and> bs = [] \<and> pending k' = pending k"
    using * to_int_id [of r] by simp
qed

lemma sink_okD:
  assumes "sink_ok send sent" "send bs k = (r, k')"
  shows "0 < r \<Longrightarrow> nat r \<le> length bs \<and> to_int r = r \<and> sent k' = sent k @ take (nat r) bs"
    and "r \<le> 0 \<Longrightarrow> to_int r = r \<and> -1 \<le> r \<and> sent k' = sent k"
proof -
  have *: "if 0 < r then nat r \<le> length bs \<and> r < 2 ^ 31 \<and> sent k' = sent k @ take (nat r) bs else -1 \<le> r \<and> sent k' = sent k"
    using assms unfolding sink_ok_def by blast
  show "0 < r \<Longrightarrow> nat r \<le> length bs \<and> to_int r = r \<and> sent k' = sent k @ take (nat r) bs"
    using * to_int_id [of r] by simp
  show "r \<le> 0 \<Longrightarrow> to_int r = r \<and> -1 \<le> r \<and> sent k' = sent k" using * to_int_id [of r] by simp
qed

section \<open>Transfers\<close>

text \<open>
  \<open>ready s n\<close>: the state may be asked for \<open>n\<close> more bytes. \<open>moves s s' bs\<close>: between the states exactly the
  bytes \<open>bs\<close> were transferred.
\<close>

locale transfer =
  fixes step :: "'s \<Rightarrow> nat \<Rightarrow> ('e, int \<times> 's) result"
    and ready :: "'s \<Rightarrow> nat \<Rightarrow> bool"
    and moves :: "'s \<Rightarrow> 's \<Rightarrow> u8 list \<Rightarrow> bool"
  assumes moves_none: "ready s n \<Longrightarrow> moves s s []"
    and moves_more: "moves s s' xs \<Longrightarrow> moves s' s'' ys \<Longrightarrow> moves s s'' (xs @ ys)"
    and step_moves: "ready s n \<Longrightarrow> 0 < n \<Longrightarrow> \<exists>len s' bs. step s n = Inr (len, s') \<and> moves s s' bs
      \<and> (if 0 < len then len = int (length bs) \<and> length bs \<le> n \<and> ready s' (n - length bs) else -1 \<le> len \<and> bs = [])"
begin

lemma fix_loop_transfers:
  "ready s n \<Longrightarrow> \<exists>r s' bs. fix_loop step s (int n) = Inr (r, s') \<and> moves s s' bs
     \<and> (case r of None \<Rightarrow> length bs = n | Some len \<Rightarrow> len \<le> 0 \<and> -1 \<le> len \<and> length bs < n)"
proof (induction n arbitrary: s rule: less_induct)
  case (less n)
  show ?case
  proof (cases "n = 0")
    case True
    then show ?thesis using moves_none [OF less.prems] by (auto simp: fix_loop.simps [of step s])
  next
    case False
    then obtain len s1 xs where s1: "step s n = Inr (len, s1)" "moves s s1 xs"
      "if 0 < len then len = int (length xs) \<and> length xs \<le> n \<and> ready s1 (n - length xs) else -1 \<le> len \<and> xs = []"
      using step_moves [OF less.prems] by auto
    show ?thesis
    proof (cases "0 < len")
      case True
      then have xs: "len = int (length xs)" "length xs \<le> n" "ready s1 (n - length xs)" "0 < length xs" using s1(3) by auto
      have "n - length xs < n" using xs False by simp
      from less.IH [OF this xs(3)] obtain r s2 ys where r: "fix_loop step s1 (int (n - length xs)) = Inr (r, s2)" "moves s1 s2 ys"
        "case r of None \<Rightarrow> length ys = n - length xs | Some len \<Rightarrow> len \<le> 0 \<and> -1 \<le> len \<and> length ys < n - length xs" by blast
      have "fix_loop step s (int n) = Inr (r, s2)"
        using s1(1) r(1) xs False True by (subst fix_loop.simps) (auto simp: of_nat_diff)
      moreover have "moves s s2 (xs @ ys)" by (rule moves_more [OF s1(2) r(2)])
      ultimately show ?thesis using r(3) xs by (intro exI [of _ r] exI [of _ s2] exI [of _ "xs @ ys"]) (auto split: option.splits)
    next
      case len: False
      then show ?thesis using s1 False by (auto simp: fix_loop.simps [of step s])
    qed
  qed
qed

text \<open>The value the function returns, for lengths an int can hold.\<close>

lemma fix_size_transfers:
  assumes "ready s n" "n < 2 ^ 31"
  shows "\<exists>r s' bs. fix_loop step s (to_int64 (int n)) = Inr (r, s') \<and> moves s s' bs
     \<and> (fix_return n r = int n \<and> length bs = n \<or> fix_return n r \<in> {-1, 0} \<and> length bs < n)"
proof -
  obtain r s' bs where r: "fix_loop step s (int n) = Inr (r, s')" "moves s s' bs"
    "case r of None \<Rightarrow> length bs = n | Some len \<Rightarrow> len \<le> 0 \<and> -1 \<le> len \<and> length bs < n"
    using fix_loop_transfers [OF assms(1)] by blast
  have "to_int64 (int n) = int n" "to_int (int n) = int n" using assms(2) to_int64_id [of n] to_int_id [of "int n"] by auto
  moreover have "fix_return n r \<in> {-1, 0}" if "r = Some len" for len
    using that r(3) to_int_id [of len] by (auto simp: fix_return_def)
  ultimately show ?thesis using r by (cases r) (auto simp: fix_return_def)
qed

end

text \<open>Receiving into a buffer.\<close>

definition buf_moves :: "('k \<Rightarrow> u8 list) \<Rightarrow> u8 list \<times> nat \<times> 'k \<Rightarrow> u8 list \<times> nat \<times> 'k \<Rightarrow> u8 list \<Rightarrow> bool" where
  "buf_moves pending s s' bs \<longleftrightarrow> (case (s, s') of ((buf, off, k), (buf', off', k')) \<Rightarrow>
     pending k = bs @ pending k' \<and> off' = off + length bs
     \<and> (off + length bs \<le> length buf \<longrightarrow> buf' = splice_at buf off bs) \<and> (off + length bs \<le> length buf \<longrightarrow> length buf' = length buf))"

interpretation rd: transfer "read_step recv"
  "\<lambda>(buf, off, k) n. source_ok recv pending \<and> off + n \<le> length buf" "buf_moves pending" for recv :: "'k recv" and pending
proof unfold_locales
  fix s s' s'' :: "u8 list \<times> nat \<times> 'k" and xs ys :: "u8 list" and n
  show "(case s of (buf, off, k) \<Rightarrow> \<lambda>n. source_ok recv pending \<and> off + n \<le> length buf) n \<Longrightarrow> buf_moves pending s s []"
    by (auto simp: buf_moves_def)
  show "buf_moves pending s s' xs \<Longrightarrow> buf_moves pending s' s'' ys \<Longrightarrow> buf_moves pending s s'' (xs @ ys)"
    by (cases s; cases s'; cases s'') (auto simp: buf_moves_def splice_at_splice_at add.assoc)
  assume r: "(case s of (buf, off, k) \<Rightarrow> \<lambda>n. source_ok recv pending \<and> off + n \<le> length buf) n" and "0 < n"
  obtain buf off k where s: "s = (buf, off, k)" by (cases s)
  obtain len bs k' where c: "recv n k = (len, bs, k')" by (cases "recv n k")
  have ok: "source_ok recv pending" "off + n \<le> length buf" using r s by auto
  show "\<exists>len s' bs. read_step recv s n = Inr (len, s') \<and> buf_moves pending s s' bs
      \<and> (if 0 < len then len = int (length bs) \<and> length bs \<le> n
           \<and> (case s' of (buf, off, k) \<Rightarrow> \<lambda>n. source_ok recv pending \<and> off + n \<le> length buf) (n - length bs) else -1 \<le> len \<and> bs = [])"
    using source_okD [OF ok(1) c] ok
    by (intro exI [of _ len] exI [of _ "(splice_at buf off bs, if len \<le> 0 then off else off + nat len, k')"] exI [of _ bs])
      (auto simp: s c read_step_def buf_moves_def)
qed

text \<open>Sending from a buffer.\<close>

definition out_moves :: "u8 list \<Rightarrow> ('k \<Rightarrow> u8 list) \<Rightarrow> nat \<times> 'k \<Rightarrow> nat \<times> 'k \<Rightarrow> u8 list \<Rightarrow> bool" where
  "out_moves buf sent s s' bs \<longleftrightarrow> (case (s, s') of ((off, k), (off', k')) \<Rightarrow>
     sent k' = sent k @ bs \<and> off' = off + length bs \<and> bs = take (length bs) (drop off buf))"

interpretation wr: transfer "write_step send buf"
  "\<lambda>(off, k) n. sink_ok send sent \<and> off + n \<le> length buf" "out_moves buf sent" for send :: "'k send" and sent buf
proof unfold_locales
  fix s s' s'' :: "nat \<times> 'k" and xs ys :: "u8 list" and n
  show "(case s of (off, k) \<Rightarrow> \<lambda>n. sink_ok send sent \<and> off + n \<le> length buf) n \<Longrightarrow> out_moves buf sent s s []"
    by (auto simp: out_moves_def)
  show "out_moves buf sent s s' xs \<Longrightarrow> out_moves buf sent s' s'' ys \<Longrightarrow> out_moves buf sent s s'' (xs @ ys)"
    by (cases s; cases s'; cases s'') (auto simp: out_moves_def take_add_drop)
  assume r: "(case s of (off, k) \<Rightarrow> \<lambda>n. sink_ok send sent \<and> off + n \<le> length buf) n" and "0 < n"
  obtain off k where s: "s = (off, k)" by (cases s)
  let ?bs = "take n (drop off buf)"
  obtain len k' where c: "send ?bs k = (len, k')" by (cases "send ?bs k")
  have ok: "sink_ok send sent" "off + n \<le> length buf" using r s by auto
  have lens: "length ?bs = n" "0 < len \<Longrightarrow> nat len \<le> n" using ok(2) sink_okD(1) [OF ok(1) c] by simp_all
  show "\<exists>len s' bs. write_step send buf s n = Inr (len, s') \<and> out_moves buf sent s s' bs
      \<and> (if 0 < len then len = int (length bs) \<and> length bs \<le> n
           \<and> (case s' of (off, k) \<Rightarrow> \<lambda>n. sink_ok send sent \<and> off + n \<le> length buf) (n - length bs) else -1 \<le> len \<and> bs = [])"
    using sink_okD [OF ok(1) c] ok lens
    by (intro exI [of _ len] exI [of _ "(if len \<le> 0 then off else off + nat len, k')"] exI [of _ "take (nat len) ?bs"])
      (auto simp: s c write_step_def out_moves_def min_absorb1)
qed

text \<open>Receiving into a byte array.\<close>

lemma iov_loop_total: "iov_loop ns k npos ncap n = Inr vs \<Longrightarrow> sum_list (map iov_len vs) = n"
proof (induction ns k npos ncap n arbitrary: vs rule: iov_loop.induct)
  case (1 ns k npos ncap n)
  then show ?case
    by (auto simp: iov_loop.simps [of ns k] iov_def rbind_eq_Inr_iff split: if_splits option.splits)
qed

lemma getWriteBuffers_total: "getWriteBuffers ba n = Inr (n', vs, ba1) \<Longrightarrow> sum_list (map iov_len vs) = n"
  by (auto simp: getWriteBuffers_def iov_start_def rbind_eq_Inr_iff Let_def iov_loop_total split: if_splits option.splits)

lemma iov_fill_Nil [simp]: "iov_fill ns vs [] = ns"
  by (induction vs arbitrary: ns) (simp_all add: mem_store_def)

definition ba_in_moves :: "('k \<Rightarrow> u8 list) \<Rightarrow> bytearray \<times> 'k \<Rightarrow> bytearray \<times> 'k \<Rightarrow> u8 list \<Rightarrow> bool" where
  "ba_in_moves pending s s' bs \<longleftrightarrow> (case (s, s') of ((ba, k), (ba', k')) \<Rightarrow>
     pending k = bs @ pending k' \<and> ba_inv ba \<and> ba_inv ba' \<and> m_position ba' = m_position ba + length bs
     \<and> ba_data ba' = overwrite (ba_data ba) (m_position ba) bs)"

lemma overwrite_Nil [simp]: "overwrite xs i [] = xs"
  by (simp add: overwrite_def)

lemma ss_read_ba_moves:
  assumes "source_ok recv pending" "ba_inv ba" "0 < n"
  shows "\<exists>len s' bs. ss_read_ba connected recv n (ba, k) = Inr (len, s') \<and> ba_in_moves pending (ba, k) s' bs
      \<and> (if 0 < len then len = int (length bs) \<and> length bs \<le> n \<and> ba_inv (fst s') else -1 \<le> len \<and> bs = [])"
proof (cases "connected k")
  case True
  obtain r bs k' where c: "recv n k = (r, bs, k')" by (cases "recv n k")
  note src = source_okD [OF assms(1) c]
  have "length bs \<le> n" using src by (cases "0 < r") auto
  from getWriteBuffers_ok [OF assms(2,3) this] obtain vs ba1 ba2 where g: "getWriteBuffers ba n = Inr (n, vs, ba1)"
    "ba_inv ba1" "ba_data ba1 = ba_data ba" "m_position ba1 = m_position ba"
    "setPosition (ba1\<lparr>m_nodes := iov_fill (m_nodes ba1) vs bs\<rparr>) (m_position ba1 + length bs) = Inr ba2"
    "ba_inv ba2" "m_position ba2 = m_position ba + length bs" "ba_data ba2 = overwrite (ba_data ba) (m_position ba) bs" by blast
  have e: "ss_read_ba connected recv n (ba, k) =
      (let rt = to_int r; b = ba1\<lparr>m_nodes := iov_fill (m_nodes ba1) vs bs\<rparr> in
       if rt > 0 then rbind (setPosition b (m_position b + nat rt)) (\<lambda>ba3. Inr (rt, ba3, k')) else Inr (rt, b, k'))"
    using True g(1) getWriteBuffers_total [OF g(1)] c by (simp add: ss_read_ba_def)
  show ?thesis
  proof (cases "0 < r")
    case True
    then have "ss_read_ba connected recv n (ba, k) = Inr (r, ba2, k')" using e src(1) g(5) by (simp add: Let_def)
    then show ?thesis using src(1) [OF True] g assms(2) by (auto simp: ba_in_moves_def)
  next
    case False
    then have "ss_read_ba connected recv n (ba, k) = Inr (r, ba1, k')" using e src(2) by (simp add: Let_def)
    then show ?thesis using src(2) False g assms(2) by (auto simp: ba_in_moves_def)
  qed
next
  case False
  then show ?thesis using assms(2) by (auto simp: ss_read_ba_def ba_in_moves_def)
qed

interpretation ba_rd: transfer "\<lambda>s n. ss_read_ba connected recv n s"
  "\<lambda>(ba, k) n. source_ok recv pending \<and> ba_inv ba" "ba_in_moves pending" for connected and recv :: "'k recv" and pending
proof unfold_locales
  fix s s' s'' :: "bytearray \<times> 'k" and xs ys :: "u8 list" and n :: nat
  show "(case s of (ba, k) \<Rightarrow> \<lambda>n. source_ok recv pending \<and> ba_inv ba) n \<Longrightarrow> ba_in_moves pending s s []"
    by (auto simp: ba_in_moves_def)
  show "ba_in_moves pending s s' xs \<Longrightarrow> ba_in_moves pending s' s'' ys \<Longrightarrow> ba_in_moves pending s s'' (xs @ ys)"
    using overwrite_append ba.in_range by (cases s; cases s'; cases s'') (auto simp: ba_in_moves_def)
  show "(case s of (ba, k) \<Rightarrow> \<lambda>n. source_ok recv pending \<and> ba_inv ba) n \<Longrightarrow> 0 < n \<Longrightarrow>
      \<exists>len s' bs. ss_read_ba connected recv n s = Inr (len, s') \<and> ba_in_moves pending s s' bs
      \<and> (if 0 < len then len = int (length bs) \<and> length bs \<le> n
           \<and> (case s' of (ba, k) \<Rightarrow> \<lambda>n. source_ok recv pending \<and> ba_inv ba) (n - length bs) else -1 \<le> len \<and> bs = [])"
    using ss_read_ba_moves [of recv pending "fst s" n connected "snd s"] by (cases s) (fastforce split: if_splits)
qed

text \<open>Sending from a byte array.\<close>

definition ba_out_moves :: "('k \<Rightarrow> u8 list) \<Rightarrow> bytearray \<times> 'k \<Rightarrow> bytearray \<times> 'k \<Rightarrow> u8 list \<Rightarrow> bool" where
  "ba_out_moves sent s s' bs \<longleftrightarrow> (case (s, s') of ((ba, k), (ba', k')) \<Rightarrow>
     sent k' = sent k @ bs \<and> ba_inv ba \<and> ba_inv ba' \<and> m_position ba' = m_position ba + length bs
     \<and> ba_data ba' = ba_data ba \<and> bs = take (length bs) (drop (m_position ba) (ba_data ba)))"

lemma ss_write_ba_moves:
  assumes "sink_ok send sent" "ba_inv ba" "0 < n"
  shows "\<exists>len s' bs. ss_write_ba connected send n (ba, k) = Inr (len, s') \<and> ba_out_moves sent (ba, k) s' bs
      \<and> (if 0 < len then len = int (length bs) \<and> length bs \<le> n \<and> ba_inv (fst s') else -1 \<le> len \<and> bs = [])"
proof (cases "connected k")
  case True
  let ?bs = "take n (drop (m_position ba) (ba_data ba))"
  obtain vs where g: "getReadBuffers ba n = Inr (min n (getReadSize ba), vs)" "iov_bytes (m_nodes ba) vs = ?bs"
    using getReadBuffers_ok [OF assms(2)] by blast
  obtain r k' where c: "send ?bs k = (r, k')" by (cases "send ?bs k")
  note snk = sink_okD [OF assms(1) c]
  have e: "ss_write_ba connected send n (ba, k) =
      (let rt = to_int r in
       if rt > 0 then rbind (setPosition ba (m_position ba + nat rt)) (\<lambda>ba3. Inr (rt, ba3, k')) else Inr (rt, ba, k'))"
    using True g c by (simp add: ss_write_ba_def)
  show ?thesis
  proof (cases "0 < r")
    case True
    then have r: "nat r \<le> length ?bs" "nat r \<le> n" "nat r \<le> length (ba_data ba) - m_position ba" using snk(1) by simp_all
    then have "m_position ba + nat r \<le> m_size ba" using True length_ba_data [OF assms(2)] ba.in_range [OF assms(2)] by auto
    then obtain ba' where ba': "setPosition ba (m_position ba + nat r) = Inr ba'" "ba_inv ba'"
      "m_position ba' = m_position ba + nat r" "ba_data ba' = ba_data ba"
      using setPosition_data [OF assms(2)] by blast
    have "ss_write_ba connected send n (ba, k) = Inr (r, ba', k')" using e snk(1) [OF True] True ba'(1) by (simp add: Let_def)
    then show ?thesis using snk(1) [OF True] True r ba' assms(2)
      by (intro exI [of _ r] exI [of _ "(ba', k')"] exI [of _ "take (nat r) ?bs"]) (auto simp: ba_out_moves_def min_absorb1)
  next
    case False
    then have "ss_write_ba connected send n (ba, k) = Inr (r, ba, k')" using e snk(2) by (simp add: Let_def)
    then show ?thesis using snk(2) False assms(2) by (auto simp: ba_out_moves_def)
  qed
next
  case False
  then show ?thesis using assms(2) by (auto simp: ss_write_ba_def ba_out_moves_def)
qed

interpretation ba_wr: transfer "\<lambda>s n. ss_write_ba connected send n s"
  "\<lambda>(ba, k) n. sink_ok send sent \<and> ba_inv ba" "ba_out_moves sent" for connected and send :: "'k send" and sent
proof unfold_locales
  fix s s' s'' :: "bytearray \<times> 'k" and xs ys :: "u8 list" and n :: nat
  show "(case s of (ba, k) \<Rightarrow> \<lambda>n. sink_ok send sent \<and> ba_inv ba) n \<Longrightarrow> ba_out_moves sent s s []"
    by (auto simp: ba_out_moves_def)
  show "ba_out_moves sent s s' xs \<Longrightarrow> ba_out_moves sent s' s'' ys \<Longrightarrow> ba_out_moves sent s s'' (xs @ ys)"
    by (cases s; cases s'; cases s'') (auto simp: ba_out_moves_def take_add_drop)
  show "(case s of (ba, k) \<Rightarrow> \<lambda>n. sink_ok send sent \<and> ba_inv ba) n \<Longrightarrow> 0 < n \<Longrightarrow>
      \<exists>len s' bs. ss_write_ba connected send n s = Inr (len, s') \<and> ba_out_moves sent s s' bs
      \<and> (if 0 < len then len = int (length bs) \<and> length bs \<le> n
           \<and> (case s' of (ba, k) \<Rightarrow> \<lambda>n. sink_ok send sent \<and> ba_inv ba) (n - length bs) else -1 \<le> len \<and> bs = [])"
    using ss_write_ba_moves [of send sent "fst s" n connected "snd s"] by (cases s) (fastforce split: if_splits)
qed

section \<open>Fixed sizes\<close>

text \<open>The result of a transfer of \<open>n\<close> bytes of which \<open>m\<close> were moved: all, or an error or end before that.\<close>

definition fix_outcome :: "nat \<Rightarrow> nat \<Rightarrow> int \<Rightarrow> bool" where
  "fix_outcome n m rt \<longleftrightarrow> rt = int n \<and> m = n \<or> rt \<in> {-1, 0} \<and> m < n"

lemma readFixSize_prefix:
  assumes "source_ok read pending" "n < 2 ^ 31" "length buf = n"
  shows "\<exists>bs rt k'. readFixSize read buf n k = Inr (rt, bs @ drop (length bs) buf, k')
       \<and> pending k = bs @ pending k' \<and> fix_outcome n (length bs) rt"
proof -
  obtain r buf' off' k' bs where r: "fix_loop (read_step read) (buf, 0, k) (to_int64 (int n)) = Inr (r, buf', off', k')"
    "buf_moves pending (buf, 0, k) (buf', off', k') bs" "fix_outcome n (length bs) (fix_return n r)"
    using rd.fix_size_transfers [of read pending "(buf, 0, k)" n] assms by (auto simp: fix_outcome_def)
  then have "length bs \<le> n" by (auto simp: fix_outcome_def)
  then have "buf' = bs @ drop (length bs) buf" using r(2) assms(3) by (simp add: buf_moves_def splice_at_def)
  then show ?thesis
    using r by (intro exI [of _ bs] exI [of _ "fix_return n r"] exI [of _ k']) (simp add: readFixSize_def buf_moves_def)
qed

text \<open>C22: readFixSize always returns. Reading \<open>n < 2^31\<close> bytes from a socket takes a prefix of the bytes that
  arrive, stores it in order at the start of the buffer, or at the cursor of the byte array, which
  moves behind it, and leaves the rest pending; the result is \<open>n\<close> exactly when all \<open>n\<close> bytes were
  stored, and otherwise 0 or -1.\<close>

theorem readFixSize_transfers:
  assumes "source_ok recv pending" "n < 2 ^ 31"
  shows "(length buf = n \<longrightarrow> (\<exists>bs rt k'. readFixSize (ss_read connected recv) buf n k = Inr (rt, bs @ drop (length bs) buf, k')
       \<and> pending k = bs @ pending k' \<and> fix_outcome n (length bs) rt))
   \<and> (ba_inv ba \<longrightarrow> (\<exists>bs rt ba' k'. readFixSize_ba (ss_read_ba connected recv) ba n k = Inr (rt, ba', k')
       \<and> pending k = bs @ pending k' \<and> ba_inv ba' \<and> m_position ba' = m_position ba + length bs
       \<and> ba_data ba' = overwrite (ba_data ba) (m_position ba) bs \<and> fix_outcome n (length bs) rt))"
proof (intro conjI impI)
  assume "length buf = n"
  then show "\<exists>bs rt k'. readFixSize (ss_read connected recv) buf n k = Inr (rt, bs @ drop (length bs) buf, k')
       \<and> pending k = bs @ pending k' \<and> fix_outcome n (length bs) rt"
    by (rule readFixSize_prefix [OF ss_read_source [OF assms(1)] assms(2)])
next
  assume "ba_inv ba"
  then obtain r ba' k' bs where r: "fix_loop (\<lambda>s n. ss_read_ba connected recv n s) (ba, k) (to_int64 (int n)) = Inr (r, ba', k')"
    "ba_in_moves pending (ba, k) (ba', k') bs" "fix_outcome n (length bs) (fix_return n r)"
    using ba_rd.fix_size_transfers [of recv pending "(ba, k)" n connected] assms by (auto simp: fix_outcome_def)
  then show "\<exists>bs rt ba' k'. readFixSize_ba (ss_read_ba connected recv) ba n k = Inr (rt, ba', k')
       \<and> pending k = bs @ pending k' \<and> ba_inv ba' \<and> m_position ba' = m_position ba + length bs
       \<and> ba_data ba' = overwrite (ba_data ba) (m_position ba) bs \<and> fix_outcome n (length bs) rt"
    by (intro exI [of _ bs] exI [of _ "fix_return n r"] exI [of _ ba'] exI [of _ k']) (simp add: readFixSize_ba_def ba_in_moves_def)
qed

text \<open>writeFixSize always returns. Writing \<open>n < 2^31\<close> bytes to a socket sends a prefix of the buffer, or of the
  unread bytes of the byte array, whose cursor moves behind it, once and in order; the result is \<open>n\<close>
  exactly when all \<open>n\<close> bytes were sent, and otherwise 0 or -1. From length \<open>2^31\<close> on the result does
  not tell: writing \<open>2^32\<close> bytes with success returns 0.\<close>

theorem writeFixSize_transfers:
  assumes "sink_ok send sent"
  shows "(length buf = n \<and> n < 2 ^ 31 \<longrightarrow> (\<exists>m rt k'. writeFixSize (ss_write connected send) buf n k = Inr (rt, k')
       \<and> sent k' = sent k @ take m buf \<and> fix_outcome n m rt))
   \<and> (ba_inv ba \<and> n < 2 ^ 31 \<longrightarrow> (\<exists>m rt ba' k'. writeFixSize_ba (ss_write_ba connected send) ba n k = Inr (rt, ba', k')
       \<and> sent k' = sent k @ take m (drop (m_position ba) (ba_data ba)) \<and> ba_inv ba' \<and> m_position ba' = m_position ba + m
       \<and> ba_data ba' = ba_data ba \<and> fix_outcome n m rt))
   \<and> fix_return (2 ^ 32) None = 0"
proof (intro conjI impI)
  assume buf: "length buf = n \<and> n < 2 ^ 31"
  then obtain r off' k' bs where r: "fix_loop (write_step (ss_write connected send) buf) (0, k) (to_int64 (int n)) = Inr (r, off', k')"
    "out_moves buf sent (0, k) (off', k') bs" "fix_outcome n (length bs) (fix_return n r)"
    using wr.fix_size_transfers [of "ss_write connected send" sent buf "(0, k)" n] ss_write_sink [OF assms] by (auto simp: fix_outcome_def)
  then have "sent k' = sent k @ bs" "bs = take (length bs) buf" unfolding out_moves_def prod.case drop_0 by blast+
  then have "sent k' = sent k @ take (length bs) buf" by metis
  then show "\<exists>m rt k'. writeFixSize (ss_write connected send) buf n k = Inr (rt, k')
       \<and> sent k' = sent k @ take m buf \<and> fix_outcome n m rt"
    using r by (intro exI [of _ "length bs"] exI [of _ "fix_return n r"] exI [of _ k']) (simp add: writeFixSize_def)
next
  assume ba: "ba_inv ba \<and> n < 2 ^ 31"
  then obtain r ba' k' bs where r: "fix_loop (\<lambda>s n. ss_write_ba connected send n s) (ba, k) (to_int64 (int n)) = Inr (r, ba', k')"
    "ba_out_moves sent (ba, k) (ba', k') bs" "fix_outcome n (length bs) (fix_return n r)"
    using ba_wr.fix_size_transfers [of send sent "(ba, k)" n connected] assms by (auto simp: fix_outcome_def)
  then have b: "sent k' = sent k @ bs" "bs = take (length bs) (drop (m_position ba) (ba_data ba))" "ba_inv ba'"
    "m_position ba' = m_position ba + length bs" "ba_data ba' = ba_data ba" unfolding ba_out_moves_def prod.case by blast+
  then have "sent k' = sent k @ take (length bs) (drop (m_position ba) (ba_data ba))" by metis
  then show "\<exists>m rt ba' k'. writeFixSize_ba (ss_write_ba connected send) ba n k = Inr (rt, ba', k')
       \<and> sent k' = sent k @ take m (drop (m_position ba) (ba_data ba)) \<and> ba_inv ba' \<and> m_position ba' = m_position ba + m
       \<and> ba_data ba' = ba_data ba \<and> fix_outcome n m rt"
    using r(1,3) b(3-5) by (intro exI [of _ "length bs"] exI [of _ "fix_return n r"] exI [of _ ba'] exI [of _ k']) (simp add: writeFixSize_ba_def)
next
  show "fix_return (2 ^ 32) None = 0" by (simp add: fix_return_def to_int_def)
qed

text \<open>A peer whose bytes arrive one by one, and one that takes one byte at a time.\<close>

definition slow_recv :: "u8 list recv" where
  "slow_recv n k = (case k of [] \<Rightarrow> (0, [], []) | b # bs \<Rightarrow> if n = 0 then (0, [], k) else (1, [b], bs))"

definition slow_send :: "u8 list send" where
  "slow_send bs k = (case bs of [] \<Rightarrow> (0, k) | b # _ \<Rightarrow> (1, k @ [b]))"

theorem readFixSize_transfers_witness:
  "\<exists>bs rt k'. readFixSize (ss_read (\<lambda>_. True) slow_recv) [0, 0, 0] 3 [7, 8, 9, 10] = Inr (rt, bs @ drop (length bs) [0, 0, 0], k')
     \<and> [7, 8, 9, 10] = bs @ k' \<and> fix_outcome 3 (length bs) rt"
proof -
  have "source_ok slow_recv id" by (auto simp: source_ok_def slow_recv_def split: list.splits if_splits)
  from conjunct1 [OF readFixSize_transfers [OF this, of 3 "[0, 0, 0]" "\<lambda>_. True" "[7, 8, 9, 10]"]] show ?thesis by simp
qed

theorem writeFixSize_transfers_witness:
  "\<exists>m rt k'. writeFixSize (ss_write (\<lambda>_. True) slow_send) [7, 8] 2 [] = Inr (rt, k') \<and> k' = take m [7, 8] \<and> fix_outcome 2 m rt"
proof -
  have "sink_ok slow_send id" by (auto simp: sink_ok_def slow_send_def split: list.splits)
  from conjunct1 [OF writeFixSize_transfers [OF this, of "[7, 8]" 2 "\<lambda>_. True" "[]"]] show ?thesis by simp
qed

end
