(* ===== verification/HttpSession.thy ===== *)
theory HttpSession
  imports Http Streams
begin

text \<open>
  Reading a request from a connection (\<open>src/http/http_parser.cc\<close>, \<open>src/http/http_session.cc\<close>). The scanner that
  Ragel generates from \<open>http11_parser.rl\<close> is a parameter, so that the loop is seen with any scanner, and
  \<open>HttpRequestText\<close> puts the machine of \<open>HttpScanner\<close> for it: given its state and the bytes of the buffer
  it returns how many bytes it took, its new state and the callbacks it made, in order. The callbacks,
  the parser object, the loop that reads the head of a request and the assembly of the body are
  modelled; \<open>cast\<close> is boost::lexical_cast, \<open>alloc n\<close> tells whether a body of \<open>n\<close> bytes can be
  allocated, \<open>shut\<close> closes the socket.
\<close>

section \<open>The parser\<close>

text \<open>A callback gets a pointer into the buffer, here the text from there to its end, and a length.\<close>

datatype request_event =
    request_method string nat
  | request_uri string nat
  | fragment string nat
  | request_path string nat
  | query_string string nat
  | http_version string nat
  | header_done string nat
  | http_field string nat string nat

record 'c scanner =
  scan_execute :: "'c \<Rightarrow> u8 list \<Rightarrow> nat \<times> 'c \<times> request_event list"
  scan_has_error :: "'c \<Rightarrow> bool"
  scan_is_finished :: "'c \<Rightarrow> bool"
  scan_init :: 'c

text \<open>
  \<open>rp_thrown\<close> is set when a callback threw. std::string(at, length) throws when \<open>length\<close> is larger than any string,
  which happens when the scanner subtracts a later position from an earlier one; all other lengths lie in
  the buffer.
\<close>

record 'c request_parser =
  rp_parser :: 'c
  rp_data :: HttpRequest
  rp_error :: int
  rp_thrown :: bool

definition HttpRequestParser :: "'c scanner \<Rightarrow> 'c request_parser" where
  "HttpRequestParser S = \<lparr>rp_parser = scan_init S, rp_data = new_HttpRequest 0x11 True, rp_error = 0, rp_thrown = False\<rparr>"

definition setError :: "int \<Rightarrow> 'c request_parser \<Rightarrow> 'c request_parser" where
  "setError v p = p\<lparr>rp_error := v\<rparr>"

definition with_text :: "string \<Rightarrow> nat \<Rightarrow> (string \<Rightarrow> 'c request_parser) \<Rightarrow> 'c request_parser \<Rightarrow> 'c request_parser" where
  "with_text at len f p = (if len \<le> length at then f (take len at) else p\<lparr>rp_thrown := True\<rparr>)"

definition on_request_method :: "string \<Rightarrow> nat \<Rightarrow> 'c request_parser \<Rightarrow> 'c request_parser" where
  "on_request_method at len p =
     (let m = CharsToHttpMethod at in
      if m = INVALID_METHOD then setError 1000 p else p\<lparr>rp_data := (rp_data p)\<lparr>rq_method := m\<rparr>\<rparr>)"

definition on_request_fragment :: "string \<Rightarrow> nat \<Rightarrow> 'c request_parser \<Rightarrow> 'c request_parser" where
  "on_request_fragment at len p = with_text at len (\<lambda>t. p\<lparr>rp_data := (rp_data p)\<lparr>rq_fragment := t\<rparr>\<rparr>) p"

definition on_request_path :: "string \<Rightarrow> nat \<Rightarrow> 'c request_parser \<Rightarrow> 'c request_parser" where
  "on_request_path at len p = with_text at len (\<lambda>t. p\<lparr>rp_data := (rp_data p)\<lparr>rq_path := t\<rparr>\<rparr>) p"

definition on_request_query :: "string \<Rightarrow> nat \<Rightarrow> 'c request_parser \<Rightarrow> 'c request_parser" where
  "on_request_query at len p = with_text at len (\<lambda>t. p\<lparr>rp_data := (rp_data p)\<lparr>rq_query := t\<rparr>\<rparr>) p"

text \<open>strncmp(a, b, n) = 0.\<close>

definition strncmp_eq :: "string \<Rightarrow> string \<Rightarrow> nat \<Rightarrow> bool" where
  "strncmp_eq a b n \<longleftrightarrow> take n (c_str a) = take n (c_str b)"

definition on_request_version :: "string \<Rightarrow> nat \<Rightarrow> 'c request_parser \<Rightarrow> 'c request_parser" where
  "on_request_version at len p =
     (if strncmp_eq at ''HTTP/1.1'' len then p\<lparr>rp_data := (rp_data p)\<lparr>rq_version := 0x11\<rparr>\<rparr>
      else if strncmp_eq at ''HTTP/1.0'' len then p\<lparr>rp_data := (rp_data p)\<lparr>rq_version := 0x10\<rparr>\<rparr>
      else setError 1001 p)"

definition on_request_http_field :: "string \<Rightarrow> nat \<Rightarrow> string \<Rightarrow> nat \<Rightarrow> 'c request_parser \<Rightarrow> 'c request_parser" where
  "on_request_http_field field flen val vlen p =
     (if flen = 0 then p
      else with_text field flen (\<lambda>f. with_text val vlen (\<lambda>v. p\<lparr>rp_data := rq_setHeader f v (rp_data p)\<rparr>) p) p)"

fun on_event :: "request_event \<Rightarrow> 'c request_parser \<Rightarrow> 'c request_parser" where
  "on_event (request_method at len) p = on_request_method at len p"
| "on_event (request_uri at len) p = p"
| "on_event (fragment at len) p = on_request_fragment at len p"
| "on_event (request_path at len) p = on_request_path at len p"
| "on_event (query_string at len) p = on_request_query at len p"
| "on_event (http_version at len) p = on_request_version at len p"
| "on_event (header_done at len) p = p"
| "on_event (http_field f fl v vl) p = on_request_http_field f fl v vl p"

definition deliver :: "request_event \<Rightarrow> 'c request_parser \<Rightarrow> 'c request_parser" where
  "deliver e p = (if rp_thrown p then p else on_event e p)"

text \<open>execute also moves the bytes that were not taken to the start of the buffer.\<close>

definition execute :: "'c scanner \<Rightarrow> 'c request_parser \<Rightarrow> u8 list \<Rightarrow> nat \<times> u8 list \<times> 'c request_parser" where
  "execute S p data =
     (case scan_execute S (rp_parser p) data of
        (off, c, evs) \<Rightarrow> (off, drop off data, fold deliver evs (p\<lparr>rp_parser := c\<rparr>)))"

definition isFinished :: "'c scanner \<Rightarrow> 'c request_parser \<Rightarrow> int" where
  "isFinished S p =
     (if scan_has_error S (rp_parser p) then -1 else if scan_is_finished S (rp_parser p) then 1 else 0)"

definition hasError :: "'c scanner \<Rightarrow> 'c request_parser \<Rightarrow> bool" where
  "hasError S p \<longleftrightarrow> rp_error p \<noteq> 0 \<or> scan_has_error S (rp_parser p)"

definition getContentLength :: "(string \<Rightarrow> u64 option) \<Rightarrow> HttpRequest \<Rightarrow> u64" where
  "getContentLength cast rq = getAs cast (rq_headers rq) ''content-length'' 0"

section \<open>The session\<close>

text \<open>
  The loop that reads until the head of a message is complete, shared by sessions and connections.
  \<open>exec\<close>, \<open>err\<close> and \<open>fin\<close> are execute, hasError and isFinished of the parser. \<open>rest\<close> is the bytes that were
  read and not taken, at the start of the buffer of \<open>cap\<close> bytes. The result is \<open>None\<close> where the code
  closes the connection.
\<close>

partial_function (option) head_loop ::
  "nat \<Rightarrow> 'k recv \<Rightarrow> ('p \<Rightarrow> u8 list \<Rightarrow> nat \<times> u8 list \<times> 'p) \<Rightarrow> ('p \<Rightarrow> bool) \<Rightarrow> ('p \<Rightarrow> bool) \<Rightarrow> 'p \<Rightarrow> u8 list \<Rightarrow> 'k
     \<Rightarrow> (('p \<times> u8 list) option \<times> 'k) option" where
  "head_loop cap read exec err fin p rest k =
     (case read (cap - length rest) k of (len, bs, k') \<Rightarrow>
      if len \<le> 0 then Some (None, k')
      else case exec p (take (length rest + nat len) (rest @ bs)) of (nparse, rest', p') \<Rightarrow>
        if err p' then Some (None, k')
        else if length rest' = cap then Some (None, k')
        else if fin p' then Some (Some (p', rest'), k')
        else head_loop cap read exec err fin p' rest' k')"

declare head_loop.simps [code]

datatype session_error = BadAlloc | BufferError ba_error

text \<open>The body, when the head announces one, and the request that is returned.\<close>

definition finish_request :: "HttpRequest \<Rightarrow> u8 list \<Rightarrow> HttpRequest" where
  "finish_request rq body = rq_init (rq\<lparr>rq_body := map char_of_byte body\<rparr>)"

definition recv_body ::
  "(string \<Rightarrow> u64 option) \<Rightarrow> (nat \<Rightarrow> bool) \<Rightarrow> 'k recv \<Rightarrow> ('k \<Rightarrow> 'k) \<Rightarrow> HttpRequest \<Rightarrow> u8 list \<Rightarrow> 'k
     \<Rightarrow> (session_error, HttpRequest option \<times> 'k) result" where
  "recv_body cast alloc read shut rq rest k =
     (let len = sint (getContentLength cast rq); offset = int (length rest) in
      if len \<le> 0 then Inr (Some (rq_init rq), k)
      else if \<not> alloc (nat len) then Inl BadAlloc
      else let part = (if len \<ge> offset then rest else take (nat len) rest); left = len - offset in
        if left \<le> 0 then Inr (Some (finish_request rq part), k)
        else case readFixSize read (replicate (nat left) 0) (nat left) k of
               Inl e \<Rightarrow> Inl (BufferError e)
             | Inr (rt, buf, k') \<Rightarrow>
                 if rt \<le> 0 then Inr (None, shut k') else Inr (Some (finish_request rq (part @ buf)), k'))"

text \<open>
  An exception leaves recvRequest and handleClient; the session object they hold closes the socket, as recvRequest does
  itself on an error.
\<close>

definition recvRequest ::
  "'c scanner \<Rightarrow> (string \<Rightarrow> u64 option) \<Rightarrow> (nat \<Rightarrow> bool) \<Rightarrow> 'k recv \<Rightarrow> ('k \<Rightarrow> 'k) \<Rightarrow> 'k
     \<Rightarrow> (session_error, HttpRequest option \<times> 'k) result option" where
  "recvRequest S cast alloc read shut k =
     (case head_loop 100 read (execute S) (\<lambda>p. rp_thrown p \<or> hasError S p) (\<lambda>p. isFinished S p \<noteq> 0) (HttpRequestParser S) [] k of
        None \<Rightarrow> None
      | Some (None, k') \<Rightarrow> Some (Inr (None, shut k'))
      | Some (Some (p, rest), k') \<Rightarrow> Some (recv_body cast alloc read shut (rp_data p) rest k'))"

definition sendResponse :: "'k send \<Rightarrow> HttpResponse \<Rightarrow> 'k \<Rightarrow> (ba_error, int \<times> 'k) result" where
  "sendResponse write rs k =
     (let data = map byte_of_char (rs_dump rs) in writeFixSize write data (length data) k)"

section \<open>Framing\<close>

text \<open>\<open>parses exec p head p'\<close>: calls of execute take the parser from \<open>p\<close> to \<open>p'\<close>, and the bytes they took are \<open>head\<close>.\<close>

inductive parses :: "('p \<Rightarrow> u8 list \<Rightarrow> nat \<times> u8 list \<times> 'p) \<Rightarrow> 'p \<Rightarrow> u8 list \<Rightarrow> 'p \<Rightarrow> bool" for exec where
  parses_none: "parses exec p [] p"
| parses_call: "exec p data = (n, rest, p1) \<Longrightarrow> parses exec p1 head p2 \<Longrightarrow> parses exec p (take n data @ head) p2"

text \<open>The bytes execute does not take stay in the buffer.\<close>

definition keeps_rest :: "('p \<Rightarrow> u8 list \<Rightarrow> nat \<times> u8 list \<times> 'p) \<Rightarrow> bool" where
  "keeps_rest exec \<longleftrightarrow> (\<forall>p data n rest p'. exec p data = (n, rest, p') \<longrightarrow> rest = drop n data)"

lemma head_loop_frames:
  assumes "source_ok read pending" "keeps_rest exec" "length rest < cap"
  shows "\<exists>r k'. head_loop cap read exec err fin p rest k = Some (r, k') \<and>
    (\<forall>p' rest'. r = Some (p', rest') \<longrightarrow> \<not> err p' \<and> fin p' \<and> length rest' < cap \<and> (\<exists>q data n. exec q data = (n, rest', p')) \<and>
       (\<exists>head. parses exec p head p' \<and> rest @ pending k = head @ rest' @ pending k'))"
  using assms(3)
proof (induction "length (pending k)" arbitrary: p rest k rule: less_induct)
  case less
  let ?loop = "head_loop cap read exec err fin"
  obtain len bs k1 where rd: "read (cap - length rest) k = (len, bs, k1)" by (cases "read (cap - length rest) k")
  show ?case
  proof (cases "0 < len")
    case False
    then show ?thesis using rd by (subst head_loop.simps) simp
  next
    case True
    then have src: "len = int (length bs)" "length bs \<le> cap - length rest" "pending k = bs @ pending k1"
      using source_okD(1) [OF assms(1) rd] by auto
    obtain n rest1 p1 where ex: "exec p (rest @ bs) = (n, rest1, p1)" by (cases "exec p (rest @ bs)")
    then have rest1: "rest1 = drop n (rest @ bs)" using assms(2) unfolding keeps_rest_def by blast
    then have len1: "length rest1 \<le> cap" using src(2) less.prems by auto
    have step: "?loop p rest k =
        (if err p1 then Some (None, k1) else if length rest1 = cap then Some (None, k1)
         else if fin p1 then Some (Some (p1, rest1), k1) else ?loop p1 rest1 k1)"
      using rd True src(1) ex by (subst head_loop.simps) simp
    have split: "rest @ pending k = take n (rest @ bs) @ rest1 @ pending k1"
      unfolding rest1 src(3) by (metis append.assoc append_take_drop_id)
    consider "err p1 \<or> length rest1 = cap" | "\<not> err p1" "length rest1 < cap" "fin p1"
      | "\<not> err p1" "length rest1 < cap" "\<not> fin p1" using len1 by fastforce
    then show ?thesis
    proof cases
      case 1
      then show ?thesis using step by auto
    next
      case 2
      moreover have "parses exec p (take n (rest @ bs)) p1" using parses_call [where exec = exec, OF ex parses_none] by simp
      ultimately show ?thesis using step split ex by auto
    next
      case 3
      have "length (pending k1) < length (pending k)" using src True by simp
      from less.hyps [OF this 3(2), of p1] obtain r k' where ih: "?loop p1 rest1 k1 = Some (r, k')"
        "\<forall>p' rest'. r = Some (p', rest') \<longrightarrow> \<not> err p' \<and> fin p' \<and> length rest' < cap \<and> (\<exists>q data n. exec q data = (n, rest', p')) \<and>
           (\<exists>head. parses exec p1 head p' \<and> rest1 @ pending k1 = head @ rest' @ pending k')" by blast
      have "?loop p rest k = Some (r, k')" using step 3 ih(1) by simp
      moreover have "\<not> err p' \<and> fin p' \<and> length rest' < cap \<and> (\<exists>q data n. exec q data = (n, rest', p')) \<and> (\<exists>head. parses exec p head p' \<and> rest @ pending k = head @ rest' @ pending k')"
        if "r = Some (p', rest')" for p' rest'
        using ih(2) that split parses_call [where exec = exec, OF ex] by (metis append.assoc)
      ultimately show ?thesis by blast
    qed
  qed
qed

text \<open>A request whose parser ended in \<open>p\<close> was scanned completely and without error.\<close>

definition complete :: "'c scanner \<Rightarrow> 'c request_parser \<Rightarrow> bool" where
  "complete S p \<longleftrightarrow> \<not> rp_thrown p \<and> \<not> hasError S p \<and> scan_is_finished S (rp_parser p)"

lemma keeps_rest_execute: "keeps_rest (execute S)"
  by (auto simp: keeps_rest_def execute_def split: prod.splits)

lemma rq_init_simps [simp]: "rq_headers (rq_init rq) = rq_headers rq" "rq_body (rq_init rq) = rq_body rq"
  by (simp_all add: rq_init_def Let_def)

text \<open>The content length as the session reads it; lengths from \<open>2^63\<close> on are negative there and no body is read.\<close>

definition body_length :: "(string \<Rightarrow> u64 option) \<Rightarrow> HttpRequest \<Rightarrow> nat" where
  "body_length cast rq = nat (sint (getContentLength cast rq))"

lemma body_length_cong [simp]:
  "body_length cast (rq_init rq) = body_length cast rq" "body_length cast (finish_request rq body) = body_length cast rq"
  by (simp_all add: body_length_def getContentLength_def finish_request_def)

lemma recv_body_headers:
  "recv_body cast alloc read shut rq rest k = Inr (Some rq', k') \<Longrightarrow> rq_headers rq' = rq_headers rq"
  by (auto simp: recv_body_def Let_def finish_request_def split: if_splits sum.splits prod.splits)

lemma recv_body_frames:
  assumes "source_ok read pending" "body_length cast rq < 2 ^ 31" "rq_body rq = []"
    "recv_body cast alloc read shut rq rest k = Inr (Some rq', k')"
  shows "rq_body rq' = map char_of_byte (take (body_length cast rq) (rest @ pending k))
     \<and> body_length cast rq \<le> length (rest @ pending k) \<and> pending k' = drop (body_length cast rq - length rest) (pending k)"
proof -
  let ?L = "sint (getContentLength cast rq)" and ?o = "int (length rest)"
  consider "?L \<le> 0" | "0 < ?L" "?L \<le> ?o" | "0 < ?L" "?o < ?L" by linarith
  then show ?thesis
  proof cases
    case 1
    then show ?thesis using assms by (auto simp: recv_body_def body_length_def)
  next
    case 2
    then show ?thesis using assms(4)
      by (auto simp: recv_body_def body_length_def Let_def finish_request_def split: if_splits)
  next
    case 3
    let ?n = "nat (?L - ?o)"
    have n: "?n < 2 ^ 31" using assms(2) 3 by (simp add: body_length_def)
    obtain bs rt k1 where rf: "readFixSize read (replicate ?n 0) ?n k = Inr (rt, bs @ drop (length bs) (replicate ?n 0), k1)"
      "pending k = bs @ pending k1" "fix_outcome ?n (length bs) rt"
      using readFixSize_prefix [OF assms(1) n, of "replicate ?n 0" k] by auto
    have "0 < rt" "k' = k1" "rq' = finish_request rq (rest @ bs @ drop (length bs) (replicate ?n 0))"
      using assms(4) 3 rf(1) by (auto simp: recv_body_def Let_def split: if_splits)
    moreover from this(1) rf(3) have "length bs = ?n" by (auto simp: fix_outcome_def)
    ultimately show ?thesis using 3 rf(2) by (auto simp: body_length_def finish_request_def nat_diff_distrib)
  qed
qed

text \<open>The callbacks never touch the body.\<close>

lemma deliver_body [simp]: "rq_body (rp_data (deliver e p)) = rq_body (rp_data p)"
  by (cases e) (auto simp: deliver_def with_text_def on_request_method_def on_request_fragment_def on_request_path_def on_request_query_def
      on_request_version_def on_request_http_field_def setError_def rq_setHeader_def Let_def)

lemma parses_body: "parses (execute S) p head p' \<Longrightarrow> rq_body (rp_data p') = rq_body (rp_data p)"
proof (induction rule: parses.induct)
  case (parses_call p data n rest p1 head p2)
  have "rq_body (rp_data (fold deliver evs q)) = rq_body (rp_data q)" for evs and q :: "'a request_parser"
    by (induction evs arbitrary: q) simp_all
  then show ?case using parses_call by (auto simp: execute_def split: prod.splits)
qed simp

text \<open>C23: Framing of requests. recvRequest returns whatever finite sequence of bytes arrives. When it returns a
  request, the bytes it received start with a head that the parser took completely and without error;
  if the announced length \<open>L\<close> is below \<open>2^31\<close>, the body is exactly the \<open>L\<close> bytes behind the head. Bytes
  that were read into the buffer with the end of the head but lie behind the body are not given to
  the next request: they are gone from the stream.\<close>

theorem recvRequest_frames:
  assumes "source_ok read pending"
  shows "\<exists>y. recvRequest S cast alloc read shut k = Some y \<and>
    (\<forall>rq k'. y = Inr (Some rq, k') \<longrightarrow>
      (\<exists>p head rest tail. parses (execute S) (HttpRequestParser S) head p \<and> complete S p \<and> rq_headers rq = rq_headers (rp_data p)
        \<and> pending k = head @ rest @ tail
        \<and> (body_length cast rq < 2 ^ 31 \<longrightarrow>
             rq_body rq = map char_of_byte (take (body_length cast rq) (rest @ tail)) \<and> body_length cast rq \<le> length (rest @ tail)
             \<and> pending k' = drop (body_length cast rq - length rest) tail)))"
proof -
  let ?loop = "head_loop 100 read (execute S) (\<lambda>p. rp_thrown p \<or> hasError S p) (\<lambda>p. isFinished S p \<noteq> 0)"
  obtain r k1 where h: "?loop (HttpRequestParser S) [] k = Some (r, k1)"
    "\<forall>p' rest'. r = Some (p', rest') \<longrightarrow> \<not> (rp_thrown p' \<or> hasError S p') \<and> isFinished S p' \<noteq> 0 \<and> length rest' < 100 \<and> (\<exists>q data n. execute S q data = (n, rest', p')) \<and>
       (\<exists>head. parses (execute S) (HttpRequestParser S) head p' \<and> [] @ pending k = head @ rest' @ pending k1)"
    using head_loop_frames [OF assms keeps_rest_execute, of "[]" 100 S "\<lambda>p. rp_thrown p \<or> hasError S p" "\<lambda>p. isFinished S p \<noteq> 0" "HttpRequestParser S" k] by auto
  show ?thesis
  proof (cases r)
    case None
    then show ?thesis using h(1) by (simp add: recvRequest_def)
  next
    case (Some pr)
    obtain p rest where pr: "pr = (p, rest)" by (cases pr)
    then obtain head where head: "complete S p" "parses (execute S) (HttpRequestParser S) head p" "pending k = head @ rest @ pending k1"
      using h(2) Some by (auto simp: complete_def isFinished_def hasError_def split: if_splits)
    have body: "rq_body (rp_data p) = []"
      using parses_body [OF head(2)] by (simp add: HttpRequestParser_def new_HttpRequest_def)
    have y: "recvRequest S cast alloc read shut k = Some (recv_body cast alloc read shut (rp_data p) rest k1)"
      using h(1) Some pr by (simp add: recvRequest_def)
    have "\<exists>p head rest tail. parses (execute S) (HttpRequestParser S) head p \<and> complete S p \<and> rq_headers rq = rq_headers (rp_data p)
        \<and> pending k = head @ rest @ tail
        \<and> (body_length cast rq < 2 ^ 31 \<longrightarrow>
             rq_body rq = map char_of_byte (take (body_length cast rq) (rest @ tail)) \<and> body_length cast rq \<le> length (rest @ tail)
             \<and> pending k' = drop (body_length cast rq - length rest) tail)"
      if b: "recv_body cast alloc read shut (rp_data p) rest k1 = Inr (Some rq, k')" for rq k'
    proof -
      have "body_length cast rq = body_length cast (rp_data p)"
        using recv_body_headers [OF b] by (simp add: body_length_def getContentLength_def)
      then show ?thesis using head recv_body_headers [OF b] recv_body_frames [OF assms _ body b] by metis
    qed
    then show ?thesis using y by blast
  qed
qed

text \<open>A scanner that takes everything up to the first line feed.\<close>

definition line_scanner :: "bool scanner" where
  "line_scanner = \<lparr>scan_execute = \<lambda>c data. if 10 \<in> set data then (Suc (length (takeWhile (\<lambda>b. b \<noteq> 10) data)), True, []) else (length data, c, []),
     scan_has_error = \<lambda>c. False, scan_is_finished = id, scan_init = False\<rparr>"

definition bulk_recv :: "u8 list recv" where
  "bulk_recv n k = (int (length (take (min n 100) k)), take (min n 100) k, drop (min n 100) k)"

theorem recvRequest_frames_witness:
  "recvRequest line_scanner (\<lambda>_. None) (\<lambda>_. True) bulk_recv id [71, 10, 5] = Some (Inr (Some (new_HttpRequest 0x11 True), []))
   \<and> (\<exists>p head rest. parses (execute line_scanner) (HttpRequestParser line_scanner) head p \<and> complete line_scanner p \<and> [71, 10, 5] = head @ rest)"
proof -
  have ok: "source_ok bulk_recv id" by (auto simp: source_ok_def bulk_recv_def)
  have e: "recvRequest line_scanner (\<lambda>_. None) (\<lambda>_. True) bulk_recv id [71, 10, 5] = Some (Inr (Some (new_HttpRequest 0x11 True), []))"
    unfolding recvRequest_def
    by (subst head_loop.simps)
      (simp add: bulk_recv_def execute_def line_scanner_def HttpRequestParser_def hasError_def isFinished_def recv_body_def
        getContentLength_def getAs_def new_HttpRequest_def rq_init_def rq_getHeader_def map_get_def)
  from recvRequest_frames [OF ok, of line_scanner "\<lambda>_. None" "\<lambda>_. True" id "[71, 10, 5]"]
  have "\<exists>p head rest tail. parses (execute line_scanner) (HttpRequestParser line_scanner) head p \<and> complete line_scanner p \<and> [71, 10, 5] = head @ rest @ tail"
    unfolding e by fastforce
  then show ?thesis using e by blast
qed

end
