(* ===== verification/HttpConnection.thy ===== *)
theory HttpConnection
  imports HttpSession
begin

text \<open>
  Reading a response from a connection (\<open>src/http/http_parser.cc\<close>, \<open>src/http/http_connection.cc\<close>), with a
  body of a known length or in chunks. As for requests the scanner that Ragel generates, here from
  \<open>httpclient_parser.rl\<close>, is a parameter, for which \<open>HttpResponseText\<close> puts the machine of \<open>ClientScanner\<close>; \<open>cap\<close> is the size of the buffer, taken from the configuration.
\<close>

section \<open>The parser\<close>

datatype response_event =
    reason_phrase string nat
  | status_code string nat
  | chunk_size string nat
  | rs_http_version string nat
  | rs_header_done string nat
  | last_chunk string nat
  | rs_http_field string nat string nat

record 'c client_scanner =
  client_execute :: "'c \<Rightarrow> u8 list \<Rightarrow> nat \<times> 'c \<times> response_event list"
  client_has_error :: "'c \<Rightarrow> bool"
  client_is_finished :: "'c \<Rightarrow> bool"
  client_init :: "'c \<Rightarrow> 'c"
  client_new :: 'c
  chunked :: "'c \<Rightarrow> bool"
  chunks_done :: "'c \<Rightarrow> bool"
  content_len :: "'c \<Rightarrow> int"

record 'c response_parser =
  sp_parser :: 'c
  sp_data :: HttpResponse
  sp_error :: int

definition HttpResponseParser :: "'c client_scanner \<Rightarrow> 'c response_parser" where
  "HttpResponseParser S = \<lparr>sp_parser = client_init S (client_new S), sp_data = new_HttpResponse 0x11 True, sp_error = 0\<rparr>"

definition on_response_reason :: "string \<Rightarrow> nat \<Rightarrow> 'c response_parser \<Rightarrow> 'c response_parser" where
  "on_response_reason at len p = p\<lparr>sp_data := (sp_data p)\<lparr>rs_reason := take len at\<rparr>\<rparr>"

text \<open>atoi: blanks, a sign and the digits that follow.\<close>

definition atoi :: "string \<Rightarrow> int" where
  "atoi s =
     (let t = dropWhile (\<lambda>c. c = CHR '' '' \<or> of_char c \<in> {9..(13 :: nat)}) (c_str s);
          neg = (t \<noteq> [] \<and> hd t = CHR ''-'');
          t = (if t \<noteq> [] \<and> (hd t = CHR ''-'' \<or> hd t = CHR ''+'') then tl t else t);
          v = int (num_value 10 (takeWhile (\<lambda>c. of_char c \<in> {48..(57 :: nat)}) t))
      in if neg then - v else v)"

definition on_response_status :: "string \<Rightarrow> nat \<Rightarrow> 'c response_parser \<Rightarrow> 'c response_parser" where
  "on_response_status at len p = p\<lparr>sp_data := (sp_data p)\<lparr>rs_status := word_of_int (atoi at)\<rparr>\<rparr>"

definition on_response_version :: "string \<Rightarrow> nat \<Rightarrow> 'c response_parser \<Rightarrow> 'c response_parser" where
  "on_response_version at len p =
     (if strncmp_eq at ''HTTP/1.1'' len then p\<lparr>sp_data := (sp_data p)\<lparr>rs_version := 0x11\<rparr>\<rparr>
      else if strncmp_eq at ''HTTP/1.0'' len then p\<lparr>sp_data := (sp_data p)\<lparr>rs_version := 0x10\<rparr>\<rparr>
      else p\<lparr>sp_error := 1001\<rparr>)"

definition on_response_http_field :: "string \<Rightarrow> nat \<Rightarrow> string \<Rightarrow> nat \<Rightarrow> 'c response_parser \<Rightarrow> 'c response_parser" where
  "on_response_http_field field flen val vlen p =
     (if flen = 0 then p else p\<lparr>sp_data := rs_setHeader (take flen field) (take vlen val) (sp_data p)\<rparr>)"

fun on_response_event :: "response_event \<Rightarrow> 'c response_parser \<Rightarrow> 'c response_parser" where
  "on_response_event (reason_phrase at len) p = on_response_reason at len p"
| "on_response_event (status_code at len) p = on_response_status at len p"
| "on_response_event (chunk_size at len) p = p"
| "on_response_event (rs_http_version at len) p = on_response_version at len p"
| "on_response_event (rs_header_done at len) p = p"
| "on_response_event (last_chunk at len) p = p"
| "on_response_event (rs_http_field f fl v vl) p = on_response_http_field f fl v vl p"

definition rs_execute :: "'c client_scanner \<Rightarrow> bool \<Rightarrow> 'c response_parser \<Rightarrow> u8 list \<Rightarrow> nat \<times> u8 list \<times> 'c response_parser" where
  "rs_execute S chunck p data =
     (let c = (if chunck then client_init S (sp_parser p) else sp_parser p) in
      case client_execute S c data of
        (off, c', evs) \<Rightarrow> (off, drop off data, fold on_response_event evs (p\<lparr>sp_parser := c'\<rparr>)))"

definition rs_isFinished :: "'c client_scanner \<Rightarrow> 'c response_parser \<Rightarrow> int" where
  "rs_isFinished S p =
     (if client_has_error S (sp_parser p) then -1 else if client_is_finished S (sp_parser p) then 1 else 0)"

definition rs_hasError :: "'c client_scanner \<Rightarrow> 'c response_parser \<Rightarrow> bool" where
  "rs_hasError S p \<longleftrightarrow> sp_error p \<noteq> 0 \<or> client_has_error S (sp_parser p)"

definition rs_getContentLength :: "(string \<Rightarrow> u64 option) \<Rightarrow> HttpResponse \<Rightarrow> u64" where
  "rs_getContentLength cast rs = getAs cast (rs_headers rs) ''content-length'' 0"

section \<open>Chunks\<close>

text \<open>The inner loop that parses the head of a chunk; it reads first only when the buffer is empty.\<close>

definition chunk_head ::
  "nat \<Rightarrow> 'k recv \<Rightarrow> 'c client_scanner \<Rightarrow> 'c response_parser \<Rightarrow> u8 list \<Rightarrow> 'k \<Rightarrow> (('c response_parser \<times> u8 list) option \<times> 'k) option" where
  "chunk_head cap read S p data k =
     (let loop = head_loop cap read (rs_execute S True) (rs_hasError S) (\<lambda>p. rs_isFinished S p \<noteq> 0) in
      if data = [] then loop p [] k
      else case rs_execute S True p data of (nparse, rest, p') \<Rightarrow>
        if rs_hasError S p' then Some (None, k)
        else if length rest = cap then Some (None, k)
        else if rs_isFinished S p' \<noteq> 0 then Some (Some (p', rest), k)
        else loop p' rest k)"

text \<open>The loop that reads what is left of a chunk and its line end, appended to the body.\<close>

function left_loop :: "nat \<Rightarrow> 'k recv \<Rightarrow> int \<Rightarrow> u8 list \<Rightarrow> 'k \<Rightarrow> u8 list option \<times> 'k" where
  "left_loop cap read left body k =
     (if left > 0 then
        (case read (if left > int cap then cap else nat left) k of (rt, bs, k') \<Rightarrow>
           if rt \<le> 0 then (None, k') else left_loop cap read (left - rt) (body @ take (nat rt) bs) k')
      else (Some body, k))"
  by pat_completeness auto
termination
  by (relation "measure (\<lambda>(cap, read, left, body, k). nat left)") auto

declare left_loop.simps [simp del]

datatype connection_error = ResponseAlloc | LengthError | ResponseBuffer ba_error

text \<open>
  One chunk of \<open>n\<close> bytes behind its head: the body so far, the unread bytes of the buffer. Appending a
  negative number of bytes, and shrinking a body of less than two bytes by two, throw length_error.
\<close>

definition copy_chunk :: "nat \<Rightarrow> 'k recv \<Rightarrow> int \<Rightarrow> u8 list \<Rightarrow> u8 list \<Rightarrow> 'k \<Rightarrow> (connection_error, (u8 list \<times> u8 list) option \<times> 'k) result" where
  "copy_chunk cap read n body data k =
     (if n + 2 \<le> int (length data) then
        if n < 0 then Inl LengthError
        else Inr (Some (body @ take (nat n) data, drop (nat n + 2) data), k)
      else case left_loop cap read (n - int (length data) + 2) (body @ data) k of
          (None, k') \<Rightarrow> Inr (None, k')
        | (Some b, k') \<Rightarrow> if length b < 2 then Inl LengthError else Inr (Some (take (length b - 2) b, []), k'))"

partial_function (option) chunks_loop ::
  "nat \<Rightarrow> 'k recv \<Rightarrow> 'c client_scanner \<Rightarrow> 'c response_parser \<Rightarrow> u8 list \<Rightarrow> u8 list \<Rightarrow> 'k
     \<Rightarrow> (connection_error, ('c response_parser \<times> u8 list) option \<times> 'k) result option" where
  "chunks_loop cap read S p body data k =
     (case chunk_head cap read S p data k of
        None \<Rightarrow> None
      | Some (None, k') \<Rightarrow> Some (Inr (None, k'))
      | Some (Some (p', data'), k') \<Rightarrow>
          (case copy_chunk cap read (content_len S (sp_parser p')) body data' k' of
             Inl e \<Rightarrow> Some (Inl e)
           | Inr (None, k'') \<Rightarrow> Some (Inr (None, k''))
           | Inr (Some (body', data''), k'') \<Rightarrow>
               if chunks_done S (sp_parser p') then Some (Inr (Some (p', body'), k''))
               else chunks_loop cap read S p' body' data'' k''))"

declare chunks_loop.simps [code]

section \<open>Responses\<close>

definition rs_finish :: "HttpResponse \<Rightarrow> u8 list \<Rightarrow> HttpResponse" where
  "rs_finish rs body = (if body = [] then rs else rs\<lparr>rs_body := map char_of_byte body\<rparr>)"

definition rs_recv_body ::
  "(string \<Rightarrow> u64 option) \<Rightarrow> (nat \<Rightarrow> bool) \<Rightarrow> 'k recv \<Rightarrow> ('k \<Rightarrow> 'k) \<Rightarrow> HttpResponse \<Rightarrow> u8 list \<Rightarrow> 'k
     \<Rightarrow> (connection_error, HttpResponse option \<times> 'k) result" where
  "rs_recv_body cast alloc read shut rs rest k =
     (let len = sint (rs_getContentLength cast rs); offset = int (length rest) in
      if len \<le> 0 then Inr (Some (rs_finish rs []), k)
      else if \<not> alloc (nat len) then Inl ResponseAlloc
      else let part = (if len \<ge> offset then rest else take (nat len) rest); left = len - offset in
        if left \<le> 0 then Inr (Some (rs_finish rs part), k)
        else case readFixSize read (replicate (nat left) 0) (nat left) k of
               Inl e \<Rightarrow> Inl (ResponseBuffer e)
             | Inr (rt, buf, k') \<Rightarrow>
                 if rt \<le> 0 then Inr (None, shut k') else Inr (Some (rs_finish rs (part @ buf)), k'))"

definition recvResponse ::
  "nat \<Rightarrow> 'c client_scanner \<Rightarrow> (string \<Rightarrow> u64 option) \<Rightarrow> (nat \<Rightarrow> bool) \<Rightarrow> 'k recv \<Rightarrow> ('k \<Rightarrow> 'k) \<Rightarrow> 'k
     \<Rightarrow> (connection_error, HttpResponse option \<times> 'k) result option" where
  "recvResponse cap S cast alloc read shut k =
     (case head_loop cap read (rs_execute S False) (rs_hasError S) (\<lambda>p. rs_isFinished S p \<noteq> 0) (HttpResponseParser S) [] k of
        None \<Rightarrow> None
      | Some (None, k') \<Rightarrow> Some (Inr (None, shut k'))
      | Some (Some (p, rest), k') \<Rightarrow>
          if chunked S (sp_parser p) then
            (case chunks_loop cap read S p [] rest k' of
               None \<Rightarrow> None
             | Some (Inl e) \<Rightarrow> Some (Inl e)
             | Some (Inr (None, k'')) \<Rightarrow> Some (Inr (None, shut k''))
             | Some (Inr (Some (p', body), k'')) \<Rightarrow> Some (Inr (Some (rs_finish (sp_data p') body), k'')))
          else Some (rs_recv_body cast alloc read shut (sp_data p) rest k'))"

definition sendRequest :: "'k send \<Rightarrow> HttpRequest \<Rightarrow> 'k \<Rightarrow> (ba_error, int \<times> 'k) result" where
  "sendRequest write rq k =
     (let data = map byte_of_char (rq_dump rq) in writeFixSize write data (length data) k)"

section \<open>Framing\<close>

lemma keeps_rest_rs_execute: "keeps_rest (rs_execute S chunck)"
  by (auto simp: keeps_rest_def rs_execute_def Let_def split: prod.splits)

text \<open>
  The stream of a chunked body: heads the parser takes, each followed by as many bytes as it announces and a
  line end of two bytes, up to the head that is the last. \<open>rest\<close> is what follows.
\<close>

definition head_done :: "'c client_scanner \<Rightarrow> 'c response_parser \<Rightarrow> bool" where
  "head_done S p \<longleftrightarrow> \<not> rs_hasError S p \<and> client_is_finished S (sp_parser p)"

inductive chunk_stream ::
  "'c client_scanner \<Rightarrow> 'c response_parser \<Rightarrow> u8 list \<Rightarrow> u8 list \<Rightarrow> 'c response_parser \<Rightarrow> u8 list \<Rightarrow> bool" for S where
  last: "parses (rs_execute S True) p head p1 \<Longrightarrow> head_done S p1 \<Longrightarrow> content_len S (sp_parser p1) = int (length chunk) \<Longrightarrow>
    length eol = 2 \<Longrightarrow> chunks_done S (sp_parser p1) \<Longrightarrow> chunk_stream S p (head @ chunk @ eol @ rest) chunk p1 rest"
| more: "parses (rs_execute S True) p head p1 \<Longrightarrow> head_done S p1 \<Longrightarrow> content_len S (sp_parser p1) = int (length chunk) \<Longrightarrow>
    length eol = 2 \<Longrightarrow> \<not> chunks_done S (sp_parser p1) \<Longrightarrow> chunk_stream S p1 stream body p2 rest \<Longrightarrow>
    chunk_stream S p (head @ chunk @ eol @ stream) (chunk @ body) p2 rest"

text \<open>Chunk sizes that fit an int: the field content_len of a finished head of a chunk is not negative.\<close>

definition sizes_fit :: "'c client_scanner \<Rightarrow> bool" where
  "sizes_fit S \<longleftrightarrow> (\<forall>q data n rest p. rs_execute S True q data = (n, rest, p) \<longrightarrow> client_is_finished S (sp_parser p) \<longrightarrow>
     0 \<le> content_len S (sp_parser p))"

lemma finished_head: "\<not> rs_hasError S p \<Longrightarrow> rs_isFinished S p \<noteq> 0 \<Longrightarrow> head_done S p"
  by (auto simp: head_done_def rs_hasError_def rs_isFinished_def split: if_splits)

lemma chunk_head_frames:
  assumes "source_ok read pending" "length data < cap"
  shows "\<exists>r k'. chunk_head cap read S p data k = Some (r, k') \<and>
    (\<forall>p' rest'. r = Some (p', rest') \<longrightarrow> head_done S p' \<and> length rest' < cap \<and> (\<exists>q d n. rs_execute S True q d = (n, rest', p')) \<and>
       (\<exists>head. parses (rs_execute S True) p head p' \<and> data @ pending k = head @ rest' @ pending k'))"
proof -
  let ?ex = "rs_execute S True" and ?err = "rs_hasError S" and ?fin = "\<lambda>p. rs_isFinished S p \<noteq> 0"
  have loop: "\<exists>r k'. head_loop cap read ?ex ?err ?fin q rest k = Some (r, k') \<and>
    (\<forall>p' rest'. r = Some (p', rest') \<longrightarrow> head_done S p' \<and> length rest' < cap \<and> (\<exists>q d n. ?ex q d = (n, rest', p')) \<and>
       (\<exists>head. parses ?ex q head p' \<and> rest @ pending k = head @ rest' @ pending k'))" if "length rest < cap" for q rest
    using head_loop_frames [OF assms(1) keeps_rest_rs_execute that, of S True ?err ?fin q k] finished_head by blast
  show ?thesis
  proof (cases "data = []")
    case True
    then show ?thesis using loop [of "[]" p] assms(2) by (simp add: chunk_head_def)
  next
    case False
    obtain n rest p1 where ex: "?ex p data = (n, rest, p1)" by (cases "?ex p data")
    then have rest: "rest = drop n data" using keeps_rest_rs_execute [of S True] unfolding keeps_rest_def by blast
    have head: "chunk_head cap read S p data k =
        (if ?err p1 then Some (None, k) else if length rest = cap then Some (None, k)
         else if ?fin p1 then Some (Some (p1, rest), k) else head_loop cap read ?ex ?err ?fin p1 rest k)"
      using False ex by (simp add: chunk_head_def)
    have len: "length rest < cap" using rest assms(2) by simp
    have call: "parses ?ex p (take n data @ h) p2" if "parses ?ex p1 h p2" for h p2
      using parses_call [where exec = ?ex, OF ex that] .
    have split: "data @ x = take n data @ rest @ x" for x unfolding rest by (metis append.assoc append_take_drop_id)
    obtain r k' where l: "head_loop cap read ?ex ?err ?fin p1 rest k = Some (r, k')"
      "\<forall>p' rest'. r = Some (p', rest') \<longrightarrow> head_done S p' \<and> length rest' < cap \<and> (\<exists>q d n. ?ex q d = (n, rest', p')) \<and>
         (\<exists>head. parses ?ex p1 head p' \<and> rest @ pending k = head @ rest' @ pending k')"
      using loop [OF len] by blast
    consider "?err p1" | "\<not> ?err p1" "?fin p1" | "\<not> ?err p1" "\<not> ?fin p1" by blast
    then show ?thesis
    proof cases
      case 1
      then show ?thesis using head by simp
    next
      case 2
      then show ?thesis using head len ex finished_head [OF 2] call [OF parses_none] split [of "pending k"] by auto
    next
      case 3
      have "chunk_head cap read S p data k = Some (r, k')" using head len 3 l(1) by simp
      moreover have "\<exists>head. parses ?ex p head p' \<and> data @ pending k = head @ rest' @ pending k'"
        if "\<exists>head. parses ?ex p1 head p' \<and> rest @ pending k = head @ rest' @ pending k'" for p' rest'
        using that call split [of "pending k"] by (metis append.assoc)
      ultimately show ?thesis using l(2) by blast
    qed
  qed
qed

lemma left_loop_frames:
  assumes "source_ok read pending" "0 < cap"
  shows "\<exists>r k'. left_loop cap read (int m) body k = (r, k') \<and>
    (\<forall>b. r = Some b \<longrightarrow> (\<exists>bs. length bs = m \<and> b = body @ bs \<and> pending k = bs @ pending k'))"
proof (induction m arbitrary: body k rule: less_induct)
  case (less m)
  show ?case
  proof (cases "m = 0")
    case True
    then show ?thesis by (simp add: left_loop.simps)
  next
    case False
    let ?n = "if int m > int cap then cap else nat (int m)"
    obtain rt bs k1 where rd: "read ?n k = (rt, bs, k1)" by (cases "read ?n k")
    have step: "left_loop cap read (int m) body k =
        (if rt \<le> 0 then (None, k1) else left_loop cap read (int m - rt) (body @ take (nat rt) bs) k1)"
      using False rd by (subst left_loop.simps) simp
    show ?thesis
    proof (cases "0 < rt")
      case True
      then have src: "rt = int (length bs)" "length bs \<le> m" "pending k = bs @ pending k1" "bs \<noteq> []"
        using source_okD(1) [OF assms(1) rd] by (auto split: if_splits)
      have "m - length bs < m" using src False by simp
      from less.IH [OF this, of "body @ bs" k1] obtain r k' where ih: "left_loop cap read (int (m - length bs)) (body @ bs) k1 = (r, k')"
        "\<forall>b. r = Some b \<longrightarrow> (\<exists>cs. length cs = m - length bs \<and> b = (body @ bs) @ cs \<and> pending k1 = cs @ pending k')" by blast
      have "left_loop cap read (int m) body k = (r, k')" using step True src(1,2) ih(1) by (simp add: of_nat_diff)
      moreover have "\<exists>cs. length cs = m \<and> b = body @ cs \<and> pending k = cs @ pending k'" if "r = Some b" for b
        using ih(2) that src(2,3) by (metis append.assoc le_add_diff_inverse length_append)
      ultimately show ?thesis by blast
    next
      case False
      then show ?thesis using step by simp
    qed
  qed
qed

lemma copy_chunk_frames:
  assumes "source_ok read pending" "length data < cap" "n = int m"
  shows "\<exists>r k'. copy_chunk cap read n body data k = Inr (r, k') \<and>
    (\<forall>body' data'. r = Some (body', data') \<longrightarrow> length data' < cap \<and>
       (\<exists>chunk eol. length chunk = m \<and> length eol = 2 \<and> data @ pending k = chunk @ eol @ data' @ pending k' \<and> body' = body @ chunk))"
proof (cases "n + 2 \<le> int (length data)")
  case True
  have "data @ pending k = take m data @ take 2 (drop m data) @ drop (m + 2) data @ pending k"
    by (metis add.commute append.assoc append_take_drop_id drop_drop)
  moreover have "length (take m data) = m" "length (take 2 (drop m data)) = 2" using True assms(3) by auto
  ultimately have "\<exists>chunk eol. length chunk = m \<and> length eol = 2 \<and> data @ pending k = chunk @ eol @ drop (m + 2) data @ pending k
      \<and> body @ take m data = body @ chunk" by blast
  moreover have "copy_chunk cap read n body data k = Inr (Some (body @ take m data, drop (m + 2) data), k)"
    using True assms(3) by (simp add: copy_chunk_def)
  moreover have "length (drop (m + 2) data) < cap" using assms(2) by simp
  ultimately show ?thesis by blast
next
  case False
  let ?l = "m + 2 - length data"
  have l: "n - int (length data) + 2 = int ?l" using False assms(3) by simp
  have "0 < cap" using assms(2) by simp
  from left_loop_frames [OF assms(1) this, of ?l "body @ data" k] obtain r k' where r:
    "left_loop cap read (int ?l) (body @ data) k = (r, k')"
    "\<forall>b. r = Some b \<longrightarrow> (\<exists>bs. length bs = ?l \<and> b = (body @ data) @ bs \<and> pending k = bs @ pending k')" by blast
  show ?thesis
  proof (cases r)
    case None
    then show ?thesis using False r(1) l by (simp add: copy_chunk_def)
  next
    case (Some b)
    then obtain bs where bs: "length bs = ?l" "b = (body @ data) @ bs" "pending k = bs @ pending k'" using r(2) by blast
    let ?d = "data @ bs"
    have len: "length ?d = m + 2" using bs(1) False assms(3) by simp
    have b: "b = body @ ?d" using bs(2) by simp
    have "take (length b - 2) b = body @ take m ?d" using len unfolding b by simp
    moreover have "2 \<le> length b" using len unfolding b by simp
    ultimately have "copy_chunk cap read n body data k = Inr (Some (body @ take m ?d, []), k')"
      using False r(1) Some l by (simp add: copy_chunk_def)
    moreover have "data @ pending k = take m ?d @ drop m ?d @ [] @ pending k'"
      unfolding bs(3) by (metis append.assoc append_Nil append_take_drop_id)
    moreover have "length (take m ?d) = m" "length (drop m ?d) = 2" using len by simp_all
    ultimately show ?thesis using \<open>0 < cap\<close> by (metis list.size(3) option.inject prod.inject)
  qed
qed

lemma chunks_loop_frames:
  assumes "source_ok read pending" "sizes_fit S" "length data < cap"
  shows "\<exists>r k'. chunks_loop cap read S p body data k = Some (Inr (r, k')) \<and>
    (\<forall>p' b. r = Some (p', b) \<longrightarrow> (\<exists>bs lost. b = body @ bs \<and> chunk_stream S p (data @ pending k) bs p' (lost @ pending k')))"
  using assms(3)
proof (induction "length data + length (pending k)" arbitrary: p body data k rule: less_induct)
  case less
  obtain r1 k1 where h: "chunk_head cap read S p data k = Some (r1, k1)"
    "\<forall>p' rest'. r1 = Some (p', rest') \<longrightarrow> head_done S p' \<and> length rest' < cap \<and> (\<exists>q d n. rs_execute S True q d = (n, rest', p')) \<and>
       (\<exists>head. parses (rs_execute S True) p head p' \<and> data @ pending k = head @ rest' @ pending k1)"
    using chunk_head_frames [OF assms(1) less.prems] by blast
  show ?case
  proof (cases r1)
    case None
    then show ?thesis using h(1) by (subst chunks_loop.simps) simp
  next
    case (Some pr)
    obtain p1 rest where pr: "pr = (p1, rest)" by (cases pr)
    then obtain q d n head where p1: "head_done S p1" "length rest < cap" "rs_execute S True q d = (n, rest, p1)"
      "parses (rs_execute S True) p head p1" "data @ pending k = head @ rest @ pending k1" using h(2) Some by blast
    let ?c = "content_len S (sp_parser p1)"
    have "0 \<le> ?c" using assms(2) p1(1,3) unfolding sizes_fit_def head_done_def by blast
    then obtain m where m: "?c = int m" using nonneg_int_cases by blast
    obtain r2 k2 where c: "copy_chunk cap read ?c body rest k1 = Inr (r2, k2)"
      "\<forall>body' data'. r2 = Some (body', data') \<longrightarrow> length data' < cap \<and>
         (\<exists>chunk eol. length chunk = m \<and> length eol = 2 \<and> rest @ pending k1 = chunk @ eol @ data' @ pending k2 \<and> body' = body @ chunk)"
      using copy_chunk_frames [OF assms(1) p1(2) m] by blast
    have step: "chunks_loop cap read S p body data k =
        (case r2 of None \<Rightarrow> Some (Inr (None, k2))
         | Some (body', data') \<Rightarrow> if chunks_done S (sp_parser p1) then Some (Inr (Some (p1, body'), k2))
             else chunks_loop cap read S p1 body' data' k2)"
      using h(1) Some pr c(1) by (subst chunks_loop.simps) (simp split: option.splits)
    show ?thesis
    proof (cases r2)
      case None
      then show ?thesis using step by simp
    next
      case r2: (Some bd)
      obtain body' data' where bd: "bd = (body', data')" by (cases bd)
      then obtain chunk eol where ch: "length chunk = m" "length eol = 2" "rest @ pending k1 = chunk @ eol @ data' @ pending k2"
        "body' = body @ chunk" "length data' < cap" using c(2) r2 by blast
      have stream: "data @ pending k = head @ chunk @ eol @ data' @ pending k2" using p1(5) ch(3) by simp
      have size: "?c = int (length chunk)" using m ch(1) by simp
      show ?thesis
      proof (cases "chunks_done S (sp_parser p1)")
        case True
        have "chunk_stream S p (data @ pending k) chunk p1 (data' @ pending k2)"
          unfolding stream by (rule chunk_stream.last [OF p1(4,1) size ch(2) True])
        then show ?thesis using step r2 bd True ch(4) by auto
      next
        case False
        have "length data' + length (pending k2) < length data + length (pending k)"
          using arg_cong [OF stream, of length] ch(2) by simp
        from less.hyps [OF this ch(5), of p1 body'] obtain r k' where ih: "chunks_loop cap read S p1 body' data' k2 = Some (Inr (r, k'))"
          "\<forall>p' b. r = Some (p', b) \<longrightarrow> (\<exists>bs lost. b = body' @ bs \<and> chunk_stream S p1 (data' @ pending k2) bs p' (lost @ pending k'))" by blast
        have "\<exists>bs lost. b = body @ bs \<and> chunk_stream S p (data @ pending k) bs p' (lost @ pending k')" if rb: "r = Some (p', b)" for p' b
        proof -
          obtain bs lost where bl: "b = body' @ bs" "chunk_stream S p1 (data' @ pending k2) bs p' (lost @ pending k')" using ih(2) rb by blast
          have "chunk_stream S p (data @ pending k) (chunk @ bs) p' (lost @ pending k')"
            unfolding stream by (rule chunk_stream.more [OF p1(4,1) size ch(2) False bl(2)])
          then show ?thesis using bl(1) ch(4) by auto
        qed
        then show ?thesis using step r2 bd False ih(1) by simp
      qed
    qed
  qed
qed

section \<open>Bodies\<close>

definition rs_body_length :: "(string \<Rightarrow> u64 option) \<Rightarrow> HttpResponse \<Rightarrow> nat" where
  "rs_body_length cast rs = nat (sint (rs_getContentLength cast rs))"

lemma rs_recv_body_frames:
  assumes "source_ok read pending" "rs_body_length cast rs < 2 ^ 31"
    "rs_recv_body cast alloc read shut rs rest k = Inr (Some rs', k')"
  shows "rs' = rs_finish rs (take (rs_body_length cast rs) (rest @ pending k))
     \<and> rs_body_length cast rs \<le> length (rest @ pending k) \<and> pending k' = drop (rs_body_length cast rs - length rest) (pending k)"
proof -
  let ?L = "sint (rs_getContentLength cast rs)" and ?o = "int (length rest)"
  consider "?L \<le> 0" | "0 < ?L" "?L \<le> ?o" | "0 < ?L" "?o < ?L" by linarith
  then show ?thesis
  proof cases
    case 1
    then show ?thesis using assms by (auto simp: rs_recv_body_def rs_body_length_def)
  next
    case 2
    then show ?thesis using assms(3)
      by (auto simp: rs_recv_body_def rs_body_length_def Let_def split: if_splits)
  next
    case 3
    let ?n = "nat (?L - ?o)"
    have n: "?n < 2 ^ 31" using assms(2) 3 by (simp add: rs_body_length_def)
    obtain bs rt k1 where rf: "readFixSize read (replicate ?n 0) ?n k = Inr (rt, bs @ drop (length bs) (replicate ?n 0), k1)"
      "pending k = bs @ pending k1" "fix_outcome ?n (length bs) rt"
      using readFixSize_prefix [OF assms(1) n, of "replicate ?n 0" k] by auto
    have "0 < rt" "k' = k1" "rs' = rs_finish rs (rest @ bs @ drop (length bs) (replicate ?n 0))"
      using assms(3) 3 rf(1) by (auto simp: rs_recv_body_def Let_def split: if_splits)
    moreover from this(1) rf(3) have "length bs = ?n" by (auto simp: fix_outcome_def)
    ultimately show ?thesis using 3 rf(2) by (auto simp: rs_body_length_def nat_diff_distrib)
  qed
qed


text \<open>A scanner of lines in which the first byte of a line is the size of a chunk.\<close>

definition line_client :: "(int \<times> bool) client_scanner" where
  "line_client = \<lparr>client_execute = \<lambda>(n, f) data. if 10 \<in> set data
        then (Suc (length (takeWhile (\<lambda>b. b \<noteq> 10) data)), (uint (hd data), True), []) else (length data, (n, False), []),
     client_has_error = \<lambda>c. False, client_is_finished = snd, client_init = \<lambda>(n, f). (0, False), client_new = (0, False),
     chunked = \<lambda>c. True, chunks_done = \<lambda>(n, f). n = 0, content_len = fst\<rparr>"


end
