(* ===== verification/Address.thy ===== *)
theory Address
  imports Endian CText StdContainers "HOL-Library.Char_ord" "HOL-Library.List_Lexorder"
begin

unbundle bit_operations_syntax

text \<open>
  Network addresses (\<open>src/address.h\<close>, \<open>src/address.cc\<close>): the socket address structures with their bytes in
  memory, the masks of prefixes, printing, comparison, the splitting of a host text into node and
  service, and the table of interfaces. getaddrinfo, inet_pton and getifaddrs are parameters. Arithmetic
  on int wraps around as the compiler's does; a shift that is too long, an access outside an array and
  a dereferenced null pointer are failures.
\<close>

datatype addr_error = ShiftTooLong | OutOfBounds | NullPointer | PathTooLong

section \<open>Bits\<close>

definition CreateMask :: "nat \<Rightarrow> (addr_error, 'a::len word) result" where
  "CreateMask bits =
     (let n = size_sub LENGTH('a) bits in
      if 32 \<le> n then Inl ShiftTooLong else Inr (ucast (push_bit n (1 :: i32) - 1)))"

lemma clear_lowest_less: "value \<noteq> 0 \<Longrightarrow> value AND (value - 1) < (value :: 'a::len word)"
  by (metis AND_lower less_le_not_le linorder_not_less measure_unat word_and_le1 word_and_le2 word_le_less_eq word_less_nat_alt)

function count_loop :: "'a::len word \<Rightarrow> u32 \<Rightarrow> u32" where
  "count_loop value result = (if value = 0 then result else count_loop (value AND (value - 1)) (result + 1))"
  by pat_completeness auto
termination
  by (relation "measure (\<lambda>(value, result). unat value)") (auto simp: clear_lowest_less simp flip: word_less_nat_alt)

declare count_loop.simps [simp del]

definition CountBytes :: "'a::len word \<Rightarrow> u32" where
  "CountBytes value = count_loop value 0"

section \<open>Structures of the socket library\<close>

definition AF_UNSPEC :: u16 where "AF_UNSPEC = 0"
definition AF_UNIX :: u16 where "AF_UNIX = 1"
definition AF_INET :: u16 where "AF_INET = 2"
definition AF_INET6 :: u16 where "AF_INET6 = 10"

record sockaddr_in =
  sin_family :: u16
  sin_port :: u16
  s_addr :: u32
  sin_zero :: "u8 list"

record sockaddr_in6 =
  sin6_family :: u16
  sin6_port :: u16
  sin6_flowinfo :: u32
  s6_addr :: "u8 list"
  sin6_scope_id :: u32

record sockaddr_un =
  sun_family :: u16
  sun_path :: "u8 list"

record sockaddr =
  sa_family :: u16
  sa_data :: "u8 list"

text \<open>The bytes of the structures, and the structures a pointer to bytes is cast to.\<close>

definition in_bytes :: "sockaddr_in \<Rightarrow> u8 list" where
  "in_bytes a = bytes_of (sin_family a) @ bytes_of (sin_port a) @ bytes_of (s_addr a) @ sin_zero a"

definition in6_bytes :: "sockaddr_in6 \<Rightarrow> u8 list" where
  "in6_bytes a = bytes_of (sin6_family a) @ bytes_of (sin6_port a) @ bytes_of (sin6_flowinfo a) @ s6_addr a
     @ bytes_of (sin6_scope_id a)"

definition un_bytes :: "sockaddr_un \<Rightarrow> u8 list" where
  "un_bytes a = bytes_of (sun_family a) @ sun_path a"

definition sa_bytes :: "sockaddr \<Rightarrow> u8 list" where
  "sa_bytes a = bytes_of (sa_family a) @ sa_data a"

definition as_in :: "u8 list \<Rightarrow> sockaddr_in" where
  "as_in m = \<lparr>sin_family = word_of_bytes (take 2 m), sin_port = word_of_bytes (take 2 (drop 2 m)),
     s_addr = word_of_bytes (take 4 (drop 4 m)), sin_zero = take 8 (drop 8 m)\<rparr>"

definition as_in6 :: "u8 list \<Rightarrow> sockaddr_in6" where
  "as_in6 m = \<lparr>sin6_family = word_of_bytes (take 2 m), sin6_port = word_of_bytes (take 2 (drop 2 m)),
     sin6_flowinfo = word_of_bytes (take 4 (drop 4 m)), s6_addr = take 16 (drop 8 m),
     sin6_scope_id = word_of_bytes (take 4 (drop 24 m))\<rparr>"

definition as_sockaddr :: "u8 list \<Rightarrow> sockaddr" where
  "as_sockaddr m = \<lparr>sa_family = word_of_bytes (take 2 m), sa_data = take 14 (drop 2 m)\<rparr>"

section \<open>Addresses\<close>

datatype Address =
    IPv4Address sockaddr_in
  | IPv6Address sockaddr_in6
  | UnixAddress sockaddr_un u32
  | UnknownAddress sockaddr

definition IPv4Address_of :: "u32 \<Rightarrow> u16 \<Rightarrow> sockaddr_in" where
  "IPv4Address_of address port = \<lparr>sin_family = AF_INET, sin_port = byteswapOnLittleEndian port,
     s_addr = byteswapOnLittleEndian address, sin_zero = replicate 8 0\<rparr>"

definition IPv6Address_new :: sockaddr_in6 where
  "IPv6Address_new = \<lparr>sin6_family = AF_INET6, sin6_port = 0, sin6_flowinfo = 0, s6_addr = replicate 16 0, sin6_scope_id = 0\<rparr>"

definition IPv6Address_of :: "u8 list \<Rightarrow> u16 \<Rightarrow> sockaddr_in6" where
  "IPv6Address_of address port = \<lparr>sin6_family = AF_INET6, sin6_port = byteswapOnLittleEndian port, sin6_flowinfo = 0,
     s6_addr = take 16 address, sin6_scope_id = 0\<rparr>"

definition MAX_PATH_LEN :: nat where
  "MAX_PATH_LEN = 107"

text \<open>offsetof(sockaddr_un, sun_path) is 2; sun_path has 108 bytes.\<close>

definition UnixAddress_new :: Address where
  "UnixAddress_new = UnixAddress \<lparr>sun_family = AF_UNIX, sun_path = replicate 108 0\<rparr> (of_nat (2 + MAX_PATH_LEN))"

definition UnixAddress_of :: "u8 list \<Rightarrow> (addr_error, Address) result" where
  "UnixAddress_of path =
     (let len = (of_nat (length path + 1) :: u32);
          len = (if path \<noteq> [] \<and> path ! 0 = 0 then len - 1 else len) in
      if 108 < unat len then Inl PathTooLong
      else Inr (UnixAddress \<lparr>sun_family = AF_UNIX,
            sun_path = splice_at (replicate 108 0) 0 (take (unat len) (path @ [0]))\<rparr> (len + 2)))"

definition UnknownAddress_of :: "u16 \<Rightarrow> Address" where
  "UnknownAddress_of family = UnknownAddress \<lparr>sa_family = family, sa_data = replicate 14 0\<rparr>"

fun getAddr :: "Address \<Rightarrow> u8 list" where
  "getAddr (IPv4Address a) = in_bytes a"
| "getAddr (IPv6Address a) = in6_bytes a"
| "getAddr (UnixAddress a len) = un_bytes a"
| "getAddr (UnknownAddress a) = sa_bytes a"

fun getAddrLen :: "Address \<Rightarrow> nat" where
  "getAddrLen (IPv4Address a) = 16"
| "getAddrLen (IPv6Address a) = 28"
| "getAddrLen (UnixAddress a len) = unat len"
| "getAddrLen (UnknownAddress a) = 16"

definition getFamily :: "Address \<Rightarrow> u16" where
  "getFamily a = word_of_bytes (take 2 (getAddr a))"

definition Create :: "u8 list option \<Rightarrow> Address option" where
  "Create addr =
     (case addr of
        None \<Rightarrow> None
      | Some m \<Rightarrow> Some (let fam = sa_family (as_sockaddr m) in
          if fam = AF_INET then IPv4Address (as_in m)
          else if fam = AF_INET6 then IPv6Address (as_in6 m)
          else UnknownAddress (as_sockaddr m)))"

fun setAddrLen :: "u32 \<Rightarrow> Address \<Rightarrow> Address" where
  "setAddrLen v (UnixAddress a len) = UnixAddress a v"
| "setAddrLen v a = a"

section \<open>Comparison\<close>

text \<open>The sign of memcmp on the first \<open>n\<close> bytes.\<close>

fun memcmp :: "u8 list \<Rightarrow> u8 list \<Rightarrow> nat \<Rightarrow> int" where
  "memcmp (x # xs) (y # ys) (Suc n) = (if x < y then -1 else if y < x then 1 else memcmp xs ys n)"
| "memcmp xs ys n = 0"

definition address_less :: "Address \<Rightarrow> Address \<Rightarrow> bool" where
  "address_less a b =
     (let minlen = min (getAddrLen a) (getAddrLen b); result = memcmp (getAddr a) (getAddr b) minlen in
      if result < 0 then True else if 0 < result then False else if getAddrLen a < getAddrLen b then True else False)"

definition address_eq :: "Address \<Rightarrow> Address \<Rightarrow> bool" where
  "address_eq a b \<longleftrightarrow> getAddrLen a = getAddrLen b \<and> memcmp (getAddr a) (getAddr b) (getAddrLen a) = 0"

section \<open>IPv4\<close>

definition ipv4_Create :: "(string \<Rightarrow> u32 option) \<Rightarrow> string \<Rightarrow> u16 \<Rightarrow> sockaddr_in option" where
  "ipv4_Create inet_pton address port =
     map_option (\<lambda>s. (IPv4Address_of 0 0)\<lparr>sin_port := byteswapOnLittleEndian port, s_addr := s\<rparr>) (inet_pton address)"

definition ipv4_insert :: "sockaddr_in \<Rightarrow> string" where
  "ipv4_insert a =
     (let addr = byteswapOnLittleEndian (s_addr a) in
      dec_string (unat (drop_bit 24 addr AND 0xff)) @ ''.'' @ dec_string (unat (drop_bit 16 addr AND 0xff)) @ ''.''
      @ dec_string (unat (drop_bit 8 addr AND 0xff)) @ ''.'' @ dec_string (unat (addr AND 0xff))
      @ '':'' @ dec_string (unat (byteswapOnLittleEndian (sin_port a))))"

definition ipv4_broadcastAddress :: "u32 \<Rightarrow> sockaddr_in \<Rightarrow> (addr_error, sockaddr_in option) result" where
  "ipv4_broadcastAddress prefix_len a =
     (if 32 < prefix_len then Inr None
      else rbind (CreateMask (unat prefix_len)) (\<lambda>mask. Inr (Some (a\<lparr>s_addr := s_addr a OR byteswapOnLittleEndian mask\<rparr>))))"

definition ipv4_networdAddress :: "u32 \<Rightarrow> sockaddr_in \<Rightarrow> (addr_error, sockaddr_in option) result" where
  "ipv4_networdAddress prefix_len a =
     (if 32 < prefix_len then Inr None
      else rbind (CreateMask (unat prefix_len)) (\<lambda>mask. Inr (Some (a\<lparr>s_addr := s_addr a AND byteswapOnLittleEndian mask\<rparr>))))"

definition ipv4_subnetMask :: "u32 \<Rightarrow> (addr_error, sockaddr_in) result" where
  "ipv4_subnetMask prefix_len =
     rbind (CreateMask (unat prefix_len)) (\<lambda>mask. Inr \<lparr>sin_family = AF_INET, sin_port = 0,
       s_addr = NOT (byteswapOnLittleEndian mask), sin_zero = replicate 8 0\<rparr>)"

definition ipv4_getPort :: "sockaddr_in \<Rightarrow> u32" where
  "ipv4_getPort a = ucast (byteswapOnLittleEndian (sin_port a))"

definition ipv4_setPort :: "u16 \<Rightarrow> sockaddr_in \<Rightarrow> sockaddr_in" where
  "ipv4_setPort v a = a\<lparr>sin_port := byteswapOnLittleEndian v\<rparr>"

section \<open>IPv6\<close>

definition ipv6_Create :: "(string \<Rightarrow> u8 list option) \<Rightarrow> string \<Rightarrow> u16 \<Rightarrow> sockaddr_in6 option" where
  "ipv6_Create inet_pton address port =
     map_option (\<lambda>s. IPv6Address_new\<lparr>sin6_port := byteswapOnLittleEndian port, s6_addr := s\<rparr>) (inet_pton address)"

text \<open>The address as an array of uint16_t.\<close>

fun halves :: "u8 list \<Rightarrow> u16 list" where
  "halves (b # c # bs) = word_of_bytes [b, c] # halves bs"
| "halves bs = []"

text \<open>
  The loop of insert. \<open>prev\<close> is the element before the current one, \<open>None\<close> at index 0; the result
  is the text and used_zeros at the end.
\<close>

fun insert_groups :: "u16 option \<Rightarrow> bool \<Rightarrow> u16 list \<Rightarrow> string \<times> bool" where
  "insert_groups prev used_zeros [] = ([], used_zeros)"
| "insert_groups prev used_zeros (g # gs) =
     (if g = 0 \<and> \<not> used_zeros then insert_groups (Some g) used_zeros gs
      else
        let z = (prev = Some 0 \<and> \<not> used_zeros);
            (rest, used) = insert_groups (Some g) (used_zeros \<or> z) gs
        in ((if z then '':'' else []) @ (if prev \<noteq> None then '':'' else [])
            @ hex_string (unat (byteswapOnLittleEndian g)) @ rest, used))"

definition ipv6_insert :: "sockaddr_in6 \<Rightarrow> string" where
  "ipv6_insert a =
     (let addr = halves (s6_addr a); (txt, used_zeros) = insert_groups None False addr in
      ''['' @ txt @ (if \<not> used_zeros \<and> addr ! 7 = 0 then ''::'' else [])
      @ '']:'' @ dec_string (unat (byteswapOnLittleEndian (sin6_port a))))"

definition fill_from :: "nat \<Rightarrow> u8 \<Rightarrow> u8 list \<Rightarrow> u8 list" where
  "fill_from i b bs = take i bs @ replicate (length bs - i) b"

definition ipv6_broadcastAddress :: "u32 \<Rightarrow> sockaddr_in6 \<Rightarrow> (addr_error, sockaddr_in6) result" where
  "ipv6_broadcastAddress prefix_len a =
     (let i = unat prefix_len div 8 in
      rbind (CreateMask (unat prefix_len mod 8)) (\<lambda>mask.
        if 16 \<le> i then Inl OutOfBounds
        else Inr (a\<lparr>s6_addr := fill_from (i + 1) 0xff ((s6_addr a)[i := s6_addr a ! i OR mask])\<rparr>)))"

definition ipv6_networdAddress :: "u32 \<Rightarrow> sockaddr_in6 \<Rightarrow> (addr_error, sockaddr_in6) result" where
  "ipv6_networdAddress prefix_len a =
     (let i = unat prefix_len div 8 in
      rbind (CreateMask (unat prefix_len mod 8)) (\<lambda>mask.
        if 16 \<le> i then Inl OutOfBounds
        else Inr (a\<lparr>s6_addr := fill_from (i + 1) 0x00 ((s6_addr a)[i := s6_addr a ! i AND mask])\<rparr>)))"

definition ipv6_subnetMask :: "u32 \<Rightarrow> (addr_error, sockaddr_in6) result" where
  "ipv6_subnetMask prefix_len =
     (let i = unat prefix_len div 8 in
      rbind (CreateMask (unat prefix_len mod 8)) (\<lambda>mask.
        if 16 \<le> i then Inl OutOfBounds
        else Inr (IPv6Address_new\<lparr>s6_addr := replicate i 0xff @ [NOT mask] @ replicate (15 - i) 0\<rparr>)))"

definition ipv6_getPort :: "sockaddr_in6 \<Rightarrow> u32" where
  "ipv6_getPort a = ucast (byteswapOnLittleEndian (sin6_port a))"

definition ipv6_setPort :: "u16 \<Rightarrow> sockaddr_in6 \<Rightarrow> sockaddr_in6" where
  "ipv6_setPort v a = a\<lparr>sin6_port := byteswapOnLittleEndian v\<rparr>"

section \<open>Printing\<close>

text \<open>
  The path of a Unix address; an abstract one is printed with a backslash and a zero digit in front.
  The constructors leave a zero byte in sun_path, so that printing it as a C string ends inside the array.
\<close>

definition unix_getPath :: "sockaddr_un \<Rightarrow> u32 \<Rightarrow> string" where
  "unix_getPath a len =
     (if 2 < len \<and> sun_path a ! 0 = 0
      then [CHR 0x5C, CHR ''0''] @ map char_of_byte (take (unat len - 2 - 1) (drop 1 (sun_path a)))
      else c_str (map char_of_byte (sun_path a)))"

fun address_insert :: "Address \<Rightarrow> string" where
  "address_insert (IPv4Address a) = ipv4_insert a"
| "address_insert (IPv6Address a) = ipv6_insert a"
| "address_insert (UnixAddress a len) = unix_getPath a len"
| "address_insert (UnknownAddress a) = ''[UnknownAddress family='' @ dec_string (unat (sa_family a)) @ '']''"

section \<open>Lookup\<close>

text \<open>memchr: the index of the first occurrence.\<close>

definition memchr :: "char \<Rightarrow> string \<Rightarrow> nat option" where
  "memchr c s = (if c \<in> set s then Some (length (takeWhile (\<lambda>x. x \<noteq> c) s)) else None)"

text \<open>The node and the service of a text in brackets; the byte after the text is zero.\<close>

definition split_brackets :: "string \<Rightarrow> string \<times> string option" where
  "split_brackets host =
     (if host \<noteq> [] \<and> host ! 0 = CHR ''['' then
        (case memchr (CHR '']'') (drop 1 host) of
           None \<Rightarrow> ([], None)
         | Some k \<Rightarrow> (take k (drop 1 host),
             if (host @ [CHR 0x00]) ! (k + 2) = CHR '':'' then Some (drop (k + 3) host) else None))
      else ([], None))"

definition split_colon :: "string \<Rightarrow> string \<times> string option" where
  "split_colon host =
     (case memchr (CHR '':'') host of
        None \<Rightarrow> ([], None)
      | Some k \<Rightarrow> (if memchr (CHR '':'') (drop (k + 1) host) = None then (take k host, Some (drop (k + 1) host))
                  else ([], Some (drop k host))))"

definition lookup_split :: "string \<Rightarrow> string \<times> string option" where
  "lookup_split host =
     (let (node, service) = split_brackets host;
          (node, service) = (if node = [] then split_colon host else (node, service));
          node = (if node = [] then host else node)
      in (node, service))"

text \<open>
  \<open>getaddrinfo\<close> gets the node and the service as C strings and returns \<open>None\<close> on an error, or the
  addresses of its list; \<open>result\<close> is the vector the addresses are appended to.
\<close>

definition Lookup :: "(string \<Rightarrow> string option \<Rightarrow> u8 list option list option) \<Rightarrow> Address option list \<Rightarrow> string \<Rightarrow> bool \<times> Address option list" where
  "Lookup getaddrinfo result host =
     (let (node, service) = lookup_split host in
      case getaddrinfo (c_str node) (map_option c_str service) of
        None \<Rightarrow> (False, result)
      | Some addrs \<Rightarrow> let result = result @ map Create addrs in (result \<noteq> [], result))"

definition LookupAny :: "(string \<Rightarrow> string option \<Rightarrow> u8 list option list option) \<Rightarrow> string \<Rightarrow> Address option" where
  "LookupAny getaddrinfo host =
     (case Lookup getaddrinfo [] host of (ok, result) \<Rightarrow> if ok then result ! 0 else None)"

fun is_ip :: "Address \<Rightarrow> bool" where
  "is_ip (IPv4Address a) \<longleftrightarrow> True"
| "is_ip (IPv6Address a) \<longleftrightarrow> True"
| "is_ip (UnixAddress a len) \<longleftrightarrow> False"
| "is_ip (UnknownAddress a) \<longleftrightarrow> False"

definition LookupAnyIPAddress :: "(string \<Rightarrow> string option \<Rightarrow> u8 list option list option) \<Rightarrow> string \<Rightarrow> Address option" where
  "LookupAnyIPAddress getaddrinfo host =
     (case Lookup getaddrinfo [] host of
        (ok, result) \<Rightarrow> if ok then Option.bind (find (\<lambda>i. \<exists>a \<in> set_option i. is_ip a) result) id else None)"

fun setPort :: "u16 \<Rightarrow> Address \<Rightarrow> Address" where
  "setPort v (IPv4Address a) = IPv4Address (ipv4_setPort v a)"
| "setPort v (IPv6Address a) = IPv6Address (ipv6_setPort v a)"
| "setPort v a = a"

text \<open>IPAddress::Create. \<open>getaddrinfo\<close> with AI_NUMERICHOST; only the first address of its list is used.\<close>

definition ip_Create :: "(string \<Rightarrow> u8 list option list option) \<Rightarrow> string \<Rightarrow> u16 \<Rightarrow> Address option" where
  "ip_Create getaddrinfo address port =
     (case getaddrinfo address of
        Some (r # rs) \<Rightarrow> (case Create r of Some a \<Rightarrow> if is_ip a then Some (setPort port a) else None | None \<Rightarrow> None)
      | _ \<Rightarrow> None)"

section \<open>Interfaces\<close>

record ifaddrs =
  ifa_name :: string
  ifa_addr :: "u8 list option"
  ifa_netmask :: "u8 list option"

text \<open>std::multimap, in iteration order: a new element goes behind those with an equal key.\<close>

fun multimap_insert :: "string \<Rightarrow> 'v \<Rightarrow> (string \<times> 'v) list \<Rightarrow> (string \<times> 'v) list" where
  "multimap_insert k v [] = [(k, v)]"
| "multimap_insert k v ((k', v') # m) = (if k < k' then (k, v) # (k', v') # m else (k', v') # multimap_insert k v m)"

definition interface_prefix :: "ifaddrs \<Rightarrow> u8 list \<Rightarrow> (addr_error, (Address \<times> u32) option) result" where
  "interface_prefix i addr =
     (let fam = sa_family (as_sockaddr addr) in
      if fam = AF_INET then
        (case ifa_netmask i of None \<Rightarrow> Inl NullPointer
         | Some m \<Rightarrow> Inr (map_option (\<lambda>a. (a, CountBytes (s_addr (as_in m)))) (Create (Some addr))))
      else if fam = AF_INET6 then
        (case ifa_netmask i of None \<Rightarrow> Inl NullPointer
         | Some m \<Rightarrow> Inr (map_option (\<lambda>a. (a, sum_list (map CountBytes (s6_addr (as_in6 m))))) (Create (Some addr))))
      else Inr None)"

fun interface_loop :: "u16 \<Rightarrow> ifaddrs list \<Rightarrow> (string \<times> Address \<times> u32) list \<Rightarrow> (addr_error, (string \<times> Address \<times> u32) list) result" where
  "interface_loop family [] result = Inr result"
| "interface_loop family (i # is) result =
     (if family \<noteq> AF_UNSPEC \<and> ifa_addr i = None then Inl NullPointer
      else if family \<noteq> AF_UNSPEC \<and> family \<noteq> sa_family (as_sockaddr (the (ifa_addr i))) then interface_loop family is result
      else case ifa_addr i of
        None \<Rightarrow> Inl NullPointer
      | Some addr \<Rightarrow> rbind (interface_prefix i addr) (\<lambda>r. interface_loop family is
            (case r of None \<Rightarrow> result | Some v \<Rightarrow> multimap_insert (ifa_name i) v result)))"

text \<open>\<open>getifaddrs\<close> returns \<open>None\<close> on an error.\<close>

definition GetInterfaceAddresses ::
  "ifaddrs list option \<Rightarrow> u16 \<Rightarrow> (string \<times> Address \<times> u32) list \<Rightarrow> (addr_error, bool \<times> (string \<times> Address \<times> u32) list) result" where
  "GetInterfaceAddresses getifaddrs family result =
     (case getifaddrs of
        None \<Rightarrow> Inr (False, result)
      | Some results \<Rightarrow> rbind (interface_loop family results result) (\<lambda>r. Inr (r \<noteq> [], r)))"

definition GetInterfaceAddresses_of ::
  "ifaddrs list option \<Rightarrow> string \<Rightarrow> u16 \<Rightarrow> (Address \<times> u32) list \<Rightarrow> (addr_error, bool \<times> (Address \<times> u32) list) result" where
  "GetInterfaceAddresses_of getifaddrs iface family result =
     (if iface = [] \<or> iface = ''*'' then
        let result = (if family = AF_INET \<or> family = AF_UNSPEC then result @ [(IPv4Address (IPv4Address_of 0 0), 0)] else result);
            result = (if family = AF_INET6 \<or> family = AF_UNSPEC then result @ [(IPv6Address IPv6Address_new, 0)] else result)
        in Inr (True, result)
      else rbind (GetInterfaceAddresses getifaddrs family []) (\<lambda>(ok, results).
        if \<not> ok then Inr (False, result)
        else let result = result @ map snd (filter (\<lambda>r. fst r = iface) results) in Inr (result \<noteq> [], result)))"

section \<open>Bits of swapped words\<close>

lemma bit_byteswap:
  fixes w :: "'a::len word"
  assumes "8 dvd LENGTH('a)" "n < LENGTH('a)"
  shows "bit (byteswap w) n \<longleftrightarrow> bit w (8 * (LENGTH('a) div 8 - Suc (n div 8)) + n mod 8)"
proof -
  have "n div 8 < LENGTH('a) div 8" using assms by (auto elim!: dvdE)
  then show ?thesis using assms(2) unfolding byteswap_def
    by (simp add: bit_word_of_bytes rev_nth bit_bytes_of)
qed

lemma swap_eq: "byteswapOnLittleEndian w = byteswap w"
  by (simp add: byteswapOnLittleEndian_def BYTE_ORDER_def)

text \<open>An index and its mirror image.\<close>

definition mirror :: "nat \<Rightarrow> nat \<Rightarrow> nat" where
  "mirror k n = 8 * (k - Suc (n div 8)) + n mod 8"

lemma mirror_less: "n < 8 * k \<Longrightarrow> mirror k n < 8 * k"
  unfolding mirror_def by (cases k) (auto simp: less_Suc_eq_le intro: order.strict_trans2 [of _ "8 * (k - Suc (n div 8)) + 8"])

lemma mirror_mirror: "n < 8 * k \<Longrightarrow> mirror k (mirror k n) = n"
proof -
  assume "n < 8 * k"
  then have "n div 8 < k" by linarith
  moreover have "mirror k n div 8 = k - Suc (n div 8)" "mirror k n mod 8 = n mod 8" by (simp_all add: mirror_def)
  ultimately show ?thesis by (simp add: mirror_def [of k "mirror k n"])
qed

lemma bit_swap32: "n < 32 \<Longrightarrow> bit (byteswap (w :: u32)) n \<longleftrightarrow> bit w (mirror 4 n)"
  by (subst bit_byteswap) (simp_all add: mirror_def)

lemma swap32_or: "byteswap (v OR w) = byteswap v OR byteswap (w :: u32)"
  by (rule bit_word_eqI) (simp add: bit_swap32 bit_or_iff)

lemma swap32_and: "byteswap (v AND w) = byteswap v AND byteswap (w :: u32)"
  by (rule bit_word_eqI) (simp add: bit_swap32 bit_and_iff)

lemma swap32_not: "byteswap (NOT w) = NOT (byteswap (w :: u32))"
  using mirror_less [of _ 4] by (intro bit_word_eqI) (simp add: bit_swap32 bit_not_iff possible_bit_word)

lemma swap32_swap32 [simp]: "byteswap (byteswap w) = (w :: u32)"
  by (rule byteswap_byteswap) simp

lemma swap16_swap16 [simp]: "byteswap (byteswap w) = (w :: u16)"
  by (rule byteswap_byteswap) simp

section \<open>Masks\<close>

lemma CreateMask_32:
  "CreateMask p = (if 1 \<le> p \<and> p \<le> 32 then Inr (mask (32 - p)) else Inl ShiftTooLong :: (addr_error, u32) result)" if "p < 2 ^ 32"
  using that by (auto simp: CreateMask_def size_sub_def push_bit_of_1 mask_eq_exp_minus_1 Let_def)

lemma CreateMask_8: "p < 8 \<Longrightarrow> CreateMask p = (Inr (mask (8 - p)) :: (addr_error, u8) result)"
proof -
  assume p: "p < 8"
  have "push_bit (8 - p) 1 - 1 = (mask (8 - p) :: i32)" by (simp add: push_bit_of_1 mask_eq_exp_minus_1)
  moreover have "ucast (mask n :: i32) = (mask n :: u8)" if "n \<le> 8" for n
    using that by (intro bit_word_eqI) (auto simp: bit_ucast_iff bit_mask_iff possible_bit_word)
  ultimately have "ucast (push_bit (8 - p) (1 :: i32) - 1) = (mask (8 - p) :: u8)" by simp
  then show ?thesis using p by (simp add: CreateMask_def Let_def)
qed

section \<open>Counting bits\<close>

definition bit_count :: "nat \<Rightarrow> nat" where
  "bit_count n = card {i. bit n i}"

lemma finite_bits: "finite {i. bit (n :: nat) i}"
proof (rule finite_subset)
  show "{i. bit n i} \<subseteq> {..<n}"
    by (auto simp: bit_iff_odd) (metis div_less even_zero less_exp linorder_not_less order_le_less_trans)
qed simp

lemma bit_count_step: "bit_count n = n mod 2 + bit_count (n div 2)"
proof -
  have "{i. bit n i} = (if odd n then {0} else {}) \<union> Suc ` {i. bit (n div 2) i}"
  proof (rule set_eqI)
    fix i show "i \<in> {i. bit n i} \<longleftrightarrow> i \<in> (if odd n then {0} else {}) \<union> Suc ` {i. bit (n div 2) i}"
      by (cases i) (auto simp: bit_0 bit_Suc)
  qed
  moreover have "card (Suc ` {i. bit (n div 2) i}) = bit_count (n div 2)" by (simp add: bit_count_def card_image)
  ultimately show ?thesis using finite_bits [of "n div 2"] unfolding bit_count_def [of n]
    by (cases "even n") (simp_all add: card_insert_if image_iff even_iff_mod_2_eq_zero odd_iff_mod_2_eq_one)
qed

lemma bit_count_double [simp]: "bit_count (2 * m) = bit_count m" "bit_count (Suc (2 * m)) = Suc (bit_count m)"
  by (simp_all add: bit_count_step [of "2 * m"] bit_count_step [of "Suc (2 * m)"])

lemma bit_count_clear: "0 < n \<Longrightarrow> bit_count n = Suc (bit_count (n AND (n - 1)))"
proof (induction n rule: less_induct)
  case (less n)
  show ?case
  proof (cases "even n")
    case True
    then obtain m where m: "n = 2 * m" by blast
    have "(2 * m - Suc 0) div 2 = m - 1" using m less.prems by linarith
    then have "n AND (n - 1) = 2 * (m AND (m - 1))" using m less.prems by (subst and_rec) simp
    moreover have "bit_count n = Suc (bit_count (m AND (m - 1)))"
      using less.IH [of m] less.prems m by simp
    ultimately show ?thesis by simp
  next
    case False
    then obtain m where m: "n = Suc (2 * m)" by (auto elim: oddE)
    have "n AND (n - 1) = 2 * m" using m by (subst and_rec) simp
    then show ?thesis by (simp add: m)
  qed
qed

lemma count_loop_bits: "count_loop value result = result + of_nat (bit_count (unat value))"
proof (induction "value" result rule: count_loop.induct)
  case (1 "value" result)
  show ?case
  proof (cases "value = 0")
    case True
    then show ?thesis by (simp add: count_loop.simps [of 0] bit_count_def)
  next
    case False
    then have "unat (value AND (value - 1)) = unat value AND (unat value - 1)" by (simp add: unsigned_and_eq unat_minus_one)
    moreover have "0 < unat value" using False by (simp add: unat_gt_0)
    ultimately show ?thesis using 1 False bit_count_clear [of "unat value"] by (simp add: count_loop.simps [of "value"])
  qed
qed

lemma CountBytes_bits: "CountBytes value = of_nat (card {i. bit value i})"
proof -
  have "{i. bit (unat value) i} = {i. bit value i}" by (simp add: bit_unsigned_iff possible_bit_def)
  then show ?thesis by (simp add: CountBytes_def count_loop_bits bit_count_def)
qed

lemma CountBytes_mask: "n \<le> LENGTH('a) \<Longrightarrow> CountBytes (NOT (mask n) :: 'a::len word) = of_nat (LENGTH('a) - n)"
proof -
  assume n: "n \<le> LENGTH('a)"
  have "{i. bit (NOT (mask n) :: 'a word) i} = {n..<LENGTH('a)}" by (auto simp: bit_not_iff bit_mask_iff possible_bit_word)
  then show ?thesis by (simp add: CountBytes_bits)
qed

lemma CountBytes_swap: "CountBytes (byteswap (w :: u32)) = CountBytes w"
proof -
  have b: "i < 32" if "bit w i" for w :: u32 and i using that bit_imp_le_length [of w i] by simp
  have m: "mirror 4 i < 32" "mirror 4 (mirror 4 i) = i" if "i < 32" for i
    using that mirror_less [of i 4] mirror_mirror [of i 4] by simp_all
  have "bit w (mirror 4 i)" if "bit (byteswap w) i" for i using bit_swap32 [OF b [OF that], of w] that by blast
  moreover have "bit (byteswap w) (mirror 4 i)" if "bit w i" for i
    using bit_swap32 [OF m(1) [OF b [OF that]], of w] m(2) [OF b [OF that]] that by simp
  ultimately have "bij_betw (mirror 4) {i. bit (byteswap w) i} {i. bit w i}"
    by (intro bij_betw_byWitness [where f' = "mirror 4"]) (auto intro: m(2) b)
  then show ?thesis using bij_betw_same_card by (metis CountBytes_bits)
qed

section \<open>Prefixes\<close>

text \<open>The address in host order.\<close>

definition ipv4_value :: "sockaddr_in \<Rightarrow> u32" where
  "ipv4_value a = byteswapOnLittleEndian (s_addr a)"

text \<open>IPv4 prefixes. For a prefix length \<open>p\<close> from 1 to 32 the broadcast address has all host bits set, the
  subnet mask has exactly the network bits, and counting the bits of the mask, as the interface table
  does, gives \<open>p\<close> back. The "network address" is the host part of the address instead, because the
  mask is not inverted. Length 0 shifts an int by 32 places; over 32 the subnet mask shifts too far
  as well, and the other two return null.\<close>

theorem ipv4_prefixes:
  "(1 \<le> unat p \<and> unat p \<le> 32 \<longrightarrow>
      (\<exists>b n m. ipv4_broadcastAddress p a = Inr (Some b) \<and> ipv4_value b = ipv4_value a OR mask (32 - unat p) \<and> sin_port b = sin_port a
       \<and> ipv4_subnetMask p = Inr m \<and> ipv4_value m = NOT (mask (32 - unat p)) \<and> CountBytes (s_addr m) = p
       \<and> ipv4_networdAddress p a = Inr (Some n) \<and> ipv4_value n = ipv4_value a AND mask (32 - unat p)))
   \<and> ipv4_broadcastAddress 0 a = Inl ShiftTooLong \<and> ipv4_networdAddress 0 a = Inl ShiftTooLong \<and> ipv4_subnetMask 0 = Inl ShiftTooLong
   \<and> (32 < unat p \<longrightarrow>
      ipv4_broadcastAddress p a = Inr None \<and> ipv4_networdAddress p a = Inr None \<and> ipv4_subnetMask p = Inl ShiftTooLong)"
proof -
  have lt: "unat p < 4294967296" using unsigned_less [of p, where ?'a = nat] by simp
  have le: "32 < p \<longleftrightarrow> 32 < unat p" by (simp add: word_less_nat_alt)
  have count: "CountBytes (NOT (byteswap (mask (32 - unat p) :: u32))) = p" if "unat p \<le> 32"
    using that CountBytes_swap [of "NOT (mask (32 - unat p))"] CountBytes_mask [of "32 - unat p", where 'a = 32]
    by (simp add: swap32_not)
  show ?thesis
    by (auto simp: ipv4_broadcastAddress_def ipv4_subnetMask_def ipv4_networdAddress_def ipv4_value_def CreateMask_32 lt le swap_eq
        swap32_or swap32_and swap32_not count)
qed

theorem ipv4_prefixes_witness:
  "\<exists>b. ipv4_broadcastAddress 8 (IPv4Address_of 0x0A010203 80) = Inr (Some b) \<and> ipv4_value b = 0x0AFFFFFF"
  using ipv4_prefixes [of 8 "IPv4Address_of 0x0A010203 80"]
  by (auto simp: ipv4_value_def IPv4Address_of_def swap_eq mask_eq_exp_minus_1)

text \<open>Bits of an IPv6 address, the first of the network order being bit 0.\<close>

definition net_bit :: "u8 list \<Rightarrow> nat \<Rightarrow> bool" where
  "net_bit bs n \<longleftrightarrow> bit (bs ! (n div 8)) (7 - n mod 8)"

lemma nth_fill_from:
  "length bs = 16 \<Longrightarrow> q < 16 \<Longrightarrow> k < 16 \<Longrightarrow>
   fill_from (Suc q) c (bs[q := x]) ! k = (if k < q then bs ! k else if k = q then x else c)"
  by (auto simp: fill_from_def nth_append nth_list_update)

lemma net_bit_fill:
  assumes "length bs = 16" "p < 128" "i < 128"
  shows "net_bit (fill_from (Suc (p div 8)) c (bs[p div 8 := x])) i \<longleftrightarrow>
      (if i div 8 < p div 8 then net_bit bs i else bit (if i div 8 = p div 8 then x else c) (7 - i mod 8))"
proof -
  have "p div 8 < 16" "i div 8 < 16" using assms by simp_all
  then show ?thesis using assms by (simp add: net_bit_def nth_fill_from)
qed

lemma prefix_le: "p \<le> i \<longleftrightarrow> p div 8 < i div 8 \<or> p div 8 = i div 8 \<and> 7 - i mod 8 < 8 - p mod 8" for p i :: nat
proof -
  have "8 * q + r \<le> 8 * k + j \<longleftrightarrow> q < k \<or> q = k \<and> 7 - j < 8 - r" if "r < 8" "j < 8" for q r k j :: nat
    using that by linarith
  from this [of "p mod 8" "i mod 8" "p div 8" "i div 8"] show ?thesis by simp
qed

lemma bit_u8_max: "bit (0xff :: u8) n \<longleftrightarrow> n < 8"
proof -
  have m: "(0xff :: u8) = mask 8" by (simp add: mask_eq_exp_minus_1)
  show ?thesis unfolding m by (simp only: bit_mask_iff possible_bit_word) simp
qed

lemma nth_mask_bytes:
  "q < 16 \<Longrightarrow> k < 16 \<Longrightarrow> (replicate q c @ [x] @ replicate (15 - q) d) ! k = (if k < q then c else if k = q then x else d)"
  by (auto simp: nth_append nth_Cons')

lemma sum_list_mask: "q < 16 \<Longrightarrow> r < 8 \<Longrightarrow>
    sum_list (map CountBytes (replicate q (0xff :: u8) @ [NOT (mask (8 - r))] @ replicate (15 - q) 0)) = of_nat (8 * q + r)"
proof -
  assume "q < 16" "r < 8"
  moreover have "CountBytes (0xff :: u8) = 8" "CountBytes (0 :: u8) = 0"
    using bit_u8_max by (simp_all only: CountBytes_bits) (simp_all flip: lessThan_def)
  moreover have "CountBytes (NOT (mask (8 - r)) :: u8) = of_nat r" using CountBytes_mask [of "8 - r", where 'a = 8] \<open>r < 8\<close> by simp
  ultimately show ?thesis by (simp add: sum_list_replicate mult.commute)
qed

text \<open>IPv6 prefixes. For a prefix length below 128 the broadcast address sets exactly the bits behind the
  prefix, the subnet mask has exactly the bits of the prefix and the interface table counts its
  length back. The "network address" clears the bits behind the byte in which the prefix ends, but in
  that byte it keeps the host bits and clears those of the network. Length 128 writes behind the
  array, as every larger one does.\<close>

theorem ipv6_prefixes:
  assumes "length (s6_addr a) = 16"
  shows "(unat p < 128 \<longrightarrow>
      (\<exists>b m n. ipv6_broadcastAddress p a = Inr b \<and> (\<forall>i < 128. net_bit (s6_addr b) i \<longleftrightarrow> unat p \<le> i \<or> net_bit (s6_addr a) i)
       \<and> ipv6_subnetMask p = Inr m \<and> (\<forall>i < 128. net_bit (s6_addr m) i \<longleftrightarrow> i < unat p) \<and> sum_list (map CountBytes (s6_addr m)) = p
       \<and> ipv6_networdAddress p a = Inr n \<and> (\<forall>i < 128. net_bit (s6_addr n) i \<longleftrightarrow>
            net_bit (s6_addr a) i \<and> (i div 8 < unat p div 8 \<or> i div 8 = unat p div 8 \<and> unat p \<le> i))))
   \<and> (128 \<le> unat p \<longrightarrow> ipv6_broadcastAddress p a = Inl OutOfBounds \<and> ipv6_subnetMask p = Inl OutOfBounds
       \<and> ipv6_networdAddress p a = Inl OutOfBounds)"
proof (cases "unat p < 128")
  case True
  then have q: "unat p div 8 < 16" by simp
  note bits = bit_or_iff bit_and_iff bit_not_iff bit_mask_iff possible_bit_word bit_u8_max
  let ?q = "unat p div 8" and ?k = "mask (8 - unat p mod 8) :: u8"
  let ?m = "replicate (unat p div 8) (0xff :: u8) @ [NOT (mask (8 - unat p mod 8))] @ replicate (15 - unat p div 8) 0"
  have "net_bit ?m i \<longleftrightarrow> i < unat p" if "i < 128" for i
  proof -
    have "i div 8 < 16" using that by simp
    have lt: "i < unat p \<longleftrightarrow> \<not> (?q < i div 8 \<or> ?q = i div 8 \<and> 7 - i mod 8 < 8 - unat p mod 8)"
      using prefix_le [of "unat p" i] not_le by blast
    have "7 - i mod 8 < 8" by simp
    then show ?thesis unfolding net_bit_def nth_mask_bytes [OF q \<open>i div 8 < 16\<close>] lt
      by (cases rule: linorder_cases [of "i div 8" ?q]) (simp_all add: bits del: bit_numeral_word_iff)
  qed
  moreover have "sum_list (map CountBytes ?m) = p" using sum_list_mask [OF q, of "unat p mod 8"] by simp
  moreover have "net_bit (fill_from (Suc ?q) 0xff ((s6_addr a)[?q := s6_addr a ! ?q OR ?k])) i \<longleftrightarrow> unat p \<le> i \<or> net_bit (s6_addr a) i"
    if "i < 128" for i
    unfolding net_bit_fill [OF assms True that] unfolding net_bit_def prefix_le [of "unat p" i]
    by (cases rule: linorder_cases [of "i div 8" ?q]) (auto simp add: bits simp del: bit_numeral_word_iff)
  moreover have "net_bit (fill_from (Suc ?q) 0 ((s6_addr a)[?q := s6_addr a ! ?q AND ?k])) i \<longleftrightarrow>
      net_bit (s6_addr a) i \<and> (i div 8 < ?q \<or> i div 8 = ?q \<and> unat p \<le> i)"
    if "i < 128" for i
    unfolding net_bit_fill [OF assms True that] unfolding net_bit_def prefix_le [of "unat p" i]
    by (cases rule: linorder_cases [of "i div 8" ?q]) (auto simp add: bits simp del: bit_numeral_word_iff)
  ultimately show ?thesis using True q
    by (simp add: ipv6_broadcastAddress_def ipv6_subnetMask_def ipv6_networdAddress_def CreateMask_8 Let_def)
next
  case False
  then show ?thesis by (simp add: ipv6_broadcastAddress_def ipv6_subnetMask_def ipv6_networdAddress_def CreateMask_8 Let_def)
qed

theorem ipv6_prefixes_witness:
  "\<exists>m. ipv6_subnetMask 64 = Inr m \<and> sum_list (map CountBytes (s6_addr m)) = 64"
  using ipv6_prefixes [of IPv6Address_new 64] by (auto simp: IPv6Address_new_def)

section \<open>Reading printed addresses\<close>

text \<open>
  How the text of an address is read, after RFC 4291: words between colons are hexadecimal groups, and
  an empty word stands for as many zero groups as are missing.
\<close>

definition read_groups :: "string list \<Rightarrow> nat list" where
  "read_groups ws =
     (if [] \<in> set ws then
        let pre = takeWhile (\<lambda>w. w \<noteq> []) ws; post = rev (takeWhile (\<lambda>w. w \<noteq> []) (rev ws)) in
        map (num_value 16) pre @ replicate (8 - length pre - length post) 0 @ map (num_value 16) post
      else map (num_value 16) ws)"

definition read_ipv6 :: "string \<Rightarrow> nat list \<times> nat" where
  "read_ipv6 t =
     (let body = takeWhile (\<lambda>c. c \<noteq> CHR '']'') (drop 1 t) in
      (read_groups (split_on (CHR '':'') body), num_value 10 (drop (length body + 3) t)))"

definition read_ipv4 :: "string \<Rightarrow> nat list \<times> nat" where
  "read_ipv4 t =
     (map (num_value 10) (split_on (CHR ''.'') (takeWhile (\<lambda>c. c \<noteq> CHR '':'') t)),
      num_value 10 (drop 1 (dropWhile (\<lambda>c. c \<noteq> CHR '':'') t)))"

lemma separators [simp]:
  assumes "b \<in> {10, 16}"
  shows "CHR '':'' \<notin> set (num_string b n)" "CHR ''.'' \<notin> set (num_string b n)" "CHR '']'' \<notin> set (num_string b n)"
proof -
  have "2 \<le> b" "b \<le> 16" using assms by auto
  from separator_not_digit [OF this] show "CHR '':'' \<notin> set (num_string b n)" "CHR ''.'' \<notin> set (num_string b n)"
    "CHR '']'' \<notin> set (num_string b n)" by simp_all
qed

definition group_text :: "u16 \<Rightarrow> string" where
  "group_text g = hex_string (unat (byteswapOnLittleEndian g))"

abbreviation colon_texts :: "u16 list \<Rightarrow> string" where
  "colon_texts gs \<equiv> concat (map (\<lambda>g. CHR '':'' # group_text g) gs)"

lemma join_texts: "join (CHR '':'') (map group_text (g # gs)) = group_text g @ colon_texts gs"
  by (induction gs arbitrary: g) simp_all

lemma insert_groups_used: "insert_groups (Some p) True gs = (colon_texts gs, True)"
  by (induction gs arbitrary: p) (simp_all add: group_text_def)

lemma insert_groups_zeros:
  "insert_groups (Some 0) False gs =
     (case dropWhile (\<lambda>g. g = 0) gs of [] \<Rightarrow> ([], False)
      | g # gs' \<Rightarrow> (''::'' @ join (CHR '':'') (map group_text (g # gs')), True))"
  by (induction gs) (simp_all add: insert_groups_used join_texts group_text_def del: list.map(2))

text \<open>The groups before the first zero, and those behind the zeros that follow.\<close>

definition pre_groups :: "u16 list \<Rightarrow> u16 list" where
  "pre_groups gs = takeWhile (\<lambda>g. g \<noteq> 0) gs"

definition zero_groups :: "u16 list \<Rightarrow> u16 list" where
  "zero_groups gs = takeWhile (\<lambda>g. g = 0) (dropWhile (\<lambda>g. g \<noteq> 0) gs)"

definition post_groups :: "u16 list \<Rightarrow> u16 list" where
  "post_groups gs = dropWhile (\<lambda>g. g = 0) (dropWhile (\<lambda>g. g \<noteq> 0) gs)"

lemma groups_split: "gs = pre_groups gs @ zero_groups gs @ post_groups gs"
  by (simp add: pre_groups_def zero_groups_def post_groups_def)

definition lead :: "u16 option \<Rightarrow> u16 list \<Rightarrow> string" where
  "lead prev gs = (if prev = None then join (CHR '':'') (map group_text gs) else colon_texts gs)"

lemma insert_groups_text:
  "prev \<noteq> Some 0 \<Longrightarrow> insert_groups prev False gs =
     (lead prev (pre_groups gs) @ (if post_groups gs = [] then [] else ''::'' @ join (CHR '':'') (map group_text (post_groups gs))),
      post_groups gs \<noteq> [])"
proof (induction gs arbitrary: prev)
  case Nil
  then show ?case by (simp add: lead_def pre_groups_def post_groups_def)
next
  case (Cons g gs)
  show ?case
  proof (cases "g = 0")
    case True
    then show ?thesis
      by (cases "dropWhile (\<lambda>g. g = 0) gs")
        (simp_all add: insert_groups_zeros pre_groups_def post_groups_def lead_def del: dropWhile_eq_Nil_conv)
  next
    case False
    then have "Some g \<noteq> Some 0" by simp
    note ih = Cons.IH [OF this]
    have groups: "pre_groups (g # gs) = g # pre_groups gs" "post_groups (g # gs) = post_groups gs"
      using False by (simp_all add: pre_groups_def post_groups_def)
    have lead: "lead prev (g # xs) = (if prev \<noteq> None then '':'' else []) @ group_text g @ lead (Some g) xs" for xs
      unfolding lead_def join_texts by simp
    show ?thesis unfolding groups lead using False Cons.prems by (simp add: ih group_text_def)
  qed
qed

definition groups_text :: "u16 list \<Rightarrow> string" where
  "groups_text gs = join (CHR '':'') (map group_text (pre_groups gs))
     @ (if zero_groups gs = [] then [] else ''::'' @ join (CHR '':'') (map group_text (post_groups gs)))"

lemma post_without_zeros: "zero_groups gs = [] \<Longrightarrow> post_groups gs = []"
proof (cases "dropWhile (\<lambda>g. g \<noteq> 0) gs")
  case (Cons x xs)
  then have "x = 0" using hd_dropWhile [of "\<lambda>g. g \<noteq> 0" gs] by (metis list.sel(1) list.distinct(1))
  then show "zero_groups gs = [] \<Longrightarrow> post_groups gs = []" using Cons by (simp add: zero_groups_def)
qed (simp add: post_groups_def del: dropWhile_eq_Nil_conv)

lemma zero_groups_zero: "g \<in> set (zero_groups gs) \<Longrightarrow> g = 0"
  by (auto simp: zero_groups_def dest: set_takeWhileD)

lemma pre_groups_nonzero: "g \<in> set (pre_groups gs) \<Longrightarrow> g \<noteq> 0"
  by (auto simp: pre_groups_def dest: set_takeWhileD)

lemma last_group_zero:
  assumes "gs \<noteq> []" "post_groups gs = []"
  shows "last gs = 0 \<longleftrightarrow> zero_groups gs \<noteq> []"
proof (cases "zero_groups gs = []")
  case True
  then have "pre_groups gs = gs" using groups_split [of gs] assms(2) by simp
  then show ?thesis using True assms(1) pre_groups_nonzero [of "last gs" gs] by (metis last_in_set)
next
  case False
  then have "last gs = last (zero_groups gs)" using groups_split [of gs] assms(2) by (metis append.right_neutral last_appendR)
  then show ?thesis using False zero_groups_zero [of "last (zero_groups gs)" gs] by simp
qed

lemma insert_body:
  assumes "length gs = 8" "insert_groups None False gs = (txt, used)"
  shows "txt @ (if \<not> used \<and> gs ! 7 = 0 then ''::'' else []) = groups_text gs"
proof -
  have "gs \<noteq> []" using assms(1) by auto
  moreover from this have "last gs = gs ! 7" using assms(1) by (simp add: last_conv_nth)
  moreover have "txt = join (CHR '':'') (map group_text (pre_groups gs))
      @ (if post_groups gs = [] then [] else ''::'' @ join (CHR '':'') (map group_text (post_groups gs)))" "used = (post_groups gs \<noteq> [])"
    using insert_groups_text [of None gs] assms(2) by (simp_all add: lead_def)
  ultimately show ?thesis using last_group_zero [of gs] post_without_zeros [of gs]
    by (cases "post_groups gs = []") (auto simp: groups_text_def)
qed

lemma group_text_ok [simp]: "group_text g \<noteq> []" "CHR '':'' \<notin> set (group_text g)" "CHR '']'' \<notin> set (group_text g)"
  by (simp_all add: group_text_def)

lemma group_value: "num_value 16 (group_text g) = unat (byteswapOnLittleEndian g)"
  by (simp add: group_text_def num_value_string)

text \<open>The words of a text with a gap: an empty list of groups leaves an empty word.\<close>

definition words_or_gap :: "u16 list \<Rightarrow> string list" where
  "words_or_gap gs = (if gs = [] then [[]] else map group_text gs)"

lemma takeWhile_words: "takeWhile (\<lambda>w. w \<noteq> []) (words_or_gap gs @ [] # ws) = map group_text gs"
proof -
  have "takeWhile (\<lambda>w. w \<noteq> []) (map group_text gs @ [] # ws) = map group_text gs" by (subst takeWhile_append2) auto
  then show ?thesis by (simp add: words_or_gap_def)
qed

lemma takeWhile_words_rev: "takeWhile (\<lambda>w. w \<noteq> []) (rev (words_or_gap gs) @ [] # ws) = rev (map group_text gs)"
proof -
  have "takeWhile (\<lambda>w. w \<noteq> []) (rev (map group_text gs) @ [] # ws) = rev (map group_text gs)" by (subst takeWhile_append2) auto
  then show ?thesis by (simp add: words_or_gap_def)
qed

lemma join_words: "join (CHR '':'') (words_or_gap gs) = join (CHR '':'') (map group_text gs)"
  by (simp add: words_or_gap_def)

lemma split_groups_text:
  assumes "gs \<noteq> []"
  shows "split_on (CHR '':'') (groups_text gs) =
     (if zero_groups gs = [] then map group_text gs else words_or_gap (pre_groups gs) @ [] # words_or_gap (post_groups gs))"
proof (cases "zero_groups gs = []")
  case True
  then have "pre_groups gs = gs" using groups_split [of gs] post_without_zeros [of gs] by simp
  then show ?thesis using True assms by (simp add: groups_text_def split_on_join)
next
  case False
  let ?ws = "words_or_gap (pre_groups gs) @ [] # words_or_gap (post_groups gs)"
  have ne: "words_or_gap xs \<noteq> []" for xs by (simp add: words_or_gap_def)
  have "join (CHR '':'') ([] # words_or_gap (post_groups gs)) = CHR '':'' # join (CHR '':'') (words_or_gap (post_groups gs))"
    using ne [of "post_groups gs"] by (cases "words_or_gap (post_groups gs)") simp_all
  then have "groups_text gs = join (CHR '':'') ?ws"
    using False by (simp add: groups_text_def join_append ne join_words)
  moreover have "split_on (CHR '':'') (join (CHR '':'') ?ws) = ?ws"
    by (rule split_on_join) (auto simp: words_or_gap_def split: if_splits)
  ultimately show ?thesis using False by simp
qed

lemma swap_zero: "byteswap (0 :: u16) = 0"
  by (simp add: byteswap_def bytes_of_def upt_rec)

lemma read_groups_text:
  assumes "length gs = 8"
  shows "read_groups (split_on (CHR '':'') (groups_text gs)) = map (\<lambda>g. unat (byteswapOnLittleEndian g)) gs"
proof (cases "zero_groups gs = []")
  case True
  have "gs \<noteq> []" using assms by auto
  then show ?thesis using True group_text_ok(1) [symmetric] by (auto simp: split_groups_text read_groups_def group_value)
next
  case False
  have "gs \<noteq> []" using assms by auto
  note split = split_groups_text [OF this]
  have "map (\<lambda>g. unat (byteswapOnLittleEndian g)) (zero_groups gs) = map (\<lambda>_. 0) (zero_groups gs)"
    by (intro map_cong refl) (drule zero_groups_zero, simp add: swap_eq swap_zero)
  then have z: "map (\<lambda>g. unat (byteswapOnLittleEndian g)) (zero_groups gs) = replicate (length (zero_groups gs)) 0"
    by (simp add: map_replicate_const)
  have len: "length gs = length (pre_groups gs) + length (zero_groups gs) + length (post_groups gs)"
    by (subst groups_split) simp
  have m: "map f gs = map f (pre_groups gs) @ map f (zero_groups gs) @ map f (post_groups gs)" for f :: "u16 \<Rightarrow> nat"
    by (subst groups_split) simp
  have "map (num_value 16) (map group_text xs) = map (\<lambda>g. unat (byteswapOnLittleEndian g)) xs" for xs by (simp add: group_value)
  then show ?thesis using False assms len z m [of "\<lambda>g. unat (byteswapOnLittleEndian g)"]
    by (simp add: split read_groups_def takeWhile_words takeWhile_words_rev rev_map group_value)
qed

lemma byte_of_word: "unat (w AND 0xff) = unat (ucast w :: u8)" for w :: u32
proof -
  have "w AND 0xff = take_bit 8 w" by (simp add: take_bit_eq_mask mask_eq_exp_minus_1)
  then show ?thesis by (simp add: unsigned_take_bit_eq unsigned_ucast_eq)
qed

lemma bytes_of_u32: "bytes_of (w :: u32) = [ucast w, ucast (drop_bit 8 w), ucast (drop_bit 16 w), ucast (drop_bit 24 w)]"
  by (simp add: bytes_of_def upt_rec)

lemma takeWhile_upto: "c \<notin> set xs \<Longrightarrow> takeWhile (\<lambda>x. x \<noteq> c) (xs @ c # ys) = xs"
  by (induction xs) auto

lemma dropWhile_upto: "c \<notin> set xs \<Longrightarrow> dropWhile (\<lambda>x. x \<noteq> c) (xs @ c # ys) = c # ys"
  by (induction xs) auto

definition quad_text :: "sockaddr_in \<Rightarrow> string" where
  "quad_text a = join (CHR ''.'') (map (\<lambda>b. dec_string (unat b)) (bytes_of (s_addr a)))"

lemma quad_text_ok [simp]: "CHR '':'' \<notin> set (quad_text a)"
  by (simp add: quad_text_def bytes_of_u32)

lemma ipv4_insert_text: "ipv4_insert a = quad_text a @ CHR '':'' # dec_string (unat (byteswapOnLittleEndian (sin_port a)))"
proof -
  let ?w = "byteswap (s_addr a)"
  have "bytes_of (s_addr a) = rev (bytes_of ?w)" by simp
  then have q: "quad_text a = join (CHR ''.'') (map (\<lambda>b. dec_string (unat b)) (rev (bytes_of ?w)))" unfolding quad_text_def by simp
  show ?thesis unfolding q ipv4_insert_def bytes_of_u32 [of ?w] by (simp add: swap_eq byte_of_word Let_def)
qed

lemma length_halves [simp]: "length (halves bs) = length bs div 2"
  by (induction bs rule: halves.induct) simp_all

lemma ipv6_insert_text:
  assumes "length (s6_addr a) = 16"
  shows "ipv6_insert a = ''['' @ groups_text (halves (s6_addr a)) @ '']:'' @ dec_string (unat (byteswapOnLittleEndian (sin6_port a)))"
proof -
  have "length (halves (s6_addr a)) = 8" using assms by simp
  moreover obtain t used where "insert_groups None False (halves (s6_addr a)) = (t, used)" by fastforce
  ultimately show ?thesis using insert_body [of "halves (s6_addr a)" t used] unfolding ipv6_insert_def Let_def by auto
qed

text \<open>The groups of an address in network order.\<close>

fun net_groups :: "u8 list \<Rightarrow> nat list" where
  "net_groups (b # c # bs) = (256 * unat b + unat c) # net_groups bs"
| "net_groups bs = []"

lemma swap_half: "unat (byteswap (word_of_bytes [b, c] :: u16)) = 256 * unat b + unat c"
proof -
  have "bytes_of (word_of_bytes [b, c] :: u16) = [b, c]" by (rule bytes_of_word_of_bytes) simp
  then have "byteswap (word_of_bytes [b, c] :: u16) = ucast c OR push_bit 8 (ucast b)" by (simp add: byteswap_def)
  also have "\<dots> = ucast c + push_bit 8 (ucast b)" by (rule disjunctive_add [symmetric]) (auto simp: bit_simps dest: bit_imp_le_length)
  also have "unat \<dots> = 256 * unat b + unat c"
  proof -
    have bc: "unat b < 256" "unat c < 256" using unsigned_less [of b, where 'a = nat] unsigned_less [of c, where 'a = nat] by simp_all
    have "unat (ucast c :: u16) = unat c" "unat (ucast b :: u16) = unat b"
      using bc by (simp_all add: unsigned_ucast_eq take_bit_nat_eq_self)
    moreover from this have "unat (push_bit 8 (ucast b) :: u16) = 256 * unat b"
      using bc by (simp only: unsigned_push_bit_eq) (simp add: push_bit_eq_mult take_bit_nat_eq_self)
    ultimately show ?thesis using bc by (subst unat_add_lt) simp_all
  qed
  finally show ?thesis .
qed

lemma groups_values: "map (\<lambda>g. unat (byteswapOnLittleEndian g)) (halves bs) = net_groups bs"
  by (induction bs rule: net_groups.induct) (simp_all add: swap_eq swap_half del: word_of_bytes.simps)

lemma groups_text_bracket [simp]: "CHR '']'' \<notin> set (groups_text gs)"
proof -
  have "c \<notin> set (join d ws)" if "c \<noteq> d" "\<forall>w \<in> set ws. c \<notin> set w" for c d :: char and ws
    using that by (induction d ws rule: join.induct) auto
  then show ?thesis by (simp add: groups_text_def)
qed

lemma unat_port [simp]: "unat (ucast w :: u32) = unat w" for w :: u16
  using unsigned_less [of w, where 'a = nat] by (simp add: unsigned_ucast_eq take_bit_nat_eq_self)

lemma groups_text_not_Nil: "length gs = 8 \<Longrightarrow> groups_text gs \<noteq> []"
proof (cases "pre_groups gs")
  case Nil
  then show "length gs = 8 \<Longrightarrow> groups_text gs \<noteq> []"
    using groups_split [of gs] post_without_zeros [of gs] by (auto simp: groups_text_def)
next
  case (Cons g xs)
  then show ?thesis by (simp add: groups_text_def join_texts del: list.map(2))
qed

text \<open>C21: Texts of addresses. A printed IPv4 address is read back as its four bytes and its port, a printed
  IPv6 address as its eight groups and its port, wherever the printer left out zeros.\<close>

theorem address_text_roundtrip:
  "read_ipv4 (ipv4_insert a) = (map unat (bytes_of (s_addr a)), unat (ipv4_getPort a))
   \<and> (length (s6_addr b) = 16 \<longrightarrow> read_ipv6 (ipv6_insert b) = (net_groups (s6_addr b), unat (ipv6_getPort b)))"
proof (intro conjI impI)
  have "split_on (CHR ''.'') (quad_text a) = map (\<lambda>b. dec_string (unat b)) (bytes_of (s_addr a))"
    unfolding quad_text_def by (rule split_on_join) (auto simp: bytes_of_u32)
  then show "read_ipv4 (ipv4_insert a) = (map unat (bytes_of (s_addr a)), unat (ipv4_getPort a))"
    by (simp add: read_ipv4_def ipv4_insert_text takeWhile_upto dropWhile_upto num_value_string ipv4_getPort_def)
  assume "length (s6_addr b) = 16"
  then show "read_ipv6 (ipv6_insert b) = (net_groups (s6_addr b), unat (ipv6_getPort b))"
    by (simp add: read_ipv6_def ipv6_insert_text takeWhile_upto read_groups_text groups_values num_value_string ipv6_getPort_def Let_def numeral_3_eq_3)
qed

theorem address_text_roundtrip_witness:
  "read_ipv6 (ipv6_insert (IPv6Address_of [0x20, 0x01, 0x0d, 0xb8, 0, 0, 0, 0, 0, 0, 0, 0, 0, 0, 0, 1] 8080)) = ([0x2001, 0xdb8, 0, 0, 0, 0, 0, 1], 8080)"
  using conjunct2 [OF address_text_roundtrip [of undefined "IPv6Address_of [0x20, 0x01, 0x0d, 0xb8, 0, 0, 0, 0, 0, 0, 0, 0, 0, 0, 0, 1] 8080"]]
  by (simp add: IPv6Address_of_def ipv6_getPort_def swap_eq)

section \<open>Splitting host texts\<close>

lemma memchr_None [simp]: "c \<notin> set s \<Longrightarrow> memchr c s = None"
  by (simp add: memchr_def)

lemma memchr_first [simp]: "c \<notin> set s \<Longrightarrow> memchr c (s @ c # t) = Some (length s)"
  by (simp add: memchr_def takeWhile_upto)

lemma split_colon_first:
  "CHR '':'' \<notin> set x \<Longrightarrow> split_colon (x @ CHR '':'' # y) =
     (if CHR '':'' \<in> set y then ([], Some (CHR '':'' # y)) else (x, Some y))"
  by (simp add: split_colon_def memchr_def [of _ y])

lemma split_brackets_no: "x \<noteq> [] \<Longrightarrow> x ! 0 \<noteq> CHR ''['' \<Longrightarrow> split_brackets (x @ y) = ([], None)"
  by (simp add: split_brackets_def nth_append)

lemma split_brackets_yes:
  assumes "CHR '']'' \<notin> set node"
  shows "split_brackets (CHR ''['' # node @ CHR '']'' # rest) =
     (node, if rest \<noteq> [] \<and> hd rest = CHR '':'' then Some (tl rest) else None)"
  using assms by (cases rest) (simp_all add: split_brackets_def nth_append numeral_3_eq_3)

text \<open>Host texts. Lookup splits "node:service" at its colon and "[node]:service" at the bracket, and takes a
  text without colon as the node. For an address with several colons and no brackets, an IPv6 literal,
  it passes the whole text as the node but everything from the first colon on as the service. Printed
  addresses are split into their text and their port.\<close>

theorem lookup_splits:
  assumes "node \<noteq> []" "node ! 0 \<noteq> CHR ''[''" "CHR '':'' \<notin> set node" "v6 \<noteq> []" "CHR '']'' \<notin> set v6"
  shows "lookup_split node = (node, None)
   \<and> (CHR '':'' \<notin> set service \<longrightarrow> lookup_split (node @ '':'' @ service) = (node, Some service))
   \<and> lookup_split (''['' @ v6 @ '']:'' @ service) = (v6, Some service) \<and> lookup_split (''['' @ v6 @ '']'') = (v6, None)
   \<and> (CHR '':'' \<in> set service \<longrightarrow> lookup_split (node @ '':'' @ service) = (node @ '':'' @ service, Some ('':'' @ service)))
   \<and> lookup_split (ipv4_insert a) = (quad_text a, Some (dec_string (unat (ipv4_getPort a))))
   \<and> (length (s6_addr b) = 16 \<longrightarrow>
        lookup_split (ipv6_insert b) = (groups_text (halves (s6_addr b)), Some (dec_string (unat (ipv6_getPort b)))))"
proof (intro conjI impI)
  have digit: "dec_string n ! 0 \<noteq> CHR ''[''" for n
  proof
    assume "dec_string n ! 0 = CHR ''[''"
    moreover have "dec_string n ! 0 \<in> set (dec_string n)" by (rule nth_mem) simp
    ultimately show False using separator_not_digit [of 10 "CHR ''[''" n] by simp
  qed
  have quad: "quad_text a \<noteq> []" "quad_text a ! 0 \<noteq> CHR ''[''"
    by (simp_all add: quad_text_def bytes_of_u32 nth_append digit)
  show "lookup_split node = (node, None)"
    using assms(1-3) split_brackets_no [of node "[]"] by (simp add: lookup_split_def split_colon_def)
  show "lookup_split (''['' @ v6 @ '']:'' @ service) = (v6, Some service)" "lookup_split (''['' @ v6 @ '']'') = (v6, None)"
    using assms(4,5) split_brackets_yes [of v6 "CHR '':'' # service"] split_brackets_yes [of v6 "[]"] by (simp_all add: lookup_split_def)
  show "lookup_split (node @ '':'' @ service) = (node, Some service)" if "CHR '':'' \<notin> set service"
    using that assms(1-3) by (simp add: lookup_split_def split_colon_first split_brackets_no)
  show "lookup_split (node @ '':'' @ service) = (node @ '':'' @ service, Some ('':'' @ service))" if "CHR '':'' \<in> set service"
    using that assms(1-3) by (simp add: lookup_split_def split_colon_first split_brackets_no)
  show "lookup_split (ipv4_insert a) = (quad_text a, Some (dec_string (unat (ipv4_getPort a))))"
    using quad by (simp add: ipv4_insert_text lookup_split_def split_colon_first split_brackets_no ipv4_getPort_def unat_port)
  show "lookup_split (ipv6_insert b) = (groups_text (halves (s6_addr b)), Some (dec_string (unat (ipv6_getPort b))))"
    if "length (s6_addr b) = 16"
    using groups_text_not_Nil [of "halves (s6_addr b)"] that
    by (simp add: ipv6_insert_text lookup_split_def split_brackets_yes ipv6_getPort_def unat_port)
qed

theorem lookup_splits_witness:
  "lookup_split ''www.hps.cn:80'' = (''www.hps.cn'', Some ''80'') \<and> lookup_split ''[fe80::1]:80'' = (''fe80::1'', Some ''80'')
   \<and> lookup_split ''fe80::1'' = (''fe80::1'', Some ''::1'')"
  using lookup_splits [of "''www.hps.cn''" "''fe80::1''" "''80''"] lookup_splits [of "''fe80''" "''fe80''" "'':1''"] by simp

section \<open>Order\<close>

text \<open>The bytes an address shows to the comparison, and addresses whose arrays have the size of their structure.\<close>

definition visible :: "Address \<Rightarrow> u8 list" where
  "visible a = take (getAddrLen a) (getAddr a)"

fun address_ok :: "Address \<Rightarrow> bool" where
  "address_ok (IPv4Address a) \<longleftrightarrow> length (sin_zero a) = 8"
| "address_ok (IPv6Address a) \<longleftrightarrow> length (s6_addr a) = 16"
| "address_ok (UnixAddress a len) \<longleftrightarrow> length (sun_path a) = 108 \<and> unat len \<le> 110"
| "address_ok (UnknownAddress a) \<longleftrightarrow> length (sa_data a) = 14"

lemma length_visible: "address_ok a \<Longrightarrow> length (visible a) = getAddrLen a"
  by (cases a) (auto simp: visible_def in_bytes_def in6_bytes_def un_bytes_def sa_bytes_def)

lemma memcmp_take: "memcmp (take m xs) (take n ys) (min m n) = memcmp xs ys (min m n)"
proof (induction xs arbitrary: ys m n)
  case (Cons x xs)
  then show ?case by (cases ys; cases m; cases n) simp_all
qed (simp add: memcmp.simps)

lemma memcmp_lex:
  "(memcmp xs ys (min (length xs) (length ys)) < 0 \<or> memcmp xs ys (min (length xs) (length ys)) = 0 \<and> length xs < length ys)
     \<longleftrightarrow> xs < ys"
proof (induction xs arbitrary: ys)
  case Nil
  then show ?case by (cases ys) simp_all
next
  case (Cons x xs)
  show ?case
  proof (cases ys)
    case (Cons y ys')
    then show ?thesis using Cons.IH [of ys'] by (cases x y rule: linorder_cases) auto
  qed simp
qed

lemma memcmp_eq: "length xs = length ys \<Longrightarrow> memcmp xs ys (length xs) = 0 \<longleftrightarrow> xs = ys"
  by (induction xs ys rule: list_induct2) auto

interpretation bytes_order: strict_total "(<) :: u8 list \<Rightarrow> u8 list \<Rightarrow> bool"
  by unfold_locales auto

lemma address_less_iff: "address_ok a \<Longrightarrow> address_ok b \<Longrightarrow> address_less a b \<longleftrightarrow> visible a < visible b"
  using memcmp_lex [of "visible a" "visible b"] memcmp_take [of "getAddrLen a" "getAddr a" "getAddrLen b" "getAddr b"]
  by (auto simp: address_less_def Let_def length_visible visible_def [symmetric])

lemma address_eq_iff: "address_ok a \<Longrightarrow> address_ok b \<Longrightarrow> address_eq a b \<longleftrightarrow> visible a = visible b"
  using memcmp_eq [of "visible a" "visible b"] memcmp_take [of "getAddrLen a" "getAddr a" "getAddrLen b" "getAddr b"] length_visible [of a] length_visible [of b]
  by (auto simp: address_eq_def visible_def [symmetric])

text \<open>Comparing addresses is a strict order, and two addresses neither of which is less are equal under ==.\<close>

lemma address_order:
  assumes "address_ok a" "address_ok b" "address_ok c"
  shows "\<not> address_less a a" "address_less a b \<Longrightarrow> address_less b c \<Longrightarrow> address_less a c"
    "address_eq a b \<longleftrightarrow> equivalent address_less a b"
  using assms bytes_order.trans [of "visible a" "visible b" "visible c"] bytes_order.equivalent_eq [of "visible a" "visible b"]
  by (auto simp: address_less_iff address_eq_iff equivalent_def)

end
