(* ===== verification/Uri.thy ===== *)
theory Uri
  imports Address
begin

text \<open>
  URIs (\<open>src/uri.h\<close>, the functions behind the state machine in \<open>src/uri.rl.cc\<close>): default ports and paths,
  printing, and the address a URI names. The machine of Uri::Create, generated by Ragel, is
  \<open>UriMachine\<close> and \<open>UriScanner\<close>.
\<close>

record Uri =
  uri_scheme :: string
  uri_userinfo :: string
  uri_host :: string
  uri_path :: string
  uri_query :: string
  uri_fragment :: string
  uri_port :: i32

definition new_Uri :: Uri where
  "new_Uri = \<lparr>uri_scheme = [], uri_userinfo = [], uri_host = [], uri_path = [], uri_query = [], uri_fragment = [], uri_port = 0\<rparr>"

definition isDefaultPort :: "Uri \<Rightarrow> bool" where
  "isDefaultPort u =
     (if uri_port u = 0 then True
      else if uri_scheme u = ''http'' \<or> uri_scheme u = ''ws'' then uri_port u = 80
      else if uri_scheme u = ''https'' \<or> uri_scheme u = ''wss'' then uri_port u = 443
      else False)"

definition uri_getPath :: "Uri \<Rightarrow> string" where
  "uri_getPath u = (if uri_path u = [] then ''/'' else uri_path u)"

definition uri_getPort :: "Uri \<Rightarrow> i32" where
  "uri_getPort u =
     (if uri_port u \<noteq> 0 then uri_port u
      else if uri_scheme u = ''http'' \<or> uri_scheme u = ''ws'' then 80
      else if uri_scheme u = ''https'' \<or> uri_scheme u = ''wss'' then 443
      else uri_port u)"

definition int_string :: "int \<Rightarrow> string" where
  "int_string n = (if n < 0 then ''-'' @ dec_string (nat (- n)) else dec_string (nat n))"

definition uri_dump :: "Uri \<Rightarrow> string" where
  "uri_dump u = uri_scheme u @ ''://'' @ uri_userinfo u @ (if uri_userinfo u = [] then [] else ''@'') @ uri_host u
     @ (if isDefaultPort u then [] else '':'' @ int_string (sint (uri_port u))) @ uri_getPath u
     @ (if uri_query u = [] then [] else ''?'') @ uri_query u @ (if uri_fragment u = [] then [] else ''#'') @ uri_fragment u"

definition createAddress :: "(string \<Rightarrow> string option \<Rightarrow> u8 list option list option) \<Rightarrow> Uri \<Rightarrow> Address option" where
  "createAddress getaddrinfo u = map_option (setPort (ucast (uri_getPort u))) (LookupAnyIPAddress getaddrinfo (uri_host u))"

text \<open>The path, query and fragment of a request line.\<close>

definition uri_target :: "Uri \<Rightarrow> string" where
  "uri_target u = uri_getPath u @ (if uri_query u = [] then [] else ''?'') @ uri_query u
     @ (if uri_fragment u = [] then [] else ''#'') @ uri_fragment u"

section \<open>Ports\<close>

text \<open>Printing leaves the port out exactly when a reader of the text would assume the same one.\<close>

lemma default_port_iff: "uri_scheme u \<in> {''http'', ''ws'', ''https'', ''wss''} \<Longrightarrow>
    isDefaultPort u \<longleftrightarrow> uri_getPort u = uri_getPort (u\<lparr>uri_port := 0\<rparr>)"
  by (auto simp: isDefaultPort_def uri_getPort_def)

lemma createAddress_port:
  assumes "createAddress g u = Some a"
  shows "(\<exists>b. a = IPv4Address b \<and> ipv4_getPort b = ucast (ucast (uri_getPort u) :: u16))
    \<or> (\<exists>b. a = IPv6Address b \<and> ipv6_getPort b = ucast (ucast (uri_getPort u) :: u16))"
proof -
  obtain a0 where a0: "LookupAnyIPAddress g (uri_host u) = Some a0" "a = setPort (ucast (uri_getPort u)) a0"
    using assms by (auto simp: createAddress_def)
  have "is_ip a0"
    using a0(1) by (fastforce simp: LookupAnyIPAddress_def find_Some_iff Option.bind_eq_Some_conv split: prod.splits if_splits)
  then show ?thesis using a0(2) by (cases a0) (simp_all add: ipv4_setPort_def ipv6_setPort_def ipv4_getPort_def ipv6_getPort_def swap_eq)
qed

end
