(* ===== verification/HttpPool.thy ===== *)
theory HttpPool
  imports Servlet HttpConnection Uri
begin

text \<open>
  The client side of HTTP (\<open>src/http/http_connection.cc\<close>): requests made from a URI and headers, the
  outcome of a request, and the pool of connections. A connection object is an address in a store
  and has the counters the pool looks at; whether it is connected, the clock and the success of a new
  connection are inputs of the calls, each of which is atomic. The texts of errors are not modelled.
\<close>

section \<open>Requests\<close>

text \<open>The loop over the headers, in the order of the map.\<close>

fun header_loop :: "(string \<times> string) list \<Rightarrow> HttpRequest \<Rightarrow> bool \<Rightarrow> HttpRequest \<times> bool" where
  "header_loop [] rq has_host = (rq, has_host)"
| "header_loop ((k, v) # hs) rq has_host =
     (if strcasecmp k ''connection'' = 0 then
        header_loop hs (if strcasecmp v ''keep-alive'' = 0 then rq\<lparr>rq_close := False\<rparr> else rq) has_host
      else header_loop hs (rq_setHeader k v rq) (if \<not> has_host \<and> strcasecmp k ''host'' = 0 then v \<noteq> [] else has_host))"

text \<open>HttpConnection::DoRequest and HttpConnectionPool::doRequest up to the request they send.\<close>

definition make_request :: "HttpMethod \<Rightarrow> Uri \<Rightarrow> (string \<times> string) list \<Rightarrow> string \<Rightarrow> HttpRequest" where
  "make_request meth uri headers body =
     (let rq = (new_HttpRequest 0x11 True)\<lparr>rq_path := uri_getPath uri, rq_query := uri_query uri, rq_fragment := uri_fragment uri, rq_method := meth\<rparr>;
          (rq, has_host) = header_loop headers rq False;
          rq = (if \<not> has_host then rq_setHeader ''Host'' (uri_host uri) rq else rq)
      in rq\<lparr>rq_body := body\<rparr>)"

record pool_conf =
  p_host :: string
  p_vhost :: string
  p_port :: u32
  p_maxSize :: u32
  p_maxAliveTime :: u32
  p_maxRequest :: u32
  p_isHttps :: bool

definition HttpConnectionPool :: "string \<Rightarrow> string \<Rightarrow> u32 \<Rightarrow> bool \<Rightarrow> u32 \<Rightarrow> u32 \<Rightarrow> u32 \<Rightarrow> pool_conf" where
  "HttpConnectionPool host vhost port is_https max_size max_alive_time max_request =
     \<lparr>p_host = host, p_vhost = vhost, p_port = (if port \<noteq> 0 then port else if is_https then 443 else 80),
      p_maxSize = max_size, p_maxAliveTime = max_alive_time, p_maxRequest = max_request, p_isHttps = is_https\<rparr>"

definition pool_request :: "pool_conf \<Rightarrow> HttpMethod \<Rightarrow> string \<Rightarrow> (string \<times> string) list \<Rightarrow> string \<Rightarrow> HttpRequest" where
  "pool_request pc meth url headers body =
     (let rq = (new_HttpRequest 0x11 True)\<lparr>rq_path := url, rq_method := meth, rq_close := False\<rparr>;
          (rq, has_host) = header_loop headers rq False;
          rq = (if \<not> has_host then
                  (if p_vhost pc = [] then rq_setHeader ''Host'' (p_host pc) rq else rq_setHeader ''Host'' (p_vhost pc) rq)
                else rq)
      in rq\<lparr>rq_body := body\<rparr>)"

definition pool_request_uri :: "pool_conf \<Rightarrow> HttpMethod \<Rightarrow> Uri \<Rightarrow> (string \<times> string) list \<Rightarrow> string \<Rightarrow> HttpRequest" where
  "pool_request_uri pc meth uri headers body = pool_request pc meth (uri_target uri) headers body"

section \<open>Outcomes\<close>

datatype HttpError =
    OK | INVALID_URL | INVALID_HOST | CONNECT_FAIL | SEND_CLOSE_BY_PEER | SEND_SOCKET_ERROR | TIMEOUT
  | CREATE_SOCKET_ERROR | POOL_GET_CONNECTION | POOL_INVALID_CONNECTION

text \<open>The part both functions share: the value of sendRequest, and the response if one came.\<close>

definition exchange_result :: "int \<Rightarrow> HttpResponse option \<Rightarrow> HttpError \<times> HttpResponse option" where
  "exchange_result rt rsp =
     (if rt = 0 then (SEND_CLOSE_BY_PEER, None)
      else if rt < 0 then (SEND_SOCKET_ERROR, None)
      else case rsp of None \<Rightarrow> (TIMEOUT, None) | Some r \<Rightarrow> (OK, Some r))"

text \<open>
  What a request needs from the layers below, for a type \<open>'c\<close> of connections: the address of a URI, a socket
  of Socket::CreateTCP or SSLSocket::CreateTCP, connect, setRecvTimeout, and sendRequest and recvResponse of
  the connection made from the socket.
\<close>

record 'c client_net =
  net_address :: "Uri \<Rightarrow> Address option"
  net_CreateTCP :: "bool \<Rightarrow> Address \<Rightarrow> 'c option"
  net_connect :: "Address \<Rightarrow> 'c \<Rightarrow> 'c option"
  net_setRecvTimeout :: "u64 \<Rightarrow> 'c \<Rightarrow> 'c"
  net_sendRequest :: "HttpRequest \<Rightarrow> 'c \<Rightarrow> int \<times> 'c"
  net_recvResponse :: "'c \<Rightarrow> HttpResponse option"

definition exchange :: "'c client_net \<Rightarrow> HttpRequest \<Rightarrow> u64 \<Rightarrow> 'c \<Rightarrow> HttpError \<times> HttpResponse option" where
  "exchange net req timeout_ms c =
     (case net_sendRequest net req (net_setRecvTimeout net timeout_ms c) of (rt, c') \<Rightarrow>
      exchange_result rt (net_recvResponse net c'))"

definition DoRequest :: "'c client_net \<Rightarrow> HttpRequest \<Rightarrow> Uri \<Rightarrow> u64 \<Rightarrow> HttpError \<times> HttpResponse option" where
  "DoRequest net req uri timeout_ms =
     (let is_ssl = (uri_scheme uri = ''https'') in
      case net_address net uri of
        None \<Rightarrow> (INVALID_HOST, None)
      | Some addr \<Rightarrow> (case net_CreateTCP net is_ssl addr of
          None \<Rightarrow> (CREATE_SOCKET_ERROR, None)
        | Some sock \<Rightarrow> (case net_connect net addr sock of
            None \<Rightarrow> (CONNECT_FAIL, None)
          | Some c \<Rightarrow> exchange net req timeout_ms c)))"

definition DoRequest_uri :: "'c client_net \<Rightarrow> HttpMethod \<Rightarrow> Uri \<Rightarrow> u64 \<Rightarrow> (string \<times> string) list \<Rightarrow> string \<Rightarrow> HttpError \<times> HttpResponse option" where
  "DoRequest_uri net meth uri timeout_ms headers body = DoRequest net (make_request meth uri headers body) uri timeout_ms"

text \<open>\<open>create\<close> is Uri::Create.\<close>

definition DoRequest_url :: "(string \<Rightarrow> Uri option) \<Rightarrow> 'c client_net \<Rightarrow> HttpMethod \<Rightarrow> string \<Rightarrow> u64 \<Rightarrow> (string \<times> string) list \<Rightarrow> string \<Rightarrow> HttpError \<times> HttpResponse option" where
  "DoRequest_url create net meth url timeout_ms headers body =
     (case create url of None \<Rightarrow> (INVALID_URL, None) | Some uri \<Rightarrow> DoRequest_uri net meth uri timeout_ms headers body)"

definition DoGet :: "(string \<Rightarrow> Uri option) \<Rightarrow> 'c client_net \<Rightarrow> string \<Rightarrow> u64 \<Rightarrow> (string \<times> string) list \<Rightarrow> string \<Rightarrow> HttpError \<times> HttpResponse option" where
  "DoGet create net url timeout_ms headers body =
     (case create url of None \<Rightarrow> (INVALID_URL, None) | Some uri \<Rightarrow> DoRequest_uri net GET uri timeout_ms headers body)"

definition DoPost :: "(string \<Rightarrow> Uri option) \<Rightarrow> 'c client_net \<Rightarrow> string \<Rightarrow> u64 \<Rightarrow> (string \<times> string) list \<Rightarrow> string \<Rightarrow> HttpError \<times> HttpResponse option" where
  "DoPost create net url timeout_ms headers body =
     (case create url of None \<Rightarrow> (INVALID_URL, None) | Some uri \<Rightarrow> DoRequest_uri net POST uri timeout_ms headers body)"

lemma DoRequest_ok_iff:
  "fst (DoRequest net req uri t) = OK \<longleftrightarrow>
     (\<exists>addr sock c. net_address net uri = Some addr \<and> net_CreateTCP net (uri_scheme uri = ''https'') addr = Some sock \<and> net_connect net addr sock = Some c
       \<and> fst (net_sendRequest net req (net_setRecvTimeout net t c)) > 0
       \<and> net_recvResponse net (snd (net_sendRequest net req (net_setRecvTimeout net t c))) \<noteq> None)"
  by (auto simp: DoRequest_def exchange_def exchange_result_def Let_def split: option.splits prod.splits)

lemma DoRequest_response: "snd (DoRequest net req uri t) \<noteq> None \<longleftrightarrow> fst (DoRequest net req uri t) = OK"
  by (auto simp: DoRequest_def exchange_def exchange_result_def Let_def split: option.splits prod.splits)

section \<open>The pool\<close>

record http_connection =
  c_createTime :: u64
  c_request :: u64

text \<open>
  \<open>m_pool\<close> is the list m_conns of the pool; \<open>lent\<close> the connections whose shared pointers are held by callers,
  which end in ReleasePtr.
\<close>

record pool =
  conn_store :: "nat \<Rightarrow> http_connection option"
  m_pool :: "nat list"
  m_total :: int
  lent :: "nat set"

definition empty_pool :: pool where
  "empty_pool = \<lparr>conn_store = (\<lambda>_. None), m_pool = [], m_total = 0, lent = {}\<rparr>"

text \<open>The loop of getConnection: the connections to delete, the one to use and the rest of the list.\<close>

fun take_connection :: "pool_conf \<Rightarrow> (nat \<Rightarrow> http_connection option) \<Rightarrow> (nat \<Rightarrow> bool) \<Rightarrow> u64 \<Rightarrow> nat list \<Rightarrow> nat list \<times> nat option \<times> nat list" where
  "take_connection pc st connected now [] = ([], None, [])"
| "take_connection pc st connected now (c # cs) =
     (if \<not> connected c \<or> c_createTime (the (st c)) + ucast (p_maxAliveTime pc) > now then
        (case take_connection pc st connected now cs of (bad, p, rest) \<Rightarrow> (c # bad, p, rest))
      else ([], Some c, cs))"

text \<open>\<open>made\<close> is the address of the new connection, or \<open>None\<close> when the host is not found or cannot be connected to.\<close>

definition getConnection :: "pool_conf \<Rightarrow> (nat \<Rightarrow> bool) \<Rightarrow> u64 \<Rightarrow> nat option \<Rightarrow> pool \<Rightarrow> nat option \<times> pool" where
  "getConnection pc connected now made s =
     (case take_connection pc (conn_store s) connected now (m_pool s) of (bad, p, rest) \<Rightarrow>
      let s1 = s\<lparr>m_pool := rest, conn_store := (\<lambda>c. if c \<in> set bad then None else conn_store s c), m_total := m_total s - int (length bad)\<rparr> in
      case p of
        Some c \<Rightarrow> (Some c, s1\<lparr>lent := insert c (lent s1)\<rparr>)
      | None \<Rightarrow> (case made of
                   None \<Rightarrow> (None, s1)
                 | Some c \<Rightarrow> (Some c, s1\<lparr>conn_store := (conn_store s1)(c \<mapsto> \<lparr>c_createTime = 0, c_request = 0\<rparr>),
                       m_total := m_total s1 + 1, lent := insert c (lent s1)\<rparr>)))"

definition ReleasePtr :: "pool_conf \<Rightarrow> (nat \<Rightarrow> bool) \<Rightarrow> u64 \<Rightarrow> nat \<Rightarrow> pool \<Rightarrow> pool" where
  "ReleasePtr pc connected now c s =
     (let conn = (the (conn_store s c))\<lparr>c_request := c_request (the (conn_store s c)) + 1\<rparr>;
          s1 = s\<lparr>conn_store := (conn_store s)(c \<mapsto> conn), lent := lent s - {c}\<rparr> in
      if \<not> connected c \<or> c_createTime conn + ucast (p_maxAliveTime pc) \<ge> now \<or> c_request conn \<ge> ucast (p_maxRequest pc)
      then s1\<lparr>conn_store := (conn_store s1)(c := None), m_total := m_total s1 - 1\<rparr>
      else s1\<lparr>m_pool := m_pool s1 @ [c]\<rparr>)"

text \<open>
  HttpConnectionPool::doRequest: the connection goes back to the pool when its pointer goes out of scope.
  \<open>sock c\<close> is getSocket of the connection, \<open>later\<close> and \<open>connected'\<close> the clock and the connections at that time.
\<close>

definition pool_doRequest ::
  "pool_conf \<Rightarrow> 'c client_net \<Rightarrow> (nat \<Rightarrow> 'c option) \<Rightarrow> (nat \<Rightarrow> bool) \<Rightarrow> u64 \<Rightarrow> nat option \<Rightarrow> (nat \<Rightarrow> bool) \<Rightarrow> u64 \<Rightarrow> HttpRequest \<Rightarrow> u64 \<Rightarrow> pool
     \<Rightarrow> (HttpError \<times> HttpResponse option) \<times> pool" where
  "pool_doRequest pc net sock connected now made connected' later req timeout_ms s =
     (case getConnection pc connected now made s of
        (None, s1) \<Rightarrow> ((POOL_GET_CONNECTION, None), s1)
      | (Some c, s1) \<Rightarrow>
          ((case sock c of None \<Rightarrow> (POOL_INVALID_CONNECTION, None) | Some k \<Rightarrow> exchange net req timeout_ms k),
           ReleasePtr pc connected' later c s1))"

text \<open>Calls of the pool: callers get connections and let them go.\<close>

inductive pool_step :: "pool_conf \<Rightarrow> pool \<Rightarrow> pool \<Rightarrow> bool" for pc where
  get: "(\<forall>c. made = Some c \<longrightarrow> c \<notin> lent s) \<Longrightarrow> pool_step pc s (snd (getConnection pc connected now made s))"
| release: "c \<in> lent s \<Longrightarrow> pool_step pc s (ReleasePtr pc connected now c s)"

definition pool_inv :: "pool_conf \<Rightarrow> pool \<Rightarrow> bool" where
  "pool_inv pc s \<longleftrightarrow> distinct (m_pool s) \<and> set (m_pool s) \<inter> lent s = {} \<and> finite (lent s)
     \<and> dom (conn_store s) = set (m_pool s) \<union> lent s \<and> m_total s = int (length (m_pool s)) + int (card (lent s))
     \<and> (\<forall>c conn. conn_store s c = Some conn \<longrightarrow> c_createTime conn = 0)
     \<and> (\<forall>c \<in> set (m_pool s). c_request (the (conn_store s c)) < ucast (p_maxRequest pc))"

lemma take_connection_split:
  "take_connection pc st connected now cs = (bad, p, rest) \<Longrightarrow>
     (case p of None \<Rightarrow> cs = bad \<and> rest = []
      | Some c \<Rightarrow> cs = bad @ c # rest \<and> connected c \<and> \<not> c_createTime (the (st c)) + ucast (p_maxAliveTime pc) > now)"
  by (induction cs arbitrary: bad) (auto split: if_splits prod.splits option.splits)

lemma getConnection_inv:
  assumes "pool_inv pc s" "\<forall>c. made = Some c \<longrightarrow> c \<notin> lent s" "getConnection pc connected now made s = (r, s')"
  shows "pool_inv pc s' \<and> (\<forall>c. r = Some c \<longrightarrow> c \<notin> lent s \<and> c \<in> lent s')"
proof -
  obtain bad p rest where t: "take_connection pc (conn_store s) connected now (m_pool s) = (bad, p, rest)"
    by (cases "take_connection pc (conn_store s) connected now (m_pool s)")
  note split = take_connection_split [OF t]
  let ?s1 = "s\<lparr>m_pool := rest, conn_store := (\<lambda>c. if c \<in> set bad then None else conn_store s c), m_total := m_total s - int (length bad)\<rparr>"
  show ?thesis
  proof (cases p)
    case (Some c)
    then have cs: "m_pool s = bad @ c # rest" using split by simp
    have s': "r = Some c" "s' = ?s1\<lparr>lent := insert c (lent s)\<rparr>" using assms(3) t Some by (auto simp: getConnection_def Let_def)
    have "c \<notin> lent s" "c \<notin> set bad" "c \<notin> set rest" "set rest \<inter> set bad = {}" "lent s \<inter> set bad = {}"
      using assms(1) cs by (auto simp: pool_inv_def)
    then show ?thesis using assms(1) cs s' by (auto simp: pool_inv_def dom_def split: if_splits)
  next
    case None
    then have cs: "m_pool s = bad" "rest = []" using split by simp_all
    have dom: "dom (\<lambda>c. if c \<in> set bad then None else conn_store s c) = lent s"
      using assms(1) cs by (auto simp: pool_inv_def dom_def split: if_splits)
    show ?thesis
    proof (cases made)
      case None
      then have "r = None" "s' = ?s1" using assms(3) t \<open>p = None\<close> by (auto simp: getConnection_def Let_def)
      then show ?thesis using assms(1) cs dom by (auto simp: pool_inv_def split: if_splits)
    next
      case (Some c)
      then have s': "r = Some c" "s' = ?s1\<lparr>conn_store := (conn_store ?s1)(c \<mapsto> \<lparr>c_createTime = 0, c_request = 0\<rparr>),
                       m_total := m_total ?s1 + 1, lent := insert c (lent s)\<rparr>" "c \<notin> lent s"
        using assms(2,3) t \<open>p = None\<close> by (auto simp: getConnection_def Let_def)
      have fin: "finite (lent s)" and total: "m_total s = int (length bad) + int (card (lent s))"
        and time: "\<forall>c conn. conn_store s c = Some conn \<longrightarrow> c_createTime conn = 0"
        using assms(1) cs by (simp_all add: pool_inv_def)
      have "dom (conn_store s') = insert c (lent s)" using dom s'(2) by simp
      moreover have "m_total s' = int (card (insert c (lent s)))" using s'(2,3) fin total by simp
      moreover have "\<forall>d conn. conn_store s' d = Some conn \<longrightarrow> c_createTime conn = 0" using s'(2) time by simp
      moreover have "m_pool s' = []" "lent s' = insert c (lent s)" using s'(2) cs by simp_all
      ultimately show ?thesis using s'(1,3) fin unfolding pool_inv_def by auto
    qed
  qed
qed

lemma ReleasePtr_inv:
  assumes "pool_inv pc s" "c \<in> lent s"
  shows "pool_inv pc (ReleasePtr pc connected now c s)"
proof -
  obtain conn where conn: "conn_store s c = Some conn" using assms by (auto simp: pool_inv_def dom_def)
  let ?conn = "conn\<lparr>c_request := c_request conn + 1\<rparr>"
  let ?del = "\<not> connected c \<or> c_createTime ?conn + ucast (p_maxAliveTime pc) \<ge> now \<or> c_request ?conn \<ge> ucast (p_maxRequest pc)"
  have card: "int (card (lent s)) = int (card (lent s - {c})) + 1"
    using card.remove [of "lent s" c] assms by (simp add: pool_inv_def)
  have c: "c \<notin> set (m_pool s)" using assms by (auto simp: pool_inv_def)
  have dom: "dom (conn_store s) = set (m_pool s) \<union> lent s" using assms(1) by (simp add: pool_inv_def)
  have time: "c_createTime conn = 0" using assms(1) conn by (auto simp: pool_inv_def)
  show ?thesis
  proof (cases ?del)
    case True
    then have "ReleasePtr pc connected now c s =
        s\<lparr>conn_store := (conn_store s)(c := None), lent := lent s - {c}, m_total := m_total s - 1\<rparr>"
      using conn by (simp add: ReleasePtr_def Let_def)
    moreover have "dom ((conn_store s)(c := None)) = set (m_pool s) \<union> (lent s - {c})" using dom c by auto
    ultimately show ?thesis using assms(1) card c by (auto simp: pool_inv_def split: if_splits)
  next
    case False
    then have "ReleasePtr pc connected now c s =
        s\<lparr>conn_store := (conn_store s)(c \<mapsto> ?conn), lent := lent s - {c}, m_pool := m_pool s @ [c]\<rparr>"
      using conn by (simp add: ReleasePtr_def Let_def)
    moreover have "dom ((conn_store s)(c \<mapsto> ?conn)) = set (m_pool s @ [c]) \<union> (lent s - {c})" using dom assms(2) by auto
    moreover have "c_request ?conn < ucast (p_maxRequest pc)" using False by (simp add: not_le)
    ultimately show ?thesis using assms(1) card c time by (auto simp: pool_inv_def split: if_splits)
  qed
qed

text \<open>A request leaves the connections of other callers alone and lends none.\<close>

lemma pool_doRequest_inv:
  assumes "pool_inv pc s" "\<forall>c. made = Some c \<longrightarrow> c \<notin> lent s"
    and "pool_doRequest pc net sock connected now made connected' later req t s = (res, s')"
  shows "pool_inv pc s' \<and> lent s' = lent s"
proof -
  obtain r s1 where g: "getConnection pc connected now made s = (r, s1)" by (cases "getConnection pc connected now made s")
  note i = getConnection_inv [OF assms(1,2) g]
  show ?thesis
  proof (cases r)
    case None
    then have "s' = s1" "lent s1 = lent s"
      using assms(3) g by (auto simp: pool_doRequest_def getConnection_def Let_def split: prod.splits option.splits)
    then show ?thesis using i by simp
  next
    case (Some c)
    then have "s' = ReleasePtr pc connected' later c s1" "lent s1 = insert c (lent s)"
      using assms(3) g by (auto simp: pool_doRequest_def getConnection_def Let_def split: prod.splits option.splits)
    moreover have "lent (ReleasePtr pc connected' later c s1) = lent s1 - {c}" by (simp add: ReleasePtr_def Let_def)
    ultimately show ?thesis using i Some ReleasePtr_inv by auto
  qed
qed

lemma reachable_pool: "(pool_step pc)\<^sup>*\<^sup>* empty_pool s \<Longrightarrow> pool_inv pc s"
proof (induction rule: rtranclp_induct)
  case base
  then show ?case by (simp add: pool_inv_def empty_pool_def)
next
  case (step s s')
  from step.hyps(2) show ?case
  proof cases
    case (get made connected now)
    then show ?thesis using getConnection_inv [OF step.IH get(2) surjective_pairing] by simp
  next
    case (release c connected now)
    then show ?thesis using ReleasePtr_inv [OF step.IH] by simp
  qed
qed

text \<open>The connection that is reused is the first in the list that is connected, whatever its age.\<close>

lemma take_connection_first:
  assumes "\<forall>c \<in> set cs. c_createTime (the (st c)) = 0" "ucast (p_maxAliveTime pc) \<le> now"
  shows "fst (snd (take_connection pc st connected now cs)) = find connected cs"
  using assms by (induction cs) (auto split: prod.splits)

text \<open>C25: The connection pool. Whatever callers do, no connection is in the list of the pool and in use at the
  same time, getConnection never returns one that is in use, m_total counts the connections that
  exist, and a connection in the list has served fewer than m_maxRequest requests. The age of a
  connection has no influence as long as the clock is past m_maxAliveTime, because m_createTime is
  never set: getConnection returns the first connection in the list that is connected.\<close>

theorem pool_exclusive:
  assumes "(pool_step pc)\<^sup>*\<^sup>* empty_pool s" "\<forall>c. made = Some c \<longrightarrow> c \<notin> lent s"
    and "getConnection pc connected now made s = (r, s')"
  shows "set (m_pool s) \<inter> lent s = {} \<and> distinct (m_pool s) \<and> m_total s = int (length (m_pool s)) + int (card (lent s))
    \<and> dom (conn_store s) = set (m_pool s) \<union> lent s
    \<and> (\<forall>c \<in> set (m_pool s). c_request (the (conn_store s c)) < ucast (p_maxRequest pc))
    \<and> (\<forall>c. r = Some c \<longrightarrow> c \<notin> lent s \<and> c \<in> lent s')
    \<and> (ucast (p_maxAliveTime pc) \<le> now \<and> find connected (m_pool s) = Some c \<longrightarrow> r = Some c)"
proof -
  have inv: "pool_inv pc s" by (rule reachable_pool [OF assms(1)])
  have zero: "\<forall>c \<in> set (m_pool s). c_createTime (the (conn_store s c)) = 0"
  proof
    fix c assume "c \<in> set (m_pool s)"
    then obtain conn where "conn_store s c = Some conn" using inv unfolding pool_inv_def by blast
    then show "c_createTime (the (conn_store s c)) = 0" using inv unfolding pool_inv_def by force
  qed
  have "r = Some c" if "ucast (p_maxAliveTime pc) \<le> now" "find connected (m_pool s) = Some c"
    using take_connection_first [OF zero that(1), of connected] that(2) assms(3)
    by (auto simp: getConnection_def Let_def split: prod.splits)
  then show ?thesis using inv getConnection_inv [OF inv assms(2,3)] unfolding pool_inv_def by blast
qed

theorem pool_exclusive_witness:
  "m_total (snd (getConnection (HttpConnectionPool ''h'' [] 0 False 1 1 9) (\<lambda>_. True) 100 (Some 7) empty_pool)) = 1
   \<and> m_total empty_pool = 0"
proof -
  let ?pc = "HttpConnectionPool ''h'' [] 0 False 1 1 9"
  let ?s = "snd (getConnection ?pc (\<lambda>_. True) 100 (Some 7) empty_pool)"
  have "(pool_step ?pc)\<^sup>*\<^sup>* empty_pool ?s" by (rule r_into_rtranclp, rule pool_step.get) (simp add: empty_pool_def)
  then show ?thesis using pool_exclusive [of ?pc ?s None "\<lambda>_. True" 100, OF _ _ surjective_pairing]
    by (simp add: getConnection_def empty_pool_def)
qed

end
