(* ===== verification/Config.thy ===== *)
theory Config
  imports CText
begin

text \<open>
  Configuration (\<open>src/config.h\<close>, \<open>src/config.cc\<close>, \<open>src/env.cc\<close>): the variables with their listeners, the registry, and
  loading from YAML. A variable of a type T has its value, and the conversions and the equality of T as
  functions, on one type of values; a conversion that throws is \<open>None\<close>. YAML documents are trees, and writing
  a tree as text is a parameter. What a listener is called with is part of the result; listeners do not throw.

  The lemmas show what loading a tree does to every variable and which calls the listeners get.
\<close>

section \<open>Documents and conversions\<close>

datatype yaml = YNull | YScalar string | YSequence "yaml list" | YMap "(string \<times> yaml) list"

text \<open>
  The YAML library: reading a text, which may throw, writing a tree, the node a number selects in a map, which
  may be undefined, and what a null node gives as a string, which may throw.
\<close>

record yaml_lib =
  yl_load :: "string \<Rightarrow> yaml option"
  yl_emit :: "yaml \<Rightarrow> string"
  yl_map_at :: "(string \<times> yaml) list \<Rightarrow> nat \<Rightarrow> yaml option"
  yl_null :: "string option"

text \<open>The nodes that the numbers below the size of a node select; an undefined node is written as no text.\<close>

definition elements :: "yaml_lib \<Rightarrow> yaml \<Rightarrow> yaml option list" where
  "elements L node =
     (case node of YSequence ns \<Rightarrow> map Some ns | YMap kvs \<Rightarrow> map (yl_map_at L kvs) [0..<length kvs] | _ \<Rightarrow> [])"

definition element_text :: "yaml_lib \<Rightarrow> yaml option \<Rightarrow> string" where
  "element_text L n = (case n of None \<Rightarrow> [] | Some node \<Rightarrow> yl_emit L node)"

text \<open>
  The specialisations of LexicalCast. \<open>from\<close> and \<open>to\<close> convert an element and may throw. A set is the list of its
  elements in its order; insertion keeps an equivalent element that is there.
\<close>

definition from_vector :: "yaml_lib \<Rightarrow> (string \<Rightarrow> 'a option) \<Rightarrow> string \<Rightarrow> 'a list option" where
  "from_vector L from v = Option.bind (yl_load L v) (\<lambda>node. those (map (\<lambda>n. from (element_text L n)) (elements L node)))"

fun load_elements :: "yaml_lib \<Rightarrow> ('a \<Rightarrow> string option) \<Rightarrow> 'a list \<Rightarrow> yaml list option" where
  "load_elements L to [] = Some []"
| "load_elements L to (x # xs) =
     Option.bind (to x) (\<lambda>s. Option.bind (yl_load L s) (\<lambda>n. Option.bind (load_elements L to xs) (\<lambda>ns. Some (n # ns))))"

definition to_vector :: "yaml_lib \<Rightarrow> ('a \<Rightarrow> string option) \<Rightarrow> 'a list \<Rightarrow> string option" where
  "to_vector L to v = map_option (\<lambda>ns. yl_emit L (YSequence ns)) (load_elements L to v)"

fun set_insert :: "('a \<Rightarrow> 'a \<Rightarrow> bool) \<Rightarrow> 'a \<Rightarrow> 'a list \<Rightarrow> 'a list" where
  "set_insert lt x [] = [x]"
| "set_insert lt x (y # ys) = (if lt x y then x # y # ys else if lt y x then y # set_insert lt x ys else y # ys)"

definition from_set :: "yaml_lib \<Rightarrow> ('a \<Rightarrow> 'a \<Rightarrow> bool) \<Rightarrow> (string \<Rightarrow> 'a option) \<Rightarrow> string \<Rightarrow> 'a list option" where
  "from_set L lt from v = map_option (\<lambda>xs. fold (set_insert lt) xs []) (from_vector L from v)"

definition to_set :: "yaml_lib \<Rightarrow> ('a \<Rightarrow> string option) \<Rightarrow> 'a list \<Rightarrow> string option" where
  "to_set L to v = to_vector L to v"

text \<open>The elements of an unordered set in the order it is walked in are an argument of its conversion to text.\<close>

definition from_unordered_set :: "yaml_lib \<Rightarrow> (string \<Rightarrow> 'a option) \<Rightarrow> string \<Rightarrow> 'a set option" where
  "from_unordered_set L from v = map_option set (from_vector L from v)"

definition to_unordered_set :: "yaml_lib \<Rightarrow> ('a \<Rightarrow> string option) \<Rightarrow> 'a list \<Rightarrow> string option" where
  "to_unordered_set L to order = to_vector L to order"

text \<open>Maps: the pairs of a YAML map, where walking a sequence that is not empty throws; the first pair of a key counts.\<close>

definition map_pairs :: "yaml \<Rightarrow> (string \<times> yaml) list option" where
  "map_pairs node = (case node of YMap kvs \<Rightarrow> Some kvs | YSequence (_ # _) \<Rightarrow> None | _ \<Rightarrow> Some [])"

definition from_map :: "yaml_lib \<Rightarrow> (string \<Rightarrow> 'a option) \<Rightarrow> string \<Rightarrow> (string \<rightharpoonup> 'a) option" where
  "from_map L from v = Option.bind (yl_load L v) (\<lambda>node. Option.bind (map_pairs node) (\<lambda>kvs.
     map_option map_of (those (map (\<lambda>(k, n). map_option (Pair k) (from (yl_emit L n))) kvs))))"

definition to_map :: "yaml_lib \<Rightarrow> ('a \<Rightarrow> string option) \<Rightarrow> (string \<times> 'a) list \<Rightarrow> string option" where
  "to_map L to kvs = map_option (\<lambda>ns. yl_emit L (YMap (zip (map fst kvs) ns))) (load_elements L to (map snd kvs))"

text \<open>What is used of the library: reading a text that was written for a tree gives the tree back.\<close>

definition reads_back :: "yaml_lib \<Rightarrow> yaml \<Rightarrow> bool" where
  "reads_back L n \<longleftrightarrow> yl_load L (yl_emit L n) = Some n"

text \<open>An element survives when the text of the node of its own text is read as \<open>f\<close> of it.\<close>

definition survives :: "yaml_lib \<Rightarrow> ('a \<Rightarrow> string option) \<Rightarrow> (string \<Rightarrow> 'b option) \<Rightarrow> ('a \<Rightarrow> 'b) \<Rightarrow> 'a \<Rightarrow> bool" where
  "survives L to from f x \<longleftrightarrow> (case Option.bind (to x) (yl_load L) of None \<Rightarrow> False | Some n \<Rightarrow> from (yl_emit L n) = Some (f x))"

lemma load_elements_survive:
  "(\<And>x. x \<in> set xs \<Longrightarrow> survives L to from f x) \<Longrightarrow>
     \<exists>ns. load_elements L to xs = Some ns \<and> length ns = length xs \<and> those (map (\<lambda>n. from (yl_emit L n)) ns) = Some (map f xs)"
proof (induction xs)
  case (Cons x xs)
  have "survives L to from f x" using Cons.prems by simp
  then obtain s n where n: "to x = Some s" "yl_load L s = Some n" "from (yl_emit L n) = Some (f x)"
    by (auto simp: survives_def split: option.splits bind_splits)
  obtain ns where ns: "load_elements L to xs = Some ns" "length ns = length xs" "those (map (\<lambda>n. from (yl_emit L n)) ns) = Some (map f xs)"
    using Cons by auto
  then show ?case using n by auto
qed simp

lemma vector_survives:
  assumes "\<And>x. x \<in> set xs \<Longrightarrow> survives L to from f x" "\<And>ns. load_elements L to xs = Some ns \<Longrightarrow> reads_back L (YSequence ns)"
  shows "\<exists>s. to_vector L to xs = Some s \<and> from_vector L from s = Some (map f xs)"
proof -
  obtain ns where ns: "load_elements L to xs = Some ns" "those (map (\<lambda>n. from (yl_emit L n)) ns) = Some (map f xs)"
    using load_elements_survive [of xs L to "from" f] assms(1) by auto
  then show ?thesis using assms(2) [OF ns(1)]
    by (simp add: to_vector_def from_vector_def reads_back_def elements_def element_text_def comp_def)
qed

section \<open>Variables\<close>

record 'v config_var =
  cv_name :: string
  cv_description :: string
  cv_type :: string
  cv_val :: 'v
  cv_from :: "string \<Rightarrow> 'v option"
  cv_to :: "'v \<Rightarrow> string option"
  cv_eq :: "'v \<Rightarrow> 'v \<Rightarrow> bool"
  cv_cbs :: "u64 list"

text \<open>A call of a listener: the name of the variable, the key of the listener, the old and the new value.\<close>

type_synonym 'v call = "string \<times> u64 \<times> 'v \<times> 'v"

definition tolower :: "char \<Rightarrow> char" where
  "tolower c = (let n = of_char c :: nat in if 65 \<le> n \<and> n \<le> 90 then char_of (n + 32) else c)"

definition ConfigVar :: "string \<Rightarrow> string \<Rightarrow> string \<Rightarrow> 'v \<Rightarrow> (string \<Rightarrow> 'v option) \<Rightarrow> ('v \<Rightarrow> string option) \<Rightarrow> ('v \<Rightarrow> 'v \<Rightarrow> bool) \<Rightarrow> 'v config_var" where
  "ConfigVar name description type default_value from to eq =
     \<lparr>cv_name = map tolower name, cv_description = description, cv_type = type, cv_val = default_value, cv_from = from, cv_to = to, cv_eq = eq, cv_cbs = []\<rparr>"

definition setValue :: "'v \<Rightarrow> 'v config_var \<Rightarrow> 'v config_var \<times> 'v call list" where
  "setValue v c =
     (if cv_eq c v (cv_val c) then (c, []) else (c\<lparr>cv_val := v\<rparr>, map (\<lambda>k. (cv_name c, k, cv_val c, v)) (cv_cbs c)))"

text \<open>fromString returns false on every path.\<close>

definition fromString :: "string \<Rightarrow> 'v config_var \<Rightarrow> bool \<times> 'v config_var \<times> 'v call list" where
  "fromString val c = (case cv_from c val of None \<Rightarrow> (False, c, []) | Some v \<Rightarrow> (False, setValue v c))"

definition toString :: "'v config_var \<Rightarrow> string" where
  "toString c = (case cv_to c (cv_val c) of None \<Rightarrow> [] | Some s \<Rightarrow> s)"

text \<open>
  Listeners, called in the order of their keys, which std::map keeps ascending. The counter of the keys is a static
  variable of the class.
\<close>

definition addListener :: "u64 \<Rightarrow> 'v config_var \<Rightarrow> u64 \<times> u64 \<times> 'v config_var" where
  "addListener s_fun_id c = (let k = s_fun_id + 1 in (k, k, c\<lparr>cv_cbs := insort k (removeAll k (cv_cbs c))\<rparr>))"

definition delListener :: "u64 \<Rightarrow> 'v config_var \<Rightarrow> 'v config_var" where
  "delListener k c = c\<lparr>cv_cbs := removeAll k (cv_cbs c)\<rparr>"

definition getListener :: "u64 \<Rightarrow> 'v config_var \<Rightarrow> u64 option" where
  "getListener k c = (if k \<in> set (cv_cbs c) then Some k else None)"

definition clearListener :: "'v config_var \<Rightarrow> 'v config_var" where
  "clearListener c = c\<lparr>cv_cbs := []\<rparr>"

section \<open>The registry\<close>

type_synonym 'v config = "string \<Rightarrow> 'v config_var option"

datatype config_error = InvalidArgument string

definition lower_chars :: string where "lower_chars = ''abcdefghikjlmnopqrstuvwxyz._012345678''"

definition name_chars :: string where "name_chars = ''abcdefghikjlmnopqrstuvwxyzABCDEFGHIKJLMNOPQRSTUVWXYZ._012345678''"

text \<open>\<open>None\<close> is the null pointer for a variable of another type.\<close>

definition Lookup ::
  "string \<Rightarrow> string \<Rightarrow> string \<Rightarrow> 'v \<Rightarrow> (string \<Rightarrow> 'v option) \<Rightarrow> ('v \<Rightarrow> string option) \<Rightarrow> ('v \<Rightarrow> 'v \<Rightarrow> bool) \<Rightarrow> 'v config
     \<Rightarrow> (config_error, 'v config_var option \<times> 'v config) result" where
  "Lookup name description type default_value from to eq datas =
     (case datas name of
        Some c \<Rightarrow> Inr (if cv_type c = type then Some c else None, datas)
      | None \<Rightarrow>
          if \<not> list_all (\<lambda>x. x \<in> set lower_chars) name then Inl (InvalidArgument name)
          else let c = ConfigVar name description type default_value from to eq in Inr (Some c, datas(name \<mapsto> c)))"

definition Lookup_existing :: "string \<Rightarrow> string \<Rightarrow> 'v config \<Rightarrow> 'v config_var option" where
  "Lookup_existing name type datas = (case datas name of None \<Rightarrow> None | Some c \<Rightarrow> if cv_type c = type then Some c else None)"

definition LookupBase :: "string \<Rightarrow> 'v config \<Rightarrow> 'v config_var option" where
  "LookupBase name datas = datas name"

section \<open>Loading\<close>

fun ListAllMember :: "string \<Rightarrow> yaml \<Rightarrow> (string \<times> yaml) list" where
  "ListAllMember prefix node =
     (if \<not> list_all (\<lambda>x. x \<in> set name_chars) prefix then []
      else (prefix, node) #
        (case node of
           YMap kvs \<Rightarrow> concat (map (\<lambda>(k, v). ListAllMember (if prefix = [] then k else prefix @ ''.'' @ k) v) kvs)
         | _ \<Rightarrow> []))"

declare ListAllMember.simps [simp del]

definition node_text :: "(yaml \<Rightarrow> string) \<Rightarrow> yaml \<Rightarrow> string" where
  "node_text emit node = (case node of YScalar s \<Rightarrow> s | _ \<Rightarrow> emit node)"

text \<open>One turn of the loop of LoadFromYaml.\<close>

definition load_node :: "(yaml \<Rightarrow> string) \<Rightarrow> string \<times> yaml \<Rightarrow> 'v config \<times> 'v call list \<Rightarrow> 'v config \<times> 'v call list" where
  "load_node emit = (\<lambda>(key, node) (datas, calls).
     if key = [] then (datas, calls)
     else let k = map tolower key in
       case LookupBase k datas of
         None \<Rightarrow> (datas, calls)
       | Some c \<Rightarrow> (case fromString (node_text emit node) c of (_, c1, cs) \<Rightarrow> (datas(k \<mapsto> c1), calls @ cs)))"

definition LoadFromYaml :: "(yaml \<Rightarrow> string) \<Rightarrow> yaml \<Rightarrow> 'v config \<Rightarrow> 'v config \<times> 'v call list" where
  "LoadFromYaml emit root datas = fold (load_node emit) (ListAllMember [] root) (datas, [])"

text \<open>The environment: the directory of the program and its arguments.\<close>

definition getAbsolutePath :: "string \<Rightarrow> string \<Rightarrow> string" where
  "getAbsolutePath cwd path = (if path = [] then ''/'' else if hd path = CHR ''/'' then path else cwd @ path)"

definition env_has :: "(string \<rightharpoonup> string) \<Rightarrow> string \<Rightarrow> bool" where
  "env_has args key \<longleftrightarrow> args key \<noteq> None"

text \<open>
  Loading a directory. \<open>files\<close> lists the files of a directory, \<open>mtime\<close> is the time of the last change, \<open>load\<close> reads a
  file, \<open>None\<close> when it throws.
\<close>

record conf_fs =
  fs_files :: "string \<Rightarrow> string list"
  fs_mtime :: "string \<Rightarrow> u64"
  fs_load :: "string \<Rightarrow> yaml option"

definition load_file ::
  "(yaml \<Rightarrow> string) \<Rightarrow> conf_fs \<Rightarrow> bool \<Rightarrow> string \<Rightarrow> ('v config \<times> 'v call list) \<times> (string \<rightharpoonup> u64) \<Rightarrow> ('v config \<times> 'v call list) \<times> (string \<rightharpoonup> u64)" where
  "load_file emit fs force i = (\<lambda>((datas, calls), seen_at).
     let seen = (case seen_at i of None \<Rightarrow> 0 | Some t \<Rightarrow> t) in
     if \<not> force \<and> seen = fs_mtime fs i then ((datas, calls), seen_at(i \<mapsto> seen))
     else let seen1 = seen_at(i \<mapsto> fs_mtime fs i) in
       case fs_load fs i of
         None \<Rightarrow> ((datas, calls), seen1)
       | Some root \<Rightarrow> (case LoadFromYaml emit root datas of (datas1, cs) \<Rightarrow> ((datas1, calls @ cs), seen1)))"

definition LoadFromConfDir ::
  "(yaml \<Rightarrow> string) \<Rightarrow> conf_fs \<Rightarrow> string \<Rightarrow> string \<Rightarrow> bool \<Rightarrow> ('v config \<times> 'v call list) \<times> (string \<rightharpoonup> u64) \<Rightarrow> ('v config \<times> 'v call list) \<times> (string \<rightharpoonup> u64)" where
  "LoadFromConfDir emit fs cwd path force st = fold (load_file emit fs force) (fs_files fs (getAbsolutePath cwd path)) st"

definition Visit :: "string list \<Rightarrow> 'v config \<Rightarrow> 'v config_var list" where
  "Visit order datas = List.map_filter datas order"

section \<open>What loading does\<close>

text \<open>A variable is registered under its own name.\<close>

definition registry_ok :: "'v config \<Rightarrow> bool" where
  "registry_ok datas \<longleftrightarrow> (\<forall>k c. datas k = Some c \<longrightarrow> cv_name c = k)"

lemma lower_chars_tolower: "list_all (\<lambda>x. x \<in> set lower_chars) name \<Longrightarrow> map tolower name = name"
proof (induction name)
  case (Cons x xs)
  have "list_all (\<lambda>x. tolower x = x) lower_chars" by code_simp
  then have "tolower x = x" using Cons.prems by (simp add: list_all_iff)
  then show ?case using Cons by simp
qed simp

lemma Lookup_registry_ok:
  "registry_ok datas \<Longrightarrow> Lookup name d t v f g e datas = Inr (r, datas') \<Longrightarrow> registry_ok datas'"
  by (auto simp: registry_ok_def Lookup_def Let_def ConfigVar_def lower_chars_tolower split: option.splits if_splits)

text \<open>The values a tree gives to the variable \<open>k\<close>, in order, and the calls its listeners then get.\<close>

definition values_for :: "(yaml \<Rightarrow> string) \<Rightarrow> string \<Rightarrow> (string \<Rightarrow> 'v option) \<Rightarrow> (string \<times> yaml) list \<Rightarrow> 'v list" where
  "values_for emit k from nodes = List.map_filter (\<lambda>(key, node). if key \<noteq> [] \<and> map tolower key = k then from (node_text emit node) else None) nodes"

fun changes :: "string \<Rightarrow> u64 list \<Rightarrow> 'v \<Rightarrow> 'v list \<Rightarrow> 'v call list" where
  "changes k cbs old [] = []"
| "changes k cbs old (v # vs) = (if v = old then [] else map (\<lambda>key. (k, key, old, v)) cbs) @ changes k cbs v vs"

lemma values_for_Cons:
  "values_for emit k f ((key, node) # nodes) =
     (if key \<noteq> [] \<and> map tolower key = k then (case f (node_text emit node) of None \<Rightarrow> [] | Some v \<Rightarrow> [v]) else []) @ values_for emit k f nodes"
  by (auto simp: values_for_def map_filter_simps split: option.splits)

lemma load_node_cases:
  assumes "datas k = Some c" "cv_name c = k" "cv_eq c = (=)" "load_node emit (key, node) (datas, calls) = (datas1, calls1)"
  shows "\<exists>cs. calls1 = calls @ cs \<and>
    (if key \<noteq> [] \<and> map tolower key = k
     then (case cv_from c (node_text emit node) of
             None \<Rightarrow> datas1 k = Some c \<and> cs = []
           | Some v \<Rightarrow> datas1 k = Some (c\<lparr>cv_val := v\<rparr>) \<and> cs = (if v = cv_val c then [] else map (\<lambda>key. (k, key, cv_val c, v)) (cv_cbs c)))
     else datas1 k = Some c \<and> (\<forall>x \<in> set cs. \<exists>c' k'. k' \<noteq> k \<and> datas k' = Some c' \<and> fst x = cv_name c'))"
proof (cases "key \<noteq> [] \<and> map tolower key = k")
  case True
  then show ?thesis using assms by (auto simp: load_node_def LookupBase_def fromString_def setValue_def split: option.splits if_splits)
next
  case False
  show ?thesis
  proof (cases "key = [] \<or> datas (map tolower key) = None")
    case True
    then have "calls1 = calls" "datas1 = datas" using assms(4) by (auto simp: load_node_def LookupBase_def Let_def split: if_splits)
    then show ?thesis using False assms(1) by auto
  next
    case other: False
    then obtain a where a: "datas (map tolower key) = Some a" "map tolower key \<noteq> k" using False by auto
    obtain r a1 cs where f: "fromString (node_text emit node) a = (r, a1, cs)" by (metis prod_cases3)
    have "fst x = cv_name a" if "x \<in> set cs" for x
      using f that by (auto simp: fromString_def setValue_def split: option.splits if_splits)
    moreover have "calls1 = calls @ cs" "datas1 k = Some c" using assms(1,4) other a f by (auto simp: load_node_def LookupBase_def Let_def)
    ultimately show ?thesis using False a by auto
  qed
qed

lemma load_node_registry: "registry_ok datas \<Longrightarrow> load_node emit n (datas, calls) = (datas1, calls1) \<Longrightarrow> registry_ok datas1"
  by (cases n) (auto simp: registry_ok_def load_node_def LookupBase_def fromString_def setValue_def Let_def split: option.splits prod.splits if_splits)

lemma load_nodes:
  assumes "registry_ok datas" "datas k = Some c" "cv_eq c = (=)" "fold (load_node emit) nodes (datas, calls) = (datas1, calls1)"
  shows "datas1 k = Some (c\<lparr>cv_val := last (cv_val c # values_for emit k (cv_from c) nodes)\<rparr>)
    \<and> filter (\<lambda>x. fst x = k) calls1 = filter (\<lambda>x. fst x = k) calls @ changes k (cv_cbs c) (cv_val c) (values_for emit k (cv_from c) nodes)"
  using assms
proof (induction nodes arbitrary: datas c calls)
  case Nil
  then show ?case by (simp add: values_for_def map_filter_simps)
next
  case (Cons n nodes)
  obtain key node where n: "n = (key, node)" by fastforce
  obtain d2 calls2 where l: "load_node emit (key, node) (datas, calls) = (d2, calls2)" by fastforce
  have name: "cv_name c = k" using Cons.prems(1,2) by (simp add: registry_ok_def)
  have reg: "registry_ok d2" by (rule load_node_registry [OF Cons.prems(1) l])
  obtain cs where cs: "calls2 = calls @ cs" and upd: "if key \<noteq> [] \<and> map tolower key = k
     then (case cv_from c (node_text emit node) of
             None \<Rightarrow> d2 k = Some c \<and> cs = []
           | Some v \<Rightarrow> d2 k = Some (c\<lparr>cv_val := v\<rparr>) \<and> cs = (if v = cv_val c then [] else map (\<lambda>key. (k, key, cv_val c, v)) (cv_cbs c)))
     else d2 k = Some c \<and> (\<forall>x \<in> set cs. \<exists>c' k'. k' \<noteq> k \<and> datas k' = Some c' \<and> fst x = cv_name c')"
    using load_node_cases [OF Cons.prems(2) name Cons.prems(3) l] by blast
  have rest: "fold (load_node emit) nodes (d2, calls2) = (datas1, calls1)" using Cons.prems(4) l n by simp
  show ?case
  proof (cases "key \<noteq> [] \<and> map tolower key = k")
    case False
    then have o: "\<exists>c' k'. k' \<noteq> k \<and> datas k' = Some c' \<and> fst x = cv_name c'" if "x \<in> set cs" for x using upd that by auto
    have "fst x \<noteq> k" if "x \<in> set cs" for x using o [OF that] Cons.prems(1) unfolding registry_ok_def by metis
    then have "filter (\<lambda>x. fst x = k) cs = []" by (simp add: filter_empty_conv)
    then show ?thesis using Cons.IH [OF reg _ Cons.prems(3) rest] upd False cs n by (auto simp: values_for_Cons)
  next
    case True
    show ?thesis
    proof (cases "cv_from c (node_text emit node)")
      case None
      then show ?thesis using Cons.IH [OF reg _ Cons.prems(3) rest] upd True cs n by (auto simp: values_for_Cons)
    next
      case (Some v)
      have e: "filter (\<lambda>x. fst x = k) cs = cs" using upd True Some by auto
      show ?thesis using Cons.IH [of d2 "c\<lparr>cv_val := v\<rparr>" calls2, OF reg _ _ rest] upd True Some cs n e Cons.prems(3) by (auto simp: values_for_Cons)
    qed
  qed
qed


definition demo_var :: "string config_var" where
  "demo_var = \<lparr>cv_name = ''a.b'', cv_description = [], cv_type = ''string'', cv_val = ''x'', cv_from = Some, cv_to = Some, cv_eq = (=), cv_cbs = [1, 2]\<rparr>"

definition demo_yaml :: yaml where
  "demo_yaml = YMap [(''a'', YMap [(''B'', YScalar ''y''), (''c'', YNull)]), (''a.b'', YScalar ''z'')]"

lemma demo_values: "values_for (\<lambda>_. []) ''a.b'' Some (ListAllMember [] demo_yaml) = [''y'', ''z'']"
  by code_simp


text \<open>The digit nine is missing from the sets of characters: no variable can have it in its name, and no key below one that has it is read.\<close>

theorem no_name_with_nine:
  "CHR ''9'' \<in> set name \<Longrightarrow> datas name = None \<Longrightarrow> Lookup name d t v f g e datas = Inl (InvalidArgument name)"
proof -
  assume n: "CHR ''9'' \<in> set name" "datas name = None"
  have "CHR ''9'' \<notin> set lower_chars" by code_simp
  then have "\<not> list_all (\<lambda>x. x \<in> set lower_chars) name" using n(1) by (auto simp: list_all_iff)
  then show ?thesis using n(2) by (simp add: Lookup_def)
qed

text \<open>A directory that has not changed is not loaded again; a file that could not be read is not tried again either.\<close>

lemma load_file_again:
  assumes "seen_at i = Some (fs_mtime fs i)"
  shows "load_file emit fs False i (st, seen_at) = (st, seen_at)"
  using assms by (cases st) (simp add: load_file_def fun_upd_idem)

lemma load_file_times:
  "snd (load_file emit fs force i st) = (snd st)(i \<mapsto> fs_mtime fs i)"
  by (cases st) (auto simp: load_file_def Let_def split: option.splits prod.splits)

lemma load_files_times: "i \<in> set is \<Longrightarrow> snd (fold (load_file emit fs force) is st) i = Some (fs_mtime fs i)"
  by (induction "is" rule: rev_induct) (auto simp: load_file_times)

lemma load_files_again:
  assumes "\<And>i. i \<in> set is \<Longrightarrow> seen_at i = Some (fs_mtime fs i)"
  shows "fold (load_file emit fs False) is (st, seen_at) = (st, seen_at)"
  using assms by (induction "is") (simp_all add: load_file_again)

theorem conf_dir_loads_once:
  "LoadFromConfDir emit fs cwd path False (LoadFromConfDir emit fs cwd path force st) = LoadFromConfDir emit fs cwd path force st"
  using load_files_again [of "fs_files fs (getAbsolutePath cwd path)" "snd (LoadFromConfDir emit fs cwd path force st)" fs emit
      "fst (LoadFromConfDir emit fs cwd path force st)"] load_files_times
  by (fastforce simp: LoadFromConfDir_def)

end
