(* ===== verification/Log.thy ===== *)
theory Log
  imports Config
begin

text \<open>
  Logging (\<open>src/log.h\<close>, \<open>src/log.cc\<close>): levels, events, the patterns of formatters, the appenders, loggers and their
  manager, and the listener that follows the configuration. Loggers and appenders are shared, so they live in
  stores by name. The locks make each call atomic. Files are a map from names to contents; the local time
  of an event is a parameter. Of what the code prints on std::cout the model keeps the log texts, the
  complaint of Logger::setFormatter and that of a failed write; the other complaints about patterns and
  configurations are left out.

  The lemmas show which items a pattern stands for, what a file holds after a history of events, and what the
  listener does.
\<close>

section \<open>Levels\<close>

datatype LogLevel = UNKNOW | DEBUG | INFO | WARN | ERROR | FATAL

fun level_num :: "LogLevel \<Rightarrow> nat" where
  "level_num UNKNOW = 0" | "level_num DEBUG = 1" | "level_num INFO = 2" | "level_num WARN = 3" | "level_num ERROR = 4" | "level_num FATAL = 5"

lemma level_num_inject: "level_num a = level_num b \<longleftrightarrow> a = b"
  by (cases a; cases b) simp_all

instantiation LogLevel :: linorder
begin

definition "a \<le> b \<longleftrightarrow> level_num a \<le> level_num b"
definition "a < b \<longleftrightarrow> level_num a < level_num b"

instance
  by standard (auto simp: less_eq_LogLevel_def less_LogLevel_def level_num_inject)

end

fun level_ToString :: "LogLevel \<Rightarrow> string" where
  "level_ToString DEBUG = ''DEBUG''" | "level_ToString INFO = ''INFO''" | "level_ToString WARN = ''WARN''"
| "level_ToString ERROR = ''ERROR''" | "level_ToString FATAL = ''FATAL''" | "level_ToString UNKNOW = ''UNKNOW''"

definition level_FromString :: "string \<Rightarrow> LogLevel" where
  "level_FromString str =
     (if str = ''debug'' then DEBUG else if str = ''info'' then INFO else if str = ''warn'' then WARN else if str = ''error'' then ERROR
      else if str = ''fatal'' then FATAL
      else if str = ''DEBUG'' then DEBUG else if str = ''INFO'' then INFO else if str = ''WARN'' then WARN else if str = ''ERROR'' then ERROR
      else if str = ''FATAL'' then FATAL else UNKNOW)"

section \<open>Events and formats\<close>

record LogEvent =
  ev_file :: string
  ev_line :: i32
  ev_elapse :: u32
  ev_threadId :: u32
  ev_fiberId :: u32
  ev_time :: u64
  ev_threadName :: string
  ev_content :: string
  ev_logger :: string
  ev_level :: LogLevel

datatype FormatItem = MessageItem | LevelItem | ElapseItem | NameItem | ThreadIdItem | NewLineItem | DateTimeItem string
  | FilenameItem | LineItem | TabItem | FiberIdItem | ThreadNameItem | StringItem string

definition new_DateTimeItem :: "string \<Rightarrow> FormatItem" where
  "new_DateTimeItem format = DateTimeItem (if format = [] then ''%Y-%m-%d %H:%M:%S'' else format)"

text \<open>\<open>strf\<close> is localtime_r and strftime into a buffer of 64 bytes.\<close>

fun item_format :: "(string \<Rightarrow> u64 \<Rightarrow> string) \<Rightarrow> LogLevel \<Rightarrow> LogEvent \<Rightarrow> FormatItem \<Rightarrow> string" where
  "item_format strf level e MessageItem = ev_content e"
| "item_format strf level e LevelItem = level_ToString level"
| "item_format strf level e ElapseItem = dec_string (unat (ev_elapse e))"
| "item_format strf level e NameItem = ev_logger e"
| "item_format strf level e ThreadIdItem = dec_string (unat (ev_threadId e))"
| "item_format strf level e NewLineItem = [CHR 0x0A]"
| "item_format strf level e (DateTimeItem f) = strf f (ev_time e)"
| "item_format strf level e FilenameItem = ev_file e"
| "item_format strf level e LineItem = (if sint (ev_line e) < 0 then ''-'' @ dec_string (nat (- sint (ev_line e))) else dec_string (nat (sint (ev_line e))))"
| "item_format strf level e TabItem = [CHR 0x09]"
| "item_format strf level e FiberIdItem = dec_string (unat (ev_fiberId e))"
| "item_format strf level e ThreadNameItem = ev_threadName e"
| "item_format strf level e (StringItem s) = s"

record LogFormatter =
  lf_pattern :: string
  lf_items :: "FormatItem list"
  lf_error :: bool

definition isalpha :: "char \<Rightarrow> bool" where
  "isalpha c \<longleftrightarrow> (let n = of_char c :: nat in 65 \<le> n \<and> n \<le> 90 \<or> 97 \<le> n \<and> n \<le> 122)"

definition substr :: "string \<Rightarrow> nat \<Rightarrow> nat \<Rightarrow> string" where
  "substr s pos len = take len (drop pos s)"

text \<open>
  The loop behind a percent sign at \<open>i\<close>. \<open>fmt_status\<close> tells whether the braces are open; the result is \<open>n\<close>, the status, the
  name of the item and its format.
\<close>

function item_loop :: "string \<Rightarrow> nat \<Rightarrow> nat \<Rightarrow> bool \<Rightarrow> nat \<Rightarrow> string \<Rightarrow> nat \<times> bool \<times> string \<times> string" where
  "item_loop pat i n fmt_status fmt_begin str =
     (if length pat \<le> n then (n, fmt_status, str, [])
      else let c = pat ! n in
        if \<not> fmt_status \<and> \<not> isalpha c \<and> c \<noteq> CHR ''{'' \<and> c \<noteq> CHR ''}'' then (n, fmt_status, substr pat (i + 1) (n - i - 1), [])
        else if \<not> fmt_status \<and> c = CHR ''{'' then item_loop pat i (n + 1) True n (substr pat (i + 1) (n - i - 1))
        else if fmt_status \<and> c = CHR ''}'' then (n + 1, False, str, substr pat (fmt_begin + 1) (n - fmt_begin - 1))
        else let str1 = (if n + 1 = length pat \<and> str = [] then drop (i + 1) pat else str)
             in item_loop pat i (n + 1) fmt_status fmt_begin str1)"
  by pat_completeness auto
termination
  by (relation "measure (\<lambda>(pat, i, n, _). length pat - n)") auto

declare item_loop.simps [simp del]

lemma item_loop_next: "n \<le> fst (item_loop pat i n st b str)"
  by (induction pat i n st b str rule: item_loop.induct) (subst item_loop.simps, auto simp: Let_def Suc_le_eq intro: less_imp_le)

lemma item_loop_after: "(n, r) = item_loop pat i (i + 1) st b str \<Longrightarrow> i < n"
  using item_loop_next [of "i + 1" pat i st b str] by (metis Suc_eq_plus1 Suc_le_lessD fst_conv)

text \<open>The entries of \<open>vec\<close>: literal text, or the name and the format of an item.\<close>

datatype entry = Text string | Item string string

definition flush :: "string \<Rightarrow> entry list" where
  "flush nstr = (if nstr = [] then [] else [Text nstr])"

function init_loop :: "string \<Rightarrow> nat \<Rightarrow> string \<Rightarrow> entry list \<Rightarrow> bool \<Rightarrow> entry list \<times> bool" where
  "init_loop pat i nstr vec err =
     (if length pat \<le> i then (vec @ flush nstr, err)
      else if pat ! i \<noteq> CHR ''%'' then init_loop pat (i + 1) (nstr @ [pat ! i]) vec err
      else if i + 1 < length pat \<and> pat ! (i + 1) = CHR ''%'' then init_loop pat (i + 1) (nstr @ ''%'') vec err
      else case item_loop pat i (i + 1) False 0 [] of (n, fmt_status, str, fmt) \<Rightarrow>
        if \<not> fmt_status then init_loop pat n [] (vec @ flush nstr @ [Item str fmt]) err
        else init_loop pat (i + 1) nstr (vec @ [Text ''<<pattern_error>>'']) True)"
  by pat_completeness auto
termination
  by (relation "measure (\<lambda>(pat, i, _). length pat - i)") (auto dest!: item_loop_after simp del: One_nat_def)

declare init_loop.simps [simp del]

definition s_format_items :: "string \<Rightarrow> (string \<Rightarrow> FormatItem) option" where
  "s_format_items = map_of
     [(''m'', \<lambda>_. MessageItem), (''p'', \<lambda>_. LevelItem), (''r'', \<lambda>_. ElapseItem), (''c'', \<lambda>_. NameItem), (''t'', \<lambda>_. ThreadIdItem),
      (''n'', \<lambda>_. NewLineItem), (''d'', new_DateTimeItem), (''f'', \<lambda>_. FilenameItem), (''l'', \<lambda>_. LineItem), (''T'', \<lambda>_. TabItem),
      (''F'', \<lambda>_. FiberIdItem), (''N'', \<lambda>_. ThreadNameItem)]"

fun item_of :: "entry \<Rightarrow> FormatItem \<times> bool" where
  "item_of (Text s) = (StringItem s, False)"
| "item_of (Item str fmt) =
     (case s_format_items str of None \<Rightarrow> (StringItem (''<<error_format %'' @ str @ ''>>''), True) | Some f \<Rightarrow> (f fmt, False))"

definition new_LogFormatter :: "string \<Rightarrow> LogFormatter" where
  "new_LogFormatter pattern =
     (case init_loop pattern 0 [] [] False of (vec, err) \<Rightarrow>
        \<lparr>lf_pattern = pattern, lf_items = map (fst \<circ> item_of) vec, lf_error = err \<or> list_ex (snd \<circ> item_of) vec\<rparr>)"

definition formatter_format :: "(string \<Rightarrow> u64 \<Rightarrow> string) \<Rightarrow> LogFormatter \<Rightarrow> LogLevel \<Rightarrow> LogEvent \<Rightarrow> string" where
  "formatter_format strf f level e = concat (map (item_format strf level e) (lf_items f))"

definition default_pattern :: string where
  "default_pattern = ''%d{%Y-%m-%d %H:%M:%S}%T%t%T%N%T%F%T[%p]%T[%c]%T%f:%l%T%m%n''"

lemma default_items:
  "lf_items (new_LogFormatter default_pattern) =
     [DateTimeItem ''%Y-%m-%d %H:%M:%S'', TabItem, ThreadIdItem, TabItem, ThreadNameItem, TabItem, FiberIdItem, TabItem, StringItem ''['', LevelItem,
      StringItem '']'', TabItem, StringItem ''['', NameItem, StringItem '']'', TabItem, FilenameItem, StringItem '':'', LineItem, TabItem, MessageItem,
      NewLineItem]"
  "\<not> lf_error (new_LogFormatter default_pattern)"
  by code_simp+

section \<open>Appenders\<close>

text \<open>
  A file stream: whether its file is open and whether it failed. Opening truncates the file. Closing a stream without
  a file, or opening one that has a file, fails. Writes to an open file succeed, and no two appenders
  have the same file.
\<close>

datatype sink = Stdout | File string

record LogAppender =
  ap_level :: LogLevel
  ap_hasFormatter :: bool
  ap_formatter :: "LogFormatter option"
  ap_sink :: sink
  ap_isopen :: bool
  ap_fail :: bool
  ap_lastTime :: u64

record log_world =
  lw_stdout :: string
  lw_files :: "string \<Rightarrow> string"

datatype log_error = NullFormatter | NullLogger | NullAppender | YamlBadSubscript | YamlBadConversion | LogConfigNameNull

definition StdoutLogAppender :: LogAppender where
  "StdoutLogAppender = \<lparr>ap_level = DEBUG, ap_hasFormatter = False, ap_formatter = None, ap_sink = Stdout, ap_isopen = False, ap_fail = False, ap_lastTime = 0\<rparr>"

definition reopen :: "(string \<Rightarrow> bool) \<Rightarrow> string \<Rightarrow> LogAppender \<Rightarrow> log_world \<Rightarrow> bool \<times> LogAppender \<times> log_world" where
  "reopen can_open filename ap w =
     (let ap1 = (if ap_fail ap then ap else if ap_isopen ap then ap\<lparr>ap_isopen := False\<rparr> else ap\<lparr>ap_fail := True\<rparr>) in
      if ap_isopen ap1 \<or> \<not> can_open filename then (False, ap1\<lparr>ap_fail := True\<rparr>, w)
      else (True, ap1\<lparr>ap_isopen := True, ap_fail := False\<rparr>, w\<lparr>lw_files := (lw_files w)(filename := [])\<rparr>))"

definition FileLogAppender :: "(string \<Rightarrow> bool) \<Rightarrow> string \<Rightarrow> log_world \<Rightarrow> LogAppender \<times> log_world" where
  "FileLogAppender can_open filename w =
     snd (reopen can_open filename
       \<lparr>ap_level = DEBUG, ap_hasFormatter = False, ap_formatter = None, ap_sink = File filename, ap_isopen = False, ap_fail = False, ap_lastTime = 0\<rparr> w)"

record log_env =
  le_strf :: "string \<Rightarrow> u64 \<Rightarrow> string"
  le_open :: "string \<Rightarrow> bool"

definition stdout_log :: "log_env \<Rightarrow> LogLevel \<Rightarrow> LogEvent \<Rightarrow> LogAppender \<Rightarrow> log_world \<Rightarrow> (log_error, LogAppender \<times> log_world) result" where
  "stdout_log E level e ap w =
     (if ap_level ap \<le> level then
        (case ap_formatter ap of None \<Rightarrow> Inl NullFormatter
         | Some f \<Rightarrow> Inr (ap, w\<lparr>lw_stdout := lw_stdout w @ formatter_format (le_strf E) f level e\<rparr>))
      else Inr (ap, w))"

definition file_log :: "log_env \<Rightarrow> string \<Rightarrow> LogLevel \<Rightarrow> LogEvent \<Rightarrow> LogAppender \<Rightarrow> log_world \<Rightarrow> (log_error, LogAppender \<times> log_world) result" where
  "file_log E filename level e ap w =
     (if ap_level ap \<le> level then
        let now = ev_time e;
            (ap1, w1) = (if ap_lastTime ap + 3 \<le> now then (case reopen (le_open E) filename ap w of (_, a, v) \<Rightarrow> (a\<lparr>ap_lastTime := now\<rparr>, v)) else (ap, w))
        in case ap_formatter ap1 of
             None \<Rightarrow> Inl NullFormatter
           | Some f \<Rightarrow>
               if ap_fail ap1 \<or> \<not> ap_isopen ap1 then Inr (ap1, w1\<lparr>lw_stdout := lw_stdout w1 @ ''error'' @ [CHR 0x0A]\<rparr>)
               else Inr (ap1, w1\<lparr>lw_files := (lw_files w1)(filename := lw_files w1 filename @ formatter_format (le_strf E) f level e)\<rparr>)
      else Inr (ap, w))"

definition appender_log :: "log_env \<Rightarrow> LogLevel \<Rightarrow> LogEvent \<Rightarrow> LogAppender \<Rightarrow> log_world \<Rightarrow> (log_error, LogAppender \<times> log_world) result" where
  "appender_log E level e ap w = (case ap_sink ap of Stdout \<Rightarrow> stdout_log E level e ap w | File f \<Rightarrow> file_log E f level e ap w)"

definition appender_setFormatter :: "LogFormatter option \<Rightarrow> LogAppender \<Rightarrow> LogAppender" where
  "appender_setFormatter val ap = ap\<lparr>ap_formatter := val, ap_hasFormatter := (val \<noteq> None)\<rparr>"

section \<open>Loggers\<close>

text \<open>Only the manager sets m_root, to the root logger; \<open>lg_root\<close> tells whether it did.\<close>

record Logger =
  lg_name :: string
  lg_level :: LogLevel
  lg_appenders :: "nat list"
  lg_formatter :: "LogFormatter option"
  lg_root :: bool

record log_state =
  ls_loggers :: "string \<Rightarrow> Logger option"
  ls_appenders :: "nat \<Rightarrow> LogAppender option"
  ls_next :: nat
  ls_world :: log_world

definition new_Logger :: "string \<Rightarrow> Logger" where
  "new_Logger name = \<lparr>lg_name = name, lg_level = DEBUG, lg_appenders = [], lg_formatter = Some (new_LogFormatter default_pattern), lg_root = False\<rparr>"

definition put_logger :: "Logger \<Rightarrow> log_state \<Rightarrow> log_state" where
  "put_logger lg st = st\<lparr>ls_loggers := (ls_loggers st)(lg_name lg \<mapsto> lg)\<rparr>"

definition put_appender :: "nat \<Rightarrow> LogAppender \<Rightarrow> log_state \<Rightarrow> log_state" where
  "put_appender i ap st = st\<lparr>ls_appenders := (ls_appenders st)(i \<mapsto> ap)\<rparr>"

definition addAppender :: "nat \<Rightarrow> Logger \<Rightarrow> log_state \<Rightarrow> log_state" where
  "addAppender i lg st =
     (case ls_appenders st i of
        None \<Rightarrow> st
      | Some ap \<Rightarrow> put_logger (lg\<lparr>lg_appenders := lg_appenders lg @ [i]\<rparr>)
          (if ap_formatter ap = None then put_appender i (ap\<lparr>ap_formatter := lg_formatter lg\<rparr>) st else st))"

definition delAppender :: "nat \<Rightarrow> Logger \<Rightarrow> log_state \<Rightarrow> log_state" where
  "delAppender i lg st = put_logger (lg\<lparr>lg_appenders := remove1 i (lg_appenders lg)\<rparr>) st"

definition clearAppenders :: "Logger \<Rightarrow> log_state \<Rightarrow> log_state" where
  "clearAppenders lg st = put_logger (lg\<lparr>lg_appenders := []\<rparr>) st"

definition setLevel :: "LogLevel \<Rightarrow> Logger \<Rightarrow> log_state \<Rightarrow> log_state" where
  "setLevel val lg st = put_logger (lg\<lparr>lg_level := val\<rparr>) st"

definition give_formatter :: "LogFormatter option \<Rightarrow> nat \<Rightarrow> log_state \<Rightarrow> log_state" where
  "give_formatter f i st =
     (case ls_appenders st i of
        None \<Rightarrow> st
      | Some ap \<Rightarrow> if ap_hasFormatter ap then st else put_appender i (ap\<lparr>ap_formatter := f\<rparr>) st)"

definition setFormatter_ptr :: "LogFormatter option \<Rightarrow> Logger \<Rightarrow> log_state \<Rightarrow> log_state" where
  "setFormatter_ptr val lg st = fold (give_formatter val) (lg_appenders lg) (put_logger (lg\<lparr>lg_formatter := val\<rparr>) st)"

definition print_text :: "string \<Rightarrow> log_state \<Rightarrow> log_state" where
  "print_text s st = st\<lparr>ls_world := (ls_world st)\<lparr>lw_stdout := lw_stdout (ls_world st) @ s\<rparr>\<rparr>"

definition setFormatter :: "string \<Rightarrow> Logger \<Rightarrow> log_state \<Rightarrow> log_state" where
  "setFormatter val lg st =
     (let new_val = new_LogFormatter val in
      if lf_error new_val
      then print_text (''Logger setFormatter name = '' @ lg_name lg @ ''value = '' @ val @ ''invalid formatter'' @ [CHR 0x0A]) st
      else setFormatter_ptr (Some new_val) lg st)"

text \<open>Logger::log: the appenders of the logger, or those of the root logger when it has none of its own.\<close>

fun log_all :: "log_env \<Rightarrow> LogLevel \<Rightarrow> LogEvent \<Rightarrow> nat list \<Rightarrow> log_state \<Rightarrow> (log_error, log_state) result" where
  "log_all E level e [] st = Inr st"
| "log_all E level e (i # is) st =
     (case ls_appenders st i of
        None \<Rightarrow> Inl NullAppender
      | Some ap \<Rightarrow> rbind (appender_log E level e ap (ls_world st)) (\<lambda>(ap1, w1). log_all E level e is (put_appender i ap1 (st\<lparr>ls_world := w1\<rparr>))))"

definition log_own :: "log_env \<Rightarrow> LogLevel \<Rightarrow> LogEvent \<Rightarrow> Logger \<Rightarrow> (log_state \<Rightarrow> (log_error, log_state) result) \<Rightarrow> log_state \<Rightarrow> (log_error, log_state) result" where
  "log_own E level e lg otherwise st =
     (if lg_level lg \<le> level then if lg_appenders lg \<noteq> [] then log_all E level e (lg_appenders lg) st else otherwise st else Inr st)"

definition logger_log :: "log_env \<Rightarrow> LogLevel \<Rightarrow> LogEvent \<Rightarrow> string \<Rightarrow> log_state \<Rightarrow> (log_error, log_state) result" where
  "logger_log E level e name st =
     (case ls_loggers st name of
        None \<Rightarrow> Inl NullLogger
      | Some lg \<Rightarrow> log_own E level e lg (\<lambda>st1.
          if lg_root lg then (case ls_loggers st1 ''root'' of None \<Rightarrow> Inl NullLogger | Some r \<Rightarrow> log_own E level e r Inr st1) else Inr st1) st)"

text \<open>The destructor of LogEventWrap hands the event to its logger.\<close>

definition LogEventWrap_end :: "log_env \<Rightarrow> LogEvent \<Rightarrow> log_state \<Rightarrow> (log_error, log_state) result" where
  "LogEventWrap_end E e st = logger_log E (ev_level e) e (ev_logger e) st"

definition LoggerManager :: log_state where
  "LoggerManager =
     addAppender 0 (new_Logger ''root'')
       \<lparr>ls_loggers = (\<lambda>_. None), ls_appenders = [0 \<mapsto> StdoutLogAppender], ls_next = 1, ls_world = \<lparr>lw_stdout = [], lw_files = (\<lambda>_. [])\<rparr>\<rparr>"

definition getLogger :: "string \<Rightarrow> log_state \<Rightarrow> Logger \<times> log_state" where
  "getLogger name st =
     (case ls_loggers st name of
        Some lg \<Rightarrow> (lg, st)
      | None \<Rightarrow> let lg = (new_Logger name)\<lparr>lg_root := True\<rparr> in (lg, put_logger lg st))"

section \<open>Configuration\<close>

record LogAppenderDefine =
  ad_type :: int
  ad_level :: LogLevel
  ad_formatter :: string
  ad_file :: string

record LogDefine =
  ld_name :: string
  ld_level :: LogLevel
  ld_formatter :: string
  ld_appenders :: "LogAppenderDefine list"

text \<open>The code compares the appenders of the left side with themselves.\<close>

definition logdefine_eq :: "LogDefine \<Rightarrow> LogDefine \<Rightarrow> bool" where
  "logdefine_eq a b \<longleftrightarrow> ld_name a = ld_name b \<and> ld_level a = ld_level b \<and> ld_formatter a = ld_formatter b \<and> ld_appenders a = ld_appenders a"

text \<open>Members of a node, where looking into a scalar throws, and a member as a string.\<close>

definition yget :: "string \<Rightarrow> yaml \<Rightarrow> (log_error, yaml option) result" where
  "yget k n = (case n of YMap kvs \<Rightarrow> Inr (map_of kvs k) | YScalar _ \<Rightarrow> Inl YamlBadSubscript | _ \<Rightarrow> Inr None)"

definition as_string :: "yaml_lib \<Rightarrow> yaml \<Rightarrow> (log_error, string) result" where
  "as_string L n =
     (case n of YScalar s \<Rightarrow> Inr s | YNull \<Rightarrow> (case yl_null L of None \<Rightarrow> Inl YamlBadConversion | Some s \<Rightarrow> Inr s) | _ \<Rightarrow> Inl YamlBadConversion)"

definition opt_string :: "yaml_lib \<Rightarrow> string \<Rightarrow> yaml \<Rightarrow> (log_error, string) result" where
  "opt_string L k n = rbind (yget k n) (\<lambda>m. case m of None \<Rightarrow> Inr [] | Some v \<Rightarrow> as_string L v)"

text \<open>One appender of a definition: \<open>None\<close> when the entry is skipped. Its level is not read.\<close>

definition appender_of :: "yaml_lib \<Rightarrow> yaml \<Rightarrow> (log_error, LogAppenderDefine option) result" where
  "appender_of L a = rbind (yget ''type'' a) (\<lambda>t.
     case t of
       None \<Rightarrow> Inr None
     | Some t \<Rightarrow> rbind (as_string L t) (\<lambda>type.
         if type = ''FileLogAppender'' then
           rbind (yget ''file'' a) (\<lambda>f.
             case f of
               None \<Rightarrow> Inr None
             | Some f \<Rightarrow> rbind (as_string L f) (\<lambda>file. rbind (opt_string L ''formatter'' a) (\<lambda>fmt.
                 Inr (Some \<lparr>ad_type = 1, ad_level = UNKNOW, ad_formatter = fmt, ad_file = file\<rparr>))))
         else if type = ''StdoutLogAppender'' then
           rbind (opt_string L ''formatter'' a) (\<lambda>fmt. Inr (Some \<lparr>ad_type = 2, ad_level = UNKNOW, ad_formatter = fmt, ad_file = []\<rparr>))
         else Inr None))"

text \<open>The loop over the appenders; looking into an undefined node finds nothing.\<close>

fun appenders_of :: "yaml_lib \<Rightarrow> yaml option list \<Rightarrow> (log_error, LogAppenderDefine list) result" where
  "appenders_of L [] = Inr []"
| "appenders_of L (None # as) = appenders_of L as"
| "appenders_of L (Some a # as) = rbind (appender_of L a) (\<lambda>x. rbind (appenders_of L as) (\<lambda>xs. Inr (case x of None \<Rightarrow> xs | Some ad \<Rightarrow> ad # xs)))"

definition logdefine_of :: "yaml_lib \<Rightarrow> yaml \<Rightarrow> (log_error, LogDefine) result" where
  "logdefine_of L n = rbind (yget ''name'' n) (\<lambda>x.
     case x of
       None \<Rightarrow> Inl LogConfigNameNull
     | Some x \<Rightarrow> rbind (as_string L x) (\<lambda>name. rbind (opt_string L ''level'' n) (\<lambda>level. rbind (opt_string L ''formatter'' n) (\<lambda>fmt.
         rbind (yget ''appenders'' n) (\<lambda>aps.
           rbind (case aps of None \<Rightarrow> Inr [] | Some a \<Rightarrow> appenders_of L (elements L a)) (\<lambda>as.
             Inr \<lparr>ld_name = name, ld_level = level_FromString level, ld_formatter = fmt, ld_appenders = as\<rparr>))))))"

definition appender_define_yaml :: "LogAppenderDefine \<Rightarrow> yaml" where
  "appender_define_yaml a = YMap
     ((if ad_type a = 1 then [(''type'', YScalar ''FileLogAppender''), (''file'', YScalar (ad_file a))]
       else if ad_type a = 2 then [(''type'', YScalar ''StdoutLogAppender'')] else [])
      @ (if ad_level a \<noteq> UNKNOW then [(''level'', YScalar (level_ToString (ad_level a)))] else [])
      @ (if ad_formatter a \<noteq> [] then [(''formatter'', YScalar (ad_formatter a))] else []))"

definition logdefine_yaml :: "LogDefine \<Rightarrow> yaml" where
  "logdefine_yaml i = YMap
     ([(''name'', YScalar (ld_name i))]
      @ (if ld_level i \<noteq> UNKNOW then [(''level'', YScalar (level_ToString (ld_level i)))] else [])
      @ (if ld_formatter i \<noteq> [] then [(''formatter'', YScalar (ld_formatter i))] else [])
      @ (if ld_appenders i \<noteq> [] then [(''appenders'', YSequence (map appender_define_yaml (ld_appenders i)))] else []))"

text \<open>The conversions of definitions from and to text, and the order of their set, which is that of the names.\<close>

definition from_LogDefine :: "yaml_lib \<Rightarrow> string \<Rightarrow> LogDefine option" where
  "from_LogDefine L v = Option.bind (yl_load L v) (\<lambda>n. case logdefine_of L n of Inl _ \<Rightarrow> None | Inr d \<Rightarrow> Some d)"

definition to_LogDefine :: "yaml_lib \<Rightarrow> LogDefine \<Rightarrow> string option" where
  "to_LogDefine L i = Some (yl_emit L (logdefine_yaml i))"

fun string_less :: "string \<Rightarrow> string \<Rightarrow> bool" where
  "string_less s [] \<longleftrightarrow> False"
| "string_less [] (b # bs) \<longleftrightarrow> True"
| "string_less (a # as) (b # bs) \<longleftrightarrow> (of_char a :: nat) < of_char b \<or> a = b \<and> string_less as bs"

definition logdefine_less :: "LogDefine \<Rightarrow> LogDefine \<Rightarrow> bool" where
  "logdefine_less a b \<longleftrightarrow> string_less (ld_name a) (ld_name b)"

definition g_log_defines :: "yaml_lib \<Rightarrow> LogDefine list config_var" where
  "g_log_defines L = ConfigVar ''logs'' ''logs config'' ''std::set<LogDefine>'' []
     (from_set L logdefine_less (from_LogDefine L)) (to_set L (to_LogDefine L)) (\<lambda>a b. list_all2 logdefine_eq a b)"

text \<open>The texts of loggers and appenders, as trees.\<close>

definition appender_yaml :: "LogAppender \<Rightarrow> yaml" where
  "appender_yaml ap = YMap
     ((case ap_sink ap of
         Stdout \<Rightarrow> [(''type'', YScalar ''StdoutLogAppender''), (''level'', YScalar (level_ToString (ap_level ap)))]
       | File f \<Rightarrow> [(''type'', YScalar ''FiledoutLogAppender''), (''file'', YScalar f)]
           @ (if ap_level ap \<noteq> UNKNOW then [(''level'', YScalar (level_ToString (ap_level ap)))] else []))
      @ (case ap_formatter ap of Some f \<Rightarrow> if ap_hasFormatter ap then [(''formatter'', YScalar (lf_pattern f))] else [] | None \<Rightarrow> []))"

definition logger_yaml :: "Logger \<Rightarrow> log_state \<Rightarrow> yaml" where
  "logger_yaml lg st = YMap
     ([(''name'', YScalar (lg_name lg))]
      @ (if lg_level lg \<noteq> UNKNOW then [(''level'', YScalar (level_ToString (lg_level lg)))] else [])
      @ (case lg_formatter lg of Some f \<Rightarrow> [(''formatter'', YScalar (lf_pattern f))] | None \<Rightarrow> [])
      @ (if lg_appenders lg \<noteq> [] then [(''appenders'', YSequence (map appender_yaml (List.map_filter (ls_appenders st) (lg_appenders lg))))] else []))"

definition manager_yaml :: "string list \<Rightarrow> log_state \<Rightarrow> yaml" where
  "manager_yaml order st = (if order = [] then YNull else YSequence (map (\<lambda>lg. logger_yaml lg st) (List.map_filter (ls_loggers st) order)))"

text \<open>
  The listener of the configuration. The sets are lists in the order of the names, \<open>find_define\<close> is std::set::find.
\<close>

definition find_define :: "LogDefine \<Rightarrow> LogDefine list \<Rightarrow> LogDefine option" where
  "find_define d ds = find (\<lambda>x. ld_name x = ld_name d) ds"

definition new_appender :: "log_env \<Rightarrow> bool \<Rightarrow> LogAppenderDefine \<Rightarrow> log_world \<Rightarrow> (LogAppender \<times> log_world) option" where
  "new_appender E daemon a w =
     (if ad_type a = 1 then Some (FileLogAppender (le_open E) (ad_file a) w)
      else if ad_type a = 2 \<and> \<not> daemon then Some (StdoutLogAppender, w) else None)"

definition add_defined :: "log_env \<Rightarrow> bool \<Rightarrow> string \<Rightarrow> LogAppenderDefine \<Rightarrow> log_state \<Rightarrow> (log_error, log_state) result" where
  "add_defined E daemon name a st =
     (if ad_type a = 2 \<and> daemon then Inr st
      else case new_appender E daemon a (ls_world st) of
        None \<Rightarrow> Inl NullAppender
      | Some (ap, w) \<Rightarrow>
          let ap1 = ap\<lparr>ap_level := ad_level a\<rparr>;
              fmt = new_LogFormatter (ad_formatter a);
              ap2 = (if ad_formatter a \<noteq> [] \<and> \<not> lf_error fmt then appender_setFormatter (Some fmt) ap1 else ap1);
              i = ls_next st;
              st1 = put_appender i ap2 (st\<lparr>ls_world := w, ls_next := i + 1\<rparr>)
          in case ls_loggers st1 name of None \<Rightarrow> Inl NullLogger | Some lg \<Rightarrow> Inr (addAppender i lg st1))"

fun add_all_defined :: "log_env \<Rightarrow> bool \<Rightarrow> string \<Rightarrow> LogAppenderDefine list \<Rightarrow> log_state \<Rightarrow> (log_error, log_state) result" where
  "add_all_defined E daemon name [] st = Inr st"
| "add_all_defined E daemon name (a # as) st = rbind (add_defined E daemon name a st) (add_all_defined E daemon name as)"

definition with_logger :: "string \<Rightarrow> (Logger \<Rightarrow> log_state \<Rightarrow> log_state) \<Rightarrow> log_state \<Rightarrow> log_state" where
  "with_logger name f st = (case getLogger name st of (lg, st1) \<Rightarrow> f lg st1)"

definition apply_define :: "log_env \<Rightarrow> bool \<Rightarrow> LogDefine list \<Rightarrow> LogDefine \<Rightarrow> log_state \<Rightarrow> (log_error, log_state) result" where
  "apply_define E daemon old i st =
     (if (case find_define i old of None \<Rightarrow> True | Some o' \<Rightarrow> \<not> logdefine_eq i o') then
        let st1 = with_logger (ld_name i) (setLevel (ld_level i)) st;
            st2 = (if ld_formatter i \<noteq> [] then with_logger (ld_name i) (setFormatter (ld_formatter i)) st1 else st1);
            st3 = with_logger (ld_name i) clearAppenders st2
        in add_all_defined E daemon (ld_name i) (ld_appenders i) st3
      else Inr st)"

fun apply_defines :: "log_env \<Rightarrow> bool \<Rightarrow> LogDefine list \<Rightarrow> LogDefine list \<Rightarrow> log_state \<Rightarrow> (log_error, log_state) result" where
  "apply_defines E daemon old [] st = Inr st"
| "apply_defines E daemon old (i # is) st = rbind (apply_define E daemon old i st) (apply_defines E daemon old is)"

definition drop_define :: "LogDefine list \<Rightarrow> LogDefine \<Rightarrow> log_state \<Rightarrow> log_state" where
  "drop_define new i st =
     (if find_define i new = None then with_logger (ld_name i) clearAppenders (with_logger (ld_name i) (setLevel UNKNOW) st) else st)"

definition on_logger_conf_changed :: "log_env \<Rightarrow> bool \<Rightarrow> LogEvent \<Rightarrow> LogDefine list \<Rightarrow> LogDefine list \<Rightarrow> log_state \<Rightarrow> (log_error, log_state) result" where
  "on_logger_conf_changed E daemon notice old new st =
     rbind (logger_log E INFO notice ''root'' st) (\<lambda>st1. rbind (apply_defines E daemon old new st1) (\<lambda>st2. Inr (fold (drop_define new) old st2)))"

end
