(* ===== verification/Logging.thy ===== *)
theory Logging
  imports Log
begin

text \<open>
  What the logging component promises: a pattern made of items is read as those items, a logged event never meets
  a missing formatter, a file keeps the events of the last burst only, and what reading a configuration back keeps.
\<close>

section \<open>Patterns\<close>

fun item_letter :: "FormatItem \<Rightarrow> char option" where
  "item_letter MessageItem = Some (CHR ''m'')" | "item_letter LevelItem = Some (CHR ''p'')" | "item_letter ElapseItem = Some (CHR ''r'')"
| "item_letter NameItem = Some (CHR ''c'')" | "item_letter ThreadIdItem = Some (CHR ''t'')" | "item_letter NewLineItem = Some (CHR ''n'')"
| "item_letter FilenameItem = Some (CHR ''f'')" | "item_letter LineItem = Some (CHR ''l'')" | "item_letter TabItem = Some (CHR ''T'')"
| "item_letter FiberIdItem = Some (CHR ''F'')" | "item_letter ThreadNameItem = Some (CHR ''N'')"
| "item_letter (DateTimeItem f) = None" | "item_letter (StringItem s) = None"

definition item_pattern :: "FormatItem \<Rightarrow> string" where
  "item_pattern it = (case it of DateTimeItem f \<Rightarrow> ''%d{'' @ f @ ''}'' | StringItem s \<Rightarrow> s | _ \<Rightarrow> (case item_letter it of Some l \<Rightarrow> [CHR ''%'', l] | None \<Rightarrow> []))"

definition pattern_of :: "FormatItem list \<Rightarrow> string" where
  "pattern_of its = concat (map item_pattern its)"

text \<open>
  Literal text has no percent sign and stands between other items; it may follow a letter only when it does not
  continue the name; the format of a date has no closing brace.
\<close>

definition ends_name :: "string \<Rightarrow> bool" where
  "ends_name r \<longleftrightarrow> r = [] \<or> (\<not> isalpha (hd r) \<and> hd r \<noteq> CHR ''{'' \<and> hd r \<noteq> CHR ''}'')"

fun is_text :: "FormatItem \<Rightarrow> bool" where
  "is_text (StringItem s) = True"
| "is_text _ = False"

fun items_ok :: "FormatItem list \<Rightarrow> bool" where
  "items_ok [] \<longleftrightarrow> True"
| "items_ok (it # its) \<longleftrightarrow>
     (case it of
        StringItem s \<Rightarrow> s \<noteq> [] \<and> CHR ''%'' \<notin> set s \<and> (case its of [] \<Rightarrow> True | x # _ \<Rightarrow> \<not> is_text x)
      | DateTimeItem f \<Rightarrow> f \<noteq> [] \<and> CHR ''}'' \<notin> set f
      | _ \<Rightarrow> ends_name (pattern_of its)) \<and> items_ok its"

definition entry_of :: "FormatItem \<Rightarrow> entry" where
  "entry_of it = (case it of DateTimeItem f \<Rightarrow> Item ''d'' f | StringItem s \<Rightarrow> Text s | _ \<Rightarrow> Item (case item_letter it of Some l \<Rightarrow> [l] | None \<Rightarrow> []) [])"

lemma drop_cut: "drop i s = w @ r \<Longrightarrow> drop (i + length w) s = r"
  by (metis add.commute append_eq_conv_conj drop_drop)

lemma drop_at: "drop i s = c # r \<Longrightarrow> i < length s \<and> s ! i = c \<and> drop (Suc i) s = r"
  by (metis Cons_nth_drop_Suc drop_eq_Nil list.inject list.distinct(1) not_le)

lemma text_loop:
  "drop i pat = s @ r \<Longrightarrow> CHR ''%'' \<notin> set s \<Longrightarrow> init_loop pat i nstr vec err = init_loop pat (i + length s) (nstr @ s) vec err"
proof (induction s arbitrary: i nstr)
  case (Cons c s)
  have d: "i < length pat" "pat ! i = c" "drop (Suc i) pat = s @ r" using drop_at [of i pat c "s @ r"] Cons.prems(1) by auto
  have "init_loop pat i nstr vec err = init_loop pat (Suc i) (nstr @ [c]) vec err" by (subst init_loop.simps) (use d Cons.prems(2) in auto)
  then show ?case using Cons.IH [OF d(3), of "nstr @ [c]"] Cons.prems(2) by simp
qed simp

lemma letter_loop:
  assumes "drop i pat = CHR ''%'' # l # r" "isalpha l" "ends_name r"
  shows "item_loop pat i (i + 1) False 0 [] = (i + 2, False, [l], [])"
proof -
  have l1: "Suc i < length pat" "pat ! Suc i = l" "drop (Suc (Suc i)) pat = r"
    using drop_at [OF assms(1)] drop_at [of "Suc i" pat l r] by auto
  have b: "l \<noteq> CHR ''{''" "l \<noteq> CHR ''}''" using assms(2) by (auto simp: isalpha_def)
  have s: "substr pat (Suc i) (Suc 0) = [l]" "r = [] \<Longrightarrow> drop (Suc i) pat = [l]" using drop_at [OF assms(1)] by (auto simp: substr_def)
  show ?thesis
  proof (cases r)
    case Nil
    then have "length pat = Suc (Suc i)" using l1 by (simp add: drop_eq_Nil le_antisym Suc_leI)
    then show ?thesis using l1 b s Nil assms(2) by (subst item_loop.simps, simp add: Let_def, subst item_loop.simps, simp)
  next
    case (Cons c r')
    have c: "Suc (Suc i) < length pat" "pat ! Suc (Suc i) = c" using drop_at [of "Suc (Suc i)" pat c r'] l1(3) Cons by auto
    have e: "\<not> isalpha c" "c \<noteq> CHR ''{''" "c \<noteq> CHR ''}''" using assms(3) Cons by (auto simp: ends_name_def)
    show ?thesis using l1 b s c e assms(2) by (subst item_loop.simps, simp add: Let_def, subst item_loop.simps, simp add: Let_def)
  qed
qed

lemma brace_loop:
  "drop n pat = f @ CHR ''}'' # r \<Longrightarrow> CHR ''}'' \<notin> set f \<Longrightarrow> str \<noteq> [] \<Longrightarrow>
     item_loop pat i n True b str = (n + length f + 1, False, str, substr pat (b + 1) (n + length f - b - 1))"
proof (induction f arbitrary: n)
  case Nil
  then show ?case using drop_at [of n pat "CHR ''}''" r] by (subst item_loop.simps) (auto simp: Let_def)
next
  case (Cons c f)
  have d: "n < length pat" "pat ! n = c" "drop (Suc n) pat = f @ CHR ''}'' # r" using drop_at [of n pat c "f @ CHR ''}'' # r"] Cons.prems(1) by auto
  have "item_loop pat i n True b str = item_loop pat i (Suc n) True b str" by (subst item_loop.simps) (use d Cons.prems(2,3) in \<open>auto simp: Let_def\<close>)
  then show ?case using Cons.IH [OF d(3)] Cons.prems(2,3) by simp
qed

lemma date_loop:
  assumes "drop i pat = ''%d{'' @ f @ CHR ''}'' # r" "CHR ''}'' \<notin> set f"
  shows "item_loop pat i (i + 1) False 0 [] = (i + length f + 4, False, ''d'', f)"
proof -
  have d0: "drop i pat = CHR ''%'' # CHR ''d'' # CHR ''{'' # f @ CHR ''}'' # r" using assms(1) by simp
  note d1 = drop_at [OF d0]
  note d2 = drop_at [OF conjunct2 [OF conjunct2 [OF d1]]]
  note d3 = drop_at [OF conjunct2 [OF conjunct2 [OF d2]]]
  have "item_loop pat i (Suc (Suc (Suc i))) True (Suc (Suc i)) ''d'' = (i + length f + 4, False, ''d'', f)"
    using brace_loop [of "Suc (Suc (Suc i))" pat f r "''d''" i "Suc (Suc i)"] d3 assms(2) by (simp add: substr_def)
  moreover have "isalpha (CHR ''d'')" by code_simp
  moreover have "substr pat (Suc i) (Suc 0) = ''d''" using d1 by (simp add: substr_def)
  ultimately show ?thesis using d1 d2 d3 by (subst item_loop.simps, simp add: Let_def, subst item_loop.simps, simp add: Let_def)
qed

lemma item_letter_facts:
  assumes "item_letter it = Some l"
  shows "isalpha l \<and> l \<noteq> CHR ''%'' \<and> item_pattern it = [CHR ''%'', l] \<and> entry_of it = Item [l] [] \<and> item_of (entry_of it) = (it, False)"
proof -
  have "list_all (\<lambda>it. case item_letter it of None \<Rightarrow> False | Some l \<Rightarrow> isalpha l \<and> l \<noteq> CHR ''%'')
    [MessageItem, LevelItem, ElapseItem, NameItem, ThreadIdItem, NewLineItem, FilenameItem, LineItem, TabItem, FiberIdItem, ThreadNameItem]" by code_simp
  then have "isalpha l \<and> l \<noteq> CHR ''%''" using assms by (cases it) auto
  then show ?thesis using assms by (cases it) (auto simp: item_pattern_def entry_of_def s_format_items_def)
qed

text \<open>The loop over a pattern, with the literal text \<open>nstr\<close> read so far.\<close>

lemma letter_step:
  assumes "drop i pat = [CHR ''%'', l] @ r" "isalpha l" "l \<noteq> CHR ''%''" "ends_name r"
  shows "init_loop pat i nstr vec err = init_loop pat (i + 2) [] (vec @ flush nstr @ [Item [l] []]) err \<and> drop (i + 2) pat = r"
proof -
  have d: "drop i pat = CHR ''%'' # l # r" using assms(1) by simp
  have p: "i < length pat" "pat ! i = CHR ''%''" "pat ! Suc i = l" using drop_at [OF d] drop_at [of "Suc i" pat l] by auto
  have "init_loop pat i nstr vec err = init_loop pat (i + 2) [] (vec @ flush nstr @ [Item [l] []]) err"
    by (subst init_loop.simps) (use p letter_loop [OF d assms(2,4)] assms(3) in simp)
  then show ?thesis using drop_cut [OF assms(1)] by simp
qed

lemma items_loop:
  assumes "drop i pat = pattern_of its" "items_ok its" "nstr = [] \<or> (case its of [] \<Rightarrow> True | x # _ \<Rightarrow> \<not> is_text x)"
  shows "init_loop pat i nstr vec err = (vec @ flush nstr @ map entry_of its, err)"
  using assms
proof (induction its arbitrary: i nstr vec)
  case Nil
  then show ?case by (subst init_loop.simps) (simp add: pattern_of_def)
next
  case (Cons it its)
  have rest: "items_ok its" using Cons.prems(2) by simp
  show ?case
  proof (cases "item_letter it")
    case (Some l)
    note f = item_letter_facts [OF Some]
    have d: "drop i pat = [CHR ''%'', l] @ pattern_of its" using Cons.prems(1) f by (simp add: pattern_of_def)
    have e: "ends_name (pattern_of its)" using Cons.prems(2) Some by (cases it) auto
    show ?thesis using letter_step [OF d _ _ e, of nstr vec err] f Cons.IH [of "i + 2" "[]", OF _ rest] by (simp add: flush_def)
  next
    case None
    then consider s where "it = StringItem s" | f where "it = DateTimeItem f" by (cases it) auto
    then show ?thesis
    proof cases
    case (1 s)
    note StringItem = 1
    have d: "drop i pat = s @ pattern_of its" and s: "s \<noteq> []" "CHR ''%'' \<notin> set s" "case its of [] \<Rightarrow> True | x # _ \<Rightarrow> \<not> is_text x"
      using Cons.prems(1,2) StringItem by (auto simp: pattern_of_def item_pattern_def)
    have "nstr = []" using Cons.prems(3) StringItem by auto
    then show ?thesis using text_loop [OF d s(2), of nstr vec err] Cons.IH [OF drop_cut [OF d] rest, of s] s(1,3) StringItem
      by (auto simp: flush_def entry_of_def)
  next
    case (2 f)
    note DateTimeItem = 2
    have d: "drop i pat = ''%d{'' @ f @ CHR ''}'' # pattern_of its" and f: "CHR ''}'' \<notin> set f"
      using Cons.prems(1,2) DateTimeItem by (auto simp: pattern_of_def item_pattern_def)
    have p: "i < length pat" "pat ! i = CHR ''%''" "pat ! Suc i = CHR ''d''"
      using drop_at [of i pat "CHR ''%''"] drop_at [of "Suc i" pat "CHR ''d''"] d by auto
    have n: "drop (i + length f + 4) pat = pattern_of its" using drop_cut [of i pat "''%d{'' @ f @ ''}''"] d by (simp add: add.assoc numeral_eq_Suc)
    have "init_loop pat i nstr vec err = init_loop pat (i + length f + 4) [] (vec @ flush nstr @ [Item ''d'' f]) err"
      by (subst init_loop.simps) (use p date_loop [OF d f] in simp)
    then show ?thesis using Cons.IH [OF n rest, of "[]"] DateTimeItem by (simp add: flush_def entry_of_def)
    qed
  qed
qed

text \<open>C37: A pattern is read as the items it is written with. For every list of items that can be told apart in a pattern
  (text without percent signs, not behind a letter it would lengthen, dates with a format), the
  formatter made from their pattern has exactly those items and no error, and formats an event as
  the items do one after the other.\<close>

theorem pattern_roundtrip:
  assumes "items_ok its"
  shows "lf_items (new_LogFormatter (pattern_of its)) = its \<and> \<not> lf_error (new_LogFormatter (pattern_of its))
    \<and> formatter_format strf (new_LogFormatter (pattern_of its)) level e = concat (map (item_format strf level e) its)"
proof -
  have l: "init_loop (pattern_of its) 0 [] [] False = (map entry_of its, False)" using items_loop [of 0 "pattern_of its" its "[]"] assms by (simp add: flush_def)
  have i: "item_of (entry_of it) = (it, False)" if "it \<in> set its" for it
  proof (cases "item_letter it")
    case None
    have "its' = a @ it # b \<Longrightarrow> items_ok its' \<Longrightarrow> items_ok (it # b)" for its' a b by (induction a arbitrary: its') auto
    then have "\<exists>b. items_ok (it # b)" using assms that by (meson split_list)
    then show ?thesis using None by (cases it) (auto simp: entry_of_def s_format_items_def new_DateTimeItem_def)
  qed (use item_letter_facts in blast)
  have m: "map (fst \<circ> item_of) (map entry_of its) = its" using i by (simp add: map_idI)
  have x: "\<not> list_ex (snd \<circ> item_of) (map entry_of its)" using i by (auto simp: list_ex_iff)
  show ?thesis using l m x by (simp add: new_LogFormatter_def formatter_format_def del: map_map)
qed

theorem pattern_roundtrip_witness:
  "lf_items (new_LogFormatter (pattern_of [DateTimeItem ''%H:%M'', StringItem '' ['', LevelItem, StringItem ''] '', MessageItem, NewLineItem]))
   = [DateTimeItem ''%H:%M'', StringItem '' ['', LevelItem, StringItem ''] '', MessageItem, NewLineItem]"
proof -
  have "items_ok [DateTimeItem ''%H:%M'', StringItem '' ['', LevelItem, StringItem ''] '', MessageItem, NewLineItem]" by code_simp
  then show ?thesis using pattern_roundtrip by blast
qed

text \<open>The escape of a percent sign is read as a percent sign and, once more, as the start of an item.\<close>

theorem percent_escape_broken:
  "lf_items (new_LogFormatter ''100%%'') = [StringItem ''100%'', StringItem ''<<error_format %>>''] \<and> lf_error (new_LogFormatter ''100%%'')"
  by code_simp

definition example_event :: LogEvent where
  "example_event = \<lparr>ev_file = ''main.cc'', ev_line = 7, ev_elapse = 0, ev_threadId = 1, ev_fiberId = 0, ev_time = 1000, ev_threadName = ''main'',
     ev_content = ''hello'', ev_logger = ''system'', ev_level = INFO\<rparr>"

definition example_env :: log_env where
  "example_env = \<lparr>le_strf = (\<lambda>f t. f), le_open = (\<lambda>_. True)\<rparr>"

section \<open>No missing formatter\<close>

definition log_ok :: "log_state \<Rightarrow> bool" where
  "log_ok st \<longleftrightarrow> ls_loggers st ''root'' \<noteq> None
     \<and> (\<forall>name lg. ls_loggers st name = Some lg \<longrightarrow> lg_name lg = name \<and> lg_formatter lg \<noteq> None
          \<and> (\<forall>i \<in> set (lg_appenders lg). \<exists>ap. ls_appenders st i = Some ap \<and> ap_formatter ap \<noteq> None))"

text \<open>The calls a program makes; an appender is created before it is added.\<close>

datatype log_op = NewStdout | NewFile string | Get string | Add nat string | Del nat string | Clear string | Level LogLevel string
  | Format string string | LogIt LogLevel LogEvent string | Configure bool LogEvent "LogDefine list" "LogDefine list"

definition with_named :: "string \<Rightarrow> (Logger \<Rightarrow> log_state \<Rightarrow> log_state) \<Rightarrow> log_state \<Rightarrow> (log_error, log_state) result" where
  "with_named name f st = Inr (with_logger name f st)"

fun log_exec :: "log_env \<Rightarrow> log_op \<Rightarrow> log_state \<Rightarrow> (log_error, log_state) result" where
  "log_exec E NewStdout st = Inr (put_appender (ls_next st) StdoutLogAppender (st\<lparr>ls_next := ls_next st + 1\<rparr>))"
| "log_exec E (NewFile f) st =
     (case FileLogAppender (le_open E) f (ls_world st) of (ap, w) \<Rightarrow> Inr (put_appender (ls_next st) ap (st\<lparr>ls_world := w, ls_next := ls_next st + 1\<rparr>)))"
| "log_exec E (Get name) st = Inr (snd (getLogger name st))"
| "log_exec E (Add i name) st = with_named name (addAppender i) st"
| "log_exec E (Del i name) st = with_named name (delAppender i) st"
| "log_exec E (Clear name) st = with_named name clearAppenders st"
| "log_exec E (Level l name) st = with_named name (setLevel l) st"
| "log_exec E (Format p name) st = with_named name (setFormatter p) st"
| "log_exec E (LogIt l e name) st = logger_log E l e name (snd (getLogger name st))"
| "log_exec E (Configure daemon notice old new) st = on_logger_conf_changed E daemon notice old new st"

fun log_run :: "log_env \<Rightarrow> log_op list \<Rightarrow> log_state \<Rightarrow> (log_error, log_state) result" where
  "log_run E [] st = Inr st"
| "log_run E (op # ops) st = rbind (log_exec E op st) (log_run E ops)"

text \<open>A new appender has a new name.\<close>

definition names_ok :: "log_state \<Rightarrow> bool" where
  "names_ok st \<longleftrightarrow> (\<forall>i ap. ls_appenders st i = Some ap \<longrightarrow> i < ls_next st)"

definition good :: "log_state \<Rightarrow> bool" where
  "good st \<longleftrightarrow> log_ok st \<and> names_ok st"

fun define_ok :: "LogDefine \<Rightarrow> bool" where
  "define_ok d \<longleftrightarrow> list_all (\<lambda>a. ad_type a = 1 \<or> ad_type a = 2) (ld_appenders d)"

fun op_ok :: "log_op \<Rightarrow> bool" where
  "op_ok (Configure daemon notice old new) \<longleftrightarrow> list_all define_ok new"
| "op_ok _ \<longleftrightarrow> True"

lemma good_world: "good st \<Longrightarrow> good (st\<lparr>ls_world := w\<rparr>)"
  by (simp add: good_def log_ok_def names_ok_def)

lemma good_put_logger:
  assumes "good st" "lg_formatter lg \<noteq> None" "\<And>i. i \<in> set (lg_appenders lg) \<Longrightarrow> \<exists>ap. ls_appenders st i = Some ap \<and> ap_formatter ap \<noteq> None"
  shows "good (put_logger lg st)"
  using assms by (auto simp: good_def log_ok_def names_ok_def put_logger_def)

lemma good_put_appender:
  assumes "good st" "ls_appenders st i \<noteq> None" "ap_formatter ap \<noteq> None"
  shows "good (put_appender i ap st)"
  using assms unfolding good_def log_ok_def names_ok_def put_appender_def by (auto split: if_splits)

lemma goodD:
  assumes "good st" "ls_loggers st name = Some lg"
  shows "lg_name lg = name" "lg_formatter lg \<noteq> None" "\<And>i. i \<in> set (lg_appenders lg) \<Longrightarrow> \<exists>ap. ls_appenders st i = Some ap \<and> ap_formatter ap \<noteq> None"
  using assms by (auto simp: good_def log_ok_def)

lemma good_getLogger:
  assumes "good st" "getLogger name st = (lg, st1)"
  shows "good st1 \<and> ls_loggers st1 name = Some lg"
proof (cases "ls_loggers st name")
  case None
  then show ?thesis using assms good_put_logger [OF assms(1), of "(new_Logger name)\<lparr>lg_root := True\<rparr>"]
    by (auto simp: getLogger_def Let_def new_Logger_def put_logger_def)
qed (use assms in \<open>auto simp: getLogger_def\<close>)

lemma good_with_logger:
  assumes "good st" "\<And>lg st1. good st1 \<Longrightarrow> ls_loggers st1 name = Some lg \<Longrightarrow> good (f lg st1)"
  shows "good (with_logger name f st)"
  using assms good_getLogger [OF assms(1)] by (auto simp: with_logger_def split: prod.splits)

lemma good_addAppender:
  assumes "good st" "ls_loggers st name = Some lg"
  shows "good (addAppender i lg st)"
proof (cases "ls_appenders st i")
  case (Some ap)
  note g = goodD [OF assms]
  let ?st = "if ap_formatter ap = None then put_appender i (ap\<lparr>ap_formatter := lg_formatter lg\<rparr>) st else st"
  have ok: "good ?st" using good_put_appender [OF assms(1), of i "ap\<lparr>ap_formatter := lg_formatter lg\<rparr>"] Some g(2) assms(1) by simp
  have a: "\<exists>ap'. ls_appenders ?st j = Some ap' \<and> ap_formatter ap' \<noteq> None" if "j \<in> set (lg_appenders lg) \<or> j = i" for j
    using that g(2,3) Some by (cases "j = i") (auto simp: put_appender_def)
  have "good (put_logger (lg\<lparr>lg_appenders := lg_appenders lg @ [i]\<rparr>) ?st)" by (rule good_put_logger [OF ok]) (use g(2) a in auto)
  then show ?thesis by (simp add: addAppender_def Some)
qed (simp add: addAppender_def assms)

lemma good_simple_ops:
  assumes "good st" "ls_loggers st name = Some lg"
  shows "good (delAppender i lg st)" "good (clearAppenders lg st)" "good (setLevel l lg st)"
proof -
  note g = goodD [OF assms]
  show "good (delAppender i lg st)" unfolding delAppender_def
    by (rule good_put_logger [OF assms(1)]) (use g(2,3) set_remove1_subset [of i "lg_appenders lg"] in auto)
  show "good (clearAppenders lg st)" unfolding clearAppenders_def by (rule good_put_logger [OF assms(1)]) (use g(2) in auto)
  show "good (setLevel l lg st)" unfolding setLevel_def by (rule good_put_logger [OF assms(1)]) (use g(2,3) in auto)
qed

lemma good_give: "good st \<Longrightarrow> good (give_formatter (Some f) i st)"
  by (auto simp: give_formatter_def intro!: good_put_appender split: option.splits)

lemma good_gives: "good st \<Longrightarrow> good (fold (give_formatter (Some f)) is st)"
  by (induction "is" arbitrary: st) (simp_all add: good_give)

lemma good_setFormatter:
  assumes "good st" "ls_loggers st name = Some lg"
  shows "good (setFormatter p lg st)"
  using good_gives [OF good_put_logger [OF assms(1), of "lg\<lparr>lg_formatter := Some (new_LogFormatter p)\<rparr>"]] goodD(3) [OF assms] good_world [OF assms(1)]
  by (simp add: setFormatter_def setFormatter_ptr_def print_text_def Let_def)

lemma reopen_keeps: "reopen co f ap w = (r, ap1, w1) \<Longrightarrow> ap_formatter ap1 = ap_formatter ap"
  by (auto simp: reopen_def Let_def split: if_splits)

lemma appender_log_ok:
  assumes "ap_formatter ap = Some f"
  shows "\<exists>ap1 w1. appender_log E l e ap w = Inr (ap1, w1) \<and> ap_formatter ap1 = Some f"
  using assms reopen_keeps [of "le_open E" _ ap w]
  by (auto simp: appender_log_def stdout_log_def file_log_def Let_def split: sink.splits prod.splits option.splits)

lemma log_all_ok:
  "good st \<Longrightarrow> (\<And>i. i \<in> set is \<Longrightarrow> \<exists>ap. ls_appenders st i = Some ap \<and> ap_formatter ap \<noteq> None) \<Longrightarrow>
     \<exists>st1. log_all E l e is st = Inr st1 \<and> good st1 \<and> ls_loggers st1 = ls_loggers st"
proof (induction "is" arbitrary: st)
  case (Cons i "is")
  obtain ap f where ap: "ls_appenders st i = Some ap" "ap_formatter ap = Some f" using Cons.prems(2) [of i] by auto
  obtain ap1 w1 where l: "appender_log E l e ap (ls_world st) = Inr (ap1, w1)" "ap_formatter ap1 = Some f" using appender_log_ok [OF ap(2)] by blast
  let ?st = "put_appender i ap1 (st\<lparr>ls_world := w1\<rparr>)"
  have g: "good ?st" by (rule good_put_appender [OF good_world [OF Cons.prems(1)]]) (use ap l in auto)
  have a: "\<exists>ap. ls_appenders ?st j = Some ap \<and> ap_formatter ap \<noteq> None" if "j \<in> set is" for j
    using Cons.prems(2) [of j] that l(2) by (auto simp: put_appender_def)
  obtain st1 where "log_all E l e is ?st = Inr st1" "good st1" "ls_loggers st1 = ls_loggers ?st" using Cons.IH [OF g a] by blast
  then show ?case using ap l by (auto simp: put_appender_def)
qed auto

lemma log_own_ok:
  assumes "good st" "ls_loggers st name = Some lg" "\<exists>st1. oth st = Inr st1 \<and> good st1"
  shows "\<exists>st1. log_own E l e lg oth st = Inr st1 \<and> good st1"
proof -
  have "\<exists>st1. log_all E l e (lg_appenders lg) st = Inr st1 \<and> good st1" using log_all_ok [OF assms(1) goodD(3) [OF assms(1,2)]] by blast
  then show ?thesis using assms by (simp add: log_own_def)
qed

lemma logger_log_ok:
  assumes "good st" "ls_loggers st name \<noteq> None"
  shows "\<exists>st1. logger_log E l e name st = Inr st1 \<and> good st1"
proof -
  obtain lg r where lg: "ls_loggers st name = Some lg" "ls_loggers st ''root'' = Some r" using assms by (auto simp: good_def log_ok_def)
  have "\<exists>st1. log_own E l e r Inr st = Inr st1 \<and> good st1" by (rule log_own_ok [OF assms(1) lg(2)]) (use assms(1) in simp)
  then have "\<exists>st1. (if lg_root lg then (case ls_loggers st ''root'' of None \<Rightarrow> Inl NullLogger | Some r \<Rightarrow> log_own E l e r Inr st) else Inr st) = Inr st1 \<and> good st1"
    using lg assms(1) by simp
  then show ?thesis unfolding logger_log_def lg(1) option.case by (rule log_own_ok [OF assms(1) lg(1)])
qed

lemma getLogger_there: "ls_loggers (snd (getLogger name st)) name \<noteq> None"
  by (auto simp: getLogger_def Let_def put_logger_def new_Logger_def split: option.splits)

text \<open>What the listener does to the state.\<close>

lemma good_new_appender:
  assumes "good st" "i = ls_next st"
  shows "good (put_appender i ap (st\<lparr>ls_world := w, ls_next := i + 1\<rparr>))"
proof -
  have "ls_appenders st i = None" using assms by (auto simp: good_def names_ok_def)
  then show ?thesis using assms unfolding good_def log_ok_def names_ok_def put_appender_def by (auto simp: less_Suc_eq) (metis option.distinct(1))
qed

lemma add_defined_some:
  assumes "\<not> (ad_type a = 2 \<and> daemon)" "new_appender E daemon a (ls_world st) = Some (ap, w)" "ls_loggers st name = Some lg"
  shows "\<exists>ap'. add_defined E daemon name a st = Inr (addAppender (ls_next st) lg (put_appender (ls_next st) ap' (st\<lparr>ls_world := w, ls_next := ls_next st + 1\<rparr>)))"
  unfolding add_defined_def if_not_P [OF assms(1)] assms(2) option.case prod.case Let_def
  by (simp add: assms(3) put_appender_def, metis)

lemma add_defined_ok:
  assumes "good st" "ls_loggers st name \<noteq> None" "ad_type a = 1 \<or> ad_type a = 2"
  shows "\<exists>st1. add_defined E daemon name a st = Inr st1 \<and> good st1 \<and> ls_loggers st1 name \<noteq> None"
proof (cases "ad_type a = 2 \<and> daemon")
  case False
  obtain ap w where n: "new_appender E daemon a (ls_world st) = Some (ap, w)" using False assms(3) by (cases "new_appender E daemon a (ls_world st)") (auto simp: new_appender_def)
  obtain lg where l: "ls_loggers st name = Some lg" using assms(2) by auto
  from add_defined_some [OF False n l] obtain ap' where
    ap: "add_defined E daemon name a st = Inr (addAppender (ls_next st) lg (put_appender (ls_next st) ap' (st\<lparr>ls_world := w, ls_next := ls_next st + 1\<rparr>)))" by blast
  let ?st = "put_appender (ls_next st) ap' (st\<lparr>ls_world := w, ls_next := ls_next st + 1\<rparr>)"
  have lg: "ls_loggers ?st name = Some lg" using l by (simp add: put_appender_def)
  have g: "good ?st" by (rule good_new_appender [OF assms(1) refl])
  have "good (addAppender (ls_next st) lg ?st)" by (rule good_addAppender [OF g lg])
  moreover have "ls_loggers (addAppender (ls_next st) lg ?st) name \<noteq> None"
    using lg by (auto simp: addAppender_def put_logger_def put_appender_def split: option.splits)
  ultimately show ?thesis using ap by blast
qed (use assms in \<open>simp add: add_defined_def\<close>)

lemma add_all_ok:
  "good st \<Longrightarrow> ls_loggers st name \<noteq> None \<Longrightarrow> list_all (\<lambda>a. ad_type a = 1 \<or> ad_type a = 2) as \<Longrightarrow> \<exists>st1. add_all_defined E daemon name as st = Inr st1 \<and> good st1"
proof (induction as arbitrary: st)
  case (Cons a as)
  obtain st1 where "add_defined E daemon name a st = Inr st1" "good st1" "ls_loggers st1 name \<noteq> None"
    using add_defined_ok [OF Cons.prems(1,2)] Cons.prems(3) by fastforce
  then show ?case using Cons.IH Cons.prems(3) by simp
qed simp

lemma put_logger_there: "ls_loggers st name \<noteq> None \<Longrightarrow> ls_loggers (put_logger lg st) name \<noteq> None"
  by (simp add: put_logger_def)

lemma apply_define_ok:
  assumes "good st" "define_ok i"
  shows "\<exists>st1. apply_define E daemon old i st = Inr st1 \<and> good st1"
proof -
  let ?n = "ld_name i"
  let ?st1 = "with_logger ?n (setLevel (ld_level i)) st"
  let ?st2 = "if ld_formatter i \<noteq> [] then with_logger ?n (setFormatter (ld_formatter i)) ?st1 else ?st1"
  let ?st3 = "with_logger ?n clearAppenders ?st2"
  have g1: "good ?st1" by (rule good_with_logger [OF assms(1)]) (rule good_simple_ops(3))
  have g2: "good ?st2" using g1 good_with_logger [OF g1, of ?n "setFormatter (ld_formatter i)"] good_setFormatter by simp
  have g3: "good ?st3" by (rule good_with_logger [OF g2]) (rule good_simple_ops(2))
  have "ls_loggers ?st3 ?n \<noteq> None" using getLogger_there [of ?n ?st2] by (simp add: with_logger_def clearAppenders_def put_logger_there case_prod_unfold)
  then show ?thesis using add_all_ok [OF g3, of ?n "ld_appenders i"] assms by (simp add: apply_define_def Let_def)
qed

lemma apply_defines_ok: "good st \<Longrightarrow> list_all define_ok is \<Longrightarrow> \<exists>st1. apply_defines E daemon old is st = Inr st1 \<and> good st1"
proof (induction "is" arbitrary: st)
  case (Cons i "is")
  obtain st1 where "apply_define E daemon old i st = Inr st1" "good st1" using apply_define_ok [OF Cons.prems(1)] Cons.prems(2) by fastforce
  then show ?case using Cons.IH Cons.prems(2) by simp
qed simp

lemma drop_defines_ok: "good st \<Longrightarrow> good (fold (drop_define new) old st)"
proof (induction old arbitrary: st)
  case (Cons i old)
  have g: "good (with_logger (ld_name i) (setLevel UNKNOW) st)" by (rule good_with_logger [OF Cons.prems]) (rule good_simple_ops(3))
  have "good (with_logger (ld_name i) clearAppenders (with_logger (ld_name i) (setLevel UNKNOW) st))" by (rule good_with_logger [OF g]) (rule good_simple_ops(2))
  then have "good (drop_define new i st)" using Cons.prems by (simp add: drop_define_def)
  then show ?case using Cons.IH by simp
qed simp

lemma log_exec_ok:
  assumes "good st" "op_ok op"
  shows "\<exists>st1. log_exec E op st = Inr st1 \<and> good st1"
proof (cases op)
  case NewStdout
  then show ?thesis using good_new_appender [OF assms(1) refl, of StdoutLogAppender "ls_world st"] by simp
next
  case (NewFile f)
  then show ?thesis using good_new_appender [OF assms(1) refl] by (simp add: case_prod_unfold)
next
  case (Get n)
  then show ?thesis using good_getLogger [OF assms(1), of n] by (metis log_exec.simps(3) prod.collapse)
next
  case (LogIt l e n)
  then show ?thesis using logger_log_ok [OF _ getLogger_there] good_getLogger [OF assms(1), of n] by (metis log_exec.simps(9) prod.collapse)
next
  case (Configure d ntc old new)
  have "ls_loggers st ''root'' \<noteq> None" using assms(1) by (simp add: good_def log_ok_def)
  from logger_log_ok [OF assms(1) this] obtain st1 where "logger_log E INFO ntc ''root'' st = Inr st1" "good st1" by blast
  moreover then obtain st2 where "apply_defines E d old new st1 = Inr st2" "good st2" using apply_defines_ok Configure assms(2) by (metis op_ok.simps(1))
  ultimately show ?thesis using Configure drop_defines_ok by (simp add: on_logger_conf_changed_def)
qed (use assms good_with_logger good_addAppender good_simple_ops good_setFormatter in \<open>simp_all add: with_named_def\<close>)

lemma log_run_ok: "good st \<Longrightarrow> list_all op_ok ops \<Longrightarrow> \<exists>st1. log_run E ops st = Inr st1 \<and> good st1"
proof (induction ops arbitrary: st)
  case (Cons op ops)
  obtain st1 where "log_exec E op st = Inr st1" "good st1" using log_exec_ok [OF Cons.prems(1)] Cons.prems(2) by fastforce
  then show ?case using Cons.IH Cons.prems(2) by simp
qed simp

lemma good_LoggerManager: "good LoggerManager"
  by (auto simp: LoggerManager_def good_def log_ok_def names_ok_def addAppender_def put_logger_def put_appender_def StdoutLogAppender_def new_Logger_def)



section \<open>What a file holds\<close>

fun appender_run :: "log_env \<Rightarrow> (LogLevel \<times> LogEvent) list \<Rightarrow> LogAppender \<Rightarrow> log_world \<Rightarrow> (log_error, LogAppender \<times> log_world) result" where
  "appender_run E [] ap w = Inr (ap, w)"
| "appender_run E (le # es) ap w = rbind (appender_log E (fst le) (snd le) ap w) (\<lambda>(ap1, w1). appender_run E es ap1 w1)"

definition open_file :: "string \<Rightarrow> LogFormatter \<Rightarrow> LogAppender \<Rightarrow> bool" where
  "open_file fn f ap \<longleftrightarrow> ap_sink ap = File fn \<and> ap_formatter ap = Some f \<and> ap_isopen ap \<and> \<not> ap_fail ap"

definition event_text :: "log_env \<Rightarrow> LogFormatter \<Rightarrow> LogLevel \<times> LogEvent \<Rightarrow> string" where
  "event_text E f = (\<lambda>(l, e). formatter_format (le_strf E) f l e)"

lemma file_step:
  assumes "open_file fn f ap" "le_open E fn" "ap_level ap \<le> fst le"
  shows "\<exists>ap1 w1. appender_log E (fst le) (snd le) ap w = Inr (ap1, w1) \<and> open_file fn f ap1 \<and> ap_level ap1 = ap_level ap
    \<and> ap_lastTime ap1 = (if ap_lastTime ap + 3 \<le> ev_time (snd le) then ev_time (snd le) else ap_lastTime ap)
    \<and> lw_files w1 fn = (if ap_lastTime ap + 3 \<le> ev_time (snd le) then [] else lw_files w fn) @ event_text E f le"
  using assms by (auto simp: open_file_def appender_log_def file_log_def reopen_def event_text_def case_prod_unfold Let_def)

text \<open>A history leaves the file open, and its time is that of an event of the history or as before.\<close>

lemma history_keeps:
  "open_file fn f ap \<Longrightarrow> le_open E fn \<Longrightarrow> list_all (\<lambda>le. ap_level ap \<le> fst le \<and> ev_time (snd le) \<le> t) es \<Longrightarrow> ap_lastTime ap \<le> t \<Longrightarrow>
     \<exists>ap1 w1. appender_run E es ap w = Inr (ap1, w1) \<and> open_file fn f ap1 \<and> ap_level ap1 = ap_level ap \<and> ap_lastTime ap1 \<le> t"
proof (induction es arbitrary: ap w)
  case (Cons le es)
  have "ap_level ap \<le> fst le" using Cons.prems(3) by simp
  from file_step [OF Cons.prems(1,2) this, of w] obtain ap1 w1 where
    s: "appender_log E (fst le) (snd le) ap w = Inr (ap1, w1)" "open_file fn f ap1" "ap_level ap1 = ap_level ap"
      "ap_lastTime ap1 = (if ap_lastTime ap + 3 \<le> ev_time (snd le) then ev_time (snd le) else ap_lastTime ap)" by blast
  have "ap_lastTime ap1 \<le> t" using s(4) Cons.prems(3,4) by simp
  then show ?case using Cons.IH [OF s(2) Cons.prems(2), of w1] s(1,3) Cons.prems(3) by simp
qed simp

lemma burst_appends:
  "open_file fn f ap \<Longrightarrow> le_open E fn \<Longrightarrow> list_all (\<lambda>le. ap_level ap \<le> fst le \<and> \<not> ap_lastTime ap + 3 \<le> ev_time (snd le)) es \<Longrightarrow>
     \<exists>ap1 w1. appender_run E es ap w = Inr (ap1, w1) \<and> lw_files w1 fn = lw_files w fn @ concat (map (event_text E f) es)"
proof (induction es arbitrary: ap w)
  case (Cons le es)
  have "ap_level ap \<le> fst le" using Cons.prems(3) by simp
  from file_step [OF Cons.prems(1,2) this, of w] obtain ap1 w1 where
    s: "appender_log E (fst le) (snd le) ap w = Inr (ap1, w1)" "open_file fn f ap1" "ap_level ap1 = ap_level ap" "ap_lastTime ap1 = ap_lastTime ap"
      "lw_files w1 fn = lw_files w fn @ event_text E f le" using Cons.prems(3) by auto
  then show ?case using Cons.IH [OF s(2) Cons.prems(2), of w1] Cons.prems(3) by auto
qed simp

lemma appender_run_append:
  "appender_run E (es @ es') ap w = rbind (appender_run E es ap w) (\<lambda>(ap1, w1). appender_run E es' ap1 w1)"
proof (induction es arbitrary: ap w)
  case (Cons le es)
  then show ?case by (cases "appender_log E (fst le) (snd le) ap w") auto
qed simp



section \<open>Configurations written and read back\<close>

text \<open>What is left of a definition: the levels of its appenders are not read.\<close>

definition forget_appender :: "LogAppenderDefine \<Rightarrow> LogAppenderDefine" where
  "forget_appender a = a\<lparr>ad_level := UNKNOW, ad_file := (if ad_type a = 1 then ad_file a else [])\<rparr>"

definition forget_levels :: "LogDefine \<Rightarrow> LogDefine" where
  "forget_levels d = d\<lparr>ld_appenders := map forget_appender (ld_appenders d)\<rparr>"

lemma level_roundtrip: "l \<noteq> UNKNOW \<Longrightarrow> level_FromString (level_ToString l) = l"
  by (cases l) (simp_all add: level_FromString_def)

lemma appender_of_yaml:
  "ad_type a = 1 \<or> ad_type a = 2 \<Longrightarrow> appender_of L (appender_define_yaml a) = Inr (Some (forget_appender a))"
  by (auto simp: appender_of_def appender_define_yaml_def yget_def as_string_def opt_string_def forget_appender_def)

lemma appenders_of_yaml:
  "list_all (\<lambda>a. ad_type a = 1 \<or> ad_type a = 2) as \<Longrightarrow> appenders_of L (map (\<lambda>a. Some (appender_define_yaml a)) as) = Inr (map forget_appender as)"
  by (induction as) (simp_all add: appender_of_yaml)

lemma logdefine_of_yaml:
  assumes "define_ok d"
  shows "logdefine_of L (logdefine_yaml d) = Inr (forget_levels d)"
  using assms appenders_of_yaml [of "ld_appenders d" L] level_roundtrip [of "ld_level d"]
  by (auto simp: logdefine_of_def logdefine_yaml_def yget_def as_string_def opt_string_def elements_def comp_def forget_levels_def level_FromString_def)

lemma set_insert_snoc: "list_all (\<lambda>y. lt y x \<and> \<not> lt x y) ys \<Longrightarrow> set_insert lt x ys = ys @ [x]"
  by (induction ys) auto

lemma insert_sorted:
  "sorted_wrt (\<lambda>x y. lt x y \<and> \<not> lt y x) (ys @ xs) \<Longrightarrow> fold (set_insert lt) xs ys = ys @ xs"
proof (induction xs arbitrary: ys)
  case (Cons x xs)
  have "set_insert lt x ys = ys @ [x]" using Cons.prems by (intro set_insert_snoc) (auto simp: sorted_wrt_append list_all_iff)
  then show ?case using Cons.IH [of "ys @ [x]"] Cons.prems by simp
qed simp

lemma string_less_asym: "string_less a b \<Longrightarrow> \<not> string_less b a"
  by (induction a b rule: string_less.induct) auto

lemma to_LogDefines:
  "(\<And>d. d \<in> set ds \<Longrightarrow> reads_back L (logdefine_yaml d)) \<Longrightarrow> load_elements L (to_LogDefine L) ds = Some (map logdefine_yaml ds)"
  by (induction ds) (auto simp: to_LogDefine_def reads_back_def)

lemma logdefine_survives:
  assumes "define_ok d" "reads_back L (logdefine_yaml d)"
  shows "survives L (to_LogDefine L) (from_LogDefine L) forget_levels d"
  using assms logdefine_of_yaml [OF assms(1)] by (simp add: survives_def to_LogDefine_def from_LogDefine_def reads_back_def)

text \<open>C40: The configuration of the loggers survives being written and read, but for the levels of appenders. Reading
  the text of the variable \<open>logs\<close> gives the same definitions in the same order, whatever their names, levels, formats
  and appenders, and forgets the level of every appender.\<close>

theorem logs_roundtrip:
  assumes "list_all define_ok ds" and "sorted_wrt logdefine_less ds"
    and "reads_back L (YSequence (map logdefine_yaml ds))" and "list_all (\<lambda>d. reads_back L (logdefine_yaml d)) ds"
  shows "\<exists>s. cv_to (g_log_defines L) ds = Some s \<and> cv_from (g_log_defines L) s = Some (map forget_levels ds)"
proof -
  have rb: "d \<in> set ds \<Longrightarrow> reads_back L (logdefine_yaml d)" for d using assms(4) by (simp add: list_all_iff)
  have "survives L (to_LogDefine L) (from_LogDefine L) forget_levels d" if "d \<in> set ds" for d
    by (rule logdefine_survives) (use that assms(1) rb in \<open>auto simp: list_all_iff\<close>)
  moreover have "reads_back L (YSequence ns)" if "load_elements L (to_LogDefine L) ds = Some ns" for ns
    using that to_LogDefines [OF rb] assms(3) by simp
  ultimately obtain s where s: "to_vector L (to_LogDefine L) ds = Some s" "from_vector L (from_LogDefine L) s = Some (map forget_levels ds)"
    using vector_survives [of ds L "to_LogDefine L" "from_LogDefine L" forget_levels] by blast
  have "sorted_wrt (\<lambda>x y. logdefine_less x y \<and> \<not> logdefine_less y x) (map forget_levels ds)"
    using assms(2) string_less_asym by (auto simp: sorted_wrt_map logdefine_less_def forget_levels_def elim!: sorted_wrt_mono_rel [rotated])
  then have "fold (set_insert logdefine_less) (map forget_levels ds) [] = map forget_levels ds" using insert_sorted [of _ "[]"] by simp
  then show ?thesis using s by (simp add: g_log_defines_def ConfigVar_def to_set_def from_set_def)
qed

definition example_defines :: "LogDefine list" where
  "example_defines =
     [\<lparr>ld_name = ''root'', ld_level = WARN, ld_formatter = ''%m%n'', ld_appenders =
        [\<lparr>ad_type = 1, ad_level = ERROR, ad_formatter = [], ad_file = ''a.log''\<rparr>, \<lparr>ad_type = 2, ad_level = UNKNOW, ad_formatter = ''%p'', ad_file = []\<rparr>]\<rparr>,
      \<lparr>ld_name = ''system'', ld_level = UNKNOW, ld_formatter = [], ld_appenders = []\<rparr>]"

text \<open>A library that knows the three documents of the example.\<close>

definition example_lib :: yaml_lib where
  "example_lib = (let docs = YSequence (map logdefine_yaml example_defines) # map logdefine_yaml example_defines in
     \<lparr>yl_load = (\<lambda>s. if length s < 3 then Some (docs ! length s) else None),
      yl_emit = (\<lambda>n. replicate (length (takeWhile (\<lambda>d. d \<noteq> n) docs)) (CHR ''x'')),
      yl_map_at = (\<lambda>kvs i. None), yl_null = None\<rparr>)"

theorem logs_roundtrip_witness:
  "\<exists>s. cv_to (g_log_defines example_lib) example_defines = Some s
     \<and> cv_from (g_log_defines example_lib) s = Some (map forget_levels example_defines)"
proof (rule logs_roundtrip)
  show "list_all define_ok example_defines" by code_simp
  show "sorted_wrt logdefine_less example_defines" by code_simp
  show "reads_back example_lib (YSequence (map logdefine_yaml example_defines))" by code_simp
  show "list_all (\<lambda>d. reads_back example_lib (logdefine_yaml d)) example_defines" by code_simp
qed

text \<open>A change of the appenders of a logger alone is not seen: the comparison looks at the appenders of one side only.\<close>

theorem appender_change_unseen:
  "setValue [d\<lparr>ld_appenders := as\<rparr>] ((g_log_defines L)\<lparr>cv_val := [d]\<rparr>) = ((g_log_defines L)\<lparr>cv_val := [d]\<rparr>, [])"
  by (simp add: setValue_def g_log_defines_def ConfigVar_def logdefine_eq_def)

end
