(* ===== verification/Socket.thy ===== *)
theory Socket
  imports Hook Address
begin

text \<open>
  Sockets (\<open>src/socket.h\<close>, \<open>src/socket.cc\<close>): the object around a descriptor with its addresses, connecting, listening and
  accepting, and the same with OpenSSL. The calls of the system, which go through the hooks and may suspend the
  fiber, are the functions of a record \<open>net\<close> on the state of the world; those of OpenSSL are the record \<open>sslib\<close>. A
  derived class is an extension of the record of its base class.

  The lemmas show who owns a descriptor: over any history of calls, each open descriptor belongs to one
  socket object, and closing and destroying objects gives back exactly what was opened.
\<close>

section \<open>The system\<close>

record 'w net =
  net_socket :: "int \<Rightarrow> int \<Rightarrow> int \<Rightarrow> 'w \<Rightarrow> int \<times> 'w"
  net_accept :: "int \<Rightarrow> 'w \<Rightarrow> int \<times> 'w"
  net_bind :: "int \<Rightarrow> u8 list \<Rightarrow> nat \<Rightarrow> 'w \<Rightarrow> int \<times> 'w"
  net_connect :: "int \<Rightarrow> u8 list \<Rightarrow> nat \<Rightarrow> 'w \<Rightarrow> int \<times> 'w"
  net_connect_with_timeout :: "int \<Rightarrow> u8 list \<Rightarrow> nat \<Rightarrow> u64 \<Rightarrow> 'w \<Rightarrow> int \<times> 'w"
  net_listen :: "int \<Rightarrow> int \<Rightarrow> 'w \<Rightarrow> int \<times> 'w"
  net_close :: "int \<Rightarrow> 'w \<Rightarrow> int \<times> 'w"
  net_getpeername :: "int \<Rightarrow> nat \<Rightarrow> 'w \<Rightarrow> (u8 list \<times> nat) option"
  net_getsockname :: "int \<Rightarrow> nat \<Rightarrow> 'w \<Rightarrow> (u8 list \<times> nat) option"
  net_getsockopt :: "int \<Rightarrow> int \<Rightarrow> int \<Rightarrow> 'w \<Rightarrow> int \<times> int \<times> 'w"
  net_setsockopt :: "int \<Rightarrow> int \<Rightarrow> int \<Rightarrow> u8 list \<Rightarrow> 'w \<Rightarrow> int \<times> 'w"
  net_errno :: "'w \<Rightarrow> int"
  net_fdctx :: "int \<Rightarrow> 'w \<Rightarrow> fd_ctx option"
  net_unlink :: "string \<Rightarrow> 'w \<Rightarrow> 'w"
  net_send :: "int \<Rightarrow> u8 list \<Rightarrow> int \<Rightarrow> 'w \<Rightarrow> int \<times> 'w"
  net_sendmsg :: "int \<Rightarrow> u8 list list \<Rightarrow> (u8 list \<times> nat) option \<Rightarrow> int \<Rightarrow> 'w \<Rightarrow> int \<times> 'w"
  net_sendto :: "int \<Rightarrow> u8 list \<Rightarrow> int \<Rightarrow> u8 list \<Rightarrow> nat \<Rightarrow> 'w \<Rightarrow> int \<times> 'w"
  net_recv :: "int \<Rightarrow> nat \<Rightarrow> int \<Rightarrow> 'w \<Rightarrow> int \<times> u8 list \<times> 'w"
  net_recvmsg :: "int \<Rightarrow> nat list \<Rightarrow> int \<Rightarrow> 'w \<Rightarrow> int \<times> u8 list \<times> u8 list \<times> 'w"
  net_recvfrom :: "int \<Rightarrow> nat \<Rightarrow> int \<Rightarrow> nat \<Rightarrow> 'w \<Rightarrow> int \<times> u8 list \<times> u8 list \<times> 'w"

abbreviation SOCK_STREAM :: int where "SOCK_STREAM \<equiv> 1"
abbreviation SOCK_DGRAM :: int where "SOCK_DGRAM \<equiv> 2"
abbreviation SO_REUSEADDR :: int where "SO_REUSEADDR \<equiv> 2"
abbreviation SO_ERROR :: int where "SO_ERROR \<equiv> 4"
abbreviation IPPROTO_TCP :: int where "IPPROTO_TCP \<equiv> 6"
abbreviation TCP_NODELAY :: int where "TCP_NODELAY \<equiv> 1"

section \<open>Sockets\<close>

record socket =
  sk_sock :: int
  sk_family :: int
  sk_type :: int
  sk_protocol :: int
  sk_isConnected :: bool
  sk_localAddress :: "Address option"
  sk_remoteAddress :: "Address option"

definition new_Socket :: "int \<Rightarrow> int \<Rightarrow> int \<Rightarrow> socket" where
  "new_Socket family type protocol = \<lparr>sk_sock = - 1, sk_family = family, sk_type = type, sk_protocol = protocol, sk_isConnected = False,
     sk_localAddress = None, sk_remoteAddress = None\<rparr>"

definition sk_isValid :: "'z socket_scheme \<Rightarrow> bool" where
  "sk_isValid s \<longleftrightarrow> sk_sock s \<noteq> - 1"

text \<open>Options: \<open>setOption\<close> and \<open>getOption\<close> tell whether the call succeeded.\<close>

definition setOption :: "'w net \<Rightarrow> int \<Rightarrow> int \<Rightarrow> u8 list \<Rightarrow> 'z socket_scheme \<Rightarrow> 'w \<Rightarrow> bool \<times> 'w" where
  "setOption N level option val s w = (case net_setsockopt N (sk_sock s) level option val w of (r, w1) \<Rightarrow> (r = 0, w1))"

definition getOption :: "'w net \<Rightarrow> int \<Rightarrow> int \<Rightarrow> 'z socket_scheme \<Rightarrow> 'w \<Rightarrow> bool \<times> int \<times> 'w" where
  "getOption N level option s w = (case net_getsockopt N (sk_sock s) level option w of (r, v, w1) \<Rightarrow> (r = 0, v, w1))"

definition initSock :: "'w net \<Rightarrow> 'z socket_scheme \<Rightarrow> 'w \<Rightarrow> 'w" where
  "initSock N s w =
     (let val = bytes_of (1 :: i32); w1 = snd (setOption N SOL_SOCKET SO_REUSEADDR val s w) in
      if sk_type s = SOCK_STREAM then snd (setOption N IPPROTO_TCP TCP_NODELAY val s w1) else w1)"

definition newSock :: "'w net \<Rightarrow> 'z socket_scheme \<Rightarrow> 'w \<Rightarrow> 'z socket_scheme \<times> 'w" where
  "newSock N s w =
     (case net_socket N (sk_family s) (sk_type s) (sk_protocol s) w of (fd, w1) \<Rightarrow>
      let s1 = s\<lparr>sk_sock := fd\<rparr> in if fd \<noteq> - 1 then (s1, initSock N s1 w1) else (s1, w1))"

definition CreateTCP :: "Address \<Rightarrow> socket" where
  "CreateTCP address = new_Socket (uint (getFamily address)) SOCK_STREAM 0"

definition CreateUDP :: "'w net \<Rightarrow> Address \<Rightarrow> 'w \<Rightarrow> socket \<times> 'w" where
  "CreateUDP N address w =
     (case newSock N (new_Socket (uint (getFamily address)) SOCK_DGRAM 0) w of (s, w1) \<Rightarrow> (s\<lparr>sk_isConnected := True\<rparr>, w1))"

definition CreateTCPSocket :: socket where "CreateTCPSocket = new_Socket (uint AF_INET) SOCK_STREAM 0"
definition CreateTCPSocket6 :: socket where "CreateTCPSocket6 = new_Socket (uint AF_INET6) SOCK_STREAM 0"
definition CreateUnixTCPSocket :: socket where "CreateUnixTCPSocket = new_Socket (uint AF_UNIX) SOCK_STREAM 0"
definition CreateUnixUDPSocket :: socket where "CreateUnixUDPSocket = new_Socket (uint AF_UNIX) SOCK_DGRAM 0"

definition CreateUDPSocket :: "'w net \<Rightarrow> 'w \<Rightarrow> socket \<times> 'w" where
  "CreateUDPSocket N w = (case newSock N (new_Socket (uint AF_INET) SOCK_DGRAM 0) w of (s, w1) \<Rightarrow> (s\<lparr>sk_isConnected := True\<rparr>, w1))"

definition CreateUDPSocket6 :: "'w net \<Rightarrow> 'w \<Rightarrow> socket \<times> 'w" where
  "CreateUDPSocket6 N w = (case newSock N (new_Socket (uint AF_INET6) SOCK_DGRAM 0) w of (s, w1) \<Rightarrow> (s\<lparr>sk_isConnected := True\<rparr>, w1))"

text \<open>
  The addresses. getpeername and getsockname store bytes over the structure of a fresh address and
  give its length, which only a Unix address keeps.
\<close>

definition fresh_address :: "int \<Rightarrow> Address" where
  "fresh_address family =
     (if family = uint AF_INET then IPv4Address (IPv4Address_of 0 0)
      else if family = uint AF_INET6 then IPv6Address IPv6Address_new
      else if family = uint AF_UNIX then UnixAddress_new
      else UnknownAddress_of (word_of_int family))"

definition as_un :: "u8 list \<Rightarrow> sockaddr_un" where
  "as_un m = \<lparr>sun_family = word_of_bytes (take 2 m), sun_path = drop 2 m\<rparr>"

fun store_bytes :: "u8 list \<Rightarrow> Address \<Rightarrow> Address" where
  "store_bytes bs (IPv4Address a) = IPv4Address (as_in (splice_at (in_bytes a) 0 bs))"
| "store_bytes bs (IPv6Address a) = IPv6Address (as_in6 (splice_at (in6_bytes a) 0 bs))"
| "store_bytes bs (UnixAddress a len) = UnixAddress (as_un (splice_at (un_bytes a) 0 bs)) len"
| "store_bytes bs (UnknownAddress a) = UnknownAddress (as_sockaddr (splice_at (sa_bytes a) 0 bs))"

definition ask_address :: "(int \<Rightarrow> nat \<Rightarrow> 'w \<Rightarrow> (u8 list \<times> nat) option) \<Rightarrow> 'z socket_scheme \<Rightarrow> 'w \<Rightarrow> Address option" where
  "ask_address f s w =
     (let result = fresh_address (sk_family s) in
      case f (sk_sock s) (getAddrLen result) w of
        None \<Rightarrow> None
      | Some (bs, addrlen) \<Rightarrow>
          Some (if sk_family s = uint AF_UNIX then setAddrLen (word_of_nat addrlen) (store_bytes bs result) else store_bytes bs result))"

definition getRemoteAddress :: "'w net \<Rightarrow> 'z socket_scheme \<Rightarrow> 'w \<Rightarrow> Address \<times> 'z socket_scheme" where
  "getRemoteAddress N s w =
     (case sk_remoteAddress s of
        Some a \<Rightarrow> (a, s)
      | None \<Rightarrow> (case ask_address (net_getpeername N) s w of
            None \<Rightarrow> (UnknownAddress_of (word_of_int (sk_family s)), s)
          | Some a \<Rightarrow> (a, s\<lparr>sk_remoteAddress := Some a\<rparr>)))"

definition getLocalAddress :: "'w net \<Rightarrow> 'z socket_scheme \<Rightarrow> 'w \<Rightarrow> Address \<times> 'z socket_scheme" where
  "getLocalAddress N s w =
     (case sk_localAddress s of
        Some a \<Rightarrow> (a, s)
      | None \<Rightarrow> (case ask_address (net_getsockname N) s w of
            None \<Rightarrow> (UnknownAddress_of (word_of_int (sk_family s)), s)
          | Some a \<Rightarrow> (a, s\<lparr>sk_localAddress := Some a\<rparr>)))"

text \<open>Opening, connecting and closing. Results are the value of the call, the object and the world.\<close>

definition sk_close :: "'w net \<Rightarrow> 'z socket_scheme \<Rightarrow> 'w \<Rightarrow> bool \<times> 'z socket_scheme \<times> 'w" where
  "sk_close N s w =
     (if \<not> sk_isConnected s \<and> sk_sock s = - 1 then (True, s, w)
      else let s1 = s\<lparr>sk_isConnected := False\<rparr> in
        if sk_sock s \<noteq> - 1 then (False, s1\<lparr>sk_sock := - 1\<rparr>, snd (net_close N (sk_sock s) w)) else (False, s1, w))"

text \<open>The destructor closes; the object is gone.\<close>

definition destroy :: "'w net \<Rightarrow> 'z socket_scheme \<Rightarrow> 'w \<Rightarrow> 'w" where
  "destroy N s w = snd (snd (sk_close N s w))"

definition sk_connect :: "'w net \<Rightarrow> Address \<Rightarrow> u64 \<Rightarrow> 'z socket_scheme \<Rightarrow> 'w \<Rightarrow> bool \<times> 'z socket_scheme \<times> 'w" where
  "sk_connect N addr timeout_ms s w =
     (let s0 = s\<lparr>sk_remoteAddress := Some addr\<rparr>; (s1, w1) = (if \<not> sk_isValid s0 then newSock N s0 w else (s0, w)) in
      if \<not> sk_isValid s1 then (False, s1, w1)
      else if uint (getFamily addr) \<noteq> sk_family s1 then (False, s1, w1)
      else let (r, w2) = (if timeout_ms = - 1 then net_connect N (sk_sock s1) (getAddr addr) (getAddrLen addr) w1
                          else net_connect_with_timeout N (sk_sock s1) (getAddr addr) (getAddrLen addr) timeout_ms w1) in
        if r \<noteq> 0 then (let (_, s2, w3) = sk_close N s1 w2 in (False, s2, w3))
        else (True, snd (getLocalAddress N (snd (getRemoteAddress N (s1\<lparr>sk_isConnected := True\<rparr>) w2)) w2), w2))"

definition reconnect :: "'w net \<Rightarrow> u64 \<Rightarrow> 'z socket_scheme \<Rightarrow> 'w \<Rightarrow> bool \<times> 'z socket_scheme \<times> 'w" where
  "reconnect N timeout_ms s w =
     (case sk_remoteAddress s of
        None \<Rightarrow> (False, s, w)
      | Some a \<Rightarrow> sk_connect N a timeout_ms (s\<lparr>sk_localAddress := None\<rparr>) w)"

text \<open>A Unix address is probed with a socket of its own; a file nobody listens on is removed.\<close>

definition probe_unix :: "'w net \<Rightarrow> Address \<Rightarrow> 'w \<Rightarrow> bool \<times> 'w" where
  "probe_unix N addr w =
     (case addr of
        UnixAddress a len \<Rightarrow>
          (case sk_connect N addr (- 1) CreateUnixTCPSocket w of (ok, sock, w1) \<Rightarrow>
             if ok then (True, destroy N sock w1) else (False, destroy N sock (net_unlink N (unix_getPath a len) w1)))
      | _ \<Rightarrow> (False, w))"

definition sk_bind :: "'w net \<Rightarrow> Address \<Rightarrow> 'z socket_scheme \<Rightarrow> 'w \<Rightarrow> bool \<times> 'z socket_scheme \<times> 'w" where
  "sk_bind N addr s w =
     (let (s1, w1) = (if \<not> sk_isValid s then newSock N s w else (s, w)) in
      if \<not> sk_isValid s1 then (False, s1, w1)
      else if uint (getFamily addr) \<noteq> sk_family s1 then (False, s1, w1)
      else let (busy, w2) = probe_unix N addr w1 in
        if busy then (False, s1, w2)
        else case net_bind N (sk_sock s1) (getAddr addr) (getAddrLen addr) w2 of (r, w3) \<Rightarrow>
          if r \<noteq> 0 then (False, s1, w3) else (True, snd (getLocalAddress N s1 w3), w3))"

definition sk_listen :: "'w net \<Rightarrow> int \<Rightarrow> 'z socket_scheme \<Rightarrow> 'w \<Rightarrow> bool \<times> 'w" where
  "sk_listen N backlog s w =
     (if \<not> sk_isValid s then (False, w) else case net_listen N (sk_sock s) backlog w of (r, w1) \<Rightarrow> (r = 0, w1))"

definition sk_init :: "'w net \<Rightarrow> int \<Rightarrow> 'z socket_scheme \<Rightarrow> 'w \<Rightarrow> bool \<times> 'z socket_scheme \<times> 'w" where
  "sk_init N sock s w =
     (case net_fdctx N sock w of
        Some ctx \<Rightarrow>
          if m_isSocket ctx \<and> \<not> m_isClosed ctx then
            (let s1 = s\<lparr>sk_sock := sock, sk_isConnected := True\<rparr>; w1 = initSock N s1 w in
             (True, snd (getRemoteAddress N (snd (getLocalAddress N s1 w1)) w1), w1))
          else (False, s, w)
      | None \<Rightarrow> (False, s, w))"

text \<open>\<open>None\<close> is the null pointer; the object made before the call is then destroyed.\<close>

definition sk_accept :: "'w net \<Rightarrow> 'z socket_scheme \<Rightarrow> 'w \<Rightarrow> socket option \<times> 'w" where
  "sk_accept N s w =
     (let sock = new_Socket (sk_family s) (sk_type s) (sk_protocol s) in
      case net_accept N (sk_sock s) w of (newsock, w1) \<Rightarrow>
        if newsock = - 1 then (None, destroy N sock w1)
        else case sk_init N newsock sock w1 of (ok, sock1, w2) \<Rightarrow>
          if ok then (Some sock1, w2) else (None, destroy N sock1 w2))"

text \<open>Sending and receiving: only when the object counts as connected.\<close>

definition sk_send :: "'w net \<Rightarrow> u8 list \<Rightarrow> int \<Rightarrow> 'z socket_scheme \<Rightarrow> 'w \<Rightarrow> int \<times> 'w" where
  "sk_send N buffer flags s w = (if sk_isConnected s then net_send N (sk_sock s) buffer flags w else (- 1, w))"

definition sk_send_iov :: "'w net \<Rightarrow> u8 list list \<Rightarrow> int \<Rightarrow> 'z socket_scheme \<Rightarrow> 'w \<Rightarrow> int \<times> 'w" where
  "sk_send_iov N buffers flags s w = (if sk_isConnected s then net_sendmsg N (sk_sock s) buffers None flags w else (- 1, w))"

definition sk_sendTo :: "'w net \<Rightarrow> u8 list \<Rightarrow> Address \<Rightarrow> int \<Rightarrow> 'z socket_scheme \<Rightarrow> 'w \<Rightarrow> int \<times> 'w" where
  "sk_sendTo N buffer to flags s w =
     (if sk_isConnected s then net_sendto N (sk_sock s) buffer flags (getAddr to) (getAddrLen to) w else (- 1, w))"

definition sk_sendTo_iov :: "'w net \<Rightarrow> u8 list list \<Rightarrow> Address \<Rightarrow> int \<Rightarrow> 'z socket_scheme \<Rightarrow> 'w \<Rightarrow> int \<times> 'w" where
  "sk_sendTo_iov N buffers to flags s w =
     (if sk_isConnected s then net_sendmsg N (sk_sock s) buffers (Some (getAddr to, getAddrLen to)) flags w else (- 1, w))"

definition sk_recv :: "'w net \<Rightarrow> nat \<Rightarrow> int \<Rightarrow> 'z socket_scheme \<Rightarrow> 'w \<Rightarrow> int \<times> u8 list \<times> 'w" where
  "sk_recv N len flags s w = (if sk_isConnected s then net_recv N (sk_sock s) len flags w else (- 1, [], w))"

definition sk_recv_iov :: "'w net \<Rightarrow> nat list \<Rightarrow> int \<Rightarrow> 'z socket_scheme \<Rightarrow> 'w \<Rightarrow> int \<times> u8 list \<times> 'w" where
  "sk_recv_iov N lens flags s w =
     (if sk_isConnected s then (case net_recvmsg N (sk_sock s) lens flags w of (r, bs, _, w1) \<Rightarrow> (r, bs, w1)) else (- 1, [], w))"

text \<open>The sender's address is stored over the structure of the object the caller passes.\<close>

definition sk_recvFrom :: "'w net \<Rightarrow> nat \<Rightarrow> Address \<Rightarrow> int \<Rightarrow> 'z socket_scheme \<Rightarrow> 'w \<Rightarrow> int \<times> u8 list \<times> Address \<times> 'w" where
  "sk_recvFrom N len from flags s w =
     (if sk_isConnected s
      then (case net_recvfrom N (sk_sock s) len flags (getAddrLen from) w of (r, bs, a, w1) \<Rightarrow> (r, bs, store_bytes a from, w1))
      else (- 1, [], from, w))"

definition sk_recvFrom_iov :: "'w net \<Rightarrow> nat list \<Rightarrow> Address \<Rightarrow> int \<Rightarrow> 'z socket_scheme \<Rightarrow> 'w \<Rightarrow> int \<times> u8 list \<times> Address \<times> 'w" where
  "sk_recvFrom_iov N lens from flags s w =
     (if sk_isConnected s
      then (case net_recvmsg N (sk_sock s) lens flags w of (r, bs, a, w1) \<Rightarrow> (r, bs, store_bytes a from, w1))
      else (- 1, [], from, w))"

definition getError :: "'w net \<Rightarrow> 'z socket_scheme \<Rightarrow> 'w \<Rightarrow> int \<times> 'w" where
  "getError N s w = (case getOption N SOL_SOCKET SO_ERROR s w of (ok, v, w1) \<Rightarrow> (if ok then v else net_errno N w1, w1))"

text \<open>The text of a socket; \<open>name\<close> is that of the class.\<close>

definition int_text :: "int \<Rightarrow> string" where
  "int_text n = (if n < 0 then ''-'' @ dec_string (nat (- n)) else dec_string (nat n))"

definition dump_as :: "string \<Rightarrow> 'z socket_scheme \<Rightarrow> string" where
  "dump_as name s = ''['' @ name @ '' sock='' @ int_text (sk_sock s) @ '' is_connected='' @ (if sk_isConnected s then ''1'' else ''0'')
     @ '' family='' @ int_text (sk_family s) @ '' type='' @ int_text (sk_type s) @ '' protocol='' @ int_text (sk_protocol s)
     @ (case sk_localAddress s of Some a \<Rightarrow> '' local_address='' @ address_insert a | None \<Rightarrow> [])
     @ (case sk_remoteAddress s of Some a \<Rightarrow> '' remote_address='' @ address_insert a | None \<Rightarrow> []) @ '']''"

definition sk_dump :: "socket \<Rightarrow> string" where
  "sk_dump = dump_as ''Socket''"

text \<open>
  Timeouts and cancelling go to the hook of setsockopt, to the table of descriptors and to the IO manager.
  The fields of the timeval are computed as int.
\<close>

definition timeval_of :: "i64 \<Rightarrow> i64 \<times> i64" where
  "timeval_of v = (scast (word_of_int (sint v sdiv 1000) :: i32), scast (word_of_int (sint v smod 1000 * 1000) :: i32))"

definition setRecvTimeout :: "'k sys \<Rightarrow> bool \<Rightarrow> i64 \<Rightarrow> 'z socket_scheme \<Rightarrow> ('u, 'k) hook_state \<Rightarrow> (hook_error, i32 \<times> ('u, 'k) hook_state) result" where
  "setRecvTimeout sys hook_enable v s st = (case timeval_of v of (sec, usec) \<Rightarrow> setsockopt sys hook_enable (sk_sock s) SOL_SOCKET SO_RCVTIMEO sec usec st)"

definition setSendTimeout :: "'k sys \<Rightarrow> bool \<Rightarrow> i64 \<Rightarrow> 'z socket_scheme \<Rightarrow> ('u, 'k) hook_state \<Rightarrow> (hook_error, i32 \<times> ('u, 'k) hook_state) result" where
  "setSendTimeout sys hook_enable v s st = (case timeval_of v of (sec, usec) \<Rightarrow> setsockopt sys hook_enable (sk_sock s) SOL_SOCKET SO_SNDTIMEO sec usec st)"

definition getRecvTimeout :: "'k sys \<Rightarrow> 'z socket_scheme \<Rightarrow> ('u, 'k) hook_state \<Rightarrow> (hook_error, i64) result" where
  "getRecvTimeout sys s st =
     rbind (lift_err HookFd (get_fd sys (sk_sock s) False (hs_fds st) (io_kernel (hs_io st)))) (\<lambda>(ctx, _, _).
       Inr (case ctx of Some c \<Rightarrow> getTimeout SO_RCVTIMEO c | None \<Rightarrow> - 1))"

definition getSendTimeout :: "'k sys \<Rightarrow> 'z socket_scheme \<Rightarrow> ('u, 'k) hook_state \<Rightarrow> (hook_error, i64) result" where
  "getSendTimeout sys s st =
     rbind (lift_err HookFd (get_fd sys (sk_sock s) False (hs_fds st) (io_kernel (hs_io st)))) (\<lambda>(ctx, _, _).
       Inr (case ctx of Some c \<Rightarrow> getTimeout SO_SNDTIMEO c | None \<Rightarrow> - 1))"

definition cancelRead :: "'k epoll_ctl \<Rightarrow> 'z socket_scheme \<Rightarrow> ('c, 'k) io_manager \<Rightarrow> (io_error, bool \<times> ('c, 'k) io_manager) result" where
  "cancelRead ctl s = cancelEvent ctl (sk_sock s) READ"

definition cancelWrite :: "'k epoll_ctl \<Rightarrow> 'z socket_scheme \<Rightarrow> ('c, 'k) io_manager \<Rightarrow> (io_error, bool \<times> ('c, 'k) io_manager) result" where
  "cancelWrite ctl s = cancelEvent ctl (sk_sock s) WRITE"

definition cancelAccept :: "'k epoll_ctl \<Rightarrow> 'z socket_scheme \<Rightarrow> ('c, 'k) io_manager \<Rightarrow> (io_error, bool \<times> ('c, 'k) io_manager) result" where
  "cancelAccept ctl s = cancelEvent ctl (sk_sock s) READ"

definition sk_cancelAll :: "'k epoll_ctl \<Rightarrow> 'z socket_scheme \<Rightarrow> ('c, 'k) io_manager \<Rightarrow> (io_error, bool \<times> ('c, 'k) io_manager) result" where
  "sk_cancelAll ctl s = cancelAll ctl (sk_sock s)"

section \<open>Sockets over OpenSSL\<close>

text \<open>
  OpenSSL: contexts and connections are handles, \<open>None\<close> the null pointer. The reference counts of the
  handles are those of std::shared_ptr and not part of the state.
\<close>

record 'w sslib =
  lib_ctx_new :: "bool \<Rightarrow> 'w \<Rightarrow> nat option \<times> 'w"
  lib_new :: "nat option \<Rightarrow> 'w \<Rightarrow> nat option \<times> 'w"
  lib_set_fd :: "nat option \<Rightarrow> int \<Rightarrow> 'w \<Rightarrow> 'w"
  lib_connect :: "nat option \<Rightarrow> 'w \<Rightarrow> int \<times> 'w"
  lib_accept :: "nat option \<Rightarrow> 'w \<Rightarrow> int \<times> 'w"
  lib_write :: "nat \<Rightarrow> u8 list \<Rightarrow> 'w \<Rightarrow> int \<times> 'w"
  lib_read :: "nat \<Rightarrow> nat \<Rightarrow> 'w \<Rightarrow> int \<times> u8 list \<times> 'w"
  lib_use_chain :: "nat option \<Rightarrow> string \<Rightarrow> 'w \<Rightarrow> int \<times> 'w"
  lib_use_key :: "nat option \<Rightarrow> string \<Rightarrow> 'w \<Rightarrow> int \<times> 'w"
  lib_check_key :: "nat option \<Rightarrow> 'w \<Rightarrow> int \<times> 'w"

record ssl_socket = socket +
  ss_ctx :: "nat option"
  ss_ssl :: "nat option"

datatype socket_error = SocketAssert

definition new_SSLSocket :: "int \<Rightarrow> int \<Rightarrow> int \<Rightarrow> ssl_socket" where
  "new_SSLSocket family type protocol = socket.extend (new_Socket family type protocol) \<lparr>ss_ctx = None, ss_ssl = None\<rparr>"

definition ssl_CreateTCP :: "Address \<Rightarrow> ssl_socket" where
  "ssl_CreateTCP address = new_SSLSocket (uint (getFamily address)) SOCK_STREAM 0"

definition ssl_CreateTCPSocket :: ssl_socket where "ssl_CreateTCPSocket = new_SSLSocket (uint AF_INET) SOCK_STREAM 0"
definition ssl_CreateTCPSocket6 :: ssl_socket where "ssl_CreateTCPSocket6 = new_SSLSocket (uint AF_INET6) SOCK_STREAM 0"

definition ssl_init :: "'w net \<Rightarrow> 'w sslib \<Rightarrow> int \<Rightarrow> ssl_socket \<Rightarrow> 'w \<Rightarrow> bool \<times> ssl_socket \<times> 'w" where
  "ssl_init N L sock s w =
     (case sk_init N sock s w of (v, s1, w1) \<Rightarrow>
      if v then
        (let (h, w2) = lib_new L (ss_ctx s1) w1; s2 = s1\<lparr>ss_ssl := h\<rparr>; (r, w3) = lib_accept L h (lib_set_fd L h (sk_sock s2) w2)
         in (r = 1, s2, w3))
      else (False, s1, w1))"

definition ssl_accept :: "'w net \<Rightarrow> 'w sslib \<Rightarrow> ssl_socket \<Rightarrow> 'w \<Rightarrow> ssl_socket option \<times> 'w" where
  "ssl_accept N L s w =
     (let sock = new_SSLSocket (sk_family s) (sk_type s) (sk_protocol s) in
      case net_accept N (sk_sock s) w of (newsock, w1) \<Rightarrow>
        if newsock = - 1 then (None, destroy N sock w1)
        else case ssl_init N L newsock (sock\<lparr>ss_ctx := ss_ctx s\<rparr>) w1 of (ok, sock1, w2) \<Rightarrow>
          if ok then (Some sock1, w2) else (None, destroy N sock1 w2))"

definition ssl_connect :: "'w net \<Rightarrow> 'w sslib \<Rightarrow> Address \<Rightarrow> u64 \<Rightarrow> ssl_socket \<Rightarrow> 'w \<Rightarrow> bool \<times> ssl_socket \<times> 'w" where
  "ssl_connect N L addr timeout_ms s w =
     (case sk_connect N addr timeout_ms s w of (v, s1, w1) \<Rightarrow>
      if v then
        (let (c, w2) = lib_ctx_new L False w1; (h, w3) = lib_new L c w2; s2 = s1\<lparr>ss_ctx := c, ss_ssl := h\<rparr>;
             (r, w4) = lib_connect L h (lib_set_fd L h (sk_sock s2) w3)
         in (r = 1, s2, w4))
      else (False, s1, w1))"

definition ssl_bind :: "'w net \<Rightarrow> Address \<Rightarrow> ssl_socket \<Rightarrow> 'w \<Rightarrow> bool \<times> ssl_socket \<times> 'w" where
  "ssl_bind = sk_bind"

definition ssl_listen :: "'w net \<Rightarrow> int \<Rightarrow> ssl_socket \<Rightarrow> 'w \<Rightarrow> bool \<times> 'w" where
  "ssl_listen = sk_listen"

definition ssl_close :: "'w net \<Rightarrow> ssl_socket \<Rightarrow> 'w \<Rightarrow> bool \<times> ssl_socket \<times> 'w" where
  "ssl_close = sk_close"

definition ssl_send :: "'w sslib \<Rightarrow> u8 list \<Rightarrow> ssl_socket \<Rightarrow> 'w \<Rightarrow> int \<times> 'w" where
  "ssl_send L buffer s w = (case ss_ssl s of Some h \<Rightarrow> lib_write L h buffer w | None \<Rightarrow> (- 1, w))"

text \<open>The loop over the buffers; \<open>(int)iov_len\<close> and the sum wrap at 32 bits.\<close>

fun ssl_write_all :: "'w sslib \<Rightarrow> nat \<Rightarrow> i32 \<Rightarrow> u8 list list \<Rightarrow> 'w \<Rightarrow> int \<times> 'w" where
  "ssl_write_all L h tot [] w = (sint tot, w)"
| "ssl_write_all L h tot (b # bs) w =
     (case lib_write L h b w of (tmp, w1) \<Rightarrow>
      if tmp \<le> 0 then (tmp, w1)
      else if tmp \<noteq> sint (word_of_nat (length b) :: i32) then (sint (tot + word_of_int tmp), w1)
      else ssl_write_all L h (tot + word_of_int tmp) bs w1)"

definition ssl_send_iov :: "'w sslib \<Rightarrow> u8 list list \<Rightarrow> ssl_socket \<Rightarrow> 'w \<Rightarrow> int \<times> 'w" where
  "ssl_send_iov L buffers s w = (case ss_ssl s of Some h \<Rightarrow> ssl_write_all L h 0 buffers w | None \<Rightarrow> (- 1, w))"

definition ssl_recv :: "'w sslib \<Rightarrow> nat \<Rightarrow> ssl_socket \<Rightarrow> 'w \<Rightarrow> int \<times> u8 list \<times> 'w" where
  "ssl_recv L len s w = (case ss_ssl s of Some h \<Rightarrow> lib_read L h len w | None \<Rightarrow> (- 1, [], w))"

text \<open>The bytes are those stored in each buffer.\<close>

fun ssl_read_all :: "'w sslib \<Rightarrow> nat \<Rightarrow> i32 \<Rightarrow> nat list \<Rightarrow> 'w \<Rightarrow> int \<times> u8 list list \<times> 'w" where
  "ssl_read_all L h tot [] w = (sint tot, [], w)"
| "ssl_read_all L h tot (len # lens) w =
     (case lib_read L h len w of (tmp, bs, w1) \<Rightarrow>
      if tmp \<le> 0 then (tmp, [bs], w1)
      else if tmp \<noteq> sint (word_of_nat len :: i32) then (sint (tot + word_of_int tmp), [bs], w1)
      else (case ssl_read_all L h (tot + word_of_int tmp) lens w1 of (r, bss, w2) \<Rightarrow> (r, bs # bss, w2)))"

definition ssl_recv_iov :: "'w sslib \<Rightarrow> nat list \<Rightarrow> ssl_socket \<Rightarrow> 'w \<Rightarrow> int \<times> u8 list list \<times> 'w" where
  "ssl_recv_iov L lens s w = (case ss_ssl s of Some h \<Rightarrow> ssl_read_all L h 0 lens w | None \<Rightarrow> (- 1, [], w))"

text \<open>Datagrams are a failed ASSERT.\<close>

definition ssl_sendTo :: "u8 list list \<Rightarrow> Address \<Rightarrow> ssl_socket \<Rightarrow> (socket_error, int) result" where
  "ssl_sendTo buffers to s = Inl SocketAssert"

definition ssl_recvFrom :: "nat list \<Rightarrow> Address \<Rightarrow> ssl_socket \<Rightarrow> (socket_error, int) result" where
  "ssl_recvFrom lens from s = Inl SocketAssert"

definition ssl_loadCertificates :: "'w sslib \<Rightarrow> string \<Rightarrow> string \<Rightarrow> ssl_socket \<Rightarrow> 'w \<Rightarrow> bool \<times> ssl_socket \<times> 'w" where
  "ssl_loadCertificates L cert_file key_file s w =
     (let (c, w1) = lib_ctx_new L True w; s1 = s\<lparr>ss_ctx := c\<rparr>; (r1, w2) = lib_use_chain L c cert_file w1 in
      if r1 \<noteq> 1 then (False, s1, w2)
      else let (r2, w3) = lib_use_key L c key_file w2 in
        if r2 \<noteq> 1 then (False, s1, w3) else let (r3, w4) = lib_check_key L c w3 in (r3 = 1, s1, w4))"

definition ssl_dump :: "ssl_socket \<Rightarrow> string" where
  "ssl_dump = dump_as ''SSLSocket''"

section \<open>Virtual calls\<close>

text \<open>What a \<open>Socket::ptr\<close> points to, and the calls through it.\<close>

datatype sockobj = Plain socket | Ssl ssl_socket

fun base_of :: "sockobj \<Rightarrow> socket" where
  "base_of (Plain s) = s"
| "base_of (Ssl s) = socket.truncate s"

fun v_bind :: "'w net \<Rightarrow> Address \<Rightarrow> sockobj \<Rightarrow> 'w \<Rightarrow> bool \<times> sockobj \<times> 'w" where
  "v_bind N addr (Plain s) w = (case sk_bind N addr s w of (r, s1, w1) \<Rightarrow> (r, Plain s1, w1))"
| "v_bind N addr (Ssl s) w = (case ssl_bind N addr s w of (r, s1, w1) \<Rightarrow> (r, Ssl s1, w1))"

fun v_listen :: "'w net \<Rightarrow> int \<Rightarrow> sockobj \<Rightarrow> 'w \<Rightarrow> bool \<times> 'w" where
  "v_listen N backlog (Plain s) w = sk_listen N backlog s w"
| "v_listen N backlog (Ssl s) w = ssl_listen N backlog s w"

fun v_connect :: "'w net \<Rightarrow> 'w sslib \<Rightarrow> Address \<Rightarrow> u64 \<Rightarrow> sockobj \<Rightarrow> 'w \<Rightarrow> bool \<times> sockobj \<times> 'w" where
  "v_connect N L addr t (Plain s) w = (case sk_connect N addr t s w of (r, s1, w1) \<Rightarrow> (r, Plain s1, w1))"
| "v_connect N L addr t (Ssl s) w = (case ssl_connect N L addr t s w of (r, s1, w1) \<Rightarrow> (r, Ssl s1, w1))"

text \<open>reconnect is not overridden: it calls the virtual connect.\<close>

fun reset_local :: "sockobj \<Rightarrow> sockobj" where
  "reset_local (Plain s) = Plain (s\<lparr>sk_localAddress := None\<rparr>)"
| "reset_local (Ssl s) = Ssl (s\<lparr>sk_localAddress := None\<rparr>)"

definition v_reconnect :: "'w net \<Rightarrow> 'w sslib \<Rightarrow> u64 \<Rightarrow> sockobj \<Rightarrow> 'w \<Rightarrow> bool \<times> sockobj \<times> 'w" where
  "v_reconnect N L t x w =
     (case sk_remoteAddress (base_of x) of None \<Rightarrow> (False, x, w) | Some a \<Rightarrow> v_connect N L a t (reset_local x) w)"

fun v_accept :: "'w net \<Rightarrow> 'w sslib \<Rightarrow> sockobj \<Rightarrow> 'w \<Rightarrow> sockobj option \<times> 'w" where
  "v_accept N L (Plain s) w = (case sk_accept N s w of (r, w1) \<Rightarrow> (map_option Plain r, w1))"
| "v_accept N L (Ssl s) w = (case ssl_accept N L s w of (r, w1) \<Rightarrow> (map_option Ssl r, w1))"

fun v_close :: "'w net \<Rightarrow> sockobj \<Rightarrow> 'w \<Rightarrow> bool \<times> sockobj \<times> 'w" where
  "v_close N (Plain s) w = (case sk_close N s w of (r, s1, w1) \<Rightarrow> (r, Plain s1, w1))"
| "v_close N (Ssl s) w = (case ssl_close N s w of (r, s1, w1) \<Rightarrow> (r, Ssl s1, w1))"

fun v_destroy :: "'w net \<Rightarrow> sockobj \<Rightarrow> 'w \<Rightarrow> 'w" where
  "v_destroy N (Plain s) w = destroy N s w"
| "v_destroy N (Ssl s) w = destroy N s w"

fun v_send :: "'w net \<Rightarrow> 'w sslib \<Rightarrow> u8 list \<Rightarrow> int \<Rightarrow> sockobj \<Rightarrow> 'w \<Rightarrow> int \<times> 'w" where
  "v_send N L buffer flags (Plain s) w = sk_send N buffer flags s w"
| "v_send N L buffer flags (Ssl s) w = ssl_send L buffer s w"

fun v_recv :: "'w net \<Rightarrow> 'w sslib \<Rightarrow> nat \<Rightarrow> int \<Rightarrow> sockobj \<Rightarrow> 'w \<Rightarrow> int \<times> u8 list \<times> 'w" where
  "v_recv N L len flags (Plain s) w = sk_recv N len flags s w"
| "v_recv N L len flags (Ssl s) w = ssl_recv L len s w"

fun v_dump :: "sockobj \<Rightarrow> string" where
  "v_dump (Plain s) = sk_dump s"
| "v_dump (Ssl s) = ssl_dump s"

end
