(* ===== verification/SocketOwner.thy ===== *)
theory SocketOwner
  imports Socket
begin

text \<open>
  Who owns a descriptor. A program is a history of calls on socket objects of both classes; \<open>owns w\<close> is
  the set of open descriptors of the process in the world \<open>w\<close>. Each call on an object changes only what
  the object holds (\<open>frame\<close>), so that over any history an open descriptor belongs to one object.
\<close>

section \<open>What the system promises\<close>

text \<open>A call that returns a descriptor returns a new one, which is then open.\<close>

definition opens :: "('w \<Rightarrow> int set) \<Rightarrow> int \<times> 'w \<Rightarrow> 'w \<Rightarrow> bool" where
  "opens owns p w \<longleftrightarrow> (if fst p = - 1 then owns (snd p) = owns w else fst p \<notin> owns w \<and> owns (snd p) = insert (fst p) (owns w))"

definition net_law :: "('w \<Rightarrow> int set) \<Rightarrow> 'w net \<Rightarrow> bool" where
  "net_law owns N \<longleftrightarrow>
     (\<forall>f t p w. opens owns (net_socket N f t p w) w) \<and> (\<forall>fd w. opens owns (net_accept N fd w) w)
     \<and> (\<forall>fd w. owns (snd (net_close N fd w)) = owns w - {fd})
     \<and> (\<forall>fd a l w. owns (snd (net_bind N fd a l w)) = owns w) \<and> (\<forall>fd a l w. owns (snd (net_connect N fd a l w)) = owns w)
     \<and> (\<forall>fd a l t w. owns (snd (net_connect_with_timeout N fd a l t w)) = owns w)
     \<and> (\<forall>fd b w. owns (snd (net_listen N fd b w)) = owns w) \<and> (\<forall>p w. owns (net_unlink N p w) = owns w)
     \<and> (\<forall>fd l opt v w. owns (snd (net_setsockopt N fd l opt v w)) = owns w)
     \<and> (\<forall>fd b fl w. owns (snd (net_send N fd b fl w)) = owns w) \<and> (\<forall>fd n fl w. owns (snd (snd (net_recv N fd n fl w))) = owns w)"

text \<open>The hooks put every descriptor that accept returns into the table.\<close>

definition accept_tracked :: "'w net \<Rightarrow> bool" where
  "accept_tracked N \<longleftrightarrow>
     (\<forall>fd w. fst (net_accept N fd w) \<noteq> - 1 \<longrightarrow>
        (case net_fdctx N (fst (net_accept N fd w)) (snd (net_accept N fd w)) of
           Some c \<Rightarrow> m_isSocket c \<and> \<not> m_isClosed c | None \<Rightarrow> False))"

text \<open>OpenSSL opens and closes no descriptor: SSL_set_fd leaves it to the caller.\<close>

definition ssl_law :: "('w \<Rightarrow> int set) \<Rightarrow> 'w sslib \<Rightarrow> bool" where
  "ssl_law owns L \<longleftrightarrow>
     (\<forall>b w. owns (snd (lib_ctx_new L b w)) = owns w) \<and> (\<forall>c w. owns (snd (lib_new L c w)) = owns w)
     \<and> (\<forall>h fd w. owns (lib_set_fd L h fd w) = owns w) \<and> (\<forall>h w. owns (snd (lib_connect L h w)) = owns w)
     \<and> (\<forall>h w. owns (snd (lib_accept L h w)) = owns w) \<and> (\<forall>h b w. owns (snd (lib_write L h b w)) = owns w)
     \<and> (\<forall>h n w. owns (snd (snd (lib_read L h n w))) = owns w) \<and> (\<forall>c p w. owns (snd (lib_use_chain L c p w)) = owns w)
     \<and> (\<forall>c p w. owns (snd (lib_use_key L c p w)) = owns w) \<and> (\<forall>c w. owns (snd (lib_check_key L c w)) = owns w)"

section \<open>Programs\<close>

datatype sock_op = NewTCP nat Address | NewUDP nat Address | NewSSL nat Address | BindTo nat Address | ListenOn nat int
  | ConnectTo nat Address u64 | Reconnect nat u64 | AcceptOn nat nat | LoadCert nat string string
  | SendOn nat "u8 list" int | RecvOn nat nat int | CloseIt nat | DestroyIt nat

type_synonym 'w sock_state = "(nat \<Rightarrow> sockobj option) \<times> 'w"

text \<open>A call on an object that is not there, or one that would reuse its name, does nothing.\<close>

definition on_obj :: "nat \<Rightarrow> (sockobj \<Rightarrow> 'w \<Rightarrow> sockobj option \<times> 'w) \<Rightarrow> 'w sock_state \<Rightarrow> 'w sock_state" where
  "on_obj i f = (\<lambda>(objs, w). case objs i of None \<Rightarrow> (objs, w) | Some x \<Rightarrow> (case f x w of (x1, w1) \<Rightarrow> (objs(i := x1), w1)))"

definition new_obj :: "nat \<Rightarrow> ('w \<Rightarrow> sockobj option \<times> 'w) \<Rightarrow> 'w sock_state \<Rightarrow> 'w sock_state" where
  "new_obj i f = (\<lambda>(objs, w). case objs i of Some _ \<Rightarrow> (objs, w) | None \<Rightarrow> (case f w of (x, w1) \<Rightarrow> (objs(i := x), w1)))"

fun load_obj :: "'w sslib \<Rightarrow> string \<Rightarrow> string \<Rightarrow> sockobj \<Rightarrow> 'w \<Rightarrow> sockobj option \<times> 'w" where
  "load_obj L c k (Plain s) w = (Some (Plain s), w)"
| "load_obj L c k (Ssl s) w = (case ssl_loadCertificates L c k s w of (_, s1, w1) \<Rightarrow> (Some (Ssl s1), w1))"

fun sock_exec :: "'w net \<Rightarrow> 'w sslib \<Rightarrow> sock_op \<Rightarrow> 'w sock_state \<Rightarrow> 'w sock_state" where
  "sock_exec N L (NewTCP i a) st = new_obj i (\<lambda>w. (Some (Plain (CreateTCP a)), w)) st"
| "sock_exec N L (NewUDP i a) st = new_obj i (\<lambda>w. case CreateUDP N a w of (s, w1) \<Rightarrow> (Some (Plain s), w1)) st"
| "sock_exec N L (NewSSL i a) st = new_obj i (\<lambda>w. (Some (Ssl (ssl_CreateTCP a)), w)) st"
| "sock_exec N L (BindTo i a) st = on_obj i (\<lambda>x w. case v_bind N a x w of (_, x1, w1) \<Rightarrow> (Some x1, w1)) st"
| "sock_exec N L (ListenOn i b) st = on_obj i (\<lambda>x w. (Some x, snd (v_listen N b x w))) st"
| "sock_exec N L (ConnectTo i a t) st = on_obj i (\<lambda>x w. case v_connect N L a t x w of (_, x1, w1) \<Rightarrow> (Some x1, w1)) st"
| "sock_exec N L (Reconnect i t) st = on_obj i (\<lambda>x w. case v_reconnect N L t x w of (_, x1, w1) \<Rightarrow> (Some x1, w1)) st"
| "sock_exec N L (AcceptOn i j) st = (case fst st i of None \<Rightarrow> st | Some x \<Rightarrow> new_obj j (v_accept N L x) st)"
| "sock_exec N L (LoadCert i c k) st = on_obj i (load_obj L c k) st"
| "sock_exec N L (SendOn i b fl) st = on_obj i (\<lambda>x w. (Some x, snd (v_send N L b fl x w))) st"
| "sock_exec N L (RecvOn i n fl) st = on_obj i (\<lambda>x w. (Some x, snd (snd (v_recv N L n fl x w)))) st"
| "sock_exec N L (CloseIt i) st = on_obj i (\<lambda>x w. case v_close N x w of (_, x1, w1) \<Rightarrow> (Some x1, w1)) st"
| "sock_exec N L (DestroyIt i) st = on_obj i (\<lambda>x w. (None, v_destroy N x w)) st"

section \<open>Frames\<close>

definition fd_of :: "'z socket_scheme \<Rightarrow> int set" where
  "fd_of s = {sk_sock s} - {- 1}"

text \<open>A call on an object that held \<open>D\<close> leaves it with \<open>D'\<close>, and all other open descriptors as they were.\<close>

definition frame :: "('w \<Rightarrow> int set) \<Rightarrow> int set \<Rightarrow> 'w \<Rightarrow> int set \<Rightarrow> 'w \<Rightarrow> bool" where
  "frame owns D w D' w' \<longleftrightarrow> (D \<subseteq> owns w \<longrightarrow> D' \<subseteq> owns w' \<and> owns w' - D' = owns w - D)"

lemma frame_same: "owns w' = owns w \<Longrightarrow> frame owns D w D w'"
  by (simp add: frame_def)

lemma frame_trans: "frame owns D w D1 w1 \<Longrightarrow> frame owns D1 w1 D2 w2 \<Longrightarrow> frame owns D w D2 w2"
  by (simp add: frame_def)

lemma frame_world: "frame owns D w D1 w1 \<Longrightarrow> owns w2 = owns w1 \<Longrightarrow> frame owns D w D1 w2"
  by (simp add: frame_def)

lemma frame_open: "opens owns p w \<Longrightarrow> frame owns {} w ({fst p} - {- 1}) (snd p)"
  by (auto simp: frame_def opens_def split: if_splits)

lemma net_keeps:
  assumes "net_law owns N"
  shows "opens owns (net_socket N f t p w) w" "opens owns (net_accept N fd w) w" "owns (snd (net_close N fd w)) = owns w - {fd}"
    "owns (snd (net_bind N fd a l w)) = owns w" "owns (snd (net_connect N fd a l w)) = owns w"
    "owns (snd (net_connect_with_timeout N fd a l t' w)) = owns w" "owns (snd (net_listen N fd b w)) = owns w"
    "owns (net_unlink N path w) = owns w" "owns (snd (net_setsockopt N fd lv opt v w)) = owns w"
    "owns (snd (net_send N fd bs fl w)) = owns w" "owns (snd (snd (net_recv N fd n fl w))) = owns w"
  using assms by (simp_all add: net_law_def)

lemma ssl_keeps:
  assumes "ssl_law owns L"
  shows "owns (snd (lib_ctx_new L b w)) = owns w" "owns (snd (lib_new L c w)) = owns w" "owns (lib_set_fd L h fd w) = owns w"
    "owns (snd (lib_connect L h w)) = owns w" "owns (snd (lib_accept L h w)) = owns w" "owns (snd (lib_write L h' bs w)) = owns w"
    "owns (snd (snd (lib_read L h' n w))) = owns w" "owns (snd (lib_use_chain L c p w)) = owns w"
    "owns (snd (lib_use_key L c p w)) = owns w" "owns (snd (lib_check_key L c w)) = owns w"
  using assms by (simp_all add: ssl_law_def)

lemma initSock_keeps: "net_law owns N \<Longrightarrow> owns (initSock N s w) = owns w"
  by (simp add: initSock_def setOption_def Let_def case_prod_unfold net_keeps)

lemma fd_of_addresses [simp]:
  "fd_of (snd (getRemoteAddress N s w)) = fd_of s" "fd_of (snd (getLocalAddress N s w)) = fd_of s"
  by (auto simp: fd_of_def getRemoteAddress_def getLocalAddress_def split: option.splits)

lemma fd_of_updates [simp]:
  "fd_of (s\<lparr>sk_isConnected := b\<rparr>) = fd_of s" "fd_of (s\<lparr>sk_remoteAddress := a\<rparr>) = fd_of s" "fd_of (s\<lparr>sk_localAddress := a\<rparr>) = fd_of s"
  "fd_of (new_Socket f t p) = {}" "fd_of (s\<lparr>sk_sock := n\<rparr>) = {n} - {- 1}"
  by (auto simp: fd_of_def new_Socket_def)

lemma fd_of_ssl [simp]:
  "fd_of (x\<lparr>ss_ctx := c\<rparr>) = fd_of x" "fd_of (x\<lparr>ss_ssl := h\<rparr>) = fd_of x" "fd_of (new_SSLSocket f t p) = {}" "fd_of (socket.truncate x) = fd_of x"
  by (auto simp: fd_of_def new_SSLSocket_def new_Socket_def socket.defs)

lemma newSock_frame:
  assumes "net_law owns N" and "\<not> sk_isValid s" and "newSock N s w = (s1, w1)"
  shows "frame owns (fd_of s) w (fd_of s1) w1"
proof -
  obtain fd w2 where p: "net_socket N (sk_family s) (sk_type s) (sk_protocol s) w = (fd, w2)" by fastforce
  have f: "frame owns {} w ({fd} - {- 1}) w2" using frame_open [OF net_keeps(1) [OF assms(1)]] p by (metis fst_conv snd_conv)
  have "fd_of s = {}" using assms(2) by (simp add: fd_of_def sk_isValid_def)
  then show ?thesis using assms(3) frame_world [OF f initSock_keeps [OF assms(1)]] f
    by (auto simp: newSock_def p Let_def split: if_splits)
qed

lemma close_frame:
  assumes "net_law owns N" and "sk_close N s w = (r, s1, w1)"
  shows "frame owns (fd_of s) w (fd_of s1) w1 \<and> fd_of s1 = {}"
  using assms(2) net_keeps(3) [OF assms(1)] by (auto simp: sk_close_def Let_def frame_def fd_of_def split: if_splits)

lemma destroy_frame: "net_law owns N \<Longrightarrow> frame owns (fd_of s) w {} (destroy N s w)"
  unfolding destroy_def using close_frame by (metis prod.collapse)

lemma open_frame:
  assumes "net_law owns N" and "(if \<not> sk_isValid s then newSock N s w else (s, w)) = (s1, w1)"
  shows "frame owns (fd_of s) w (fd_of s1) w1"
  using assms newSock_frame [OF assms(1)] frame_same [of owns w w] by (auto split: if_splits)

lemma connect_frame:
  assumes N: "net_law owns N" and "sk_connect N a t s w = (r, s1, w1)"
  shows "frame owns (fd_of s) w (fd_of s1) w1"
proof -
  let ?s0 = "s\<lparr>sk_remoteAddress := Some a\<rparr>"
  obtain s2 w2 where 2: "(if \<not> sk_isValid ?s0 then newSock N ?s0 w else (?s0, w)) = (s2, w2)" by fastforce
  have f: "frame owns (fd_of s) w (fd_of s2) w2" using open_frame [OF N 2] by simp
  obtain v w3 where 3: "(if t = - 1 then net_connect N (sk_sock s2) (getAddr a) (getAddrLen a) w2
       else net_connect_with_timeout N (sk_sock s2) (getAddr a) (getAddrLen a) t w2) = (v, w3)" by fastforce
  have f3: "frame owns (fd_of s) w (fd_of s2) w3"
    by (rule frame_world [OF f]) (use 3 net_keeps(5,6) [OF N] in \<open>metis snd_conv\<close>)
  show ?thesis
    using assms(2) f f3 frame_trans [OF f3] close_frame [OF N, of s2 w3]
    by (auto simp: sk_connect_def Let_def 2 3 split: if_splits prod.splits)
qed

lemma probe_keeps:
  assumes N: "net_law owns N"
  shows "owns (snd (probe_unix N a w)) = owns w"
proof (cases a)
  case (UnixAddress u len)
  obtain ok s1 w1 where c: "sk_connect N a (- 1) CreateUnixTCPSocket w = (ok, s1, w1)" by (metis prod_cases3)
  have f: "frame owns {} w (fd_of s1) w1" using connect_frame [OF N c] by (simp add: CreateUnixTCPSocket_def)
  have "frame owns {} w {} (snd (probe_unix N a w))"
    using frame_trans [OF f destroy_frame [OF N]] frame_trans [OF frame_world [OF f net_keeps(8) [OF N]] destroy_frame [OF N]]
    by (simp add: probe_unix_def UnixAddress c [unfolded UnixAddress])
  then show ?thesis by (simp add: frame_def)
qed (simp_all add: probe_unix_def)

lemma bind_frame:
  assumes N: "net_law owns N" and "sk_bind N a s w = (r, s1, w1)"
  shows "frame owns (fd_of s) w (fd_of s1) w1"
proof -
  obtain s2 w2 where 2: "(if \<not> sk_isValid s then newSock N s w else (s, w)) = (s2, w2)" by fastforce
  have f: "frame owns (fd_of s) w (fd_of s2) w2" by (rule open_frame [OF N 2])
  have g: "frame owns (fd_of s) w (fd_of s2) (snd (probe_unix N a w2))" by (rule frame_world [OF f probe_keeps [OF N]])
  have h: "frame owns (fd_of s) w (fd_of s2) (snd (net_bind N fd b l (snd (probe_unix N a w2))))" for fd b l
    by (rule frame_world [OF g net_keeps(4) [OF N]])
  show ?thesis using assms(2) f g h by (auto simp: sk_bind_def Let_def 2 case_prod_unfold split: if_splits)
qed

lemma init_frame:
  assumes N: "net_law owns N" and "fd_of s = {}" and "sk_init N fd s w = (r, s1, w1)"
  shows "owns w1 = owns w \<and> fd_of s1 = (if r then {fd} - {- 1} else {})"
  using assms(2,3) initSock_keeps [OF N] by (auto simp: sk_init_def Let_def split: option.splits if_splits)

lemma init_tracked:
  assumes "accept_tracked N" and "net_accept N lfd w = (fd, w1)" and "fd \<noteq> - 1"
  shows "fst (sk_init N fd s w1)"
proof -
  obtain c where "net_fdctx N fd w1 = Some c" "m_isSocket c" "\<not> m_isClosed c"
    using assms(1) [unfolded accept_tracked_def, rule_format, of lfd w] assms(2,3) by (auto split: option.splits)
  then show ?thesis by (simp add: sk_init_def Let_def)
qed

text \<open>What accept gives: nothing new is open, or the descriptor of the new object.\<close>

lemma accept_frame:
  assumes N: "net_law owns N" and T: "accept_tracked N" and "sk_accept N s w = (x, w1)"
  shows "frame owns {} w (case x of None \<Rightarrow> {} | Some s1 \<Rightarrow> fd_of s1) w1"
proof -
  let ?s = "new_Socket (sk_family s) (sk_type s) (sk_protocol s)"
  obtain fd w2 where p: "net_accept N (sk_sock s) w = (fd, w2)" by fastforce
  have f: "frame owns {} w ({fd} - {- 1}) w2" using frame_open [OF net_keeps(2) [OF N]] p by (metis fst_conv snd_conv)
  obtain ok s3 w3 where i: "sk_init N fd ?s w2 = (ok, s3, w3)" by (metis prod_cases3)
  have g: "owns w3 = owns w2" "fd_of s3 = (if ok then {fd} - {- 1} else {})" using init_frame [OF N _ i] by simp_all
  have ok: "fd \<noteq> - 1 \<Longrightarrow> ok" using init_tracked [OF T p, of ?s] i by simp
  have d: "fd = - 1 \<Longrightarrow> frame owns {} w {} (destroy N ?s w2)"
    using frame_trans [of owns "{}" w "{}" w2 "{}"] f destroy_frame [OF N, of ?s w2] by simp
  show ?thesis using assms(3) frame_world [OF f g(1)] g(2) ok d by (auto simp: sk_accept_def Let_def p i split: if_splits)
qed

text \<open>The same for the class over OpenSSL.\<close>

lemma ssl_init_frame:
  assumes N: "net_law owns N" and L: "ssl_law owns L" and "fd_of s = {}" and i: "ssl_init N L fd s w = (r, s1, w1)"
    and t: "fst (sk_init N fd s w)"
  shows "owns w1 = owns w \<and> fd_of s1 = {fd} - {- 1}"
proof -
  obtain s2 w2 where 2: "sk_init N fd s w = (True, s2, w2)" using t by (metis fst_conv prod.collapse)
  show ?thesis using i init_frame [OF N assms(3) 2] ssl_keeps [OF L] by (auto simp: ssl_init_def 2 Let_def case_prod_unfold)
qed

lemma ssl_accept_frame:
  assumes N: "net_law owns N" and T: "accept_tracked N" and L: "ssl_law owns L" and "ssl_accept N L s w = (x, w1)"
  shows "frame owns {} w (case x of None \<Rightarrow> {} | Some s1 \<Rightarrow> fd_of s1) w1"
proof -
  let ?s = "new_SSLSocket (sk_family s) (sk_type s) (sk_protocol s)"
  obtain fd w2 where p: "net_accept N (sk_sock s) w = (fd, w2)" by fastforce
  have f: "frame owns {} w ({fd} - {- 1}) w2" using frame_open [OF net_keeps(2) [OF N]] p by (metis fst_conv snd_conv)
  show ?thesis
  proof (cases "fd = - 1")
    case True
    then have "frame owns {} w {} (destroy N ?s w2)" using frame_trans [of owns "{}" w "{}" w2 "{}"] f destroy_frame [OF N, of ?s w2] by simp
    then show ?thesis using assms(4) True by (auto simp: ssl_accept_def Let_def p)
  next
    case False
    obtain ok s3 w3 where i: "ssl_init N L fd (?s\<lparr>ss_ctx := ss_ctx s\<rparr>) w2 = (ok, s3, w3)" by (metis prod_cases3)
    have g: "owns w3 = owns w2" "fd_of s3 = {fd} - {- 1}"
      using ssl_init_frame [OF N L _ i init_tracked [OF T p False]] by simp_all
    have h: "frame owns {} w (fd_of s3) w3" using frame_world [OF f g(1)] g(2) by simp
    show ?thesis using assms(4) False h frame_trans [OF h destroy_frame [OF N]] by (auto simp: ssl_accept_def Let_def p i split: if_splits)
  qed
qed

lemma ssl_connect_frame:
  assumes N: "net_law owns N" and L: "ssl_law owns L" and "ssl_connect N L a t s w = (r, s1, w1)"
  shows "frame owns (fd_of s) w (fd_of s1) w1"
proof -
  obtain ok s2 w2 where c: "sk_connect N a t s w = (ok, s2, w2)" by (metis prod_cases3)
  have f: "frame owns (fd_of s) w (fd_of s2) w2" by (rule connect_frame [OF N c])
  have "owns w1 = owns w2 \<and> fd_of s1 = fd_of s2"
    using assms(3) ssl_keeps [OF L] by (auto simp: ssl_connect_def c Let_def case_prod_unfold split: if_splits)
  then show ?thesis using frame_world [OF f] by simp
qed

section \<open>Objects\<close>

definition held :: "sockobj option \<Rightarrow> int set" where
  "held x = (case x of None \<Rightarrow> {} | Some y \<Rightarrow> fd_of (base_of y))"

lemma held_simps [simp]: "held None = {}" "held (Some (Plain s)) = fd_of s" "held (Some (Ssl z)) = fd_of z"
  by (simp_all add: held_def)

lemma v_bind_frame: "net_law owns N \<Longrightarrow> v_bind N a x w = (r, x1, w1) \<Longrightarrow> frame owns (held (Some x)) w (held (Some x1)) w1"
  by (cases x) (auto simp: ssl_bind_def dest: bind_frame split: prod.splits)

lemma v_connect_frame:
  "net_law owns N \<Longrightarrow> ssl_law owns L \<Longrightarrow> v_connect N L a t x w = (r, x1, w1) \<Longrightarrow> frame owns (held (Some x)) w (held (Some x1)) w1"
  by (cases x) (auto dest: connect_frame ssl_connect_frame split: prod.splits)

lemma v_reconnect_frame:
  assumes "net_law owns N" "ssl_law owns L" "v_reconnect N L t x w = (r, x1, w1)"
  shows "frame owns (held (Some x)) w (held (Some x1)) w1"
proof -
  have "held (Some (reset_local x)) = held (Some x)" by (cases x) simp_all
  then show ?thesis using assms(3) v_connect_frame [OF assms(1,2), where x = "reset_local x"]
    by (auto simp: v_reconnect_def frame_same split: option.splits)
qed

lemma v_accept_frame:
  assumes "net_law owns N" "accept_tracked N" "ssl_law owns L" "v_accept N L x w = (x1, w1)"
  shows "frame owns {} w (held x1) w1"
proof (cases x)
  case (Plain s)
  then obtain y where "sk_accept N s w = (y, w1)" "x1 = map_option Plain y" using assms(4) by (auto split: prod.splits)
  then show ?thesis using accept_frame [OF assms(1,2)] by (cases y) fastforce+
next
  case (Ssl z)
  then obtain y where "ssl_accept N L z w = (y, w1)" "x1 = map_option Ssl y" using assms(4) by (auto split: prod.splits)
  then show ?thesis using ssl_accept_frame [OF assms(1-3)] by (cases y) fastforce+
qed

lemma v_close_frame: "net_law owns N \<Longrightarrow> v_close N x w = (r, x1, w1) \<Longrightarrow> frame owns (held (Some x)) w (held (Some x1)) w1"
  by (cases x) (auto simp: ssl_close_def dest: close_frame split: prod.splits)

lemma v_destroy_frame: "net_law owns N \<Longrightarrow> frame owns (held (Some x)) w (held None) (v_destroy N x w)"
  by (cases x) (simp_all add: destroy_frame)

lemma v_keeps:
  assumes "net_law owns N" "ssl_law owns L"
  shows "owns (snd (v_listen N b x w)) = owns w" "owns (snd (v_send N L bs fl x w)) = owns w" "owns (snd (snd (v_recv N L n fl x w))) = owns w"
  by (cases x; simp add: ssl_listen_def sk_listen_def sk_send_def sk_recv_def ssl_send_def ssl_recv_def case_prod_unfold
      net_keeps [OF assms(1)] ssl_keeps [OF assms(2)] split: option.splits)+

lemma load_frame:
  assumes "ssl_law owns L" "load_obj L c k x w = (x1, w1)"
  shows "frame owns (held (Some x)) w (held x1) w1"
  using assms(2) ssl_keeps [OF assms(1)]
  by (cases x) (auto simp: ssl_loadCertificates_def Let_def case_prod_unfold frame_same split: if_splits)

definition own_ok :: "('w \<Rightarrow> int set) \<Rightarrow> int set \<Rightarrow> 'w sock_state \<Rightarrow> bool" where
  "own_ok owns base st \<longleftrightarrow> owns (snd st) = base \<union> (\<Union>i. held (fst st i)) \<and> (\<forall>i. held (fst st i) \<inter> base = {})
     \<and> (\<forall>i j. i \<noteq> j \<longrightarrow> held (fst st i) \<inter> held (fst st j) = {})"

lemma own_update:
  assumes ok: "own_ok owns base (objs, w)" and f: "frame owns (held (objs i)) w (held x) w1"
  shows "own_ok owns base (objs(i := x), w1)"
proof -
  have o: "owns w = base \<union> (\<Union>i. held (objs i))" "\<And>i. held (objs i) \<inter> base = {}" "\<And>i j. i \<noteq> j \<Longrightarrow> held (objs i) \<inter> held (objs j) = {}"
    using ok by (simp_all add: own_ok_def)
  have g: "held x \<subseteq> owns w1" "owns w1 - held x = owns w - held (objs i)" using f o(1) by (auto simp: frame_def)
  have rest: "owns w - held (objs i) = base \<union> (\<Union>j \<in> - {i}. held (objs j))" unfolding o(1) using o(2) o(3) by fastforce
  have "owns w1 = base \<union> (\<Union>j \<in> - {i}. held (objs j)) \<union> held x" using g rest by blast
  moreover have "held x \<inter> (base \<union> (\<Union>j \<in> - {i}. held (objs j))) = {}" using g(2) rest by blast
  ultimately show ?thesis using o(2,3) unfolding own_ok_def by (auto split: if_splits)
qed

lemma on_obj_ok:
  assumes "own_ok owns base st" and "\<And>x w x1 w1. f x w = (x1, w1) \<Longrightarrow> frame owns (held (Some x)) w (held x1) w1"
  shows "own_ok owns base (on_obj i f st)"
  using assms own_update [of owns base "fst st" "snd st" i]
  by (auto simp: on_obj_def case_prod_unfold split: option.splits)

lemma new_obj_ok:
  assumes "own_ok owns base st" and "\<And>w x1 w1. f w = (x1, w1) \<Longrightarrow> frame owns {} w (held x1) w1"
  shows "own_ok owns base (new_obj i f st)"
  using assms own_update [of owns base "fst st" "snd st" i]
  by (auto simp: new_obj_def case_prod_unfold split: option.splits)

lemma sock_exec_ok:
  assumes N: "net_law owns N" and T: "accept_tracked N" and L: "ssl_law owns L" and ok: "own_ok owns base st"
  shows "own_ok owns base (sock_exec N L op st)"
proof (cases op)
  case (NewTCP i a)
  then show ?thesis using ok by (auto intro!: new_obj_ok simp: CreateTCP_def frame_same)
next
  case (NewUDP i a)
  have "frame owns {} w (fd_of s) w1" if "CreateUDP N a w = (s, w1)" for w s w1
    using that newSock_frame [OF N, of "new_Socket (uint (getFamily a)) SOCK_DGRAM 0" w]
    by (auto simp: CreateUDP_def sk_isValid_def new_Socket_def [of _ _ 0] split: prod.splits) (auto simp: fd_of_def)
  then show ?thesis using ok NewUDP by (auto intro!: new_obj_ok split: prod.splits)
next
  case (NewSSL i a)
  then show ?thesis using ok by (auto intro!: new_obj_ok simp: ssl_CreateTCP_def frame_same)
next
  case (BindTo i a)
  then show ?thesis using ok by (auto intro!: on_obj_ok dest: v_bind_frame [OF N] split: prod.splits)
next
  case (ListenOn i b)
  then show ?thesis using ok by (auto intro!: on_obj_ok simp: frame_same v_keeps [OF N L])
next
  case (ConnectTo i a t)
  then show ?thesis using ok by (auto intro!: on_obj_ok dest: v_connect_frame [OF N L] split: prod.splits)
next
  case (Reconnect i t)
  then show ?thesis using ok by (auto intro!: on_obj_ok dest: v_reconnect_frame [OF N L] split: prod.splits)
next
  case (AcceptOn i j)
  then show ?thesis using ok by (auto intro!: new_obj_ok dest: v_accept_frame [OF N T L] split: option.splits)
next
  case (LoadCert i c k)
  then show ?thesis using ok by (auto intro!: on_obj_ok dest: load_frame [OF L])
next
  case (SendOn i b fl)
  then show ?thesis using ok by (auto intro!: on_obj_ok simp: frame_same v_keeps [OF N L])
next
  case (RecvOn i n fl)
  then show ?thesis using ok by (auto intro!: on_obj_ok simp: frame_same v_keeps [OF N L])
next
  case (CloseIt i)
  then show ?thesis using ok by (auto intro!: on_obj_ok dest: v_close_frame [OF N] split: prod.splits)
next
  case (DestroyIt i)
  then show ?thesis using ok v_destroy_frame [OF N] by (auto intro!: on_obj_ok)
qed

lemma sock_fold_ok:
  assumes "net_law owns N" "accept_tracked N" "ssl_law owns L"
  shows "own_ok owns base st \<Longrightarrow> own_ok owns base (fold (sock_exec N L) ops st)"
  by (induction ops arbitrary: st) (simp_all add: sock_exec_ok [OF assms])

lemma v_close_held: "v_close N x w = (r, x1, w1) \<Longrightarrow> held (Some x1) = {}"
  by (cases x) (auto simp: ssl_close_def sk_close_def Let_def fd_of_def split: prod.splits if_splits)

text \<open>A system for examples: the world lists the open descriptors.\<close>

definition fresh_fd :: "int list \<Rightarrow> int" where
  "fresh_fd w = 3 + foldr (\<lambda>x n. max x n) w 0"

lemma fresh_fd: "fresh_fd w \<notin> set w" "fresh_fd w \<noteq> - 1"
proof -
  have "x \<le> foldr (\<lambda>x n. max x n) w 0" if "x \<in> set w" for x using that by (induction w) auto
  moreover have "0 \<le> foldr (\<lambda>x n. max x n) w (0 :: int)" by (induction w) auto
  ultimately show "fresh_fd w \<notin> set w" "fresh_fd w \<noteq> - 1" unfolding fresh_fd_def by force+
qed

definition demo_ctx :: "int \<Rightarrow> fd_ctx" where
  "demo_ctx fd = \<lparr>m_isInit = True, m_isSocket = True, m_sysNonblock = True, m_userNonblock = False, m_isClosed = False, m_fd = fd,
     m_recvTimeout = - 1, m_sendTimeout = - 1\<rparr>"

definition demo_net :: "int list net" where
  "demo_net =
     \<lparr>net_socket = (\<lambda>f t p w. (fresh_fd w, fresh_fd w # w)), net_accept = (\<lambda>fd w. if fd = - 1 then (- 1, w) else (fresh_fd w, fresh_fd w # w)),
      net_bind = (\<lambda>fd a l w. (0, w)), net_connect = (\<lambda>fd a l w. (- 1, w)), net_connect_with_timeout = (\<lambda>fd a l t w. (- 1, w)),
      net_listen = (\<lambda>fd b w. (0, w)), net_close = (\<lambda>fd w. (0, filter (\<lambda>x. x \<noteq> fd) w)), net_getpeername = (\<lambda>fd n w. None),
      net_getsockname = (\<lambda>fd n w. None), net_getsockopt = (\<lambda>fd l opt w. (0, 0, w)), net_setsockopt = (\<lambda>fd l opt v w. (0, w)),
      net_errno = (\<lambda>w. 0), net_fdctx = (\<lambda>fd w. Some (demo_ctx fd)), net_unlink = (\<lambda>p w. w), net_send = (\<lambda>fd b fl w. (int (length b), w)),
      net_sendmsg = (\<lambda>fd b a fl w. (0, w)), net_sendto = (\<lambda>fd b fl a l w. (0, w)), net_recv = (\<lambda>fd n fl w. (0, [], w)),
      net_recvmsg = (\<lambda>fd ns fl w. (0, [], [], w)), net_recvfrom = (\<lambda>fd n fl l w. (0, [], [], w))\<rparr>"

definition demo_ssl :: "'w sslib" where
  "demo_ssl =
     \<lparr>lib_ctx_new = (\<lambda>b w. (Some 0, w)), lib_new = (\<lambda>c w. (Some 1, w)), lib_set_fd = (\<lambda>h fd w. w), lib_connect = (\<lambda>h w. (1, w)),
      lib_accept = (\<lambda>h w. (- 1, w)), lib_write = (\<lambda>h b w. (int (length b), w)), lib_read = (\<lambda>h n w. (0, [], w)),
      lib_use_chain = (\<lambda>c p w. (1, w)), lib_use_key = (\<lambda>c p w. (1, w)), lib_check_key = (\<lambda>c w. (1, w))\<rparr>"

lemma demo_net_laws: "net_law set demo_net" "accept_tracked demo_net" "ssl_law set demo_ssl"
  using fresh_fd by (auto simp: net_law_def accept_tracked_def ssl_law_def opens_def demo_net_def demo_ssl_def demo_ctx_def)

definition demo_address :: Address where
  "demo_address = IPv4Address (IPv4Address_of 0 80)"

text \<open>A server socket accepts two clients, one of them over OpenSSL without success, and is closed.\<close>

definition demo_ops :: "sock_op list" where
  "demo_ops = [NewTCP 0 demo_address, BindTo 0 demo_address, ListenOn 0 5, NewSSL 1 demo_address, BindTo 1 demo_address,
     AcceptOn 0 2, AcceptOn 1 3, ConnectTo 3 demo_address 10, CloseIt 0]"

text \<open>C31: Every open descriptor has one owner. Whatever calls create, bind, connect, accept, use, close and destroy
  sockets of both classes, the descriptors open afterwards are those open before and those the live
  objects hold, no two objects hold the same one, and none holds a descriptor that was open before;
  closing an object gives back exactly what it holds. No call leaks a descriptor, whether it succeeds or fails.\<close>

theorem sockets_own_descriptors:
  assumes "net_law owns N" and "accept_tracked N" and "ssl_law owns L"
    and "fold (sock_exec N L) ops (\<lambda>_. None, w0) = (objs, w)"
  shows "owns w = owns w0 \<union> (\<Union>i. held (objs i))
    \<and> (\<forall>i. held (objs i) \<inter> owns w0 = {}) \<and> (\<forall>i j. i \<noteq> j \<longrightarrow> held (objs i) \<inter> held (objs j) = {})
    \<and> owns (snd (sock_exec N L (CloseIt i) (objs, w))) = owns w - held (objs i)"
proof -
  have "own_ok owns (owns w0) (\<lambda>_. None, w0)" by (simp add: own_ok_def)
  then have ok: "own_ok owns (owns w0) (objs, w)" using sock_fold_ok [OF assms(1-3)] assms(4) by metis
  have c: "owns w1 = owns w - held (objs i)" if "objs i = Some x" "v_close N x w = (r, x1, w1)" for x r x1 w1
  proof -
    have "held (objs i) \<subseteq> owns w" using ok by (auto simp: own_ok_def)
    then show ?thesis using v_close_frame [OF assms(1) that(2)] v_close_held [OF that(2)] by (simp add: frame_def that(1))
  qed
  have "owns (snd (sock_exec N L (CloseIt i) (objs, w))) = owns w - held (objs i)"
    by (auto simp: on_obj_def c split: option.splits prod.splits)
  with ok show ?thesis by (simp add: own_ok_def)
qed

lemma demo_run: "snd (fold (sock_exec demo_net demo_ssl) demo_ops (\<lambda>_. None, [0, 1, 2])) = [11, 8, 0, 1, 2]"
  by code_simp

theorem sockets_own_descriptors_witness:
  "\<exists>objs :: nat \<Rightarrow> sockobj option. set [11, 8, 0, 1, 2] = set [0, 1, 2] \<union> (\<Union>i. held (objs i)) \<and> (\<forall>i j. i \<noteq> j \<longrightarrow> held (objs i) \<inter> held (objs j) = {})"
proof -
  let ?r = "fold (sock_exec demo_net demo_ssl) demo_ops (\<lambda>_. None, [0, 1, 2])"
  have o: "?r = (fst ?r, [11, 8, 0, 1, 2])" using demo_run by (simp only: prod_eq_iff fst_conv snd_conv)
  note c = sockets_own_descriptors [OF demo_net_laws o]
  show ?thesis by (rule exI [where x = "fst ?r"], rule conjI [OF c [THEN conjunct1] c [THEN conjunct2, THEN conjunct2, THEN conjunct1]])
qed

text \<open>
  Without the table the promise fails: where the descriptor has no context, as on a thread whose calls are not
  hooked, accept returns the null pointer and the descriptor stays open with no owner.
\<close>

text \<open>accept leaks a descriptor the table does not know. When the system accepts a connection and the
  table of descriptors has no context for it, accept returns the null pointer, and the descriptor,
  new and open, belongs to no object.\<close>

theorem accept_leaks_untracked:
  assumes "net_law owns N" and "net_accept N (sk_sock s) w = (fd, w1)" and "fd \<noteq> - 1" and "net_fdctx N fd w1 = None"
  shows "\<exists>w2. sk_accept N s w = (None, w2) \<and> fd \<notin> owns w \<and> owns w2 = insert fd (owns w)"
proof -
  let ?s = "new_Socket (sk_family s) (sk_type s) (sk_protocol s)"
  have "fd \<notin> owns w" "owns w1 = insert fd (owns w)" using net_keeps(2) [OF assms(1), of "sk_sock s" w] assms(2,3) by (simp_all add: opens_def)
  moreover have "sk_accept N s w = (None, w1)"
    using assms(2-4) by (simp add: sk_accept_def Let_def sk_init_def destroy_def sk_close_def new_Socket_def)
  ultimately show ?thesis by simp
qed

theorem accept_leaks_untracked_witness:
  "\<exists>w2. sk_accept (demo_net\<lparr>net_fdctx := \<lambda>fd w. None\<rparr>) (CreateTCPSocket\<lparr>sk_sock := 2\<rparr>) [0, 1, 2] = (None, w2) \<and> set w2 = {0, 1, 2, 5}"
proof -
  let ?N = "demo_net\<lparr>net_fdctx := \<lambda>fd w. None\<rparr>"
  have N: "net_law set ?N" using demo_net_laws(1) by (simp add: net_law_def)
  have a: "net_accept ?N (sk_sock (CreateTCPSocket\<lparr>sk_sock := 2\<rparr>)) [0, 1, 2] = (5, [5, 0, 1, 2])" by (simp add: demo_net_def fresh_fd_def)
  show ?thesis using accept_leaks_untracked [OF N a] by auto
qed

section \<open>Timeouts\<close>

lemma timeval_ms_of:
  assumes "- (2 ^ 31) \<le> sint v sdiv 1000" and "sint v sdiv 1000 < 2 ^ 31"
  shows "timeval_ms (fst (timeval_of v)) (snd (timeval_of v)) = v"
proof -
  let ?q = "sint v sdiv 1000" and ?r = "sint v smod 1000"
  have r: "- 1000 < ?r" "?r < 1000" using smod_int_range [of 1000 "sint v"] by simp_all
  have m: "sint (word_of_int (?r * 1000) :: i32) = ?r * 1000" unfolding signed_of_int using r by (simp add: signed_take_bit_int_eq_self)
  have q: "sint (word_of_int ?q :: i32) = ?q" unfolding signed_of_int using assms by (simp add: signed_take_bit_int_eq_self)
  have m': "sint (word_of_int (?r * 1000) :: i64) = ?r * 1000" unfolding signed_of_int using r by (simp add: signed_take_bit_int_eq_self)
  have "(?r * 1000) sdiv 1000 = ?r" by (simp add: signed_divide_int_def sgn_mult abs_mult sgn_mult_abs)
  then have "timeval_ms (fst (timeval_of v)) (snd (timeval_of v)) = word_of_int ?q * 1000 + word_of_int ?r"
    by (simp add: timeval_ms_def timeval_of_def scast_eq q m m' del: of_int_mult)
  also have "\<dots> = word_of_int (?q * 1000 + ?r)" by simp
  finally show ?thesis by (simp only: sdiv_mult_smod_eq) simp
qed

lemma set_timeout_lookup:
  assumes "fd_lookup fd (hs_fds st) = Some c" and "opt = SO_RCVTIMEO \<or> opt = SO_SNDTIMEO"
  shows "\<exists>r st'. setsockopt sys True fd SOL_SOCKET opt a b st = Inr (r, st')
    \<and> fd_lookup fd (hs_fds st') = Some (setTimeout opt (timeval_ms a b) c)"
proof -
  have fd: "0 \<le> fd" "nat fd < length (hs_fds st)" using assms(1) by (simp_all add: fd_lookup_iff)
  then show ?thesis using assms by (auto simp: setsockopt_def get_fd_plain Let_def case_prod_unfold fd_lookup_set)
qed

text \<open>Socket timeouts come back as they were set. On a hooked socket, for a timeout whose seconds fit in an int
  (a negative one included), setRecvTimeout followed by getRecvTimeout returns it and leaves the send
  timeout as it was, and setSendTimeout does the same the other way round.\<close>

theorem socket_timeout_roundtrip:
  assumes "fd_lookup (sk_sock s) (hs_fds st) = Some c" and "- (2 ^ 31) \<le> sint v sdiv 1000" and "sint v sdiv 1000 < 2 ^ 31"
  shows "(\<exists>r st'. setRecvTimeout sys True v s st = Inr (r, st') \<and> getRecvTimeout sys s st' = Inr v
            \<and> getSendTimeout sys s st' = Inr (m_sendTimeout c))
    \<and> (\<exists>r st'. setSendTimeout sys True v s st = Inr (r, st') \<and> getSendTimeout sys s st' = Inr v
            \<and> getRecvTimeout sys s st' = Inr (m_recvTimeout c))"
proof -
  have fd: "- 1 \<le> sk_sock s" using assms(1) by (simp add: fd_lookup_iff)
  note t = timeval_ms_of [OF assms(2,3)]
  show ?thesis
    using set_timeout_lookup [OF assms(1), of SO_RCVTIMEO sys "fst (timeval_of v)" "snd (timeval_of v)"]
      set_timeout_lookup [OF assms(1), of SO_SNDTIMEO sys "fst (timeval_of v)" "snd (timeval_of v)"]
    by (auto simp: setRecvTimeout_def setSendTimeout_def getRecvTimeout_def getSendTimeout_def get_fd_plain [OF fd] case_prod_unfold t
        setTimeout_def getTimeout_def)
qed

theorem socket_timeout_roundtrip_witness:
  "\<exists>st r st'. socket demo_sys True demo_state = Inr (3, st)
     \<and> setRecvTimeout demo_sys True (- 1) (CreateTCPSocket\<lparr>sk_sock := 3\<rparr>) st = Inr (r, st')
     \<and> getRecvTimeout demo_sys (CreateTCPSocket\<lparr>sk_sock := 3\<rparr>) st' = Inr (- 1)"
proof -
  obtain st c where st: "socket demo_sys True demo_state = Inr (3, st)" "fd_lookup 3 (hs_fds st) = Some c"
    using demo_socket by blast
  then show ?thesis using socket_timeout_roundtrip [of "CreateTCPSocket\<lparr>sk_sock := 3\<rparr>" st c "- 1" demo_sys]
    by (auto simp: signed_divide_int_def)
qed

section \<open>Sockets over OpenSSL\<close>

text \<open>
  A later buffer that fails hides the earlier ones: their bytes are out, and the result is that of the failure.
\<close>

theorem ssl_send_iov_hides_bytes:
  assumes "ss_ssl s = Some h" and "lib_write L h b w = (int (length b), w1)" and "0 < length b" and "length b < 2 ^ 31"
    and "lib_write L h b' w1 = (e, w2)" and "e \<le> 0"
  shows "ssl_send_iov L [b, b'] s w = (e, w2)"
  using assms by (simp add: ssl_send_iov_def signed_of_nat signed_take_bit_int_eq_self)

text \<open>
  Closing gives the descriptor back and keeps the connection object, whose writes go to the number of the closed descriptor.
\<close>

theorem ssl_send_after_close:
  assumes "ss_ssl s = Some h" and "ssl_close N s w = (r, s1, w1)"
  shows "sk_isConnected s1 = False \<and> sk_sock s1 = - 1 \<and> ssl_send L b s1 w2 = lib_write L h b w2"
  using assms by (auto simp: ssl_close_def sk_close_def Let_def ssl_send_def split: if_splits)

end
