(* ===== verification/TcpServer.thy ===== *)
theory TcpServer
  imports SocketOwner
begin

text \<open>
  The TCP server (\<open>src/tcp_server.h\<close>, \<open>src/tcp_server.cc\<close>): binding a set of addresses, the accept loops on the accept
  worker, stopping and handing the clients to the IO worker. Sockets are shared pointers, so they live in a store by
  name; an object is destroyed when its last pointer goes: one of m_socks, of a callback in a queue, of a running
  accept loop. The fibers interleave at accept, where a loop waits; a history is a list of actions.

  The lemmas show that the server owns what it opens over every history, and what stop and start do to the loops.
\<close>

section \<open>Configuration\<close>

record TcpServerConf =
  cf_address :: "string list"
  cf_keepalive :: i32
  cf_timeout :: i32
  cf_ssl :: i32
  cf_id :: string
  cf_type :: string
  cf_name :: string
  cf_cert_file :: string
  cf_key_file :: string
  cf_accept_worker :: string
  cf_io_worker :: string
  cf_process_worker :: string
  cf_args :: "string \<rightharpoonup> string"

definition new_TcpServerConf :: TcpServerConf where
  "new_TcpServerConf = \<lparr>cf_address = [], cf_keepalive = 0, cf_timeout = 1000 * 2 * 60, cf_ssl = 0, cf_id = [], cf_type = ''http'', cf_name = [],
     cf_cert_file = [], cf_key_file = [], cf_accept_worker = [], cf_io_worker = [], cf_process_worker = [], cf_args = Map.empty\<rparr>"

definition conf_isValid :: "TcpServerConf \<Rightarrow> bool" where
  "conf_isValid c \<longleftrightarrow> cf_address c \<noteq> []"

section \<open>Server\<close>

record tcp_server =
  ts_socks :: "nat list"
  ts_recvTimeout :: u64
  ts_name :: string
  ts_type :: string
  ts_isStop :: bool
  ts_ssl :: bool
  ts_conf :: "TcpServerConf option"

definition new_TcpServer :: "u64 \<Rightarrow> tcp_server" where
  "new_TcpServer read_timeout = \<lparr>ts_socks = [], ts_recvTimeout = read_timeout, ts_name = ''HPS/1.0.0'', ts_type = ''tcp'', ts_isStop = True,
     ts_ssl = False, ts_conf = None\<rparr>"

definition setConf :: "TcpServerConf \<Rightarrow> tcp_server \<Rightarrow> tcp_server" where
  "setConf v s = s\<lparr>ts_conf := Some v\<rparr>"

text \<open>
  The callbacks on the accept worker, in the order of its queue; the loops that run, each with a mark
  that tells whether it waits in accept; the clients in the queue of the IO worker.
\<close>

datatype acc_job = StartAccept nat | CloseAll

record 'w server_state =
  sv_srv :: tcp_server
  sv_objs :: "nat \<Rightarrow> sockobj option"
  sv_world :: 'w
  sv_next :: nat
  sv_jobs :: "acc_job list"
  sv_loops :: "(nat \<times> bool) list"
  sv_clients :: "nat list"

fun job_ref :: "acc_job \<Rightarrow> nat list" where
  "job_ref (StartAccept i) = [i]"
| "job_ref CloseAll = []"

definition refs :: "'w server_state \<Rightarrow> nat list" where
  "refs st = ts_socks (sv_srv st) @ concat (map job_ref (sv_jobs st)) @ map fst (sv_loops st) @ sv_clients st"

text \<open>A pointer to the object goes.\<close>

definition release :: "'w net \<Rightarrow> nat \<Rightarrow> 'w server_state \<Rightarrow> 'w server_state" where
  "release N i st =
     (if i \<in> set (refs st) then st
      else case sv_objs st i of
        None \<Rightarrow> st
      | Some x \<Rightarrow> st\<lparr>sv_objs := (sv_objs st)(i := None), sv_world := v_destroy N x (sv_world st)\<rparr>)"

definition set_socks :: "nat list \<Rightarrow> 'w server_state \<Rightarrow> 'w server_state" where
  "set_socks is st = st\<lparr>sv_srv := (sv_srv st)\<lparr>ts_socks := is\<rparr>\<rparr>"

definition clear_socks :: "'w net \<Rightarrow> 'w server_state \<Rightarrow> 'w server_state" where
  "clear_socks N st = fold (release N) (ts_socks (sv_srv st)) (set_socks [] st)"

text \<open>The loop of bind: a socket that fails is destroyed at the end of its turn.\<close>

abbreviation SOMAXCONN :: int where "SOMAXCONN \<equiv> 4096"

definition fresh_sock :: "bool \<Rightarrow> Address \<Rightarrow> sockobj" where
  "fresh_sock ssl a = (if ssl then Ssl (ssl_CreateTCP a) else Plain (CreateTCP a))"

definition bind_one :: "'w net \<Rightarrow> bool \<Rightarrow> Address \<Rightarrow> Address list \<times> 'w server_state \<Rightarrow> Address list \<times> 'w server_state" where
  "bind_one N ssl a = (\<lambda>(fails, st).
     case v_bind N a (fresh_sock ssl a) (sv_world st) of (ok, x, w1) \<Rightarrow>
     if \<not> ok then (fails @ [a], st\<lparr>sv_world := v_destroy N x w1\<rparr>)
     else case v_listen N SOMAXCONN x w1 of (ok2, w2) \<Rightarrow>
       if \<not> ok2 then (fails @ [a], st\<lparr>sv_world := v_destroy N x w2\<rparr>)
       else (fails, set_socks (ts_socks (sv_srv st) @ [sv_next st])
               (st\<lparr>sv_world := w2, sv_objs := (sv_objs st)(sv_next st \<mapsto> x), sv_next := sv_next st + 1\<rparr>)))"

definition ts_bind :: "'w net \<Rightarrow> Address list \<Rightarrow> Address list \<Rightarrow> bool \<Rightarrow> 'w server_state \<Rightarrow> bool \<times> Address list \<times> 'w server_state" where
  "ts_bind N addrs fails ssl st =
     (case fold (bind_one N ssl) addrs (fails, st\<lparr>sv_srv := (sv_srv st)\<lparr>ts_ssl := ssl\<rparr>\<rparr>) of (fails1, st1) \<Rightarrow>
      if fails1 \<noteq> [] then (False, fails1, clear_socks N st1) else (True, fails1, st1))"

definition ts_bind_one :: "'w net \<Rightarrow> Address \<Rightarrow> bool \<Rightarrow> 'w server_state \<Rightarrow> bool \<times> 'w server_state" where
  "ts_bind_one N addr ssl st = (case ts_bind N [addr] [] ssl st of (r, _, st1) \<Rightarrow> (r, st1))"

definition ts_start :: "'w server_state \<Rightarrow> 'w server_state" where
  "ts_start st =
     (if \<not> ts_isStop (sv_srv st) then st
      else st\<lparr>sv_srv := (sv_srv st)\<lparr>ts_isStop := False\<rparr>, sv_jobs := sv_jobs st @ map StartAccept (ts_socks (sv_srv st))\<rparr>)"

definition ts_stop :: "'w server_state \<Rightarrow> 'w server_state" where
  "ts_stop st = st\<lparr>sv_srv := (sv_srv st)\<lparr>ts_isStop := True\<rparr>, sv_jobs := sv_jobs st @ [CloseAll]\<rparr>"

text \<open>What stop schedules; \<open>K\<close> is cancelAll of the worker's IO manager on the world.\<close>

definition close_sock :: "'w net \<Rightarrow> (int \<Rightarrow> 'w \<Rightarrow> 'w) \<Rightarrow> nat \<Rightarrow> 'w server_state \<Rightarrow> 'w server_state" where
  "close_sock N K i st =
     (case sv_objs st i of
        None \<Rightarrow> st
      | Some x \<Rightarrow> (case v_close N x (K (sk_sock (base_of x)) (sv_world st)) of
           (_, x1, w1) \<Rightarrow> st\<lparr>sv_objs := (sv_objs st)(i \<mapsto> x1), sv_world := w1\<rparr>))"

definition close_all :: "'w net \<Rightarrow> (int \<Rightarrow> 'w \<Rightarrow> 'w) \<Rightarrow> 'w server_state \<Rightarrow> 'w server_state" where
  "close_all N K st = clear_socks N (fold (close_sock N K) (ts_socks (sv_srv st)) st)"

text \<open>The destructor closes without cancelling.\<close>

definition ts_destroy :: "'w net \<Rightarrow> 'w server_state \<Rightarrow> 'w server_state" where
  "ts_destroy N st = clear_socks N (fold (close_sock N (\<lambda>_ w. w)) (ts_socks (sv_srv st)) st)"

text \<open>
  startAccept: the test of the loop, then accept, whose result comes back when the fiber runs again. The option of
  a client's timeout is the timeval in memory.
\<close>

definition timeval_bytes :: "i64 \<Rightarrow> u8 list" where
  "timeval_bytes v = bytes_of (fst (timeval_of v)) @ bytes_of (snd (timeval_of v))"

definition loop_test :: "'w net \<Rightarrow> nat \<Rightarrow> nat \<Rightarrow> 'w server_state \<Rightarrow> 'w server_state" where
  "loop_test N k i st =
     (if ts_isStop (sv_srv st) then release N i (st\<lparr>sv_loops := take k (sv_loops st) @ drop (k + 1) (sv_loops st)\<rparr>)
      else st\<lparr>sv_loops := (sv_loops st)[k := (i, True)]\<rparr>)"

definition loop_accept :: "'w net \<Rightarrow> 'w sslib \<Rightarrow> nat \<Rightarrow> nat \<Rightarrow> 'w server_state \<Rightarrow> 'w server_state" where
  "loop_accept N L k i st =
     (let st1 = st\<lparr>sv_loops := (sv_loops st)[k := (i, False)]\<rparr> in
      case sv_objs st i of
        None \<Rightarrow> st1
      | Some x \<Rightarrow> (case v_accept N L x (sv_world st) of
           (None, w1) \<Rightarrow> st1\<lparr>sv_world := w1\<rparr>
         | (Some c, w1) \<Rightarrow>
             st1\<lparr>sv_world := snd (setOption N SOL_SOCKET SO_RCVTIMEO (timeval_bytes (ts_recvTimeout (sv_srv st))) (base_of c) w1),
                 sv_objs := (sv_objs st)(sv_next st \<mapsto> c), sv_next := sv_next st + 1, sv_clients := sv_clients st @ [sv_next st]\<rparr>))"

text \<open>The accept worker takes its next callback; the IO worker runs handleClient, which logs the client and drops it.\<close>

definition run_job :: "'w net \<Rightarrow> (int \<Rightarrow> 'w \<Rightarrow> 'w) \<Rightarrow> 'w server_state \<Rightarrow> 'w server_state" where
  "run_job N K st =
     (case sv_jobs st of
        [] \<Rightarrow> st
      | StartAccept i # js \<Rightarrow> st\<lparr>sv_jobs := js, sv_loops := sv_loops st @ [(i, False)]\<rparr>
      | CloseAll # js \<Rightarrow> close_all N K (st\<lparr>sv_jobs := js\<rparr>))"

definition ts_handleClient :: "'w net \<Rightarrow> 'w server_state \<Rightarrow> 'w server_state" where
  "ts_handleClient N st = (case sv_clients st of [] \<Rightarrow> st | i # is \<Rightarrow> release N i (st\<lparr>sv_clients := is\<rparr>))"

fun load_sock :: "'w sslib \<Rightarrow> string \<Rightarrow> string \<Rightarrow> nat list \<Rightarrow> 'w server_state \<Rightarrow> bool \<times> 'w server_state" where
  "load_sock L c k [] st = (True, st)"
| "load_sock L c k (i # is) st =
     (case sv_objs st i of
        Some (Ssl s) \<Rightarrow>
          (case ssl_loadCertificates L c k s (sv_world st) of (ok, s1, w1) \<Rightarrow>
             let st1 = st\<lparr>sv_objs := (sv_objs st)(i \<mapsto> Ssl s1), sv_world := w1\<rparr> in
             if ok then load_sock L c k is st1 else (False, st1))
      | _ \<Rightarrow> load_sock L c k is st)"

definition ts_loadCertificates :: "'w sslib \<Rightarrow> string \<Rightarrow> string \<Rightarrow> 'w server_state \<Rightarrow> bool \<times> 'w server_state" where
  "ts_loadCertificates L cert_file key_file st = load_sock L cert_file key_file (ts_socks (sv_srv st)) st"

text \<open>The text of the server; the names of the workers are empty where there is none.\<close>

definition ts_toString :: "string option \<Rightarrow> string option \<Rightarrow> string \<Rightarrow> 'w server_state \<Rightarrow> string" where
  "ts_toString worker accept prefix st =
     (let s = sv_srv st; pfx = (if prefix = [] then ''    '' else prefix) in
      prefix @ ''[type='' @ ts_type s @ '' name='' @ ts_name s @ '' ssl='' @ (if ts_ssl s then ''1'' else ''0'')
        @ '' worker='' @ (case worker of Some n \<Rightarrow> n | None \<Rightarrow> []) @ '' accept='' @ (case accept of Some n \<Rightarrow> n | None \<Rightarrow> [])
        @ '' recv_timeout='' @ dec_string (unat (ts_recvTimeout s)) @ '']'' @ [CHR 0x0A]
        @ concat (map (\<lambda>i. case sv_objs st i of None \<Rightarrow> [] | Some x \<Rightarrow> pfx @ pfx @ v_dump x @ [CHR 0x0A]) (ts_socks s)))"

section \<open>Histories\<close>

text \<open>The callbacks and the loops hold the server too, so its destructor runs only when there are none.\<close>

datatype srv_act = ABind "Address list" bool | AStart | AStop | AJob | ALoop nat | AClient | ALoad string string | ADestroy

fun srv_exec :: "'w net \<Rightarrow> 'w sslib \<Rightarrow> (int \<Rightarrow> 'w \<Rightarrow> 'w) \<Rightarrow> srv_act \<Rightarrow> 'w server_state \<Rightarrow> 'w server_state" where
  "srv_exec N L K (ABind addrs ssl) st = snd (snd (ts_bind N addrs [] ssl st))"
| "srv_exec N L K AStart st = ts_start st"
| "srv_exec N L K AStop st = ts_stop st"
| "srv_exec N L K AJob st = run_job N K st"
| "srv_exec N L K (ALoop k) st =
     (if k < length (sv_loops st)
      then (case sv_loops st ! k of (i, waits) \<Rightarrow> if waits then loop_accept N L k i st else loop_test N k i st) else st)"
| "srv_exec N L K AClient st = ts_handleClient N st"
| "srv_exec N L K (ALoad c k) st = snd (ts_loadCertificates L c k st)"
| "srv_exec N L K ADestroy st = (if sv_jobs st = [] \<and> sv_loops st = [] \<and> sv_clients st = [] then ts_destroy N st else st)"

definition server_start :: "u64 \<Rightarrow> 'w \<Rightarrow> 'w server_state" where
  "server_start read_timeout w =
     \<lparr>sv_srv = new_TcpServer read_timeout, sv_objs = (\<lambda>_. None), sv_world = w, sv_next = 0, sv_jobs = [], sv_loops = [], sv_clients = []\<rparr>"

section \<open>The server owns what it opens\<close>

text \<open>The live objects are those something points to, but for those in \<open>X\<close>, which are about to go.\<close>

definition srv_inv :: "('w \<Rightarrow> int set) \<Rightarrow> int set \<Rightarrow> nat set \<Rightarrow> 'w server_state \<Rightarrow> bool" where
  "srv_inv owns base X st \<longleftrightarrow> own_ok owns base (sv_objs st, sv_world st) \<and> set (refs st) \<subseteq> dom (sv_objs st)
     \<and> dom (sv_objs st) \<subseteq> set (refs st) \<union> X \<and> (\<forall>i \<in> dom (sv_objs st). i < sv_next st)"

lemma refs_simps [simp]:
  "set (refs (st\<lparr>sv_objs := ob\<rparr>)) = set (refs st)" "set (refs (st\<lparr>sv_world := w\<rparr>)) = set (refs st)" "set (refs (st\<lparr>sv_next := n\<rparr>)) = set (refs st)"
  "set (refs (st\<lparr>sv_objs := ob, sv_world := w\<rparr>)) = set (refs st)"
  by (simp_all add: refs_def)

lemma release_inv:
  assumes "net_law owns N" and "srv_inv owns base X st"
  shows "srv_inv owns base (X - {i}) (release N i st)"
proof (cases "i \<in> set (refs st) \<or> sv_objs st i = None")
  case True
  then show ?thesis using assms(2) by (auto simp: srv_inv_def release_def split: option.splits)
next
  case False
  then obtain x where x: "sv_objs st i = Some x" by auto
  have "own_ok owns base ((sv_objs st)(i := None), v_destroy N x (sv_world st))"
    by (rule own_update) (use assms(2) v_destroy_frame [OF assms(1), of x "sv_world st"] x in \<open>auto simp: srv_inv_def\<close>)
  then show ?thesis using assms(2) False by (auto simp: srv_inv_def release_def x dom_def subset_iff)
qed

lemma release_all_inv:
  "net_law owns N \<Longrightarrow> srv_inv owns base X st \<Longrightarrow> srv_inv owns base (X - set is) (fold (release N) is st)"
proof (induction "is" arbitrary: X st)
  case (Cons i "is")
  then show ?case using Cons.IH [OF Cons.prems(1) release_inv [OF Cons.prems, of i]] by (simp add: Diff_insert2 set_diff_eq)
qed simp

lemma clear_socks_inv:
  assumes "net_law owns N" and "srv_inv owns base {} st"
  shows "srv_inv owns base {} (clear_socks N st)"
proof -
  have "srv_inv owns base (set (ts_socks (sv_srv st))) (set_socks [] st)"
    using assms(2) by (auto simp: srv_inv_def set_socks_def refs_def)
  from release_all_inv [OF assms(1) this, of "ts_socks (sv_srv st)"] show ?thesis by (simp add: clear_socks_def)
qed

text \<open>An object changes in place.\<close>

lemma put_obj_inv:
  assumes "srv_inv owns base {} st" and "sv_objs st i = Some x" and "frame owns (held (Some x)) (sv_world st) (held (Some x1)) w1"
  shows "srv_inv owns base {} (st\<lparr>sv_objs := (sv_objs st)(i \<mapsto> x1), sv_world := w1\<rparr>)"
proof -
  have "own_ok owns base ((sv_objs st)(i \<mapsto> x1), w1)" by (rule own_update) (use assms in \<open>simp_all add: srv_inv_def\<close>)
  moreover have "dom ((sv_objs st)(i \<mapsto> x1)) = dom (sv_objs st)" using assms(2) by auto
  ultimately show ?thesis using assms(1) by (simp add: srv_inv_def del: dom_fun_upd)
qed

lemma close_sock_inv:
  assumes "net_law owns N" and "\<And>fd w. owns (K fd w) = owns w" and "srv_inv owns base {} st"
  shows "srv_inv owns base {} (close_sock N K i st)"
proof (cases "sv_objs st i")
  case (Some x)
  obtain r x1 w1 where c: "v_close N x (K (sk_sock (base_of x)) (sv_world st)) = (r, x1, w1)" by (metis prod_cases3)
  have "frame owns (held (Some x)) (sv_world st) (held (Some x1)) w1"
    using v_close_frame [OF assms(1) c] assms(2) by (simp add: frame_def)
  then show ?thesis using put_obj_inv [OF assms(3) Some] by (simp add: close_sock_def Some c)
qed (simp add: close_sock_def assms(3))

lemma close_socks_inv:
  assumes "net_law owns N" and "\<And>fd w. owns (K fd w) = owns w"
  shows "srv_inv owns base {} st \<Longrightarrow> srv_inv owns base {} (fold (close_sock N K) is st)"
proof (induction "is" arbitrary: st)
  case (Cons i "is")
  show ?case unfolding fold_Cons comp_apply by (rule Cons.IH) (rule close_sock_inv [of owns N K, OF assms Cons.prems])
qed simp

lemma fresh_held [simp]: "held (Some (fresh_sock ssl a)) = {}"
  by (simp add: fresh_sock_def ssl_CreateTCP_def CreateTCP_def)

text \<open>A new object under the next name.\<close>

lemma add_obj:
  assumes "srv_inv owns base {} st" and "frame owns {} (sv_world st) (held (Some x)) w1"
  shows "own_ok owns base ((sv_objs st)(sv_next st \<mapsto> x), w1)" and "sv_objs st (sv_next st) = None"
proof -
  show n: "sv_objs st (sv_next st) = None" using assms(1) by (auto simp: srv_inv_def)
  show "own_ok owns base ((sv_objs st)(sv_next st \<mapsto> x), w1)"
    by (rule own_update) (use assms n in \<open>auto simp: srv_inv_def\<close>)
qed

lemma own_world: "own_ok owns base (ob, w) \<Longrightarrow> owns w1 = owns w \<Longrightarrow> own_ok owns base (ob, w1)"
  by (simp add: own_ok_def)

lemma bind_one_inv:
  assumes N: "net_law owns N" and L: "ssl_law owns L" and ok: "srv_inv owns base {} (snd p)"
  shows "srv_inv owns base {} (snd (bind_one N ssl a p))"
proof -
  obtain fails st where p: "p = (fails, st)" by fastforce
  obtain r x w1 where b: "v_bind N a (fresh_sock ssl a) (sv_world st) = (r, x, w1)" by (metis prod_cases3)
  obtain r2 w2 where l: "v_listen N SOMAXCONN x w1 = (r2, w2)" by fastforce
  have f: "frame owns {} (sv_world st) (held (Some x)) w1" using v_bind_frame [OF N b] by simp
  have f2: "frame owns {} (sv_world st) (held (Some x)) w2" using frame_world [OF f] v_keeps(1) [OF N L, of SOMAXCONN x w1] l by simp
  have d: "owns (v_destroy N x w) = owns (sv_world st)" if "frame owns {} (sv_world st) (held (Some x)) w" for w
    using frame_trans [OF that v_destroy_frame [OF N]] by (simp add: frame_def)
  have inv: "srv_inv owns base {} st" using ok p by simp
  have dead: "srv_inv owns base {} (st\<lparr>sv_world := v_destroy N x w\<rparr>)" if "frame owns {} (sv_world st) (held (Some x)) w" for w
    using inv own_world [of owns base "sv_objs st" "sv_world st", OF _ d [OF that]] by (simp add: srv_inv_def)
  show ?thesis using dead [OF f] dead [OF f2] add_obj [OF inv f2] inv
    by (auto simp: bind_one_def p b l srv_inv_def set_socks_def refs_def less_Suc_eq subset_iff)
qed

lemma bind_all_inv:
  assumes "net_law owns N" and "ssl_law owns L"
  shows "srv_inv owns base {} (snd p) \<Longrightarrow> srv_inv owns base {} (snd (fold (bind_one N ssl) addrs p))"
proof (induction addrs arbitrary: p)
  case (Cons a addrs)
  show ?case unfolding fold_Cons comp_apply by (rule Cons.IH) (rule bind_one_inv [OF assms Cons.prems])
qed simp

lemma ts_bind_inv:
  assumes "net_law owns N" and "ssl_law owns L" and "srv_inv owns base {} st"
  shows "srv_inv owns base {} (snd (snd (ts_bind N addrs fails ssl st)))"
proof -
  have "srv_inv owns base {} (st\<lparr>sv_srv := (sv_srv st)\<lparr>ts_ssl := ssl\<rparr>\<rparr>)" using assms(3) by (simp add: srv_inv_def refs_def)
  then have "srv_inv owns base {} (snd (fold (bind_one N ssl) addrs (fails, st\<lparr>sv_srv := (sv_srv st)\<lparr>ts_ssl := ssl\<rparr>\<rparr>)))"
    by (intro bind_all_inv [OF assms(1,2)]) simp
  then show ?thesis by (simp add: ts_bind_def case_prod_unfold clear_socks_inv [OF assms(1)])
qed

lemma loop_test_inv:
  assumes "net_law owns N" and "srv_inv owns base {} st" and "k < length (sv_loops st)" and "sv_loops st ! k = (i, b)"
  shows "srv_inv owns base {} (loop_test N k i st)"
proof -
  let ?st = "st\<lparr>sv_loops := take k (sv_loops st) @ drop (k + 1) (sv_loops st)\<rparr>"
  have l: "sv_loops st = take k (sv_loops st) @ (i, b) # drop (k + 1) (sv_loops st)" using assms(3,4) id_take_nth_drop by fastforce
  have r: "set (refs st) = insert i (set (refs ?st))" using arg_cong [OF l, of "\<lambda>xs. set (map fst xs)"] by (simp add: refs_def) blast
  have "srv_inv owns base {i} ?st" using assms(2) r by (auto simp: srv_inv_def)
  then have "srv_inv owns base {} (release N i ?st)" using release_inv [OF assms(1), of base "{i}" ?st i] by simp
  moreover have "map fst ((sv_loops st)[k := (i, True)]) = map fst (sv_loops st)"
    using assms(3,4) by (simp add: map_update list_update_same_conv)
  then have "refs (st\<lparr>sv_loops := (sv_loops st)[k := (i, True)]\<rparr>) = refs st" by (simp add: refs_def)
  then have "srv_inv owns base {} (st\<lparr>sv_loops := (sv_loops st)[k := (i, True)]\<rparr>)" using assms(2) by (simp add: srv_inv_def)
  ultimately show ?thesis by (simp add: loop_test_def)
qed

lemma loop_accept_inv:
  assumes N: "net_law owns N" and T: "accept_tracked N" and L: "ssl_law owns L" and ok: "srv_inv owns base {} st"
    and k: "k < length (sv_loops st)" "sv_loops st ! k = (i, b)"
  shows "srv_inv owns base {} (loop_accept N L k i st)"
proof -
  let ?st = "st\<lparr>sv_loops := (sv_loops st)[k := (i, False)]\<rparr>"
  have "map fst ((sv_loops st)[k := (i, False)]) = map fst (sv_loops st)" using k by (simp add: map_update list_update_same_conv)
  then have r: "refs ?st = refs st" by (simp add: refs_def)
  then have s: "srv_inv owns base {} ?st" using ok by (simp add: srv_inv_def)
  show ?thesis
  proof (cases "sv_objs st i")
    case (Some x)
    obtain y w1 where a: "v_accept N L x (sv_world st) = (y, w1)" by fastforce
    have f: "frame owns {} (sv_world st) (held y) w1" by (rule v_accept_frame [OF N T L a])
    show ?thesis
    proof (cases y)
      case None
      then have "owns w1 = owns (sv_world st)" using f by (simp add: frame_def)
      then have "srv_inv owns base {} (?st\<lparr>sv_world := w1\<rparr>)" using s own_world [of owns base "sv_objs st" "sv_world st" w1] by (simp add: srv_inv_def)
      then show ?thesis by (simp add: loop_accept_def Some a None Let_def)
    next
      case (Some c)
      let ?w = "snd (setOption N SOL_SOCKET SO_RCVTIMEO (timeval_bytes (ts_recvTimeout (sv_srv st))) (base_of c) w1)"
      let ?st' = "?st\<lparr>sv_world := ?w, sv_objs := (sv_objs st)(sv_next st \<mapsto> c), sv_next := sv_next st + 1, sv_clients := sv_clients st @ [sv_next st]\<rparr>"
      have "owns ?w = owns w1" by (simp add: setOption_def case_prod_unfold net_keeps(9) [OF N])
      then have f': "frame owns {} (sv_world ?st) (held (Some c)) ?w" using frame_world [OF f] Some by simp
      have "set (refs ?st') = insert (sv_next st) (set (refs ?st))" by (auto simp: refs_def)
      then have "srv_inv owns base {} ?st'" using s add_obj [OF s f'] by (auto simp: srv_inv_def less_Suc_eq)
      then show ?thesis using \<open>sv_objs st i = Some x\<close> by (simp add: loop_accept_def a Some Let_def)
    qed
  qed (simp add: loop_accept_def s Let_def)
qed

lemma load_sock_inv:
  assumes L: "ssl_law owns L"
  shows "srv_inv owns base {} st \<Longrightarrow> srv_inv owns base {} (snd (load_sock L c k is st))"
proof (induction "is" arbitrary: st)
  case (Cons i "is")
  show ?case
  proof (cases "\<exists>s. sv_objs st i = Some (Ssl s)")
    case True
    then obtain s where s: "sv_objs st i = Some (Ssl s)" by blast
    obtain r s1 w1 where l: "ssl_loadCertificates L c k s (sv_world st) = (r, s1, w1)" by (metis prod_cases3)
    have "srv_inv owns base {} (st\<lparr>sv_objs := (sv_objs st)(i \<mapsto> Ssl s1), sv_world := w1\<rparr>)"
      by (rule put_obj_inv [OF Cons.prems s]) (use load_frame [OF L, of c k "Ssl s" "sv_world st" "Some (Ssl s1)" w1] l in simp)
    then show ?thesis using Cons.IH by (simp add: s l Let_def)
  next
    case False
    then show ?thesis using Cons.IH [OF Cons.prems] by (auto split: option.splits sockobj.splits)
  qed
qed simp

lemma run_job_inv:
  assumes "net_law owns N" and "\<And>fd w. owns (K fd w) = owns w" and ok: "srv_inv owns base {} st"
  shows "srv_inv owns base {} (run_job N K st)"
proof (cases "sv_jobs st")
  case (Cons j js)
  show ?thesis
  proof (cases j)
    case (StartAccept i)
    have "set (refs (st\<lparr>sv_jobs := js, sv_loops := sv_loops st @ [(i, False)]\<rparr>)) = set (refs st)" by (auto simp: refs_def Cons StartAccept)
    then show ?thesis using ok by (simp add: run_job_def Cons StartAccept srv_inv_def)
  next
    case CloseAll
    have "refs (st\<lparr>sv_jobs := js\<rparr>) = refs st" by (simp add: refs_def Cons CloseAll)
    then have "srv_inv owns base {} (st\<lparr>sv_jobs := js\<rparr>)" using ok by (simp add: srv_inv_def)
    then show ?thesis unfolding run_job_def Cons CloseAll close_all_def
      using clear_socks_inv [OF assms(1)] close_socks_inv [of owns N K, OF assms(1,2)] by simp
  qed
qed (simp add: run_job_def ok)

lemma handle_client_inv:
  assumes "net_law owns N" and "srv_inv owns base {} st"
  shows "srv_inv owns base {} (ts_handleClient N st)"
proof (cases "sv_clients st")
  case (Cons i "is")
  have "set (refs st) = insert i (set (refs (st\<lparr>sv_clients := is\<rparr>)))" by (auto simp: refs_def Cons)
  then have "srv_inv owns base {i} (st\<lparr>sv_clients := is\<rparr>)" using assms(2) by (auto simp: srv_inv_def)
  from release_inv [OF assms(1) this, of i] show ?thesis by (simp add: ts_handleClient_def Cons)
qed (simp add: ts_handleClient_def assms(2))

lemma srv_exec_inv:
  assumes N: "net_law owns N" "accept_tracked N" "ssl_law owns L" and K: "\<And>fd w. owns (K fd w) = owns w" and ok: "srv_inv owns base {} st"
  shows "srv_inv owns base {} (srv_exec N L K act st)"
proof (cases act)
  case AStart
  have "set (refs (ts_start st)) = set (refs st)" by (auto simp: ts_start_def refs_def)
  then show ?thesis using ok AStart by (auto simp: srv_inv_def ts_start_def split: if_splits)
next
  case AStop
  then show ?thesis using ok by (simp add: srv_inv_def ts_stop_def refs_def)
next
  case (ALoop k)
  then show ?thesis using ok loop_test_inv [OF N(1) ok, of k] loop_accept_inv [OF N ok, of k] by (cases "sv_loops st ! k") simp
next
  case ADestroy
  then show ?thesis using ok clear_socks_inv [OF N(1) close_socks_inv [of owns N "\<lambda>_ w. w", OF N(1) refl ok]] by (simp add: ts_destroy_def)
qed (use ok ts_bind_inv [OF N(1,3) ok] run_job_inv [of owns N K, OF N(1) K ok] handle_client_inv [OF N(1) ok] load_sock_inv [OF N(3) ok]
      in \<open>simp_all add: ts_loadCertificates_def\<close>)

lemma srv_run_inv:
  assumes "net_law owns N" "accept_tracked N" "ssl_law owns L" and "\<And>fd w. owns (K fd w) = owns w"
  shows "srv_inv owns base {} st \<Longrightarrow> srv_inv owns base {} (fold (srv_exec N L K) acts st)"
proof (induction acts arbitrary: st)
  case (Cons a acts)
  show ?case unfolding fold_Cons comp_apply by (rule Cons.IH) (rule srv_exec_inv [of owns N L K, OF assms Cons.prems])
qed simp


definition demo_acts :: "srv_act list" where
  "demo_acts = [ABind [demo_address, demo_address] False, AStart, AJob, AJob, ALoop 0, ALoop 1, ALoop 0, AStop, ALoop 0, AJob, ALoop 0, ALoop 0, AClient]"

lemma demo_server:
  "refs (fold (srv_exec demo_net demo_ssl (\<lambda>_ w. w)) demo_acts (server_start 1000 [0, 1, 2])) = []"
  by code_simp


section \<open>Binding\<close>

lemma bind_ok_valid: "sk_bind N a s w = (True, s1, w1) \<Longrightarrow> sk_isValid s1"
  by (auto simp: sk_bind_def Let_def sk_isValid_def getLocalAddress_def split: if_splits prod.splits option.splits)

lemma v_bind_ok_valid: "v_bind N a x w = (True, x1, w1) \<Longrightarrow> sk_sock (base_of x1) \<noteq> - 1"
  by (cases x) (auto simp: ssl_bind_def sk_isValid_def socket.defs dest!: bind_ok_valid split: prod.splits)

text \<open>What the loop adds: a new socket for each address that does not fail.\<close>

lemma bind_all_adds:
  assumes "fold (bind_one N ssl) addrs (fails, st) = (fails1, st1)"
  shows "\<exists>bad n. fails1 = fails @ bad \<and> n + length bad = length addrs \<and> set bad \<subseteq> set addrs \<and> sv_next st1 = sv_next st + n
    \<and> ts_socks (sv_srv st1) = ts_socks (sv_srv st) @ [sv_next st..<sv_next st + n]
    \<and> (\<forall>i < sv_next st. sv_objs st1 i = sv_objs st i)
    \<and> (\<forall>i \<in> {sv_next st..<sv_next st + n}. \<exists>x. sv_objs st1 i = Some x \<and> sk_sock (base_of x) \<noteq> - 1)
    \<and> sv_jobs st1 = sv_jobs st \<and> sv_loops st1 = sv_loops st \<and> sv_clients st1 = sv_clients st \<and> ts_isStop (sv_srv st1) = ts_isStop (sv_srv st)"
  using assms
proof (induction addrs arbitrary: fails st)
  case (Cons a addrs)
  obtain r x w1 where b: "v_bind N a (fresh_sock ssl a) (sv_world st) = (r, x, w1)" by (metis prod_cases3)
  obtain r2 w2 where l: "v_listen N SOMAXCONN x w1 = (r2, w2)" by fastforce
  show ?case
  proof (cases "r \<and> r2")
    case True
    let ?st = "set_socks (ts_socks (sv_srv st) @ [sv_next st])
      (st\<lparr>sv_world := w2, sv_objs := (sv_objs st)(sv_next st \<mapsto> x), sv_next := sv_next st + 1\<rparr>)"
    have "bind_one N ssl a (fails, st) = (fails, ?st)" using True b l by (simp add: bind_one_def)
    then have "fold (bind_one N ssl) addrs (fails, ?st) = (fails1, st1)" using Cons.prems by simp
    from Cons.IH [OF this] obtain bad n where n: "fails1 = fails @ bad" "n + length bad = length addrs" "set bad \<subseteq> set addrs"
      "sv_next st1 = sv_next st + 1 + n" "ts_socks (sv_srv st1) = ts_socks (sv_srv st) @ [sv_next st] @ [sv_next st + 1..<sv_next st + 1 + n]"
      "\<forall>i < sv_next st + 1. sv_objs st1 i = ((sv_objs st)(sv_next st \<mapsto> x)) i"
      "\<forall>i \<in> {sv_next st + 1..<sv_next st + 1 + n}. \<exists>x. sv_objs st1 i = Some x \<and> sk_sock (base_of x) \<noteq> - 1"
      "sv_jobs st1 = sv_jobs st" "sv_loops st1 = sv_loops st" "sv_clients st1 = sv_clients st" "ts_isStop (sv_srv st1) = ts_isStop (sv_srv st)"
      by (auto simp: set_socks_def)
    have v: "sk_sock (base_of x) \<noteq> - 1" using v_bind_ok_valid b True by metis
    have "\<exists>x. sv_objs st1 i = Some x \<and> sk_sock (base_of x) \<noteq> - 1" if "i \<in> {sv_next st..<sv_next st + Suc n}" for i
      using n(6,7) v that by (cases "i = sv_next st") auto
    with n show ?thesis by (intro exI [of _ bad] exI [of _ "Suc n"]) (auto simp: upt_conv_Cons)
  next
    case False
    then obtain w where "bind_one N ssl a (fails, st) = (fails @ [a], st\<lparr>sv_world := w\<rparr>)" using b l by (cases r) (auto simp: bind_one_def)
    then have "fold (bind_one N ssl) addrs (fails @ [a], st\<lparr>sv_world := w\<rparr>) = (fails1, st1)" using Cons.prems by simp
    from Cons.IH [OF this] obtain bad n where "fails1 = fails @ a # bad" "n + length bad = length addrs" "set bad \<subseteq> set addrs"
      "sv_next st1 = sv_next st + n" "ts_socks (sv_srv st1) = ts_socks (sv_srv st) @ [sv_next st..<sv_next st + n]"
      "\<forall>i < sv_next st. sv_objs st1 i = sv_objs st i"
      "\<forall>i \<in> {sv_next st..<sv_next st + n}. \<exists>x. sv_objs st1 i = Some x \<and> sk_sock (base_of x) \<noteq> - 1"
      "sv_jobs st1 = sv_jobs st" "sv_loops st1 = sv_loops st" "sv_clients st1 = sv_clients st" "ts_isStop (sv_srv st1) = ts_isStop (sv_srv st)"
      by auto
    then show ?thesis by (intro exI [of _ "a # bad"] exI [of _ n]) auto
  qed
qed simp

lemma release_keeps [simp]:
  "sv_srv (release N i st) = sv_srv st" "sv_jobs (release N i st) = sv_jobs st" "sv_loops (release N i st) = sv_loops st"
  "sv_clients (release N i st) = sv_clients st" "sv_next (release N i st) = sv_next st"
  by (auto simp: release_def split: option.splits)

lemma releases_keep [simp]:
  "sv_srv (fold (release N) is st) = sv_srv st" "sv_jobs (fold (release N) is st) = sv_jobs st" "sv_loops (fold (release N) is st) = sv_loops st"
  "sv_clients (fold (release N) is st) = sv_clients st"
  by (induction "is" arbitrary: st) simp_all

lemma clear_socks_keeps [simp]:
  "ts_socks (sv_srv (clear_socks N st)) = []" "ts_isStop (sv_srv (clear_socks N st)) = ts_isStop (sv_srv st)"
  "sv_jobs (clear_socks N st) = sv_jobs st" "sv_loops (clear_socks N st) = sv_loops st" "sv_clients (clear_socks N st) = sv_clients st"
  by (simp_all add: clear_socks_def set_socks_def)


text \<open>The second of two addresses is in use.\<close>

definition demo_busy :: "int list net" where
  "demo_busy = demo_net\<lparr>net_bind := \<lambda>fd a l w. (if fd = 8 then - 1 else 0, w)\<rparr>"

lemma demo_busy_fails: "fst (ts_bind demo_busy [demo_address, demo_address] [] False (server_start 0 [0, 1, 2])) = False"
  by code_simp


section \<open>Stopping and starting\<close>

lemma v_accept_closed:
  assumes "\<And>w. net_accept N (- 1) w = (- 1, w)" and "sk_sock (base_of x) = - 1"
  shows "v_accept N L x w = (None, w)"
  using assms by (cases x) (simp_all add: sk_accept_def ssl_accept_def destroy_def sk_close_def new_Socket_def new_SSLSocket_def socket.defs)

definition closed_at :: "nat \<Rightarrow> 'w server_state \<Rightarrow> bool" where
  "closed_at i st \<longleftrightarrow> (\<exists>x. sv_objs st i = Some x \<and> sk_sock (base_of x) = - 1)"

lemma v_close_sock: "v_close N x w = (r, x1, w1) \<Longrightarrow> sk_sock (base_of x1) = - 1"
  by (cases x) (auto simp: ssl_close_def sk_close_def Let_def socket.defs split: prod.splits if_splits)

lemma close_sock_closes: "sv_objs st i \<noteq> None \<Longrightarrow> closed_at i (close_sock N K i st)"
  by (auto simp: closed_at_def close_sock_def dest: v_close_sock split: prod.splits)

lemma close_sock_keeps:
  "closed_at i st \<Longrightarrow> closed_at i (close_sock N K j st)" "sv_objs st i \<noteq> None \<Longrightarrow> sv_objs (close_sock N K j st) i \<noteq> None"
  by (auto simp: closed_at_def close_sock_def dest: v_close_sock split: prod.splits option.splits)

lemma close_socks_close: "i \<in> set is \<Longrightarrow> sv_objs st i \<noteq> None \<Longrightarrow> closed_at i (fold (close_sock N K) is st)"
proof (induction "is" arbitrary: st)
  case (Cons j "is")
  have "closed_at i (fold (close_sock N K) is st)" if "closed_at i st" for st
    using that by (induction "is" arbitrary: st) (simp_all add: close_sock_keeps)
  then show ?case using Cons close_sock_closes [of st j N K] close_sock_keeps(2) [of st i N K j] by (cases "i = j") simp_all
qed simp

lemma close_socks_same [simp]:
  "sv_srv (fold (close_sock N K) is st) = sv_srv st" "sv_jobs (fold (close_sock N K) is st) = sv_jobs st"
  "sv_loops (fold (close_sock N K) is st) = sv_loops st" "sv_clients (fold (close_sock N K) is st) = sv_clients st"
proof -
  have "sv_srv (close_sock N K i st) = sv_srv st \<and> sv_jobs (close_sock N K i st) = sv_jobs st \<and> sv_loops (close_sock N K i st) = sv_loops st
    \<and> sv_clients (close_sock N K i st) = sv_clients st" for i st
    by (auto simp: close_sock_def split: option.splits prod.splits)
  then show "sv_srv (fold (close_sock N K) is st) = sv_srv st" "sv_jobs (fold (close_sock N K) is st) = sv_jobs st"
    "sv_loops (fold (close_sock N K) is st) = sv_loops st" "sv_clients (fold (close_sock N K) is st) = sv_clients st"
    by (induction "is" arbitrary: st) simp_all
qed

lemma clear_socks_loop: "(i, b) \<in> set (sv_loops st) \<Longrightarrow> sv_objs (clear_socks N st) i = sv_objs st i"
proof -
  assume l: "(i, b) \<in> set (sv_loops st)"
  have "sv_objs (fold (release N) is s) i = sv_objs s i" if "(i, b) \<in> set (sv_loops s)" for "is" s
    using that
  proof (induction "is" arbitrary: s)
    case (Cons j "is")
    have "sv_objs (release N j s) i = sv_objs s i" using Cons.prems by (force simp: release_def refs_def split: option.splits)
    then show ?case using Cons by simp
  qed simp
  then show ?thesis using l by (simp add: clear_socks_def set_socks_def)
qed

text \<open>A loop on a closed socket of a server that does not stop: the test and the failing accept, for ever.\<close>

definition spins :: "nat \<Rightarrow> nat \<Rightarrow> 'w server_state \<Rightarrow> bool" where
  "spins k i st \<longleftrightarrow> k < length (sv_loops st) \<and> sv_loops st ! k = (i, True) \<and> closed_at i st \<and> \<not> ts_isStop (sv_srv st) \<and> ts_socks (sv_srv st) = []"

lemma spins_again:
  assumes "\<And>w. net_accept N (- 1) w = (- 1, w)" and "spins k i st"
  shows "fold (srv_exec N L K) [ALoop k, ALoop k] st = st"
proof -
  obtain x where x: "sv_objs st i = Some x" "sk_sock (base_of x) = - 1" using assms(2) by (auto simp: spins_def closed_at_def)
  have "(sv_loops st)[k := (i, True)] = sv_loops st" using assms(2) by (simp add: spins_def list_update_same_conv)
  then show ?thesis using assms(2) x v_accept_closed [of N x L, OF assms(1) x(2)] by (simp add: spins_def loop_accept_def loop_test_def)
qed

text \<open>C34: A start that comes before the closing leaves the server spinning. stop schedules the closing of the sockets; when start
  is called before it runs, the loop that waits in accept finds the flag cleared and its socket closed: the server counts
  as started with no socket left, and the loop calls accept on a closed descriptor for ever, each turn ending in the
  state it began in.\<close>

theorem restart_before_close_spins:
  assumes "\<And>w. net_accept N (- 1) w = (- 1, w)" and "\<not> ts_isStop (sv_srv st)" and "sv_jobs st = []" and "i \<in> set (ts_socks (sv_srv st))"
    and "sv_objs st i \<noteq> None" and "k < length (sv_loops st)" and "sv_loops st ! k = (i, True)"
    and "fold (srv_exec N L K) [AStop, AStart, AJob] st = st'"
  shows "\<not> ts_isStop (sv_srv st') \<and> ts_socks (sv_srv st') = [] \<and> closed_at i st' \<and> srv_exec N L K AStart st' = st'
    \<and> fold (srv_exec N L K) (concat (replicate n [ALoop k, ALoop k])) st' = st'"
proof -
  let ?st1 = "(ts_start (ts_stop st))\<lparr>sv_jobs := map StartAccept (ts_socks (sv_srv st))\<rparr>"
  have st': "st' = close_all N K ?st1" using assms(3,8) by (auto simp: run_job_def ts_start_def ts_stop_def)
  have "(i, True) \<in> set (sv_loops st)" using assms(6,7) nth_mem by fastforce
  then have "closed_at i st'"
    using close_socks_close [of i "ts_socks (sv_srv st)" ?st1 N K] assms(4,5)
    by (auto simp: st' close_all_def closed_at_def ts_start_def ts_stop_def clear_socks_loop)
  then have s: "spins k i st'" using assms(6,7) by (simp add: spins_def st' close_all_def ts_start_def ts_stop_def)
  have "fold (srv_exec N L K) (concat (replicate n [ALoop k, ALoop k])) st' = st'"
    using spins_again [of N k i st' L K, OF assms(1) s] by (induction n) simp_all
  with s show ?thesis by (simp add: spins_def ts_start_def)
qed

definition demo_running :: "int list server_state" where
  "demo_running = fold (srv_exec demo_net demo_ssl (\<lambda>_ w. w)) [ABind [demo_address] False, AStart, AJob, ALoop 0] (server_start 1000 [0, 1, 2])"

lemma demo_running:
  "\<not> ts_isStop (sv_srv demo_running) \<and> sv_jobs demo_running = [] \<and> ts_socks (sv_srv demo_running) = [0]
   \<and> sv_objs demo_running 0 \<noteq> None \<and> sv_loops demo_running = [(0, True)]"
  unfolding demo_running_def by code_simp

theorem restart_before_close_spins_witness:
  "\<exists>st'. fold (srv_exec demo_net demo_ssl (\<lambda>_ w. w)) [AStop, AStart, AJob] demo_running = st'
     \<and> fold (srv_exec demo_net demo_ssl (\<lambda>_ w. w)) (concat (replicate 100 [ALoop 0, ALoop 0])) st' = st'"
proof -
  have a: "net_accept demo_net (- 1) w = (- 1, w)" for w by (simp add: demo_net_def)
  show ?thesis
    using restart_before_close_spins [of demo_net demo_running 0 0 demo_ssl "\<lambda>_ w. w" _ 100, OF a _ _ _ _ _ _ refl] demo_running by simp
qed

text \<open>
  A bind that fails on a running server forgets its sockets: stop then closes none of them, and the loop goes on waiting
  in accept on an open socket.
\<close>

theorem failed_rebind_escapes_stop:
  assumes "ts_bind N addrs [] ssl st = (False, fails, st1)" and "sv_jobs st = []" and "sv_objs st i = Some x" and "i < sv_next st"
    and "k < length (sv_loops st)" and "sv_loops st ! k = (i, True)" and "fold (srv_exec N L K) [AStop, AJob] st1 = st2"
  shows "ts_isStop (sv_srv st2) \<and> sv_objs st2 i = Some x \<and> sv_loops st2 ! k = (i, True) \<and> ts_socks (sv_srv st2) = []"
proof -
  let ?st = "st\<lparr>sv_srv := (sv_srv st)\<lparr>ts_ssl := ssl\<rparr>\<rparr>"
  obtain bad st0 where f: "fold (bind_one N ssl) addrs ([], ?st) = (bad, st0)" by fastforce
  note b = bind_all_adds [OF f]
  have st1: "st1 = clear_socks N st0" using assms(1) by (auto simp: ts_bind_def f split: if_splits)
  have l: "sv_loops st0 = sv_loops st" "sv_jobs st0 = []" "sv_objs st0 i = Some x" using b assms(2-4) by auto
  have "(i, True) \<in> set (sv_loops st0)" using assms(5,6) l(1) nth_mem by fastforce
  then have o: "sv_objs st1 i = Some x" using clear_socks_loop [of i True st0 N] l(3) by (simp add: st1)
  have "st2 = st1\<lparr>sv_srv := (sv_srv st1)\<lparr>ts_isStop := True\<rparr>, sv_jobs := []\<rparr>"
    using assms(7) l(2) st1 by (auto simp: ts_stop_def run_job_def close_all_def clear_socks_def set_socks_def)
  then show ?thesis using o l(1) assms(6) by (simp add: st1)
qed

end
