(* ===== verification/ServerConf.thy ===== *)
theory ServerConf
  imports TcpServer Config
begin

text \<open>
  The conversions of a server's configuration from and to YAML (\<open>src/tcp_server.h\<close>). \<open>yint\<close> reads a scalar as an int and
  may fail. A member with a default falls back to it when it is missing or of another kind; a member without
  one throws.
\<close>

definition member :: "string \<Rightarrow> yaml \<Rightarrow> yaml option option" where
  "member k n = (case n of YMap kvs \<Rightarrow> Some (map_of kvs k) | YScalar _ \<Rightarrow> None | _ \<Rightarrow> Some None)"

definition string_of :: "yaml_lib \<Rightarrow> yaml option \<Rightarrow> string option" where
  "string_of L m = (case m of Some (YScalar s) \<Rightarrow> Some s | Some YNull \<Rightarrow> yl_null L | _ \<Rightarrow> None)"

definition string_or :: "yaml_lib \<Rightarrow> string \<Rightarrow> yaml option \<Rightarrow> string" where
  "string_or L d m = (case string_of L m of None \<Rightarrow> d | Some s \<Rightarrow> s)"

definition int_or :: "(string \<Rightarrow> i32 option) \<Rightarrow> i32 \<Rightarrow> yaml option \<Rightarrow> i32" where
  "int_or yint d m = (case m of Some (YScalar s) \<Rightarrow> (case yint s of None \<Rightarrow> d | Some i \<Rightarrow> i) | _ \<Rightarrow> d)"

text \<open>LexicalCast of a string to a configuration; \<open>None\<close> is an exception.\<close>

definition conf_of_node :: "yaml_lib \<Rightarrow> (string \<Rightarrow> i32 option) \<Rightarrow> yaml \<Rightarrow> TcpServerConf option" where
  "conf_of_node L yint node =
     (case node of
        YScalar _ \<Rightarrow> None
      | _ \<Rightarrow>
        let get = (\<lambda>k. case member k node of Some m \<Rightarrow> m | None \<Rightarrow> None); c = new_TcpServerConf in
        Option.bind (string_of L (get ''accept_worker'')) (\<lambda>accept_worker.
        Option.bind (string_of L (get ''io_worker'')) (\<lambda>io_worker.
        Option.bind (string_of L (get ''process_worker'')) (\<lambda>process_worker.
        Option.bind (from_map L Some (string_or L [] (get ''args''))) (\<lambda>args.
        Option.bind (case get ''address'' of None \<Rightarrow> Some [] | Some a \<Rightarrow> those (map (string_of L) (elements L a))) (\<lambda>address.
        Some \<lparr>cf_address = address, cf_keepalive = int_or yint (cf_keepalive c) (get ''keepalive''), cf_timeout = int_or yint (cf_timeout c) (get ''timeout''),
          cf_ssl = int_or yint (cf_ssl c) (get ''ssl''), cf_id = string_or L (cf_id c) (get ''id''), cf_type = string_or L (cf_type c) (get ''type''),
          cf_name = string_or L (cf_name c) (get ''name''), cf_cert_file = string_or L (cf_cert_file c) (get ''cert_file''),
          cf_key_file = string_or L (cf_key_file c) (get ''key_file''), cf_accept_worker = accept_worker, cf_io_worker = io_worker,
          cf_process_worker = process_worker, cf_args = args\<rparr>))))))"

definition from_TcpServerConf :: "yaml_lib \<Rightarrow> (string \<Rightarrow> i32 option) \<Rightarrow> string \<Rightarrow> TcpServerConf option" where
  "from_TcpServerConf L yint v = Option.bind (yl_load L v) (conf_of_node L yint)"

text \<open>The arguments in the order of their map are the list \<open>args\<close>.\<close>

definition conf_node :: "TcpServerConf \<Rightarrow> yaml \<Rightarrow> yaml" where
  "conf_node c args = YMap
     ([(''id'', YScalar (cf_id c)), (''type'', YScalar (cf_type c)), (''name'', YScalar (cf_name c)), (''keepalive'', YScalar (int_text (sint (cf_keepalive c)))),
       (''timeout'', YScalar (int_text (sint (cf_timeout c)))), (''ssl'', YScalar (int_text (sint (cf_ssl c)))), (''cert_file'', YScalar (cf_cert_file c)),
       (''key_file'', YScalar (cf_key_file c)), (''accept_worker'', YScalar (cf_accept_worker c)), (''io_worker'', YScalar (cf_io_worker c)),
       (''process_worker'', YScalar (cf_process_worker c)), (''args'', args)]
      @ (if cf_address c \<noteq> [] then [(''address'', YSequence (map YScalar (cf_address c)))] else []))"

definition to_TcpServerConf :: "yaml_lib \<Rightarrow> (string \<times> string) list \<Rightarrow> TcpServerConf \<Rightarrow> string option" where
  "to_TcpServerConf L args c = Option.bind (to_map L Some args) (\<lambda>s. Option.bind (yl_load L s) (\<lambda>n. Some (yl_emit L (conf_node c n))))"

section \<open>What is read back\<close>

lemma addresses_back: "those (map (\<lambda>a. string_of L (Some (YScalar a))) as) = Some as"
  by (induction as) (auto simp: string_of_def)

lemma conf_of_conf_node:
  assumes "\<And>i. yint (int_text (sint i)) = Some i" "yl_load L [] = Some YNull"
  shows "conf_of_node L yint (conf_node c (YMap kvs)) = Some (c\<lparr>cf_args := Map.empty\<rparr>)"
  using assms addresses_back [of L "cf_address c"]
  by (simp add: conf_of_node_def conf_node_def member_def string_of_def string_or_def int_or_def from_map_def map_pairs_def elements_def comp_def Let_def)

text \<open>A configuration survives being written and read but for its arguments: they are written as a YAML map and read as a
  string, which a map is not, so that they are lost.\<close>

theorem conf_roundtrip_loses_args:
  assumes "\<And>i. yint (int_text (sint i)) = Some i" "yl_load L [] = Some YNull"
    and "load_elements L Some (map snd args) = Some ns" "n = YMap (zip (map fst args) ns)"
    and "reads_back L n" "reads_back L (conf_node c n)"
  shows "\<exists>s. to_TcpServerConf L args c = Some s \<and> from_TcpServerConf L yint s = Some (c\<lparr>cf_args := Map.empty\<rparr>)"
  using assms(3-6) conf_of_conf_node [OF assms(1,2), of c]
  by (simp add: to_TcpServerConf_def from_TcpServerConf_def to_map_def reads_back_def)

text \<open>A configuration that does not name its three workers is rejected, although their members are strings that may be empty.\<close>

theorem conf_needs_workers:
  assumes "node = YMap kvs" "map_of kvs ''accept_worker'' = None \<or> map_of kvs ''io_worker'' = None \<or> map_of kvs ''process_worker'' = None"
  shows "conf_of_node L yint node = None"
  using assms by (auto simp: conf_of_node_def member_def string_of_def Let_def split: bind_splits)

end
