(* ===== verification/SocketStream.thy ===== *)
theory SocketStream
  imports SocketOwner Streams
begin

text \<open>
  The life of a socket stream (\<open>src/streams/socket_stream.cc\<close>): a pointer into the store of shared sockets and whether the
  stream owns the socket. Reading and writing are those of \<open>Streams\<close>, on the virtual calls of the socket.
\<close>

record socket_stream =
  sm_socket :: "nat option"
  sm_owner :: bool

definition new_SocketStream :: "nat option \<Rightarrow> bool \<Rightarrow> socket_stream" where
  "new_SocketStream sock owner = \<lparr>sm_socket = sock, sm_owner = owner\<rparr>"

definition the_sock :: "socket_stream \<Rightarrow> 'w sock_state \<Rightarrow> sockobj option" where
  "the_sock sm st = Option.bind (sm_socket sm) (fst st)"

definition stream_isConnected :: "socket_stream \<Rightarrow> 'w sock_state \<Rightarrow> bool" where
  "stream_isConnected sm st = (case the_sock sm st of None \<Rightarrow> False | Some x \<Rightarrow> sk_isConnected (base_of x))"

definition stream_recv :: "'w net \<Rightarrow> 'w sslib \<Rightarrow> socket_stream \<Rightarrow> 'w sock_state recv" where
  "stream_recv N L sm len st =
     (case the_sock sm st of None \<Rightarrow> (- 1, [], st) | Some x \<Rightarrow> (case v_recv N L len 0 x (snd st) of (r, bs, w) \<Rightarrow> (r, bs, (fst st, w))))"

definition stream_send :: "'w net \<Rightarrow> 'w sslib \<Rightarrow> socket_stream \<Rightarrow> 'w sock_state send" where
  "stream_send N L sm bs st =
     (case the_sock sm st of None \<Rightarrow> (- 1, st) | Some x \<Rightarrow> (case v_send N L bs 0 x (snd st) of (r, w) \<Rightarrow> (r, (fst st, w))))"

definition stream_read :: "'w net \<Rightarrow> 'w sslib \<Rightarrow> socket_stream \<Rightarrow> 'w sock_state recv" where
  "stream_read N L sm = ss_read (stream_isConnected sm) (stream_recv N L sm)"

definition stream_write :: "'w net \<Rightarrow> 'w sslib \<Rightarrow> socket_stream \<Rightarrow> 'w sock_state send" where
  "stream_write N L sm = ss_write (stream_isConnected sm) (stream_send N L sm)"

definition stream_close :: "'w net \<Rightarrow> socket_stream \<Rightarrow> 'w sock_state \<Rightarrow> 'w sock_state" where
  "stream_close N sm st =
     (case sm_socket sm of None \<Rightarrow> st | Some i \<Rightarrow> on_obj i (\<lambda>x w. case v_close N x w of (_, x1, w1) \<Rightarrow> (Some x1, w1)) st)"

definition stream_destroy :: "'w net \<Rightarrow> socket_stream \<Rightarrow> 'w sock_state \<Rightarrow> 'w sock_state" where
  "stream_destroy N sm st = (if sm_owner sm then stream_close N sm st else st)"

text \<open>The addresses, which the socket remembers once it has asked for them.\<close>

fun v_getRemoteAddress :: "'w net \<Rightarrow> sockobj \<Rightarrow> 'w \<Rightarrow> Address \<times> sockobj" where
  "v_getRemoteAddress N (Plain s) w = (case getRemoteAddress N s w of (a, s1) \<Rightarrow> (a, Plain s1))"
| "v_getRemoteAddress N (Ssl s) w = (case getRemoteAddress N s w of (a, s1) \<Rightarrow> (a, Ssl s1))"

fun v_getLocalAddress :: "'w net \<Rightarrow> sockobj \<Rightarrow> 'w \<Rightarrow> Address \<times> sockobj" where
  "v_getLocalAddress N (Plain s) w = (case getLocalAddress N s w of (a, s1) \<Rightarrow> (a, Plain s1))"
| "v_getLocalAddress N (Ssl s) w = (case getLocalAddress N s w of (a, s1) \<Rightarrow> (a, Ssl s1))"

definition stream_address ::
  "(sockobj \<Rightarrow> 'w \<Rightarrow> Address \<times> sockobj) \<Rightarrow> socket_stream \<Rightarrow> 'w sock_state \<Rightarrow> Address option \<times> 'w sock_state" where
  "stream_address get sm st =
     (case sm_socket sm of
        None \<Rightarrow> (None, st)
      | Some i \<Rightarrow> (case fst st i of
          None \<Rightarrow> (None, st)
        | Some x \<Rightarrow> (case get x (snd st) of (a, x1) \<Rightarrow> (Some a, ((fst st)(i \<mapsto> x1), snd st)))))"

definition stream_getRemoteAddress :: "'w net \<Rightarrow> socket_stream \<Rightarrow> 'w sock_state \<Rightarrow> Address option \<times> 'w sock_state" where
  "stream_getRemoteAddress N = stream_address (v_getRemoteAddress N)"

definition stream_getLocalAddress :: "'w net \<Rightarrow> socket_stream \<Rightarrow> 'w sock_state \<Rightarrow> Address option \<times> 'w sock_state" where
  "stream_getLocalAddress N = stream_address (v_getLocalAddress N)"

definition address_text :: "Address option \<times> 'w sock_state \<Rightarrow> string \<times> 'w sock_state" where
  "address_text = (\<lambda>(a, st). (case a of None \<Rightarrow> [] | Some addr \<Rightarrow> address_insert addr, st))"

definition stream_getRemoteAddressString :: "'w net \<Rightarrow> socket_stream \<Rightarrow> 'w sock_state \<Rightarrow> string \<times> 'w sock_state" where
  "stream_getRemoteAddressString N sm st = address_text (stream_getRemoteAddress N sm st)"

definition stream_getLocalAddressString :: "'w net \<Rightarrow> socket_stream \<Rightarrow> 'w sock_state \<Rightarrow> string \<times> 'w sock_state" where
  "stream_getLocalAddressString N sm st = address_text (stream_getLocalAddress N sm st)"

section \<open>After closing\<close>

lemma v_close_down: "v_close N x w = (r, x1, w1) \<Longrightarrow> \<not> sk_isConnected (base_of x1)"
  by (cases x) (auto simp: sk_close_def ssl_close_def Let_def socket.defs split: if_splits prod.splits)

lemma stream_close_down: "\<not> stream_isConnected sm (stream_close N sm st)"
proof (cases "the_sock sm st")
  case None
  then show ?thesis by (cases st) (auto simp: stream_isConnected_def stream_close_def the_sock_def on_obj_def split: option.splits bind_splits)
next
  case (Some x)
  then obtain i where i: "sm_socket sm = Some i" "fst st i = Some x" by (auto simp: the_sock_def split: bind_splits)
  obtain r x1 w1 where c: "v_close N x (snd st) = (r, x1, w1)" by (metis prod_cases3)
  show ?thesis using v_close_down [OF c] i c by (cases st) (simp add: stream_isConnected_def stream_close_def the_sock_def on_obj_def)
qed

text \<open>Closing a stream, or destroying one that owns its socket, closes the descriptor; from then on every read and write of any
  stream on that socket returns -1 and touches nothing.\<close>

theorem closed_stream_silent:
  assumes "net_law owns N" "the_sock sm st = Some x" "held (Some x) \<subseteq> owns (snd st)" "st' = stream_close N sm st"
  shows "owns (snd st') = owns (snd st) - held (Some x) \<and> (sm_owner sm \<longrightarrow> stream_destroy N sm st = st')
    \<and> (sm_socket sm' = sm_socket sm \<longrightarrow> stream_read N L sm' n st' = (- 1, [], st') \<and> stream_write N L sm' bs st' = (- 1, st'))"
proof -
  obtain i where i: "sm_socket sm = Some i" "fst st i = Some x" using assms(2) by (auto simp: the_sock_def split: bind_splits)
  obtain r x1 w1 where c: "v_close N x (snd st) = (r, x1, w1)" by (metis prod_cases3)
  have st': "snd st' = w1" using i c assms(4) by (cases st) (simp add: stream_close_def on_obj_def)
  have "owns w1 = owns (snd st) - held (Some x)"
    using v_close_frame [OF assms(1) c] v_close_held [OF c] assms(3) by (simp add: frame_def)
  moreover have "stream_read N L sm' n st' = (- 1, [], st') \<and> stream_write N L sm' bs st' = (- 1, st')" if "sm_socket sm' = sm_socket sm"
  proof -
    have "stream_isConnected sm' st' = stream_isConnected sm st'" using that by (simp add: stream_isConnected_def the_sock_def)
    then show ?thesis using stream_close_down [of sm N st] assms(4) by (simp add: stream_read_def stream_write_def ss_read_def ss_write_def)
  qed
  ultimately show ?thesis using st' assms(4) by (simp add: stream_destroy_def)
qed

end
