(* ===== verification/Ragel.thy ===== *)
theory Ragel
  imports CText "HOL-Library.Multiset"
begin

text \<open>
  The goto machines Ragel generates (\<open>src/http/http11_parser.rl.cc\<close>, \<open>src/http/httpclient_parser.rl.cc\<close>,
  \<open>src/uri.rl.cc\<close>). A machine is a table. A block \<open>case n:\<close> of the code is a row: ranges of bytes with the
  label they go to and the label of all other bytes. A block \<open>tr n:\<close> is a list of actions and a target, the
  block \<open>st n:\<close> behind it steps to the next byte. \<open>ragel_exec\<close> is the loop over the bytes, for any actions
  on any state.
\<close>

datatype label = St int | Tr int

datatype target = Goto int | Break int

type_synonym range = "int \<times> int \<times> label"
type_synonym state_row = "int \<times> bool \<times> range list \<times> label"
type_synonym 'a tr_row = "int \<times> 'a list \<times> target"
type_synonym 'a part = "state_row list \<times> 'a tr_row list"

text \<open>\<open>widen\<close> is the change of the byte in the states that test a condition (\<open>_widec\<close>).\<close>

fun pick :: "range list \<Rightarrow> label \<Rightarrow> int \<Rightarrow> label" where
  "pick [] d c = d"
| "pick ((lo, hi, l) # rs) d c = (if lo \<le> c \<and> c \<le> hi then l else pick rs d c)"

definition state_case :: "'a part list \<Rightarrow> (int \<Rightarrow> int) \<Rightarrow> int \<Rightarrow> int \<Rightarrow> label option" where
  "state_case parts widen cs c =
     map_option (\<lambda>(wide, rs, d). pick rs d (if wide then widen c else c)) (map_of (concat (map fst parts)) cs)"

definition tr_block :: "'a part list \<Rightarrow> int \<Rightarrow> 'a list \<times> target" where
  "tr_block parts k = (case map_of (concat (map snd parts)) k of Some t \<Rightarrow> t | None \<Rightarrow> ([], Break 0))"

text \<open>
  The machine at byte \<open>p\<close> with the bytes from there on. The result is the position where it stopped,
  its state, and the state the actions work on. State 0 is the error; \<open>lost\<close> is the state the code behind the switch
  sets when \<open>cs\<close> has no case.
\<close>

fun ragel_exec ::
  "(int \<Rightarrow> int \<Rightarrow> label option) \<Rightarrow> (int \<Rightarrow> 'a list \<times> target) \<Rightarrow> ('a \<Rightarrow> nat \<Rightarrow> 's \<Rightarrow> 's) \<Rightarrow> int \<Rightarrow> int \<Rightarrow> nat \<Rightarrow> u8 list \<Rightarrow> 's \<Rightarrow> nat \<times> int \<times> 's" where
  "ragel_exec cases trs act lost cs p [] s = (p, cs, s)"
| "ragel_exec cases trs act lost cs p (b # bs) s =
     (case cases cs (sint b) of
        None \<Rightarrow> (p, lost, s)
      | Some (St n) \<Rightarrow> if n = 0 then (p, 0, s) else ragel_exec cases trs act lost n (Suc p) bs s
      | Some (Tr k) \<Rightarrow>
          (case trs k of (acts, t) \<Rightarrow>
           let s' = fold (\<lambda>a. act a p) acts s in
           case t of
             Break n \<Rightarrow> (Suc p, n, s')
           | Goto n \<Rightarrow> if n = 0 then (p, 0, s') else ragel_exec cases trs act lost n (Suc p) bs s'))"

section \<open>Tables\<close>

text \<open>
  A table is closed when it has one row for every state from 1 to \<open>top_state\<close>, its blocks have different numbers, and
  every label it uses exists.
\<close>

definition label_ok :: "int \<Rightarrow> int list \<Rightarrow> label \<Rightarrow> bool" where
  "label_ok top_state trs l = (case l of St n \<Rightarrow> 0 \<le> n \<and> n \<le> top_state | Tr k \<Rightarrow> k \<in> set trs)"

definition closed_table :: "'a part list \<Rightarrow> int \<Rightarrow> bool" where
  "closed_table parts top_state \<longleftrightarrow>
     (let rows = concat (map fst parts); blocks = concat (map snd parts); trs = map fst blocks in
      sort (map fst rows) = [1..top_state] \<and> distinct trs
      \<and> (\<forall>(n, w, rs, d) \<in> set rows. label_ok top_state trs d \<and> (\<forall>(lo, hi, l) \<in> set rs. label_ok top_state trs l))
      \<and> (\<forall>(k, acts, t) \<in> set blocks. case t of Goto n \<Rightarrow> 1 \<le> n \<and> n \<le> top_state | Break n \<Rightarrow> 1 \<le> n \<and> n \<le> top_state))"

lemma closed_distinct:
  assumes "closed_table parts top_state"
  shows "distinct (map fst (concat (map fst parts)))" "distinct (map fst (concat (map snd parts)))"
  using assms distinct_sort [of "\<lambda>n. n" "map fst (concat (map fst parts))"] distinct_upto [of 1 top_state]
  by (auto simp: closed_table_def Let_def simp del: distinct_sort)

text \<open>The part of a table that holds a row tells what the table has for it.\<close>

lemma map_of_part:
  assumes "distinct (map fst (concat (map f parts)))" "part \<in> set parts" "k \<in> fst ` set (f part)"
  shows "map_of (concat (map f parts)) k = map_of (f part) k"
proof -
  obtain v where v: "map_of (f part) k = Some v" using assms(3) by (metis domD dom_map_of_conv_image_fst)
  then have "(k, v) \<in> set (concat (map f parts))" using assms(2) map_of_SomeD by fastforce
  then show ?thesis using v assms(1) by (simp add: map_of_is_SomeI)
qed

lemma state_case_part:
  assumes "closed_table parts top_state" "part \<in> set parts" "n \<in> fst ` set (fst part)"
  shows "state_case parts widen n c = state_case [part] widen n c"
  using map_of_part [OF closed_distinct(1) [OF assms(1)] assms(2,3)] by (simp add: state_case_def)

lemma state_case_single:
  "state_case [part] widen n c = map_option (\<lambda>(wide, rs, d). pick rs d (if wide then widen c else c)) (map_of (fst part) n)"
  by (simp add: state_case_def)

lemma tr_block_single: "tr_block [part] k = (case map_of (snd part) k of Some t \<Rightarrow> t | None \<Rightarrow> ([], Break 0))"
  by (simp add: tr_block_def)

lemma tr_block_in: "tr_block parts k = t \<Longrightarrow> (k, t) \<in> set (concat (map snd parts)) \<or> t = ([], Break 0)"
  by (auto simp: tr_block_def split: option.splits dest!: map_of_SomeD)

lemma tr_block_part:
  assumes "closed_table parts top_state" "part \<in> set parts" "k \<in> fst ` set (snd part)"
  shows "tr_block parts k = tr_block [part] k"
  using map_of_part [OF closed_distinct(2) [OF assms(1)] assms(2,3)] by (simp add: tr_block_def)

text \<open>
  A check for big tables: the numbers of the rows are given as runs that tile the states, and those of the blocks
  as intervals.
\<close>

fun tiles :: "int \<Rightarrow> (int \<times> int) list \<Rightarrow> int \<Rightarrow> bool" where
  "tiles a [] b \<longleftrightarrow> a = b + 1"
| "tiles a ((lo, hi) # rs) b \<longleftrightarrow> lo = a \<and> lo \<le> hi \<and> hi \<le> b \<and> tiles (hi + 1) rs b"

definition runs_of :: "(int \<times> int) list \<Rightarrow> int list" where
  "runs_of rs = concat (map (\<lambda>(lo, hi). [lo..hi]) rs)"

definition in_intervals :: "(int \<times> int) list \<Rightarrow> int \<Rightarrow> bool" where
  "in_intervals ivs c \<longleftrightarrow> list_ex (\<lambda>(lo, hi). lo \<le> c \<and> c \<le> hi) ivs"

lemma tiles_runs: "tiles a rs b \<Longrightarrow> runs_of rs = [a..b]"
  by (induction a rs b rule: tiles.induct) (auto simp: runs_of_def upto_split2 intro: upto_split2 [symmetric])

lemma sort_runs:
  assumes "map fst rows = runs_of rs" and "tiles 1 (sort_key fst rs) top_state"
  shows "sort (map fst rows) = [1..top_state]"
proof (rule properties_for_sort)
  have "mset (runs_of xs) = sum_mset (image_mset (\<lambda>(lo, hi). mset [lo..hi]) (mset xs))" for xs
    by (induction xs) (auto simp: runs_of_def)
  then have "mset (runs_of (sort_key fst rs)) = mset (runs_of rs)" by simp
  then show "mset [1..top_state] = mset (map fst rows)" using tiles_runs [OF assms(2)] assms(1) by simp
qed simp

definition labels_in :: "int \<Rightarrow> (int \<times> int) list \<Rightarrow> label \<Rightarrow> bool" where
  "labels_in top_state ivs l = (case l of St n \<Rightarrow> 0 \<le> n \<and> n \<le> top_state | Tr k \<Rightarrow> in_intervals ivs k)"

lemma closed_tableI:
  assumes "map fst (concat (map fst parts)) = runs_of rs" and "tiles 1 (sort_key fst rs) top_state"
    and "distinct (map fst (concat (map snd parts)))" and "list_all (\<lambda>k. k \<in> set (map fst (concat (map snd parts)))) (runs_of ivs)"
    and "list_all (list_all (\<lambda>(n, w, rs, d). labels_in top_state ivs d \<and> list_all (\<lambda>(lo, hi, l). labels_in top_state ivs l) rs) \<circ> fst) parts"
    and "list_all (list_all (\<lambda>(k, acts, t). case t of Goto n \<Rightarrow> 1 \<le> n \<and> n \<le> top_state | Break n \<Rightarrow> 1 \<le> n \<and> n \<le> top_state) \<circ> snd) parts"
  shows "closed_table parts top_state"
proof -
  let ?trs = "map fst (concat (map snd parts))"
  have ok: "label_ok top_state ?trs l" if "labels_in top_state ivs l" for l
    using that assms(4) by (fastforce simp: labels_in_def label_ok_def in_intervals_def list_ex_iff list_all_iff runs_of_def split: label.splits)
  have "\<forall>(n, w, rs, d) \<in> set (concat (map fst parts)). label_ok top_state ?trs d \<and> (\<forall>(lo, hi, l) \<in> set rs. label_ok top_state ?trs l)"
    using assms(5) ok by (fastforce simp: list_all_iff)
  moreover have "\<forall>(k, acts, t) \<in> set (concat (map snd parts)). case t of Goto n \<Rightarrow> 1 \<le> n \<and> n \<le> top_state | Break n \<Rightarrow> 1 \<le> n \<and> n \<le> top_state"
    using assms(6) by (fastforce simp: list_all_iff)
  ultimately show ?thesis using sort_runs [OF assms(1,2)] assms(3) by (simp only: closed_table_def Let_def)
qed

section \<open>Runs\<close>

lemma ragel_exec_position:
  "ragel_exec cases trs act lost cs p bs s = (p', cs', s') \<Longrightarrow> p \<le> p' \<and> p' \<le> p + length bs"
proof (induction cases trs act lost cs p bs s rule: ragel_exec.induct)
  case (2 cases trs act lost cs p b bs s)
  then show ?case
    by (force split: option.splits label.splits target.splits prod.splits if_splits simp: Let_def)
qed simp

text \<open>What every action keeps at every position of the buffer, the machine keeps.\<close>

lemma ragel_exec_invariant:
  assumes "\<And>a q s. inv' q s \<Longrightarrow> q < n \<Longrightarrow> inv' q (act a q s)" "\<And>q s. inv' q s \<Longrightarrow> inv' (Suc q) s"
    and "inv' p s" "p + length bs = n" "ragel_exec cases trs act lost cs p bs s = (p', cs', s')"
  shows "inv' p' s'"
  using assms(3-)
proof (induction bs arbitrary: cs p s)
  case (Cons b bs)
  have fold: "inv' p (fold (\<lambda>a. act a p) acts s)" for acts
    using Cons.prems(1,2) assms(1) by (induction acts arbitrary: s) auto
  have next_byte: "inv' p' s'" if "ragel_exec cases trs act lost m (Suc p) bs t = (p', cs', s')" "inv' p t" for m t
    using Cons.IH [OF assms(2) [OF that(2)] _ that(1)] Cons.prems(2) by simp
  show ?case
    using Cons.prems fold next_byte assms(2)
    by (auto split: option.splits label.splits target.splits prod.splits if_splits simp: Let_def)
qed auto

text \<open>An action that only occurs in blocks that stop the machine in a state \<open>fin\<close> is the last one it takes.\<close>

lemma ragel_exec_last:
  assumes keep: "\<And>a q s. a \<noteq> stop \<Longrightarrow> P s \<Longrightarrow> P (act a q s)"
    and blocks: "\<And>k. stop \<in> set (fst (trs k)) \<Longrightarrow> \<exists>n. snd (trs k) = Break n \<and> fin n"
    and "P s" "ragel_exec cases trs act lost cs p bs s = (p', cs', s')"
  shows "fin cs' \<or> P s'"
  using assms(3-)
proof (induction bs arbitrary: cs p s)
  case (Cons b bs)
  have fold: "P (fold (\<lambda>a. act a p) acts s)" if "stop \<notin> set acts" for acts
    using that Cons.prems(1) keep by (induction acts arbitrary: s) auto
  show ?case
  proof (cases "cases cs (sint b)")
    case (Some l)
    show ?thesis
    proof (cases l)
      case (Tr k)
      obtain acts t where t: "trs k = (acts, t)" by (cases "trs k")
      show ?thesis
      proof (cases "stop \<in> set acts")
        case True
        then obtain n where "t = Break n" "fin n" using blocks [of k] t by auto
        then show ?thesis using Cons.prems(2) Some Tr t by (auto simp: Let_def)
      next
        case False
        then show ?thesis using Cons fold [OF False] Some Tr t by (auto simp: Let_def split: target.splits if_splits)
      qed
    qed (use Cons Some in \<open>auto split: if_splits\<close>)
  qed (use Cons in auto)
qed auto

lemma exec_goto:
  "cases cs (sint b) = Some (St n) \<Longrightarrow> n \<noteq> 0 \<Longrightarrow>
     ragel_exec cases trs act lost cs p (b # bs) s = ragel_exec cases trs act lost n (Suc p) bs s"
  by simp

lemma exec_block:
  "cases cs (sint b) = Some (Tr k) \<Longrightarrow> trs k = (acts, Goto n) \<Longrightarrow> n \<noteq> 0 \<Longrightarrow>
     ragel_exec cases trs act lost cs p (b # bs) s = ragel_exec cases trs act lost n (Suc p) bs (fold (\<lambda>a. act a p) acts s)"
  by (simp add: Let_def)

lemma exec_break:
  "cases cs (sint b) = Some (Tr k) \<Longrightarrow> trs k = (acts, Break n) \<Longrightarrow>
     ragel_exec cases trs act lost cs p (b # bs) s = (Suc p, n, fold (\<lambda>a. act a p) acts s)"
  by (simp add: Let_def)

lemma exec_loop:
  "(\<And>b. b \<in> set w \<Longrightarrow> cases cs (sint b) = Some (St cs)) \<Longrightarrow> cs \<noteq> 0 \<Longrightarrow>
     ragel_exec cases trs act lost cs p (w @ bs) s = ragel_exec cases trs act lost cs (p + length w) bs s"
  by (induction w arbitrary: p) simp_all

text \<open>A word spelled out by a chain of states.\<close>

fun chain :: "(int \<Rightarrow> int \<Rightarrow> label option) \<Rightarrow> int \<Rightarrow> u8 list \<Rightarrow> int \<Rightarrow> bool" where
  "chain cases cs [] cs' \<longleftrightarrow> cs = cs'"
| "chain cases cs (b # bs) cs' \<longleftrightarrow> (case cases cs (sint b) of Some (St n) \<Rightarrow> n \<noteq> 0 \<and> chain cases n bs cs' | _ \<Rightarrow> False)"

lemma exec_chain:
  "chain cases cs w cs' \<Longrightarrow> ragel_exec cases trs act lost cs p (w @ bs) s = ragel_exec cases trs act lost cs' (p + length w) bs s"
  by (induction cases cs w cs' arbitrary: p rule: chain.induct) (auto split: option.splits label.splits)

section \<open>Classes of states\<close>

lemma pick_in: "pick rs d c = d \<or> (\<exists>lo hi. (lo, hi, pick rs d c) \<in> set rs \<and> lo \<le> c \<and> c \<le> hi)"
  by (induction rs d c rule: pick.induct) auto

text \<open>Where a transition comes from: the default of a row or one of its ranges.\<close>

lemma state_case_in:
  assumes "state_case parts widen cs c = Some l"
  obtains wide rs d where "(cs, wide, rs, d) \<in> set (concat (map fst parts))"
    "l = d \<or> (\<exists>lo hi. (lo, hi, l) \<in> set rs \<and> lo \<le> (if wide then widen c else c) \<and> (if wide then widen c else c) \<le> hi)"
proof -
  from assms obtain wide rs d where r: "map_of (concat (map fst parts)) cs = Some (wide, rs, d)"
    "l = pick rs d (if wide then widen c else c)" by (auto simp: state_case_def)
  show thesis by (rule that [OF map_of_SomeD [OF r(1)]]) (use pick_in [of rs d "if wide then widen c else c"] r(2) in auto)
qed

text \<open>
  \<open>pick_all\<close> decides whether a property holds of the labels of all bytes from \<open>lo\<close> to \<open>hi\<close>, by cutting the interval at
  the ranges of the row; \<open>steps_to\<close> does so for several states and intervals.
\<close>

fun pick_all :: "(label \<Rightarrow> bool) \<Rightarrow> range list \<Rightarrow> label \<Rightarrow> int \<Rightarrow> int \<Rightarrow> bool" where
  "pick_all P [] d lo hi \<longleftrightarrow> P d"
| "pick_all P ((a, b, l) # rs) d lo hi \<longleftrightarrow>
     (if b < lo \<or> hi < a then pick_all P rs d lo hi
      else P l \<and> (if lo < a then pick_all P rs d lo (a - 1) else True) \<and> (if b < hi then pick_all P rs d (b + 1) hi else True))"

lemma pick_all: "pick_all P rs d lo hi \<Longrightarrow> lo \<le> c \<Longrightarrow> c \<le> hi \<Longrightarrow> P (pick rs d c)"
  by (induction P rs d lo hi rule: pick_all.induct) (auto split: if_splits)

definition steps_to :: "'a part list \<Rightarrow> int list \<Rightarrow> (int \<times> int) list \<Rightarrow> (int \<Rightarrow> label \<Rightarrow> bool) \<Rightarrow> bool" where
  "steps_to parts qs ivs P \<longleftrightarrow>
     list_all (\<lambda>part. list_all (\<lambda>(n, wide, rs, d).
       if n \<in> set qs then \<not> wide \<and> list_all (\<lambda>(lo, hi). pick_all (P n) rs d lo hi) ivs else True) (fst part)) parts"

lemma closed_row:
  assumes "closed_table parts top_state" "1 \<le> q" "q \<le> top_state"
  obtains wide rs d where "map_of (concat (map fst parts)) q = Some (wide, rs, d)"
proof -
  let ?ks = "map fst (concat (map fst parts))"
  have "sort ?ks = [1..top_state]" using assms(1) by (simp add: closed_table_def Let_def)
  then have "set ?ks = {1..top_state}" using set_sort [of "\<lambda>x. x" ?ks] by (simp del: set_sort)
  then have "q \<in> fst ` set (concat (map fst parts))" using assms by (metis atLeastAtMost_iff set_map)
  then show thesis using that by (metis domD dom_map_of_conv_image_fst prod_cases3)
qed

lemma steps_toD:
  assumes "steps_to parts qs ivs P" "closed_table parts top_state" "q \<in> set qs" "1 \<le> q" "q \<le> top_state" "in_intervals ivs c"
  shows "\<exists>l. state_case parts widen q c = Some l \<and> P q l"
proof -
  obtain wide rs d where r: "map_of (concat (map fst parts)) q = Some (wide, rs, d)" using closed_row [OF assms(2,4,5)] .
  have "(q, wide, rs, d) \<in> set (concat (map fst parts))" using map_of_SomeD [OF r] .
  then have "\<not> wide" "list_all (\<lambda>(lo, hi). pick_all (P q) rs d lo hi) ivs"
    using assms(1,3) by (force simp: steps_to_def list_all_iff)+
  then show ?thesis using r assms(6) pick_all [of "P q" rs d _ _ c]
    by (fastforce simp: state_case_def in_intervals_def list_all_iff list_ex_iff)
qed

text \<open>The steps of some states, read off the parts of the table that hold them.\<close>

definition part_steps :: "'a part list \<Rightarrow> int list \<Rightarrow> (int \<times> int) list \<Rightarrow> (int \<Rightarrow> label \<Rightarrow> bool) \<Rightarrow> bool" where
  "part_steps ps qs ivs P \<longleftrightarrow>
     list_all (\<lambda>q. case map_of (concat (map fst ps)) q of None \<Rightarrow> False
       | Some (wide, rs, d) \<Rightarrow> \<not> wide \<and> list_all (\<lambda>(lo, hi). pick_all (P q) rs d lo hi) ivs) qs"

lemma part_stepsD:
  assumes "part_steps ps qs ivs P" "closed_table parts top_state" "set ps \<subseteq> set parts" "q \<in> set qs" "in_intervals ivs c"
  shows "\<exists>l. state_case parts widen q c = Some l \<and> P q l"
proof -
  obtain rs d where r: "map_of (concat (map fst ps)) q = Some (False, rs, d)" "list_all (\<lambda>(lo, hi). pick_all (P q) rs d lo hi) ivs"
    using assms(1,4) by (force simp: part_steps_def list_all_iff split: option.splits)
  have "(q, False, rs, d) \<in> set (concat (map fst parts))" using map_of_SomeD [OF r(1)] assms(3) by force
  then have "map_of (concat (map fst parts)) q = Some (False, rs, d)" using closed_distinct(1) [OF assms(2)] by (rule map_of_is_SomeI [rotated])
  then show ?thesis using r(2) assms(5) pick_all [of "P q" rs d _ _ c]
    by (fastforce simp: state_case_def in_intervals_def list_all_iff list_ex_iff)
qed

lemma part_block:
  assumes "closed_table parts top_state" "set ps \<subseteq> set parts" "map_of (concat (map snd ps)) k = Some t"
  shows "tr_block parts k = t"
proof -
  have "(k, t) \<in> set (concat (map snd parts))" using map_of_SomeD [OF assms(3)] assms(2) by force
  then have "map_of (concat (map snd parts)) k = Some t" using closed_distinct(2) [OF assms(1)] by (rule map_of_is_SomeI [rotated])
  then show ?thesis by (simp add: tr_block_def)
qed

text \<open>A loop over a class of states that takes no action.\<close>

lemma exec_class:
  assumes "\<And>q b. q \<in> set qs \<Longrightarrow> b \<in> set w \<Longrightarrow> \<exists>n \<in> set qs. n \<noteq> 0 \<and> cases q (sint b) = Some (St n)"
  shows "q \<in> set qs \<Longrightarrow> \<exists>q' \<in> set qs. \<forall>bs s. ragel_exec cases trs act lost q p (w @ bs) s = ragel_exec cases trs act lost q' (p + length w) bs s"
  using assms
proof (induction w arbitrary: q p)
  case (Cons b w)
  obtain n where n: "n \<in> set qs" "n \<noteq> 0" "cases q (sint b) = Some (St n)" using Cons.prems by force
  obtain q' where "q' \<in> set qs" "\<forall>bs s. ragel_exec cases trs act lost n (Suc p) (w @ bs) s = ragel_exec cases trs act lost q' (Suc p + length w) bs s"
    using Cons.IH [OF n(1), of "Suc p"] Cons.prems(2) by force
  then show ?case using n by auto
qed auto

section \<open>Text with percent escapes\<close>

text \<open>
  Text of plain characters \<open>ok\<close> and escapes of a percent sign and two hexadecimal digits. Bytes are signed, as
  the machines see them.
\<close>

definition xdigit :: "int \<Rightarrow> bool" where
  "xdigit c \<longleftrightarrow> 48 \<le> c \<and> c \<le> 57 \<or> 65 \<le> c \<and> c \<le> 70 \<or> 97 \<le> c \<and> c \<le> 102"

fun pct_text :: "(int \<Rightarrow> bool) \<Rightarrow> int list \<Rightarrow> bool" where
  "pct_text ok [] \<longleftrightarrow> True"
| "pct_text ok (c # cs) \<longleftrightarrow>
     (if c = 37 then (case cs of x # y # r \<Rightarrow> xdigit x \<and> xdigit y \<and> pct_text ok r | _ \<Rightarrow> False)
      else ok c \<and> pct_text ok cs)"

text \<open>States that read such text: one for the characters and two for the digits behind a percent sign.\<close>

locale pct_states =
  fixes cases :: "int \<Rightarrow> int \<Rightarrow> label option" and ok :: "int \<Rightarrow> bool" and q q1 q2 :: int
  assumes plain: "ok c \<Longrightarrow> c \<noteq> 37 \<Longrightarrow> cases q c = Some (St q)"
    and percent: "cases q 37 = Some (St q1)"
    and digit1: "xdigit c \<Longrightarrow> cases q1 c = Some (St q2)"
    and digit2: "xdigit c \<Longrightarrow> cases q2 c = Some (St q)"
    and nonzero: "q \<noteq> 0" "q1 \<noteq> 0" "q2 \<noteq> 0"
begin

lemma exec_pct:
  "pct_text ok (map sint w) \<Longrightarrow> ragel_exec cases trs act lost q p (w @ bs) s = ragel_exec cases trs act lost q (p + length w) bs s"
proof (induction w arbitrary: p rule: length_induct)
  case (1 w)
  show ?case
  proof (cases w)
    case (Cons b v)
    then show ?thesis
      using 1 percent nonzero by (auto simp: plain digit1 digit2 split: if_splits list.splits)
  qed simp
qed

end

end
