(* ===== verification/HttpMachine.thy ===== *)
theory HttpMachine
  imports Ragel
begin

text \<open>
  The machine of \<open>src/http/http11_parser.rl.cc\<close> that reads the heads of requests. Every definition tabulates
  the blocks of a stretch of the code, in their order.
\<close>

datatype http_action =
    MARK_mark | MARK_field_start | MARK_query_start | write_field | write_value | request_method_act | request_uri_act
  | fragment_act | query_string_act | http_version_act | request_path_act | json | xml | http_done

definition http_part_1 :: "http_action part" where
  "http_part_1 =
    ([(1, False, [(48, 57, Tr 0), (60, 60, Tr 2), (64, 64, Tr 3), (65, 90, Tr 0)], St 0),
      (2, False, [(32, 32, Tr 4), (48, 57, St 175), (65, 90, St 175)], St 0),
      (3, True, [(32, 32, Tr 6), (33, 33, Tr 7), (35, 35, Tr 8), (36, 36, Tr 7), (37, 37, Tr 9), (38, 46, Tr 7), (47, 47, Tr 10),
        (48, 57, Tr 7), (59, 59, Tr 7), (61, 61, Tr 7), (63, 63, Tr 11), (64, 64, Tr 7), (65, 90, Tr 12), (95, 95, Tr 7),
        (97, 122, Tr 12), (126, 126, Tr 7), (606, 606, Tr 7), (635, 635, Tr 7), (637, 637, Tr 7)], St 0)],
     [(0, [MARK_mark], Goto 2),
      (4, [request_method_act], Goto 3),
      (6, [MARK_mark, request_path_act, request_uri_act], Goto 4),
      (37, [request_path_act, request_uri_act], Goto 4),
      (44, [MARK_mark, fragment_act], Goto 4),
      (47, [fragment_act], Goto 4),
      (54, [MARK_query_start, query_string_act, request_uri_act], Goto 4)])"

definition http_part_2 :: "http_action part" where
  "http_part_2 =
    ([(4, False, [(72, 72, Tr 13)], St 0),
      (5, False, [(84, 84, St 6)], St 0),
      (6, False, [(84, 84, St 7)], St 0),
      (7, False, [(80, 80, St 8)], St 0),
      (8, False, [(47, 47, St 9)], St 0),
      (9, False, [(49, 49, St 10)], St 0),
      (10, False, [(46, 46, St 11)], St 0),
      (11, False, [(48, 49, St 12)], St 0),
      (12, False, [(10, 10, Tr 21), (13, 13, Tr 22)], St 0),
      (13, False, [(1, 8, Tr 23), (10, 10, Tr 24), (11, 12, Tr 23), (13, 13, Tr 25), (14, 31, Tr 23), (33, 33, Tr 23), (35, 39, Tr 23),
        (42, 43, Tr 23), (45, 46, Tr 23), (48, 57, Tr 23), (65, 90, Tr 23), (94, 122, Tr 23), (124, 124, Tr 23), (126, 126, Tr 23)], St 0)],
     [(58, [query_string_act, request_uri_act], Goto 4),
      (13, [MARK_mark], Goto 5),
      (21, [http_version_act], Goto 13),
      (30, [MARK_mark, write_value], Goto 13),
      (33, [write_value], Goto 13),
      (23, [MARK_field_start], Goto 14)])"

definition http_part_3 :: "http_action part" where
  "http_part_3 =
    ([(14, False, [(1, 8, St 14), (10, 31, St 14), (33, 33, St 14), (35, 39, St 14), (42, 43, St 14), (45, 46, St 14), (48, 57, St 14),
        (58, 58, Tr 27), (65, 90, St 14), (94, 122, St 14), (124, 124, St 14), (126, 126, St 14)], St 0),
      (15, False, [(0, 0, St 0), (9, 9, Tr 29), (10, 10, Tr 30), (13, 13, Tr 31), (32, 32, Tr 29), (127, 127, St 0)], Tr 28),
      (16, False, [(0, 0, St 0), (10, 10, Tr 33), (13, 13, Tr 34), (127, 127, St 0)], St 16),
      (17, False, [(10, 10, St 13)], St 0)],
     [(27, [write_field], Goto 15),
      (29, [MARK_mark], Goto 15),
      (28, [MARK_mark], Goto 16),
      (22, [http_version_act], Goto 17),
      (31, [MARK_mark, write_value], Goto 17),
      (34, [write_value], Goto 17),
      (24, [MARK_field_start, http_done], Break 348),
      (36, [http_done], Break 348)])"

definition http_part_4 :: "http_action part" where
  "http_part_4 =
    ([(348, False, [(1, 8, St 14), (10, 31, St 14), (33, 33, St 14), (35, 39, St 14), (42, 43, St 14), (45, 46, St 14),
        (48, 57, St 14), (58, 58, Tr 27), (65, 90, St 14), (94, 122, St 14), (124, 124, St 14), (126, 126, St 14)], St 0),
      (18, False, [(1, 8, St 14), (10, 10, Tr 36), (11, 31, St 14), (33, 33, St 14), (35, 39, St 14), (42, 43, St 14), (45, 46, St 14),
        (48, 57, St 14), (58, 58, Tr 27), (65, 90, St 14), (94, 122, St 14), (124, 124, St 14), (126, 126, St 14)], St 0),
      (19, True, [(32, 32, Tr 37), (33, 33, St 19), (35, 35, Tr 39), (36, 36, St 19), (37, 37, St 24), (38, 46, St 19),
        (47, 47, St 26), (48, 57, St 19), (59, 59, St 19), (61, 61, St 19), (63, 63, Tr 42), (64, 90, St 19), (95, 95, St 19),
        (97, 122, St 19), (126, 126, St 19), (606, 606, St 19), (635, 635, St 19), (637, 637, St 19)], St 0)],
     [(25, [MARK_field_start], Goto 18),
      (7, [MARK_mark], Goto 19),
      (8, [MARK_mark, request_path_act, request_uri_act], Goto 20)])"

definition http_part_5 :: "http_action part" where
  "http_part_5 =
    ([(20, True, [(- 128, - 1, Tr 43), (32, 32, Tr 44), (33, 33, Tr 43), (36, 36, Tr 43), (37, 37, Tr 45), (38, 59, Tr 43),
        (61, 61, Tr 43), (63, 90, Tr 43), (95, 95, Tr 43), (97, 122, Tr 43), (126, 126, Tr 43), (606, 606, Tr 43), (635, 635, Tr 43),
        (637, 637, Tr 43)], St 0),
      (21, True, [(- 128, - 1, St 21), (32, 32, Tr 47), (33, 33, St 21), (36, 36, St 21), (37, 37, St 22), (38, 59, St 21),
        (61, 61, St 21), (63, 90, St 21), (95, 95, St 21), (97, 122, St 21), (126, 126, St 21), (606, 606, St 21), (635, 635, St 21),
        (637, 637, St 21)], St 0)],
     [(39, [request_path_act, request_uri_act], Goto 20),
      (55, [MARK_query_start, query_string_act, request_uri_act], Goto 20),
      (59, [query_string_act, request_uri_act], Goto 20),
      (43, [MARK_mark], Goto 21),
      (45, [MARK_mark], Goto 22)])"

definition http_part_6 :: "http_action part" where
  "http_part_6 =
    ([(22, False, [(48, 57, St 23), (65, 70, St 23), (97, 102, St 23)], St 0),
      (23, False, [(48, 57, St 21), (65, 70, St 21), (97, 102, St 21)], St 0),
      (24, False, [(48, 57, St 25), (65, 70, St 25), (97, 102, St 25)], St 0),
      (25, False, [(48, 57, St 19), (65, 70, St 19), (97, 102, St 19)], St 0),
      (26, True, [(- 128, - 1, St 26), (32, 32, Tr 37), (33, 33, St 26), (35, 35, Tr 39), (36, 36, St 26), (37, 37, St 27),
        (38, 59, St 26), (61, 61, St 26), (63, 63, Tr 42), (64, 90, St 26), (95, 95, St 26), (97, 122, St 26), (126, 126, St 26),
        (606, 606, St 26), (635, 635, St 26), (637, 637, St 26)], St 0),
      (27, False, [(48, 57, St 28), (65, 70, St 28), (97, 102, St 28)], St 0),
      (28, False, [(48, 57, St 26), (65, 70, St 26), (97, 102, St 26)], St 0)],
     [(9, [MARK_mark], Goto 24),
      (203, [MARK_mark], Goto 26),
      (204, [MARK_mark], Goto 27),
      (11, [MARK_mark, request_path_act], Goto 29)])"

definition http_part_7 :: "http_action part" where
  "http_part_7 =
    ([(29, True, [(- 128, - 1, Tr 53), (32, 32, Tr 54), (33, 33, Tr 53), (35, 35, Tr 55), (36, 36, Tr 53), (37, 37, Tr 56),
        (38, 59, Tr 53), (61, 61, Tr 53), (63, 90, Tr 53), (95, 95, Tr 53), (97, 122, Tr 53), (126, 126, Tr 53), (606, 606, Tr 53),
        (635, 635, Tr 53), (637, 637, Tr 53)], St 0),
      (30, True, [(- 128, - 1, St 30), (32, 32, Tr 58), (33, 33, St 30), (35, 35, Tr 59), (36, 36, St 30), (37, 37, St 31),
        (38, 59, St 30), (61, 61, St 30), (63, 90, St 30), (95, 95, St 30), (97, 122, St 30), (126, 126, St 30), (606, 606, St 30),
        (635, 635, St 30), (637, 637, St 30)], St 0),
      (31, False, [(48, 57, St 32), (65, 70, St 32), (97, 102, St 32)], St 0),
      (32, False, [(48, 57, St 30), (65, 70, St 30), (97, 102, St 30)], St 0)],
     [(42, [request_path_act], Goto 29),
      (53, [MARK_query_start], Goto 30),
      (56, [MARK_query_start], Goto 31),
      (10, [MARK_mark], Goto 33)])"

definition http_part_8 :: "http_action part" where
  "http_part_8 =
    ([(33, True, [(- 128, - 1, St 26), (32, 32, Tr 37), (33, 33, St 26), (35, 35, Tr 39), (36, 36, St 26), (37, 37, St 27),
        (38, 46, St 26), (47, 47, St 34), (48, 59, St 26), (61, 61, St 26), (63, 63, Tr 42), (64, 90, St 26), (95, 95, St 26),
        (97, 122, St 26), (126, 126, St 26), (606, 606, St 26), (635, 635, St 26), (637, 637, St 26)], St 0),
      (34, True, [(32, 32, Tr 37), (33, 33, St 35), (35, 35, Tr 39), (36, 36, St 35), (37, 37, St 36), (38, 46, St 35),
        (47, 47, St 26), (48, 57, St 35), (58, 58, St 38), (59, 59, St 35), (61, 61, St 35), (63, 63, Tr 42), (64, 64, St 42),
        (65, 90, St 35), (91, 91, St 47), (95, 95, St 35), (97, 122, St 35), (126, 126, St 35), (606, 606, St 35), (635, 635, St 35),
        (637, 637, St 35)], St 0),
      (35, True, [(32, 32, Tr 37), (33, 33, St 35), (35, 35, Tr 39), (36, 36, St 35), (37, 37, St 36), (38, 46, St 35),
        (47, 47, St 26), (48, 57, St 35), (58, 58, St 38), (59, 59, St 35), (61, 61, St 35), (63, 63, Tr 42), (64, 64, St 42),
        (65, 90, St 35), (95, 95, St 35), (97, 122, St 35), (126, 126, St 35), (606, 606, St 35), (635, 635, St 35),
        (637, 637, St 35)], St 0)],
     [])"

definition http_part_9 :: "http_action part" where
  "http_part_9 =
    ([(36, False, [(48, 57, St 37), (65, 70, St 37), (97, 102, St 37)], St 0),
      (37, False, [(48, 57, St 35), (65, 70, St 35), (97, 102, St 35)], St 0),
      (38, True, [(32, 32, Tr 37), (33, 33, St 39), (35, 35, Tr 39), (36, 36, St 39), (37, 37, St 40), (38, 46, St 39),
        (47, 47, St 26), (48, 57, St 38), (58, 59, St 39), (61, 61, St 39), (63, 63, Tr 42), (64, 64, St 42), (65, 90, St 39),
        (95, 95, St 39), (97, 122, St 39), (126, 126, St 39), (606, 606, St 39), (635, 635, St 39), (637, 637, St 39)], St 0),
      (39, True, [(33, 33, St 39), (36, 36, St 39), (37, 37, St 40), (38, 46, St 39), (48, 59, St 39), (61, 61, St 39),
        (64, 64, St 42), (65, 90, St 39), (95, 95, St 39), (97, 122, St 39), (126, 126, St 39), (606, 606, St 39), (635, 635, St 39),
        (637, 637, St 39)], St 0),
      (40, False, [(48, 57, St 41), (65, 70, St 41), (97, 102, St 41)], St 0)],
     [])"

definition http_part_10 :: "http_action part" where
  "http_part_10 =
    ([(41, False, [(48, 57, St 39), (65, 70, St 39), (97, 102, St 39)], St 0),
      (42, True, [(32, 32, Tr 37), (33, 33, St 43), (35, 35, Tr 39), (36, 36, St 43), (37, 37, St 44), (38, 46, St 43),
        (47, 47, St 26), (48, 57, St 43), (58, 58, St 46), (59, 59, St 43), (61, 61, St 43), (63, 63, Tr 42), (65, 90, St 43),
        (91, 91, St 47), (95, 95, St 43), (97, 122, St 43), (126, 126, St 43), (606, 606, St 43), (635, 635, St 43),
        (637, 637, St 43)], St 0),
      (43, True, [(32, 32, Tr 37), (33, 33, St 43), (35, 35, Tr 39), (36, 36, St 43), (37, 37, St 44), (38, 46, St 43),
        (47, 47, St 26), (48, 57, St 43), (58, 58, St 46), (59, 59, St 43), (61, 61, St 43), (63, 63, Tr 42), (65, 90, St 43),
        (95, 95, St 43), (97, 122, St 43), (126, 126, St 43), (606, 606, St 43), (635, 635, St 43), (637, 637, St 43)], St 0),
      (44, False, [(48, 57, St 45), (65, 70, St 45), (97, 102, St 45)], St 0),
      (45, False, [(48, 57, St 43), (65, 70, St 43), (97, 102, St 43)], St 0),
      (46, False, [(32, 32, Tr 37), (35, 35, Tr 39), (47, 47, St 26), (48, 57, St 46), (63, 63, Tr 42)], St 0)],
     [])"

definition http_part_11 :: "http_action part" where
  "http_part_11 =
    ([(47, False, [(6, 6, St 48), (48, 57, St 91), (58, 58, St 167), (65, 70, St 91), (97, 102, St 91), (118, 118, St 169)], St 0),
      (48, False, [(48, 57, St 49), (65, 70, St 49), (97, 102, St 49)], St 0),
      (49, False, [(48, 57, St 50), (58, 58, St 53), (65, 70, St 50), (97, 102, St 50)], St 0),
      (50, False, [(48, 57, St 51), (58, 58, St 53), (65, 70, St 51), (97, 102, St 51)], St 0),
      (51, False, [(48, 57, St 52), (58, 58, St 53), (65, 70, St 52), (97, 102, St 52)], St 0),
      (52, False, [(58, 58, St 53)], St 0),
      (53, False, [(48, 48, St 54), (49, 49, St 84), (50, 50, St 87), (51, 57, St 54), (65, 70, St 90), (97, 102, St 90)], St 0),
      (54, False, [(46, 46, St 55), (48, 57, St 77), (58, 58, St 80), (65, 70, St 77), (97, 102, St 77)], St 0),
      (55, False, [(48, 48, St 56), (49, 49, St 72), (50, 50, St 74), (51, 57, St 56)], St 0),
      (56, False, [(46, 46, St 57)], St 0),
      (57, False, [(48, 48, St 58), (49, 49, St 67), (50, 50, St 69), (51, 57, St 58)], St 0)],
     [])"

definition http_part_12 :: "http_action part" where
  "http_part_12 =
    ([(58, False, [(46, 46, St 59)], St 0),
      (59, False, [(48, 48, St 60), (49, 49, St 62), (50, 50, St 64), (51, 57, St 60)], St 0),
      (60, False, [(93, 93, St 61)], St 0),
      (61, False, [(32, 32, Tr 37), (35, 35, Tr 39), (47, 47, St 26), (58, 58, St 46), (63, 63, Tr 42)], St 0),
      (62, False, [(48, 57, St 63), (93, 93, St 61)], St 0),
      (63, False, [(48, 57, St 60), (93, 93, St 61)], St 0),
      (64, False, [(48, 48, St 65), (53, 53, St 66), (93, 93, St 61)], St 0),
      (65, False, [(48, 57, St 60)], St 0),
      (66, False, [(48, 48, St 60)], St 0),
      (67, False, [(46, 46, St 59), (48, 57, St 68)], St 0),
      (68, False, [(46, 46, St 59), (48, 57, St 58)], St 0),
      (69, False, [(46, 46, St 59), (48, 48, St 70), (53, 53, St 71)], St 0),
      (70, False, [(48, 57, St 58)], St 0),
      (71, False, [(48, 48, St 58)], St 0),
      (72, False, [(46, 46, St 57), (48, 57, St 73)], St 0),
      (73, False, [(46, 46, St 57), (48, 57, St 56)], St 0),
      (74, False, [(46, 46, St 57), (48, 48, St 75), (53, 53, St 76)], St 0)],
     [])"

definition http_part_13 :: "http_action part" where
  "http_part_13 =
    ([(75, False, [(48, 57, St 56)], St 0),
      (76, False, [(48, 48, St 56)], St 0),
      (77, False, [(48, 57, St 78), (58, 58, St 80), (65, 70, St 78), (97, 102, St 78)], St 0),
      (78, False, [(48, 57, St 79), (58, 58, St 80), (65, 70, St 79), (97, 102, St 79)], St 0),
      (79, False, [(58, 58, St 80)], St 0),
      (80, False, [(48, 57, St 81), (65, 70, St 81), (97, 102, St 81)], St 0),
      (81, False, [(48, 57, St 82), (65, 70, St 82), (93, 93, St 61), (97, 102, St 82)], St 0),
      (82, False, [(48, 57, St 83), (65, 70, St 83), (93, 93, St 61), (97, 102, St 83)], St 0),
      (83, False, [(48, 57, St 60), (65, 70, St 60), (93, 93, St 61), (97, 102, St 60)], St 0),
      (84, False, [(46, 46, St 55), (48, 57, St 85), (58, 58, St 80), (65, 70, St 77), (97, 102, St 77)], St 0),
      (85, False, [(46, 46, St 55), (48, 57, St 86), (58, 58, St 80), (65, 70, St 78), (97, 102, St 78)], St 0)],
     [])"

definition http_part_14 :: "http_action part" where
  "http_part_14 =
    ([(86, False, [(46, 46, St 55), (48, 57, St 79), (58, 58, St 80), (65, 70, St 79), (97, 102, St 79)], St 0),
      (87, False, [(46, 46, St 55), (48, 48, St 88), (49, 52, St 77), (53, 53, St 89), (54, 57, St 77), (58, 58, St 80),
        (65, 70, St 77), (97, 102, St 77)], St 0),
      (88, False, [(48, 57, St 86), (58, 58, St 80), (65, 70, St 78), (97, 102, St 78)], St 0),
      (89, False, [(48, 48, St 86), (49, 57, St 78), (58, 58, St 80), (65, 70, St 78), (97, 102, St 78)], St 0),
      (90, False, [(48, 57, St 77), (58, 58, St 80), (65, 70, St 77), (97, 102, St 77)], St 0),
      (91, False, [(48, 57, St 92), (58, 58, St 95), (65, 70, St 92), (97, 102, St 92)], St 0),
      (92, False, [(48, 57, St 93), (58, 58, St 95), (65, 70, St 93), (97, 102, St 93)], St 0),
      (93, False, [(48, 57, St 94), (58, 58, St 95), (65, 70, St 94), (97, 102, St 94)], St 0),
      (94, False, [(58, 58, St 95)], St 0),
      (95, False, [(48, 57, St 96), (58, 58, St 166), (65, 70, St 96), (97, 102, St 96)], St 0)],
     [])"

definition http_part_15 :: "http_action part" where
  "http_part_15 =
    ([(96, False, [(48, 57, St 97), (58, 58, St 100), (65, 70, St 97), (97, 102, St 97)], St 0),
      (97, False, [(48, 57, St 98), (58, 58, St 100), (65, 70, St 98), (97, 102, St 98)], St 0),
      (98, False, [(48, 57, St 99), (58, 58, St 100), (65, 70, St 99), (97, 102, St 99)], St 0),
      (99, False, [(58, 58, St 100)], St 0),
      (100, False, [(48, 57, St 101), (58, 58, St 165), (65, 70, St 101), (97, 102, St 101)], St 0),
      (101, False, [(48, 57, St 102), (58, 58, St 105), (65, 70, St 102), (97, 102, St 102)], St 0),
      (102, False, [(48, 57, St 103), (58, 58, St 105), (65, 70, St 103), (97, 102, St 103)], St 0),
      (103, False, [(48, 57, St 104), (58, 58, St 105), (65, 70, St 104), (97, 102, St 104)], St 0),
      (104, False, [(58, 58, St 105)], St 0),
      (105, False, [(48, 57, St 106), (58, 58, St 164), (65, 70, St 106), (97, 102, St 106)], St 0),
      (106, False, [(48, 57, St 107), (58, 58, St 110), (65, 70, St 107), (97, 102, St 107)], St 0)],
     [])"

definition http_part_16 :: "http_action part" where
  "http_part_16 =
    ([(107, False, [(48, 57, St 108), (58, 58, St 110), (65, 70, St 108), (97, 102, St 108)], St 0),
      (108, False, [(48, 57, St 109), (58, 58, St 110), (65, 70, St 109), (97, 102, St 109)], St 0),
      (109, False, [(58, 58, St 110)], St 0),
      (110, False, [(48, 57, St 111), (58, 58, St 163), (65, 70, St 111), (97, 102, St 111)], St 0),
      (111, False, [(48, 57, St 112), (58, 58, St 115), (65, 70, St 112), (97, 102, St 112)], St 0),
      (112, False, [(48, 57, St 113), (58, 58, St 115), (65, 70, St 113), (97, 102, St 113)], St 0),
      (113, False, [(48, 57, St 114), (58, 58, St 115), (65, 70, St 114), (97, 102, St 114)], St 0),
      (114, False, [(58, 58, St 115)], St 0),
      (115, False, [(48, 57, St 116), (58, 58, St 151), (65, 70, St 116), (97, 102, St 116)], St 0),
      (116, False, [(48, 57, St 117), (58, 58, St 120), (65, 70, St 117), (97, 102, St 117)], St 0),
      (117, False, [(48, 57, St 118), (58, 58, St 120), (65, 70, St 118), (97, 102, St 118)], St 0)],
     [])"

definition http_part_17 :: "http_action part" where
  "http_part_17 =
    ([(118, False, [(48, 57, St 119), (58, 58, St 120), (65, 70, St 119), (97, 102, St 119)], St 0),
      (119, False, [(58, 58, St 120)], St 0),
      (120, False, [(48, 57, St 121), (58, 58, St 150), (65, 70, St 121), (97, 102, St 121)], St 0),
      (121, False, [(48, 57, St 122), (58, 58, St 125), (65, 70, St 122), (97, 102, St 122)], St 0),
      (122, False, [(48, 57, St 123), (58, 58, St 125), (65, 70, St 123), (97, 102, St 123)], St 0),
      (123, False, [(48, 57, St 124), (58, 58, St 125), (65, 70, St 124), (97, 102, St 124)], St 0),
      (124, False, [(58, 58, St 125)], St 0),
      (125, False, [(48, 57, St 121), (58, 58, St 126), (65, 70, St 121), (97, 102, St 121)], St 0),
      (126, False, [(2, 3, St 48), (48, 48, St 127), (49, 49, St 143), (50, 50, St 146), (51, 57, St 127), (65, 70, St 149),
        (93, 93, St 61), (97, 102, St 149)], St 0),
      (127, False, [(46, 46, St 55), (48, 57, St 128), (58, 58, St 131), (65, 70, St 128), (93, 93, St 61), (97, 102, St 128)], St 0)],
     [])"

definition http_part_18 :: "http_action part" where
  "http_part_18 =
    ([(128, False, [(48, 57, St 129), (58, 58, St 131), (65, 70, St 129), (93, 93, St 61), (97, 102, St 129)], St 0),
      (129, False, [(48, 57, St 130), (58, 58, St 131), (65, 70, St 130), (93, 93, St 61), (97, 102, St 130)], St 0),
      (130, False, [(58, 58, St 131), (93, 93, St 61)], St 0),
      (131, False, [(48, 48, St 132), (49, 49, St 136), (50, 50, St 139), (51, 57, St 132), (65, 70, St 142), (97, 102, St 142)], St 0),
      (132, False, [(46, 46, St 55), (48, 57, St 133), (58, 58, St 80), (65, 70, St 133), (93, 93, St 61), (97, 102, St 133)], St 0),
      (133, False, [(48, 57, St 134), (58, 58, St 80), (65, 70, St 134), (93, 93, St 61), (97, 102, St 134)], St 0),
      (134, False, [(48, 57, St 135), (58, 58, St 80), (65, 70, St 135), (93, 93, St 61), (97, 102, St 135)], St 0),
      (135, False, [(58, 58, St 80), (93, 93, St 61)], St 0),
      (136, False, [(46, 46, St 55), (48, 57, St 137), (58, 58, St 80), (65, 70, St 133), (93, 93, St 61), (97, 102, St 133)], St 0)],
     [])"

definition http_part_19 :: "http_action part" where
  "http_part_19 =
    ([(137, False, [(46, 46, St 55), (48, 57, St 138), (58, 58, St 80), (65, 70, St 134), (93, 93, St 61), (97, 102, St 134)], St 0),
      (138, False, [(46, 46, St 55), (48, 57, St 135), (58, 58, St 80), (65, 70, St 135), (93, 93, St 61), (97, 102, St 135)], St 0),
      (139, False, [(46, 46, St 55), (48, 48, St 140), (49, 52, St 133), (53, 53, St 141), (54, 57, St 133), (58, 58, St 80),
        (65, 70, St 133), (93, 93, St 61), (97, 102, St 133)], St 0),
      (140, False, [(48, 57, St 138), (58, 58, St 80), (65, 70, St 134), (93, 93, St 61), (97, 102, St 134)], St 0),
      (141, False, [(48, 48, St 138), (49, 57, St 134), (58, 58, St 80), (65, 70, St 134), (93, 93, St 61), (97, 102, St 134)], St 0),
      (142, False, [(48, 57, St 133), (58, 58, St 80), (65, 70, St 133), (93, 93, St 61), (97, 102, St 133)], St 0),
      (143, False, [(46, 46, St 55), (48, 57, St 144), (58, 58, St 131), (65, 70, St 128), (93, 93, St 61), (97, 102, St 128)], St 0),
      (144, False, [(46, 46, St 55), (48, 57, St 145), (58, 58, St 131), (65, 70, St 129), (93, 93, St 61), (97, 102, St 129)], St 0)],
     [])"

definition http_part_20 :: "http_action part" where
  "http_part_20 =
    ([(145, False, [(46, 46, St 55), (48, 57, St 130), (58, 58, St 131), (65, 70, St 130), (93, 93, St 61), (97, 102, St 130)], St 0),
      (146, False, [(46, 46, St 55), (48, 48, St 147), (49, 52, St 128), (53, 53, St 148), (54, 57, St 128), (58, 58, St 131),
        (65, 70, St 128), (93, 93, St 61), (97, 102, St 128)], St 0),
      (147, False, [(48, 57, St 145), (58, 58, St 131), (65, 70, St 129), (93, 93, St 61), (97, 102, St 129)], St 0),
      (148, False, [(48, 48, St 145), (49, 57, St 129), (58, 58, St 131), (65, 70, St 129), (93, 93, St 61), (97, 102, St 129)], St 0),
      (149, False, [(48, 57, St 128), (58, 58, St 131), (65, 70, St 128), (93, 93, St 61), (97, 102, St 128)], St 0),
      (150, False, [(2, 3, St 48), (48, 48, St 127), (49, 49, St 143), (50, 50, St 146), (51, 57, St 127), (65, 70, St 149),
        (97, 102, St 149)], St 0),
      (151, False, [(2, 3, St 48), (48, 48, St 152), (49, 49, St 156), (50, 50, St 159), (51, 57, St 152), (65, 70, St 162),
        (97, 102, St 162)], St 0),
      (152, False, [(46, 46, St 55), (48, 57, St 153), (58, 58, St 131), (65, 70, St 153), (97, 102, St 153)], St 0)],
     [])"

definition http_part_21 :: "http_action part" where
  "http_part_21 =
    ([(153, False, [(48, 57, St 154), (58, 58, St 131), (65, 70, St 154), (97, 102, St 154)], St 0),
      (154, False, [(48, 57, St 155), (58, 58, St 131), (65, 70, St 155), (97, 102, St 155)], St 0),
      (155, False, [(58, 58, St 131)], St 0),
      (156, False, [(46, 46, St 55), (48, 57, St 157), (58, 58, St 131), (65, 70, St 153), (97, 102, St 153)], St 0),
      (157, False, [(46, 46, St 55), (48, 57, St 158), (58, 58, St 131), (65, 70, St 154), (97, 102, St 154)], St 0),
      (158, False, [(46, 46, St 55), (48, 57, St 155), (58, 58, St 131), (65, 70, St 155), (97, 102, St 155)], St 0),
      (159, False, [(46, 46, St 55), (48, 48, St 160), (49, 52, St 153), (53, 53, St 161), (54, 57, St 153), (58, 58, St 131),
        (65, 70, St 153), (97, 102, St 153)], St 0),
      (160, False, [(48, 57, St 158), (58, 58, St 131), (65, 70, St 154), (97, 102, St 154)], St 0),
      (161, False, [(48, 48, St 158), (49, 57, St 154), (58, 58, St 131), (65, 70, St 154), (97, 102, St 154)], St 0)],
     [])"

definition http_part_22 :: "http_action part" where
  "http_part_22 =
    ([(162, False, [(48, 57, St 153), (58, 58, St 131), (65, 70, St 153), (97, 102, St 153)], St 0),
      (163, False, [(2, 3, St 48), (48, 57, St 49), (65, 70, St 49), (97, 102, St 49)], St 0),
      (164, False, [(2, 3, St 48)], St 0),
      (165, False, [(3, 3, St 48)], St 0),
      (166, False, [(4, 4, St 48)], St 0),
      (167, False, [(58, 58, St 168)], St 0),
      (168, False, [(2, 5, St 48), (48, 48, St 127), (49, 49, St 143), (50, 50, St 146), (51, 57, St 127), (65, 70, St 149),
        (93, 93, St 61), (97, 102, St 149)], St 0),
      (169, False, [(48, 57, St 170), (65, 70, St 170), (97, 102, St 170)], St 0),
      (170, False, [(46, 46, St 171), (48, 57, St 170), (65, 70, St 170), (97, 102, St 170)], St 0)],
     [])"

definition http_part_23 :: "http_action part" where
  "http_part_23 =
    ([(171, True, [(33, 33, St 172), (36, 36, St 172), (38, 46, St 172), (48, 59, St 172), (61, 61, St 172), (65, 90, St 172),
        (95, 95, St 172), (97, 122, St 172), (126, 126, St 172), (606, 606, St 172), (635, 635, St 172), (637, 637, St 172)], St 0),
      (172, True, [(33, 33, St 172), (36, 36, St 172), (38, 46, St 172), (48, 59, St 172), (61, 61, St 172), (65, 90, St 172),
        (93, 93, St 61), (95, 95, St 172), (97, 122, St 172), (126, 126, St 172), (606, 606, St 172), (635, 635, St 172),
        (637, 637, St 172)], St 0)],
     [(12, [MARK_mark], Goto 173)])"

definition http_part_24 :: "http_action part" where
  "http_part_24 =
    ([(173, True, [(32, 32, Tr 37), (33, 33, St 19), (35, 35, Tr 39), (36, 36, St 19), (37, 37, St 24), (38, 42, St 19),
        (43, 43, St 173), (44, 44, St 19), (45, 46, St 173), (47, 47, St 26), (48, 57, St 173), (58, 58, St 174), (59, 59, St 19),
        (61, 61, St 19), (63, 63, Tr 42), (64, 64, St 19), (65, 90, St 173), (95, 95, St 19), (97, 122, St 173), (126, 126, St 19),
        (606, 606, St 19), (635, 635, St 19), (637, 637, St 19)], St 0),
      (174, True, [(- 128, - 1, Tr 203), (32, 32, Tr 6), (33, 33, Tr 203), (35, 35, Tr 8), (36, 36, Tr 203), (37, 37, Tr 204),
        (38, 46, Tr 203), (47, 47, Tr 10), (48, 59, Tr 203), (61, 61, Tr 203), (63, 63, Tr 11), (64, 90, Tr 203), (95, 95, Tr 203),
        (97, 122, Tr 203), (126, 126, Tr 203), (606, 606, Tr 203), (635, 635, Tr 203), (637, 637, Tr 203)], St 0),
      (175, False, [(32, 32, Tr 4), (48, 57, St 176), (65, 90, St 176)], St 0),
      (176, False, [(32, 32, Tr 4), (48, 57, St 177), (65, 90, St 177)], St 0),
      (177, False, [(32, 32, Tr 4), (48, 57, St 178), (65, 90, St 178)], St 0)],
     [])"

definition http_part_25 :: "http_action part" where
  "http_part_25 =
    ([(178, False, [(32, 32, Tr 4), (48, 57, St 179), (65, 90, St 179)], St 0),
      (179, False, [(32, 32, Tr 4), (48, 57, St 180), (65, 90, St 180)], St 0),
      (180, False, [(32, 32, Tr 4), (48, 57, St 181), (65, 90, St 181)], St 0),
      (181, False, [(32, 32, Tr 4), (48, 57, St 182), (65, 90, St 182)], St 0),
      (182, False, [(32, 32, Tr 4), (48, 57, St 183), (65, 90, St 183)], St 0),
      (183, False, [(32, 32, Tr 4), (48, 57, St 184), (65, 90, St 184)], St 0),
      (184, False, [(32, 32, Tr 4), (48, 57, St 185), (65, 90, St 185)], St 0),
      (185, False, [(32, 32, Tr 4), (48, 57, St 186), (65, 90, St 186)], St 0),
      (186, False, [(32, 32, Tr 4), (48, 57, St 187), (65, 90, St 187)], St 0),
      (187, False, [(32, 32, Tr 4), (48, 57, St 188), (65, 90, St 188)], St 0),
      (188, False, [(32, 32, Tr 4), (48, 57, St 189), (65, 90, St 189)], St 0),
      (189, False, [(32, 32, Tr 4), (48, 57, St 190), (65, 90, St 190)], St 0)],
     [])"

definition http_part_26 :: "http_action part" where
  "http_part_26 =
    ([(190, False, [(32, 32, Tr 4), (48, 57, St 191), (65, 90, St 191)], St 0),
      (191, False, [(32, 32, Tr 4), (48, 57, St 192), (65, 90, St 192)], St 0),
      (192, False, [(32, 32, Tr 4), (48, 57, St 193), (65, 90, St 193)], St 0),
      (193, False, [(32, 32, Tr 4)], St 0),
      (194, False, [(45, 46, St 195), (48, 57, St 195), (65, 90, St 195), (97, 122, St 195)], St 0),
      (195, False, [(9, 13, Tr 224), (32, 32, Tr 224), (45, 46, St 195), (47, 47, Tr 224), (48, 57, St 195), (62, 62, Tr 224),
        (65, 90, St 195), (97, 122, St 195)], St 0),
      (196, False, [(62, 62, St 197)], St 196),
      (197, False, [(0, 0, Tr 227), (62, 62, St 197)], St 196)],
     [(2, [MARK_mark], Goto 194),
      (224, [request_path_act], Goto 196),
      (227, [xml, http_done], Break 349),
      (235, [json, http_done], Break 349)])"

definition http_part_27 :: "http_action part" where
  "http_part_27 =
    ([(349, False, [], St 0),
      (198, True, [(32, 32, Tr 228), (33, 33, St 202), (36, 36, St 202), (37, 37, St 203), (38, 46, St 202), (47, 47, St 208),
        (48, 57, St 202), (59, 59, St 202), (61, 61, St 202), (64, 90, St 202), (95, 95, St 202), (97, 122, St 202), (126, 126, St 202),
        (606, 606, St 202), (635, 635, St 202), (637, 637, St 202)], St 0),
      (199, False, [(123, 123, Tr 232)], St 0),
      (200, False, [(125, 125, St 201)], St 200),
      (201, False, [(0, 0, Tr 235), (125, 125, St 201)], St 200),
      (202, True, [(32, 32, Tr 228), (33, 33, St 202), (36, 36, St 202), (37, 37, St 203), (38, 46, St 202), (47, 47, St 205),
        (48, 57, St 202), (59, 59, St 202), (61, 61, St 202), (64, 90, St 202), (95, 95, St 202), (97, 122, St 202), (126, 126, St 202),
        (606, 606, St 202), (635, 635, St 202), (637, 637, St 202)], St 0)],
     [(3, [MARK_mark], Goto 198),
      (228, [request_path_act], Goto 199),
      (232, [MARK_mark], Goto 200)])"

definition http_part_28 :: "http_action part" where
  "http_part_28 =
    ([(203, False, [(48, 57, St 204), (65, 70, St 204), (97, 102, St 204)], St 0),
      (204, False, [(48, 57, St 202), (65, 70, St 202), (97, 102, St 202)], St 0),
      (205, True, [(- 128, - 1, St 205), (32, 32, Tr 228), (33, 33, St 205), (36, 36, St 205), (37, 37, St 206), (38, 59, St 205),
        (61, 61, St 205), (64, 90, St 205), (95, 95, St 205), (97, 122, St 205), (126, 126, St 205), (606, 606, St 205),
        (635, 635, St 205), (637, 637, St 205)], St 0),
      (206, False, [(48, 57, St 207), (65, 70, St 207), (97, 102, St 207)], St 0),
      (207, False, [(48, 57, St 205), (65, 70, St 205), (97, 102, St 205)], St 0),
      (208, True, [(- 128, - 1, St 205), (32, 32, Tr 228), (33, 33, St 205), (36, 36, St 205), (37, 37, St 206), (38, 46, St 205),
        (47, 47, St 209), (48, 59, St 205), (61, 61, St 205), (64, 90, St 205), (95, 95, St 205), (97, 122, St 205), (126, 126, St 205),
        (606, 606, St 205), (635, 635, St 205), (637, 637, St 205)], St 0)],
     [])"

definition http_part_29 :: "http_action part" where
  "http_part_29 =
    ([(209, True, [(32, 32, Tr 228), (33, 33, St 210), (36, 36, St 210), (37, 37, St 211), (38, 46, St 210), (47, 47, St 205),
        (48, 57, St 210), (58, 58, St 213), (59, 59, St 210), (61, 61, St 210), (64, 64, St 217), (65, 90, St 210), (91, 91, St 222),
        (95, 95, St 210), (97, 122, St 210), (126, 126, St 210), (606, 606, St 210), (635, 635, St 210), (637, 637, St 210)], St 0),
      (210, True, [(32, 32, Tr 228), (33, 33, St 210), (36, 36, St 210), (37, 37, St 211), (38, 46, St 210), (47, 47, St 205),
        (48, 57, St 210), (58, 58, St 213), (59, 59, St 210), (61, 61, St 210), (64, 64, St 217), (65, 90, St 210), (95, 95, St 210),
        (97, 122, St 210), (126, 126, St 210), (606, 606, St 210), (635, 635, St 210), (637, 637, St 210)], St 0),
      (211, False, [(48, 57, St 212), (65, 70, St 212), (97, 102, St 212)], St 0),
      (212, False, [(48, 57, St 210), (65, 70, St 210), (97, 102, St 210)], St 0)],
     [])"

definition http_part_30 :: "http_action part" where
  "http_part_30 =
    ([(213, True, [(32, 32, Tr 228), (33, 33, St 214), (36, 36, St 214), (37, 37, St 215), (38, 46, St 214), (47, 47, St 205),
        (48, 57, St 213), (58, 59, St 214), (61, 61, St 214), (64, 64, St 217), (65, 90, St 214), (95, 95, St 214), (97, 122, St 214),
        (126, 126, St 214), (606, 606, St 214), (635, 635, St 214), (637, 637, St 214)], St 0),
      (214, True, [(33, 33, St 214), (36, 36, St 214), (37, 37, St 215), (38, 46, St 214), (48, 59, St 214), (61, 61, St 214),
        (64, 64, St 217), (65, 90, St 214), (95, 95, St 214), (97, 122, St 214), (126, 126, St 214), (606, 606, St 214),
        (635, 635, St 214), (637, 637, St 214)], St 0),
      (215, False, [(48, 57, St 216), (65, 70, St 216), (97, 102, St 216)], St 0),
      (216, False, [(48, 57, St 214), (65, 70, St 214), (97, 102, St 214)], St 0)],
     [])"

definition http_part_31 :: "http_action part" where
  "http_part_31 =
    ([(217, True, [(32, 32, Tr 228), (33, 33, St 218), (36, 36, St 218), (37, 37, St 219), (38, 46, St 218), (47, 47, St 205),
        (48, 57, St 218), (58, 58, St 221), (59, 59, St 218), (61, 61, St 218), (65, 90, St 218), (91, 91, St 222), (95, 95, St 218),
        (97, 122, St 218), (126, 126, St 218), (606, 606, St 218), (635, 635, St 218), (637, 637, St 218)], St 0),
      (218, True, [(32, 32, Tr 228), (33, 33, St 218), (36, 36, St 218), (37, 37, St 219), (38, 46, St 218), (47, 47, St 205),
        (48, 57, St 218), (58, 58, St 221), (59, 59, St 218), (61, 61, St 218), (65, 90, St 218), (95, 95, St 218), (97, 122, St 218),
        (126, 126, St 218), (606, 606, St 218), (635, 635, St 218), (637, 637, St 218)], St 0),
      (219, False, [(48, 57, St 220), (65, 70, St 220), (97, 102, St 220)], St 0),
      (220, False, [(48, 57, St 218), (65, 70, St 218), (97, 102, St 218)], St 0),
      (221, False, [(32, 32, Tr 228), (47, 47, St 205), (48, 57, St 221)], St 0),
      (222, False, [(6, 6, St 223), (48, 57, St 266), (58, 58, St 342), (65, 70, St 266), (97, 102, St 266), (118, 118, St 344)], St 0)],
     [])"

definition http_part_32 :: "http_action part" where
  "http_part_32 =
    ([(223, False, [(48, 57, St 224), (65, 70, St 224), (97, 102, St 224)], St 0),
      (224, False, [(48, 57, St 225), (58, 58, St 228), (65, 70, St 225), (97, 102, St 225)], St 0),
      (225, False, [(48, 57, St 226), (58, 58, St 228), (65, 70, St 226), (97, 102, St 226)], St 0),
      (226, False, [(48, 57, St 227), (58, 58, St 228), (65, 70, St 227), (97, 102, St 227)], St 0),
      (227, False, [(58, 58, St 228)], St 0),
      (228, False, [(48, 48, St 229), (49, 49, St 259), (50, 50, St 262), (51, 57, St 229), (65, 70, St 265), (97, 102, St 265)], St 0),
      (229, False, [(46, 46, St 230), (48, 57, St 252), (58, 58, St 255), (65, 70, St 252), (97, 102, St 252)], St 0),
      (230, False, [(48, 48, St 231), (49, 49, St 247), (50, 50, St 249), (51, 57, St 231)], St 0),
      (231, False, [(46, 46, St 232)], St 0),
      (232, False, [(48, 48, St 233), (49, 49, St 242), (50, 50, St 244), (51, 57, St 233)], St 0),
      (233, False, [(46, 46, St 234)], St 0),
      (234, False, [(48, 48, St 235), (49, 49, St 237), (50, 50, St 239), (51, 57, St 235)], St 0),
      (235, False, [(93, 93, St 236)], St 0)],
     [])"

definition http_part_33 :: "http_action part" where
  "http_part_33 =
    ([(236, False, [(32, 32, Tr 228), (47, 47, St 205), (58, 58, St 221)], St 0),
      (237, False, [(48, 57, St 238), (93, 93, St 236)], St 0),
      (238, False, [(48, 57, St 235), (93, 93, St 236)], St 0),
      (239, False, [(48, 48, St 240), (53, 53, St 241), (93, 93, St 236)], St 0),
      (240, False, [(48, 57, St 235)], St 0),
      (241, False, [(48, 48, St 235)], St 0),
      (242, False, [(46, 46, St 234), (48, 57, St 243)], St 0),
      (243, False, [(46, 46, St 234), (48, 57, St 233)], St 0),
      (244, False, [(46, 46, St 234), (48, 48, St 245), (53, 53, St 246)], St 0),
      (245, False, [(48, 57, St 233)], St 0),
      (246, False, [(48, 48, St 233)], St 0),
      (247, False, [(46, 46, St 232), (48, 57, St 248)], St 0),
      (248, False, [(46, 46, St 232), (48, 57, St 231)], St 0),
      (249, False, [(46, 46, St 232), (48, 48, St 250), (53, 53, St 251)], St 0),
      (250, False, [(48, 57, St 231)], St 0),
      (251, False, [(48, 48, St 231)], St 0)],
     [])"

definition http_part_34 :: "http_action part" where
  "http_part_34 =
    ([(252, False, [(48, 57, St 253), (58, 58, St 255), (65, 70, St 253), (97, 102, St 253)], St 0),
      (253, False, [(48, 57, St 254), (58, 58, St 255), (65, 70, St 254), (97, 102, St 254)], St 0),
      (254, False, [(58, 58, St 255)], St 0),
      (255, False, [(48, 57, St 256), (65, 70, St 256), (97, 102, St 256)], St 0),
      (256, False, [(48, 57, St 257), (65, 70, St 257), (93, 93, St 236), (97, 102, St 257)], St 0),
      (257, False, [(48, 57, St 258), (65, 70, St 258), (93, 93, St 236), (97, 102, St 258)], St 0),
      (258, False, [(48, 57, St 235), (65, 70, St 235), (93, 93, St 236), (97, 102, St 235)], St 0),
      (259, False, [(46, 46, St 230), (48, 57, St 260), (58, 58, St 255), (65, 70, St 252), (97, 102, St 252)], St 0),
      (260, False, [(46, 46, St 230), (48, 57, St 261), (58, 58, St 255), (65, 70, St 253), (97, 102, St 253)], St 0),
      (261, False, [(46, 46, St 230), (48, 57, St 254), (58, 58, St 255), (65, 70, St 254), (97, 102, St 254)], St 0)],
     [])"

definition http_part_35 :: "http_action part" where
  "http_part_35 =
    ([(262, False, [(46, 46, St 230), (48, 48, St 263), (49, 52, St 252), (53, 53, St 264), (54, 57, St 252), (58, 58, St 255),
        (65, 70, St 252), (97, 102, St 252)], St 0),
      (263, False, [(48, 57, St 261), (58, 58, St 255), (65, 70, St 253), (97, 102, St 253)], St 0),
      (264, False, [(48, 48, St 261), (49, 57, St 253), (58, 58, St 255), (65, 70, St 253), (97, 102, St 253)], St 0),
      (265, False, [(48, 57, St 252), (58, 58, St 255), (65, 70, St 252), (97, 102, St 252)], St 0),
      (266, False, [(48, 57, St 267), (58, 58, St 270), (65, 70, St 267), (97, 102, St 267)], St 0),
      (267, False, [(48, 57, St 268), (58, 58, St 270), (65, 70, St 268), (97, 102, St 268)], St 0),
      (268, False, [(48, 57, St 269), (58, 58, St 270), (65, 70, St 269), (97, 102, St 269)], St 0),
      (269, False, [(58, 58, St 270)], St 0),
      (270, False, [(48, 57, St 271), (58, 58, St 341), (65, 70, St 271), (97, 102, St 271)], St 0),
      (271, False, [(48, 57, St 272), (58, 58, St 275), (65, 70, St 272), (97, 102, St 272)], St 0)],
     [])"

definition http_part_36 :: "http_action part" where
  "http_part_36 =
    ([(272, False, [(48, 57, St 273), (58, 58, St 275), (65, 70, St 273), (97, 102, St 273)], St 0),
      (273, False, [(48, 57, St 274), (58, 58, St 275), (65, 70, St 274), (97, 102, St 274)], St 0),
      (274, False, [(58, 58, St 275)], St 0),
      (275, False, [(48, 57, St 276), (58, 58, St 340), (65, 70, St 276), (97, 102, St 276)], St 0),
      (276, False, [(48, 57, St 277), (58, 58, St 280), (65, 70, St 277), (97, 102, St 277)], St 0),
      (277, False, [(48, 57, St 278), (58, 58, St 280), (65, 70, St 278), (97, 102, St 278)], St 0),
      (278, False, [(48, 57, St 279), (58, 58, St 280), (65, 70, St 279), (97, 102, St 279)], St 0),
      (279, False, [(58, 58, St 280)], St 0),
      (280, False, [(48, 57, St 281), (58, 58, St 339), (65, 70, St 281), (97, 102, St 281)], St 0),
      (281, False, [(48, 57, St 282), (58, 58, St 285), (65, 70, St 282), (97, 102, St 282)], St 0),
      (282, False, [(48, 57, St 283), (58, 58, St 285), (65, 70, St 283), (97, 102, St 283)], St 0)],
     [])"

definition http_part_37 :: "http_action part" where
  "http_part_37 =
    ([(283, False, [(48, 57, St 284), (58, 58, St 285), (65, 70, St 284), (97, 102, St 284)], St 0),
      (284, False, [(58, 58, St 285)], St 0),
      (285, False, [(48, 57, St 286), (58, 58, St 338), (65, 70, St 286), (97, 102, St 286)], St 0),
      (286, False, [(48, 57, St 287), (58, 58, St 290), (65, 70, St 287), (97, 102, St 287)], St 0),
      (287, False, [(48, 57, St 288), (58, 58, St 290), (65, 70, St 288), (97, 102, St 288)], St 0),
      (288, False, [(48, 57, St 289), (58, 58, St 290), (65, 70, St 289), (97, 102, St 289)], St 0),
      (289, False, [(58, 58, St 290)], St 0),
      (290, False, [(48, 57, St 291), (58, 58, St 326), (65, 70, St 291), (97, 102, St 291)], St 0),
      (291, False, [(48, 57, St 292), (58, 58, St 295), (65, 70, St 292), (97, 102, St 292)], St 0),
      (292, False, [(48, 57, St 293), (58, 58, St 295), (65, 70, St 293), (97, 102, St 293)], St 0),
      (293, False, [(48, 57, St 294), (58, 58, St 295), (65, 70, St 294), (97, 102, St 294)], St 0)],
     [])"

definition http_part_38 :: "http_action part" where
  "http_part_38 =
    ([(294, False, [(58, 58, St 295)], St 0),
      (295, False, [(48, 57, St 296), (58, 58, St 325), (65, 70, St 296), (97, 102, St 296)], St 0),
      (296, False, [(48, 57, St 297), (58, 58, St 300), (65, 70, St 297), (97, 102, St 297)], St 0),
      (297, False, [(48, 57, St 298), (58, 58, St 300), (65, 70, St 298), (97, 102, St 298)], St 0),
      (298, False, [(48, 57, St 299), (58, 58, St 300), (65, 70, St 299), (97, 102, St 299)], St 0),
      (299, False, [(58, 58, St 300)], St 0),
      (300, False, [(48, 57, St 296), (58, 58, St 301), (65, 70, St 296), (97, 102, St 296)], St 0),
      (301, False, [(2, 3, St 223), (48, 48, St 302), (49, 49, St 318), (50, 50, St 321), (51, 57, St 302), (65, 70, St 324),
        (93, 93, St 236), (97, 102, St 324)], St 0),
      (302, False, [(46, 46, St 230), (48, 57, St 303), (58, 58, St 306), (65, 70, St 303), (93, 93, St 236), (97, 102, St 303)], St 0),
      (303, False, [(48, 57, St 304), (58, 58, St 306), (65, 70, St 304), (93, 93, St 236), (97, 102, St 304)], St 0)],
     [])"

definition http_part_39 :: "http_action part" where
  "http_part_39 =
    ([(304, False, [(48, 57, St 305), (58, 58, St 306), (65, 70, St 305), (93, 93, St 236), (97, 102, St 305)], St 0),
      (305, False, [(58, 58, St 306), (93, 93, St 236)], St 0),
      (306, False, [(48, 48, St 307), (49, 49, St 311), (50, 50, St 314), (51, 57, St 307), (65, 70, St 317), (97, 102, St 317)], St 0),
      (307, False, [(46, 46, St 230), (48, 57, St 308), (58, 58, St 255), (65, 70, St 308), (93, 93, St 236), (97, 102, St 308)], St 0),
      (308, False, [(48, 57, St 309), (58, 58, St 255), (65, 70, St 309), (93, 93, St 236), (97, 102, St 309)], St 0),
      (309, False, [(48, 57, St 310), (58, 58, St 255), (65, 70, St 310), (93, 93, St 236), (97, 102, St 310)], St 0),
      (310, False, [(58, 58, St 255), (93, 93, St 236)], St 0),
      (311, False, [(46, 46, St 230), (48, 57, St 312), (58, 58, St 255), (65, 70, St 308), (93, 93, St 236), (97, 102, St 308)], St 0),
      (312, False, [(46, 46, St 230), (48, 57, St 313), (58, 58, St 255), (65, 70, St 309), (93, 93, St 236), (97, 102, St 309)], St 0)],
     [])"

definition http_part_40 :: "http_action part" where
  "http_part_40 =
    ([(313, False, [(46, 46, St 230), (48, 57, St 310), (58, 58, St 255), (65, 70, St 310), (93, 93, St 236), (97, 102, St 310)], St 0),
      (314, False, [(46, 46, St 230), (48, 48, St 315), (49, 52, St 308), (53, 53, St 316), (54, 57, St 308), (58, 58, St 255),
        (65, 70, St 308), (93, 93, St 236), (97, 102, St 308)], St 0),
      (315, False, [(48, 57, St 313), (58, 58, St 255), (65, 70, St 309), (93, 93, St 236), (97, 102, St 309)], St 0),
      (316, False, [(48, 48, St 313), (49, 57, St 309), (58, 58, St 255), (65, 70, St 309), (93, 93, St 236), (97, 102, St 309)], St 0),
      (317, False, [(48, 57, St 308), (58, 58, St 255), (65, 70, St 308), (93, 93, St 236), (97, 102, St 308)], St 0),
      (318, False, [(46, 46, St 230), (48, 57, St 319), (58, 58, St 306), (65, 70, St 303), (93, 93, St 236), (97, 102, St 303)], St 0),
      (319, False, [(46, 46, St 230), (48, 57, St 320), (58, 58, St 306), (65, 70, St 304), (93, 93, St 236), (97, 102, St 304)], St 0),
      (320, False, [(46, 46, St 230), (48, 57, St 305), (58, 58, St 306), (65, 70, St 305), (93, 93, St 236), (97, 102, St 305)], St 0)],
     [])"

definition http_part_41 :: "http_action part" where
  "http_part_41 =
    ([(321, False, [(46, 46, St 230), (48, 48, St 322), (49, 52, St 303), (53, 53, St 323), (54, 57, St 303), (58, 58, St 306),
        (65, 70, St 303), (93, 93, St 236), (97, 102, St 303)], St 0),
      (322, False, [(48, 57, St 320), (58, 58, St 306), (65, 70, St 304), (93, 93, St 236), (97, 102, St 304)], St 0),
      (323, False, [(48, 48, St 320), (49, 57, St 304), (58, 58, St 306), (65, 70, St 304), (93, 93, St 236), (97, 102, St 304)], St 0),
      (324, False, [(48, 57, St 303), (58, 58, St 306), (65, 70, St 303), (93, 93, St 236), (97, 102, St 303)], St 0),
      (325, False, [(2, 3, St 223), (48, 48, St 302), (49, 49, St 318), (50, 50, St 321), (51, 57, St 302), (65, 70, St 324),
        (97, 102, St 324)], St 0),
      (326, False, [(2, 3, St 223), (48, 48, St 327), (49, 49, St 331), (50, 50, St 334), (51, 57, St 327), (65, 70, St 337),
        (97, 102, St 337)], St 0),
      (327, False, [(46, 46, St 230), (48, 57, St 328), (58, 58, St 306), (65, 70, St 328), (97, 102, St 328)], St 0),
      (328, False, [(48, 57, St 329), (58, 58, St 306), (65, 70, St 329), (97, 102, St 329)], St 0)],
     [])"

definition http_part_42 :: "http_action part" where
  "http_part_42 =
    ([(329, False, [(48, 57, St 330), (58, 58, St 306), (65, 70, St 330), (97, 102, St 330)], St 0),
      (330, False, [(58, 58, St 306)], St 0),
      (331, False, [(46, 46, St 230), (48, 57, St 332), (58, 58, St 306), (65, 70, St 328), (97, 102, St 328)], St 0),
      (332, False, [(46, 46, St 230), (48, 57, St 333), (58, 58, St 306), (65, 70, St 329), (97, 102, St 329)], St 0),
      (333, False, [(46, 46, St 230), (48, 57, St 330), (58, 58, St 306), (65, 70, St 330), (97, 102, St 330)], St 0),
      (334, False, [(46, 46, St 230), (48, 48, St 335), (49, 52, St 328), (53, 53, St 336), (54, 57, St 328), (58, 58, St 306),
        (65, 70, St 328), (97, 102, St 328)], St 0),
      (335, False, [(48, 57, St 333), (58, 58, St 306), (65, 70, St 329), (97, 102, St 329)], St 0),
      (336, False, [(48, 48, St 333), (49, 57, St 329), (58, 58, St 306), (65, 70, St 329), (97, 102, St 329)], St 0),
      (337, False, [(48, 57, St 328), (58, 58, St 306), (65, 70, St 328), (97, 102, St 328)], St 0)],
     [])"

definition http_part_43 :: "http_action part" where
  "http_part_43 =
    ([(338, False, [(2, 3, St 223), (48, 57, St 224), (65, 70, St 224), (97, 102, St 224)], St 0),
      (339, False, [(2, 3, St 223)], St 0),
      (340, False, [(3, 3, St 223)], St 0),
      (341, False, [(4, 4, St 223)], St 0),
      (342, False, [(58, 58, St 343)], St 0),
      (343, False, [(2, 5, St 223), (48, 48, St 302), (49, 49, St 318), (50, 50, St 321), (51, 57, St 302), (65, 70, St 324),
        (93, 93, St 236), (97, 102, St 324)], St 0),
      (344, False, [(48, 57, St 345), (65, 70, St 345), (97, 102, St 345)], St 0),
      (345, False, [(46, 46, St 346), (48, 57, St 345), (65, 70, St 345), (97, 102, St 345)], St 0),
      (346, True, [(33, 33, St 347), (36, 36, St 347), (38, 46, St 347), (48, 59, St 347), (61, 61, St 347), (65, 90, St 347),
        (95, 95, St 347), (97, 122, St 347), (126, 126, St 347), (606, 606, St 347), (635, 635, St 347), (637, 637, St 347)], St 0)],
     [])"

definition http_part_44 :: "http_action part" where
  "http_part_44 =
    ([(347, True, [(33, 33, St 347), (36, 36, St 347), (38, 46, St 347), (48, 59, St 347), (61, 61, St 347), (65, 90, St 347),
        (93, 93, St 236), (95, 95, St 347), (97, 122, St 347), (126, 126, St 347), (606, 606, St 347), (635, 635, St 347),
        (637, 637, St 347)], St 0)],
     [])"

definition http_parts :: "http_action part list" where
  "http_parts =
    [http_part_1, http_part_2, http_part_3, http_part_4, http_part_5, http_part_6, http_part_7, http_part_8, http_part_9,
     http_part_10, http_part_11, http_part_12, http_part_13, http_part_14, http_part_15, http_part_16, http_part_17,
     http_part_18, http_part_19, http_part_20, http_part_21, http_part_22, http_part_23, http_part_24, http_part_25,
     http_part_26, http_part_27, http_part_28, http_part_29, http_part_30, http_part_31, http_part_32, http_part_33,
     http_part_34, http_part_35, http_part_36, http_part_37, http_part_38, http_part_39, http_part_40, http_part_41,
     http_part_42, http_part_43, http_part_44]"

lemmas http_part_defs =
  http_part_1_def http_part_2_def http_part_3_def http_part_4_def http_part_5_def http_part_6_def http_part_7_def
  http_part_8_def http_part_9_def http_part_10_def http_part_11_def http_part_12_def http_part_13_def http_part_14_def
  http_part_15_def http_part_16_def http_part_17_def http_part_18_def http_part_19_def http_part_20_def http_part_21_def
  http_part_22_def http_part_23_def http_part_24_def http_part_25_def http_part_26_def http_part_27_def http_part_28_def
  http_part_29_def http_part_30_def http_part_31_def http_part_32_def http_part_33_def http_part_34_def http_part_35_def
  http_part_36_def http_part_37_def http_part_38_def http_part_39_def http_part_40_def http_part_41_def http_part_42_def
  http_part_43_def http_part_44_def

lemma http_in_parts [simp]:
  "http_part_1 \<in> set http_parts" "http_part_2 \<in> set http_parts" "http_part_3 \<in> set http_parts"
  "http_part_4 \<in> set http_parts" "http_part_5 \<in> set http_parts" "http_part_6 \<in> set http_parts"
  "http_part_7 \<in> set http_parts" "http_part_8 \<in> set http_parts" "http_part_9 \<in> set http_parts"
  "http_part_10 \<in> set http_parts" "http_part_11 \<in> set http_parts" "http_part_12 \<in> set http_parts"
  "http_part_13 \<in> set http_parts" "http_part_14 \<in> set http_parts" "http_part_15 \<in> set http_parts"
  "http_part_16 \<in> set http_parts" "http_part_17 \<in> set http_parts" "http_part_18 \<in> set http_parts"
  "http_part_19 \<in> set http_parts" "http_part_20 \<in> set http_parts" "http_part_21 \<in> set http_parts"
  "http_part_22 \<in> set http_parts" "http_part_23 \<in> set http_parts" "http_part_24 \<in> set http_parts"
  "http_part_25 \<in> set http_parts" "http_part_26 \<in> set http_parts" "http_part_27 \<in> set http_parts"
  "http_part_28 \<in> set http_parts" "http_part_29 \<in> set http_parts" "http_part_30 \<in> set http_parts"
  "http_part_31 \<in> set http_parts" "http_part_32 \<in> set http_parts" "http_part_33 \<in> set http_parts"
  "http_part_34 \<in> set http_parts" "http_part_35 \<in> set http_parts" "http_part_36 \<in> set http_parts"
  "http_part_37 \<in> set http_parts" "http_part_38 \<in> set http_parts" "http_part_39 \<in> set http_parts"
  "http_part_40 \<in> set http_parts" "http_part_41 \<in> set http_parts" "http_part_42 \<in> set http_parts"
  "http_part_43 \<in> set http_parts" "http_part_44 \<in> set http_parts"
  by (simp_all add: http_parts_def)

lemma http_closed: "closed_table http_parts 349"
  unfolding http_parts_def http_part_defs by code_simp

end
