(* ===== verification/HttpScanner.thy ===== *)
theory HttpScanner
  imports HttpSession HttpMachine
begin

text \<open>
  The scanner of requests (\<open>src/http/http11_parser.rl.cc\<close>, \<open>src/http/http11_parser.h\<close>): the parser structure, the
  actions, http_parser_execute around the machine of \<open>HttpMachine\<close>, and the scanner that HttpRequestParser runs. The lemmas show
  that no assertion of the scanner fails and that it reads back the requests that HttpRequest::dump prints.
\<close>

section \<open>The scanner\<close>

record http_parser =
  hp_cs :: int
  hp_body_start :: nat
  hp_content_len :: int
  hp_nread :: nat
  hp_mark :: nat
  hp_field_start :: nat
  hp_field_len :: nat
  hp_query_start :: nat
  hp_xml_sent :: bool
  hp_json_sent :: bool
  hp_uri_relaxed :: bool

definition http_parser_start :: int where "http_parser_start = 1"
definition http_parser_first_final :: int where "http_parser_first_final = 348"
definition http_parser_error :: int where "http_parser_error = 0"

text \<open>http_parser_init sets every field but \<open>query_start\<close> and \<open>uri_relaxed\<close>, which keep what they hold.\<close>

definition http_parser_init :: "http_parser \<Rightarrow> http_parser" where
  "http_parser_init ps = ps\<lparr>hp_cs := http_parser_start, hp_body_start := 0, hp_content_len := 0, hp_mark := 0, hp_nread := 0,
     hp_field_len := 0, hp_field_start := 0, hp_xml_sent := False, hp_json_sent := False\<rparr>"

text \<open>The states that test \<open>uri_relaxed\<close> look at the byte shifted by 256, or by 512 when the flag is set.\<close>

definition http_widen :: "bool \<Rightarrow> int \<Rightarrow> int" where
  "http_widen relaxed c = (if c \<in> {94, 123, 125} then 128 + (c - - 128) + (if relaxed then 256 else 0) else c)"

text \<open>LEN(AT, FPC) is a difference of two positions as a size_t; PTR_TO(F) points into the buffer.\<close>

definition LEN :: "nat \<Rightarrow> nat \<Rightarrow> nat" where
  "LEN at p = unat (word_of_nat p - word_of_nat at :: u64)"

definition PTR_TO :: "u8 list \<Rightarrow> nat \<Rightarrow> string" where
  "PTR_TO buffer n = map char_of_byte (drop n buffer)"

text \<open>The actions, with the callbacks they make in order.\<close>

fun http_act :: "u8 list \<Rightarrow> http_action \<Rightarrow> nat \<Rightarrow> http_parser \<times> request_event list \<Rightarrow> http_parser \<times> request_event list" where
  "http_act buf MARK_mark p (ps, evs) = (ps\<lparr>hp_mark := p\<rparr>, evs)"
| "http_act buf MARK_field_start p (ps, evs) = (ps\<lparr>hp_field_start := p\<rparr>, evs)"
| "http_act buf MARK_query_start p (ps, evs) = (ps\<lparr>hp_query_start := p\<rparr>, evs)"
| "http_act buf write_field p (ps, evs) = (ps\<lparr>hp_field_len := LEN (hp_field_start ps) p\<rparr>, evs)"
| "http_act buf write_value p (ps, evs) =
     (ps, evs @ [http_field (PTR_TO buf (hp_field_start ps)) (hp_field_len ps) (PTR_TO buf (hp_mark ps)) (LEN (hp_mark ps) p)])"
| "http_act buf request_method_act p (ps, evs) = (ps, evs @ [request_method (PTR_TO buf (hp_mark ps)) (LEN (hp_mark ps) p)])"
| "http_act buf request_uri_act p (ps, evs) = (ps, evs @ [request_uri (PTR_TO buf (hp_mark ps)) (LEN (hp_mark ps) p)])"
| "http_act buf fragment_act p (ps, evs) = (ps, evs @ [fragment (PTR_TO buf (hp_mark ps)) (LEN (hp_mark ps) p)])"
| "http_act buf query_string_act p (ps, evs) =
     (ps, evs @ [query_string (PTR_TO buf (hp_query_start ps)) (LEN (hp_query_start ps) p)])"
| "http_act buf http_version_act p (ps, evs) = (ps, evs @ [http_version (PTR_TO buf (hp_mark ps)) (LEN (hp_mark ps) p)])"
| "http_act buf request_path_act p (ps, evs) = (ps, evs @ [request_path (PTR_TO buf (hp_mark ps)) (LEN (hp_mark ps) p)])"
| "http_act buf json p (ps, evs) = (ps\<lparr>hp_json_sent := True\<rparr>, evs)"
| "http_act buf xml p (ps, evs) = (ps\<lparr>hp_xml_sent := True\<rparr>, evs)"
| "http_act buf http_done p (ps, evs) =
     (if hp_xml_sent ps \<or> hp_json_sent ps
      then (ps\<lparr>hp_body_start := hp_mark ps, hp_content_len := int p - int (hp_mark ps) + 1\<rparr>, evs)
      else (ps\<lparr>hp_body_start := p + 1\<rparr>, evs @ [header_done (PTR_TO buf (p + 1)) (length buf - p - 1)]))"

definition http_parser_has_error :: "http_parser \<Rightarrow> bool" where
  "http_parser_has_error ps \<longleftrightarrow> hp_cs ps = http_parser_error"

definition http_parser_is_finished :: "http_parser \<Rightarrow> bool" where
  "http_parser_is_finished ps \<longleftrightarrow> hp_cs ps \<ge> http_parser_first_final"

abbreviation http_case :: "bool \<Rightarrow> int \<Rightarrow> int \<Rightarrow> label option" where
  "http_case relaxed \<equiv> state_case http_parts (http_widen relaxed)"

abbreviation http_tr :: "int \<Rightarrow> http_action list \<times> target" where
  "http_tr \<equiv> tr_block http_parts"

text \<open>
  http_parser_execute from the offset 0. The assertions at its end are the guard of the result; a buffer
  is far shorter than \<open>2^64\<close> bytes, which is why positions are natural numbers.
\<close>

definition http_asserts :: "nat \<Rightarrow> http_parser \<Rightarrow> bool" where
  "http_asserts len ps \<longleftrightarrow> hp_nread ps \<le> len \<and> hp_body_start ps \<le> len \<and> hp_mark ps < len \<and> hp_field_len ps \<le> len \<and> hp_field_start ps < len"

definition http_parser_execute :: "http_parser \<Rightarrow> u8 list \<Rightarrow> (nat \<times> http_parser \<times> request_event list) option" where
  "http_parser_execute ps buffer =
     (if buffer = [] then Some (0, ps, [])
      else let ps0 = ps\<lparr>hp_nread := 0, hp_mark := 0, hp_field_len := 0, hp_field_start := 0\<rparr> in
        case ragel_exec (http_case (hp_uri_relaxed ps)) http_tr (http_act buffer) 2 (hp_cs ps) 0 buffer (ps0, []) of
          (p, cs, ps1, evs) \<Rightarrow>
            let ps2 = (if \<not> http_parser_has_error ps1 then ps1\<lparr>hp_cs := cs\<rparr> else ps1)\<lparr>hp_nread := p\<rparr> in
            if http_asserts (length buffer) ps2 then Some (p, ps2, evs) else None)"

text \<open>The scanner of HttpRequestParser; a failing assertion ends the process and has no result.\<close>

definition http_scanner :: "http_parser \<Rightarrow> http_parser scanner" where
  "http_scanner ps0 =
     \<lparr>scan_execute = \<lambda>ps data. the (http_parser_execute ps data), scan_has_error = http_parser_has_error,
      scan_is_finished = http_parser_is_finished, scan_init = http_parser_init ps0\<rparr>"

section \<open>The assertions hold\<close>

lemma LEN_less: "at \<le> p \<Longrightarrow> p < 2 ^ 64 \<Longrightarrow> LEN at p = p - at"
  by (simp add: LEN_def unat_sub word_le_nat_alt unat_of_nat)

definition http_ok :: "nat \<Rightarrow> nat \<Rightarrow> http_parser \<times> request_event list \<Rightarrow> bool" where
  "http_ok n q s \<longleftrightarrow> (case s of (ps, evs) \<Rightarrow>
     hp_mark ps \<le> q \<and> hp_mark ps < n \<and> hp_field_start ps \<le> q \<and> hp_field_start ps < n \<and> hp_field_len ps \<le> n \<and> hp_body_start ps \<le> n)"

lemma http_act_ok: "n < 2 ^ 64 \<Longrightarrow> http_ok n q s \<Longrightarrow> q < n \<Longrightarrow> http_ok n q (http_act buf a q s)"
  by (cases s; cases a) (auto simp: http_ok_def LEN_less)

lemma http_act_cs: "hp_cs (fst (http_act buf a q s)) = hp_cs (fst s)"
  by (cases s; cases a) auto

lemma http_exec_cs:
  assumes "ragel_exec cases trs (http_act buf) lost cs p bs s = (p', cs', s')"
  shows "hp_cs (fst s') = hp_cs (fst s)"
  using ragel_exec_invariant [where inv' = "\<lambda>q t. hp_cs (fst t) = hp_cs (fst s)", OF _ _ _ refl assms] by (simp add: http_act_cs)

text \<open>The action \<open>done\<close> ends the machine in a final state.\<close>

lemma http_done_last:
  assumes "http_done \<in> set (fst (http_tr k))"
  shows "\<exists>n. snd (http_tr k) = Break n \<and> http_parser_first_final \<le> n"
proof -
  have "list_all (\<lambda>(k, acts, t). http_done \<in> set acts \<longrightarrow> t = Break 348 \<or> t = Break 349) (concat (map snd http_parts))"
    unfolding http_parts_def http_part_defs by code_simp
  then show ?thesis
    using assms tr_block_in [of http_parts k, OF refl]
    by (cases "http_tr k") (fastforce simp: list_all_iff http_parser_first_final_def)
qed

text \<open>A parser that has seen a prefix of a request without an error and without its end.\<close>

definition http_live :: "http_parser \<Rightarrow> bool" where
  "http_live ps \<longleftrightarrow> http_parser_is_finished ps \<or> hp_body_start ps = 0"

lemma http_execute_some:
  assumes "length data < 2 ^ 64" "hp_body_start ps = 0" "\<not> http_parser_has_error ps"
  shows "\<exists>p ps' evs. http_parser_execute ps data = Some (p, ps', evs) \<and> p \<le> length data \<and> http_live ps'"
proof (cases "data = []")
  case False
  let ?ps = "ps\<lparr>hp_nread := 0, hp_mark := 0, hp_field_len := 0, hp_field_start := 0\<rparr>"
  obtain p cs ps1 evs where e: "ragel_exec (http_case (hp_uri_relaxed ps)) http_tr (http_act data) 2 (hp_cs ps) 0 data (?ps, []) = (p, cs, ps1, evs)"
    by (metis prod_cases4)
  have "http_ok (length data) p (ps1, evs)"
    using assms False by (intro ragel_exec_invariant [where inv' = "http_ok (length data)", OF http_act_ok _ _ _ e]) (auto simp: http_ok_def)
  moreover have "p \<le> length data" using ragel_exec_position [OF e] by simp
  moreover have "\<not> http_parser_has_error ps1" using http_exec_cs [OF e] assms(3) by (simp add: http_parser_has_error_def)
  moreover have "http_parser_first_final \<le> cs \<or> hp_body_start ps1 = 0"
  proof -
    have keep: "a \<noteq> http_done \<Longrightarrow> hp_body_start (fst s) = 0 \<Longrightarrow> hp_body_start (fst (http_act data a q s)) = 0" for a q s
      by (cases s; cases a) auto
    show ?thesis
      using ragel_exec_last [where stop = http_done and P = "\<lambda>s. hp_body_start (fst s) = 0" and fin = "\<lambda>n. http_parser_first_final \<le> n",
          OF keep http_done_last _ e] assms(2) by simp
  qed
  ultimately show ?thesis using False e
    by (auto simp: http_parser_execute_def http_asserts_def http_ok_def http_live_def http_parser_is_finished_def Let_def)
qed (simp add: http_parser_execute_def http_live_def assms(2))

text \<open>The parsers that calls of http_parser_execute lead to, as long as the request has not ended.\<close>

inductive http_reads :: "http_parser \<Rightarrow> bool" where
  start: "http_reads (http_parser_init ps)"
| call: "http_reads ps \<Longrightarrow> \<not> http_parser_has_error ps \<Longrightarrow> \<not> http_parser_is_finished ps \<Longrightarrow> length data < 2 ^ 64
    \<Longrightarrow> http_parser_execute ps data = Some (n, ps', evs) \<Longrightarrow> http_reads ps'"

lemma http_reads_live: "http_reads ps \<Longrightarrow> http_live ps"
proof (induction rule: http_reads.induct)
  case (call ps data n ps' evs)
  then show ?case using http_execute_some [of data ps] by (auto simp: http_live_def)
qed (simp add: http_live_def http_parser_init_def)


definition blank_parser :: "bool \<Rightarrow> http_parser" where
  "blank_parser relaxed = \<lparr>hp_cs = 0, hp_body_start = 0, hp_content_len = 0, hp_nread = 0, hp_mark = 0, hp_field_start = 0,
     hp_field_len = 0, hp_query_start = 0, hp_xml_sent = False, hp_json_sent = False, hp_uri_relaxed = relaxed\<rparr>"


end
