(* ===== verification/ClientMachine.thy ===== *)
theory ClientMachine
  imports Ragel
begin

text \<open>
  The machine of \<open>src/http/httpclient_parser.rl.cc\<close> that reads the heads of responses and of chunks. Every
  definition tabulates the blocks of a stretch of the code, in their order.
\<close>

datatype client_action =
    C_MARK_mark | C_MARK_field_start | C_write_field | C_write_value | C_write_content_len | C_write_connection_close
  | C_reason_phrase | C_status_code | C_http_version | C_chunk_size | C_trans_chunked | C_done

definition client_part_1 :: "client_action part" where
  "client_part_1 =
    ([(1, False, [(48, 57, Tr 0), (65, 70, Tr 0), (72, 72, Tr 2), (97, 102, Tr 0)], St 0),
      (2, False, [(10, 10, Tr 3), (13, 13, Tr 4), (48, 57, St 2), (59, 59, Tr 6), (65, 70, St 2), (97, 102, St 2)], St 0),
      (120, False, [], St 0)],
     [(0, [C_MARK_mark], Goto 2),
      (3, [C_chunk_size, C_done], Break 120),
      (7, [C_done], Break 120),
      (9, [C_write_field, C_MARK_mark, C_write_value, C_done], Break 120),
      (15, [C_write_value, C_done], Break 120),
      (74, [C_write_connection_close, C_done], Break 120),
      (4, [C_chunk_size], Goto 3)])"

definition client_part_2 :: "client_action part" where
  "client_part_2 =
    ([(3, False, [(10, 10, Tr 7)], St 0),
      (4, False, [(33, 33, Tr 8), (35, 39, Tr 8), (42, 43, Tr 8), (45, 46, Tr 8), (48, 57, Tr 8), (65, 90, Tr 8), (94, 122, Tr 8),
        (124, 124, Tr 8), (126, 126, Tr 8)], St 0),
      (5, False, [(10, 10, Tr 9), (13, 13, Tr 10), (33, 33, St 5), (35, 39, St 5), (42, 43, St 5), (45, 46, St 5), (48, 57, St 5),
        (59, 59, Tr 12), (61, 61, Tr 13), (65, 90, St 5), (94, 122, St 5), (124, 124, St 5), (126, 126, St 5)], St 0)],
     [(10, [C_write_field, C_MARK_mark, C_write_value], Goto 3),
      (16, [C_write_value], Goto 3),
      (75, [C_write_connection_close], Goto 3),
      (6, [C_chunk_size], Goto 4),
      (12, [C_write_field, C_MARK_mark, C_write_value], Goto 4),
      (18, [C_write_value], Goto 4),
      (8, [C_MARK_field_start], Goto 5),
      (13, [C_write_field, C_MARK_mark], Goto 6)])"

definition client_part_3 :: "client_action part" where
  "client_part_3 =
    ([(6, False, [(33, 33, Tr 14), (35, 39, Tr 14), (42, 43, Tr 14), (45, 46, Tr 14), (48, 57, Tr 14), (65, 90, Tr 14),
        (94, 122, Tr 14), (124, 124, Tr 14), (126, 126, Tr 14)], St 0),
      (7, False, [(10, 10, Tr 15), (13, 13, Tr 16), (33, 33, St 7), (35, 39, St 7), (42, 43, St 7), (45, 46, St 7), (48, 57, St 7),
        (59, 59, Tr 18), (65, 90, St 7), (94, 122, St 7), (124, 124, St 7), (126, 126, St 7)], St 0),
      (8, False, [(84, 84, St 9)], St 0),
      (9, False, [(84, 84, St 10)], St 0),
      (10, False, [(80, 80, St 11)], St 0),
      (11, False, [(47, 47, St 12)], St 0),
      (12, False, [(48, 57, St 13)], St 0),
      (13, False, [(46, 46, St 14), (48, 57, St 13)], St 0),
      (14, False, [(48, 57, St 15)], St 0),
      (15, False, [(32, 32, Tr 26), (48, 57, St 15)], St 0),
      (16, False, [(48, 57, Tr 27)], St 0)],
     [(14, [C_MARK_mark], Goto 7),
      (2, [C_MARK_mark], Goto 8),
      (26, [C_http_version], Goto 16),
      (27, [C_MARK_mark], Goto 17)])"

definition client_part_4 :: "client_action part" where
  "client_part_4 =
    ([(17, False, [(32, 32, Tr 28), (48, 57, St 17)], St 0),
      (18, False, [(10, 10, St 0)], Tr 30),
      (19, False, [(10, 10, Tr 32), (13, 13, Tr 33)], St 19),
      (20, False, [(10, 10, Tr 7), (13, 13, St 3), (33, 33, Tr 35), (35, 39, Tr 35), (42, 43, Tr 35), (45, 46, Tr 35), (48, 57, Tr 35),
        (65, 66, Tr 35), (67, 67, Tr 36), (68, 83, Tr 35), (84, 84, Tr 37), (85, 90, Tr 35), (94, 98, Tr 35), (99, 99, Tr 36),
        (100, 115, Tr 35), (116, 116, Tr 37), (117, 122, Tr 35), (124, 124, Tr 35), (126, 126, Tr 35)], St 0)],
     [(28, [C_status_code], Goto 18),
      (30, [C_MARK_mark], Goto 19),
      (45, [C_write_value], Goto 20),
      (32, [C_reason_phrase], Goto 20),
      (42, [C_MARK_mark, C_write_value], Goto 20),
      (111, [C_write_value, C_trans_chunked], Goto 20),
      (113, [C_trans_chunked], Goto 20),
      (158, [C_write_content_len, C_write_value], Goto 20),
      (35, [C_MARK_field_start], Goto 21),
      (76, [C_write_connection_close, C_MARK_field_start], Goto 21)])"

definition client_part_5 :: "client_action part" where
  "client_part_5 =
    ([(21, False, [(33, 33, St 21), (35, 39, St 21), (42, 43, St 21), (45, 46, St 21), (48, 57, St 21), (58, 58, Tr 39),
        (65, 90, St 21), (94, 122, St 21), (124, 124, St 21), (126, 126, St 21)], St 0),
      (22, False, [(9, 9, Tr 41), (10, 10, Tr 42), (11, 12, Tr 41), (13, 13, Tr 43), (32, 32, Tr 41)], Tr 40),
      (23, False, [(10, 10, Tr 45), (13, 13, Tr 46)], St 23),
      (24, False, [(10, 10, St 20)], St 0)],
     [(41, [C_MARK_mark], Goto 22),
      (39, [C_write_field], Goto 22),
      (40, [C_MARK_mark], Goto 23),
      (46, [C_write_value], Goto 24),
      (33, [C_reason_phrase], Goto 24),
      (43, [C_MARK_mark, C_write_value], Goto 24),
      (159, [C_write_content_len, C_write_value], Goto 24),
      (36, [C_MARK_field_start], Goto 25),
      (77, [C_write_connection_close, C_MARK_field_start], Goto 25)])"

definition client_part_6 :: "client_action part" where
  "client_part_6 =
    ([(25, False, [(33, 33, St 21), (35, 39, St 21), (42, 43, St 21), (45, 46, St 21), (48, 57, St 21), (58, 58, Tr 39),
        (65, 78, St 21), (79, 79, St 26), (80, 90, St 21), (94, 110, St 21), (111, 111, St 26), (112, 122, St 21), (124, 124, St 21),
        (126, 126, St 21)], St 0),
      (26, False, [(33, 33, St 21), (35, 39, St 21), (42, 43, St 21), (45, 46, St 21), (48, 57, St 21), (58, 58, Tr 39),
        (65, 77, St 21), (78, 78, St 27), (79, 90, St 21), (94, 109, St 21), (110, 110, St 27), (111, 122, St 21), (124, 124, St 21),
        (126, 126, St 21)], St 0),
      (27, False, [(33, 33, St 21), (35, 39, St 21), (42, 43, St 21), (45, 46, St 21), (48, 57, St 21), (58, 58, Tr 39),
        (65, 77, St 21), (78, 78, St 28), (79, 83, St 21), (84, 84, St 101), (85, 90, St 21), (94, 109, St 21), (110, 110, St 28),
        (111, 115, St 21), (116, 116, St 101), (117, 122, St 21), (124, 124, St 21), (126, 126, St 21)], St 0),
      (28, False, [(33, 33, St 21), (35, 39, St 21), (42, 43, St 21), (45, 46, St 21), (48, 57, St 21), (58, 58, Tr 39),
        (65, 68, St 21), (69, 69, St 29), (70, 90, St 21), (94, 100, St 21), (101, 101, St 29), (102, 122, St 21), (124, 124, St 21),
        (126, 126, St 21)], St 0),
      (29, False, [(33, 33, St 21), (35, 39, St 21), (42, 43, St 21), (45, 46, St 21), (48, 57, St 21), (58, 58, Tr 39),
        (65, 66, St 21), (67, 67, St 30), (68, 90, St 21), (94, 98, St 21), (99, 99, St 30), (100, 122, St 21), (124, 124, St 21),
        (126, 126, St 21)], St 0)],
     [])"

definition client_part_7 :: "client_action part" where
  "client_part_7 =
    ([(30, False, [(33, 33, St 21), (35, 39, St 21), (42, 43, St 21), (45, 46, St 21), (48, 57, St 21), (58, 58, Tr 39),
        (65, 83, St 21), (84, 84, St 31), (85, 90, St 21), (94, 115, St 21), (116, 116, St 31), (117, 122, St 21), (124, 124, St 21),
        (126, 126, St 21)], St 0),
      (31, False, [(33, 33, St 21), (35, 39, St 21), (42, 43, St 21), (45, 46, St 21), (48, 57, St 21), (58, 58, Tr 39),
        (65, 72, St 21), (73, 73, St 32), (74, 90, St 21), (94, 104, St 21), (105, 105, St 32), (106, 122, St 21), (124, 124, St 21),
        (126, 126, St 21)], St 0),
      (32, False, [(33, 33, St 21), (35, 39, St 21), (42, 43, St 21), (45, 46, St 21), (48, 57, St 21), (58, 58, Tr 39),
        (65, 78, St 21), (79, 79, St 33), (80, 90, St 21), (94, 110, St 21), (111, 111, St 33), (112, 122, St 21), (124, 124, St 21),
        (126, 126, St 21)], St 0),
      (33, False, [(33, 33, St 21), (35, 39, St 21), (42, 43, St 21), (45, 46, St 21), (48, 57, St 21), (58, 58, Tr 39),
        (65, 77, St 21), (78, 78, St 34), (79, 90, St 21), (94, 109, St 21), (110, 110, St 34), (111, 122, St 21), (124, 124, St 21),
        (126, 126, St 21)], St 0),
      (34, False, [(33, 33, St 21), (35, 39, St 21), (42, 43, St 21), (45, 46, St 21), (48, 57, St 21), (58, 58, Tr 58),
        (65, 90, St 21), (94, 122, St 21), (124, 124, St 21), (126, 126, St 21)], St 0)],
     [])"

definition client_part_8 :: "client_action part" where
  "client_part_8 =
    ([(35, False, [(9, 9, Tr 59), (10, 10, Tr 60), (11, 12, Tr 59), (13, 13, Tr 61), (32, 32, Tr 59), (67, 67, Tr 62),
        (99, 99, Tr 62)], Tr 40),
      (36, False, [(9, 9, St 37), (10, 10, Tr 64), (11, 12, St 37), (13, 13, St 89), (32, 32, St 37), (33, 33, Tr 35), (35, 39, Tr 35),
        (42, 43, Tr 35), (45, 46, Tr 35), (48, 57, Tr 35), (65, 66, Tr 35), (67, 67, Tr 66), (68, 83, Tr 35), (84, 84, Tr 37),
        (85, 90, Tr 35), (94, 98, Tr 35), (99, 99, Tr 66), (100, 115, Tr 35), (116, 116, Tr 37), (117, 122, Tr 35), (124, 124, Tr 35),
        (126, 126, Tr 35)], St 0),
      (37, False, [(9, 13, St 37), (32, 32, St 37), (67, 67, St 38), (99, 99, St 38)], St 0),
      (38, False, [(76, 76, St 39), (108, 108, St 39)], St 0),
      (39, False, [(79, 79, St 40), (111, 111, St 40)], St 0),
      (40, False, [(83, 83, St 41), (115, 115, St 41)], St 0),
      (41, False, [(69, 69, St 42), (101, 101, St 42)], St 0),
      (42, False, [(10, 10, St 43), (13, 13, St 88)], St 0)],
     [(59, [C_MARK_mark], Goto 35),
      (58, [C_write_field], Goto 35),
      (60, [C_MARK_mark, C_write_value], Goto 36),
      (136, [C_write_value], Goto 43)])"

definition client_part_9 :: "client_action part" where
  "client_part_9 =
    ([(43, False, [(10, 10, Tr 74), (13, 13, Tr 75), (33, 33, Tr 76), (35, 39, Tr 76), (42, 43, Tr 76), (45, 46, Tr 76),
        (48, 57, Tr 76), (65, 66, Tr 76), (67, 67, Tr 77), (68, 83, Tr 76), (84, 84, Tr 78), (85, 90, Tr 76), (94, 98, Tr 76),
        (99, 99, Tr 77), (100, 115, Tr 76), (116, 116, Tr 78), (117, 122, Tr 76), (124, 124, Tr 76), (126, 126, Tr 76)], St 0),
      (44, False, [(33, 33, St 21), (35, 39, St 21), (42, 43, St 21), (45, 46, St 21), (48, 57, St 21), (58, 58, Tr 39),
        (65, 81, St 21), (82, 82, St 45), (83, 90, St 21), (94, 113, St 21), (114, 114, St 45), (115, 122, St 21), (124, 124, St 21),
        (126, 126, St 21)], St 0),
      (45, False, [(33, 33, St 21), (35, 39, St 21), (42, 43, St 21), (45, 46, St 21), (48, 57, St 21), (58, 58, Tr 39),
        (65, 65, St 46), (66, 90, St 21), (94, 96, St 21), (97, 97, St 46), (98, 122, St 21), (124, 124, St 21), (126, 126, St 21)], St 0),
      (46, False, [(33, 33, St 21), (35, 39, St 21), (42, 43, St 21), (45, 46, St 21), (48, 57, St 21), (58, 58, Tr 39),
        (65, 77, St 21), (78, 78, St 47), (79, 90, St 21), (94, 109, St 21), (110, 110, St 47), (111, 122, St 21), (124, 124, St 21),
        (126, 126, St 21)], St 0)],
     [(37, [C_MARK_field_start], Goto 44),
      (78, [C_write_connection_close, C_MARK_field_start], Goto 44)])"

definition client_part_10 :: "client_action part" where
  "client_part_10 =
    ([(47, False, [(33, 33, St 21), (35, 39, St 21), (42, 43, St 21), (45, 46, St 21), (48, 57, St 21), (58, 58, Tr 39),
        (65, 82, St 21), (83, 83, St 48), (84, 90, St 21), (94, 114, St 21), (115, 115, St 48), (116, 122, St 21), (124, 124, St 21),
        (126, 126, St 21)], St 0),
      (48, False, [(33, 33, St 21), (35, 39, St 21), (42, 43, St 21), (45, 46, St 21), (48, 57, St 21), (58, 58, Tr 39),
        (65, 69, St 21), (70, 70, St 49), (71, 90, St 21), (94, 101, St 21), (102, 102, St 49), (103, 122, St 21), (124, 124, St 21),
        (126, 126, St 21)], St 0),
      (49, False, [(33, 33, St 21), (35, 39, St 21), (42, 43, St 21), (45, 46, St 21), (48, 57, St 21), (58, 58, Tr 39),
        (65, 68, St 21), (69, 69, St 50), (70, 90, St 21), (94, 100, St 21), (101, 101, St 50), (102, 122, St 21), (124, 124, St 21),
        (126, 126, St 21)], St 0),
      (50, False, [(33, 33, St 21), (35, 39, St 21), (42, 43, St 21), (45, 46, St 21), (48, 57, St 21), (58, 58, Tr 39),
        (65, 81, St 21), (82, 82, St 51), (83, 90, St 21), (94, 113, St 21), (114, 114, St 51), (115, 122, St 21), (124, 124, St 21),
        (126, 126, St 21)], St 0),
      (51, False, [(33, 33, St 21), (35, 39, St 21), (42, 43, St 21), (45, 45, St 52), (46, 46, St 21), (48, 57, St 21),
        (58, 58, Tr 39), (65, 90, St 21), (94, 122, St 21), (124, 124, St 21), (126, 126, St 21)], St 0)],
     [])"

definition client_part_11 :: "client_action part" where
  "client_part_11 =
    ([(52, False, [(33, 33, St 21), (35, 39, St 21), (42, 43, St 21), (45, 46, St 21), (48, 57, St 21), (58, 58, Tr 39),
        (65, 68, St 21), (69, 69, St 53), (70, 90, St 21), (94, 100, St 21), (101, 101, St 53), (102, 122, St 21), (124, 124, St 21),
        (126, 126, St 21)], St 0),
      (53, False, [(33, 33, St 21), (35, 39, St 21), (42, 43, St 21), (45, 46, St 21), (48, 57, St 21), (58, 58, Tr 39),
        (65, 77, St 21), (78, 78, St 54), (79, 90, St 21), (94, 109, St 21), (110, 110, St 54), (111, 122, St 21), (124, 124, St 21),
        (126, 126, St 21)], St 0),
      (54, False, [(33, 33, St 21), (35, 39, St 21), (42, 43, St 21), (45, 46, St 21), (48, 57, St 21), (58, 58, Tr 39),
        (65, 66, St 21), (67, 67, St 55), (68, 90, St 21), (94, 98, St 21), (99, 99, St 55), (100, 122, St 21), (124, 124, St 21),
        (126, 126, St 21)], St 0),
      (55, False, [(33, 33, St 21), (35, 39, St 21), (42, 43, St 21), (45, 46, St 21), (48, 57, St 21), (58, 58, Tr 39),
        (65, 78, St 21), (79, 79, St 56), (80, 90, St 21), (94, 110, St 21), (111, 111, St 56), (112, 122, St 21), (124, 124, St 21),
        (126, 126, St 21)], St 0),
      (56, False, [(33, 33, St 21), (35, 39, St 21), (42, 43, St 21), (45, 46, St 21), (48, 57, St 21), (58, 58, Tr 39),
        (65, 67, St 21), (68, 68, St 57), (69, 90, St 21), (94, 99, St 21), (100, 100, St 57), (101, 122, St 21), (124, 124, St 21),
        (126, 126, St 21)], St 0)],
     [])"

definition client_part_12 :: "client_action part" where
  "client_part_12 =
    ([(57, False, [(33, 33, St 21), (35, 39, St 21), (42, 43, St 21), (45, 46, St 21), (48, 57, St 21), (58, 58, Tr 39),
        (65, 72, St 21), (73, 73, St 58), (74, 90, St 21), (94, 104, St 21), (105, 105, St 58), (106, 122, St 21), (124, 124, St 21),
        (126, 126, St 21)], St 0),
      (58, False, [(33, 33, St 21), (35, 39, St 21), (42, 43, St 21), (45, 46, St 21), (48, 57, St 21), (58, 58, Tr 39),
        (65, 77, St 21), (78, 78, St 59), (79, 90, St 21), (94, 109, St 21), (110, 110, St 59), (111, 122, St 21), (124, 124, St 21),
        (126, 126, St 21)], St 0),
      (59, False, [(33, 33, St 21), (35, 39, St 21), (42, 43, St 21), (45, 46, St 21), (48, 57, St 21), (58, 58, Tr 39),
        (65, 70, St 21), (71, 71, St 60), (72, 90, St 21), (94, 102, St 21), (103, 103, St 60), (104, 122, St 21), (124, 124, St 21),
        (126, 126, St 21)], St 0),
      (60, False, [(33, 33, St 21), (35, 39, St 21), (42, 43, St 21), (45, 46, St 21), (48, 57, St 21), (58, 58, Tr 95),
        (65, 90, St 21), (94, 122, St 21), (124, 124, St 21), (126, 126, St 21)], St 0),
      (61, False, [(9, 9, Tr 96), (10, 10, Tr 97), (11, 12, Tr 96), (13, 13, Tr 98), (32, 32, Tr 96), (67, 67, Tr 99),
        (99, 99, Tr 99)], Tr 40)],
     [(96, [C_MARK_mark], Goto 61),
      (95, [C_write_field], Goto 61),
      (97, [C_MARK_mark, C_write_value], Goto 62)])"

definition client_part_13 :: "client_action part" where
  "client_part_13 =
    ([(62, False, [(9, 9, St 63), (10, 10, Tr 101), (11, 12, St 63), (13, 13, St 72), (32, 32, St 63), (33, 33, Tr 35),
        (35, 39, Tr 35), (42, 43, Tr 35), (45, 46, Tr 35), (48, 57, Tr 35), (65, 66, Tr 35), (67, 67, Tr 103), (68, 83, Tr 35),
        (84, 84, Tr 37), (85, 90, Tr 35), (94, 98, Tr 35), (99, 99, Tr 103), (100, 115, Tr 35), (116, 116, Tr 37), (117, 122, Tr 35),
        (124, 124, Tr 35), (126, 126, Tr 35)], St 0),
      (63, False, [(9, 13, St 63), (32, 32, St 63), (67, 67, Tr 104), (99, 99, Tr 104)], St 0),
      (64, False, [(72, 72, St 65), (104, 104, St 65)], St 0),
      (65, False, [(85, 85, St 66), (117, 117, St 66)], St 0),
      (66, False, [(78, 78, St 67), (110, 110, St 67)], St 0),
      (67, False, [(75, 75, St 68), (107, 107, St 68)], St 0),
      (68, False, [(69, 69, St 69), (101, 101, St 69)], St 0),
      (69, False, [(68, 68, St 70), (100, 100, St 70)], St 0),
      (70, False, [(10, 10, Tr 111), (13, 13, Tr 112)], St 0),
      (71, False, [(10, 10, Tr 113)], St 0)],
     [(104, [C_MARK_mark], Goto 64),
      (112, [C_write_value], Goto 71),
      (101, [C_done], Break 121)])"

definition client_part_14 :: "client_action part" where
  "client_part_14 =
    ([(121, False, [(9, 13, St 63), (32, 32, St 63), (67, 67, Tr 104), (99, 99, Tr 104)], St 0),
      (72, False, [(9, 9, St 63), (10, 10, Tr 101), (11, 13, St 63), (32, 32, St 63), (67, 67, Tr 104), (99, 99, Tr 104)], St 0),
      (73, False, [(33, 33, St 21), (35, 39, St 21), (42, 43, St 21), (45, 46, St 21), (48, 57, St 21), (58, 58, Tr 39),
        (65, 71, St 21), (72, 72, St 74), (73, 78, St 21), (79, 79, St 26), (80, 90, St 21), (94, 103, St 21), (104, 104, St 74),
        (105, 110, St 21), (111, 111, St 26), (112, 122, St 21), (124, 124, St 21), (126, 126, St 21)], St 0),
      (74, False, [(33, 33, St 21), (35, 39, St 21), (42, 43, St 21), (45, 46, St 21), (48, 57, St 21), (58, 58, Tr 39),
        (65, 84, St 21), (85, 85, St 75), (86, 90, St 21), (94, 116, St 21), (117, 117, St 75), (118, 122, St 21), (124, 124, St 21),
        (126, 126, St 21)], St 0),
      (75, False, [(33, 33, St 21), (35, 39, St 21), (42, 43, St 21), (45, 46, St 21), (48, 57, St 21), (58, 58, Tr 39),
        (65, 77, St 21), (78, 78, St 76), (79, 90, St 21), (94, 109, St 21), (110, 110, St 76), (111, 122, St 21), (124, 124, St 21),
        (126, 126, St 21)], St 0)],
     [(103, [C_MARK_mark, C_MARK_field_start], Goto 73)])"

definition client_part_15 :: "client_action part" where
  "client_part_15 =
    ([(76, False, [(33, 33, St 21), (35, 39, St 21), (42, 43, St 21), (45, 46, St 21), (48, 57, St 21), (58, 58, Tr 39),
        (65, 74, St 21), (75, 75, St 77), (76, 90, St 21), (94, 106, St 21), (107, 107, St 77), (108, 122, St 21), (124, 124, St 21),
        (126, 126, St 21)], St 0),
      (77, False, [(33, 33, St 21), (35, 39, St 21), (42, 43, St 21), (45, 46, St 21), (48, 57, St 21), (58, 58, Tr 39),
        (65, 68, St 21), (69, 69, St 78), (70, 90, St 21), (94, 100, St 21), (101, 101, St 78), (102, 122, St 21), (124, 124, St 21),
        (126, 126, St 21)], St 0),
      (78, False, [(33, 33, St 21), (35, 39, St 21), (42, 43, St 21), (45, 46, St 21), (48, 57, St 21), (58, 58, Tr 39),
        (65, 67, St 21), (68, 68, St 79), (69, 90, St 21), (94, 99, St 21), (100, 100, St 79), (101, 122, St 21), (124, 124, St 21),
        (126, 126, St 21)], St 0),
      (79, False, [(10, 10, Tr 111), (13, 13, Tr 112), (33, 33, St 21), (35, 39, St 21), (42, 43, St 21), (45, 46, St 21),
        (48, 57, St 21), (58, 58, Tr 39), (65, 90, St 21), (94, 122, St 21), (124, 124, St 21), (126, 126, St 21)], St 0),
      (80, False, [(9, 9, St 63), (10, 10, St 62), (11, 13, St 63), (32, 32, St 63), (67, 67, Tr 104), (99, 99, Tr 104)], St 0)],
     [(98, [C_MARK_mark, C_write_value], Goto 80),
      (99, [C_MARK_mark], Goto 81)])"

definition client_part_16 :: "client_action part" where
  "client_part_16 =
    ([(81, False, [(10, 10, Tr 45), (13, 13, Tr 46), (72, 72, St 82), (104, 104, St 82)], St 23),
      (82, False, [(10, 10, Tr 45), (13, 13, Tr 46), (85, 85, St 83), (117, 117, St 83)], St 23),
      (83, False, [(10, 10, Tr 45), (13, 13, Tr 46), (78, 78, St 84), (110, 110, St 84)], St 23),
      (84, False, [(10, 10, Tr 45), (13, 13, Tr 46), (75, 75, St 85), (107, 107, St 85)], St 23),
      (85, False, [(10, 10, Tr 45), (13, 13, Tr 46), (69, 69, St 86), (101, 101, St 86)], St 23),
      (86, False, [(10, 10, Tr 45), (13, 13, Tr 46), (68, 68, St 87), (100, 100, St 87)], St 23),
      (87, False, [(10, 10, Tr 111), (13, 13, Tr 112)], St 23),
      (88, False, [(10, 10, St 43)], St 0),
      (122, False, [(9, 13, St 37), (32, 32, St 37), (67, 67, St 38), (99, 99, St 38)], St 0),
      (89, False, [(9, 9, St 37), (10, 10, Tr 64), (11, 13, St 37), (32, 32, St 37), (67, 67, St 38), (99, 99, St 38)], St 0)],
     [(137, [C_write_value], Goto 88),
      (64, [C_done], Break 122),
      (66, [C_MARK_field_start], Goto 90)])"

definition client_part_17 :: "client_action part" where
  "client_part_17 =
    ([(90, False, [(33, 33, St 21), (35, 39, St 21), (42, 43, St 21), (45, 46, St 21), (48, 57, St 21), (58, 58, Tr 39),
        (65, 75, St 21), (76, 76, St 91), (77, 78, St 21), (79, 79, St 26), (80, 90, St 21), (94, 107, St 21), (108, 108, St 91),
        (109, 110, St 21), (111, 111, St 26), (112, 122, St 21), (124, 124, St 21), (126, 126, St 21)], St 0),
      (91, False, [(33, 33, St 21), (35, 39, St 21), (42, 43, St 21), (45, 46, St 21), (48, 57, St 21), (58, 58, Tr 39),
        (65, 78, St 21), (79, 79, St 92), (80, 90, St 21), (94, 110, St 21), (111, 111, St 92), (112, 122, St 21), (124, 124, St 21),
        (126, 126, St 21)], St 0),
      (92, False, [(33, 33, St 21), (35, 39, St 21), (42, 43, St 21), (45, 46, St 21), (48, 57, St 21), (58, 58, Tr 39),
        (65, 82, St 21), (83, 83, St 93), (84, 90, St 21), (94, 114, St 21), (115, 115, St 93), (116, 122, St 21), (124, 124, St 21),
        (126, 126, St 21)], St 0),
      (93, False, [(33, 33, St 21), (35, 39, St 21), (42, 43, St 21), (45, 46, St 21), (48, 57, St 21), (58, 58, Tr 39),
        (65, 68, St 21), (69, 69, St 94), (70, 90, St 21), (94, 100, St 21), (101, 101, St 94), (102, 122, St 21), (124, 124, St 21),
        (126, 126, St 21)], St 0),
      (94, False, [(10, 10, St 43), (13, 13, St 88), (33, 33, St 21), (35, 39, St 21), (42, 43, St 21), (45, 46, St 21),
        (48, 57, St 21), (58, 58, Tr 39), (65, 90, St 21), (94, 122, St 21), (124, 124, St 21), (126, 126, St 21)], St 0)],
     [])"

definition client_part_18 :: "client_action part" where
  "client_part_18 =
    ([(95, False, [(9, 9, St 37), (10, 10, St 36), (11, 13, St 37), (32, 32, St 37), (67, 67, St 38), (99, 99, St 38)], St 0),
      (96, False, [(10, 10, Tr 45), (13, 13, Tr 46), (76, 76, St 97), (108, 108, St 97)], St 23),
      (97, False, [(10, 10, Tr 45), (13, 13, Tr 46), (79, 79, St 98), (111, 111, St 98)], St 23),
      (98, False, [(10, 10, Tr 45), (13, 13, Tr 46), (83, 83, St 99), (115, 115, St 99)], St 23),
      (99, False, [(10, 10, Tr 45), (13, 13, Tr 46), (69, 69, St 100), (101, 101, St 100)], St 23),
      (100, False, [(10, 10, Tr 136), (13, 13, Tr 137)], St 23),
      (101, False, [(33, 33, St 21), (35, 39, St 21), (42, 43, St 21), (45, 46, St 21), (48, 57, St 21), (58, 58, Tr 39),
        (65, 68, St 21), (69, 69, St 102), (70, 90, St 21), (94, 100, St 21), (101, 101, St 102), (102, 122, St 21), (124, 124, St 21),
        (126, 126, St 21)], St 0),
      (102, False, [(33, 33, St 21), (35, 39, St 21), (42, 43, St 21), (45, 46, St 21), (48, 57, St 21), (58, 58, Tr 39),
        (65, 77, St 21), (78, 78, St 103), (79, 90, St 21), (94, 109, St 21), (110, 110, St 103), (111, 122, St 21), (124, 124, St 21),
        (126, 126, St 21)], St 0)],
     [(61, [C_MARK_mark, C_write_value], Goto 95),
      (62, [C_MARK_mark], Goto 96)])"

definition client_part_19 :: "client_action part" where
  "client_part_19 =
    ([(103, False, [(33, 33, St 21), (35, 39, St 21), (42, 43, St 21), (45, 46, St 21), (48, 57, St 21), (58, 58, Tr 39),
        (65, 83, St 21), (84, 84, St 104), (85, 90, St 21), (94, 115, St 21), (116, 116, St 104), (117, 122, St 21), (124, 124, St 21),
        (126, 126, St 21)], St 0),
      (104, False, [(33, 33, St 21), (35, 39, St 21), (42, 43, St 21), (45, 45, St 105), (46, 46, St 21), (48, 57, St 21),
        (58, 58, Tr 39), (65, 90, St 21), (94, 122, St 21), (124, 124, St 21), (126, 126, St 21)], St 0),
      (105, False, [(33, 33, St 21), (35, 39, St 21), (42, 43, St 21), (45, 46, St 21), (48, 57, St 21), (58, 58, Tr 39),
        (65, 75, St 21), (76, 76, St 106), (77, 90, St 21), (94, 107, St 21), (108, 108, St 106), (109, 122, St 21), (124, 124, St 21),
        (126, 126, St 21)], St 0),
      (106, False, [(33, 33, St 21), (35, 39, St 21), (42, 43, St 21), (45, 46, St 21), (48, 57, St 21), (58, 58, Tr 39),
        (65, 68, St 21), (69, 69, St 107), (70, 90, St 21), (94, 100, St 21), (101, 101, St 107), (102, 122, St 21), (124, 124, St 21),
        (126, 126, St 21)], St 0),
      (107, False, [(33, 33, St 21), (35, 39, St 21), (42, 43, St 21), (45, 46, St 21), (48, 57, St 21), (58, 58, Tr 39),
        (65, 77, St 21), (78, 78, St 108), (79, 90, St 21), (94, 109, St 21), (110, 110, St 108), (111, 122, St 21), (124, 124, St 21),
        (126, 126, St 21)], St 0)],
     [])"

definition client_part_20 :: "client_action part" where
  "client_part_20 =
    ([(108, False, [(33, 33, St 21), (35, 39, St 21), (42, 43, St 21), (45, 46, St 21), (48, 57, St 21), (58, 58, Tr 39),
        (65, 70, St 21), (71, 71, St 109), (72, 90, St 21), (94, 102, St 21), (103, 103, St 109), (104, 122, St 21), (124, 124, St 21),
        (126, 126, St 21)], St 0),
      (109, False, [(33, 33, St 21), (35, 39, St 21), (42, 43, St 21), (45, 46, St 21), (48, 57, St 21), (58, 58, Tr 39),
        (65, 83, St 21), (84, 84, St 110), (85, 90, St 21), (94, 115, St 21), (116, 116, St 110), (117, 122, St 21), (124, 124, St 21),
        (126, 126, St 21)], St 0),
      (110, False, [(33, 33, St 21), (35, 39, St 21), (42, 43, St 21), (45, 46, St 21), (48, 57, St 21), (58, 58, Tr 39),
        (65, 71, St 21), (72, 72, St 111), (73, 90, St 21), (94, 103, St 21), (104, 104, St 111), (105, 122, St 21), (124, 124, St 21),
        (126, 126, St 21)], St 0),
      (111, False, [(33, 33, St 21), (35, 39, St 21), (42, 43, St 21), (45, 46, St 21), (48, 57, St 21), (58, 58, Tr 148),
        (65, 90, St 21), (94, 122, St 21), (124, 124, St 21), (126, 126, St 21)], St 0),
      (112, False, [(9, 9, Tr 149), (10, 10, Tr 150), (11, 12, Tr 149), (13, 13, Tr 151), (32, 32, Tr 149), (48, 57, Tr 152)], Tr 40)],
     [(149, [C_MARK_mark], Goto 112),
      (148, [C_write_field], Goto 112)])"

definition client_part_21 :: "client_action part" where
  "client_part_21 =
    ([(113, False, [(9, 9, St 114), (10, 10, Tr 154), (11, 12, St 114), (13, 13, St 116), (32, 32, St 114), (33, 33, Tr 35),
        (35, 39, Tr 35), (42, 43, Tr 35), (45, 46, Tr 35), (48, 57, Tr 156), (65, 66, Tr 35), (67, 67, Tr 36), (68, 83, Tr 35),
        (84, 84, Tr 37), (85, 90, Tr 35), (94, 98, Tr 35), (99, 99, Tr 36), (100, 115, Tr 35), (116, 116, Tr 37), (117, 122, Tr 35),
        (124, 124, Tr 35), (126, 126, Tr 35)], St 0),
      (114, False, [(9, 13, St 114), (32, 32, St 114), (48, 57, Tr 157)], St 0),
      (115, False, [(10, 10, Tr 158), (13, 13, Tr 159), (48, 57, St 115)], St 0),
      (123, False, [(9, 13, St 114), (32, 32, St 114), (48, 57, Tr 157)], St 0),
      (116, False, [(9, 9, St 114), (10, 10, Tr 154), (11, 13, St 114), (32, 32, St 114), (48, 57, Tr 157)], St 0),
      (117, False, [(10, 10, Tr 158), (13, 13, Tr 159), (33, 33, St 21), (35, 39, St 21), (42, 43, St 21), (45, 46, St 21),
        (48, 57, St 117), (58, 58, Tr 39), (65, 90, St 21), (94, 122, St 21), (124, 124, St 21), (126, 126, St 21)], St 0)],
     [(150, [C_MARK_mark, C_write_value], Goto 113),
      (157, [C_MARK_mark], Goto 115),
      (154, [C_done], Break 123),
      (156, [C_MARK_mark, C_MARK_field_start], Goto 117)])"

definition client_part_22 :: "client_action part" where
  "client_part_22 =
    ([(118, False, [(9, 9, St 114), (10, 10, St 113), (11, 13, St 114), (32, 32, St 114), (48, 57, Tr 157)], St 0),
      (119, False, [(10, 10, Tr 158), (13, 13, Tr 159), (48, 57, St 119)], St 23)],
     [(151, [C_MARK_mark, C_write_value], Goto 118),
      (152, [C_MARK_mark], Goto 119)])"

definition client_parts :: "client_action part list" where
  "client_parts =
    [client_part_1, client_part_2, client_part_3, client_part_4, client_part_5, client_part_6, client_part_7, client_part_8,
     client_part_9, client_part_10, client_part_11, client_part_12, client_part_13, client_part_14, client_part_15,
     client_part_16, client_part_17, client_part_18, client_part_19, client_part_20, client_part_21, client_part_22]"

lemmas client_part_defs =
  client_part_1_def client_part_2_def client_part_3_def client_part_4_def client_part_5_def client_part_6_def
  client_part_7_def client_part_8_def client_part_9_def client_part_10_def client_part_11_def client_part_12_def
  client_part_13_def client_part_14_def client_part_15_def client_part_16_def client_part_17_def client_part_18_def
  client_part_19_def client_part_20_def client_part_21_def client_part_22_def

lemma client_in_parts [simp]:
  "client_part_1 \<in> set client_parts" "client_part_2 \<in> set client_parts" "client_part_3 \<in> set client_parts"
  "client_part_4 \<in> set client_parts" "client_part_5 \<in> set client_parts" "client_part_6 \<in> set client_parts"
  "client_part_7 \<in> set client_parts" "client_part_8 \<in> set client_parts" "client_part_9 \<in> set client_parts"
  "client_part_10 \<in> set client_parts" "client_part_11 \<in> set client_parts" "client_part_12 \<in> set client_parts"
  "client_part_13 \<in> set client_parts" "client_part_14 \<in> set client_parts" "client_part_15 \<in> set client_parts"
  "client_part_16 \<in> set client_parts" "client_part_17 \<in> set client_parts" "client_part_18 \<in> set client_parts"
  "client_part_19 \<in> set client_parts" "client_part_20 \<in> set client_parts" "client_part_21 \<in> set client_parts"
  "client_part_22 \<in> set client_parts"
  by (simp_all add: client_parts_def)

lemma client_closed: "closed_table client_parts 123"
  unfolding client_parts_def client_part_defs by code_simp

end
