(* ===== verification/ClientScanner.thy ===== *)
theory ClientScanner
  imports HttpConnection HttpScanner ClientMachine
begin

text \<open>
  The scanner of responses and of the heads of chunks (\<open>src/http/httpclient_parser.rl.cc\<close>,
  \<open>src/http/httpclient_parser.h\<close>): the parser structure, the actions, httpclient_parser_execute around the machine of
  \<open>ClientMachine\<close>, and the scanner that HttpResponseParser runs. The callers put the zero byte behind the
  buffer that the scanner asserts; strtol and atoi stop there.
\<close>

section \<open>The scanner\<close>

record httpclient_parser =
  cp_cs :: int
  cp_body_start :: nat
  cp_content_len :: int
  cp_status :: int
  cp_chunked :: bool
  cp_chunks_done :: bool
  cp_close :: bool
  cp_nread :: nat
  cp_mark :: nat
  cp_field_start :: nat
  cp_field_len :: nat

definition httpclient_parser_start :: int where "httpclient_parser_start = 1"
definition httpclient_parser_first_final :: int where "httpclient_parser_first_final = 120"
definition httpclient_parser_error :: int where "httpclient_parser_error = 0"

text \<open>httpclient_parser_init sets every field but \<open>status\<close>.\<close>

definition httpclient_parser_init :: "httpclient_parser \<Rightarrow> httpclient_parser" where
  "httpclient_parser_init ps = ps\<lparr>cp_cs := httpclient_parser_start, cp_body_start := 0, cp_content_len := - 1, cp_chunked := False,
     cp_chunks_done := False, cp_mark := 0, cp_nread := 0, cp_field_len := 0, cp_field_start := 0, cp_close := False\<rparr>"

text \<open>
  strtol in base 10 or 16: blanks, a sign, in base 16 the prefix 0x, and the digits that follow, limited to the range of a
  long. The fields are ints, which keep the low 32 bits.
\<close>

definition digit_of :: "nat \<Rightarrow> char \<Rightarrow> nat option" where
  "digit_of b c =
     (let n = of_char c :: nat; v = (if 48 \<le> n \<and> n \<le> 57 then n - 48 else if 65 \<le> n \<and> n \<le> 90 then n - 55 else if 97 \<le> n \<and> n \<le> 122 then n - 87 else b)
      in if v < b then Some v else None)"

fun digits_value :: "nat \<Rightarrow> nat \<Rightarrow> string \<Rightarrow> nat" where
  "digits_value b v [] = v"
| "digits_value b v (c # s) = (case digit_of b c of None \<Rightarrow> v | Some d \<Rightarrow> digits_value b (v * b + d) s)"

definition strtol :: "nat \<Rightarrow> string \<Rightarrow> int" where
  "strtol b s =
     (let t = dropWhile (\<lambda>c. c = CHR '' '' \<or> of_char c \<in> {9..(13 :: nat)}) (c_str s);
          neg = (t \<noteq> [] \<and> hd t = CHR ''-'');
          t = (if t \<noteq> [] \<and> (hd t = CHR ''-'' \<or> hd t = CHR ''+'') then tl t else t);
          t = (if b = 16 \<and> 3 \<le> length t \<and> t ! 0 = CHR ''0'' \<and> (t ! 1 = CHR ''x'' \<or> t ! 1 = CHR ''X'') \<and> digit_of b (t ! 2) \<noteq> None
               then drop 2 t else t);
          v = int (digits_value b 0 t)
      in max (- (2 ^ 63)) (min (2 ^ 63 - 1) (if neg then - v else v)))"

definition int_of_long :: "int \<Rightarrow> int" where
  "int_of_long v = sint (word_of_int v :: i32)"

text \<open>The actions, with the callbacks they make in order; HttpResponseParser sets all of them.\<close>

fun client_act :: "u8 list \<Rightarrow> client_action \<Rightarrow> nat \<Rightarrow> httpclient_parser \<times> response_event list \<Rightarrow> httpclient_parser \<times> response_event list" where
  "client_act buf C_MARK_mark p (ps, evs) = (ps\<lparr>cp_mark := p\<rparr>, evs)"
| "client_act buf C_MARK_field_start p (ps, evs) = (ps\<lparr>cp_field_start := p\<rparr>, evs)"
| "client_act buf C_write_field p (ps, evs) = (ps\<lparr>cp_field_len := LEN (cp_field_start ps) p\<rparr>, evs)"
| "client_act buf C_write_content_len p (ps, evs) = (ps\<lparr>cp_content_len := int_of_long (strtol 10 (PTR_TO buf (cp_mark ps)))\<rparr>, evs)"
| "client_act buf C_write_connection_close p (ps, evs) = (ps\<lparr>cp_close := True\<rparr>, evs)"
| "client_act buf C_write_value p (ps, evs) =
     (ps, evs @ [rs_http_field (PTR_TO buf (cp_field_start ps)) (cp_field_len ps) (PTR_TO buf (cp_mark ps)) (LEN (cp_mark ps) p)])"
| "client_act buf C_reason_phrase p (ps, evs) = (ps, evs @ [reason_phrase (PTR_TO buf (cp_mark ps)) (LEN (cp_mark ps) p)])"
| "client_act buf C_status_code p (ps, evs) =
     (ps\<lparr>cp_status := int_of_long (strtol 10 (PTR_TO buf (cp_mark ps)))\<rparr>, evs @ [status_code (PTR_TO buf (cp_mark ps)) (LEN (cp_mark ps) p)])"
| "client_act buf C_http_version p (ps, evs) = (ps, evs @ [rs_http_version (PTR_TO buf (cp_mark ps)) (LEN (cp_mark ps) p)])"
| "client_act buf C_chunk_size p (ps, evs) =
     (let n = int_of_long (strtol 16 (PTR_TO buf (cp_mark ps)));
          ps' = ps\<lparr>cp_chunked := True, cp_content_len := n, cp_chunks_done := n \<le> 0\<rparr>
      in (ps', evs @ [(if cp_chunks_done ps' then last_chunk else chunk_size) (PTR_TO buf (cp_mark ps)) (LEN (cp_mark ps) p)]))"
| "client_act buf C_trans_chunked p (ps, evs) = (ps\<lparr>cp_chunked := True\<rparr>, evs)"
| "client_act buf C_done p (ps, evs) =
     (ps\<lparr>cp_body_start := p + 1\<rparr>, evs @ [rs_header_done (PTR_TO buf (p + 1)) (length buf - p - 1)])"

definition httpclient_parser_has_error :: "httpclient_parser \<Rightarrow> bool" where
  "httpclient_parser_has_error ps \<longleftrightarrow> cp_cs ps = httpclient_parser_error"

text \<open>The code compares with the first final state only; the machine has the final states 120 to 123.\<close>

definition httpclient_parser_is_finished :: "httpclient_parser \<Rightarrow> bool" where
  "httpclient_parser_is_finished ps \<longleftrightarrow> cp_cs ps = httpclient_parser_first_final"

definition httpclient_parser_finish :: "httpclient_parser \<Rightarrow> int" where
  "httpclient_parser_finish ps =
     (if httpclient_parser_has_error ps then - 1 else if httpclient_parser_is_finished ps then 1 else 0)"

abbreviation client_case :: "int \<Rightarrow> int \<Rightarrow> label option" where
  "client_case \<equiv> state_case client_parts (\<lambda>c. c)"

abbreviation client_tr :: "int \<Rightarrow> client_action list \<times> target" where
  "client_tr \<equiv> tr_block client_parts"

text \<open>
  httpclient_parser_execute from the offset 0: \<open>None\<close> when an assertion fails. The checks at the end, which make the result
  \<open>- 1\<close>, only fail on an empty buffer.
\<close>

definition client_asserts :: "nat \<Rightarrow> httpclient_parser \<Rightarrow> bool" where
  "client_asserts len ps \<longleftrightarrow> cp_nread ps \<le> len \<and> cp_body_start ps \<le> len"

definition client_checks :: "nat \<Rightarrow> httpclient_parser \<Rightarrow> bool" where
  "client_checks len ps \<longleftrightarrow> cp_mark ps < len \<and> cp_field_len ps \<le> len \<and> cp_field_start ps < len"

definition httpclient_parser_execute :: "httpclient_parser \<Rightarrow> u8 list \<Rightarrow> (int \<times> httpclient_parser \<times> response_event list) option" where
  "httpclient_parser_execute ps buffer =
     (let len = length buffer; ps0 = ps\<lparr>cp_nread := 0, cp_mark := 0, cp_field_len := 0, cp_field_start := 0\<rparr> in
      if int len \<noteq> sint (word_of_nat len :: i32) then None
      else case ragel_exec client_case client_tr (client_act buffer) 2 (cp_cs ps) 0 buffer (ps0, []) of
          (p, cs, ps1, evs) \<Rightarrow>
            let ps2 = ps1\<lparr>cp_cs := cs, cp_nread := p\<rparr> in
            if \<not> client_asserts len ps2 then None
            else Some (if client_checks len ps2 then int p else - 1, ps2, evs))"

text \<open>
  The scanner of HttpResponseParser. A failed assertion ends the process: there is no response, and the
  scanner shows it as its error state.
\<close>

definition client_scanner_of :: "httpclient_parser \<Rightarrow> httpclient_parser client_scanner" where
  "client_scanner_of ps0 =
     \<lparr>client_execute = \<lambda>ps data. (case httpclient_parser_execute ps data of
          None \<Rightarrow> (0, ps\<lparr>cp_cs := httpclient_parser_error\<rparr>, [])
        | Some (n, ps', evs) \<Rightarrow> (unat (word_of_int n :: u64), ps', evs)),
      client_has_error = httpclient_parser_has_error, client_is_finished = httpclient_parser_is_finished,
      client_init = httpclient_parser_init, client_new = ps0, chunked = cp_chunked, chunks_done = cp_chunks_done,
      content_len = cp_content_len\<rparr>"

section \<open>The assertions\<close>

definition client_ok :: "nat \<Rightarrow> nat \<Rightarrow> httpclient_parser \<times> response_event list \<Rightarrow> bool" where
  "client_ok n q s \<longleftrightarrow> (case s of (ps, evs) \<Rightarrow>
     cp_mark ps \<le> q \<and> cp_mark ps < n \<and> cp_field_start ps \<le> q \<and> cp_field_start ps < n \<and> cp_field_len ps \<le> n)"

lemma client_act_ok: "n < 2 ^ 64 \<Longrightarrow> client_ok n q s \<Longrightarrow> q < n \<Longrightarrow> client_ok n q (client_act buf a q s)"
  by (cases s; cases a) (auto simp: client_ok_def LEN_less Let_def)

text \<open>Every action but \<open>done\<close> leaves \<open>body_start\<close> alone, and \<open>done\<close> sets it to a position in the buffer.\<close>

definition client_start_ok :: "nat \<Rightarrow> nat \<Rightarrow> httpclient_parser \<times> response_event list \<Rightarrow> bool" where
  "client_start_ok n q s \<longleftrightarrow> cp_body_start (fst s) \<le> n"

lemma client_act_start: "client_start_ok n q s \<Longrightarrow> q < n \<Longrightarrow> client_start_ok n q (client_act buf a q s)"
  by (cases s; cases a) (auto simp: client_start_ok_def Let_def)

lemma client_done_last:
  assumes "C_done \<in> set (fst (client_tr k))"
  shows "\<exists>n. snd (client_tr k) = Break n \<and> 120 \<le> n"
proof -
  have "list_all (\<lambda>(k, acts, t). C_done \<in> set acts \<longrightarrow> t \<in> {Break 120, Break 121, Break 122, Break 123}) (concat (map snd client_parts))"
    unfolding client_parts_def client_part_defs by code_simp
  then show ?thesis
    using assms tr_block_in [of client_parts k, OF refl]
    by (cases "client_tr k") (fastforce simp: list_all_iff)
qed

lemma int_fits: "len < 2 ^ 31 \<Longrightarrow> int len = sint (word_of_nat len :: i32)"
  by (simp add: signed_of_nat signed_take_bit_int_eq_self)

lemma client_execute_some:
  assumes "0 < length data" "length data < 2 ^ 31" "cp_body_start ps \<le> length data"
  shows "\<exists>p ps' evs. httpclient_parser_execute ps data = Some (int p, ps', evs) \<and> p \<le> length data
    \<and> (cp_body_start ps = 0 \<longrightarrow> 120 \<le> cp_cs ps' \<or> cp_body_start ps' = 0)"
proof -
  let ?ps = "ps\<lparr>cp_nread := 0, cp_mark := 0, cp_field_len := 0, cp_field_start := 0\<rparr>"
  obtain p cs ps1 evs where e: "ragel_exec client_case client_tr (client_act data) 2 (cp_cs ps) 0 data (?ps, []) = (p, cs, ps1, evs)"
    by (metis prod_cases4)
  have "client_ok (length data) p (ps1, evs)"
    using assms by (intro ragel_exec_invariant [where inv' = "client_ok (length data)", OF client_act_ok _ _ _ e]) (auto simp: client_ok_def)
  moreover have "client_start_ok (length data) p (ps1, evs)"
    using assms by (intro ragel_exec_invariant [where inv' = "client_start_ok (length data)", OF client_act_start _ _ _ e]) (auto simp: client_start_ok_def)
  moreover have "p \<le> length data" using ragel_exec_position [OF e] by simp
  moreover have "120 \<le> cs \<or> cp_body_start ps1 = 0" if "cp_body_start ps = 0"
  proof -
    have keep: "a \<noteq> C_done \<Longrightarrow> cp_body_start (fst s) = 0 \<Longrightarrow> cp_body_start (fst (client_act data a q s)) = 0" for a q s
      by (cases s; cases a) (auto simp: Let_def)
    show ?thesis
      using ragel_exec_last [where stop = C_done and P = "\<lambda>s. cp_body_start (fst s) = 0" and fin = "\<lambda>n. 120 \<le> n",
          OF keep client_done_last _ e] that by simp
  qed
  ultimately show ?thesis using e int_fits [OF assms(2)]
    by (auto simp: httpclient_parser_execute_def client_asserts_def client_checks_def client_ok_def client_start_ok_def Let_def)
qed

text \<open>The action \<open>done\<close> only happens at a line feed.\<close>

lemma client_done_lf:
  assumes "client_case cs c = Some (Tr k)" "C_done \<in> set (fst (client_tr k))"
  shows "c = 10"
proof -
  have blocks: "list_all (\<lambda>(k, acts, t). C_done \<in> set acts \<longrightarrow> k \<in> set [3, 7, 9, 15, 74, 101, 64, 154]) (concat (map snd client_parts))"
    unfolding client_parts_def client_part_defs by code_simp
  have rows: "list_all (\<lambda>(n, w, rs, d). (case d of St m \<Rightarrow> True | Tr k \<Rightarrow> k \<notin> set [3, 7, 9, 15, 74, 101, 64, 154])
      \<and> list_all (\<lambda>(lo, hi, l). case l of St m \<Rightarrow> True | Tr k \<Rightarrow> k \<in> set [3, 7, 9, 15, 74, 101, 64, 154] \<longrightarrow> lo = 10 \<and> hi = 10) rs)
      (concat (map fst client_parts))"
    unfolding client_parts_def client_part_defs by code_simp
  have k: "k \<in> set [3, 7, 9, 15, 74, 101, 64, 154]"
    using assms(2) tr_block_in [of client_parts k, OF refl] blocks by (cases "client_tr k") (fastforce simp: list_all_iff)
  obtain w rs d where r: "(cs, w, rs, d) \<in> set (concat (map fst client_parts))" "Tr k = d \<or> (\<exists>lo hi. (lo, hi, Tr k) \<in> set rs \<and> lo \<le> c \<and> c \<le> hi)"
    using state_case_in [OF assms(1)] by (metis (full_types))
  then show ?thesis using k rows by (fastforce simp: list_all_iff)
qed

lemma ragel_exec_avoids:
  assumes keep: "\<And>a q s. a \<noteq> stop \<Longrightarrow> P s \<Longrightarrow> P (act a q s)"
    and avoid: "\<And>b cs k. b \<in> set bs \<Longrightarrow> cases cs (sint b) = Some (Tr k) \<Longrightarrow> stop \<notin> set (fst (trs k))"
    and "P s" "ragel_exec cases trs act lost cs p bs s = (p', cs', s')"
  shows "P s'"
  using assms(2-)
proof (induction bs arbitrary: cs p s)
  case (Cons b bs)
  have fold: "P (fold (\<lambda>a. act a p) acts s)" if "stop \<notin> set acts" for acts
    using that Cons.prems(2) keep by (induction acts arbitrary: s) auto
  have tail: "P s'" if "ragel_exec cases trs act lost n (Suc p) bs t = (p', cs', s')" "P t" for n t
    by (rule Cons.IH [OF _ that(2,1)]) (use Cons.prems(1) in auto)
  show ?case
  proof (cases "cases cs (sint b)")
    case (Some l)
    then show ?thesis
    proof (cases l)
      case (Tr k)
      obtain acts t where t: "trs k = (acts, t)" by (cases "trs k")
      have "stop \<notin> set acts" using Cons.prems(1) [of b cs k] Some Tr t by simp
      from fold [OF this] show ?thesis using Cons.prems(3) Some Tr t tail by (auto simp: Let_def split: target.splits if_splits)
    qed (use Cons.prems(2,3) tail in \<open>auto split: if_splits\<close>)
  qed (use Cons.prems in auto)
qed auto

lemma client_execute_no_lf:
  assumes "10 \<notin> set data" "length data < 2 ^ 31" "length data < cp_body_start ps"
  shows "httpclient_parser_execute ps data = None"
proof -
  let ?ps = "ps\<lparr>cp_nread := 0, cp_mark := 0, cp_field_len := 0, cp_field_start := 0\<rparr>"
  obtain p cs ps1 evs where e: "ragel_exec client_case client_tr (client_act data) 2 (cp_cs ps) 0 data (?ps, []) = (p, cs, ps1, evs)"
    by (metis prod_cases4)
  have keep: "a \<noteq> C_done \<Longrightarrow> cp_body_start (fst s) = cp_body_start ps \<Longrightarrow> cp_body_start (fst (client_act data a q s)) = cp_body_start ps" for a q s
    by (cases s; cases a) (auto simp: Let_def)
  have avoid: "C_done \<notin> set (fst (client_tr k))" if "b \<in> set data" "client_case cs (sint b) = Some (Tr k)" for b cs k
  proof
    assume "C_done \<in> set (fst (client_tr k))"
    from client_done_lf [OF that(2) this] have "sint b = sint (10 :: u8)" by simp
    then have "b = 10" by (simp only: signed_word_eqI)
    then show False using that(1) assms(1) by simp
  qed
  have "cp_body_start ps1 = cp_body_start ps"
    using ragel_exec_avoids [where stop = C_done and P = "\<lambda>s. cp_body_start (fst s) = cp_body_start ps", OF keep avoid _ e] by simp
  then show ?thesis using e assms(2,3) int_fits [OF assms(2)] by (simp add: httpclient_parser_execute_def client_asserts_def Let_def)
qed

text \<open>The parsers that calls of httpclient_parser_execute lead to, as long as no head has ended.\<close>

inductive client_reads :: "httpclient_parser \<Rightarrow> bool" where
  start: "client_reads (httpclient_parser_init ps)"
| call: "client_reads ps \<Longrightarrow> cp_cs ps < 120 \<Longrightarrow> 0 < length data \<Longrightarrow> length data < 2 ^ 31
    \<Longrightarrow> httpclient_parser_execute ps data = Some (n, ps', evs) \<Longrightarrow> client_reads ps'"

lemma client_reads_start: "client_reads ps \<Longrightarrow> cp_cs ps < 120 \<Longrightarrow> cp_body_start ps = 0"
proof (induction rule: client_reads.induct)
  case (call ps data n ps' evs)
  then show ?case using client_execute_some [of data ps] by auto
qed (simp add: httpclient_parser_init_def)

end
