(* ===== verification/UriMachine.thy ===== *)
theory UriMachine
  imports Ragel
begin

text \<open>
  The machine of Uri::Create in \<open>src/uri.rl.cc\<close>. Every definition tabulates the blocks of a stretch of the
  code, in their order.
\<close>

datatype uri_action = U_mark | save_scheme | save_userinfo | save_host | save_port | save_path | save_query | save_fragment

definition uri_part_1 :: "uri_action part" where
  "uri_part_1 =
    ([(451, False, [(0, 32, St 0), (34, 34, St 0), (35, 35, St 453), (37, 37, St 3), (47, 47, St 458), (58, 58, St 0), (60, 60, St 0),
        (62, 62, St 0), (63, 63, St 456), (65, 90, Tr 461), (91, 94, St 0), (96, 96, St 0), (97, 122, Tr 461), (123, 125, St 0),
        (127, 127, St 0)], St 452),
      (452, False, [(0, 32, St 0), (34, 34, St 0), (35, 35, St 453), (37, 37, St 3), (47, 47, St 455), (58, 58, St 0), (60, 60, St 0),
        (62, 62, St 0), (63, 63, St 456), (91, 94, St 0), (96, 96, St 0), (123, 125, St 0), (127, 127, St 0)], St 452)],
     [(467, [U_mark, save_query], Goto 453),
      (469, [save_query], Goto 453),
      (474, [U_mark, save_host], Goto 453),
      (485, [save_host], Goto 453),
      (489, [U_mark, save_port], Goto 453),
      (493, [save_port], Goto 453),
      (548, [U_mark, save_host, save_path], Goto 453),
      (559, [save_host, U_mark, save_path], Goto 453)])"

definition uri_part_2 :: "uri_action part" where
  "uri_part_2 =
    ([(453, False, [(0, 32, St 0), (34, 35, St 0), (37, 37, Tr 463), (60, 60, St 0), (62, 62, St 0), (91, 94, St 0), (96, 96, St 0),
        (123, 125, St 0), (127, 127, St 0)], Tr 462),
      (454, False, [(0, 32, St 0), (34, 35, St 0), (37, 37, St 1), (60, 60, St 0), (62, 62, St 0), (91, 94, St 0), (96, 96, St 0),
        (123, 125, St 0), (127, 127, St 0)], St 454),
      (1, False, [(48, 57, St 2), (65, 70, St 2), (97, 102, St 2)], St 0),
      (2, False, [(48, 57, St 454), (65, 70, St 454), (97, 102, St 454)], St 0),
      (3, False, [(48, 57, St 4), (65, 70, St 4), (97, 102, St 4)], St 0)],
     [(563, [save_path], Goto 453),
      (566, [U_mark, save_port, save_path], Goto 453),
      (570, [save_port, U_mark, save_path], Goto 453),
      (462, [U_mark], Goto 454),
      (463, [U_mark], Goto 1)])"

definition uri_part_3 :: "uri_action part" where
  "uri_part_3 =
    ([(4, False, [(48, 57, St 452), (65, 70, St 452), (97, 102, St 452)], St 0),
      (455, False, [(0, 32, St 0), (34, 34, St 0), (35, 35, St 453), (37, 37, St 5), (60, 60, St 0), (62, 62, St 0), (63, 63, St 456),
        (91, 94, St 0), (96, 96, St 0), (123, 125, St 0), (127, 127, St 0)], St 455),
      (5, False, [(48, 57, St 6), (65, 70, St 6), (97, 102, St 6)], St 0),
      (6, False, [(48, 57, St 455), (65, 70, St 455), (97, 102, St 455)], St 0)],
     [(476, [U_mark, save_host], Goto 455),
      (486, [save_host], Goto 455),
      (490, [U_mark, save_port], Goto 455),
      (494, [save_port], Goto 455),
      (482, [U_mark, save_host], Goto 456),
      (488, [save_host], Goto 456),
      (492, [U_mark, save_port], Goto 456),
      (496, [save_port], Goto 456)])"

definition uri_part_4 :: "uri_action part" where
  "uri_part_4 =
    ([(456, False, [(0, 32, St 0), (34, 34, St 0), (35, 35, Tr 467), (37, 37, Tr 468), (60, 60, St 0), (62, 62, St 0), (91, 94, St 0),
        (96, 96, St 0), (123, 125, St 0), (127, 127, St 0)], Tr 466),
      (457, False, [(0, 32, St 0), (34, 34, St 0), (35, 35, Tr 469), (37, 37, St 7), (60, 60, St 0), (62, 62, St 0), (91, 94, St 0),
        (96, 96, St 0), (123, 125, St 0), (127, 127, St 0)], St 457),
      (7, False, [(48, 57, St 8), (65, 70, St 8), (97, 102, St 8)], St 0)],
     [(556, [U_mark, save_host, save_path], Goto 456),
      (562, [save_host, U_mark, save_path], Goto 456),
      (565, [save_path], Goto 456),
      (569, [U_mark, save_port, save_path], Goto 456),
      (573, [save_port, U_mark, save_path], Goto 456),
      (466, [U_mark], Goto 457),
      (468, [U_mark], Goto 7)])"

definition uri_part_5 :: "uri_action part" where
  "uri_part_5 =
    ([(8, False, [(48, 57, St 457), (65, 70, St 457), (97, 102, St 457)], St 0),
      (458, False, [(0, 32, St 0), (34, 34, St 0), (35, 35, St 453), (37, 37, St 5), (47, 47, St 459), (60, 60, St 0), (62, 62, St 0),
        (63, 63, St 456), (91, 94, St 0), (96, 96, St 0), (123, 125, St 0), (127, 127, St 0)], St 455),
      (459, False, [(2, 2, Tr 472), (33, 33, Tr 473), (35, 35, Tr 474), (36, 36, Tr 473), (37, 37, Tr 475), (38, 46, Tr 473),
        (47, 47, Tr 476), (48, 48, Tr 477), (49, 49, Tr 478), (50, 50, Tr 479), (51, 57, Tr 480), (58, 58, Tr 481), (59, 59, Tr 473),
        (61, 61, Tr 473), (63, 63, Tr 482), (64, 64, Tr 483), (65, 90, Tr 473), (91, 91, Tr 484), (95, 95, Tr 473), (97, 122, Tr 473),
        (126, 126, Tr 473)], St 0),
      (9, False, [(48, 52, St 10)], St 0),
      (10, False, [(48, 57, St 11)], St 0),
      (11, False, [(46, 46, St 12)], St 0),
      (12, False, [(2, 2, St 13), (48, 48, St 15), (49, 49, St 27), (50, 50, St 29), (51, 57, St 28)], St 0),
      (13, False, [(48, 52, St 14)], St 0),
      (14, False, [(48, 57, St 15)], St 0),
      (15, False, [(46, 46, St 16)], St 0),
      (16, False, [(2, 2, St 17), (48, 48, St 19), (49, 49, St 23), (50, 50, St 25), (51, 57, St 24)], St 0),
      (17, False, [(48, 52, St 18)], St 0)],
     [(472, [U_mark], Goto 9)])"

definition uri_part_6 :: "uri_action part" where
  "uri_part_6 =
    ([(18, False, [(48, 57, St 19)], St 0),
      (19, False, [(46, 46, St 20)], St 0),
      (20, False, [(2, 2, St 21), (48, 48, St 460), (49, 49, St 463), (50, 50, St 465), (51, 57, St 464)], St 0),
      (21, False, [(48, 52, St 22)], St 0),
      (22, False, [(48, 57, St 460)], St 0),
      (460, False, [(35, 35, Tr 485), (47, 47, Tr 486), (58, 58, Tr 487), (63, 63, Tr 488)], St 0),
      (461, False, [(35, 35, Tr 489), (47, 47, Tr 490), (48, 57, Tr 491), (63, 63, Tr 492)], St 0),
      (462, False, [(35, 35, Tr 493), (47, 47, Tr 494), (48, 57, St 462), (63, 63, Tr 496)], St 0),
      (463, False, [(35, 35, Tr 485), (47, 47, Tr 486), (48, 57, St 464), (58, 58, Tr 487), (63, 63, Tr 488)], St 0),
      (464, False, [(35, 35, Tr 485), (47, 47, Tr 486), (48, 57, St 460), (58, 58, Tr 487), (63, 63, Tr 488)], St 0),
      (465, False, [(35, 35, Tr 485), (47, 47, Tr 486), (48, 52, St 460), (53, 53, St 466), (54, 57, St 460), (58, 58, Tr 487),
        (63, 63, Tr 488)], St 0)],
     [(507, [U_mark, save_host], Goto 461),
      (487, [save_host], Goto 461),
      (491, [U_mark], Goto 462)])"

definition uri_part_7 :: "uri_action part" where
  "uri_part_7 =
    ([(466, False, [(35, 35, Tr 485), (47, 47, Tr 486), (48, 53, St 460), (58, 58, Tr 487), (63, 63, Tr 488)], St 0),
      (23, False, [(46, 46, St 20), (48, 57, St 24)], St 0),
      (24, False, [(46, 46, St 20), (48, 57, St 19)], St 0),
      (25, False, [(46, 46, St 20), (48, 52, St 19), (53, 53, St 26), (54, 57, St 19)], St 0),
      (26, False, [(46, 46, St 20), (48, 53, St 19)], St 0),
      (27, False, [(46, 46, St 16), (48, 57, St 28)], St 0),
      (28, False, [(46, 46, St 16), (48, 57, St 15)], St 0),
      (29, False, [(46, 46, St 16), (48, 52, St 15), (53, 53, St 30), (54, 57, St 15)], St 0),
      (30, False, [(46, 46, St 16), (48, 53, St 15)], St 0),
      (467, False, [(33, 33, St 467), (35, 35, Tr 485), (36, 36, St 467), (37, 37, St 31), (38, 46, St 467), (47, 47, Tr 486),
        (48, 57, St 467), (58, 58, Tr 499), (59, 59, St 467), (61, 61, St 467), (63, 63, Tr 488), (64, 64, Tr 38), (65, 90, St 467),
        (95, 95, St 467), (97, 122, St 467), (126, 126, St 467)], St 0),
      (31, False, [(48, 57, St 32), (65, 70, St 32), (97, 102, St 32)], St 0),
      (32, False, [(48, 57, St 467), (65, 70, St 467), (97, 102, St 467)], St 0)],
     [(473, [U_mark], Goto 467),
      (475, [U_mark], Goto 31)])"

definition uri_part_8 :: "uri_action part" where
  "uri_part_8 =
    ([(468, False, [(33, 33, St 33), (35, 35, Tr 489), (36, 36, St 33), (37, 37, St 34), (38, 46, St 33), (47, 47, Tr 490),
        (48, 57, Tr 500), (58, 59, St 33), (61, 61, St 33), (63, 63, Tr 492), (64, 64, Tr 38), (65, 90, St 33), (95, 95, St 33),
        (97, 122, St 33), (126, 126, St 33)], St 0),
      (33, False, [(33, 33, St 33), (36, 36, St 33), (37, 37, St 34), (38, 46, St 33), (48, 59, St 33), (61, 61, St 33),
        (64, 64, Tr 38), (65, 90, St 33), (95, 95, St 33), (97, 122, St 33), (126, 126, St 33)], St 0),
      (34, False, [(48, 57, St 35), (65, 70, St 35), (97, 102, St 35)], St 0),
      (35, False, [(48, 57, St 33), (65, 70, St 33), (97, 102, St 33)], St 0)],
     [(481, [U_mark, save_host], Goto 468),
      (499, [save_host], Goto 468),
      (38, [save_userinfo], Goto 469),
      (483, [U_mark, save_userinfo], Goto 469)])"

definition uri_part_9 :: "uri_action part" where
  "uri_part_9 =
    ([(469, False, [(2, 2, Tr 472), (33, 33, Tr 501), (35, 35, Tr 474), (36, 36, Tr 501), (37, 37, Tr 502), (38, 46, Tr 501),
        (47, 47, Tr 476), (48, 48, Tr 503), (49, 49, Tr 504), (50, 50, Tr 505), (51, 57, Tr 506), (58, 58, Tr 507), (59, 59, Tr 501),
        (61, 61, Tr 501), (63, 63, Tr 482), (65, 90, Tr 501), (91, 91, Tr 484), (95, 95, Tr 501), (97, 122, Tr 501),
        (126, 126, Tr 501)], St 0),
      (470, False, [(33, 33, St 470), (35, 35, Tr 485), (36, 36, St 470), (37, 37, St 36), (38, 46, St 470), (47, 47, Tr 486),
        (48, 57, St 470), (58, 58, Tr 487), (59, 59, St 470), (61, 61, St 470), (63, 63, Tr 488), (65, 90, St 470), (95, 95, St 470),
        (97, 122, St 470), (126, 126, St 470)], St 0),
      (36, False, [(48, 57, St 37), (65, 70, St 37), (97, 102, St 37)], St 0),
      (37, False, [(48, 57, St 470), (65, 70, St 470), (97, 102, St 470)], St 0),
      (471, False, [(33, 33, St 470), (35, 35, Tr 485), (36, 36, St 470), (37, 37, St 36), (38, 45, St 470), (46, 46, St 472),
        (47, 47, Tr 486), (48, 57, St 470), (58, 58, Tr 487), (59, 59, St 470), (61, 61, St 470), (63, 63, Tr 488), (65, 90, St 470),
        (95, 95, St 470), (97, 122, St 470), (126, 126, St 470)], St 0)],
     [(501, [U_mark], Goto 470),
      (502, [U_mark], Goto 36),
      (503, [U_mark], Goto 471)])"

definition uri_part_10 :: "uri_action part" where
  "uri_part_10 =
    ([(472, False, [(2, 2, St 13), (33, 33, St 470), (35, 35, Tr 485), (36, 36, St 470), (37, 37, St 36), (38, 46, St 470),
        (47, 47, Tr 486), (48, 48, St 473), (49, 49, St 481), (50, 50, St 483), (51, 57, St 482), (58, 58, Tr 487), (59, 59, St 470),
        (61, 61, St 470), (63, 63, Tr 488), (65, 90, St 470), (95, 95, St 470), (97, 122, St 470), (126, 126, St 470)], St 0),
      (473, False, [(33, 33, St 470), (35, 35, Tr 485), (36, 36, St 470), (37, 37, St 36), (38, 45, St 470), (46, 46, St 474),
        (47, 47, Tr 486), (48, 57, St 470), (58, 58, Tr 487), (59, 59, St 470), (61, 61, St 470), (63, 63, Tr 488), (65, 90, St 470),
        (95, 95, St 470), (97, 122, St 470), (126, 126, St 470)], St 0),
      (474, False, [(2, 2, St 17), (33, 33, St 470), (35, 35, Tr 485), (36, 36, St 470), (37, 37, St 36), (38, 46, St 470),
        (47, 47, Tr 486), (48, 48, St 475), (49, 49, St 477), (50, 50, St 479), (51, 57, St 478), (58, 58, Tr 487), (59, 59, St 470),
        (61, 61, St 470), (63, 63, Tr 488), (65, 90, St 470), (95, 95, St 470), (97, 122, St 470), (126, 126, St 470)], St 0),
      (475, False, [(33, 33, St 470), (35, 35, Tr 485), (36, 36, St 470), (37, 37, St 36), (38, 45, St 470), (46, 46, St 476),
        (47, 47, Tr 486), (48, 57, St 470), (58, 58, Tr 487), (59, 59, St 470), (61, 61, St 470), (63, 63, Tr 488), (65, 90, St 470),
        (95, 95, St 470), (97, 122, St 470), (126, 126, St 470)], St 0),
      (476, False, [(2, 2, St 21), (33, 33, St 470), (35, 35, Tr 485), (36, 36, St 470), (37, 37, St 36), (38, 46, St 470),
        (47, 47, Tr 486), (48, 57, St 470), (58, 58, Tr 487), (59, 59, St 470), (61, 61, St 470), (63, 63, Tr 488), (65, 90, St 470),
        (95, 95, St 470), (97, 122, St 470), (126, 126, St 470)], St 0)],
     [])"

definition uri_part_11 :: "uri_action part" where
  "uri_part_11 =
    ([(477, False, [(33, 33, St 470), (35, 35, Tr 485), (36, 36, St 470), (37, 37, St 36), (38, 45, St 470), (46, 46, St 476),
        (47, 47, Tr 486), (48, 57, St 478), (58, 58, Tr 487), (59, 59, St 470), (61, 61, St 470), (63, 63, Tr 488), (65, 90, St 470),
        (95, 95, St 470), (97, 122, St 470), (126, 126, St 470)], St 0),
      (478, False, [(33, 33, St 470), (35, 35, Tr 485), (36, 36, St 470), (37, 37, St 36), (38, 45, St 470), (46, 46, St 476),
        (47, 47, Tr 486), (48, 57, St 475), (58, 58, Tr 487), (59, 59, St 470), (61, 61, St 470), (63, 63, Tr 488), (65, 90, St 470),
        (95, 95, St 470), (97, 122, St 470), (126, 126, St 470)], St 0),
      (479, False, [(33, 33, St 470), (35, 35, Tr 485), (36, 36, St 470), (37, 37, St 36), (38, 45, St 470), (46, 46, St 476),
        (47, 47, Tr 486), (48, 52, St 475), (53, 53, St 480), (54, 57, St 475), (58, 58, Tr 487), (59, 59, St 470), (61, 61, St 470),
        (63, 63, Tr 488), (65, 90, St 470), (95, 95, St 470), (97, 122, St 470), (126, 126, St 470)], St 0),
      (480, False, [(33, 33, St 470), (35, 35, Tr 485), (36, 36, St 470), (37, 37, St 36), (38, 45, St 470), (46, 46, St 476),
        (47, 47, Tr 486), (48, 53, St 475), (54, 57, St 470), (58, 58, Tr 487), (59, 59, St 470), (61, 61, St 470), (63, 63, Tr 488),
        (65, 90, St 470), (95, 95, St 470), (97, 122, St 470), (126, 126, St 470)], St 0),
      (481, False, [(33, 33, St 470), (35, 35, Tr 485), (36, 36, St 470), (37, 37, St 36), (38, 45, St 470), (46, 46, St 474),
        (47, 47, Tr 486), (48, 57, St 482), (58, 58, Tr 487), (59, 59, St 470), (61, 61, St 470), (63, 63, Tr 488), (65, 90, St 470),
        (95, 95, St 470), (97, 122, St 470), (126, 126, St 470)], St 0)],
     [])"

definition uri_part_12 :: "uri_action part" where
  "uri_part_12 =
    ([(482, False, [(33, 33, St 470), (35, 35, Tr 485), (36, 36, St 470), (37, 37, St 36), (38, 45, St 470), (46, 46, St 474),
        (47, 47, Tr 486), (48, 57, St 473), (58, 58, Tr 487), (59, 59, St 470), (61, 61, St 470), (63, 63, Tr 488), (65, 90, St 470),
        (95, 95, St 470), (97, 122, St 470), (126, 126, St 470)], St 0),
      (483, False, [(33, 33, St 470), (35, 35, Tr 485), (36, 36, St 470), (37, 37, St 36), (38, 45, St 470), (46, 46, St 474),
        (47, 47, Tr 486), (48, 52, St 473), (53, 53, St 484), (54, 57, St 473), (58, 58, Tr 487), (59, 59, St 470), (61, 61, St 470),
        (63, 63, Tr 488), (65, 90, St 470), (95, 95, St 470), (97, 122, St 470), (126, 126, St 470)], St 0),
      (484, False, [(33, 33, St 470), (35, 35, Tr 485), (36, 36, St 470), (37, 37, St 36), (38, 45, St 470), (46, 46, St 474),
        (47, 47, Tr 486), (48, 53, St 473), (54, 57, St 470), (58, 58, Tr 487), (59, 59, St 470), (61, 61, St 470), (63, 63, Tr 488),
        (65, 90, St 470), (95, 95, St 470), (97, 122, St 470), (126, 126, St 470)], St 0),
      (485, False, [(33, 33, St 470), (35, 35, Tr 485), (36, 36, St 470), (37, 37, St 36), (38, 45, St 470), (46, 46, St 472),
        (47, 47, Tr 486), (48, 57, St 486), (58, 58, Tr 487), (59, 59, St 470), (61, 61, St 470), (63, 63, Tr 488), (65, 90, St 470),
        (95, 95, St 470), (97, 122, St 470), (126, 126, St 470)], St 0)],
     [(504, [U_mark], Goto 485),
      (506, [U_mark], Goto 486)])"

definition uri_part_13 :: "uri_action part" where
  "uri_part_13 =
    ([(486, False, [(33, 33, St 470), (35, 35, Tr 485), (36, 36, St 470), (37, 37, St 36), (38, 45, St 470), (46, 46, St 472),
        (47, 47, Tr 486), (48, 57, St 471), (58, 58, Tr 487), (59, 59, St 470), (61, 61, St 470), (63, 63, Tr 488), (65, 90, St 470),
        (95, 95, St 470), (97, 122, St 470), (126, 126, St 470)], St 0),
      (487, False, [(33, 33, St 470), (35, 35, Tr 485), (36, 36, St 470), (37, 37, St 36), (38, 45, St 470), (46, 46, St 472),
        (47, 47, Tr 486), (48, 52, St 471), (53, 53, St 488), (54, 57, St 471), (58, 58, Tr 487), (59, 59, St 470), (61, 61, St 470),
        (63, 63, Tr 488), (65, 90, St 470), (95, 95, St 470), (97, 122, St 470), (126, 126, St 470)], St 0),
      (488, False, [(33, 33, St 470), (35, 35, Tr 485), (36, 36, St 470), (37, 37, St 36), (38, 45, St 470), (46, 46, St 472),
        (47, 47, Tr 486), (48, 53, St 471), (54, 57, St 470), (58, 58, Tr 487), (59, 59, St 470), (61, 61, St 470), (63, 63, Tr 488),
        (65, 90, St 470), (95, 95, St 470), (97, 122, St 470), (126, 126, St 470)], St 0),
      (38, False, [(48, 57, St 39), (58, 58, St 146), (65, 70, St 39), (97, 102, St 39), (118, 118, St 225)], St 0),
      (39, False, [(48, 57, St 40), (58, 58, St 43), (65, 70, St 40), (97, 102, St 40)], St 0),
      (40, False, [(48, 57, St 41), (58, 58, St 43), (65, 70, St 41), (97, 102, St 41)], St 0)],
     [(505, [U_mark], Goto 487),
      (484, [U_mark], Goto 38)])"

definition uri_part_14 :: "uri_action part" where
  "uri_part_14 =
    ([(41, False, [(48, 57, St 42), (58, 58, St 43), (65, 70, St 42), (97, 102, St 42)], St 0),
      (42, False, [(58, 58, St 43)], St 0),
      (43, False, [(48, 57, St 44), (58, 58, St 141), (65, 70, St 44), (97, 102, St 44)], St 0),
      (44, False, [(48, 57, St 45), (58, 58, St 48), (65, 70, St 45), (97, 102, St 45)], St 0),
      (45, False, [(48, 57, St 46), (58, 58, St 48), (65, 70, St 46), (97, 102, St 46)], St 0),
      (46, False, [(48, 57, St 47), (58, 58, St 48), (65, 70, St 47), (97, 102, St 47)], St 0),
      (47, False, [(58, 58, St 48)], St 0),
      (48, False, [(48, 57, St 49), (58, 58, St 136), (65, 70, St 49), (97, 102, St 49)], St 0),
      (49, False, [(48, 57, St 50), (58, 58, St 53), (65, 70, St 50), (97, 102, St 50)], St 0),
      (50, False, [(48, 57, St 51), (58, 58, St 53), (65, 70, St 51), (97, 102, St 51)], St 0),
      (51, False, [(48, 57, St 52), (58, 58, St 53), (65, 70, St 52), (97, 102, St 52)], St 0)],
     [])"

definition uri_part_15 :: "uri_action part" where
  "uri_part_15 =
    ([(52, False, [(58, 58, St 53)], St 0),
      (53, False, [(48, 57, St 54), (58, 58, St 131), (65, 70, St 54), (97, 102, St 54)], St 0),
      (54, False, [(48, 57, St 55), (58, 58, St 58), (65, 70, St 55), (97, 102, St 55)], St 0),
      (55, False, [(48, 57, St 56), (58, 58, St 58), (65, 70, St 56), (97, 102, St 56)], St 0),
      (56, False, [(48, 57, St 57), (58, 58, St 58), (65, 70, St 57), (97, 102, St 57)], St 0),
      (57, False, [(58, 58, St 58)], St 0),
      (58, False, [(48, 57, St 59), (58, 58, St 126), (65, 70, St 59), (97, 102, St 59)], St 0),
      (59, False, [(48, 57, St 60), (58, 58, St 63), (65, 70, St 60), (97, 102, St 60)], St 0),
      (60, False, [(48, 57, St 61), (58, 58, St 63), (65, 70, St 61), (97, 102, St 61)], St 0),
      (61, False, [(48, 57, St 62), (58, 58, St 63), (65, 70, St 62), (97, 102, St 62)], St 0),
      (62, False, [(58, 58, St 63)], St 0)],
     [])"

definition uri_part_16 :: "uri_action part" where
  "uri_part_16 =
    ([(63, False, [(48, 57, St 64), (58, 58, St 113), (65, 70, St 64), (97, 102, St 64)], St 0),
      (64, False, [(48, 57, St 65), (58, 58, St 68), (65, 70, St 65), (97, 102, St 65)], St 0),
      (65, False, [(48, 57, St 66), (58, 58, St 68), (65, 70, St 66), (97, 102, St 66)], St 0),
      (66, False, [(48, 57, St 67), (58, 58, St 68), (65, 70, St 67), (97, 102, St 67)], St 0),
      (67, False, [(58, 58, St 68)], St 0),
      (68, False, [(2, 2, St 69), (48, 48, St 96), (49, 49, St 104), (50, 50, St 107), (51, 57, St 110), (58, 58, St 111),
        (65, 70, St 112), (97, 102, St 112)], St 0),
      (69, False, [(48, 52, St 70)], St 0),
      (70, False, [(48, 57, St 71)], St 0),
      (71, False, [(46, 46, St 72)], St 0),
      (72, False, [(2, 2, St 73), (48, 48, St 75), (49, 49, St 92), (50, 50, St 94), (51, 57, St 93)], St 0),
      (73, False, [(48, 52, St 74)], St 0),
      (74, False, [(48, 57, St 75)], St 0),
      (75, False, [(46, 46, St 76)], St 0)],
     [])"

definition uri_part_17 :: "uri_action part" where
  "uri_part_17 =
    ([(76, False, [(2, 2, St 77), (48, 48, St 79), (49, 49, St 88), (50, 50, St 90), (51, 57, St 89)], St 0),
      (77, False, [(48, 52, St 78)], St 0),
      (78, False, [(48, 57, St 79)], St 0),
      (79, False, [(46, 46, St 80)], St 0),
      (80, False, [(2, 2, St 81), (48, 48, St 83), (49, 49, St 84), (50, 50, St 86), (51, 57, St 85)], St 0),
      (81, False, [(48, 52, St 82)], St 0),
      (82, False, [(48, 57, St 83)], St 0),
      (83, False, [(93, 93, St 460)], St 0),
      (84, False, [(48, 57, St 85), (93, 93, St 460)], St 0),
      (85, False, [(48, 57, St 83), (93, 93, St 460)], St 0),
      (86, False, [(48, 52, St 83), (53, 53, St 87), (54, 57, St 83), (93, 93, St 460)], St 0),
      (87, False, [(48, 53, St 83), (93, 93, St 460)], St 0),
      (88, False, [(46, 46, St 80), (48, 57, St 89)], St 0),
      (89, False, [(46, 46, St 80), (48, 57, St 79)], St 0),
      (90, False, [(46, 46, St 80), (48, 52, St 79), (53, 53, St 91), (54, 57, St 79)], St 0),
      (91, False, [(46, 46, St 80), (48, 53, St 79)], St 0),
      (92, False, [(46, 46, St 76), (48, 57, St 93)], St 0)],
     [])"

definition uri_part_18 :: "uri_action part" where
  "uri_part_18 =
    ([(93, False, [(46, 46, St 76), (48, 57, St 75)], St 0),
      (94, False, [(46, 46, St 76), (48, 52, St 75), (53, 53, St 95), (54, 57, St 75)], St 0),
      (95, False, [(46, 46, St 76), (48, 53, St 75)], St 0),
      (96, False, [(46, 46, St 72), (48, 57, St 97), (58, 58, St 100), (65, 70, St 97), (97, 102, St 97)], St 0),
      (97, False, [(48, 57, St 98), (58, 58, St 100), (65, 70, St 98), (97, 102, St 98)], St 0),
      (98, False, [(48, 57, St 99), (58, 58, St 100), (65, 70, St 99), (97, 102, St 99)], St 0),
      (99, False, [(58, 58, St 100)], St 0),
      (100, False, [(48, 57, St 101), (58, 58, St 83), (65, 70, St 101), (97, 102, St 101)], St 0),
      (101, False, [(48, 57, St 102), (65, 70, St 102), (93, 93, St 460), (97, 102, St 102)], St 0),
      (102, False, [(48, 57, St 103), (65, 70, St 103), (93, 93, St 460), (97, 102, St 103)], St 0),
      (103, False, [(48, 57, St 83), (65, 70, St 83), (93, 93, St 460), (97, 102, St 83)], St 0)],
     [])"

definition uri_part_19 :: "uri_action part" where
  "uri_part_19 =
    ([(104, False, [(46, 46, St 72), (48, 57, St 105), (58, 58, St 100), (65, 70, St 97), (97, 102, St 97)], St 0),
      (105, False, [(46, 46, St 72), (48, 57, St 106), (58, 58, St 100), (65, 70, St 98), (97, 102, St 98)], St 0),
      (106, False, [(46, 46, St 72), (48, 57, St 99), (58, 58, St 100), (65, 70, St 99), (97, 102, St 99)], St 0),
      (107, False, [(46, 46, St 72), (48, 52, St 108), (53, 53, St 109), (54, 57, St 108), (58, 58, St 100), (65, 70, St 97),
        (97, 102, St 97)], St 0),
      (108, False, [(46, 46, St 72), (48, 57, St 98), (58, 58, St 100), (65, 70, St 98), (97, 102, St 98)], St 0),
      (109, False, [(46, 46, St 72), (48, 53, St 106), (54, 57, St 98), (58, 58, St 100), (65, 70, St 98), (97, 102, St 98)], St 0),
      (110, False, [(46, 46, St 72), (48, 57, St 108), (58, 58, St 100), (65, 70, St 97), (97, 102, St 97)], St 0),
      (111, False, [(48, 57, St 101), (65, 70, St 101), (97, 102, St 101)], St 0),
      (112, False, [(48, 57, St 97), (58, 58, St 100), (65, 70, St 97), (97, 102, St 97)], St 0)],
     [])"

definition uri_part_20 :: "uri_action part" where
  "uri_part_20 =
    ([(113, False, [(2, 2, St 69), (48, 48, St 114), (49, 49, St 118), (50, 50, St 121), (51, 57, St 124), (65, 70, St 125),
        (97, 102, St 125)], St 0),
      (114, False, [(46, 46, St 72), (48, 57, St 115), (58, 58, St 111), (65, 70, St 115), (97, 102, St 115)], St 0),
      (115, False, [(48, 57, St 116), (58, 58, St 111), (65, 70, St 116), (97, 102, St 116)], St 0),
      (116, False, [(48, 57, St 117), (58, 58, St 111), (65, 70, St 117), (97, 102, St 117)], St 0),
      (117, False, [(58, 58, St 111)], St 0),
      (118, False, [(46, 46, St 72), (48, 57, St 119), (58, 58, St 111), (65, 70, St 115), (97, 102, St 115)], St 0),
      (119, False, [(46, 46, St 72), (48, 57, St 120), (58, 58, St 111), (65, 70, St 116), (97, 102, St 116)], St 0),
      (120, False, [(46, 46, St 72), (48, 57, St 117), (58, 58, St 111), (65, 70, St 117), (97, 102, St 117)], St 0),
      (121, False, [(46, 46, St 72), (48, 52, St 122), (53, 53, St 123), (54, 57, St 122), (58, 58, St 111), (65, 70, St 115),
        (97, 102, St 115)], St 0)],
     [])"

definition uri_part_21 :: "uri_action part" where
  "uri_part_21 =
    ([(122, False, [(46, 46, St 72), (48, 57, St 116), (58, 58, St 111), (65, 70, St 116), (97, 102, St 116)], St 0),
      (123, False, [(46, 46, St 72), (48, 53, St 120), (54, 57, St 116), (58, 58, St 111), (65, 70, St 116), (97, 102, St 116)], St 0),
      (124, False, [(46, 46, St 72), (48, 57, St 122), (58, 58, St 111), (65, 70, St 115), (97, 102, St 115)], St 0),
      (125, False, [(48, 57, St 115), (58, 58, St 111), (65, 70, St 115), (97, 102, St 115)], St 0),
      (126, False, [(48, 57, St 127), (65, 70, St 127), (97, 102, St 127)], St 0),
      (127, False, [(48, 57, St 128), (58, 58, St 113), (65, 70, St 128), (97, 102, St 128)], St 0),
      (128, False, [(48, 57, St 129), (58, 58, St 113), (65, 70, St 129), (97, 102, St 129)], St 0),
      (129, False, [(48, 57, St 130), (58, 58, St 113), (65, 70, St 130), (97, 102, St 130)], St 0),
      (130, False, [(58, 58, St 113)], St 0),
      (131, False, [(48, 57, St 132), (65, 70, St 132), (97, 102, St 132)], St 0)],
     [])"

definition uri_part_22 :: "uri_action part" where
  "uri_part_22 =
    ([(132, False, [(48, 57, St 133), (58, 58, St 126), (65, 70, St 133), (97, 102, St 133)], St 0),
      (133, False, [(48, 57, St 134), (58, 58, St 126), (65, 70, St 134), (97, 102, St 134)], St 0),
      (134, False, [(48, 57, St 135), (58, 58, St 126), (65, 70, St 135), (97, 102, St 135)], St 0),
      (135, False, [(58, 58, St 126)], St 0),
      (136, False, [(48, 57, St 137), (65, 70, St 137), (97, 102, St 137)], St 0),
      (137, False, [(48, 57, St 138), (58, 58, St 131), (65, 70, St 138), (97, 102, St 138)], St 0),
      (138, False, [(48, 57, St 139), (58, 58, St 131), (65, 70, St 139), (97, 102, St 139)], St 0),
      (139, False, [(48, 57, St 140), (58, 58, St 131), (65, 70, St 140), (97, 102, St 140)], St 0),
      (140, False, [(58, 58, St 131)], St 0),
      (141, False, [(48, 57, St 142), (65, 70, St 142), (97, 102, St 142)], St 0),
      (142, False, [(48, 57, St 143), (58, 58, St 136), (65, 70, St 143), (97, 102, St 143)], St 0)],
     [])"

definition uri_part_23 :: "uri_action part" where
  "uri_part_23 =
    ([(143, False, [(48, 57, St 144), (58, 58, St 136), (65, 70, St 144), (97, 102, St 144)], St 0),
      (144, False, [(48, 57, St 145), (58, 58, St 136), (65, 70, St 145), (97, 102, St 145)], St 0),
      (145, False, [(58, 58, St 136)], St 0),
      (146, False, [(58, 58, St 147)], St 0),
      (147, False, [(2, 2, St 69), (48, 48, St 148), (49, 49, St 217), (50, 50, St 220), (51, 57, St 223), (65, 70, St 224),
        (93, 93, St 460), (97, 102, St 224)], St 0),
      (148, False, [(46, 46, St 72), (48, 57, St 149), (58, 58, St 152), (65, 70, St 149), (93, 93, St 460), (97, 102, St 149)], St 0),
      (149, False, [(48, 57, St 150), (58, 58, St 152), (65, 70, St 150), (93, 93, St 460), (97, 102, St 150)], St 0),
      (150, False, [(48, 57, St 151), (58, 58, St 152), (65, 70, St 151), (93, 93, St 460), (97, 102, St 151)], St 0),
      (151, False, [(58, 58, St 152), (93, 93, St 460)], St 0),
      (152, False, [(2, 2, St 69), (48, 48, St 153), (49, 49, St 209), (50, 50, St 212), (51, 57, St 215), (65, 70, St 216),
        (97, 102, St 216)], St 0)],
     [])"

definition uri_part_24 :: "uri_action part" where
  "uri_part_24 =
    ([(153, False, [(46, 46, St 72), (48, 57, St 154), (58, 58, St 157), (65, 70, St 154), (93, 93, St 460), (97, 102, St 154)], St 0),
      (154, False, [(48, 57, St 155), (58, 58, St 157), (65, 70, St 155), (93, 93, St 460), (97, 102, St 155)], St 0),
      (155, False, [(48, 57, St 156), (58, 58, St 157), (65, 70, St 156), (93, 93, St 460), (97, 102, St 156)], St 0),
      (156, False, [(58, 58, St 157), (93, 93, St 460)], St 0),
      (157, False, [(2, 2, St 69), (48, 48, St 158), (49, 49, St 201), (50, 50, St 204), (51, 57, St 207), (65, 70, St 208),
        (97, 102, St 208)], St 0),
      (158, False, [(46, 46, St 72), (48, 57, St 159), (58, 58, St 162), (65, 70, St 159), (93, 93, St 460), (97, 102, St 159)], St 0),
      (159, False, [(48, 57, St 160), (58, 58, St 162), (65, 70, St 160), (93, 93, St 460), (97, 102, St 160)], St 0),
      (160, False, [(48, 57, St 161), (58, 58, St 162), (65, 70, St 161), (93, 93, St 460), (97, 102, St 161)], St 0),
      (161, False, [(58, 58, St 162), (93, 93, St 460)], St 0)],
     [])"

definition uri_part_25 :: "uri_action part" where
  "uri_part_25 =
    ([(162, False, [(2, 2, St 69), (48, 48, St 163), (49, 49, St 193), (50, 50, St 196), (51, 57, St 199), (65, 70, St 200),
        (97, 102, St 200)], St 0),
      (163, False, [(46, 46, St 72), (48, 57, St 164), (58, 58, St 167), (65, 70, St 164), (93, 93, St 460), (97, 102, St 164)], St 0),
      (164, False, [(48, 57, St 165), (58, 58, St 167), (65, 70, St 165), (93, 93, St 460), (97, 102, St 165)], St 0),
      (165, False, [(48, 57, St 166), (58, 58, St 167), (65, 70, St 166), (93, 93, St 460), (97, 102, St 166)], St 0),
      (166, False, [(58, 58, St 167), (93, 93, St 460)], St 0),
      (167, False, [(2, 2, St 69), (48, 48, St 168), (49, 49, St 185), (50, 50, St 188), (51, 57, St 191), (65, 70, St 192),
        (97, 102, St 192)], St 0),
      (168, False, [(46, 46, St 72), (48, 57, St 169), (58, 58, St 172), (65, 70, St 169), (93, 93, St 460), (97, 102, St 169)], St 0),
      (169, False, [(48, 57, St 170), (58, 58, St 172), (65, 70, St 170), (93, 93, St 460), (97, 102, St 170)], St 0),
      (170, False, [(48, 57, St 171), (58, 58, St 172), (65, 70, St 171), (93, 93, St 460), (97, 102, St 171)], St 0)],
     [])"

definition uri_part_26 :: "uri_action part" where
  "uri_part_26 =
    ([(171, False, [(58, 58, St 172), (93, 93, St 460)], St 0),
      (172, False, [(2, 2, St 69), (48, 48, St 173), (49, 49, St 177), (50, 50, St 180), (51, 57, St 183), (65, 70, St 184),
        (97, 102, St 184)], St 0),
      (173, False, [(46, 46, St 72), (48, 57, St 174), (58, 58, St 111), (65, 70, St 174), (93, 93, St 460), (97, 102, St 174)], St 0),
      (174, False, [(48, 57, St 175), (58, 58, St 111), (65, 70, St 175), (93, 93, St 460), (97, 102, St 175)], St 0),
      (175, False, [(48, 57, St 176), (58, 58, St 111), (65, 70, St 176), (93, 93, St 460), (97, 102, St 176)], St 0),
      (176, False, [(58, 58, St 111), (93, 93, St 460)], St 0),
      (177, False, [(46, 46, St 72), (48, 57, St 178), (58, 58, St 111), (65, 70, St 174), (93, 93, St 460), (97, 102, St 174)], St 0),
      (178, False, [(46, 46, St 72), (48, 57, St 179), (58, 58, St 111), (65, 70, St 175), (93, 93, St 460), (97, 102, St 175)], St 0),
      (179, False, [(46, 46, St 72), (48, 57, St 176), (58, 58, St 111), (65, 70, St 176), (93, 93, St 460), (97, 102, St 176)], St 0)],
     [])"

definition uri_part_27 :: "uri_action part" where
  "uri_part_27 =
    ([(180, False, [(46, 46, St 72), (48, 52, St 181), (53, 53, St 182), (54, 57, St 181), (58, 58, St 111), (65, 70, St 174),
        (93, 93, St 460), (97, 102, St 174)], St 0),
      (181, False, [(46, 46, St 72), (48, 57, St 175), (58, 58, St 111), (65, 70, St 175), (93, 93, St 460), (97, 102, St 175)], St 0),
      (182, False, [(46, 46, St 72), (48, 53, St 179), (54, 57, St 175), (58, 58, St 111), (65, 70, St 175), (93, 93, St 460),
        (97, 102, St 175)], St 0),
      (183, False, [(46, 46, St 72), (48, 57, St 181), (58, 58, St 111), (65, 70, St 174), (93, 93, St 460), (97, 102, St 174)], St 0),
      (184, False, [(48, 57, St 174), (58, 58, St 111), (65, 70, St 174), (93, 93, St 460), (97, 102, St 174)], St 0),
      (185, False, [(46, 46, St 72), (48, 57, St 186), (58, 58, St 172), (65, 70, St 169), (93, 93, St 460), (97, 102, St 169)], St 0),
      (186, False, [(46, 46, St 72), (48, 57, St 187), (58, 58, St 172), (65, 70, St 170), (93, 93, St 460), (97, 102, St 170)], St 0),
      (187, False, [(46, 46, St 72), (48, 57, St 171), (58, 58, St 172), (65, 70, St 171), (93, 93, St 460), (97, 102, St 171)], St 0)],
     [])"

definition uri_part_28 :: "uri_action part" where
  "uri_part_28 =
    ([(188, False, [(46, 46, St 72), (48, 52, St 189), (53, 53, St 190), (54, 57, St 189), (58, 58, St 172), (65, 70, St 169),
        (93, 93, St 460), (97, 102, St 169)], St 0),
      (189, False, [(46, 46, St 72), (48, 57, St 170), (58, 58, St 172), (65, 70, St 170), (93, 93, St 460), (97, 102, St 170)], St 0),
      (190, False, [(46, 46, St 72), (48, 53, St 187), (54, 57, St 170), (58, 58, St 172), (65, 70, St 170), (93, 93, St 460),
        (97, 102, St 170)], St 0),
      (191, False, [(46, 46, St 72), (48, 57, St 189), (58, 58, St 172), (65, 70, St 169), (93, 93, St 460), (97, 102, St 169)], St 0),
      (192, False, [(48, 57, St 169), (58, 58, St 172), (65, 70, St 169), (93, 93, St 460), (97, 102, St 169)], St 0),
      (193, False, [(46, 46, St 72), (48, 57, St 194), (58, 58, St 167), (65, 70, St 164), (93, 93, St 460), (97, 102, St 164)], St 0),
      (194, False, [(46, 46, St 72), (48, 57, St 195), (58, 58, St 167), (65, 70, St 165), (93, 93, St 460), (97, 102, St 165)], St 0),
      (195, False, [(46, 46, St 72), (48, 57, St 166), (58, 58, St 167), (65, 70, St 166), (93, 93, St 460), (97, 102, St 166)], St 0)],
     [])"

definition uri_part_29 :: "uri_action part" where
  "uri_part_29 =
    ([(196, False, [(46, 46, St 72), (48, 52, St 197), (53, 53, St 198), (54, 57, St 197), (58, 58, St 167), (65, 70, St 164),
        (93, 93, St 460), (97, 102, St 164)], St 0),
      (197, False, [(46, 46, St 72), (48, 57, St 165), (58, 58, St 167), (65, 70, St 165), (93, 93, St 460), (97, 102, St 165)], St 0),
      (198, False, [(46, 46, St 72), (48, 53, St 195), (54, 57, St 165), (58, 58, St 167), (65, 70, St 165), (93, 93, St 460),
        (97, 102, St 165)], St 0),
      (199, False, [(46, 46, St 72), (48, 57, St 197), (58, 58, St 167), (65, 70, St 164), (93, 93, St 460), (97, 102, St 164)], St 0),
      (200, False, [(48, 57, St 164), (58, 58, St 167), (65, 70, St 164), (93, 93, St 460), (97, 102, St 164)], St 0),
      (201, False, [(46, 46, St 72), (48, 57, St 202), (58, 58, St 162), (65, 70, St 159), (93, 93, St 460), (97, 102, St 159)], St 0),
      (202, False, [(46, 46, St 72), (48, 57, St 203), (58, 58, St 162), (65, 70, St 160), (93, 93, St 460), (97, 102, St 160)], St 0),
      (203, False, [(46, 46, St 72), (48, 57, St 161), (58, 58, St 162), (65, 70, St 161), (93, 93, St 460), (97, 102, St 161)], St 0)],
     [])"

definition uri_part_30 :: "uri_action part" where
  "uri_part_30 =
    ([(204, False, [(46, 46, St 72), (48, 52, St 205), (53, 53, St 206), (54, 57, St 205), (58, 58, St 162), (65, 70, St 159),
        (93, 93, St 460), (97, 102, St 159)], St 0),
      (205, False, [(46, 46, St 72), (48, 57, St 160), (58, 58, St 162), (65, 70, St 160), (93, 93, St 460), (97, 102, St 160)], St 0),
      (206, False, [(46, 46, St 72), (48, 53, St 203), (54, 57, St 160), (58, 58, St 162), (65, 70, St 160), (93, 93, St 460),
        (97, 102, St 160)], St 0),
      (207, False, [(46, 46, St 72), (48, 57, St 205), (58, 58, St 162), (65, 70, St 159), (93, 93, St 460), (97, 102, St 159)], St 0),
      (208, False, [(48, 57, St 159), (58, 58, St 162), (65, 70, St 159), (93, 93, St 460), (97, 102, St 159)], St 0),
      (209, False, [(46, 46, St 72), (48, 57, St 210), (58, 58, St 157), (65, 70, St 154), (93, 93, St 460), (97, 102, St 154)], St 0),
      (210, False, [(46, 46, St 72), (48, 57, St 211), (58, 58, St 157), (65, 70, St 155), (93, 93, St 460), (97, 102, St 155)], St 0),
      (211, False, [(46, 46, St 72), (48, 57, St 156), (58, 58, St 157), (65, 70, St 156), (93, 93, St 460), (97, 102, St 156)], St 0)],
     [])"

definition uri_part_31 :: "uri_action part" where
  "uri_part_31 =
    ([(212, False, [(46, 46, St 72), (48, 52, St 213), (53, 53, St 214), (54, 57, St 213), (58, 58, St 157), (65, 70, St 154),
        (93, 93, St 460), (97, 102, St 154)], St 0),
      (213, False, [(46, 46, St 72), (48, 57, St 155), (58, 58, St 157), (65, 70, St 155), (93, 93, St 460), (97, 102, St 155)], St 0),
      (214, False, [(46, 46, St 72), (48, 53, St 211), (54, 57, St 155), (58, 58, St 157), (65, 70, St 155), (93, 93, St 460),
        (97, 102, St 155)], St 0),
      (215, False, [(46, 46, St 72), (48, 57, St 213), (58, 58, St 157), (65, 70, St 154), (93, 93, St 460), (97, 102, St 154)], St 0),
      (216, False, [(48, 57, St 154), (58, 58, St 157), (65, 70, St 154), (93, 93, St 460), (97, 102, St 154)], St 0),
      (217, False, [(46, 46, St 72), (48, 57, St 218), (58, 58, St 152), (65, 70, St 149), (93, 93, St 460), (97, 102, St 149)], St 0),
      (218, False, [(46, 46, St 72), (48, 57, St 219), (58, 58, St 152), (65, 70, St 150), (93, 93, St 460), (97, 102, St 150)], St 0),
      (219, False, [(46, 46, St 72), (48, 57, St 151), (58, 58, St 152), (65, 70, St 151), (93, 93, St 460), (97, 102, St 151)], St 0)],
     [])"

definition uri_part_32 :: "uri_action part" where
  "uri_part_32 =
    ([(220, False, [(46, 46, St 72), (48, 52, St 221), (53, 53, St 222), (54, 57, St 221), (58, 58, St 152), (65, 70, St 149),
        (93, 93, St 460), (97, 102, St 149)], St 0),
      (221, False, [(46, 46, St 72), (48, 57, St 150), (58, 58, St 152), (65, 70, St 150), (93, 93, St 460), (97, 102, St 150)], St 0),
      (222, False, [(46, 46, St 72), (48, 53, St 219), (54, 57, St 150), (58, 58, St 152), (65, 70, St 150), (93, 93, St 460),
        (97, 102, St 150)], St 0),
      (223, False, [(46, 46, St 72), (48, 57, St 221), (58, 58, St 152), (65, 70, St 149), (93, 93, St 460), (97, 102, St 149)], St 0),
      (224, False, [(48, 57, St 149), (58, 58, St 152), (65, 70, St 149), (93, 93, St 460), (97, 102, St 149)], St 0),
      (225, False, [(48, 57, St 226), (65, 70, St 226), (97, 102, St 226)], St 0),
      (226, False, [(46, 46, St 227), (48, 57, St 226), (65, 70, St 226), (97, 102, St 226)], St 0),
      (227, False, [(33, 33, St 228), (36, 36, St 228), (38, 46, St 228), (48, 59, St 228), (61, 61, St 228), (65, 90, St 228),
        (95, 95, St 228), (97, 122, St 228), (126, 126, St 228)], St 0)],
     [])"

definition uri_part_33 :: "uri_action part" where
  "uri_part_33 =
    ([(228, False, [(33, 33, St 228), (36, 36, St 228), (38, 46, St 228), (48, 59, St 228), (61, 61, St 228), (65, 90, St 228),
        (93, 93, St 460), (95, 95, St 228), (97, 122, St 228), (126, 126, St 228)], St 0),
      (489, False, [(33, 33, St 33), (35, 35, Tr 493), (36, 36, St 33), (37, 37, St 34), (38, 46, St 33), (47, 47, Tr 494),
        (48, 57, St 489), (58, 59, St 33), (61, 61, St 33), (63, 63, Tr 496), (64, 64, Tr 38), (65, 90, St 33), (95, 95, St 33),
        (97, 122, St 33), (126, 126, St 33)], St 0),
      (490, False, [(33, 33, St 467), (35, 35, Tr 485), (36, 36, St 467), (37, 37, St 31), (38, 45, St 467), (46, 46, St 491),
        (47, 47, Tr 486), (48, 57, St 467), (58, 58, Tr 499), (59, 59, St 467), (61, 61, St 467), (63, 63, Tr 488), (64, 64, Tr 38),
        (65, 90, St 467), (95, 95, St 467), (97, 122, St 467), (126, 126, St 467)], St 0),
      (491, False, [(2, 2, St 13), (33, 33, St 467), (35, 35, Tr 485), (36, 36, St 467), (37, 37, St 31), (38, 46, St 467),
        (47, 47, Tr 486), (48, 48, St 492), (49, 49, St 500), (50, 50, St 502), (51, 57, St 501), (58, 58, Tr 499), (59, 59, St 467),
        (61, 61, St 467), (63, 63, Tr 488), (64, 64, Tr 38), (65, 90, St 467), (95, 95, St 467), (97, 122, St 467),
        (126, 126, St 467)], St 0),
      (492, False, [(33, 33, St 467), (35, 35, Tr 485), (36, 36, St 467), (37, 37, St 31), (38, 45, St 467), (46, 46, St 493),
        (47, 47, Tr 486), (48, 57, St 467), (58, 58, Tr 499), (59, 59, St 467), (61, 61, St 467), (63, 63, Tr 488), (64, 64, Tr 38),
        (65, 90, St 467), (95, 95, St 467), (97, 122, St 467), (126, 126, St 467)], St 0)],
     [(500, [U_mark], Goto 489),
      (477, [U_mark], Goto 490)])"

definition uri_part_34 :: "uri_action part" where
  "uri_part_34 =
    ([(493, False, [(2, 2, St 17), (33, 33, St 467), (35, 35, Tr 485), (36, 36, St 467), (37, 37, St 31), (38, 46, St 467),
        (47, 47, Tr 486), (48, 48, St 494), (49, 49, St 496), (50, 50, St 498), (51, 57, St 497), (58, 58, Tr 499), (59, 59, St 467),
        (61, 61, St 467), (63, 63, Tr 488), (64, 64, Tr 38), (65, 90, St 467), (95, 95, St 467), (97, 122, St 467),
        (126, 126, St 467)], St 0),
      (494, False, [(33, 33, St 467), (35, 35, Tr 485), (36, 36, St 467), (37, 37, St 31), (38, 45, St 467), (46, 46, St 495),
        (47, 47, Tr 486), (48, 57, St 467), (58, 58, Tr 499), (59, 59, St 467), (61, 61, St 467), (63, 63, Tr 488), (64, 64, Tr 38),
        (65, 90, St 467), (95, 95, St 467), (97, 122, St 467), (126, 126, St 467)], St 0),
      (495, False, [(2, 2, St 21), (33, 33, St 467), (35, 35, Tr 485), (36, 36, St 467), (37, 37, St 31), (38, 46, St 467),
        (47, 47, Tr 486), (48, 57, St 467), (58, 58, Tr 499), (59, 59, St 467), (61, 61, St 467), (63, 63, Tr 488), (64, 64, Tr 38),
        (65, 90, St 467), (95, 95, St 467), (97, 122, St 467), (126, 126, St 467)], St 0),
      (496, False, [(33, 33, St 467), (35, 35, Tr 485), (36, 36, St 467), (37, 37, St 31), (38, 45, St 467), (46, 46, St 495),
        (47, 47, Tr 486), (48, 57, St 497), (58, 58, Tr 499), (59, 59, St 467), (61, 61, St 467), (63, 63, Tr 488), (64, 64, Tr 38),
        (65, 90, St 467), (95, 95, St 467), (97, 122, St 467), (126, 126, St 467)], St 0),
      (497, False, [(33, 33, St 467), (35, 35, Tr 485), (36, 36, St 467), (37, 37, St 31), (38, 45, St 467), (46, 46, St 495),
        (47, 47, Tr 486), (48, 57, St 494), (58, 58, Tr 499), (59, 59, St 467), (61, 61, St 467), (63, 63, Tr 488), (64, 64, Tr 38),
        (65, 90, St 467), (95, 95, St 467), (97, 122, St 467), (126, 126, St 467)], St 0)],
     [])"

definition uri_part_35 :: "uri_action part" where
  "uri_part_35 =
    ([(498, False, [(33, 33, St 467), (35, 35, Tr 485), (36, 36, St 467), (37, 37, St 31), (38, 45, St 467), (46, 46, St 495),
        (47, 47, Tr 486), (48, 52, St 494), (53, 53, St 499), (54, 57, St 494), (58, 58, Tr 499), (59, 59, St 467), (61, 61, St 467),
        (63, 63, Tr 488), (64, 64, Tr 38), (65, 90, St 467), (95, 95, St 467), (97, 122, St 467), (126, 126, St 467)], St 0),
      (499, False, [(33, 33, St 467), (35, 35, Tr 485), (36, 36, St 467), (37, 37, St 31), (38, 45, St 467), (46, 46, St 495),
        (47, 47, Tr 486), (48, 53, St 494), (54, 57, St 467), (58, 58, Tr 499), (59, 59, St 467), (61, 61, St 467), (63, 63, Tr 488),
        (64, 64, Tr 38), (65, 90, St 467), (95, 95, St 467), (97, 122, St 467), (126, 126, St 467)], St 0),
      (500, False, [(33, 33, St 467), (35, 35, Tr 485), (36, 36, St 467), (37, 37, St 31), (38, 45, St 467), (46, 46, St 493),
        (47, 47, Tr 486), (48, 57, St 501), (58, 58, Tr 499), (59, 59, St 467), (61, 61, St 467), (63, 63, Tr 488), (64, 64, Tr 38),
        (65, 90, St 467), (95, 95, St 467), (97, 122, St 467), (126, 126, St 467)], St 0),
      (501, False, [(33, 33, St 467), (35, 35, Tr 485), (36, 36, St 467), (37, 37, St 31), (38, 45, St 467), (46, 46, St 493),
        (47, 47, Tr 486), (48, 57, St 492), (58, 58, Tr 499), (59, 59, St 467), (61, 61, St 467), (63, 63, Tr 488), (64, 64, Tr 38),
        (65, 90, St 467), (95, 95, St 467), (97, 122, St 467), (126, 126, St 467)], St 0)],
     [])"

definition uri_part_36 :: "uri_action part" where
  "uri_part_36 =
    ([(502, False, [(33, 33, St 467), (35, 35, Tr 485), (36, 36, St 467), (37, 37, St 31), (38, 45, St 467), (46, 46, St 493),
        (47, 47, Tr 486), (48, 52, St 492), (53, 53, St 503), (54, 57, St 492), (58, 58, Tr 499), (59, 59, St 467), (61, 61, St 467),
        (63, 63, Tr 488), (64, 64, Tr 38), (65, 90, St 467), (95, 95, St 467), (97, 122, St 467), (126, 126, St 467)], St 0),
      (503, False, [(33, 33, St 467), (35, 35, Tr 485), (36, 36, St 467), (37, 37, St 31), (38, 45, St 467), (46, 46, St 493),
        (47, 47, Tr 486), (48, 53, St 492), (54, 57, St 467), (58, 58, Tr 499), (59, 59, St 467), (61, 61, St 467), (63, 63, Tr 488),
        (64, 64, Tr 38), (65, 90, St 467), (95, 95, St 467), (97, 122, St 467), (126, 126, St 467)], St 0),
      (504, False, [(33, 33, St 467), (35, 35, Tr 485), (36, 36, St 467), (37, 37, St 31), (38, 45, St 467), (46, 46, St 491),
        (47, 47, Tr 486), (48, 57, St 505), (58, 58, Tr 499), (59, 59, St 467), (61, 61, St 467), (63, 63, Tr 488), (64, 64, Tr 38),
        (65, 90, St 467), (95, 95, St 467), (97, 122, St 467), (126, 126, St 467)], St 0),
      (505, False, [(33, 33, St 467), (35, 35, Tr 485), (36, 36, St 467), (37, 37, St 31), (38, 45, St 467), (46, 46, St 491),
        (47, 47, Tr 486), (48, 57, St 490), (58, 58, Tr 499), (59, 59, St 467), (61, 61, St 467), (63, 63, Tr 488), (64, 64, Tr 38),
        (65, 90, St 467), (95, 95, St 467), (97, 122, St 467), (126, 126, St 467)], St 0)],
     [(478, [U_mark], Goto 504),
      (480, [U_mark], Goto 505),
      (479, [U_mark], Goto 506)])"

definition uri_part_37 :: "uri_action part" where
  "uri_part_37 =
    ([(506, False, [(33, 33, St 467), (35, 35, Tr 485), (36, 36, St 467), (37, 37, St 31), (38, 45, St 467), (46, 46, St 491),
        (47, 47, Tr 486), (48, 52, St 490), (53, 53, St 507), (54, 57, St 490), (58, 58, Tr 499), (59, 59, St 467), (61, 61, St 467),
        (63, 63, Tr 488), (64, 64, Tr 38), (65, 90, St 467), (95, 95, St 467), (97, 122, St 467), (126, 126, St 467)], St 0),
      (507, False, [(33, 33, St 467), (35, 35, Tr 485), (36, 36, St 467), (37, 37, St 31), (38, 45, St 467), (46, 46, St 491),
        (47, 47, Tr 486), (48, 53, St 490), (54, 57, St 467), (58, 58, Tr 499), (59, 59, St 467), (61, 61, St 467), (63, 63, Tr 488),
        (64, 64, Tr 38), (65, 90, St 467), (95, 95, St 467), (97, 122, St 467), (126, 126, St 467)], St 0),
      (508, False, [(0, 32, St 0), (34, 34, St 0), (35, 35, St 453), (37, 37, St 3), (43, 43, St 508), (45, 46, St 508),
        (47, 47, St 455), (48, 57, St 508), (58, 58, Tr 543), (60, 60, St 0), (62, 62, St 0), (63, 63, St 456), (65, 90, St 508),
        (91, 94, St 0), (96, 96, St 0), (97, 122, St 508), (123, 125, St 0), (127, 127, St 0)], St 452),
      (509, False, [(0, 32, St 0), (34, 34, St 0), (35, 35, St 453), (37, 37, St 5), (47, 47, St 510), (60, 60, St 0), (62, 62, St 0),
        (63, 63, St 456), (91, 94, St 0), (96, 96, St 0), (123, 125, St 0), (127, 127, St 0)], St 455)],
     [(461, [U_mark], Goto 508),
      (543, [save_scheme], Goto 509)])"

definition uri_part_38 :: "uri_action part" where
  "uri_part_38 =
    ([(510, False, [(0, 32, St 0), (34, 34, St 0), (35, 35, St 453), (37, 37, St 5), (47, 47, St 511), (60, 60, St 0), (62, 62, St 0),
        (63, 63, St 456), (91, 94, St 0), (96, 96, St 0), (123, 125, St 0), (127, 127, St 0)], St 455),
      (511, False, [(2, 2, Tr 546), (33, 33, Tr 547), (35, 35, Tr 548), (36, 36, Tr 547), (37, 37, Tr 549), (38, 46, Tr 547),
        (47, 47, Tr 550), (48, 48, Tr 551), (49, 49, Tr 552), (50, 50, Tr 553), (51, 57, Tr 554), (58, 58, Tr 555), (59, 59, Tr 547),
        (61, 61, Tr 547), (63, 63, Tr 556), (64, 64, Tr 557), (65, 90, Tr 547), (91, 91, Tr 558), (95, 95, Tr 547), (97, 122, Tr 547),
        (126, 126, Tr 547)], St 0),
      (229, False, [(48, 52, St 230)], St 0),
      (230, False, [(48, 57, St 231)], St 0),
      (231, False, [(46, 46, St 232)], St 0),
      (232, False, [(2, 2, St 233), (48, 48, St 235), (49, 49, St 249), (50, 50, St 251), (51, 57, St 250)], St 0),
      (233, False, [(48, 52, St 234)], St 0),
      (234, False, [(48, 57, St 235)], St 0),
      (235, False, [(46, 46, St 236)], St 0),
      (236, False, [(2, 2, St 237), (48, 48, St 239), (49, 49, St 245), (50, 50, St 247), (51, 57, St 246)], St 0),
      (237, False, [(48, 52, St 238)], St 0),
      (238, False, [(48, 57, St 239)], St 0),
      (239, False, [(46, 46, St 240)], St 0)],
     [(546, [U_mark], Goto 229)])"

definition uri_part_39 :: "uri_action part" where
  "uri_part_39 =
    ([(240, False, [(2, 2, St 241), (48, 48, St 512), (49, 49, St 516), (50, 50, St 518), (51, 57, St 517)], St 0),
      (241, False, [(48, 52, St 242)], St 0),
      (242, False, [(48, 57, St 512)], St 0),
      (512, False, [(35, 35, Tr 559), (47, 47, Tr 560), (58, 58, Tr 561), (63, 63, Tr 562)], St 0),
      (513, False, [(0, 32, St 0), (34, 34, St 0), (35, 35, Tr 563), (37, 37, St 243), (60, 60, St 0), (62, 62, St 0),
        (63, 63, Tr 565), (91, 94, St 0), (96, 96, St 0), (123, 125, St 0), (127, 127, St 0)], St 513),
      (243, False, [(48, 57, St 244), (65, 70, St 244), (97, 102, St 244)], St 0),
      (244, False, [(48, 57, St 513), (65, 70, St 513), (97, 102, St 513)], St 0)],
     [(550, [U_mark, save_host], Goto 513),
      (567, [U_mark, save_port], Goto 513),
      (560, [save_host, U_mark], Goto 513),
      (571, [save_port, U_mark], Goto 513),
      (584, [U_mark, save_host], Goto 514)])"

definition uri_part_40 :: "uri_action part" where
  "uri_part_40 =
    ([(514, False, [(35, 35, Tr 566), (47, 47, Tr 567), (48, 57, Tr 568), (63, 63, Tr 569)], St 0),
      (515, False, [(35, 35, Tr 570), (47, 47, Tr 571), (48, 57, St 515), (63, 63, Tr 573)], St 0),
      (516, False, [(35, 35, Tr 559), (47, 47, Tr 560), (48, 57, St 517), (58, 58, Tr 561), (63, 63, Tr 562)], St 0),
      (517, False, [(35, 35, Tr 559), (47, 47, Tr 560), (48, 57, St 512), (58, 58, Tr 561), (63, 63, Tr 562)], St 0),
      (518, False, [(35, 35, Tr 559), (47, 47, Tr 560), (48, 52, St 512), (53, 53, St 519), (54, 57, St 512), (58, 58, Tr 561),
        (63, 63, Tr 562)], St 0),
      (519, False, [(35, 35, Tr 559), (47, 47, Tr 560), (48, 53, St 512), (58, 58, Tr 561), (63, 63, Tr 562)], St 0),
      (245, False, [(46, 46, St 240), (48, 57, St 246)], St 0),
      (246, False, [(46, 46, St 240), (48, 57, St 239)], St 0),
      (247, False, [(46, 46, St 240), (48, 52, St 239), (53, 53, St 248), (54, 57, St 239)], St 0),
      (248, False, [(46, 46, St 240), (48, 53, St 239)], St 0),
      (249, False, [(46, 46, St 236), (48, 57, St 250)], St 0),
      (250, False, [(46, 46, St 236), (48, 57, St 235)], St 0)],
     [(561, [save_host], Goto 514),
      (568, [U_mark], Goto 515)])"

definition uri_part_41 :: "uri_action part" where
  "uri_part_41 =
    ([(251, False, [(46, 46, St 236), (48, 52, St 235), (53, 53, St 252), (54, 57, St 235)], St 0),
      (252, False, [(46, 46, St 236), (48, 53, St 235)], St 0),
      (520, False, [(33, 33, St 520), (35, 35, Tr 559), (36, 36, St 520), (37, 37, St 253), (38, 46, St 520), (47, 47, Tr 560),
        (48, 57, St 520), (58, 58, Tr 576), (59, 59, St 520), (61, 61, St 520), (63, 63, Tr 562), (64, 64, Tr 263), (65, 90, St 520),
        (95, 95, St 520), (97, 122, St 520), (126, 126, St 520)], St 0),
      (253, False, [(48, 57, St 254), (65, 70, St 254), (97, 102, St 254)], St 0),
      (254, False, [(48, 57, St 520), (65, 70, St 520), (97, 102, St 520)], St 0),
      (521, False, [(33, 33, St 255), (35, 35, Tr 566), (36, 36, St 255), (37, 37, St 256), (38, 46, St 255), (47, 47, Tr 567),
        (48, 57, Tr 577), (58, 59, St 255), (61, 61, St 255), (63, 63, Tr 569), (64, 64, Tr 263), (65, 90, St 255), (95, 95, St 255),
        (97, 122, St 255), (126, 126, St 255)], St 0)],
     [(547, [U_mark], Goto 520),
      (549, [U_mark], Goto 253),
      (555, [U_mark, save_host], Goto 521),
      (576, [save_host], Goto 521)])"

definition uri_part_42 :: "uri_action part" where
  "uri_part_42 =
    ([(255, False, [(33, 33, St 255), (36, 36, St 255), (37, 37, St 256), (38, 46, St 255), (48, 59, St 255), (61, 61, St 255),
        (64, 64, Tr 263), (65, 90, St 255), (95, 95, St 255), (97, 122, St 255), (126, 126, St 255)], St 0),
      (256, False, [(48, 57, St 257), (65, 70, St 257), (97, 102, St 257)], St 0),
      (257, False, [(48, 57, St 255), (65, 70, St 255), (97, 102, St 255)], St 0),
      (522, False, [(2, 2, Tr 546), (33, 33, Tr 578), (35, 35, Tr 548), (36, 36, Tr 578), (37, 37, Tr 579), (38, 46, Tr 578),
        (47, 47, Tr 550), (48, 48, Tr 580), (49, 49, Tr 581), (50, 50, Tr 582), (51, 57, Tr 583), (58, 58, Tr 584), (59, 59, Tr 578),
        (61, 61, Tr 578), (63, 63, Tr 556), (65, 90, Tr 578), (91, 91, Tr 558), (95, 95, Tr 578), (97, 122, Tr 578),
        (126, 126, Tr 578)], St 0),
      (523, False, [(33, 33, St 523), (35, 35, Tr 559), (36, 36, St 523), (37, 37, St 258), (38, 46, St 523), (47, 47, Tr 560),
        (48, 57, St 523), (58, 58, Tr 561), (59, 59, St 523), (61, 61, St 523), (63, 63, Tr 562), (65, 90, St 523), (95, 95, St 523),
        (97, 122, St 523), (126, 126, St 523)], St 0),
      (258, False, [(48, 57, St 259), (65, 70, St 259), (97, 102, St 259)], St 0)],
     [(263, [save_userinfo], Goto 522),
      (557, [U_mark, save_userinfo], Goto 522),
      (578, [U_mark], Goto 523),
      (579, [U_mark], Goto 258)])"

definition uri_part_43 :: "uri_action part" where
  "uri_part_43 =
    ([(259, False, [(48, 57, St 523), (65, 70, St 523), (97, 102, St 523)], St 0),
      (524, False, [(33, 33, St 523), (35, 35, Tr 559), (36, 36, St 523), (37, 37, St 258), (38, 45, St 523), (46, 46, St 525),
        (47, 47, Tr 560), (48, 57, St 523), (58, 58, Tr 561), (59, 59, St 523), (61, 61, St 523), (63, 63, Tr 562), (65, 90, St 523),
        (95, 95, St 523), (97, 122, St 523), (126, 126, St 523)], St 0),
      (525, False, [(2, 2, St 233), (33, 33, St 523), (35, 35, Tr 559), (36, 36, St 523), (37, 37, St 258), (38, 46, St 523),
        (47, 47, Tr 560), (48, 48, St 526), (49, 49, St 534), (50, 50, St 536), (51, 57, St 535), (58, 58, Tr 561), (59, 59, St 523),
        (61, 61, St 523), (63, 63, Tr 562), (65, 90, St 523), (95, 95, St 523), (97, 122, St 523), (126, 126, St 523)], St 0),
      (526, False, [(33, 33, St 523), (35, 35, Tr 559), (36, 36, St 523), (37, 37, St 258), (38, 45, St 523), (46, 46, St 527),
        (47, 47, Tr 560), (48, 57, St 523), (58, 58, Tr 561), (59, 59, St 523), (61, 61, St 523), (63, 63, Tr 562), (65, 90, St 523),
        (95, 95, St 523), (97, 122, St 523), (126, 126, St 523)], St 0),
      (527, False, [(2, 2, St 237), (33, 33, St 523), (35, 35, Tr 559), (36, 36, St 523), (37, 37, St 258), (38, 46, St 523),
        (47, 47, Tr 560), (48, 48, St 528), (49, 49, St 530), (50, 50, St 532), (51, 57, St 531), (58, 58, Tr 561), (59, 59, St 523),
        (61, 61, St 523), (63, 63, Tr 562), (65, 90, St 523), (95, 95, St 523), (97, 122, St 523), (126, 126, St 523)], St 0)],
     [(580, [U_mark], Goto 524)])"

definition uri_part_44 :: "uri_action part" where
  "uri_part_44 =
    ([(528, False, [(33, 33, St 523), (35, 35, Tr 559), (36, 36, St 523), (37, 37, St 258), (38, 45, St 523), (46, 46, St 529),
        (47, 47, Tr 560), (48, 57, St 523), (58, 58, Tr 561), (59, 59, St 523), (61, 61, St 523), (63, 63, Tr 562), (65, 90, St 523),
        (95, 95, St 523), (97, 122, St 523), (126, 126, St 523)], St 0),
      (529, False, [(2, 2, St 241), (33, 33, St 523), (35, 35, Tr 559), (36, 36, St 523), (37, 37, St 258), (38, 46, St 523),
        (47, 47, Tr 560), (48, 57, St 523), (58, 58, Tr 561), (59, 59, St 523), (61, 61, St 523), (63, 63, Tr 562), (65, 90, St 523),
        (95, 95, St 523), (97, 122, St 523), (126, 126, St 523)], St 0),
      (530, False, [(33, 33, St 523), (35, 35, Tr 559), (36, 36, St 523), (37, 37, St 258), (38, 45, St 523), (46, 46, St 529),
        (47, 47, Tr 560), (48, 57, St 531), (58, 58, Tr 561), (59, 59, St 523), (61, 61, St 523), (63, 63, Tr 562), (65, 90, St 523),
        (95, 95, St 523), (97, 122, St 523), (126, 126, St 523)], St 0),
      (531, False, [(33, 33, St 523), (35, 35, Tr 559), (36, 36, St 523), (37, 37, St 258), (38, 45, St 523), (46, 46, St 529),
        (47, 47, Tr 560), (48, 57, St 528), (58, 58, Tr 561), (59, 59, St 523), (61, 61, St 523), (63, 63, Tr 562), (65, 90, St 523),
        (95, 95, St 523), (97, 122, St 523), (126, 126, St 523)], St 0),
      (532, False, [(33, 33, St 523), (35, 35, Tr 559), (36, 36, St 523), (37, 37, St 258), (38, 45, St 523), (46, 46, St 529),
        (47, 47, Tr 560), (48, 52, St 528), (53, 53, St 533), (54, 57, St 528), (58, 58, Tr 561), (59, 59, St 523), (61, 61, St 523),
        (63, 63, Tr 562), (65, 90, St 523), (95, 95, St 523), (97, 122, St 523), (126, 126, St 523)], St 0)],
     [])"

definition uri_part_45 :: "uri_action part" where
  "uri_part_45 =
    ([(533, False, [(33, 33, St 523), (35, 35, Tr 559), (36, 36, St 523), (37, 37, St 258), (38, 45, St 523), (46, 46, St 529),
        (47, 47, Tr 560), (48, 53, St 528), (54, 57, St 523), (58, 58, Tr 561), (59, 59, St 523), (61, 61, St 523), (63, 63, Tr 562),
        (65, 90, St 523), (95, 95, St 523), (97, 122, St 523), (126, 126, St 523)], St 0),
      (534, False, [(33, 33, St 523), (35, 35, Tr 559), (36, 36, St 523), (37, 37, St 258), (38, 45, St 523), (46, 46, St 527),
        (47, 47, Tr 560), (48, 57, St 535), (58, 58, Tr 561), (59, 59, St 523), (61, 61, St 523), (63, 63, Tr 562), (65, 90, St 523),
        (95, 95, St 523), (97, 122, St 523), (126, 126, St 523)], St 0),
      (535, False, [(33, 33, St 523), (35, 35, Tr 559), (36, 36, St 523), (37, 37, St 258), (38, 45, St 523), (46, 46, St 527),
        (47, 47, Tr 560), (48, 57, St 526), (58, 58, Tr 561), (59, 59, St 523), (61, 61, St 523), (63, 63, Tr 562), (65, 90, St 523),
        (95, 95, St 523), (97, 122, St 523), (126, 126, St 523)], St 0),
      (536, False, [(33, 33, St 523), (35, 35, Tr 559), (36, 36, St 523), (37, 37, St 258), (38, 45, St 523), (46, 46, St 527),
        (47, 47, Tr 560), (48, 52, St 526), (53, 53, St 537), (54, 57, St 526), (58, 58, Tr 561), (59, 59, St 523), (61, 61, St 523),
        (63, 63, Tr 562), (65, 90, St 523), (95, 95, St 523), (97, 122, St 523), (126, 126, St 523)], St 0),
      (537, False, [(33, 33, St 523), (35, 35, Tr 559), (36, 36, St 523), (37, 37, St 258), (38, 45, St 523), (46, 46, St 527),
        (47, 47, Tr 560), (48, 53, St 526), (54, 57, St 523), (58, 58, Tr 561), (59, 59, St 523), (61, 61, St 523), (63, 63, Tr 562),
        (65, 90, St 523), (95, 95, St 523), (97, 122, St 523), (126, 126, St 523)], St 0)],
     [])"

definition uri_part_46 :: "uri_action part" where
  "uri_part_46 =
    ([(538, False, [(33, 33, St 523), (35, 35, Tr 559), (36, 36, St 523), (37, 37, St 258), (38, 45, St 523), (46, 46, St 525),
        (47, 47, Tr 560), (48, 57, St 539), (58, 58, Tr 561), (59, 59, St 523), (61, 61, St 523), (63, 63, Tr 562), (65, 90, St 523),
        (95, 95, St 523), (97, 122, St 523), (126, 126, St 523)], St 0),
      (539, False, [(33, 33, St 523), (35, 35, Tr 559), (36, 36, St 523), (37, 37, St 258), (38, 45, St 523), (46, 46, St 525),
        (47, 47, Tr 560), (48, 57, St 524), (58, 58, Tr 561), (59, 59, St 523), (61, 61, St 523), (63, 63, Tr 562), (65, 90, St 523),
        (95, 95, St 523), (97, 122, St 523), (126, 126, St 523)], St 0),
      (540, False, [(33, 33, St 523), (35, 35, Tr 559), (36, 36, St 523), (37, 37, St 258), (38, 45, St 523), (46, 46, St 525),
        (47, 47, Tr 560), (48, 52, St 524), (53, 53, St 541), (54, 57, St 524), (58, 58, Tr 561), (59, 59, St 523), (61, 61, St 523),
        (63, 63, Tr 562), (65, 90, St 523), (95, 95, St 523), (97, 122, St 523), (126, 126, St 523)], St 0),
      (541, False, [(33, 33, St 523), (35, 35, Tr 559), (36, 36, St 523), (37, 37, St 258), (38, 45, St 523), (46, 46, St 525),
        (47, 47, Tr 560), (48, 53, St 524), (54, 57, St 523), (58, 58, Tr 561), (59, 59, St 523), (61, 61, St 523), (63, 63, Tr 562),
        (65, 90, St 523), (95, 95, St 523), (97, 122, St 523), (126, 126, St 523)], St 0)],
     [(581, [U_mark], Goto 538),
      (583, [U_mark], Goto 539),
      (582, [U_mark], Goto 540),
      (558, [U_mark], Goto 260)])"

definition uri_part_47 :: "uri_action part" where
  "uri_part_47 =
    ([(260, False, [(48, 57, St 261), (58, 58, St 368), (65, 70, St 261), (97, 102, St 261), (118, 118, St 447)], St 0),
      (261, False, [(48, 57, St 262), (58, 58, St 265), (65, 70, St 262), (97, 102, St 262)], St 0),
      (262, False, [(48, 57, St 263), (58, 58, St 265), (65, 70, St 263), (97, 102, St 263)], St 0),
      (263, False, [(48, 57, St 264), (58, 58, St 265), (65, 70, St 264), (97, 102, St 264)], St 0),
      (264, False, [(58, 58, St 265)], St 0),
      (265, False, [(48, 57, St 266), (58, 58, St 363), (65, 70, St 266), (97, 102, St 266)], St 0),
      (266, False, [(48, 57, St 267), (58, 58, St 270), (65, 70, St 267), (97, 102, St 267)], St 0),
      (267, False, [(48, 57, St 268), (58, 58, St 270), (65, 70, St 268), (97, 102, St 268)], St 0),
      (268, False, [(48, 57, St 269), (58, 58, St 270), (65, 70, St 269), (97, 102, St 269)], St 0),
      (269, False, [(58, 58, St 270)], St 0),
      (270, False, [(48, 57, St 271), (58, 58, St 358), (65, 70, St 271), (97, 102, St 271)], St 0)],
     [])"

definition uri_part_48 :: "uri_action part" where
  "uri_part_48 =
    ([(271, False, [(48, 57, St 272), (58, 58, St 275), (65, 70, St 272), (97, 102, St 272)], St 0),
      (272, False, [(48, 57, St 273), (58, 58, St 275), (65, 70, St 273), (97, 102, St 273)], St 0),
      (273, False, [(48, 57, St 274), (58, 58, St 275), (65, 70, St 274), (97, 102, St 274)], St 0),
      (274, False, [(58, 58, St 275)], St 0),
      (275, False, [(48, 57, St 276), (58, 58, St 353), (65, 70, St 276), (97, 102, St 276)], St 0),
      (276, False, [(48, 57, St 277), (58, 58, St 280), (65, 70, St 277), (97, 102, St 277)], St 0),
      (277, False, [(48, 57, St 278), (58, 58, St 280), (65, 70, St 278), (97, 102, St 278)], St 0),
      (278, False, [(48, 57, St 279), (58, 58, St 280), (65, 70, St 279), (97, 102, St 279)], St 0),
      (279, False, [(58, 58, St 280)], St 0),
      (280, False, [(48, 57, St 281), (58, 58, St 348), (65, 70, St 281), (97, 102, St 281)], St 0),
      (281, False, [(48, 57, St 282), (58, 58, St 285), (65, 70, St 282), (97, 102, St 282)], St 0)],
     [])"

definition uri_part_49 :: "uri_action part" where
  "uri_part_49 =
    ([(282, False, [(48, 57, St 283), (58, 58, St 285), (65, 70, St 283), (97, 102, St 283)], St 0),
      (283, False, [(48, 57, St 284), (58, 58, St 285), (65, 70, St 284), (97, 102, St 284)], St 0),
      (284, False, [(58, 58, St 285)], St 0),
      (285, False, [(48, 57, St 286), (58, 58, St 335), (65, 70, St 286), (97, 102, St 286)], St 0),
      (286, False, [(48, 57, St 287), (58, 58, St 290), (65, 70, St 287), (97, 102, St 287)], St 0),
      (287, False, [(48, 57, St 288), (58, 58, St 290), (65, 70, St 288), (97, 102, St 288)], St 0),
      (288, False, [(48, 57, St 289), (58, 58, St 290), (65, 70, St 289), (97, 102, St 289)], St 0),
      (289, False, [(58, 58, St 290)], St 0),
      (290, False, [(2, 2, St 291), (48, 48, St 318), (49, 49, St 326), (50, 50, St 329), (51, 57, St 332), (58, 58, St 333),
        (65, 70, St 334), (97, 102, St 334)], St 0),
      (291, False, [(48, 52, St 292)], St 0),
      (292, False, [(48, 57, St 293)], St 0),
      (293, False, [(46, 46, St 294)], St 0)],
     [])"

definition uri_part_50 :: "uri_action part" where
  "uri_part_50 =
    ([(294, False, [(2, 2, St 295), (48, 48, St 297), (49, 49, St 314), (50, 50, St 316), (51, 57, St 315)], St 0),
      (295, False, [(48, 52, St 296)], St 0),
      (296, False, [(48, 57, St 297)], St 0),
      (297, False, [(46, 46, St 298)], St 0),
      (298, False, [(2, 2, St 299), (48, 48, St 301), (49, 49, St 310), (50, 50, St 312), (51, 57, St 311)], St 0),
      (299, False, [(48, 52, St 300)], St 0),
      (300, False, [(48, 57, St 301)], St 0),
      (301, False, [(46, 46, St 302)], St 0),
      (302, False, [(2, 2, St 303), (48, 48, St 305), (49, 49, St 306), (50, 50, St 308), (51, 57, St 307)], St 0),
      (303, False, [(48, 52, St 304)], St 0),
      (304, False, [(48, 57, St 305)], St 0),
      (305, False, [(93, 93, St 512)], St 0),
      (306, False, [(48, 57, St 307), (93, 93, St 512)], St 0),
      (307, False, [(48, 57, St 305), (93, 93, St 512)], St 0),
      (308, False, [(48, 52, St 305), (53, 53, St 309), (54, 57, St 305), (93, 93, St 512)], St 0),
      (309, False, [(48, 53, St 305), (93, 93, St 512)], St 0),
      (310, False, [(46, 46, St 302), (48, 57, St 311)], St 0)],
     [])"

definition uri_part_51 :: "uri_action part" where
  "uri_part_51 =
    ([(311, False, [(46, 46, St 302), (48, 57, St 301)], St 0),
      (312, False, [(46, 46, St 302), (48, 52, St 301), (53, 53, St 313), (54, 57, St 301)], St 0),
      (313, False, [(46, 46, St 302), (48, 53, St 301)], St 0),
      (314, False, [(46, 46, St 298), (48, 57, St 315)], St 0),
      (315, False, [(46, 46, St 298), (48, 57, St 297)], St 0),
      (316, False, [(46, 46, St 298), (48, 52, St 297), (53, 53, St 317), (54, 57, St 297)], St 0),
      (317, False, [(46, 46, St 298), (48, 53, St 297)], St 0),
      (318, False, [(46, 46, St 294), (48, 57, St 319), (58, 58, St 322), (65, 70, St 319), (97, 102, St 319)], St 0),
      (319, False, [(48, 57, St 320), (58, 58, St 322), (65, 70, St 320), (97, 102, St 320)], St 0),
      (320, False, [(48, 57, St 321), (58, 58, St 322), (65, 70, St 321), (97, 102, St 321)], St 0),
      (321, False, [(58, 58, St 322)], St 0),
      (322, False, [(48, 57, St 323), (58, 58, St 305), (65, 70, St 323), (97, 102, St 323)], St 0),
      (323, False, [(48, 57, St 324), (65, 70, St 324), (93, 93, St 512), (97, 102, St 324)], St 0)],
     [])"

definition uri_part_52 :: "uri_action part" where
  "uri_part_52 =
    ([(324, False, [(48, 57, St 325), (65, 70, St 325), (93, 93, St 512), (97, 102, St 325)], St 0),
      (325, False, [(48, 57, St 305), (65, 70, St 305), (93, 93, St 512), (97, 102, St 305)], St 0),
      (326, False, [(46, 46, St 294), (48, 57, St 327), (58, 58, St 322), (65, 70, St 319), (97, 102, St 319)], St 0),
      (327, False, [(46, 46, St 294), (48, 57, St 328), (58, 58, St 322), (65, 70, St 320), (97, 102, St 320)], St 0),
      (328, False, [(46, 46, St 294), (48, 57, St 321), (58, 58, St 322), (65, 70, St 321), (97, 102, St 321)], St 0),
      (329, False, [(46, 46, St 294), (48, 52, St 330), (53, 53, St 331), (54, 57, St 330), (58, 58, St 322), (65, 70, St 319),
        (97, 102, St 319)], St 0),
      (330, False, [(46, 46, St 294), (48, 57, St 320), (58, 58, St 322), (65, 70, St 320), (97, 102, St 320)], St 0),
      (331, False, [(46, 46, St 294), (48, 53, St 328), (54, 57, St 320), (58, 58, St 322), (65, 70, St 320), (97, 102, St 320)], St 0)],
     [])"

definition uri_part_53 :: "uri_action part" where
  "uri_part_53 =
    ([(332, False, [(46, 46, St 294), (48, 57, St 330), (58, 58, St 322), (65, 70, St 319), (97, 102, St 319)], St 0),
      (333, False, [(48, 57, St 323), (65, 70, St 323), (97, 102, St 323)], St 0),
      (334, False, [(48, 57, St 319), (58, 58, St 322), (65, 70, St 319), (97, 102, St 319)], St 0),
      (335, False, [(2, 2, St 291), (48, 48, St 336), (49, 49, St 340), (50, 50, St 343), (51, 57, St 346), (65, 70, St 347),
        (97, 102, St 347)], St 0),
      (336, False, [(46, 46, St 294), (48, 57, St 337), (58, 58, St 333), (65, 70, St 337), (97, 102, St 337)], St 0),
      (337, False, [(48, 57, St 338), (58, 58, St 333), (65, 70, St 338), (97, 102, St 338)], St 0),
      (338, False, [(48, 57, St 339), (58, 58, St 333), (65, 70, St 339), (97, 102, St 339)], St 0),
      (339, False, [(58, 58, St 333)], St 0),
      (340, False, [(46, 46, St 294), (48, 57, St 341), (58, 58, St 333), (65, 70, St 337), (97, 102, St 337)], St 0),
      (341, False, [(46, 46, St 294), (48, 57, St 342), (58, 58, St 333), (65, 70, St 338), (97, 102, St 338)], St 0)],
     [])"

definition uri_part_54 :: "uri_action part" where
  "uri_part_54 =
    ([(342, False, [(46, 46, St 294), (48, 57, St 339), (58, 58, St 333), (65, 70, St 339), (97, 102, St 339)], St 0),
      (343, False, [(46, 46, St 294), (48, 52, St 344), (53, 53, St 345), (54, 57, St 344), (58, 58, St 333), (65, 70, St 337),
        (97, 102, St 337)], St 0),
      (344, False, [(46, 46, St 294), (48, 57, St 338), (58, 58, St 333), (65, 70, St 338), (97, 102, St 338)], St 0),
      (345, False, [(46, 46, St 294), (48, 53, St 342), (54, 57, St 338), (58, 58, St 333), (65, 70, St 338), (97, 102, St 338)], St 0),
      (346, False, [(46, 46, St 294), (48, 57, St 344), (58, 58, St 333), (65, 70, St 337), (97, 102, St 337)], St 0),
      (347, False, [(48, 57, St 337), (58, 58, St 333), (65, 70, St 337), (97, 102, St 337)], St 0),
      (348, False, [(48, 57, St 349), (65, 70, St 349), (97, 102, St 349)], St 0),
      (349, False, [(48, 57, St 350), (58, 58, St 335), (65, 70, St 350), (97, 102, St 350)], St 0),
      (350, False, [(48, 57, St 351), (58, 58, St 335), (65, 70, St 351), (97, 102, St 351)], St 0)],
     [])"

definition uri_part_55 :: "uri_action part" where
  "uri_part_55 =
    ([(351, False, [(48, 57, St 352), (58, 58, St 335), (65, 70, St 352), (97, 102, St 352)], St 0),
      (352, False, [(58, 58, St 335)], St 0),
      (353, False, [(48, 57, St 354), (65, 70, St 354), (97, 102, St 354)], St 0),
      (354, False, [(48, 57, St 355), (58, 58, St 348), (65, 70, St 355), (97, 102, St 355)], St 0),
      (355, False, [(48, 57, St 356), (58, 58, St 348), (65, 70, St 356), (97, 102, St 356)], St 0),
      (356, False, [(48, 57, St 357), (58, 58, St 348), (65, 70, St 357), (97, 102, St 357)], St 0),
      (357, False, [(58, 58, St 348)], St 0),
      (358, False, [(48, 57, St 359), (65, 70, St 359), (97, 102, St 359)], St 0),
      (359, False, [(48, 57, St 360), (58, 58, St 353), (65, 70, St 360), (97, 102, St 360)], St 0),
      (360, False, [(48, 57, St 361), (58, 58, St 353), (65, 70, St 361), (97, 102, St 361)], St 0),
      (361, False, [(48, 57, St 362), (58, 58, St 353), (65, 70, St 362), (97, 102, St 362)], St 0),
      (362, False, [(58, 58, St 353)], St 0)],
     [])"

definition uri_part_56 :: "uri_action part" where
  "uri_part_56 =
    ([(363, False, [(48, 57, St 364), (65, 70, St 364), (97, 102, St 364)], St 0),
      (364, False, [(48, 57, St 365), (58, 58, St 358), (65, 70, St 365), (97, 102, St 365)], St 0),
      (365, False, [(48, 57, St 366), (58, 58, St 358), (65, 70, St 366), (97, 102, St 366)], St 0),
      (366, False, [(48, 57, St 367), (58, 58, St 358), (65, 70, St 367), (97, 102, St 367)], St 0),
      (367, False, [(58, 58, St 358)], St 0),
      (368, False, [(58, 58, St 369)], St 0),
      (369, False, [(2, 2, St 291), (48, 48, St 370), (49, 49, St 439), (50, 50, St 442), (51, 57, St 445), (65, 70, St 446),
        (93, 93, St 512), (97, 102, St 446)], St 0),
      (370, False, [(46, 46, St 294), (48, 57, St 371), (58, 58, St 374), (65, 70, St 371), (93, 93, St 512), (97, 102, St 371)], St 0),
      (371, False, [(48, 57, St 372), (58, 58, St 374), (65, 70, St 372), (93, 93, St 512), (97, 102, St 372)], St 0),
      (372, False, [(48, 57, St 373), (58, 58, St 374), (65, 70, St 373), (93, 93, St 512), (97, 102, St 373)], St 0)],
     [])"

definition uri_part_57 :: "uri_action part" where
  "uri_part_57 =
    ([(373, False, [(58, 58, St 374), (93, 93, St 512)], St 0),
      (374, False, [(2, 2, St 291), (48, 48, St 375), (49, 49, St 431), (50, 50, St 434), (51, 57, St 437), (65, 70, St 438),
        (97, 102, St 438)], St 0),
      (375, False, [(46, 46, St 294), (48, 57, St 376), (58, 58, St 379), (65, 70, St 376), (93, 93, St 512), (97, 102, St 376)], St 0),
      (376, False, [(48, 57, St 377), (58, 58, St 379), (65, 70, St 377), (93, 93, St 512), (97, 102, St 377)], St 0),
      (377, False, [(48, 57, St 378), (58, 58, St 379), (65, 70, St 378), (93, 93, St 512), (97, 102, St 378)], St 0),
      (378, False, [(58, 58, St 379), (93, 93, St 512)], St 0),
      (379, False, [(2, 2, St 291), (48, 48, St 380), (49, 49, St 423), (50, 50, St 426), (51, 57, St 429), (65, 70, St 430),
        (97, 102, St 430)], St 0),
      (380, False, [(46, 46, St 294), (48, 57, St 381), (58, 58, St 384), (65, 70, St 381), (93, 93, St 512), (97, 102, St 381)], St 0),
      (381, False, [(48, 57, St 382), (58, 58, St 384), (65, 70, St 382), (93, 93, St 512), (97, 102, St 382)], St 0)],
     [])"

definition uri_part_58 :: "uri_action part" where
  "uri_part_58 =
    ([(382, False, [(48, 57, St 383), (58, 58, St 384), (65, 70, St 383), (93, 93, St 512), (97, 102, St 383)], St 0),
      (383, False, [(58, 58, St 384), (93, 93, St 512)], St 0),
      (384, False, [(2, 2, St 291), (48, 48, St 385), (49, 49, St 415), (50, 50, St 418), (51, 57, St 421), (65, 70, St 422),
        (97, 102, St 422)], St 0),
      (385, False, [(46, 46, St 294), (48, 57, St 386), (58, 58, St 389), (65, 70, St 386), (93, 93, St 512), (97, 102, St 386)], St 0),
      (386, False, [(48, 57, St 387), (58, 58, St 389), (65, 70, St 387), (93, 93, St 512), (97, 102, St 387)], St 0),
      (387, False, [(48, 57, St 388), (58, 58, St 389), (65, 70, St 388), (93, 93, St 512), (97, 102, St 388)], St 0),
      (388, False, [(58, 58, St 389), (93, 93, St 512)], St 0),
      (389, False, [(2, 2, St 291), (48, 48, St 390), (49, 49, St 407), (50, 50, St 410), (51, 57, St 413), (65, 70, St 414),
        (97, 102, St 414)], St 0),
      (390, False, [(46, 46, St 294), (48, 57, St 391), (58, 58, St 394), (65, 70, St 391), (93, 93, St 512), (97, 102, St 391)], St 0)],
     [])"

definition uri_part_59 :: "uri_action part" where
  "uri_part_59 =
    ([(391, False, [(48, 57, St 392), (58, 58, St 394), (65, 70, St 392), (93, 93, St 512), (97, 102, St 392)], St 0),
      (392, False, [(48, 57, St 393), (58, 58, St 394), (65, 70, St 393), (93, 93, St 512), (97, 102, St 393)], St 0),
      (393, False, [(58, 58, St 394), (93, 93, St 512)], St 0),
      (394, False, [(2, 2, St 291), (48, 48, St 395), (49, 49, St 399), (50, 50, St 402), (51, 57, St 405), (65, 70, St 406),
        (97, 102, St 406)], St 0),
      (395, False, [(46, 46, St 294), (48, 57, St 396), (58, 58, St 333), (65, 70, St 396), (93, 93, St 512), (97, 102, St 396)], St 0),
      (396, False, [(48, 57, St 397), (58, 58, St 333), (65, 70, St 397), (93, 93, St 512), (97, 102, St 397)], St 0),
      (397, False, [(48, 57, St 398), (58, 58, St 333), (65, 70, St 398), (93, 93, St 512), (97, 102, St 398)], St 0),
      (398, False, [(58, 58, St 333), (93, 93, St 512)], St 0),
      (399, False, [(46, 46, St 294), (48, 57, St 400), (58, 58, St 333), (65, 70, St 396), (93, 93, St 512), (97, 102, St 396)], St 0)],
     [])"

definition uri_part_60 :: "uri_action part" where
  "uri_part_60 =
    ([(400, False, [(46, 46, St 294), (48, 57, St 401), (58, 58, St 333), (65, 70, St 397), (93, 93, St 512), (97, 102, St 397)], St 0),
      (401, False, [(46, 46, St 294), (48, 57, St 398), (58, 58, St 333), (65, 70, St 398), (93, 93, St 512), (97, 102, St 398)], St 0),
      (402, False, [(46, 46, St 294), (48, 52, St 403), (53, 53, St 404), (54, 57, St 403), (58, 58, St 333), (65, 70, St 396),
        (93, 93, St 512), (97, 102, St 396)], St 0),
      (403, False, [(46, 46, St 294), (48, 57, St 397), (58, 58, St 333), (65, 70, St 397), (93, 93, St 512), (97, 102, St 397)], St 0),
      (404, False, [(46, 46, St 294), (48, 53, St 401), (54, 57, St 397), (58, 58, St 333), (65, 70, St 397), (93, 93, St 512),
        (97, 102, St 397)], St 0),
      (405, False, [(46, 46, St 294), (48, 57, St 403), (58, 58, St 333), (65, 70, St 396), (93, 93, St 512), (97, 102, St 396)], St 0),
      (406, False, [(48, 57, St 396), (58, 58, St 333), (65, 70, St 396), (93, 93, St 512), (97, 102, St 396)], St 0),
      (407, False, [(46, 46, St 294), (48, 57, St 408), (58, 58, St 394), (65, 70, St 391), (93, 93, St 512), (97, 102, St 391)], St 0)],
     [])"

definition uri_part_61 :: "uri_action part" where
  "uri_part_61 =
    ([(408, False, [(46, 46, St 294), (48, 57, St 409), (58, 58, St 394), (65, 70, St 392), (93, 93, St 512), (97, 102, St 392)], St 0),
      (409, False, [(46, 46, St 294), (48, 57, St 393), (58, 58, St 394), (65, 70, St 393), (93, 93, St 512), (97, 102, St 393)], St 0),
      (410, False, [(46, 46, St 294), (48, 52, St 411), (53, 53, St 412), (54, 57, St 411), (58, 58, St 394), (65, 70, St 391),
        (93, 93, St 512), (97, 102, St 391)], St 0),
      (411, False, [(46, 46, St 294), (48, 57, St 392), (58, 58, St 394), (65, 70, St 392), (93, 93, St 512), (97, 102, St 392)], St 0),
      (412, False, [(46, 46, St 294), (48, 53, St 409), (54, 57, St 392), (58, 58, St 394), (65, 70, St 392), (93, 93, St 512),
        (97, 102, St 392)], St 0),
      (413, False, [(46, 46, St 294), (48, 57, St 411), (58, 58, St 394), (65, 70, St 391), (93, 93, St 512), (97, 102, St 391)], St 0),
      (414, False, [(48, 57, St 391), (58, 58, St 394), (65, 70, St 391), (93, 93, St 512), (97, 102, St 391)], St 0),
      (415, False, [(46, 46, St 294), (48, 57, St 416), (58, 58, St 389), (65, 70, St 386), (93, 93, St 512), (97, 102, St 386)], St 0)],
     [])"

definition uri_part_62 :: "uri_action part" where
  "uri_part_62 =
    ([(416, False, [(46, 46, St 294), (48, 57, St 417), (58, 58, St 389), (65, 70, St 387), (93, 93, St 512), (97, 102, St 387)], St 0),
      (417, False, [(46, 46, St 294), (48, 57, St 388), (58, 58, St 389), (65, 70, St 388), (93, 93, St 512), (97, 102, St 388)], St 0),
      (418, False, [(46, 46, St 294), (48, 52, St 419), (53, 53, St 420), (54, 57, St 419), (58, 58, St 389), (65, 70, St 386),
        (93, 93, St 512), (97, 102, St 386)], St 0),
      (419, False, [(46, 46, St 294), (48, 57, St 387), (58, 58, St 389), (65, 70, St 387), (93, 93, St 512), (97, 102, St 387)], St 0),
      (420, False, [(46, 46, St 294), (48, 53, St 417), (54, 57, St 387), (58, 58, St 389), (65, 70, St 387), (93, 93, St 512),
        (97, 102, St 387)], St 0),
      (421, False, [(46, 46, St 294), (48, 57, St 419), (58, 58, St 389), (65, 70, St 386), (93, 93, St 512), (97, 102, St 386)], St 0),
      (422, False, [(48, 57, St 386), (58, 58, St 389), (65, 70, St 386), (93, 93, St 512), (97, 102, St 386)], St 0),
      (423, False, [(46, 46, St 294), (48, 57, St 424), (58, 58, St 384), (65, 70, St 381), (93, 93, St 512), (97, 102, St 381)], St 0)],
     [])"

definition uri_part_63 :: "uri_action part" where
  "uri_part_63 =
    ([(424, False, [(46, 46, St 294), (48, 57, St 425), (58, 58, St 384), (65, 70, St 382), (93, 93, St 512), (97, 102, St 382)], St 0),
      (425, False, [(46, 46, St 294), (48, 57, St 383), (58, 58, St 384), (65, 70, St 383), (93, 93, St 512), (97, 102, St 383)], St 0),
      (426, False, [(46, 46, St 294), (48, 52, St 427), (53, 53, St 428), (54, 57, St 427), (58, 58, St 384), (65, 70, St 381),
        (93, 93, St 512), (97, 102, St 381)], St 0),
      (427, False, [(46, 46, St 294), (48, 57, St 382), (58, 58, St 384), (65, 70, St 382), (93, 93, St 512), (97, 102, St 382)], St 0),
      (428, False, [(46, 46, St 294), (48, 53, St 425), (54, 57, St 382), (58, 58, St 384), (65, 70, St 382), (93, 93, St 512),
        (97, 102, St 382)], St 0),
      (429, False, [(46, 46, St 294), (48, 57, St 427), (58, 58, St 384), (65, 70, St 381), (93, 93, St 512), (97, 102, St 381)], St 0),
      (430, False, [(48, 57, St 381), (58, 58, St 384), (65, 70, St 381), (93, 93, St 512), (97, 102, St 381)], St 0),
      (431, False, [(46, 46, St 294), (48, 57, St 432), (58, 58, St 379), (65, 70, St 376), (93, 93, St 512), (97, 102, St 376)], St 0)],
     [])"

definition uri_part_64 :: "uri_action part" where
  "uri_part_64 =
    ([(432, False, [(46, 46, St 294), (48, 57, St 433), (58, 58, St 379), (65, 70, St 377), (93, 93, St 512), (97, 102, St 377)], St 0),
      (433, False, [(46, 46, St 294), (48, 57, St 378), (58, 58, St 379), (65, 70, St 378), (93, 93, St 512), (97, 102, St 378)], St 0),
      (434, False, [(46, 46, St 294), (48, 52, St 435), (53, 53, St 436), (54, 57, St 435), (58, 58, St 379), (65, 70, St 376),
        (93, 93, St 512), (97, 102, St 376)], St 0),
      (435, False, [(46, 46, St 294), (48, 57, St 377), (58, 58, St 379), (65, 70, St 377), (93, 93, St 512), (97, 102, St 377)], St 0),
      (436, False, [(46, 46, St 294), (48, 53, St 433), (54, 57, St 377), (58, 58, St 379), (65, 70, St 377), (93, 93, St 512),
        (97, 102, St 377)], St 0),
      (437, False, [(46, 46, St 294), (48, 57, St 435), (58, 58, St 379), (65, 70, St 376), (93, 93, St 512), (97, 102, St 376)], St 0),
      (438, False, [(48, 57, St 376), (58, 58, St 379), (65, 70, St 376), (93, 93, St 512), (97, 102, St 376)], St 0),
      (439, False, [(46, 46, St 294), (48, 57, St 440), (58, 58, St 374), (65, 70, St 371), (93, 93, St 512), (97, 102, St 371)], St 0)],
     [])"

definition uri_part_65 :: "uri_action part" where
  "uri_part_65 =
    ([(440, False, [(46, 46, St 294), (48, 57, St 441), (58, 58, St 374), (65, 70, St 372), (93, 93, St 512), (97, 102, St 372)], St 0),
      (441, False, [(46, 46, St 294), (48, 57, St 373), (58, 58, St 374), (65, 70, St 373), (93, 93, St 512), (97, 102, St 373)], St 0),
      (442, False, [(46, 46, St 294), (48, 52, St 443), (53, 53, St 444), (54, 57, St 443), (58, 58, St 374), (65, 70, St 371),
        (93, 93, St 512), (97, 102, St 371)], St 0),
      (443, False, [(46, 46, St 294), (48, 57, St 372), (58, 58, St 374), (65, 70, St 372), (93, 93, St 512), (97, 102, St 372)], St 0),
      (444, False, [(46, 46, St 294), (48, 53, St 441), (54, 57, St 372), (58, 58, St 374), (65, 70, St 372), (93, 93, St 512),
        (97, 102, St 372)], St 0),
      (445, False, [(46, 46, St 294), (48, 57, St 443), (58, 58, St 374), (65, 70, St 371), (93, 93, St 512), (97, 102, St 371)], St 0),
      (446, False, [(48, 57, St 371), (58, 58, St 374), (65, 70, St 371), (93, 93, St 512), (97, 102, St 371)], St 0),
      (447, False, [(48, 57, St 448), (65, 70, St 448), (97, 102, St 448)], St 0)],
     [])"

definition uri_part_66 :: "uri_action part" where
  "uri_part_66 =
    ([(448, False, [(46, 46, St 449), (48, 57, St 448), (65, 70, St 448), (97, 102, St 448)], St 0),
      (449, False, [(33, 33, St 450), (36, 36, St 450), (38, 46, St 450), (48, 59, St 450), (61, 61, St 450), (65, 90, St 450),
        (95, 95, St 450), (97, 122, St 450), (126, 126, St 450)], St 0),
      (450, False, [(33, 33, St 450), (36, 36, St 450), (38, 46, St 450), (48, 59, St 450), (61, 61, St 450), (65, 90, St 450),
        (93, 93, St 512), (95, 95, St 450), (97, 122, St 450), (126, 126, St 450)], St 0),
      (542, False, [(33, 33, St 255), (35, 35, Tr 570), (36, 36, St 255), (37, 37, St 256), (38, 46, St 255), (47, 47, Tr 571),
        (48, 57, St 542), (58, 59, St 255), (61, 61, St 255), (63, 63, Tr 573), (64, 64, Tr 263), (65, 90, St 255), (95, 95, St 255),
        (97, 122, St 255), (126, 126, St 255)], St 0),
      (543, False, [(33, 33, St 520), (35, 35, Tr 559), (36, 36, St 520), (37, 37, St 253), (38, 45, St 520), (46, 46, St 544),
        (47, 47, Tr 560), (48, 57, St 520), (58, 58, Tr 576), (59, 59, St 520), (61, 61, St 520), (63, 63, Tr 562), (64, 64, Tr 263),
        (65, 90, St 520), (95, 95, St 520), (97, 122, St 520), (126, 126, St 520)], St 0)],
     [(577, [U_mark], Goto 542),
      (551, [U_mark], Goto 543)])"

definition uri_part_67 :: "uri_action part" where
  "uri_part_67 =
    ([(544, False, [(2, 2, St 233), (33, 33, St 520), (35, 35, Tr 559), (36, 36, St 520), (37, 37, St 253), (38, 46, St 520),
        (47, 47, Tr 560), (48, 48, St 545), (49, 49, St 553), (50, 50, St 555), (51, 57, St 554), (58, 58, Tr 576), (59, 59, St 520),
        (61, 61, St 520), (63, 63, Tr 562), (64, 64, Tr 263), (65, 90, St 520), (95, 95, St 520), (97, 122, St 520),
        (126, 126, St 520)], St 0),
      (545, False, [(33, 33, St 520), (35, 35, Tr 559), (36, 36, St 520), (37, 37, St 253), (38, 45, St 520), (46, 46, St 546),
        (47, 47, Tr 560), (48, 57, St 520), (58, 58, Tr 576), (59, 59, St 520), (61, 61, St 520), (63, 63, Tr 562), (64, 64, Tr 263),
        (65, 90, St 520), (95, 95, St 520), (97, 122, St 520), (126, 126, St 520)], St 0),
      (546, False, [(2, 2, St 237), (33, 33, St 520), (35, 35, Tr 559), (36, 36, St 520), (37, 37, St 253), (38, 46, St 520),
        (47, 47, Tr 560), (48, 48, St 547), (49, 49, St 549), (50, 50, St 551), (51, 57, St 550), (58, 58, Tr 576), (59, 59, St 520),
        (61, 61, St 520), (63, 63, Tr 562), (64, 64, Tr 263), (65, 90, St 520), (95, 95, St 520), (97, 122, St 520),
        (126, 126, St 520)], St 0),
      (547, False, [(33, 33, St 520), (35, 35, Tr 559), (36, 36, St 520), (37, 37, St 253), (38, 45, St 520), (46, 46, St 548),
        (47, 47, Tr 560), (48, 57, St 520), (58, 58, Tr 576), (59, 59, St 520), (61, 61, St 520), (63, 63, Tr 562), (64, 64, Tr 263),
        (65, 90, St 520), (95, 95, St 520), (97, 122, St 520), (126, 126, St 520)], St 0),
      (548, False, [(2, 2, St 241), (33, 33, St 520), (35, 35, Tr 559), (36, 36, St 520), (37, 37, St 253), (38, 46, St 520),
        (47, 47, Tr 560), (48, 57, St 520), (58, 58, Tr 576), (59, 59, St 520), (61, 61, St 520), (63, 63, Tr 562), (64, 64, Tr 263),
        (65, 90, St 520), (95, 95, St 520), (97, 122, St 520), (126, 126, St 520)], St 0)],
     [])"

definition uri_part_68 :: "uri_action part" where
  "uri_part_68 =
    ([(549, False, [(33, 33, St 520), (35, 35, Tr 559), (36, 36, St 520), (37, 37, St 253), (38, 45, St 520), (46, 46, St 548),
        (47, 47, Tr 560), (48, 57, St 550), (58, 58, Tr 576), (59, 59, St 520), (61, 61, St 520), (63, 63, Tr 562), (64, 64, Tr 263),
        (65, 90, St 520), (95, 95, St 520), (97, 122, St 520), (126, 126, St 520)], St 0),
      (550, False, [(33, 33, St 520), (35, 35, Tr 559), (36, 36, St 520), (37, 37, St 253), (38, 45, St 520), (46, 46, St 548),
        (47, 47, Tr 560), (48, 57, St 547), (58, 58, Tr 576), (59, 59, St 520), (61, 61, St 520), (63, 63, Tr 562), (64, 64, Tr 263),
        (65, 90, St 520), (95, 95, St 520), (97, 122, St 520), (126, 126, St 520)], St 0),
      (551, False, [(33, 33, St 520), (35, 35, Tr 559), (36, 36, St 520), (37, 37, St 253), (38, 45, St 520), (46, 46, St 548),
        (47, 47, Tr 560), (48, 52, St 547), (53, 53, St 552), (54, 57, St 547), (58, 58, Tr 576), (59, 59, St 520), (61, 61, St 520),
        (63, 63, Tr 562), (64, 64, Tr 263), (65, 90, St 520), (95, 95, St 520), (97, 122, St 520), (126, 126, St 520)], St 0),
      (552, False, [(33, 33, St 520), (35, 35, Tr 559), (36, 36, St 520), (37, 37, St 253), (38, 45, St 520), (46, 46, St 548),
        (47, 47, Tr 560), (48, 53, St 547), (54, 57, St 520), (58, 58, Tr 576), (59, 59, St 520), (61, 61, St 520), (63, 63, Tr 562),
        (64, 64, Tr 263), (65, 90, St 520), (95, 95, St 520), (97, 122, St 520), (126, 126, St 520)], St 0),
      (553, False, [(33, 33, St 520), (35, 35, Tr 559), (36, 36, St 520), (37, 37, St 253), (38, 45, St 520), (46, 46, St 546),
        (47, 47, Tr 560), (48, 57, St 554), (58, 58, Tr 576), (59, 59, St 520), (61, 61, St 520), (63, 63, Tr 562), (64, 64, Tr 263),
        (65, 90, St 520), (95, 95, St 520), (97, 122, St 520), (126, 126, St 520)], St 0)],
     [])"

definition uri_part_69 :: "uri_action part" where
  "uri_part_69 =
    ([(554, False, [(33, 33, St 520), (35, 35, Tr 559), (36, 36, St 520), (37, 37, St 253), (38, 45, St 520), (46, 46, St 546),
        (47, 47, Tr 560), (48, 57, St 545), (58, 58, Tr 576), (59, 59, St 520), (61, 61, St 520), (63, 63, Tr 562), (64, 64, Tr 263),
        (65, 90, St 520), (95, 95, St 520), (97, 122, St 520), (126, 126, St 520)], St 0),
      (555, False, [(33, 33, St 520), (35, 35, Tr 559), (36, 36, St 520), (37, 37, St 253), (38, 45, St 520), (46, 46, St 546),
        (47, 47, Tr 560), (48, 52, St 545), (53, 53, St 556), (54, 57, St 545), (58, 58, Tr 576), (59, 59, St 520), (61, 61, St 520),
        (63, 63, Tr 562), (64, 64, Tr 263), (65, 90, St 520), (95, 95, St 520), (97, 122, St 520), (126, 126, St 520)], St 0),
      (556, False, [(33, 33, St 520), (35, 35, Tr 559), (36, 36, St 520), (37, 37, St 253), (38, 45, St 520), (46, 46, St 546),
        (47, 47, Tr 560), (48, 53, St 545), (54, 57, St 520), (58, 58, Tr 576), (59, 59, St 520), (61, 61, St 520), (63, 63, Tr 562),
        (64, 64, Tr 263), (65, 90, St 520), (95, 95, St 520), (97, 122, St 520), (126, 126, St 520)], St 0),
      (557, False, [(33, 33, St 520), (35, 35, Tr 559), (36, 36, St 520), (37, 37, St 253), (38, 45, St 520), (46, 46, St 544),
        (47, 47, Tr 560), (48, 57, St 558), (58, 58, Tr 576), (59, 59, St 520), (61, 61, St 520), (63, 63, Tr 562), (64, 64, Tr 263),
        (65, 90, St 520), (95, 95, St 520), (97, 122, St 520), (126, 126, St 520)], St 0)],
     [(552, [U_mark], Goto 557),
      (554, [U_mark], Goto 558)])"

definition uri_part_70 :: "uri_action part" where
  "uri_part_70 =
    ([(558, False, [(33, 33, St 520), (35, 35, Tr 559), (36, 36, St 520), (37, 37, St 253), (38, 45, St 520), (46, 46, St 544),
        (47, 47, Tr 560), (48, 57, St 543), (58, 58, Tr 576), (59, 59, St 520), (61, 61, St 520), (63, 63, Tr 562), (64, 64, Tr 263),
        (65, 90, St 520), (95, 95, St 520), (97, 122, St 520), (126, 126, St 520)], St 0),
      (559, False, [(33, 33, St 520), (35, 35, Tr 559), (36, 36, St 520), (37, 37, St 253), (38, 45, St 520), (46, 46, St 544),
        (47, 47, Tr 560), (48, 52, St 543), (53, 53, St 560), (54, 57, St 543), (58, 58, Tr 576), (59, 59, St 520), (61, 61, St 520),
        (63, 63, Tr 562), (64, 64, Tr 263), (65, 90, St 520), (95, 95, St 520), (97, 122, St 520), (126, 126, St 520)], St 0),
      (560, False, [(33, 33, St 520), (35, 35, Tr 559), (36, 36, St 520), (37, 37, St 253), (38, 45, St 520), (46, 46, St 544),
        (47, 47, Tr 560), (48, 53, St 543), (54, 57, St 520), (58, 58, Tr 576), (59, 59, St 520), (61, 61, St 520), (63, 63, Tr 562),
        (64, 64, Tr 263), (65, 90, St 520), (95, 95, St 520), (97, 122, St 520), (126, 126, St 520)], St 0)],
     [(553, [U_mark], Goto 559)])"

definition uri_parts :: "uri_action part list" where
  "uri_parts =
    [uri_part_1, uri_part_2, uri_part_3, uri_part_4, uri_part_5, uri_part_6, uri_part_7, uri_part_8, uri_part_9, uri_part_10,
     uri_part_11, uri_part_12, uri_part_13, uri_part_14, uri_part_15, uri_part_16, uri_part_17, uri_part_18, uri_part_19,
     uri_part_20, uri_part_21, uri_part_22, uri_part_23, uri_part_24, uri_part_25, uri_part_26, uri_part_27, uri_part_28,
     uri_part_29, uri_part_30, uri_part_31, uri_part_32, uri_part_33, uri_part_34, uri_part_35, uri_part_36, uri_part_37,
     uri_part_38, uri_part_39, uri_part_40, uri_part_41, uri_part_42, uri_part_43, uri_part_44, uri_part_45, uri_part_46,
     uri_part_47, uri_part_48, uri_part_49, uri_part_50, uri_part_51, uri_part_52, uri_part_53, uri_part_54, uri_part_55,
     uri_part_56, uri_part_57, uri_part_58, uri_part_59, uri_part_60, uri_part_61, uri_part_62, uri_part_63, uri_part_64,
     uri_part_65, uri_part_66, uri_part_67, uri_part_68, uri_part_69, uri_part_70]"

lemmas uri_part_defs =
  uri_part_1_def uri_part_2_def uri_part_3_def uri_part_4_def uri_part_5_def uri_part_6_def uri_part_7_def uri_part_8_def
  uri_part_9_def uri_part_10_def uri_part_11_def uri_part_12_def uri_part_13_def uri_part_14_def uri_part_15_def
  uri_part_16_def uri_part_17_def uri_part_18_def uri_part_19_def uri_part_20_def uri_part_21_def uri_part_22_def
  uri_part_23_def uri_part_24_def uri_part_25_def uri_part_26_def uri_part_27_def uri_part_28_def uri_part_29_def
  uri_part_30_def uri_part_31_def uri_part_32_def uri_part_33_def uri_part_34_def uri_part_35_def uri_part_36_def
  uri_part_37_def uri_part_38_def uri_part_39_def uri_part_40_def uri_part_41_def uri_part_42_def uri_part_43_def
  uri_part_44_def uri_part_45_def uri_part_46_def uri_part_47_def uri_part_48_def uri_part_49_def uri_part_50_def
  uri_part_51_def uri_part_52_def uri_part_53_def uri_part_54_def uri_part_55_def uri_part_56_def uri_part_57_def
  uri_part_58_def uri_part_59_def uri_part_60_def uri_part_61_def uri_part_62_def uri_part_63_def uri_part_64_def
  uri_part_65_def uri_part_66_def uri_part_67_def uri_part_68_def uri_part_69_def uri_part_70_def

lemma uri_in_parts [simp]:
  "uri_part_1 \<in> set uri_parts" "uri_part_2 \<in> set uri_parts" "uri_part_3 \<in> set uri_parts"
  "uri_part_4 \<in> set uri_parts" "uri_part_5 \<in> set uri_parts" "uri_part_6 \<in> set uri_parts"
  "uri_part_7 \<in> set uri_parts" "uri_part_8 \<in> set uri_parts" "uri_part_9 \<in> set uri_parts"
  "uri_part_10 \<in> set uri_parts" "uri_part_11 \<in> set uri_parts" "uri_part_12 \<in> set uri_parts"
  "uri_part_13 \<in> set uri_parts" "uri_part_14 \<in> set uri_parts" "uri_part_15 \<in> set uri_parts"
  "uri_part_16 \<in> set uri_parts" "uri_part_17 \<in> set uri_parts" "uri_part_18 \<in> set uri_parts"
  "uri_part_19 \<in> set uri_parts" "uri_part_20 \<in> set uri_parts" "uri_part_21 \<in> set uri_parts"
  "uri_part_22 \<in> set uri_parts" "uri_part_23 \<in> set uri_parts" "uri_part_24 \<in> set uri_parts"
  "uri_part_25 \<in> set uri_parts" "uri_part_26 \<in> set uri_parts" "uri_part_27 \<in> set uri_parts"
  "uri_part_28 \<in> set uri_parts" "uri_part_29 \<in> set uri_parts" "uri_part_30 \<in> set uri_parts"
  "uri_part_31 \<in> set uri_parts" "uri_part_32 \<in> set uri_parts" "uri_part_33 \<in> set uri_parts"
  "uri_part_34 \<in> set uri_parts" "uri_part_35 \<in> set uri_parts" "uri_part_36 \<in> set uri_parts"
  "uri_part_37 \<in> set uri_parts" "uri_part_38 \<in> set uri_parts" "uri_part_39 \<in> set uri_parts"
  "uri_part_40 \<in> set uri_parts" "uri_part_41 \<in> set uri_parts" "uri_part_42 \<in> set uri_parts"
  "uri_part_43 \<in> set uri_parts" "uri_part_44 \<in> set uri_parts" "uri_part_45 \<in> set uri_parts"
  "uri_part_46 \<in> set uri_parts" "uri_part_47 \<in> set uri_parts" "uri_part_48 \<in> set uri_parts"
  "uri_part_49 \<in> set uri_parts" "uri_part_50 \<in> set uri_parts" "uri_part_51 \<in> set uri_parts"
  "uri_part_52 \<in> set uri_parts" "uri_part_53 \<in> set uri_parts" "uri_part_54 \<in> set uri_parts"
  "uri_part_55 \<in> set uri_parts" "uri_part_56 \<in> set uri_parts" "uri_part_57 \<in> set uri_parts"
  "uri_part_58 \<in> set uri_parts" "uri_part_59 \<in> set uri_parts" "uri_part_60 \<in> set uri_parts"
  "uri_part_61 \<in> set uri_parts" "uri_part_62 \<in> set uri_parts" "uri_part_63 \<in> set uri_parts"
  "uri_part_64 \<in> set uri_parts" "uri_part_65 \<in> set uri_parts" "uri_part_66 \<in> set uri_parts"
  "uri_part_67 \<in> set uri_parts" "uri_part_68 \<in> set uri_parts" "uri_part_69 \<in> set uri_parts"
  "uri_part_70 \<in> set uri_parts"
  by (simp_all add: uri_parts_def)

text \<open>The table is closed.\<close>

lemma uri_rows:
  "map fst (concat (map fst uri_parts)) = runs_of
    [(451, 454), (1, 4), (455, 455), (5, 6), (456, 457), (7, 8), (458, 459), (9, 22), (460, 466), (23, 30), (467, 467), (31, 32), (468, 468),
     (33, 35), (469, 470), (36, 37), (471, 488), (38, 228), (489, 511), (229, 242), (512, 513), (243, 244), (514, 519), (245, 252), (520, 520),
     (253, 254), (521, 521), (255, 257), (522, 523), (258, 259), (524, 541), (260, 450), (542, 560)]"
  unfolding uri_parts_def uri_part_defs by code_simp

abbreviation uri_blocks :: "(int \<times> int) list" where
  "uri_blocks \<equiv> [(38, 38), (263, 263), (461, 463), (466, 469), (472, 494), (496, 496), (499, 507), (543, 543), (546, 563), (565, 571), (573, 573), (576, 584)]"

lemma uri_tr_rows:
  "distinct (map fst (concat (map snd uri_parts)))"
  "list_all (\<lambda>k. k \<in> set (map fst (concat (map snd uri_parts)))) (runs_of uri_blocks)"
  "list_all (list_all (\<lambda>(k, acts, t). case t of Goto n \<Rightarrow> 1 \<le> n \<and> n \<le> 560 | Break n \<Rightarrow> 1 \<le> n \<and> n \<le> 560) \<circ> snd) uri_parts"
  unfolding uri_parts_def uri_part_defs by code_simp+

lemma uri_labels:
  "list_all (list_all (\<lambda>(n, w, rs, d). labels_in 560 uri_blocks d \<and> list_all (\<lambda>(lo, hi, l). labels_in 560 uri_blocks l) rs) \<circ> fst) uri_parts"
  unfolding uri_parts_def uri_part_defs by code_simp

lemma uri_closed: "closed_table uri_parts 560"
  by (rule closed_tableI [OF uri_rows _ uri_tr_rows(1,2) uri_labels uri_tr_rows(3)]) (simp add: sort_key_def)

end
