(* ===== verification/UriScanner.thy ===== *)
theory UriScanner
  imports Uri ClientScanner UriMachine
begin

text \<open>
  Uri::Create (\<open>src/uri.rl\<close>, \<open>src/uri.rl.cc\<close>): the actions around the machine of \<open>UriMachine\<close>, the actions at the end of the
  text, and the function itself. A pointer into the text is its position, \<open>None\<close> the null pointer; constructing a
  std::string from a null pointer throws and atoi of one crashes, after which the machine does nothing more.
\<close>

section \<open>Actions\<close>

datatype uri_error = StringFromNull | AtoiOfNull

type_synonym uri_scan = "(uri_error, Uri \<times> nat option) result"

text \<open>\<open>std::string(mark, p - mark)\<close>.\<close>

definition marked :: "string \<Rightarrow> nat option \<Rightarrow> nat \<Rightarrow> (uri_error, string) result" where
  "marked s mark p = (case mark of None \<Rightarrow> Inl StringFromNull | Some m \<Rightarrow> Inr (take (p - m) (drop m s)))"

fun uri_act_on :: "string \<Rightarrow> uri_action \<Rightarrow> nat \<Rightarrow> Uri \<Rightarrow> nat option \<Rightarrow> uri_scan" where
  "uri_act_on s U_mark p u mark = Inr (u, Some p)"
| "uri_act_on s save_scheme p u mark = rbind (marked s mark p) (\<lambda>v. Inr (u\<lparr>uri_scheme := v\<rparr>, None))"
| "uri_act_on s save_port p u mark =
     (if mark = Some p then Inr (u, None)
      else case mark of None \<Rightarrow> Inl AtoiOfNull | Some m \<Rightarrow> Inr (u\<lparr>uri_port := word_of_int (strtol 10 (drop m s))\<rparr>, None))"
| "uri_act_on s save_userinfo p u mark =
     (if mark = None then Inr (u, None) else rbind (marked s mark p) (\<lambda>v. Inr (u\<lparr>uri_userinfo := v\<rparr>, None)))"
| "uri_act_on s save_host p u mark =
     (if mark = None then Inr (u, mark) else rbind (marked s mark p) (\<lambda>v. Inr (u\<lparr>uri_host := v\<rparr>, mark)))"
| "uri_act_on s save_path p u mark = rbind (marked s mark p) (\<lambda>v. Inr (u\<lparr>uri_path := v\<rparr>, None))"
| "uri_act_on s save_query p u mark = rbind (marked s mark p) (\<lambda>v. Inr (u\<lparr>uri_query := v\<rparr>, None))"
| "uri_act_on s save_fragment p u mark = rbind (marked s mark p) (\<lambda>v. Inr (u\<lparr>uri_fragment := v\<rparr>, None))"

definition uri_act :: "string \<Rightarrow> uri_action \<Rightarrow> nat \<Rightarrow> uri_scan \<Rightarrow> uri_scan" where
  "uri_act s a p st = rbind st (\<lambda>(u, mark). uri_act_on s a p u mark)"

section \<open>The end of the text\<close>

definition uri_eof_host :: "int \<Rightarrow> uri_action list option" where
  "uri_eof_host cs =
     (if cs \<in> {462, 489} then Some [save_port]
      else if cs = 460 \<or> cs \<in> {463..467} \<or> cs \<in> {470..488} \<or> cs \<in> {490..507} then Some [save_host]
      else if cs = 513 then Some [save_path]
      else if cs = 457 then Some [save_query]
      else if cs = 454 then Some [save_fragment]
      else if cs = 456 then Some [U_mark, save_query]
      else if cs = 453 then Some [U_mark, save_fragment]
      else if cs \<in> {461, 468} then Some [U_mark, save_port]
      else if cs \<in> {459, 469} then Some [U_mark, save_host]
      else None)"

definition uri_eof_path :: "int \<Rightarrow> uri_action list" where
  "uri_eof_path cs =
     (if cs \<in> {514, 521} then [U_mark, save_port, save_path]
      else if cs \<in> {511, 522} then [U_mark, save_host, save_path]
      else if cs \<in> {515, 542} then [save_port, U_mark, save_path]
      else if cs = 512 \<or> cs \<in> {516..520} \<or> cs \<in> {523..541} \<or> cs \<in> {543..560} then [save_host, U_mark, save_path]
      else [])"

definition uri_eof :: "int \<Rightarrow> uri_action list" where
  "uri_eof cs = (case uri_eof_host cs of Some acts \<Rightarrow> acts | None \<Rightarrow> uri_eof_path cs)"

section \<open>Uri::Create\<close>

definition uri_parser_start :: int where "uri_parser_start = 451"
definition uri_parser_first_final :: int where "uri_parser_first_final = 451"
definition uri_parser_error :: int where "uri_parser_error = 0"

abbreviation uri_case :: "int \<Rightarrow> int \<Rightarrow> label option" where
  "uri_case \<equiv> state_case uri_parts (\<lambda>c. c)"

abbreviation uri_tr :: "int \<Rightarrow> uri_action list \<times> target" where
  "uri_tr \<equiv> tr_block uri_parts"

text \<open>\<open>Inl\<close> is the exception or the crash, \<open>Inr None\<close> the null pointer.\<close>

definition uri_Create :: "string \<Rightarrow> (uri_error, Uri option) result" where
  "uri_Create uristr =
     (case ragel_exec uri_case uri_tr (uri_act uristr) 0 uri_parser_start 0 (bytes uristr) (Inr (new_Uri, None)) of
        (p, cs, st) \<Rightarrow>
          let st1 = (if p = length uristr then fold (\<lambda>a. uri_act uristr a p) (uri_eof cs) st else st) in
          rbind st1 (\<lambda>(u, mark).
            Inr (if cs = uri_parser_error then None else if uri_parser_first_final \<le> cs then Some u else None)))"

end
