(* ===== verification/HttpRequestStates.thy ===== *)
theory HttpRequestStates
  imports HttpScanner
begin

text \<open>
  The machine of \<open>HttpMachine\<close> on the parts of a printed request: the states it goes through and the callbacks they
  cause for a method, a path, a query, a fragment, a version and a header line.
\<close>

section \<open>States\<close>

text \<open>Letters and digits of a method, the characters of a path, of a query or fragment, of a header name and of its value.\<close>

definition upper_digit :: "int \<Rightarrow> bool" where
  "upper_digit c \<longleftrightarrow> 48 \<le> c \<and> c \<le> 57 \<or> 65 \<le> c \<and> c \<le> 90"

definition path_char :: "int \<Rightarrow> bool" where
  "path_char c \<longleftrightarrow> c = 33 \<or> c = 36 \<or> c = 61 \<or> c = 95 \<or> c = 126 \<or> - 128 \<le> c \<and> c \<le> - 1 \<or> 38 \<le> c \<and> c \<le> 59 \<or> 64 \<le> c \<and> c \<le> 90 \<or> 97 \<le> c \<and> c \<le> 122"

definition query_char :: "int \<Rightarrow> bool" where
  "query_char c \<longleftrightarrow> path_char c \<or> c = 63"

definition token_char :: "int \<Rightarrow> bool" where
  "token_char c \<longleftrightarrow> c = 33 \<or> c = 42 \<or> c = 43 \<or> c = 45 \<or> c = 46 \<or> c = 124 \<or> c = 126 \<or> 35 \<le> c \<and> c \<le> 39 \<or> 48 \<le> c \<and> c \<le> 57 \<or> 65 \<le> c \<and> c \<le> 90 \<or> 94 \<le> c \<and> c \<le> 122"

definition value_char :: "int \<Rightarrow> bool" where
  "value_char c \<longleftrightarrow> c \<noteq> 0 \<and> c \<noteq> 10 \<and> c \<noteq> 13 \<and> c \<noteq> 127"

lemmas method_row =
  state_case_part [OF http_closed http_in_parts(1)] http_part_1_def
  state_case_part [OF http_closed http_in_parts(24)] http_part_24_def
  state_case_part [OF http_closed http_in_parts(25)] http_part_25_def
  state_case_part [OF http_closed http_in_parts(26)] http_part_26_def
  state_case_single

lemmas path_row =
  state_case_part [OF http_closed http_in_parts(1)] http_part_1_def
  state_case_part [OF http_closed http_in_parts(6)] http_part_6_def
  state_case_single

lemmas first_path_row =
  state_case_part [OF http_closed http_in_parts(8)] http_part_8_def
  state_case_single

lemmas query_row =
  state_case_part [OF http_closed http_in_parts(7)] http_part_7_def
  state_case_single

lemmas fragment_row =
  state_case_part [OF http_closed http_in_parts(5)] http_part_5_def
  state_case_part [OF http_closed http_in_parts(6)] http_part_6_def
  state_case_single

lemmas version_row =
  state_case_part [OF http_closed http_in_parts(2)] http_part_2_def
  state_case_part [OF http_closed http_in_parts(3)] http_part_3_def
  state_case_single

lemmas header_row =
  state_case_part [OF http_closed http_in_parts(2)] http_part_2_def
  state_case_part [OF http_closed http_in_parts(3)] http_part_3_def
  state_case_part [OF http_closed http_in_parts(4)] http_part_4_def
  state_case_single

lemma method_states:
  assumes "upper_digit c"
  shows "http_case r 1 c = Some (Tr 0)" "http_case r 2 c = Some (St 175)"
    "175 \<le> q \<Longrightarrow> q \<le> 192 \<Longrightarrow> http_case r q c = Some (St (q + 1))"
proof -
  show "http_case r 1 c = Some (Tr 0)" "http_case r 2 c = Some (St 175)"
    using assms by (auto simp: upper_digit_def method_row)
  show "http_case r q c = Some (St (q + 1))" if "175 \<le> q" "q \<le> 192"
  proof -
    have "q \<in> set [175..192]" using that by (simp only: set_upto atLeastAtMost_iff)
    then have q: "q \<in> {175, 176, 177, 178, 179, 180, 181, 182, 183, 184, 185, 186, 187, 188, 189, 190, 191, 192}" by simp
    show ?thesis using q assms
      by (elim insertE emptyE; simp add: method_row; auto simp: upper_digit_def)
  qed
qed

lemma method_end: "http_case r 2 32 = Some (Tr 4)" "175 \<le> q \<Longrightarrow> q \<le> 193 \<Longrightarrow> http_case r q 32 = Some (Tr 4)"
proof -
  show "http_case r 2 32 = Some (Tr 4)" by (simp add: method_row)
  assume "175 \<le> q" "q \<le> 193"
  then have "q \<in> set [175..193]" by (simp only: set_upto atLeastAtMost_iff)
  then have "q \<in> {175, 176, 177, 178, 179, 180, 181, 182, 183, 184, 185, 186, 187, 188, 189, 190, 191, 192, 193}" by simp
  then show "http_case r q 32 = Some (Tr 4)" by (elim insertE emptyE; simp add: method_row)
qed

lemma path_states:
  "path_char c \<Longrightarrow> http_case r 26 c = Some (St 26)" "http_case r 26 37 = Some (St 27)"
  "xdigit c \<Longrightarrow> http_case r 27 c = Some (St 28)" "xdigit c \<Longrightarrow> http_case r 28 c = Some (St 26)"
  "http_case r 26 32 = Some (Tr 37)" "http_case r 26 63 = Some (Tr 42)" "http_case r 26 35 = Some (Tr 39)" "http_case r 3 47 = Some (Tr 10)"
  unfolding path_char_def xdigit_def by ((elim disjE conjE)?; simp add: path_row http_widen_def)+

lemma first_path_state:
  "path_char c \<Longrightarrow> c \<noteq> 47 \<Longrightarrow> http_case r 33 c = Some (St 26)" "http_case r 33 37 = Some (St 27)"
  "http_case r 33 32 = Some (Tr 37)" "http_case r 33 63 = Some (Tr 42)" "http_case r 33 35 = Some (Tr 39)"
  unfolding path_char_def by ((elim disjE conjE)?; simp add: first_path_row http_widen_def)+

lemma query_states:
  "query_char c \<Longrightarrow> http_case r 29 c = Some (Tr 53)" "http_case r 29 37 = Some (Tr 56)"
  "query_char c \<Longrightarrow> http_case r 30 c = Some (St 30)" "http_case r 30 37 = Some (St 31)"
  "xdigit c \<Longrightarrow> http_case r 31 c = Some (St 32)" "xdigit c \<Longrightarrow> http_case r 32 c = Some (St 30)"
  "http_case r 30 32 = Some (Tr 58)" "http_case r 30 35 = Some (Tr 59)"
  unfolding query_char_def path_char_def xdigit_def by ((elim disjE conjE)?; simp add: query_row http_widen_def)+

lemma fragment_states:
  "query_char c \<Longrightarrow> http_case r 20 c = Some (Tr 43)" "http_case r 20 37 = Some (Tr 45)"
  "query_char c \<Longrightarrow> http_case r 21 c = Some (St 21)" "http_case r 21 37 = Some (St 22)"
  "xdigit c \<Longrightarrow> http_case r 22 c = Some (St 23)" "xdigit c \<Longrightarrow> http_case r 23 c = Some (St 21)"
  "http_case r 21 32 = Some (Tr 47)"
  unfolding query_char_def path_char_def xdigit_def by ((elim disjE conjE)?; simp add: fragment_row http_widen_def)+

interpretation path_pct: pct_states "http_case r" path_char 26 27 28 for r
  by unfold_locales (auto intro: path_states)

interpretation query_pct: pct_states "http_case r" query_char 30 31 32 for r
  by unfold_locales (auto intro: query_states)

interpretation fragment_pct: pct_states "http_case r" query_char 21 22 23 for r
  by unfold_locales (auto intro: fragment_states)

lemma version_states:
  "http_case r 4 72 = Some (Tr 13)" "http_case r 5 84 = Some (St 6)" "http_case r 6 84 = Some (St 7)" "http_case r 7 80 = Some (St 8)"
  "http_case r 8 47 = Some (St 9)" "http_case r 9 49 = Some (St 10)" "http_case r 10 46 = Some (St 11)"
  "http_case r 11 48 = Some (St 12)" "http_case r 11 49 = Some (St 12)" "http_case r 12 13 = Some (Tr 22)" "http_case r 17 10 = Some (St 13)"
  by (simp_all add: version_row)

lemma header_states:
  "token_char c \<Longrightarrow> http_case r 13 c = Some (Tr 23)" "token_char c \<Longrightarrow> http_case r 14 c = Some (St 14)" "http_case r 14 58 = Some (Tr 27)"
  "http_case r 15 32 = Some (Tr 29)" "value_char c \<Longrightarrow> c \<noteq> 9 \<Longrightarrow> c \<noteq> 32 \<Longrightarrow> http_case r 15 c = Some (Tr 28)" "http_case r 15 13 = Some (Tr 31)"
  "value_char c \<Longrightarrow> http_case r 16 c = Some (St 16)" "http_case r 16 13 = Some (Tr 34)"
  "http_case r 13 13 = Some (Tr 25)" "http_case r 18 10 = Some (Tr 36)"
  unfolding token_char_def value_char_def by ((elim disjE conjE)?; simp add: header_row)+

lemmas http_block_row =
  tr_block_part [OF http_closed http_in_parts(1)] http_part_1_def
  tr_block_part [OF http_closed http_in_parts(2)] http_part_2_def
  tr_block_part [OF http_closed http_in_parts(3)] http_part_3_def
  tr_block_part [OF http_closed http_in_parts(4)] http_part_4_def
  tr_block_part [OF http_closed http_in_parts(5)] http_part_5_def
  tr_block_part [OF http_closed http_in_parts(7)] http_part_7_def
  tr_block_single

lemma http_blocks:
  "http_tr 0 = ([MARK_mark], Goto 2)" "http_tr 4 = ([request_method_act], Goto 3)" "http_tr 10 = ([MARK_mark], Goto 33)"
  "http_tr 37 = ([request_path_act, request_uri_act], Goto 4)" "http_tr 39 = ([request_path_act, request_uri_act], Goto 20)"
  "http_tr 42 = ([request_path_act], Goto 29)" "http_tr 53 = ([MARK_query_start], Goto 30)" "http_tr 56 = ([MARK_query_start], Goto 31)"
  "http_tr 58 = ([query_string_act, request_uri_act], Goto 4)" "http_tr 59 = ([query_string_act, request_uri_act], Goto 20)"
  "http_tr 43 = ([MARK_mark], Goto 21)" "http_tr 45 = ([MARK_mark], Goto 22)" "http_tr 47 = ([fragment_act], Goto 4)"
  "http_tr 13 = ([MARK_mark], Goto 5)" "http_tr 22 = ([http_version_act], Goto 17)" "http_tr 23 = ([MARK_field_start], Goto 14)"
  "http_tr 25 = ([MARK_field_start], Goto 18)" "http_tr 27 = ([write_field], Goto 15)" "http_tr 28 = ([MARK_mark], Goto 16)"
  "http_tr 29 = ([MARK_mark], Goto 15)" "http_tr 31 = ([MARK_mark, write_value], Goto 17)" "http_tr 34 = ([write_value], Goto 17)"
  "http_tr 36 = ([http_done], Break 348)"
  by (simp_all add: http_block_row)

section \<open>Parts of a request\<close>

abbreviation hrun :: "bool \<Rightarrow> u8 list \<Rightarrow> int \<Rightarrow> nat \<Rightarrow> u8 list \<Rightarrow> http_parser \<times> request_event list \<Rightarrow> nat \<times> int \<times> http_parser \<times> request_event list" where
  "hrun r buf \<equiv> ragel_exec (http_case r) http_tr (http_act buf) 2"

text \<open>
  \<open>reads r pre q w q' f\<close>: behind the bytes \<open>pre\<close> the bytes \<open>w\<close> take the machine from state \<open>q\<close> to \<open>q'\<close>, and the callbacks
  they cause change the request by \<open>f\<close>.
\<close>

definition reads :: "bool \<Rightarrow> u8 list \<Rightarrow> int \<Rightarrow> u8 list \<Rightarrow> int \<Rightarrow> (HttpRequest \<Rightarrow> HttpRequest) \<Rightarrow> bool" where
  "reads r pre q w q' f \<longleftrightarrow>
     (\<forall>rest ps evs. length (pre @ w @ rest) < 2 ^ 64 \<longrightarrow>
       (\<exists>ps' es. hrun r (pre @ w @ rest) q (length pre) (w @ rest) (ps, evs)
           = hrun r (pre @ w @ rest) q' (length pre + length w) rest (ps', evs @ es)
         \<and> (\<forall>rp :: http_parser request_parser. \<not> rp_thrown rp \<longrightarrow> fold deliver es rp = rp\<lparr>rp_data := f (rp_data rp)\<rparr>)))"

lemma readsI:
  assumes "\<And>rest ps evs. length (pre @ w @ rest) < 2 ^ 64 \<Longrightarrow>
      \<exists>ps' es. hrun r (pre @ w @ rest) q (length pre) (w @ rest) (ps, evs)
          = hrun r (pre @ w @ rest) q' (length pre + length w) rest (ps', evs @ es)
        \<and> (\<forall>rp :: http_parser request_parser. \<not> rp_thrown rp \<longrightarrow> fold deliver es rp = rp\<lparr>rp_data := f (rp_data rp)\<rparr>)"
  shows "reads r pre q w q' f"
  using assms by (simp add: reads_def)

lemma reads_trans:
  assumes "reads r pre q w q1 f" "reads r (pre @ w) q1 v q2 g"
  shows "reads r pre q (w @ v) q2 (\<lambda>rq. g (f rq))"
proof (rule readsI)
  fix rest ps evs
  assume len: "length (pre @ (w @ v) @ rest) < 2 ^ 64"
  obtain ps1 es1 where a: "hrun r (pre @ w @ v @ rest) q (length pre) (w @ v @ rest) (ps, evs)
      = hrun r (pre @ w @ v @ rest) q1 (length pre + length w) (v @ rest) (ps1, evs @ es1)"
    "\<forall>rp :: http_parser request_parser. \<not> rp_thrown rp \<longrightarrow> fold deliver es1 rp = rp\<lparr>rp_data := f (rp_data rp)\<rparr>"
    using assms(1) len unfolding reads_def by (metis append.assoc)
  obtain ps2 es2 where b: "hrun r ((pre @ w) @ v @ rest) q1 (length (pre @ w)) (v @ rest) (ps1, evs @ es1)
      = hrun r ((pre @ w) @ v @ rest) q2 (length (pre @ w) + length v) rest (ps2, (evs @ es1) @ es2)"
    "\<forall>rp :: http_parser request_parser. \<not> rp_thrown rp \<longrightarrow> fold deliver es2 rp = rp\<lparr>rp_data := g (rp_data rp)\<rparr>"
    using assms(2) len unfolding reads_def by (metis append.assoc)
  show "\<exists>ps' es. hrun r (pre @ (w @ v) @ rest) q (length pre) ((w @ v) @ rest) (ps, evs)
          = hrun r (pre @ (w @ v) @ rest) q2 (length pre + length (w @ v)) rest (ps', evs @ es)
        \<and> (\<forall>rp :: http_parser request_parser. \<not> rp_thrown rp \<longrightarrow> fold deliver es rp = rp\<lparr>rp_data := g (f (rp_data rp))\<rparr>)"
    using a b by (intro exI [of _ ps2] exI [of _ "es1 @ es2"]) (simp add: add.assoc)
qed

text \<open>The text a callback gets when its mark is at the start of \<open>w\<close> and the machine behind it.\<close>

lemma PTR_TO_at [simp]: "PTR_TO (pre @ w) (length pre) = chars w"
  by (simp add: PTR_TO_def)

lemma LEN_at: "length pre + length w < 2 ^ 64 \<Longrightarrow> LEN (length pre) (length pre + length w) = length w"
  by (simp add: LEN_less)

lemma with_text_at [simp]: "with_text (chars (w @ rest)) (length w) f p = f (chars w)"
  by (simp add: with_text_def)

lemma method_run:
  "\<forall>b \<in> set w. upper_digit (sint b) \<Longrightarrow> 175 \<le> q \<Longrightarrow> q + int (length w) \<le> 193 \<Longrightarrow>
     hrun r buf q p (w @ rest) s = hrun r buf (q + int (length w)) (p + length w) rest s"
proof (induction w arbitrary: q p)
  case (Cons b w)
  have "http_case r q (sint b) = Some (St (q + 1))" using method_states(3) [of "sint b" q r] Cons.prems by simp
  then show ?case using Cons by (simp add: algebra_simps)
qed simp

lemma reads_method:
  assumes "w \<noteq> []" "length w \<le> 20" "\<forall>b \<in> set w. upper_digit (sint b)" "\<And>rest. CharsToHttpMethod (chars w @ rest) = m" "m \<noteq> INVALID_METHOD"
  shows "reads r pre 1 (w @ [32]) 3 (\<lambda>rq. rq\<lparr>rq_method := m\<rparr>)"
proof (rule readsI)
  fix rest ps evs
  assume len: "length (pre @ (w @ [32]) @ rest) < 2 ^ 64"
  let ?buf = "pre @ (w @ [32]) @ rest" and ?p = "length pre"
  obtain b v where w: "w = b # v" using assms(1) by (cases w) auto
  have v: "hrun r ?buf 2 (Suc ?p) (v @ 32 # rest) s = hrun r ?buf 3 (?p + length w + 1) rest
      (fold (\<lambda>a. http_act ?buf a (?p + length w)) [request_method_act] s)" for s
  proof (cases v)
    case (Cons c u)
    have "hrun r ?buf 2 (Suc ?p) (v @ 32 # rest) s = hrun r ?buf 175 (Suc (Suc ?p)) (u @ 32 # rest) s"
      using Cons assms(3) w method_states(2) [of "sint c" r] by (simp add: exec_goto)
    also have "\<dots> = hrun r ?buf (175 + int (length u)) (Suc (Suc ?p) + length u) (32 # rest) s"
      using assms(2,3) w Cons by (intro method_run) auto
    finally show ?thesis
      using method_end(2) [of "175 + int (length u)" r] assms(2) w Cons by (simp add: http_blocks)
  qed (simp add: w http_blocks method_end)
  have "hrun r ?buf 1 ?p ((w @ [32]) @ rest) (ps, evs) = hrun r ?buf 2 (Suc ?p) (v @ 32 # rest) (ps\<lparr>hp_mark := ?p\<rparr>, evs)"
    using assms(3) w method_states(1) [of "sint b" r] by (simp add: http_blocks)
  also have "\<dots> = hrun r ?buf 3 (?p + length (w @ [32])) rest
      (ps\<lparr>hp_mark := ?p\<rparr>, evs @ [request_method (chars (w @ [32] @ rest)) (length w)])"
    using v LEN_at [of pre w] len by simp
  finally show "\<exists>ps' es. hrun r ?buf 1 ?p ((w @ [32]) @ rest) (ps, evs) = hrun r ?buf 3 (?p + length (w @ [32])) rest (ps', evs @ es)
        \<and> (\<forall>rp :: http_parser request_parser. \<not> rp_thrown rp \<longrightarrow> fold deliver es rp = rp\<lparr>rp_data := (rp_data rp)\<lparr>rq_method := m\<rparr>\<rparr>)"
    using assms(4,5) by (intro exI conjI) (auto simp: deliver_def on_request_method_def)
qed

text \<open>A path is a slash and path characters, the first of which is not another slash.\<close>

definition path_rest :: "u8 list \<Rightarrow> bool" where
  "path_rest w \<longleftrightarrow> pct_text path_char (map sint w) \<and> (w = [] \<or> sint (hd w) \<noteq> 47)"

lemma path_run:
  assumes "path_rest w" "e \<in> {32, 35, 63}"
  shows "hrun r buf 3 p (47 # w @ e # rest) (ps, evs) = hrun r buf 26 (p + length (47 # w)) (e # rest) (ps\<lparr>hp_mark := p\<rparr>, evs)"
proof -
  have same: "hrun r buf 33 q (w @ e # rest) s = hrun r buf 26 q (w @ e # rest) s" for q s
  proof (cases w)
    case Nil
    then show ?thesis using assms(2) by (auto simp: first_path_state path_states http_blocks)
  next
    case (Cons b v)
    then have "sint b = 37 \<or> path_char (sint b) \<and> sint b \<noteq> 47" using assms(1) by (auto simp: path_rest_def split: if_splits)
    then show ?thesis using Cons by (auto simp: first_path_state path_states)
  qed
  have "hrun r buf 3 p (47 # w @ e # rest) (ps, evs) = hrun r buf 33 (Suc p) (w @ e # rest) (ps\<lparr>hp_mark := p\<rparr>, evs)"
    by (simp add: path_states http_blocks)
  also have "\<dots> = hrun r buf 26 (Suc p + length w) (e # rest) (ps\<lparr>hp_mark := p\<rparr>, evs)"
    unfolding same using assms(1) by (intro path_pct.exec_pct) (simp add: path_rest_def)
  finally show ?thesis by simp
qed

text \<open>A part that ends in a block with callbacks \<open>E\<close>.\<close>

lemma readsI_events:
  assumes "\<And>rest ps evs. length (pre @ w @ rest) < 2 ^ 64 \<Longrightarrow>
      \<exists>ps'. hrun r (pre @ w @ rest) q (length pre) (w @ rest) (ps, evs)
        = hrun r (pre @ w @ rest) q' (length pre + length w) rest (ps', evs @ E rest ps)"
    and "\<And>rest ps rp. \<not> rp_thrown rp \<Longrightarrow> fold deliver (E rest ps) (rp :: http_parser request_parser) = rp\<lparr>rp_data := f (rp_data rp)\<rparr>"
  shows "reads r pre q w q' f"
proof (rule readsI, goal_cases)
  case (1 rest ps evs)
  then show ?case using assms(1) [OF 1, of ps evs] assms(2) by blast
qed

lemmas deliver_simps = deliver_def on_request_path_def on_request_query_def on_request_fragment_def

lemma reads_path_to:
  assumes "path_rest w" "e \<in> {32, 35, 63}" "http_case r 26 (sint e) = Some (Tr k)" "http_tr k = (acts, Goto q')" "q' \<noteq> 0"
    and "acts = [request_path_act] \<or> acts = [request_path_act, request_uri_act]"
  shows "reads r pre 3 (47 # w @ [e]) q' (\<lambda>rq. rq\<lparr>rq_path := chars (47 # w)\<rparr>)"
proof -
  let ?ev = "\<lambda>rest. request_path (chars ((47 # w) @ e # rest)) (length (47 # w))"
    and ?ev' = "\<lambda>rest. request_uri (chars ((47 # w) @ e # rest)) (length (47 # w))"
  show ?thesis
  proof (rule readsI_events [where E = "\<lambda>rest ps. if acts = [request_path_act] then [?ev rest] else [?ev rest, ?ev' rest]"], goal_cases)
    case (1 rest ps evs)
    let ?buf = "pre @ (47 # w @ [e]) @ rest"
    have "hrun r ?buf 3 (length pre) ((47 # w @ [e]) @ rest) (ps, evs)
        = hrun r ?buf 26 (length pre + length (47 # w)) (e # rest) (ps\<lparr>hp_mark := length pre\<rparr>, evs)"
      using path_run [OF assms(1,2), of r ?buf "length pre" rest ps evs] by simp
    also have "\<dots> = hrun r ?buf q' (Suc (length pre + length (47 # w))) rest
        (fold (\<lambda>a. http_act ?buf a (length pre + length (47 # w))) acts (ps\<lparr>hp_mark := length pre\<rparr>, evs))"
      using assms(3-5) by simp
    finally show ?case
      using assms(6) LEN_at [of pre "47 # w"] PTR_TO_at [of pre "(47 # w) @ e # rest"] 1 by auto
  next
    case (2 rest ps rp)
    then show ?case using with_text_at [of "47 # w" "e # rest"] by (auto simp: deliver_simps)
  qed
qed

lemmas reads_path =
  reads_path_to [where e = 32, OF _ _ _ http_blocks(4)] reads_path_to [where e = 35, OF _ _ _ http_blocks(5)]
  reads_path_to [where e = 63, OF _ _ _ http_blocks(6)]

lemma query_run:
  assumes "w \<noteq> []" "pct_text query_char (map sint w)"
  shows "hrun r buf 29 p (w @ rest) (ps, evs) = hrun r buf 30 (p + length w) rest (ps\<lparr>hp_query_start := p\<rparr>, evs)"
proof -
  let ?s = "(ps\<lparr>hp_query_start := p\<rparr>, evs)"
  obtain b v where w: "w = b # v" using assms(1) by (cases w) auto
  have "hrun r buf 29 p (w @ rest) (ps, evs) = hrun r buf 30 p (w @ rest) ?s"
    using assms(2) w by (auto simp: query_states http_blocks split: if_splits)
  also have "\<dots> = hrun r buf 30 (p + length w) rest ?s" using assms(2) by (rule query_pct.exec_pct)
  finally show ?thesis .
qed

lemma fragment_run:
  assumes "w \<noteq> []" "pct_text query_char (map sint w)"
  shows "hrun r buf 20 p (w @ rest) (ps, evs) = hrun r buf 21 (p + length w) rest (ps\<lparr>hp_mark := p\<rparr>, evs)"
proof -
  let ?s = "(ps\<lparr>hp_mark := p\<rparr>, evs)"
  obtain b v where w: "w = b # v" using assms(1) by (cases w) auto
  have "hrun r buf 20 p (w @ rest) (ps, evs) = hrun r buf 21 p (w @ rest) ?s"
    using assms(2) w by (auto simp: fragment_states http_blocks split: if_splits)
  also have "\<dots> = hrun r buf 21 (p + length w) rest ?s" using assms(2) by (rule fragment_pct.exec_pct)
  finally show ?thesis .
qed

lemma reads_query:
  assumes "w \<noteq> []" "pct_text query_char (map sint w)" "e = 32 \<and> q' = 4 \<or> e = 35 \<and> q' = 20"
  shows "reads r pre 29 (w @ [e]) q' (\<lambda>rq. rq\<lparr>rq_query := chars w\<rparr>)"
proof (rule readsI_events [where E = "\<lambda>rest ps. [query_string (chars (w @ e # rest)) (length w),
      request_uri (PTR_TO (pre @ (w @ [e]) @ rest) (hp_mark ps)) (LEN (hp_mark ps) (length pre + length w))]"], goal_cases)
  case (1 rest ps evs)
  let ?buf = "pre @ (w @ [e]) @ rest" and ?ps = "ps\<lparr>hp_query_start := length pre\<rparr>"
  have "hrun r ?buf 29 (length pre) ((w @ [e]) @ rest) (ps, evs) = hrun r ?buf 30 (length pre + length w) (e # rest) (?ps, evs)"
    using query_run [OF assms(1,2), of r ?buf "length pre" "e # rest" ps evs] by simp
  then show ?case using assms(3) LEN_at [of pre w] PTR_TO_at [of pre "w @ e # rest"] 1
    by (intro exI [of _ ?ps]) (auto simp: query_states http_blocks)
next
  case (2 rest ps rp)
  then show ?case using with_text_at [of w "e # rest"] by (simp add: deliver_simps)
qed

lemma reads_fragment:
  assumes "w \<noteq> []" "pct_text query_char (map sint w)"
  shows "reads r pre 20 (w @ [32]) 4 (\<lambda>rq. rq\<lparr>rq_fragment := chars w\<rparr>)"
proof (rule readsI_events [where E = "\<lambda>rest ps. [fragment (chars (w @ 32 # rest)) (length w)]"], goal_cases)
  case (1 rest ps evs)
  then show ?case
    using fragment_run [OF assms, of r "pre @ (w @ [32]) @ rest" "length pre" "32 # rest" ps evs]
      LEN_at [of pre w] PTR_TO_at [of pre "w @ 32 # rest"] by (intro exI [of _ "ps\<lparr>hp_mark := length pre\<rparr>"]) (simp add: fragment_states http_blocks)
next
  case (2 rest ps rp)
  then show ?case using with_text_at [of w "32 # rest"] by (simp add: deliver_simps)
qed

text \<open>The comparisons of the version callbacks on the two versions.\<close>

lemma version_match:
  assumes "d = 48 \<and> v = 0x10 \<or> d = 49 \<and> v = (0x11 :: u8)"
  shows "strncmp_eq (chars ([72, 84, 84, 80, 47, 49, 46, d] @ x)) ''HTTP/1.1'' (length [72, 84, 84, 80, 47, 49, 46, d]) \<longleftrightarrow> d = 49"
    "strncmp_eq (chars ([72, 84, 84, 80, 47, 49, 46, d] @ x)) ''HTTP/1.0'' (length [72, 84, 84, 80, 47, 49, 46, d]) \<longleftrightarrow> d = 48"
proof -
  have "chars [72, 84, 84, 80, 47, 49, 46, 48] = ''HTTP/1.0''" "chars [72, 84, 84, 80, 47, 49, 46, 49] = ''HTTP/1.1''" by code_simp+
  then have t: "chars ([72, 84, 84, 80, 47, 49, 46, d] @ x) = (if d = 48 then ''HTTP/1.0'' else ''HTTP/1.1'') @ chars x" using assms by auto
  have c: "c_str ((if d = 48 then ''HTTP/1.0'' else ''HTTP/1.1'') @ y) = (if d = 48 then ''HTTP/1.0'' else ''HTTP/1.1'') @ c_str y" for y
    by (rule c_str_append) simp
  show "strncmp_eq (chars ([72, 84, 84, 80, 47, 49, 46, d] @ x)) ''HTTP/1.1'' (length [72, 84, 84, 80, 47, 49, 46, d]) \<longleftrightarrow> d = 49"
    "strncmp_eq (chars ([72, 84, 84, 80, 47, 49, 46, d] @ x)) ''HTTP/1.0'' (length [72, 84, 84, 80, 47, 49, 46, d]) \<longleftrightarrow> d = 48"
    unfolding strncmp_eq_def t c using assms by (auto simp: c_str_def)
qed

lemma reads_version:
  assumes "d = 48 \<and> v = 0x10 \<or> d = 49 \<and> v = 0x11"
  shows "reads r pre 4 [72, 84, 84, 80, 47, 49, 46, d, 13, 10] 13 (\<lambda>rq. rq\<lparr>rq_version := v\<rparr>)"
proof (rule readsI_events [where E = "\<lambda>rest ps. [http_version (chars ([72, 84, 84, 80, 47, 49, 46, d] @ 13 # 10 # rest)) (length [72, 84, 84, 80, 47, 49, 46, d])]"], goal_cases)
  case (1 rest ps evs)
  then show ?case using assms LEN_at [of pre "[72, 84, 84, 80, 47, 49, 46, d]"]
      PTR_TO_at [of pre "[72, 84, 84, 80, 47, 49, 46, d] @ 13 # 10 # rest"]
    by (intro exI [of _ "ps\<lparr>hp_mark := length pre\<rparr>"]) (auto simp: version_states http_blocks)
next
  case (2 rest ps rp)
  note version_match [OF assms(1), of "13 # 10 # rest"]
  then show ?case using assms 2 by (auto simp: deliver_def on_request_version_def)
qed

text \<open>A header line: a name, a colon and a blank, a value that does not begin with white space, and a line end.\<close>

definition name_ok :: "u8 list \<Rightarrow> bool" where
  "name_ok k \<longleftrightarrow> k \<noteq> [] \<and> (\<forall>b \<in> set k. token_char (sint b))"

definition value_ok :: "u8 list \<Rightarrow> bool" where
  "value_ok v \<longleftrightarrow> (\<forall>b \<in> set v. value_char (sint b)) \<and> (v = [] \<or> sint (hd v) \<noteq> 9 \<and> sint (hd v) \<noteq> 32)"

lemma name_run:
  assumes "name_ok k"
  shows "hrun r buf 13 p (k @ 58 # rest) (ps, evs)
    = hrun r buf 15 (p + length k + 1) rest (ps\<lparr>hp_field_start := p, hp_field_len := LEN p (p + length k)\<rparr>, evs)"
proof -
  let ?ps = "ps\<lparr>hp_field_start := p\<rparr>"
  obtain b v where k: "k = b # v" using assms by (cases k) (auto simp: name_ok_def)
  have "hrun r buf 13 p (k @ 58 # rest) (ps, evs) = hrun r buf 14 (Suc p) (v @ 58 # rest) (?ps, evs)"
    using assms k by (simp add: name_ok_def header_states http_blocks)
  also have "\<dots> = hrun r buf 14 (Suc p + length v) (58 # rest) (?ps, evs)"
    using assms k by (intro exec_loop) (auto simp: name_ok_def header_states)
  finally show ?thesis using k by (simp add: header_states http_blocks)
qed

lemma value_run:
  assumes "value_ok v"
  shows "\<exists>ps'. hrun r buf 15 p (32 # v @ 13 # 10 # rest) (ps, evs)
    = hrun r buf 13 (Suc (Suc (Suc (p + length v)))) rest
        (ps', evs @ [http_field (PTR_TO buf (hp_field_start ps)) (hp_field_len ps) (PTR_TO buf (Suc p)) (LEN (Suc p) (Suc p + length v))])"
proof (cases v)
  case Nil
  then show ?thesis by (intro exI [of _ "ps\<lparr>hp_mark := Suc p\<rparr>"]) (simp add: header_states version_states http_blocks)
next
  case (Cons b u)
  let ?ps = "ps\<lparr>hp_mark := Suc p\<rparr>"
  have "hrun r buf 15 p (32 # v @ 13 # 10 # rest) (ps, evs) = hrun r buf 16 (Suc (Suc p)) (u @ 13 # 10 # rest) (?ps, evs)"
    using assms Cons by (simp add: value_ok_def header_states http_blocks)
  also have "\<dots> = hrun r buf 16 (Suc (Suc p) + length u) (13 # 10 # rest) (?ps, evs)"
    using assms Cons by (intro exec_loop) (auto simp: value_ok_def header_states)
  finally show ?thesis using Cons by (intro exI [of _ ?ps]) (simp add: header_states version_states http_blocks)
qed

lemma reads_header:
  assumes "name_ok k" "value_ok v"
  shows "reads r pre 13 (k @ [58, 32] @ v @ [13, 10]) 13 (rq_setHeader (chars k) (chars v))"
proof (rule readsI_events [where E = "\<lambda>rest ps. [http_field (chars (k @ [58, 32] @ v @ [13, 10] @ rest)) (length k) (chars (v @ [13, 10] @ rest)) (length v)]"], goal_cases)
  case (1 rest ps evs)
  let ?buf = "pre @ (k @ [58, 32] @ v @ [13, 10]) @ rest" and ?p = "length pre"
  let ?ps = "ps\<lparr>hp_field_start := ?p, hp_field_len := LEN ?p (?p + length k)\<rparr>"
  have p: "hrun r ?buf 13 ?p ((k @ [58, 32] @ v @ [13, 10]) @ rest) (ps, evs) = hrun r ?buf 15 (?p + length k + 1) (32 # v @ 13 # 10 # rest) (?ps, evs)"
    using name_run [OF assms(1), of r ?buf ?p "32 # v @ 13 # 10 # rest" ps evs] by simp
  have at: "PTR_TO ?buf ?p = chars (k @ [58, 32] @ v @ [13, 10] @ rest)" "LEN ?p (?p + length k) = length k"
    using PTR_TO_at [of pre "k @ [58, 32] @ v @ [13, 10] @ rest"] LEN_at [of pre k] 1 by simp_all
  have at': "PTR_TO ?buf (Suc (?p + length k + 1)) = chars (v @ [13, 10] @ rest)"
      "LEN (Suc (?p + length k + 1)) (Suc (?p + length k + 1) + length v) = length v"
    using PTR_TO_at [of "pre @ k @ [58, 32]" "v @ [13, 10] @ rest"] LEN_at [of "pre @ k @ [58, 32]" v] 1 by simp_all
  obtain ps' where "hrun r ?buf 15 (?p + length k + 1) (32 # v @ 13 # 10 # rest) (?ps, evs)
      = hrun r ?buf 13 (Suc (Suc (Suc (?p + length k + 1 + length v)))) rest
          (ps', evs @ [http_field (PTR_TO ?buf (hp_field_start ?ps)) (hp_field_len ?ps) (PTR_TO ?buf (Suc (?p + length k + 1)))
             (LEN (Suc (?p + length k + 1)) (Suc (?p + length k + 1) + length v))])"
    using value_run [OF assms(2)] by blast
  then show ?case unfolding p at' using at by (intro exI [of _ ps']) (simp add: algebra_simps del: ragel_exec.simps)
next
  case (2 rest ps rp)
  then show ?case
    using assms(1) by (simp add: name_ok_def deliver_def on_request_http_field_def with_text_def)
qed

lemma head_end:
  "\<exists>ps' e. hrun r buf 13 p (13 # 10 # rest) (ps, evs) = (Suc (Suc p), 348, ps', evs @ e) \<and> (\<forall>rp. fold deliver e rp = rp) \<and> hp_cs ps' = hp_cs ps
     \<and> (\<not> hp_xml_sent ps \<and> \<not> hp_json_sent ps \<longrightarrow> hp_body_start ps' = p + 2)"
  by (auto simp: header_states http_blocks deliver_def)

end
