(* ===== verification/ClientStates.thy ===== *)
theory ClientStates
  imports ClientScanner HttpRequestStates
begin

text \<open>
  The machine of \<open>ClientMachine\<close> on the parts of a printed response: the states it goes through and the callbacks they
  cause for the status line and for header lines. A header line may begin in two states, and its name
  and value go through many, since the machine looks for three names; the classes of states are checked by
  evaluating the table.
\<close>

section \<open>States\<close>

definition names :: "int list" where
  "names = [21, 25, 26, 27, 28, 29, 30, 31, 32, 33, 34, 44, 45, 46, 47, 48, 49, 50, 51, 52, 53, 54, 55, 56, 57, 58, 59, 60,
     101, 102, 103, 104, 105, 106, 107, 108, 109, 110, 111]"

definition vals :: "int list" where
  "vals = [23, 96, 97, 98, 99, 100, 119]"

definition token_intervals :: "(int \<times> int) list" where
  "token_intervals = [(33, 33), (42, 43), (45, 46), (124, 124), (126, 126), (35, 39), (48, 57), (65, 90), (94, 122)]"

lemma token_in: "token_char c \<Longrightarrow> in_intervals token_intervals c"
  unfolding token_char_def in_intervals_def token_intervals_def by (elim disjE) simp_all

lemma line_start_table: "steps_to client_parts [20, 43] token_intervals (\<lambda>q l. l \<in> set [Tr 35, Tr 36, Tr 37, Tr 76, Tr 77, Tr 78])"
  unfolding client_parts_def client_part_defs token_intervals_def by code_simp

lemma name_table: "steps_to client_parts names token_intervals (\<lambda>q l. case l of St n \<Rightarrow> n \<in> set names | Tr k \<Rightarrow> False)"
  unfolding client_parts_def client_part_defs names_def token_intervals_def by code_simp

lemma colon_table: "steps_to client_parts names [(58, 58)] (\<lambda>q l. l \<in> set [Tr 39, Tr 58, Tr 148] \<or> q = 60)"
  unfolding client_parts_def client_part_defs names_def by code_simp

lemma separator_table:
  "steps_to client_parts [22, 35, 112] [(32, 32)] (\<lambda>q l. (q, l) \<in> set [(22, Tr 41), (35, Tr 59), (112, Tr 149)])"
  "steps_to client_parts [22, 35, 112] [(- 128, 8), (14, 31), (33, 127)] (\<lambda>q l. l \<in> set [Tr 40, Tr 62, Tr 152])"
  unfolding client_parts_def client_part_defs by code_simp+

lemma value_table:
  "steps_to client_parts vals [(- 128, 9), (11, 12), (14, 127)] (\<lambda>q l. case l of St n \<Rightarrow> n \<in> set vals | Tr k \<Rightarrow> False)"
  "steps_to client_parts vals [(13, 13)] (\<lambda>q l. l \<in> set [Tr 46, Tr 137, Tr 159])"
  unfolding client_parts_def client_part_defs vals_def by code_simp+

lemma value_in: "value_char c \<Longrightarrow> - 128 \<le> c \<Longrightarrow> c \<le> 127 \<Longrightarrow> in_intervals [(- 128, 9), (11, 12), (14, 127)] c"
  unfolding value_char_def in_intervals_def by simp linarith

lemma byte_range: "- 128 \<le> sint (b :: u8)" "sint (b :: u8) \<le> 127"
  using sint_range_size [of b] by (simp_all add: word_size)

lemmas client_block_row =
  tr_block_part [OF client_closed client_in_parts(1)] client_part_1_def
  tr_block_part [OF client_closed client_in_parts(2)] client_part_2_def
  tr_block_part [OF client_closed client_in_parts(3)] client_part_3_def
  tr_block_part [OF client_closed client_in_parts(4)] client_part_4_def
  tr_block_part [OF client_closed client_in_parts(5)] client_part_5_def
  tr_block_part [OF client_closed client_in_parts(8)] client_part_8_def
  tr_block_part [OF client_closed client_in_parts(9)] client_part_9_def
  tr_block_part [OF client_closed client_in_parts(16)] client_part_16_def
  tr_block_part [OF client_closed client_in_parts(18)] client_part_18_def
  tr_block_part [OF client_closed client_in_parts(20)] client_part_20_def
  tr_block_part [OF client_closed client_in_parts(22)] client_part_22_def
  tr_block_single

lemma client_blocks:
  "client_tr 2 = ([C_MARK_mark], Goto 8)" "client_tr 26 = ([C_http_version], Goto 16)" "client_tr 27 = ([C_MARK_mark], Goto 17)"
  "client_tr 28 = ([C_status_code], Goto 18)" "client_tr 30 = ([C_MARK_mark], Goto 19)" "client_tr 33 = ([C_reason_phrase], Goto 24)"
  "client_tr 35 = ([C_MARK_field_start], Goto 21)" "client_tr 36 = ([C_MARK_field_start], Goto 25)" "client_tr 37 = ([C_MARK_field_start], Goto 44)"
  "client_tr 76 = ([C_write_connection_close, C_MARK_field_start], Goto 21)" "client_tr 77 = ([C_write_connection_close, C_MARK_field_start], Goto 25)"
  "client_tr 78 = ([C_write_connection_close, C_MARK_field_start], Goto 44)"
  "client_tr 39 = ([C_write_field], Goto 22)" "client_tr 58 = ([C_write_field], Goto 35)" "client_tr 148 = ([C_write_field], Goto 112)"
  "client_tr 41 = ([C_MARK_mark], Goto 22)" "client_tr 59 = ([C_MARK_mark], Goto 35)" "client_tr 149 = ([C_MARK_mark], Goto 112)"
  "client_tr 40 = ([C_MARK_mark], Goto 23)" "client_tr 62 = ([C_MARK_mark], Goto 96)" "client_tr 152 = ([C_MARK_mark], Goto 119)"
  "client_tr 46 = ([C_write_value], Goto 24)" "client_tr 137 = ([C_write_value], Goto 88)" "client_tr 159 = ([C_write_content_len, C_write_value], Goto 24)"
  "client_tr 75 = ([C_write_connection_close], Goto 3)" "client_tr 7 = ([C_done], Break 120)"
  "client_tr 61 = ([C_MARK_mark, C_write_value], Goto 95)" "client_tr 64 = ([C_done], Break 122)"
  by (simp_all add: client_block_row)

lemmas client_row =
  state_case_part [OF client_closed client_in_parts(1)] client_part_1_def
  state_case_part [OF client_closed client_in_parts(2)] client_part_2_def
  state_case_part [OF client_closed client_in_parts(3)] client_part_3_def
  state_case_part [OF client_closed client_in_parts(4)] client_part_4_def
  state_case_part [OF client_closed client_in_parts(5)] client_part_5_def
  state_case_part [OF client_closed client_in_parts(8)] client_part_8_def
  state_case_part [OF client_closed client_in_parts(9)] client_part_9_def
  state_case_part [OF client_closed client_in_parts(16)] client_part_16_def
  state_case_single

lemma status_states:
  "client_case 1 72 = Some (Tr 2)" "client_case 8 84 = Some (St 9)" "client_case 9 84 = Some (St 10)" "client_case 10 80 = Some (St 11)"
  "client_case 11 47 = Some (St 12)" "client_case 12 49 = Some (St 13)" "client_case 13 46 = Some (St 14)" "client_case 14 48 = Some (St 15)"
  "client_case 14 49 = Some (St 15)" "client_case 15 32 = Some (Tr 26)" "48 \<le> c \<Longrightarrow> c \<le> 57 \<Longrightarrow> client_case 16 c = Some (Tr 27)"
  "48 \<le> c \<Longrightarrow> c \<le> 57 \<Longrightarrow> client_case 17 c = Some (St 17)" "client_case 17 32 = Some (Tr 28)" "c \<noteq> 10 \<Longrightarrow> client_case 18 c = Some (Tr 30)"
  "c \<noteq> 10 \<Longrightarrow> c \<noteq> 13 \<Longrightarrow> client_case 19 c = Some (St 19)" "client_case 19 13 = Some (Tr 33)" "client_case 24 10 = Some (St 20)"
  by (simp_all add: client_row)

lemma line_end_states:
  "client_case 88 10 = Some (St 43)" "client_case 20 13 = Some (St 3)" "client_case 43 13 = Some (Tr 75)" "client_case 3 10 = Some (Tr 7)"
  "client_case 35 13 = Some (Tr 61)" "client_case 36 13 = Some (St 89)" "client_case 89 10 = Some (Tr 64)"
  by (simp_all add: client_row)

section \<open>Names\<close>

text \<open>
  The states 44 to 60 spell transfer-encoding, in letters of either case; \<open>spelling\<close> has the letter that leads to each of
  them from the one before.
\<close>

definition lower :: "int \<Rightarrow> int" where
  "lower c = (if 65 \<le> c \<and> c \<le> 90 then c + 32 else c)"

definition transfer_encoding :: "int list" where
  "transfer_encoding = [116, 114, 97, 110, 115, 102, 101, 114, 45, 101, 110, 99, 111, 100, 105, 110, 103]"

definition spelling :: "(int \<times> int) list" where
  "spelling = [(44, 0), (45, 114), (46, 97), (47, 110), (48, 115), (49, 102), (50, 101), (51, 114), (52, 45), (53, 101), (54, 110), (55, 99),
     (56, 111), (57, 100), (58, 105), (59, 110), (60, 103)]"

lemma spelling_table:
  "list_all (\<lambda>part. list_all (\<lambda>(m, wide, rs, d).
     (case d of St n \<Rightarrow> map_of spelling n = None | Tr k \<Rightarrow> True)
     \<and> list_all (\<lambda>(lo, hi, l). case l of Tr k \<Rightarrow> True
         | St n \<Rightarrow> (case map_of spelling n of None \<Rightarrow> True | Some x \<Rightarrow> m = n - 1 \<and> lo = hi \<and> lower lo = x)) rs) (fst part)) client_parts"
  unfolding client_parts_def client_part_defs by code_simp

lemma spelling_step:
  assumes "client_case q c = Some (St n)" "map_of spelling n = Some x"
  shows "q = n - 1 \<and> lower c = x"
proof -
  obtain wide rs d where r: "(q, wide, rs, d) \<in> set (concat (map fst client_parts))"
    "St n = d \<or> (\<exists>lo hi. (lo, hi, St n) \<in> set rs \<and> lo \<le> c \<and> c \<le> hi)"
    using state_case_in [OF assms(1)] by (metis (full_types))
  then obtain part where part: "part \<in> set client_parts" "(q, wide, rs, d) \<in> set (fst part)" by auto
  have row: "(case d of St n \<Rightarrow> map_of spelling n = None | Tr k \<Rightarrow> True)"
    "list_all (\<lambda>(lo, hi, l). case l of Tr k \<Rightarrow> True
         | St n \<Rightarrow> (case map_of spelling n of None \<Rightarrow> True | Some x \<Rightarrow> q = n - 1 \<and> lo = hi \<and> lower lo = x)) rs"
    using spelling_table part unfolding list_all_iff by fastforce+
  have "St n \<noteq> d" using row(1) assms(2) by auto
  then obtain lo hi where "(lo, hi, St n) \<in> set rs" "lo \<le> c" "c \<le> hi" using r(2) by blast
  then show ?thesis using row(2) assms(2) by (fastforce simp: list_all_iff)
qed

definition spelled :: "int \<Rightarrow> u8 list \<Rightarrow> bool" where
  "spelled q w \<longleftrightarrow> (44 \<le> q \<and> q \<le> 60 \<longrightarrow> map (\<lambda>b. lower (sint b)) w = take (nat (q - 43)) transfer_encoding)"

lemma spelled_step:
  assumes "spelled q w" "q \<in> set names" "client_case q (sint b) = Some (St n)"
  shows "spelled n (w @ [b])"
proof (cases "44 \<le> n \<and> n \<le> 60")
  case True
  then have "n \<in> set [44..60]" by (simp only: set_upto atLeastAtMost_iff)
  then have n: "n \<in> {44, 45, 46, 47, 48, 49, 50, 51, 52, 53, 54, 55, 56, 57, 58, 59, 60}" by simp
  then obtain x where x: "map_of spelling n = Some x" unfolding spelling_def by (elim insertE emptyE) simp_all
  from spelling_step [OF assms(3) x] have q: "q = n - 1" "lower (sint b) = x" by auto
  have "n \<noteq> 44" using q(1) assms(2) by (auto simp: names_def)
  moreover from this have "map (\<lambda>b. lower (sint b)) w = take (nat (n - 44)) transfer_encoding" using assms(1) True q(1) by (simp add: spelled_def)
  moreover have "take (nat (n - 43)) transfer_encoding = take (nat (n - 44)) transfer_encoding @ [x]"
    using n x \<open>n \<noteq> 44\<close> unfolding transfer_encoding_def spelling_def by (elim insertE emptyE) simp_all
  ultimately show ?thesis using q(2) by (simp add: spelled_def)
qed (auto simp: spelled_def)

abbreviation crun :: "u8 list \<Rightarrow> int \<Rightarrow> nat \<Rightarrow> u8 list \<Rightarrow> httpclient_parser \<times> response_event list \<Rightarrow> nat \<times> int \<times> httpclient_parser \<times> response_event list" where
  "crun buf \<equiv> ragel_exec client_case client_tr (client_act buf) 2"

lemma names_range: "q \<in> set names \<Longrightarrow> 1 \<le> q \<and> q \<le> 123"
  by (auto simp: names_def)

lemma vals_range: "q \<in> set vals \<Longrightarrow> 1 \<le> q \<and> q \<le> 123"
  by (auto simp: vals_def)

lemma class_step:
  assumes "steps_to client_parts qs ivs (\<lambda>q l. case l of St n \<Rightarrow> n \<in> set ns | Tr k \<Rightarrow> False)" "q \<in> set qs" "1 \<le> q" "q \<le> 123" "in_intervals ivs c"
  shows "\<exists>n \<in> set ns. client_case q c = Some (St n)"
proof -
  obtain l where "client_case q c = Some l" "case l of St n \<Rightarrow> n \<in> set ns | Tr k \<Rightarrow> False"
    using steps_toD [OF assms(1) client_closed assms(2-5)] by blast
  then show ?thesis by (cases l) auto
qed

lemma name_step:
  assumes "q \<in> set names" "token_char c"
  shows "\<exists>n \<in> set names. client_case q c = Some (St n)"
  using class_step [OF name_table assms(1) _ _ token_in [OF assms(2)]] names_range [OF assms(1)] by blast

lemma name_rest:
  "q \<in> set names \<Longrightarrow> spelled q v \<Longrightarrow> \<forall>b \<in> set w. token_char (sint b) \<Longrightarrow>
     \<exists>q' \<in> set names. spelled q' (v @ w) \<and> (\<forall>rest s. crun buf q p (w @ rest) s = crun buf q' (p + length w) rest s)"
proof (induction w arbitrary: q p v)
  case (Cons b w)
  obtain n where n: "n \<in> set names" "client_case q (sint b) = Some (St n)" using name_step [OF Cons.prems(1), of "sint b"] Cons.prems(3) by auto
  have "spelled n (v @ [b])" using spelled_step [OF Cons.prems(2,1) n(2)] .
  from Cons.IH [OF n(1) this, of "Suc p"] Cons.prems(3) obtain q' where q': "q' \<in> set names" "spelled q' (v @ b # w)"
    "\<forall>rest s. crun buf n (Suc p) (w @ rest) s = crun buf q' (Suc p + length w) rest s" by auto
  have "n \<noteq> 0" using names_range [OF n(1)] by auto
  then show ?case using q' n(2) by (intro bexI [of _ q']) simp_all
qed auto

lemma line_start:
  assumes "q \<in> {20, 43}" "token_char (sint b)"
  shows "\<exists>n \<in> set names. spelled n [b] \<and> (\<exists>ps'. crun buf q p (b # rest) (ps, evs) = crun buf n (Suc p) rest (ps', evs)
    \<and> cp_field_start ps' = p \<and> cp_chunked ps' = cp_chunked ps)"
proof -
  have t: "sint b = 84 \<or> sint b = 116" if "client_case q (sint b) = Some (Tr k)" "k \<in> {37, 78}" for k
    using assms(1) that by (auto simp: client_row split: if_splits)
  obtain l where l: "client_case q (sint b) = Some l" "l \<in> set [Tr 35, Tr 36, Tr 37, Tr 76, Tr 77, Tr 78]"
    using steps_toD [OF line_start_table client_closed _ _ _ token_in [OF assms(2)], of q "\<lambda>c. c"] assms(1) by auto
  have low: "lower 84 = 116" "lower 116 = 116" by (simp_all add: lower_def)
  have n: "spelled 21 [b]" "spelled 25 [b]" "21 \<in> set names" "25 \<in> set names" "44 \<in> set names" by (simp_all add: spelled_def names_def)
  consider k where "l = Tr k" "k \<in> {35, 76}" | k where "l = Tr k" "k \<in> {36, 77}" | k where "l = Tr k" "k \<in> {37, 78}" using l(2) by auto
  then show ?thesis
  proof cases
    case 1
    then show ?thesis using l(1) n by (intro bexI [of _ 21]) (auto simp: client_blocks)
  next
    case 2
    then show ?thesis using l(1) n by (intro bexI [of _ 25]) (auto simp: client_blocks)
  next
    case 3
    then have "spelled 44 [b]" using t [of k] l(1) low by (auto simp: spelled_def transfer_encoding_def)
    then show ?thesis using l(1) n 3 by (intro bexI [of _ 44]) (auto simp: client_blocks)
  qed
qed

lemma colon_run:
  assumes "q \<in> set names" "q \<noteq> 60"
  shows "\<exists>q' \<in> {22, 35, 112}. crun buf q p (58 # rest) (ps, evs) = crun buf q' (Suc p) rest (ps\<lparr>cp_field_len := LEN (cp_field_start ps) p\<rparr>, evs)"
proof -
  have "in_intervals [(58, 58)] 58" by (simp add: in_intervals_def)
  from steps_toD [OF colon_table client_closed assms(1) _ _ this, of "\<lambda>c. c"] names_range [OF assms(1)] assms(2)
  obtain k where "client_case q 58 = Some (Tr k)" "k \<in> {39, 58, 148}" by auto
  then show ?thesis by (auto simp: client_blocks)
qed

lemma client_name_run:
  assumes "q \<in> {20, 43}" "name_ok k" "map (\<lambda>b. lower (sint b)) k \<noteq> transfer_encoding"
  shows "\<exists>q' \<in> {22, 35, 112}. \<exists>ps'. crun buf q p (k @ 58 # rest) (ps, evs) = crun buf q' (p + length k + 1) rest (ps', evs)
    \<and> cp_field_start ps' = p \<and> cp_field_len ps' = LEN p (p + length k) \<and> cp_chunked ps' = cp_chunked ps"
proof -
  obtain b w where k: "k = b # w" "token_char (sint b)" "\<forall>b \<in> set w. token_char (sint b)" using assms(2) by (cases k) (auto simp: name_ok_def)
  obtain n ps1 where n: "n \<in> set names" "spelled n [b]" "crun buf q p (b # w @ 58 # rest) (ps, evs) = crun buf n (Suc p) (w @ 58 # rest) (ps1, evs)"
    "cp_field_start ps1 = p" "cp_chunked ps1 = cp_chunked ps" using line_start [OF assms(1) k(2)] by blast
  obtain q1 where q1: "q1 \<in> set names" "spelled q1 k" "crun buf n (Suc p) (w @ 58 # rest) (ps1, evs) = crun buf q1 (Suc p + length w) (58 # rest) (ps1, evs)"
    using name_rest [OF n(1,2) k(3)] k(1) by (metis append_Cons append_Nil)
  have "q1 \<noteq> 60" using q1(2) assms(3) by (auto simp: spelled_def transfer_encoding_def)
  from colon_run [OF q1(1) this] obtain q' where "q' \<in> {22, 35, 112}" "crun buf q1 (Suc p + length w) (58 # rest) (ps1, evs)
      = crun buf q' (Suc (Suc p + length w)) rest (ps1\<lparr>cp_field_len := LEN p (Suc p + length w)\<rparr>, evs)"
    using n(4) by metis
  then show ?thesis using n q1(3) k(1)
    by (intro bexI [of _ q'] exI [of _ "ps1\<lparr>cp_field_len := LEN p (Suc p + length w)\<rparr>"]) (simp_all del: ragel_exec.simps)
qed

text \<open>A value that is not empty and does not begin with white space.\<close>

definition client_value_ok :: "u8 list \<Rightarrow> bool" where
  "client_value_ok v \<longleftrightarrow> v \<noteq> [] \<and> (\<forall>b \<in> set v. value_char (sint b)) \<and> sint (hd v) \<notin> {9, 11, 12, 32}"

lemma value_step:
  assumes "q \<in> set vals" "value_char (sint (b :: u8))"
  shows "\<exists>n \<in> set vals. n \<noteq> 0 \<and> client_case q (sint b) = Some (St n)"
proof -
  have "in_intervals [(- 128, 9), (11, 12), (14, 127)] (sint b)" by (rule value_in [OF assms(2) byte_range])
  from class_step [OF value_table(1) assms(1) _ _ this] vals_range [OF assms(1)] obtain n where
    "n \<in> set vals" "client_case q (sint b) = Some (St n)" by blast
  moreover have "n \<noteq> 0" using vals_range [OF \<open>n \<in> set vals\<close>] by auto
  ultimately show ?thesis by blast
qed

lemma value_end:
  assumes "q \<in> set vals"
  shows "\<exists>q' \<in> {20, 43}. \<exists>ps'. crun buf q p (13 # 10 # rest) (ps, evs) = crun buf q' (Suc (Suc p)) rest
      (ps', evs @ [rs_http_field (PTR_TO buf (cp_field_start ps)) (cp_field_len ps) (PTR_TO buf (cp_mark ps)) (LEN (cp_mark ps) p)])
    \<and> cp_chunked ps' = cp_chunked ps"
proof -
  have "in_intervals [(13, 13)] 13" by (simp add: in_intervals_def)
  from steps_toD [OF value_table(2) client_closed assms(1) _ _ this, of "\<lambda>c. c"] vals_range [OF assms(1)]
  consider "client_case q 13 = Some (Tr 46)" | "client_case q 13 = Some (Tr 137)" | "client_case q 13 = Some (Tr 159)" by auto
  then show ?thesis
  proof cases
    case 1
    then show ?thesis by (intro bexI [of _ 20] exI [of _ ps]) (simp_all add: client_blocks status_states)
  next
    case 2
    then show ?thesis by (intro bexI [of _ 43] exI [of _ ps]) (simp_all add: client_blocks line_end_states)
  next
    case 3
    then show ?thesis
      by (intro bexI [of _ 20] exI [of _ "ps\<lparr>cp_content_len := int_of_long (strtol 10 (PTR_TO buf (cp_mark ps)))\<rparr>"])
        (simp_all add: client_blocks status_states)
  qed
qed

lemma separator_run:
  assumes "q \<in> {22, 35, 112}" "client_value_ok (b # v)"
  shows "\<exists>n \<in> set vals. crun buf q p (32 # b # rest) (ps, evs) = crun buf n (Suc (Suc p)) rest (ps\<lparr>cp_mark := Suc p\<rparr>, evs)"
proof -
  have "sint b \<notin> {9, 10, 11, 12, 13, 32}" using assms(2) by (auto simp: client_value_ok_def value_char_def)
  then have i: "in_intervals [(- 128, 8), (14, 31), (33, 127)] (sint b)" using byte_range [of b] by (simp add: in_intervals_def) linarith
  have i2: "in_intervals [(32, 32)] 32" by (simp add: in_intervals_def)
  obtain l where "client_case q (sint b) = Some l" "l \<in> set [Tr 40, Tr 62, Tr 152]"
    using steps_toD [OF separator_table(2) client_closed _ _ _ i, of q "\<lambda>c. c"] assms(1) by auto
  moreover obtain l2 where "client_case q 32 = Some l2" "(q, l2) \<in> set [(22, Tr 41), (35, Tr 59), (112, Tr 149)]"
    using steps_toD [OF separator_table(1) client_closed _ _ _ i2, of q "\<lambda>c. c"] assms(1) by auto
  ultimately show ?thesis by (auto simp: client_blocks vals_def)
qed

lemma client_value_run:
  assumes "q \<in> {22, 35, 112}" "client_value_ok v"
  shows "\<exists>q' \<in> {20, 43}. \<exists>ps'. crun buf q p (32 # v @ 13 # 10 # rest) (ps, evs) = crun buf q' (p + length v + 3) rest
      (ps', evs @ [rs_http_field (PTR_TO buf (cp_field_start ps)) (cp_field_len ps) (PTR_TO buf (Suc p)) (LEN (Suc p) (Suc p + length v))])
    \<and> cp_chunked ps' = cp_chunked ps"
proof -
  obtain b w where v: "v = b # w" "\<forall>b \<in> set w. value_char (sint b)" using assms(2) by (cases v) (auto simp: client_value_ok_def)
  let ?ps = "ps\<lparr>cp_mark := Suc p\<rparr>"
  obtain n where n: "n \<in> set vals" "crun buf q p (32 # b # w @ 13 # 10 # rest) (ps, evs) = crun buf n (Suc (Suc p)) (w @ 13 # 10 # rest) (?ps, evs)"
    using separator_run [OF assms(1) assms(2) [unfolded v(1)]] by blast
  obtain m where m: "m \<in> set vals" "crun buf n (Suc (Suc p)) (w @ 13 # 10 # rest) (?ps, evs) = crun buf m (Suc (Suc p) + length w) (13 # 10 # rest) (?ps, evs)"
    using exec_class [where cases = client_case and w = w, OF value_step n(1)] v(2) by fast
  obtain q' ps' where "q' \<in> {20, 43}" "crun buf m (Suc (Suc p) + length w) (13 # 10 # rest) (?ps, evs)
      = crun buf q' (Suc (Suc (Suc (Suc p) + length w))) rest (ps', evs @ [rs_http_field (PTR_TO buf (cp_field_start ?ps)) (cp_field_len ?ps)
          (PTR_TO buf (cp_mark ?ps)) (LEN (cp_mark ?ps) (Suc (Suc p) + length w))])" "cp_chunked ps' = cp_chunked ?ps"
    using value_end [OF m(1), of buf "Suc (Suc p) + length w" rest ?ps evs] by (elim bexE exE conjE) (rule that)
  then show ?thesis using n(2) m(2) v(1)
    by (intro bexI [of _ q'] exI [of _ ps']) (simp_all add: numeral_3_eq_3 del: ragel_exec.simps)
qed

end
