(* ===== verification/HttpRequestText.thy ===== *)
theory HttpRequestText
  imports HttpRequestStates
begin

text \<open>
  Requests read back: the request scanner on the text that HttpRequest::dump prints, on a request that
  arrives in pieces, and a whole session.
\<close>

section \<open>Whole requests\<close>

text \<open>The texts a request may have so that they are read back: a path, a query and a fragment of URI characters, and header lines.\<close>

definition path_text :: "string \<Rightarrow> bool" where
  "path_text s \<longleftrightarrow> (case bytes s of [] \<Rightarrow> False | b # w \<Rightarrow> b = 47 \<and> path_rest w)"

definition query_text :: "string \<Rightarrow> bool" where
  "query_text s \<longleftrightarrow> pct_text query_char (map sint (bytes s))"

definition line_ok :: "string \<times> string \<Rightarrow> bool" where
  "line_ok h \<longleftrightarrow> name_ok (bytes (fst h)) \<and> value_ok (bytes (snd h))"

definition printable :: "HttpRequest \<Rightarrow> bool" where
  "printable rq \<longleftrightarrow> rq_method rq \<notin> {INVALID_METHOD, MSEARCH} \<and> rq_version rq \<in> {0x10, 0x11} \<and> path_text (rq_path rq)
     \<and> query_text (rq_query rq) \<and> query_text (rq_fragment rq) \<and> list_all line_ok (rq_headers rq)"

definition target_text :: "HttpRequest \<Rightarrow> string" where
  "target_text rq = rq_path rq @ (if rq_query rq = [] then [] else ''?'' @ rq_query rq) @ (if rq_fragment rq = [] then [] else ''#'' @ rq_fragment rq) @ '' ''"

text \<open>What the callbacks store of the parts of the request line.\<close>

definition set_target :: "HttpRequest \<Rightarrow> HttpRequest \<Rightarrow> HttpRequest" where
  "set_target rq x =
     (let x = x\<lparr>rq_path := rq_path rq\<rparr>; x = (if rq_query rq = [] then x else x\<lparr>rq_query := rq_query rq\<rparr>)
      in if rq_fragment rq = [] then x else x\<lparr>rq_fragment := rq_fragment rq\<rparr>)"

lemma byte_of_separators [simp]:
  "byte_of_char CHR '' '' = 32" "byte_of_char CHR ''?'' = 63" "byte_of_char CHR ''#'' = 35" "byte_of_char CHR '':'' = 58"
  "byte_of_char CHR 0x0D = 13" "byte_of_char CHR 0x0A = 10"
  by code_simp+

lemma reads_target:
  assumes "path_text (rq_path rq)" "query_text (rq_query rq)" "query_text (rq_fragment rq)"
  shows "reads r pre 3 (bytes (target_text rq)) 4 (set_target rq)"
proof -
  obtain w where w: "bytes (rq_path rq) = 47 # w" "path_rest w"
    using assms(1) by (auto simp: path_text_def split: list.splits)
  have path: "rq_path rq = chars (47 # w)" using w(1) chars_bytes by metis
  let ?q = "bytes (rq_query rq)" and ?f = "bytes (rq_fragment rq)"
  have q: "pct_text query_char (map sint ?q)" and f: "pct_text query_char (map sint ?f)" using assms(2,3) by (simp_all add: query_text_def)
  have p32: "reads r pre 3 (47 # w @ [32]) 4 (\<lambda>x. x\<lparr>rq_path := rq_path rq\<rparr>)"
    and p35: "reads r pre 3 (47 # w @ [35]) 20 (\<lambda>x. x\<lparr>rq_path := rq_path rq\<rparr>)"
    and p63: "reads r pre 3 (47 # w @ [63]) 29 (\<lambda>x. x\<lparr>rq_path := rq_path rq\<rparr>)"
    using reads_path(1) [OF w(2), of r pre] reads_path(2) [OF w(2), of r pre] reads_path(3) [OF w(2), of r pre]
    by (simp_all add: path_states path)
  consider "rq_query rq = []" "rq_fragment rq = []" | "rq_query rq = []" "rq_fragment rq \<noteq> []"
    | "rq_query rq \<noteq> []" "rq_fragment rq = []" | "rq_query rq \<noteq> []" "rq_fragment rq \<noteq> []" by blast
  then show ?thesis
  proof cases
    case 1
    then show ?thesis using p32 w(1) by (simp add: target_text_def set_target_def [abs_def])
  next
    case 2
    then show ?thesis using reads_trans [OF p35 reads_fragment [OF _ f]] w(1) by (simp add: target_text_def set_target_def [abs_def] Let_def)
  next
    case 3
    then show ?thesis using reads_trans [OF p63 reads_query [OF _ q, of 32 4]] w(1) by (simp add: target_text_def set_target_def [abs_def] Let_def)
  next
    case 4
    then show ?thesis
      using reads_trans [OF p63 reads_trans [OF reads_query [OF _ q, of 35 20] reads_fragment [OF _ f]]] w(1)
      by (simp add: target_text_def set_target_def [abs_def] Let_def)
  qed
qed

lemma method_text:
  assumes "m \<notin> {INVALID_METHOD, MSEARCH}"
  shows "HttpMethodToString m \<noteq> []" "length (HttpMethodToString m) \<le> 20" "\<forall>b \<in> set (bytes (HttpMethodToString m)). upper_digit (sint b)"
proof -
  have "list_all (\<lambda>(m, t). m = MSEARCH \<or> t \<noteq> [] \<and> length t \<le> 20 \<and> list_all (\<lambda>b. upper_digit (sint b)) (bytes t)) HTTP_METHOD_MAP"
    by code_simp
  then show "HttpMethodToString m \<noteq> []" "length (HttpMethodToString m) \<le> 20" "\<forall>b \<in> set (bytes (HttpMethodToString m)). upper_digit (sint b)"
    using method_entry(1) [of m] assms by (auto simp: list_all_iff)
qed

lemma reads_lines:
  "list_all line_ok hs \<Longrightarrow> reads r pre 13 (bytes (concat (map header_line hs))) 13 (fold (\<lambda>(k, v). rq_setHeader k v) hs)"
proof (induction hs arbitrary: pre)
  case Nil
  show ?case by (rule readsI, rule exI, rule exI [of _ "[]"]) simp
next
  case (Cons h hs)
  obtain k v where h: "h = (k, v)" by (cases h)
  have "reads r pre 13 (bytes k @ [58, 32] @ bytes v @ [13, 10]) 13 (rq_setHeader (chars (bytes k)) (chars (bytes v)))"
    using Cons.prems h by (intro reads_header) (simp_all add: line_ok_def)
  then have "reads r pre 13 (bytes (header_line h)) 13 (rq_setHeader k v)"
    by (simp add: h header_line_def CRLF_def)
  from reads_trans [OF this Cons.IH] Cons.prems show ?case by (simp add: h o_def)
qed

definition rq_head :: "HttpRequest \<Rightarrow> string" where
  "rq_head rq = HttpMethodToString (rq_method rq) @ '' '' @ target_text rq @ ''HTTP/'' @ version_text (rq_version rq) @ CRLF
     @ concat (map header_line (rq_lines rq))"

lemma rq_dump_head: "rq_dump rq = rq_head rq @ CRLF @ rq_body rq"
  by (simp add: rq_dump_def rq_head_def target_text_def)

text \<open>The request that the callbacks of a printed request build.\<close>

definition scanned :: "HttpRequest \<Rightarrow> HttpRequest" where
  "scanned rq = fold (\<lambda>(k, v). rq_setHeader k v) (rq_lines rq)
     ((set_target rq ((new_HttpRequest 0x11 True)\<lparr>rq_method := rq_method rq\<rparr>))\<lparr>rq_version := rq_version rq\<rparr>)"

lemma sint_byte_of_char:
  assumes "(of_char c :: nat) < 128"
  shows "sint (byte_of_char c) = int (of_char c)"
proof -
  have "byte_of_char c = word_of_nat (of_char c)" by (simp add: byte_of_char_def of_char_def horner_sum_simps)
  then show ?thesis using assms by (simp add: signed_of_nat signed_take_bit_int_eq_self)
qed

lemma digits_ok:
  assumes "c \<in> set (dec_string n)"
  shows "value_char (sint (byte_of_char c)) \<and> sint (byte_of_char c) \<noteq> 9 \<and> sint (byte_of_char c) \<noteq> 32"
proof -
  from assms num_string_digits [of 10 c n] obtain d where d: "d < 16" "c = digit_char d" by fastforce
  then have "of_char c = (if d < 10 then 48 + d else 87 + d)" by (simp add: of_char_digit)
  then show ?thesis using d(1) by (simp add: sint_byte_of_char value_char_def)
qed

lemma lines_ok:
  assumes "list_all line_ok (rq_headers rq)"
  shows "list_all line_ok (rq_lines rq)"
proof -
  have "line_ok (''connection'', ''close'')" "line_ok (''connection'', ''keep-alive'')" "name_ok (bytes ''content-length'')" by code_simp+
  moreover have "value_ok (bytes (dec_string n))" for n
    using digits_ok [of _ n] digits_ok [of "hd (dec_string n)" n] by (auto simp: value_ok_def hd_map)
  ultimately show ?thesis using assms
    by (auto simp: rq_lines_def connection_header_def printed_headers_def length_header_def line_ok_def list_all_iff)
qed

lemma version_bytes:
  assumes "v \<in> {0x10, 0x11 :: u8}"
  shows "\<exists>d. bytes (''HTTP/'' @ version_text v @ CRLF) = [72, 84, 84, 80, 47, 49, 46, d, 13, 10] \<and> (d = 48 \<and> v = 0x10 \<or> d = 49 \<and> v = 0x11)"
proof -
  have "bytes (''HTTP/'' @ version_text 0x10 @ CRLF) = [72, 84, 84, 80, 47, 49, 46, 48, 13, 10]"
    "bytes (''HTTP/'' @ version_text 0x11 @ CRLF) = [72, 84, 84, 80, 47, 49, 46, 49, 13, 10]" by code_simp+
  then show ?thesis using assms by auto
qed

lemma reads_head:
  assumes "printable rq"
  shows "reads r [] 1 (bytes (rq_head rq)) 13
    (\<lambda>x. fold (\<lambda>(k, v). rq_setHeader k v) (rq_lines rq) ((set_target rq (x\<lparr>rq_method := rq_method rq\<rparr>))\<lparr>rq_version := rq_version rq\<rparr>))"
proof -
  let ?m = "bytes (HttpMethodToString (rq_method rq))" and ?t = "bytes (target_text rq)" and ?l = "bytes (concat (map header_line (rq_lines rq)))"
  note m = method_text [of "rq_method rq"]
  obtain d where d: "bytes (''HTTP/'' @ version_text (rq_version rq) @ CRLF) = [72, 84, 84, 80, 47, 49, 46, d, 13, 10]"
    "d = 48 \<and> rq_version rq = 0x10 \<or> d = 49 \<and> rq_version rq = 0x11"
  proof -
    have "rq_version rq \<in> {0x10, 0x11}" using assms by (simp only: printable_def simp_thms)
    from version_bytes [OF this] that show thesis by (elim exE conjE)
  qed
  have "CharsToHttpMethod (chars ?m @ rest) = rq_method rq" for rest
    using assms http_methods_recognised [of "rq_method rq" rest] by (simp add: printable_def)
  then have "reads r [] 1 (?m @ [32]) 3 (\<lambda>x. x\<lparr>rq_method := rq_method rq\<rparr>)"
    using assms m by (intro reads_method) (auto simp: printable_def)
  moreover have "reads r pre 3 ?t 4 (set_target rq)" for pre using assms by (intro reads_target) (simp_all add: printable_def)
  ultimately have "reads r [] 1 ((?m @ [32]) @ ?t) 4 (\<lambda>x. set_target rq (x\<lparr>rq_method := rq_method rq\<rparr>))" by (rule reads_trans)
  from reads_trans [OF this reads_version [OF d(2)]]
  have "reads r [] 1 (((?m @ [32]) @ ?t) @ [72, 84, 84, 80, 47, 49, 46, d, 13, 10]) 13
      (\<lambda>x. (set_target rq (x\<lparr>rq_method := rq_method rq\<rparr>))\<lparr>rq_version := rq_version rq\<rparr>)" .
  from reads_trans [OF this reads_lines [OF lines_ok]] assms
  have "reads r [] 1 ((((?m @ [32]) @ ?t) @ [72, 84, 84, 80, 47, 49, 46, d, 13, 10]) @ ?l) 13
      (\<lambda>x. fold (\<lambda>(k, v). rq_setHeader k v) (rq_lines rq) ((set_target rq (x\<lparr>rq_method := rq_method rq\<rparr>))\<lparr>rq_version := rq_version rq\<rparr>))"
    by (simp add: printable_def)
  moreover have "bytes (rq_head rq) = (((?m @ [32]) @ ?t) @ [72, 84, 84, 80, 47, 49, 46, d, 13, 10]) @ ?l"
    using d(1) by (simp add: rq_head_def)
  ultimately show ?thesis by simp
qed

lemma execute_printed:
  assumes "printable rq" "length (rq_dump rq) < 2 ^ 64"
  shows "\<exists>p. execute (http_scanner ps0) (HttpRequestParser (http_scanner ps0)) (bytes (rq_dump rq)) = (length (rq_head rq) + 2, bytes (rq_body rq), p)
    \<and> complete (http_scanner ps0) p \<and> rp_data p = scanned rq"
proof -
  let ?buf = "bytes (rq_dump rq)" and ?H = "bytes (rq_head rq)" and ?B = "bytes (rq_body rq)" and ?S = "http_scanner ps0"
  let ?ps = "http_parser_init ps0" and ?rp = "HttpRequestParser ?S"
  let ?r = "hp_uri_relaxed ?ps" and ?ps' = "?ps\<lparr>hp_nread := 0, hp_mark := 0, hp_field_len := 0, hp_field_start := 0\<rparr>"
  have buf: "?buf = [] @ ?H @ 13 # 10 # ?B" by (simp add: rq_dump_head CRLF_def)
  obtain ps1 es where h: "hrun ?r ?buf 1 0 ?buf (?ps', []) = hrun ?r ?buf 13 (length ?H) (13 # 10 # ?B) (ps1, es)"
    "\<forall>rp :: http_parser request_parser. \<not> rp_thrown rp \<longrightarrow> fold deliver es rp = rp\<lparr>rp_data :=
       fold (\<lambda>(k, v). rq_setHeader k v) (rq_lines rq) ((set_target rq ((rp_data rp)\<lparr>rq_method := rq_method rq\<rparr>))\<lparr>rq_version := rq_version rq\<rparr>)\<rparr>"
  proof -
    have "length ([] @ ?H @ 13 # 10 # ?B) < 2 ^ 64" using assms(2) by (simp add: rq_dump_head CRLF_def)
    then show thesis
      using reads_head [OF assms(1), of ?r, unfolded reads_def, rule_format, of "13 # 10 # ?B" ?ps' "[]"] that
      unfolding append_Nil buf [unfolded append_Nil, symmetric] by (auto simp del: ragel_exec.simps)
  qed
  obtain ps2 e where e: "hrun ?r ?buf 13 (length ?H) (13 # 10 # ?B) (ps1, es) = (Suc (Suc (length ?H)), 348, ps2, es @ e)"
    "\<forall>rp :: http_parser request_parser. fold deliver e rp = rp" using head_end [of ?r ?buf "length ?H" ?B ps1 es] by blast
  have ok: "\<not> http_parser_has_error ?ps" "hp_body_start ?ps = 0" "hp_cs ?ps = 1"
    by (simp_all add: http_parser_init_def http_parser_has_error_def http_parser_start_def http_parser_error_def)
  have run: "hrun ?r ?buf 1 0 ?buf (?ps', []) = (Suc (Suc (length ?H)), 348, ps2, es @ e)" using h(1) e(1) by simp
  have "\<not> http_parser_has_error ps2"
    using http_exec_cs [OF run] ok by (simp add: http_parser_has_error_def http_parser_error_def)
  moreover obtain q ps3 evs where x: "http_parser_execute ?ps ?buf = Some (q, ps3, evs)"
    using http_execute_some [of ?buf ?ps] assms(2) ok by auto
  ultimately have q: "q = length ?H + 2" "evs = es @ e" "hp_cs ps3 = 348"
    using run ok(3) buf by (auto simp: http_parser_execute_def Let_def split: if_splits)
  have "fold deliver evs (?rp\<lparr>rp_parser := ps3\<rparr>) = ?rp\<lparr>rp_parser := ps3, rp_data := scanned rq\<rparr>"
    using h(2) e(2) by (simp add: q(2) HttpRequestParser_def scanned_def)
  moreover have "rp_parser ?rp = ?ps" by (simp add: HttpRequestParser_def http_scanner_def)
  ultimately have "execute ?S ?rp ?buf = (length (rq_head rq) + 2, ?B, ?rp\<lparr>rp_parser := ps3, rp_data := scanned rq\<rparr>)"
    using x q(1) by (simp add: execute_def http_scanner_def buf)
  moreover have "complete ?S (?rp\<lparr>rp_parser := ps3, rp_data := scanned rq\<rparr>)"
    using q(3) by (simp add: complete_def hasError_def HttpRequestParser_def http_scanner_def http_parser_has_error_def
        http_parser_is_finished_def http_parser_error_def http_parser_first_final_def)
  ultimately show ?thesis by auto
qed

section \<open>A request through a session\<close>

lemma fold_setHeader:
  "fold (\<lambda>(k, v). rq_setHeader k v) ls rq = rq\<lparr>rq_headers := fold (\<lambda>(k, v). map_assign CaseInsensitiveLess k v) ls (rq_headers rq)\<rparr>"
  by (induction ls arbitrary: rq) (auto simp: rq_setHeader_def)

lemma strcasecmp_zero: "strcasecmp a b = 0 \<longleftrightarrow> equivalent CaseInsensitiveLess a b"
  unfolding ci_equivalent strcasecmp_def fold_case_def by (rule casecmp_eq) (simp_all add: c_str_zero)

lemma printed_headers_erase: "printed_headers False m = map_erase CaseInsensitiveLess ''connection'' m"
  unfolding printed_headers_def map_erase_def strcasecmp_zero
  by (intro filter_cong refl) (auto simp: equivalent_def)

definition reserved_name :: "string \<Rightarrow> bool" where
  "reserved_name k \<longleftrightarrow> fold_case k = fold_case ''connection'' \<or> fold_case k = fold_case ''content-length''"

text \<open>The header map of the scanned request.\<close>

lemma scanned_find:
  assumes "map_ok CaseInsensitiveLess (rq_headers rq)" "\<not> rq_websocket rq" "rq_hasHeader ''content-length'' rq = None"
  shows "map_find CaseInsensitiveLess k (rq_headers (scanned rq)) =
    (if fold_case k = fold_case ''content-length'' then (if rq_body rq = [] then None else Some (dec_string (length (rq_body rq))))
     else if fold_case k = fold_case ''connection'' then Some (if rq_close rq then ''close'' else ''keep-alive'')
     else map_find CaseInsensitiveLess k (rq_headers rq))"
proof -
  let ?lt = CaseInsensitiveLess
  have ne: "fold_case ''content-length'' \<noteq> fold_case ''connection''" by code_simp
  have cl: "map_find ?lt k (rq_headers rq) = None" if "fold_case k = fold_case ''content-length''"
    using assms(3) that by (simp add: rq_hasHeader_def map_find_None ci_equivalent)
  have "rq_headers (scanned rq) = fold (\<lambda>(k, v). map_assign ?lt k v) (rq_lines rq) []"
    by (simp add: scanned_def fold_setHeader set_target_def Let_def new_HttpRequest_def)
  then have "map_find ?lt k (rq_headers (scanned rq)) = map_find ?lt k (rev (rq_lines rq))"
    using ci.map_find_fold [of "[]" k "rq_lines rq"] by (simp split: option.splits)
  also have "\<dots> = (case map_find ?lt k (length_header (rq_body rq)) of Some v \<Rightarrow> Some v
      | None \<Rightarrow> (case map_find ?lt k (map_erase ?lt ''connection'' (rq_headers rq)) of Some v \<Rightarrow> Some v
        | None \<Rightarrow> map_find ?lt k (connection_header False (rq_close rq))))"
    using assms(1,2) ci.map_find_rev [OF ci.map_erase_ok [OF assms(1), of "''connection''"], of k]
    by (auto simp: rq_lines_def map_find_append printed_headers_erase length_header_def connection_header_def split: option.splits)
  finally show ?thesis
    using ne cl by (auto simp: length_header_def connection_header_def ci_equivalent ci.map_find_erase split: option.splits)
qed

text \<open>What is documented of boost::lexical_cast: decimal numbers below \<open>2^64\<close> are read.\<close>

definition reads_decimals :: "(string \<Rightarrow> u64 option) \<Rightarrow> bool" where
  "reads_decimals cast \<longleftrightarrow> (\<forall>n < 2 ^ 64. cast (dec_string n) = Some (word_of_nat n))"

text \<open>The request that a session makes of a printed one.\<close>

definition received :: "HttpRequest \<Rightarrow> HttpRequest" where
  "received rq = rq_init (scanned rq\<lparr>rq_body := rq_body rq\<rparr>)"

lemma scanned_fields:
  "rq_method (scanned rq) = rq_method rq" "rq_version (scanned rq) = rq_version rq" "rq_path (scanned rq) = rq_path rq"
  "rq_query (scanned rq) = rq_query rq" "rq_fragment (scanned rq) = rq_fragment rq" "rq_body (scanned rq) = []"
  by (simp_all add: scanned_def fold_setHeader set_target_def Let_def new_HttpRequest_def)

lemma received_fields:
  assumes "map_ok CaseInsensitiveLess (rq_headers rq)" "\<not> rq_websocket rq" "rq_hasHeader ''content-length'' rq = None"
  shows "rq_method (received rq) = rq_method rq" "rq_version (received rq) = rq_version rq" "rq_path (received rq) = rq_path rq"
    "rq_query (received rq) = rq_query rq" "rq_fragment (received rq) = rq_fragment rq" "rq_body (received rq) = rq_body rq"
    "rq_close (received rq) = rq_close rq" "\<not> reserved_name k \<Longrightarrow> rq_getHeader k d (received rq) = rq_getHeader k d rq"
proof -
  note f = scanned_find [OF assms]
  have ne: "fold_case ''content-length'' \<noteq> fold_case ''connection''" by code_simp
  have "rq_getHeader ''connection'' [] (scanned rq\<lparr>rq_body := rq_body rq\<rparr>) = (if rq_close rq then ''close'' else ''keep-alive'')"
    using ne by (auto simp: rq_getHeader_def map_get_def f)
  moreover have "strcasecmp ''close'' ''keep-alive'' \<noteq> 0" "strcasecmp ''keep-alive'' ''keep-alive'' = 0" by code_simp+
  ultimately show "rq_close (received rq) = rq_close rq" by (simp add: received_def rq_init_def Let_def)
  show "rq_getHeader k d (received rq) = rq_getHeader k d rq" if "\<not> reserved_name k"
    using that by (simp add: received_def rq_getHeader_def map_get_def f reserved_name_def)
qed (simp_all add: received_def rq_init_def Let_def scanned_fields)

lemma recv_body_printed:
  assumes "map_ok CaseInsensitiveLess (rq_headers rq)" "\<not> rq_websocket rq" "rq_hasHeader ''content-length'' rq = None"
    and "reads_decimals cast" "length (rq_body rq) < 2 ^ 63" "alloc (length (rq_body rq))"
  shows "recv_body cast alloc read shut (scanned rq) (bytes (rq_body rq)) k = Inr (Some (received rq), k)"
proof (cases "rq_body rq = []")
  case True
  then have "getContentLength cast (scanned rq) = 0"
    by (simp add: getContentLength_def getAs_def scanned_find [OF assms(1-3)])
  moreover have "scanned rq\<lparr>rq_body := []\<rparr> = scanned rq" using scanned_fields(6) [of rq] by (metis (full_types) HttpRequest.surjective HttpRequest.update_convs(9))
  ultimately show ?thesis using True by (simp add: recv_body_def received_def)
next
  case False
  then have "getContentLength cast (scanned rq) = word_of_nat (length (rq_body rq))"
    using assms(4,5) by (simp add: getContentLength_def getAs_def scanned_find [OF assms(1-3)] reads_decimals_def)
  then have "sint (getContentLength cast (scanned rq)) = int (length (rq_body rq))"
    using assms(5) by (simp add: signed_of_nat signed_take_bit_int_eq_self)
  then show ?thesis using False assms(6) by (simp add: recv_body_def received_def finish_request_def)
qed

text \<open>C26: Requests survive printing and parsing. Take a request whose path, query and fragment consist of URI
  characters and escapes and whose header names and values are legal, print it with dump and let the
  text, at most 100 bytes, arrive at a session in one read. recvRequest returns a request
  with the same method, version, path, query, fragment, body and close flag, and the same value for every
  header but the two the printer adds.\<close>

theorem request_survives_session:
  assumes "printable rq" "map_ok CaseInsensitiveLess (rq_headers rq)" "\<not> rq_websocket rq" "rq_hasHeader ''content-length'' rq = None"
    and "length (rq_dump rq) \<le> 100" "reads_decimals cast" "alloc (length (rq_body rq))"
    and "read 100 k = (int (length (rq_dump rq)), bytes (rq_dump rq), k')"
  shows "\<exists>rq'. recvRequest (http_scanner ps0) cast alloc read shut k = Some (Inr (Some rq', k'))
    \<and> rq_method rq' = rq_method rq \<and> rq_version rq' = rq_version rq \<and> rq_path rq' = rq_path rq \<and> rq_query rq' = rq_query rq
    \<and> rq_fragment rq' = rq_fragment rq \<and> rq_body rq' = rq_body rq \<and> rq_close rq' = rq_close rq
    \<and> (\<forall>key d. \<not> reserved_name key \<longrightarrow> rq_getHeader key d rq' = rq_getHeader key d rq)"
proof -
  let ?S = "http_scanner ps0"
  obtain p where p: "execute ?S (HttpRequestParser ?S) (bytes (rq_dump rq)) = (length (rq_head rq) + 2, bytes (rq_body rq), p)"
    "complete ?S p" "rp_data p = scanned rq" using execute_printed [OF assms(1), of ps0] assms(5) by auto
  have len: "0 < length (rq_dump rq)" "length (rq_body rq) < 100" using assms(5) by (simp_all add: rq_dump_head CRLF_def)
  have fin: "\<not> rp_thrown p" "\<not> hasError ?S p" "isFinished ?S p \<noteq> 0"
    using p(2) by (auto simp: complete_def isFinished_def hasError_def)
  have "head_loop 100 read (execute ?S) (\<lambda>p. rp_thrown p \<or> hasError ?S p) (\<lambda>p. isFinished ?S p \<noteq> 0) (HttpRequestParser ?S) [] k
      = Some (Some (p, bytes (rq_body rq)), k')"
    using p(1) fin len assms(8) by (subst head_loop.simps) simp
  then have "recvRequest ?S cast alloc read shut k = Some (Inr (Some (received rq), k'))"
    using recv_body_printed [OF assms(2-4,6), of alloc read shut k'] assms(7) len(2) p(3) by (simp add: recvRequest_def)
  then show ?thesis using received_fields [OF assms(2-4)] by blast
qed

definition sample_request :: HttpRequest where
  "sample_request = (new_HttpRequest 0x11 False)\<lparr>rq_method := POST, rq_path := ''/a/b'', rq_query := ''x=1'', rq_headers := [(''Host'', ''h'')], rq_body := ''hi''\<rparr>"

theorem request_survives_session_witness:
  "\<exists>rq'. recvRequest (http_scanner (blank_parser False)) (\<lambda>t. Some (word_of_nat (num_value 10 t))) (\<lambda>_. True) bulk_recv id (bytes (rq_dump sample_request))
      = Some (Inr (Some rq', [])) \<and> rq_path rq' = ''/a/b'' \<and> rq_query rq' = ''x=1'' \<and> rq_body rq' = ''hi''"
proof -
  let ?cast = "\<lambda>t. Some (word_of_nat (num_value 10 t)) :: u64 option"
  have "printable sample_request" "map_ok CaseInsensitiveLess (rq_headers sample_request)" "\<not> rq_websocket sample_request"
    "rq_hasHeader ''content-length'' sample_request = None" "length (rq_dump sample_request) \<le> 100" by code_simp+
  moreover have "reads_decimals ?cast" by (simp add: reads_decimals_def num_value_string)
  moreover have "bulk_recv 100 (bytes (rq_dump sample_request)) = (int (length (rq_dump sample_request)), bytes (rq_dump sample_request), [])"
    using calculation(5) by (simp add: bulk_recv_def)
  moreover have "rq_path sample_request = ''/a/b''" "rq_query sample_request = ''x=1''" "rq_body sample_request = ''hi''"
    by (simp_all add: sample_request_def)
  ultimately show ?thesis
    using request_survives_session [of sample_request ?cast "\<lambda>_. True" bulk_recv "bytes (rq_dump sample_request)" "[]" "blank_parser False" id] by auto
qed

section \<open>Requests in pieces\<close>

lemma execute_run:
  assumes "data \<noteq> []" "length data < 2 ^ 64" "hp_body_start (rp_parser rp) = 0" "\<not> http_parser_has_error (rp_parser rp)"
    and "hrun (hp_uri_relaxed (rp_parser rp)) data (hp_cs (rp_parser rp)) 0 data
           ((rp_parser rp)\<lparr>hp_nread := 0, hp_mark := 0, hp_field_len := 0, hp_field_start := 0\<rparr>, []) = (p, cs, ps1, evs)"
  shows "execute (http_scanner ps0) rp data = (p, drop p data, fold deliver evs (rp\<lparr>rp_parser := ps1\<lparr>hp_cs := cs, hp_nread := p\<rparr>\<rparr>))"
proof -
  obtain q ps2 evs' where x: "http_parser_execute (rp_parser rp) data = Some (q, ps2, evs')"
    using http_execute_some [OF assms(2-4)] by blast
  have "\<not> http_parser_has_error ps1" using http_exec_cs [OF assms(5)] assms(4) by (simp add: http_parser_has_error_def)
  then have "(q, ps2, evs') = (p, ps1\<lparr>hp_cs := cs, hp_nread := p\<rparr>, evs)"
    using x assms(1,5) by (auto simp: http_parser_execute_def Let_def split: if_splits)
  then show ?thesis using x by (simp add: execute_def http_scanner_def)
qed

lemma path_start:
  assumes "path_rest w" "w \<noteq> []"
  shows "hrun r buf 3 p (47 # w @ rest) (ps, evs) = hrun r buf 26 (p + length (47 # w)) rest (ps\<lparr>hp_mark := p\<rparr>, evs)"
proof -
  obtain b v where w: "w = b # v" using assms(2) by (cases w) auto
  then have b: "sint b = 37 \<or> path_char (sint b) \<and> sint b \<noteq> 47" using assms(1) by (auto simp: path_rest_def split: if_splits)
  have "hrun r buf 3 p (47 # w @ rest) (ps, evs) = hrun r buf 33 (Suc p) (w @ rest) (ps\<lparr>hp_mark := p\<rparr>, evs)"
    by (simp add: path_states http_blocks)
  also have "\<dots> = hrun r buf 26 (Suc p) (w @ rest) (ps\<lparr>hp_mark := p\<rparr>, evs)"
    using b w by (auto simp: first_path_state path_states)
  also have "\<dots> = hrun r buf 26 (Suc p + length w) rest (ps\<lparr>hp_mark := p\<rparr>, evs)"
    using assms(1) by (intro path_pct.exec_pct) (simp add: path_rest_def)
  finally show ?thesis by simp
qed

abbreviation cut_line :: "HttpMethod \<Rightarrow> u8 list \<Rightarrow> u8 list" where
  "cut_line m w \<equiv> bytes (HttpMethodToString m) @ 32 # 47 # w"

text \<open>The machine on a method and the part of the target behind the first slash.\<close>

lemma cut_line_run:
  assumes "m \<notin> {INVALID_METHOD, MSEARCH}" "length (cut_line m w) < 2 ^ 64"
  shows "\<exists>ps' es. hrun r (cut_line m w) 1 0 (cut_line m w) (ps, [])
      = hrun r (cut_line m w) 3 (length (HttpMethodToString m) + 1) (47 # w) (ps', es)
    \<and> (\<forall>rp :: http_parser request_parser. \<not> rp_thrown rp \<longrightarrow> fold deliver es rp = rp\<lparr>rp_data := (rp_data rp)\<lparr>rq_method := m\<rparr>\<rparr>)"
proof -
  let ?m = "bytes (HttpMethodToString m)"
  have "CharsToHttpMethod (chars ?m @ rest) = m" for rest
    using assms(1) http_methods_recognised [of m rest] by simp
  then have "reads r [] 1 (?m @ [32]) 3 (\<lambda>x. x\<lparr>rq_method := m\<rparr>)"
    using assms(1) method_text [of m] by (intro reads_method) auto
  from this [unfolded reads_def, rule_format, of "47 # w" ps "[]"] show ?thesis
    using assms(2) by (auto simp del: ragel_exec.simps)
qed

lemma fresh_parser:
  "hp_body_start (rp_parser (HttpRequestParser (http_scanner ps0))) = 0" "hp_cs (rp_parser (HttpRequestParser (http_scanner ps0))) = 1"
  "\<not> http_parser_has_error (rp_parser (HttpRequestParser (http_scanner ps0)))" "\<not> rp_thrown (HttpRequestParser (http_scanner ps0))"
  "rp_error (HttpRequestParser (http_scanner ps0)) = 0"
  by (simp_all add: HttpRequestParser_def http_scanner_def http_parser_init_def http_parser_start_def http_parser_has_error_def http_parser_error_def)

lemma fold_deliver_parser:
  "rp_parser (fold deliver evs rp) = rp_parser rp"
proof (induction evs arbitrary: rp)
  case (Cons e evs)
  have "rp_parser (deliver e rp) = rp_parser rp"
    by (cases e) (auto simp: deliver_def with_text_def on_request_method_def on_request_fragment_def on_request_path_def on_request_query_def
      on_request_version_def on_request_http_field_def setError_def Let_def)
  then show ?case using Cons by simp
qed simp

text \<open>A call that neither finished nor failed leaves a parser that can go on.\<close>

lemma execute_live:
  assumes "execute (http_scanner ps0) rp data = (n, rest, p1)" "length data < 2 ^ 64" "hp_body_start (rp_parser rp) = 0"
    and "\<not> http_parser_has_error (rp_parser rp)" "hp_cs (rp_parser p1) < 348"
  shows "hp_body_start (rp_parser p1) = 0"
proof -
  obtain q ps evs where x: "http_parser_execute (rp_parser rp) data = Some (q, ps, evs)" "http_live ps"
    using http_execute_some [OF assms(2-4)] by blast
  then have "rp_parser p1 = ps" using assms(1) by (auto simp: execute_def http_scanner_def fold_deliver_parser)
  then show ?thesis using x(2) assms(5) by (simp add: http_live_def http_parser_is_finished_def http_parser_first_final_def)
qed

lemma rest_of_head:
  assumes "v \<in> {0x10, 0x11}" "list_all line_ok hs"
  shows "reads r pre 4 (bytes (''HTTP/'' @ version_text v @ CRLF @ concat (map header_line hs))) 13
    (\<lambda>x. fold (\<lambda>(k, v). rq_setHeader k v) hs (x\<lparr>rq_version := v\<rparr>))"
proof -
  obtain d where d: "bytes (''HTTP/'' @ version_text v @ CRLF) = [72, 84, 84, 80, 47, 49, 46, d, 13, 10]" "d = 48 \<and> v = 0x10 \<or> d = 49 \<and> v = 0x11"
    using version_bytes [OF assms(1)] by (elim exE conjE)
  have "bytes (''HTTP/'' @ version_text v @ CRLF @ concat (map header_line hs))
      = [72, 84, 84, 80, 47, 49, 46, d, 13, 10] @ bytes (concat (map header_line hs))" using d(1) by simp
  then show ?thesis using reads_trans [OF reads_version [OF d(2)] reads_lines [OF assms(2)], of r pre] by (simp only:)
qed

text \<open>A first call that takes its whole buffer and stops in a state in the middle of a head.\<close>

lemma first_piece:
  fixes ps0
  defines "rp \<equiv> HttpRequestParser (http_scanner ps0)"
  assumes "hrun (hp_uri_relaxed (rp_parser rp)) d 1 0 d ((rp_parser rp)\<lparr>hp_nread := 0, hp_mark := 0, hp_field_len := 0, hp_field_start := 0\<rparr>, []) = (length d, q, ps1, es)"
    and "\<forall>rp :: http_parser request_parser. \<not> rp_thrown rp \<longrightarrow> fold deliver es rp = rp\<lparr>rp_data := f (rp_data rp)\<rparr>"
    and "d \<noteq> []" "length d < 2 ^ 64" "0 < q" "q < 348"
  shows "\<exists>p1. execute (http_scanner ps0) rp d = (length d, [], p1) \<and> rp_parser p1 = ps1\<lparr>hp_cs := q, hp_nread := length d\<rparr>
    \<and> hp_body_start (rp_parser p1) = 0 \<and> \<not> http_parser_has_error (rp_parser p1) \<and> \<not> rp_thrown p1 \<and> rp_error p1 = 0"
proof -
  let ?p1 = "rp\<lparr>rp_parser := ps1\<lparr>hp_cs := q, hp_nread := length d\<rparr>, rp_data := f (rp_data rp)\<rparr>"
  note fresh = fresh_parser [of ps0, folded rp_def]
  have e: "execute (http_scanner ps0) rp d = (length d, [], ?p1)"
    using execute_run [of d rp "length d" q ps1 es ps0] assms(2-5) fresh by simp
  moreover have "hp_body_start (rp_parser ?p1) = 0" using execute_live [OF e assms(5)] fresh assms(7) by simp
  ultimately show ?thesis using fresh assms(6)
    by (intro exI [of _ ?p1]) (simp add: http_parser_has_error_def http_parser_error_def)
qed

lemma cut_path_run:
  assumes "m \<notin> {INVALID_METHOD, MSEARCH}" "path_rest w" "w \<noteq> []" "length (cut_line m w) < 2 ^ 64"
  shows "\<exists>ps' es. hrun r (cut_line m w) 1 0 (cut_line m w) (ps, []) = (length (cut_line m w), 26, ps', es)
    \<and> (\<forall>rp :: http_parser request_parser. \<not> rp_thrown rp \<longrightarrow> fold deliver es rp = rp\<lparr>rp_data := (rp_data rp)\<lparr>rq_method := m\<rparr>\<rparr>)"
proof -
  obtain ps1 es where c: "hrun r (cut_line m w) 1 0 (cut_line m w) (ps, [])
      = hrun r (cut_line m w) 3 (length (HttpMethodToString m) + 1) (47 # w @ []) (ps1, es)"
    "\<forall>rp :: http_parser request_parser. \<not> rp_thrown rp \<longrightarrow> fold deliver es rp = rp\<lparr>rp_data := (rp_data rp)\<lparr>rq_method := m\<rparr>\<rparr>"
    using cut_line_run [OF assms(1,4), of r ps] by (auto simp del: ragel_exec.simps)
  then show ?thesis unfolding c(1) path_start [OF assms(2,3)] by auto
qed

lemma cut_query_run:
  assumes "m \<notin> {INVALID_METHOD, MSEARCH}" "path_rest w" "u \<noteq> []" "pct_text query_char (map sint u)" "length (cut_line m (w @ 63 # u)) < 2 ^ 64"
  shows "\<exists>ps' es. hrun r (cut_line m (w @ 63 # u)) 1 0 (cut_line m (w @ 63 # u)) (ps, []) = (length (cut_line m (w @ 63 # u)), 30, ps', es)
    \<and> hp_query_start ps' = length (cut_line m w) + 1
    \<and> (\<forall>rp :: http_parser request_parser. \<not> rp_thrown rp \<longrightarrow> fold deliver es rp = rp\<lparr>rp_data := (rp_data rp)\<lparr>rq_method := m, rq_path := chars (47 # w)\<rparr>\<rparr>)"
proof -
  let ?d = "cut_line m (w @ 63 # u)" and ?p = "length (HttpMethodToString m) + 1"
  obtain ps1 es where c: "hrun r ?d 1 0 ?d (ps, []) = hrun r ?d 3 ?p (47 # (w @ 63 # u)) (ps1, es)"
    "\<forall>rp :: http_parser request_parser. \<not> rp_thrown rp \<longrightarrow> fold deliver es rp = rp\<lparr>rp_data := (rp_data rp)\<lparr>rq_method := m\<rparr>\<rparr>"
    using cut_line_run [OF assms(1,5), of r ps] by blast
  let ?ps = "ps1\<lparr>hp_mark := ?p\<rparr>" and ?ev = "request_path (chars ((47 # w) @ 63 # u)) (length (47 # w))"
  have "hrun r ?d 3 ?p (47 # (w @ 63 # u)) (ps1, es) = hrun r ?d 26 (?p + length (47 # w)) (63 # u) (?ps, es)"
    by (rule path_run [OF assms(2)]) simp
  also have "\<dots> = hrun r ?d 29 (Suc (?p + length (47 # w))) (u @ []) (?ps, es @ [?ev])"
    using LEN_at [of "bytes (HttpMethodToString m) @ [32]" "47 # w"] PTR_TO_at [of "bytes (HttpMethodToString m) @ [32]" "(47 # w) @ 63 # u"] assms(5)
    by (simp add: path_states http_blocks)
  also have "\<dots> = (length ?d, 30, ?ps\<lparr>hp_query_start := Suc (?p + length (47 # w))\<rparr>, es @ [?ev])"
    unfolding query_run [OF assms(3,4)] by simp
  finally show ?thesis unfolding c(1) using c(2) by (auto simp: deliver_simps with_text_def)
qed

text \<open>A path cut in two. When the first read ends inside the path, the request that the parser builds from the
  rest has only the part of the path that was in the second buffer, and parsing succeeds.\<close>

theorem split_path_loses_start:
  assumes "m \<notin> {INVALID_METHOD, MSEARCH}" "path_rest w1" "w1 \<noteq> []" "pct_text path_char (map sint w2)" "v \<in> {0x10, 0x11}" "list_all line_ok hs"
    and "d1 = cut_line m w1" "d2 = w2 @ 32 # bytes (''HTTP/'' @ version_text v @ CRLF @ concat (map header_line hs)) @ [13, 10]"
    and "length d1 < 2 ^ 64" "length d2 < 2 ^ 64"
  shows "\<exists>p1 p2. execute (http_scanner ps0) (HttpRequestParser (http_scanner ps0)) d1 = (length d1, [], p1)
    \<and> execute (http_scanner ps0) p1 d2 = (length d2, [], p2) \<and> complete (http_scanner ps0) p2 \<and> rq_path (rp_data p2) = chars w2"
proof -
  let ?S = "http_scanner ps0" and ?rp = "HttpRequestParser (http_scanner ps0)"
  let ?clear = "\<lambda>ps. ps\<lparr>hp_nread := 0, hp_mark := 0, hp_field_len := 0, hp_field_start := 0\<rparr>"
  obtain p1 where e1: "execute ?S ?rp d1 = (length d1, [], p1)" and p1: "hp_cs (rp_parser p1) = 26"
    "hp_body_start (rp_parser p1) = 0" "\<not> http_parser_has_error (rp_parser p1)" "\<not> rp_thrown p1" "rp_error p1 = 0"
  proof -
    obtain ps1 es where "hrun (hp_uri_relaxed (rp_parser ?rp)) d1 1 0 d1 (?clear (rp_parser ?rp), []) = (length d1, 26, ps1, es)"
      "\<forall>rp :: http_parser request_parser. \<not> rp_thrown rp \<longrightarrow> fold deliver es rp = rp\<lparr>rp_data := (rp_data rp)\<lparr>rq_method := m\<rparr>\<rparr>"
      using cut_path_run [OF assms(1-3)] assms(7,9) by blast
    from first_piece [OF this] assms(7,9) that show thesis by auto
  qed
  let ?r = "hp_uri_relaxed (rp_parser p1)" and ?ps = "?clear (rp_parser p1)"
  define V where "V = bytes (''HTTP/'' @ version_text v @ CRLF @ concat (map header_line hs))"
  have d2: "d2 = w2 @ 32 # V @ [13, 10]" unfolding V_def by (rule assms(8))
  let ?ev = "[request_path (chars d2) (length w2), request_uri (chars d2) (length w2)]"
  have "hrun ?r d2 26 0 d2 (?ps, []) = hrun ?r d2 26 (0 + length w2) (32 # V @ [13, 10]) (?ps, [])"
    unfolding d2 by (rule path_pct.exec_pct [OF assms(4)])
  also have "\<dots> = hrun ?r d2 4 (length (w2 @ [32])) (V @ [13, 10]) (?ps, ?ev)"
    using LEN_at [of "[]" w2] PTR_TO_at [of "[]" d2] d2 assms(10) by (simp add: path_states http_blocks)
  finally have a: "hrun ?r d2 26 0 d2 (?ps, []) = hrun ?r d2 4 (length (w2 @ [32])) (V @ [13, 10]) (?ps, ?ev)" .
  have whole: "(w2 @ [32]) @ V @ [13, 10] = d2" using d2 by simp
  obtain ps2 es2 where b: "hrun ?r d2 4 (length (w2 @ [32])) (V @ [13, 10]) (?ps, ?ev)
      = hrun ?r d2 13 (length (w2 @ [32]) + length V) [13, 10] (ps2, ?ev @ es2)"
    "\<forall>rp :: http_parser request_parser. \<not> rp_thrown rp \<longrightarrow> fold deliver es2 rp = rp\<lparr>rp_data := fold (\<lambda>(k, v). rq_setHeader k v) hs ((rp_data rp)\<lparr>rq_version := v\<rparr>)\<rparr>"
    using rest_of_head [OF assms(5,6), of ?r "w2 @ [32]", unfolded reads_def, rule_format, of "[13, 10]" ?ps ?ev] assms(10)
    unfolding V_def [symmetric] whole by blast
  obtain ps3 e where c: "hrun ?r d2 13 (length (w2 @ [32]) + length V) [13, 10] (ps2, ?ev @ es2) = (length d2, 348, ps3, (?ev @ es2) @ e)"
    "\<forall>rp :: http_parser request_parser. fold deliver e rp = rp"
    using head_end [of ?r d2 "length (w2 @ [32]) + length V" "[]" ps2 "?ev @ es2"] d2 by auto
  let ?p2 = "fold deliver ((?ev @ es2) @ e) (p1\<lparr>rp_parser := ps3\<lparr>hp_cs := 348, hp_nread := length d2\<rparr>\<rparr>)"
  have "execute ?S p1 d2 = (length d2, drop (length d2) d2, ?p2)"
    using a b(1) c(1) p1 d2 assms(10) by (intro execute_run) (simp_all del: ragel_exec.simps)
  moreover have data: "?p2 = p1\<lparr>rp_parser := ps3\<lparr>hp_cs := 348, hp_nread := length d2\<rparr>,
      rp_data := fold (\<lambda>(k, v). rq_setHeader k v) hs ((rp_data p1)\<lparr>rq_path := chars w2, rq_version := v\<rparr>)\<rparr>"
    using b(2) c(2) p1(4) d2 by (simp add: deliver_simps with_text_def)
  moreover have "complete ?S ?p2" unfolding data using p1(4,5)
    by (simp add: complete_def hasError_def http_scanner_def http_parser_has_error_def http_parser_is_finished_def
        http_parser_error_def http_parser_first_final_def)
  moreover have "rq_path (rp_data ?p2) = chars w2" unfolding data by (simp add: fold_setHeader)
  ultimately show ?thesis using e1 by auto
qed

theorem split_path_loses_start_witness:
  "\<exists>p1 p2. execute (http_scanner (blank_parser False)) (HttpRequestParser (http_scanner (blank_parser False))) (bytes ''GET /in'') = (7, [], p1)
    \<and> execute (http_scanner (blank_parser False)) p1 (bytes (''dex HTTP/1.1'' @ CRLF @ CRLF)) = (16, [], p2) \<and> rq_path (rp_data p2) = ''dex''"
proof -
  let ?d1 = "cut_line GET (bytes ''in'')" and ?d2 = "bytes ''dex'' @ 32 # bytes (''HTTP/'' @ version_text 0x11 @ CRLF @ concat (map header_line [])) @ [13, 10]"
  have d: "?d1 = bytes ''GET /in''" "?d2 = bytes (''dex HTTP/1.1'' @ CRLF @ CRLF)" "length ?d1 = 7" "length ?d2 = 16" by code_simp+
  have "path_rest (bytes ''in'')" "pct_text path_char (map sint (bytes ''dex''))" by code_simp+
  then show ?thesis
    using split_path_loses_start [of GET "bytes ''in''" "bytes ''dex''" "0x11" "[]" ?d1 ?d2 "blank_parser False"] unfolding d(3,4) unfolding d(1,2) by auto
qed

text \<open>Events are only added to the list.\<close>

lemma http_exec_appends:
  assumes "ragel_exec cases trs (http_act buf) lost cs p bs (ps, evs) = (p', cs', ps', evs')"
  shows "\<exists>es. evs' = evs @ es"
proof -
  have "\<exists>es. snd (http_act buf a q t) = snd t @ es" for a q t by (cases t; cases a) auto
  then have "\<exists>es. snd (ps', evs') = evs @ es"
    by (intro ragel_exec_invariant [where inv' = "\<lambda>q t. \<exists>es. snd t = evs @ es", OF _ _ _ refl assms]) (auto, metis append.assoc)
  then show ?thesis by simp
qed

lemma deliver_thrown: "rp_thrown rp \<Longrightarrow> fold deliver evs rp = rp"
  by (induction evs) (simp_all add: deliver_def)

lemma LEN_negative:
  assumes "p < at" "at < 2 ^ 64"
  shows "LEN at p = 2 ^ 64 - (at - p)"
proof -
  have u: "uint (word_of_nat n :: u64) = int n" if "n < 2 ^ 64" for n
    using that by (simp add: unsigned_of_nat take_bit_nat_eq_self)
  have "LEN at p = nat ((int p - int at) mod 2 ^ 64)"
    using u [of p] u [of at] assms by (simp add: LEN_def unat_eq_nat_uint uint_word_ariths)
  also have "(int p - int at) mod 2 ^ 64 = (int p - int at + 2 ^ 64) mod 2 ^ 64" by (rule mod_add_self2 [symmetric])
  also have "\<dots> = int p - int at + 2 ^ 64" using assms by (intro mod_pos_pos_trivial) auto
  finally show ?thesis using assms by simp
qed

text \<open>A query cut in two. http_parser_execute does not reset the start of the query. When a read ends inside the
  query, and the next buffer holds less of it than the position at which it began, the length that the
  callback gets is a negative number as a size_t, and std::string throws. What follows the query does
  not matter.\<close>

theorem split_query_throws:
  assumes "m \<notin> {INVALID_METHOD, MSEARCH}" "path_rest w" "u1 \<noteq> []" "pct_text query_char (map sint u1)" "pct_text query_char (map sint u2)"
    and "length u2 \<le> length (cut_line m w)" "d1 = cut_line m (w @ 63 # u1)" "d2 = u2 @ 32 # rest" "length d1 < 2 ^ 63" "length d2 < 2 ^ 63"
  shows "\<exists>p1 n r2 p2. execute (http_scanner ps0) (HttpRequestParser (http_scanner ps0)) d1 = (length d1, [], p1) \<and> \<not> rp_thrown p1
    \<and> execute (http_scanner ps0) p1 d2 = (n, r2, p2) \<and> rp_thrown p2"
proof -
  let ?S = "http_scanner ps0" and ?rp = "HttpRequestParser (http_scanner ps0)" and ?qs = "length (cut_line m w) + 1"
  let ?clear = "\<lambda>ps. ps\<lparr>hp_nread := 0, hp_mark := 0, hp_field_len := 0, hp_field_start := 0\<rparr>"
  have len: "length d1 < 2 ^ 64" "length d2 < 2 ^ 64" using assms(9,10) by simp_all
  obtain ps1 es where run1: "hrun (hp_uri_relaxed (rp_parser ?rp)) d1 1 0 d1 (?clear (rp_parser ?rp), []) = (length d1, 30, ps1, es)"
    "hp_query_start ps1 = ?qs"
    "\<forall>rp :: http_parser request_parser. \<not> rp_thrown rp \<longrightarrow> fold deliver es rp = rp\<lparr>rp_data := (rp_data rp)\<lparr>rq_method := m, rq_path := chars (47 # w)\<rparr>\<rparr>"
    using cut_query_run [OF assms(1-4)] len(1) unfolding assms(7) by blast
  obtain p1 where e1: "execute ?S ?rp d1 = (length d1, [], p1)" and p1: "hp_cs (rp_parser p1) = 30" "hp_query_start (rp_parser p1) = ?qs"
    "hp_body_start (rp_parser p1) = 0" "\<not> http_parser_has_error (rp_parser p1)" "\<not> rp_thrown p1"
    using first_piece [OF run1(1,3)] run1(2) assms(7) len(1) by auto
  let ?r = "hp_uri_relaxed (rp_parser p1)" and ?ps = "?clear (rp_parser p1)"
  let ?ev = "[query_string (PTR_TO d2 ?qs) (LEN ?qs (length u2)), request_uri (PTR_TO d2 0) (LEN 0 (length u2))]"
  have "hrun ?r d2 30 0 d2 (?ps, []) = hrun ?r d2 30 (0 + length u2) (32 # rest) (?ps, [])"
    unfolding assms(8) by (rule query_pct.exec_pct [OF assms(5)])
  also have "\<dots> = hrun ?r d2 4 (Suc (length u2)) rest (?ps, ?ev)" using p1(2) by (simp add: query_states http_blocks)
  finally have a: "hrun ?r d2 30 0 d2 (?ps, []) = hrun ?r d2 4 (Suc (length u2)) rest (?ps, ?ev)" .
  obtain p cs ps2 evs where b: "hrun ?r d2 4 (Suc (length u2)) rest (?ps, ?ev) = (p, cs, ps2, evs)" by (metis prod_cases4)
  then obtain es2 where evs: "evs = ?ev @ es2" using http_exec_appends by blast
  let ?p = "p1\<lparr>rp_parser := ps2\<lparr>hp_cs := cs, hp_nread := p\<rparr>\<rparr>"
  have "execute ?S p1 d2 = (p, drop p d2, fold deliver evs ?p)"
    using a b p1 assms(8) len(2) by (intro execute_run) (simp_all del: ragel_exec.simps)
  moreover have "rp_thrown (fold deliver evs ?p)"
  proof -
    have "LEN ?qs (length u2) = 2 ^ 64 - (?qs - length u2)" using assms(6,7,9) by (intro LEN_negative) auto
    then have "length (PTR_TO d2 ?qs) < LEN ?qs (length u2)" using assms(6,7,9,10) by (simp add: PTR_TO_def)
    then have "rp_thrown (deliver (hd ?ev) ?p)" using p1(5) by (simp add: deliver_simps with_text_def)
    from deliver_thrown [OF this, of "tl ?ev @ es2"] this show ?thesis by (simp add: evs)
  qed
  ultimately show ?thesis using e1 p1(5) by blast
qed

theorem split_query_throws_witness:
  "\<exists>p1 n r2 p2. execute (http_scanner (blank_parser False)) (HttpRequestParser (http_scanner (blank_parser False))) (bytes ''GET /a?x'') = (8, [], p1)
    \<and> execute (http_scanner (blank_parser False)) p1 (bytes ''=1 HTTP/1.1'') = (n, r2, p2) \<and> rp_thrown p2"
proof -
  let ?d1 = "cut_line GET (bytes ''a'' @ 63 # bytes ''x'')" and ?d2 = "bytes ''=1'' @ 32 # bytes ''HTTP/1.1''"
  have d: "?d1 = bytes ''GET /a?x''" "?d2 = bytes ''=1 HTTP/1.1''" "length ?d1 = 8" "length ?d2 = 11" "length (cut_line GET (bytes ''a'')) = 6" by code_simp+
  have "path_rest (bytes ''a'')" "pct_text query_char (map sint (bytes ''x''))" "pct_text query_char (map sint (bytes ''=1''))" by code_simp+
  then show ?thesis
    using split_query_throws [of GET "bytes ''a''" "bytes ''x''" "bytes ''=1''" ?d1 ?d2 "bytes ''HTTP/1.1''" "blank_parser False"] unfolding d(3-5) unfolding d(1,2) by auto
qed

end
