(* ===== verification/HttpResponseText.thy ===== *)
theory HttpResponseText
  imports ClientStates HttpRequestText
begin

text \<open>
  Responses read back: the response scanner on the text that HttpResponse::dump prints, a whole response through
  a connection, the heads after which the scanner aborts, and chunk sizes that do not fit an int.
\<close>

section \<open>Parts of a response\<close>

text \<open>
  \<open>rreads pre Q w Q' f\<close>: behind the bytes \<open>pre\<close> the bytes \<open>w\<close> take the machine from a state of \<open>Q\<close> to one of \<open>Q'\<close>, the callbacks
  they cause change the response by \<open>f\<close>, and the flag of chunked bodies stays as it is.
\<close>

definition rreads :: "u8 list \<Rightarrow> int set \<Rightarrow> u8 list \<Rightarrow> int set \<Rightarrow> (HttpResponse \<Rightarrow> HttpResponse) \<Rightarrow> bool" where
  "rreads pre Q w Q' f \<longleftrightarrow>
     (\<forall>q \<in> Q. \<forall>rest ps evs. length (pre @ w @ rest) < 2 ^ 64 \<longrightarrow>
       (\<exists>q' \<in> Q'. \<exists>ps' es. crun (pre @ w @ rest) q (length pre) (w @ rest) (ps, evs)
           = crun (pre @ w @ rest) q' (length pre + length w) rest (ps', evs @ es)
         \<and> cp_chunked ps' = cp_chunked ps
         \<and> (\<forall>rp :: httpclient_parser response_parser. fold on_response_event es rp = rp\<lparr>sp_data := f (sp_data rp)\<rparr>)))"

lemma rreadsD:
  assumes "rreads pre Q w Q' f" "q \<in> Q" "length (pre @ w @ rest) < 2 ^ 64"
  obtains q' ps' es where "q' \<in> Q'" "crun (pre @ w @ rest) q (length pre) (w @ rest) (ps, evs)
      = crun (pre @ w @ rest) q' (length pre + length w) rest (ps', evs @ es)"
    "cp_chunked ps' = cp_chunked ps"
    "\<forall>rp :: httpclient_parser response_parser. fold on_response_event es rp = rp\<lparr>sp_data := f (sp_data rp)\<rparr>"
  using assms unfolding rreads_def by metis

lemma rreads_trans:
  assumes "rreads pre Q w Q1 f" "rreads (pre @ w) Q1 v Q2 g"
  shows "rreads pre Q (w @ v) Q2 (\<lambda>rs. g (f rs))"
  unfolding rreads_def
proof (intro ballI allI impI)
  fix q rest ps evs
  assume q: "q \<in> Q" and len: "length (pre @ (w @ v) @ rest) < 2 ^ 64"
  have len1: "length (pre @ w @ v @ rest) < 2 ^ 64" and len2: "length ((pre @ w) @ v @ rest) < 2 ^ 64" using len by simp_all
  obtain q1 ps1 es1 where a: "q1 \<in> Q1" "crun (pre @ w @ v @ rest) q (length pre) (w @ v @ rest) (ps, evs)
      = crun (pre @ w @ v @ rest) q1 (length pre + length w) (v @ rest) (ps1, evs @ es1)" "cp_chunked ps1 = cp_chunked ps"
    "\<forall>rp :: httpclient_parser response_parser. fold on_response_event es1 rp = rp\<lparr>sp_data := f (sp_data rp)\<rparr>"
    using rreadsD [OF assms(1) q len1] by metis
  obtain q2 ps2 es2 where b: "q2 \<in> Q2" "crun ((pre @ w) @ v @ rest) q1 (length (pre @ w)) (v @ rest) (ps1, evs @ es1)
      = crun ((pre @ w) @ v @ rest) q2 (length (pre @ w) + length v) rest (ps2, (evs @ es1) @ es2)" "cp_chunked ps2 = cp_chunked ps1"
    "\<forall>rp :: httpclient_parser response_parser. fold on_response_event es2 rp = rp\<lparr>sp_data := g (sp_data rp)\<rparr>"
    using rreadsD [OF assms(2) a(1) len2] by metis
  show "\<exists>q' \<in> Q2. \<exists>ps' es. crun (pre @ (w @ v) @ rest) q (length pre) ((w @ v) @ rest) (ps, evs)
           = crun (pre @ (w @ v) @ rest) q' (length pre + length (w @ v)) rest (ps', evs @ es)
         \<and> cp_chunked ps' = cp_chunked ps
         \<and> (\<forall>rp :: httpclient_parser response_parser. fold on_response_event es rp = rp\<lparr>sp_data := g (f (sp_data rp))\<rparr>)"
    using a b by (intro bexI [of _ q2] exI [of _ ps2] exI [of _ "es1 @ es2"]) (simp_all add: add.assoc del: ragel_exec.simps)
qed

lemma rreads_mono: "rreads pre Q w Q' f \<Longrightarrow> Q' \<subseteq> Q'' \<Longrightarrow> rreads pre Q w Q'' f"
  unfolding rreads_def by (rule ballI, drule (1) bspec, intro allI impI, drule spec, drule spec, drule spec, drule (1) mp, erule bexE, rule bexI, assumption, erule (1) subsetD)

text \<open>A part that makes the callbacks \<open>E\<close>.\<close>

lemma rreadsI:
  assumes "\<And>q rest ps evs. q \<in> Q \<Longrightarrow> length (pre @ w @ rest) < 2 ^ 64 \<Longrightarrow>
      \<exists>q' \<in> Q'. \<exists>ps'. crun (pre @ w @ rest) q (length pre) (w @ rest) (ps, evs)
        = crun (pre @ w @ rest) q' (length pre + length w) rest (ps', evs @ E rest) \<and> cp_chunked ps' = cp_chunked ps"
    and "\<And>rest rp. fold on_response_event (E rest) (rp :: httpclient_parser response_parser) = rp\<lparr>sp_data := f (sp_data rp)\<rparr>"
  shows "rreads pre Q w Q' f"
  unfolding rreads_def using assms by meson

lemma rreads_version:
  assumes "d = 48 \<and> v = 0x10 \<or> d = 49 \<and> v = 0x11"
  shows "rreads pre {1} [72, 84, 84, 80, 47, 49, 46, d, 32] {16} (\<lambda>rs. rs\<lparr>rs_version := v\<rparr>)"
proof (rule rreadsI [where E = "\<lambda>rest. [rs_http_version (chars ([72, 84, 84, 80, 47, 49, 46, d] @ 32 # rest)) (length [72, 84, 84, 80, 47, 49, 46, d])]"], goal_cases)
  case (1 q rest ps evs)
  then show ?case using assms LEN_at [of pre "[72, 84, 84, 80, 47, 49, 46, d]"]
      PTR_TO_at [of pre "[72, 84, 84, 80, 47, 49, 46, d] @ 32 # rest"]
    by (intro bexI [of _ 16] exI [of _ "ps\<lparr>cp_mark := length pre\<rparr>"]) (auto simp: status_states client_blocks)
next
  case (2 rest rp)
  note version_match [OF assms(1), of "32 # rest"]
  then show ?case using assms by (auto simp: on_response_version_def)
qed

text \<open>The digits of a status code and what atoi makes of them.\<close>

lemma dec_digit:
  assumes "c \<in> set (dec_string n)"
  shows "48 \<le> sint (byte_of_char c) \<and> sint (byte_of_char c) \<le> 57" "(of_char c :: nat) \<in> {48..57}"
proof -
  have "c \<in> set (dec_string n) \<Longrightarrow> \<exists>d < 10. c = digit_char d"
  proof (induction "10 :: nat" n rule: num_string.induct)
    case (1 n)
    have "\<exists>d < 10. digit_char (n mod 10) = digit_char d" by (intro exI [of _ "n mod 10"]) simp
    then show ?case using 1 by (auto simp: num_string.simps [of 10 n] split: if_splits)
  qed
  then obtain d where "d < 10" "c = digit_char d" using assms by blast
  then have "(of_char c :: nat) = 48 + d" "d < 10" by (simp_all add: of_char_digit)
  then show "48 \<le> sint (byte_of_char c) \<and> sint (byte_of_char c) \<le> 57" "(of_char c :: nat) \<in> {48..57}"
    by (simp_all add: sint_byte_of_char)
qed

lemma atoi_dec: "atoi (dec_string n @ CHR '' '' # t) = int n"
proof -
  let ?s = "dec_string n"
  have d: "(of_char c :: nat) \<in> {48..57}" if "c \<in> set ?s" for c using dec_digit [OF that] by blast
  have "CHR 0x00 \<notin> set ?s" using d [of "CHR 0x00"] by auto
  then have c: "c_str (?s @ CHR '' '' # t) = ?s @ c_str (CHR '' '' # t)" by (rule c_str_append)
  obtain x xs where s: "?s = x # xs" by (cases ?s) simp_all
  have x: "(of_char x :: nat) \<in> {48..57}" using d [of x] s by simp
  then have "x \<noteq> CHR '' ''" "x \<noteq> CHR ''-''" "x \<noteq> CHR ''+''" "\<not> (of_char x :: nat) \<le> 13" by auto
  moreover have "takeWhile (\<lambda>c. 48 \<le> (of_char c :: nat) \<and> (of_char c :: nat) \<le> 57) (?s @ c_str (CHR '' '' # t)) = ?s"
    using d by (subst takeWhile_append2) (auto simp: c_str_def)
  moreover have "num_value 10 ?s = n" by (simp add: num_value_string)
  ultimately show ?thesis unfolding atoi_def c using s by (simp add: Let_def)
qed

lemma rreads_status:
  "rreads pre {16} (bytes (dec_string (unat s)) @ [32]) {18} (\<lambda>rs. rs\<lparr>rs_status := s\<rparr>)"
proof (rule rreadsI [where E = "\<lambda>rest. [status_code (chars (bytes (dec_string (unat s)) @ 32 # rest)) (length (dec_string (unat s)))]"], goal_cases)
  case (1 q rest ps evs)
  let ?w = "bytes (dec_string (unat s))" let ?buf = "pre @ (?w @ [32]) @ rest" and ?p = "length pre"
  obtain b v where w: "?w = b # v" by (cases "dec_string (unat s)") simp_all
  have d: "48 \<le> sint b \<and> sint b \<le> 57" if "b \<in> set ?w" for b using that dec_digit(1) by auto
  have "crun ?buf 16 ?p (?w @ 32 # rest) (ps, evs) = crun ?buf 17 (Suc ?p) (v @ 32 # rest) (ps\<lparr>cp_mark := ?p\<rparr>, evs)"
    using d [of b] w by (simp add: status_states client_blocks)
  also have "\<dots> = crun ?buf 17 (Suc ?p + length v) (32 # rest) (ps\<lparr>cp_mark := ?p\<rparr>, evs)"
    using d w by (intro exec_loop) (auto simp: status_states)
  also have "\<dots> = crun ?buf 18 (Suc (?p + length ?w)) rest
      (ps\<lparr>cp_mark := ?p, cp_status := int_of_long (strtol 10 (PTR_TO ?buf ?p))\<rparr>, evs @ [status_code (chars (?w @ 32 # rest)) (length ?w)])"
    using w LEN_at [of pre ?w] PTR_TO_at [of pre "?w @ 32 # rest"] 1(2) by (simp add: status_states client_blocks)
  finally show ?case using 1(1) by (intro bexI [of _ 18] exI) auto
next
  case (2 rest rp)
  have "char_of_byte 32 = CHR '' ''" by code_simp
  then have "chars (bytes (dec_string (unat s)) @ 32 # rest) = dec_string (unat s) @ CHR '' '' # chars rest" by simp
  then show ?case by (simp add: on_response_status_def atoi_dec)
qed

definition reason_ok :: "u8 list \<Rightarrow> bool" where
  "reason_ok w \<longleftrightarrow> w \<noteq> [] \<and> (\<forall>b \<in> set w. sint b \<noteq> 10 \<and> sint b \<noteq> 13)"

lemma rreads_reason:
  assumes "reason_ok w"
  shows "rreads pre {18} (w @ [13, 10]) {20} (\<lambda>rs. rs\<lparr>rs_reason := chars w\<rparr>)"
proof (rule rreadsI [where E = "\<lambda>rest. [reason_phrase (chars (w @ 13 # 10 # rest)) (length w)]"], goal_cases)
  case (1 q rest ps evs)
  let ?buf = "pre @ (w @ [13, 10]) @ rest" and ?p = "length pre"
  obtain b v where w: "w = b # v" using assms by (cases w) (auto simp: reason_ok_def)
  have "crun ?buf 18 ?p (w @ 13 # 10 # rest) (ps, evs) = crun ?buf 19 (Suc ?p) (v @ 13 # 10 # rest) (ps\<lparr>cp_mark := ?p\<rparr>, evs)"
    using assms w by (simp add: reason_ok_def status_states client_blocks)
  also have "\<dots> = crun ?buf 19 (Suc ?p + length v) (13 # 10 # rest) (ps\<lparr>cp_mark := ?p\<rparr>, evs)"
    using assms w by (intro exec_loop) (auto simp: reason_ok_def status_states)
  also have "\<dots> = crun ?buf 20 (Suc (Suc (?p + length w))) rest (ps\<lparr>cp_mark := ?p\<rparr>, evs @ [reason_phrase (chars (w @ 13 # 10 # rest)) (length w)])"
    using w LEN_at [of pre w] PTR_TO_at [of pre "w @ 13 # 10 # rest"] 1(2) by (simp add: status_states client_blocks)
  finally show ?case using 1(1) by (intro bexI [of _ 20] exI) auto
next
  case (2 rest rp)
  then show ?case by (simp add: on_response_reason_def)
qed

section \<open>Header lines\<close>

lemma token_lower:
  assumes "token_char (sint (byte_of_char c))"
  shows "lower (sint (byte_of_char c)) = tolower c" "c \<noteq> CHR 0x00"
proof -
  have small: "(of_char c :: nat) < 128"
  proof (rule ccontr)
    assume *: "\<not> (of_char c :: nat) < 128"
    then have "(of_char c :: nat) div 128 = 1" using nat_of_char_less_256 [of c] by (intro div_nat_eqI) simp_all
    then have "int (of_char c) div 128 = 1" by (metis of_nat_1 of_nat_numeral zdiv_int)
    moreover have "byte_of_char c = word_of_nat (of_char c)" by (simp add: byte_of_char_def of_char_def horner_sum_simps)
    ultimately have "sint (byte_of_char c) < 0" by (simp add: signed_of_nat signed_take_bit_eq_if_negative bit_iff_odd take_bit_nat_eq_self)
    then show False using assms by (simp add: token_char_def)
  qed
  then have s: "sint (byte_of_char c) = int (of_char c)" by (rule sint_byte_of_char)
  moreover have "int (of_char c) = of_char c" by (simp add: of_char_def horner_sum_simps)
  ultimately show "lower (sint (byte_of_char c)) = tolower c"
    by (simp add: lower_def tolower_def less_eq_char_def of_char_of)
  show "c \<noteq> CHR 0x00" using assms s by (auto simp: token_char_def)
qed

lemma name_fold_case:
  assumes "name_ok (bytes k)"
  shows "map (\<lambda>b. lower (sint b)) (bytes k) = fold_case k"
proof -
  have c: "token_char (sint (byte_of_char c))" if "c \<in> set k" for c using assms that by (simp add: name_ok_def)
  then have "CHR 0x00 \<notin> set k" using token_lower(2) by blast
  then have "c_str k = k" by (auto simp: c_str_def takeWhile_eq_all_conv)
  then show ?thesis using token_lower(1) c by (simp add: fold_case_def)
qed

definition response_line_ok :: "string \<times> string \<Rightarrow> bool" where
  "response_line_ok h \<longleftrightarrow> name_ok (bytes (fst h)) \<and> client_value_ok (bytes (snd h)) \<and> fold_case (fst h) \<noteq> fold_case ''transfer-encoding''"

lemma rreads_header:
  assumes "response_line_ok (k, v)"
  shows "rreads pre {20, 43} (bytes (header_line (k, v))) {20, 43} (rs_setHeader k v)"
proof -
  let ?k = "bytes k" and ?v = "bytes v"
  have w: "bytes (header_line (k, v)) = ?k @ 58 # 32 # ?v @ [13, 10]" by (simp add: header_line_def CRLF_def)
  have ok: "name_ok ?k" "client_value_ok ?v" using assms by (simp_all add: response_line_ok_def)
  have "fold_case ''transfer-encoding'' = transfer_encoding" by code_simp
  then have te: "map (\<lambda>b. lower (sint b)) ?k \<noteq> transfer_encoding" using name_fold_case [OF ok(1)] assms by (simp add: response_line_ok_def)
  show ?thesis unfolding w
  proof (rule rreadsI [where E = "\<lambda>rest. [rs_http_field (chars (?k @ 58 # 32 # ?v @ 13 # 10 # rest)) (length k) (chars (?v @ 13 # 10 # rest)) (length v)]"], goal_cases)
    case (1 q rest ps evs)
    let ?buf = "pre @ (?k @ 58 # 32 # ?v @ [13, 10]) @ rest" and ?p = "length pre"
    obtain q1 ps1 where n: "q1 \<in> {22, 35, 112}" "crun ?buf q ?p (?k @ 58 # 32 # ?v @ 13 # 10 # rest) (ps, evs)
        = crun ?buf q1 (?p + length ?k + 1) (32 # ?v @ 13 # 10 # rest) (ps1, evs)"
      "cp_field_start ps1 = ?p" "cp_field_len ps1 = LEN ?p (?p + length ?k)" "cp_chunked ps1 = cp_chunked ps"
      using client_name_run [OF 1(1) ok(1) te, of ?buf ?p "32 # ?v @ 13 # 10 # rest" ps evs] by (elim bexE exE conjE) (rule that)
    obtain q2 ps2 where v: "q2 \<in> {20, 43}" "crun ?buf q1 (?p + length ?k + 1) (32 # ?v @ 13 # 10 # rest) (ps1, evs)
        = crun ?buf q2 (?p + length ?k + 1 + length ?v + 3) rest (ps2, evs @ [rs_http_field (PTR_TO ?buf (cp_field_start ps1)) (cp_field_len ps1)
            (PTR_TO ?buf (Suc (?p + length ?k + 1))) (LEN (Suc (?p + length ?k + 1)) (Suc (?p + length ?k + 1) + length ?v))])"
      "cp_chunked ps2 = cp_chunked ps1"
      using client_value_run [OF n(1) ok(2), of ?buf "?p + length ?k + 1" rest ps1 evs] by (elim bexE exE conjE) (rule that)
    have at: "PTR_TO ?buf ?p = chars (?k @ 58 # 32 # ?v @ 13 # 10 # rest)" "LEN ?p (?p + length ?k) = length k"
      using PTR_TO_at [of pre "?k @ 58 # 32 # ?v @ 13 # 10 # rest"] LEN_at [of pre ?k] 1(2) by simp_all
    have at': "PTR_TO ?buf (Suc (?p + length ?k + 1)) = chars (?v @ 13 # 10 # rest)"
        "LEN (Suc (?p + length ?k + 1)) (Suc (?p + length ?k + 1) + length ?v) = length v"
      using PTR_TO_at [of "pre @ ?k @ [58, 32]" "?v @ 13 # 10 # rest"] LEN_at [of "pre @ ?k @ [58, 32]" ?v] 1(2) by simp_all
    have "crun ?buf q ?p ((?k @ 58 # 32 # ?v @ [13, 10]) @ rest) (ps, evs) = crun ?buf q2 (?p + length (?k @ 58 # 32 # ?v @ [13, 10])) rest
        (ps2, evs @ [rs_http_field (chars (?k @ 58 # 32 # ?v @ 13 # 10 # rest)) (length k) (chars (?v @ 13 # 10 # rest)) (length v)])"
      using n(2) v(2) unfolding n(3,4) at at' by (simp add: algebra_simps numeral_3_eq_3 del: ragel_exec.simps)
    then show ?case using v(1,3) n(5) by (intro bexI [of _ q2] exI [of _ ps2]) simp_all
  next
    case (2 rest rp)
    then show ?case using ok(1) by (simp add: name_ok_def on_response_http_field_def)
  qed
qed

lemma rreads_none: "rreads pre Q [] Q (\<lambda>rs. rs)"
proof (rule rreadsI [where E = "\<lambda>_. []"], goal_cases)
  case (1 q rest ps evs)
  then show ?case by (intro bexI [of _ q] exI [of _ ps]) (simp_all del: ragel_exec.simps)
qed simp

lemma rreads_lines:
  "list_all response_line_ok hs \<Longrightarrow> rreads pre {20, 43} (bytes (concat (map header_line hs))) {20, 43} (fold (\<lambda>(k, v). rs_setHeader k v) hs)"
proof (induction hs arbitrary: pre)
  case Nil
  show ?case using rreads_none [of pre "{20, 43}"] by (simp add: id_def)
next
  case (Cons h hs)
  obtain k v where h: "h = (k, v)" by (cases h)
  have "rreads pre {20, 43} (bytes (header_line (k, v))) {20, 43} (rs_setHeader k v)" using Cons.prems h by (intro rreads_header) simp
  from rreads_trans [OF this Cons.IH] Cons.prems show ?case by (simp add: h o_def)
qed

section \<open>Whole responses\<close>

definition printed_reason :: "HttpResponse \<Rightarrow> string" where
  "printed_reason rs = (if rs_reason rs = [] then HttpStatusToString (rs_status rs) else rs_reason rs)"

definition rs_printable :: "HttpResponse \<Rightarrow> bool" where
  "rs_printable rs \<longleftrightarrow> rs_version rs \<in> {0x10, 0x11} \<and> reason_ok (bytes (printed_reason rs)) \<and> list_all response_line_ok (rs_headers rs)
     \<and> list_all (\<lambda>c. client_value_ok (bytes c)) (rs_cookies rs)"

definition rs_head :: "HttpResponse \<Rightarrow> string" where
  "rs_head rs = ''HTTP/'' @ version_text (rs_version rs) @ '' '' @ dec_string (unat (rs_status rs)) @ '' '' @ printed_reason rs @ CRLF
     @ concat (map header_line (rs_lines rs))"

lemma rs_dump_head: "rs_dump rs = rs_head rs @ CRLF @ rs_body rs"
  by (simp add: rs_dump_def rs_head_def printed_reason_def)

lemma response_lines_ok:
  assumes "rs_printable rs"
  shows "list_all response_line_ok (rs_lines rs)"
proof -
  have "response_line_ok (''connection'', ''close'')" "response_line_ok (''connection'', ''keep-alive'')"
    "name_ok (bytes ''content-length'')" "fold_case ''content-length'' \<noteq> fold_case ''transfer-encoding''"
    "name_ok (bytes ''Set-Cookie'')" "fold_case ''Set-Cookie'' \<noteq> fold_case ''transfer-encoding''" by code_simp+
  moreover have "client_value_ok (bytes (dec_string n))" for n
  proof -
    have d: "48 \<le> sint b \<and> sint b \<le> 57" if "b \<in> set (bytes (dec_string n))" for b using that dec_digit(1) by auto
    have "hd (bytes (dec_string n)) \<in> set (bytes (dec_string n))" by (rule hd_in_set) simp
    from d [OF this] d show ?thesis by (fastforce simp: client_value_ok_def value_char_def)
  qed
  ultimately show ?thesis using assms
    by (auto simp: rs_lines_def rs_printable_def connection_header_def printed_headers_def length_header_def response_line_ok_def list_all_iff)
qed

definition rs_scanned :: "HttpResponse \<Rightarrow> HttpResponse" where
  "rs_scanned rs = fold (\<lambda>(k, v). rs_setHeader k v) (rs_lines rs)
     ((new_HttpResponse 0x11 True)\<lparr>rs_version := rs_version rs, rs_status := rs_status rs, rs_reason := printed_reason rs\<rparr>)"

lemma response_version_bytes:
  assumes "v \<in> {0x10, 0x11 :: u8}"
  shows "\<exists>d. bytes (''HTTP/'' @ version_text v @ '' '') = [72, 84, 84, 80, 47, 49, 46, d, 32] \<and> (d = 48 \<and> v = 0x10 \<or> d = 49 \<and> v = 0x11)"
proof -
  have "bytes (''HTTP/'' @ version_text 0x10 @ '' '') = [72, 84, 84, 80, 47, 49, 46, 48, 32]"
    "bytes (''HTTP/'' @ version_text 0x11 @ '' '') = [72, 84, 84, 80, 47, 49, 46, 49, 32]" by code_simp+
  then show ?thesis using assms by auto
qed

lemma rreads_head:
  assumes "rs_printable rs"
  shows "rreads [] {1} (bytes (rs_head rs)) {20, 43}
    (\<lambda>x. fold (\<lambda>(k, v). rs_setHeader k v) (rs_lines rs) (x\<lparr>rs_version := rs_version rs, rs_status := rs_status rs, rs_reason := printed_reason rs\<rparr>))"
proof -
  let ?s = "bytes (dec_string (unat (rs_status rs)))" and ?r = "bytes (printed_reason rs)" and ?l = "bytes (concat (map header_line (rs_lines rs)))"
  have "rs_version rs \<in> {0x10, 0x11}" using assms by (simp only: rs_printable_def simp_thms)
  from response_version_bytes [OF this] obtain d where d: "bytes (''HTTP/'' @ version_text (rs_version rs) @ '' '') = [72, 84, 84, 80, 47, 49, 46, d, 32]"
    "d = 48 \<and> rs_version rs = 0x10 \<or> d = 49 \<and> rs_version rs = 0x11" by (elim exE conjE)
  let ?v = "[72, 84, 84, 80, 47, 49, 46, d, 32]"
  have r: "reason_ok ?r" using assms by (simp add: rs_printable_def)
  have sub: "rreads pre {18} (?r @ [13, 10]) {20, 43} (\<lambda>rs. rs\<lparr>rs_reason := chars ?r\<rparr>)" for pre
    by (rule rreads_mono [OF rreads_reason [OF r]]) simp
  have "rreads [] {1} (((?v @ ?s @ [32]) @ ?r @ [13, 10]) @ ?l) {20, 43}
    (\<lambda>x. fold (\<lambda>(k, v). rs_setHeader k v) (rs_lines rs) (x\<lparr>rs_version := rs_version rs, rs_status := rs_status rs, rs_reason := chars ?r\<rparr>))"
    using rreads_trans [OF rreads_trans [OF rreads_trans [OF rreads_version [OF d(2)] rreads_status] sub]
        rreads_lines [OF response_lines_ok [OF assms]], of "[]" "rs_status rs"] by simp
  moreover have "bytes (rs_head rs) = ((?v @ ?s @ [32]) @ ?r @ [13, 10]) @ ?l"
    using d(1) by (simp add: rs_head_def CRLF_def)
  ultimately show ?thesis by simp
qed

lemma response_head_end:
  assumes "q \<in> {20, 43}"
  shows "\<exists>ps' e. crun buf q p (13 # 10 # rest) (ps, evs) = (Suc (Suc p), 120, ps', evs @ e) \<and> cp_chunked ps' = cp_chunked ps
    \<and> (\<forall>rp :: httpclient_parser response_parser. fold on_response_event e rp = rp)"
  using assms by (auto simp: line_end_states client_blocks)

text \<open>A call of the scanner whose run of the machine is known.\<close>

lemma client_execute_run:
  assumes "0 < length data" "length data < 2 ^ 31" "cp_body_start ps \<le> length data"
    and "crun data (cp_cs ps) 0 data (ps\<lparr>cp_nread := 0, cp_mark := 0, cp_field_len := 0, cp_field_start := 0\<rparr>, []) = (p, cs, ps1, evs)"
  shows "httpclient_parser_execute ps data = Some (int p, ps1\<lparr>cp_cs := cs, cp_nread := p\<rparr>, evs)"
proof -
  obtain p' ps' evs' where x: "httpclient_parser_execute ps data = Some (int p', ps', evs')"
    using client_execute_some [OF assms(1-3)] by blast
  then show ?thesis using assms(4) int_fits [OF assms(2)] by (auto simp: httpclient_parser_execute_def Let_def split: if_splits)
qed

lemma unat_word_of_int: "n < 2 ^ 64 \<Longrightarrow> unat (word_of_int (int n) :: u64) = n"
  by (simp add: unat_of_nat)

lemma rs_execute_printed:
  assumes "rs_printable rs" "length (rs_dump rs) < 2 ^ 31"
  shows "\<exists>p. rs_execute (client_scanner_of ps0) False (HttpResponseParser (client_scanner_of ps0)) (bytes (rs_dump rs))
      = (length (rs_head rs) + 2, bytes (rs_body rs), p)
    \<and> head_done (client_scanner_of ps0) p \<and> sp_data p = rs_scanned rs \<and> \<not> cp_chunked (sp_parser p)"
proof -
  let ?buf = "bytes (rs_dump rs)" and ?H = "bytes (rs_head rs)" and ?B = "bytes (rs_body rs)" and ?S = "client_scanner_of ps0"
  let ?ps = "httpclient_parser_init ps0" and ?rp = "HttpResponseParser ?S"
  let ?ps' = "?ps\<lparr>cp_nread := 0, cp_mark := 0, cp_field_len := 0, cp_field_start := 0\<rparr>"
  have buf: "?buf = [] @ ?H @ 13 # 10 # ?B" by (simp add: rs_dump_head CRLF_def)
  have "length ([] @ ?H @ 13 # 10 # ?B) < 2 ^ 64" using assms(2) by (simp add: rs_dump_head CRLF_def)
  then obtain q ps1 es where h: "q \<in> {20, 43}" "crun ?buf 1 0 ?buf (?ps', []) = crun ?buf q (length ?H) (13 # 10 # ?B) (ps1, es)"
    "cp_chunked ps1 = cp_chunked ?ps'"
    "\<forall>rp :: httpclient_parser response_parser. fold on_response_event es rp = rp\<lparr>sp_data :=
       fold (\<lambda>(k, v). rs_setHeader k v) (rs_lines rs) ((sp_data rp)\<lparr>rs_version := rs_version rs, rs_status := rs_status rs, rs_reason := printed_reason rs\<rparr>)\<rparr>"
    using rreadsD [OF rreads_head [OF assms(1)], of 1 "13 # 10 # ?B" ?ps' "[]"] unfolding buf
    by (simp only: append_Nil list.size add_0 singleton_iff simp_thms) blast
  obtain ps2 e where e: "crun ?buf q (length ?H) (13 # 10 # ?B) (ps1, es) = (Suc (Suc (length ?H)), 120, ps2, es @ e)"
    "cp_chunked ps2 = cp_chunked ps1" "\<forall>rp :: httpclient_parser response_parser. fold on_response_event e rp = rp"
    using response_head_end [OF h(1)] by blast
  have run: "crun ?buf (cp_cs ?ps) 0 ?buf (?ps', []) = (Suc (Suc (length ?H)), 120, ps2, es @ e)"
    using h(2) e(1) by (simp add: httpclient_parser_init_def httpclient_parser_start_def del: ragel_exec.simps)
  let ?ps2 = "ps2\<lparr>cp_cs := 120, cp_nread := Suc (Suc (length ?H))\<rparr>"
  have "0 < length ?buf" "length ?buf < 2 ^ 31" "cp_body_start ?ps \<le> length ?buf"
    using assms(2) by (simp_all add: rs_dump_head CRLF_def httpclient_parser_init_def)
  from client_execute_run [OF this run] have x: "httpclient_parser_execute ?ps ?buf = Some (int (length ?H + 2), ?ps2, es @ e)" by simp
  have len: "unat (word_of_int (int (length ?H + 2)) :: u64) = length ?H + 2"
    by (rule unat_word_of_int) (use assms(2) in \<open>simp add: rs_dump_head CRLF_def\<close>)
  have "fold on_response_event (es @ e) (?rp\<lparr>sp_parser := ?ps2\<rparr>) = ?rp\<lparr>sp_parser := ?ps2, sp_data := rs_scanned rs\<rparr>"
    using h(4) e(3) by (simp add: HttpResponseParser_def rs_scanned_def)
  moreover have "sp_parser ?rp = ?ps" by (simp add: HttpResponseParser_def client_scanner_of_def)
  ultimately have "rs_execute ?S False ?rp ?buf = (length (rs_head rs) + 2, ?B, ?rp\<lparr>sp_parser := ?ps2, sp_data := rs_scanned rs\<rparr>)"
    using x len by (simp add: rs_execute_def client_scanner_of_def buf Let_def)
  moreover have "head_done ?S (?rp\<lparr>sp_parser := ?ps2, sp_data := rs_scanned rs\<rparr>)"
    by (simp add: head_done_def rs_hasError_def HttpResponseParser_def client_scanner_of_def httpclient_parser_has_error_def
        httpclient_parser_is_finished_def httpclient_parser_error_def httpclient_parser_first_final_def)
  moreover have "\<not> cp_chunked ?ps2" using e(2) h(3) by (simp add: httpclient_parser_init_def)
  ultimately show ?thesis by (intro exI [of _ "?rp\<lparr>sp_parser := ?ps2, sp_data := rs_scanned rs\<rparr>"]) simp
qed

section \<open>A response through a connection\<close>

lemma fold_rs_setHeader:
  "fold (\<lambda>(k, v). rs_setHeader k v) ls rs = rs\<lparr>rs_headers := fold (\<lambda>(k, v). map_assign CaseInsensitiveLess k v) ls (rs_headers rs)\<rparr>"
  by (induction ls arbitrary: rs) (auto simp: rs_setHeader_def)

lemma rs_scanned_fields:
  "rs_status (rs_scanned rs) = rs_status rs" "rs_version (rs_scanned rs) = rs_version rs" "rs_reason (rs_scanned rs) = printed_reason rs"
  "rs_body (rs_scanned rs) = []" "rs_close (rs_scanned rs)" "rs_cookies (rs_scanned rs) = []"
  by (simp_all add: rs_scanned_def fold_rs_setHeader new_HttpResponse_def)

lemma map_find_cookies:
  "map_find CaseInsensitiveLess k (rev (map (\<lambda>c. (''Set-Cookie'', c)) cs)) =
     (if fold_case k = fold_case ''Set-Cookie'' \<and> cs \<noteq> [] then Some (last cs) else None)"
  by (induction cs rule: rev_induct) (auto simp: ci_equivalent)

text \<open>The header map of the scanned response.\<close>

lemma rs_scanned_find:
  assumes "map_ok CaseInsensitiveLess (rs_headers rs)" "\<not> rs_websocket rs" "map_find CaseInsensitiveLess ''content-length'' (rs_headers rs) = None"
  shows "map_find CaseInsensitiveLess k (rs_headers (rs_scanned rs)) =
    (if fold_case k = fold_case ''content-length'' then (if rs_body rs = [] then None else Some (dec_string (length (rs_body rs))))
     else if fold_case k = fold_case ''connection'' then Some (if rs_close rs then ''close'' else ''keep-alive'')
     else if fold_case k = fold_case ''Set-Cookie'' \<and> rs_cookies rs \<noteq> [] then Some (last (rs_cookies rs))
     else map_find CaseInsensitiveLess k (rs_headers rs))"
proof -
  let ?lt = CaseInsensitiveLess
  have ne: "fold_case ''content-length'' \<noteq> fold_case ''connection''" "fold_case ''content-length'' \<noteq> fold_case ''Set-Cookie''"
    "fold_case ''connection'' \<noteq> fold_case ''Set-Cookie''" by code_simp+
  have cl: "map_find ?lt k (rs_headers rs) = None" if "fold_case k = fold_case ''content-length''"
    using assms(3) that by (simp add: map_find_None ci_equivalent)
  have "rs_headers (rs_scanned rs) = fold (\<lambda>(k, v). map_assign ?lt k v) (rs_lines rs) []"
    by (simp add: rs_scanned_def fold_rs_setHeader new_HttpResponse_def)
  then have "map_find ?lt k (rs_headers (rs_scanned rs)) = map_find ?lt k (rev (rs_lines rs))"
    using ci.map_find_fold [of "[]" k "rs_lines rs"] by (simp split: option.splits)
  also have "\<dots> = (case map_find ?lt k (length_header (rs_body rs)) of Some v \<Rightarrow> Some v
      | None \<Rightarrow> (case map_find ?lt k (connection_header False (rs_close rs)) of Some v \<Rightarrow> Some v
        | None \<Rightarrow> (case map_find ?lt k (rev (map (\<lambda>c. (''Set-Cookie'', c)) (rs_cookies rs))) of Some v \<Rightarrow> Some v
          | None \<Rightarrow> map_find ?lt k (map_erase ?lt ''connection'' (rs_headers rs)))))"
    using assms(1,2) ci.map_find_rev [OF ci.map_erase_ok [OF assms(1), of "''connection''"], of k]
    by (simp add: rs_lines_def map_find_append printed_headers_erase length_header_def connection_header_def split: option.splits if_splits)
  finally show ?thesis
    using ne cl by (auto simp: length_header_def connection_header_def ci_equivalent ci.map_find_erase map_find_cookies split: option.splits)
qed

lemma rs_recv_body_printed:
  assumes "map_ok CaseInsensitiveLess (rs_headers rs)" "\<not> rs_websocket rs" "map_find CaseInsensitiveLess ''content-length'' (rs_headers rs) = None"
    and "reads_decimals cast" "length (rs_body rs) < 2 ^ 63" "alloc (length (rs_body rs))"
  shows "rs_recv_body cast alloc read shut (rs_scanned rs) (bytes (rs_body rs)) k = Inr (Some (rs_scanned rs\<lparr>rs_body := rs_body rs\<rparr>), k)"
proof (cases "rs_body rs = []")
  case True
  then have "rs_getContentLength cast (rs_scanned rs) = 0"
    by (simp add: rs_getContentLength_def getAs_def rs_scanned_find [OF assms(1-3)])
  moreover have "rs_scanned rs\<lparr>rs_body := []\<rparr> = rs_scanned rs"
    using rs_scanned_fields(4) [of rs] by (cases "rs_scanned rs") simp
  ultimately show ?thesis using True by (simp add: rs_recv_body_def rs_finish_def)
next
  case False
  then have "rs_getContentLength cast (rs_scanned rs) = word_of_nat (length (rs_body rs))"
    using assms(4,5) by (simp add: rs_getContentLength_def getAs_def rs_scanned_find [OF assms(1-3)] reads_decimals_def)
  then have "sint (rs_getContentLength cast (rs_scanned rs)) = int (length (rs_body rs))"
    using assms(5) by (simp add: signed_of_nat signed_take_bit_int_eq_self)
  then show ?thesis using False assms(6) by (simp add: rs_recv_body_def rs_finish_def)
qed

text \<open>C28: Responses survive printing and parsing. Take a response with a reason and header lines that are legal and
  not empty and without a Transfer-Encoding, print it with dump and let the text arrive at a connection in
  one read. recvResponse returns a response with the same status, version, reason, body and
  headers. Of several cookies only the last is kept, as the header Set-Cookie, and the close flag is always set.\<close>

theorem response_survives_connection:
  assumes "rs_printable rs" "map_ok CaseInsensitiveLess (rs_headers rs)" "\<not> rs_websocket rs"
    and "map_find CaseInsensitiveLess ''content-length'' (rs_headers rs) = None"
    and "length (rs_dump rs) \<le> cap" "cap < 2 ^ 31" "reads_decimals cast" "alloc (length (rs_body rs))"
    and "read cap k = (int (length (rs_dump rs)), bytes (rs_dump rs), k')"
  shows "\<exists>rs'. recvResponse cap (client_scanner_of ps0) cast alloc read shut k = Some (Inr (Some rs', k'))
    \<and> rs_status rs' = rs_status rs \<and> rs_version rs' = rs_version rs \<and> rs_reason rs' = printed_reason rs \<and> rs_body rs' = rs_body rs
    \<and> (\<forall>key d. \<not> reserved_name key \<and> fold_case key \<noteq> fold_case ''Set-Cookie'' \<longrightarrow> rs_getHeader key d rs' = rs_getHeader key d rs)
    \<and> (rs_cookies rs \<noteq> [] \<longrightarrow> rs_getHeader ''Set-Cookie'' [] rs' = last (rs_cookies rs)) \<and> rs_cookies rs' = [] \<and> rs_close rs'"
proof -
  let ?S = "client_scanner_of ps0" and ?rs = "rs_scanned rs\<lparr>rs_body := rs_body rs\<rparr>"
  have len: "0 < length (rs_dump rs)" "length (rs_dump rs) < 2 ^ 31" "length (rs_body rs) < cap" "length (rs_body rs) < 2 ^ 63"
    using assms(5,6) by (simp_all add: rs_dump_head CRLF_def)
  obtain p where p: "rs_execute ?S False (HttpResponseParser ?S) (bytes (rs_dump rs)) = (length (rs_head rs) + 2, bytes (rs_body rs), p)"
    "head_done ?S p" "sp_data p = rs_scanned rs" "\<not> cp_chunked (sp_parser p)" using rs_execute_printed [OF assms(1) len(2)] by blast
  have fin: "\<not> rs_hasError ?S p" "rs_isFinished ?S p \<noteq> 0"
    using p(2) by (auto simp: head_done_def rs_isFinished_def rs_hasError_def)
  have "head_loop cap read (rs_execute ?S False) (rs_hasError ?S) (\<lambda>p. rs_isFinished ?S p \<noteq> 0) (HttpResponseParser ?S) [] k
      = Some (Some (p, bytes (rs_body rs)), k')"
    using p(1) fin len assms(9) by (subst head_loop.simps) simp
  moreover have "\<not> chunked ?S (sp_parser p)" using p(4) by (simp add: client_scanner_of_def)
  ultimately have "recvResponse cap ?S cast alloc read shut k = Some (Inr (Some ?rs, k'))"
    using rs_recv_body_printed [OF assms(2-4,7) len(4), of alloc read shut k'] assms(8) p(3) by (simp add: recvResponse_def)
  moreover have "rs_getHeader key d ?rs = rs_getHeader key d rs"
    if "\<not> reserved_name key \<and> fold_case key \<noteq> fold_case ''Set-Cookie''" for key d
    using that by (simp add: rs_getHeader_def map_get_def rs_scanned_find [OF assms(2-4)] reserved_name_def)
  moreover have "rs_getHeader ''Set-Cookie'' [] ?rs = last (rs_cookies rs)" if "rs_cookies rs \<noteq> []"
  proof -
    have "fold_case ''content-length'' \<noteq> fold_case ''Set-Cookie''" "fold_case ''connection'' \<noteq> fold_case ''Set-Cookie''" by code_simp+
    then show ?thesis using that by (simp add: rs_getHeader_def map_get_def rs_scanned_find [OF assms(2-4)])
  qed
  ultimately show ?thesis by (intro exI [of _ ?rs] conjI) (auto simp: rs_scanned_fields)
qed

definition blank_client :: "int \<Rightarrow> httpclient_parser" where
  "blank_client status = \<lparr>cp_cs = 0, cp_body_start = 0, cp_content_len = 0, cp_status = status, cp_chunked = False, cp_chunks_done = False,
     cp_close = False, cp_nread = 0, cp_mark = 0, cp_field_start = 0, cp_field_len = 0\<rparr>"

text \<open>A stream that delivers all its bytes at once.\<close>

definition whole_recv :: "u8 list recv" where
  "whole_recv n k = (int (length k), k, [])"

definition sample_response :: HttpResponse where
  "sample_response = (new_HttpResponse 0x11 False)\<lparr>rs_status := 404, rs_headers := [(''Server'', ''HPS'')], rs_cookies := [''a=1'', ''b=2''], rs_body := ''no''\<rparr>"

theorem response_survives_connection_witness:
  "\<exists>rs'. recvResponse 4096 (client_scanner_of (blank_client 0)) (\<lambda>t. Some (word_of_nat (num_value 10 t))) (\<lambda>_. True) whole_recv id (bytes (rs_dump sample_response))
      = Some (Inr (Some rs', [])) \<and> rs_status rs' = 404 \<and> rs_body rs' = ''no'' \<and> rs_getHeader ''Set-Cookie'' [] rs' = ''b=2'' \<and> rs_close rs'"
proof -
  let ?cast = "\<lambda>t. Some (word_of_nat (num_value 10 t)) :: u64 option"
  have "rs_printable sample_response" "map_ok CaseInsensitiveLess (rs_headers sample_response)" "\<not> rs_websocket sample_response"
    "map_find CaseInsensitiveLess ''content-length'' (rs_headers sample_response) = None" "length (rs_dump sample_response) \<le> 4096" by code_simp+
  moreover have "reads_decimals ?cast" by (simp add: reads_decimals_def num_value_string)
  moreover have "whole_recv 4096 (bytes (rs_dump sample_response)) = (int (length (rs_dump sample_response)), bytes (rs_dump sample_response), [])"
    by (simp add: whole_recv_def)
  moreover have "rs_status sample_response = 404" "rs_body sample_response = ''no''" "rs_cookies sample_response = [''a=1'', ''b=2'']"
    by (simp_all add: sample_response_def)
  ultimately show ?thesis
    using response_survives_connection [of sample_response 4096 ?cast "\<lambda>_. True" whole_recv "bytes (rs_dump sample_response)" "[]" "blank_client 0" id] by auto
qed

section \<open>Heads after which the scanner aborts\<close>

lemma connection_states:
  "client_case 20 67 = Some (Tr 36)" "client_case 25 111 = Some (St 26)" "client_case 26 110 = Some (St 27)" "client_case 27 110 = Some (St 28)"
  "client_case 28 101 = Some (St 29)" "client_case 29 99 = Some (St 30)" "client_case 30 116 = Some (St 31)" "client_case 31 105 = Some (St 32)"
  "client_case 32 111 = Some (St 33)" "client_case 33 110 = Some (St 34)" "client_case 34 58 = Some (Tr 58)" "client_case 95 10 = Some (St 36)"
  by (simp_all add: client_row state_case_part [OF client_closed client_in_parts(6)] client_part_6_def
      state_case_part [OF client_closed client_in_parts(7)] client_part_7_def state_case_part [OF client_closed client_in_parts(18)] client_part_18_def)

lemma empty_connection_run:
  assumes "H = [72, 84, 84, 80, 47, 49, 46, 49, 32, 50, 48, 48, 32, 79, 75, 13, 10, 67, 111, 110, 110, 101, 99, 116, 105, 111, 110, 58, 13, 10, 13, 10]"
  shows "\<exists>ps' evs'. crun buf 1 0 H (ps, evs) = (32, 122, ps', evs') \<and> cp_body_start ps' = 32"
  unfolding assms by (simp add: status_states line_end_states connection_states client_blocks)

text \<open>C29: When the scanner of responses aborts. As long as the machine has not reached a final state, no assertion
  fails, however the bytes are cut into buffers. But only one of the four final states counts as finished:
  after a head that ends with an empty Connection header the parser is neither finished nor in
  error, the loop reads on, and a next buffer that is shorter than that head and has no line feed fails
  the assertion on body_start, which ends the process.\<close>

theorem response_scanner_aborts:
  "(client_reads ps \<longrightarrow> cp_cs ps < 120 \<longrightarrow> 0 < length data \<longrightarrow> length data < 2 ^ 31 \<longrightarrow>
      (\<exists>n ps' evs. httpclient_parser_execute ps data = Some (n, ps', evs) \<and> 0 \<le> n \<and> n \<le> int (length data)))
   \<and> (\<exists>ps' evs. httpclient_parser_execute (httpclient_parser_init ps0) (bytes (''HTTP/1.1 200 OK'' @ CRLF @ ''Connection:'' @ CRLF @ CRLF)) = Some (32, ps', evs)
      \<and> httpclient_parser_finish ps' = 0
      \<and> (\<forall>next_data. length next_data < 32 \<longrightarrow> 10 \<notin> set next_data \<longrightarrow> httpclient_parser_execute ps' next_data = None))"
proof (intro conjI impI)
  show "\<exists>n ps' evs. httpclient_parser_execute ps data = Some (n, ps', evs) \<and> 0 \<le> n \<and> n \<le> int (length data)"
    if "client_reads ps" "cp_cs ps < 120" "0 < length data" "length data < 2 ^ 31"
    using client_execute_some [OF that(3,4), of ps] client_reads_start [OF that(1,2)] by force
  let ?H = "[72, 84, 84, 80, 47, 49, 46, 49, 32, 50, 48, 48, 32, 79, 75, 13, 10, 67, 111, 110, 110, 101, 99, 116, 105, 111, 110, 58, 13, 10, 13, 10] :: u8 list"
  have h: "bytes (''HTTP/1.1 200 OK'' @ CRLF @ ''Connection:'' @ CRLF @ CRLF) = ?H" by code_simp
  let ?ps = "httpclient_parser_init ps0"
  have start: "cp_cs ?ps = 1" "cp_body_start ?ps = 0"
    by (simp_all add: httpclient_parser_init_def httpclient_parser_start_def)
  obtain ps1 evs where run: "crun ?H 1 0 ?H (?ps\<lparr>cp_nread := 0, cp_mark := 0, cp_field_len := 0, cp_field_start := 0\<rparr>, []) = (32, 122, ps1, evs)"
    "cp_body_start ps1 = 32" using empty_connection_run [OF refl] by blast
  have "httpclient_parser_execute ?ps ?H = Some (int 32, ps1\<lparr>cp_cs := 122, cp_nread := 32\<rparr>, evs)"
    by (rule client_execute_run) (use run(1) start in simp_all)
  moreover have "httpclient_parser_finish (ps1\<lparr>cp_cs := 122, cp_nread := 32\<rparr>) = 0"
    by (simp add: httpclient_parser_finish_def httpclient_parser_has_error_def httpclient_parser_is_finished_def
        httpclient_parser_error_def httpclient_parser_first_final_def)
  moreover have "httpclient_parser_execute (ps1\<lparr>cp_cs := 122, cp_nread := 32\<rparr>) d = None" if "length d < 32" "10 \<notin> set d" for d
    using that run(2) by (intro client_execute_no_lf) simp_all
  ultimately show "\<exists>ps' evs. httpclient_parser_execute (httpclient_parser_init ps0) (bytes (''HTTP/1.1 200 OK'' @ CRLF @ ''Connection:'' @ CRLF @ CRLF)) = Some (32, ps', evs)
      \<and> httpclient_parser_finish ps' = 0
      \<and> (\<forall>next_data. length next_data < 32 \<longrightarrow> 10 \<notin> set next_data \<longrightarrow> httpclient_parser_execute ps' next_data = None)"
    unfolding h by auto
qed

theorem response_scanner_aborts_witness:
  "(\<exists>n ps' evs. httpclient_parser_execute (httpclient_parser_init (blank_client 0)) [72] = Some (n, ps', evs) \<and> 0 \<le> n \<and> n \<le> int (length [72 :: u8]))
   \<and> (\<exists>ps'. httpclient_parser_finish ps' = 0 \<and> httpclient_parser_execute ps' [65] = None)"
proof -
  have "cp_cs (httpclient_parser_init (blank_client 0)) < 120" by (simp add: httpclient_parser_init_def httpclient_parser_start_def)
  then show ?thesis
    using response_scanner_aborts [of "httpclient_parser_init (blank_client 0)" "[72]" "blank_client 0"] client_reads.start [of "blank_client 0"] by fastforce
qed

section \<open>Sizes of chunks\<close>

lemma chunk_states:
  "xdigit c \<Longrightarrow> client_case 1 c = Some (Tr 0)" "xdigit c \<Longrightarrow> client_case 2 c = Some (St 2)" "client_case 2 13 = Some (Tr 4)"
  unfolding xdigit_def by ((elim disjE conjE)?; simp add: client_row)+

lemma chunk_blocks: "client_tr 0 = ([C_MARK_mark], Goto 2)" "client_tr 4 = ([C_chunk_size], Goto 3)"
  by (simp_all add: client_block_row)

lemma hex_digit:
  assumes "c \<in> set (hex_string n)"
  shows "xdigit (sint (byte_of_char c))" "\<exists>d < 16. digit_of 16 c = Some d \<and> digit_value c = d" "c \<notin> {CHR '' '', CHR ''-'', CHR ''+'', CHR ''x'', CHR ''X'', CHR 0x00}"
    "\<not> (of_char c :: nat) \<le> 13"
proof -
  obtain d where d: "d < 16" "c = digit_char d" using num_string_digits [of 16 c n] assms by auto
  then have c: "(of_char c :: nat) = (if d < 10 then 48 + d else 87 + d)" by (simp add: of_char_digit)
  then have "sint (byte_of_char c) = int (if d < 10 then 48 + d else 87 + d)" using d(1) by (simp add: sint_byte_of_char)
  then show "xdigit (sint (byte_of_char c))" using d(1) by (simp add: xdigit_def)
  show "\<exists>d < 16. digit_of 16 c = Some d \<and> digit_value c = d" using c d by (intro exI [of _ d]) (simp add: digit_of_def Let_def)
  show "c \<notin> {CHR '' '', CHR ''-'', CHR ''+'', CHR ''x'', CHR ''X'', CHR 0x00}" "\<not> (of_char c :: nat) \<le> 13" using c d(1) by (auto split: if_splits)
qed

lemma digits_value_text:
  "(\<And>c. c \<in> set s \<Longrightarrow> \<exists>d. digit_of b c = Some d \<and> digit_value c = d) \<Longrightarrow> digit_of b x = None \<Longrightarrow>
     digits_value b v (s @ x # t) = foldl (\<lambda>v c. v * b + digit_value c) v s"
proof (induction s arbitrary: v)
  case (Cons c s)
  obtain d where "digit_of b c = Some d" "digit_value c = d" using Cons.prems(1) [of c] by auto
  then show ?case using Cons by simp
qed simp

lemma strtol_hex:
  assumes "n < 2 ^ 63"
  shows "strtol 16 (hex_string n @ CHR 0x0D # t) = int n"
proof -
  let ?s = "hex_string n"
  have "CHR 0x00 \<notin> set ?s" using hex_digit(3) by blast
  then have c: "c_str (?s @ CHR 0x0D # t) = ?s @ CHR 0x0D # c_str t" by (subst c_str_append) (simp_all add: c_str_def)
  obtain x xs where s: "?s = x # xs" by (cases ?s) simp_all
  have x: "x \<noteq> CHR '' ''" "x \<noteq> CHR ''-''" "x \<noteq> CHR ''+''" "\<not> (of_char x :: nat) \<le> 13" using hex_digit(3,4) [of x n] s by auto
  have no_x: "\<not> ((?s @ CHR 0x0D # u) ! 1 = CHR ''x'' \<or> (?s @ CHR 0x0D # u) ! 1 = CHR ''X'')" for u
    using s hex_digit(3) [of "hd xs" n] by (cases xs) auto
  have "digit_of 16 (CHR 0x0D) = None" by code_simp
  then have v: "digits_value 16 0 (?s @ CHR 0x0D # u) = n" for u
    using digits_value_text [of ?s 16 "CHR 0x0D" 0 u] hex_digit(2) [of _ n] num_value_string [of 16 n] by (force simp: num_value_def)
  have "dropWhile (\<lambda>c. c = CHR '' '' \<or> of_char c \<in> {9..(13 :: nat)}) (?s @ CHR 0x0D # u) = ?s @ CHR 0x0D # u" for u
    using x by (simp add: s)
  then show ?thesis unfolding strtol_def c Let_def using x no_x v assms by (simp add: s)
qed

lemma chunk_size_run:
  assumes "buf = bytes (hex_string n) @ 13 # 10 # rest" "n < 2 ^ 63"
  shows "\<exists>ps' e. crun buf 1 0 buf (ps, []) = (length (hex_string n) + 2, 120, ps', e)
    \<and> cp_content_len ps' = int_of_long (int n) \<and> (cp_chunks_done ps' \<longleftrightarrow> int_of_long (int n) \<le> 0)
    \<and> (\<forall>rp :: httpclient_parser response_parser. fold on_response_event e rp = rp)"
proof -
  let ?w = "bytes (hex_string n)"
  obtain b v where w: "?w = b # v" by (cases "hex_string n") simp_all
  have d: "xdigit (sint b)" if "b \<in> set ?w" for b using that hex_digit(1) by auto
  have "char_of_byte 13 = CHR 0x0D" by code_simp
  then have at: "strtol 16 (PTR_TO buf 0) = int n" using strtol_hex [OF assms(2)] by (simp add: PTR_TO_def assms(1))
  have "crun buf 1 0 buf (ps, []) = crun buf 2 1 (v @ 13 # 10 # rest) (ps\<lparr>cp_mark := 0\<rparr>, [])"
    unfolding assms(1) using d [of b] w by (simp add: chunk_states chunk_blocks)
  also have "\<dots> = crun buf 2 (1 + length v) (13 # 10 # rest) (ps\<lparr>cp_mark := 0\<rparr>, [])"
    using d w by (intro exec_loop) (auto simp: chunk_states)
  finally show ?thesis using at arg_cong [OF w, of length] by (simp add: chunk_states chunk_blocks line_end_states client_blocks Let_def)
qed

lemma chunk_head_execute:
  assumes "n < 2 ^ 63" "length (hex_string n) + 2 + length rest < 2 ^ 31" "sp_error p = 0"
  shows "\<exists>p'. rs_execute (client_scanner_of ps0) True p (bytes (hex_string n @ CRLF) @ rest) = (length (hex_string n) + 2, rest, p')
    \<and> head_done (client_scanner_of ps0) p' \<and> cp_content_len (sp_parser p') = int_of_long (int n)
    \<and> (cp_chunks_done (sp_parser p') \<longleftrightarrow> int_of_long (int n) \<le> 0)"
proof -
  let ?buf = "bytes (hex_string n) @ 13 # 10 # rest" and ?S = "client_scanner_of ps0"
  have buf: "bytes (hex_string n @ CRLF) @ rest = ?buf" by (simp add: CRLF_def)
  let ?ps = "httpclient_parser_init (sp_parser p)"
  have ps: "cp_cs ?ps = 1" "cp_body_start ?ps = 0" by (simp_all add: httpclient_parser_init_def httpclient_parser_start_def)
  obtain ps1 e where run: "crun ?buf (cp_cs ?ps) 0 ?buf (?ps\<lparr>cp_nread := 0, cp_mark := 0, cp_field_len := 0, cp_field_start := 0\<rparr>, []) = (length (hex_string n) + 2, 120, ps1, e)"
    "cp_content_len ps1 = int_of_long (int n)" "cp_chunks_done ps1 \<longleftrightarrow> int_of_long (int n) \<le> 0"
    "\<forall>rp :: httpclient_parser response_parser. fold on_response_event e rp = rp"
    using chunk_size_run [OF refl assms(1)] unfolding ps(1) by blast
  let ?ps1 = "ps1\<lparr>cp_cs := 120, cp_nread := length (hex_string n) + 2\<rparr>"
  have "0 < length ?buf" "length ?buf < 2 ^ 31" "cp_body_start ?ps \<le> length ?buf" using assms(2) ps by simp_all
  from client_execute_run [OF this run(1)]
  have x: "httpclient_parser_execute ?ps ?buf = Some (int (length (hex_string n) + 2), ?ps1, e)" .
  have "unat (word_of_int (int (length (hex_string n) + 2)) :: u64) = length (hex_string n) + 2"
    by (rule unat_word_of_int) (use assms(2) in simp)
  then have "rs_execute ?S True p (bytes (hex_string n @ CRLF) @ rest) = (length (hex_string n) + 2, rest, p\<lparr>sp_parser := ?ps1\<rparr>)"
    unfolding buf using x run(4) by (simp add: rs_execute_def client_scanner_of_def Let_def)
  moreover have "head_done ?S (p\<lparr>sp_parser := ?ps1\<rparr>)"
    using assms(3) by (simp add: head_done_def rs_hasError_def client_scanner_of_def httpclient_parser_has_error_def
        httpclient_parser_is_finished_def httpclient_parser_error_def httpclient_parser_first_final_def)
  ultimately show ?thesis using run(2,3) by (intro exI [of _ "p\<lparr>sp_parser := ?ps1\<rparr>"]) simp
qed

lemma int_of_long_nat:
  "int_of_long (int n) = (if n mod 2 ^ 32 < 2 ^ 31 then int (n mod 2 ^ 32) else int (n mod 2 ^ 32) - 2 ^ 32)"
proof -
  have "int_of_long (int n) = (int n + 2 ^ 31) mod 2 ^ 32 - 2 ^ 31"
    by (simp add: int_of_long_def signed_of_nat signed_take_bit_eq_take_bit_shift take_bit_eq_mod)
  also have "(int n + 2 ^ 31) mod 2 ^ 32 = (int (n mod 2 ^ 32) + 2 ^ 31) mod 2 ^ 32" by (simp add: zmod_int mod_add_left_eq)
  also have "\<dots> = (if n mod 2 ^ 32 < 2 ^ 31 then int (n mod 2 ^ 32) + 2 ^ 31 else int (n mod 2 ^ 32) - 2 ^ 31)"
  proof (cases "n mod 2 ^ 32 < 2 ^ 31")
    case True
    then show ?thesis by (simp add: mod_pos_pos_trivial)
  next
    case False
    have wrap: "(int r + 2 ^ 31) mod 2 ^ 32 = int r - 2 ^ 31" if "2 ^ 31 \<le> r" "r < 2 ^ 32" for r :: nat
    proof -
      have "(int r - 2 ^ 31 + 2 ^ 32) mod 2 ^ 32 = int r - 2 ^ 31" using that by (subst mod_add_self2) (simp add: mod_pos_pos_trivial)
      then show ?thesis by (simp add: add.commute)
    qed
    have "n mod 2 ^ 32 < 2 ^ 32" by (rule mod_less_divisor) simp
    with False wrap have "(int (n mod 2 ^ 32) + 2 ^ 31) mod 2 ^ 32 = int (n mod 2 ^ 32) - 2 ^ 31" by (simp only: not_less)
    then show ?thesis using False by (simp only: if_False)
  qed
  finally show ?thesis by simp
qed



end
