(* ===== verification/UriText.thy ===== *)
theory UriText
  imports UriScanner HttpResponseText
begin

text \<open>
  URIs read back: Uri::Create on the text that Uri::dump prints, and the texts on which it throws or keeps a part
  of what was there.
\<close>

section \<open>Characters\<close>

abbreviation uc :: "char \<Rightarrow> int" where
  "uc c \<equiv> sint (byte_of_char c)"

text \<open>Schemes; names of hosts and users; paths; queries and fragments. Bytes above 127 are negative.\<close>

definition scheme_ivs :: "(int \<times> int) list" where
  "scheme_ivs = [(43, 43), (45, 46), (48, 57), (65, 90), (97, 122)]"

definition reg_ivs :: "(int \<times> int) list" where
  "reg_ivs = [(33, 33), (36, 36), (38, 46), (48, 57), (59, 59), (61, 61), (65, 90), (95, 95), (97, 122), (126, 126)]"

definition path_ivs :: "(int \<times> int) list" where
  "path_ivs = (47, 47) # (58, 58) # (64, 64) # (- 128, - 1) # reg_ivs"

definition query_ivs :: "(int \<times> int) list" where
  "query_ivs = (63, 63) # path_ivs"

definition all_in :: "(int \<times> int) list \<Rightarrow> string \<Rightarrow> bool" where
  "all_in ivs w \<longleftrightarrow> list_all (\<lambda>c. in_intervals ivs (uc c)) w"

definition pct_in :: "(int \<times> int) list \<Rightarrow> string \<Rightarrow> bool" where
  "pct_in ivs w \<longleftrightarrow> pct_text (in_intervals ivs) (map uc w)"

section \<open>The machine at a position of a text\<close>

definition at :: "string \<Rightarrow> int \<Rightarrow> nat \<Rightarrow> uri_scan \<Rightarrow> nat \<times> int \<times> uri_scan" where
  "at s q p st = ragel_exec uri_case uri_tr (uri_act s) 0 q p (bytes (drop p s)) st"

lemma drop_next: "drop p s = w @ r \<Longrightarrow> drop (p + length w) s = r"
  by (metis add.commute append_eq_conv_conj drop_drop)

lemma drop_le: "drop p s = w @ r \<Longrightarrow> w \<noteq> [] \<Longrightarrow> p + length w \<le> length s"
proof -
  assume a: "drop p s = w @ r" "w \<noteq> []"
  have "length s - p = length w + length r" using arg_cong [OF a(1), of length] by simp
  moreover have "0 < length w" using a(2) by simp
  ultimately show ?thesis by linarith
qed

lemma drop_Suc_next: "drop p s = c # r \<Longrightarrow> drop (Suc p) s = r"
  using drop_next [of p s "[c]" r] by simp

lemma at_goto: "drop p s = c # r \<Longrightarrow> uri_case q (uc c) = Some (St n) \<Longrightarrow> n \<noteq> 0 \<Longrightarrow> at s q p st = at s n (Suc p) st"
  by (simp add: at_def drop_Suc_next)

lemma at_tr:
  "drop p s = c # r \<Longrightarrow> uri_case q (uc c) = Some (Tr k) \<Longrightarrow> uri_tr k = (acts, Goto n) \<Longrightarrow> n \<noteq> 0 \<Longrightarrow>
     at s q p st = at s n (Suc p) (fold (\<lambda>a. uri_act s a p) acts st)"
  by (simp add: at_def drop_Suc_next Let_def)

lemma at_end: "drop p s = [] \<Longrightarrow> at s q p st = (p, q, st)"
  by (simp add: at_def)

lemma at_class:
  assumes "\<And>q b. q \<in> set qs \<Longrightarrow> b \<in> set (bytes w) \<Longrightarrow> \<exists>n \<in> set qs. n \<noteq> 0 \<and> uri_case q (sint b) = Some (St n)"
    and "q \<in> set qs" and "drop p s = w @ r"
  shows "\<exists>q' \<in> set qs. \<forall>st. at s q p st = at s q' (p + length w) st"
  using exec_class [of qs "bytes w" uri_case q uri_tr "uri_act s" 0 p, OF assms(1,2)] drop_next [OF assms(3)]
  by (simp add: at_def assms(3) del: ragel_exec.simps) metis

lemma marked_at: "drop m s = w @ r \<Longrightarrow> marked s (Some m) (m + length w) = Inr w"
  by (simp add: marked_def)

section \<open>States\<close>

text \<open>The states that read a host or a user, without and with a user before them.\<close>

definition host1 :: "int list" where
  "host1 = [520, 543, 544, 545, 546, 547, 548, 549, 550, 551, 552, 553, 554, 555, 556, 557, 558, 559, 560]"

definition host2 :: "int list" where
  "host2 = [523, 524, 525, 526, 527, 528, 529, 530, 531, 532, 533, 534, 535, 536, 537, 538, 539, 540, 541]"

definition goes_in :: "int list \<Rightarrow> int \<Rightarrow> label \<Rightarrow> bool" where
  "goes_in qs q l = (case l of St n \<Rightarrow> n \<in> set qs | Tr k \<Rightarrow> False)"

definition takes :: "int list \<Rightarrow> int \<Rightarrow> label \<Rightarrow> bool" where
  "takes ks q l = (case l of St n \<Rightarrow> False | Tr k \<Rightarrow> k \<in> set ks)"

lemmas uri_class_defs = goes_in_def takes_def host1_def host2_def scheme_ivs_def reg_ivs_def path_ivs_def query_ivs_def

lemma uri_scheme_steps:
  "part_steps [uri_part_1] [451] [(65, 90), (97, 122)] (takes [461])" "part_steps [uri_part_37] [508] scheme_ivs (goes_in [508])"
  "part_steps [uri_part_37] [508] [(58, 58)] (takes [543])" "part_steps [uri_part_37] [509] [(47, 47)] (goes_in [510])"
  "part_steps [uri_part_38] [510] [(47, 47)] (goes_in [511])"
  unfolding uri_part_defs uri_class_defs by code_simp+

lemma uri_host_steps:
  "part_steps [uri_part_38] [511] reg_ivs (takes [547, 551, 552, 553, 554])" "part_steps [uri_part_42] [522] reg_ivs (takes [578, 580, 581, 582, 583])"
  "part_steps [uri_part_41, uri_part_66, uri_part_67, uri_part_68, uri_part_69, uri_part_70] host1 reg_ivs (goes_in host1)" "part_steps [uri_part_42, uri_part_43, uri_part_44, uri_part_45, uri_part_46] host2 reg_ivs (goes_in host2)"
  "part_steps [uri_part_41, uri_part_66, uri_part_67, uri_part_68, uri_part_69, uri_part_70, uri_part_42, uri_part_43, uri_part_44, uri_part_45, uri_part_46] (host1 @ host2) [(47, 47)] (takes [560])" "part_steps [uri_part_41, uri_part_66, uri_part_67, uri_part_68, uri_part_69, uri_part_70] host1 [(64, 64)] (takes [263])"
  "part_steps [uri_part_41, uri_part_66, uri_part_67, uri_part_68, uri_part_69, uri_part_70] host1 [(58, 58)] (takes [576])" "part_steps [uri_part_42, uri_part_43, uri_part_44, uri_part_45, uri_part_46] host2 [(58, 58)] (takes [561])"
  unfolding uri_part_defs uri_class_defs by code_simp+

lemma uri_port_steps:
  "part_steps [uri_part_41] [521] [(48, 57)] (takes [577])" "part_steps [uri_part_40] [514] [(48, 57)] (takes [568])"
  "part_steps [uri_part_66] [542] [(48, 57)] (goes_in [542])" "part_steps [uri_part_40] [515] [(48, 57)] (goes_in [515])"
  "part_steps [uri_part_66, uri_part_40] [542, 515] [(47, 47)] (takes [571])" "part_steps [uri_part_66] [542] [(64, 64)] (takes [263])"
  unfolding uri_part_defs uri_class_defs by code_simp+

lemma uri_tail_steps:
  "part_steps [uri_part_39] [513] path_ivs (goes_in [513])" "part_steps [uri_part_39] [513] [(37, 37)] (goes_in [243])"
  "part_steps [uri_part_39] [513] [(63, 63)] (takes [565])" "part_steps [uri_part_39] [513] [(35, 35)] (takes [563])"
  "part_steps [uri_part_4] [456] query_ivs (takes [466])" "part_steps [uri_part_4] [456] [(37, 37)] (takes [468])"
  "part_steps [uri_part_4] [457] query_ivs (goes_in [457])" "part_steps [uri_part_4] [457] [(37, 37)] (goes_in [7])"
  "part_steps [uri_part_4] [457] [(35, 35)] (takes [469])"
  "part_steps [uri_part_2] [453] query_ivs (takes [462])" "part_steps [uri_part_2] [453] [(37, 37)] (takes [463])"
  "part_steps [uri_part_2] [454] query_ivs (goes_in [454])" "part_steps [uri_part_2] [454] [(37, 37)] (goes_in [1])"
  unfolding uri_part_defs uri_class_defs by code_simp+

lemma uri_pct_steps:
  "part_steps [uri_part_39] [243] [(48, 57), (65, 70), (97, 102)] (goes_in [244])" "part_steps [uri_part_39] [244] [(48, 57), (65, 70), (97, 102)] (goes_in [513])"
  "part_steps [uri_part_4] [7] [(48, 57), (65, 70), (97, 102)] (goes_in [8])" "part_steps [uri_part_5] [8] [(48, 57), (65, 70), (97, 102)] (goes_in [457])"
  "part_steps [uri_part_2] [1] [(48, 57), (65, 70), (97, 102)] (goes_in [2])" "part_steps [uri_part_2] [2] [(48, 57), (65, 70), (97, 102)] (goes_in [454])"
  unfolding uri_part_defs uri_class_defs by code_simp+

definition uri_block_parts :: "uri_action part list" where
  "uri_block_parts = [uri_part_1, uri_part_2, uri_part_4, uri_part_37, uri_part_39, uri_part_40, uri_part_41, uri_part_42, uri_part_43, uri_part_46,
     uri_part_66, uri_part_69, uri_part_70]"

lemma uri_block_parts: "set uri_block_parts \<subseteq> set uri_parts"
  by (simp add: uri_block_parts_def)

lemma uri_blocks:
  "uri_tr 461 = ([U_mark], Goto 508)" "uri_tr 543 = ([save_scheme], Goto 509)" "uri_tr 263 = ([save_userinfo], Goto 522)"
  "uri_tr 560 = ([save_host, U_mark], Goto 513)" "uri_tr 576 = ([save_host], Goto 521)" "uri_tr 561 = ([save_host], Goto 514)"
  "uri_tr 577 = ([U_mark], Goto 542)" "uri_tr 568 = ([U_mark], Goto 515)" "uri_tr 571 = ([save_port, U_mark], Goto 513)"
  "uri_tr 565 = ([save_path], Goto 456)" "uri_tr 563 = ([save_path], Goto 453)" "uri_tr 466 = ([U_mark], Goto 457)"
  "uri_tr 468 = ([U_mark], Goto 7)" "uri_tr 469 = ([save_query], Goto 453)" "uri_tr 462 = ([U_mark], Goto 454)" "uri_tr 463 = ([U_mark], Goto 1)"
  "uri_tr 547 = ([U_mark], Goto 520)" "uri_tr 551 = ([U_mark], Goto 543)" "uri_tr 552 = ([U_mark], Goto 557)" "uri_tr 553 = ([U_mark], Goto 559)"
  "uri_tr 554 = ([U_mark], Goto 558)" "uri_tr 578 = ([U_mark], Goto 523)" "uri_tr 580 = ([U_mark], Goto 524)" "uri_tr 581 = ([U_mark], Goto 538)"
  "uri_tr 582 = ([U_mark], Goto 540)" "uri_tr 583 = ([U_mark], Goto 539)"
  by (rule part_block [OF uri_closed uri_block_parts], unfold uri_block_parts_def uri_part_defs, code_simp)+

section \<open>Steps\<close>

lemma uri_stepsD:
  "part_steps ps qs ivs P \<Longrightarrow> set ps \<subseteq> set uri_parts \<Longrightarrow> q \<in> set qs \<Longrightarrow> in_intervals ivs c \<Longrightarrow> \<exists>l. uri_case q c = Some l \<and> P q l"
  by (rule part_stepsD [OF _ uri_closed])

lemma label_iffs: "goes_in qs q l \<longleftrightarrow> (\<exists>n \<in> set qs. l = St n)" "takes ks q l \<longleftrightarrow> (\<exists>k \<in> set ks. l = Tr k)"
  by (auto simp: goes_in_def takes_def split: label.splits)

lemma goes: "part_steps ps [q] ivs (goes_in [n]) \<Longrightarrow> set ps \<subseteq> set uri_parts \<Longrightarrow> in_intervals ivs c \<Longrightarrow> uri_case q c = Some (St n)"
  using uri_stepsD [of ps "[q]" ivs "goes_in [n]" q c] by (auto simp: label_iffs)

lemma takes1: "part_steps ps qs ivs (takes [k]) \<Longrightarrow> set ps \<subseteq> set uri_parts \<Longrightarrow> q \<in> set qs \<Longrightarrow> in_intervals ivs c \<Longrightarrow> uri_case q c = Some (Tr k)"
  using uri_stepsD [of ps qs ivs "takes [k]" q c] by (auto simp: label_iffs)

lemma in_one [simp]: "in_intervals [(a, b)] c \<longleftrightarrow> a \<le> c \<and> c \<le> b"
  by (simp add: in_intervals_def)

lemma xdigit_in: "xdigit c \<Longrightarrow> in_intervals [(48, 57), (65, 70), (97, 102)] c"
  by (auto simp: xdigit_def in_intervals_def)

interpretation path_pct: pct_states uri_case "in_intervals path_ivs" 513 243 244
  by unfold_locales (simp_all add: goes [OF uri_tail_steps(1)] goes [OF uri_tail_steps(2)] goes [OF uri_pct_steps(1) _ xdigit_in]
      goes [OF uri_pct_steps(2) _ xdigit_in])

interpretation query_pct: pct_states uri_case "in_intervals query_ivs" 457 7 8
  by unfold_locales (simp_all add: goes [OF uri_tail_steps(7)] goes [OF uri_tail_steps(8)] goes [OF uri_pct_steps(3) _ xdigit_in]
      goes [OF uri_pct_steps(4) _ xdigit_in])

interpretation fragment_pct: pct_states uri_case "in_intervals query_ivs" 454 1 2
  by unfold_locales (simp_all add: goes [OF uri_tail_steps(12)] goes [OF uri_tail_steps(13)] goes [OF uri_pct_steps(5) _ xdigit_in]
      goes [OF uri_pct_steps(6) _ xdigit_in])

section \<open>Parts of a URI\<close>

lemma uri_act_simps [simp]:
  "uri_act s a p (Inr (u, m)) = uri_act_on s a p u m" "uri_act s a p (Inl e) = Inl e"
  by (simp_all add: uri_act_def)

text \<open>A state and a class of characters it loops on.\<close>

lemma at_loop:
  assumes "\<And>c. c \<in> set w \<Longrightarrow> uri_case q (uc c) = Some (St q)" "q \<noteq> 0" "drop p s = w @ r"
  shows "at s q p st = at s q (p + length w) st"
proof -
  have "uri_case q (sint b) = Some (St q)" if "b \<in> set (bytes w)" for b using that assms(1) by auto
  from exec_loop [of "bytes w" uri_case q, OF this assms(2), of uri_tr "uri_act s" 0 p "bytes r" st] show ?thesis
    using drop_next [OF assms(3)] by (simp add: at_def assms(3) del: ragel_exec.simps)
qed

lemma at_class_in:
  assumes "part_steps ps qs ivs (goes_in qs)" "set ps \<subseteq> set uri_parts" "0 \<notin> set qs" "all_in ivs w" "q \<in> set qs" "drop p s = w @ r"
  shows "\<exists>q' \<in> set qs. \<forall>st. at s q p st = at s q' (p + length w) st"
proof (rule at_class [OF _ assms(5,6)])
  fix q b assume q: "q \<in> set qs" and b: "b \<in> set (bytes w)"
  then have "in_intervals ivs (sint b)" using assms(4) by (auto simp: all_in_def list_all_iff)
  from uri_stepsD [OF assms(1,2) q this] show "\<exists>n \<in> set qs. n \<noteq> 0 \<and> uri_case q (sint b) = Some (St n)"
    using assms(3) by (auto simp: label_iffs)
qed

definition scheme_ok :: "string \<Rightarrow> bool" where
  "scheme_ok w \<longleftrightarrow> w \<noteq> [] \<and> in_intervals [(65, 90), (97, 122)] (uc (hd w)) \<and> all_in scheme_ivs w"

lemma uc_simps [simp]: "uc (CHR '':'') = 58" "uc (CHR ''/'') = 47" "uc (CHR ''@'') = 64" "uc (CHR ''?'') = 63" "uc (CHR ''#'') = 35"
  by code_simp+

lemma scheme_run:
  assumes "scheme_ok w" "s = w @ ''://'' @ r"
  shows "at s 451 0 (Inr (u, m)) = at s 511 (length w + 3) (Inr (u\<lparr>uri_scheme := w\<rparr>, None))"
proof -
  obtain c v where w: "w = c # v" using assms(1) by (cases w) (simp_all add: scheme_ok_def)
  have "at s 451 0 (Inr (u, m)) = at s 508 1 (Inr (u, Some 0))"
    using at_tr [of 0 s c "v @ ''://'' @ r" 451 461] takes1 [OF uri_scheme_steps(1), of 451 "uc c"] assms uri_blocks(1)
    by (simp add: w scheme_ok_def)
  also have "\<dots> = at s 508 (length w) (Inr (u, Some 0))"
    using at_loop [of v 508 1 s "''://'' @ r"] goes [OF uri_scheme_steps(2)] assms by (auto simp: w scheme_ok_def all_in_def list_all_iff)
  also have "\<dots> = at s 509 (Suc (length w)) (Inr (u\<lparr>uri_scheme := w\<rparr>, None))"
    using at_tr [of "length w" s "CHR '':''" "''//'' @ r" 508 543] takes1 [OF uri_scheme_steps(3), of 508] uri_blocks(2) marked_at [of 0 s w "''://'' @ r"] assms(2)
    by simp
  also have "\<dots> = at s 510 (Suc (Suc (length w))) (Inr (u\<lparr>uri_scheme := w\<rparr>, None))"
    by (rule at_goto [of _ _ "CHR ''/''" "''/'' @ r"]) (use goes [OF uri_scheme_steps(4)] assms(2) in simp_all)
  also have "\<dots> = at s 511 (Suc (Suc (Suc (length w)))) (Inr (u\<lparr>uri_scheme := w\<rparr>, None))"
    by (rule at_goto [of _ _ "CHR ''/''" r]) (use goes [OF uri_scheme_steps(5)] assms(2) in simp_all)
  finally show ?thesis by (simp add: numeral_3_eq_3)
qed

text \<open>A user or a host: the first character sets the mark.\<close>

lemma first_host:
  assumes "all_in reg_ivs (c # v)" "drop p s = (c # v) @ r" "q = 511 \<and> qs = host1 \<or> q = 522 \<and> qs = host2"
  shows "\<exists>n \<in> set qs. at s q p (Inr (u, m)) = at s n (Suc p) (Inr (u, Some p))"
proof -
  have c: "in_intervals reg_ivs (uc c)" using assms(1) by (simp add: all_in_def)
  have "\<exists>k n. uri_case q (uc c) = Some (Tr k) \<and> uri_tr k = ([U_mark], Goto n) \<and> n \<in> set qs"
    using assms(3) uri_stepsD [OF uri_host_steps(1) _ _ c, of 511] uri_stepsD [OF uri_host_steps(2) _ _ c, of 522]
    by (auto simp: label_iffs uri_blocks host1_def host2_def)
  then obtain k n where k: "uri_case q (uc c) = Some (Tr k)" "uri_tr k = ([U_mark], Goto n)" "n \<in> set qs" by blast
  have "n \<noteq> 0" using k(3) assms(3) by (auto simp: host1_def host2_def)
  then show ?thesis using at_tr [OF _ k(1,2), of p s "v @ r"] assms(2) k(3) by auto
qed

lemma host_run:
  assumes "w \<noteq> []" "all_in reg_ivs w" "drop p s = w @ r" "q = 511 \<and> qs = host1 \<or> q = 522 \<and> qs = host2"
  shows "\<exists>n \<in> set qs. at s q p (Inr (u, m)) = at s n (p + length w) (Inr (u, Some p))"
proof -
  obtain c v where w: "w = c # v" using assms(1) by (cases w) auto
  obtain n where n: "n \<in> set qs" "at s q p (Inr (u, m)) = at s n (Suc p) (Inr (u, Some p))"
    using first_host [of c v p s r q qs u m] assms(2-4) w by blast
  have "\<exists>q' \<in> set qs. \<forall>st. at s n (Suc p) st = at s q' (Suc p + length v) st"
    using assms(4)
  proof
    assume q: "q = 511 \<and> qs = host1"
    show ?thesis
      by (rule at_class_in [where r = r, OF uri_host_steps(3) [folded conjunct2 [OF q]]])
        (use n(1) assms(2,3) q w drop_Suc_next in \<open>auto simp: all_in_def host1_def\<close>)
  next
    assume q: "q = 522 \<and> qs = host2"
    show ?thesis
      by (rule at_class_in [where r = r, OF uri_host_steps(4) [folded conjunct2 [OF q]]])
        (use n(1) assms(2,3) q w drop_Suc_next in \<open>auto simp: all_in_def host2_def\<close>)
  qed
  then show ?thesis using n(2) w by auto
qed

lemma user_run:
  assumes "w \<noteq> []" "all_in reg_ivs w" "drop p s = w @ CHR ''@'' # r"
  shows "at s 511 p (Inr (u, m)) = at s 522 (p + length w + 1) (Inr (u\<lparr>uri_userinfo := w\<rparr>, None))"
proof -
  obtain n where n: "n \<in> set host1" "at s 511 p (Inr (u, m)) = at s n (p + length w) (Inr (u, Some p))"
    using host_run [OF assms, of 511 host1] by auto
  have "uri_case n 64 = Some (Tr 263)" using takes1 [OF uri_host_steps(6) _ n(1)] by simp
  then show ?thesis
    using n(2) at_tr [of "p + length w" s "CHR ''@''" r n 263] drop_next [OF assms(3)] uri_blocks(3) marked_at [OF assms(3)] by simp
qed

text \<open>The host and the byte behind it.\<close>

lemma host_slash:
  assumes "n \<in> set host1 \<union> set host2" "drop p s = w @ CHR ''/'' # r"
  shows "at s n (p + length w) (Inr (u, Some p)) = at s 513 (p + length w + 1) (Inr (u\<lparr>uri_host := w\<rparr>, Some (p + length w)))"
proof -
  have "uri_case n 47 = Some (Tr 560)" using takes1 [OF uri_host_steps(5), of n] assms(1) by simp
  then show ?thesis using at_tr [of "p + length w" s "CHR ''/''" r n 560] drop_next [OF assms(2)] uri_blocks(4) marked_at [OF assms(2)] by simp
qed

text \<open>After the host a colon: a port, or what Ragel takes for one.\<close>

lemma host_colon:
  assumes "n \<in> set qs" "qs = host1 \<and> q = 521 \<or> qs = host2 \<and> q = 514" "drop p s = w @ CHR '':'' # r"
  shows "at s n (p + length w) (Inr (u, Some p)) = at s q (p + length w + 1) (Inr (u\<lparr>uri_host := w\<rparr>, Some p))"
proof -
  have "uri_case n 58 = Some (Tr 576) \<and> q = 521 \<or> uri_case n 58 = Some (Tr 561) \<and> q = 514"
    using assms(1,2) takes1 [OF uri_host_steps(7), of n] takes1 [OF uri_host_steps(8), of n] by auto
  then show ?thesis
    using at_tr [of "p + length w" s "CHR '':''" r n 576] at_tr [of "p + length w" s "CHR '':''" r n 561] drop_next [OF assms(3)]
      uri_blocks(5,6) marked_at [OF assms(3)] by auto
qed

lemma port_digits:
  assumes "w \<noteq> []" "all_in [(48, 57)] w" "drop p s = w @ r" "q = 521 \<and> n = 542 \<or> q = 514 \<and> n = 515"
  shows "at s q p (Inr (u, m)) = at s n (p + length w) (Inr (u, Some p))"
proof -
  obtain c v where w: "w = c # v" using assms(1) by (cases w) auto
  have c: "uri_case q (uc c) = Some (Tr 577) \<and> q = 521 \<or> uri_case q (uc c) = Some (Tr 568) \<and> q = 514"
    using assms(2,4) takes1 [OF uri_port_steps(1), of 521 "uc c"] takes1 [OF uri_port_steps(2), of 514 "uc c"] w by (auto simp: all_in_def)
  have d: "uri_case n (uc x) = Some (St n)" if "x \<in> set v" for x
    using assms(2,4) goes [OF uri_port_steps(3), of "uc x"] goes [OF uri_port_steps(4), of "uc x"] that w by (auto simp: all_in_def list_all_iff)
  have "at s q p (Inr (u, m)) = at s n (Suc p) (Inr (u, Some p))"
    using c at_tr [of p s c "v @ r" q 577] at_tr [of p s c "v @ r" q 568] uri_blocks(7,8) assms(3,4) w by auto
  also have "\<dots> = at s n (Suc p + length v) (Inr (u, Some p))"
    by (rule at_loop [OF d]) (use assms(3,4) w drop_Suc_next in auto)
  finally show ?thesis by (simp add: w)
qed

text \<open>The number of a port, with a byte behind it that is no digit.\<close>

lemma strtol_dec:
  assumes "n < 2 ^ 63" "digit_of 10 x = None" "x \<noteq> CHR 0x00"
  shows "strtol 10 (dec_string n @ x # t) = int n"
proof -
  let ?s = "dec_string n"
  have d: "(of_char c :: nat) \<in> {48..57}" if "c \<in> set ?s" for c using dec_digit(2) [OF that] .
  have "CHR 0x00 \<notin> set ?s" using d [of "CHR 0x00"] by auto
  then have c: "c_str (?s @ x # t) = ?s @ x # c_str t" using assms(3) by (subst c_str_append) (simp_all add: c_str_def)
  obtain y ys where s: "?s = y # ys" by (cases ?s) simp_all
  have "(of_char y :: nat) \<in> {48..57}" using d [of y] s by simp
  then have y: "y \<noteq> CHR '' ''" "y \<noteq> CHR ''-''" "y \<noteq> CHR ''+''" "\<not> (of_char y :: nat) \<le> 13" by auto
  have "\<exists>v. digit_of 10 z = Some v \<and> digit_value z = v" if "z \<in> set ?s" for z
    using d [OF that] by (auto simp: digit_of_def digit_value_def Let_def)
  then have v: "digits_value 10 0 (?s @ x # u) = n" for u
    using digits_value_text [of ?s 10 x 0 u, OF _ assms(2)] num_value_string [of 10 n] by (force simp: num_value_def)
  have "dropWhile (\<lambda>c. c = CHR '' '' \<or> of_char c \<in> {9..(13 :: nat)}) (?s @ x # u) = ?s @ x # u" for u using y by (simp add: s)
  then show ?thesis unfolding strtol_def c Let_def using y v assms(1) by (simp add: s)
qed

lemma dec_all_in: "all_in [(48, 57)] (dec_string n)"
  using dec_digit(1) by (auto simp: all_in_def list_all_iff)

lemma port_run:
  assumes "n \<in> set qs" "qs = host1 \<or> qs = host2" "drop p s = w @ CHR '':'' # dec_string k @ CHR ''/'' # r" "k < 2 ^ 63"
  shows "at s n (p + length w) (Inr (u, Some p))
    = at s 513 (p + length w + length (dec_string k) + 2) (Inr (u\<lparr>uri_host := w, uri_port := word_of_nat k\<rparr>, Some (p + length w + length (dec_string k) + 1)))"
proof -
  obtain q m :: int where q: "qs = host1 \<and> q = 521 \<or> qs = host2 \<and> q = 514" "q = 521 \<and> m = 542 \<or> q = 514 \<and> m = 515" "m \<in> {542, 515}" using assms(2) by blast
  let ?p = "p + length w + 1"
  have dp: "drop ?p s = dec_string k @ CHR ''/'' # r" using drop_next [of p s "w @ '':''"] assms(3) by simp
  have x: "digit_of 10 (CHR ''/'') = None" by code_simp
  have y: "CHR ''/'' \<noteq> CHR 0x00" by simp
  have pt: "word_of_int (strtol 10 (drop ?p s)) = (word_of_nat k :: i32)" unfolding dp strtol_dec [OF assms(4) x y, of r] by simp
  have "at s n (p + length w) (Inr (u, Some p)) = at s q ?p (Inr (u\<lparr>uri_host := w\<rparr>, Some p))" by (rule host_colon [OF assms(1) q(1) assms(3)])
  also have "\<dots> = at s m (?p + length (dec_string k)) (Inr (u\<lparr>uri_host := w\<rparr>, Some ?p))"
    by (rule port_digits [OF _ dec_all_in dp q(2)]) simp
  also have "\<dots> = at s 513 (Suc (?p + length (dec_string k))) (Inr (u\<lparr>uri_host := w, uri_port := word_of_nat k\<rparr>, Some (?p + length (dec_string k))))"
    using at_tr [of "?p + length (dec_string k)" s "CHR ''/''" r m 571] drop_next [OF dp] takes1 [OF uri_port_steps(5), of m 47] q(3) uri_blocks(9) pt by auto
  finally show ?thesis by simp
qed

section \<open>Path, query and fragment\<close>

lemma at_pct:
  assumes "drop p s = w @ r"
  shows "pct_in path_ivs w \<Longrightarrow> at s 513 p st = at s 513 (p + length w) st"
    "pct_in query_ivs w \<Longrightarrow> at s 457 p st = at s 457 (p + length w) st"
    "pct_in query_ivs w \<Longrightarrow> at s 454 p st = at s 454 (p + length w) st"
  using drop_next [OF assms] path_pct.exec_pct [of "bytes w" uri_tr "uri_act s" 0 p "bytes r" st]
    query_pct.exec_pct [of "bytes w" uri_tr "uri_act s" 0 p "bytes r" st] fragment_pct.exec_pct [of "bytes w" uri_tr "uri_act s" 0 p "bytes r" st]
  by (simp_all add: at_def pct_in_def assms comp_def del: ragel_exec.simps)

text \<open>The first character of a query or a fragment sets the mark; the machine then is where the loop would be.\<close>

lemma first_pct:
  assumes "w \<noteq> []" "pct_in query_ivs w" "drop p s = w @ r"
  shows "at s 456 p (Inr (u, m)) = at s 457 p (Inr (u, Some p))" "at s 453 p (Inr (u, m)) = at s 454 p (Inr (u, Some p))"
proof -
  obtain c v where w: "w = c # v" using assms(1) by (cases w) auto
  have d: "drop p s = c # v @ r" using assms(3) w by simp
  have "uc c = 37 \<or> in_intervals query_ivs (uc c)" using assms(2) w by (auto simp: pct_in_def split: if_splits)
  then have "uri_case 456 (uc c) = Some (Tr 468) \<and> uri_case 457 (uc c) = Some (St 7) \<and> uri_case 453 (uc c) = Some (Tr 463) \<and> uri_case 454 (uc c) = Some (St 1)
    \<or> uri_case 456 (uc c) = Some (Tr 466) \<and> uri_case 457 (uc c) = Some (St 457) \<and> uri_case 453 (uc c) = Some (Tr 462) \<and> uri_case 454 (uc c) = Some (St 454)"
  proof
    assume "uc c = 37"
    then show ?thesis using takes1 [OF uri_tail_steps(6), of 456 "uc c"] goes [OF uri_tail_steps(8), of "uc c"]
        takes1 [OF uri_tail_steps(11), of 453 "uc c"] goes [OF uri_tail_steps(13), of "uc c"] by simp
  next
    assume "in_intervals query_ivs (uc c)"
    then show ?thesis using takes1 [OF uri_tail_steps(5), of 456 "uc c"] goes [OF uri_tail_steps(7), of "uc c"]
        takes1 [OF uri_tail_steps(10), of 453 "uc c"] goes [OF uri_tail_steps(12), of "uc c"] by simp
  qed
  then show "at s 456 p (Inr (u, m)) = at s 457 p (Inr (u, Some p))" "at s 453 p (Inr (u, m)) = at s 454 p (Inr (u, Some p))"
    using at_tr [OF d] at_goto [OF d] uri_blocks(12,13,15,16) by auto
qed

definition uri_finish :: "string \<Rightarrow> nat \<times> int \<times> uri_scan \<Rightarrow> (uri_error, Uri option) result" where
  "uri_finish s = (\<lambda>(p, cs, st).
     rbind (if p = length s then fold (\<lambda>a. uri_act s a p) (uri_eof cs) st else st) (\<lambda>(u, mark). Inr (if cs = 0 then None else if 451 \<le> cs then Some u else None)))"

lemma uri_Create_at: "uri_Create s = uri_finish s (at s 451 0 (Inr (new_Uri, None)))"
  unfolding uri_Create_def uri_finish_def at_def uri_parser_start_def uri_parser_error_def uri_parser_first_final_def
  by (simp add: Let_def case_prod_unfold del: ragel_exec.simps)

lemma finish_end: "drop p s = [] \<Longrightarrow> p \<le> length s \<Longrightarrow>
    uri_finish s (at s q p st) = rbind (fold (\<lambda>a. uri_act s a p) (uri_eof q) st) (\<lambda>(u, mark). Inr (if q = 0 then None else if 451 \<le> q then Some u else None))"
  by (simp add: at_end uri_finish_def)

lemma eof_simps [simp]:
  "uri_eof 513 = [save_path]" "uri_eof 457 = [save_query]" "uri_eof 454 = [save_fragment]" "uri_eof 521 = [U_mark, save_port, save_path]"
  by code_simp+

lemma fragment_end:
  assumes "w \<noteq> []" "pct_in query_ivs w" "drop p s = w" "uri_finish s (at s 453 p (Inr (u, m))) = x"
  shows "x = Inr (Some (u\<lparr>uri_fragment := w\<rparr>))"
proof -
  have d: "drop p s = w @ []" using assms(3) by simp
  have l: "p + length w \<le> length s" using drop_le [OF d assms(1)] .
  have "at s 453 p (Inr (u, m)) = at s 454 (p + length w) (Inr (u, Some p))" using first_pct(2) [OF assms(1,2) d] at_pct(3) [OF d assms(2)] by simp
  then show ?thesis using assms(4) finish_end [OF drop_next [OF d] l] marked_at [OF d] by simp
qed

lemma query_end:
  assumes "w \<noteq> []" "pct_in query_ivs w" "pct_in query_ivs f" "drop p s = w @ (if f = [] then [] else ''#'' @ f)"
  shows "uri_finish s (at s 456 p (Inr (u, m))) = Inr (Some (if f = [] then u\<lparr>uri_query := w\<rparr> else u\<lparr>uri_query := w, uri_fragment := f\<rparr>))"
proof -
  let ?p = "p + length w"
  have a: "at s 456 p (Inr (u, m)) = at s 457 ?p (Inr (u, Some p))" using first_pct(1) [OF assms(1,2,4)] at_pct(2) [OF assms(4,2)] by simp
  have l: "?p \<le> length s" using drop_le [OF assms(4,1)] .
  show ?thesis
  proof (cases "f = []")
    case True
    then show ?thesis using a finish_end [of ?p s] l drop_next [OF assms(4)] marked_at [OF assms(4)] by simp
  next
    case False
    have d: "drop ?p s = CHR ''#'' # f" using drop_next [OF assms(4)] False by simp
    have "at s 457 ?p (Inr (u, Some p)) = at s 453 (Suc ?p) (Inr (u\<lparr>uri_query := w\<rparr>, None))"
      using at_tr [OF d] takes1 [OF uri_tail_steps(9), of 457 35] uri_blocks(14) marked_at [OF assms(4)] by simp
    then show ?thesis using a False fragment_end [OF False assms(3) drop_Suc_next [OF d] refl] by simp
  qed
qed

text \<open>From the slash on.\<close>

lemma tail_run:
  assumes "drop p s = path @ (if q = [] then [] else ''?'' @ q) @ (if f = [] then [] else ''#'' @ f)" "path = CHR ''/'' # w"
    and "pct_in path_ivs w" "pct_in query_ivs q" "pct_in query_ivs f"
  shows "uri_finish s (at s 513 (Suc p) (Inr (u, Some p)))
    = Inr (Some (u\<lparr>uri_path := path, uri_query := (if q = [] then uri_query u else q), uri_fragment := (if f = [] then uri_fragment u else f)\<rparr>))"
proof -
  let ?p = "p + length path" and ?r = "(if q = [] then [] else ''?'' @ q) @ (if f = [] then [] else ''#'' @ f)"
  have w: "drop (Suc p) s = w @ ?r" by (rule drop_Suc_next [of _ _ "CHR ''/''"]) (use assms(1,2) in simp)
  have a: "at s 513 (Suc p) (Inr (u, Some p)) = at s 513 ?p (Inr (u, Some p))" using at_pct(1) [OF w assms(3)] assms(2) by simp
  have r: "drop ?p s = ?r" using drop_next [OF assms(1)] .
  have m: "marked s (Some p) ?p = Inr path" by (rule marked_at [OF assms(1)])
  show ?thesis
  proof (cases "q = []")
    case True
    show ?thesis
    proof (cases "f = []")
      case True
      have "?p \<le> length s" using drop_le [OF assms(1)] assms(2) by simp
      then show ?thesis using \<open>q = []\<close> True a r m finish_end [of ?p s] by simp
    next
      case False
      have d: "drop ?p s = CHR ''#'' # f" using r \<open>q = []\<close> False by simp
      have "at s 513 ?p (Inr (u, Some p)) = at s 453 (Suc ?p) (Inr (u\<lparr>uri_path := path\<rparr>, None))"
        using at_tr [OF d] takes1 [OF uri_tail_steps(4), of 513 35] uri_blocks(11) m by simp
      then show ?thesis using a \<open>q = []\<close> False fragment_end [OF False assms(5) drop_Suc_next [OF d] refl] by simp
    qed
  next
    case False
    have d: "drop ?p s = CHR ''?'' # q @ (if f = [] then [] else ''#'' @ f)" using r False by simp
    have "at s 513 ?p (Inr (u, Some p)) = at s 456 (Suc ?p) (Inr (u\<lparr>uri_path := path\<rparr>, None))"
      using at_tr [OF d] takes1 [OF uri_tail_steps(3), of 513 63] uri_blocks(10) m by simp
    then show ?thesis using a False query_end [OF False assms(4,5) drop_Suc_next [OF d]] by simp
  qed
qed

section \<open>Reading back what dump prints\<close>

text \<open>
  The parts are made of the characters RFC 3986 allows them (percent escapes and bytes above 127 in path, query and
  fragment), there is a host, the user has no colon, and the port is not negative.
\<close>

definition uri_ok :: "Uri \<Rightarrow> bool" where
  "uri_ok u \<longleftrightarrow> scheme_ok (uri_scheme u) \<and> uri_host u \<noteq> [] \<and> all_in reg_ivs (uri_host u) \<and> all_in reg_ivs (uri_userinfo u)
     \<and> (uri_path u = [] \<or> hd (uri_path u) = CHR ''/'' \<and> pct_in path_ivs (tl (uri_path u)))
     \<and> pct_in query_ivs (uri_query u) \<and> pct_in query_ivs (uri_fragment u) \<and> 0 \<le> sint (uri_port u)"

lemma getPath_ok: "uri_ok u \<Longrightarrow> \<exists>w. uri_getPath u = CHR ''/'' # w \<and> pct_in path_ivs w"
  by (cases "uri_path u") (auto simp: uri_ok_def uri_getPath_def pct_in_def)

text \<open>The authority, up to the slash behind it.\<close>

lemma host_port_run:
  assumes "uri_ok u" "q0 = 511 \<and> qs = host1 \<or> q0 = 522 \<and> qs = host2"
    and "drop p s = uri_host u @ (if isDefaultPort u then [] else '':'' @ int_string (sint (uri_port u))) @ CHR ''/'' # r"
  shows "\<exists>p'. drop p' s = CHR ''/'' # r \<and> at s q0 p (Inr (v, m))
    = at s 513 (Suc p') (Inr (if isDefaultPort u then v\<lparr>uri_host := uri_host u\<rparr> else v\<lparr>uri_host := uri_host u, uri_port := uri_port u\<rparr>, Some p'))"
proof -
  let ?h = "uri_host u" and ?k = "nat (sint (uri_port u))"
  have h: "?h \<noteq> []" "all_in reg_ivs ?h" and k0: "0 \<le> sint (uri_port u)" using assms(1) by (simp_all add: uri_ok_def)
  obtain n where n: "n \<in> set qs" "at s q0 p (Inr (v, m)) = at s n (p + length ?h) (Inr (v, Some p))"
    using host_run [OF h assms(3,2)] by blast
  show ?thesis
  proof (cases "isDefaultPort u")
    case True
    then have d: "drop p s = ?h @ CHR ''/'' # r" using assms(3) by simp
    have "at s n (p + length ?h) (Inr (v, Some p)) = at s 513 (p + length ?h + 1) (Inr (v\<lparr>uri_host := ?h\<rparr>, Some (p + length ?h)))"
      by (rule host_slash [OF _ d]) (use n(1) assms(2) in auto)
    then show ?thesis using n(2) True drop_next [OF d] by (intro exI [of _ "p + length ?h"]) simp
  next
    case False
    have i: "int_string (sint (uri_port u)) = dec_string ?k" using k0 by (simp add: int_string_def)
    have d: "drop p s = ?h @ CHR '':'' # dec_string ?k @ CHR ''/'' # r" using assms(3) False i by simp
    have "sint (uri_port u) < 2 ^ 31" using sint_less [of "uri_port u"] by simp
    then have k: "?k < 2 ^ 63" by simp
    have w: "word_of_nat ?k = uri_port u" using k0 by simp
    have "drop (p + length ?h + length (dec_string ?k) + 1) s = CHR ''/'' # r"
      using drop_next [of p s "?h @ CHR '':'' # dec_string ?k"] d by (simp add: add.assoc)
    moreover have "qs = host1 \<or> qs = host2" using assms(2) by blast
    ultimately show ?thesis using n(2) port_run [OF n(1) _ d k, of v] False w
      by (intro exI [of _ "p + length ?h + length (dec_string ?k) + 1"]) simp
  qed
qed

text \<open>C35: Uri::Create reads back what Uri::dump prints. For every URI with a scheme and a host whose parts are made of the
  characters their grammar allows, Create of the printed text succeeds and gives the same URI, with the
  path that getPath shows and the port left out when it is the default; that URI prints the same text again, and
  for the schemes with a default port it has the same port.\<close>

theorem uri_roundtrip:
  assumes "uri_ok u"
  shows "\<exists>v. uri_Create (uri_dump u) = Inr (Some v) \<and> v = u\<lparr>uri_path := uri_getPath u, uri_port := if isDefaultPort u then 0 else uri_port u\<rparr>
    \<and> uri_dump v = uri_dump u \<and> (uri_scheme u \<in> {''http'', ''ws'', ''https'', ''wss''} \<longrightarrow> uri_getPort v = uri_getPort u)"
proof -
  let ?s = "uri_dump u" and ?ui = "uri_userinfo u" and ?p = "length (uri_scheme u) + 3"
  let ?q = "uri_query u" and ?f = "uri_fragment u"
  let ?t = "(if ?q = [] then [] else ''?'' @ ?q) @ (if ?f = [] then [] else ''#'' @ ?f)"
  let ?v = "u\<lparr>uri_path := uri_getPath u, uri_port := if isDefaultPort u then 0 else uri_port u\<rparr>"
  obtain w where w: "uri_getPath u = CHR ''/'' # w" "pct_in path_ivs w" using getPath_ok [OF assms] by blast
  let ?hp = "uri_host u @ (if isDefaultPort u then [] else '':'' @ int_string (sint (uri_port u))) @ CHR ''/'' # w @ ?t"
  have s: "?s = uri_scheme u @ ''://'' @ ?ui @ (if ?ui = [] then [] else ''@'') @ ?hp" by (simp add: uri_dump_def w(1))
  have sch: "scheme_ok (uri_scheme u)" and qf: "pct_in query_ivs ?q" "pct_in query_ivs ?f" and ui: "all_in reg_ivs ?ui" using assms by (simp_all add: uri_ok_def)
  let ?v1 = "new_Uri\<lparr>uri_scheme := uri_scheme u\<rparr>"
  have 1: "at ?s 451 0 (Inr (new_Uri, None)) = at ?s 511 ?p (Inr (?v1, None))" by (rule scheme_run [OF sch s])
  have d1: "drop ?p ?s = ?ui @ (if ?ui = [] then [] else ''@'') @ ?hp" using drop_next [of 0 ?s "uri_scheme u @ ''://''"] s by (simp add: numeral_3_eq_3)
  have "\<exists>q0 qs p2 m. (q0 = 511 \<and> qs = host1 \<or> q0 = 522 \<and> qs = host2) \<and> drop p2 ?s = ?hp
    \<and> at ?s 511 ?p (Inr (?v1, None)) = at ?s q0 p2 (Inr (?v1\<lparr>uri_userinfo := ?ui\<rparr>, m))"
  proof (cases "?ui = []")
    case True
    then have "?v1\<lparr>uri_userinfo := ?ui\<rparr> = ?v1" by (simp add: new_Uri_def)
    then show ?thesis using d1 True by (intro exI [of _ 511] exI [of _ host1] exI [of _ ?p] exI [of _ None]) simp
  next
    case False
    then have d: "drop ?p ?s = ?ui @ CHR ''@'' # ?hp" using d1 by simp
    have "drop (?p + length ?ui + 1) ?s = ?hp" using drop_next [of ?p ?s "?ui @ ''@''"] d by (simp add: add.assoc)
    then show ?thesis using user_run [OF False ui d] by blast
  qed
  then obtain q0 qs p2 m where 2: "q0 = 511 \<and> qs = host1 \<or> q0 = 522 \<and> qs = host2" "drop p2 ?s = ?hp"
    "at ?s 511 ?p (Inr (?v1, None)) = at ?s q0 p2 (Inr (?v1\<lparr>uri_userinfo := ?ui\<rparr>, m))" by blast
  obtain p3 v3 where 3: "drop p3 ?s = CHR ''/'' # w @ ?t" "at ?s q0 p2 (Inr (?v1\<lparr>uri_userinfo := ?ui\<rparr>, m)) = at ?s 513 (Suc p3) (Inr (v3, Some p3))"
    "v3 = (if isDefaultPort u then ?v1\<lparr>uri_userinfo := ?ui, uri_host := uri_host u\<rparr>
      else ?v1\<lparr>uri_userinfo := ?ui, uri_host := uri_host u, uri_port := uri_port u\<rparr>)"
    using host_port_run [OF assms 2(1,2), of "?v1\<lparr>uri_userinfo := ?ui\<rparr>" m] by auto
  have 4: "uri_finish ?s (at ?s 513 (Suc p3) (Inr (v3, Some p3)))
      = Inr (Some (v3\<lparr>uri_path := uri_getPath u, uri_query := (if ?q = [] then uri_query v3 else ?q), uri_fragment := (if ?f = [] then uri_fragment v3 else ?f)\<rparr>))"
    by (rule tail_run [OF _ w(1,2) qf]) (use 3(1) w(1) in simp)
  have "uri_Create ?s = Inr (Some ?v)"
    unfolding uri_Create_at 1 2(3) 3(2) 4 by (cases u) (simp add: 3(3) new_Uri_def)
  moreover have "uri_dump ?v = ?s" by (simp add: uri_dump_def isDefaultPort_def uri_getPath_def)
  moreover have "uri_getPort ?v = uri_getPort u" if "uri_scheme u \<in> {''http'', ''ws'', ''https'', ''wss''}"
    using that by (auto simp: uri_getPort_def isDefaultPort_def split: if_splits)
  ultimately show ?thesis by blast
qed

definition demo_uri :: Uri where
  "demo_uri = \<lparr>uri_scheme = ''http'', uri_userinfo = ''me'', uri_host = ''10.0.0.1'', uri_path = ''/a%20b/c'', uri_query = ''k=v&x'', uri_fragment = ''top'',
     uri_port = 8080\<rparr>"

lemma demo_uri_ok: "uri_ok demo_uri"
  by code_simp

theorem uri_roundtrip_witness: "\<exists>v. uri_Create (uri_dump demo_uri) = Inr (Some v) \<and> uri_port v = 8080 \<and> uri_query v = ''k=v&x''"
  using uri_roundtrip [OF demo_uri_ok] by (auto simp: demo_uri_def isDefaultPort_def)

section \<open>Texts that fail\<close>

text \<open>Create throws on a URI that ends in the colon of an empty port. RFC 3986 allows an empty port, and the machine
  accepts it, but the action for the port clears the mark that the action for the path, run at the same
  end of text, turns into a string: constructing it from the null pointer throws.\<close>

theorem uri_empty_port_throws:
  assumes "scheme_ok sch" and "h \<noteq> []" and "all_in reg_ivs h"
  shows "uri_Create (sch @ ''://'' @ h @ '':'') = Inl StringFromNull"
proof -
  let ?s = "sch @ ''://'' @ h @ '':''" and ?p = "length sch + 3"
  let ?u = "new_Uri\<lparr>uri_scheme := sch\<rparr>"
  have d: "drop ?p ?s = h @ CHR '':'' # []" using drop_next [of 0 ?s "sch @ ''://''"] by (simp add: numeral_3_eq_3)
  obtain n where n: "n \<in> set host1" "at ?s 511 ?p (Inr (?u, None)) = at ?s n (?p + length h) (Inr (?u, Some ?p))"
    using host_run [OF assms(2,3) d, of 511 host1] by auto
  have "at ?s 451 0 (Inr (new_Uri, None)) = at ?s 521 (?p + length h + 1) (Inr (?u\<lparr>uri_host := h\<rparr>, Some ?p))"
    using scheme_run [OF assms(1) refl] n host_colon [OF n(1) _ d, of 521] by simp
  moreover have "drop (?p + length h + 1) ?s = []" using drop_next [of ?p ?s "h @ '':''"] d by (simp add: add.assoc)
  moreover have "?p + length h + 1 \<le> length ?s" by simp
  ultimately show ?thesis using finish_end [of "?p + length h + 1" ?s 521] by (simp only: uri_Create_at) (simp add: marked_def)
qed

theorem uri_empty_port_throws_witness: "uri_Create ''http://host:'' = Inl StringFromNull"
proof -
  have "scheme_ok ''http''" "all_in reg_ivs ''host''" by code_simp+
  then show ?thesis using uri_empty_port_throws [of "''http''" "''host''"] by simp
qed

text \<open>
  A password that starts with digits is taken for a port first: the mark moves to it and the user's name is lost.
\<close>

theorem uri_password_drops_user:
  assumes "scheme_ok sch" and "usr \<noteq> []" "all_in reg_ivs usr" and "pw \<noteq> []" "all_in [(48, 57)] pw" and "h \<noteq> []" "all_in reg_ivs h"
  shows "\<exists>v. uri_Create (sch @ ''://'' @ usr @ '':'' @ pw @ ''@'' @ h @ ''/'') = Inr (Some v) \<and> uri_userinfo v = pw \<and> uri_host v = h"
proof -
  let ?r = "h @ CHR ''/'' # []"
  let ?s = "sch @ ''://'' @ usr @ '':'' @ pw @ ''@'' @ h @ ''/''" and ?p = "length sch + 3"
  let ?p1 = "?p + length usr + 1" and ?u = "new_Uri\<lparr>uri_scheme := sch\<rparr>"
  let ?p2 = "?p1 + length pw + 1"
  have d: "drop ?p ?s = usr @ CHR '':'' # pw @ CHR ''@'' # ?r" using drop_next [of 0 ?s "sch @ ''://''"] by (simp add: numeral_3_eq_3)
  have d1: "drop ?p1 ?s = pw @ CHR ''@'' # ?r" using drop_next [of ?p ?s "usr @ '':''"] d by (simp add: add.assoc)
  have d2: "drop ?p2 ?s = ?r" using drop_next [of ?p1 ?s "pw @ ''@''"] d1 by (simp add: add.assoc)
  obtain n where n: "n \<in> set host1" "at ?s 511 ?p (Inr (?u, None)) = at ?s n (?p + length usr) (Inr (?u, Some ?p))"
    using host_run [OF assms(2,3) d, of 511 host1] by auto
  let ?u1 = "?u\<lparr>uri_host := usr\<rparr>"
  have "at ?s 451 0 (Inr (new_Uri, None)) = at ?s 542 (?p1 + length pw) (Inr (?u1, Some ?p1))"
    using scheme_run [OF assms(1) refl] n host_colon [OF n(1) _ d, of 521] port_digits [OF assms(4,5) d1, of 521 542] by simp
  also have "\<dots> = at ?s 522 ?p2 (Inr (?u1\<lparr>uri_userinfo := pw\<rparr>, None))"
    using at_tr [OF drop_next [OF d1], of 542 263] takes1 [OF uri_port_steps(6), of 542 64] uri_blocks(3) marked_at [OF d1] by simp
  finally have a: "at ?s 451 0 (Inr (new_Uri, None)) = at ?s 522 ?p2 (Inr (?u1\<lparr>uri_userinfo := pw\<rparr>, None))" .
  let ?u2 = "?u1\<lparr>uri_userinfo := pw, uri_host := h\<rparr>"
  obtain n2 where n2: "n2 \<in> set host2" "at ?s 522 ?p2 (Inr (?u1\<lparr>uri_userinfo := pw\<rparr>, None)) = at ?s n2 (?p2 + length h) (Inr (?u1\<lparr>uri_userinfo := pw\<rparr>, Some ?p2))"
    using host_run [OF assms(6,7) d2, of 522 host2] by auto
  have "at ?s n2 (?p2 + length h) (Inr (?u1\<lparr>uri_userinfo := pw\<rparr>, Some ?p2)) = at ?s 513 (Suc (?p2 + length h)) (Inr (?u2, Some (?p2 + length h)))"
    using host_slash [OF _ d2, of n2] n2(1) by simp
  then have "uri_Create ?s = uri_finish ?s (at ?s 513 (Suc (?p2 + length h)) (Inr (?u2, Some (?p2 + length h))))" unfolding uri_Create_at a n2(2) by simp
  moreover have "drop (?p2 + length h) ?s = ''/'' @ (if [] = [] then [] else ''?'' @ []) @ (if [] = [] then [] else ''#'' @ [])"
    using drop_next [OF d2] by simp
  moreover note tail_run [OF this refl, of ?u2]
  ultimately show ?thesis by (simp add: pct_in_def new_Uri_def)
qed

end
