(* ===== verification/Spec2Isabelle.thy ===== *)
theory Spec2Isabelle
  imports ByteArray_Codec HookWait HttpPool Logging ServerConf SocketStream UriText
begin

text \<open>
  HPS is a C++ network server library. A byte buffer holds messages; timers, fibers, a scheduler and an
  epoll loop run the code of a server; system call hooks turn blocking calls into suspended fibers;
  addresses, sockets and streams carry the bytes; on top are a TCP server, HTTP messages, servlets, a server
  loop, a client connection and a pool of connections. Configuration and logging serve all of them.
  Paths below are relative to the root of the repository.

  \<^bold>\<open>Theories and sources.\<close>
  \<^item> \<open>Prelude\<close>: machine integers, the result type, lemmas on lists and words. \<open>StdContainers\<close>: std::set and std::map
    over a comparator. \<open>CText\<close>: text as the C library reads and prints it.
  \<^item> \<open>Endian\<close> (\<open>src/endian.hpp\<close>), \<open>ByteArray\<close> and \<open>ByteArray_Codec\<close> (\<open>src/bytearray.cc\<close>): storage as a chain of blocks with a
    cursor, and the typed readers and writers.
  \<^item> \<open>Timer\<close> (\<open>src/timer.cc\<close>): timers in a store and the ordered set of their pointers. \<open>Fiber\<close> (\<open>src/fiber.cc\<close>): contexts and
    the switches between them. \<open>Scheduler\<close> (\<open>src/scheduler.cc\<close>): the run loop as a program counter per thread, with all
    interleavings. \<open>IOManager\<close> (\<open>src/iomanager.cc\<close>): event contexts, epoll_ctl and the idle loop; it is a scheduler and a
    timer manager, so its record holds one of each.
  \<^item> \<open>FdManager\<close> (\<open>src/fd_manager.cc\<close>), \<open>Hook\<close> and \<open>HookWait\<close> (\<open>src/hook.cc\<close>): hooked calls, cut at the points where the fiber
    yields; a wait registers with the IOManager and arms a timer.
  \<^item> \<open>StringUtil\<close> (\<open>src/util.cc\<close>), \<open>Address\<close> (\<open>src/address.cc\<close>), \<open>Streams\<close> (\<open>src/stream.cc\<close>, \<open>src/streams/socket_stream.cc\<close>).
  \<^item> \<open>Socket\<close> (\<open>src/socket.cc\<close>): plain and SSL sockets and the virtual calls; \<open>SocketOwner\<close>: programs over a store of sockets
    and the descriptors they own; \<open>SocketStream\<close>: streams on that store; \<open>TcpServer\<close> (\<open>src/tcp_server.cc\<close>): the server with
    its accept loops and queues as a history of actions; \<open>ServerConf\<close> (\<open>src/tcp_server.h\<close>): its configuration.
  \<^item> \<open>Http\<close> (\<open>src/http/http.cc\<close>): messages. \<open>Servlet\<close> (\<open>src/http/servlet.cc\<close>, \<open>src/http/http_server.cc\<close>): dispatch and the loop of
    a connection.
  \<^item> \<open>Ragel\<close>: goto machines as tables of states and transition blocks, and an interpreter for such tables. \<open>HttpMachine\<close>,
    \<open>HttpScanner\<close> (\<open>src/http/http11_parser.rl.cc\<close>) with \<open>HttpRequestStates\<close>, \<open>HttpRequestText\<close>; \<open>ClientMachine\<close>, \<open>ClientScanner\<close>
    (\<open>src/http/httpclient_parser.rl.cc\<close>) with \<open>ClientStates\<close>, \<open>HttpResponseText\<close>; \<open>UriMachine\<close>, \<open>UriScanner\<close>
    (\<open>src/uri.rl.cc\<close>) with \<open>UriText\<close>: the table, the actions around it, and what the scanner does on printed texts.
    \<open>Uri\<close> (\<open>src/uri.h\<close>): URIs and their printing.
  \<^item> \<open>HttpSession\<close> (\<open>src/http/http_parser.cc\<close>, \<open>src/http/http_session.cc\<close>) and \<open>HttpConnection\<close>, \<open>HttpPool\<close>
    (\<open>src/http/http_connection.cc\<close>): reading requests and responses from a stream, the client and its pool.
  \<^item> \<open>Config\<close> (\<open>src/config.h\<close>, \<open>src/config.cc\<close>, \<open>src/env.cc\<close>): conversions, variables with listeners, the registry and
    loading. \<open>Log\<close> (\<open>src/log.cc\<close>): patterns, appenders, loggers and the listener of their configuration; \<open>Logging\<close>: what
    they promise.

  \<^bold>\<open>What the lemmas show.\<close> The byte buffer refines a byte string with a position, and every sequence of typed values
  is read back. The timer set stays ordered, fires exactly what is due, and never misses a wakeup. No
  fiber runs on two threads and no assertion of the scheduler fails. Event contexts, interest list and
  counter agree, a ready event fires once, and the idle loop ends exactly when it may. A hooked call
  is resumed at most once and ends at its timeout. Sockets and servers own exactly the descriptors they
  opened over every history of calls, and a bind serves all addresses or none. Percent coding, query strings,
  addresses, URIs, patterns, and printed requests and responses are read back through the real scanners. Headers
  ignore case, dispatch follows the history of registrations, and the session and connection loops return on
  every finite input with exactly the announced body. The scanner of requests never fails an
  assertion; it loses text that is cut by the end of a read. Loading a document gives every variable its last
  value, and logging never meets a null pointer. Where the code fails, the failure is stated as a theorem.

  \<^bold>\<open>Interfaces.\<close> \<open>byte_cursor\<close> is what the codecs need of the buffer; \<open>strict_weak\<close> and \<open>strict_total\<close> what containers need of
  a comparator, interpreted on timers, header names and byte strings; \<open>transfer\<close> one step of a stream loop,
  interpreted on four loops; \<open>pct_states\<close> three states of a machine that read percent-encoded text, interpreted on the
  machines of requests and URIs.

  \<^bold>\<open>Loops.\<close> Loops are structural, or have a termination measure. The loops that read the head of a message and
  the chunks of a body are partial functions in the option type, since a stream may deliver for ever; they
  are proved to return on every finite input. A call of the kernel, the clock, the address of a new object,
  the YAML and SSL libraries and the callbacks of users are arguments; hypotheses such as \<open>source_ok\<close>, \<open>sink_ok\<close>, \<open>net_law\<close>
  and \<open>reads_back\<close> state the documented behaviour of a call.

  \<^bold>\<open>Not modelled.\<close> Threads, locks and singletons wrap the system's own, and a locked section is one step of the models
  above. The clock, file and backtrace helpers of \<open>src/util.cc\<close> call the operating system. Of \<open>src/iomanager.cc\<close> the destructor
  and the printing of epoll flags are left out. Tests and examples are not part of the library.
\<close>

end
